(* ===== verification/Js_Prelude.thy ===== *)
theory Js_Prelude
  imports Main "HOL-Library.Char_ord"
begin

text \<open>
  The part of the ECMAScript runtime that the backend's code uses, and the generic material the
  component theories share.

  \<^item> Strings are \<^typ>\<open>string\<close>; a \<^typ>\<open>char\<close> stands for a UTF-16 code unit below 256, which
    covers every literal, key, address and digit string the modelled code builds or inspects.
  \<^item> Numbers are \<^typ>\<open>int\<close> wherever the code computes with ledger sequences, identifiers,
    counters and millisecond timestamps (all below \<open>2\<^sup>5\<^sup>3\<close>, where IEEE doubles are exact). Where a
    conversion can fail the result is a \<open>jnum\<close>: \<open>NaN\<close>, an infinity, an integer, or a decimal
    fraction that is not an integer.
  \<^item> A statement that may throw is a function \<open>'s \<Rightarrow> ('e + 'a) \<times> 's\<close>: the thrown value or the
    result, and the state left behind, so a \<open>catch\<close> sees every effect made before the throw.
  \<^item> \<open>step_system\<close> is the interface of every component that is a state machine: an initial
    predicate, a step function and an invariant; its lemmas lift one-step facts to whole runs.
\<close>

named_theorems js_defs \<open>definitions of the runtime operations, for evaluation\<close>
named_theorems se_simps \<open>evaluation rules of the state-and-exception combinators\<close>

section \<open>Numbers\<close>

datatype jnum = NaN | Infinity bool | Fin int | Frac int nat

text \<open>\<open>Frac m k\<close> is \<open>m / 10\<^sup>k\<close>, not an integer; \<open>Infinity b\<close> is positive for \<open>b\<close>.\<close>

definition js_isFinite :: "jnum \<Rightarrow> bool" where
  "js_isFinite x = (case x of NaN \<Rightarrow> False | Infinity _ \<Rightarrow> False | Fin _ \<Rightarrow> True | Frac _ _ \<Rightarrow> True)"

definition js_isInteger :: "jnum \<Rightarrow> bool" where
  "js_isInteger x = (case x of Fin _ \<Rightarrow> True | _ \<Rightarrow> False)"

text \<open>\<open>Math.floor\<close> of a finite number.\<close>

definition js_floor :: "jnum \<Rightarrow> jnum" where
  "js_floor x = (case x of Frac m k \<Rightarrow> Fin (m div 10 ^ k) | y \<Rightarrow> y)"

text \<open>\<open>a < b\<close>, \<open>a > b\<close>, \<open>a <= b\<close> with \<open>a\<close> an integer: every comparison with \<open>NaN\<close> is false.\<close>

definition js_int_lt :: "int \<Rightarrow> jnum \<Rightarrow> bool" where
  "js_int_lt a x = (case x of NaN \<Rightarrow> False | Infinity p \<Rightarrow> p | Fin b \<Rightarrow> a < b | Frac m k \<Rightarrow> a * 10 ^ k < m)"

definition js_int_gt :: "int \<Rightarrow> jnum \<Rightarrow> bool" where
  "js_int_gt a x = (case x of NaN \<Rightarrow> False | Infinity p \<Rightarrow> \<not> p | Fin b \<Rightarrow> b < a | Frac m k \<Rightarrow> m < a * 10 ^ k)"

definition js_int_le :: "int \<Rightarrow> jnum \<Rightarrow> bool" where
  "js_int_le a x = (case x of NaN \<Rightarrow> False | Infinity p \<Rightarrow> p | Fin b \<Rightarrow> a \<le> b | Frac m k \<Rightarrow> a * 10 ^ k \<le> m)"

definition js_int_ge :: "int \<Rightarrow> jnum \<Rightarrow> bool" where
  "js_int_ge a x = (case x of NaN \<Rightarrow> False | Infinity p \<Rightarrow> \<not> p | Fin b \<Rightarrow> b \<le> a | Frac m k \<Rightarrow> m \<le> a * 10 ^ k)"

text \<open>\<open>Math.ceil(a / b)\<close> and JavaScript's \<open>a % b\<close> (sign of the dividend) for a positive \<open>b\<close>.\<close>

definition ceil_div :: "int \<Rightarrow> int \<Rightarrow> int" where
  "ceil_div a b = - ((- a) div b)"

definition js_rem :: "int \<Rightarrow> int \<Rightarrow> int" where
  "js_rem a b = (if a < 0 then - ((- a) mod b) else a mod b)"

section \<open>Strings\<close>

definition is_digit :: "char \<Rightarrow> bool" where
  "is_digit c = (let n = of_char c :: nat in 48 \<le> n \<and> n \<le> 57)"

definition digit_val :: "char \<Rightarrow> nat" where
  "digit_val c = of_char c - 48"

definition digit_char :: "nat \<Rightarrow> char" where
  "digit_char d = char_of (48 + d)"

fun show_nat :: "nat \<Rightarrow> string" where
  "show_nat n = (if n < 10 then [digit_char n] else show_nat (n div 10) @ [digit_char (n mod 10)])"

declare show_nat.simps [simp del]

text \<open>\<open>String(n)\<close> of an integer.\<close>

definition show_int :: "int \<Rightarrow> string" where
  "show_int i = (if i < 0 then CHR ''-'' # show_nat (nat (- i)) else show_nat (nat i))"

definition digits_val :: "string \<Rightarrow> nat" where
  "digits_val s = foldl (\<lambda>a c. 10 * a + digit_val c) 0 s"

definition is_space :: "char \<Rightarrow> bool" where
  "is_space c = (let n = of_char c :: nat in (9 \<le> n \<and> n \<le> 13) \<or> n = 32 \<or> n = 160)"

definition ltrim :: "string \<Rightarrow> string" where
  "ltrim s = dropWhile is_space s"

definition trim :: "string \<Rightarrow> string" where
  "trim s = rev (dropWhile is_space (rev (dropWhile is_space s)))"

definition lower_char :: "char \<Rightarrow> char" where
  "lower_char c = (let n = of_char c :: nat in if 65 \<le> n \<and> n \<le> 90 then char_of (n + 32) else c)"

definition to_lower :: "string \<Rightarrow> string" where
  "to_lower s = map lower_char s"

text \<open>\<open>s.split(sep)\<close> for a one-character separator.\<close>

fun split_on :: "char \<Rightarrow> string \<Rightarrow> string list" where
  "split_on c [] = [[]]"
| "split_on c (x # xs) =
     (if x = c then [] # split_on c xs
      else case split_on c xs of [] \<Rightarrow> [[x]] | w # ws \<Rightarrow> (x # w) # ws)"

text \<open>\<open>xs.join(sep)\<close>.\<close>

fun join_with :: "string \<Rightarrow> string list \<Rightarrow> string" where
  "join_with sep [] = []"
| "join_with sep [x] = x"
| "join_with sep (x # y # ys) = x @ sep @ join_with sep (y # ys)"

definition starts_with :: "string \<Rightarrow> string \<Rightarrow> bool" where
  "starts_with p s = (take (length p) s = p)"

definition ends_with :: "string \<Rightarrow> string \<Rightarrow> bool" where
  "ends_with p s = (length p \<le> length s \<and> drop (length s - length p) s = p)"

text \<open>\<open>s.includes(p)\<close>.\<close>

fun str_includes :: "string \<Rightarrow> string \<Rightarrow> bool" where
  "str_includes p [] = (p = [])"
| "str_includes p (x # xs) = (starts_with p (x # xs) \<or> str_includes p xs)"

text \<open>\<open>s.indexOf(c)\<close> for one character: \<open>None\<close> is \<open>-1\<close>; the pair is \<open>slice(0, i)\<close>, \<open>slice(i + 1)\<close>.\<close>

fun split_first :: "char \<Rightarrow> string \<Rightarrow> (string \<times> string) option" where
  "split_first c [] = None"
| "split_first c (x # xs) =
     (if x = c then Some ([], xs) else map_option (\<lambda>(a, b). (x # a, b)) (split_first c xs))"

text \<open>\<open>new Date(ms).toISOString()\<close> for the years 0 to 9999.\<close>

definition pad_left :: "nat \<Rightarrow> string \<Rightarrow> string" where
  "pad_left n s = replicate (n - length s) (CHR ''0'') @ s"

definition civil_date :: "int \<Rightarrow> int \<times> int \<times> int" where
  "civil_date days =
     (let z = days + 719468; era = z div 146097; doe = z mod 146097;
          yoe = (doe - doe div 1460 + doe div 36524 - doe div 146096) div 365;
          doy = doe - (365 * yoe + yoe div 4 - yoe div 100);
          mp = (5 * doy + 2) div 153;
          d = doy - (153 * mp + 2) div 5 + 1;
          m = (if mp < 10 then mp + 3 else mp - 9)
      in (yoe + era * 400 + (if m \<le> 2 then 1 else 0), m, d))"

definition js_toISOString :: "int \<Rightarrow> string" where
  "js_toISOString ms =
     (let (y, mo, d) = civil_date (ms div 86400000); t = ms mod 86400000;
          two = (\<lambda>n. pad_left 2 (show_int n))
      in pad_left 4 (show_int y) @ ''-'' @ two mo @ ''-'' @ two d @ ''T'' @ two (t div 3600000) @ '':'' @
         two (t div 60000 mod 60) @ '':'' @ two (t div 1000 mod 60) @ ''.'' @ pad_left 3 (show_int (t mod 1000)) @ ''Z'')"

section \<open>String to number conversions\<close>

text \<open>\<open>parseInt(s, 10)\<close>.\<close>

definition parseInt :: "string \<Rightarrow> jnum" where
  "parseInt s =
     (let t = ltrim s;
          neg = (t \<noteq> [] \<and> hd t = CHR ''-'');
          u = (if t \<noteq> [] \<and> (hd t = CHR ''-'' \<or> hd t = CHR ''+'') then tl t else t);
          ds = takeWhile is_digit u
      in if ds = [] then NaN
         else Fin (if neg then - int (digits_val ds) else int (digits_val ds)))"

definition is_hex :: "char \<Rightarrow> bool" where
  "is_hex c = (let n = of_char c :: nat in
     (48 \<le> n \<and> n \<le> 57) \<or> (65 \<le> n \<and> n \<le> 70) \<or> (97 \<le> n \<and> n \<le> 102))"

definition hex_val :: "char \<Rightarrow> nat" where
  "hex_val c = (let n = of_char c :: nat in
     if n \<le> 57 then n - 48 else if n \<le> 70 then n - 55 else n - 87)"

definition radix_val :: "nat \<Rightarrow> string \<Rightarrow> nat" where
  "radix_val b s = foldl (\<lambda>a c. b * a + hex_val c) 0 s"

text \<open>The exact value \<open>m * 10\<^sup>e\<close> of a decimal literal.\<close>

definition dec_value :: "int \<Rightarrow> int \<Rightarrow> jnum" where
  "dec_value m e =
     (if 0 \<le> e then Fin (m * 10 ^ nat e)
      else if m mod 10 ^ nat (- e) = 0 then Fin (m div 10 ^ nat (- e))
      else Frac m (nat (- e)))"

definition radix_literal :: "string \<Rightarrow> jnum option" where
  "radix_literal t =
     (if length t < 3 \<or> hd t \<noteq> CHR ''0'' then None
      else let p = lower_char (t ! 1); body = drop 2 t in
        if p = CHR ''x'' \<and> list_all is_hex body then Some (Fin (int (radix_val 16 body)))
        else if p = CHR ''o'' \<and> list_all (\<lambda>c. is_digit c \<and> digit_val c < 8) body
          then Some (Fin (int (radix_val 8 body)))
        else if p = CHR ''b'' \<and> list_all (\<lambda>c. is_digit c \<and> digit_val c < 2) body
          then Some (Fin (int (radix_val 2 body)))
        else None)"

text \<open>The exponent part: empty, or \<open>e\<close> with an optionally signed digit string.\<close>

definition exponent_part :: "string \<Rightarrow> int option" where
  "exponent_part s =
     (case s of [] \<Rightarrow> Some 0
      | c # r \<Rightarrow>
         if lower_char c \<noteq> CHR ''e'' then None
         else let neg = (r \<noteq> [] \<and> hd r = CHR ''-'');
                  ds = (if r \<noteq> [] \<and> (hd r = CHR ''-'' \<or> hd r = CHR ''+'') then tl r else r)
              in if ds = [] \<or> \<not> list_all is_digit ds then None
                 else Some (if neg then - int (digits_val ds) else int (digits_val ds)))"

definition decimal_literal :: "bool \<Rightarrow> string \<Rightarrow> jnum" where
  "decimal_literal neg u =
     (let ip = takeWhile is_digit u;
          r = dropWhile is_digit u;
          dot = (r \<noteq> [] \<and> hd r = CHR ''.'');
          fp = (if dot then takeWhile is_digit (tl r) else []);
          r' = (if dot then dropWhile is_digit (tl r) else r)
      in if ip = [] \<and> fp = [] then NaN
         else case exponent_part r' of None \<Rightarrow> NaN
         | Some e \<Rightarrow> dec_value (let m = int (digits_val (ip @ fp)) in if neg then - m else m)
                               (e - int (length fp)))"

text \<open>\<open>Number(s)\<close>: trimmed, the empty string is 0, then a radix literal, \<open>Infinity\<close>, or a
  decimal literal that spans the whole string.\<close>

definition js_Number :: "string \<Rightarrow> jnum" where
  "js_Number s =
     (let t = trim s in
      if t = [] then Fin 0
      else case radix_literal t of Some n \<Rightarrow> n
      | None \<Rightarrow>
         let neg = (hd t = CHR ''-'');
             u = (if hd t = CHR ''-'' \<or> hd t = CHR ''+'' then tl t else t)
         in if u = ''Infinity'' then Infinity (\<not> neg) else decimal_literal neg u)"

text \<open>\<open>BigInt(s)\<close>: \<open>None\<close> is a \<open>SyntaxError\<close>.\<close>

definition js_BigInt :: "string \<Rightarrow> int option" where
  "js_BigInt s =
     (let t = trim s in
      if t = [] then Some 0
      else case radix_literal t of Some (Fin n) \<Rightarrow> Some n | Some _ \<Rightarrow> None
      | None \<Rightarrow>
         let ds = (if hd t = CHR ''-'' \<or> hd t = CHR ''+'' then tl t else t)
         in if ds = [] \<or> \<not> list_all is_digit ds then None
            else Some (if hd t = CHR ''-'' then - int (digits_val ds) else int (digits_val ds)))"

section \<open>Statements that may throw\<close>

type_synonym ('s, 'e, 'a) se = "'s \<Rightarrow> ('e + 'a) \<times> 's"

definition se_return :: "'a \<Rightarrow> ('s, 'e, 'a) se" where
  "se_return a s = (Inr a, s)"

definition se_throw :: "'e \<Rightarrow> ('s, 'e, 'a) se" where
  "se_throw e s = (Inl e, s)"

definition se_bind :: "('s, 'e, 'a) se \<Rightarrow> ('a \<Rightarrow> ('s, 'e, 'b) se) \<Rightarrow> ('s, 'e, 'b) se" where
  "se_bind m k s = (case m s of (Inl e, s') \<Rightarrow> (Inl e, s') | (Inr a, s') \<Rightarrow> k a s')"

text \<open>\<open>try { m } catch (e) { h e }\<close>: the effects of \<open>m\<close> before the throw stay.\<close>

definition se_try :: "('s, 'e, 'a) se \<Rightarrow> ('e \<Rightarrow> ('s, 'f, 'a) se) \<Rightarrow> ('s, 'f, 'a) se" where
  "se_try m h s = (case m s of (Inl e, s') \<Rightarrow> h e s' | (Inr a, s') \<Rightarrow> (Inr a, s'))"

section \<open>State machines\<close>

definition and_then :: "'e + 'a \<Rightarrow> ('a \<Rightarrow> 'e + 'b) \<Rightarrow> 'e + 'b" where
  "and_then r f = (case r of Inl e \<Rightarrow> Inl e | Inr a \<Rightarrow> f a)"

fun run_steps :: "('s \<Rightarrow> 'a \<Rightarrow> 's) \<Rightarrow> 's \<Rightarrow> 'a list \<Rightarrow> 's" where
  "run_steps f s [] = s"
| "run_steps f s (a # as) = run_steps f (f s a) as"

section \<open>Facts about the runtime\<close>

lemmas [js_defs] = js_isFinite_def js_isInteger_def js_floor_def js_int_lt_def js_int_gt_def
  js_int_le_def js_int_ge_def is_digit_def digit_val_def digit_char_def is_space_def ltrim_def
  trim_def lower_char_def to_lower_def starts_with_def ends_with_def parseInt_def js_Number_def
  decimal_literal_def radix_literal_def exponent_part_def dec_value_def digits_val_def show_int_def
  is_hex_def hex_val_def radix_val_def Let_def

lemma se_return_simp [se_simps, simp]: "se_return a s = (Inr a, s)"
  by (simp add: se_return_def)

lemma se_throw_simp [se_simps, simp]: "se_throw e s = (Inl e, s)"
  by (simp add: se_throw_def)

lemma se_bind_Inr [se_simps]: "m s = (Inr a, s') \<Longrightarrow> se_bind m k s = k a s'"
  by (simp add: se_bind_def)

lemma se_bind_Inl [se_simps]: "m s = (Inl e, s') \<Longrightarrow> se_bind m k s = (Inl e, s')"
  by (simp add: se_bind_def)

lemma se_try_Inr [se_simps]: "m s = (Inr a, s') \<Longrightarrow> se_try m h s = (Inr a, s')"
  by (simp add: se_try_def)

lemma se_try_Inl [se_simps]: "m s = (Inl e, s') \<Longrightarrow> se_try m h s = h e s'"
  by (simp add: se_try_def)

lemma and_then_Inr: "and_then r f = Inr b \<longleftrightarrow> (\<exists>a. r = Inr a \<and> f a = Inr b)"
  by (cases r) (auto simp: and_then_def)

lemma and_then_Inl [simp]: "and_then (Inl e) f = Inl e"
  by (simp add: and_then_def)

lemma and_then_value [simp]: "and_then (Inr a) f = f a"
  by (simp add: and_then_def)

lemma se_bind_InrE:
  assumes "se_bind m k s = (Inr b, s')"
  obtains a s1 where "m s = (Inr a, s1)" "k a s1 = (Inr b, s')"
  using assms by (auto simp: se_bind_def split: prod.splits sum.splits)

lemma of_char_digit_char: "d < 10 \<Longrightarrow> of_char (digit_char d) = (48 + d :: nat)"
  by (simp add: digit_char_def)

lemma is_digit_digit_char [simp]: "d < 10 \<Longrightarrow> is_digit (digit_char d)"
  by (simp add: is_digit_def of_char_digit_char)

lemma digit_val_digit_char [simp]: "d < 10 \<Longrightarrow> digit_val (digit_char d) = d"
  by (simp add: digit_val_def of_char_digit_char)

lemma digits_val_Nil [simp]: "digits_val [] = 0"
  by (simp add: digits_val_def)

lemma digits_val_snoc [simp]: "digits_val (s @ [c]) = 10 * digits_val s + digit_val c"
  by (simp add: digits_val_def)

lemma show_nat_digits: "list_all is_digit (show_nat n)"
proof (induction n rule: show_nat.induct)
  case (1 n)
  then show ?case by (cases "n < 10") (simp_all add: show_nat.simps [of n])
qed

lemma digits_val_show_nat [simp]: "digits_val (show_nat n) = n"
proof (induction n rule: show_nat.induct)
  case (1 n)
  show ?case
  proof (cases "n < 10")
    case True
    then have "show_nat n = [] @ [digit_char n]" by (simp add: show_nat.simps [of n])
    with True show ?thesis by (simp only: digits_val_snoc) simp
  next
    case False
    with 1 show ?thesis by (simp add: show_nat.simps [of n])
  qed
qed

lemma show_nat_nonempty [simp]: "show_nat n \<noteq> []"
  by (simp add: show_nat.simps [of n])

lemma show_nat_inj [simp]: "show_nat m = show_nat n \<longleftrightarrow> m = n"
  by (metis digits_val_show_nat)

lemma hd_show_nat_digit: "is_digit (hd (show_nat n))"
  using show_nat_digits [of n] show_nat_nonempty [of n] by (cases "show_nat n") auto

lemma digit_not_space: "is_digit c \<Longrightarrow> \<not> is_space c"
  by (auto simp: is_digit_def is_space_def Let_def)

lemma digit_not_sign: "is_digit c \<Longrightarrow> c \<noteq> CHR ''-'' \<and> c \<noteq> CHR ''+'' \<and> c \<noteq> CHR '':''"
  by (auto simp: is_digit_def)

lemma takeWhile_digits: "list_all is_digit s \<Longrightarrow> takeWhile is_digit s = s"
  by (induction s) auto

lemma dropWhile_digits: "list_all is_digit s \<Longrightarrow> dropWhile is_digit s = []"
  by (induction s) auto

lemma ltrim_show_nat [simp]: "ltrim (show_nat n) = show_nat n"
  using hd_show_nat_digit [of n] show_nat_nonempty [of n] digit_not_space
  by (cases "show_nat n") (auto simp: ltrim_def)

text \<open>Round trip of \<open>n.toString()\<close> and \<open>parseInt(_, 10)\<close>.\<close>

lemma parseInt_show_nat [simp]: "parseInt (show_nat n) = Fin (int n)"
  using hd_show_nat_digit [of n] show_nat_nonempty [of n] digit_not_sign
  by (auto simp: parseInt_def Let_def takeWhile_digits [OF show_nat_digits])

lemma show_int_nonempty [simp]: "show_int i \<noteq> []"
  by (simp add: show_int_def)

lemma ltrim_minus: "ltrim (CHR ''-'' # s) = CHR ''-'' # s"
  by (simp add: ltrim_def is_space_def)

lemma parseInt_show_int [simp]: "parseInt (show_int i) = Fin i"
  by (simp add: show_int_def parseInt_def [of "CHR ''-'' # _"] ltrim_minus Let_def
      takeWhile_digits [OF show_nat_digits])

lemma show_int_inj [simp]: "show_int i = show_int j \<longleftrightarrow> i = j"
  by (metis jnum.inject(2) parseInt_show_int)

lemma trim_no_space: "list_all (\<lambda>c. \<not> is_space c) s \<Longrightarrow> trim s = s"
proof -
  have "list_all (\<lambda>c. \<not> is_space c) t \<Longrightarrow> dropWhile is_space t = t" for t by (cases t) auto
  then show "list_all (\<lambda>c. \<not> is_space c) s \<Longrightarrow> trim s = s" by (simp add: trim_def list_all_rev)
qed

lemma digits_no_space: "list_all is_digit s \<Longrightarrow> list_all (\<lambda>c. \<not> is_space c) s"
  by (auto simp: list_all_iff digit_not_space)

lemma show_int_no_space: "list_all (\<lambda>c. \<not> is_space c) (show_int i)"
  using digits_no_space [OF show_nat_digits] by (simp add: show_int_def is_space_def)

lemma show_int_chars: "c \<in> set (show_int i) \<Longrightarrow> is_digit c \<or> c = CHR ''-''"
  using show_nat_digits [of "nat i"] show_nat_digits [of "nat (- i)"] by (auto simp: show_int_def list_all_iff split: if_splits)

lemma show_int_no: "c \<notin> set (show_int i)" if "\<not> is_digit c" "c \<noteq> CHR ''-''"
  using that show_int_chars by blast

lemma trim_show_int [simp]: "trim (show_int i) = show_int i"
  by (rule trim_no_space [OF show_int_no_space])

lemma radix_literal_digits: "list_all is_digit s \<Longrightarrow> radix_literal s = None"
proof -
  assume d: "list_all is_digit s"
  have "lower_char c = c \<and> c \<noteq> CHR ''x'' \<and> c \<noteq> CHR ''o'' \<and> c \<noteq> CHR ''b''" if "is_digit c" for c
    using that by (auto simp: is_digit_def lower_char_def Let_def)
  moreover have "is_digit (s ! 1)" if "\<not> length s < 3" using that d by (simp add: list_all_length)
  ultimately show ?thesis by (simp add: radix_literal_def Let_def)
qed

lemma show_nat_not_Infinity [simp]: "show_nat n \<noteq> ''Infinity''"
  using show_nat_digits [of n] by (auto simp: is_digit_def)

lemma decimal_literal_show_nat [simp]:
  "decimal_literal neg (show_nat n) = Fin (if neg then - int n else int n)"
  by (simp add: decimal_literal_def takeWhile_digits [OF show_nat_digits]
      dropWhile_digits [OF show_nat_digits] exponent_part_def dec_value_def Let_def)

text \<open>Round trip of \<open>String(n)\<close> and \<open>Number(_)\<close> on integers.\<close>

lemma js_Number_show_int [simp]: "js_Number (show_int i) = Fin i"
proof (cases "i < 0")
  case True
  then have "radix_literal (show_int i) = None" by (simp add: show_int_def radix_literal_def)
  with True trim_show_int [of i] show ?thesis by (simp add: js_Number_def show_int_def Let_def)
next
  case False
  then have s: "show_int i = show_nat (nat i)" by (simp add: show_int_def)
  have "hd (show_nat (nat i)) \<noteq> CHR ''-''" "hd (show_nat (nat i)) \<noteq> CHR ''+''"
    using digit_not_sign [OF hd_show_nat_digit] by auto
  then show ?thesis using False trim_show_int [of i]
    by (simp add: js_Number_def s radix_literal_digits [OF show_nat_digits] Let_def)
qed

lemma split_on_nonempty [simp]: "split_on c s \<noteq> []"
  by (induction s) (auto split: list.splits)

lemma split_on_no_sep: "c \<notin> set s \<Longrightarrow> split_on c s = [s]"
  by (induction s) auto

lemma split_on_append: "c \<notin> set s \<Longrightarrow> split_on c (s @ c # t) = s # split_on c t"
  by (induction s) auto

lemma split_first_append: "c \<notin> set s \<Longrightarrow> split_first c (s @ c # t) = Some (s, t)"
  by (induction s) auto

lemma first_sep_unique: "c \<notin> set a \<Longrightarrow> c \<notin> set a' \<Longrightarrow> a @ c # b = a' @ c # b' \<Longrightarrow> a = a' \<and> b = b'"
proof (induction a arbitrary: a')
  case Nil then show ?case by (cases a') auto
next
  case (Cons x a) then show ?case by (cases a') auto
qed

lemma last_sep_unique: "c \<notin> set b \<Longrightarrow> c \<notin> set b' \<Longrightarrow> a @ c # b = a' @ c # b' \<Longrightarrow> a = a' \<and> b = b'"
proof -
  assume *: "c \<notin> set b" "c \<notin> set b'" "a @ c # b = a' @ c # b'"
  have "rev b @ c # rev a = rev (a @ c # b)" by simp
  also have "\<dots> = rev b' @ c # rev a'" unfolding *(3) by simp
  finally show ?thesis using first_sep_unique [of c "rev b" "rev b'" "rev a" "rev a'"] *(1,2) by simp
qed

lemma ceil_div_mult: "0 < b \<Longrightarrow> a \<le> ceil_div a b * b"
proof -
  assume "0 < b"
  then have "(- a) div b * b \<le> - a"
    by (metis Euclidean_Rings.pos_mod_sign le_add_same_cancel1 div_mult_mod_eq)
  then show ?thesis by (simp add: ceil_div_def)
qed

lemma ceil_div_less: "0 < b \<Longrightarrow> ceil_div a b * b < a + b"
proof -
  assume b: "0 < b"
  have "- a = (- a) div b * b + (- a) mod b" by simp
  moreover have "(- a) mod b < b" using b by simp
  ultimately have "- ((- a) div b * b) < a + b" by linarith
  then show ?thesis by (simp add: ceil_div_def)
qed

lemma length_filter_mono:
  "\<forall>x \<in> set xs. P x \<longrightarrow> Q x \<Longrightarrow> length (filter P xs) \<le> length (filter Q xs)"
  by (induction xs) auto

lemma run_steps_append: "run_steps f s (xs @ ys) = run_steps f (run_steps f s xs) ys"
  by (induction xs arbitrary: s) auto

locale step_system =
  fixes step :: "'s \<Rightarrow> 'a \<Rightarrow> 's"
    and inv :: "'s \<Rightarrow> bool"
  assumes step_inv: "inv s \<Longrightarrow> inv (step s a)"
begin

lemma run_inv: "inv s \<Longrightarrow> inv (run_steps step s as)"
  by (induction as arbitrary: s) (auto simp: step_inv)

end

text \<open>The same for a step relation.\<close>

locale relation_system =
  fixes step :: "'s \<Rightarrow> 's \<Rightarrow> bool"
    and inv :: "'s \<Rightarrow> bool"
  assumes step_inv: "inv s \<Longrightarrow> step s t \<Longrightarrow> inv t"
begin

lemma reach_inv: "step\<^sup>*\<^sup>* s t \<Longrightarrow> inv s \<Longrightarrow> inv t"
  by (induction rule: rtranclp_induct) (auto intro: step_inv)

end

text \<open>A quantity that every step keeps or raises.\<close>

locale monotone_system =
  fixes step :: "'s \<Rightarrow> 'a \<Rightarrow> 's"
    and level :: "'s \<Rightarrow> int"
  assumes step_level: "level s \<le> level (step s a)"
begin

lemma run_level: "level s \<le> level (run_steps step s as)"
proof (induction as arbitrary: s)
  case Nil
  then show ?case by simp
next
  case (Cons a as)
  have "level s \<le> level (step s a)" by (rule step_level)
  also have "\<dots> \<le> level (run_steps step (step s a) as)" by (rule Cons.IH)
  finally show ?case by simp
qed

lemma run_level_prefix: "level (run_steps step s as) \<le> level (run_steps step s (as @ bs))"
  by (simp add: run_steps_append run_level)

end

end
