(* ===== verification/Redis_Model.thy ===== *)
theory Redis_Model
  imports Js_Prelude
begin

text \<open>
  The Redis commands the backend issues through ioredis, with the failures its \<open>try\<close> blocks
  are written for.

  A command that is sent can succeed, be refused (no effect, an error is thrown) or lose its reply
  (the effect happened, an error is thrown). \<open>r_faults\<close> is the outcome of the commands to come;
  once it is used up every command succeeds. Keys with a time to live are kept with the server time
  at which they expire, and every command sees only the keys alive at \<open>r_now\<close>.

  \<open>redis_get\<close>, \<open>redis_set\<close>, \<open>redis_del\<close> are \<open>RedisService\<close> of
  \<open>src/backend/src/cache/redis.service.ts\<close>, which swallows every error. Values are stored as
  themselves: \<open>JSON.parse\<close> after \<open>JSON.stringify\<close> is the identity on the plain records stored.
\<close>

datatype fault = Ok | Refused | ReplyLost

record 'v redis =
  r_now :: int
  r_kv :: "string \<rightharpoonup> 'v \<times> int"
  r_hash :: "string \<Rightarrow> string \<rightharpoonup> string"
  r_zset :: "string \<Rightarrow> (int \<times> string) list"
  r_zexp :: "string \<rightharpoonup> int"
  r_faults :: "fault list"

type_synonym ('v, 'a) rcmd = "('v redis, unit, 'a) se"

text \<open>Sending one command: its outcome is the next of \<open>r_faults\<close>.\<close>

definition send :: "('v redis \<Rightarrow> 'a \<times> 'v redis) \<Rightarrow> ('v, 'a) rcmd" where
  "send f r =
     (case r_faults r of
        [] \<Rightarrow> (let (a, r') = f r in (Inr a, r'))
      | flt # flts \<Rightarrow>
          let r1 = r\<lparr>r_faults := flts\<rparr> in
          (case flt of
             Ok \<Rightarrow> (let (a, r') = f r1 in (Inr a, r'))
           | Refused \<Rightarrow> (Inl (), r1)
           | ReplyLost \<Rightarrow> (Inl (), snd (f r1))))"

section \<open>String keys with a time to live\<close>

definition kv_live :: "'v redis \<Rightarrow> string \<Rightarrow> 'v option" where
  "kv_live r k = (case r_kv r k of None \<Rightarrow> None
     | Some (v, e) \<Rightarrow> if e \<le> r_now r then None else Some v)"

definition c_get :: "string \<Rightarrow> ('v, 'v option) rcmd" where
  "c_get k = send (\<lambda>r. (kv_live r k, r))"

definition c_setex :: "string \<Rightarrow> int \<Rightarrow> 'v \<Rightarrow> ('v, unit) rcmd" where
  "c_setex k ttl v = send (\<lambda>r. ((), r\<lparr>r_kv := (r_kv r)(k \<mapsto> (v, r_now r + ttl * 1000))\<rparr>))"

definition c_del :: "string \<Rightarrow> ('v, unit) rcmd" where
  "c_del k = send (\<lambda>r. ((), r\<lparr>r_kv := (r_kv r)(k := None)\<rparr>))"

text \<open>\<open>SET key value PX ttl NX\<close>: true when the key was set.\<close>

definition c_setnx :: "string \<Rightarrow> int \<Rightarrow> 'v \<Rightarrow> ('v, bool) rcmd" where
  "c_setnx k ttlMs v = send (\<lambda>r. case kv_live r k of
       Some _ \<Rightarrow> (False, r)
     | None \<Rightarrow> (True, r\<lparr>r_kv := (r_kv r)(k \<mapsto> (v, r_now r + ttlMs))\<rparr>))"

text \<open>The release script: delete the key when it holds this value.\<close>

definition c_del_if :: "string \<Rightarrow> 'v \<Rightarrow> ('v, bool) rcmd" where
  "c_del_if k v = send (\<lambda>r. if kv_live r k = Some v
       then (True, r\<lparr>r_kv := (r_kv r)(k := None)\<rparr>) else (False, r))"

section \<open>Hashes\<close>

definition c_hget :: "string \<Rightarrow> string \<Rightarrow> ('v, string option) rcmd" where
  "c_hget k f = send (\<lambda>r. (r_hash r k f, r))"

definition c_hgetall :: "string \<Rightarrow> ('v, string \<rightharpoonup> string) rcmd" where
  "c_hgetall k = send (\<lambda>r. (r_hash r k, r))"

definition hash_upd :: "string \<Rightarrow> (string \<rightharpoonup> string) \<Rightarrow> 'v redis \<Rightarrow> 'v redis" where
  "hash_upd k h r = r\<lparr>r_hash := (r_hash r)(k := h)\<rparr>"

definition c_hset :: "string \<Rightarrow> (string \<times> string) list \<Rightarrow> ('v, unit) rcmd" where
  "c_hset k fvs = send (\<lambda>r. ((), hash_upd k (foldl (\<lambda>h (f, v). h(f \<mapsto> v)) (r_hash r k) fvs) r))"

text \<open>\<open>HINCRBY\<close>; a field that is not an integer makes the server answer with an error, which the
  fields written by this code never do.\<close>

definition field_int :: "(string \<rightharpoonup> string) \<Rightarrow> string \<Rightarrow> int" where
  "field_int h f = (case h f of None \<Rightarrow> 0 | Some s \<Rightarrow> (case parseInt s of Fin i \<Rightarrow> i | _ \<Rightarrow> 0))"

definition c_hincrby :: "string \<Rightarrow> string \<Rightarrow> int \<Rightarrow> ('v, unit) rcmd" where
  "c_hincrby k f n = send (\<lambda>r. ((), hash_upd k ((r_hash r k)(f \<mapsto> show_int (field_int (r_hash r k) f + n))) r))"

definition c_exists_hash :: "string \<Rightarrow> ('v, bool) rcmd" where
  "c_exists_hash k = send (\<lambda>r. (r_hash r k \<noteq> Map.empty, r))"

section \<open>Sorted sets\<close>

definition z_live :: "'v redis \<Rightarrow> string \<Rightarrow> (int \<times> string) list" where
  "z_live r k = (case r_zexp r k of None \<Rightarrow> r_zset r k
     | Some e \<Rightarrow> if e \<le> r_now r then [] else r_zset r k)"

definition z_put :: "string \<Rightarrow> (int \<times> string) list \<Rightarrow> 'v redis \<Rightarrow> 'v redis" where
  "z_put k zs r = r\<lparr>r_zset := (r_zset r)(k := zs),
      r_zexp := (if r_zexp r k \<noteq> None \<and> the (r_zexp r k) \<le> r_now r
                 then (r_zexp r)(k := None) else r_zexp r)\<rparr>"

definition c_zremrangebyscore :: "string \<Rightarrow> int \<Rightarrow> int \<Rightarrow> ('v, unit) rcmd" where
  "c_zremrangebyscore k lo hi =
     send (\<lambda>r. ((), z_put k (filter (\<lambda>(s, m). \<not> (lo \<le> s \<and> s \<le> hi)) (z_live r k)) r))"

definition c_zcard :: "string \<Rightarrow> ('v, nat) rcmd" where
  "c_zcard k = send (\<lambda>r. (length (z_live r k), r))"

text \<open>\<open>ZRANGE key 0 0 WITHSCORES\<close>: the entry of least score.\<close>

definition c_zfirst :: "string \<Rightarrow> ('v, (int \<times> string) option) rcmd" where
  "c_zfirst k = send (\<lambda>r. (case z_live r k of [] \<Rightarrow> None | z # _ \<Rightarrow> Some z, r))"

text \<open>\<open>ZADD\<close> keeps a member once and the set in the order of the scores.\<close>

definition z_insert :: "int \<Rightarrow> string \<Rightarrow> (int \<times> string) list \<Rightarrow> (int \<times> string) list" where
  "z_insert s m zs =
     (let ws = filter (\<lambda>(_, m'). m' \<noteq> m) zs
      in takeWhile (\<lambda>(s', _). s' \<le> s) ws @ (s, m) # dropWhile (\<lambda>(s', _). s' \<le> s) ws)"

definition c_zadd :: "string \<Rightarrow> int \<Rightarrow> string \<Rightarrow> ('v, unit) rcmd" where
  "c_zadd k s m = send (\<lambda>r. ((), z_put k (z_insert s m (z_live r k)) r))"

definition c_pexpire_z :: "string \<Rightarrow> int \<Rightarrow> ('v, unit) rcmd" where
  "c_pexpire_z k ms = send (\<lambda>r. ((), if z_live r k = [] then r
      else r\<lparr>r_zexp := (r_zexp r)(k \<mapsto> r_now r + ms)\<rparr>))"

text \<open>A server with no key.\<close>

definition redis_empty :: "int \<Rightarrow> 'v redis" where
  "redis_empty now = \<lparr>r_now = now, r_kv = Map.empty, r_hash = (\<lambda>_. Map.empty), r_zset = (\<lambda>_. []),
     r_zexp = Map.empty, r_faults = []\<rparr>"

section \<open>RedisService\<close>

definition redis_get :: "string \<Rightarrow> ('v, 'v option) rcmd" where
  "redis_get k = se_try (c_get k) (\<lambda>_. se_return None)"

definition redis_set :: "string \<Rightarrow> 'v \<Rightarrow> int \<Rightarrow> ('v, unit) rcmd" where
  "redis_set k v ttl = se_try (c_setex k ttl v) (\<lambda>_. se_return ())"

definition redis_del :: "string \<Rightarrow> ('v, unit) rcmd" where
  "redis_del k = se_try (c_del k) (\<lambda>_. se_return ())"

definition redis_acquireLock :: "string \<Rightarrow> int \<Rightarrow> 'v \<Rightarrow> ('v, bool) rcmd" where
  "redis_acquireLock k ttl one = se_try (c_setnx (''lock:'' @ k) (ttl * 1000) one) (\<lambda>_. se_return False)"

definition redis_releaseLock :: "string \<Rightarrow> ('v, unit) rcmd" where
  "redis_releaseLock k = se_try (c_del (''lock:'' @ k)) (\<lambda>_. se_return ())"

text \<open>\<open>delPattern\<close> of a literal followed by a star. ioredis puts the key prefix in front of keys, but neither in front of the
  pattern of \<open>KEYS\<close> nor off its replies; keys of the model are those without the prefix. The argument is the
  reply of the server, of which \<open>keys_reply\<close> says what it contains.\<close>

definition keys_reply :: "string \<Rightarrow> 'v redis \<Rightarrow> string \<Rightarrow> string list \<Rightarrow> bool" where
  "keys_reply keyPrefix r lit reply =
     list_all (\<lambda>raw. starts_with keyPrefix raw \<and> kv_live r (drop (length keyPrefix) raw) \<noteq> None \<and> starts_with lit raw) reply"

definition redis_delPattern :: "string list \<Rightarrow> ('v, unit) rcmd" where
  "redis_delPattern reply =
     se_try (se_bind (send (\<lambda>r. (reply, r)))
       (\<lambda>keys. if keys \<noteq> [] then send (\<lambda>r. ((), r\<lparr>r_kv := (\<lambda>k. if k \<in> set keys then None else r_kv r k)\<rparr>)) else se_return ()))
       (\<lambda>_. se_return ())"

text \<open>\<open>buildKeyPrefix\<close> of \<open>src/backend/src/redis/config.ts\<close>.\<close>

definition buildKeyPrefix :: "string \<Rightarrow> string \<Rightarrow> string" where
  "buildKeyPrefix appName env = appName @ '':'' @ env @ '':''"

section \<open>Behaviour with a reachable server\<close>

named_theorems redis_ok \<open>effect of each command when no fault is due\<close>

lemma send_ok [redis_ok]: "r_faults r = [] \<Longrightarrow> send f r = (Inr (fst (f r)), snd (f r))"
  by (simp add: send_def split: prod.split)

lemma send_fault:
  "r_faults r = Ok # fs \<Longrightarrow> send f r = (Inr (fst (f (r\<lparr>r_faults := fs\<rparr>))), snd (f (r\<lparr>r_faults := fs\<rparr>)))"
  "r_faults r = Refused # fs \<Longrightarrow> send f r = (Inl (), r\<lparr>r_faults := fs\<rparr>)"
  "r_faults r = ReplyLost # fs \<Longrightarrow> send f r = (Inl (), snd (f (r\<lparr>r_faults := fs\<rparr>)))"
  by (simp_all add: send_def case_prod_unfold Let_def)

lemma send_cases:
  obtains (answered) r0 where "r0 = r \<or> (\<exists>fs. r_faults r = Ok # fs \<and> r0 = r\<lparr>r_faults := fs\<rparr>)"
      "r_faults r0 = tl (r_faults r)" "list_all (\<lambda>x. x = Ok) (take 1 (r_faults r))"
      "send f r = (Inr (fst (f r0)), snd (f r0))"
  | (failed) r' where "send f r = (Inl (), r')"
proof (cases "r_faults r")
  case Nil
  then show thesis using answered [of r] by (simp add: send_ok)
next
  case (Cons x fs)
  then show thesis
    using answered [of "r\<lparr>r_faults := fs\<rparr>"] failed by (cases x) (simp_all add: send_fault)
qed

lemma send_InrE:
  assumes "send f r = (Inr a, r1)"
  obtains r0 where "r_faults r0 = tl (r_faults r)" "list_all (\<lambda>x. x = Ok) (take 1 (r_faults r))"
    "a = fst (f r0)" "r1 = snd (f r0)"
  by (rule send_cases [of r f]) (use assms that in auto)

text \<open>A property that the command and the consumption of its outcome keep is kept by sending it.\<close>

lemma send_inv:
  assumes "\<And>r. P r \<Longrightarrow> P (snd (f r))" "\<And>r fs. P r \<Longrightarrow> P (r\<lparr>r_faults := fs\<rparr>)" "P r"
  shows "P (snd (send f r))"
proof (cases "r_faults r")
  case Nil
  then show ?thesis using assms by (simp add: send_ok)
next
  case (Cons x fs)
  then show ?thesis using assms by (cases x) (simp_all add: send_fault)
qed

lemmas cmd_defs = c_get_def c_setex_def c_del_def c_setnx_def c_del_if_def c_hget_def c_hgetall_def
  c_hset_def c_hincrby_def c_exists_hash_def c_zremrangebyscore_def c_zcard_def c_zfirst_def
  c_zadd_def c_pexpire_z_def

lemma se_bind_send [redis_ok]:
  "r_faults r = [] \<Longrightarrow> se_bind (send f) g r = g (fst (f r)) (snd (f r))"
  by (simp add: se_bind_def send_ok)

lemma se_try_send [redis_ok]:
  "r_faults r = [] \<Longrightarrow> se_try (send f) h r = (Inr (fst (f r)), snd (f r))"
  by (simp add: se_try_def send_ok)

lemma redis_get_ok [redis_ok]: "r_faults r = [] \<Longrightarrow> redis_get k r = (Inr (kv_live r k), r)"
  by (simp add: redis_get_def c_get_def se_try_send)

lemma redis_set_ok [redis_ok]:
  "r_faults r = [] \<Longrightarrow> redis_set k v ttl r = (Inr (), r\<lparr>r_kv := (r_kv r)(k \<mapsto> (v, r_now r + ttl * 1000))\<rparr>)"
  by (simp add: redis_set_def c_setex_def se_try_send)

lemma redis_del_ok [redis_ok]:
  "r_faults r = [] \<Longrightarrow> redis_del k r = (Inr (), r\<lparr>r_kv := (r_kv r)(k := None)\<rparr>)"
  by (simp add: redis_del_def c_del_def se_try_send)

lemma hash_upd_hash [simp]: "r_hash (hash_upd k h r) = (r_hash r)(k := h)"
  by (simp add: hash_upd_def)

lemma hash_upd_faults [simp]: "r_faults (hash_upd k h r) = r_faults r"
  by (simp add: hash_upd_def)

lemma z_put_faults [simp]: "r_faults (z_put k zs r) = r_faults r"
  by (simp add: z_put_def)

lemma z_put_now [simp]: "r_now (z_put k zs r) = r_now r"
  by (simp add: z_put_def)

lemma z_live_put [simp]: "z_live (z_put k zs r) k = zs"
  by (auto simp: z_live_def z_put_def split: option.splits)

lemma z_live_put_other [simp]: "j \<noteq> k \<Longrightarrow> z_live (z_put k zs r) j = z_live r j"
  by (auto simp: z_live_def z_put_def split: option.splits)

lemma set_z_insert:
  "set (z_insert s m zs) = insert (s, m) (set (filter (\<lambda>(_, m'). m' \<noteq> m) zs))"
proof -
  let ?ws = "filter (\<lambda>(_, m'). m' \<noteq> m) zs"
  have "set (takeWhile (\<lambda>(s', _). s' \<le> s) ?ws) \<union> set (dropWhile (\<lambda>(s', _). s' \<le> s) ?ws) = set ?ws"
    by (metis set_append takeWhile_dropWhile_id)
  then show ?thesis by (auto simp: z_insert_def Let_def)
qed

lemma length_z_insert_fresh:
  assumes "m \<notin> snd ` set zs"
  shows "length (z_insert s m zs) = Suc (length zs)"
proof -
  have "filter (\<lambda>(_, m'). m' \<noteq> m) zs = zs"
    using assms by (force simp: filter_id_conv)
  moreover have "length (takeWhile (\<lambda>(s', _). s' \<le> s) zs) + length (dropWhile (\<lambda>(s', _). s' \<le> s) zs) = length zs"
    by (metis length_append takeWhile_dropWhile_id)
  ultimately show ?thesis by (simp add: z_insert_def)
qed

lemma z_insert_last:
  assumes "m \<notin> snd ` set zs" and "\<forall>(s', _) \<in> set zs. s' \<le> s"
  shows "z_insert s m zs = zs @ [(s, m)]"
proof -
  have "filter (\<lambda>(_, m'). m' \<noteq> m) zs = zs"
    using assms(1) by (force simp: filter_id_conv)
  moreover have "takeWhile (\<lambda>(s', _). s' \<le> s) zs = zs"
    using assms(2) by (simp add: takeWhile_eq_all_conv)
  moreover have "dropWhile (\<lambda>(s', _). s' \<le> s) zs = []"
    using assms(2) by (simp add: dropWhile_eq_Nil_conv)
  ultimately show ?thesis by (simp add: z_insert_def)
qed

section \<open>Whatever fails\<close>

text \<open>The three outcomes of one command, and what \<open>RedisService\<close> makes of them.\<close>

lemma send_effect: "snd (send f r) \<in> {r\<lparr>r_faults := tl (r_faults r)\<rparr>, snd (f (r\<lparr>r_faults := tl (r_faults r)\<rparr>))}"
proof (cases "r_faults r")
  case Nil
  then have "f (r\<lparr>r_faults := []\<rparr>) = f r" by (cases r) simp
  then show ?thesis using Nil by (simp add: send_def case_prod_unfold Let_def)
qed (auto simp: send_def Let_def case_prod_unfold split: fault.split)

lemma se_try_unit: "snd (se_try m se_return s) = snd (m s)"
  by (simp add: se_try_def split: prod.split sum.split)

lemma se_try_const: "snd (se_try m (\<lambda>_. se_return a) s) = snd (m s)"
  by (simp add: se_try_def split: prod.split sum.split)

lemmas se_try_state = se_try_unit se_try_const

lemma redis_get_state: "r_now (snd (redis_get k r)) = r_now r \<and> r_kv (snd (redis_get k r)) = r_kv r"
  using send_effect [of "\<lambda>r. (kv_live r k, r)" r] by (auto simp: redis_get_def c_get_def se_try_state)

lemma redis_get_value: "fst (redis_get k r) = Inr (Some v) \<Longrightarrow> kv_live r k = Some v"
  by (cases "r_faults r")
    (auto simp: redis_get_def c_get_def send_def se_try_def Let_def kv_live_def split: fault.splits option.splits if_splits)

lemma redis_set_state:
  "r_now (snd (redis_set k v ttl r)) = r_now r \<and> r_kv (snd (redis_set k v ttl r)) \<in> {r_kv r, (r_kv r)(k \<mapsto> (v, r_now r + ttl * 1000))}"
  using send_effect [of "\<lambda>r. ((), r\<lparr>r_kv := (r_kv r)(k \<mapsto> (v, r_now r + ttl * 1000))\<rparr>)" r]
  by (auto simp: redis_set_def c_setex_def se_try_state)

lemma redis_delPattern_state:
  "r_now (snd (redis_delPattern reply r)) = r_now r \<and>
   r_kv (snd (redis_delPattern reply r)) \<in> {r_kv r, \<lambda>k. if k \<in> set reply then None else r_kv r k}"
proof -
  obtain x r1 where 1: "send (\<lambda>r. (reply, r)) r = (x, r1)" by fastforce
  then have r1: "r_now r1 = r_now r" "r_kv r1 = r_kv r" using send_effect [of "\<lambda>r. (reply, r)" r] by auto
  have x: "a = reply" if "x = Inr a" for a
    using 1 that by (cases "r_faults r") (auto simp: send_def Let_def split: fault.splits)
  show ?thesis
    using 1 r1 x send_effect [of "\<lambda>r. ((), r\<lparr>r_kv := (\<lambda>k. if k \<in> set reply then None else r_kv r k)\<rparr>)" r1]
    by (cases x) (auto simp: redis_delPattern_def se_try_state se_bind_def)
qed

text \<open>A pattern under which no key of this prefix can be selects nothing.\<close>

lemma starts_with_both: "starts_with a s \<Longrightarrow> starts_with b s \<Longrightarrow> starts_with a b \<or> starts_with b a"
proof (induction a b arbitrary: s rule: list_induct2')
  case (4 x xs y ys)
  then show ?case by (cases s) (auto simp: starts_with_def)
qed (simp_all add: starts_with_def)

lemma delPattern_misses:
  assumes "keys_reply keyPrefix r lit reply" "\<not> starts_with lit keyPrefix" "\<not> starts_with keyPrefix lit"
  shows "reply = []"
proof (cases reply)
  case (Cons raw xs)
  then have "starts_with keyPrefix raw" "starts_with lit raw" using assms(1) by (simp_all add: keys_reply_def)
  then show ?thesis using starts_with_both assms(2,3) by blast
qed simp

end
