(* ===== verification/Rate_Limit.thy ===== *)
theory Rate_Limit
  imports Redis_Model
begin

text \<open>
  \<open>src/backend/src/rate-limit\<close>: the per-policy fixed window counted in ledgers
  (\<open>checkAndIncrement\<close> and its administration) and the sliding windows on Redis sorted sets
  (\<open>checkWalletLimit\<close>, \<open>checkWalletEvidenceLimit\<close>, \<open>checkLimit\<close>, \<open>checkGlobalLimit\<close>), with
  the guards that call them. Every \<open>try\<close>/\<open>catch\<close> is kept, so a Redis failure takes the path
  the code takes. A clock reading and the random member suffix are arguments.
\<close>

section \<open>Constants and keys\<close>

definition DEFAULT_LIMIT :: int where "DEFAULT_LIMIT = 5"
definition WINDOW_SIZE_LEDGERS :: int where "WINDOW_SIZE_LEDGERS = 17280"
definition ABSOLUTE_MAX_CAP :: int where "ABSOLUTE_MAX_CAP = 100"

definition key_COUNTER :: "string \<Rightarrow> string" where
  "key_COUNTER policyId = ''rate_limit:counter:'' @ policyId"
definition key_CONFIG :: "string \<Rightarrow> string" where
  "key_CONFIG policyId = ''rate_limit:config:'' @ policyId"
definition key_DEFAULTS :: string where
  "key_DEFAULTS = ''rate_limit:defaults''"
definition key_WALLET_WINDOW :: "string \<Rightarrow> string" where
  "key_WALLET_WINDOW wallet = ''rate_limit:wallet:'' @ wallet"
definition key_GLOBAL_WINDOW :: string where
  "key_GLOBAL_WINDOW = ''rate_limit:global''"

section \<open>Arithmetic on values parsed from Redis\<close>

definition jn_add :: "jnum \<Rightarrow> jnum \<Rightarrow> jnum" where
  "jn_add x y = (case (x, y) of (Fin a, Fin b) \<Rightarrow> Fin (a + b) | _ \<Rightarrow> NaN)"

definition jn_ge :: "jnum \<Rightarrow> jnum \<Rightarrow> bool" where
  "jn_ge x y = (case (x, y) of (Fin a, Fin b) \<Rightarrow> b \<le> a | _ \<Rightarrow> False)"

text \<open>\<open>if (s)\<close> on a value that may be missing: a missing or empty string is false.\<close>

definition truthy :: "string option \<Rightarrow> bool" where
  "truthy so = (case so of None \<Rightarrow> False | Some s \<Rightarrow> s \<noteq> [])"

definition parse_or :: "string option \<Rightarrow> int \<Rightarrow> jnum" where
  "parse_or so d = (if truthy so then parseInt (the so) else Fin d)"

section \<open>Per-policy fixed window\<close>

record rate_result =
  allowed :: bool
  currentCount :: jnum
  limit :: jnum
  windowAnchor :: jnum
  windowResetLedger :: jnum
  overrideActive :: bool

definition initializeDefaults :: "('v, unit) rcmd" where
  "initializeDefaults =
     se_try (se_bind (c_exists_hash key_DEFAULTS) (\<lambda>ex.
         if ex then se_return ()
         else c_hset key_DEFAULTS
           [(''defaultLimit'', show_int DEFAULT_LIMIT), (''windowSize'', show_int WINDOW_SIZE_LEDGERS),
            (''absoluteMax'', show_int ABSOLUTE_MAX_CAP)]))
       (\<lambda>_. se_return ())"

definition getWindowSize :: "('v, jnum) rcmd" where
  "getWindowSize =
     se_try (se_bind (c_hget key_DEFAULTS ''windowSize'') (\<lambda>w. se_return (parse_or w WINDOW_SIZE_LEDGERS)))
       (\<lambda>_. se_return (Fin WINDOW_SIZE_LEDGERS))"

definition getEffectiveLimit :: "string \<Rightarrow> ('v, jnum) rcmd" where
  "getEffectiveLimit policyId =
     se_try (se_bind (c_hget (key_CONFIG policyId) ''limit'') (\<lambda>customLimit.
         if truthy customLimit then se_return (parseInt (the customLimit))
         else se_bind (c_hget key_DEFAULTS ''defaultLimit'') (\<lambda>d. se_return (parse_or d DEFAULT_LIMIT))))
       (\<lambda>_. se_return (Fin DEFAULT_LIMIT))"

definition checkAndResetWindow :: "string \<Rightarrow> int \<Rightarrow> ('v, jnum \<times> jnum) rcmd" where
  "checkAndResetWindow policyId currentLedger =
     (let key = key_COUNTER policyId;
          reset = se_bind (c_hset key [(''count'', ''0''), (''windowAnchor'', show_int currentLedger)])
                    (\<lambda>_. se_return (Fin 0, Fin currentLedger))
      in se_try (se_bind (c_hgetall key) (\<lambda>data.
            if \<not> truthy (data ''windowAnchor'') then reset
            else let wa = parseInt (the (data ''windowAnchor'')) in
              se_bind getWindowSize (\<lambda>windowSize.
                if jn_ge (Fin currentLedger) (jn_add wa windowSize) then reset
                else se_return (parse_or (data ''count'') 0, wa))))
          (\<lambda>_. se_return (Fin 0, Fin currentLedger)))"

definition checkAndIncrement :: "string \<Rightarrow> int \<Rightarrow> ('v, rate_result) rcmd" where
  "checkAndIncrement policyId currentLedger =
     se_try
      (se_bind (checkAndResetWindow policyId currentLedger) (\<lambda>(count, anchor).
       se_bind (c_hget (key_CONFIG policyId) ''overrideActive'') (\<lambda>ov.
       let isOverrideActive = (ov = Some ''true'') in
       se_bind (getEffectiveLimit policyId) (\<lambda>lim.
       se_bind getWindowSize (\<lambda>windowSize.
       let result = \<lparr>allowed = True, currentCount = jn_add count (Fin 1), limit = lim,
             windowAnchor = anchor, windowResetLedger = jn_add anchor windowSize, overrideActive = False\<rparr>
       in if isOverrideActive
          then se_bind (c_hincrby (key_COUNTER policyId) ''count'' 1)
                 (\<lambda>_. se_return (result\<lparr>overrideActive := True\<rparr>))
          else if jn_ge count lim
          then se_return (result\<lparr>allowed := False, currentCount := count\<rparr>)
          else se_bind (c_hincrby (key_COUNTER policyId) ''count'' 1) (\<lambda>_. se_return result))))))
      (\<lambda>_. se_return \<lparr>allowed = True, currentCount = Fin 0, limit = Fin DEFAULT_LIMIT,
         windowAnchor = Fin currentLedger,
         windowResetLedger = Fin (currentLedger + WINDOW_SIZE_LEDGERS), overrideActive = False\<rparr>)"

record counter_state =
  cs_count :: jnum
  cs_windowAnchor :: jnum
  cs_limit :: jnum
  cs_overrideActive :: bool

definition getCounterState :: "string \<Rightarrow> ('v, counter_state) rcmd" where
  "getCounterState policyId =
     se_try
      (se_bind (c_hgetall (key_COUNTER policyId)) (\<lambda>counterData.
       se_bind (c_hgetall (key_CONFIG policyId)) (\<lambda>configData.
       se_bind (getEffectiveLimit policyId) (\<lambda>lim.
       se_return \<lparr>cs_count = parse_or (counterData ''count'') 0,
         cs_windowAnchor = parse_or (counterData ''windowAnchor'') 0,
         cs_limit = lim, cs_overrideActive = (configData ''overrideActive'' = Some ''true'')\<rparr>))))
      (\<lambda>_. se_return \<lparr>cs_count = Fin 0, cs_windowAnchor = Fin 0, cs_limit = Fin DEFAULT_LIMIT,
         cs_overrideActive = False\<rparr>)"

datatype admin_error = LimitTooLow | LimitTooHigh | RedisWriteFailed

definition setLimit :: "string \<Rightarrow> int \<Rightarrow> 'v redis \<Rightarrow> (admin_error + unit) \<times> 'v redis" where
  "setLimit policyId lim r =
     (if lim < 1 then (Inl LimitTooLow, r)
      else if lim > ABSOLUTE_MAX_CAP then (Inl LimitTooHigh, r)
      else se_try (c_hset (key_CONFIG policyId) [(''limit'', show_int lim)])
             (\<lambda>_. se_throw RedisWriteFailed) r)"

definition enableOverride :: "string \<Rightarrow> 'v redis \<Rightarrow> (admin_error + unit) \<times> 'v redis" where
  "enableOverride policyId =
     se_try (c_hset (key_CONFIG policyId) [(''overrideActive'', ''true'')]) (\<lambda>_. se_throw RedisWriteFailed)"

definition disableOverride :: "string \<Rightarrow> 'v redis \<Rightarrow> (admin_error + unit) \<times> 'v redis" where
  "disableOverride policyId =
     se_try (c_hset (key_CONFIG policyId) [(''overrideActive'', ''false'')]) (\<lambda>_. se_throw RedisWriteFailed)"

section \<open>Sliding windows\<close>

type_synonym window_verdict = "bool \<times> int"  \<comment> \<open>allowed, retryAfterSeconds\<close>

definition zmember :: "int \<Rightarrow> string \<Rightarrow> string" where
  "zmember nowMs rnd = show_int nowMs @ ''-'' @ rnd"

text \<open>The body of the \<open>try\<close> blocks that answer with a retry time, as written in each of them.\<close>

definition window_body :: "string \<Rightarrow> int \<Rightarrow> int \<Rightarrow> int \<Rightarrow> string \<Rightarrow> ('v, window_verdict) rcmd" where
  "window_body key lim windowMs nowMs rnd =
     (let windowStart = nowMs - windowMs in
      se_bind (c_zremrangebyscore key 0 windowStart) (\<lambda>_.
      se_bind (c_zcard key) (\<lambda>currentCount.
      if int currentCount \<ge> lim then
        se_bind (c_zfirst key) (\<lambda>oldest.
        let oldestTimestamp = (case oldest of Some (s, _) \<Rightarrow> s | None \<Rightarrow> windowStart);
            retryAfterSeconds = max 1 (ceil_div (oldestTimestamp + windowMs - nowMs) 1000)
        in se_return (False, retryAfterSeconds))
      else
        se_bind (c_zadd key nowMs (zmember nowMs rnd)) (\<lambda>_.
        se_bind (c_pexpire_z key (windowMs * 2)) (\<lambda>_.
        se_return (True, 0))))))"

definition checkWalletLimit :: "int \<Rightarrow> int \<Rightarrow> string \<Rightarrow> int \<Rightarrow> string \<Rightarrow> ('v, window_verdict) rcmd" where
  "checkWalletLimit windowSeconds lim walletAddress nowMs rnd =
     se_try (window_body (key_WALLET_WINDOW (to_lower walletAddress)) lim (windowSeconds * 1000) nowMs rnd)
       (\<lambda>_. se_return (True, 0))"

definition checkWalletEvidenceLimit :: "string \<Rightarrow> int \<Rightarrow> int \<Rightarrow> int \<Rightarrow> string \<Rightarrow> ('v, window_verdict) rcmd" where
  "checkWalletEvidenceLimit walletAddress lim windowSeconds nowMs rnd =
     se_try (window_body (''rate_limit:evidence:'' @ to_lower walletAddress) lim (windowSeconds * 1000) nowMs rnd)
       (\<lambda>_. se_return (True, 0))"

definition checkGlobalLimit :: "int \<Rightarrow> int \<Rightarrow> int \<Rightarrow> string \<Rightarrow> ('v, window_verdict) rcmd" where
  "checkGlobalLimit windowSeconds lim nowMs rnd =
     se_try (window_body key_GLOBAL_WINDOW lim (windowSeconds * 1000) nowMs rnd)
       (\<lambda>_. se_return (True, 0))"

text \<open>\<open>checkLimit\<close> answers with a boolean and does not look up the oldest entry.\<close>

definition checkLimit :: "string \<Rightarrow> int \<Rightarrow> int \<Rightarrow> int \<Rightarrow> string \<Rightarrow> ('v, bool) rcmd" where
  "checkLimit key lim windowSeconds nowMs rnd =
     (let windowMs = windowSeconds * 1000; windowStart = nowMs - windowMs in
      se_try
       (se_bind (c_zremrangebyscore key 0 windowStart) (\<lambda>_.
        se_bind (c_zcard key) (\<lambda>currentCount.
        if int currentCount \<ge> lim then se_return False
        else se_bind (c_zadd key nowMs (zmember nowMs rnd)) (\<lambda>_.
             se_bind (c_pexpire_z key (windowMs * 2)) (\<lambda>_. se_return True)))))
       (\<lambda>_. se_return True))"

section \<open>Guards\<close>

record rate_exception =
  rx_policyId :: string
  rx_currentCount :: int
  rx_limit :: int
  rx_retryAfterSeconds :: int
  rx_global :: bool

text \<open>The two-window guard body of \<open>ClaimRateLimitGuard\<close> and \<open>AppealRateLimitGuard\<close>: an hourly and
  a daily window per wallet under the guard's own key prefix.\<close>

definition two_window_guard ::
  "string \<Rightarrow> string option \<Rightarrow> int \<Rightarrow> int \<Rightarrow> int \<Rightarrow> string \<Rightarrow> string \<Rightarrow> 'v redis \<Rightarrow>
   (rate_exception + bool) \<times> 'v redis" where
  "two_window_guard prefix wallet hourLimit dayLimit nowMs rnd1 rnd2 r =
     (if \<not> truthy wallet then (Inr True, r)
      else let w = the wallet;
               deny = (\<lambda>lim retry. \<lparr>rx_policyId = w, rx_currentCount = lim, rx_limit = lim,
                          rx_retryAfterSeconds = retry, rx_global = False\<rparr>) in
        case checkWalletEvidenceLimit (prefix @ '':hour:'' @ w) hourLimit 3600 nowMs rnd1 r of
          (Inl _, r1) \<Rightarrow> (Inr True, r1)
        | (Inr (ok1, retry1), r1) \<Rightarrow>
            if \<not> ok1 then (Inl (deny hourLimit retry1), r1)
            else case checkWalletEvidenceLimit (prefix @ '':day:'' @ w) dayLimit 86400 nowMs rnd2 r1 of
              (Inl _, r2) \<Rightarrow> (Inr True, r2)
            | (Inr (ok2, retry2), r2) \<Rightarrow>
                if \<not> ok2 then (Inl (deny dayLimit retry2), r2) else (Inr True, r2))"

definition ClaimRateLimitGuard where
  "ClaimRateLimitGuard userWallet bodyHolder =
     two_window_guard ''claim'' (case userWallet of Some w \<Rightarrow> Some w | None \<Rightarrow> bodyHolder)"

definition AppealRateLimitGuard where
  "AppealRateLimitGuard userWallet bodyClaimant bodyWallet bodyHolder =
     two_window_guard ''appeal''
       (case userWallet of Some w \<Rightarrow> Some w | None \<Rightarrow>
         (case bodyClaimant of Some w \<Rightarrow> Some w | None \<Rightarrow>
           (case bodyWallet of Some w \<Rightarrow> Some w | None \<Rightarrow> bodyHolder)))"

definition WalletRateLimitGuard ::
  "string option \<Rightarrow> string option \<Rightarrow> int \<Rightarrow> int \<Rightarrow> int \<Rightarrow> int \<Rightarrow> int \<Rightarrow> string \<Rightarrow> string \<Rightarrow> 'v redis \<Rightarrow>
   (rate_exception + bool) \<times> 'v redis" where
  "WalletRateLimitGuard userWallet bodyHolder gWin gLim wWin wLim nowMs rnd1 rnd2 r =
     (let wallet = (case userWallet of Some w \<Rightarrow> Some w | None \<Rightarrow> bodyHolder);
          deny = (\<lambda>who retry g. \<lparr>rx_policyId = who, rx_currentCount = retry, rx_limit = 0,
                     rx_retryAfterSeconds = retry, rx_global = g\<rparr>)
      in case checkGlobalLimit gWin gLim nowMs rnd1 r of
           (Inl _, r1) \<Rightarrow> (Inr True, r1)
         | (Inr (ok1, retry1), r1) \<Rightarrow>
             if \<not> ok1 then (Inl (deny ''global'' retry1 True), r1)
             else if \<not> truthy wallet then (Inr True, r1)
             else case checkWalletLimit wWin wLim (the wallet) nowMs rnd2 r1 of
               (Inl _, r2) \<Rightarrow> (Inr True, r2)
             | (Inr (ok2, retry2), r2) \<Rightarrow>
                 if \<not> ok2 then (Inl (deny (the wallet) retry2 False), r2) else (Inr True, r2))"

section \<open>The fixed window as an abstract counter\<close>

text \<open>What the counter promises: one pair of a count and the ledger its window started at.\<close>

definition fw_window :: "int \<Rightarrow> (int \<times> int) option \<Rightarrow> int \<Rightarrow> int \<times> int" where
  "fw_window W st l = (case st of None \<Rightarrow> (0, l) | Some (c, a) \<Rightarrow> if a + W \<le> l then (0, l) else (c, a))"

definition fw_check :: "int \<Rightarrow> int \<Rightarrow> bool \<Rightarrow> (int \<times> int) option \<Rightarrow> int \<Rightarrow> bool \<times> (int \<times> int) option" where
  "fw_check L W ov st l =
     (case fw_window W st l of (c, a) \<Rightarrow>
        if ov \<or> c < L then (True, Some (c + 1, a)) else (False, Some (c, a)))"

definition eff_limit :: "'v redis \<Rightarrow> string \<Rightarrow> jnum" where
  "eff_limit r pid =
     (if truthy (r_hash r (key_CONFIG pid) ''limit'') then parseInt (the (r_hash r (key_CONFIG pid) ''limit''))
      else parse_or (r_hash r key_DEFAULTS ''defaultLimit'') DEFAULT_LIMIT)"

definition eff_window :: "'v redis \<Rightarrow> jnum" where
  "eff_window r = parse_or (r_hash r key_DEFAULTS ''windowSize'') WINDOW_SIZE_LEDGERS"

definition override_on :: "'v redis \<Rightarrow> string \<Rightarrow> bool" where
  "override_on r pid = (r_hash r (key_CONFIG pid) ''overrideActive'' = Some ''true'')"

definition hash_counter :: "(string \<rightharpoonup> string) \<Rightarrow> (int \<times> int) option" where
  "hash_counter h =
     (if truthy (h ''windowAnchor'')
      then case (parse_or (h ''count'') 0, parseInt (the (h ''windowAnchor''))) of
             (Fin c, Fin a) \<Rightarrow> Some (c, a) | _ \<Rightarrow> None
      else None)"

definition abs_counter :: "'v redis \<Rightarrow> string \<Rightarrow> (int \<times> int) option" where
  "abs_counter r pid = hash_counter (r_hash r (key_COUNTER pid))"

text \<open>The stored anchor and count are numbers (or the anchor is absent).\<close>

definition counter_ok :: "'v redis \<Rightarrow> string \<Rightarrow> bool" where
  "counter_ok r pid =
     (truthy (r_hash r (key_COUNTER pid) ''windowAnchor'') \<longrightarrow> abs_counter r pid \<noteq> None)"

fun rate_run :: "string \<Rightarrow> 'v redis \<Rightarrow> int list \<Rightarrow> bool list" where
  "rate_run pid r [] = []"
| "rate_run pid r (l # ls) =
     (case checkAndIncrement pid l r of
        (Inl _, r') \<Rightarrow> rate_run pid r' ls
      | (Inr res, r') \<Rightarrow> allowed res # rate_run pid r' ls)"

fun fw_run :: "int \<Rightarrow> int \<Rightarrow> bool \<Rightarrow> (int \<times> int) option \<Rightarrow> int list \<Rightarrow> bool list" where
  "fw_run L W ov st [] = []"
| "fw_run L W ov st (l # ls) = (case fw_check L W ov st l of (b, st') \<Rightarrow> b # fw_run L W ov st' ls)"

lemma key_distinct [simp]:
  "key_COUNTER p \<noteq> key_CONFIG q" "key_CONFIG q \<noteq> key_COUNTER p"
  "key_COUNTER p \<noteq> key_DEFAULTS" "key_DEFAULTS \<noteq> key_COUNTER p"
  "key_CONFIG p \<noteq> key_DEFAULTS" "key_DEFAULTS \<noteq> key_CONFIG p"
  by (simp_all add: key_COUNTER_def key_CONFIG_def key_DEFAULTS_def)

lemma key_CONFIG_inj [simp]: "key_CONFIG p = key_CONFIG q \<longleftrightarrow> p = q"
  by (simp add: key_CONFIG_def)

lemma key_COUNTER_inj [simp]: "key_COUNTER p = key_COUNTER q \<longleftrightarrow> p = q"
  by (simp add: key_COUNTER_def)

lemma getWindowSize_ok [redis_ok]: "r_faults r = [] \<Longrightarrow> getWindowSize r = (Inr (eff_window r), r)"
  by (simp add: getWindowSize_def c_hget_def se_try_def redis_ok eff_window_def)

lemma getEffectiveLimit_ok [redis_ok]:
  "r_faults r = [] \<Longrightarrow> getEffectiveLimit pid r = (Inr (eff_limit r pid), r)"
  by (simp add: getEffectiveLimit_def c_hget_def se_try_def redis_ok eff_limit_def)

lemma field_int_parse_or: "parse_or (h f) 0 = Fin c \<Longrightarrow> field_int h f = c"
  by (auto simp: parse_or_def field_int_def truthy_def parseInt_def ltrim_def split: option.splits if_splits)

lemma truthy_show_int [simp]: "truthy (Some (show_int i))"
  by (simp add: truthy_def)

lemma truthy_zero: "truthy (Some ''0'')" "parseInt ''0'' = Fin 0"
  by (simp_all add: truthy_def js_defs)

lemma eff_frame:
  assumes "\<And>k. k \<noteq> key_COUNTER pid \<Longrightarrow> r_hash r' k = r_hash r k"
  shows "eff_limit r' pid = eff_limit r pid" "eff_window r' = eff_window r"
    "override_on r' pid = override_on r pid"
  using assms [of "key_CONFIG pid"] assms [of key_DEFAULTS]
  by (simp_all add: eff_limit_def eff_window_def override_on_def)

lemma hash_counter_fresh:
  "hash_counter (h(''count'' \<mapsto> ''0'', ''windowAnchor'' \<mapsto> show_int l)) = Some (0, l)"
  by (simp add: hash_counter_def parse_or_def truthy_zero)

lemma hash_counter_incr:
  assumes "hash_counter h = Some (c, a)"
  shows "hash_counter (h(''count'' \<mapsto> show_int (field_int h ''count'' + 1))) = Some (c + 1, a)"
proof -
  from assms have p: "parse_or (h ''count'') 0 = Fin c" and "truthy (h ''windowAnchor'')"
    "parseInt (the (h ''windowAnchor'')) = Fin a"
    by (auto simp: hash_counter_def split: if_splits jnum.splits)
  with field_int_parse_or [of h "''count''" c, OF p] show ?thesis
    by (simp add: hash_counter_def parse_or_def [of "Some _"])
qed

text \<open>The window step leaves the abstract window in the store and returns it.\<close>

lemma checkAndResetWindow_ok:
  assumes "r_faults r = []" "counter_ok r pid" "eff_window r = Fin W"
  obtains r' where "checkAndResetWindow pid l r =
      (Inr (case fw_window W (abs_counter r pid) l of (c, a) \<Rightarrow> (Fin c, Fin a)), r')"
    and "abs_counter r' pid = Some (fw_window W (abs_counter r pid) l)"
    and "r_faults r' = []" and "\<And>k. k \<noteq> key_COUNTER pid \<Longrightarrow> r_hash r' k = r_hash r k"
proof -
  let ?h = "r_hash r (key_COUNTER pid)"
  let ?reset = "hash_upd (key_COUNTER pid) (?h(''count'' \<mapsto> ''0'', ''windowAnchor'' \<mapsto> show_int l)) r"
  note ev = checkAndResetWindow_def Let_def se_try_def c_hgetall_def c_hset_def redis_ok
  show thesis
  proof (cases "truthy (?h ''windowAnchor'')")
    case False
    then have "abs_counter r pid = None" by (simp add: abs_counter_def hash_counter_def)
    with False assms(1) show thesis
      by (intro that [of ?reset])
        (simp_all add: ev se_bind_def fw_window_def abs_counter_def hash_counter_fresh)
  next
    case True
    then obtain c a where ca: "hash_counter ?h = Some (c, a)"
      using assms(2) by (auto simp: counter_ok_def abs_counter_def)
    then have p: "parse_or (?h ''count'') 0 = Fin c" "parseInt (the (?h ''windowAnchor'')) = Fin a"
      by (auto simp: hash_counter_def split: if_splits jnum.splits)
    show thesis
    proof (cases "a + W \<le> l")
      case True
      then show thesis
        using \<open>truthy (?h ''windowAnchor'')\<close> assms ca p
        by (intro that [of ?reset])
          (simp_all add: ev se_bind_def fw_window_def abs_counter_def hash_counter_fresh jn_ge_def jn_add_def)
    next
      case False
      then show thesis
        using \<open>truthy (?h ''windowAnchor'')\<close> assms ca p
        by (intro that [of r])
          (simp_all add: ev se_bind_def fw_window_def abs_counter_def jn_ge_def jn_add_def)
    qed
  qed
qed

lemma fw_check_refines:
  assumes "r_faults r = []" "counter_ok r pid" "eff_limit r pid = Fin L" "eff_window r = Fin W"
  obtains res r' where "checkAndIncrement pid l r = (Inr res, r')"
    and "(allowed res, abs_counter r' pid) = fw_check L W (override_on r pid) (abs_counter r pid) l"
    and "r_faults r' = []" and "\<And>k. k \<noteq> key_COUNTER pid \<Longrightarrow> r_hash r' k = r_hash r k"
proof -
  obtain c a where w: "fw_window W (abs_counter r pid) l = (c, a)" by (cases "fw_window W (abs_counter r pid) l")
  obtain r1 where r1: "checkAndResetWindow pid l r = (Inr (Fin c, Fin a), r1)"
    "abs_counter r1 pid = Some (c, a)" "r_faults r1 = []"
    and fr: "\<And>k. k \<noteq> key_COUNTER pid \<Longrightarrow> r_hash r1 k = r_hash r k"
    using checkAndResetWindow_ok [OF assms(1,2,4), of l thesis] w by (auto simp: w)
  have cfg: "eff_limit r1 pid = Fin L" "eff_window r1 = Fin W"
    "r_hash r1 (key_CONFIG pid) = r_hash r (key_CONFIG pid)"
    using assms(3,4) fr eff_frame [of pid r1 r] by simp_all
  let ?h = "r_hash r1 (key_COUNTER pid)"
  let ?r2 = "hash_upd (key_COUNTER pid) (?h(''count'' \<mapsto> show_int (field_int ?h ''count'' + 1))) r1"
  have inc: "abs_counter ?r2 pid = Some (c + 1, a)"
    using r1(2) by (simp add: abs_counter_def hash_counter_incr)
  note ev = checkAndIncrement_def Let_def se_try_def se_bind_def r1 c_hget_def c_hincrby_def redis_ok cfg
    fw_check_def w override_on_def jn_ge_def
  show thesis
  proof (cases "override_on r pid \<or> c < L")
    case True
    have run: "checkAndIncrement pid l r =
        (Inr \<lparr>allowed = True, currentCount = jn_add (Fin c) (Fin 1), limit = Fin L, windowAnchor = Fin a,
           windowResetLedger = jn_add (Fin a) (Fin W), overrideActive = override_on r pid\<rparr>, ?r2)"
      using True by (auto simp: ev)
    show thesis
      by (rule that [OF run]) (use True fr r1 inc in \<open>simp_all add: fw_check_def w\<close>)
  next
    case False
    have run: "checkAndIncrement pid l r =
        (Inr \<lparr>allowed = False, currentCount = Fin c, limit = Fin L, windowAnchor = Fin a,
           windowResetLedger = jn_add (Fin a) (Fin W), overrideActive = False\<rparr>, r1)"
      using False by (auto simp: ev)
    show thesis
      by (rule that [OF run]) (use False fr r1 in \<open>simp_all add: fw_check_def w\<close>)
  qed
qed

lemma fw_check_some: "\<exists>b st. fw_check L W ov s l = (b, Some st)"
  by (auto simp: fw_check_def split: prod.splits)

text \<open>A whole run of calls behaves like the abstract counter.\<close>

lemma rate_run_refines:
  assumes "r_faults r = []" "counter_ok r pid" "eff_limit r pid = Fin L" "eff_window r = Fin W"
  shows "rate_run pid r ls = fw_run L W (override_on r pid) (abs_counter r pid) ls"
  using assms
proof (induction ls arbitrary: r)
  case Nil
  then show ?case by simp
next
  case (Cons l ls)
  obtain res r' where step: "checkAndIncrement pid l r = (Inr res, r')"
    "(allowed res, abs_counter r' pid) = fw_check L W (override_on r pid) (abs_counter r pid) l"
    "r_faults r' = []"
    and fr: "\<And>k. k \<noteq> key_COUNTER pid \<Longrightarrow> r_hash r' k = r_hash r k"
    using fw_check_refines [OF Cons.prems] by metis
  have "counter_ok r' pid"
    using fw_check_some [of L W "override_on r pid" "abs_counter r pid" l] step(2)
    by (auto simp: counter_ok_def)
  moreover have "eff_limit r' pid = Fin L" "eff_window r' = Fin W" "override_on r' pid = override_on r pid"
    using Cons.prems fr eff_frame [of pid r' r] by simp_all
  ultimately have "rate_run pid r' ls = fw_run L W (override_on r pid) (abs_counter r' pid) ls"
    using Cons.IH [OF step(3)] by simp
  with step(1,2) show ?case by (simp split: prod.splits) (metis prod.inject)
qed

lemma fw_run_in_window:
  assumes "\<forall>l \<in> set ls. l < a + W"
  shows "length (filter (\<lambda>b. b) (fw_run L W False (Some (c, a)) ls)) = min (length ls) (nat (L - c))"
  using assms
proof (induction ls arbitrary: c)
  case Nil
  then show ?case by simp
next
  case (Cons l ls)
  then have IH: "\<And>c. length (filter (\<lambda>b. b) (fw_run L W False (Some (c, a)) ls)) = min (length ls) (nat (L - c))"
    by simp
  from Cons.prems have "fw_window W (Some (c, a)) l = (c, a)" by (simp add: fw_window_def)
  moreover have "c < L \<Longrightarrow> nat (L - c) = Suc (nat (L - (c + 1)))" by linarith
  ultimately show ?case
    by (cases "c < L") (simp_all add: fw_check_def IH)
qed

section \<open>The sliding window contract\<close>

fun admitted :: "(int \<Rightarrow> string \<Rightarrow> 'r \<Rightarrow> bool \<times> 'r) \<Rightarrow> 'r \<Rightarrow> (int \<times> string) list \<Rightarrow> int list" where
  "admitted check r [] = []"
| "admitted check r ((t, x) # qs) =
     (case check t x r of (b, r') \<Rightarrow> if b then t # admitted check r' qs else admitted check r' qs)"

definition in_window :: "int \<Rightarrow> int \<Rightarrow> int list \<Rightarrow> int list" where
  "in_window win T ts = filter (\<lambda>t. T - win < t \<and> t \<le> T) ts"

text \<open>
  What a limiter promises to its callers: a request at time \<open>t\<close> sees exactly the entries of the
  last \<open>win\<close> milliseconds; it is turned away when there are \<open>lim\<close> of them, and otherwise admitted
  and entered. \<open>good t r\<close> is the state of the store as of time \<open>t\<close>.
\<close>

locale sliding_window =
  fixes lim win :: int
    and check :: "int \<Rightarrow> string \<Rightarrow> 'r \<Rightarrow> bool \<times> 'r"
    and entries :: "'r \<Rightarrow> (int \<times> string) list"
    and good :: "int \<Rightarrow> 'r \<Rightarrow> bool"
  assumes deny: "\<lbrakk>good t0 r; t0 \<le> t; 0 < win;
      lim \<le> int (length (filter (\<lambda>(s, _). t - win < s) (entries r)))\<rbrakk>
      \<Longrightarrow> \<not> fst (check t x r) \<and> entries (snd (check t x r)) = filter (\<lambda>(s, _). t - win < s) (entries r)
        \<and> good t (snd (check t x r))"
    and admit: "\<lbrakk>good t0 r; t0 \<le> t; 0 < win; zmember t x \<notin> snd ` set (entries r);
      int (length (filter (\<lambda>(s, _). t - win < s) (entries r))) < lim\<rbrakk>
      \<Longrightarrow> fst (check t x r) \<and>
        entries (snd (check t x r)) = filter (\<lambda>(s, _). t - win < s) (entries r) @ [(t, zmember t x)]
        \<and> good t (snd (check t x r))"
begin

lemma admitted_bound_gen:
  assumes "good t0 r" "0 < win" "0 \<le> lim"
    and "sorted (t0 # map fst qs)" "distinct qs"
    and mem: "case_prod zmember ` set qs \<inter> snd ` set (entries r) = {}"
    and inj: "inj_on (case_prod zmember) (set qs)"
    and hist: "map fst (entries r) = filter (\<lambda>t. t0 - win < t) adm" "\<forall>t \<in> set adm. t \<le> t0"
    and bound: "\<forall>T. int (length (in_window win T adm)) \<le> lim"
  shows "int (length (in_window win T (adm @ admitted check r qs))) \<le> lim"
  using assms
proof (induction qs arbitrary: r t0 adm)
  case Nil
  then show ?case by simp
next
  case (Cons q qs)
  obtain t x where q: "q = (t, x)" by (cases q)
  let ?live = "filter (\<lambda>(s, _). t - win < s) (entries r)"
  obtain b r' where c: "check t x r = (b, r')" by (cases "check t x r")
  from Cons.prems q have le: "t0 \<le> t" and srt: "sorted (t # map fst qs)"
    and fresh: "zmember t x \<notin> snd ` set (entries r)" by auto
  have live: "map fst ?live = filter (\<lambda>u. t - win < u) adm"
  proof -
    have "map fst ?live = filter (\<lambda>u. t - win < u) (map fst (entries r))"
      by (simp add: filter_map comp_def case_prod_unfold)
    also have "\<dots> = filter (\<lambda>u. t - win < u) adm"
      using Cons.prems(8) le by (auto simp: filter_filter intro: filter_cong)
    finally show ?thesis .
  qed
  have sub: "snd ` set ?live \<subseteq> snd ` set (entries r)" by auto
  show ?case
  proof (cases "int (length ?live) < lim")
    case True
    with admit [OF Cons.prems(1) le Cons.prems(2) fresh, of] c
    have adm': "b" "entries r' = ?live @ [(t, zmember t x)]" "good t r'" by auto
    let ?adm = "adm @ [t]"
    have "zmember t x \<notin> case_prod zmember ` set qs"
      using Cons.prems(5,7) q by (auto dest: inj_onD)
    then have mem': "case_prod zmember ` set qs \<inter> snd ` set (entries r') = {}"
      using Cons.prems(6) sub unfolding adm'(2) by auto
    have bound': "\<forall>T. int (length (in_window win T ?adm)) \<le> lim"
    proof
      fix T
      show "int (length (in_window win T ?adm)) \<le> lim"
      proof (cases "T - win < t \<and> t \<le> T")
        case True
        have "length (in_window win T adm) \<le> length (filter (\<lambda>u. t - win < u) adm)"
          unfolding in_window_def by (rule length_filter_mono) (use True in auto)
        also have "\<dots> = length ?live" by (metis live length_map)
        finally show ?thesis
          using True \<open>int (length ?live) < lim\<close> by (simp add: in_window_def)
      next
        case False
        then show ?thesis using Cons.prems(10) by (auto simp: in_window_def)
      qed
    qed
    have hist': "map fst (entries r') = filter (\<lambda>u. t - win < u) ?adm"
      using live Cons.prems(2) by (simp add: adm'(2))
    have "int (length (in_window win T (?adm @ admitted check r' qs))) \<le> lim"
      by (rule Cons.IH [OF adm'(3) Cons.prems(2,3) srt _ mem' _ hist' _ bound'])
        (use Cons.prems(5,7,9) le in \<open>auto intro: order_trans\<close>)
    then show ?thesis using c q adm'(1) by simp
  next
    case False
    with deny [OF Cons.prems(1) le Cons.prems(2), of x] c
    have den: "\<not> b" "entries r' = ?live" "good t r'" by auto
    have "int (length (in_window win T (adm @ admitted check r' qs))) \<le> lim"
      by (rule Cons.IH [OF den(3) Cons.prems(2,3) srt])
        (use Cons.prems(5,6,7,9,10) le sub live den in \<open>auto intro: order_trans\<close>)
    then show ?thesis using c q den(1) by simp
  qed
qed

text \<open>From an empty window, no interval of length \<open>win\<close> sees more than \<open>lim\<close> admitted requests.\<close>

lemma admitted_bound:
  assumes "good t0 r" "entries r = []" "0 < win" "0 \<le> lim" "sorted (t0 # map fst qs)" "distinct qs"
    and "inj_on (case_prod zmember) (set qs)"
  shows "int (length (in_window win T (admitted check r qs))) \<le> lim"
  using admitted_bound_gen [OF assms(1,3,4,5,6), of "[]"] assms(2,4,7) by (simp add: in_window_def)

end

section \<open>The service implements the contract\<close>

definition verdict :: "(unit + window_verdict) \<times> 'v redis \<Rightarrow> bool \<times> 'v redis" where
  "verdict res = (case res of (Inr (b, _), r) \<Rightarrow> (b, r) | (Inl _, r) \<Rightarrow> (True, r))"

definition verdict_bool :: "(unit + bool) \<times> 'v redis \<Rightarrow> bool \<times> 'v redis" where
  "verdict_bool res = (case res of (Inr b, r) \<Rightarrow> (b, r) | (Inl _, r) \<Rightarrow> (True, r))"

text \<open>The state of a window key as of time \<open>t\<close>: scores in the past, and an expiry that is never
  earlier than two windows after the youngest entry.\<close>

definition window_good :: "string \<Rightarrow> int \<Rightarrow> int \<Rightarrow> 'v redis \<Rightarrow> bool" where
  "window_good key win t r =
     (r_faults r = [] \<and> 0 \<le> t \<and> (\<forall>(s, _) \<in> set (r_zset r key). 0 \<le> s \<and> s \<le> t) \<and>
      (case r_zexp r key of None \<Rightarrow> True
       | Some e \<Rightarrow> \<forall>(s, _) \<in> set (r_zset r key). s + win * 2 \<le> e))"

lemma window_live:
  assumes "window_good key win t0 r" "t0 \<le> t" "0 < win"
  shows "filter (\<lambda>(s, m). \<not> (0 \<le> s \<and> s \<le> t - win)) (z_live (r\<lparr>r_now := t\<rparr>) key)
       = filter (\<lambda>(s, _). t - win < s) (r_zset r key)"
proof (cases "z_live (r\<lparr>r_now := t\<rparr>) key = r_zset r key")
  case True
  with assms(1) show ?thesis by (auto simp: window_good_def intro!: filter_cong)
next
  case False
  then obtain e where e: "r_zexp r key = Some e" "e \<le> t"
    by (auto simp: z_live_def split: option.splits if_splits)
  with assms have "filter (\<lambda>(s, _). t - win < s) (r_zset r key) = []"
    by (fastforce simp: window_good_def filter_empty_conv)
  with e show ?thesis by (simp add: z_live_def)
qed

text \<open>One call with the server reachable, on both branches.\<close>

lemma window_body_eval:
  fixes r :: "'v redis"
  assumes "window_good key win t0 r" "t0 \<le> t" "0 < win"
  defines "live \<equiv> filter (\<lambda>(s, _). t - win < s) (r_zset r key)"
  defines "r1 \<equiv> z_put key live (r\<lparr>r_now := t\<rparr>)"
  shows "lim \<le> int (length live) \<Longrightarrow>
      window_body key lim win t x (r\<lparr>r_now := t\<rparr>) =
        (Inr (False, max 1 (ceil_div ((case live of [] \<Rightarrow> t - win | (s, _) # _ \<Rightarrow> s) + win - t) 1000)), r1)"
    and "int (length live) < lim \<Longrightarrow>
      window_body key lim win t x (r\<lparr>r_now := t\<rparr>) =
        (Inr (True, 0), (z_put key (z_insert t (zmember t x) live) r1)
           \<lparr>r_zexp := (r_zexp (z_put key (z_insert t (zmember t x) live) r1))(key \<mapsto> t + win * 2)\<rparr>)"
proof -
  have f: "r_faults r = []" using assms(1) by (simp add: window_good_def)
  have z: "z_put key (filter (\<lambda>(s, m). \<not> (0 \<le> s \<and> s \<le> t - win)) (z_live (r\<lparr>r_now := t\<rparr>) key)) (r\<lparr>r_now := t\<rparr>) = r1"
    unfolding r1_def live_def by (simp only: window_live [OF assms(1-3)])
  have rem: "c_zremrangebyscore key 0 (t - win) (r\<lparr>r_now := t\<rparr>) = (Inr (), r1)"
    using f z by (simp add: c_zremrangebyscore_def send_ok)
  have l1: "z_live r1 key = live" "r_faults r1 = []" "r_now r1 = t"
    by (simp_all add: r1_def f)
  have card: "c_zcard key r1 = (Inr (length live), r1)"
    using l1 by (simp add: c_zcard_def send_ok)
  show "lim \<le> int (length live) \<Longrightarrow> window_body key lim win t x (r\<lparr>r_now := t\<rparr>) =
        (Inr (False, max 1 (ceil_div ((case live of [] \<Rightarrow> t - win | (s, _) # _ \<Rightarrow> s) + win - t) 1000)), r1)"
    using l1 by (simp add: window_body_def Let_def se_bind_def rem card c_zfirst_def send_ok split: list.splits)
  have ne: "z_insert t (zmember t x) live \<noteq> []" by (simp add: z_insert_def Let_def)
  assume "int (length live) < lim"
  with l1 ne show "window_body key lim win t x (r\<lparr>r_now := t\<rparr>) =
        (Inr (True, 0), (z_put key (z_insert t (zmember t x) live) r1)
           \<lparr>r_zexp := (r_zexp (z_put key (z_insert t (zmember t x) live) r1))(key \<mapsto> t + win * 2)\<rparr>)"
    by (simp add: window_body_def Let_def se_bind_def rem card c_zadd_def c_pexpire_z_def send_ok)
qed

lemma window_good_step:
  assumes "window_good key win t0 r" "t0 \<le> t" "0 < win"
  defines "live \<equiv> filter (\<lambda>(s, _). t - win < s) (r_zset r key)"
  shows "window_good key win t (z_put key live (r\<lparr>r_now := t\<rparr>))"
    and "window_good key win t ((z_put key (live @ [(t, m)]) (z_put key live (r\<lparr>r_now := t\<rparr>)))
           \<lparr>r_zexp := ze(key \<mapsto> t + win * 2)\<rparr>)"
  using assms by (fastforce simp: window_good_def z_put_def split: option.splits)+

lemma zmember_inj:
  assumes "0 \<le> t" "0 \<le> t'" "zmember t x = zmember t' x'"
  shows "(t, x) = (t', x')"
proof -
  have "CHR ''-'' \<notin> set (show_nat n)" for n
    using show_nat_digits [of n] by (auto simp: list_all_iff is_digit_def)
  then have "split_first (CHR ''-'') (zmember u y) = Some (show_nat (nat u), y)" if "0 \<le> u" for u y
    using that by (simp add: zmember_def show_int_def split_first_append)
  from this [OF assms(1), of x] this [OF assms(2), of x'] assms(3)
  have "(show_nat (nat t), x) = (show_nat (nat t'), x')" by (metis option.inject)
  with assms(1,2) show ?thesis by (simp add: eq_nat_nat_iff)
qed

lemma zmember_inj_on: "sorted (0 # map fst qs) \<Longrightarrow> inj_on (case_prod zmember) (set qs)"
proof (rule inj_onI)
  fix q q' assume s: "sorted (0 # map fst qs)" and q: "q \<in> set qs" "q' \<in> set qs"
    and eq: "case_prod zmember q = case_prod zmember q'"
  from s q have "0 \<le> fst q" "0 \<le> fst q'" by auto
  with eq zmember_inj [of "fst q" "fst q'" "snd q" "snd q'"] show "q = q'"
    by (simp add: case_prod_unfold prod_eq_iff)
qed

text \<open>The body of the service under its clock, as the contract's \<open>check\<close>.\<close>

lemma window_body_contract:
  fixes check :: "int \<Rightarrow> string \<Rightarrow> 'v redis \<Rightarrow> bool \<times> 'v redis"
  assumes "\<And>t x r. check t x r = verdict (se_try (window_body key lim win t x) (\<lambda>_. se_return (True, 0)) (r\<lparr>r_now := t\<rparr>))"
  shows "sliding_window lim win check (\<lambda>r. r_zset r key) (window_good key win)"
proof
  fix t0 t :: int and r :: "'v redis" and x
  assume g: "window_good key win t0 r" "t0 \<le> t" "0 < win"
  let ?live = "filter (\<lambda>(s, _). t - win < s) (r_zset r key)"
  {
    assume "lim \<le> int (length ?live)"
    with window_body_eval(1) [OF g] window_good_step(1) [OF g]
    show "\<not> fst (check t x r) \<and> r_zset (snd (check t x r)) key = ?live \<and> window_good key win t (snd (check t x r))"
      by (simp add: assms verdict_def se_try_def z_put_def)
  next
    assume f: "zmember t x \<notin> snd ` set (r_zset r key)" and "int (length ?live) < lim"
    moreover from f g have "z_insert t (zmember t x) ?live = ?live @ [(t, zmember t x)]"
      by (intro z_insert_last) (auto simp: window_good_def)
    ultimately show "fst (check t x r) \<and> r_zset (snd (check t x r)) key = ?live @ [(t, zmember t x)] \<and>
        window_good key win t (snd (check t x r))"
      using window_body_eval(2) [OF g] window_good_step(2) [OF g]
      by (simp add: assms verdict_def se_try_def z_put_def)
  }
qed

interpretation wallet: sliding_window lim "windowSeconds * 1000"
  "\<lambda>t x r. verdict (checkWalletLimit windowSeconds lim w t x (r\<lparr>r_now := t\<rparr>))"
  "\<lambda>r. r_zset r (key_WALLET_WINDOW (to_lower w))"
  "window_good (key_WALLET_WINDOW (to_lower w)) (windowSeconds * 1000)"
  for lim windowSeconds w
  by (rule window_body_contract) (simp add: checkWalletLimit_def)

interpretation evidence: sliding_window lim "windowSeconds * 1000"
  "\<lambda>t x r. verdict (checkWalletEvidenceLimit w lim windowSeconds t x (r\<lparr>r_now := t\<rparr>))"
  "\<lambda>r. r_zset r (''rate_limit:evidence:'' @ to_lower w)"
  "window_good (''rate_limit:evidence:'' @ to_lower w) (windowSeconds * 1000)"
  for lim windowSeconds w
  by (rule window_body_contract) (simp add: checkWalletEvidenceLimit_def)

interpretation global: sliding_window lim "windowSeconds * 1000"
  "\<lambda>t x r. verdict (checkGlobalLimit windowSeconds lim t x (r\<lparr>r_now := t\<rparr>))"
  "\<lambda>r. r_zset r key_GLOBAL_WINDOW"
  "window_good key_GLOBAL_WINDOW (windowSeconds * 1000)"
  for lim windowSeconds
  by (rule window_body_contract) (simp add: checkGlobalLimit_def)

section \<open>Failure behaviour and frames\<close>

text \<open>A command stream that writes only the sorted set \<open>key\<close>.\<close>

definition z_frame :: "string \<Rightarrow> ('v, 'a) rcmd \<Rightarrow> bool" where
  "z_frame key m = (\<forall>r k. k \<noteq> key \<longrightarrow> r_zset (snd (m r)) k = r_zset r k)"

lemma z_frameI: "(\<And>r k. k \<noteq> key \<Longrightarrow> r_zset (snd (m r)) k = r_zset r k) \<Longrightarrow> z_frame key m"
  by (simp add: z_frame_def)

lemma z_frame_send:
  assumes "\<And>r k. k \<noteq> key \<Longrightarrow> r_zset (snd (f r)) k = r_zset r k"
  shows "z_frame key (send f)"
proof (rule z_frameI)
  fix r :: "'a redis" and k assume k: "k \<noteq> key"
  show "r_zset (snd (send f r)) k = r_zset r k"
  proof (cases "r_faults r")
    case Nil
    then show ?thesis using assms k by (simp add: send_ok)
  next
    case (Cons x fs)
    then show ?thesis using assms k by (cases x) (simp_all add: send_fault)
  qed
qed

lemma z_frame_return [intro]: "z_frame key (se_return a)"
  by (auto intro: z_frameI)

lemma z_frame_bind [intro]: "z_frame key m \<Longrightarrow> (\<And>a. z_frame key (k a)) \<Longrightarrow> z_frame key (se_bind m k)"
  by (auto simp: z_frame_def se_bind_def split: prod.splits sum.splits) (metis snd_conv)+

lemma z_frame_try [intro]: "z_frame key m \<Longrightarrow> (\<And>e. z_frame key (h e)) \<Longrightarrow> z_frame key (se_try m h)"
  by (auto simp: z_frame_def se_try_def split: prod.splits sum.splits) (metis snd_conv)+

lemma z_frame_cmds [intro]:
  "z_frame key (c_zremrangebyscore key lo hi)" "z_frame key (c_zcard key)" "z_frame key (c_zfirst key)"
  "z_frame key (c_zadd key sc m)" "z_frame key (c_pexpire_z key ms)"
  by (simp_all add: cmd_defs, auto intro!: z_frame_send simp: z_put_def)

lemma z_frame_if: "z_frame key a \<Longrightarrow> z_frame key b \<Longrightarrow> z_frame key (if c then a else b)"
  by simp

lemma z_frame_window_body [intro]: "z_frame key (window_body key lim win t x)"
  unfolding window_body_def Let_def by (intro z_frame_bind z_frame_if z_frame_return z_frame_cmds)

lemma z_frame_evidence: "z_frame (''rate_limit:evidence:'' @ to_lower w) (checkWalletEvidenceLimit w lim ws t x)"
  by (auto simp: checkWalletEvidenceLimit_def)

lemma window_body_denies_answered:
  assumes "window_body key lim win t x r = (Inr (False, retry), r')"
  shows "list_all (\<lambda>f. f = Ok) (take 3 (r_faults r))"
proof -
  have step: "take (Suc n) fs = take 1 fs @ take n (tl fs)" for n and fs :: "fault list"
    by (cases fs) simp_all
  let ?body = "\<lambda>currentCount. if lim \<le> int currentCount then
        se_bind (c_zfirst key) (\<lambda>oldest. se_return (False, max 1 (ceil_div ((case oldest of Some (s, _) \<Rightarrow> s
          | None \<Rightarrow> t - win) + win - t) 1000)))
      else se_bind (c_zadd key t (zmember t x)) (\<lambda>_. se_bind (c_pexpire_z key (win * 2)) (\<lambda>_. se_return (True, 0)))"
  from assms have "se_bind (c_zremrangebyscore key 0 (t - win)) (\<lambda>_. se_bind (c_zcard key) ?body) r
      = (Inr (False, retry), r')"
    unfolding window_body_def Let_def .
  then obtain a1 r1 where 1: "c_zremrangebyscore key 0 (t - win) r = (Inr a1, r1)"
      and k1: "se_bind (c_zcard key) ?body r1 = (Inr (False, retry), r')"
    by (rule se_bind_InrE)
  from k1 obtain n r2 where 2: "c_zcard key r1 = (Inr n, r2)" and k2: "?body n r2 = (Inr (False, retry), r')"
    by (rule se_bind_InrE)
  from k2 have "\<exists>a r3. c_zfirst key r2 = (Inr a, r3)"
    by (auto split: if_splits elim!: se_bind_InrE)
  then obtain a3 r3 where 3: "c_zfirst key r2 = (Inr a3, r3)" by blast
  note ok = send_InrE [OF 1 [unfolded c_zremrangebyscore_def]] send_InrE [OF 2 [unfolded c_zcard_def]]
    send_InrE [OF 3 [unfolded c_zfirst_def]]
  have "r_faults r1 = tl (r_faults r)" "r_faults r2 = tl (r_faults r1)"
    by (rule ok(1), simp, rule ok(2), simp)
  moreover have "list_all (\<lambda>f. f = Ok) (take 1 (r_faults r))" "list_all (\<lambda>f. f = Ok) (take 1 (r_faults r1))"
    "list_all (\<lambda>f. f = Ok) (take 1 (r_faults r2))"
    by (rule ok(1), assumption, rule ok(2), assumption, rule ok(3), assumption)
  ultimately show ?thesis
    by (simp add: numeral_3_eq_3 step [of "Suc (Suc 0)"] step [of "Suc 0"])
qed

section \<open>Properties\<close>

text \<open>Within one window the per-policy limiter admits exactly as many claims as its limit: from
  a counter whose window is absent or expired at the first call, a run of calls at ledgers of the
  window that this call opens is allowed exactly \<open>min (number of calls) limit\<close> times, when no admin
  override is active and Redis answers.\<close>

theorem fixed_window_admits_limit:
  assumes "r_faults r = []" "counter_ok r pid" "\<not> override_on r pid"
    and "eff_limit r pid = Fin L" "eff_window r = Fin W" "0 \<le> L"
    and "case abs_counter r pid of None \<Rightarrow> True | Some (c, a) \<Rightarrow> a + W \<le> l"
    and "\<forall>l' \<in> set (l # ls). l' < l + W"
  shows "length (filter (\<lambda>b. b) (rate_run pid r (l # ls))) = min (length (l # ls)) (nat L)"
proof -
  have w: "fw_window W (abs_counter r pid) l = (0, l)"
    using assms(7) by (auto simp: fw_window_def split: option.splits)
  have "rate_run pid r (l # ls) = fw_run L W False (abs_counter r pid) (l # ls)"
    using rate_run_refines [OF assms(1,2,4,5), of "l # ls"] assms(3) by (simp only: refl)
  also have "\<dots> = fw_run L W False (Some (0, l)) (l # ls)"
    using assms(8) by (simp add: fw_check_def w) (simp add: fw_window_def)
  finally show ?thesis
    using fw_run_in_window [of "l # ls" l W L 0] assms(8) by simp
qed

theorem fixed_window_admits_limit_witness:
  "length (filter (\<lambda>b. b) (rate_run ''GA:1'' (redis_empty 0 :: unit redis) [100, 101, 102, 103, 200, 201, 17379])) = 5"
proof -
  let ?r = "redis_empty 0 :: unit redis"
  have "counter_ok ?r ''GA:1''" "abs_counter ?r ''GA:1'' = None"
    by (simp_all add: counter_ok_def abs_counter_def hash_counter_def redis_empty_def truthy_def)
  moreover have "eff_limit ?r ''GA:1'' = Fin 5" "eff_window ?r = Fin 17280" "\<not> override_on ?r ''GA:1''"
    by (simp_all add: eff_limit_def eff_window_def override_on_def redis_empty_def truthy_def parse_or_def
        DEFAULT_LIMIT_def WINDOW_SIZE_LEDGERS_def)
  moreover have "r_faults ?r = []" by (simp add: redis_empty_def)
  ultimately show ?thesis
    using fixed_window_admits_limit [of ?r "''GA:1''" 5 17280 100 "[101, 102, 103, 200, 201, 17379]"] by simp
qed

text \<open>C30. The per-wallet limiter is a true sliding window for requests that are handled one after another
  while Redis answers: in any run of requests at non-decreasing times from an empty window, with random parts that
  are not repeated at one time, no interval of \<open>windowSeconds\<close> sees more than \<open>lim\<close> admitted requests, wherever the
  interval is placed. (A command that fails admits the request, \<open>wallet_limit_fails_open\<close>, and requests that
  overlap may exceed the limit, \<open>overlapping_requests_exceed\<close>.)\<close>

theorem wallet_sliding_window:
  assumes "r_faults r = []" "r_zset r (key_WALLET_WINDOW (to_lower w)) = []"
    and "0 < windowSeconds" "0 \<le> lim" "sorted (0 # map fst qs)" "distinct qs"
  shows "int (length (in_window (windowSeconds * 1000) T
      (admitted (\<lambda>t x r. verdict (checkWalletLimit windowSeconds lim w t x (r\<lparr>r_now := t\<rparr>))) r qs))) \<le> lim"
proof -
  have "window_good (key_WALLET_WINDOW (to_lower w)) (windowSeconds * 1000) 0 r"
    using assms(1,2) by (simp add: window_good_def split: option.split)
  then show ?thesis
    using wallet.admitted_bound assms(2-) zmember_inj_on by force
qed

theorem wallet_sliding_window_witness:
  "int (length (in_window 3600000 3600000
      (admitted (\<lambda>t x r. verdict (checkWalletLimit 3600 3 ''GABC'' t x (r\<lparr>r_now := t\<rparr>))) (redis_empty 0 :: unit redis)
        [(10, ''a''), (20, ''b''), (20, ''c''), (30, ''d''), (3600015, ''e'')]))) \<le> 3"
  using wallet_sliding_window [of "redis_empty 0 :: unit redis" "''GABC''" 3600 3
      "[(10, ''a''), (20, ''b''), (20, ''c''), (30, ''d''), (3600015, ''e'')]" 3600000]
  by (simp add: redis_empty_def)

text \<open>Counting and adding are two commands: two requests that both count before either adds are both admitted at a limit of one.\<close>

lemma overlapping_requests_exceed:
  fixes key :: string
  defines "r1 \<equiv> snd (c_zcard key (redis_empty 0 :: unit redis))"
  shows "fst (c_zcard key (redis_empty 0 :: unit redis)) = Inr 0 \<and> fst (c_zcard key r1) = Inr 0 \<and>
    length (r_zset (snd (c_zadd key 5 ''5-b'' (snd (c_zadd key 5 ''5-a'' r1)))) key) = 2"
  by (simp add: r1_def c_zcard_def c_zadd_def send_def redis_empty_def z_put_def z_insert_def z_live_def)

text \<open>The retry time a denial carries is honest: it lies between one second and the window, and
  a request made that long after the denial (or later) with no other traffic is admitted, when
  the window held no more than \<open>lim\<close> entries.\<close>

theorem retry_after_suffices:
  assumes "window_good (key_WALLET_WINDOW (to_lower w)) (windowSeconds * 1000) t0 r" "t0 \<le> t"
    and "0 < windowSeconds" "0 < lim"
    and "int (length (r_zset r (key_WALLET_WINDOW (to_lower w)))) \<le> lim"
    and "checkWalletLimit windowSeconds lim w t x (r\<lparr>r_now := t\<rparr>) = (Inr (False, retry), r')"
    and "t + retry * 1000 \<le> t'"
  shows "1 \<le> retry \<and> retry \<le> windowSeconds \<and>
    fst (verdict (checkWalletLimit windowSeconds lim w t' y (r'\<lparr>r_now := t'\<rparr>)))"
proof -
  let ?key = "key_WALLET_WINDOW (to_lower w)" and ?win = "windowSeconds * 1000"
  define live where "live = filter (\<lambda>(s, _). t - ?win < s) (r_zset r ?key)"
  have win: "0 < ?win" using assms(3) by simp
  note g = assms(1,2) win
  have full: "lim \<le> int (length live)"
    using window_body_eval(2) [OF g, of lim x] assms(6)
    by (fastforce simp: live_def checkWalletLimit_def se_try_def)
  then obtain s0 m0 rest where l: "live = (s0, m0) # rest" using assms(4) by (cases live) auto
  have s0: "t - ?win < s0" "s0 \<le> t"
    using l assms(1,2) by (auto simp: live_def window_good_def filter_eq_Cons_iff)
  have r': "retry = max 1 (ceil_div (s0 + ?win - t) 1000)" "r' = z_put ?key live (r\<lparr>r_now := t\<rparr>)"
    using window_body_eval(1) [OF g, of lim x] full assms(6) l
    by (simp_all add: live_def checkWalletLimit_def se_try_def)
  have "ceil_div (s0 + ?win - t) 1000 * 1000 < ?win + 1000"
    using ceil_div_less [of 1000 "s0 + ?win - t"] s0 by simp
  then have bounds: "1 \<le> retry" "retry \<le> windowSeconds" using r'(1) assms(3) by auto
  have out: "s0 \<le> t' - ?win"
    using ceil_div_mult [of 1000 "s0 + ?win - t"] r'(1) assms(7) by simp
  have g': "window_good ?key ?win t r'" "t \<le> t'"
    using window_good_step(1) [OF g] r'(2) bounds assms(7) by (simp_all add: live_def)
  have "length (filter (\<lambda>(s, _). t' - ?win < s) live) \<le> length rest"
    using l out by simp
  also have "\<dots> < length live" using l by simp
  also have "\<dots> \<le> length (r_zset r ?key)" by (simp add: live_def)
  finally have "int (length (filter (\<lambda>(s, _). t' - ?win < s) (r_zset r' ?key))) < lim"
    using assms(5) r'(2) by (simp add: z_put_def)
  with window_body_eval(2) [OF g' win, of lim y] bounds show ?thesis
    by (simp add: checkWalletLimit_def se_try_def verdict_def)
qed

theorem retry_after_suffices_witness:
  "\<exists>r'. checkWalletLimit 3600 1 ''GABC'' 500 ''y''
        ((redis_empty 0 :: unit redis)\<lparr>r_zset := (\<lambda>_. [(10, ''10-x'')]), r_now := 500\<rparr>) = (Inr (False, 3600), r')
     \<and> fst (verdict (checkWalletLimit 3600 1 ''GABC'' 3600500 ''z'' (r'\<lparr>r_now := 3600500\<rparr>)))"
proof -
  let ?r = "(redis_empty 0 :: unit redis)\<lparr>r_zset := (\<lambda>_. [(10, ''10-x'')])\<rparr>"
  have g: "window_good (key_WALLET_WINDOW (to_lower ''GABC'')) (3600 * 1000) 10 ?r"
    by (simp add: window_good_def redis_empty_def)
  have run: "checkWalletLimit 3600 1 ''GABC'' 500 ''y'' (?r\<lparr>r_now := 500\<rparr>)
      = (Inr (False, 3600), z_put (key_WALLET_WINDOW (to_lower ''GABC'')) [(10, ''10-x'')] (?r\<lparr>r_now := 500\<rparr>))"
    using window_body_eval(1) [OF g, of 500 1 "''y''"]
    by (simp add: checkWalletLimit_def se_try_def redis_empty_def ceil_div_def)
  have "fst (verdict (checkWalletLimit 3600 1 ''GABC'' 3600500 ''z''
      (z_put (key_WALLET_WINDOW (to_lower ''GABC'')) [(10, ''10-x'')] (?r\<lparr>r_now := 500\<rparr>)\<lparr>r_now := 3600500\<rparr>)))"
    using retry_after_suffices [OF g _ _ _ _ run, of 3600500 "''z''"] by (simp add: redis_empty_def)
  with run show ?thesis by (intro exI conjI) simp_all
qed

text \<open>The wallet limiter fails open: it never throws, and it denies a request only when Redis
  answered each of the three commands the denial is computed from.\<close>

theorem wallet_limit_fails_open:
  "case checkWalletLimit windowSeconds lim w t x r of
     (Inl _, _) \<Rightarrow> False
   | (Inr (b, _), _) \<Rightarrow> b \<or> list_all (\<lambda>f. f = Ok) (take 3 (r_faults r))"
proof (cases "window_body (key_WALLET_WINDOW (to_lower w)) lim (windowSeconds * 1000) t x r")
  case (Pair res r')
  then show ?thesis
    using window_body_denies_answered [of "key_WALLET_WINDOW (to_lower w)" lim "windowSeconds * 1000" t x r]
    by (cases res) (auto simp: checkWalletLimit_def se_try_def)
qed

text \<open>Setting a limit is checked and read back: it is accepted exactly for limits from 1 to the
  absolute cap, the effective limit of that policy is then the value set and the limits of other
  policies are what they were; a refused limit changes nothing.\<close>

theorem setLimit_roundtrip:
  assumes "r_faults r = []"
  shows "case setLimit pid lim r of
     (Inr _, r') \<Rightarrow> 1 \<le> lim \<and> lim \<le> ABSOLUTE_MAX_CAP \<and> getEffectiveLimit pid r' = (Inr (Fin lim), r') \<and>
        (q = pid \<or> getEffectiveLimit q r' = (Inr (eff_limit r q), r'))
   | (Inl e, r') \<Rightarrow> r' = r \<and> (e = LimitTooLow \<and> lim < 1 \<or> e = LimitTooHigh \<and> ABSOLUTE_MAX_CAP < lim)"
proof (cases "1 \<le> lim \<and> lim \<le> ABSOLUTE_MAX_CAP")
  case True
  let ?r' = "hash_upd (key_CONFIG pid) ((r_hash r (key_CONFIG pid))(''limit'' \<mapsto> show_int lim)) r"
  have "setLimit pid lim r = (Inr (), ?r')"
    using True assms by (simp add: setLimit_def c_hset_def se_try_def send_ok)
  moreover have "eff_limit ?r' pid = Fin lim" by (simp add: eff_limit_def)
  moreover have "q = pid \<or> eff_limit ?r' q = eff_limit r q" by (simp add: eff_limit_def)
  ultimately show ?thesis using True assms by (simp add: getEffectiveLimit_ok)
next
  case False
  then show ?thesis by (auto simp: setLimit_def)
qed

theorem setLimit_roundtrip_witness:
  "getEffectiveLimit ''GA:1'' (snd (setLimit ''GA:1'' 42 (redis_empty 0 :: unit redis))) =
     (Inr (Fin 42), snd (setLimit ''GA:1'' 42 (redis_empty 0)))"
proof (cases "setLimit ''GA:1'' 42 (redis_empty 0 :: unit redis)")
  case (Pair res r')
  then show ?thesis
    using setLimit_roundtrip [where r = "redis_empty 0 :: unit redis" and pid = "''GA:1''" and q = "''GA:1''" and lim = 42]
    by (cases res) (auto simp: redis_empty_def ABSOLUTE_MAX_CAP_def)
qed

lemma two_window_guard_frame:
  assumes "\<And>u. ''rate_limit:evidence:'' @ to_lower (prefix @ u) \<noteq> k"
  shows "r_zset (snd (two_window_guard prefix w hl dl t x1 x2 r)) k = r_zset r k"
proof -
  have fr: "checkWalletEvidenceLimit (prefix @ u) lim ws t x s = (res, s') \<Longrightarrow> r_zset s' k = r_zset s k"
    for u lim ws x res and s s' :: "'a redis"
    using z_frame_evidence [of "prefix @ u" lim ws t x] assms [of u] unfolding z_frame_def by (metis snd_conv)
  show ?thesis
    by (auto simp: two_window_guard_def Let_def split: prod.split sum.split dest!: fr)
qed

text \<open>Appeal throttling never touches the windows of claim filing: whatever the request and
  whatever Redis does, the appeal guard leaves every claim window as it was.\<close>

theorem appeal_guard_isolated:
  "r_zset (snd (AppealRateLimitGuard uw bc bw bh hourLimit dayLimit t x1 x2 r))
     (''rate_limit:evidence:'' @ to_lower (''claim'' @ suffix))
   = r_zset r (''rate_limit:evidence:'' @ to_lower (''claim'' @ suffix))"
proof -
  have "''rate_limit:evidence:'' @ to_lower (''appeal'' @ u) \<noteq> ''rate_limit:evidence:'' @ to_lower (''claim'' @ suffix)" for u
    by (simp add: to_lower_def lower_char_def)
  then show ?thesis unfolding AppealRateLimitGuard_def by (rule two_window_guard_frame)
qed

end
