(* ===== verification/Event_Schema.thy ===== *)
theory Event_Schema
  imports Js_Prelude
begin

text \<open>
  \<open>src/backend/src/events/events.schema.ts\<close> and \<open>parser-registry.ts\<close>: the native values the
  Stellar SDK decodes contract events to, the parser table, the two parsers of a raw event and the
  registry that picks a parser by contract and ledger.

  The table's parse functions are type casts, so a table entry is the list of schema versions it
  holds a cast for. Object keys are own string keys; \<open>Buffer\<close> values are not represented.
\<close>

section \<open>Native values\<close>

datatype jsval = JUndef | JNull | JBool bool | JNum jnum | JBig int | JStr string
  | JArr "jsval list" | JObj "(string \<times> jsval) list"

definition nullish :: "jsval \<Rightarrow> bool" where
  "nullish v = (v = JUndef \<or> v = JNull)"

definition show_frac :: "int \<Rightarrow> nat \<Rightarrow> string" where
  "show_frac mant k =
     (let n = nat \<bar>mant\<bar>; fp = show_nat (n mod 10 ^ k);
          padded = replicate (k - length fp) (CHR ''0'') @ fp
      in (if mant < 0 then ''-'' else []) @ show_nat (n div 10 ^ k) @ ''.'' @
         rev (dropWhile (\<lambda>c. c = CHR ''0'') (rev padded)))"

definition show_jnum :: "jnum \<Rightarrow> string" where
  "show_jnum x = (case x of NaN \<Rightarrow> ''NaN'' | Infinity b \<Rightarrow> (if b then ''Infinity'' else ''-Infinity'')
     | Fin i \<Rightarrow> show_int i | Frac mant k \<Rightarrow> show_frac mant k)"

text \<open>\<open>String(v)\<close>; inside an array \<open>null\<close> and \<open>undefined\<close> print as nothing.\<close>

fun js_String :: "jsval \<Rightarrow> string" where
  "js_String JUndef = ''undefined''"
| "js_String JNull = ''null''"
| "js_String (JBool b) = (if b then ''true'' else ''false'')"
| "js_String (JNum x) = show_jnum x"
| "js_String (JBig i) = show_int i"
| "js_String (JStr s) = s"
| "js_String (JArr vs) = join_with '','' (map (\<lambda>v. if nullish v then [] else js_String v) vs)"
| "js_String (JObj fs) = ''[object Object]''"

text \<open>\<open>v?.toString()\<close>.\<close>

definition opt_toString :: "jsval \<Rightarrow> string option" where
  "opt_toString v = (if nullish v then None else Some (js_String v))"

text \<open>\<open>xs[i]\<close>: past the end it is \<open>undefined\<close>.\<close>

definition js_nth :: "jsval list \<Rightarrow> nat \<Rightarrow> jsval" where
  "js_nth vs i = (if i < length vs then vs ! i else JUndef)"

text \<open>\<open>v.name\<close>, where reading from \<open>null\<close> or \<open>undefined\<close> throws (\<open>None\<close>), and \<open>v?.name\<close>.\<close>

definition js_field :: "jsval \<Rightarrow> string \<Rightarrow> jsval option" where
  "js_field v name = (case v of JUndef \<Rightarrow> None | JNull \<Rightarrow> None
     | JObj fs \<Rightarrow> Some (case map_of fs name of None \<Rightarrow> JUndef | Some w \<Rightarrow> w)
     | _ \<Rightarrow> Some JUndef)"

definition opt_field :: "jsval \<Rightarrow> string \<Rightarrow> jsval" where
  "opt_field v name = (case js_field v name of None \<Rightarrow> JUndef | Some w \<Rightarrow> w)"

section \<open>Parser table\<close>

definition SCHEMA_VERSION :: jnum where "SCHEMA_VERSION = Fin 1"

definition EventKey :: "string list" where
  "EventKey =
    [''niffyins:clm_filed'', ''niffyins:vote_cast'', ''niffyins:clm_final'', ''niffyins:clm_paid'',
     ''niffyins:claim_status_changed'', ''niffyinsure:appeal_opened'', ''niffyinsure:appeal_resolved'',
     ''niffyinsure:claim_withdrawn'', ''niffyinsure:PolicyInitiated'', ''niffyinsure:PolicyRenewed'',
     ''niffyinsure:policy_terminated'', ''niffyinsure:policy_expired'', ''niffyinsure:BeneficiaryUpdated'',
     ''niffyinsure:quorum_updated'', ''niffyinsure:GracePeriodUpdated'',
     ''niffyinsure:payout_asset_override_applied'', ''niffyinsure:asset_premium_table_set'',
     ''niffyinsure:installment_disbursed'', ''niffyinsure:claim_fully_paid'',
     ''niffyinsure:policy_transferred'', ''niffyinsure:claim_evidence_updated'',
     ''niffyinsure:payout_recipient_warning'', ''niffyins:tbl_upd'', ''niffyins:asset_set'',
     ''niffyins:adm_prop'', ''niffyins:adm_acc'', ''niffyins:adm_can'', ''niffyins:adm_tok'',
     ''niffyins:adm_paus'', ''niffyins:adm_drn'']"

text \<open>\<open>EVENT_PARSERS[key]\<close>: the versions with a cast; every key has version 1 only.\<close>

definition EVENT_PARSERS :: "string \<Rightarrow> jnum list option" where
  "EVENT_PARSERS key = (if key \<in> set EventKey then Some [Fin 1] else None)"

record parsed_event =
  pe_key :: string
  pe_schemaVersion :: jnum
  pe_ledger :: int
  pe_txHash :: string
  pe_ids :: "jsval list"
  pe_payload :: jsval

definition event_key :: "jsval list \<Rightarrow> string" where
  "event_key topics = js_String (js_nth topics 0) @ '':'' @ js_String (js_nth topics 1)"

definition payload_version :: "jsval \<Rightarrow> jnum" where
  "payload_version payload = (case opt_field payload ''version'' of JNum x \<Rightarrow> x | _ \<Rightarrow> SCHEMA_VERSION)"

definition parseEvent :: "jsval list \<Rightarrow> jsval \<Rightarrow> int \<Rightarrow> string \<Rightarrow> parsed_event option" where
  "parseEvent topics payload ledger txHash =
     (if length topics < 2 then None
      else let key = event_key topics in
        case EVENT_PARSERS key of None \<Rightarrow> None
        | Some versions \<Rightarrow>
            let version = payload_version payload in
            if version \<notin> set versions then None
            else Some \<lparr>pe_key = key, pe_schemaVersion = version, pe_ledger = ledger, pe_txHash = txHash,
                       pe_ids = drop 2 topics, pe_payload = payload\<rparr>)"

section \<open>Parser registry\<close>

record warning_row =
  wr_contractId :: string
  wr_ledger :: int
  wr_txHash :: string
  wr_rawTopics :: "jsval list"
  wr_rawPayload :: jsval
  wr_reason :: string

datatype parse_result = Parsed parsed_event | Warning warning_row

type_synonym event_parser = "jsval list \<Rightarrow> jsval \<Rightarrow> int \<Rightarrow> string \<Rightarrow> parse_result"

definition warn :: "string \<Rightarrow> jsval list \<Rightarrow> jsval \<Rightarrow> int \<Rightarrow> string \<Rightarrow> string \<Rightarrow> parse_result" where
  "warn reason topics payload ledger txHash contractId =
     Warning \<lparr>wr_contractId = contractId, wr_ledger = ledger, wr_txHash = txHash,
              wr_rawTopics = topics, wr_rawPayload = payload, wr_reason = reason\<rparr>"

definition EventParserV1_parse :: event_parser where
  "EventParserV1_parse topics payload ledger txHash =
     (if length topics < 2 then warn ''topics_too_short'' topics payload ledger txHash []
      else let key = event_key topics in
        case EVENT_PARSERS key of
          None \<Rightarrow> warn ''unknown_event_key'' topics payload ledger txHash key
        | Some versions \<Rightarrow>
            let version = payload_version payload in
            if version \<notin> set versions
            then warn (''no_parser_for_version_'' @ show_jnum version) topics payload ledger txHash key
            else Parsed \<lparr>pe_key = key, pe_schemaVersion = version, pe_ledger = ledger,
                         pe_txHash = txHash, pe_ids = drop 2 topics, pe_payload = payload\<rparr>)"

definition EventParserV2_parse :: event_parser where
  "EventParserV2_parse = EventParserV1_parse"

datatype parser_id = V1 | V2

definition parser_parse :: "parser_id \<Rightarrow> event_parser" where
  "parser_parse p = (case p of V1 \<Rightarrow> EventParserV1_parse | V2 \<Rightarrow> EventParserV2_parse)"

definition PARSER_IMPLEMENTATIONS :: "int \<Rightarrow> parser_id option" where
  "PARSER_IMPLEMENTATIONS v = (if v = 1 then Some V1 else if v = 2 then Some V2 else None)"

record deployment_entry =
  de_contractId :: string
  de_schemaVersion :: int
  de_fromLedger :: int
  de_toLedger :: "int option"

text \<open>\<open>Array.prototype.sort\<close> is stable, as \<^const>\<open>sort_key\<close> is.\<close>

definition initDeploymentRegistry :: "deployment_entry list \<Rightarrow> deployment_entry list" where
  "initDeploymentRegistry entries = sort_key (\<lambda>e. - de_fromLedger e) entries"

definition entry_covers :: "string \<Rightarrow> int \<Rightarrow> deployment_entry \<Rightarrow> bool" where
  "entry_covers contractId ledger e =
     (de_contractId e = contractId \<and> de_fromLedger e \<le> ledger \<and>
      (case de_toLedger e of None \<Rightarrow> True | Some t \<Rightarrow> ledger < t))"

fun selectParser :: "deployment_entry list \<Rightarrow> string \<Rightarrow> int \<Rightarrow> parser_id" where
  "selectParser [] contractId ledger = V1"
| "selectParser (e # es) contractId ledger =
     (if entry_covers contractId ledger e
      then case PARSER_IMPLEMENTATIONS (de_schemaVersion e) of
             Some p \<Rightarrow> p
           | None \<Rightarrow> selectParser es contractId ledger
      else selectParser es contractId ledger)"

definition isWarningRow :: "parse_result \<Rightarrow> bool" where
  "isWarningRow r = (case r of Warning _ \<Rightarrow> True | Parsed _ \<Rightarrow> False)"

section \<open>Lemmas\<close>

definition usable_entry :: "string \<Rightarrow> int \<Rightarrow> deployment_entry \<Rightarrow> bool" where
  "usable_entry c l e = (entry_covers c l e \<and> PARSER_IMPLEMENTATIONS (de_schemaVersion e) \<noteq> None)"

lemma selectParser_filter:
  "selectParser es c l =
     (case filter (usable_entry c l) es of [] \<Rightarrow> V1 | e # _ \<Rightarrow> the (PARSER_IMPLEMENTATIONS (de_schemaVersion e)))"
  by (induction es) (auto simp: usable_entry_def split: list.splits)

lemma parsed_key_known:
  "EventParserV1_parse topics payload ledger txHash = Parsed p \<Longrightarrow>
     2 \<le> length topics \<and> event_key topics \<in> set EventKey \<and> payload_version payload = Fin 1"
  by (auto simp: EventParserV1_parse_def warn_def EVENT_PARSERS_def Let_def split: if_splits)

lemma split_event_key:
  assumes "s @ CHR '':'' # t = u @ CHR '':'' # v" "CHR '':'' \<notin> set u" "CHR '':'' \<notin> set v"
  shows "s = u \<and> t = v"
proof -
  have "count_list (s @ CHR '':'' # t) (CHR '':'') = 1"
    using assms by (simp add: count_list_0_iff [THEN iffD2])
  then have s: "CHR '':'' \<notin> set s" by (auto simp: count_list_0_iff)
  have "split_first (CHR '':'') (s @ CHR '':'' # t) = Some (u, v)"
    using assms by (simp add: split_first_append)
  then show ?thesis using split_first_append [OF s] by simp
qed

section \<open>Properties\<close>

text \<open>The parser chosen for an event is that of the newest deployment of its contract that covers
  the event's ledger: of the registered entries that cover it and name a known schema version, one
  with the greatest start ledger decides, and with no such entry it is the version 1 parser.\<close>

theorem selectParser_newest:
  "(\<exists>e \<in> set entries. usable_entry c l e \<and>
      PARSER_IMPLEMENTATIONS (de_schemaVersion e) = Some (selectParser (initDeploymentRegistry entries) c l) \<and>
      list_all (\<lambda>f. de_fromLedger f \<le> de_fromLedger e) (filter (usable_entry c l) entries))
   \<or> filter (usable_entry c l) entries = [] \<and> selectParser (initDeploymentRegistry entries) c l = V1"
proof (cases "filter (usable_entry c l) (initDeploymentRegistry entries)")
  case Nil
  then have "filter (usable_entry c l) entries = []"
    by (simp add: initDeploymentRegistry_def filter_empty_conv)
  with Nil show ?thesis by (simp add: selectParser_filter)
next
  case (Cons e es)
  have srt: "sorted (map (\<lambda>e. - de_fromLedger e) (e # es))"
    using Cons [symmetric] by (simp add: initDeploymentRegistry_def sorted_filter)
  have mem: "set (e # es) = {f \<in> set entries. usable_entry c l f}"
    using arg_cong [OF Cons, of set] by (simp add: initDeploymentRegistry_def)
  then have ue: "e \<in> set entries" "usable_entry c l e" by auto
  have sel: "PARSER_IMPLEMENTATIONS (de_schemaVersion e) = Some (selectParser (initDeploymentRegistry entries) c l)"
    using Cons ue by (auto simp: selectParser_filter usable_entry_def)
  have "de_fromLedger f \<le> de_fromLedger e" if "f \<in> set entries" "usable_entry c l f" for f
  proof -
    have "f \<in> set (e # es)" using that mem by blast
    then show ?thesis using srt by auto
  qed
  with sel ue show ?thesis by (auto simp: list_all_iff)
qed

text \<open>The two parsers agree: the registry's version 1 parser accepts an event exactly when
  \<open>parseEvent\<close> does, with the same typed event, and what it refuses it reports with the raw topics
  and payload instead of dropping it.\<close>

theorem parser_agrees:
  "case EventParserV1_parse topics payload ledger txHash of
     Parsed p \<Rightarrow> parseEvent topics payload ledger txHash = Some p
   | Warning w \<Rightarrow> parseEvent topics payload ledger txHash = None \<and> wr_rawTopics w = topics \<and>
       wr_rawPayload w = payload \<and> wr_ledger w = ledger \<and> wr_txHash w = txHash"
  by (simp add: EventParserV1_parse_def parseEvent_def warn_def Let_def split: option.split)

end
