(* ===== verification/Claims_Db.thy ===== *)
theory Claims_Db
  imports Event_Schema
begin

text \<open>
  The PostgreSQL tables the backend reads and writes through Prisma, as the models of
  \<open>src/backend/prisma/schema.prisma\<close> declare them, and the Prisma calls the services use.

  A table is the list of its rows under their unique key. The columns the database or Prisma fills
  on its own (surrogate ids, \<open>createdAt\<close>, \<open>updatedAt\<close>) and \<open>tenantId\<close> are left out.
  \<open>record_store\<close> is the contract of \<open>findUnique\<close> and \<open>upsert\<close>: what a service may assume of a
  table, discharged here for the lists.
\<close>

section \<open>Tables\<close>

type_synonym ('k, 'v) table = "('k \<times> 'v) list"

definition findUnique :: "('k, 'v) table \<Rightarrow> 'k \<Rightarrow> 'v option" where
  "findUnique t k = map_of t k"

definition updateMany :: "('k \<Rightarrow> 'v \<Rightarrow> bool) \<Rightarrow> ('v \<Rightarrow> 'v) \<Rightarrow> ('k, 'v) table \<Rightarrow> ('k, 'v) table" where
  "updateMany p f t = map (\<lambda>(k, v). (k, if p k v then f v else v)) t"

definition upsert :: "'k \<Rightarrow> 'v \<Rightarrow> ('v \<Rightarrow> 'v) \<Rightarrow> ('k, 'v) table \<Rightarrow> ('k, 'v) table" where
  "upsert k create update t =
     (if findUnique t k = None then t @ [(k, create)] else updateMany (\<lambda>k' _. k' = k) update t)"

definition findMany :: "('k \<Rightarrow> 'v \<Rightarrow> bool) \<Rightarrow> ('k, 'v) table \<Rightarrow> ('k \<times> 'v) list" where
  "findMany p t = filter (\<lambda>(k, v). p k v) t"

definition count_where :: "('k \<Rightarrow> 'v \<Rightarrow> bool) \<Rightarrow> ('k, 'v) table \<Rightarrow> int" where
  "count_where p t = int (length (findMany p t))"

definition keys_unique :: "('k, 'v) table \<Rightarrow> bool" where
  "keys_unique t = distinct (map fst t)"

text \<open>A value for an \<open>Int\<close> column: Prisma refuses what is not a 32-bit integer.\<close>

definition prisma_int :: "jnum \<Rightarrow> int option" where
  "prisma_int x = (case x of Fin i \<Rightarrow> if - (2 ^ 31) \<le> i \<and> i < 2 ^ 31 then Some i else None | _ \<Rightarrow> None)"

section \<open>Rows\<close>

datatype claim_status = PENDING | APPROVED | PAID | REJECTED | UNDER_APPEAL
  | APPEAL_APPROVED | APPEAL_REJECTED

datatype vote_type = APPROVE | REJECT

record policy_row =
  p_policyId :: int
  p_holderAddress :: string
  p_policyType :: string
  p_region :: string
  p_coverageAmount :: string
  p_premium :: string
  p_isActive :: bool
  p_startLedger :: int
  p_endLedger :: int
  p_assetContractId :: "string option"
  p_txHash :: "string option"
  p_deleted :: bool

record claim_row =
  cl_policyId :: string
  cl_creatorAddress :: string
  cl_amount :: string
  cl_asset :: "string option"
  cl_description :: string
  cl_imageUrls :: "string list"
  cl_status :: claim_status
  cl_isFinalized :: bool
  cl_approveVotes :: int
  cl_rejectVotes :: int
  cl_paidAt :: "int option"
  cl_createdAtLedger :: int
  cl_updatedAtLedger :: int
  cl_txHash :: "string option"
  cl_deleted :: bool
  cl_appealsCount :: int
  cl_appealTxHash :: "string option"

record vote_row =
  vo_vote :: vote_type
  vo_votedAtLedger :: int
  vo_txHash :: string

record raw_event_row =
  re_contractId :: string
  re_ledger :: int
  re_ledgerClosedAt :: int
  re_topic1 :: "string option"
  re_topic2 :: "string option"
  re_topic3 :: "string option"
  re_topic4 :: "string option"
  re_data :: jsval

record asset_row =
  as_symbol :: "string option"
  as_decimals :: int
  as_isAllowed :: bool
  as_addedAtLedger :: int

record gap_row =
  ga_lastFiredAt :: int
  ga_lastGapSize :: int
  ga_lastProcessedLedger :: int
  ga_latestLedger :: int

record claims_db =
  db_cursor :: "(string, int) table"
  db_legacyLedger :: "int option"
  db_gapAlert :: "(string, gap_row) table"
  db_rawEvent :: "(string \<times> int, raw_event_row) table"
  db_policy :: "(string, policy_row) table"
  db_claim :: "(int, claim_row) table"
  db_vote :: "(int \<times> string, vote_row) table"
  db_asset :: "(string, asset_row) table"
  db_registeredVoter :: "string list"
  db_voterSnapshot :: "(int \<times> string \<times> int) list"

definition claims_db_empty :: claims_db where
  "claims_db_empty = \<lparr>db_cursor = [], db_legacyLedger = None, db_gapAlert = [], db_rawEvent = [],
     db_policy = [], db_claim = [], db_vote = [], db_asset = [], db_registeredVoter = [],
     db_voterSnapshot = []\<rparr>"

section \<open>The contract of a keyed table\<close>

locale record_store =
  fixes get :: "'t \<Rightarrow> 'k \<Rightarrow> 'v option"
    and put :: "'k \<Rightarrow> 'v \<Rightarrow> ('v \<Rightarrow> 'v) \<Rightarrow> 't \<Rightarrow> 't"
  assumes get_put: "get (put k c u t) k' =
    (if k' = k then Some (case get t k of None \<Rightarrow> c | Some v \<Rightarrow> u v) else get t k')"
begin

lemma get_put_same: "get (put k c u t) k = Some (case get t k of None \<Rightarrow> c | Some v \<Rightarrow> u v)"
  by (simp add: get_put)

lemma get_put_other: "k' \<noteq> k \<Longrightarrow> get (put k c u t) k' = get t k'"
  by (simp add: get_put)

lemma put_twice: "(\<And>v. u (u v) = u v) \<Longrightarrow> u c = c \<Longrightarrow> get (put k c u (put k c u t)) = get (put k c u t)"
  by (rule ext) (simp add: get_put split: option.split)

lemma put_commute: "k \<noteq> l \<Longrightarrow> get (put k c u (put l d w t)) = get (put l d w (put k c u t))"
  by (rule ext) (simp add: get_put)

end

lemma map_of_updateMany:
  "map_of (updateMany p f t) k = map_option (\<lambda>v. if p k v then f v else v) (map_of t k)"
  by (induction t) (auto simp: updateMany_def)

lemma findUnique_updateMany [simp]:
  "findUnique (updateMany p f t) k = map_option (\<lambda>v. if p k v then f v else v) (findUnique t k)"
  by (simp add: findUnique_def map_of_updateMany)

lemma findUnique_upsert:
  "findUnique (upsert k c u t) k' =
     (if k' = k then Some (case findUnique t k of None \<Rightarrow> c | Some v \<Rightarrow> u v) else findUnique t k')"
  by (auto simp: upsert_def findUnique_def map_add_def map_of_updateMany option.map_ident
      split: option.split)

interpretation db_table: record_store findUnique upsert
  by unfold_locales (rule findUnique_upsert)

lemma map_fst_updateMany [simp]: "map fst (updateMany p f t) = map fst t"
  by (induction t) (auto simp: updateMany_def)

lemma fst_set_updateMany [simp]: "fst ` set (updateMany p f t) = fst ` set t"
  by (metis list.set_map map_fst_updateMany)

lemma findUnique_None: "findUnique t k = None \<longleftrightarrow> k \<notin> fst ` set t"
  by (simp add: findUnique_def map_of_eq_None_iff)

lemma keys_unique_updateMany [simp]: "keys_unique (updateMany p f t) = keys_unique t"
  by (simp add: keys_unique_def)

lemma keys_unique_upsert: "keys_unique t \<Longrightarrow> keys_unique (upsert k c u t)"
  by (auto simp: upsert_def keys_unique_def findUnique_None)

lemma upsert_new: "findUnique t k = None \<Longrightarrow> upsert k c u t = t @ [(k, c)]"
  by (simp add: upsert_def)

lemma updateMany_id: "updateMany p (\<lambda>v. v) t = t"
  by (induction t) (auto simp: updateMany_def)

lemma upsert_keep: "findUnique t k \<noteq> None \<Longrightarrow> upsert k c (\<lambda>v. v) t = t"
  by (simp add: upsert_def updateMany_id)

lemma keys_upsert: "fst ` set (upsert k c u t) = insert k (fst ` set t)"
  by (cases "findUnique t k = None") (auto simp: upsert_def findUnique_None)

lemma findUnique_SomeI: "keys_unique t \<Longrightarrow> (k, v) \<in> set t \<Longrightarrow> findUnique t k = Some v"
  by (simp add: keys_unique_def findUnique_def)

lemma findUnique_SomeD: "findUnique t k = Some v \<Longrightarrow> (k, v) \<in> set t"
  by (simp add: findUnique_def map_of_SomeD)

lemma updateMany_eq_conv:
  "updateMany p f t = t \<longleftrightarrow> (\<forall>(k, v) \<in> set t. p k v \<longrightarrow> f v = v)"
  by (induction t) (auto simp: updateMany_def)

lemma updateMany_updateMany:
  "updateMany p f (updateMany q g t) =
     map (\<lambda>(k, v). (k, let w = if q k v then g v else v in if p k w then f w else w)) t"
  by (induction t) (auto simp: updateMany_def Let_def)

end
