(* ===== verification/Address.thy ===== *)
theory Address
  imports Js_Prelude
begin

text \<open>
  \<open>src/backend/src/common/utils/normalize-address.ts\<close>. The Stellar SDK's strkey checks and its
  decoding of muxed accounts are the fields of \<open>strkey\<close>; \<open>sk_muxedBase\<close> is \<open>None\<close> where
  \<open>MuxedAccount.fromAddress\<close> throws.
\<close>

record strkey =
  sk_isValidEd25519PublicKey :: "string \<Rightarrow> bool"
  sk_isValidContract :: "string \<Rightarrow> bool"
  sk_muxedBase :: "string \<Rightarrow> string option"

definition normalizeAddress :: "strkey \<Rightarrow> string \<Rightarrow> string option" where
  "normalizeAddress sk raw =
     (if raw = [] then None
      else let trimmed = trim raw in
        if sk_isValidEd25519PublicKey sk trimmed then Some trimmed
        else if sk_isValidContract sk trimmed then Some trimmed
        else if starts_with ''M'' trimmed then
          (case sk_muxedBase sk trimmed of
             Some base \<Rightarrow> if sk_isValidEd25519PublicKey sk base then Some base else None
           | None \<Rightarrow> None)
        else None)"

definition tryNormalizeAddress :: "strkey \<Rightarrow> string \<Rightarrow> string option" where
  "tryNormalizeAddress sk raw = normalizeAddress sk raw"

text \<open>Normalising an address is stable: a normalised address is a valid public key or contract
  address of the SDK, and if the SDK accepts only trimmed strings, normalising it again gives it back.\<close>

theorem normalizeAddress_canonical:
  assumes "\<And>s. sk_isValidEd25519PublicKey sk s \<or> sk_isValidContract sk s \<Longrightarrow> s \<noteq> [] \<and> trim s = s"
    and "normalizeAddress sk raw = Some a"
  shows "(sk_isValidEd25519PublicKey sk a \<or> sk_isValidContract sk a) \<and> normalizeAddress sk a = Some a"
proof -
  have v: "sk_isValidEd25519PublicKey sk a \<or> sk_isValidContract sk a"
    using assms(2) by (auto simp: normalizeAddress_def Let_def split: if_splits option.splits)
  with assms(1) [OF v] show ?thesis by (auto simp: normalizeAddress_def Let_def)
qed

theorem normalizeAddress_canonical_witness:
  "normalizeAddress \<lparr>sk_isValidEd25519PublicKey = (\<lambda>s. s = ''GA''), sk_isValidContract = (\<lambda>s. s = ''CA''),
      sk_muxedBase = (\<lambda>s. Some ''GA'')\<rparr> ''GA'' = Some ''GA''"
proof -
  let ?sk = "\<lparr>sk_isValidEd25519PublicKey = (\<lambda>s. s = ''GA''), sk_isValidContract = (\<lambda>s. s = ''CA''),
      sk_muxedBase = (\<lambda>s. Some ''GA'')\<rparr>"
  have "normalizeAddress ?sk '' MA7 '' = Some ''GA''"
    by (simp add: normalizeAddress_def js_defs)
  moreover have "s \<noteq> [] \<and> trim s = s" if "sk_isValidEd25519PublicKey ?sk s \<or> sk_isValidContract ?sk s" for s
    using that by (auto simp: js_defs)
  ultimately show ?thesis using normalizeAddress_canonical [of ?sk "'' MA7 ''" "''GA''"] by blast
qed

end
