(* ===== verification/Indexer.thy ===== *)
theory Indexer
  imports Claims_Db Address
begin

text \<open>
  \<open>src/backend/src/indexer/indexer.service.ts\<close>: reading contract events in batches from a ledger
  cursor, recording each raw event once, routing it to the handler of its topics and advancing the
  cursor, one database transaction per event.

  The state is the database and the calls made to other services (event bus, caches, webhooks), in
  order; those are outside the transaction and survive a rollback. \<open>env\<close> holds what is not part of
  the source: the SDK's decoding of XDR values, strkey checks, and whether a service call throws.

  The source file declares \<open>const existing\<close> twice in \<open>handleAppealOpened\<close>; the model reads the
  second declaration as a variable of its own. \<open>handleAppealResolved\<close> reads \<open>alreadyTerminal\<close>, which
  is declared nowhere: evaluating it throws a \<open>ReferenceError\<close>, and so it does here.
\<close>

section \<open>Values\<close>

fun toInputJsonValue :: "jsval \<Rightarrow> jsval" where
  "toInputJsonValue JUndef = JNull"
| "toInputJsonValue JNull = JNull"
| "toInputJsonValue (JBool b) = JBool b"
| "toInputJsonValue (JNum x) = (if js_isFinite x then JNum x else JNull)"
| "toInputJsonValue (JBig i) = JStr (show_int i)"
| "toInputJsonValue (JStr s) = JStr s"
| "toInputJsonValue (JArr vs) = JArr (map toInputJsonValue vs)"
| "toInputJsonValue (JObj fs) = JObj (map (\<lambda>f. (fst f, toInputJsonValue (snd f))) fs)"

definition getStringValue :: "jsval \<Rightarrow> string" where
  "getStringValue v = (case v of JStr s \<Rightarrow> s | JUndef \<Rightarrow> [] | JNull \<Rightarrow> [] | w \<Rightarrow> js_String w)"

definition getNumberValue :: "jsval \<Rightarrow> jnum" where
  "getNumberValue v = (case v of JNum x \<Rightarrow> x | JBig i \<Rightarrow> Fin i | w \<Rightarrow> js_Number (getStringValue w))"

definition getStringArray :: "jsval \<Rightarrow> string list" where
  "getStringArray v = (case v of JArr vs \<Rightarrow> map getStringValue vs | _ \<Rightarrow> [])"

text \<open>\<open>Number(v)\<close> of a native value.\<close>

definition js_Number_of :: "jsval \<Rightarrow> jnum" where
  "js_Number_of v = (case v of JUndef \<Rightarrow> NaN | JNull \<Rightarrow> Fin 0 | JBool b \<Rightarrow> Fin (if b then 1 else 0)
     | JNum x \<Rightarrow> x | JBig i \<Rightarrow> Fin i | w \<Rightarrow> js_Number (js_String w))"

definition normalized_label :: "string \<Rightarrow> string" where
  "normalized_label s = filter (\<lambda>c. c \<noteq> CHR ''_'') (to_lower s)"

definition mapAppealOutcome :: "jsval \<Rightarrow> bool \<Rightarrow> claim_status option" where
  "mapAppealOutcome outcome allowBareApprovedRejected =
     (let normalized = normalized_label (getStringValue outcome) in
      if normalized = ''appealapproved'' then Some APPEAL_APPROVED
      else if normalized = ''appealrejected'' then Some APPEAL_REJECTED
      else if allowBareApprovedRejected \<and> normalized = ''approved'' then Some APPEAL_APPROVED
      else if allowBareApprovedRejected \<and> normalized = ''rejected'' then Some APPEAL_REJECTED
      else None)"

section \<open>State, environment and calls\<close>

datatype ix_error = TypeError | ReferenceError | PrismaValidation | RecordNotFound | ForeignKey
  | DecodeError | ServiceError | RpcError

datatype service_call =
    PublishClaim int claim_status bool int   \<comment> \<open>claim, status (\<open>VOTING\<close> when the flag is set), ledger\<close>
  | InvalidateClaim int
  | DeliverClaimFiled int string string string string int string
  | PublishVote int string bool int int
  | DeliverVoteCast int string string int int string int string
  | InvalidateQuotes
  | InvalidateAssets
  | InvalidatePolicyAnalytics
  | DuplicateMetric string string

record 'x env =
  env_native :: "'x \<Rightarrow> jsval option"   \<comment> \<open>scValToNative, \<open>None\<close> when it throws\<close>
  env_xdr :: "'x \<Rightarrow> string"
  env_strkey :: strkey
  env_fails :: "service_call \<Rightarrow> bool"
  env_registry :: "deployment_entry list"
  env_gapThreshold :: int
  env_gapCooldownMs :: int

record 'x soroban_event =
  ev_txHash :: string
  ev_ledger :: int
  ev_ledgerClosedAt :: int
  ev_contractId :: "string option"
  ev_topic :: "'x list"
  ev_value :: 'x

record ix_state =
  ix_db :: claims_db
  ix_calls :: "service_call list"

type_synonym 'a ix = "(ix_state, ix_error, 'a) se"

definition call :: "'x env \<Rightarrow> service_call \<Rightarrow> unit ix" where
  "call env c st = (let st' = st\<lparr>ix_calls := ix_calls st @ [c]\<rparr>
     in if env_fails env c then (Inl ServiceError, st') else (Inr (), st'))"

text \<open>A call whose rejection is caught, or which cannot throw (a metric).\<close>

definition call_safe :: "service_call \<Rightarrow> unit ix" where
  "call_safe c st = (Inr (), st\<lparr>ix_calls := ix_calls st @ [c]\<rparr>)"

definition read_db :: "(claims_db \<Rightarrow> 'a) \<Rightarrow> 'a ix" where
  "read_db f st = (Inr (f (ix_db st)), st)"

definition write_db :: "(claims_db \<Rightarrow> claims_db) \<Rightarrow> unit ix" where
  "write_db f st = (Inr (), st\<lparr>ix_db := f (ix_db st)\<rparr>)"

definition field :: "jsval \<Rightarrow> string \<Rightarrow> jsval ix" where
  "field v name = (case js_field v name of None \<Rightarrow> se_throw TypeError | Some w \<Rightarrow> se_return w)"

definition int_arg :: "jnum \<Rightarrow> int ix" where
  "int_arg x = (case prisma_int x of None \<Rightarrow> se_throw PrismaValidation | Some i \<Rightarrow> se_return i)"

text \<open>\<open>prisma.$transaction\<close>: on a throw every database write of the body is undone.\<close>

definition transaction :: "'a ix \<Rightarrow> 'a ix" where
  "transaction body st = (case body st of
     (Inl e, st') \<Rightarrow> (Inl e, st'\<lparr>ix_db := ix_db st\<rparr>)
   | (Inr a, st') \<Rightarrow> (Inr a, st'))"

definition holder_of :: "'x env \<Rightarrow> jsval \<Rightarrow> string" where
  "holder_of env v = (case tryNormalizeAddress (env_strkey env) (getStringValue v) of
     Some a \<Rightarrow> a | None \<Rightarrow> getStringValue v)"

text \<open>\<open>x != null && x !== '' ? getStringValue(x) : null\<close>.\<close>

definition string_or_null :: "jsval \<Rightarrow> string option" where
  "string_or_null v = (if nullish v \<or> v = JStr [] then None else Some (getStringValue v))"

definition resolveClaimId :: "jsval \<Rightarrow> jsval list \<Rightarrow> jnum ix" where
  "resolveClaimId data topics =
     se_bind (field data ''claim_id'') (\<lambda>c.
     se_return (if \<not> nullish c \<and> c \<noteq> JStr [] then getNumberValue c
       else if \<not> nullish (js_nth topics 2) then getNumberValue (js_nth topics 2)
       else NaN))"

section \<open>Cursor and gap alert\<close>

definition ensureCursor :: "string \<Rightarrow> int ix" where
  "ensureCursor network =
     se_bind (read_db (\<lambda>db. findUnique (db_cursor db) network)) (\<lambda>row.
     case row of Some c \<Rightarrow> se_return c
     | None \<Rightarrow>
         se_bind (read_db (\<lambda>db. case db_legacyLedger db of Some l \<Rightarrow> l | None \<Rightarrow> 0)) (\<lambda>initial.
         se_bind (write_db (\<lambda>db. db\<lparr>db_cursor := db_cursor db @ [(network, initial)]\<rparr>)) (\<lambda>_.
         se_return initial)))"

definition advanceCursorInTx :: "string \<Rightarrow> int \<Rightarrow> unit ix" where
  "advanceCursorInTx network ledger =
     se_bind (read_db (\<lambda>db. findUnique (db_cursor db) network)) (\<lambda>cur.
     let next = max (case cur of Some c \<Rightarrow> c | None \<Rightarrow> 0) ledger in
     write_db (\<lambda>db. db\<lparr>db_cursor := upsert network next (\<lambda>_. next) (db_cursor db)\<rparr>))"

text \<open>The result says whether an alert was raised.\<close>

definition maybeEmitGapAlert :: "'x env \<Rightarrow> int \<Rightarrow> string \<Rightarrow> int \<Rightarrow> int \<Rightarrow> int \<Rightarrow> bool ix" where
  "maybeEmitGapAlert env now network gapSize lastProcessedLedger latestLedger =
     se_bind (read_db (\<lambda>db. findUnique (db_gapAlert db) network)) (\<lambda>dedup.
     if (case dedup of Some d \<Rightarrow> now - ga_lastFiredAt d < env_gapCooldownMs env | None \<Rightarrow> False)
     then se_return False
     else let row = \<lparr>ga_lastFiredAt = now, ga_lastGapSize = gapSize,
            ga_lastProcessedLedger = lastProcessedLedger, ga_latestLedger = latestLedger\<rparr> in
       se_bind (write_db (\<lambda>db. db\<lparr>db_gapAlert := upsert network row (\<lambda>_. row) (db_gapAlert db)\<rparr>)) (\<lambda>_.
       se_return True))"

section \<open>Handlers\<close>

definition handlePolicyInitiated :: "'x env \<Rightarrow> jsval \<Rightarrow> 'x soroban_event \<Rightarrow> unit ix" where
  "handlePolicyInitiated env data event =
     se_bind (field data ''holder'') (\<lambda>h.
     let holder = holder_of env h;
         f = opt_field data;
         policyNum = getNumberValue (f ''policy_id'');
         key = holder @ '':'' @ show_jnum policyNum;
         assetContractId = string_or_null (f ''asset'') in
     se_bind (int_arg policyNum) (\<lambda>policyId.
     se_bind (int_arg (getNumberValue (f ''start_ledger''))) (\<lambda>startLedger.
     se_bind (int_arg (getNumberValue (f ''end_ledger''))) (\<lambda>endLedger.
     se_bind (write_db (\<lambda>db. db\<lparr>db_policy := upsert key
        \<lparr>p_policyId = policyId, p_holderAddress = holder, p_policyType = getStringValue (f ''policy_type''),
         p_region = getStringValue (f ''region''), p_coverageAmount = getStringValue (f ''coverage''),
         p_premium = getStringValue (f ''premium''), p_isActive = True, p_startLedger = startLedger,
         p_endLedger = endLedger, p_assetContractId = assetContractId, p_txHash = Some (ev_txHash event),
         p_deleted = False\<rparr>
        (\<lambda>p. let p' = p\<lparr>p_isActive := True, p_endLedger := endLedger\<rparr> in
             if assetContractId = None then p' else p'\<lparr>p_assetContractId := assetContractId\<rparr>)
        (db_policy db)\<rparr>)) (\<lambda>_.
     call_safe InvalidatePolicyAnalytics)))))"

definition handlePolicyRenewed :: "'x env \<Rightarrow> jsval \<Rightarrow> unit ix" where
  "handlePolicyRenewed env data =
     se_bind (field data ''holder'') (\<lambda>h.
     let key = holder_of env h @ '':'' @ show_jnum (getNumberValue (opt_field data ''policy_id'')) in
     se_bind (int_arg (getNumberValue (opt_field data ''new_end_ledger''))) (\<lambda>endLedger.
     se_bind (read_db (\<lambda>db. findUnique (db_policy db) key)) (\<lambda>row.
     if row = None then se_throw RecordNotFound
     else se_bind (write_db (\<lambda>db. db\<lparr>db_policy := updateMany (\<lambda>k _. k = key)
            (\<lambda>p. p\<lparr>p_endLedger := endLedger\<rparr>) (db_policy db)\<rparr>)) (\<lambda>_.
          call_safe InvalidatePolicyAnalytics))))"

definition handleClaimFiled :: "'x env \<Rightarrow> jsval \<Rightarrow> 'x soroban_event \<Rightarrow> unit ix" where
  "handleClaimFiled env data event =
     se_bind (field data ''claim_id'') (\<lambda>c.
     let f = opt_field data;
         claimant = getStringValue (f ''claimant'');
         amount = getStringValue (f ''amount'');
         policyDbId = claimant @ '':'' @ show_jnum (getNumberValue (f ''policy_id'')) in
     se_bind (int_arg (getNumberValue c)) (\<lambda>claimId.
     se_bind (read_db (\<lambda>db. (findUnique (db_claim db) claimId = None, findUnique (db_policy db) policyDbId = None)))
       (\<lambda>(noClaim, noPolicy).
     if noClaim \<and> noPolicy then se_throw ForeignKey
     else
     se_bind (write_db (\<lambda>db. db\<lparr>db_claim := upsert claimId
        \<lparr>cl_policyId = policyDbId, cl_creatorAddress = claimant, cl_amount = amount,
         cl_asset = string_or_null (f ''asset''), cl_description = getStringValue (f ''details''),
         cl_imageUrls = getStringArray (f ''image_urls''), cl_status = PENDING, cl_isFinalized = False,
         cl_approveVotes = 0, cl_rejectVotes = 0, cl_paidAt = None, cl_createdAtLedger = ev_ledger event,
         cl_updatedAtLedger = ev_ledger event, cl_txHash = Some (ev_txHash event), cl_deleted = False,
         cl_appealsCount = 0, cl_appealTxHash = None\<rparr>
        (\<lambda>r. r\<lparr>cl_amount := amount, cl_description := getStringValue (f ''details''),
               cl_imageUrls := getStringArray (f ''image_urls'')\<rparr>) (db_claim db)\<rparr>)) (\<lambda>_.
     se_bind (call env (PublishClaim claimId PENDING False (ev_ledger event))) (\<lambda>_.
     se_bind (call env (InvalidateClaim claimId)) (\<lambda>_.
     call env (DeliverClaimFiled claimId policyDbId claimant amount (ev_txHash event) (ev_ledger event)
       (''claim_filed:'' @ ev_txHash event))))))))"

definition handleVoteCast :: "'x env \<Rightarrow> jsval list \<Rightarrow> jsval \<Rightarrow> 'x soroban_event \<Rightarrow> string \<Rightarrow> unit ix" where
  "handleVoteCast env topics data event network =
     (let claimNum = js_Number_of (js_nth topics 1);
          voterOpt = opt_toString (js_nth topics 2) in
     se_bind (field data ''vote'') (\<lambda>v.
     let option = getStringValue (if nullish v then data else v);
         ballot = (if option = ''Approve'' then APPROVE else REJECT) in
     case voterOpt of None \<Rightarrow> se_return () | Some voter \<Rightarrow>
     if voter = [] then se_return ()
     else
     se_bind (int_arg claimNum) (\<lambda>claimId.
     se_bind (read_db (\<lambda>db. (findUnique (db_vote db) (claimId, voter), findUnique (db_claim db) claimId)))
       (\<lambda>(existingVote, claim).
     if existingVote = None \<and> claim = None then se_throw ForeignKey
     else
     se_bind (write_db (\<lambda>db. db\<lparr>db_vote := upsert (claimId, voter)
        \<lparr>vo_vote = ballot, vo_votedAtLedger = ev_ledger event, vo_txHash = ev_txHash event\<rparr>
        (\<lambda>r. r\<lparr>vo_vote := ballot\<rparr>) (db_vote db)\<rparr>)) (\<lambda>_.
     se_bind (if existingVote = None then se_return () else call_safe (DuplicateMetric ''vote'' network)) (\<lambda>_.
     se_bind (int_arg (getNumberValue (opt_field data ''approve_votes''))) (\<lambda>approve.
     se_bind (int_arg (getNumberValue (opt_field data ''reject_votes''))) (\<lambda>reject.
     if claim = None then se_throw RecordNotFound
     else
     se_bind (write_db (\<lambda>db. db\<lparr>db_claim := updateMany (\<lambda>k _. k = claimId)
        (\<lambda>r. r\<lparr>cl_approveVotes := approve, cl_rejectVotes := reject\<rparr>) (db_claim db)\<rparr>)) (\<lambda>_.
     se_bind (call env (PublishClaim claimId PENDING True (ev_ledger event))) (\<lambda>_.
     se_bind (call env (InvalidateClaim claimId)) (\<lambda>_.
     se_bind (call env (PublishVote claimId voter (option = ''Approve'') approve reject)) (\<lambda>_.
     call env (DeliverVoteCast claimId voter option approve reject (ev_txHash event) (ev_ledger event)
       (''vote_cast:'' @ ev_txHash event @ '':'' @ show_int claimId @ '':'' @ voter))))))))))))))"

definition handleClaimProcessed :: "'x env \<Rightarrow> jsval \<Rightarrow> 'x soroban_event \<Rightarrow> unit ix" where
  "handleClaimProcessed env data event =
     se_bind (field data ''claim_id'') (\<lambda>c.
     se_bind (int_arg (getNumberValue c)) (\<lambda>claimId.
     se_bind (write_db (\<lambda>db. db\<lparr>db_claim := updateMany (\<lambda>k r. k = claimId \<and> \<not> cl_deleted r)
        (\<lambda>r. r\<lparr>cl_status := PAID, cl_paidAt := Some (ev_ledgerClosedAt event),
               cl_updatedAtLedger := ev_ledger event\<rparr>) (db_claim db)\<rparr>)) (\<lambda>_.
     se_bind (call env (PublishClaim claimId PAID False (ev_ledger event))) (\<lambda>_.
     call env (InvalidateClaim claimId)))))"

definition handlePremiumTableUpdated :: "'x env \<Rightarrow> unit ix" where
  "handlePremiumTableUpdated env = call env InvalidateQuotes"

definition handleAssetAdded :: "'x env \<Rightarrow> jsval \<Rightarrow> 'x soroban_event \<Rightarrow> unit ix" where
  "handleAssetAdded env data event =
     se_bind (field data ''contract_id'') (\<lambda>c.
     let contractId = getStringValue c;
         s = opt_field data ''symbol'';
         d = opt_field data ''decimals'';
         symbol = (if nullish s then None else Some (getStringValue s)) in
     se_bind (int_arg (if nullish d then Fin 7 else getNumberValue d)) (\<lambda>decimals.
     se_bind (write_db (\<lambda>db. db\<lparr>db_asset := upsert contractId
        \<lparr>as_symbol = symbol, as_decimals = decimals, as_isAllowed = True, as_addedAtLedger = ev_ledger event\<rparr>
        (\<lambda>a. a\<lparr>as_isAllowed := True, as_symbol := symbol, as_decimals := decimals\<rparr>) (db_asset db)\<rparr>)) (\<lambda>_.
     call env InvalidateAssets)))"

definition handleAssetRemoved :: "'x env \<Rightarrow> jsval \<Rightarrow> unit ix" where
  "handleAssetRemoved env data =
     se_bind (field data ''contract_id'') (\<lambda>c.
     let contractId = getStringValue c in
     se_bind (read_db (\<lambda>db. findUnique (db_asset db) contractId)) (\<lambda>row.
     if row = None then se_throw RecordNotFound
     else se_bind (write_db (\<lambda>db. db\<lparr>db_asset := updateMany (\<lambda>k _. k = contractId)
            (\<lambda>a. a\<lparr>as_isAllowed := False\<rparr>) (db_asset db)\<rparr>)) (\<lambda>_.
          call env InvalidateAssets)))"

text \<open>\<open>createMany\<close> with \<open>skipDuplicates\<close>.\<close>

definition snapshot_voters :: "int \<Rightarrow> int \<Rightarrow> claims_db \<Rightarrow> claims_db" where
  "snapshot_voters claimId appeals db =
     db\<lparr>db_voterSnapshot := db_voterSnapshot db @
        filter (\<lambda>r. r \<notin> set (db_voterSnapshot db)) (map (\<lambda>w. (claimId, w, appeals)) (db_registeredVoter db))\<rparr>"

definition handleAppealOpened :: "'x env \<Rightarrow> jsval \<Rightarrow> 'x soroban_event \<Rightarrow> jsval list \<Rightarrow> unit ix" where
  "handleAppealOpened env data event topics =
     se_bind (resolveClaimId data topics) (\<lambda>claimNum.
     if \<not> js_isFinite claimNum then se_return ()
     else
     se_bind (int_arg claimNum) (\<lambda>claimId.
     se_bind (read_db (\<lambda>db. findUnique (db_claim db) claimId)) (\<lambda>row.
     case row of None \<Rightarrow> se_return () | Some existing \<Rightarrow>
     if cl_deleted existing then se_return ()
     else
     let alreadyCounted = (cl_status existing = UNDER_APPEAL \<and> cl_appealsCount existing > 0);
         nextAppealsCount = max (cl_appealsCount existing) 1 in
     se_bind (write_db (\<lambda>db. db\<lparr>db_claim := updateMany (\<lambda>k r. k = claimId \<and> \<not> cl_deleted r)
        (\<lambda>r. r\<lparr>cl_status := UNDER_APPEAL, cl_updatedAtLedger := ev_ledger event,
               cl_appealsCount := (if alreadyCounted then cl_appealsCount r else cl_appealsCount r + 1)\<rparr>)
        (db_claim db)\<rparr>)) (\<lambda>_.
     se_bind (read_db (\<lambda>db. filter (\<lambda>(c, _, n). c = claimId \<and> n = nextAppealsCount) (db_voterSnapshot db)))
       (\<lambda>existingSnapshot.
     se_bind (if existingSnapshot = [] then write_db (snapshot_voters claimId nextAppealsCount) else se_return ()) (\<lambda>_.
     se_bind (call env (PublishClaim claimId UNDER_APPEAL False (ev_ledger event))) (\<lambda>_.
     call env (InvalidateClaim claimId))))))))"

definition handleAppealResolved :: "jsval \<Rightarrow> 'x soroban_event \<Rightarrow> claim_status \<Rightarrow> unit ix" where
  "handleAppealResolved data event outcome =
     se_bind (field data ''claim_id'') (\<lambda>c.
     se_bind (int_arg (getNumberValue c)) (\<lambda>claimId.
     se_bind (write_db (\<lambda>db. db\<lparr>db_claim := updateMany (\<lambda>k r. k = claimId \<and> \<not> cl_deleted r)
        (\<lambda>r. r\<lparr>cl_status := outcome, cl_isFinalized := True, cl_updatedAtLedger := ev_ledger event\<rparr>)
        (db_claim db)\<rparr>)) (\<lambda>_.
     se_throw ReferenceError)))"

definition handleAppealClaimStatusChanged ::
  "'x env \<Rightarrow> jsval \<Rightarrow> 'x soroban_event \<Rightarrow> jsval list \<Rightarrow> unit ix" where
  "handleAppealClaimStatusChanged env data event topics =
     se_bind (field data ''new_status'') (\<lambda>s.
     let newStatus = getStringValue s in
     if normalized_label newStatus = ''underappeal'' then handleAppealOpened env data event topics
     else case mapAppealOutcome (JStr newStatus) False of
       Some outcome \<Rightarrow> handleAppealResolved data event outcome
     | None \<Rightarrow> se_return ())"

section \<open>One event\<close>

definition decode_topic :: "'x env \<Rightarrow> 'x \<Rightarrow> jsval" where
  "decode_topic env t = (case env_native env t of Some v \<Rightarrow> v | None \<Rightarrow> JStr (env_xdr env t))"

definition route :: "'x env \<Rightarrow> string \<Rightarrow> jsval list \<Rightarrow> jsval \<Rightarrow> 'x soroban_event \<Rightarrow> unit ix" where
  "route env network topics data event =
     (let mainTopic = opt_toString (js_nth topics 0);
          subTopic = opt_toString (js_nth topics 1);
          on = (\<lambda>a b. mainTopic = Some a \<and> subTopic = Some b) in
      if mainTopic = Some ''PolicyInitiated'' \<or> on ''policy'' ''initiated'' then handlePolicyInitiated env data event
      else if on ''policy'' ''renewed'' then handlePolicyRenewed env data
      else if on ''claim'' ''filed'' \<or> on ''niffyinsure'' ''claim_filed'' then handleClaimFiled env data event
      else if mainTopic = Some ''vote'' then handleVoteCast env topics data event network
      else if mainTopic = Some ''claim_pd'' \<or> on ''niffyinsure'' ''claim_paid'' then handleClaimProcessed env data event
      else if on ''niffyins'' ''tbl_upd'' then handlePremiumTableUpdated env
      else if on ''asset'' ''added'' then handleAssetAdded env data event
      else if on ''asset'' ''removed'' then handleAssetRemoved env data
      else if on ''niffyinsure'' ''allowed_asset_updated'' then call env InvalidateAssets
      else if on ''appeal'' ''filed'' \<or> on ''niffyinsure'' ''appeal_filed'' \<or> on ''niffyinsure'' ''appeal_opened''
        then handleAppealOpened env data event topics
      else if on ''appeal'' ''approved'' \<or> on ''niffyinsure'' ''appeal_approved''
        then handleAppealResolved data event APPEAL_APPROVED
      else if on ''appeal'' ''rejected'' \<or> on ''niffyinsure'' ''appeal_rejected''
        then handleAppealResolved data event APPEAL_REJECTED
      else if on ''niffyinsure'' ''appeal_resolved'' then
        se_bind (field data ''outcome'') (\<lambda>o'.
        case mapAppealOutcome o' True of
          Some mapped \<Rightarrow> handleAppealResolved data event mapped
        | None \<Rightarrow> se_return ())
      else if on ''niffyins'' ''claim_status_changed'' then handleAppealClaimStatusChanged env data event topics
      else se_return ())"

definition raw_event_of :: "'x soroban_event \<Rightarrow> jsval list \<Rightarrow> jsval \<Rightarrow> raw_event_row" where
  "raw_event_of event topics data =
     \<lparr>re_contractId = (case ev_contractId event of Some c \<Rightarrow> c | None \<Rightarrow> []), re_ledger = ev_ledger event,
      re_ledgerClosedAt = ev_ledgerClosedAt event, re_topic1 = opt_toString (js_nth topics 0),
      re_topic2 = opt_toString (js_nth topics 1), re_topic3 = opt_toString (js_nth topics 2),
      re_topic4 = opt_toString (js_nth topics 3), re_data = toInputJsonValue data\<rparr>"

definition event_tx :: "'x env \<Rightarrow> string \<Rightarrow> 'x soroban_event \<Rightarrow> int \<Rightarrow> jsval list \<Rightarrow> jsval \<Rightarrow> unit ix" where
  "event_tx env network event index topics data =
     (let txHash = ev_txHash event;
          contractId = (case ev_contractId event of Some c \<Rightarrow> c | None \<Rightarrow> []) in
      se_bind (read_db (\<lambda>db. findUnique (db_rawEvent db) (txHash, index))) (\<lambda>existing.
      se_bind (write_db (\<lambda>db. db\<lparr>db_rawEvent := upsert (txHash, index) (raw_event_of event topics data)
        (\<lambda>r. r) (db_rawEvent db)\<rparr>)) (\<lambda>_.
      if existing \<noteq> None then
        se_bind (call_safe (DuplicateMetric ''raw_event'' network)) (\<lambda>_.
        advanceCursorInTx network (ev_ledger event))
      else
        let parsed = parser_parse (selectParser (env_registry env) contractId (ev_ledger event))
                       topics data (ev_ledger event) txHash in
        if isWarningRow parsed then advanceCursorInTx network (ev_ledger event)
        else se_bind (route env network topics data event) (\<lambda>_.
             advanceCursorInTx network (ev_ledger event)))))"

definition processEventForNetwork :: "'x env \<Rightarrow> string \<Rightarrow> 'x soroban_event \<Rightarrow> int \<Rightarrow> unit ix" where
  "processEventForNetwork env network event index =
     (case env_native env (ev_value event) of
        None \<Rightarrow> se_throw DecodeError
      | Some data \<Rightarrow> transaction (event_tx env network event index (map (decode_topic env) (ev_topic event)) data))"

section \<open>Batches\<close>

definition BATCH_SIZE :: int where "BATCH_SIZE = 50"

text \<open>The RPC node during one batch: \<open>None\<close> where the call throws.\<close>

record 'x rpc =
  rpc_latestLedger :: "int option"
  rpc_getEvents :: "int \<Rightarrow> int \<Rightarrow> 'x soroban_event list option"
  rpc_now :: int

fun process_events :: "'x env \<Rightarrow> string \<Rightarrow> 'x soroban_event list \<Rightarrow> int \<Rightarrow> unit ix" where
  "process_events env network [] i = se_return ()"
| "process_events env network (e # es) i =
     se_bind (processEventForNetwork env network e i) (\<lambda>_. process_events env network es (i + 1))"

definition processNextBatchForNetwork :: "'x env \<Rightarrow> string \<Rightarrow> 'x rpc \<Rightarrow> (int \<times> int) ix" where
  "processNextBatchForNetwork env network rpc =
     se_bind (ensureCursor network) (\<lambda>lastProcessed.
     case rpc_latestLedger rpc of None \<Rightarrow> se_throw RpcError | Some latestLedger \<Rightarrow>
     let gap = latestLedger - lastProcessed in
     se_bind (if gap > env_gapThreshold env
              then se_bind (maybeEmitGapAlert env (rpc_now rpc) network gap lastProcessed latestLedger) (\<lambda>_. se_return ())
              else se_return ()) (\<lambda>_.
     if lastProcessed \<ge> latestLedger then se_return (0, 0)
     else
     let startLedger = lastProcessed + 1 in
     case rpc_getEvents rpc startLedger BATCH_SIZE of None \<Rightarrow> se_throw RpcError
     | Some [] \<Rightarrow>
         let newLast = min (startLedger + 100) latestLedger in
         se_bind (transaction (advanceCursorInTx network newLast)) (\<lambda>_.
         se_return (0, latestLedger - newLast))
     | Some events \<Rightarrow>
         se_bind (process_events env network events 0) (\<lambda>_.
         se_return (int (length events), latestLedger - Max (set (map ev_ledger events))))))"

text \<open>\<open>processUntilCaughtUp\<close>: \<open>rpcs n\<close> is the node at the \<open>n\<close>-th batch. The safety cap makes the
  loop finite whatever the node answers.\<close>

function catch_up_loop :: "'x env \<Rightarrow> string \<Rightarrow> (nat \<Rightarrow> 'x rpc) \<Rightarrow> nat \<Rightarrow> int \<Rightarrow> (nat \<times> int) ix" where
  "catch_up_loop env network rpcs batches events st =
     (case processNextBatchForNetwork env network (rpcs batches) st of
        (Inl e, st') \<Rightarrow> (Inl e, st')
      | (Inr (processed, _), st') \<Rightarrow>
          (let batches' = batches + 1; events' = events + processed in
           if processed = 0 then (Inr (batches', events'), st')
           else if batches' > 10000 then (Inr (batches', events'), st')
           else catch_up_loop env network rpcs batches' events' st'))"
  by pat_completeness auto
termination
  by (relation "measure (\<lambda>(_, _, _, n, _, _). 10001 - n)") auto

declare catch_up_loop.simps [simp del]

definition processUntilCaughtUp :: "'x env \<Rightarrow> string \<Rightarrow> (nat \<Rightarrow> 'x rpc) \<Rightarrow> (nat \<times> int) ix" where
  "processUntilCaughtUp env network rpcs = catch_up_loop env network rpcs 0 0"

section \<open>What a statement leaves alone\<close>

text \<open>\<open>keeps g m\<close>: running \<open>m\<close> does not change the part \<open>g\<close> of the database, whether it throws or not.\<close>

definition keeps :: "(claims_db \<Rightarrow> 'b) \<Rightarrow> 'a ix \<Rightarrow> bool" where
  "keeps g m = (\<forall>st. g (ix_db (snd (m st))) = g (ix_db st))"

named_theorems keeps_rules \<open>frame rules of the database statements\<close>

lemma keeps_bind [keeps_rules]: "keeps g m \<Longrightarrow> (\<And>a. keeps g (k a)) \<Longrightarrow> keeps g (se_bind m k)"
  by (simp add: keeps_def se_bind_def split: prod.splits sum.splits) (metis snd_conv)

lemma keeps_return [keeps_rules]: "keeps g (se_return a)"
  by (simp add: keeps_def)

lemma keeps_throw [keeps_rules]: "keeps g (se_throw e)"
  by (simp add: keeps_def)

lemma keeps_call [keeps_rules]: "keeps g (call env c)" "keeps g (call_safe c)"
  by (simp_all add: keeps_def call_def call_safe_def Let_def)

lemma keeps_read [keeps_rules]: "keeps g (read_db f)"
  by (simp add: keeps_def read_db_def)

lemma keeps_write [keeps_rules]: "(\<And>db. g (f db) = g db) \<Longrightarrow> keeps g (write_db f)"
  by (simp add: keeps_def write_db_def)

lemma keeps_field [keeps_rules]: "keeps g (field v n)"
  by (simp add: field_def keeps_def split: option.split)

lemma keeps_int_arg [keeps_rules]: "keeps g (int_arg x)"
  by (simp add: int_arg_def keeps_def split: option.split)

lemma keeps_if [keeps_rules]: "(c \<Longrightarrow> keeps g a) \<Longrightarrow> (\<not> c \<Longrightarrow> keeps g b) \<Longrightarrow> keeps g (if c then a else b)"
  by simp

lemma keeps_option [keeps_rules]:
  "keeps g a \<Longrightarrow> (\<And>x. keeps g (b x)) \<Longrightarrow> keeps g (case v of None \<Rightarrow> a | Some x \<Rightarrow> b x)"
  by (simp split: option.split)

lemma keeps_pair [keeps_rules]: "(\<And>x y. keeps g (b x y)) \<Longrightarrow> keeps g (case p of (x, y) \<Rightarrow> b x y)"
  by (simp split: prod.split)

lemma keeps_resolveClaimId [keeps_rules]: "keeps g (resolveClaimId d t)"
  unfolding resolveClaimId_def by (intro keeps_rules)

lemmas handler_defs = handlePolicyInitiated_def handlePolicyRenewed_def handleClaimFiled_def
  handleVoteCast_def handleClaimProcessed_def handlePremiumTableUpdated_def handleAssetAdded_def
  handleAssetRemoved_def handleAppealOpened_def handleAppealResolved_def handleAppealClaimStatusChanged_def

text \<open>The part of the database that only the indexer's own bookkeeping writes.\<close>

definition bookkeeping where
  "bookkeeping db = (db_cursor db, db_legacyLedger db, db_gapAlert db, db_rawEvent db)"

lemma bookkeeping_simps [simp]:
  "bookkeeping (db\<lparr>db_policy := x1\<rparr>) = bookkeeping db"
  "bookkeeping (db\<lparr>db_claim := x2\<rparr>) = bookkeeping db"
  "bookkeeping (db\<lparr>db_vote := x3\<rparr>) = bookkeeping db"
  "bookkeeping (db\<lparr>db_asset := x4\<rparr>) = bookkeeping db"
  "bookkeeping (snapshot_voters c n db) = bookkeeping db"
  by (simp_all add: bookkeeping_def snapshot_voters_def)

lemma keeps_bookkeeping [keeps_rules]:
  "keeps bookkeeping (handlePolicyInitiated env d e)"
  "keeps bookkeeping (handlePolicyRenewed env d)"
  "keeps bookkeeping (handleClaimFiled env d e)"
  "keeps bookkeeping (handleVoteCast env ts d e net)"
  "keeps bookkeeping (handleClaimProcessed env d e)"
  "keeps bookkeeping (handlePremiumTableUpdated env)"
  "keeps bookkeeping (handleAssetAdded env d e)"
  "keeps bookkeeping (handleAssetRemoved env d)"
  "keeps bookkeeping (handleAppealOpened env d e ts)"
  "keeps bookkeeping (handleAppealResolved d e out)"
  unfolding handler_defs Let_def by (intro keeps_rules bookkeeping_simps)+

lemma keeps_bookkeeping_status [keeps_rules]: "keeps bookkeeping (handleAppealClaimStatusChanged env d e ts)"
  unfolding handleAppealClaimStatusChanged_def Let_def by (intro keeps_rules)

lemma keeps_bookkeeping_route: "keeps bookkeeping (route env net ts d e)"
  unfolding route_def Let_def by (intro keeps_rules)

section \<open>Cursor\<close>

definition cursor_of :: "string \<Rightarrow> ix_state \<Rightarrow> int" where
  "cursor_of network st = (case findUnique (db_cursor (ix_db st)) network of Some c \<Rightarrow> c
     | None \<Rightarrow> (case db_legacyLedger (ix_db st) of Some l \<Rightarrow> l | None \<Rightarrow> 0))"

definition set_cursor :: "string \<Rightarrow> int \<Rightarrow> claims_db \<Rightarrow> claims_db" where
  "set_cursor net c db = db\<lparr>db_cursor := upsert net c (\<lambda>_. c) (db_cursor db)\<rparr>"

definition next_cursor :: "string \<Rightarrow> int \<Rightarrow> claims_db \<Rightarrow> int" where
  "next_cursor net l db = max (case findUnique (db_cursor db) net of Some c \<Rightarrow> c | None \<Rightarrow> 0) l"

lemma advanceCursor_eval:
  "advanceCursorInTx net l st = (Inr (), st\<lparr>ix_db := set_cursor net (next_cursor net l (ix_db st)) (ix_db st)\<rparr>)"
  by (simp add: advanceCursorInTx_def se_bind_def read_db_def write_db_def Let_def set_cursor_def next_cursor_def)

lemma set_cursor_same:
  assumes "\<forall>v. (net, v) \<in> set (db_cursor db) \<longrightarrow> v = c" and "findUnique (db_cursor db) net = Some c"
  shows "set_cursor net c db = db"
proof -
  have "updateMany (\<lambda>k _. k = net) (\<lambda>_. c) (db_cursor db) = db_cursor db"
    unfolding updateMany_eq_conv using assms(1) by auto
  then show ?thesis using assms(2) by (simp add: set_cursor_def upsert_def)
qed

lemma set_cursor_rows: "(net, v) \<in> set (db_cursor (set_cursor net c db)) \<Longrightarrow> v = c"
  by (auto simp: set_cursor_def upsert_def updateMany_def findUnique_None image_iff split: if_splits)

lemma set_cursor_find: "findUnique (db_cursor (set_cursor net c db)) net = Some c"
  by (simp add: set_cursor_def db_table.get_put_same split: option.split)

lemma set_cursor_other [simp]:
  "db_rawEvent (set_cursor net c db) = db_rawEvent db" "db_legacyLedger (set_cursor net c db) = db_legacyLedger db"
  "db_claim (set_cursor net c db) = db_claim db" "db_policy (set_cursor net c db) = db_policy db"
  "db_vote (set_cursor net c db) = db_vote db" "db_asset (set_cursor net c db) = db_asset db"
  "db_gapAlert (set_cursor net c db) = db_gapAlert db"
  by (simp_all add: set_cursor_def)

section \<open>One event\<close>

definition record_event where
  "record_event env e i d db = db\<lparr>db_rawEvent := upsert (ev_txHash e, i)
     (raw_event_of e (map (decode_topic env) (ev_topic e)) d) (\<lambda>r. r) (db_rawEvent db)\<rparr>"

lemma transaction_Inl: "transaction m st = (Inl e, st') \<Longrightarrow> ix_db st' = ix_db st"
  by (auto simp: transaction_def split: prod.splits sum.splits)

lemma transaction_Inr: "transaction m st = (Inr a, st') \<Longrightarrow> m st = (Inr a, st')"
  by (auto simp: transaction_def split: prod.splits sum.splits)

lemma read_then: "se_bind (read_db f) k st = k (f (ix_db st)) st"
  by (simp add: se_bind_def read_db_def)

lemma write_then: "se_bind (write_db f) k st = k () (st\<lparr>ix_db := f (ix_db st)\<rparr>)"
  by (simp add: se_bind_def write_db_def)

lemma call_safe_then: "se_bind (call_safe c) k st = k () (st\<lparr>ix_calls := ix_calls st @ [c]\<rparr>)"
  by (simp add: se_bind_def call_safe_def)

lemmas stmt_simps = read_then write_then call_safe_then advanceCursor_eval

lemma event_tx_eval:
  "event_tx env net e i ts d st =
     (let st1 = st\<lparr>ix_db := (ix_db st)\<lparr>db_rawEvent := upsert (ev_txHash e, i) (raw_event_of e ts d) (\<lambda>r. r)
                                        (db_rawEvent (ix_db st))\<rparr>\<rparr> in
      if findUnique (db_rawEvent (ix_db st)) (ev_txHash e, i) \<noteq> None
      then advanceCursorInTx net (ev_ledger e) (st1\<lparr>ix_calls := ix_calls st1 @ [DuplicateMetric ''raw_event'' net]\<rparr>)
      else if isWarningRow (parser_parse (selectParser (env_registry env)
             (case ev_contractId e of Some c \<Rightarrow> c | None \<Rightarrow> []) (ev_ledger e)) ts d (ev_ledger e) (ev_txHash e))
      then advanceCursorInTx net (ev_ledger e) st1
      else se_bind (route env net ts d e) (\<lambda>_. advanceCursorInTx net (ev_ledger e)) st1)"
  by (simp add: event_tx_def stmt_simps Let_def)

text \<open>What a successful event leaves behind: the raw event recorded, the cursor advanced, and in
  between only tables outside the bookkeeping touched.\<close>

lemma event_ok:
  assumes "processEventForNetwork env net e i st = (Inr (), st')"
  obtains d db1 where "env_native env (ev_value e) = Some d"
    "bookkeeping db1 = bookkeeping (record_event env e i d (ix_db st))"
    "ix_db st' = set_cursor net (next_cursor net (ev_ledger e) (ix_db st)) db1"
proof -
  let ?ts = "map (decode_topic env) (ev_topic e)"
  obtain d where d: "env_native env (ev_value e) = Some d"
    and tx: "event_tx env net e i ?ts d st = (Inr (), st')"
    using assms by (auto simp: processEventForNetwork_def split: option.splits dest: transaction_Inr)
  let ?db = "record_event env e i d (ix_db st)"
  have cur: "next_cursor net l db1 = next_cursor net l (ix_db st)" if "bookkeeping db1 = bookkeeping ?db" for l db1
    using that by (simp add: bookkeeping_def next_cursor_def record_event_def)
  have kr: "bookkeeping (ix_db s2) = bookkeeping ?db"
    if "route env net ?ts d e (st\<lparr>ix_db := ?db\<rparr>) = (r, s2)" for r s2
    using keeps_bookkeeping_route [of env net ?ts d e] that unfolding keeps_def
    by (metis ix_state.select_convs(1) ix_state.surjective ix_state.update_convs(1) snd_conv)
  have "\<exists>db1. bookkeeping db1 = bookkeeping ?db \<and> ix_db st' = set_cursor net (next_cursor net (ev_ledger e) db1) db1"
    using tx kr unfolding event_tx_eval record_event_def [symmetric]
    by (auto simp: advanceCursor_eval Let_def se_bind_def split: if_splits prod.splits sum.splits)
  then obtain db1 where "bookkeeping db1 = bookkeeping ?db"
    "ix_db st' = set_cursor net (next_cursor net (ev_ledger e) db1) db1" by blast
  with d cur that show thesis by metis
qed

lemma event_failed:
  "processEventForNetwork env net e i st = (Inl x, st') \<Longrightarrow> ix_db st' = ix_db st"
  by (auto simp: processEventForNetwork_def split: option.splits dest: transaction_Inl)

lemma event_recorded_again:
  assumes "env_native env (ev_value e) = Some d" "findUnique (db_rawEvent (ix_db st)) (ev_txHash e, i) \<noteq> None"
  shows "processEventForNetwork env net e i st =
    (Inr (), st\<lparr>ix_db := set_cursor net (next_cursor net (ev_ledger e) (ix_db st)) (ix_db st),
                ix_calls := ix_calls st @ [DuplicateMetric ''raw_event'' net]\<rparr>)"
proof -
  have "(ix_db st)\<lparr>db_rawEvent := upsert (ev_txHash e, i) r (\<lambda>r. r) (db_rawEvent (ix_db st))\<rparr> = ix_db st" for r
    using upsert_keep [OF assms(2), of r] by simp
  then show ?thesis
    using assms by (simp add: processEventForNetwork_def transaction_def event_tx_def stmt_simps Let_def)
qed

text \<open>C1. Indexing an event is atomic and idempotent: an event that fails leaves the database as it
  was; one that succeeds is recorded under its transaction hash and position, the cursor is then at
  or above its ledger, and processing it once more changes nothing and calls no service but the
  duplicate metric.\<close>

theorem event_once:
  "case processEventForNetwork env net e i st of
     (Inl _, st1) \<Rightarrow> ix_db st1 = ix_db st
   | (Inr _, st1) \<Rightarrow>
       findUnique (db_rawEvent (ix_db st1)) (ev_txHash e, i) \<noteq> None \<and> ev_ledger e \<le> cursor_of net st1 \<and>
       processEventForNetwork env net e i st1 =
         (Inr (), st1\<lparr>ix_calls := ix_calls st1 @ [DuplicateMetric ''raw_event'' net]\<rparr>)"
proof (cases "processEventForNetwork env net e i st")
  case (Pair r st1)
  show ?thesis
  proof (cases r)
    case (Inl x)
    then show ?thesis using event_failed Pair by simp
  next
    case (Inr u)
    let ?c = "next_cursor net (ev_ledger e) (ix_db st)"
    obtain d db1 where d: "env_native env (ev_value e) = Some d"
      and b: "bookkeeping db1 = bookkeeping (record_event env e i d (ix_db st))"
      and db: "ix_db st1 = set_cursor net ?c db1"
      using event_ok [of env net e i st st1] Pair Inr by auto
    have rec: "findUnique (db_rawEvent (ix_db st1)) (ev_txHash e, i) \<noteq> None"
      using b db by (simp add: bookkeeping_def record_event_def findUnique_upsert)
    have cur: "findUnique (db_cursor (ix_db st1)) net = Some ?c" "ev_ledger e \<le> ?c"
      using db by (simp_all add: set_cursor_find next_cursor_def)
    have "next_cursor net (ev_ledger e) (ix_db st1) = ?c" using cur by (simp add: next_cursor_def)
    moreover have "set_cursor net ?c (ix_db st1) = ix_db st1"
      using cur(1) db set_cursor_rows by (metis set_cursor_same)
    ultimately show ?thesis
      using event_recorded_again [OF d rec, of net] rec cur Pair Inr by (simp add: cursor_of_def)
  qed
qed

section \<open>Batches\<close>

definition has_cursor :: "string \<Rightarrow> ix_state \<Rightarrow> bool" where
  "has_cursor net st = (findUnique (db_cursor (ix_db st)) net \<noteq> None)"

definition covers :: "string \<Rightarrow> ix_state \<Rightarrow> bool" where
  "covers net st = list_all (\<lambda>(_, r). re_ledger r \<le> cursor_of net st) (db_rawEvent (ix_db st))"

text \<open>The relation between the states before and after a piece of work on a network with a cursor.\<close>

definition progress :: "string \<Rightarrow> ix_state \<Rightarrow> ix_state \<Rightarrow> bool" where
  "progress net st st' = (has_cursor net st' \<and> cursor_of net st \<le> cursor_of net st' \<and>
     (covers net st \<longrightarrow> covers net st'))"

lemma progress_trans: "progress net a b \<Longrightarrow> progress net b c \<Longrightarrow> progress net a c"
  by (auto simp: progress_def)

lemma cursor_of_cong: "ix_db st' = ix_db st \<Longrightarrow> cursor_of net st' = cursor_of net st"
  by (simp add: cursor_of_def split: option.split)

lemma progress_db:
  assumes "has_cursor net st" "ix_db st' = ix_db st"
  shows "progress net st st'"
  using assms cursor_of_cong [OF assms(2), of net] by (simp add: progress_def has_cursor_def covers_def)

lemma progress_set_cursor:
  assumes "has_cursor net st" "bookkeeping db1 = bookkeeping (ix_db st)"
    "ix_db st' = set_cursor net (next_cursor net l db1) db1"
  shows "progress net st st'"
proof -
  have c: "cursor_of net st' = max (cursor_of net st) l"
    using assms by (auto simp: cursor_of_def set_cursor_find has_cursor_def bookkeeping_def next_cursor_def)
  moreover have "db_rawEvent (ix_db st') = db_rawEvent (ix_db st)"
    using assms by (simp add: bookkeeping_def)
  ultimately have "covers net st \<longrightarrow> covers net st'"
    by (auto simp: covers_def list_all_iff)
  with c show ?thesis using assms(3) by (simp add: progress_def has_cursor_def set_cursor_find)
qed

lemma progress_event:
  assumes "has_cursor net st" "processEventForNetwork env net e i st = (r, st')"
  shows "progress net st st'"
proof (cases r)
  case (Inl x)
  then show ?thesis using assms event_failed progress_db by metis
next
  case (Inr u)
  obtain d db1 where b: "bookkeeping db1 = bookkeeping (record_event env e i d (ix_db st))"
    and db: "ix_db st' = set_cursor net (next_cursor net (ev_ledger e) (ix_db st)) db1"
    using event_ok assms(2) Inr by (metis (full_types) unit.exhaust)
  have c: "cursor_of net st' = max (cursor_of net st) (ev_ledger e)"
    using assms db by (auto simp: cursor_of_def set_cursor_find has_cursor_def next_cursor_def)
  have "set (db_rawEvent (ix_db st')) \<subseteq> set (db_rawEvent (ix_db st)) \<union>
      {((ev_txHash e, i), raw_event_of e (map (decode_topic env) (ev_topic e)) d)}"
    using b db by (auto simp: bookkeeping_def record_event_def upsert_def updateMany_id)
  then have "covers net st \<longrightarrow> covers net st'"
    using c by (fastforce simp: covers_def list_all_iff raw_event_of_def)
  with c db show ?thesis by (simp add: progress_def has_cursor_def set_cursor_find)
qed

lemma progress_events:
  "has_cursor net st \<Longrightarrow> process_events env net es i st = (r, st') \<Longrightarrow> progress net st st'"
proof (induction es arbitrary: i st)
  case Nil
  then show ?case by (simp add: progress_db)
next
  case (Cons e es)
  obtain r1 st1 where e: "processEventForNetwork env net e i st = (r1, st1)" by fastforce
  then have p: "progress net st st1" using Cons.prems progress_event by blast
  then have "has_cursor net st1" by (simp add: progress_def)
  then show ?case using Cons e p
    by (cases r1) (auto simp: se_bind_def intro: progress_trans)
qed

lemma ensureCursor_eval:
  obtains st0 where "ensureCursor net st = (Inr (cursor_of net st), st0)" "has_cursor net st0"
    "cursor_of net st0 = cursor_of net st" "covers net st0 = covers net st" "ix_calls st0 = ix_calls st"
    "db_rawEvent (ix_db st0) = db_rawEvent (ix_db st)"
proof (cases "findUnique (db_cursor (ix_db st)) net")
  case None
  let ?l = "case db_legacyLedger (ix_db st) of Some l \<Rightarrow> l | None \<Rightarrow> 0"
  let ?st = "st\<lparr>ix_db := (ix_db st)\<lparr>db_cursor := db_cursor (ix_db st) @ [(net, ?l)]\<rparr>\<rparr>"
  have f: "findUnique (db_cursor (ix_db ?st)) net = Some ?l"
    using None by (simp add: findUnique_def map_add_def)
  then have "cursor_of net ?st = cursor_of net st" using None by (simp add: cursor_of_def)
  then show thesis using that [of ?st] None f
    by (simp add: ensureCursor_def stmt_simps cursor_of_def has_cursor_def covers_def)
next
  case (Some c)
  then show thesis using that [of st] by (simp add: ensureCursor_def stmt_simps cursor_of_def has_cursor_def)
qed

definition gap_suppressed :: "'x env \<Rightarrow> int \<Rightarrow> string \<Rightarrow> ix_state \<Rightarrow> bool" where
  "gap_suppressed env now net st = (case findUnique (db_gapAlert (ix_db st)) net of
     Some d \<Rightarrow> now - ga_lastFiredAt d < env_gapCooldownMs env | None \<Rightarrow> False)"

lemma gap_alert_eval:
  "maybeEmitGapAlert env now net g lp ll st =
     (if gap_suppressed env now net st then (Inr False, st)
      else (Inr True, st\<lparr>ix_db := (ix_db st)\<lparr>db_gapAlert := upsert net
        \<lparr>ga_lastFiredAt = now, ga_lastGapSize = g, ga_lastProcessedLedger = lp, ga_latestLedger = ll\<rparr>
        (\<lambda>_. \<lparr>ga_lastFiredAt = now, ga_lastGapSize = g, ga_lastProcessedLedger = lp, ga_latestLedger = ll\<rparr>)
        (db_gapAlert (ix_db st))\<rparr>\<rparr>))"
  by (simp add: maybeEmitGapAlert_def read_then write_then gap_suppressed_def Let_def)

lemma gap_alert_frame:
  assumes "maybeEmitGapAlert env now net g lp ll st = (r, st1)"
  shows "r = Inr (\<not> gap_suppressed env now net st)" "cursor_of n st1 = cursor_of n st"
    "covers n st1 = covers n st" "has_cursor n st1 = has_cursor n st" "ix_calls st1 = ix_calls st"
    "db_rawEvent (ix_db st1) = db_rawEvent (ix_db st)"
proof -
  have b: "db_cursor (ix_db st1) = db_cursor (ix_db st)" "db_legacyLedger (ix_db st1) = db_legacyLedger (ix_db st)"
    "db_rawEvent (ix_db st1) = db_rawEvent (ix_db st)"
    using assms by (auto simp: gap_alert_eval split: if_splits)
  then show "cursor_of n st1 = cursor_of n st" by (simp add: cursor_of_def split: option.split)
  with b show "covers n st1 = covers n st" "has_cursor n st1 = has_cursor n st"
    by (simp_all add: covers_def has_cursor_def)
  show "r = Inr (\<not> gap_suppressed env now net st)" "ix_calls st1 = ix_calls st"
    "db_rawEvent (ix_db st1) = db_rawEvent (ix_db st)"
    using assms by (auto simp: gap_alert_eval split: if_splits)
qed

text \<open>The part of a batch after the cursor has been read and the gap reported.\<close>

definition fetch_and_process :: "'x env \<Rightarrow> string \<Rightarrow> 'x rpc \<Rightarrow> int \<Rightarrow> int \<Rightarrow> (int \<times> int) ix" where
  "fetch_and_process env network rpc lastProcessed latestLedger =
     (if lastProcessed \<ge> latestLedger then se_return (0, 0)
     else
     let startLedger = lastProcessed + 1 in
     case rpc_getEvents rpc startLedger BATCH_SIZE of None \<Rightarrow> se_throw RpcError
     | Some [] \<Rightarrow>
         let newLast = min (startLedger + 100) latestLedger in
         se_bind (transaction (advanceCursorInTx network newLast)) (\<lambda>_.
         se_return (0, latestLedger - newLast))
     | Some events \<Rightarrow>
         se_bind (process_events env network events 0) (\<lambda>_.
         se_return (int (length events), latestLedger - Max (set (map ev_ledger events)))))"

lemma batch_eval:
  obtains st0 where "has_cursor net st0" "cursor_of net st0 = cursor_of net st" "covers net st0 = covers net st"
    "ix_calls st0 = ix_calls st" "db_rawEvent (ix_db st0) = db_rawEvent (ix_db st)"
    "processNextBatchForNetwork env net rpc st =
       (case rpc_latestLedger rpc of None \<Rightarrow> (Inl RpcError, st0)
        | Some latest \<Rightarrow> fetch_and_process env net rpc (cursor_of net st) latest st0)"
proof -
  obtain st0 where e: "ensureCursor net st = (Inr (cursor_of net st), st0)" and h: "has_cursor net st0"
    "cursor_of net st0 = cursor_of net st" "covers net st0 = covers net st" "ix_calls st0 = ix_calls st"
    "db_rawEvent (ix_db st0) = db_rawEvent (ix_db st)"
    by (rule ensureCursor_eval [of net st])
  show thesis
  proof (cases "rpc_latestLedger rpc")
    case None
    then show thesis using that [of st0] e h by (simp add: processNextBatchForNetwork_def se_bind_def)
  next
    case (Some latest)
    let ?g = "latest - cursor_of net st"
    obtain r st1 where g: "maybeEmitGapAlert env (rpc_now rpc) net ?g (cursor_of net st) latest st0 = (r, st1)"
      by fastforce
    note fr = gap_alert_frame [OF g]
    show thesis
    proof (cases "?g > env_gapThreshold env")
      case True
      then show thesis using that [of st1] Some e g h fr
        by (simp add: processNextBatchForNetwork_def fetch_and_process_def se_bind_def Let_def)
    next
      case False
      then show thesis using that [of st0] Some e h
        by (simp add: processNextBatchForNetwork_def fetch_and_process_def se_bind_def Let_def)
    qed
  qed
qed

lemma progress_fetch:
  assumes "has_cursor net st" "fetch_and_process env net rpc c latest st = (r, st')"
  shows "progress net st st'"
proof -
  show ?thesis
  proof (cases "c \<ge> latest \<or> rpc_getEvents rpc (c + 1) BATCH_SIZE = None")
    case True
    then have "st' = st" using assms(2) by (auto simp: fetch_and_process_def Let_def split: if_splits)
    then show ?thesis using assms(1) progress_db by simp
  next
    case False
    then obtain es where es: "c < latest" "rpc_getEvents rpc (c + 1) BATCH_SIZE = Some es" by auto
    show ?thesis
    proof (cases es)
      case Nil
      then have "ix_db st' = set_cursor net (next_cursor net (min (c + 1 + 100) latest) (ix_db st)) (ix_db st)"
        using es assms(2)
        by (auto simp: fetch_and_process_def Let_def se_bind_def transaction_def advanceCursor_eval)
      then show ?thesis using progress_set_cursor [OF assms(1)] by simp
    next
      case (Cons e rest)
      obtain r1 st1 where p: "process_events env net es 0 st = (r1, st1)" by fastforce
      then have "st' = st1" using es assms(2) Cons
        by (cases r1) (auto simp: fetch_and_process_def Let_def se_bind_def simp del: process_events.simps)
      then show ?thesis using progress_events [OF assms(1) p] by simp
    qed
  qed
qed

definition batch_step :: "'x env \<Rightarrow> string \<Rightarrow> ix_state \<Rightarrow> 'x rpc \<Rightarrow> ix_state" where
  "batch_step env net st rpc = snd (processNextBatchForNetwork env net rpc st)"

lemma progress_batch: "cursor_of net st \<le> cursor_of net (batch_step env net st rpc) \<and>
    (covers net st \<longrightarrow> covers net (batch_step env net st rpc))"
proof -
  obtain st0 where h: "has_cursor net st0" "cursor_of net st0 = cursor_of net st" "covers net st0 = covers net st"
    and eq: "processNextBatchForNetwork env net rpc st =
       (case rpc_latestLedger rpc of None \<Rightarrow> (Inl RpcError, st0)
        | Some latest \<Rightarrow> fetch_and_process env net rpc (cursor_of net st) latest st0)"
    by (rule batch_eval [of net st env rpc])
  have "progress net st0 (batch_step env net st rpc)"
    using progress_fetch [OF h(1), of env rpc, OF prod.collapse [symmetric]] progress_db [OF h(1)]
    unfolding batch_step_def eq by (simp split: option.split)
  with h show ?thesis by (simp add: progress_def)
qed

interpretation indexer: step_system "batch_step env net" "covers net" for env net
  by unfold_locales (use progress_batch in blast)

interpretation cursor: monotone_system "batch_step env net" "cursor_of net" for env net
  by unfold_locales (use progress_batch in blast)

text \<open>C4. The ledger cursor never moves back: over any sequence of batches, whatever the node
  answers and whichever of them fail, it only grows.\<close>

theorem cursor_never_back:
  "cursor_of net (run_steps (batch_step env net) st rpcs) \<le> cursor_of net (run_steps (batch_step env net) st (rpcs @ later))"
  by (rule cursor.run_level_prefix)

text \<open>C7. The cursor is never behind what has been recorded: starting from a database with no raw
  event, after any sequence of batches every recorded event's ledger is at or below the cursor,
  because the transaction that records an event is the one that advances the cursor.\<close>

theorem cursor_covers_events:
  "covers net (run_steps (batch_step env net) (st\<lparr>ix_db := (ix_db st)\<lparr>db_rawEvent := []\<rparr>\<rparr>) rpcs)"
  by (rule indexer.run_inv) (simp add: covers_def)

section \<open>Which handlers a parsed event can reach\<close>

lemma event_key_parts:
  assumes "s @ '':'' @ t \<in> set EventKey"
  shows "(s = ''niffyins'' \<or> s = ''niffyinsure'') \<and>
    t \<notin> {''claim_filed'', ''claim_paid'', ''allowed_asset_updated'', ''appeal_filed'', ''appeal_approved'', ''appeal_rejected''}"
proof -
  have colon: "k \<in> set EventKey \<Longrightarrow> \<exists>u v. split_first (CHR '':'') k = Some (u, v) \<and> k = u @ CHR '':'' # v \<and>
      CHR '':'' \<notin> set u \<and> CHR '':'' \<notin> set v \<and> (u = ''niffyins'' \<or> u = ''niffyinsure'') \<and>
      v \<notin> {''claim_filed'', ''claim_paid'', ''allowed_asset_updated'', ''appeal_filed'', ''appeal_approved'', ''appeal_rejected''}" for k
    unfolding EventKey_def by (elim set_ConsD [elim_format] disjE) simp_all
  from colon [OF assms] obtain u v where uv: "s @ CHR '':'' # t = u @ CHR '':'' # v" "CHR '':'' \<notin> set u" "CHR '':'' \<notin> set v"
    "(u = ''niffyins'' \<or> u = ''niffyinsure'') \<and> v \<notin> {''claim_filed'', ''claim_paid'', ''allowed_asset_updated'',
       ''appeal_filed'', ''appeal_approved'', ''appeal_rejected''}" by auto
  then show ?thesis using split_event_key [OF uv(1-3)] by simp
qed

definition live_route :: "'x env \<Rightarrow> string \<Rightarrow> string option \<Rightarrow> jsval list \<Rightarrow> jsval \<Rightarrow> 'x soroban_event \<Rightarrow> unit ix" where
  "live_route env s t topics data event =
     (if s = ''niffyins'' \<and> t = Some ''tbl_upd'' then handlePremiumTableUpdated env
      else if s = ''niffyinsure'' \<and> t = Some ''appeal_opened'' then handleAppealOpened env data event topics
      else if s = ''niffyinsure'' \<and> t = Some ''appeal_resolved'' then
        se_bind (field data ''outcome'') (\<lambda>o'.
        case mapAppealOutcome o' True of
          Some mapped \<Rightarrow> handleAppealResolved data event mapped
        | None \<Rightarrow> se_return ())
      else if s = ''niffyins'' \<and> t = Some ''claim_status_changed'' then handleAppealClaimStatusChanged env data event topics
      else se_return ())"

lemma route_words:
  assumes "opt_toString (js_nth topics 0) = Some s" "opt_toString (js_nth topics 1) = t"
    and "s = ''niffyins'' \<or> s = ''niffyinsure''"
    and "t \<notin> Some ` {''claim_filed'', ''claim_paid'', ''allowed_asset_updated'', ''appeal_filed'', ''appeal_approved'', ''appeal_rejected''}"
  shows "route env net topics data event = live_route env s t topics data event"
  using assms(3)
proof
  assume "s = ''niffyins''"
  with assms(1,2) show ?thesis by (simp add: route_def live_route_def)
next
  assume "s = ''niffyinsure''"
  with assms(1,2,4) show ?thesis by (simp add: route_def live_route_def)
qed

lemma route_live:
  assumes "event_key topics \<in> set EventKey"
  obtains s where "opt_toString (js_nth topics 0) = Some s"
    "route env net topics data event = live_route env s (opt_toString (js_nth topics 1)) topics data event"
proof -
  let ?s = "js_String (js_nth topics 0)" and ?t = "js_String (js_nth topics 1)"
  note parts = event_key_parts [OF assms [unfolded event_key_def]]
  have m: "opt_toString (js_nth topics 0) = Some ?s"
    using parts by (auto simp: opt_toString_def nullish_def)
  moreover have "opt_toString (js_nth topics 1) \<notin>
      Some ` {''claim_filed'', ''claim_paid'', ''allowed_asset_updated'', ''appeal_filed'', ''appeal_approved'', ''appeal_rejected''}"
    using parts by (auto simp: opt_toString_def)
  ultimately show thesis using that parts route_words by metis
qed

lemma parse_not_warning:
  "\<not> isWarningRow (parser_parse p ts d l h) \<Longrightarrow> event_key ts \<in> set EventKey"
  using parsed_key_known [of ts d l h]
  by (cases "EventParserV1_parse ts d l h"; cases p)
     (auto simp: isWarningRow_def parser_parse_def EventParserV2_parse_def)

definition projections where
  "projections db = (db_policy db, db_vote db, db_asset db, map fst (db_claim db))"

lemma projections_simps [simp]:
  "projections (db\<lparr>db_claim := updateMany p f (db_claim db)\<rparr>) = projections db"
  "projections (db\<lparr>db_rawEvent := x1\<rparr>) = projections db"
  "projections (snapshot_voters c n db) = projections db"
  "projections (set_cursor net c db) = projections db"
  by (simp_all add: projections_def snapshot_voters_def)

lemma keeps_projections:
  "keeps projections (handleAppealOpened env d e ts)" "keeps projections (handleAppealResolved d e out)"
  unfolding handler_defs Let_def by (intro keeps_rules projections_simps)+

lemma keeps_projections_route: "keeps projections (live_route env s t ts d e)"
  unfolding live_route_def handleAppealClaimStatusChanged_def handlePremiumTableUpdated_def Let_def
  by (intro keeps_rules keeps_projections)

lemma keeps_projections_advance: "keeps projections (advanceCursorInTx net l)"
  by (simp add: keeps_def advanceCursor_eval)

lemma keeps_projections_tx: "keeps projections (event_tx env net e i ts d)"
  unfolding event_tx_def Let_def
  by (intro keeps_rules keeps_projections_advance projections_simps)
     (metis route_live parse_not_warning keeps_projections_route)

text \<open>C10. The projection tables are out of the indexer's reach: whatever event it processes, it never
  changes a policy, a vote or an allowed asset and never adds or removes a claim. The parser table
  knows only the topics \<open>niffyins\<close> and \<open>niffyinsure\<close>, so the branches for \<open>policy\<close>, \<open>claim\<close>,
  \<open>vote\<close> and \<open>asset\<close> topics are never taken.\<close>

theorem projections_never_written:
  "projections (ix_db (snd (processEventForNetwork env net e i st))) = projections (ix_db st)"
proof (cases "env_native env (ev_value e)")
  case (Some d)
  let ?tx = "event_tx env net e i (map (decode_topic env) (ev_topic e)) d"
  have "projections (ix_db (snd (?tx st))) = projections (ix_db st)"
    using keeps_projections_tx [of env net e i] by (simp add: keeps_def)
  then show ?thesis using Some
    by (auto simp: processEventForNetwork_def transaction_def split: prod.splits sum.splits)
qed (simp add: processEventForNetwork_def)

section \<open>Liveness of the catch-up\<close>

lemma handleAppealResolved_throws: "\<exists>x st'. handleAppealResolved d e out st = (Inl x, st')"
  by (simp add: handleAppealResolved_def se_bind_def write_db_def field_def int_arg_def split: option.split)

definition resolves_appeal :: "'x env \<Rightarrow> 'x soroban_event \<Rightarrow> bool" where
  "resolves_appeal env e =
     (case env_native env (ev_value e) of None \<Rightarrow> False
      | Some d \<Rightarrow> map (decode_topic env) (take 2 (ev_topic e)) = [JStr ''niffyinsure'', JStr ''appeal_resolved''] \<and>
          payload_version d = Fin 1 \<and>
          (case js_field d ''outcome'' of None \<Rightarrow> False | Some v \<Rightarrow> mapAppealOutcome v True \<noteq> None))"

lemma resolved_event_fails:
  assumes "resolves_appeal env e" "findUnique (db_rawEvent (ix_db st)) (ev_txHash e, i) = None"
  shows "\<exists>x st'. processEventForNetwork env net e i st = (Inl x, st') \<and> ix_db st' = ix_db st"
proof -
  let ?ts = "map (decode_topic env) (ev_topic e)"
  obtain d v out where d: "env_native env (ev_value e) = Some d" "payload_version d = Fin 1"
      "js_field d ''outcome'' = Some v" "mapAppealOutcome v True = Some out"
    and t2: "take 2 ?ts = [JStr ''niffyinsure'', JStr ''appeal_resolved'']"
    using assms(1) by (auto simp: resolves_appeal_def take_map split: option.splits)
  then obtain rest where ts: "?ts = JStr ''niffyinsure'' # JStr ''appeal_resolved'' # rest"
    by (metis append_Cons append_Nil append_take_drop_id)
  have "\<not> isWarningRow (parser_parse p ?ts d l h)" for p l h
    using d(2) by (cases p) (simp_all add: ts parser_parse_def EventParserV2_parse_def EventParserV1_parse_def
        isWarningRow_def event_key_def js_nth_def EVENT_PARSERS_def EventKey_def)
  moreover have "\<exists>x s'. route env net ?ts d e s = (Inl x, s')" for s
    using handleAppealResolved_throws [of d e out s] d
    by (simp add: ts route_words [of _ "''niffyinsure''" "Some ''appeal_resolved''"] js_nth_def opt_toString_def
        nullish_def live_route_def se_bind_def field_def)
  ultimately have "\<exists>x s'. event_tx env net e i ?ts d st = (Inl x, s')"
    using assms(2) by (simp add: event_tx_eval Let_def se_bind_def) (metis (no_types, lifting) case_prod_conv sum.case(1))
  then show ?thesis using d(1) by (auto simp: processEventForNetwork_def transaction_def)
qed

lemma batch_stuck:
  assumes "rpc_latestLedger rpc = Some L" "cursor_of net st < L"
    "rpc_getEvents rpc (cursor_of net st + 1) BATCH_SIZE = Some (e # es)" "resolves_appeal env e"
    "findUnique (db_rawEvent (ix_db st)) (ev_txHash e, 0) = None"
  shows "cursor_of net (batch_step env net st rpc) = cursor_of net st"
    and "db_rawEvent (ix_db (batch_step env net st rpc)) = db_rawEvent (ix_db st)"
proof -
  obtain st0 where c: "cursor_of net st0 = cursor_of net st" and r: "db_rawEvent (ix_db st0) = db_rawEvent (ix_db st)"
    and eq: "processNextBatchForNetwork env net rpc st =
       (case rpc_latestLedger rpc of None \<Rightarrow> (Inl RpcError, st0)
        | Some latest \<Rightarrow> fetch_and_process env net rpc (cursor_of net st) latest st0)"
    by (rule batch_eval [of net st env rpc])
  obtain x st1 where f: "processEventForNetwork env net e 0 st0 = (Inl x, st1)" "ix_db st1 = ix_db st0"
    using resolved_event_fails [of env e st0 0 net] assms(4,5) r by auto
  have "batch_step env net st rpc = st1"
    using assms(1-3) f(1) by (simp add: batch_step_def eq fetch_and_process_def se_bind_def)
  then show "cursor_of net (batch_step env net st rpc) = cursor_of net st"
    "db_rawEvent (ix_db (batch_step env net st rpc)) = db_rawEvent (ix_db st)"
    using c r f(2) cursor_of_cong [OF f(2), of net] by simp_all
qed

text \<open>An appeal resolution stops the indexer for good: when the next event to read is an
  \<open>appeal_resolved\<close> event with a known outcome, every tick fails on it and, however often the
  worker retries, the cursor stays where it is and the event is never recorded.\<close>

theorem appeal_resolved_blocks:
  assumes "rpc_latestLedger rpc = Some L" "cursor_of net st < L"
    and "rpc_getEvents rpc (cursor_of net st + 1) BATCH_SIZE = Some (e # es)"
    and "resolves_appeal env e" "findUnique (db_rawEvent (ix_db st)) (ev_txHash e, 0) = None"
  shows "cursor_of net (run_steps (batch_step env net) st (replicate n rpc)) = cursor_of net st \<and>
    findUnique (db_rawEvent (ix_db (run_steps (batch_step env net) st (replicate n rpc)))) (ev_txHash e, 0) = None"
  using assms
proof (induction n arbitrary: st)
  case (Suc n)
  note stuck = batch_stuck [OF Suc.prems]
  show ?case using Suc.IH [of "batch_step env net st rpc"] Suc.prems stuck by simp
qed simp

definition demo_env :: "jsval env" where
  "demo_env = \<lparr>env_native = Some, env_xdr = (\<lambda>_. []),
     env_strkey = \<lparr>sk_isValidEd25519PublicKey = (\<lambda>_. False), sk_isValidContract = (\<lambda>_. False), sk_muxedBase = (\<lambda>_. None)\<rparr>,
     env_fails = (\<lambda>_. False), env_registry = [], env_gapThreshold = 100, env_gapCooldownMs = 3600000\<rparr>"

definition demo_state :: ix_state where
  "demo_state = \<lparr>ix_db = claims_db_empty, ix_calls = []\<rparr>"

definition demo_resolved :: "jsval soroban_event" where
  "demo_resolved = \<lparr>ev_txHash = ''aa'', ev_ledger = 7, ev_ledgerClosedAt = 0, ev_contractId = None,
     ev_topic = [JStr ''niffyinsure'', JStr ''appeal_resolved'', JNum (Fin 3)],
     ev_value = JObj [(''version'', JNum (Fin 1)), (''outcome'', JStr ''AppealApproved'')]\<rparr>"

theorem appeal_resolved_blocks_witness:
  "cursor_of ''testnet'' (run_steps (batch_step demo_env ''testnet'') demo_state
     (replicate 1000 \<lparr>rpc_latestLedger = Some 9, rpc_getEvents = (\<lambda>_ _. Some [demo_resolved]), rpc_now = 0\<rparr>)) = 0"
proof -
  have c: "cursor_of ''testnet'' demo_state = 0"
    by (simp add: cursor_of_def demo_state_def claims_db_empty_def findUnique_def)
  have "resolves_appeal demo_env demo_resolved"
    by code_simp
  moreover have "findUnique (db_rawEvent (ix_db demo_state)) (ev_txHash demo_resolved, 0) = None"
    by (simp add: demo_state_def claims_db_empty_def findUnique_def)
  ultimately show ?thesis
    using appeal_resolved_blocks [of "\<lparr>rpc_latestLedger = Some 9, rpc_getEvents = (\<lambda>_ _. Some [demo_resolved]), rpc_now = 0\<rparr>"
        9 "''testnet''" demo_state demo_resolved "[]" demo_env 1000] c by simp
qed

lemma batch_quiet:
  assumes "rpc_latestLedger rpc = Some L" "rpc_getEvents rpc (cursor_of net st + 1) BATCH_SIZE = Some []"
    "0 \<le> cursor_of net st" "cursor_of net st \<le> L"
  shows "cursor_of net (batch_step env net st rpc) = min (cursor_of net st + 101) L"
    and "fst (processNextBatchForNetwork env net rpc st) = Inr (0, L - min (cursor_of net st + 101) L)"
proof -
  obtain st0 where c: "cursor_of net st0 = cursor_of net st" "has_cursor net st0"
    and eq: "processNextBatchForNetwork env net rpc st =
       (case rpc_latestLedger rpc of None \<Rightarrow> (Inl RpcError, st0)
        | Some latest \<Rightarrow> fetch_and_process env net rpc (cursor_of net st) latest st0)"
    by (rule batch_eval [of net st env rpc])
  let ?n = "min (cursor_of net st + 1 + 100) L"
  have n: "?n = min (cursor_of net st + 101) L" by simp
  have nx: "next_cursor net ?n (ix_db st0) = max (cursor_of net st) ?n"
    using c by (auto simp: next_cursor_def cursor_of_def has_cursor_def)
  have "cursor_of net (batch_step env net st rpc) = min (cursor_of net st + 101) L \<and>
      fst (processNextBatchForNetwork env net rpc st) = Inr (0, L - min (cursor_of net st + 101) L)"
  proof (cases "cursor_of net st = L")
    case True
    then show ?thesis using assms(1) c by (simp add: batch_step_def eq fetch_and_process_def)
  next
    case False
    then have lt: "cursor_of net st < L" using assms(4) by simp
    then have "processNextBatchForNetwork env net rpc st =
        (Inr (0, L - ?n), st0\<lparr>ix_db := set_cursor net ?n (ix_db st0)\<rparr>)"
      using assms(1,2) nx
      by (simp add: eq fetch_and_process_def se_bind_def transaction_def advanceCursor_eval max_def Let_def)
    then show ?thesis using n by (simp add: batch_step_def cursor_of_def set_cursor_find)
  qed
  then show "cursor_of net (batch_step env net st rpc) = min (cursor_of net st + 101) L"
    "fst (processNextBatchForNetwork env net rpc st) = Inr (0, L - min (cursor_of net st + 101) L)" by simp_all
qed

text \<open>A quiet chain is caught up with: if the node keeps reporting the latest ledger \<open>L\<close> and no
  events, each tick moves the cursor 101 ledgers and after enough ticks it is at \<open>L\<close>.\<close>

theorem quiet_chain_caught_up:
  assumes "rpc_latestLedger rpc = Some L" "\<And>l. rpc_getEvents rpc l BATCH_SIZE = Some []"
    and "0 \<le> cursor_of net st" "cursor_of net st \<le> L"
  shows "cursor_of net (run_steps (batch_step env net) st (replicate n rpc)) = min (cursor_of net st + 101 * int n) L"
  using assms
proof (induction n arbitrary: st)
  case (Suc n)
  have c: "cursor_of net (batch_step env net st rpc) = min (cursor_of net st + 101) L"
    using batch_quiet(1) Suc.prems by blast
  then have "cursor_of net (run_steps (batch_step env net) (batch_step env net st rpc) (replicate n rpc)) =
      min (cursor_of net (batch_step env net st rpc) + 101 * int n) L"
    using Suc.IH [OF Suc.prems(1,2)] Suc.prems(3,4) by (simp add: c)
  then show ?case using c by simp
qed simp

theorem quiet_chain_caught_up_witness:
  "cursor_of ''testnet'' (run_steps (batch_step demo_env ''testnet'') demo_state
     (replicate 5 \<lparr>rpc_latestLedger = Some 500, rpc_getEvents = (\<lambda>_ _. Some []), rpc_now = 0\<rparr>)) = 500"
proof -
  have c: "cursor_of ''testnet'' demo_state = 0"
    by (simp add: cursor_of_def demo_state_def claims_db_empty_def findUnique_def)
  then show ?thesis
    using quiet_chain_caught_up [of "\<lparr>rpc_latestLedger = Some 500, rpc_getEvents = (\<lambda>_ _. Some []), rpc_now = 0\<rparr>"
        500 "''testnet''" demo_state demo_env 5] by simp
qed

lemma catch_up_loop_run:
  "n \<le> 10000 \<Longrightarrow> catch_up_loop env net rpcs n ev st = (Inr (m, ev'), st') \<Longrightarrow>
   n < m \<and> m \<le> 10001 \<and> st' = run_steps (batch_step env net) st (map rpcs [n..<m]) \<and>
   (m = 10001 \<or> (\<exists>lag. fst (processNextBatchForNetwork env net (rpcs (m - 1))
        (run_steps (batch_step env net) st (map rpcs [n..<m - 1]))) = Inr (0, lag)))"
proof (induction env net rpcs n ev st rule: catch_up_loop.induct)
  case (1 env net rpcs n ev st)
  obtain p lag st1 where b: "processNextBatchForNetwork env net (rpcs n) st = (Inr (p, lag), st1)"
    using 1(3) by (subst (asm) catch_up_loop.simps) (auto split: prod.splits sum.splits)
  then have st1: "batch_step env net st (rpcs n) = st1" by (simp add: batch_step_def)
  note unf = 1(3) [unfolded catch_up_loop.simps [of env net rpcs n] b]
  consider "p = 0" | "p \<noteq> 0" "n = 10000" | "p \<noteq> 0" "n < 10000" using 1(2) by linarith
  then show ?case
  proof cases
    case 3
    then have rec: "catch_up_loop env net rpcs (n + 1) (ev + p) st1 = (Inr (m, ev'), st')" using unf by simp
    have ih: "n + 1 < m \<and> m \<le> 10001 \<and> st' = run_steps (batch_step env net) st1 (map rpcs [n + 1..<m]) \<and>
       (m = 10001 \<or> (\<exists>lag. fst (processNextBatchForNetwork env net (rpcs (m - 1))
        (run_steps (batch_step env net) st1 (map rpcs [n + 1..<m - 1]))) = Inr (0, lag)))"
      using 1(1) [OF b [symmetric] refl refl refl refl _ _ _ rec] 3 by simp
    then have "n < m" "n < m - 1" by linarith+
    then have "[n..<m] = n # [n + 1..<m]" "[n..<m - 1] = n # [n + 1..<m - 1]" by (simp_all add: upt_conv_Cons)
    with ih st1 show ?thesis by simp
  qed (use unf b st1 1(2) in \<open>auto\<close>)
qed

text \<open>The reindex loop ends: it returns after at most 10001 batches, having run exactly that many
  in order, and unless it hit the safety cap its last batch processed no event.\<close>

theorem catch_up_bounded:
  "case processUntilCaughtUp env net rpcs st of
     (Inl _, st') \<Rightarrow> cursor_of net st \<le> cursor_of net st'
   | (Inr (n, _), st') \<Rightarrow> 1 \<le> n \<and> n \<le> 10001 \<and> st' = run_steps (batch_step env net) st (map rpcs [0..<n]) \<and>
       (n = 10001 \<or> (\<exists>lag. fst (processNextBatchForNetwork env net (rpcs (n - 1))
          (run_steps (batch_step env net) st (map rpcs [0..<n - 1]))) = Inr (0, lag)))"
proof -
  have mono: "cursor_of net st \<le> cursor_of net (snd (catch_up_loop env net rpcs n ev st))" for n ev
  proof (induction env net rpcs n ev st rule: catch_up_loop.induct)
    case (1 env net rpcs n ev st)
    have step: "cursor_of net st \<le> cursor_of net (batch_step env net st (rpcs n))" using progress_batch by blast
    show ?case
    proof (cases "processNextBatchForNetwork env net (rpcs n) st")
      case (Pair r st1)
      then show ?thesis using 1 step
        by (cases r) (fastforce simp: catch_up_loop.simps [of env net rpcs n] batch_step_def Let_def split: prod.splits)+
    qed
  qed
  show ?thesis
    using catch_up_loop_run [of 0 env net rpcs 0 st] mono [of 0 0] unfolding processUntilCaughtUp_def
    by (fastforce split: prod.splits sum.splits)
qed

section \<open>Gap alerts\<close>

text \<open>The times at which a sequence of calls \<open>(now, gap, last, latest)\<close> for one network raised an alert.\<close>

fun alert_times :: "'x env \<Rightarrow> string \<Rightarrow> ix_state \<Rightarrow> (int \<times> int \<times> int \<times> int) list \<Rightarrow> int list" where
  "alert_times env net st [] = []"
| "alert_times env net st ((now, g, lp, ll) # qs) =
     (case maybeEmitGapAlert env now net g lp ll st of
        (Inr b, st') \<Rightarrow> (if b then now # alert_times env net st' qs else alert_times env net st' qs)
      | (Inl _, st') \<Rightarrow> alert_times env net st' qs)"

lemma alert_times_spaced:
  "successively (\<lambda>a b. env_gapCooldownMs env \<le> b - a) (alert_times env net st qs) \<and>
   (case (findUnique (db_gapAlert (ix_db st)) net, alert_times env net st qs) of
      (Some d, t # _) \<Rightarrow> env_gapCooldownMs env \<le> t - ga_lastFiredAt d | _ \<Rightarrow> True)"
proof (induction qs arbitrary: st)
  case (Cons q qs)
  obtain now g lp ll where q: "q = (now, g, lp, ll)" by (metis prod_cases4)
  show ?case
  proof (cases "gap_suppressed env now net st")
    case True
    then show ?thesis using Cons [of st] by (simp add: q gap_alert_eval)
  next
    case False
    let ?row = "\<lparr>ga_lastFiredAt = now, ga_lastGapSize = g, ga_lastProcessedLedger = lp, ga_latestLedger = ll\<rparr>"
    let ?st = "st\<lparr>ix_db := (ix_db st)\<lparr>db_gapAlert := upsert net ?row (\<lambda>_. ?row) (db_gapAlert (ix_db st))\<rparr>\<rparr>"
    have "findUnique (db_gapAlert (ix_db ?st)) net = Some ?row"
      by (simp add: db_table.get_put_same split: option.split)
    then show ?thesis using Cons [of ?st] False
      by (cases "alert_times env net ?st qs") (auto simp: q gap_alert_eval gap_suppressed_def split: option.splits)
  qed
qed (simp split: option.split)

text \<open>Gap alerts respect their cooldown: over any sequence of calls for a network, each alert is
  raised at least the configured cooldown after the one before.\<close>

theorem gap_alerts_spaced:
  "successively (\<lambda>a b. env_gapCooldownMs env \<le> b - a) (alert_times env net st qs)"
  using alert_times_spaced by blast

end
