(* ===== verification/Reconciliation.thy ===== *)
theory Reconciliation
  imports Claims_Db
begin

text \<open>
  \<open>src/backend/src/indexer/reconciliation.service.ts\<close>: the scheduled job that compares the stored
  vote tallies and appeal bookkeeping of every claim that is not finalised with the vote rows and
  the claim's status, and corrects them in place.

  The claims are read once at the start of a run and each is corrected from the values read then,
  while the votes are counted when its turn comes. The model runs the job alone; the time of the
  check is left out of the result.
\<close>

record reconciliation_result =
  rr_totalChecked :: int
  rr_discrepancies :: int
  rr_discrepantClaimIds :: "int list"
  rr_appealCorrections :: int
  rr_ok :: bool

definition vote_count :: "claims_db \<Rightarrow> int \<Rightarrow> vote_type \<Rightarrow> int" where
  "vote_count db claimId v = count_where (\<lambda>(c, _) r. c = claimId \<and> vo_vote r = v) (db_vote db)"

record claim_recon =
  rs_ok :: bool
  rs_storedApprove :: int
  rs_storedReject :: int
  rs_countApprove :: int
  rs_countReject :: int

definition getClaimReconciliationStatus :: "claims_db \<Rightarrow> int \<Rightarrow> claim_recon" where
  "getClaimReconciliationStatus db claimId =
     (case findUnique (db_claim db) claimId of
        None \<Rightarrow> \<lparr>rs_ok = True, rs_storedApprove = 0, rs_storedReject = 0, rs_countApprove = 0, rs_countReject = 0\<rparr>
      | Some claim \<Rightarrow>
          let a = vote_count db claimId APPROVE; r = vote_count db claimId REJECT in
          \<lparr>rs_ok = (cl_approveVotes claim = a \<and> cl_rejectVotes claim = r),
           rs_storedApprove = cl_approveVotes claim, rs_storedReject = cl_rejectVotes claim,
           rs_countApprove = a, rs_countReject = r\<rparr>)"

definition update_claim :: "int \<Rightarrow> (claim_row \<Rightarrow> claim_row) \<Rightarrow> claims_db \<Rightarrow> claims_db" where
  "update_claim claimId f db = db\<lparr>db_claim := updateMany (\<lambda>k _. k = claimId) f (db_claim db)\<rparr>"

definition expectedAppealsCount :: "claim_row \<Rightarrow> int" where
  "expectedAppealsCount claim = (if cl_status claim = UNDER_APPEAL then 1 else 0)"

text \<open>The body of the loop for one claim as read at the start.\<close>

definition reconcile_claim ::
  "claims_db \<times> int list \<times> int \<Rightarrow> int \<times> claim_row \<Rightarrow> claims_db \<times> int list \<times> int" where
  "reconcile_claim acc idClaim =
     (let (db, discrepantIds, corrections) = acc;
          (cid, claim) = idClaim;
          countApprove = vote_count db cid APPROVE;
          countReject = vote_count db cid REJECT;
          (db1, ids1) =
            (if cl_approveVotes claim \<noteq> countApprove \<or> cl_rejectVotes claim \<noteq> countReject
             then (update_claim cid (\<lambda>r. r\<lparr>cl_approveVotes := countApprove, cl_rejectVotes := countReject\<rparr>) db,
                   discrepantIds @ [cid])
             else (db, discrepantIds));
          expected = expectedAppealsCount claim
      in if cl_appealsCount claim \<noteq> expected
         then (update_claim cid (\<lambda>r. r\<lparr>cl_appealsCount := expected,
                 cl_appealTxHash := (if expected = 0 \<and> cl_appealTxHash claim \<noteq> None then None
                                     else cl_appealTxHash r)\<rparr>) db1,
               ids1 @ [cid], corrections + 1)
         else (db1, ids1, corrections))"

definition runReconciliation :: "claims_db \<Rightarrow> reconciliation_result \<times> claims_db" where
  "runReconciliation db =
     (let claims = findMany (\<lambda>_ r. \<not> cl_isFinalized r) (db_claim db);
          (db', discrepantIds, corrections) = foldl reconcile_claim (db, [], 0) claims
      in (\<lparr>rr_totalChecked = int (length claims), rr_discrepancies = int (length discrepantIds),
           rr_discrepantClaimIds = discrepantIds, rr_appealCorrections = corrections,
           rr_ok = (discrepantIds = [])\<rparr>, db'))"

section \<open>What the job is for\<close>

text \<open>The corrected row of a claim: what a run must leave in the table.\<close>

definition fixed_row :: "claims_db \<Rightarrow> int \<Rightarrow> claim_row \<Rightarrow> claim_row" where
  "fixed_row db cid r =
     (if cl_isFinalized r then r
      else let e = expectedAppealsCount r;
               r1 = r\<lparr>cl_approveVotes := vote_count db cid APPROVE, cl_rejectVotes := vote_count db cid REJECT\<rparr>
           in if cl_appealsCount r = e then r1
              else r1\<lparr>cl_appealsCount := e, cl_appealTxHash := (if e = 0 then None else cl_appealTxHash r)\<rparr>)"

definition consistent :: "claims_db \<Rightarrow> int \<times> claim_row \<Rightarrow> bool" where
  "consistent db kr = (case kr of (cid, r) \<Rightarrow> cl_isFinalized r \<or>
     (cl_approveVotes r = vote_count db cid APPROVE \<and> cl_rejectVotes r = vote_count db cid REJECT \<and>
      cl_appealsCount r = expectedAppealsCount r))"

text \<open>The claims a run reports, in the order it meets them.\<close>

definition drift :: "claims_db \<Rightarrow> int \<times> claim_row \<Rightarrow> int list" where
  "drift db kr = (case kr of (cid, r) \<Rightarrow>
     (if cl_approveVotes r \<noteq> vote_count db cid APPROVE \<or> cl_rejectVotes r \<noteq> vote_count db cid REJECT then [cid] else []) @
     (if cl_appealsCount r \<noteq> expectedAppealsCount r then [cid] else []))"

lemma vote_count_frame [simp]: "vote_count (db\<lparr>db_claim := t\<rparr>) cid v = vote_count db cid v"
  by (simp add: vote_count_def)

lemma updateMany_key_cong:
  assumes "keys_unique t" "(cid, r) \<in> set t" "f r = g r"
  shows "updateMany (\<lambda>k _. k = cid) f t = updateMany (\<lambda>k _. k = cid) g t"
proof -
  have "v = r" if "(cid, v) \<in> set t" for v
    using that assms(1,2) by (auto simp: keys_unique_def eq_key_imp_eq_value)
  with assms(3) show ?thesis by (auto simp: updateMany_def)
qed

lemma updateMany_key_comp:
  "updateMany (\<lambda>k _. k = c) f (updateMany (\<lambda>k _. k = c) g t) = updateMany (\<lambda>k _. k = c) (f \<circ> g) t"
  by (simp add: updateMany_def case_prod_unfold)

text \<open>One turn of the loop corrects exactly the row it read, reports its drift and counts the appeal
  correction.\<close>

lemma reconcile_turn:
  assumes "\<not> cl_isFinalized r" "keys_unique t" "(cid, r) \<in> set t"
  shows "fst (reconcile_claim (db\<lparr>db_claim := t\<rparr>, ids, n) (cid, r)) =
      db\<lparr>db_claim := updateMany (\<lambda>k _. k = cid) (fixed_row db cid) t\<rparr>"
    and "fst (snd (reconcile_claim (db\<lparr>db_claim := t\<rparr>, ids, n) (cid, r))) = ids @ drift db (cid, r)"
proof -
  let ?a = "vote_count db cid APPROVE" and ?b = "vote_count db cid REJECT" and ?e = "expectedAppealsCount r"
  let ?tally = "cl_approveVotes r \<noteq> ?a \<or> cl_rejectVotes r \<noteq> ?b"
  define f :: "claim_row \<Rightarrow> claim_row" where "f = (if ?tally then (\<lambda>r. r\<lparr>cl_approveVotes := ?a, cl_rejectVotes := ?b\<rparr>) else (\<lambda>r. r))"
  define g :: "claim_row \<Rightarrow> claim_row" where "g = (if cl_appealsCount r \<noteq> ?e then (\<lambda>r'. r'\<lparr>cl_appealsCount := ?e,
      cl_appealTxHash := (if ?e = 0 \<and> cl_appealTxHash r \<noteq> None then None else cl_appealTxHash r')\<rparr>) else (\<lambda>r. r))"
  have "fst (reconcile_claim (db\<lparr>db_claim := t\<rparr>, ids, n) (cid, r)) =
      db\<lparr>db_claim := updateMany (\<lambda>k _. k = cid) (g \<circ> f) t\<rparr>"
    by (simp add: reconcile_claim_def update_claim_def f_def g_def updateMany_key_comp [symmetric] updateMany_id Let_def)
  moreover have "(g \<circ> f) r = fixed_row db cid r"
    using assms(1) by (auto simp: f_def g_def fixed_row_def Let_def)
  ultimately show "fst (reconcile_claim (db\<lparr>db_claim := t\<rparr>, ids, n) (cid, r)) =
      db\<lparr>db_claim := updateMany (\<lambda>k _. k = cid) (fixed_row db cid) t\<rparr>"
    using updateMany_key_cong [OF assms(2,3), of "g \<circ> f" "fixed_row db cid"] by simp
  show "fst (snd (reconcile_claim (db\<lparr>db_claim := t\<rparr>, ids, n) (cid, r))) = ids @ drift db (cid, r)"
    by (simp add: reconcile_claim_def drift_def Let_def)
qed

lemma reconcile_loop:
  assumes "keys_unique t" "distinct (map fst cs)" "\<forall>(k, r) \<in> set cs. (k, r) \<in> set t \<and> \<not> cl_isFinalized r"
  shows "fst (foldl reconcile_claim (db\<lparr>db_claim := t\<rparr>, ids, n) cs) =
      db\<lparr>db_claim := map (\<lambda>(k, r). (k, if k \<in> fst ` set cs then fixed_row db k r else r)) t\<rparr>
    \<and> fst (snd (foldl reconcile_claim (db\<lparr>db_claim := t\<rparr>, ids, n) cs)) = ids @ concat (map (drift db) cs)"
  using assms
proof (induction cs arbitrary: t ids n)
  case Nil
  then show ?case by simp
next
  case (Cons c cs)
  obtain cid r where c: "c = (cid, r)" by fastforce
  let ?t = "updateMany (\<lambda>k _. k = cid) (fixed_row db cid) t"
  have r: "\<not> cl_isFinalized r" "(cid, r) \<in> set t" using Cons.prems(3) c by auto
  note turn = reconcile_turn [OF r(1) Cons.prems(1) r(2), of db ids n]
  obtain n' where step: "reconcile_claim (db\<lparr>db_claim := t\<rparr>, ids, n) (cid, r) =
      (db\<lparr>db_claim := ?t\<rparr>, ids @ drift db (cid, r), n')"
    using turn by (metis prod.collapse)
  have mem: "(k, v) \<in> set ?t \<and> \<not> cl_isFinalized v" if "(k, v) \<in> set cs" for k v
  proof -
    have "k \<noteq> cid" using that Cons.prems(2) c by (force simp: image_iff)
    then show ?thesis using that Cons.prems(3) by (force simp: updateMany_def image_iff)
  qed
  have "fst (foldl reconcile_claim (db\<lparr>db_claim := ?t\<rparr>, ids @ drift db (cid, r), n') cs) =
      db\<lparr>db_claim := map (\<lambda>(k, r). (k, if k \<in> fst ` set cs then fixed_row db k r else r)) ?t\<rparr> \<and>
      fst (snd (foldl reconcile_claim (db\<lparr>db_claim := ?t\<rparr>, ids @ drift db (cid, r), n') cs)) =
      (ids @ drift db (cid, r)) @ concat (map (drift db) cs)"
    using Cons.IH [of ?t "ids @ drift db (cid, r)" n'] Cons.prems(1,2) mem by auto
  moreover have "map (\<lambda>(k, r). (k, if k \<in> fst ` set cs then fixed_row db k r else r)) ?t =
      map (\<lambda>(k, r). (k, if k \<in> fst ` set (c # cs) then fixed_row db k r else r)) t"
    using Cons.prems(2) c by (auto simp: updateMany_def)
  ultimately show ?case using c step by simp
qed

lemma fixed_row_final [simp]: "cl_isFinalized (fixed_row db k r) = cl_isFinalized r"
  by (simp add: fixed_row_def Let_def)

lemma fixed_row_keep [simp]: "cl_isFinalized r \<Longrightarrow> fixed_row db k r = r"
  by (simp add: fixed_row_def)

lemma fixed_row_consistent: "consistent db (k, fixed_row db k r)"
  by (auto simp: consistent_def fixed_row_def expectedAppealsCount_def Let_def)

lemma fixed_row_id: "consistent db (k, r) \<Longrightarrow> fixed_row db k r = r"
  by (auto simp: consistent_def fixed_row_def Let_def)

lemma drift_Nil: "\<not> cl_isFinalized r \<Longrightarrow> drift db (k, r) = [] \<longleftrightarrow> consistent db (k, r)"
  by (auto simp: drift_def consistent_def)

lemma run_eval:
  assumes "keys_unique (db_claim db)"
  defines "cs \<equiv> findMany (\<lambda>_ r. \<not> cl_isFinalized r) (db_claim db)"
  shows "snd (runReconciliation db) = db\<lparr>db_claim := map (\<lambda>(k, r). (k, fixed_row db k r)) (db_claim db)\<rparr>"
    and "rr_discrepantClaimIds (fst (runReconciliation db)) = concat (map (drift db) cs)"
    and "rr_ok (fst (runReconciliation db)) = list_all (consistent db) (db_claim db)"
proof -
  have d: "distinct (map fst cs)"
    using assms(1) by (simp add: cs_def findMany_def keys_unique_def distinct_map_filter)
  have m: "\<forall>(k, r) \<in> set cs. (k, r) \<in> set (db_claim db) \<and> \<not> cl_isFinalized r"
    by (auto simp: cs_def findMany_def)
  note loop = reconcile_loop [OF assms(1) d m, of db "[]" 0, simplified]
  have "map (\<lambda>(k, r). (k, if k \<in> fst ` set cs then fixed_row db k r else r)) (db_claim db) =
      map (\<lambda>(k, r). (k, fixed_row db k r)) (db_claim db)"
    by (force simp: cs_def findMany_def fixed_row_def image_iff)
  then show "snd (runReconciliation db) = db\<lparr>db_claim := map (\<lambda>(k, r). (k, fixed_row db k r)) (db_claim db)\<rparr>"
    using loop by (simp add: runReconciliation_def cs_def [symmetric] Let_def case_prod_unfold)
  show ids: "rr_discrepantClaimIds (fst (runReconciliation db)) = concat (map (drift db) cs)"
    using loop by (simp add: runReconciliation_def cs_def [symmetric] Let_def case_prod_unfold)
  have "concat (map (drift db) cs) = [] \<longleftrightarrow> list_all (consistent db) (db_claim db)"
    by (auto simp: cs_def findMany_def list_all_iff drift_Nil) (auto simp: consistent_def)
  then show "rr_ok (fst (runReconciliation db)) = list_all (consistent db) (db_claim db)"
    using ids by (simp add: runReconciliation_def Let_def case_prod_unfold)
qed

text \<open>C21. Reconciliation repairs and is then quiet: after a run every claim that is not finalised has
  the tallies its vote rows count to and the appeal counter its status calls for, finalised claims
  and the votes are untouched, the run reports success exactly when there was nothing to repair, and
  a second run reports success and changes nothing.\<close>

theorem reconciliation_repairs:
  assumes "keys_unique (db_claim db)"
  shows "case runReconciliation db of (res, db') \<Rightarrow>
     list_all (consistent db') (db_claim db') \<and>
     filter (\<lambda>(_, r). cl_isFinalized r) (db_claim db') = filter (\<lambda>(_, r). cl_isFinalized r) (db_claim db) \<and>
     db_vote db' = db_vote db \<and>
     (rr_ok res \<longleftrightarrow> list_all (consistent db) (db_claim db)) \<and>
     rr_ok (fst (runReconciliation db')) \<and> snd (runReconciliation db') = db'"
proof -
  let ?t = "map (\<lambda>(k, r). (k, fixed_row db k r)) (db_claim db)"
  let ?db = "db\<lparr>db_claim := ?t\<rparr>"
  have run: "snd (runReconciliation db) = ?db" using run_eval(1) [OF assms] .
  have same: "fixed_row ?db = fixed_row db" "consistent ?db = consistent db"
    by (auto simp: fixed_row_def consistent_def fun_eq_iff Let_def)
  have ok: "list_all (consistent db) ?t" by (auto simp: list_all_iff fixed_row_consistent)
  have u: "keys_unique ?t" using assms by (simp add: keys_unique_def case_prod_unfold comp_def)
  have "filter (\<lambda>(_, r). cl_isFinalized r) (map (\<lambda>(k, r). (k, fixed_row db k r)) t) =
      filter (\<lambda>(_, r). cl_isFinalized r) t" for t
    by (induction t) auto
  note fin = this [of "db_claim db"]
  have "map (\<lambda>(k, r). (k, fixed_row db k r)) ?t = ?t"
    using ok fixed_row_id by (force simp: list_all_iff)
  then have "snd (runReconciliation ?db) = ?db" using run_eval(1) [of ?db] u same by simp
  moreover have "rr_ok (fst (runReconciliation ?db))" using run_eval(3) [of ?db] u same ok by simp
  ultimately show ?thesis
    using run run_eval(3) [OF assms] ok same fin by (simp add: case_prod_unfold)
qed

theorem reconciliation_repairs_witness:
  "case runReconciliation (claims_db_empty\<lparr>db_claim := [(4, \<lparr>cl_policyId = ''G:1'', cl_creatorAddress = ''G'',
        cl_amount = ''9'', cl_asset = None, cl_description = [], cl_imageUrls = [], cl_status = REJECTED,
        cl_isFinalized = False, cl_approveVotes = 5, cl_rejectVotes = 0, cl_paidAt = None,
        cl_createdAtLedger = 1, cl_updatedAtLedger = 1, cl_txHash = None, cl_deleted = False,
        cl_appealsCount = 1, cl_appealTxHash = Some ''tx''\<rparr>)],
      db_vote := [((4, ''GV''), \<lparr>vo_vote = REJECT, vo_votedAtLedger = 2, vo_txHash = ''t''\<rparr>)]\<rparr>)
   of (res, db') \<Rightarrow> \<not> rr_ok res \<and> list_all (consistent db') (db_claim db')"
proof -
  let ?r = "\<lparr>cl_policyId = ''G:1'', cl_creatorAddress = ''G'',
        cl_amount = ''9'', cl_asset = None, cl_description = [], cl_imageUrls = [], cl_status = REJECTED,
        cl_isFinalized = False, cl_approveVotes = 5, cl_rejectVotes = 0, cl_paidAt = None,
        cl_createdAtLedger = 1, cl_updatedAtLedger = 1, cl_txHash = None, cl_deleted = False,
        cl_appealsCount = 1, cl_appealTxHash = Some ''tx''\<rparr>"
  let ?db = "claims_db_empty\<lparr>db_claim := [(4, ?r)],
      db_vote := [((4, ''GV''), \<lparr>vo_vote = REJECT, vo_votedAtLedger = 2, vo_txHash = ''t''\<rparr>)]\<rparr>"
  have "\<not> list_all (consistent ?db) (db_claim ?db)"
    by (simp add: consistent_def expectedAppealsCount_def)
  then show ?thesis
    using reconciliation_repairs [of ?db] by (auto simp: keys_unique_def)
qed

end
