(* ===== verification/Renewal.thy ===== *)
theory Renewal
  imports Claims_Db
begin

text \<open>
  \<open>src/backend/src/policy/renewal.service.ts\<close> and \<open>renewal.constants.ts\<close>: the eligibility check of
  a renewal, the quote and the building of the unsigned renewal transaction.

  \<open>soroban\<close> holds the answers of the Soroban RPC service during one request (\<open>None\<close> where a call
  throws); the state is the database, the renewal records written and the events emitted on the
  renewal bus. Fee and XDR fields that are only passed through are one opaque string.
\<close>

definition POLICY_DURATION_LEDGERS :: int where "POLICY_DURATION_LEDGERS = 6307200"
definition RENEWAL_OPEN_LEDGERS_BEFORE_EXPIRY :: int where "RENEWAL_OPEN_LEDGERS_BEFORE_EXPIRY = 120960"
definition RENEWAL_GRACE_LEDGERS_AFTER_EXPIRY :: int where "RENEWAL_GRACE_LEDGERS_AFTER_EXPIRY = 17280"
definition BLOCKING_CLAIM_STATUSES :: "claim_status list" where "BLOCKING_CLAIM_STATUSES = [PENDING]"
definition MAX_I128 :: int where "MAX_I128 = 170141183460469231731687303715884105727"

record renewal_dto =
  dto_holder :: string
  dto_policy_id :: int
  dto_age :: int
  dto_risk_score :: int
  dto_asset :: "string option"
  dto_duration_ledgers :: "int option"

record simulate_args =
  sa_policyType :: string
  sa_region :: string
  sa_age :: int
  sa_riskScore :: int
  sa_sourceAccount :: string

record renew_args =
  ra_holder :: string
  ra_policyId :: int
  ra_policyType :: string
  ra_region :: string
  ra_age :: int
  ra_riskScore :: int
  ra_asset :: "string option"
  ra_newStartLedger :: int
  ra_newEndLedger :: int

record premium_result =
  pr_premiumStroops :: string
  pr_premiumXlm :: string
  pr_source :: string

record tx_result = premium_result +
  tx_unsigned :: string

record soroban =
  so_latestLedger :: "int option"
  so_simulateGeneratePremium :: "simulate_args \<Rightarrow> premium_result option"
  so_buildRenewPolicyTransaction :: "renew_args \<Rightarrow> tx_result option"

datatype renewal_error = POLICY_NOT_FOUND | POLICY_INACTIVE | RENEWAL_TOO_EARLY | RENEWAL_TOO_LATE
  | OPEN_CLAIM_BLOCKS_RENEWAL | PREMIUM_OVERFLOW | SorobanError | BadPremium

record quote_response =
  qr_premiumStroops :: string
  qr_premiumXlm :: string
  qr_previousEndLedger :: int
  qr_newEndLedger :: int
  qr_currentLedger :: int
  qr_windowOpenLedger :: int
  qr_windowCloseLedger :: int
  qr_premiumSource :: string

record build_response = quote_response +
  br_unsigned :: string

record renewal_record =
  pn_policyCompositeId :: string
  pn_holderAddress :: string
  pn_policyType :: string
  pn_region :: string
  pn_previousEndLedger :: int
  pn_newEndLedger :: int
  pn_premiumPaidStroops :: string

record renewed_event =
  rv_policyCompositeId :: string
  rv_holderAddress :: string
  rv_policyId :: int
  rv_previousEndLedger :: int
  rv_newEndLedger :: int
  rv_premiumPaidStroops :: string
  rv_renewalRequestedAtLedger :: int

record renewal_state =
  rn_db :: claims_db
  rn_renewals :: "renewal_record list"
  rn_bus :: "renewed_event list"

section \<open>Operations\<close>

definition compositeId :: "renewal_dto \<Rightarrow> string" where
  "compositeId dto = dto_holder dto @ '':'' @ show_int (dto_policy_id dto)"

definition policy_claims :: "claims_db \<Rightarrow> string \<Rightarrow> claim_row list" where
  "policy_claims db pid = map snd (findMany (\<lambda>_ c. cl_policyId c = pid \<and> \<not> cl_deleted c) (db_claim db))"

definition validateRenewalEligibility ::
  "soroban \<Rightarrow> claims_db \<Rightarrow> renewal_dto \<Rightarrow> renewal_error + policy_row \<times> int" where
  "validateRenewalEligibility so db dto =
     (case findUnique (db_policy db) (compositeId dto) of
        None \<Rightarrow> Inl POLICY_NOT_FOUND
      | Some policy \<Rightarrow>
          if p_deleted policy then Inl POLICY_NOT_FOUND
          else if \<not> p_isActive policy then Inl POLICY_INACTIVE
          else case so_latestLedger so of None \<Rightarrow> Inl SorobanError
          | Some currentLedger \<Rightarrow>
              let windowOpen = p_endLedger policy - RENEWAL_OPEN_LEDGERS_BEFORE_EXPIRY;
                  windowClose = p_endLedger policy + RENEWAL_GRACE_LEDGERS_AFTER_EXPIRY
              in if currentLedger < windowOpen then Inl RENEWAL_TOO_EARLY
                 else if currentLedger \<ge> windowClose then Inl RENEWAL_TOO_LATE
                 else if find (\<lambda>c. cl_status c \<in> set BLOCKING_CLAIM_STATUSES) (policy_claims db (compositeId dto)) \<noteq> None
                 then Inl OPEN_CLAIM_BLOCKS_RENEWAL
                 else Inr (policy, currentLedger))"

definition quoteRenewal :: "soroban \<Rightarrow> claims_db \<Rightarrow> renewal_dto \<Rightarrow> renewal_error + quote_response" where
  "quoteRenewal so db dto =
     (case validateRenewalEligibility so db dto of
        Inl e \<Rightarrow> Inl e
      | Inr (policy, currentLedger) \<Rightarrow>
          (case so_simulateGeneratePremium so \<lparr>sa_policyType = p_policyType policy, sa_region = p_region policy,
                  sa_age = dto_age dto, sa_riskScore = dto_risk_score dto, sa_sourceAccount = dto_holder dto\<rparr> of
             None \<Rightarrow> Inl SorobanError
           | Some premiumResult \<Rightarrow>
               Inr \<lparr>qr_premiumStroops = pr_premiumStroops premiumResult, qr_premiumXlm = pr_premiumXlm premiumResult,
                    qr_previousEndLedger = p_endLedger policy,
                    qr_newEndLedger = p_endLedger policy +
                      (case dto_duration_ledgers dto of Some d \<Rightarrow> d | None \<Rightarrow> POLICY_DURATION_LEDGERS),
                    qr_currentLedger = currentLedger,
                    qr_windowOpenLedger = p_endLedger policy - RENEWAL_OPEN_LEDGERS_BEFORE_EXPIRY,
                    qr_windowCloseLedger = p_endLedger policy + RENEWAL_GRACE_LEDGERS_AFTER_EXPIRY,
                    qr_premiumSource = pr_source premiumResult\<rparr>))"

definition renewal_args :: "renewal_dto \<Rightarrow> policy_row \<Rightarrow> renew_args" where
  "renewal_args dto policy =
     (let durationLedgers = (case dto_duration_ledgers dto of Some d \<Rightarrow> d | None \<Rightarrow> POLICY_DURATION_LEDGERS);
          newStartLedger = p_endLedger policy + 1;
          newEndLedger = newStartLedger + durationLedgers - 1
      in \<lparr>ra_holder = dto_holder dto, ra_policyId = p_policyId policy, ra_policyType = p_policyType policy,
          ra_region = p_region policy, ra_age = dto_age dto, ra_riskScore = dto_risk_score dto,
          ra_asset = (case dto_asset dto of Some a \<Rightarrow> Some a | None \<Rightarrow> p_assetContractId policy),
          ra_newStartLedger = newStartLedger, ra_newEndLedger = newEndLedger\<rparr>)"

definition buildRenewalTransaction ::
  "soroban \<Rightarrow> renewal_dto \<Rightarrow> renewal_state \<Rightarrow> (renewal_error + build_response) \<times> renewal_state" where
  "buildRenewalTransaction so dto st =
     (case validateRenewalEligibility so (rn_db st) dto of
        Inl e \<Rightarrow> (Inl e, st)
      | Inr (policy, currentLedger) \<Rightarrow>
          let args = renewal_args dto policy; newEndLedger = ra_newEndLedger args in
          (case so_buildRenewPolicyTransaction so args of
             None \<Rightarrow> (Inl SorobanError, st)
           | Some txResult \<Rightarrow>
               (case (js_BigInt (p_premium policy), js_BigInt (pr_premiumStroops txResult)) of
                  (Some existingPremium, Some renewalPremium) \<Rightarrow>
                    if existingPremium + renewalPremium > MAX_I128 then (Inl PREMIUM_OVERFLOW, st)
                    else
                      let st1 = st\<lparr>rn_renewals := rn_renewals st @
                            [\<lparr>pn_policyCompositeId = compositeId dto, pn_holderAddress = dto_holder dto,
                              pn_policyType = p_policyType policy, pn_region = p_region policy,
                              pn_previousEndLedger = p_endLedger policy, pn_newEndLedger = newEndLedger,
                              pn_premiumPaidStroops = pr_premiumStroops txResult\<rparr>]\<rparr>;
                          st2 = st1\<lparr>rn_bus := rn_bus st1 @
                            [\<lparr>rv_policyCompositeId = compositeId dto, rv_holderAddress = dto_holder dto,
                              rv_policyId = p_policyId policy, rv_previousEndLedger = p_endLedger policy,
                              rv_newEndLedger = newEndLedger, rv_premiumPaidStroops = pr_premiumStroops txResult,
                              rv_renewalRequestedAtLedger = currentLedger\<rparr>]\<rparr>
                      in (Inr \<lparr>qr_premiumStroops = pr_premiumStroops txResult, qr_premiumXlm = pr_premiumXlm txResult,
                            qr_previousEndLedger = p_endLedger policy, qr_newEndLedger = newEndLedger,
                            qr_currentLedger = currentLedger,
                            qr_windowOpenLedger = p_endLedger policy - RENEWAL_OPEN_LEDGERS_BEFORE_EXPIRY,
                            qr_windowCloseLedger = p_endLedger policy + RENEWAL_GRACE_LEDGERS_AFTER_EXPIRY,
                            qr_premiumSource = pr_source txResult, br_unsigned = tx_unsigned txResult\<rparr>, st2)
                | _ \<Rightarrow> (Inl BadPremium, st))))"

section \<open>Properties\<close>

definition open_claim :: "claims_db \<Rightarrow> string \<Rightarrow> bool" where
  "open_claim db pid = list_ex (\<lambda>(_, c). cl_policyId c = pid \<and> \<not> cl_deleted c \<and> cl_status c = PENDING) (db_claim db)"

lemma blocking_iff:
  "find (\<lambda>c. cl_status c \<in> set BLOCKING_CLAIM_STATUSES) (policy_claims db pid) \<noteq> None \<longleftrightarrow> open_claim db pid"
  by (auto simp: find_None_iff2 [symmetric] find_None_iff policy_claims_def findMany_def open_claim_def
      list_ex_iff BLOCKING_CLAIM_STATUSES_def)

lemma eligible_iff:
  "validateRenewalEligibility so db dto = Inr (policy, l) \<longleftrightarrow>
     findUnique (db_policy db) (compositeId dto) = Some policy \<and> \<not> p_deleted policy \<and> p_isActive policy \<and>
     so_latestLedger so = Some l \<and>
     p_endLedger policy - RENEWAL_OPEN_LEDGERS_BEFORE_EXPIRY \<le> l \<and>
     l < p_endLedger policy + RENEWAL_GRACE_LEDGERS_AFTER_EXPIRY \<and> \<not> open_claim db (compositeId dto)"
  unfolding validateRenewalEligibility_def blocking_iff Let_def
  by (auto split: option.splits if_splits)

text \<open>A renewal is allowed exactly in its window: eligibility succeeds with the current ledger \<open>l\<close>
  if and only if the policy exists and is active, \<open>l\<close> is the node's latest ledger and lies in the
  half-open interval from 120960 ledgers before the policy's end to 17280 after it, and no claim of
  the policy that is not deleted is pending.\<close>

theorem renewal_window_exact:
  "validateRenewalEligibility so db dto = Inr (policy, l) \<longleftrightarrow>
     findUnique (db_policy db) (dto_holder dto @ '':'' @ show_int (dto_policy_id dto)) = Some policy \<and>
     \<not> p_deleted policy \<and> p_isActive policy \<and> so_latestLedger so = Some l \<and>
     l \<in> {p_endLedger policy - 120960 ..< p_endLedger policy + 17280} \<and>
     \<not> open_claim db (dto_holder dto @ '':'' @ show_int (dto_policy_id dto))"
  by (auto simp: eligible_iff compositeId_def RENEWAL_OPEN_LEDGERS_BEFORE_EXPIRY_def
      RENEWAL_GRACE_LEDGERS_AFTER_EXPIRY_def)

text \<open>Building a renewal is all or nothing and agrees with the quote: a failed build writes no
  record and emits no event; a successful one writes exactly one record and emits exactly one event
  for the same policy, term and premium, the new term starts right after the old one, the sum of the
  premiums fits an i128, and any quote for the same request gives the same end of term and window.\<close>

theorem renewal_build_once:
  "case buildRenewalTransaction so dto st of
     (Inl _, st') \<Rightarrow> st' = st
   | (Inr res, st') \<Rightarrow>
       (\<exists>policy rec ev. findUnique (db_policy (rn_db st)) (compositeId dto) = Some policy \<and>
          rn_db st' = rn_db st \<and> rn_renewals st' = rn_renewals st @ [rec] \<and> rn_bus st' = rn_bus st @ [ev] \<and>
          pn_policyCompositeId rec = rv_policyCompositeId ev \<and> pn_newEndLedger rec = qr_newEndLedger res \<and>
          rv_newEndLedger ev = qr_newEndLedger res \<and> pn_premiumPaidStroops rec = qr_premiumStroops res \<and>
          rv_premiumPaidStroops ev = qr_premiumStroops res \<and>
          ra_newStartLedger (renewal_args dto policy) = p_endLedger policy + 1 \<and>
          ra_newEndLedger (renewal_args dto policy) = qr_newEndLedger res \<and>
          the (js_BigInt (p_premium policy)) + the (js_BigInt (qr_premiumStroops res)) \<le> MAX_I128) \<and>
       (case quoteRenewal so (rn_db st) dto of
          Inl e \<Rightarrow> e = SorobanError
        | Inr q \<Rightarrow> qr_newEndLedger q = qr_newEndLedger res \<and> qr_windowOpenLedger q = qr_windowOpenLedger res \<and>
            qr_windowCloseLedger q = qr_windowCloseLedger res \<and> qr_currentLedger q = qr_currentLedger res)"
proof (cases "validateRenewalEligibility so (rn_db st) dto")
  case (Inl e)
  then show ?thesis by (simp add: buildRenewalTransaction_def)
next
  case (Inr pl)
  obtain policy l where pl: "pl = (policy, l)" by fastforce
  note el = Inr [unfolded pl eligible_iff]
  show ?thesis
  proof (cases "so_buildRenewPolicyTransaction so (renewal_args dto policy)")
    case None
    then show ?thesis using Inr pl by (simp add: buildRenewalTransaction_def Let_def)
  next
    case (Some tx)
    show ?thesis
    proof (cases "js_BigInt (p_premium policy) = None \<or> js_BigInt (pr_premiumStroops tx) = None")
      case True
      then show ?thesis using Inr pl Some by (auto simp: buildRenewalTransaction_def Let_def split: option.splits)
    next
      case False
      then obtain a b where "js_BigInt (p_premium policy) = Some a" "js_BigInt (pr_premiumStroops tx) = Some b" by auto
      then show ?thesis using Inr pl Some el
        by (simp add: buildRenewalTransaction_def quoteRenewal_def renewal_args_def Let_def split: option.split)
    qed
  qed
qed

end
