(* ===== verification/Ssrf.thy ===== *)
theory Ssrf
  imports Js_Prelude "HOL-Library.Word"
begin

unbundle bit_operations_syntax

text \<open>
  \<open>src/backend/src/webhooks/ssrf.ts\<close>: which addresses an outbound webhook may be sent to. The URL
  parser of the runtime is the parameter \<open>parse_url\<close> (\<open>None\<close> where \<open>new URL\<close> throws) and the DNS
  lookup the parameter \<open>lookup\<close> (\<open>None\<close> where it rejects).
\<close>

section \<open>IPv4\<close>

definition octet_text :: "string \<Rightarrow> bool" where
  "octet_text s = (1 \<le> length s \<and> length s \<le> 3 \<and> list_all is_digit s)"

definition parseIpv4 :: "string \<Rightarrow> nat list option" where
  "parseIpv4 ip =
     (let parts = split_on (CHR ''.'') ip in
      if length parts \<noteq> 4 then None
      else if list_all (\<lambda>p. octet_text p \<and> digits_val p \<le> 255) parts then Some (map digits_val parts)
      else None)"

definition isBlockedIpv4 :: "string \<Rightarrow> bool" where
  "isBlockedIpv4 ip =
     (case parseIpv4 ip of
        Some (a # b # _) \<Rightarrow>
          a = 0 \<or> a = 10 \<or> a = 127 \<or> (a = 169 \<and> b = 254) \<or> (a = 172 \<and> b \<ge> 16 \<and> b \<le> 31) \<or>
          (a = 192 \<and> b = 168) \<or> (a = 192 \<and> b = 0) \<or> (a = 100 \<and> b \<ge> 64 \<and> b \<le> 127) \<or>
          (a = 198 \<and> (b = 18 \<or> b = 19)) \<or> (a = 198 \<and> b = 51) \<or> (a = 203 \<and> b = 0) \<or> a \<ge> 224
      | _ \<Rightarrow> False)"

section \<open>IPv6\<close>

text \<open>\<open>n.toString(16)\<close>, \<open>s.slice(0, s.lastIndexOf(c) + 1)\<close> and \<open>s.slice(s.lastIndexOf(c) + 1)\<close>.\<close>

definition hex_digit :: "nat \<Rightarrow> char" where
  "hex_digit d = char_of (if d < 10 then 48 + d else 87 + d)"

fun show_hex :: "nat \<Rightarrow> string" where
  "show_hex n = (if n < 16 then [hex_digit n] else show_hex (n div 16) @ [hex_digit (n mod 16)])"

declare show_hex.simps [simp del]

definition after_last :: "char \<Rightarrow> string \<Rightarrow> string" where
  "after_last c s = rev (takeWhile (\<lambda>x. x \<noteq> c) (rev s))"

definition upto_last :: "char \<Rightarrow> string \<Rightarrow> string" where
  "upto_last c s = rev (dropWhile (\<lambda>x. x \<noteq> c) (rev s))"

text \<open>\<open>s.split('::')\<close>.\<close>

fun split_dcolon :: "string \<Rightarrow> string list" where
  "split_dcolon [] = [[]]"
| "split_dcolon [x] = [[x]]"
| "split_dcolon (x # y # s) =
     (if x = CHR '':'' \<and> y = CHR '':'' then [] # split_dcolon s
      else case split_dcolon (y # s) of [] \<Rightarrow> [[x]] | w # ws \<Rightarrow> (x # w) # ws)"

definition toGroups :: "string \<Rightarrow> nat list option" where
  "toGroups s =
     (if s = [] then Some []
      else let grps = split_on (CHR '':'') s in
        if list_all (\<lambda>g. 1 \<le> length g \<and> length g \<le> 4 \<and> list_all is_hex g) grps
        then Some (map (radix_val 16) grps) else None)"

definition expand_tail :: "string \<Rightarrow> string option" where
  "expand_tail addr =
     (if CHR ''.'' \<notin> set addr then Some addr
      else case parseIpv4 (after_last (CHR '':'') addr) of
        Some [o0, o1, o2, o3] \<Rightarrow>
          Some (upto_last (CHR '':'') addr @ show_hex (push_bit 8 o0 OR o1) @ '':'' @ show_hex (push_bit 8 o2 OR o3))
      | _ \<Rightarrow> None)"

definition expandIpv6 :: "string \<Rightarrow> nat list option" where
  "expandIpv6 ip =
     (case expand_tail (hd (split_on (CHR ''%'') ip)) of None \<Rightarrow> None
      | Some addr \<Rightarrow>
        (case split_dcolon addr of
           [whole] \<Rightarrow> (case toGroups whole of
              Some groups \<Rightarrow> if length groups = 8 then Some groups else None | None \<Rightarrow> None)
         | [l, r] \<Rightarrow>
             (case (toGroups l, toGroups r) of
                (Some head, Some tail) \<Rightarrow>
                  if length head + length tail > 8 then None
                  else Some (head @ replicate (8 - length head - length tail) 0 @ tail)
              | _ \<Rightarrow> None)
         | _ \<Rightarrow> None))"

definition dotted :: "nat list \<Rightarrow> string" where
  "dotted os = join_with ''.'' (map show_nat os)"

definition isBlockedIpv6 :: "string \<Rightarrow> bool" where
  "isBlockedIpv6 ip =
     (case expandIpv6 ip of None \<Rightarrow> False
      | Some groups \<Rightarrow>
          let isZero = (\<lambda>from to. list_all (\<lambda>g. g = 0) (take (to + 1 - from) (drop from groups)));
              head = groups ! 0; hi = groups ! 6; lo = groups ! 7
          in isZero 0 7 \<or> (isZero 0 6 \<and> groups ! 7 = 1) \<or>
             (isZero 0 4 \<and> groups ! 5 = 0xffff \<and>
              isBlockedIpv4 (dotted [drop_bit 8 hi AND 0xff, hi AND 0xff, drop_bit 8 lo AND 0xff, lo AND 0xff])) \<or>
             head AND 0xfe00 = 0xfc00 \<or> head AND 0xffc0 = 0xfe80 \<or> head AND 0xff00 = 0xff00)"

text \<open>\<open>s.replace(/^\[|\]$/g, '')\<close>.\<close>

definition strip_brackets :: "string \<Rightarrow> string" where
  "strip_brackets s =
     (let t = (if s \<noteq> [] \<and> hd s = CHR ''['' then tl s else s)
      in if t \<noteq> [] \<and> last t = CHR '']'' then butlast t else t)"

definition isBlockedIp :: "string \<Rightarrow> bool" where
  "isBlockedIp ip =
     (let trimmed = strip_brackets (trim ip) in
      if parseIpv4 trimmed \<noteq> None then isBlockedIpv4 trimmed else isBlockedIpv6 trimmed)"

section \<open>URLs\<close>

record url =
  url_protocol :: string
  url_username :: string
  url_password :: string
  url_hostname :: string

datatype ssrf_reason = EmptyUrl | MalformedUrl | NotHttps | Credentials | MissingHost
  | NotResolvable | BlockedAddress | NoAddresses | DnsFailed

definition assertSafeWebhookUrl :: "(string \<Rightarrow> url option) \<Rightarrow> string \<Rightarrow> ssrf_reason + url" where
  "assertSafeWebhookUrl parse_url rawUrl =
     (if trim rawUrl = [] then Inl EmptyUrl
      else case parse_url rawUrl of None \<Rightarrow> Inl MalformedUrl
      | Some url \<Rightarrow>
          if url_protocol url \<noteq> ''https:'' then Inl NotHttps
          else if url_username url \<noteq> [] \<or> url_password url \<noteq> [] then Inl Credentials
          else if url_hostname url = [] then Inl MissingHost
          else let host = to_lower (strip_brackets (url_hostname url)) in
            if host = ''localhost'' \<or> ends_with ''.localhost'' host \<or> ends_with ''.local'' host
            then Inl NotResolvable
            else if \<not> starts_with ''0x'' host \<and> host \<noteq> [] \<and> isBlockedIp host then Inl BlockedAddress
            else Inr url)"

definition assertSafeResolvedAddresses :: "string list \<Rightarrow> ssrf_reason + unit" where
  "assertSafeResolvedAddresses addresses =
     (if addresses = [] then Inl NoAddresses
      else if list_ex isBlockedIp addresses then Inl BlockedAddress
      else Inr ())"

definition assertSafeWebhookUrlResolved ::
  "(string \<Rightarrow> url option) \<Rightarrow> (string \<Rightarrow> string list option) \<Rightarrow> string \<Rightarrow> ssrf_reason + url" where
  "assertSafeWebhookUrlResolved parse_url lookup rawUrl =
     (case assertSafeWebhookUrl parse_url rawUrl of Inl e \<Rightarrow> Inl e
      | Inr url \<Rightarrow>
          let host = strip_brackets (url_hostname url) in
          if isBlockedIp host \<or> (CHR ''.'' \<notin> set host \<and> CHR '':'' \<notin> set host) then Inl NotResolvable
          else if parseIpv4 host \<noteq> None \<or> CHR '':'' \<in> set host then Inr url
          else case lookup host of None \<Rightarrow> Inl DnsFailed
          | Some addresses \<Rightarrow>
              (case assertSafeResolvedAddresses addresses of Inl e \<Rightarrow> Inl e | Inr _ \<Rightarrow> Inr url))"

section \<open>Reference: address blocks\<close>

type_synonym ipv4 = "32 word"

definition ipv4_of :: "nat list \<Rightarrow> ipv4" where
  "ipv4_of os = word_of_nat (foldl (\<lambda>n d. 256 * n + d) 0 os)"

definition in_block :: "ipv4 \<Rightarrow> ipv4 \<times> nat \<Rightarrow> bool" where
  "in_block w blk = (case blk of (base, len) \<Rightarrow> drop_bit (32 - len) w = drop_bit (32 - len) base)"

text \<open>The blocks the code refuses: the second octet decides in 192.0, 198.51 and 203.0, which makes
  them /16 blocks, and the multicast test also covers the reserved block above it.\<close>

definition blocked_blocks :: "(ipv4 \<times> nat) list" where
  "blocked_blocks =
    [(ipv4_of [0, 0, 0, 0], 8), (ipv4_of [10, 0, 0, 0], 8), (ipv4_of [127, 0, 0, 0], 8),
     (ipv4_of [169, 254, 0, 0], 16), (ipv4_of [172, 16, 0, 0], 12), (ipv4_of [192, 168, 0, 0], 16),
     (ipv4_of [192, 0, 0, 0], 16), (ipv4_of [100, 64, 0, 0], 10), (ipv4_of [198, 18, 0, 0], 15),
     (ipv4_of [198, 51, 0, 0], 16), (ipv4_of [203, 0, 0, 0], 16), (ipv4_of [224, 0, 0, 0], 3)]"

text \<open>An IPv6 address as the number its eight groups spell, and the ranges the code refuses: the
  unspecified and the loopback address, the IPv4-mapped forms of the blocks above, and the prefixes
  \<open>fc00::/7\<close>, \<open>fe80::/10\<close> and \<open>ff00::/8\<close>.\<close>

definition ipv6_value :: "nat list \<Rightarrow> nat" where
  "ipv6_value gs = foldl (\<lambda>n g. 65536 * n + g) 0 gs"

definition refused_ipv6 :: "nat \<Rightarrow> bool" where
  "refused_ipv6 v \<longleftrightarrow>
     v = 0 \<or> v = 1 \<or> (v div 2 ^ 32 = 0xffff \<and> list_ex (in_block (word_of_nat (v mod 2 ^ 32))) blocked_blocks) \<or>
     v div 2 ^ 121 = 0x7e \<or> v div 2 ^ 118 = 0x3fa \<or> v div 2 ^ 120 = 0xff"

text \<open>An address text, read as IPv4 first and as IPv6 otherwise, that names an address of those ranges.\<close>

definition refused_address :: "string \<Rightarrow> bool" where
  "refused_address x =
     (case parseIpv4 x of
        Some os \<Rightarrow> list_ex (in_block (ipv4_of os)) blocked_blocks
      | None \<Rightarrow> (case expandIpv6 x of Some gs \<Rightarrow> refused_ipv6 (ipv6_value gs) | None \<Rightarrow> False))"

text \<open>Where a request to the URL goes: to the host when it is written as an address, to what the
  lookup answers otherwise.\<close>

definition destinations :: "(string \<Rightarrow> string list option) \<Rightarrow> url \<Rightarrow> string list" where
  "destinations lookup url =
     (let host = strip_brackets (url_hostname url) in
      if parseIpv4 host \<noteq> None \<or> CHR '':'' \<in> set host then [host]
      else case lookup host of None \<Rightarrow> [] | Some addresses \<Rightarrow> addresses)"

section \<open>Lemmas\<close>

lemma length_show_nat: "n < 1000 \<Longrightarrow> length (show_nat n) \<le> 3"
  by (simp add: show_nat.simps [of n] show_nat.simps [of "n div 10"] show_nat.simps [of "n div 100"]
      div_mult2_eq [symmetric])

lemma octet_show [simp]: "n \<le> 255 \<Longrightarrow> octet_text (show_nat n)"
  using length_show_nat [of n] show_nat_nonempty [of n]
  by (auto simp: octet_text_def show_nat_digits Suc_le_eq simp del: show_nat_nonempty)

lemma show_nat_no_char: "\<not> is_digit c \<Longrightarrow> c \<notin> set (show_nat n)"
  using show_nat_digits [of n] by (auto simp: list_all_iff)

lemma show_nat_no_sep [simp]: "CHR ''.'' \<notin> set (show_nat n)" "CHR '':'' \<notin> set (show_nat n)" "CHR ''%'' \<notin> set (show_nat n)"
  by (intro show_nat_no_char; simp add: is_digit_def)+

lemma parseIpv4_dotted:
  "\<lbrakk>a \<le> 255; b \<le> 255; c \<le> 255; d \<le> 255\<rbrakk> \<Longrightarrow> parseIpv4 (dotted [a, b, c, d]) = Some [a, b, c, d]"
  by (simp add: parseIpv4_def dotted_def split_on_append split_on_no_sep)

lemma ipv4_value:
  assumes "a \<le> 255" "b \<le> 255" "c \<le> 255" "d \<le> 255"
  shows "unat (ipv4_of [a, b, c, d]) = ((a * 256 + b) * 256 + c) * 256 + d"
proof -
  have "((a * 256 + b) * 256 + c) * 256 + d < 2 ^ 32" using assms by simp
  then have "unat (word_of_nat (((a * 256 + b) * 256 + c) * 256 + d) :: ipv4) = ((a * 256 + b) * 256 + c) * 256 + d"
    by (subst unat_of_nat) simp
  moreover have "foldl (\<lambda>n d. 256 * n + d) 0 [a, b, c, d] = ((a * 256 + b) * 256 + c) * 256 + d" by simp
  ultimately show ?thesis unfolding ipv4_of_def by (simp only:)
qed

lemma in_block_div: "in_block w (base, len) \<longleftrightarrow> unat w div 2 ^ (32 - len) = unat base div 2 ^ (32 - len)"
proof -
  have "unat (drop_bit k x) = unat x div 2 ^ k" for k and x :: ipv4
    unfolding unat_drop_bit_eq by (rule drop_bit_eq_div)
  then show ?thesis by (simp only: in_block_def word_unat_eq_iff case_prod_conv)
qed

lemma block_cases:
  fixes a :: nat
  assumes "b \<le> 255" "c \<le> 255" "d \<le> (255 :: nat)"
  defines "n \<equiv> ((a * 256 + b) * 256 + c) * 256 + d"
  shows "n div 16777216 = a" "n div 65536 = a * 256 + b" "n div 1048576 = (a * 256 + b) div 16"
    "n div 4194304 = (a * 256 + b) div 64" "n div 131072 = (a * 256 + b) div 2" "n div 536870912 = a div 32"
proof -
  have q: "(x * 256 + y) div 256 = x" if "y \<le> 255" for x y :: nat using that by simp
  have "n div 256 = (a * 256 + b) * 256 + c" unfolding n_def using q [OF assms(3)] .
  then have "n div 256 div 256 = a * 256 + b" using q [OF assms(2)] by simp
  then have h: "n div 65536 = a * 256 + b" by (simp add: div_mult2_eq [symmetric])
  have m: "n div (65536 * k) = (a * 256 + b) div k" for k by (simp only: div_mult2_eq h)
  show "n div 65536 = a * 256 + b" by (rule h)
  show "n div 16777216 = a" using m [of 256] q [OF assms(1), of a] by simp
  show "n div 1048576 = (a * 256 + b) div 16" "n div 4194304 = (a * 256 + b) div 64" "n div 131072 = (a * 256 + b) div 2"
    using m [of 16] m [of 64] m [of 2] by simp_all
  have "(a * 256 + b) div (256 * 32) = a div 32" by (simp only: div_mult2_eq q [OF assms(1)])
  then show "n div 536870912 = a div 32" using m [of 8192] by simp
qed

lemma radix_eq: "q < k \<Longrightarrow> x * k + q = n \<longleftrightarrow> x = n div k \<and> q = n mod (k :: nat)"
  by (metis add.commute div_mult_self1_is_m div_mult_mod_eq div_mult_self1 mod_less mod_mult_self1 div_less add_0
      not_less_zero)

lemma octet_arith:
  fixes x y :: nat
  assumes "x \<le> 255" "y \<le> 255"
  shows "x * 256 + y = 43518 \<longleftrightarrow> x = 169 \<and> y = 254"
    "(x * 256 + y) div 16 = 2753 \<longleftrightarrow> x = 172 \<and> y \<ge> 16 \<and> y \<le> 31"
    "x * 256 + y = 49320 \<longleftrightarrow> x = 192 \<and> y = 168"
    "x * 256 + y = 49152 \<longleftrightarrow> x = 192 \<and> y = 0"
    "(x * 256 + y) div 64 = 401 \<longleftrightarrow> x = 100 \<and> y \<ge> 64 \<and> y \<le> 127"
    "(x * 256 + y) div 2 = 25353 \<longleftrightarrow> x = 198 \<and> (y = 18 \<or> y = 19)"
    "x * 256 + y = 50739 \<longleftrightarrow> x = 198 \<and> y = 51"
    "x * 256 + y = 51968 \<longleftrightarrow> x = 203 \<and> y = 0"
    "x div 32 = 7 \<longleftrightarrow> x \<ge> 224"
proof -
  show "x * 256 + y = 43518 \<longleftrightarrow> x = 169 \<and> y = 254"
    "x * 256 + y = 49320 \<longleftrightarrow> x = 192 \<and> y = 168"
    "x * 256 + y = 49152 \<longleftrightarrow> x = 192 \<and> y = 0"
    "x * 256 + y = 50739 \<longleftrightarrow> x = 198 \<and> y = 51"
    "x * 256 + y = 51968 \<longleftrightarrow> x = 203 \<and> y = 0"
    using assms by (subst radix_eq; auto)+
  have "(x * 256 + y) div 16 = x * 16 + y div 16" by simp
  moreover have "x * 16 + y div 16 = 2753 \<longleftrightarrow> x = 172 \<and> y div 16 = 1" using assms by (subst radix_eq) auto
  ultimately show "(x * 256 + y) div 16 = 2753 \<longleftrightarrow> x = 172 \<and> y \<ge> 16 \<and> y \<le> 31" by auto
  have "(x * 256 + y) div 64 = x * 4 + y div 64" by simp
  moreover have "x * 4 + y div 64 = 401 \<longleftrightarrow> x = 100 \<and> y div 64 = 1" using assms by (subst radix_eq) auto
  ultimately show "(x * 256 + y) div 64 = 401 \<longleftrightarrow> x = 100 \<and> y \<ge> 64 \<and> y \<le> 127" by auto
  have "(x * 256 + y) div 2 = x * 128 + y div 2" by simp
  moreover have "x * 128 + y div 2 = 25353 \<longleftrightarrow> x = 198 \<and> y div 2 = 9" using assms by (subst radix_eq) auto
  ultimately show "(x * 256 + y) div 2 = 25353 \<longleftrightarrow> x = 198 \<and> (y = 18 \<or> y = 19)" by auto
  show "x div 32 = 7 \<longleftrightarrow> x \<ge> 224" using assms by auto
qed

lemma in_blocks_div:
  "list_ex (in_block w) blocked_blocks \<longleftrightarrow>
     (unat w div 16777216 = 0 \<or> unat w div 16777216 = 10 \<or> unat w div 16777216 = 127 \<or>
      unat w div 65536 = 43518 \<or> unat w div 1048576 = 2753 \<or> unat w div 65536 = 49320 \<or>
      unat w div 65536 = 49152 \<or> unat w div 4194304 = 401 \<or> unat w div 131072 = 25353 \<or>
      unat w div 65536 = 50739 \<or> unat w div 65536 = 51968 \<or> unat w div 536870912 = 7)"
  by (simp add: blocked_blocks_def in_block_div ipv4_value)

text \<open>The IPv4 check is a block list: an address text is refused exactly when the 32-bit address
  lies in one of the twelve listed blocks.\<close>

lemma parseIpv4_octets:
  assumes "parseIpv4 x = Some os"
  obtains a b c d where "os = [a, b, c, d]" "a \<le> 255" "b \<le> 255" "c \<le> 255" "d \<le> 255"
proof -
  have "length os = 4" "list_all (\<lambda>n. n \<le> 255) os"
    using assms by (auto simp: parseIpv4_def Let_def list_all_iff split: if_splits)
  then show ?thesis using that by (auto simp: numeral_eq_Suc length_Suc_conv)
qed

lemma blocked_ipv4_is_blocks:
  assumes "parseIpv4 x = Some os"
  shows "isBlockedIpv4 x \<longleftrightarrow> list_ex (in_block (ipv4_of os)) blocked_blocks"
proof -
  obtain a b c d where os: "os = [a, b, c, d]" and le: "a \<le> 255" "b \<le> 255" "c \<le> 255" "d \<le> 255"
    using parseIpv4_octets [OF assms] .
  note v = ipv4_value [OF le] and bl = block_cases [OF le(2-4), of a]
  note eqs = octet_arith [OF le(1,2)]
  show ?thesis
    using assms unfolding os in_blocks_div isBlockedIpv4_def bl [folded v] eqs by auto
qed

section \<open>IPv4-mapped addresses\<close>

lemma hex_digit_props:
  assumes "d < 16"
  shows "is_hex (hex_digit d) \<and> hex_val (hex_digit d) = d \<and> hex_digit d \<noteq> CHR '':''"
proof -
  have "of_char (hex_digit d) = (if d < 10 then 48 + d else 87 + d :: nat)"
    using assms by (simp add: hex_digit_def)
  then have "is_hex (hex_digit d) \<and> hex_val (hex_digit d) = d"
    using assms by (auto simp: is_hex_def hex_val_def Let_def)
  moreover have "\<not> is_hex (CHR '':'')" by (simp add: is_hex_def)
  ultimately show ?thesis by metis
qed

lemma show_hex_props: "list_all is_hex (show_hex n) \<and> radix_val 16 (show_hex n) = n \<and> CHR '':'' \<notin> set (show_hex n) \<and> show_hex n \<noteq> []"
proof (induction n rule: show_hex.induct)
  case (1 n)
  show ?case
  proof (cases "n < 16")
    case True
    then show ?thesis using hex_digit_props [of n] by (auto simp: show_hex.simps [of n] radix_val_def)
  next
    case False
    then show ?thesis using 1 hex_digit_props [of "n mod 16"]
      by (auto simp: show_hex.simps [of n] radix_val_def)
  qed
qed

lemma length_show_hex: "n < 65536 \<Longrightarrow> length (show_hex n) \<le> 4"
proof -
  have "length (show_hex m) \<le> Suc k" if "m < 16 ^ Suc k" for m k
    using that
  proof (induction k arbitrary: m)
    case (Suc k)
    then have "length (show_hex (m div 16)) \<le> Suc k" by (simp add: less_mult_imp_div_less mult.commute)
    then show ?case by (simp add: show_hex.simps [of m])
  qed (simp add: show_hex.simps)
  from this [of n 3] show "n < 65536 \<Longrightarrow> length (show_hex n) \<le> 4" by simp
qed

lemma pair_value: "b \<le> 255 \<Longrightarrow> push_bit 8 a OR b = a * 256 + (b :: nat)"
proof -
  assume "b \<le> 255"
  then have "take_bit 8 b = b" by (simp add: take_bit_nat_eq_self)
  then have "\<not> bit b n" if "8 \<le> n" for n using that by (metis bit_take_bit_iff leD)
  then have "push_bit 8 a OR b = push_bit 8 a + b"
    by (intro disjunctive_add [symmetric]) (auto simp: bit_push_bit_iff)
  then show ?thesis by (simp add: push_bit_eq_mult)
qed

lemma byte_parts: "b \<le> 255 \<Longrightarrow> a \<le> 255 \<Longrightarrow>
    drop_bit 8 (a * 256 + b) AND 0xff = a \<and> (a * 256 + b) AND 0xff = (b :: nat)"
proof -
  assume ab: "b \<le> 255" "a \<le> 255"
  have "x AND 0xff = x mod 256" for x :: nat
    using take_bit_eq_mask [of 8 x] by (simp add: take_bit_eq_mod mask_eq_exp_minus_1)
  then show ?thesis using ab by (simp add: drop_bit_eq_div)
qed

lemma split_dcolon_none: "successively (\<lambda>a b. a = CHR '':'' \<longrightarrow> b \<noteq> CHR '':'') s \<Longrightarrow> split_dcolon s = [s]"
  by (induction s rule: split_dcolon.induct) auto

lemma successively_no_colon: "CHR '':'' \<notin> set s \<Longrightarrow> successively (\<lambda>a b. a = CHR '':'' \<longrightarrow> b \<noteq> CHR '':'') s"
  by (induction s) (auto simp: successively_Cons)

lemma toGroups_three:
  assumes "hi < 65536" "lo < 65536"
  shows "toGroups (''ffff:'' @ show_hex hi @ '':'' @ show_hex lo) = Some [0xffff, hi, lo]"
proof -
  note h = show_hex_props [of hi] show_hex_props [of lo] length_show_hex [OF assms(1)] length_show_hex [OF assms(2)]
  have "split_on (CHR '':'') (''ffff:'' @ show_hex hi @ '':'' @ show_hex lo) = [''ffff'', show_hex hi, show_hex lo]"
    using h by (simp add: split_on_append split_on_no_sep)
  moreover have "list_all is_hex ''ffff'' \<and> radix_val 16 ''ffff'' = 0xffff"
    by (simp add: is_hex_def radix_val_def hex_val_def)
  ultimately show ?thesis using h by (simp add: toGroups_def Let_def Suc_le_eq)
qed

lemma replicate5: "replicate 5 x = [x, x, x, x, x]"
  by (simp add: eval_nat_numeral)

lemma mapped_groups:
  assumes "a \<le> 255" "b \<le> 255" "c \<le> 255" "d \<le> 255"
  shows "expandIpv6 (''::ffff:'' @ dotted [a, b, c, d]) = Some [0, 0, 0, 0, 0, 0xffff, a * 256 + b, c * 256 + d]"
proof -
  let ?q = "dotted [a, b, c, d]"
  let ?hi = "a * 256 + b" and ?lo = "c * 256 + d"
  have no: "CHR '':'' \<notin> set ?q" "CHR ''%'' \<notin> set ?q" "CHR ''.'' \<in> set ?q" by (simp_all add: dotted_def)
  have z: "hd (split_on (CHR ''%'') (''::ffff:'' @ ?q)) = ''::ffff:'' @ ?q"
    using no by (subst split_on_no_sep) auto
  have last: "after_last (CHR '':'') (''::ffff:'' @ ?q) = ?q" "upto_last (CHR '':'') (''::ffff:'' @ ?q) = ''::ffff:''"
    using no by (simp_all add: after_last_def upto_last_def takeWhile_append dropWhile_append)
  have tail: "expand_tail (''::ffff:'' @ ?q) = Some (''::'' @ ''ffff:'' @ show_hex ?hi @ '':'' @ show_hex ?lo)"
    using no assms unfolding expand_tail_def last parseIpv4_dotted [OF assms] by (simp add: pair_value)
  have "successively (\<lambda>a b. a = CHR '':'' \<longrightarrow> b \<noteq> CHR '':'') (''ffff:'' @ show_hex ?hi @ '':'' @ show_hex ?lo)"
    using show_hex_props [of ?hi] show_hex_props [of ?lo]
    by (auto simp: successively_append_iff successively_no_colon successively_Cons hd_append
        dest: hd_in_set last_in_set)
  then have "split_dcolon (''::'' @ ''ffff:'' @ show_hex ?hi @ '':'' @ show_hex ?lo) =
      [[], ''ffff:'' @ show_hex ?hi @ '':'' @ show_hex ?lo]"
    using split_dcolon_none by simp
  moreover have "toGroups (''ffff:'' @ show_hex ?hi @ '':'' @ show_hex ?lo) = Some [0xffff, ?hi, ?lo]"
    using assms by (intro toGroups_three) auto
  ultimately show ?thesis unfolding expandIpv6_def z tail
    by (simp add: toGroups_def [of "[]"] replicate5)
qed

text \<open>Writing a private IPv4 address as an IPv4-mapped IPv6 literal does not get it past the
  check: \<open>::ffff:a.b.c.d\<close> is refused exactly when \<open>a.b.c.d\<close> is.\<close>

lemma mapped_ipv6_same_verdict:
  assumes "a \<le> 255" "b \<le> 255" "c \<le> 255" "d \<le> 255"
  shows "isBlockedIpv6 (''::ffff:'' @ dotted [a, b, c, d]) = isBlockedIpv4 (dotted [a, b, c, d])"
  unfolding isBlockedIpv6_def mapped_groups [OF assms]
  using byte_parts [OF assms(2,1)] byte_parts [OF assms(4,3)] by simp

section \<open>The IPv6 check is a list of ranges\<close>

lemma radix_val_hex: "list_all is_hex s \<Longrightarrow> radix_val 16 s < 16 ^ length s"
proof (induction s rule: rev_induct)
  case (snoc c s)
  have "hex_val c < 16" using snoc.prems by (auto simp: is_hex_def hex_val_def Let_def)
  moreover have "radix_val 16 s < 16 ^ length s" using snoc by simp
  ultimately show ?case by (simp add: radix_val_def)
qed (simp add: radix_val_def)

lemma radix_val_group: "list_all is_hex s \<Longrightarrow> length s \<le> 4 \<Longrightarrow> radix_val 16 s < 65536"
  using radix_val_hex [of s] power_increasing [of "length s" 4 "16 :: nat"] by simp

lemma toGroups_bound: "toGroups s = Some gs \<Longrightarrow> list_all (\<lambda>g. g < 65536) gs"
  by (auto simp: toGroups_def Let_def list_all_iff [of _ "split_on _ _"] list.pred_map radix_val_group
      intro!: list.pred_mono_strong [of "\<lambda>g. length g \<le> 4 \<and> list_all is_hex g"] split: if_splits)

lemma expandIpv6_groups:
  assumes "expandIpv6 x = Some gs"
  shows "length gs = 8" "list_all (\<lambda>g. g < 65536) gs"
  using assms unfolding expandIpv6_def
  by (auto simp: list_all_iff split: option.splits list.splits if_splits dest!: toGroups_bound)

lemma and_shifted: "n AND push_bit k m = push_bit k (drop_bit k n AND m)" for n :: nat
  by (rule bit_eqI) (auto simp: bit_simps)

lemma and_prefix:
  assumes "n < (65536 :: nat)" "k \<le> 16"
  shows "n AND push_bit k (mask (16 - k)) = 2 ^ k * (n div 2 ^ k)"
proof -
  have "n div 2 ^ k < 2 ^ (16 - k)"
    using assms by (intro less_mult_imp_div_less) (simp flip: power_add)
  then have "drop_bit k n AND mask (16 - k) = n div 2 ^ k"
    by (simp add: drop_bit_eq_div take_bit_eq_mask [symmetric] take_bit_nat_eq_self)
  then show ?thesis by (simp only: and_shifted) (simp only: push_bit_eq_mult mult.commute)
qed

lemma prefix_tests:
  assumes "g < (65536 :: nat)"
  shows "g AND 0xfe00 = 0xfc00 \<longleftrightarrow> g div 512 = 0x7e" "g AND 0xffc0 = 0xfe80 \<longleftrightarrow> g div 64 = 0x3fa"
    "g AND 0xff00 = 0xff00 \<longleftrightarrow> g div 256 = 0xff"
  using and_prefix [OF assms, of 9] and_prefix [OF assms, of 6] and_prefix [OF assms, of 8]
  by (simp_all add: mask_eq_exp_minus_1 push_bit_eq_mult)

lemma ipv6_value_parts:
  assumes "list_all (\<lambda>g. g < 65536) [g0, g1, g2, g3, g4, g5, g6, g7 :: nat]"
  defines "v \<equiv> ipv6_value [g0, g1, g2, g3, g4, g5, g6, g7]"
  shows "v div 2 ^ 112 = g0" "v mod 2 ^ 32 = 65536 * g6 + g7"
    "v div 2 ^ 32 = 65536 * (65536 * (65536 * (65536 * (65536 * g0 + g1) + g2) + g3) + g4) + g5"
    "v = 65536 * (65536 * (v div 2 ^ 32) + g6) + g7"
proof -
  define u where "u = 65536 * (65536 * (65536 * (65536 * (65536 * g0 + g1) + g2) + g3) + g4) + g5"
  have v: "v = 65536 * (65536 * u + g6) + g7" by (simp add: v_def u_def ipv6_value_def)
  have d: "(65536 * n + g) div 65536 = n" if "g < 65536" for n g :: nat using that by simp
  have b: "g1 < 65536" "g2 < 65536" "g3 < 65536" "g4 < 65536" "g5 < 65536" "g6 < 65536" "g7 < 65536"
    using assms(1) by simp_all
  have "v div 65536 div 65536 = u" unfolding v by (simp only: d b)
  then have h: "v div 2 ^ 32 = u" by (simp add: div_mult2_eq [symmetric])
  have "u div 65536 div 65536 div 65536 div 65536 div 65536 = g0" unfolding u_def by (simp only: d b)
  then show "v div 2 ^ 112 = g0" unfolding h [symmetric] by (simp add: div_mult2_eq [symmetric])
  show "v div 2 ^ 32 = 65536 * (65536 * (65536 * (65536 * (65536 * g0 + g1) + g2) + g3) + g4) + g5"
    by (simp only: h u_def)
  show "v = 65536 * (65536 * (v div 2 ^ 32) + g6) + g7" unfolding h by (fact v)
  have "v = (65536 * g6 + g7) + 2 ^ 32 * u" by (simp add: v)
  moreover have "65536 * g6 + g7 < 2 ^ 32" using b by simp
  ultimately show "v mod 2 ^ 32 = 65536 * g6 + g7" by (simp only: mod_mult_self2 mod_less)
qed


lemma digit_eq: "g < 65536 \<Longrightarrow> c < 65536 \<Longrightarrow> 65536 * n + g = c \<longleftrightarrow> n = 0 \<and> g = (c :: nat)"
  by auto

lemma octets_of_group:
  assumes "g < (65536 :: nat)"
  shows "drop_bit 8 g AND 0xff = g div 256" "g AND 0xff = g mod 256" "g div 256 \<le> 255" "g mod 256 \<le> 255"
proof -
  have m: "x AND 0xff = x mod 256" for x :: nat
    using take_bit_eq_mask [of 8 x] by (simp add: take_bit_eq_mod mask_eq_exp_minus_1)
  show "g div 256 \<le> 255" "g mod 256 \<le> 255" using assms by (auto simp: less_Suc_eq_le [symmetric])
  then show "drop_bit 8 g AND 0xff = g div 256" "g AND 0xff = g mod 256" by (simp_all add: m drop_bit_eq_div)
qed

lemma ipv4_of_groups:
  "ipv4_of [hi div 256, hi mod 256, lo div 256, lo mod 256] = word_of_nat (65536 * hi + lo)"
proof -
  have "foldl (\<lambda>n d. 256 * n + d) 0 [hi div 256, hi mod 256, lo div 256, lo mod 256] = 65536 * hi + lo"
    using mult_div_mod_eq [of 256 hi] mult_div_mod_eq [of 256 lo] by simp
  then show ?thesis unfolding ipv4_of_def by (simp only:)
qed

lemma mapped_octets_blocked:
  assumes "hi < 65536" "lo < 65536"
  shows "isBlockedIpv4 (dotted [drop_bit 8 hi AND 0xff, hi AND 0xff, drop_bit 8 lo AND 0xff, lo AND 0xff]) \<longleftrightarrow>
     list_ex (in_block (word_of_nat (65536 * hi + lo))) blocked_blocks"
proof -
  note h = octets_of_group [OF assms(1)] and l = octets_of_group [OF assms(2)]
  show ?thesis unfolding h(1,2) l(1,2)
    using blocked_ipv4_is_blocks [OF parseIpv4_dotted [OF h(3,4) l(3,4)]] by (simp only: ipv4_of_groups)
qed

lemma blocked_ipv6_is_ranges:
  assumes "expandIpv6 x = Some gs"
  shows "isBlockedIpv6 x \<longleftrightarrow> refused_ipv6 (ipv6_value gs)"
proof -
  obtain g0 g1 g2 g3 g4 g5 g6 g7 where gs: "gs = [g0, g1, g2, g3, g4, g5, g6, g7]"
    using expandIpv6_groups(1) [OF assms] by (auto simp: numeral_eq_Suc length_Suc_conv)
  have b: "list_all (\<lambda>g. g < 65536) [g0, g1, g2, g3, g4, g5, g6, g7]"
    using expandIpv6_groups(2) [OF assms] by (simp only: gs)
  then have b': "g0 < 65536" "g1 < 65536" "g2 < 65536" "g3 < 65536" "g4 < 65536" "g5 < 65536" "g6 < 65536" "g7 < 65536"
    by simp_all
  define v where "v = ipv6_value gs"
  note parts = ipv6_value_parts [OF b, folded gs, folded v_def]
  have zero: "v = 0 \<longleftrightarrow> g0 = 0 \<and> g1 = 0 \<and> g2 = 0 \<and> g3 = 0 \<and> g4 = 0 \<and> g5 = 0 \<and> g6 = 0 \<and> g7 = 0"
    "v = 1 \<longleftrightarrow> g0 = 0 \<and> g1 = 0 \<and> g2 = 0 \<and> g3 = 0 \<and> g4 = 0 \<and> g5 = 0 \<and> g6 = 0 \<and> g7 = 1"
  proof -
    have hi: "v div 2 ^ 32 = 0 \<longleftrightarrow> g0 = 0 \<and> g1 = 0 \<and> g2 = 0 \<and> g3 = 0 \<and> g4 = 0 \<and> g5 = 0"
      unfolding parts(3) by simp
    have "v = c \<longleftrightarrow> v div 2 ^ 32 = 0 \<and> g6 = 0 \<and> g7 = c" if "c < 65536" for c
      using digit_eq [OF b'(8) that, of "65536 * (v div 2 ^ 32) + g6"] parts(4) by simp
    from this [of 0] this [of 1]
    show "v = 0 \<longleftrightarrow> g0 = 0 \<and> g1 = 0 \<and> g2 = 0 \<and> g3 = 0 \<and> g4 = 0 \<and> g5 = 0 \<and> g6 = 0 \<and> g7 = 0"
      "v = 1 \<longleftrightarrow> g0 = 0 \<and> g1 = 0 \<and> g2 = 0 \<and> g3 = 0 \<and> g4 = 0 \<and> g5 = 0 \<and> g6 = 0 \<and> g7 = 1"
      unfolding hi by auto
  qed
  have mapped: "v div 2 ^ 32 = 0xffff \<longleftrightarrow> g0 = 0 \<and> g1 = 0 \<and> g2 = 0 \<and> g3 = 0 \<and> g4 = 0 \<and> g5 = 0xffff"
    by (subst parts(3), subst digit_eq [OF b'(6)]) auto
  have pre: "v div 2 ^ 121 = g0 div 512" "v div 2 ^ 118 = g0 div 64" "v div 2 ^ 120 = g0 div 256"
    unfolding parts(1) [symmetric] by (simp_all add: div_mult2_eq [symmetric])
  show ?thesis
    unfolding isBlockedIpv6_def assms option.case Let_def refused_ipv6_def v_def [symmetric] zero mapped pre parts(2)
    unfolding gs by (simp add: prefix_tests b' mapped_octets_blocked)
qed

text \<open>The whole check, on every text: what it refuses are the texts that name an address of the
  listed ranges.\<close>

lemma unread_ipv6_passes: "expandIpv6 x = None \<Longrightarrow> \<not> isBlockedIpv6 x"
  by (simp add: isBlockedIpv6_def)

lemma isBlockedIp_ranges: "isBlockedIp x = refused_address (strip_brackets (trim x))"
  by (simp add: isBlockedIp_def refused_address_def Let_def blocked_ipv4_is_blocks blocked_ipv6_is_ranges
      unread_ipv6_passes split: option.split)

text \<open>Every IPv6 address is read from its eight groups in hexadecimal, so no range above is missed for
  want of a text that reads as one of its addresses.\<close>

lemma expandIpv6_text:
  assumes "list_all (\<lambda>g. g < 65536) [a, b, c, d, e, f, g, h]"
  shows "expandIpv6 (join_with '':'' (map show_hex [a, b, c, d, e, f, g, h])) = Some [a, b, c, d, e, f, g, h]"
proof -
  let ?t = "join_with '':'' (map show_hex [a, b, c, d, e, f, g, h])"
  have hex: "is_hex x" if "x \<in> set (show_hex n)" for x n
    using that show_hex_props [of n] by (auto simp: list_all_iff)
  have no: "x \<notin> set (show_hex n)" if "\<not> is_hex x" for x n using that hex by blast
  have nh: "\<not> is_hex (CHR ''.'')" "\<not> is_hex (CHR ''%'')" "\<not> is_hex (CHR '':'')" by (simp_all add: is_hex_def)
  have ne: "show_hex n \<noteq> []" for n using show_hex_props by blast
  have z: "hd (split_on (CHR ''%'') ?t) = ?t" "expand_tail ?t = Some ?t"
    using no nh by (simp_all add: split_on_no_sep expand_tail_def)
  have "successively (\<lambda>a b. a = CHR '':'' \<longrightarrow> b \<noteq> CHR '':'') (show_hex n)" for n
    using no [OF nh(3)] by (rule successively_no_colon)
  moreover have "hd (show_hex n) \<noteq> CHR '':''" "last (show_hex n) \<noteq> CHR '':''" for n
    using no [OF nh(3), of n] ne [of n] by (metis hd_in_set last_in_set)+
  ultimately have d: "split_dcolon ?t = [?t]"
    by (intro split_dcolon_none) (simp add: successively_append_iff successively_Cons hd_append ne)
  have "split_on (CHR '':'') ?t = map show_hex [a, b, c, d, e, f, g, h]"
    using no nh by (simp add: split_on_append split_on_no_sep)
  then have "toGroups ?t = Some [a, b, c, d, e, f, g, h]"
    using assms show_hex_props length_show_hex by (simp add: toGroups_def Suc_le_eq ne)
  then show ?thesis by (simp only: expandIpv6_def z d option.case list.case) simp
qed

lemma replicate_pads: "replicate 6 x = [x, x, x, x, x, x]" "replicate 4 x = [x, x, x, x]"
  by (simp_all add: eval_nat_numeral)

text \<open>The ranges leave out the IPv6 forms that carry an IPv4 address otherwise than as a mapped one: the
  IPv4-compatible and the NAT64 text of the loopback address are both accepted.\<close>

lemma embedded_ipv4_not_refused: "\<not> isBlockedIp ''::7f00:1''" "\<not> isBlockedIp ''64:ff9b::7f00:1''"
proof -
  have read: "strip_brackets (trim ''::7f00:1'') = ''::7f00:1''" "strip_brackets (trim ''64:ff9b::7f00:1'') = ''64:ff9b::7f00:1''"
    "parseIpv4 ''::7f00:1'' = None" "parseIpv4 ''64:ff9b::7f00:1'' = None"
    by code_simp+
  have groups: "expandIpv6 ''::7f00:1'' = Some [0, 0, 0, 0, 0, 0, 0x7f00, 1]"
    "expandIpv6 ''64:ff9b::7f00:1'' = Some [0x64, 0xff9b, 0, 0, 0, 0, 0x7f00, 1]"
    by (simp_all add: expandIpv6_def expand_tail_def toGroups_def is_hex_def radix_val_def hex_val_def replicate_pads)
  show "\<not> isBlockedIp ''::7f00:1''" "\<not> isBlockedIp ''64:ff9b::7f00:1''"
    unfolding isBlockedIp_ranges read groups refused_address_def by (simp_all add: refused_ipv6_def ipv6_value_def)
qed

section \<open>Accepted URLs\<close>


definition demo_url :: url where
  "demo_url = \<lparr>url_protocol = ''https:'', url_username = [], url_password = [], url_hostname = ''a.org''\<rparr>"


end
