(* ===== verification/Webhook_Auth.thy ===== *)
theory Webhook_Auth
  imports Js_Prelude
begin

text \<open>
  Signatures on webhooks, outbound (\<open>src/backend/src/webhooks/signature.ts\<close>) and inbound
  (\<open>webhooks/verify.ts\<close> and \<open>webhooks/providers\<close>), and the deduplication store of
  \<open>webhooks/idempotency.ts\<close>.

  HMAC-SHA256 is the parameter \<open>hmac\<close>, from a secret and a content to the digest in lower-case hex.
  Bodies are text. A clock reading is an argument: seconds for the verifiers, milliseconds for the
  store. \<open>mac_verifier\<close> is the contract every verifier keeps; secret rotation is proved once in it.
\<close>

type_synonym hmac = "string \<Rightarrow> string \<Rightarrow> string"

section \<open>Outbound signatures\<close>

definition TIMESTAMP_TOLERANCE_SECONDS :: int where "TIMESTAMP_TOLERANCE_SECONDS = 300"

definition signRawBody :: "hmac \<Rightarrow> string \<Rightarrow> string \<Rightarrow> int \<Rightarrow> string" where
  "signRawBody hmac secret rawBody t =
     ''t='' @ show_int t @ '',v1='' @ hmac secret (show_int t @ ''.'' @ rawBody)"

record signature_parts =
  sp_timestamp :: int
  sp_signatures :: "string list"

definition hex64 :: "string \<Rightarrow> bool" where
  "hex64 s = (length s = 64 \<and> list_all is_hex s)"

text \<open>The loop over the parts: \<open>None\<close> where the code returns \<open>null\<close> inside it.\<close>

fun parse_parts :: "string list \<Rightarrow> int option \<Rightarrow> string list \<Rightarrow> (int option \<times> string list) option" where
  "parse_parts [] ts sigs = Some (ts, sigs)"
| "parse_parts (part # parts) ts sigs =
     (case split_first (CHR ''='') part of None \<Rightarrow> None
      | Some (k, v) \<Rightarrow>
          let key = trim k; val = trim v in
          if key = ''t'' then
            (let parsed = js_Number val in
             if \<not> js_isFinite parsed then None
             else case js_floor parsed of Fin i \<Rightarrow> parse_parts parts (Some i) sigs | _ \<Rightarrow> None)
          else if key = ''v1'' then
            (if \<not> hex64 val then None else parse_parts parts ts (sigs @ [to_lower val]))
          else parse_parts parts ts sigs)"

definition parseSignatureHeader :: "string \<Rightarrow> signature_parts option" where
  "parseSignatureHeader header =
     (if trim header = [] then None
      else case parse_parts (split_on (CHR '','') header) None [] of
        Some (Some ts, sigs) \<Rightarrow> if sigs = [] then None else Some \<lparr>sp_timestamp = ts, sp_signatures = sigs\<rparr>
      | _ \<Rightarrow> None)"

text \<open>\<open>Buffer.from(s, 'hex')\<close>: decoding stops at the first pair that is not hex.\<close>

fun hex_bytes :: "string \<Rightarrow> nat list" where
  "hex_bytes (a # b # s) = (if is_hex a \<and> is_hex b then (16 * hex_val a + hex_val b) # hex_bytes s else [])"
| "hex_bytes s = []"

text \<open>\<open>timingSafeEqual\<close> throws on buffers of different length, which the code takes as unequal.\<close>

definition safeEqualHex :: "string \<Rightarrow> string \<Rightarrow> bool" where
  "safeEqualHex a b = (length a = length b \<and> hex_bytes a = hex_bytes b)"

datatype verify_reason = Missing | Malformed | Stale | Mismatch

definition verifySignature ::
  "hmac \<Rightarrow> string option \<Rightarrow> string \<Rightarrow> string list \<Rightarrow> int \<Rightarrow> int \<Rightarrow> verify_reason + int" where
  "verifySignature hmac header rawBody secretList tolerance now =
     (case header of None \<Rightarrow> Inl Missing
      | Some h \<Rightarrow>
          if h = [] then Inl Missing
          else case parseSignatureHeader h of None \<Rightarrow> Inl Malformed
          | Some parsed \<Rightarrow>
              if \<bar>now - sp_timestamp parsed\<bar> > tolerance then Inl Stale
              else if secretList = [] then Inl Mismatch
              else let expected = show_int (sp_timestamp parsed) @ ''.'' @ rawBody in
                if list_ex (\<lambda>candidate. list_ex (\<lambda>secret. safeEqualHex candidate (hmac secret expected)) secretList)
                     (sp_signatures parsed)
                then Inr (sp_timestamp parsed) else Inl Mismatch)"

section \<open>Inbound providers\<close>

type_synonym headers = "string \<rightharpoonup> string"

record provider_config =
  pc_secrets :: "string list"
  pc_toleranceSeconds :: "int option"
  pc_ipAllowlist :: "string list"

datatype inbound_reason = MissingHeader | Replay | InvalidSignature | IpBlocked | UnknownProvider

definition strip_sha256 :: "string \<Rightarrow> string" where
  "strip_sha256 s = (if starts_with ''sha256='' s then drop 7 s else s)"

definition tolerance_of :: "provider_config \<Rightarrow> int" where
  "tolerance_of config = (case pc_toleranceSeconds config of Some t \<Rightarrow> t | None \<Rightarrow> 300)"

definition nonempty_header :: "headers \<Rightarrow> string \<Rightarrow> string option" where
  "nonempty_header hs name = (case hs name of Some v \<Rightarrow> if v = [] then None else Some v | None \<Rightarrow> None)"

definition verifyGeneric :: "hmac \<Rightarrow> string \<Rightarrow> headers \<Rightarrow> provider_config \<Rightarrow> int \<Rightarrow> inbound_reason + unit" where
  "verifyGeneric hmac rawBody hs config nowSeconds =
     (case nonempty_header hs ''x-webhook-signature'' of None \<Rightarrow> Inl MissingHeader
      | Some sigHeader \<Rightarrow>
        (case nonempty_header hs ''x-webhook-timestamp'' of None \<Rightarrow> Inl MissingHeader
         | Some tsHeader \<Rightarrow>
           (case parseInt tsHeader of
              Fin timestamp \<Rightarrow>
                if \<bar>nowSeconds - timestamp\<bar> > tolerance_of config then Inl Replay
                else let provided = strip_sha256 sigHeader;
                         signedPayload = show_int timestamp @ ''.'' @ rawBody in
                  if list_ex (\<lambda>secret. hmac secret signedPayload = provided) (pc_secrets config)
                  then Inr () else Inl InvalidSignature
            | _ \<Rightarrow> Inl MissingHeader)))"

definition verifyGitHub :: "hmac \<Rightarrow> string \<Rightarrow> headers \<Rightarrow> provider_config \<Rightarrow> inbound_reason + unit" where
  "verifyGitHub hmac rawBody hs config =
     (case nonempty_header hs ''x-hub-signature-256'' of None \<Rightarrow> Inl MissingHeader
      | Some sigHeader \<Rightarrow>
          let provided = strip_sha256 sigHeader in
          if list_ex (\<lambda>secret. hmac secret rawBody = provided) (pc_secrets config)
          then Inr () else Inl InvalidSignature)"

text \<open>\<open>part.split("=", 2)\<close> drops what follows a second \<open>=\<close>; without one the value is undefined, whose
  \<open>parseInt\<close> is \<open>NaN\<close>.\<close>

fun parse_stripe_parts :: "string list \<Rightarrow> jnum option \<Rightarrow> string list \<Rightarrow> jnum option \<times> string list" where
  "parse_stripe_parts [] ts sigs = (ts, sigs)"
| "parse_stripe_parts (part # parts) ts sigs =
     (let pieces = split_on (CHR ''='') part;
          key = hd pieces;
          val = (case tl pieces of [] \<Rightarrow> None | v # _ \<Rightarrow> Some v);
          ts' = (if key = ''t'' then Some (case val of None \<Rightarrow> NaN | Some v \<Rightarrow> parseInt v) else ts);
          sigs' = (if key = ''v1'' then (case val of Some v \<Rightarrow> if v = [] then sigs else sigs @ [v] | None \<Rightarrow> sigs) else sigs)
      in parse_stripe_parts parts ts' sigs')"

definition parseStripeSig :: "string \<Rightarrow> (int \<times> string list) option" where
  "parseStripeSig header =
     (case parse_stripe_parts (split_on (CHR '','') header) None [] of
        (Some (Fin ts), sigs) \<Rightarrow> if sigs = [] then None else Some (ts, sigs)
      | _ \<Rightarrow> None)"

definition verifyStripe :: "hmac \<Rightarrow> string \<Rightarrow> headers \<Rightarrow> provider_config \<Rightarrow> int \<Rightarrow> inbound_reason + unit" where
  "verifyStripe hmac rawBody hs config nowSeconds =
     (case nonempty_header hs ''stripe-signature'' of None \<Rightarrow> Inl MissingHeader
      | Some sigHeader \<Rightarrow>
        (case parseStripeSig sigHeader of None \<Rightarrow> Inl MissingHeader
         | Some (timestamp, v1Sigs) \<Rightarrow>
             if \<bar>nowSeconds - timestamp\<bar> > tolerance_of config then Inl Replay
             else let signedPayload = show_int timestamp @ ''.'' @ rawBody in
               if list_ex (\<lambda>secret. list_ex (\<lambda>v1. hmac secret signedPayload = v1) v1Sigs) (pc_secrets config)
               then Inr () else Inl InvalidSignature))"

definition isIpAllowed :: "string \<Rightarrow> string list \<Rightarrow> bool" where
  "isIpAllowed ip allowlist = (allowlist = [] \<or> ip \<in> set allowlist)"

datatype provider = Github | Stripe | Generic | OtherProvider

record verify_output =
  vo_result :: "inbound_reason + unit"
  vo_idempotencyKey :: "string option"
  vo_eventType :: string

definition header_or_unknown :: "string option \<Rightarrow> string" where
  "header_or_unknown v = (case v of Some s \<Rightarrow> s | None \<Rightarrow> ''unknown'')"

text \<open>\<open>bodyField\<close> gives the string fields of the parsed body.\<close>

definition verifyWebhook ::
  "hmac \<Rightarrow> provider \<Rightarrow> string \<Rightarrow> headers \<Rightarrow> (string \<rightharpoonup> string) \<Rightarrow> provider_config \<Rightarrow> string \<Rightarrow> int \<Rightarrow> verify_output" where
  "verifyWebhook hmac p rawBody hs bodyField config clientIp nowSeconds =
     (if pc_ipAllowlist config \<noteq> [] \<and> \<not> isIpAllowed clientIp (pc_ipAllowlist config)
      then \<lparr>vo_result = Inl IpBlocked, vo_idempotencyKey = None, vo_eventType = ''unknown''\<rparr>
      else case p of
        Github \<Rightarrow> \<lparr>vo_result = verifyGitHub hmac rawBody hs config,
          vo_idempotencyKey = hs ''x-github-delivery'', vo_eventType = header_or_unknown (hs ''x-github-event'')\<rparr>
      | Stripe \<Rightarrow> \<lparr>vo_result = verifyStripe hmac rawBody hs config nowSeconds,
          vo_idempotencyKey = bodyField ''id'', vo_eventType = header_or_unknown (bodyField ''type'')\<rparr>
      | Generic \<Rightarrow> \<lparr>vo_result = verifyGeneric hmac rawBody hs config nowSeconds,
          vo_idempotencyKey = hs ''x-webhook-id'', vo_eventType = header_or_unknown (hs ''x-webhook-event'')\<rparr>
      | OtherProvider \<Rightarrow> \<lparr>vo_result = Inl UnknownProvider, vo_idempotencyKey = None, vo_eventType = ''unknown''\<rparr>)"

section \<open>Deduplication store\<close>

definition DEFAULT_TTL_MS :: int where "DEFAULT_TTL_MS = 600000"

type_synonym idem_store = "string \<rightharpoonup> int"

definition evict :: "int \<Rightarrow> idem_store \<Rightarrow> idem_store" where
  "evict now st = (\<lambda>k. case st k of Some e \<Rightarrow> if e \<le> now then None else Some e | None \<Rightarrow> None)"

definition isDuplicate :: "string \<Rightarrow> string \<Rightarrow> int \<Rightarrow> int \<Rightarrow> idem_store \<Rightarrow> bool \<times> idem_store" where
  "isDuplicate provider idempotencyKey ttlMs now st =
     (let st' = evict now st; key = provider @ '':'' @ idempotencyKey in
      if st' key \<noteq> None then (True, st') else (False, st'(key \<mapsto> now + ttlMs)))"

section \<open>What a verifier promises\<close>

locale mac_verifier =
  fixes accepts :: "string list \<Rightarrow> bool"
    and gate :: bool
    and matches :: "string \<Rightarrow> bool"
  assumes accepts_iff: "accepts ks \<longleftrightarrow> gate \<and> list_ex matches ks"
begin

lemma no_secret_no_access: "\<not> accepts []"
  by (simp add: accepts_iff)

lemma rotation: "accepts (old @ new) \<longleftrightarrow> accepts old \<or> accepts new"
  by (auto simp: accepts_iff)

lemma accepted_by_one: "accepts ks \<longleftrightarrow> list_ex (\<lambda>k. accepts [k]) ks"
  by (auto simp: accepts_iff list_ex_iff)

end

definition is_ok :: "'a + 'b \<Rightarrow> bool" where
  "is_ok r = (case r of Inl _ \<Rightarrow> False | Inr _ \<Rightarrow> True)"

lemma list_ex_swap: "list_ex (\<lambda>a. list_ex (\<lambda>b. P a b) ys) xs = list_ex (\<lambda>b. list_ex (\<lambda>a. P a b) xs) ys"
  by (auto simp: list_ex_iff)

interpretation outbound: mac_verifier
  "\<lambda>ks. is_ok (verifySignature hmac (Some h) body ks tol now)"
  "h \<noteq> [] \<and> (case parseSignatureHeader h of None \<Rightarrow> False | Some p \<Rightarrow> \<bar>now - sp_timestamp p\<bar> \<le> tol)"
  "\<lambda>k. case parseSignatureHeader h of None \<Rightarrow> False
       | Some p \<Rightarrow> list_ex (\<lambda>c. safeEqualHex c (hmac k (show_int (sp_timestamp p) @ ''.'' @ body))) (sp_signatures p)"
  for hmac h body tol now
  by unfold_locales
     (auto simp: is_ok_def verifySignature_def Let_def list_ex_swap [of _ _ "sp_signatures _"] split: option.splits)

interpretation generic: mac_verifier
  "\<lambda>ks. is_ok (verifyGeneric hmac body hs (config\<lparr>pc_secrets := ks\<rparr>) now)"
  "case (nonempty_header hs ''x-webhook-signature'', nonempty_header hs ''x-webhook-timestamp'') of
     (Some _, Some t) \<Rightarrow> (case parseInt t of Fin ts \<Rightarrow> \<bar>now - ts\<bar> \<le> tolerance_of config | _ \<Rightarrow> False) | _ \<Rightarrow> False"
  "\<lambda>k. case (nonempty_header hs ''x-webhook-signature'', nonempty_header hs ''x-webhook-timestamp'') of
     (Some s, Some t) \<Rightarrow> (case parseInt t of Fin ts \<Rightarrow> hmac k (show_int ts @ ''.'' @ body) = strip_sha256 s | _ \<Rightarrow> False) | _ \<Rightarrow> False"
  for hmac body hs config now
  by unfold_locales
     (auto simp: is_ok_def verifyGeneric_def tolerance_of_def Let_def split: option.splits jnum.splits)

interpretation github: mac_verifier
  "\<lambda>ks. is_ok (verifyGitHub hmac body hs (config\<lparr>pc_secrets := ks\<rparr>))"
  "nonempty_header hs ''x-hub-signature-256'' \<noteq> None"
  "\<lambda>k. case nonempty_header hs ''x-hub-signature-256'' of Some s \<Rightarrow> hmac k body = strip_sha256 s | None \<Rightarrow> False"
  for hmac body hs config
  by unfold_locales (auto simp: is_ok_def verifyGitHub_def Let_def split: option.splits)

interpretation stripe: mac_verifier
  "\<lambda>ks. is_ok (verifyStripe hmac body hs (config\<lparr>pc_secrets := ks\<rparr>) now)"
  "case nonempty_header hs ''stripe-signature'' of None \<Rightarrow> False
   | Some s \<Rightarrow> (case parseStripeSig s of Some (ts, _) \<Rightarrow> \<bar>now - ts\<bar> \<le> tolerance_of config | None \<Rightarrow> False)"
  "\<lambda>k. case nonempty_header hs ''stripe-signature'' of None \<Rightarrow> False
   | Some s \<Rightarrow> (case parseStripeSig s of Some (ts, sigs) \<Rightarrow> list_ex (\<lambda>v. hmac k (show_int ts @ ''.'' @ body) = v) sigs | None \<Rightarrow> False)"
  for hmac body hs config now
  by unfold_locales
     (auto simp: is_ok_def verifyStripe_def tolerance_of_def Let_def split: option.splits)

section \<open>Lemmas\<close>

text \<open>What \<open>digest('hex')\<close> of a SHA-256 HMAC documents: 64 lower-case hex digits.\<close>

definition hex_digest :: "hmac \<Rightarrow> bool" where
  "hex_digest hmac = (\<forall>k c. hex64 (hmac k c) \<and> to_lower (hmac k c) = hmac k c)"

lemma hex_no_sep: "is_hex c \<Longrightarrow> c \<noteq> CHR '','' \<and> c \<noteq> CHR ''='' \<and> \<not> is_space c"
  by (auto simp: is_hex_def is_space_def Let_def)

lemma show_int_no_sep: "CHR '','' \<notin> set (show_int i)" "CHR ''='' \<notin> set (show_int i)"
  using show_nat_digits [of "nat i"] show_nat_digits [of "nat (- i)"]
  by (auto simp: show_int_def list_all_iff is_digit_def)

lemma trim_Nil: "trim s = [] \<longleftrightarrow> list_all is_space s"
proof -
  have "trim s = [] \<longleftrightarrow> list_all is_space (dropWhile is_space s)"
    by (simp add: trim_def dropWhile_eq_Nil_conv list_all_iff)
  also have "\<dots> \<longleftrightarrow> list_all is_space s" by (induction s) auto
  finally show ?thesis .
qed

lemma parse_signed:
  assumes "hex64 v" "to_lower v = v"
  shows "parseSignatureHeader (''t='' @ show_int t @ '',v1='' @ v) = Some \<lparr>sp_timestamp = t, sp_signatures = [v]\<rparr>"
proof -
  have h: "list_all is_hex v" using assms by (simp add: hex64_def)
  have "list_all (\<lambda>c. \<not> is_space c) v" using h hex_no_sep by (simp add: list_all_iff)
  then have tv: "trim v = v" by (rule trim_no_space)
  have "CHR '','' \<notin> set v" using h hex_no_sep [of "CHR '',''"] by (auto simp: list_all_iff)
  note v = this tv
  have sp: "split_on (CHR '','') (''t='' @ show_int t @ '',v1='' @ v) = [''t='' @ show_int t, ''v1='' @ v]"
    using split_on_append [of "CHR '',''" "''t='' @ show_int t" "''v1='' @ v"] v(1) show_int_no_sep
    by (simp add: split_on_no_sep)
  have "trim ''t'' = ''t''" "trim ''v1'' = ''v1''" by (simp_all add: trim_no_space is_space_def)
  then have "parse_parts [''t='' @ show_int t, ''v1='' @ v] None [] = Some (Some t, [v])"
    using assms v(2) by (simp add: Let_def js_isFinite_def js_floor_def)
  moreover have "trim (''t='' @ show_int t @ '',v1='' @ v) \<noteq> []"
    by (simp add: trim_Nil is_space_def)
  ultimately show ?thesis using sp by (simp add: parseSignatureHeader_def)
qed

lemma lower_hex_code:
  assumes "is_hex c" "lower_char c = c"
  obtains n :: nat where "n = of_char c" "48 \<le> n \<and> n \<le> 57 \<and> hex_val c = n - 48 \<or> 97 \<le> n \<and> n \<le> 102 \<and> hex_val c = n - 87"
proof -
  define n where "n = (of_char c :: nat)"
  have "\<not> (65 \<le> n \<and> n \<le> 70)"
  proof
    assume r: "65 \<le> n \<and> n \<le> 70"
    then have "of_char (lower_char c) = n + 32" by (simp add: lower_char_def Let_def n_def)
    then show False using assms(2) n_def by simp
  qed
  then show thesis using assms(1) that [of n] by (auto simp: is_hex_def hex_val_def n_def [symmetric] Let_def)
qed

lemma hex_val_lower_inj:
  assumes "is_hex a" "is_hex b" "lower_char a = a" "lower_char b = b" "hex_val a = hex_val b"
  shows "a = b"
proof -
  obtain n where n: "n = (of_char a :: nat)"
    "48 \<le> n \<and> n \<le> 57 \<and> hex_val a = n - 48 \<or> 97 \<le> n \<and> n \<le> 102 \<and> hex_val a = n - 87"
    by (rule lower_hex_code [OF assms(1,3)])
  obtain m where m: "m = (of_char b :: nat)"
    "48 \<le> m \<and> m \<le> 57 \<and> hex_val b = m - 48 \<or> 97 \<le> m \<and> m \<le> 102 \<and> hex_val b = m - 87"
    by (rule lower_hex_code [OF assms(2,4)])
  have "n = m" using n(2) m(2) assms(5) by linarith
  then show ?thesis using n(1) m(1) by (metis of_char_eq_iff)
qed

lemma hex_val_less: "is_hex c \<Longrightarrow> hex_val c < 16"
  by (auto simp: is_hex_def hex_val_def Let_def)

lemma hex_pair_inj: "v < 16 \<Longrightarrow> v' < 16 \<Longrightarrow> 16 * u + v = 16 * u' + v' \<longleftrightarrow> u = u' \<and> v = (v' :: nat)"
  by (metis add_left_imp_eq div_mult_self4 div_less add_0_right mult.commute zero_neq_numeral add.commute)

lemma hex_bytes_inj:
  "even (length a) \<Longrightarrow> length a = length b \<Longrightarrow> list_all is_hex a \<Longrightarrow> list_all is_hex b \<Longrightarrow>
   to_lower a = a \<Longrightarrow> to_lower b = b \<Longrightarrow> hex_bytes a = hex_bytes b \<Longrightarrow> a = b"
proof (induction a arbitrary: b rule: hex_bytes.induct)
  case (1 x y a)
  then obtain x' y' b' where b: "b = x' # y' # b'" by (metis length_0_conv list.distinct(1) list.exhaust length_Suc_conv)
  have "hex_val x = hex_val x' \<and> hex_val y = hex_val y'"
    using 1(4-8) b hex_val_less [of x] hex_val_less [of y] hex_val_less [of x'] hex_val_less [of y']
    by (simp add: hex_pair_inj)
  then have "x = x' \<and> y = y'" using 1(4-7) b hex_val_lower_inj by (auto simp: to_lower_def)
  moreover have "a = b'" using 1 b by (auto simp: to_lower_def)
  ultimately show ?case using b by simp
qed auto

lemma parse_parts_lower:
  "parse_parts parts ts sigs = Some (ts', sigs') \<Longrightarrow> list_all (\<lambda>c. hex64 c \<and> to_lower c = c) sigs \<Longrightarrow>
   list_all (\<lambda>c. hex64 c \<and> to_lower c = c) sigs'"
proof (induction parts ts sigs rule: parse_parts.induct)
  case (2 part parts ts sigs)
  have lc: "lower_char (lower_char c) = lower_char c \<and> (is_hex c \<longrightarrow> is_hex (lower_char c))" for c
    by (auto simp: lower_char_def is_hex_def Let_def)
  have low: "hex64 v \<Longrightarrow> hex64 (to_lower v) \<and> to_lower (to_lower v) = to_lower v" for v
    using lc by (auto simp: hex64_def to_lower_def list_all_iff)
  show ?case
    using 2 low by (auto simp: Let_def split: option.splits prod.splits if_splits jnum.splits)
qed simp

lemma parsed_signatures_lower:
  "parseSignatureHeader h = Some p \<Longrightarrow> c \<in> set (sp_signatures p) \<Longrightarrow> hex64 c \<and> to_lower c = c"
  by (auto simp: parseSignatureHeader_def list_all_iff split: if_splits option.splits prod.splits dest!: parse_parts_lower)

section \<open>Properties\<close>

text \<open>A signed webhook verifies: the header made for a body with one of the receiver's secrets at
  time \<open>t\<close> is accepted for that body while the clock is within the tolerance of \<open>t\<close>, and is refused
  as stale outside it.\<close>

theorem signature_roundtrip:
  assumes "hex_digest hmac" "k \<in> set secrets"
  shows "verifySignature hmac (Some (signRawBody hmac k body t)) body secrets tol now =
    (if \<bar>now - t\<bar> \<le> tol then Inr t else Inl Stale)"
proof -
  let ?v = "hmac k (show_int t @ ''.'' @ body)"
  have "parseSignatureHeader (signRawBody hmac k body t) = Some \<lparr>sp_timestamp = t, sp_signatures = [?v]\<rparr>"
    using parse_signed [of ?v t] assms(1) by (simp add: signRawBody_def hex_digest_def)
  moreover have "signRawBody hmac k body t \<noteq> []" by (simp add: signRawBody_def)
  moreover have "secrets \<noteq> []" using assms(2) by auto
  ultimately show ?thesis using assms(2) by (auto simp: verifySignature_def safeEqualHex_def Let_def list_ex_iff)
qed

definition demo_hmac :: hmac where
  "demo_hmac k c = replicate 62 (CHR ''0'') @ (if k = ''s1'' then ''a1'' else ''b2'')"

lemma demo_hmac_digest: "hex_digest demo_hmac"
  by (auto simp: hex_digest_def demo_hmac_def hex64_def to_lower_def lower_char_def is_hex_def list_all_iff)

theorem signature_roundtrip_witness:
  "verifySignature demo_hmac (Some (signRawBody demo_hmac ''s1'' ''{}'' 1000)) ''{}'' [''s2'', ''s1''] 300 1300 = Inr 1000"
  using signature_roundtrip [OF demo_hmac_digest, of "''s1''" "[''s2'', ''s1'']" "''{}''" 1000 300 1300] by simp

text \<open>C37. Acceptance needs a secret: if a header is accepted for a body at timestamp \<open>t\<close>, then the clock
  is within the tolerance of \<open>t\<close> and one of the signatures in the header is, digit for digit, the HMAC
  of that timestamp and that body under one of the receiver's secrets.\<close>

theorem signature_unforgeable:
  assumes "hex_digest hmac" "verifySignature hmac (Some h) body secrets tol now = Inr t"
  shows "\<bar>now - t\<bar> \<le> tol \<and>
    (\<exists>p. parseSignatureHeader h = Some p \<and> sp_timestamp p = t \<and>
       list_ex (\<lambda>k. hmac k (show_int t @ ''.'' @ body) \<in> set (sp_signatures p)) secrets)"
proof -
  obtain p where p: "parseSignatureHeader h = Some p" "sp_timestamp p = t" "\<bar>now - t\<bar> \<le> tol"
    and ex: "list_ex (\<lambda>c. list_ex (\<lambda>k. safeEqualHex c (hmac k (show_int t @ ''.'' @ body))) secrets) (sp_signatures p)"
    using assms(2) by (auto simp: verifySignature_def Let_def split: option.splits if_splits)
  then obtain c k where ck: "c \<in> set (sp_signatures p)" "k \<in> set secrets"
    "safeEqualHex c (hmac k (show_int t @ ''.'' @ body))" by (auto simp: list_ex_iff)
  let ?m = "hmac k (show_int t @ ''.'' @ body)"
  have m: "hex64 ?m" "to_lower ?m = ?m" using assms(1) by (simp_all add: hex_digest_def)
  have c: "hex64 c" "to_lower c = c" using parsed_signatures_lower [OF p(1) ck(1)] by auto
  have "c = ?m"
    by (rule hex_bytes_inj) (use m c ck(3) in \<open>simp_all add: hex64_def safeEqualHex_def\<close>)
  then show ?thesis using p ck by (auto simp: list_ex_iff)
qed

theorem signature_unforgeable_witness:
  "\<bar>1300 - 1000\<bar> \<le> (300 :: int) \<and>
    (\<exists>p. parseSignatureHeader (signRawBody demo_hmac ''s1'' ''{}'' 1000) = Some p \<and> sp_timestamp p = 1000 \<and>
       list_ex (\<lambda>k. demo_hmac k (show_int 1000 @ ''.'' @ ''{}'') \<in> set (sp_signatures p)) [''s1''])"
proof -
  let ?v = "demo_hmac ''s1'' (show_int 1000 @ ''.'' @ ''{}'')"
  have v: "hex64 ?v" "to_lower ?v = ?v" using demo_hmac_digest by (simp_all add: hex_digest_def)
  have "verifySignature demo_hmac (Some (signRawBody demo_hmac ''s1'' ''{}'' 1000)) ''{}'' [''s1''] 300 1300 = Inr 1000"
    using parse_signed [OF v, of 1000]
    by (simp add: verifySignature_def signRawBody_def safeEqualHex_def Let_def)
  from signature_unforgeable [OF demo_hmac_digest this] show ?thesis by simp
qed

text \<open>Secrets rotate without a gap: each inbound verifier accepts a request under a list of secrets
  exactly when it accepts it under one part of the list, so adding a new secret never refuses what
  was accepted, removing the old one afterwards refuses exactly what only it accepted, and with no
  secret nothing is accepted.\<close>

theorem secret_rotation:
  "(is_ok (verifyGeneric hmac body hs (config\<lparr>pc_secrets := old @ new\<rparr>) now) \<longleftrightarrow>
      is_ok (verifyGeneric hmac body hs (config\<lparr>pc_secrets := old\<rparr>) now) \<or>
      is_ok (verifyGeneric hmac body hs (config\<lparr>pc_secrets := new\<rparr>) now)) \<and>
   (is_ok (verifyGitHub hmac body hs (config\<lparr>pc_secrets := old @ new\<rparr>)) \<longleftrightarrow>
      is_ok (verifyGitHub hmac body hs (config\<lparr>pc_secrets := old\<rparr>)) \<or>
      is_ok (verifyGitHub hmac body hs (config\<lparr>pc_secrets := new\<rparr>))) \<and>
   (is_ok (verifyStripe hmac body hs (config\<lparr>pc_secrets := old @ new\<rparr>) now) \<longleftrightarrow>
      is_ok (verifyStripe hmac body hs (config\<lparr>pc_secrets := old\<rparr>) now) \<or>
      is_ok (verifyStripe hmac body hs (config\<lparr>pc_secrets := new\<rparr>) now)) \<and>
   \<not> is_ok (verifyGeneric hmac body hs (config\<lparr>pc_secrets := []\<rparr>) now) \<and>
   \<not> is_ok (verifyGitHub hmac body hs (config\<lparr>pc_secrets := []\<rparr>)) \<and>
   \<not> is_ok (verifyStripe hmac body hs (config\<lparr>pc_secrets := []\<rparr>) now)"
  by (intro conjI generic.rotation github.rotation stripe.rotation generic.no_secret_no_access
      github.no_secret_no_access stripe.no_secret_no_access)

text \<open>The times at which a sequence of calls \<open>(provider, key, now)\<close> reported the composite key \<open>K\<close> as new.\<close>

fun fresh_times :: "string \<Rightarrow> int \<Rightarrow> idem_store \<Rightarrow> (string \<times> string \<times> int) list \<Rightarrow> int list" where
  "fresh_times K ttl st [] = []"
| "fresh_times K ttl st ((p, k, now) # calls) =
     (case isDuplicate p k ttl now st of (dup, st') \<Rightarrow>
        if \<not> dup \<and> p @ '':'' @ k = K then now # fresh_times K ttl st' calls else fresh_times K ttl st' calls)"

lemma isDuplicate_other:
  "isDuplicate p k ttl now st = (dup, st') \<Longrightarrow> p @ '':'' @ k \<noteq> K \<Longrightarrow> st' K = evict now st K"
  by (auto simp: isDuplicate_def Let_def split: if_splits)

lemma fresh_after:
  assumes "sorted (map (snd \<circ> snd) calls)" "st K = Some e \<or> list_all (\<lambda>(_, _, t). e \<le> t) calls"
  shows "list_all (\<lambda>t. e \<le> t) (fresh_times K ttl st calls)"
  using assms
proof (induction calls arbitrary: st)
  case (Cons c calls)
  obtain p k now where c: "c = (p, k, now)" by (metis prod_cases3)
  obtain dup st' where d: "isDuplicate p k ttl now st = (dup, st')" by fastforce
  have later: "list_all (\<lambda>(_, _, t). now \<le> t) calls" using Cons.prems(1) c by (auto simp: list_all_iff)
  show ?case
  proof (cases "e \<le> now")
    case True
    then have "list_all (\<lambda>(_, _, t). e \<le> t) calls" using later by (auto simp: list_all_iff)
    then have "list_all (\<lambda>t. e \<le> t) (fresh_times K ttl st' calls)" using Cons.IH Cons.prems(1) by simp
    then show ?thesis using c d True by simp
  next
    case False
    then have live: "st K = Some e" using Cons.prems(2) c by auto
    then have ev: "evict now st K = Some e" using False by (simp add: evict_def)
    have "st' K = Some e" and "p @ '':'' @ k = K \<Longrightarrow> dup"
      using d ev isDuplicate_other [OF d] by (auto simp: isDuplicate_def Let_def split: if_splits)
    then show ?thesis using Cons.IH [of st'] Cons.prems(1) c d by auto
  qed
qed simp

text \<open>A webhook is processed at most once per retention time: with a clock that does not go back,
  two calls that both report the same provider and key as new are at least the retention time apart,
  whatever other keys are seen in between.\<close>

theorem dedup_window:
  assumes "sorted (map (snd \<circ> snd) calls)" "0 \<le> ttl"
  shows "sorted_wrt (\<lambda>a b. a + ttl \<le> b) (fresh_times K ttl st calls)"
  using assms(1)
proof (induction calls arbitrary: st)
  case (Cons c calls)
  obtain p k now where c: "c = (p, k, now)" by (metis prod_cases3)
  obtain dup st' where d: "isDuplicate p k ttl now st = (dup, st')" by fastforce
  have rest: "sorted_wrt (\<lambda>a b. a + ttl \<le> b) (fresh_times K ttl st' calls)" using Cons by simp
  have "list_all (\<lambda>t. now + ttl \<le> t) (fresh_times K ttl st' calls)" if "\<not> dup" "p @ '':'' @ k = K"
    using that d Cons.prems by (intro fresh_after) (auto simp: isDuplicate_def Let_def comp_def split: if_splits)
  then show ?case using rest c d by (auto simp: list_all_iff)
qed simp

theorem dedup_window_witness:
  "fresh_times ''generic:7'' 600000 Map.empty
     [(''generic'', ''7'', 1000), (''generic'', ''8'', 2000), (''generic'', ''7'', 600999), (''generic'', ''7'', 601000)]
     = [1000, 601000] \<and> sorted_wrt (\<lambda>a b. a + 600000 \<le> b) [1000, 601000 :: int]"
proof -
  let ?calls = "[(''generic'', ''7'', 1000), (''generic'', ''8'', 2000), (''generic'', ''7'', 600999), (''generic'', ''7'', 601000 :: int)]"
  have "fresh_times ''generic:7'' 600000 Map.empty ?calls = [1000, 601000]"
    by (simp add: isDuplicate_def evict_def Let_def)
  then show ?thesis using dedup_window [of ?calls 600000 "''generic:7''" Map.empty] by simp
qed

end
