(* ===== verification/Webhook_Delivery.thy ===== *)
theory Webhook_Delivery
  imports Ssrf Webhook_Auth Claims_Db
begin

text \<open>
  Outbound webhooks of \<open>src/backend/src/webhooks\<close>: the backoff schedule (\<open>backoff.ts\<close>), subscriptions
  (\<open>webhook-subscriptions.service.ts\<close>) and their daily re-validation
  (\<open>webhook-ssrf-revalidation.service.ts\<close>), delivery attempts (\<open>webhook-delivery.service.ts\<close>), the
  dead-letter table (\<open>webhook-dlq.service.ts\<close>), the queue's worker (\<open>outbound.queue.ts\<close>, wired in
  \<open>webhooks.module.ts\<close>), the producer (\<open>outbound-webhook.service.ts\<close>), and the in-memory registration
  with its verification challenge (\<open>webhook-registration.service.ts\<close>).

  A payload is its JSON text. The receiver's reply, generated ids, secrets and tokens, the clock, and
  whether the database accepts a log row are arguments. What BullMQ does with a job is the relation
  \<open>bull_runs\<close>: a job is first run with no attempt made, and run again only after a run that threw.
\<close>

section \<open>Backoff\<close>

definition DEFAULT_MAX_ATTEMPTS :: int where "DEFAULT_MAX_ATTEMPTS = 5"
definition DEFAULT_BASE_DELAY_MS :: int where "DEFAULT_BASE_DELAY_MS = 1000"
definition DEFAULT_MAX_DELAY_MS :: int where "DEFAULT_MAX_DELAY_MS = 32000"

definition backoffDelayMs :: "int \<Rightarrow> int \<Rightarrow> int \<Rightarrow> int" where
  "backoffDelayMs attempt baseDelayMs maxDelayMs =
     (if attempt < 1 then 0 else min (baseDelayMs * 2 ^ nat (min (attempt - 1) 30)) maxDelayMs)"

definition computeRetrySchedule :: "int \<Rightarrow> int \<Rightarrow> int \<Rightarrow> int list" where
  "computeRetrySchedule maxAttempts baseDelayMs maxDelayMs =
     map (\<lambda>attempt. backoffDelayMs attempt baseDelayMs maxDelayMs) [1 .. maxAttempts - 1]"

definition isExhausted :: "int \<Rightarrow> int \<Rightarrow> bool" where
  "isExhausted attempt maxAttempts = (maxAttempts \<le> attempt)"

section \<open>Data\<close>

record subscription =
  sub_tenantId :: "string option"
  sub_url :: string
  sub_events :: "string list"
  sub_secret :: string
  sub_active :: bool

record outbound_job =
  oj_targetUrl :: string
  oj_eventType :: string
  oj_idempotencyKey :: string
  oj_payload :: string
  oj_secret :: "string option"
  oj_attempt :: "int option"

record delivery_row =
  dr_targetUrl :: string
  dr_eventType :: string
  dr_idempotencyKey :: string
  dr_attempt :: int
  dr_success :: bool
  dr_responseCode :: "int option"
  dr_errorMessage :: "string option"

record dlq_row =
  dq_targetUrl :: string
  dq_eventType :: string
  dq_idempotencyKey :: string
  dq_payload :: string
  dq_attempts :: int
  dq_lastError :: "string option"
  dq_retriedAt :: "int option"

record audit_row =
  au_subscriptionId :: string
  au_url :: string
  au_passed :: bool
  au_reason :: "ssrf_reason option"
  au_disabled :: bool

record http_request =
  hr_url :: string
  hr_body :: string
  hr_headers :: "(string \<times> string) list"

record webhook_state =
  wh_subs :: "(string, subscription) table"
  wh_deliveries :: "delivery_row list"
  wh_dlq :: "(string, dlq_row) table"
  wh_audit :: "audit_row list"
  wh_posts :: "http_request list"
  wh_queue :: "outbound_job list"
  wh_mails :: "(string \<times> string) list"    \<comment> \<open>tenant and disabled subscription\<close>

datatype http_reply = Status int | Post_Error string

record delivery_result =
  dl_success :: bool
  dl_responseCode :: "int option"
  dl_error :: "string option"
  dl_signature :: string

section \<open>Dead-letter table\<close>

definition dlq_add :: "bool \<Rightarrow> string \<Rightarrow> outbound_job \<Rightarrow> int \<Rightarrow> string option \<Rightarrow> webhook_state \<Rightarrow> webhook_state" where
  "dlq_add db_ok newId job attempts lastError st =
     (if db_ok
      then st\<lparr>wh_dlq := wh_dlq st @ [(newId,
        \<lparr>dq_targetUrl = oj_targetUrl job, dq_eventType = oj_eventType job, dq_idempotencyKey = oj_idempotencyKey job,
         dq_payload = oj_payload job, dq_attempts = attempts, dq_lastError = lastError, dq_retriedAt = None\<rparr>)]\<rparr>
      else st)"

definition dlq_list :: "nat \<Rightarrow> webhook_state \<Rightarrow> (string \<times> dlq_row) list" where
  "dlq_list limit st = take limit (rev (findMany (\<lambda>_ r. dq_retriedAt r = None) (wh_dlq st)))"

definition dlq_retry :: "string option \<Rightarrow> string \<Rightarrow> int \<Rightarrow> (webhook_state, string, dlq_row) se" where
  "dlq_retry queueError dlqId nowMs st =
     (case findUnique (wh_dlq st) dlqId of
        None \<Rightarrow> (Inl (''DLQ entry '' @ dlqId @ '' not found''), st)
      | Some entry \<Rightarrow>
          let subscription = find (\<lambda>(_, s). sub_url s = dq_targetUrl entry \<and> sub_active s) (wh_subs st);
              job = \<lparr>oj_targetUrl = dq_targetUrl entry, oj_eventType = dq_eventType entry,
                     oj_idempotencyKey = dq_idempotencyKey entry, oj_payload = dq_payload entry,
                     oj_secret = map_option (\<lambda>(_, s). sub_secret s) subscription, oj_attempt = None\<rparr>
          in case queueError of
               Some e \<Rightarrow> (Inl e, st)
             | None \<Rightarrow>
                 (Inr (entry\<lparr>dq_retriedAt := Some nowMs\<rparr>),
                  st\<lparr>wh_queue := wh_queue st @ [job],
                     wh_dlq := updateMany (\<lambda>k _. k = dlqId) (\<lambda>r. r\<lparr>dq_retriedAt := Some nowMs\<rparr>) (wh_dlq st)\<rparr>))"

section \<open>Delivery\<close>

definition recordDelivery :: "bool \<Rightarrow> delivery_row \<Rightarrow> webhook_state \<Rightarrow> webhook_state" where
  "recordDelivery db_ok entry st = (if db_ok then st\<lparr>wh_deliveries := wh_deliveries st @ [entry]\<rparr> else st)"

definition deliveryLog :: "string \<Rightarrow> nat \<Rightarrow> webhook_state \<Rightarrow> delivery_row list" where
  "deliveryLog targetUrl limit st = take limit (rev (filter (\<lambda>d. dr_targetUrl d = targetUrl) (wh_deliveries st)))"

record delivery_env =
  de_hmac :: hmac
  de_nowMs :: int
  de_reply :: http_reply
  de_logOk :: bool
  de_dlqOk :: bool
  de_dlqId :: string

definition delivery_headers :: "outbound_job \<Rightarrow> int \<Rightarrow> string \<Rightarrow> (string \<times> string) list" where
  "delivery_headers job timestamp signature =
     [(''Content-Type'', ''application/json''), (''X-Event-Type'', oj_eventType job),
      (''X-Idempotency-Key'', oj_idempotencyKey job), (''X-Niffy-Timestamp'', show_int timestamp)] @
     (if signature \<noteq> [] then [(''X-Niffy-Signature'', signature)] else [])"

definition deliver :: "delivery_env \<Rightarrow> outbound_job \<Rightarrow> webhook_state \<Rightarrow> delivery_result \<times> webhook_state" where
  "deliver env job st =
     (let rawBody = oj_payload job;
          timestamp = de_nowMs env div 1000;
          signature = (case oj_secret job of None \<Rightarrow> []
            | Some s \<Rightarrow> if s = [] then [] else signRawBody (de_hmac env) s rawBody timestamp);
          attempt = (case oj_attempt job of None \<Rightarrow> 1 | Some a \<Rightarrow> a);
          st1 = st\<lparr>wh_posts := wh_posts st @ [\<lparr>hr_url = oj_targetUrl job, hr_body = rawBody,
                     hr_headers = delivery_headers job timestamp signature\<rparr>]\<rparr>;
          result = (case de_reply env of
              Status code \<Rightarrow>
                let success = (200 \<le> code \<and> code < 300)
                in \<lparr>dl_success = success, dl_responseCode = Some code,
                    dl_error = (if success then None else Some (''HTTP '' @ show_int code)), dl_signature = signature\<rparr>
            | Post_Error msg \<Rightarrow> \<lparr>dl_success = False, dl_responseCode = None, dl_error = Some msg, dl_signature = signature\<rparr>);
          st2 = recordDelivery (de_logOk env)
            \<lparr>dr_targetUrl = oj_targetUrl job, dr_eventType = oj_eventType job, dr_idempotencyKey = oj_idempotencyKey job,
             dr_attempt = attempt, dr_success = dl_success result, dr_responseCode = dl_responseCode result,
             dr_errorMessage = dl_error result\<rparr> st1;
          st3 = (if \<not> dl_success result \<and> isExhausted attempt DEFAULT_MAX_ATTEMPTS
                 then dlq_add (de_dlqOk env) (de_dlqId env) job attempt (dl_error result) st2 else st2)
      in (result, st3))"

section \<open>Worker and producer\<close>

text \<open>\<open>Buffer.byteLength(s, 'utf8')\<close>.\<close>

definition byte_length :: "string \<Rightarrow> int" where
  "byte_length s = (\<Sum>c\<leftarrow>s. if (of_char c :: nat) < 128 then 1 else 2)"

definition size_error :: "int \<Rightarrow> int \<Rightarrow> string" where
  "size_error payloadSize maxSize =
     ''Webhook payload size ('' @ show_int payloadSize @ '' bytes) exceeds limit ('' @ show_int maxSize @ '' bytes)''"

text \<open>The processor \<open>WebhooksModule.onModuleInit\<close> installs.\<close>

definition module_processor :: "delivery_env \<Rightarrow> outbound_job \<Rightarrow> (webhook_state, string, unit) se" where
  "module_processor env job st = (Inr (), snd (deliver env job st))"

definition outboundWebhookWorker ::
  "int \<Rightarrow> (outbound_job \<Rightarrow> (webhook_state, string, unit) se) \<Rightarrow> outbound_job \<Rightarrow> int \<Rightarrow> (webhook_state, string, unit) se" where
  "outboundWebhookWorker maxSize jobProcessor job attemptsMade st =
     (let payloadSize = byte_length (oj_payload job) in
      if maxSize < payloadSize then (Inl (size_error payloadSize maxSize), st)
      else jobProcessor (job\<lparr>oj_attempt := Some (attemptsMade + 1)\<rparr>) st)"

definition getSubscriberUrls :: "string \<Rightarrow> string list" where
  "getSubscriberUrls raw = filter (\<lambda>u. u \<noteq> []) (map trim (split_on (CHR '','') raw))"

text \<open>\<open>queueError\<close> is the error of \<open>queue.add\<close> for a target, if it throws, which ends the loop.\<close>

fun enqueueForEvent ::
  "(string \<Rightarrow> string) \<Rightarrow> (string \<Rightarrow> string option) \<Rightarrow> string \<Rightarrow> string list \<Rightarrow> string \<Rightarrow> string \<Rightarrow> (webhook_state, string, unit) se" where
  "enqueueForEvent base64url queueError eventType [] payload idempotencyKey st = (Inr (), st)"
| "enqueueForEvent base64url queueError eventType (targetUrl # urls) payload idempotencyKey st =
     (case queueError targetUrl of
        Some e \<Rightarrow> (Inl e, st)
      | None \<Rightarrow> enqueueForEvent base64url queueError eventType urls payload idempotencyKey
          (st\<lparr>wh_queue := wh_queue st @
             [\<lparr>oj_targetUrl = targetUrl, oj_eventType = eventType,
               oj_idempotencyKey = idempotencyKey @ '':'' @ take 16 (base64url targetUrl),
               oj_payload = payload, oj_secret = None, oj_attempt = None\<rparr>]\<rparr>))"

text \<open>The four producers differ in the event and in the variable with the URLs, here its value.\<close>

definition enqueue_configured ::
  "(string \<Rightarrow> string) \<Rightarrow> (string \<Rightarrow> string option) \<Rightarrow> string \<Rightarrow> string \<Rightarrow> string \<Rightarrow> string \<Rightarrow> (webhook_state, string, unit) se" where
  "enqueue_configured base64url queueError eventType raw payload idempotencyKey st =
     (let urls = getSubscriberUrls raw in
      if urls = [] then (Inr (), st) else enqueueForEvent base64url queueError eventType urls payload idempotencyKey st)"

definition deliverClaimFiled where
  "deliverClaimFiled base64url queueError raw payload key = enqueue_configured base64url queueError ''claim.filed'' raw payload key"

definition deliverPolicyExpired where
  "deliverPolicyExpired base64url queueError raw payload key = enqueue_configured base64url queueError ''policy.expired'' raw payload key"

definition deliverVoteCast where
  "deliverVoteCast base64url queueError raw payload key = enqueue_configured base64url queueError ''vote.cast'' raw payload key"

definition deliverTreasuryAlert where
  "deliverTreasuryAlert base64url queueError raw payload key =
     enqueue_configured base64url queueError ''treasury.balance_low'' raw payload key"

section \<open>Subscriptions\<close>

datatype sub_error = SSRF_Blocked ssrf_reason | Sub_Not_Found string

record create_dto =
  cd_url :: string
  cd_events :: "string list"
  cd_secret :: "string option"

record update_dto =
  ud_url :: "string option"
  ud_events :: "string list option"
  ud_active :: "bool option"

type_synonym dns = "string \<Rightarrow> string list option"

definition assertUrlIsSafe :: "(string \<Rightarrow> url option) \<Rightarrow> dns \<Rightarrow> string \<Rightarrow> sub_error option" where
  "assertUrlIsSafe parse_url lookup u =
     (case assertSafeWebhookUrlResolved parse_url lookup u of Inl e \<Rightarrow> Some (SSRF_Blocked e) | Inr _ \<Rightarrow> None)"

definition sub_create ::
  "(string \<Rightarrow> url option) \<Rightarrow> dns \<Rightarrow> string \<Rightarrow> string \<Rightarrow> create_dto \<Rightarrow> string option \<Rightarrow> (webhook_state, sub_error, subscription) se" where
  "sub_create parse_url lookup newId newSecret dto tenantId st =
     (case assertUrlIsSafe parse_url lookup (cd_url dto) of
        Some e \<Rightarrow> (Inl e, st)
      | None \<Rightarrow>
          let s = \<lparr>sub_tenantId = tenantId, sub_url = cd_url dto, sub_events = cd_events dto,
                   sub_secret = (case cd_secret dto of None \<Rightarrow> newSecret | Some k \<Rightarrow> k), sub_active = True\<rparr>
          in (Inr s, st\<lparr>wh_subs := wh_subs st @ [(newId, s)]\<rparr>))"

definition sub_list :: "string option \<Rightarrow> webhook_state \<Rightarrow> (string \<times> subscription) list" where
  "sub_list tenantId st =
     rev (findMany (\<lambda>_ s. tenantId = None \<or> tenantId = Some [] \<or> sub_tenantId s = tenantId) (wh_subs st))"

definition sub_get :: "string \<Rightarrow> (webhook_state, sub_error, subscription) se" where
  "sub_get subId st = (case findUnique (wh_subs st) subId of None \<Rightarrow> (Inl (Sub_Not_Found subId), st) | Some s \<Rightarrow> (Inr s, st))"

definition apply_update :: "update_dto \<Rightarrow> subscription \<Rightarrow> subscription" where
  "apply_update dto s =
     s\<lparr>sub_url := (case ud_url dto of None \<Rightarrow> sub_url s | Some u \<Rightarrow> u),
       sub_events := (case ud_events dto of None \<Rightarrow> sub_events s | Some e \<Rightarrow> e),
       sub_active := (case ud_active dto of None \<Rightarrow> sub_active s | Some a \<Rightarrow> a)\<rparr>"

definition sub_update :: "(string \<Rightarrow> url option) \<Rightarrow> dns \<Rightarrow> string \<Rightarrow> update_dto \<Rightarrow> (webhook_state, sub_error, subscription) se" where
  "sub_update parse_url lookup subId dto st =
     (case sub_get subId st of
        (Inl e, st) \<Rightarrow> (Inl e, st)
      | (Inr s, st) \<Rightarrow>
          (case (case ud_url dto of None \<Rightarrow> None
                 | Some u \<Rightarrow> if u = [] then None else assertUrlIsSafe parse_url lookup u) of
             Some e \<Rightarrow> (Inl e, st)
           | None \<Rightarrow> (Inr (apply_update dto s),
               st\<lparr>wh_subs := updateMany (\<lambda>k _. k = subId) (apply_update dto) (wh_subs st)\<rparr>)))"

definition sub_remove :: "string \<Rightarrow> (webhook_state, sub_error, string) se" where
  "sub_remove subId st =
     (case sub_get subId st of
        (Inl e, st) \<Rightarrow> (Inl e, st)
      | (Inr s, st) \<Rightarrow> (Inr subId, st\<lparr>wh_subs := filter (\<lambda>(k, _). k \<noteq> subId) (wh_subs st)\<rparr>))"

definition findSubscribers :: "string \<Rightarrow> webhook_state \<Rightarrow> (string \<times> subscription) list" where
  "findSubscribers eventType st = findMany (\<lambda>_ s. sub_active s \<and> eventType \<in> set (sub_events s)) (wh_subs st)"

section \<open>Re-validation\<close>

text \<open>\<open>contact\<close> gives a tenant's email address; an error of the mail server is only logged.\<close>

definition notifyTenant :: "(string \<Rightarrow> string option) \<Rightarrow> string option \<Rightarrow> string \<Rightarrow> webhook_state \<Rightarrow> webhook_state" where
  "notifyTenant contact tenantId subId st =
     (case tenantId of None \<Rightarrow> st
      | Some t \<Rightarrow> if t = [] then st
          else (case contact t of None \<Rightarrow> st
                | Some e \<Rightarrow> if e = [] then st else st\<lparr>wh_mails := wh_mails st @ [(e, subId)]\<rparr>))"

definition revalidate_one ::
  "(string \<Rightarrow> url option) \<Rightarrow> dns \<Rightarrow> (string \<Rightarrow> string option) \<Rightarrow> webhook_state \<times> int \<Rightarrow> string \<times> subscription \<Rightarrow> webhook_state \<times> int" where
  "revalidate_one parse_url lookup contact acc idSub =
     (let (st, disabled) = acc; (subId, s) = idSub;
          reason = (case assertSafeWebhookUrlResolved parse_url lookup (sub_url s) of Inl e \<Rightarrow> Some e | Inr _ \<Rightarrow> None);
          (st1, disabled1) =
            (if reason \<noteq> None
             then (notifyTenant contact (sub_tenantId s) subId
                     (st\<lparr>wh_subs := updateMany (\<lambda>k _. k = subId) (\<lambda>r. r\<lparr>sub_active := False\<rparr>) (wh_subs st)\<rparr>), disabled + 1)
             else (st, disabled))
      in (st1\<lparr>wh_audit := wh_audit st1 @ [\<lparr>au_subscriptionId = subId, au_url = sub_url s,
                 au_passed = (reason = None), au_reason = reason, au_disabled = (reason \<noteq> None)\<rparr>]\<rparr>, disabled1))"

definition revalidateAll ::
  "(string \<Rightarrow> url option) \<Rightarrow> dns \<Rightarrow> (string \<Rightarrow> string option) \<Rightarrow> webhook_state \<Rightarrow> (int \<times> int) \<times> webhook_state" where
  "revalidateAll parse_url lookup contact st =
     (let subs = findMany (\<lambda>_ s. sub_active s) (wh_subs st);
          (st', disabled) = foldl (revalidate_one parse_url lookup contact) (st, 0) subs
      in ((int (length subs), disabled), st'))"


section \<open>Registration\<close>

datatype webhook_status = PENDING | ACTIVE | INACTIVE

record registered_webhook =
  rw_url :: string
  rw_eventType :: string
  rw_status :: webhook_status
  rw_createdAt :: int
  rw_verifiedAt :: "int option"
  rw_secret :: string
  rw_failedAttempts :: int

record registry =
  rg_webhooks :: "(string \<times> registered_webhook) list"
  rg_challenges :: "string \<rightharpoonup> string \<times> int"    \<comment> \<open>token and expiry\<close>

datatype reg_error = Invalid_Url | Already_Active | Unknown_Webhook | Challenge_Expired | Invalid_Response | Send_Failed

record registry_env =
  re_parse_url :: "string \<Rightarrow> url option"
  re_challengeTimeoutMs :: int
  re_maxVerificationAttempts :: int

definition validateWebhookUrl :: "registry_env \<Rightarrow> string \<Rightarrow> bool" where
  "validateWebhookUrl env u =
     (case re_parse_url env u of None \<Rightarrow> False
      | Some p \<Rightarrow> url_protocol p \<in> {''http:'', ''https:''} \<and> url_hostname p \<notin> {''localhost'', ''127.0.0.1''})"

definition set_webhook :: "string \<Rightarrow> (registered_webhook \<Rightarrow> registered_webhook) \<Rightarrow> registry \<Rightarrow> registry" where
  "set_webhook wid f rg = rg\<lparr>rg_webhooks := updateMany (\<lambda>k _. k = wid) f (rg_webhooks rg)\<rparr>"

definition registerWebhook ::
  "registry_env \<Rightarrow> string \<Rightarrow> string \<Rightarrow> string \<Rightarrow> string \<Rightarrow> string \<Rightarrow> int \<Rightarrow> (registry, reg_error, registered_webhook) se" where
  "registerWebhook env u eventType wid secret token nowMs rg =
     (let existing = find (\<lambda>(_, w). rw_url w = u \<and> rw_eventType w = eventType) (rg_webhooks rg);
          w = \<lparr>rw_url = u, rw_eventType = eventType, rw_status = PENDING, rw_createdAt = nowMs,
               rw_verifiedAt = None, rw_secret = secret, rw_failedAttempts = 0\<rparr>
      in if \<not> validateWebhookUrl env u then (Inl Invalid_Url, rg)
         else if (case existing of Some (_, w) \<Rightarrow> rw_status w = ACTIVE | None \<Rightarrow> False) then (Inl Already_Active, rg)
         else (Inr w, \<lparr>rg_webhooks = upsert wid w (\<lambda>_. w) (rg_webhooks rg),
                       rg_challenges = (rg_challenges rg)(wid \<mapsto> (token, nowMs + re_challengeTimeoutMs env))\<rparr>))"

text \<open>The timer that \<open>registerWebhook\<close> sets.\<close>

definition challenge_expires :: "string \<Rightarrow> registry \<Rightarrow> registry" where
  "challenge_expires wid rg = rg\<lparr>rg_challenges := (rg_challenges rg)(wid := None)\<rparr>"

definition sendVerificationChallenge :: "registry_env \<Rightarrow> bool \<Rightarrow> string \<Rightarrow> (registry, reg_error, unit) se" where
  "sendVerificationChallenge env post_ok wid rg =
     (case findUnique (rg_webhooks rg) wid of None \<Rightarrow> (Inl Unknown_Webhook, rg)
      | Some w \<Rightarrow>
        (case rg_challenges rg wid of None \<Rightarrow> (Inl Challenge_Expired, rg)
         | Some _ \<Rightarrow>
             if post_ok then (Inr (), rg)
             else (Inl Send_Failed, set_webhook wid (\<lambda>w. let n = rw_failedAttempts w + 1 in
                     w\<lparr>rw_failedAttempts := n,
                       rw_status := (if re_maxVerificationAttempts env \<le> n then INACTIVE else rw_status w)\<rparr>) rg)))"

definition verifyRegisteredWebhook :: "string \<Rightarrow> string \<Rightarrow> int \<Rightarrow> (registry, reg_error, registered_webhook) se" where
  "verifyRegisteredWebhook wid response nowMs rg =
     (case findUnique (rg_webhooks rg) wid of None \<Rightarrow> (Inl Unknown_Webhook, rg)
      | Some w \<Rightarrow>
          if rw_status w = ACTIVE then (Inr w, rg)
          else (case rg_challenges rg wid of None \<Rightarrow> (Inl Challenge_Expired, rg)
            | Some (token, _) \<Rightarrow>
                if response \<noteq> token then (Inl Invalid_Response, rg)
                else let act = (\<lambda>w. w\<lparr>rw_status := ACTIVE, rw_verifiedAt := Some nowMs\<rparr>)
                     in (Inr (act w), challenge_expires wid (set_webhook wid act rg))))"

definition getWebhook :: "string \<Rightarrow> registry \<Rightarrow> registered_webhook option" where
  "getWebhook wid rg = findUnique (rg_webhooks rg) wid"

definition listWebhooks :: "string \<Rightarrow> webhook_status option \<Rightarrow> registry \<Rightarrow> (string \<times> registered_webhook) list" where
  "listWebhooks eventType statusFilter rg =
     findMany (\<lambda>_ w. rw_eventType w = eventType \<and> (statusFilter = None \<or> Some (rw_status w) = statusFilter)) (rg_webhooks rg)"

definition deactivateWebhook :: "string \<Rightarrow> (registry, reg_error, registered_webhook) se" where
  "deactivateWebhook wid rg =
     (case findUnique (rg_webhooks rg) wid of None \<Rightarrow> (Inl Unknown_Webhook, rg)
      | Some w \<Rightarrow> (Inr (w\<lparr>rw_status := INACTIVE\<rparr>), set_webhook wid (\<lambda>w. w\<lparr>rw_status := INACTIVE\<rparr>) rg))"

definition deleteWebhook :: "string \<Rightarrow> registry \<Rightarrow> registry" where
  "deleteWebhook wid rg =
     \<lparr>rg_webhooks = filter (\<lambda>(k, _). k \<noteq> wid) (rg_webhooks rg), rg_challenges = (rg_challenges rg)(wid := None)\<rparr>"

datatype reg_op = Register string string string string string int | Expire string | Send bool string
  | Verify string string int | Deactivate string | Delete string

fun reg_step :: "registry_env \<Rightarrow> registry \<Rightarrow> reg_op \<Rightarrow> registry" where
  "reg_step env rg (Register u e wid secret token t) = snd (registerWebhook env u e wid secret token t rg)"
| "reg_step env rg (Expire wid) = challenge_expires wid rg"
| "reg_step env rg (Send ok wid) = snd (sendVerificationChallenge env ok wid rg)"
| "reg_step env rg (Verify wid resp t) = snd (verifyRegisteredWebhook wid resp t rg)"
| "reg_step env rg (Deactivate wid) = snd (deactivateWebhook wid rg)"
| "reg_step env rg (Delete wid) = deleteWebhook wid rg"


section \<open>Runs\<close>

text \<open>What BullMQ does with one job: the number of runs, whether the last one threw, and the state.\<close>

inductive bull_runs :: "(int \<Rightarrow> ('s, 'e, unit) se) \<Rightarrow> 's \<Rightarrow> int \<Rightarrow> bool \<Rightarrow> 's \<Rightarrow> bool" for p :: "int \<Rightarrow> ('s, 'e, unit) se" and s :: 's where
  first: "bull_runs p s 1 (isl (fst (p 0 s))) (snd (p 0 s))"
| again: "bull_runs p s n True s' \<Longrightarrow> bull_runs p s (n + 1) (isl (fst (p n s'))) (snd (p n s'))"

datatype sub_op = Create dns string string create_dto "string option" | Update dns string update_dto
  | Remove string | Revalidate dns "string \<Rightarrow> string option"

fun sub_step :: "(string \<Rightarrow> url option) \<Rightarrow> webhook_state \<Rightarrow> sub_op \<Rightarrow> webhook_state" where
  "sub_step pu st (Create dns newId newSecret dto t) = snd (sub_create pu dns newId newSecret dto t st)"
| "sub_step pu st (Update dns subId dto) = snd (sub_update pu dns subId dto st)"
| "sub_step pu st (Remove subId) = snd (sub_remove subId st)"
| "sub_step pu st (Revalidate dns contact) = snd (revalidateAll pu dns contact st)"

definition subs_safe :: "(string \<Rightarrow> url option) \<Rightarrow> webhook_state \<Rightarrow> bool" where
  "subs_safe pu st = list_all (\<lambda>(_, s). sub_url s = [] \<or> (\<exists>u. assertSafeWebhookUrl pu (sub_url s) = Inr u)) (wh_subs st)"

section \<open>Lemmas\<close>

lemma resolved_safe: "assertSafeWebhookUrlResolved pu l u = Inr v \<Longrightarrow> assertSafeWebhookUrl pu u = Inr v"
  by (auto simp: assertSafeWebhookUrlResolved_def Let_def split: sum.splits if_splits option.splits)

lemma url_safe: "assertUrlIsSafe pu l u = None \<Longrightarrow> \<exists>v. assertSafeWebhookUrl pu u = Inr v"
  using resolved_safe by (fastforce simp: assertUrlIsSafe_def split: sum.splits)

lemma list_all_updateMany:
  "\<lbrakk>list_all P t; \<And>k v. P (k, v) \<Longrightarrow> p k v \<Longrightarrow> P (k, f v)\<rbrakk> \<Longrightarrow> list_all P (updateMany p f t)"
  by (auto simp: updateMany_def list_all_iff)

lemma notifyTenant_subs [simp]:
  "wh_subs (notifyTenant c t i st) = wh_subs st" "wh_audit (notifyTenant c t i st) = wh_audit st"
  by (simp_all add: notifyTenant_def split: option.split)

definition passes :: "(string \<Rightarrow> url option) \<Rightarrow> dns \<Rightarrow> subscription \<Rightarrow> bool" where
  "passes pu lookup s = (\<exists>u. assertSafeWebhookUrlResolved pu lookup (sub_url s) = Inr u)"

lemma passes_iff: "passes pu l s \<longleftrightarrow> \<not> isl (assertSafeWebhookUrlResolved pu l (sub_url s))"
  by (auto simp: passes_def isl_def split: sum.splits)
    (metis sum.exhaust)

lemma revalidate_one_subs:
  "wh_subs (fst (revalidate_one pu l c (st, n) (i, s))) =
     (if passes pu l s then wh_subs st else updateMany (\<lambda>k _. k = i) (\<lambda>r. r\<lparr>sub_active := False\<rparr>) (wh_subs st))"
  "snd (revalidate_one pu l c (st, n) (i, s)) = (if passes pu l s then n else n + 1)"
  "map (\<lambda>a. (au_subscriptionId a, au_passed a)) (wh_audit (fst (revalidate_one pu l c (st, n) (i, s)))) =
     map (\<lambda>a. (au_subscriptionId a, au_passed a)) (wh_audit st) @ [(i, passes pu l s)]"
  by (auto simp: revalidate_one_def passes_def Let_def split: sum.splits)

definition disable_all :: "string set \<Rightarrow> (string, subscription) table \<Rightarrow> (string, subscription) table" where
  "disable_all ids t = updateMany (\<lambda>k _. k \<in> ids) (\<lambda>r. r\<lparr>sub_active := False\<rparr>) t"

lemma disable_all_step:
  "disable_all I (updateMany (\<lambda>k _. k = i) (\<lambda>r. r\<lparr>sub_active := False\<rparr>) t) = disable_all (insert i I) t"
  by (auto simp: disable_all_def updateMany_def)

lemma disable_none: "disable_all {} t = t"
  by (auto simp: disable_all_def updateMany_def case_prod_unfold)

lemma revalidate_fold:
  "let r = foldl (revalidate_one pu l c) (st, n) subs; bad = filter (\<lambda>(_, s). \<not> passes pu l s) subs in
     wh_subs (fst r) = disable_all (fst ` set bad) (wh_subs st) \<and> snd r = n + int (length bad) \<and>
     map (\<lambda>a. (au_subscriptionId a, au_passed a)) (wh_audit (fst r)) =
       map (\<lambda>a. (au_subscriptionId a, au_passed a)) (wh_audit st) @ map (\<lambda>(i, s). (i, passes pu l s)) subs"
proof (induction subs arbitrary: st n)
  case Nil
  show ?case by (simp add: disable_none Let_def)
next
  case (Cons x subs)
  obtain i s where x: "x = (i, s)" by (cases x)
  obtain st1 n1 where r: "revalidate_one pu l c (st, n) (i, s) = (st1, n1)" by fastforce
  show ?case
    using Cons.IH [of st1 n1] revalidate_one_subs [of pu l c st n i s]
    by (cases "passes pu l s") (simp_all add: x r Let_def disable_all_step)
qed

lemma subs_safe_revalidate: "subs_safe pu st \<Longrightarrow> subs_safe pu (snd (revalidateAll pu l c st))"
  using revalidate_fold [of pu l c st 0 "findMany (\<lambda>_ s. sub_active s) (wh_subs st)"]
  by (auto simp: revalidateAll_def subs_safe_def disable_all_def Let_def case_prod_unfold intro!: list_all_updateMany)

lemma subs_safe_step: "subs_safe pu st \<Longrightarrow> subs_safe pu (sub_step pu st op)"
proof (cases op)
  case (Create l newId newSecret dto t)
  assume "subs_safe pu st"
  then show ?thesis using url_safe [of pu l "cd_url dto"]
    by (auto simp: Create sub_create_def subs_safe_def Let_def split: option.split)
next
  case (Update l subId dto)
  assume safe: "subs_safe pu st"
  have "list_all (\<lambda>(_, s). sub_url s = [] \<or> (\<exists>u. assertSafeWebhookUrl pu (sub_url s) = Inr u))
      (updateMany (\<lambda>k _. k = subId) (apply_update dto) (wh_subs st))"
    if "(case ud_url dto of None \<Rightarrow> None | Some u \<Rightarrow> if u = [] then None else assertUrlIsSafe pu l u) = None"
    using safe [unfolded subs_safe_def] that url_safe [of pu l]
    by (rule_tac list_all_updateMany) (auto simp: apply_update_def split: option.splits if_splits)
  then show ?thesis using safe
    by (auto simp: Update sub_update_def sub_get_def subs_safe_def split: option.split)
next
  case (Remove subId)
  assume "subs_safe pu st"
  then show ?thesis
    by (auto simp: Remove sub_remove_def sub_get_def subs_safe_def list_all_iff split: option.split)
next
  case (Revalidate l c)
  assume "subs_safe pu st"
  then show ?thesis using subs_safe_revalidate by (simp add: Revalidate)
qed

interpretation subs: step_system "sub_step pu" "subs_safe pu" for pu
  by unfold_locales (rule subs_safe_step)


section \<open>Properties\<close>

lemma delivery_row_exists: "\<exists>d :: delivery_row. dr_attempt d = a \<and> dr_success d = b"
  by (rule exI [of _ "\<lparr>dr_targetUrl = [], dr_eventType = [], dr_idempotencyKey = [], dr_attempt = a, dr_success = b,
      dr_responseCode = None, dr_errorMessage = None\<rparr>"]) simp

text \<open>A failed delivery is final. The processor that is installed gives the worker no error to
  throw, so for a payload within the size limit BullMQ runs the job exactly once, whatever the
  receiver answers: one request is posted, one log row records whether the answer was a 2xx, no
  further attempt is made and nothing reaches the dead-letter table.\<close>

theorem outbound_failure_final:
  assumes "bull_runs (\<lambda>n. outboundWebhookWorker maxSize (module_processor (envs n)) job n) st n threw st'"
    and "byte_length (oj_payload job) \<le> maxSize"
  shows "n = 1 \<and> \<not> threw \<and> length (wh_posts st') = length (wh_posts st) + 1 \<and> wh_dlq st' = wh_dlq st \<and>
     wh_queue st' = wh_queue st \<and>
     (\<exists>d. wh_deliveries st' = wh_deliveries st @ (if de_logOk (envs 0) then [d] else []) \<and> dr_attempt d = 1 \<and>
        dr_success d = (case de_reply (envs 0) of Status c \<Rightarrow> 200 \<le> c \<and> c < 300 | Post_Error _ \<Rightarrow> False))"
  using assms
proof (induction rule: bull_runs.induct)
  case first
  then show ?case
    by (auto simp: outboundWebhookWorker_def module_processor_def deliver_def recordDelivery_def isExhausted_def
        DEFAULT_MAX_ATTEMPTS_def Let_def delivery_row_exists split: http_reply.split)
next
  case (again n s')
  then show ?case by simp
qed

definition demo_job :: outbound_job where
  "demo_job = \<lparr>oj_targetUrl = ''https://a.org'', oj_eventType = ''claim.filed'', oj_idempotencyKey = ''k'',
     oj_payload = ''{}'', oj_secret = None, oj_attempt = None\<rparr>"

definition demo_webhooks :: webhook_state where
  "demo_webhooks = \<lparr>wh_subs = [], wh_deliveries = [], wh_dlq = [], wh_audit = [], wh_posts = [], wh_queue = [], wh_mails = []\<rparr>"

definition demo_delivery :: "int \<Rightarrow> delivery_env" where
  "demo_delivery n = \<lparr>de_hmac = (\<lambda>k c. c), de_nowMs = 1000, de_reply = Status 503, de_logOk = True, de_dlqOk = True, de_dlqId = ''d''\<rparr>"

theorem outbound_failure_final_witness:
  "\<exists>st'. bull_runs (\<lambda>n. outboundWebhookWorker 100 (module_processor (demo_delivery n)) demo_job n) demo_webhooks 1 False st' \<and>
     wh_dlq st' = [] \<and> map dr_success (wh_deliveries st') = [False]"
proof -
  let ?p = "\<lambda>n. outboundWebhookWorker 100 (module_processor (demo_delivery n)) demo_job n"
  have size: "byte_length (oj_payload demo_job) \<le> 100" by (simp add: demo_job_def byte_length_def)
  have run: "bull_runs ?p demo_webhooks 1 (isl (fst (?p 0 demo_webhooks))) (snd (?p 0 demo_webhooks))" by (rule first)
  have final: "\<not> isl (fst (?p 0 demo_webhooks)) \<and> wh_dlq (snd (?p 0 demo_webhooks)) = wh_dlq demo_webhooks \<and>
     (\<exists>d. wh_deliveries (snd (?p 0 demo_webhooks)) = wh_deliveries demo_webhooks @ [d] \<and> \<not> dr_success d)"
    using outbound_failure_final [OF run size] by (auto simp: demo_delivery_def)
  then have "bull_runs ?p demo_webhooks 1 False (snd (?p 0 demo_webhooks))" using run by simp
  then show ?thesis using final by (auto simp: demo_webhooks_def)
qed

text \<open>No subscription is stored with an unsafe URL: starting with none, after any sequence of
  creations, updates, removals and re-validations, whatever DNS answers at each, every stored URL that
  is not empty (the DTO refuses an empty one) passed the checks of \<open>ssrf.ts\<close> that do not need DNS.\<close>

theorem subscriptions_stay_safe:
  "list_all (\<lambda>(_, s). sub_url s = [] \<or> (\<exists>u. assertSafeWebhookUrl pu (sub_url s) = Inr u))
     (wh_subs (run_steps (sub_step pu) (st\<lparr>wh_subs := []\<rparr>) ops))"
  using subs.run_inv [of pu "st\<lparr>wh_subs := []\<rparr>" ops] by (simp add: subs_safe_def)

text \<open>The daily re-validation disables exactly the subscriptions that fail it: with unique ids, a
  subscription is active afterwards if and only if it was active and its URL passes the full check
  under the DNS answers of the run; nothing else of any row changes; one audit row per subscription
  that was active says, in order, whether it passed; and the returned counts are exact.\<close>

theorem revalidation_exact:
  assumes "keys_unique (wh_subs st)"
  shows "case revalidateAll pu lookup contact st of ((checked, disabled), st') \<Rightarrow>
     wh_subs st' = map (\<lambda>(k, s). (k, s\<lparr>sub_active := (sub_active s \<and> passes pu lookup s)\<rparr>)) (wh_subs st) \<and>
     map (\<lambda>a. (au_subscriptionId a, au_passed a)) (wh_audit st') =
       map (\<lambda>a. (au_subscriptionId a, au_passed a)) (wh_audit st) @
       map (\<lambda>(k, s). (k, passes pu lookup s)) (filter (\<lambda>(_, s). sub_active s) (wh_subs st)) \<and>
     checked = count_where (\<lambda>_ s. sub_active s) (wh_subs st) \<and>
     disabled = count_where (\<lambda>_ s. sub_active s \<and> \<not> passes pu lookup s) (wh_subs st)"
proof -
  define act where "act = findMany (\<lambda>_ s. sub_active s) (wh_subs st)"
  define bad where "bad = filter (\<lambda>(_, s). \<not> passes pu lookup s) act"
  obtain st' n where r: "foldl (revalidate_one pu lookup contact) (st, 0) act = (st', n)" by fastforce
  have run: "revalidateAll pu lookup contact st = ((int (length act), n), st')"
    by (simp add: revalidateAll_def act_def [symmetric] r Let_def)
  have bad: "bad = findMany (\<lambda>_ s. sub_active s \<and> \<not> passes pu lookup s) (wh_subs st)"
    by (simp add: bad_def act_def findMany_def case_prod_unfold conj_commute)
  have unique: "k \<in> fst ` set bad \<longleftrightarrow> sub_active s \<and> \<not> passes pu lookup s" if "(k, s) \<in> set (wh_subs st)" for k s
    using assms that by (force simp: bad findMany_def keys_unique_def dest: eq_key_imp_eq_value)
  have "disable_all (fst ` set bad) (wh_subs st) =
      map (\<lambda>(k, s). (k, s\<lparr>sub_active := (sub_active s \<and> passes pu lookup s)\<rparr>)) (wh_subs st)"
    unfolding disable_all_def updateMany_def
    by (rule map_cong [OF refl]) (auto simp: unique)
  moreover have "wh_subs st' = disable_all (fst ` set bad) (wh_subs st)" "n = int (length bad)"
    "map (\<lambda>a. (au_subscriptionId a, au_passed a)) (wh_audit st') =
       map (\<lambda>a. (au_subscriptionId a, au_passed a)) (wh_audit st) @ map (\<lambda>(i, s). (i, passes pu lookup s)) act"
    using revalidate_fold [of pu lookup contact st 0 act] by (simp_all add: r bad_def Let_def)
  ultimately show ?thesis
    by (simp add: run count_where_def bad) (simp add: act_def findMany_def)
qed

definition demo_sub :: "string \<Rightarrow> subscription" where
  "demo_sub u = \<lparr>sub_tenantId = None, sub_url = u, sub_events = [], sub_secret = [], sub_active = True\<rparr>"

theorem revalidation_exact_witness:
  "map (sub_active \<circ> snd) (wh_subs (snd (revalidateAll (\<lambda>u. if u = ''x'' then None else Some demo_url)
      (\<lambda>_. Some [''8.8.8.8'']) (\<lambda>_. None) (demo_webhooks\<lparr>wh_subs := [(''1'', demo_sub ''x''), (''2'', demo_sub ''y'')]\<rparr>))))
   = [False, True]"
proof -
  let ?pu = "\<lambda>u. if u = ''x'' then None else Some demo_url"
  let ?st = "demo_webhooks\<lparr>wh_subs := [(''1'', demo_sub ''x''), (''2'', demo_sub ''y'')]\<rparr>"
  have "keys_unique (wh_subs ?st)" by (simp add: keys_unique_def)
  moreover have "isl (assertSafeWebhookUrlResolved ?pu (\<lambda>_. Some [''8.8.8.8'']) (sub_url (demo_sub ''x'')))"
    "\<not> isl (assertSafeWebhookUrlResolved ?pu (\<lambda>_. Some [''8.8.8.8'']) (sub_url (demo_sub ''y'')))"
    by code_simp+
  ultimately show ?thesis
    using revalidation_exact [of ?st ?pu "\<lambda>_. Some [''8.8.8.8'']" "\<lambda>_. None"]
    by (simp add: passes_iff case_prod_unfold del: isl_def) (simp add: demo_sub_def)
qed

text \<open>A subscription that was disabled can be switched on again with no check of its URL.\<close>

lemma reactivate_unchecked:
  assumes "findUnique (wh_subs st) i = Some s"
  shows "findUnique (wh_subs (snd (sub_update pu lookup i \<lparr>ud_url = None, ud_events = None, ud_active = Some True\<rparr> st))) i
     = Some (s\<lparr>sub_active := True\<rparr>)"
  using assms by (simp add: sub_update_def sub_get_def apply_update_def)


section \<open>Activation of registered webhooks\<close>

text \<open>The history holds the registration that issued a token and, later, the answer with it.\<close>

definition registered :: "string \<Rightarrow> string \<Rightarrow> reg_op list \<Rightarrow> bool" where
  "registered wid token ops = (\<exists>u e secret t. Register u e wid secret token t \<in> set ops)"

definition answered :: "string \<Rightarrow> reg_op list \<Rightarrow> bool" where
  "answered wid ops = (\<exists>before after token t. ops = before @ Verify wid token t # after \<and> registered wid token before)"

definition activation_inv :: "reg_op list \<Rightarrow> registry \<Rightarrow> bool" where
  "activation_inv ops rg \<longleftrightarrow>
     (\<forall>wid token ex. rg_challenges rg wid = Some (token, ex) \<longrightarrow> registered wid token ops) \<and>
     (\<forall>wid w. findUnique (rg_webhooks rg) wid = Some w \<longrightarrow> rw_status w = ACTIVE \<longrightarrow> answered wid ops)"

lemma registered_snoc: "registered wid token ops \<Longrightarrow> registered wid token (ops @ [op])"
  by (auto simp: registered_def)

lemma answered_snoc: "answered wid ops \<Longrightarrow> answered wid (ops @ [op])"
  unfolding answered_def by (metis append.assoc append_Cons)

lemma answered_now: "registered wid token ops \<Longrightarrow> answered wid (ops @ [Verify wid token t])"
  unfolding answered_def by blast

lemma findUnique_filter_key:
  "findUnique (filter (\<lambda>(k, _). k \<noteq> wid) t) k' = (if k' = wid then None else findUnique t k')"
  unfolding findUnique_def by (induction t) auto

lemma findUnique_set_webhook:
  "findUnique (rg_webhooks (set_webhook wid f rg)) k =
     map_option (\<lambda>w. if k = wid then f w else w) (findUnique (rg_webhooks rg) k)"
  by (simp add: set_webhook_def)

lemma set_webhook_challenges [simp]: "rg_challenges (set_webhook wid f rg) = rg_challenges rg"
  by (simp add: set_webhook_def)

lemma activation_weaken:
  assumes "activation_inv ops rg"
    and "\<And>wid token ex. rg_challenges rg' wid = Some (token, ex) \<Longrightarrow> rg_challenges rg wid = Some (token, ex) \<or> registered wid token (ops @ [op])"
    and "\<And>wid w. findUnique (rg_webhooks rg') wid = Some w \<Longrightarrow> rw_status w = ACTIVE \<Longrightarrow>
      (\<exists>w. findUnique (rg_webhooks rg) wid = Some w \<and> rw_status w = ACTIVE) \<or> answered wid (ops @ [op])"
  shows "activation_inv (ops @ [op]) rg'"
  using assms registered_snoc answered_snoc unfolding activation_inv_def by metis

lemma activation_step:
  assumes inv: "activation_inv ops rg"
  shows "activation_inv (ops @ [op]) (reg_step env rg op)"
proof (cases op)
  case (Register u e wid secret token t)
  have new: "registered wid token (ops @ [op])" by (auto simp: Register registered_def)
  show ?thesis
    by (rule activation_weaken [OF inv])
      (use new in \<open>auto simp: Register registerWebhook_def Let_def findUnique_upsert split: if_splits option.splits\<close>)
next
  case (Expire wid)
  show ?thesis
    by (rule activation_weaken [OF inv]) (auto simp: Expire challenge_expires_def split: if_splits)
next
  case (Send ok wid)
  show ?thesis
    by (rule activation_weaken [OF inv])
      (auto simp: Send sendVerificationChallenge_def findUnique_set_webhook Let_def split: option.splits if_splits)
next
  case (Verify wid resp t)
  have "answered wid (ops @ [op])" if "rg_challenges rg wid = Some (resp, ex)" for ex
    using inv that answered_now unfolding activation_inv_def Verify by blast
  then show ?thesis
    by (intro activation_weaken [OF inv])
      (auto simp: Verify verifyRegisteredWebhook_def challenge_expires_def findUnique_set_webhook Let_def split: option.splits if_splits)
next
  case (Deactivate wid)
  show ?thesis
    by (rule activation_weaken [OF inv])
      (auto simp: Deactivate deactivateWebhook_def findUnique_set_webhook split: option.splits if_splits)
next
  case (Delete wid)
  show ?thesis
    by (rule activation_weaken [OF inv]) (auto simp: Delete deleteWebhook_def findUnique_filter_key split: if_splits)
qed

interpretation registration: step_system "\<lambda>hist_rg op. (fst hist_rg @ [op], reg_step env (snd hist_rg) op)"
  "\<lambda>hist_rg. activation_inv (fst hist_rg) (snd hist_rg)" for env
  by unfold_locales (simp add: activation_step)

lemma run_with_history:
  "run_steps (\<lambda>hist_rg op. (fst hist_rg @ [op], reg_step env (snd hist_rg) op)) (h, rg) ops =
     (h @ ops, run_steps (reg_step env) rg ops)"
  by (induction ops arbitrary: h rg) simp_all

text \<open>A webhook becomes active only by proving control of its URL: in any sequence of
  registrations, sent challenges, answers, expiries, deactivations and deletions that starts with an
  empty registry, a webhook that is active at the end has been answered with the very token that an
  earlier registration under its id issued.\<close>

theorem activation_needs_token:
  assumes "getWebhook wid (run_steps (reg_step env) \<lparr>rg_webhooks = [], rg_challenges = Map.empty\<rparr> ops) = Some w"
    and "rw_status w = ACTIVE"
  shows "\<exists>before after token t u e secret t'.
     ops = before @ Verify wid token t # after \<and> Register u e wid secret token t' \<in> set before"
proof -
  have "activation_inv [] \<lparr>rg_webhooks = [], rg_challenges = Map.empty\<rparr>" by (simp add: activation_inv_def findUnique_def)
  then have "activation_inv ops (run_steps (reg_step env) \<lparr>rg_webhooks = [], rg_challenges = Map.empty\<rparr> ops)"
    using registration.run_inv [of "([], \<lparr>rg_webhooks = [], rg_challenges = Map.empty\<rparr>)" env ops] by (simp add: run_with_history)
  then have "answered wid ops" using assms by (auto simp: activation_inv_def getWebhook_def)
  then show ?thesis by (fastforce simp: answered_def registered_def)
qed

definition demo_registry_env :: registry_env where
  "demo_registry_env = \<lparr>re_parse_url = (\<lambda>_. Some demo_url), re_challengeTimeoutMs = 300000, re_maxVerificationAttempts = 3\<rparr>"

definition demo_ops :: "reg_op list" where
  "demo_ops = [Register ''https://a.org'' ''claim.filed'' ''w'' ''s'' ''tok'' 0, Verify ''w'' ''tok'' 5]"

theorem activation_needs_token_witness:
  "map_option rw_status (getWebhook ''w'' (run_steps (reg_step demo_registry_env) \<lparr>rg_webhooks = [], rg_challenges = Map.empty\<rparr> demo_ops)) = Some ACTIVE \<and>
   (\<exists>before after token t u e secret t'.
     demo_ops = before @ Verify ''w'' token t # after \<and> Register u e ''w'' secret token t' \<in> set before)"
proof -
  have "map_option rw_status (getWebhook ''w'' (run_steps (reg_step demo_registry_env) \<lparr>rg_webhooks = [], rg_challenges = Map.empty\<rparr> demo_ops)) = Some ACTIVE"
    by code_simp
  then show ?thesis
    using activation_needs_token [of "''w''" demo_registry_env demo_ops] by (auto simp: map_option_case split: option.splits)
qed

text \<open>The attempt limit does not hold an answer back: a webhook marked inactive is still activated.\<close>

lemma inactive_still_verifies:
  assumes "findUnique (rg_webhooks rg) wid = Some w" "rw_status w = INACTIVE" "rg_challenges rg wid = Some (token, ex)"
  shows "fst (verifyRegisteredWebhook wid token t rg) = Inr (w\<lparr>rw_status := ACTIVE, rw_verifiedAt := Some t\<rparr>)"
  using assms by (simp add: verifyRegisteredWebhook_def Let_def)

text \<open>The retry schedule is the documented one: with at least one attempt it has one delay fewer
  than attempts; the delay before retry number \<open>i + 1\<close> is \<open>base \<sqdot> 2\<^sup>i\<close> capped at the maximum as long as
  \<open>i\<close> is at most 30; the delays never decrease and never exceed the maximum.\<close>

theorem retry_schedule_spec:
  assumes "0 \<le> base" "1 \<le> maxAttempts" "maxAttempts \<le> 32"
  shows "computeRetrySchedule maxAttempts base cap = map (\<lambda>i. min (base * 2 ^ i) cap) [0..<nat (maxAttempts - 1)] \<and>
     sorted (computeRetrySchedule maxAttempts base cap) \<and>
     list_all (\<lambda>d. d \<le> cap) (computeRetrySchedule maxAttempts base cap)"
proof -
  have "[1 .. maxAttempts - 1] = map (\<lambda>i. int i + 1) [0..<nat (maxAttempts - 1)]"
    by (rule nth_equalityI) auto
  then have eq: "computeRetrySchedule maxAttempts base cap = map (\<lambda>i. min (base * 2 ^ i) cap) [0..<nat (maxAttempts - 1)]"
    using assms by (auto simp: computeRetrySchedule_def backoffDelayMs_def)
  have "min (base * 2 ^ i) cap \<le> min (base * 2 ^ j) cap" if "i \<le> j" for i j :: nat
    using that assms(1) by (intro min.mono mult_left_mono power_increasing) auto
  then have "sorted (map (\<lambda>i. min (base * 2 ^ i) cap) [0..<n])" for n
    by (auto simp: sorted_iff_nth_mono)
  then show ?thesis unfolding eq by (simp add: list_all_iff)
qed

theorem retry_schedule_spec_witness: "computeRetrySchedule 5 1000 32000 = [1000, 2000, 4000, 8000]"
  using retry_schedule_spec [of 1000 5 32000] by (simp add: upt_rec)

end
