(* ===== verification/Auth.thy ===== *)
theory Auth
  imports Redis_Model Address
begin

text \<open>
  Wallet login of \<open>src/backend/src/auth\<close>: the challenge and its single-use nonce
  (\<open>nonce.service.ts\<close>, \<open>wallet-auth.service.ts\<close>), refresh tokens (\<open>refresh-token.service.ts\<close>), signing
  keys (\<open>jwt-key.service.ts\<close>), the token blacklist, and the store abstraction of the older
  \<open>auth.service.ts\<close> (\<open>nonce.store.ts\<close>).

  Random values (nonce, raw token), the clock, SHA-256, the Ed25519 check, strkey checks and the JWT
  library are arguments. \<open>nonce_store\<close> is the contract of the \<open>NonceStore\<close> interface; single use of
  a challenge is proved in it once and holds for the Redis and the in-memory store.
\<close>

record challenge =
  ch_publicKey :: string
  ch_message :: string

datatype auth_value = VChallenge challenge | VRefresh string bool | VFlag

datatype auth_error = InvalidAddress | InvalidPublicKey | NonceExpiredOrUsed | KeyMismatch
  | InvalidSignature | RefreshNotFound | RefreshReuse | StoreError

type_synonym auth_redis = "auth_value redis"

section \<open>Nonce service\<close>

definition nonce_key :: "string \<Rightarrow> string" where
  "nonce_key nonce = ''nonce:'' @ nonce"

definition nonce_store_put :: "int \<Rightarrow> string \<Rightarrow> challenge \<Rightarrow> (auth_value, unit) rcmd" where
  "nonce_store_put ttlSeconds nonce c = redis_set (nonce_key nonce) (VChallenge c) ttlSeconds"

definition nonce_consume :: "string \<Rightarrow> (auth_value, challenge option) rcmd" where
  "nonce_consume nonce =
     se_bind (redis_get (nonce_key nonce)) (\<lambda>d.
     case d of
       Some (VChallenge c) \<Rightarrow> se_bind (redis_del (nonce_key nonce)) (\<lambda>_. se_return (Some c))
     | _ \<Rightarrow> se_return None)"

section \<open>Signing keys\<close>

record jwt_key =
  jk_kid :: string
  jk_secret :: string

record jwt_keys =
  jks_current :: jwt_key
  jks_previous :: "jwt_key option"

definition jwt_key_service ::
  "string option \<Rightarrow> string option \<Rightarrow> string option \<Rightarrow> string option \<Rightarrow> jwt_keys" where
  "jwt_key_service secret kid prevSecret prevKid =
     \<lparr>jks_current = \<lparr>jk_kid = (case kid of Some k \<Rightarrow> k | None \<Rightarrow> ''v1''), jk_secret = (case secret of Some s \<Rightarrow> s | None \<Rightarrow> [])\<rparr>,
      jks_previous = (case prevSecret of None \<Rightarrow> None
        | Some s \<Rightarrow> if s = [] then None
            else Some \<lparr>jk_kid = (case prevKid of Some k \<Rightarrow> k | None \<Rightarrow> ''v0''), jk_secret = s\<rparr>)\<rparr>"

definition secretForKid :: "jwt_keys \<Rightarrow> string \<Rightarrow> string option" where
  "secretForKid ks kid =
     (if kid = jk_kid (jks_current ks) then Some (jk_secret (jks_current ks))
      else case jks_previous ks of
        Some p \<Rightarrow> if kid = jk_kid p then Some (jk_secret p) else None
      | None \<Rightarrow> None)"

definition acceptedSecrets :: "jwt_keys \<Rightarrow> string list" where
  "acceptedSecrets ks = jk_secret (jks_current ks) #
     (case jks_previous ks of Some p \<Rightarrow> [jk_secret p] | None \<Rightarrow> [])"

section \<open>Refresh tokens\<close>

definition REFRESH_TTL_SECONDS :: int where "REFRESH_TTL_SECONDS = 7 * 24 * 3600"

definition rt_key :: "(string \<Rightarrow> string) \<Rightarrow> string \<Rightarrow> string" where
  "rt_key sha256 raw = ''rt:'' @ sha256 raw"

definition refresh_issue :: "(string \<Rightarrow> string) \<Rightarrow> int \<Rightarrow> string \<Rightarrow> string \<Rightarrow> (auth_value, string) rcmd" where
  "refresh_issue sha256 ttl walletAddress raw =
     se_bind (redis_set (rt_key sha256 raw) (VRefresh walletAddress False) ttl) (\<lambda>_. se_return raw)"

text \<open>The sweep: \<open>batches\<close> are the replies of the successive \<open>SCAN\<close> calls, which also may fail.\<close>

fun sweep_keys :: "string \<Rightarrow> string list \<Rightarrow> (auth_value, unit) rcmd" where
  "sweep_keys walletAddress [] = se_return ()"
| "sweep_keys walletAddress (key # keys) =
     se_bind (redis_get key) (\<lambda>val.
     se_bind (case val of
         Some (VRefresh w _) \<Rightarrow> if w = walletAddress then redis_del key else se_return ()
       | _ \<Rightarrow> se_return ()) (\<lambda>_.
     sweep_keys walletAddress keys))"

fun sweep_batches :: "string \<Rightarrow> string list list \<Rightarrow> (auth_value, unit) rcmd" where
  "sweep_batches walletAddress [] = se_return ()"
| "sweep_batches walletAddress (keys # batches) =
     se_bind (send (\<lambda>r. ((), r))) (\<lambda>_.
     se_bind (sweep_keys walletAddress keys) (\<lambda>_.
     sweep_batches walletAddress batches))"

definition revokeAllForWallet :: "string list list \<Rightarrow> string \<Rightarrow> (auth_value, unit) rcmd" where
  "revokeAllForWallet batches walletAddress =
     se_try (sweep_batches walletAddress batches) (\<lambda>_. se_return ())"

definition refresh_consume ::
  "(string \<Rightarrow> string) \<Rightarrow> string list list \<Rightarrow> string \<Rightarrow> auth_redis \<Rightarrow> (auth_error + string) \<times> auth_redis" where
  "refresh_consume sha256 batches raw r =
     (case redis_get (rt_key sha256 raw) r of
        (Inr (Some (VRefresh w rotated)), r1) \<Rightarrow>
          if rotated then (Inl RefreshReuse, snd (revokeAllForWallet batches w r1))
          else (Inr w, snd (redis_set (rt_key sha256 raw) (VRefresh w True) 60 r1))
      | (_, r1) \<Rightarrow> (Inl RefreshNotFound, r1))"

definition refresh_revoke :: "(string \<Rightarrow> string) \<Rightarrow> string \<Rightarrow> (auth_value, unit) rcmd" where
  "refresh_revoke sha256 raw = redis_del (rt_key sha256 raw)"

section \<open>Token blacklist\<close>

definition blacklistToken :: "string \<Rightarrow> int \<Rightarrow> (auth_value, unit) rcmd" where
  "blacklistToken jti ttlSeconds =
     (if ttlSeconds \<le> 0 then se_return () else c_setex (''token:blacklist:'' @ jti) ttlSeconds VFlag)"

definition isBlacklisted :: "string \<Rightarrow> (auth_value, bool) rcmd" where
  "isBlacklisted jti = se_bind (c_get (''token:blacklist:'' @ jti)) (\<lambda>v. se_return (v \<noteq> None))"

definition revokeToken :: "string \<Rightarrow> int \<Rightarrow> int \<Rightarrow> (auth_value, unit) rcmd" where
  "revokeToken jti expiresAt nowSeconds = blacklistToken jti (max 0 (expiresAt - nowSeconds))"

section \<open>Wallet login\<close>

record jwt_payload =
  jp_sub :: string
  jp_walletAddress :: string
  jp_scope :: string
  jp_iat :: int

record auth_env =
  ae_strkey :: strkey
  ae_verify :: "string \<Rightarrow> string \<Rightarrow> string \<Rightarrow> bool"    \<comment> \<open>key, message, signature\<close>
  ae_sign :: "jwt_payload \<Rightarrow> int \<Rightarrow> jwt_key \<Rightarrow> string"
  ae_sha256 :: "string \<Rightarrow> string"
  ae_keys :: jwt_keys
  ae_domain :: string
  ae_nonceTtl :: int
  ae_refreshTtl :: int

record session =
  se_token :: string
  se_expiresAt :: string
  se_refreshToken :: string

definition buildMessage :: "string \<Rightarrow> string \<Rightarrow> string \<Rightarrow> string \<Rightarrow> string \<Rightarrow> string" where
  "buildMessage domain publicKey nonce issuedAt expiresAt =
     join_with [CHR 0x0A]
       [domain @ '' wants you to sign in with your Stellar account:'', publicKey, [],
        ''Please sign this challenge to verify your identity.'', [],
        ''URI: https://'' @ domain, ''Version: 1'', ''Nonce: '' @ nonce, ''Issued At: '' @ issuedAt,
        ''Expiration Time: '' @ expiresAt]"

definition canonical_key :: "auth_env \<Rightarrow> string \<Rightarrow> auth_error + string" where
  "canonical_key env publicKey =
     (case normalizeAddress (ae_strkey env) publicKey of None \<Rightarrow> Inl InvalidAddress
      | Some k \<Rightarrow> if sk_isValidEd25519PublicKey (ae_strkey env) k then Inr k else Inl InvalidPublicKey)"

definition generateChallenge ::
  "auth_env \<Rightarrow> string \<Rightarrow> string \<Rightarrow> int \<Rightarrow> auth_redis \<Rightarrow> (auth_error + string \<times> string \<times> string) \<times> auth_redis" where
  "generateChallenge env publicKey nonce nowMs r =
     (case canonical_key env publicKey of Inl e \<Rightarrow> (Inl e, r)
      | Inr canonicalKey \<Rightarrow>
          let issuedAt = js_toISOString nowMs;
              expiresAt = js_toISOString (nowMs + ae_nonceTtl env * 1000);
              message = buildMessage (ae_domain env) canonicalKey nonce issuedAt expiresAt
          in (Inr (nonce, message, expiresAt),
              snd (nonce_store_put (ae_nonceTtl env) nonce \<lparr>ch_publicKey = canonicalKey, ch_message = message\<rparr> r)))"

definition ACCESS_TTL :: int where "ACCESS_TTL = 15 * 60"

definition mint_session :: "auth_env \<Rightarrow> string \<Rightarrow> string \<Rightarrow> int \<Rightarrow> auth_redis \<Rightarrow> session \<times> auth_redis" where
  "mint_session env wallet raw nowMs r =
     (let now = nowMs div 1000;
          token = ae_sign env \<lparr>jp_sub = wallet, jp_walletAddress = wallet, jp_scope = ''user'', jp_iat = now\<rparr>
                    ACCESS_TTL (jks_current (ae_keys env))
      in (\<lparr>se_token = token, se_expiresAt = js_toISOString ((now + ACCESS_TTL) * 1000), se_refreshToken = raw\<rparr>,
          snd (refresh_issue (ae_sha256 env) (ae_refreshTtl env) wallet raw r)))"

definition verifyChallenge ::
  "auth_env \<Rightarrow> string \<Rightarrow> string \<Rightarrow> string \<Rightarrow> string \<Rightarrow> int \<Rightarrow> auth_redis \<Rightarrow> (auth_error + session) \<times> auth_redis" where
  "verifyChallenge env publicKey nonce signatureBase64 raw nowMs r =
     (case canonical_key env publicKey of Inl e \<Rightarrow> (Inl e, r)
      | Inr canonicalKey \<Rightarrow>
        (case nonce_consume nonce r of
           (Inr (Some stored), r1) \<Rightarrow>
             if ch_publicKey stored \<noteq> canonicalKey then (Inl KeyMismatch, r1)
             else if \<not> ae_verify env canonicalKey (ch_message stored) signatureBase64 then (Inl InvalidSignature, r1)
             else (case mint_session env canonicalKey raw nowMs r1 of (s, r2) \<Rightarrow> (Inr s, r2))
         | (_, r1) \<Rightarrow> (Inl NonceExpiredOrUsed, r1)))"

definition refresh ::
  "auth_env \<Rightarrow> string list list \<Rightarrow> string \<Rightarrow> string \<Rightarrow> int \<Rightarrow> auth_redis \<Rightarrow> (auth_error + session) \<times> auth_redis" where
  "refresh env batches rawRefreshToken newRaw nowMs r =
     (case refresh_consume (ae_sha256 env) batches rawRefreshToken r of
        (Inl e, r1) \<Rightarrow> (Inl e, r1)
      | (Inr wallet, r1) \<Rightarrow> (case mint_session env wallet newRaw nowMs r1 of (s, r2) \<Rightarrow> (Inr s, r2)))"

definition logout :: "auth_env \<Rightarrow> string \<Rightarrow> (auth_value, unit) rcmd" where
  "logout env rawRefreshToken = refresh_revoke (ae_sha256 env) rawRefreshToken"

definition parseTtl :: "string \<Rightarrow> int" where
  "parseTtl ttl =
     (if length ttl < 2 \<or> \<not> list_all is_digit (butlast ttl) \<or> last ttl \<notin> set ''smhd'' then 3600
      else let n = int (digits_val (butlast ttl)) in
        if last ttl = CHR ''s'' then n
        else if last ttl = CHR ''m'' then n * 60
        else if last ttl = CHR ''h'' then n * 3600
        else n * 86400)"

section \<open>The store interface and its two implementations\<close>

text \<open>\<open>InMemoryNonceStore\<close>: the clock is part of the state.\<close>

record mem_store =
  ms_now :: int
  ms_map :: "string \<rightharpoonup> challenge \<times> int"

definition evictExpired :: "mem_store \<Rightarrow> mem_store" where
  "evictExpired s = s\<lparr>ms_map := (\<lambda>k. case ms_map s k of None \<Rightarrow> None
     | Some (d, e) \<Rightarrow> if ms_now s > e then None else Some (d, e))\<rparr>"

definition mem_set :: "string \<Rightarrow> challenge \<Rightarrow> int \<Rightarrow> (mem_store, unit, unit) se" where
  "mem_set nonce d ttlSeconds s =
     (Inr (), evictExpired (s\<lparr>ms_map := (ms_map s)(nonce \<mapsto> (d, ms_now s + ttlSeconds * 1000))\<rparr>))"

definition mem_get :: "string \<Rightarrow> (mem_store, unit, challenge option) se" where
  "mem_get nonce s =
     (case ms_map s nonce of None \<Rightarrow> (Inr None, s)
      | Some (d, e) \<Rightarrow>
          if ms_now s > e then (Inr None, s\<lparr>ms_map := (ms_map s)(nonce := None)\<rparr>) else (Inr (Some d), s))"

definition mem_del :: "string \<Rightarrow> (mem_store, unit, unit) se" where
  "mem_del nonce s = (Inr (), s\<lparr>ms_map := (ms_map s)(nonce := None)\<rparr>)"

text \<open>\<open>RedisNonceStore\<close> lets the errors of the client through.\<close>

definition red_set :: "string \<Rightarrow> challenge \<Rightarrow> int \<Rightarrow> (auth_redis, unit, unit) se" where
  "red_set nonce d ttlSeconds = c_setex (nonce_key nonce) ttlSeconds (VChallenge d)"

definition red_get :: "string \<Rightarrow> (auth_redis, unit, challenge option) se" where
  "red_get nonce = se_bind (c_get (nonce_key nonce)) (\<lambda>v.
     se_return (case v of Some (VChallenge d) \<Rightarrow> Some d | _ \<Rightarrow> None))"

definition red_del :: "string \<Rightarrow> (auth_redis, unit, unit) se" where
  "red_del nonce = c_del (nonce_key nonce)"

text \<open>\<open>auth.service.ts\<close> over any store; \<open>mint\<close> is the JWT library.\<close>

definition auth_generateChallenge ::
  "(string \<Rightarrow> challenge \<Rightarrow> int \<Rightarrow> ('s, unit, unit) se) \<Rightarrow> auth_env \<Rightarrow> string \<Rightarrow> string \<Rightarrow> int \<Rightarrow>
   's \<Rightarrow> (auth_error + string) \<times> 's" where
  "auth_generateChallenge put env publicKey nonce nowMs s =
     (if \<not> sk_isValidEd25519PublicKey (ae_strkey env) publicKey then (Inl InvalidPublicKey, s)
      else let message = buildMessage (ae_domain env) publicKey nonce (js_toISOString nowMs)
                 (js_toISOString (nowMs + ae_nonceTtl env * 1000)) in
        case put nonce \<lparr>ch_publicKey = publicKey, ch_message = message\<rparr> (ae_nonceTtl env) s of
          (Inl _, s1) \<Rightarrow> (Inl StoreError, s1)
        | (Inr _, s1) \<Rightarrow> (Inr message, s1))"

definition auth_verifyChallenge ::
  "(string \<Rightarrow> ('s, unit, challenge option) se) \<Rightarrow> (string \<Rightarrow> ('s, unit, unit) se) \<Rightarrow> auth_env \<Rightarrow>
   (string \<Rightarrow> string) \<Rightarrow> string \<Rightarrow> string \<Rightarrow> string \<Rightarrow> 's \<Rightarrow> (auth_error + string) \<times> 's" where
  "auth_verifyChallenge fetch del env mint publicKey nonce signatureBase64 s =
     (if \<not> sk_isValidEd25519PublicKey (ae_strkey env) publicKey then (Inl InvalidPublicKey, s)
      else case fetch nonce s of
        (Inl _, s1) \<Rightarrow> (Inl StoreError, s1)
      | (Inr None, s1) \<Rightarrow> (Inl NonceExpiredOrUsed, s1)
      | (Inr (Some stored), s1) \<Rightarrow>
          (case del nonce s1 of
             (Inl _, s2) \<Rightarrow> (Inl StoreError, s2)
           | (Inr _, s2) \<Rightarrow>
               if ch_publicKey stored \<noteq> publicKey then (Inl KeyMismatch, s2)
               else if \<not> ae_verify env publicKey (ch_message stored) signatureBase64 then (Inl InvalidSignature, s2)
               else (Inr (mint publicKey), s2)))"

text \<open>What may happen to a store between two uses of a nonce.\<close>

definition is_Inr :: "'a + 'b \<Rightarrow> bool" where
  "is_Inr r = (case r of Inl _ \<Rightarrow> False | Inr _ \<Rightarrow> True)"

datatype auth_op = Tick int | Issue string string int | Attempt string string string

fun auth_step where
  "auth_step put fetch del at env mint s (Tick t) = at t s"
| "auth_step put fetch del at env mint s (Issue publicKey nonce nowMs) =
     snd (auth_generateChallenge put env publicKey nonce nowMs s)"
| "auth_step put fetch del at env mint s (Attempt publicKey nonce sig) =
     snd (auth_verifyChallenge fetch del env mint publicKey nonce sig s)"

fun issues :: "string \<Rightarrow> auth_op \<Rightarrow> bool" where
  "issues n (Issue _ nonce _) = (nonce = n)"
| "issues n _ = False"

locale nonce_store =
  fixes put :: "string \<Rightarrow> challenge \<Rightarrow> int \<Rightarrow> ('s, unit, unit) se"
    and fetch :: "string \<Rightarrow> ('s, unit, challenge option) se"
    and del :: "string \<Rightarrow> ('s, unit, unit) se"
    and at :: "int \<Rightarrow> 's \<Rightarrow> 's"
    and view :: "'s \<Rightarrow> string \<rightharpoonup> challenge"
  assumes fetch_view: "fetch n s = (Inr (Some d), s') \<Longrightarrow> view s n = Some d"
    and fetch_frame: "view s m = None \<Longrightarrow> view (snd (fetch n s)) m = None"
    and del_view: "del n s = (Inr (), s') \<Longrightarrow> view s' n = None"
    and del_frame: "view s m = None \<Longrightarrow> view (snd (del n s)) m = None"
    and put_frame: "m \<noteq> n \<Longrightarrow> view s m = None \<Longrightarrow> view (snd (put n d ttl s)) m = None"
    and at_view: "view (at t s) = view s"
begin

lemma spent_rejected:
  "view s n = None \<Longrightarrow> fst (auth_verifyChallenge fetch del env mint pk n sig s) \<noteq> Inr tok"
  using fetch_view [of n s]
  by (auto simp: auth_verifyChallenge_def split: prod.split sum.split option.split)

lemma success_spends:
  assumes "auth_verifyChallenge fetch del env mint pk n sig s = (Inr tok, s')"
  shows "view s' n = None"
proof -
  obtain d s1 where f: "fetch n s = (Inr (Some d), s1)" and dd: "del n s1 = (Inr (), s')"
    using assms by (auto simp: auth_verifyChallenge_def split: if_splits prod.splits sum.splits option.splits)
  then show ?thesis using del_view by blast
qed

lemma verify_frame: "view s m = None \<Longrightarrow> view (snd (auth_verifyChallenge fetch del env mint pk n sig s)) m = None"
  using fetch_frame [of s m n] del_frame [of "snd (fetch n s)" m n]
  by (auto simp: auth_verifyChallenge_def split: prod.split sum.split option.split)

lemma issue_frame:
  "m \<noteq> n \<Longrightarrow> view s n = None \<Longrightarrow> view (snd (auth_generateChallenge put env pk m t s)) n = None"
  using put_frame [of n m s]
  by (auto simp: auth_generateChallenge_def Let_def split: prod.split sum.split) (metis snd_conv)+

lemma step_frame:
  "\<not> issues n op \<Longrightarrow> view s n = None \<Longrightarrow> view (auth_step put fetch del at env mint s op) n = None"
  by (cases op) (simp_all add: at_view verify_frame issue_frame)

lemma single_use:
  assumes "auth_verifyChallenge fetch del env mint pk n sig s = (Inr tok, s')"
    and "list_all (\<lambda>op. \<not> issues n op) ops"
  shows "fst (auth_verifyChallenge fetch del env mint pk' n sig'
    (run_steps (auth_step put fetch del at env mint) s' ops)) \<noteq> Inr tok'"
proof -
  have "view (run_steps (auth_step put fetch del at env mint) s1 ops) n = None" if "view s1 n = None" for s1
    using that assms(2)
  proof (induction ops arbitrary: s1)
    case (Cons op ops)
    have "view (auth_step put fetch del at env mint s1 op) n = None"
      using Cons.prems by (intro step_frame) simp_all
    then show ?case using Cons by simp
  qed simp
  with success_spends [OF assms(1)] show ?thesis using spent_rejected by blast
qed

lemma used_up:
  "case auth_verifyChallenge fetch del env mint pk n sig s of
     (Inl _, _) \<Rightarrow> True
   | (Inr _, s') \<Rightarrow> list_ex (issues n) ops \<or>
       \<not> is_Inr (fst (auth_verifyChallenge fetch del env mint pk' n sig'
          (run_steps (auth_step put fetch del at env mint) s' ops)))"
proof (cases "auth_verifyChallenge fetch del env mint pk n sig s")
  case (Pair r s')
  show ?thesis
  proof (cases r)
    case (Inr tok)
    have "list_ex (issues n) ops \<or> list_all (\<lambda>op. \<not> issues n op) ops" by (auto simp: list_ex_iff list_all_iff)
    then show ?thesis using single_use [of env mint pk n sig s tok s' ops pk' sig'] Pair Inr
      by (auto simp: is_Inr_def split: sum.split)
  qed (simp add: Pair)
qed

end

interpretation mem_nonce: nonce_store mem_set mem_get mem_del "\<lambda>t s. s\<lparr>ms_now := t\<rparr>" "\<lambda>s n. map_option fst (ms_map s n)"
  by unfold_locales
     (auto simp: mem_set_def mem_get_def mem_del_def evictExpired_def split: option.splits if_splits)

definition red_view :: "auth_redis \<Rightarrow> string \<rightharpoonup> challenge" where
  "red_view r n = (case r_kv r (nonce_key n) of Some (VChallenge d, _) \<Rightarrow> Some d | _ \<Rightarrow> None)"

lemma red_view_upd [simp]:
  "red_view (r\<lparr>r_faults := fs\<rparr>) = red_view r" "red_view (r\<lparr>r_now := t\<rparr>) = red_view r"
  by (simp_all add: red_view_def fun_eq_iff)

lemma nonce_key_inj [simp]: "nonce_key a = nonce_key b \<longleftrightarrow> a = b"
  by (simp add: nonce_key_def)

lemma red_ops_view:
  "m \<noteq> n \<Longrightarrow> red_view r m = None \<Longrightarrow> red_view (snd (c_setex (nonce_key n) ttl (VChallenge d) r)) m = None"
  "red_view r m = None \<Longrightarrow> red_view (snd (c_get (nonce_key n) r)) m = None"
  "red_view r m = None \<Longrightarrow> red_view (snd (c_del (nonce_key n) r)) m = None"
  unfolding cmd_defs
  by (rule send_inv [where P = "\<lambda>r. red_view r m = None"]; simp add: red_view_def)+

lemma kv_live_faults [simp]: "kv_live (r\<lparr>r_faults := fs\<rparr>) k = kv_live r k"
  by (simp add: kv_live_def split: option.split)

lemma kv_live_delete [simp]:
  "kv_live (r\<lparr>r_kv := (r_kv r)(k := None)\<rparr>) j = (if j = k then None else kv_live r j)"
  by (simp add: kv_live_def split: option.split)

lemma c_get_Inr: "c_get k r = (Inr v, r') \<Longrightarrow> v = kv_live r k"
  unfolding c_get_def by (rule send_cases [of r "\<lambda>r. (kv_live r k, r)"]) auto

lemma c_del_Inr: "c_del k r = (Inr u, r') \<Longrightarrow> r_kv r' k = None"
  unfolding c_del_def by (rule send_cases [of r "\<lambda>r. ((), r\<lparr>r_kv := (r_kv r)(k := None)\<rparr>)"]) auto

lemma red_get_snd: "snd (red_get n r) = snd (c_get (nonce_key n) r)"
  by (simp add: red_get_def se_bind_def split: prod.split sum.split)

lemma red_get_Some: "red_get n r = (Inr (Some d), r') \<Longrightarrow> red_view r n = Some d"
  by (auto simp: red_get_def se_bind_def red_view_def kv_live_def
      split: prod.splits sum.splits option.splits auth_value.splits if_splits dest!: c_get_Inr)

interpretation redis_nonce: nonce_store red_set red_get red_del "\<lambda>t r. r\<lparr>r_now := t\<rparr>" red_view
proof
  show "red_view r m = None \<Longrightarrow> red_view (snd (red_get n r)) m = None" for r m n
    unfolding red_get_snd by (rule red_ops_view)
  show "red_del n r = (Inr (), r') \<Longrightarrow> red_view r' n = None" for n r r'
    using c_del_Inr by (fastforce simp: red_del_def red_view_def)
qed (simp_all add: red_get_Some red_del_def red_set_def red_ops_view)

section \<open>Properties\<close>

text \<open>C26. A login challenge works once: after a challenge has been answered successfully, no further
  attempt with its nonce succeeds, by any key, with any signature, after any sequence of other
  logins, new challenges and clock changes that does not issue the same nonce again. This holds for
  the in-memory store and for Redis, however its commands fail.\<close>

theorem challenge_single_use:
  "(case auth_verifyChallenge mem_get mem_del env mint pk n sig sm of
      (Inl _, _) \<Rightarrow> True
    | (Inr _, sm') \<Rightarrow> list_ex (issues n) ops \<or>
        \<not> is_Inr (fst (auth_verifyChallenge mem_get mem_del env mint pk' n sig'
           (run_steps (auth_step mem_set mem_get mem_del (\<lambda>t s. s\<lparr>ms_now := t\<rparr>) env mint) sm' ops)))) \<and>
   (case auth_verifyChallenge red_get red_del env mint pk n sig sr of
      (Inl _, _) \<Rightarrow> True
    | (Inr _, sr') \<Rightarrow> list_ex (issues n) ops \<or>
        \<not> is_Inr (fst (auth_verifyChallenge red_get red_del env mint pk' n sig'
           (run_steps (auth_step red_set red_get red_del (\<lambda>t r. r\<lparr>r_now := t\<rparr>) env mint) sr' ops))))"
  by (intro conjI mem_nonce.used_up redis_nonce.used_up)

definition demo_auth :: auth_env where
  "demo_auth = \<lparr>ae_strkey = \<lparr>sk_isValidEd25519PublicKey = (\<lambda>k. k = ''GA''), sk_isValidContract = (\<lambda>_. False), sk_muxedBase = (\<lambda>_. None)\<rparr>,
     ae_verify = (\<lambda>k m s. s = ''sig''), ae_sign = (\<lambda>p ttl k. jp_sub p), ae_sha256 = (\<lambda>s. s),
     ae_keys = \<lparr>jks_current = \<lparr>jk_kid = ''v1'', jk_secret = ''s''\<rparr>, jks_previous = None\<rparr>,
     ae_domain = ''d'', ae_nonceTtl = 300, ae_refreshTtl = 600\<rparr>"

definition demo_challenge :: challenge where
  "demo_challenge = \<lparr>ch_publicKey = ''GA'', ch_message = ''m''\<rparr>"

definition demo_mem :: mem_store where
  "demo_mem = \<lparr>ms_now = 0, ms_map = [''n'' \<mapsto> (demo_challenge, 1000)]\<rparr>"

definition demo_red :: auth_redis where
  "demo_red = (redis_empty 0)\<lparr>r_kv := [''nonce:n'' \<mapsto> (VChallenge demo_challenge, 1000)]\<rparr>"

lemmas demo_auth_defs = demo_auth_def demo_challenge_def demo_mem_def demo_red_def redis_empty_def

theorem challenge_single_use_witness:
  "is_Inr (fst (auth_verifyChallenge mem_get mem_del demo_auth id ''GA'' ''n'' ''sig'' demo_mem)) \<and>
   is_Inr (fst (auth_verifyChallenge red_get red_del demo_auth id ''GA'' ''n'' ''sig'' demo_red)) \<and>
   \<not> is_Inr (fst (auth_verifyChallenge red_get red_del demo_auth id ''GA'' ''n'' ''sig''
       (snd (auth_verifyChallenge red_get red_del demo_auth id ''GA'' ''n'' ''sig'' demo_red))))"
proof -
  have "is_Inr (fst (auth_verifyChallenge mem_get mem_del demo_auth id ''GA'' ''n'' ''sig'' demo_mem))"
    by (simp add: auth_verifyChallenge_def mem_get_def mem_del_def is_Inr_def demo_auth_defs)
  moreover have "is_Inr (fst (auth_verifyChallenge red_get red_del demo_auth id ''GA'' ''n'' ''sig'' demo_red))"
    by (simp add: auth_verifyChallenge_def red_get_def red_del_def c_get_def c_del_def send_def se_bind_def
        kv_live_def nonce_key_def is_Inr_def demo_auth_defs)
  ultimately show ?thesis
    using challenge_single_use [where env = demo_auth and mint = id and pk = "''GA''" and n = "''n''" and sig = "''sig''" and
        sm = demo_mem and sr = demo_red and ops = "[]" and pk' = "''GA''" and sig' = "''sig''"]
    by (auto simp: is_Inr_def split: prod.splits sum.splits)
qed

lemma rt_nonce_distinct [simp]: "rt_key h raw \<noteq> nonce_key n" "nonce_key n \<noteq> rt_key h raw"
  by (simp_all add: rt_key_def nonce_key_def)

lemma redis_get_live: "redis_get k r = (Inr (Some v), r') \<Longrightarrow> kv_live r k = Some v"
  using c_get_Inr [of k r "Some v" r'] by (auto simp: redis_get_def se_try_def split: prod.splits sum.splits)

lemma consume_Some:
  assumes "nonce_consume n r = (Inr (Some c), r')"
  shows "kv_live r (nonce_key n) = Some (VChallenge c)" "r_faults r = [] \<Longrightarrow> r_kv r' (nonce_key n) = None \<and> r_faults r' = []"
proof -
  obtain v r1 where g: "redis_get (nonce_key n) r = (Inr v, r1)" "v = Some (VChallenge c)"
    using assms by (auto simp: nonce_consume_def se_bind_def split: prod.splits sum.splits option.splits auth_value.splits)
  then show "kv_live r (nonce_key n) = Some (VChallenge c)" using redis_get_live by simp
  then show "r_kv r' (nonce_key n) = None \<and> r_faults r' = []" if "r_faults r = []"
    using that assms by (auto simp: nonce_consume_def se_bind_def redis_ok)
qed

lemma consume_spent:
  "r_faults r = [] \<Longrightarrow> r_kv r (nonce_key n) = None \<Longrightarrow> nonce_consume n r = (Inr None, r)"
  by (simp add: nonce_consume_def se_bind_def redis_ok kv_live_def)

text \<open>C29. A wallet session needs a fresh signature: a session is issued only for a challenge that is
  live in Redis, was requested for the same canonical key and whose stored message the signature
  verifies for; its token is a user token for that key. If Redis answers, the nonce is then spent:
  no later attempt with it succeeds.\<close>

theorem wallet_login_sound:
  "case verifyChallenge env pk nonce sig raw t r of
     (Inl _, _) \<Rightarrow> True
   | (Inr s, r') \<Rightarrow>
       (case (canonical_key env pk, kv_live r (nonce_key nonce)) of
          (Inr k, Some (VChallenge c)) \<Rightarrow>
            ch_publicKey c = k \<and> ae_verify env k (ch_message c) sig \<and>
            se_token s = ae_sign env \<lparr>jp_sub = k, jp_walletAddress = k, jp_scope = ''user'', jp_iat = t div 1000\<rparr>
                           900 (jks_current (ae_keys env))
        | _ \<Rightarrow> False) \<and>
       (r_faults r \<noteq> [] \<or> \<not> is_Inr (fst (verifyChallenge env pk' nonce sig' raw' t' (r'\<lparr>r_now := later\<rparr>))))"
proof (cases "verifyChallenge env pk nonce sig raw t r")
  case (Pair res r')
  show ?thesis
  proof (cases res)
    case (Inr s)
    obtain k c r1 where k: "canonical_key env pk = Inr k" and c: "nonce_consume nonce r = (Inr (Some c), r1)"
      and ok: "ch_publicKey c = k" "ae_verify env k (ch_message c) sig" and m: "mint_session env k raw t r1 = (s, r')"
      using Pair Inr by (auto simp: verifyChallenge_def split: sum.splits prod.splits option.splits if_splits)
    have "\<not> is_Inr (fst (verifyChallenge env pk' nonce sig' raw' t' (r'\<lparr>r_now := later\<rparr>)))" if "r_faults r = []"
    proof -
      have "r_kv r' (nonce_key nonce) = None" "r_faults r' = []"
        using m consume_Some(2) [OF c that]
        by (auto simp: mint_session_def Let_def refresh_issue_def se_bind_def redis_ok)
      then show ?thesis
        by (simp add: verifyChallenge_def consume_spent is_Inr_def split: sum.split)
    qed
    then show ?thesis using Pair Inr k ok m consume_Some(1) [OF c]
      by (auto simp: mint_session_def Let_def ACCESS_TTL_def)
  qed (simp add: Pair)
qed

theorem wallet_login_sound_witness:
  "is_Inr (fst (verifyChallenge demo_auth ''GA'' ''n'' ''sig'' ''raw'' 0 demo_red)) \<and>
   \<not> is_Inr (fst (verifyChallenge demo_auth ''GA'' ''n'' ''sig'' ''raw'' 5
      ((snd (verifyChallenge demo_auth ''GA'' ''n'' ''sig'' ''raw'' 0 demo_red))\<lparr>r_now := 5\<rparr>)))"
proof -
  have "r_faults demo_red = []" by (simp add: demo_auth_defs)
  moreover have "canonical_key demo_auth ''GA'' = Inr ''GA''" by code_simp
  moreover have "nonce_consume ''n'' demo_red = (Inr (Some demo_challenge), demo_red\<lparr>r_kv := Map.empty\<rparr>)"
    by (simp add: nonce_consume_def se_bind_def redis_ok kv_live_def nonce_key_def demo_auth_defs)
  ultimately have "is_Inr (fst (verifyChallenge demo_auth ''GA'' ''n'' ''sig'' ''raw'' 0 demo_red))"
    by (simp add: verifyChallenge_def is_Inr_def case_prod_unfold demo_auth_def demo_challenge_def)
  then show ?thesis
    using wallet_login_sound [where env = demo_auth and pk = "''GA''" and nonce = "''n''" and sig = "''sig''" and raw = "''raw''"
        and t = 0 and r = demo_red and pk' = "''GA''" and sig' = "''sig''" and raw' = "''raw''" and t' = 5 and later = 5]
      \<open>r_faults demo_red = []\<close>
    by (auto simp: is_Inr_def split: prod.splits sum.splits)
qed

text \<open>The challenge survives a delete that Redis refused, since \<open>RedisService.del\<close> swallows the error.\<close>

lemma nonce_replay_after_failed_delete:
  assumes "kv_live r (nonce_key n) = Some (VChallenge c)"
  shows "\<exists>r1 r2. nonce_consume n (r\<lparr>r_faults := [Ok, Refused]\<rparr>) = (Inr (Some c), r1) \<and> nonce_consume n r1 = (Inr (Some c), r2)"
proof -
  have "nonce_consume n (r\<lparr>r_faults := [Ok, Refused]\<rparr>) = (Inr (Some c), r\<lparr>r_faults := []\<rparr>)"
    using assms by (simp add: nonce_consume_def se_bind_def redis_get_def redis_del_def se_try_def c_get_def c_del_def send_fault)
  moreover have "fst (nonce_consume n (r\<lparr>r_faults := []\<rparr>)) = Inr (Some c)"
    using assms by (simp add: nonce_consume_def se_bind_def redis_ok)
  ultimately show ?thesis by (metis prod.collapse)
qed

section \<open>Refresh tokens\<close>

definition holds_token :: "string \<Rightarrow> auth_redis \<Rightarrow> string \<Rightarrow> bool" where
  "holds_token w r k = (case kv_live r k of Some (VRefresh w' _) \<Rightarrow> w' = w | _ \<Rightarrow> False)"

lemma sweep_keys_ok:
  "r_faults r = [] \<Longrightarrow> sweep_keys w ks r =
     (Inr (), r\<lparr>r_kv := (\<lambda>k. if k \<in> set ks \<and> holds_token w r k then None else r_kv r k)\<rparr>)"
proof (induction ks arbitrary: r)
  case (Cons k ks)
  let ?r = "if holds_token w r k then r\<lparr>r_kv := (r_kv r)(k := None)\<rparr> else r"
  have step: "sweep_keys w (k # ks) r = sweep_keys w ks ?r"
    using Cons.prems by (auto simp: se_bind_def redis_ok holds_token_def split: option.split auth_value.split)
  have "holds_token w ?r j = (holds_token w r j \<and> \<not> (j = k \<and> holds_token w r k))" for j
    by (auto simp: holds_token_def)
  then show ?case unfolding step using Cons.IH [of ?r] Cons.prems by (auto simp: fun_eq_iff)
qed simp

lemma sweep_batches_ok:
  "r_faults r = [] \<Longrightarrow> sweep_batches w bs r =
     (Inr (), r\<lparr>r_kv := (\<lambda>k. if k \<in> set (concat bs) \<and> holds_token w r k then None else r_kv r k)\<rparr>)"
proof (induction bs arbitrary: r)
  case (Cons ks bs)
  let ?r = "r\<lparr>r_kv := (\<lambda>k. if k \<in> set ks \<and> holds_token w r k then None else r_kv r k)\<rparr>"
  have step: "sweep_batches w (ks # bs) r = sweep_batches w bs ?r"
    using Cons.prems by (simp add: se_bind_send se_bind_def [of "sweep_keys w ks"] sweep_keys_ok)
  have "holds_token w ?r j = (holds_token w r j \<and> \<not> (j \<in> set ks \<and> holds_token w r j))" for j
    by (auto simp: holds_token_def kv_live_def split: option.splits if_splits)
  then show ?case unfolding step using Cons.IH [of ?r] Cons.prems by (auto simp: fun_eq_iff)
qed simp

text \<open>A refresh token is exchanged once, and its reuse is caught only for a minute: the first use
  gives the wallet; a second one within 60 seconds is refused as reuse and leaves no key the scan
  returned with a live token of that wallet, while all other keys stay; after 60 seconds the second
  use is refused as unknown and revokes nothing.\<close>

theorem refresh_token_reuse:
  assumes "r_faults r = []" "kv_live r (rt_key h raw) = Some (VRefresh w False)" "r_now r \<le> later"
  shows "case refresh_consume h batches raw r of (res, r1) \<Rightarrow> res = Inr w \<and>
     (case refresh_consume h batches raw (r1\<lparr>r_now := later\<rparr>) of (res', r2) \<Rightarrow>
        if later < r_now r + 60000
        then res' = Inl RefreshReuse \<and> list_all (\<lambda>k. \<not> holds_token w r2 k) (concat batches) \<and>
             (\<forall>k. holds_token w (r1\<lparr>r_now := later\<rparr>) k \<or> r_kv r2 k = r_kv r1 k)
        else res' = Inl RefreshNotFound \<and> r_kv r2 = r_kv r1)"
proof -
  let ?k = "rt_key h raw"
  let ?r1 = "r\<lparr>r_kv := (r_kv r)(?k \<mapsto> (VRefresh w True, r_now r + 60 * 1000))\<rparr>"
  let ?r2 = "?r1\<lparr>r_now := later\<rparr>"
  have first: "refresh_consume h batches raw r = (Inr w, ?r1)"
    using assms by (simp add: refresh_consume_def redis_ok)
  have live: "kv_live ?r2 ?k = (if later < r_now r + 60000 then Some (VRefresh w True) else None)"
    by (simp add: kv_live_def)
  let ?r3 = "?r2\<lparr>r_kv := (\<lambda>k. if k \<in> set (concat batches) \<and> holds_token w ?r2 k then None else r_kv ?r2 k)\<rparr>"
  have sweep: "revokeAllForWallet batches w ?r2 = (Inr (), ?r3)"
    using sweep_batches_ok [of ?r2 w batches] assms(1) by (simp add: revokeAllForWallet_def se_try_def)
  have gone: "list_all (\<lambda>k. \<not> holds_token w ?r3 k) (concat batches)"
    by (auto simp: list_all_iff holds_token_def kv_live_def split: option.splits if_splits)
  show ?thesis
  proof (cases "later < r_now r + 60000")
    case True
    then have "refresh_consume h batches raw ?r2 = (Inl RefreshReuse, ?r3)"
      using live sweep assms(1) by (simp add: refresh_consume_def redis_ok)
    then show ?thesis using first gone True by simp
  next
    case False
    then have "refresh_consume h batches raw ?r2 = (Inl RefreshNotFound, ?r2)"
      using live assms(1) by (simp add: refresh_consume_def redis_ok)
    then show ?thesis using first False by simp
  qed
qed

theorem refresh_token_reuse_witness:
  "fst (refresh_consume (\<lambda>s. s) [[''rt:a'', ''rt:b'']] ''a''
     (snd (refresh_consume (\<lambda>s. s) [[''rt:a'', ''rt:b'']] ''a''
        ((redis_empty 0)\<lparr>r_kv := [''rt:a'' \<mapsto> (VRefresh ''GW'' False, 999)]\<rparr>))\<lparr>r_now := 500\<rparr>)) = Inl RefreshReuse"
proof -
  let ?r = "(redis_empty 0)\<lparr>r_kv := [''rt:a'' \<mapsto> (VRefresh ''GW'' False, 999)]\<rparr> :: auth_redis"
  have "r_faults ?r = []" "kv_live ?r (rt_key (\<lambda>s. s) ''a'') = Some (VRefresh ''GW'' False)" "r_now ?r \<le> 500" "r_now ?r = 0"
    by (simp_all add: redis_empty_def kv_live_def rt_key_def)
  then show ?thesis
    using refresh_token_reuse [of ?r "\<lambda>s. s" "''a''" "''GW''" 500 "[[''rt:a'', ''rt:b'']]"]
    by (simp add: case_prod_unfold)
qed

end
