(* ===== verification/Quiet_Hours.thy ===== *)
theory Quiet_Hours
  imports Js_Prelude
begin

text \<open>
  The quiet-hours window of \<open>src/backend/src/notifications/quiet-hours.ts\<close>: parsing of \<open>HH:mm\<close>, the
  test whether a moment lies in a window that may wrap past midnight, and the moment the window ends.
  A \<open>Date\<close> is its count of milliseconds since the epoch.
\<close>

record quiet_window =
  qw_start :: string
  qw_end :: string

text \<open>The two groups of \<open>/^([01]?\d|2[0-3]):([0-5]\d)$/\<close>.\<close>

definition hour_group :: "string \<Rightarrow> bool" where
  "hour_group s =
     (case s of [a] \<Rightarrow> is_digit a
      | [a, b] \<Rightarrow> is_digit a \<and> is_digit b \<and> (digit_val a \<le> 1 \<or> digit_val a = 2 \<and> digit_val b \<le> 3)
      | _ \<Rightarrow> False)"

definition minute_group :: "string \<Rightarrow> bool" where
  "minute_group s =
     (case s of [a, b] \<Rightarrow> is_digit a \<and> is_digit b \<and> digit_val a \<le> 5 | _ \<Rightarrow> False)"

definition parseHhMm :: "string \<Rightarrow> int option" where
  "parseHhMm s =
     (case split_first (CHR '':'') (trim s) of
        None \<Rightarrow> None
      | Some (h, m) \<Rightarrow>
          if hour_group h \<and> minute_group m then Some (int (digits_val h) * 60 + int (digits_val m))
          else None)"

definition minuteOfDay :: "int \<Rightarrow> int \<Rightarrow> int" where
  "minuteOfDay now offsetMinutes =
     (let utc = (now mod 86400000 div 3600000) * 60 + now mod 3600000 div 60000
      in js_rem (js_rem (utc + offsetMinutes) 1440 + 1440) 1440)"

definition isWithinQuietHours :: "int \<Rightarrow> 'a quiet_window_scheme \<Rightarrow> int \<Rightarrow> bool" where
  "isWithinQuietHours now w offsetMinutes =
     (case (parseHhMm (qw_start w), parseHhMm (qw_end w)) of
        (Some start, Some stop) \<Rightarrow>
          if start = stop then False
          else let current = minuteOfDay now offsetMinutes in
            if start < stop then start \<le> current \<and> current < stop
            else start \<le> current \<or> current < stop
      | _ \<Rightarrow> False)"

definition nextQuietPeriodEnd :: "int \<Rightarrow> 'a quiet_window_scheme \<Rightarrow> int \<Rightarrow> int" where
  "nextQuietPeriodEnd now w offsetMinutes =
     (if \<not> isWithinQuietHours now w offsetMinutes then now
      else case (parseHhMm (qw_start w), parseHhMm (qw_end w)) of
        (Some start, Some stop) \<Rightarrow>
          let current = minuteOfDay now offsetMinutes;
              minutesUntilEnd = js_rem (stop - current + 1440) 1440
          in now + minutesUntilEnd * 60000
      | _ \<Rightarrow> now)"

section \<open>Minutes of the day\<close>

lemma utc_minute: "(t mod 86400000 div 3600000) * 60 + t mod 3600000 div 60000 = t div 60000 mod (1440 :: int)"
proof -
  have "t mod 86400000 = t mod (60000 * 1440)" by simp
  also have "\<dots> = 60000 * (t div 60000 mod 1440) + t mod 60000" by (rule zmod_zmult2_eq) simp
  finally have day: "t mod 86400000 div 60000 = t div 60000 mod 1440" by simp
  have "t mod 3600000 = t mod 86400000 mod 3600000" by (simp add: mod_mod_cancel)
  then have "t mod 3600000 div 60000 = t mod 86400000 div 60000 mod 60"
    using zmod_zmult2_eq [of 60 "t mod 86400000" 60000] by simp
  moreover have "t mod 86400000 div 3600000 = t mod 86400000 div 60000 div 60"
    using zdiv_zmult2_eq [of 60 "t mod 86400000" 60000] by simp
  ultimately show ?thesis using day by (simp add: mult_div_mod_eq)
qed

lemma minuteOfDay_mod: "minuteOfDay t d = (t div 60000 + d) mod 1440"
proof -
  have norm: "js_rem (js_rem x 1440 + 1440) 1440 = x mod 1440" for x :: int
  proof (cases "x < 0")
    case True
    have "- ((- x) mod 1440) + 1440 \<ge> (0 :: int)" using pos_mod_bound [of 1440 "- x"] by simp
    moreover have "(- ((- x) mod 1440) + 1440) mod 1440 = x mod 1440" by (simp add: mod_minus_eq)
    ultimately show ?thesis using True by (simp add: js_rem_def)
  qed (simp add: js_rem_def)
  show ?thesis unfolding minuteOfDay_def Let_def norm utc_minute by (simp add: mod_add_left_eq)
qed

lemma minuteOfDay_range: "0 \<le> minuteOfDay t d" "minuteOfDay t d < 1440"
  by (simp_all add: minuteOfDay_mod)

lemma minuteOfDay_later:
  assumes "u div 60000 = t div 60000 + j"
  shows "minuteOfDay u d = (minuteOfDay t d + j) mod 1440"
  unfolding minuteOfDay_mod assms by (simp add: algebra_simps mod_simps)

lemma parseHhMm_range:
  assumes "parseHhMm s = Some n" shows "0 \<le> n" "n < 1440"
proof -
  obtain h m where hm: "hour_group h" "minute_group m" "n = int (digits_val h) * 60 + int (digits_val m)"
    using assms by (auto simp: parseHhMm_def split: option.splits if_splits)
  have d9: "is_digit c \<Longrightarrow> digit_val c \<le> 9" for c by (auto simp: is_digit_def digit_val_def Let_def)
  have "digits_val h \<le> 23"
    using hm(1) d9 by (fastforce simp: hour_group_def digits_val_def split: list.splits)
  moreover have "digits_val m \<le> 59"
    using hm(2) d9 by (fastforce simp: minute_group_def digits_val_def split: list.splits)
  ultimately show "0 \<le> n" "n < 1440" using hm(3) by simp_all
qed

lemma isWithinQuietHours_iff:
  assumes "parseHhMm (qw_start w) = Some a" "parseHhMm (qw_end w) = Some b"
  shows "isWithinQuietHours t w d \<longleftrightarrow>
    (let m = minuteOfDay t d in if a \<le> b then a \<le> m \<and> m < b else a \<le> m \<or> m < b)"
  using assms by (auto simp: isWithinQuietHours_def Let_def)

lemma within_parses:
  assumes "isWithinQuietHours t w d"
  obtains a b where "parseHhMm (qw_start w) = Some a" "parseHhMm (qw_end w) = Some b" "a \<noteq> b"
  using assms by (auto simp: isWithinQuietHours_def split: option.splits if_splits)

text \<open>Where the window ends, in one statement.\<close>

lemma quiet_end_spec:
  "let t = nextQuietPeriodEnd now w d in
     (if isWithinQuietHours now w d
      then now < t \<and> t < now + 86400000 \<and> (t - now) mod 60000 = 0 \<and> \<not> isWithinQuietHours t w d
        \<and> (\<forall>u. now \<le> u \<longrightarrow> u div 60000 < t div 60000 \<longrightarrow> isWithinQuietHours u w d)
      else t = now)"
proof (cases "isWithinQuietHours now w d")
  case True
  obtain a b where ab: "parseHhMm (qw_start w) = Some a" "parseHhMm (qw_end w) = Some b" "a \<noteq> b"
    using True by (rule within_parses)
  note within = isWithinQuietHours_iff [OF ab(1,2), unfolded Let_def]
  note rng = parseHhMm_range [OF ab(1)] parseHhMm_range [OF ab(2)]
  define c where "c = minuteOfDay now d"
  define k where "k = (b - c) mod 1440"
  have c: "0 \<le> c" "c < 1440" by (simp_all add: c_def minuteOfDay_range)
  have inside: "if a \<le> b then a \<le> c \<and> c < b else a \<le> c \<or> c < b" using True within by (simp add: c_def)
  have k: "k = (if c < b then b - c else b - c + 1440)"
    using c rng inside ab(3) mod_pos_pos_trivial [of "b - c" 1440] mod_pos_pos_trivial [of "b - c + 1440" 1440]
    by (auto simp: k_def split: if_splits)
  have t: "nextQuietPeriodEnd now w d = now + k * 60000"
    using True ab c rng by (simp add: nextQuietPeriodEnd_def js_rem_def c_def [symmetric] k_def Let_def)
  have k_range: "0 < k" "k < 1440" using k c rng inside ab(3) by (auto split: if_splits)
  have at_end: "minuteOfDay (now + k * 60000) d = b"
    using minuteOfDay_later [of "now + k * 60000" now k d] c rng k by (auto simp: c_def [symmetric] split: if_splits)
  have before: "isWithinQuietHours u w d" if u: "now \<le> u" "u div 60000 < (now + k * 60000) div 60000" for u
  proof -
    define j where "j = u div 60000 - now div 60000"
    have j: "0 \<le> j" "j < k" using u zdiv_mono1 [of now u 60000] by (simp_all add: j_def)
    have "minuteOfDay u d = (c + j) mod 1440"
      using minuteOfDay_later [of u now j d] by (simp add: j_def c_def)
    also have "\<dots> = (if c + j < 1440 then c + j else c + j - 1440)"
      using c j k_range mod_pos_pos_trivial [of "c + j - 1440" 1440] by auto
    finally show ?thesis using within j k inside c rng by (auto split: if_splits)
  qed
  have "\<not> isWithinQuietHours (now + k * 60000) w d" using within at_end ab(3) by auto
  then show ?thesis using True t k_range before by (simp add: Let_def)
qed (simp add: nextQuietPeriodEnd_def)

lemma quiet_end_after: "now \<le> nextQuietPeriodEnd now w d"
  using quiet_end_spec [of now w d] by (auto simp: Let_def split: if_splits)

section \<open>Properties\<close>

text \<open>The end of the quiet period is right, for every offset and for windows that wrap past
  midnight: for a moment outside the window it is that moment; for a moment inside, it is later by
  less than a day and a whole number of minutes, it is outside the window, and every moment before
  the minute it falls in is still inside.\<close>

theorem quiet_period_end:
  "let t = nextQuietPeriodEnd now w d in
     (if isWithinQuietHours now w d
      then now < t \<and> t < now + 86400000 \<and> (t - now) mod 60000 = 0 \<and> \<not> isWithinQuietHours t w d
        \<and> (\<forall>u. now \<le> u \<longrightarrow> u div 60000 < t div 60000 \<longrightarrow> isWithinQuietHours u w d)
      else t = now)"
  by (rule quiet_end_spec)

theorem quiet_period_end_witness:
  "isWithinQuietHours 84600000 \<lparr>qw_start = ''22:00'', qw_end = ''07:00''\<rparr> 0 \<and>
   \<not> isWithinQuietHours (nextQuietPeriodEnd 84600000 \<lparr>qw_start = ''22:00'', qw_end = ''07:00''\<rparr> 0)
       \<lparr>qw_start = ''22:00'', qw_end = ''07:00''\<rparr> 0 \<and>
   isWithinQuietHours 100000000 \<lparr>qw_start = ''22:00'', qw_end = ''07:00''\<rparr> 0"
proof -
  let ?w = "\<lparr>qw_start = ''22:00'', qw_end = ''07:00''\<rparr>"
  have "isWithinQuietHours 84600000 ?w 0" "nextQuietPeriodEnd 84600000 ?w 0 = 111600000" by code_simp+
  then show ?thesis using quiet_period_end [of 84600000 ?w 0] by (simp add: Let_def)
qed

end
