(* ===== verification/Notifications.thy ===== *)
theory Notifications
  imports Quiet_Hours "HOL-Library.Multiset"
begin

text \<open>
  Notification routing of \<open>src/backend/src/notifications\<close>: the preference record and its routing
  defaults (\<open>notification-preference.types.ts\<close>, \<open>notification-preferences.repository.ts\<close>), the
  preference operations of \<open>notifications.service.ts\<close>, the queue lanes
  (\<open>notification-queue.constants.ts\<close>) and the dispatcher with its digest buffer
  (\<open>notification-dispatch.service.ts\<close>).

  The reply of \<open>prisma.notification.create\<close> (an error or the new row's id) and of BullMQ's
  \<open>queue.add\<close> (an error or the job's id) are arguments, as is the clock. A stored routing object may
  lack any key; \<open>overlay_routing\<close> is the object spread the code merges it with. \<open>dispatch_step\<close> runs
  the service as a state machine: an event, the digest timer, or an explicit flush.
\<close>

section \<open>Preference types\<close>

datatype notification_type = Renewal_Reminder | Claim_Update

datatype notification_channel = Email | InApp

datatype digest_mode = Digest_Off | Digest_Daily | Digest_Batch

record event_routing =
  er_email :: bool
  er_inApp :: bool

record quiet_hours_config = quiet_window +
  qh_enabled :: bool

record routing =
  rt_events :: "notification_type \<Rightarrow> event_routing"
  rt_quietHours :: quiet_hours_config
  rt_digestMode :: digest_mode

text \<open>The same objects with keys that may be missing: stored preferences and partial updates.\<close>

record partial_channels =
  pc_email :: "bool option"
  pc_inApp :: "bool option"

record partial_quiet =
  pq_enabled :: "bool option"
  pq_start :: "string option"
  pq_end :: "string option"

record partial_routing =
  pr_events :: "(notification_type \<Rightarrow> partial_channels option) option"
  pr_quietHours :: "partial_quiet option"
  pr_digestMode :: "digest_mode option"

record preference_record =
  p_userId :: string
  p_renewalRemindersEnabled :: "bool option"
  p_claimUpdatesEnabled :: "bool option"
  p_routing :: "partial_routing option"
  p_email :: "string option"
  p_emailVerified :: "bool option"

definition NOTIFICATION_TYPES :: "notification_type list" where
  "NOTIFICATION_TYPES = [Renewal_Reminder, Claim_Update]"

definition DEFAULT_NOTIFICATION_PREFERENCES :: "notification_type \<Rightarrow> bool" where
  "DEFAULT_NOTIFICATION_PREFERENCES k = True"

text \<open>\<open>record[NOTIFICATION_TYPE_TO_PREFERENCE_KEY[type]]\<close>.\<close>

definition preference_key :: "notification_type \<Rightarrow> preference_record \<Rightarrow> bool option" where
  "preference_key t r = (case t of Renewal_Reminder \<Rightarrow> p_renewalRemindersEnabled r | Claim_Update \<Rightarrow> p_claimUpdatesEnabled r)"

definition DEFAULT_CHANNEL_ROUTING :: event_routing where
  "DEFAULT_CHANNEL_ROUTING = \<lparr>er_email = True, er_inApp = True\<rparr>"

definition DEFAULT_QUIET_HOURS :: quiet_hours_config where
  "DEFAULT_QUIET_HOURS = \<lparr>qw_start = ''22:00'', qw_end = ''07:00'', qh_enabled = False\<rparr>"

definition defaultRoutingPreferences :: routing where
  "defaultRoutingPreferences =
     \<lparr>rt_events = (\<lambda>_. DEFAULT_CHANNEL_ROUTING), rt_quietHours = DEFAULT_QUIET_HOURS, rt_digestMode = Digest_Off\<rparr>"

definition or_else :: "'a option \<Rightarrow> 'a \<Rightarrow> 'a" where
  "or_else x d = (case x of None \<Rightarrow> d | Some v \<Rightarrow> v)"

definition overlay_channels :: "event_routing \<Rightarrow> partial_channels option \<Rightarrow> event_routing" where
  "overlay_channels b u =
     (case u of None \<Rightarrow> b
      | Some p \<Rightarrow> \<lparr>er_email = or_else (pc_email p) (er_email b), er_inApp = or_else (pc_inApp p) (er_inApp b)\<rparr>)"

definition overlay_quiet :: "quiet_hours_config \<Rightarrow> partial_quiet option \<Rightarrow> quiet_hours_config" where
  "overlay_quiet b u =
     (case u of None \<Rightarrow> b
      | Some p \<Rightarrow> \<lparr>qw_start = or_else (pq_start p) (qw_start b), qw_end = or_else (pq_end p) (qw_end b),
                   qh_enabled = or_else (pq_enabled p) (qh_enabled b)\<rparr>)"

definition overlay_routing :: "routing \<Rightarrow> partial_routing \<Rightarrow> routing" where
  "overlay_routing b u =
     \<lparr>rt_events = (\<lambda>t. overlay_channels (rt_events b t) (Option.bind (pr_events u) (\<lambda>e. e t))),
      rt_quietHours = overlay_quiet (rt_quietHours b) (pr_quietHours u),
      rt_digestMode = or_else (pr_digestMode u) (rt_digestMode b)\<rparr>"

definition resolveRoutingPreferences :: "partial_routing option \<Rightarrow> routing" where
  "resolveRoutingPreferences stored =
     (case stored of None \<Rightarrow> defaultRoutingPreferences
      | Some u \<Rightarrow> overlay_routing defaultRoutingPreferences u)"

text \<open>A complete routing object, as it is stored.\<close>

definition full_channels :: "event_routing \<Rightarrow> partial_channels" where
  "full_channels r = \<lparr>pc_email = Some (er_email r), pc_inApp = Some (er_inApp r)\<rparr>"

definition full_routing :: "routing \<Rightarrow> partial_routing" where
  "full_routing r =
     \<lparr>pr_events = Some (\<lambda>t. Some (full_channels (rt_events r t))),
      pr_quietHours = Some \<lparr>pq_enabled = Some (qh_enabled (rt_quietHours r)),
        pq_start = Some (qw_start (rt_quietHours r)), pq_end = Some (qw_end (rt_quietHours r))\<rparr>,
      pr_digestMode = Some (rt_digestMode r)\<rparr>"

section \<open>Preference repository\<close>

type_synonym preferences = "string \<rightharpoonup> preference_record"

definition findByUserId :: "preferences \<Rightarrow> string \<Rightarrow> preference_record option" where
  "findByUserId m uid = m uid"

definition upsertPreference :: "preference_record \<Rightarrow> preferences \<Rightarrow> preferences" where
  "upsertPreference r m = m(p_userId r \<mapsto> r)"

section \<open>Preference operations of the notifications service\<close>

definition resolveNotificationPreferences :: "preference_record option \<Rightarrow> notification_type \<Rightarrow> bool" where
  "resolveNotificationPreferences r t =
     or_else (Option.bind r (preference_key t)) (DEFAULT_NOTIFICATION_PREFERENCES t)"

definition getUserNotificationPreferences ::
  "string \<Rightarrow> preferences \<Rightarrow> (notification_type \<Rightarrow> bool) \<times> preferences" where
  "getUserNotificationPreferences uid m =
     (let m' = (case findByUserId m uid of
          Some _ \<Rightarrow> m
        | None \<Rightarrow> upsertPreference
            \<lparr>p_userId = uid,
             p_renewalRemindersEnabled = Some (DEFAULT_NOTIFICATION_PREFERENCES Renewal_Reminder),
             p_claimUpdatesEnabled = Some (DEFAULT_NOTIFICATION_PREFERENCES Claim_Update),
             p_routing = None, p_email = None, p_emailVerified = Some False\<rparr> m)
      in (resolveNotificationPreferences (findByUserId m' uid), m'))"

definition updateUserNotificationPreferences ::
  "string \<Rightarrow> (notification_type \<Rightarrow> bool option) \<Rightarrow> preferences \<Rightarrow> (notification_type \<Rightarrow> bool) \<times> preferences" where
  "updateUserNotificationPreferences uid updates m =
     (let cur = findByUserId m uid;
          resolved = resolveNotificationPreferences cur;
          nxt = (\<lambda>t. or_else (updates t) (resolved t))
      in (nxt, upsertPreference
            \<lparr>p_userId = uid,
             p_renewalRemindersEnabled = Some (nxt Renewal_Reminder),
             p_claimUpdatesEnabled = Some (nxt Claim_Update),
             p_routing = Option.bind cur p_routing, p_email = Option.bind cur p_email,
             p_emailVerified = Some (or_else (Option.bind cur p_emailVerified) False)\<rparr> m))"

definition shouldSendNotification :: "string \<Rightarrow> notification_type \<Rightarrow> preferences \<Rightarrow> bool \<times> preferences" where
  "shouldSendNotification uid t m =
     (let (prefs, m') = getUserNotificationPreferences uid m in (prefs t, m'))"

definition getRoutingPreferences :: "string \<Rightarrow> preferences \<Rightarrow> routing" where
  "getRoutingPreferences uid m = resolveRoutingPreferences (Option.bind (findByUserId m uid) p_routing)"

definition updateRoutingPreferences :: "string \<Rightarrow> partial_routing \<Rightarrow> preferences \<Rightarrow> routing \<times> preferences" where
  "updateRoutingPreferences uid upd m =
     (let nxt = overlay_routing (getRoutingPreferences uid m) upd;
          r = findByUserId m uid
      in (nxt, upsertPreference
            \<lparr>p_userId = uid,
             p_renewalRemindersEnabled = Some (resolveNotificationPreferences r Renewal_Reminder),
             p_claimUpdatesEnabled = Some (resolveNotificationPreferences r Claim_Update),
             p_routing = Some (full_routing nxt), p_email = Option.bind r p_email,
             p_emailVerified = Some (or_else (Option.bind r p_emailVerified) False)\<rparr> m))"

definition type_name :: "notification_type \<Rightarrow> string" where
  "type_name t = (case t of Renewal_Reminder \<Rightarrow> ''renewal_reminder'' | Claim_Update \<Rightarrow> ''claim_update'')"

definition scope_types :: "string option \<Rightarrow> notification_type list" where
  "scope_types scope =
     (if scope = None \<or> scope = Some [] \<or> scope = Some ''*'' \<or> scope = Some ''all'' then NOTIFICATION_TYPES
      else filter (\<lambda>t. Some (type_name t) = scope) NOTIFICATION_TYPES)"

definition unsubscribeFromEmail ::
  "string \<Rightarrow> string option \<Rightarrow> preferences \<Rightarrow> (bool \<times> string) \<times> preferences" where
  "unsubscribeFromEmail uid scope m =
     (let routing = getRoutingPreferences uid m;
          types = scope_types scope
      in if types = [] then ((False, or_else scope ''*''), m)
         else let events = foldl (\<lambda>e t. e(t := (e t)\<lparr>er_email := False\<rparr>)) (rt_events routing) types
              in ((True, if length types = 1 then type_name (hd types) else ''*''),
                  snd (updateRoutingPreferences uid
                    \<lparr>pr_events = Some (\<lambda>t. Some (full_channels (events t))), pr_quietHours = None, pr_digestMode = None\<rparr> m)))"

section \<open>Queue lanes\<close>

datatype notification_priority = Critical | Digest_Lane

definition NOTIFICATION_TYPE_PRIORITY :: "notification_type \<Rightarrow> notification_priority" where
  "NOTIFICATION_TYPE_PRIORITY t = (case t of Claim_Update \<Rightarrow> Critical | Renewal_Reminder \<Rightarrow> Digest_Lane)"

definition PRIORITY_VALUES :: "notification_priority \<Rightarrow> int" where
  "PRIORITY_VALUES p = (case p of Critical \<Rightarrow> 10 | Digest_Lane \<Rightarrow> 5)"

definition getPriorityForNotificationType :: "notification_type \<Rightarrow> int" where
  "getPriorityForNotificationType t = PRIORITY_VALUES (NOTIFICATION_TYPE_PRIORITY t)"

section \<open>Dispatcher state\<close>

record delivery_job =
  j_userId :: string
  j_type :: notification_type
  j_recordIds :: "string list"
  j_channels :: "notification_channel list"

record queued_job =
  q_name :: string
  q_job :: delivery_job
  q_priority :: int
  q_delay :: "int option"

datatype scalar = SStr string | SNum int | SNull

record domain_event =
  ev_type :: notification_type
  ev_userId :: string
  ev_recordId :: string
  ev_context :: "string \<rightharpoonup> scalar"

record notification_row =
  nr_userId :: string
  nr_type :: string
  nr_payload :: "string \<rightharpoonup> scalar"
  nr_acknowledgedAt :: "int option"

datatype skip_reason = Preference_Disabled | No_Enabled_Channel | Email_Unverified | Email_Not_Routed

record dispatch_outcome =
  o_userId :: string
  o_type :: notification_type
  o_notificationId :: "string option"
  o_channels :: "notification_channel list"
  o_skipped :: "(notification_channel \<times> skip_reason) list"
  o_deferredUntil :: "string option"
  o_digested :: bool

record digest_entry =
  de_type :: notification_type
  de_recordIds :: "string list"

text \<open>\<open>digests\<close> is a JavaScript \<open>Map\<close>: pairs in insertion order; \<open>digestTimer\<close> is the moment the armed
  timer fires.\<close>

record dispatch_state =
  ds_prefs :: preferences
  ds_rows :: "(string \<times> notification_row) list"
  ds_queue :: "queued_job list"
  ds_digests :: "(string \<times> digest_entry) list"
  ds_timer :: "int option"

record dispatch_env =
  e_create :: "notification_row \<Rightarrow> string + string"
  e_add :: "queued_job \<Rightarrow> string + string"
  e_rowTime :: int
  e_now :: int
  e_windowMs :: int

section \<open>Dispatcher operations\<close>

definition enqueue :: "dispatch_env \<Rightarrow> delivery_job \<Rightarrow> int \<Rightarrow> (dispatch_state, string, string) se" where
  "enqueue env job delayMs st =
     (let q = \<lparr>q_name = ''notification:'' @ type_name (j_type job), q_job = job,
               q_priority = getPriorityForNotificationType (j_type job),
               q_delay = (if 0 < delayMs then Some delayMs else None)\<rparr>
      in case e_add env q of
           Inl e \<Rightarrow> (Inl e, st)
         | Inr jid \<Rightarrow> (Inr jid, st\<lparr>ds_queue := ds_queue st @ [q]\<rparr>))"

definition resolveQuietDelay :: "routing \<Rightarrow> int \<Rightarrow> int \<times> string option" where
  "resolveQuietDelay r now =
     (let quietHours = rt_quietHours r in
      if \<not> qh_enabled quietHours then (0, None)
      else if \<not> isWithinQuietHours now quietHours 0 then (0, None)
      else let resumeAt = nextQuietPeriodEnd now quietHours 0
           in (max (resumeAt - now) 0, Some (js_toISOString resumeAt)))"

definition digest_push :: "string \<Rightarrow> notification_type \<Rightarrow> string \<Rightarrow> (string \<times> digest_entry) list \<Rightarrow> (string \<times> digest_entry) list" where
  "digest_push uid t rid ds =
     (case map_of ds uid of
        Some _ \<Rightarrow> map (\<lambda>(k, e). (k, if k = uid then e\<lparr>de_recordIds := de_recordIds e @ [rid]\<rparr> else e)) ds
      | None \<Rightarrow> ds @ [(uid, \<lparr>de_type = t, de_recordIds = [rid]\<rparr>)])"

definition bufferDigest :: "dispatch_env \<Rightarrow> string \<Rightarrow> notification_type \<Rightarrow> string \<Rightarrow> dispatch_state \<Rightarrow> dispatch_state" where
  "bufferDigest env uid t rid st =
     st\<lparr>ds_digests := digest_push uid t rid (ds_digests st),
        ds_timer := (case ds_timer st of None \<Rightarrow> Some (e_now env + e_windowMs env) | Some x \<Rightarrow> Some x)\<rparr>"

definition emailReady :: "preference_record option \<Rightarrow> bool" where
  "emailReady r =
     (case r of None \<Rightarrow> False
      | Some p \<Rightarrow> p_email p \<noteq> None \<and> p_email p \<noteq> Some [] \<and> p_emailVerified p = Some True)"

definition event_row :: "dispatch_env \<Rightarrow> domain_event \<Rightarrow> bool \<Rightarrow> notification_row" where
  "event_row env ev inAppRouted =
     \<lparr>nr_userId = ev_userId ev, nr_type = type_name (ev_type ev),
      nr_payload = [''type'' \<mapsto> SStr (type_name (ev_type ev)), ''recordId'' \<mapsto> SStr (ev_recordId ev)] ++ ev_context ev,
      nr_acknowledgedAt = (if inAppRouted then None else Some (e_rowTime env))\<rparr>"

text \<open>The part of \<open>dispatch\<close> after the row has been created, for an email that may be sent.\<close>

definition dispatch_email ::
  "dispatch_env \<Rightarrow> domain_event \<Rightarrow> routing \<Rightarrow> string \<Rightarrow> dispatch_outcome \<Rightarrow> (dispatch_state, string, dispatch_outcome) se" where
  "dispatch_email env ev routing rowId out st =
     (let (delayMs, deferredUntil) = resolveQuietDelay routing (e_now env);
          out' = out\<lparr>o_channels := o_channels out @ [Email], o_deferredUntil := deferredUntil\<rparr>
      in if rt_digestMode routing \<noteq> Digest_Off \<and> ev_type ev = Claim_Update
         then (Inr (out'\<lparr>o_digested := True\<rparr>), bufferDigest env (ev_userId ev) (ev_type ev) rowId st)
         else se_bind
           (enqueue env \<lparr>j_userId = ev_userId ev, j_type = ev_type ev, j_recordIds = [rowId], j_channels = [Email]\<rparr> delayMs)
           (\<lambda>_. se_return out') st)"

definition dispatch :: "dispatch_env \<Rightarrow> domain_event \<Rightarrow> (dispatch_state, string, dispatch_outcome) se" where
  "dispatch env ev st =
     (let record = findByUserId (ds_prefs st) (ev_userId ev);
          routing = resolveRoutingPreferences (Option.bind record p_routing);
          masterSwitch = (Option.bind record (preference_key (ev_type ev)) \<noteq> Some False);
          out = \<lparr>o_userId = ev_userId ev, o_type = ev_type ev, o_notificationId = None, o_channels = [],
                 o_skipped = [], o_deferredUntil = None, o_digested = False\<rparr>
      in if \<not> masterSwitch
         then (Inr (out\<lparr>o_skipped := [(Email, Preference_Disabled), (InApp, Preference_Disabled)]\<rparr>), st)
         else
      let emailRouted = er_email (rt_events routing (ev_type ev));
          inAppRouted = er_inApp (rt_events routing (ev_type ev));
          ready = (emailRouted \<and> emailReady record);
          out = (if emailRouted \<and> \<not> ready then out\<lparr>o_skipped := [(Email, Email_Unverified)]\<rparr> else out)
      in if \<not> emailRouted \<and> \<not> inAppRouted
         then (Inr (out\<lparr>o_skipped := o_skipped out @ [(Email, No_Enabled_Channel), (InApp, No_Enabled_Channel)]\<rparr>), st)
         else case e_create env (event_row env ev inAppRouted) of
           Inl e \<Rightarrow> (Inl e, st)
         | Inr rowId \<Rightarrow>
             let st = st\<lparr>ds_rows := ds_rows st @ [(rowId, event_row env ev inAppRouted)]\<rparr>;
                 out = out\<lparr>o_notificationId := Some rowId, o_channels := (if inAppRouted then [InApp] else [])\<rparr>
             in if \<not> ready then (Inr out, st) else dispatch_email env ev routing rowId out st)"

text \<open>The loop of \<open>flushDigests\<close> over the pending entries: an entry leaves the map before its job is
  added, and an error of \<open>queue.add\<close> ends the loop.\<close>

fun flush_pending :: "dispatch_env \<Rightarrow> (string \<times> digest_entry) list \<Rightarrow> int \<Rightarrow> (dispatch_state, string, int) se" where
  "flush_pending env [] n st = (Inr n, st)"
| "flush_pending env ((uid, entry) # pending) n st =
     (let st1 = st\<lparr>ds_digests := filter (\<lambda>(k, _). k \<noteq> uid) (ds_digests st)\<rparr> in
      if de_recordIds entry = [] then flush_pending env pending n st1
      else
        let routing = resolveRoutingPreferences (Option.bind (findByUserId (ds_prefs st1) uid) p_routing)
        in case enqueue env \<lparr>j_userId = uid, j_type = de_type entry, j_recordIds = de_recordIds entry, j_channels = [Email]\<rparr>
                  (fst (resolveQuietDelay routing (e_now env))) st1 of
             (Inl e, st2) \<Rightarrow> (Inl e, st2)
           | (Inr _, st2) \<Rightarrow> flush_pending env pending (n + 1) st2)"

definition pending_entries :: "string option \<Rightarrow> (string \<times> digest_entry) list \<Rightarrow> (string \<times> digest_entry) list" where
  "pending_entries userId ds =
     (case userId of
        None \<Rightarrow> ds
      | Some u \<Rightarrow> if u = [] then ds else (case map_of ds u of None \<Rightarrow> [] | Some e \<Rightarrow> [(u, e)]))"

definition flushDigests :: "dispatch_env \<Rightarrow> string option \<Rightarrow> (dispatch_state, string, int) se" where
  "flushDigests env userId st = flush_pending env (pending_entries userId (ds_digests st)) 0 st"

text \<open>The callback of the digest timer.\<close>

definition digest_timer_fires :: "dispatch_env \<Rightarrow> dispatch_state \<Rightarrow> dispatch_state" where
  "digest_timer_fires env st =
     (if ds_timer st = None then st else snd (flushDigests env None (st\<lparr>ds_timer := None\<rparr>)))"

definition onModuleDestroy :: "dispatch_state \<Rightarrow> dispatch_state" where
  "onModuleDestroy st = st\<lparr>ds_timer := None\<rparr>"

definition peekDigests :: "dispatch_state \<Rightarrow> (string \<times> string list) list" where
  "peekDigests st = map (\<lambda>(uid, e). (uid, de_recordIds e)) (ds_digests st)"

datatype dispatch_action = Event dispatch_env domain_event | Timer_Fires dispatch_env | Flush dispatch_env "string option"

definition dispatch_step :: "dispatch_state \<Rightarrow> dispatch_action \<Rightarrow> dispatch_state" where
  "dispatch_step st a =
     (case a of Event env ev \<Rightarrow> snd (dispatch env ev st)
      | Timer_Fires env \<Rightarrow> digest_timer_fires env st
      | Flush env u \<Rightarrow> snd (flushDigests env u st))"


section \<open>Routing\<close>

named_theorems overlay_defs \<open>the object spreads\<close>

lemmas [overlay_defs] = overlay_routing_def overlay_channels_def overlay_quiet_def or_else_def

lemma overlay_full: "overlay_routing b (full_routing r) = r"
proof -
  have "(\<lambda>t. \<lparr>er_email = er_email (rt_events r t), er_inApp = er_inApp (rt_events r t)\<rparr>) = rt_events r"
    by (simp add: fun_eq_iff)
  then show ?thesis by (simp add: overlay_defs full_routing_def full_channels_def)
qed

lemma resolve_full [simp]: "resolveRoutingPreferences (Some (full_routing r)) = r"
  by (simp add: resolveRoutingPreferences_def overlay_full)

lemma getRoutingPreferences_update:
  "getRoutingPreferences u (snd (updateRoutingPreferences uid upd m)) =
     (if u = uid then overlay_routing (getRoutingPreferences uid m) upd else getRoutingPreferences u m)"
  by (simp add: updateRoutingPreferences_def getRoutingPreferences_def findByUserId_def upsertPreference_def Let_def)

lemma scope_types_distinct: "distinct (scope_types scope)"
  by (simp add: scope_types_def NOTIFICATION_TYPES_def)

lemma fold_email_off:
  "foldl (\<lambda>e t. e(t := (e t)\<lparr>er_email := False\<rparr>)) ev ts t =
     (if t \<in> set ts then (ev t)\<lparr>er_email := False\<rparr> else ev t)"
  by (induction ts arbitrary: ev) auto

text \<open>Whether an email may be sent to the event's user at all.\<close>

definition email_allowed :: "preferences \<Rightarrow> string \<Rightarrow> notification_type \<Rightarrow> bool" where
  "email_allowed m uid t =
     (Option.bind (m uid) (preference_key t) \<noteq> Some False \<and>
      er_email (rt_events (getRoutingPreferences uid m) t) \<and> emailReady (m uid))"

lemma unsubscribe_routing:
  "rt_events (getRoutingPreferences u (snd (unsubscribeFromEmail uid scope m))) t =
     (if u = uid \<and> t \<in> set (scope_types scope) then (rt_events (getRoutingPreferences u m) t)\<lparr>er_email := False\<rparr>
      else rt_events (getRoutingPreferences u m) t)"
  by (simp add: unsubscribeFromEmail_def Let_def getRoutingPreferences_update overlay_defs full_channels_def
      fold_email_off)

lemma unsubscribe_other_user: "u \<noteq> uid \<Longrightarrow> snd (unsubscribeFromEmail uid scope m) u = m u"
  by (simp add: unsubscribeFromEmail_def updateRoutingPreferences_def upsertPreference_def Let_def)

lemma unsubscribe_keeps_rest:
  assumes "\<And>r. m uid = Some r \<Longrightarrow> p_userId r = uid"
  shows "Option.bind (snd (unsubscribeFromEmail uid scope m) uid) (preference_key t) \<noteq> Some False \<longleftrightarrow>
      Option.bind (m uid) (preference_key t) \<noteq> Some False"
    and "emailReady (snd (unsubscribeFromEmail uid scope m) uid) = emailReady (m uid)"
  using assms
  by (cases t; cases "m uid"; auto simp: unsubscribeFromEmail_def updateRoutingPreferences_def upsertPreference_def
      findByUserId_def resolveNotificationPreferences_def preference_key_def or_else_def emailReady_def
      DEFAULT_NOTIFICATION_PREFERENCES_def Let_def split: option.splits)+

section \<open>One event\<close>

lemma enqueue_cases:
  obtains e where "enqueue env job d st = (Inl e, st)"
  | jid q where "enqueue env job d st = (Inr jid, st\<lparr>ds_queue := ds_queue st @ [q]\<rparr>)" "q_job q = job"
      "q_delay q = (if 0 < d then Some d else None)" "q_priority q = getPriorityForNotificationType (j_type job)"
  by (cases "e_add env \<lparr>q_name = ''notification:'' @ type_name (j_type job), q_job = job,
      q_priority = getPriorityForNotificationType (j_type job), q_delay = (if 0 < d then Some d else None)\<rparr>")
    (auto simp: enqueue_def Let_def)

definition healthy :: "dispatch_env \<Rightarrow> bool" where
  "healthy env = (\<forall>q e. e_add env q \<noteq> Inl e)"

lemma enqueue_healthy:
  assumes "healthy env"
  obtains jid q where "enqueue env job d st = (Inr jid, st\<lparr>ds_queue := ds_queue st @ [q]\<rparr>)" "q_job q = job"
  using assms by (cases "e_add env \<lparr>q_name = ''notification:'' @ type_name (j_type job), q_job = job,
      q_priority = getPriorityForNotificationType (j_type job), q_delay = (if 0 < d then Some d else None)\<rparr>")
    (auto simp: enqueue_def Let_def healthy_def)

lemma dispatch_not_allowed:
  assumes "\<not> email_allowed (ds_prefs st) (ev_userId ev) (ev_type ev)"
  shows "ds_queue (snd (dispatch env ev st)) = ds_queue st" "ds_digests (snd (dispatch env ev st)) = ds_digests st"
    "ds_timer (snd (dispatch env ev st)) = ds_timer st"
    "fst (dispatch env ev st) = Inr out \<Longrightarrow> Email \<notin> set (o_channels out)"
  using assms
  by (auto simp: dispatch_def email_allowed_def getRoutingPreferences_def findByUserId_def Let_def
      split: sum.splits if_splits)

abbreviation event_routing_of :: "dispatch_state \<Rightarrow> domain_event \<Rightarrow> routing" where
  "event_routing_of st ev \<equiv> getRoutingPreferences (ev_userId ev) (ds_prefs st)"

abbreviation in_app_routed :: "dispatch_state \<Rightarrow> domain_event \<Rightarrow> bool" where
  "in_app_routed st ev \<equiv> er_inApp (rt_events (event_routing_of st ev) (ev_type ev))"

lemma dispatch_allowed:
  assumes "email_allowed (ds_prefs st) (ev_userId ev) (ev_type ev)"
    and "e_create env (event_row env ev (in_app_routed st ev)) = Inr rowId"
  shows "dispatch env ev st =
     dispatch_email env ev (event_routing_of st ev) rowId
       \<lparr>o_userId = ev_userId ev, o_type = ev_type ev, o_notificationId = Some rowId,
        o_channels = (if in_app_routed st ev then [InApp] else []), o_skipped = [], o_deferredUntil = None, o_digested = False\<rparr>
       (st\<lparr>ds_rows := ds_rows st @ [(rowId, event_row env ev (in_app_routed st ev))]\<rparr>)"
  using assms by (simp add: dispatch_def email_allowed_def getRoutingPreferences_def findByUserId_def Let_def)

lemma dispatch_create_fails:
  assumes "email_allowed (ds_prefs st) (ev_userId ev) (ev_type ev)"
    and "e_create env (event_row env ev (in_app_routed st ev)) = Inl e"
  shows "dispatch env ev st = (Inl e, st)"
  using assms by (simp add: dispatch_def email_allowed_def getRoutingPreferences_def findByUserId_def Let_def)

lemma resolveQuietDelay_cases:
  "resolveQuietDelay r now =
     (if qh_enabled (rt_quietHours r) \<and> isWithinQuietHours now (rt_quietHours r) 0
      then (nextQuietPeriodEnd now (rt_quietHours r) 0 - now, Some (js_toISOString (nextQuietPeriodEnd now (rt_quietHours r) 0)))
      else (0, None))"
  using quiet_end_after [of now "rt_quietHours r" 0] by (auto simp: resolveQuietDelay_def Let_def max_def)

section \<open>The digest buffer\<close>

definition entry_ids :: "(string \<times> digest_entry) list \<Rightarrow> string multiset" where
  "entry_ids ds = mset (concat (map (de_recordIds \<circ> snd) ds))"

definition queue_ids :: "queued_job list \<Rightarrow> string multiset" where
  "queue_ids q = mset (concat (map (j_recordIds \<circ> q_job) q))"

text \<open>The row ids an email has been promised for: in a queued job, or in the buffer.\<close>

definition email_ids :: "dispatch_state \<Rightarrow> string multiset" where
  "email_ids st = queue_ids (ds_queue st) + entry_ids (ds_digests st)"

definition digest_inv :: "dispatch_state \<Rightarrow> bool" where
  "digest_inv st \<longleftrightarrow> distinct (map fst (ds_digests st)) \<and>
     (\<forall>(uid, e) \<in> set (ds_digests st). de_type e = Claim_Update \<and> de_recordIds e \<noteq> [])"

lemma entry_ids_simps [simp]:
  "entry_ids [] = {#}" "entry_ids (x # ds) = mset (de_recordIds (snd x)) + entry_ids ds"
  "entry_ids (ds @ es) = entry_ids ds + entry_ids es"
  by (simp_all add: entry_ids_def)

lemma queue_ids_simps [simp]:
  "queue_ids [] = {#}" "queue_ids (q @ [x]) = queue_ids q + mset (j_recordIds (q_job x))"
  by (simp_all add: queue_ids_def)

lemma entry_ids_push_at:
  "distinct (map fst ds) \<Longrightarrow> map_of ds uid = Some e \<Longrightarrow>
   entry_ids (map (\<lambda>(k, e). (k, if k = uid then e\<lparr>de_recordIds := de_recordIds e @ [rid]\<rparr> else e)) ds) = add_mset rid (entry_ids ds)"
proof (induction ds)
  case (Cons x ds)
  have same: "uid \<notin> set (map fst ds) \<Longrightarrow>
      map (\<lambda>(k, e). (k, if k = uid then e\<lparr>de_recordIds := de_recordIds e @ [rid]\<rparr> else e)) ds = ds"
    by (induction ds) auto
  from Cons show ?case by (cases x) (auto simp: same split: if_splits)
qed simp

lemma entry_ids_push: "distinct (map fst ds) \<Longrightarrow> entry_ids (digest_push uid t rid ds) = add_mset rid (entry_ids ds)"
  by (auto simp: digest_push_def entry_ids_push_at split: option.split)

lemma map_fst_push: "map fst (digest_push uid t rid ds) = (if uid \<in> fst ` set ds then map fst ds else map fst ds @ [uid])"
  by (auto simp: digest_push_def map_of_eq_None_iff comp_def case_prod_unfold split: option.splits
      dest: map_of_SomeD intro: rev_image_eqI)

lemma map_of_push:
  "map_of (digest_push uid t rid ds) u =
     (if u = uid then Some (case map_of ds uid of None \<Rightarrow> \<lparr>de_type = t, de_recordIds = [rid]\<rparr>
        | Some e \<Rightarrow> e\<lparr>de_recordIds := de_recordIds e @ [rid]\<rparr>) else map_of ds u)"
proof -
  have "map_of (map (\<lambda>(k, e). (k, if k = uid then f e else e)) ds) u =
      (if u = uid then map_option f (map_of ds u) else map_of ds u)" for f :: "digest_entry \<Rightarrow> digest_entry"
    by (induction ds) auto
  then show ?thesis by (auto simp: digest_push_def map_add_def split: option.split)
qed

lemma digest_push_entries:
  "(u, e') \<in> set (digest_push uid t rid ds) \<Longrightarrow>
   (u, e') \<in> set ds \<or> u = uid \<and> (e' = \<lparr>de_type = t, de_recordIds = [rid]\<rparr>
     \<or> (\<exists>e. (uid, e) \<in> set ds \<and> e' = e\<lparr>de_recordIds := de_recordIds e @ [rid]\<rparr>))"
  by (auto simp: digest_push_def split: option.splits if_splits)

lemma digest_inv_push:
  assumes "digest_inv st"
  shows "digest_inv (bufferDigest env uid Claim_Update rid st)"
proof -
  have "distinct (map fst (digest_push uid Claim_Update rid (ds_digests st)))"
    using assms by (simp add: digest_inv_def map_fst_push)
  moreover have "de_type e' = Claim_Update \<and> de_recordIds e' \<noteq> []"
    if "(u, e') \<in> set (digest_push uid Claim_Update rid (ds_digests st))" for u e'
    using assms digest_push_entries [OF that] by (auto simp: digest_inv_def)
  ultimately show ?thesis by (auto simp: digest_inv_def bufferDigest_def)
qed

lemma filter_not_key: "uid \<notin> fst ` set ds \<Longrightarrow> filter (\<lambda>(k, _). k \<noteq> uid) ds = ds"
  by (induction ds) auto

lemma entry_ids_remove:
  "distinct (map fst ds) \<Longrightarrow> (uid, e) \<in> set ds \<Longrightarrow>
   mset (de_recordIds e) + entry_ids (filter (\<lambda>(k, _). k \<noteq> uid) ds) = entry_ids ds"
proof (induction ds)
  case (Cons x ds)
  show ?case
  proof (cases "fst x = uid")
    case True
    then have "x = (uid, e)" using Cons.prems by (auto intro: rev_image_eqI)
    then show ?thesis using Cons.prems by (simp add: filter_not_key)
  next
    case False
    then show ?thesis using Cons by (auto simp: case_prod_unfold add.left_commute)
  qed
qed simp


lemma flush_pending_ok:
  assumes "healthy env" "distinct (map fst (ds_digests st))" "distinct (map fst pending)"
    and "set pending \<subseteq> set (ds_digests st)"
  shows "\<exists>k q. flush_pending env pending n st =
      (Inr (n + k), st\<lparr>ds_queue := q, ds_digests := filter (\<lambda>(u, _). u \<notin> fst ` set pending) (ds_digests st)\<rparr>)
    \<and> queue_ids q + entry_ids (filter (\<lambda>(u, _). u \<notin> fst ` set pending) (ds_digests st)) = email_ids st"
  using assms
proof (induction pending arbitrary: n st)
  case Nil
  then show ?case by (auto simp: email_ids_def case_prod_unfold intro: exI [of _ "ds_queue st"])
next
  case (Cons x pending)
  obtain uid e where x: "x = (uid, e)" by (cases x)
  define st1 where "st1 = st\<lparr>ds_digests := filter (\<lambda>(k, _). k \<noteq> uid) (ds_digests st)\<rparr>"
  have fst_filter: "filter (\<lambda>(u, _). u \<notin> fst ` set pending) (filter (\<lambda>(k, _). k \<noteq> uid) (ds_digests st)) =
      filter (\<lambda>(u, _). u \<notin> fst ` set (x # pending)) (ds_digests st)"
    by (simp add: x case_prod_unfold conj_commute)
  have removed: "mset (de_recordIds e) + entry_ids (ds_digests st1) = entry_ids (ds_digests st)"
    using Cons.prems entry_ids_remove [of "ds_digests st" uid e] by (simp add: st1_def x)
  have hyps: "distinct (map fst (ds_digests st1))" "set pending \<subseteq> set (ds_digests st1)"
    using Cons.prems by (auto simp: st1_def x distinct_map_filter case_prod_unfold intro: rev_image_eqI)
  obtain st2 n2 where rest: "flush_pending env (x # pending) n st = flush_pending env pending (n + n2) st2"
    and st2: "st2 = st1\<lparr>ds_queue := ds_queue st2\<rparr>" "email_ids st2 = email_ids st"
  proof (cases "de_recordIds e = []")
    case True
    then show ?thesis using that [of 0 st1] removed by (simp add: x st1_def email_ids_def Let_def)
  next
    case False
    obtain jid q where q: "enqueue env \<lparr>j_userId = uid, j_type = de_type e, j_recordIds = de_recordIds e, j_channels = [Email]\<rparr>
        (fst (resolveQuietDelay (resolveRoutingPreferences (Option.bind (findByUserId (ds_prefs st1) uid) p_routing)) (e_now env))) st1
        = (Inr jid, st1\<lparr>ds_queue := ds_queue st1 @ [q]\<rparr>)" "j_recordIds (q_job q) = de_recordIds e"
      using enqueue_healthy [OF Cons.prems(1)] by (metis delivery_job.select_convs(3))
    then show ?thesis
      using that [of 1 "st1\<lparr>ds_queue := ds_queue st1 @ [q]\<rparr>"] removed False
      by (simp add: x st1_def [symmetric] email_ids_def Let_def add.assoc) (simp add: st1_def)
  qed
  have d2: "ds_digests st2 = ds_digests st1" by (subst st2(1)) simp
  obtain k q where "flush_pending env pending (n + n2) st2 =
      (Inr (n + n2 + k), st2\<lparr>ds_queue := q, ds_digests := filter (\<lambda>(u, _). u \<notin> fst ` set pending) (ds_digests st2)\<rparr>)"
    "queue_ids q + entry_ids (filter (\<lambda>(u, _). u \<notin> fst ` set pending) (ds_digests st2)) = email_ids st2"
    using Cons.IH [of st2 "n + n2"] Cons.prems hyps d2 by auto
  moreover have "st2\<lparr>ds_queue := q, ds_digests := w\<rparr> = st\<lparr>ds_queue := q, ds_digests := w\<rparr>" for w
    by (subst st2(1)) (simp add: st1_def)
  ultimately show ?case
    using rest st2(2) d2 fst_filter by (auto simp: st1_def add.assoc intro!: exI [of _ "n2 + k"])
qed


lemma flush_pending_frame:
  "\<exists>P. ds_digests (snd (flush_pending env pending n st)) = filter P (ds_digests st) \<and>
     ds_timer (snd (flush_pending env pending n st)) = ds_timer st \<and>
     ds_prefs (snd (flush_pending env pending n st)) = ds_prefs st"
proof (induction pending arbitrary: n st)
  case Nil
  show ?case by (auto intro: exI [of _ "\<lambda>_. True"])
next
  case (Cons x pending)
  obtain uid e where x: "x = (uid, e)" by (cases x)
  define st1 where "st1 = st\<lparr>ds_digests := filter (\<lambda>(k, _). k \<noteq> uid) (ds_digests st)\<rparr>"
  define r where "r = enqueue env \<lparr>j_userId = uid, j_type = de_type e, j_recordIds = de_recordIds e, j_channels = [Email]\<rparr>
      (fst (resolveQuietDelay (resolveRoutingPreferences (Option.bind (findByUserId (ds_prefs st1) uid) p_routing)) (e_now env))) st1"
  have r: "ds_digests (snd r) = ds_digests st1" "ds_timer (snd r) = ds_timer st1" "ds_prefs (snd r) = ds_prefs st1"
    by (auto simp: r_def enqueue_def Let_def split: sum.split)
  have one: "flush_pending env (x # pending) n st =
      (if de_recordIds e = [] then flush_pending env pending n st1
       else case r of (Inl e, st2) \<Rightarrow> (Inl e, st2) | (Inr _, st2) \<Rightarrow> flush_pending env pending (n + 1) st2)"
    by (simp add: x st1_def r_def Let_def)
  have base: "\<exists>P. ds_digests st1 = filter P (ds_digests st)" "ds_timer st1 = ds_timer st" "ds_prefs st1 = ds_prefs st"
    by (auto simp: st1_def)
  show ?case
  proof (cases "de_recordIds e = [] \<or> isl (fst r)")
    case True
    then show ?thesis using Cons.IH [of n st1] one r base by (cases r) (auto simp: isl_def)
  next
    case False
    then obtain v st2 where v: "r = (Inr v, st2)" by (cases r; cases "fst r") auto
    then show ?thesis using Cons.IH [of "n + 1" st2] one r base False by auto
  qed
qed

lemma dispatch_effect:
  "(\<exists>env' uid rid st1. ds_digests st1 = ds_digests st \<and> ds_timer st1 = ds_timer st \<and> ds_queue st1 = ds_queue st \<and>
      snd (dispatch env ev st) = bufferDigest env' uid Claim_Update rid st1 \<and>
      (\<exists>out. fst (dispatch env ev st) = Inr out \<and> Email \<in> set (o_channels out) \<and> o_notificationId out = Some rid))
   \<or> ds_digests (snd (dispatch env ev st)) = ds_digests st \<and> ds_timer (snd (dispatch env ev st)) = ds_timer st \<and>
     queue_ids (ds_queue (snd (dispatch env ev st))) = queue_ids (ds_queue st) +
       (case fst (dispatch env ev st) of
          Inr out \<Rightarrow> if Email \<in> set (o_channels out) then mset (case o_notificationId out of None \<Rightarrow> [] | Some i \<Rightarrow> [i]) else {#}
        | Inl _ \<Rightarrow> {#})"
proof (cases "email_allowed (ds_prefs st) (ev_userId ev) (ev_type ev)")
  case False
  then show ?thesis using dispatch_not_allowed [OF False] by (auto split: sum.split)
next
  case True
  show ?thesis
  proof (cases "e_create env (event_row env ev (in_app_routed st ev))")
    case (Inl e)
    then show ?thesis using dispatch_create_fails [OF True] by simp
  next
    case (Inr rid)
    show ?thesis
    proof (cases "rt_digestMode (event_routing_of st ev) \<noteq> Digest_Off \<and> ev_type ev = Claim_Update")
      case buffered: True
      show ?thesis
        unfolding dispatch_allowed [OF True Inr] dispatch_email_def Let_def
        by (rule disjI1, rule exI [of _ env], rule exI [of _ "ev_userId ev"], rule exI [of _ rid],
            rule exI [of _ "st\<lparr>ds_rows := ds_rows st @ [(rid, event_row env ev (in_app_routed st ev))]\<rparr>"])
          (use buffered in \<open>auto split: prod.split\<close>)
    next
      case False
      obtain d u where q: "resolveQuietDelay (event_routing_of st ev) (e_now env) = (d, u)" by fastforce
      show ?thesis
        unfolding dispatch_allowed [OF True Inr] dispatch_email_def Let_def q
        by (rule disjI2) (use False in \<open>auto simp: enqueue_def se_bind_def Let_def split: sum.split\<close>)
    qed
  qed
qed


lemma dispatch_digests:
  obtains (buffered) env' uid rid st1 where "ds_digests st1 = ds_digests st" "ds_timer st1 = ds_timer st"
      "snd (dispatch env ev st) = bufferDigest env' uid Claim_Update rid st1"
  | (kept) "ds_digests (snd (dispatch env ev st)) = ds_digests st" "ds_timer (snd (dispatch env ev st)) = ds_timer st"
  using dispatch_effect [of st env ev] by blast

section \<open>Runs of the dispatcher\<close>

text \<open>The row id an accepted email is owed for.\<close>

definition accepted :: "dispatch_state \<Rightarrow> dispatch_action \<Rightarrow> string multiset" where
  "accepted st a =
     (case a of
        Event env ev \<Rightarrow>
          (case fst (dispatch env ev st) of
             Inr out \<Rightarrow> if Email \<in> set (o_channels out) then mset (case o_notificationId out of None \<Rightarrow> [] | Some i \<Rightarrow> [i]) else {#}
           | Inl _ \<Rightarrow> {#})
      | _ \<Rightarrow> {#})"

fun accepted_run :: "dispatch_state \<Rightarrow> dispatch_action list \<Rightarrow> string multiset" where
  "accepted_run st [] = {#}"
| "accepted_run st (a # as) = accepted st a + accepted_run (dispatch_step st a) as"

definition queue_available :: "dispatch_action \<Rightarrow> bool" where
  "queue_available a = (case a of Event _ _ \<Rightarrow> True | Timer_Fires env \<Rightarrow> healthy env | Flush env _ \<Rightarrow> healthy env)"

definition armed :: "dispatch_state \<Rightarrow> bool" where
  "armed st = (ds_digests st \<noteq> [] \<longrightarrow> ds_timer st \<noteq> None)"

lemma digest_inv_cong: "ds_digests st = ds_digests st' \<Longrightarrow> digest_inv st = digest_inv st'"
  by (simp add: digest_inv_def)

lemma digest_inv_filter: "digest_inv st \<Longrightarrow> ds_digests st' = filter P (ds_digests st) \<Longrightarrow> digest_inv st'"
  by (auto simp: digest_inv_def distinct_map_filter)

lemma pending_distinct: "distinct (map fst ds) \<Longrightarrow> distinct (map fst (pending_entries u ds))"
  by (simp add: pending_entries_def split: option.split)

lemma pending_subset: "set (pending_entries u ds) \<subseteq> set ds"
  by (auto simp: pending_entries_def intro: map_of_SomeD dest: sym split: option.split)

lemma flush_frame:
  obtains P where "ds_digests (snd (flushDigests env u st)) = filter P (ds_digests st)"
    "ds_timer (snd (flushDigests env u st)) = ds_timer st"
  unfolding flushDigests_def using flush_pending_frame by meson

lemma digest_inv_step: "digest_inv st \<Longrightarrow> digest_inv (dispatch_step st a)"
proof (cases a)
  case (Event env ev)
  assume inv: "digest_inv st"
  show ?thesis
  proof (cases rule: dispatch_digests [of st env ev])
    case (buffered env' uid rid st1)
    have "digest_inv st1" using inv digest_inv_cong [OF buffered(1)] by simp
    then show ?thesis unfolding Event dispatch_step_def by (simp add: buffered(3) digest_inv_push)
  next
    case kept
    then show ?thesis using inv digest_inv_cong [OF kept(1)] by (simp add: Event dispatch_step_def)
  qed
next
  case (Timer_Fires env)
  assume inv: "digest_inv st"
  obtain P where "ds_digests (snd (flushDigests env None (st\<lparr>ds_timer := None\<rparr>))) = filter P (ds_digests st)"
    by (rule flush_frame [of env None "st\<lparr>ds_timer := None\<rparr>"]) simp
  then show ?thesis using inv
    by (simp add: Timer_Fires dispatch_step_def digest_timer_fires_def digest_inv_filter)
next
  case (Flush env u)
  assume inv: "digest_inv st"
  obtain P where "ds_digests (snd (flushDigests env u st)) = filter P (ds_digests st)" by (rule flush_frame)
  then show ?thesis using inv by (simp add: Flush dispatch_step_def digest_inv_filter)
qed

interpretation digest: step_system dispatch_step digest_inv
  by unfold_locales (rule digest_inv_step)

lemma flush_all_ok:
  assumes "healthy env" "digest_inv st"
  shows "ds_digests (snd (flushDigests env None st)) = []"
    and "queue_ids (ds_queue (snd (flushDigests env None st))) = email_ids st"
    and "ds_timer (snd (flushDigests env None st)) = ds_timer st"
    and "\<exists>k. fst (flushDigests env None st) = Inr k"
proof -
  have none: "filter (\<lambda>(u, _). u \<notin> fst ` set (ds_digests st)) (ds_digests st) = []"
    by (auto simp: filter_empty_conv intro: rev_image_eqI)
  obtain k q where "flush_pending env (ds_digests st) 0 st = (Inr (0 + k), st\<lparr>ds_queue := q, ds_digests := []\<rparr>)"
    "queue_ids q = email_ids st"
    using flush_pending_ok [of env st "ds_digests st" 0] assms unfolding digest_inv_def none by auto
  note run = this
  have all: "flushDigests env None st = flush_pending env (ds_digests st) 0 st"
    by (simp add: flushDigests_def pending_entries_def)
  show "ds_digests (snd (flushDigests env None st)) = []"
    and "queue_ids (ds_queue (snd (flushDigests env None st))) = email_ids st"
    and "ds_timer (snd (flushDigests env None st)) = ds_timer st"
    and "\<exists>k. fst (flushDigests env None st) = Inr k"
    unfolding all run(1) using run(2) by simp_all
qed

lemma flush_some_ok:
  assumes "healthy env" "digest_inv st"
  shows "email_ids (snd (flushDigests env u st)) = email_ids st"
proof -
  define pending where "pending = pending_entries u (ds_digests st)"
  have "distinct (map fst pending)" using assms(2) by (simp add: pending_def digest_inv_def pending_distinct)
  moreover have "set pending \<subseteq> set (ds_digests st)" by (simp add: pending_def pending_subset)
  ultimately obtain k q where "flush_pending env pending 0 st =
      (Inr (0 + k), st\<lparr>ds_queue := q, ds_digests := filter (\<lambda>(u, _). u \<notin> fst ` set pending) (ds_digests st)\<rparr>)"
    "queue_ids q + entry_ids (filter (\<lambda>(u, _). u \<notin> fst ` set pending) (ds_digests st)) = email_ids st"
    using flush_pending_ok [of env st pending 0] assms unfolding digest_inv_def by auto
  then show ?thesis by (simp add: flushDigests_def pending_def [symmetric] email_ids_def)
qed

lemma step_accounts:
  assumes "digest_inv st" "queue_available a"
  shows "email_ids (dispatch_step st a) = email_ids st + accepted st a"
proof (cases a)
  case (Event env ev)
  have distinct: "distinct (map fst (ds_digests st))" using assms(1) by (simp add: digest_inv_def)
  show ?thesis using dispatch_effect [of st env ev]
    by (auto simp: Event dispatch_step_def accepted_def email_ids_def bufferDigest_def entry_ids_push distinct)
next
  case (Timer_Fires env)
  have "digest_inv (st\<lparr>ds_timer := None\<rparr>)" using assms(1) by (simp add: digest_inv_def)
  then show ?thesis using assms flush_all_ok [of env "st\<lparr>ds_timer := None\<rparr>"]
    by (simp add: Timer_Fires dispatch_step_def digest_timer_fires_def accepted_def queue_available_def email_ids_def)
next
  case (Flush env u)
  then show ?thesis using assms flush_some_ok by (simp add: dispatch_step_def accepted_def queue_available_def)
qed

lemma step_armed:
  assumes "digest_inv st" "queue_available a" "armed st"
  shows "armed (dispatch_step st a)"
proof (cases a)
  case (Event env ev)
  show ?thesis using assms(3) unfolding Event dispatch_step_def armed_def
    by (cases rule: dispatch_digests [of st env ev]) (auto simp: bufferDigest_def split: option.splits)
next
  case (Timer_Fires env)
  have "digest_inv (st\<lparr>ds_timer := None\<rparr>)" using assms(1) by (simp add: digest_inv_def)
  then show ?thesis using assms flush_all_ok [of env "st\<lparr>ds_timer := None\<rparr>"]
    by (auto simp: Timer_Fires dispatch_step_def digest_timer_fires_def queue_available_def armed_def)
next
  case (Flush env u)
  obtain P where "ds_digests (snd (flushDigests env u st)) = filter P (ds_digests st)"
    "ds_timer (snd (flushDigests env u st)) = ds_timer st" by (rule flush_frame)
  then show ?thesis using assms(3) by (auto simp: Flush dispatch_step_def armed_def)
qed

lemma run_accounts:
  assumes "digest_inv st" "armed st" "list_all queue_available as"
  shows "email_ids (run_steps dispatch_step st as) = email_ids st + accepted_run st as \<and> armed (run_steps dispatch_step st as)"
  using assms by (induction as arbitrary: st) (auto simp: digest_inv_step step_accounts step_armed add.assoc)


section \<open>Properties\<close>

text \<open>C31. Every accepted email is owed exactly once: over any run of events, timer firings and flushes
  in which the queue accepts the flushed jobs, the row ids in the queue and in the digest buffer are,
  counted with multiplicity, those there before plus one for each event answered with the email
  channel; whatever is buffered has an armed timer; and when the timer then fires, the flush
  completes, the buffer is empty and every owed id is in the queue.\<close>

theorem digest_exactly_once:
  assumes "digest_inv st" "armed st" "list_all queue_available as" "healthy env"
  shows "let st' = run_steps dispatch_step st as in
     email_ids st' = email_ids st + accepted_run st as \<and>
     (ds_digests st' \<noteq> [] \<longrightarrow> ds_timer st' \<noteq> None \<and>
        (let st'' = digest_timer_fires env st'
         in ds_digests st'' = [] \<and> queue_ids (ds_queue st'') = email_ids st + accepted_run st as))"
proof -
  define st' where "st' = run_steps dispatch_step st as"
  have acc: "email_ids st' = email_ids st + accepted_run st as" and arm: "armed st'"
    using run_accounts [OF assms(1,2,3)] by (simp_all add: st'_def)
  have "digest_inv (st'\<lparr>ds_timer := None\<rparr>)" using digest.run_inv [OF assms(1), of as] by (simp add: digest_inv_def st'_def)
  then have "ds_digests (digest_timer_fires env st') = [] \<and> queue_ids (ds_queue (digest_timer_fires env st')) = email_ids st'"
    if "ds_timer st' \<noteq> None"
    using that flush_all_ok [OF assms(4), of "st'\<lparr>ds_timer := None\<rparr>"] by (auto simp: digest_timer_fires_def email_ids_def)
  then show ?thesis using acc arm by (simp add: armed_def st'_def [symmetric] Let_def)
qed

definition demo_prefs :: preferences where
  "demo_prefs = [''G1'' \<mapsto> \<lparr>p_userId = ''G1'', p_renewalRemindersEnabled = None, p_claimUpdatesEnabled = None,
     p_routing = Some \<lparr>pr_events = None, pr_quietHours = None, pr_digestMode = Some Digest_Batch\<rparr>,
     p_email = Some ''a@b'', p_emailVerified = Some True\<rparr>]"

definition demo_state :: dispatch_state where
  "demo_state = \<lparr>ds_prefs = demo_prefs, ds_rows = [], ds_queue = [], ds_digests = [], ds_timer = None\<rparr>"

definition demo_env :: dispatch_env where
  "demo_env = \<lparr>e_create = (\<lambda>_. Inr ''n1''), e_add = (\<lambda>_. Inr ''job''), e_rowTime = 0, e_now = 1000, e_windowMs = 60000\<rparr>"

definition demo_event :: domain_event where
  "demo_event = \<lparr>ev_type = Claim_Update, ev_userId = ''G1'', ev_recordId = ''7'', ev_context = Map.empty\<rparr>"

theorem digest_exactly_once_witness:
  "accepted_run demo_state [Event demo_env demo_event] = {#''n1''#} \<and>
   ds_digests (run_steps dispatch_step demo_state [Event demo_env demo_event]) = [(''G1'', \<lparr>de_type = Claim_Update, de_recordIds = [''n1'']\<rparr>)] \<and>
   queue_ids (ds_queue (digest_timer_fires demo_env (run_steps dispatch_step demo_state [Event demo_env demo_event]))) = {#''n1''#}"
proof -
  have 1: "digest_inv demo_state" "armed demo_state" "list_all queue_available [Event demo_env demo_event]" "healthy demo_env"
    by (simp_all add: digest_inv_def armed_def queue_available_def healthy_def demo_state_def demo_env_def)
  have 2: "fst (dispatch demo_env demo_event demo_state) = Inr \<lparr>o_userId = ''G1'', o_type = Claim_Update, o_notificationId = Some ''n1'',
      o_channels = [InApp, Email], o_skipped = [], o_deferredUntil = None, o_digested = True\<rparr>"
    "ds_digests (snd (dispatch demo_env demo_event demo_state)) = [(''G1'', \<lparr>de_type = Claim_Update, de_recordIds = [''n1'']\<rparr>)]"
    by code_simp+
  then show ?thesis
    using digest_exactly_once [OF 1]
    by (simp add: accepted_def dispatch_step_def Let_def) (simp add: demo_state_def email_ids_def)
qed


text \<open>An email leaves the dispatcher only for a user who may get it, and then as one job for the
  created row. If the type is switched off, the email channel is not routed, or the address is
  missing or unverified, neither the queue nor the digest buffer changes. Otherwise, once the row
  exists: a claim update of a user with a digest mode is appended to the user's digest and nothing is
  queued; any other event either queues one email job with exactly that row id, delayed to the end of
  the quiet period when it arrives inside it and not delayed otherwise, or fails with the queue's
  error and queues nothing.\<close>

theorem dispatch_email_policy:
  "let r = getRoutingPreferences (ev_userId ev) (ds_prefs st); st' = snd (dispatch env ev st) in
     (\<not> email_allowed (ds_prefs st) (ev_userId ev) (ev_type ev) \<longrightarrow>
        ds_queue st' = ds_queue st \<and> ds_digests st' = ds_digests st) \<and>
     (email_allowed (ds_prefs st) (ev_userId ev) (ev_type ev) \<longrightarrow>
      e_create env (event_row env ev (er_inApp (rt_events r (ev_type ev)))) = Inr rowId \<longrightarrow>
        (if rt_digestMode r \<noteq> Digest_Off \<and> ev_type ev = Claim_Update
         then ds_queue st' = ds_queue st \<and>
           ds_digests st' = digest_push (ev_userId ev) Claim_Update rowId (ds_digests st)
         else ds_digests st' = ds_digests st \<and>
           (ds_queue st' = ds_queue st \<and> isl (fst (dispatch env ev st)) \<or>
            (\<exists>q. ds_queue st' = ds_queue st @ [q] \<and> \<not> isl (fst (dispatch env ev st)) \<and>
              q_job q = \<lparr>j_userId = ev_userId ev, j_type = ev_type ev, j_recordIds = [rowId], j_channels = [Email]\<rparr> \<and>
              q_delay q = (if qh_enabled (rt_quietHours r) \<and> isWithinQuietHours (e_now env) (rt_quietHours r) 0
                then Some (nextQuietPeriodEnd (e_now env) (rt_quietHours r) 0 - e_now env) else None)))))"
proof (cases "email_allowed (ds_prefs st) (ev_userId ev) (ev_type ev) \<and>
    e_create env (event_row env ev (in_app_routed st ev)) = Inr rowId")
  case True
  define job where "job = \<lparr>j_userId = ev_userId ev, j_type = ev_type ev, j_recordIds = [rowId], j_channels = [Email]\<rparr>"
  define d where "d = fst (resolveQuietDelay (event_routing_of st ev) (e_now env))"
  have pos: "nextQuietPeriodEnd (e_now env) w 0 - e_now env > 0" if "isWithinQuietHours (e_now env) w 0" for w :: quiet_hours_config
    using that quiet_end_spec [of "e_now env" w 0] by (simp add: Let_def)
  have delay: "(if 0 < d then Some d else None) = (if qh_enabled (rt_quietHours (event_routing_of st ev))
      \<and> isWithinQuietHours (e_now env) (rt_quietHours (event_routing_of st ev)) 0
      then Some (nextQuietPeriodEnd (e_now env) (rt_quietHours (event_routing_of st ev)) 0 - e_now env) else None)"
    using pos by (simp add: d_def resolveQuietDelay_cases)
  show ?thesis
  proof (cases "rt_digestMode (event_routing_of st ev) \<noteq> Digest_Off \<and> ev_type ev = Claim_Update")
    case digest: True
    then show ?thesis using True
      by (simp add: dispatch_allowed [where rowId = rowId] dispatch_email_def bufferDigest_def Let_def split: prod.split)
  next
    case False
    let ?st = "st\<lparr>ds_rows := ds_rows st @ [(rowId, event_row env ev (in_app_routed st ev))]\<rparr>"
    have run: "ds_queue (snd (dispatch env ev st)) = ds_queue (snd (enqueue env job d ?st))"
      "ds_digests (snd (dispatch env ev st)) = ds_digests (snd (enqueue env job d ?st))"
      "isl (fst (dispatch env ev st)) = isl (fst (enqueue env job d ?st))"
      using True False unfolding job_def d_def
      by (auto simp: dispatch_allowed [where rowId = rowId] dispatch_email_def se_bind_def Let_def split: prod.split sum.split)
    have "(ds_queue (snd (enqueue env job d ?st)) = ds_queue st \<and> isl (fst (enqueue env job d ?st)) \<or>
        (\<exists>q. ds_queue (snd (enqueue env job d ?st)) = ds_queue st @ [q] \<and> \<not> isl (fst (enqueue env job d ?st)) \<and>
          q_job q = job \<and> q_delay q = (if 0 < d then Some d else None))) \<and>
        ds_digests (snd (enqueue env job d ?st)) = ds_digests st"
      by (rule enqueue_cases [of env job d ?st]) auto
    then show ?thesis using True unfolding Let_def if_not_P [OF False] run delay [symmetric] job_def [symmetric] by simp
  qed
next
  case False
  then show ?thesis using dispatch_not_allowed(1,2) [of st ev env] by (auto simp: Let_def)
qed

theorem dispatch_email_policy_witness:
  "email_allowed (ds_prefs demo_state) (ev_userId demo_event) (ev_type demo_event) \<and>
   ds_queue (snd (dispatch demo_env demo_event demo_state)) = ds_queue demo_state \<and>
   ds_digests (snd (dispatch demo_env demo_event demo_state)) = digest_push ''G1'' Claim_Update ''n1'' []"
proof -
  have "email_allowed (ds_prefs demo_state) (ev_userId demo_event) (ev_type demo_event)"
    "rt_digestMode (getRoutingPreferences (ev_userId demo_event) (ds_prefs demo_state)) = Digest_Batch"
    by code_simp+
  then show ?thesis
    using dispatch_email_policy [of demo_event demo_state demo_env "''n1''"]
    by (simp add: Let_def) (simp add: demo_env_def demo_event_def demo_state_def)
qed

text \<open>One-click unsubscribe does what it says and nothing else. Afterwards the email channel of every
  type in its scope is off, so no event of such a type for that user queues or buffers an email; the
  in-app channel, the other types, quiet hours, digest mode, the address and its verification, the
  type switches and every other user's record are as before.\<close>

theorem unsubscribe_effective:
  assumes "\<And>r. ds_prefs st uid = Some r \<Longrightarrow> p_userId r = uid"
  shows "let m = ds_prefs st; m' = snd (unsubscribeFromEmail uid scope m); st' = st\<lparr>ds_prefs := m'\<rparr> in
     (\<forall>env ev. ev_userId ev = uid \<longrightarrow> ev_type ev \<in> set (scope_types scope) \<longrightarrow>
        ds_queue (snd (dispatch env ev st')) = ds_queue st \<and> ds_digests (snd (dispatch env ev st')) = ds_digests st) \<and>
     (\<forall>t. er_inApp (rt_events (getRoutingPreferences uid m') t) = er_inApp (rt_events (getRoutingPreferences uid m) t)) \<and>
     (\<forall>t. t \<notin> set (scope_types scope) \<longrightarrow> email_allowed m' uid t = email_allowed m uid t) \<and>
     rt_quietHours (getRoutingPreferences uid m') = rt_quietHours (getRoutingPreferences uid m) \<and>
     rt_digestMode (getRoutingPreferences uid m') = rt_digestMode (getRoutingPreferences uid m) \<and>
     emailReady (m' uid) = emailReady (m uid) \<and>
     (\<forall>u. u \<noteq> uid \<longrightarrow> m' u = m u)"
proof -
  define m where "m = ds_prefs st"
  define m' where "m' = snd (unsubscribeFromEmail uid scope m)"
  have off: "\<not> email_allowed m' uid t" if "t \<in> set (scope_types scope)" for t
    using that unsubscribe_routing [of uid uid scope m t] by (simp add: m'_def email_allowed_def)
  have "ds_queue (snd (dispatch env ev (st\<lparr>ds_prefs := m'\<rparr>))) = ds_queue st \<and>
      ds_digests (snd (dispatch env ev (st\<lparr>ds_prefs := m'\<rparr>))) = ds_digests st"
    if "ev_userId ev = uid" "ev_type ev \<in> set (scope_types scope)" for env ev
    using that off dispatch_not_allowed(1,2) [of "st\<lparr>ds_prefs := m'\<rparr>" ev env] by simp
  moreover have "er_inApp (rt_events (getRoutingPreferences uid m') t) = er_inApp (rt_events (getRoutingPreferences uid m) t)" for t
    using unsubscribe_routing [of uid uid scope m t] by (simp add: m'_def)
  moreover have "email_allowed m' uid t = email_allowed m uid t" if "t \<notin> set (scope_types scope)" for t
    unfolding email_allowed_def m'_def
    using that unsubscribe_routing [of uid uid scope m t] unsubscribe_keeps_rest(1) [of m uid scope t]
      unsubscribe_keeps_rest(2) [of m uid scope] assms by (simp add: m_def)
  moreover have "rt_quietHours (getRoutingPreferences uid m') = rt_quietHours (getRoutingPreferences uid m)"
    "rt_digestMode (getRoutingPreferences uid m') = rt_digestMode (getRoutingPreferences uid m)"
    by (simp_all add: m'_def unsubscribeFromEmail_def Let_def getRoutingPreferences_update overlay_defs)
  moreover have "emailReady (m' uid) = emailReady (m uid)"
    using unsubscribe_keeps_rest(2) [of m uid scope] assms by (simp add: m'_def m_def)
  moreover have "m' u = m u" if "u \<noteq> uid" for u using that by (simp add: m'_def unsubscribe_other_user)
  ultimately show ?thesis by (simp add: Let_def m_def m'_def)
qed

theorem unsubscribe_effective_witness:
  "email_allowed demo_prefs ''G1'' Claim_Update \<and> Claim_Update \<in> set (scope_types (Some ''claim_update'')) \<and>
   ds_digests (snd (dispatch demo_env demo_event
     (demo_state\<lparr>ds_prefs := snd (unsubscribeFromEmail ''G1'' (Some ''claim_update'') (ds_prefs demo_state))\<rparr>))) = []"
proof -
  have "email_allowed demo_prefs ''G1'' Claim_Update" "Claim_Update \<in> set (scope_types (Some ''claim_update''))"
    by code_simp+
  moreover have "\<And>r. ds_prefs demo_state ''G1'' = Some r \<Longrightarrow> p_userId r = ''G1''"
    by (auto simp: demo_state_def demo_prefs_def)
  note unsubscribe_effective [of demo_state "''G1''" "Some ''claim_update''", OF this]
  moreover have "ev_userId demo_event = ''G1''" "ev_type demo_event = Claim_Update" "ds_digests demo_state = []"
    by (simp_all add: demo_event_def demo_state_def)
  ultimately show ?thesis unfolding Let_def by metis
qed

text \<open>Two things the lanes and the buffer do not promise: BullMQ runs the smaller number first, so the
  critical lane is the slower one, and a flush whose first \<open>queue.add\<close> fails has dropped that entry.\<close>

lemma critical_lane_is_slower:
  "getPriorityForNotificationType Renewal_Reminder < getPriorityForNotificationType Claim_Update"
  by (simp add: getPriorityForNotificationType_def NOTIFICATION_TYPE_PRIORITY_def PRIORITY_VALUES_def)

lemma flush_failure_drops_entry:
  assumes "ds_digests st = (uid, e) # ds" "de_recordIds e \<noteq> []" "\<And>q. e_add env q = Inl err"
  shows "flushDigests env None st = (Inl err, st\<lparr>ds_digests := filter (\<lambda>(k, _). k \<noteq> uid) ds\<rparr>)"
  using assms by (simp add: flushDigests_def pending_entries_def enqueue_def Let_def)

end
