(* ===== verification/Event_Stream.thy ===== *)
theory Event_Stream
  imports Js_Prelude
begin

text \<open>
  The live event stream (server-sent events): the connection registry of
  \<open>src/backend/src/services/connection-registry.ts\<close>, the stream of \<open>services/event-stream.ts\<close>, the one
  of \<open>routes/events.ts\<close> and the process-wide registry of \<open>events/sse-connection.registry.ts\<close>.

  A connection is known by its id; response objects and heartbeat timers are left out, what is
  written to a response is a log under the connection's id. Ids, the clock, token verification and
  the content of the Redis buffer are arguments. \<open>capped_registry\<close> is the contract the three
  registries with a per-user cap share: each implements a set of connections in which no user has
  more than the cap.
\<close>

section \<open>Abstract registry\<close>

datatype ('c, 'i) conn_op = Connect 'c | Disconnect 'i

text \<open>The specification: a set of connections, and admission below the cap.\<close>

fun spec_step :: "nat \<Rightarrow> ('c \<Rightarrow> 'u) \<Rightarrow> ('c \<Rightarrow> 'i) \<Rightarrow> 'c set \<Rightarrow> ('c, 'i) conn_op \<Rightarrow> 'c set" where
  "spec_step cap user ident live (Connect c) =
     (if card {d \<in> live. user d = user c} < cap then insert c live else live)"
| "spec_step cap user ident live (Disconnect i) = {d \<in> live. ident d \<noteq> i}"

fun conn_step :: "('c \<Rightarrow> 's \<Rightarrow> bool \<times> 's) \<Rightarrow> ('i \<Rightarrow> 's \<Rightarrow> 's) \<Rightarrow> 's \<Rightarrow> ('c, 'i) conn_op \<Rightarrow> 's" where
  "conn_step add remove s (Connect c) = snd (add c s)"
| "conn_step add remove s (Disconnect i) = remove i s"

text \<open>No id is used twice, and none that is live at the start.\<close>

fun new_ids :: "('c \<Rightarrow> 'i) \<Rightarrow> ('c, 'i) conn_op list \<Rightarrow> 'i list" where
  "new_ids ident [] = []"
| "new_ids ident (Connect c # ops) = ident c # new_ids ident ops"
| "new_ids ident (Disconnect i # ops) = new_ids ident ops"

section \<open>Registry of connection-registry.ts\<close>

record sse_connection =
  sc_id :: string
  sc_userId :: string
  sc_claimIds :: "string set"
  sc_ownAddress :: bool
  sc_lastEventId :: "string option"
  sc_createdAt :: int

text \<open>The two maps: connections by id, and the ids of a user in insertion order.\<close>

record 'c conn_maps =
  cm_byId :: "string \<rightharpoonup> 'c"
  cm_byUser :: "string \<rightharpoonup> string list"

definition set_add :: "string \<Rightarrow> string list \<Rightarrow> string list" where
  "set_add i ids = (if i \<in> set ids then ids else ids @ [i])"

definition countForUser :: "'c conn_maps \<Rightarrow> string \<Rightarrow> nat" where
  "countForUser m u = (case cm_byUser m u of None \<Rightarrow> 0 | Some ids \<Rightarrow> length ids)"

definition register :: "nat \<Rightarrow> sse_connection \<Rightarrow> sse_connection conn_maps \<Rightarrow> sse_connection option \<times> sse_connection conn_maps" where
  "register maxConnectionsPerUser connection m =
     (let userId = sc_userId connection in
      if maxConnectionsPerUser \<le> countForUser m userId then (None, m)
      else let m1 = m\<lparr>cm_byId := (cm_byId m)(sc_id connection \<mapsto> connection)\<rparr>;
               userConnections = (case cm_byUser m1 userId of None \<Rightarrow> [] | Some s \<Rightarrow> s)
           in (Some connection, m1\<lparr>cm_byUser := (cm_byUser m1)(userId \<mapsto> set_add (sc_id connection) userConnections)\<rparr>))"

definition get_connection :: "sse_connection conn_maps \<Rightarrow> string \<Rightarrow> sse_connection option" where
  "get_connection m i = cm_byId m i"

definition forUser :: "sse_connection conn_maps \<Rightarrow> string \<Rightarrow> sse_connection list" where
  "forUser m userId =
     (case cm_byUser m userId of None \<Rightarrow> [] | Some ids \<Rightarrow> List.map_filter (cm_byId m) ids)"

definition drop_user_id :: "string \<Rightarrow> string \<Rightarrow> (string \<rightharpoonup> string list) \<Rightarrow> (string \<rightharpoonup> string list)" where
  "drop_user_id u i byUser =
     (case byUser u of None \<Rightarrow> byUser
      | Some ids \<Rightarrow> let ids' = filter (\<lambda>j. j \<noteq> i) ids in byUser(u := (if ids' = [] then None else Some ids')))"

definition unregister :: "string \<Rightarrow> sse_connection conn_maps \<Rightarrow> sse_connection conn_maps" where
  "unregister i m =
     (case cm_byId m i of None \<Rightarrow> m
      | Some c \<Rightarrow> \<lparr>cm_byId = (cm_byId m)(i := None), cm_byUser = drop_user_id (sc_userId c) i (cm_byUser m)\<rparr>)"

text \<open>A heartbeat whose write throws drops the connection.\<close>

definition heartbeat :: "bool \<Rightarrow> string \<Rightarrow> sse_connection conn_maps \<Rightarrow> sse_connection conn_maps" where
  "heartbeat write_ok i m = (if cm_byId m i = None \<or> write_ok then m else unregister i m)"

definition closeAll :: "string list \<Rightarrow> sse_connection conn_maps \<Rightarrow> sse_connection conn_maps" where
  "closeAll ids m = foldl (\<lambda>m i. unregister i m) m ids"

section \<open>Stream of event-stream.ts\<close>

record stream_event =
  se_id :: string
  se_type :: string
  se_ts :: int
  se_claimIds :: "string list"
  se_addresses :: "string list"
  se_data :: string

record connection =
  co_id :: string
  co_address :: string
  co_claimIds :: "string set"

record stream_state =
  st_maps :: "connection conn_maps"
  st_written :: "(string \<times> stream_event) list"    \<comment> \<open>connection id and event\<close>

definition MAX_CONNECTIONS_PER_USER :: nat where "MAX_CONNECTIONS_PER_USER = 5"

definition registerConnection :: "connection \<Rightarrow> connection conn_maps \<Rightarrow> bool \<times> connection conn_maps" where
  "registerConnection conn m =
     (let userConns = (case cm_byUser m (co_address conn) of None \<Rightarrow> [] | Some s \<Rightarrow> s) in
      if MAX_CONNECTIONS_PER_USER \<le> length userConns then (False, m)
      else (True, \<lparr>cm_byId = (cm_byId m)(co_id conn \<mapsto> conn),
                   cm_byUser = (cm_byUser m)(co_address conn \<mapsto> set_add (co_id conn) userConns)\<rparr>))"

definition removeConnection :: "string \<Rightarrow> connection conn_maps \<Rightarrow> connection conn_maps" where
  "removeConnection i m =
     (case cm_byId m i of None \<Rightarrow> m
      | Some c \<Rightarrow> \<lparr>cm_byId = (cm_byId m)(i := None), cm_byUser = drop_user_id (co_address c) i (cm_byUser m)\<rparr>)"

definition stream_matches :: "connection \<Rightarrow> stream_event \<Rightarrow> bool" where
  "stream_matches conn event =
     (co_address conn \<in> set (se_addresses event) \<or> list_ex (\<lambda>i. i \<in> co_claimIds conn) (se_claimIds event))"

definition writeEvent :: "string \<Rightarrow> stream_event \<Rightarrow> stream_state \<Rightarrow> stream_state" where
  "writeEvent cid event st = st\<lparr>st_written := st_written st @ [(cid, event)]\<rparr>"

text \<open>The subscriber's callback; \<open>order\<close> is the iteration order of the connections map.\<close>

definition on_message :: "string list \<Rightarrow> stream_event \<Rightarrow> stream_state \<Rightarrow> stream_state" where
  "on_message order event st =
     foldl (\<lambda>st cid. case cm_byId (st_maps st) cid of None \<Rightarrow> st
        | Some conn \<Rightarrow> if stream_matches conn event then writeEvent cid event st else st) st order"

text \<open>\<open>replayFromBuffer\<close>: entries that do not parse are skipped (\<open>None\<close>).\<close>

fun replay_loop :: "connection \<Rightarrow> string \<Rightarrow> bool \<Rightarrow> stream_event option list \<Rightarrow> stream_state \<Rightarrow> stream_state" where
  "replay_loop conn lastEventId found [] st = st"
| "replay_loop conn lastEventId found (None # entries) st = replay_loop conn lastEventId found entries st"
| "replay_loop conn lastEventId found (Some event # entries) st =
     (if \<not> found then replay_loop conn lastEventId (se_id event = lastEventId) entries st
      else replay_loop conn lastEventId found entries
        (if stream_matches conn event then writeEvent (co_id conn) event st else st))"

definition replayFromBuffer :: "connection \<Rightarrow> string \<Rightarrow> stream_event option list \<Rightarrow> stream_state \<Rightarrow> stream_state" where
  "replayFromBuffer conn lastEventId entries st = replay_loop conn lastEventId False entries st"

record stream_token =
  tk_sub :: string
  tk_scope :: string

text \<open>\<open>verify\<close> is the JWT library with the stream secret: \<open>None\<close> where it throws.\<close>

definition authenticate :: "(string \<Rightarrow> stream_token option) \<Rightarrow> string option \<Rightarrow> stream_token option" where
  "authenticate verify token =
     (case token of None \<Rightarrow> None
      | Some t \<Rightarrow> if t = [] then None
          else (case verify t of None \<Rightarrow> None
                | Some p \<Rightarrow> if tk_scope p \<noteq> ''events:stream'' \<or> tk_sub p = [] then None else Some p))"

definition parse_claim_ids :: "string option \<Rightarrow> string set" where
  "parse_claim_ids raw =
     (case raw of None \<Rightarrow> {} | Some s \<Rightarrow> set (filter (\<lambda>i. i \<noteq> []) (map trim (split_on (CHR '','') s))))"

datatype handler_reply = Unauthorized | Connection_Limit | Subscribe_Failed | Streaming

text \<open>
  \<open>suffix\<close> is the clock and random part of the id, \<open>subscribed\<close> says whether \<open>ensureSubscribed\<close> returns
  or throws, and \<open>buffer\<close> is \<open>None\<close> where reading it throws.
\<close>

definition eventsStreamHandler ::
  "(string \<Rightarrow> stream_token option) \<Rightarrow> string option \<Rightarrow> string option \<Rightarrow> string option \<Rightarrow> string \<Rightarrow> bool \<Rightarrow>
   stream_event option list option \<Rightarrow> stream_state \<Rightarrow> handler_reply \<times> stream_state" where
  "eventsStreamHandler verify token rawClaims lastEventId suffix subscribed buffer st =
     (case authenticate verify token of None \<Rightarrow> (Unauthorized, st)
      | Some auth \<Rightarrow>
          let conn = \<lparr>co_id = tk_sub auth @ '':'' @ suffix, co_address = tk_sub auth, co_claimIds = parse_claim_ids rawClaims\<rparr>
          in case registerConnection conn (st_maps st) of
               (False, _) \<Rightarrow> (Connection_Limit, st)
             | (True, maps) \<Rightarrow>
                 let st1 = st\<lparr>st_maps := maps\<rparr>
                 in if \<not> subscribed then (Subscribe_Failed, st1)
                 else (Streaming,
                     if lastEventId = None \<or> lastEventId = Some [] then st1
                     else case buffer of None \<Rightarrow> st1 | Some entries \<Rightarrow> replayFromBuffer conn (the lastEventId) entries st1))"

section \<open>Registry of routes/events.ts\<close>

record route_connection =
  rc_object :: string    \<comment> \<open>identity of the object\<close>
  rc_userId :: string
  rc_address :: string
  rc_claimIds :: "string set"

record event_payload =
  ep_v :: int
  ep_id :: "string option"
  ep_type :: string
  ep_claimId :: "string option"
  ep_address :: "string option"
  ep_data :: "string option"
  ep_ts :: int

type_synonym route_registry = "string \<rightharpoonup> route_connection list"

definition route_add :: "route_connection \<Rightarrow> route_registry \<Rightarrow> bool \<times> route_registry" where
  "route_add conn byUser =
     (let s = (case byUser (rc_userId conn) of None \<Rightarrow> [] | Some s \<Rightarrow> s) in
      if MAX_CONNECTIONS_PER_USER \<le> length s then (False, byUser)
      else (True, byUser(rc_userId conn \<mapsto> (if conn \<in> set s then s else s @ [conn]))))"

definition route_remove :: "route_connection \<Rightarrow> route_registry \<Rightarrow> route_registry" where
  "route_remove conn byUser =
     (case byUser (rc_userId conn) of None \<Rightarrow> byUser
      | Some s \<Rightarrow> let s' = filter (\<lambda>c. c \<noteq> conn) s in byUser(rc_userId conn := (if s' = [] then None else Some s')))"

definition route_matches :: "route_connection \<Rightarrow> event_payload \<Rightarrow> bool" where
  "route_matches conn event =
     ((case ep_claimId event of None \<Rightarrow> False | Some c \<Rightarrow> c \<noteq> [] \<and> c \<in> rc_claimIds conn) \<or>
      (case ep_address event of None \<Rightarrow> False | Some a \<Rightarrow> a \<noteq> [] \<and> to_lower a = to_lower (rc_address conn)))"

text \<open>\<open>dispatch\<close>; \<open>users\<close> is the iteration order of the map.\<close>

definition route_dispatch :: "string list \<Rightarrow> event_payload \<Rightarrow> route_registry \<Rightarrow> route_connection list" where
  "route_dispatch users event byUser =
     concat (map (\<lambda>u. case byUser u of None \<Rightarrow> [] | Some s \<Rightarrow> filter (\<lambda>c. route_matches c event) s) users)"

section \<open>Registry of sse-connection.registry.ts\<close>

record sse_watch =
  sw_claimIds :: "string set"
  sw_createdAt :: int
  sw_wallet :: "string option"

record sse_registry =
  sr_connections :: "(string \<times> sse_watch) list"
  sr_sent :: "(string \<times> string) list"    \<comment> \<open>connection id and payload\<close>
  sr_completed :: "string list"

definition sse_register ::
  "nat \<Rightarrow> string \<Rightarrow> string list \<Rightarrow> string option \<Rightarrow> int \<Rightarrow> (sse_registry, string, sse_watch) se" where
  "sse_register maxConnections i claimIds wallet nowMs r =
     (if maxConnections \<le> length (sr_connections r) then (Inl ''SSE connection limit reached'', r)
      else let w = \<lparr>sw_claimIds = set claimIds, sw_createdAt = nowMs, sw_wallet = wallet\<rparr>
           in (Inr w, r\<lparr>sr_connections :=
                (if map_of (sr_connections r) i = None then sr_connections r @ [(i, w)]
                 else map (\<lambda>(k, v). (k, if k = i then w else v)) (sr_connections r))\<rparr>))"

definition sse_unregister :: "string \<Rightarrow> sse_registry \<Rightarrow> sse_registry" where
  "sse_unregister i r =
     (case map_of (sr_connections r) i of None \<Rightarrow> r
      | Some _ \<Rightarrow> r\<lparr>sr_completed := sr_completed r @ [i],
                    sr_connections := filter (\<lambda>(k, _). k \<noteq> i) (sr_connections r)\<rparr>)"

definition broadcast :: "string \<Rightarrow> string \<Rightarrow> sse_registry \<Rightarrow> sse_registry" where
  "broadcast claimId payload r =
     r\<lparr>sr_sent := sr_sent r @ map (\<lambda>(i, _). (i, payload)) (filter (\<lambda>(_, w). claimId \<in> sw_claimIds w) (sr_connections r))\<rparr>"

definition drainAll :: "sse_registry \<Rightarrow> sse_registry" where
  "drainAll r =
     r\<lparr>sr_sent := sr_sent r @ map (\<lambda>(i, _). (i, ''server_shutdown'')) (sr_connections r),
       sr_completed := sr_completed r @ map fst (sr_connections r), sr_connections := []\<rparr>"


section \<open>The contract\<close>

locale capped_registry =
  fixes cap :: nat
    and add :: "'c \<Rightarrow> 's \<Rightarrow> bool \<times> 's"
    and remove :: "'i \<Rightarrow> 's \<Rightarrow> 's"
    and user :: "'c \<Rightarrow> 'u"
    and ident :: "'c \<Rightarrow> 'i"
    and live :: "'s \<Rightarrow> 'c set"
    and good :: "'s \<Rightarrow> bool"
  assumes add_admits: "\<lbrakk>good s; ident c \<notin> ident ` live s; card {d \<in> live s. user d = user c} < cap\<rbrakk>
      \<Longrightarrow> fst (add c s) \<and> live (snd (add c s)) = insert c (live s) \<and> good (snd (add c s))"
    and add_refuses: "\<lbrakk>good s; cap \<le> card {d \<in> live s. user d = user c}\<rbrakk> \<Longrightarrow> add c s = (False, s)"
    and remove_live: "good s \<Longrightarrow> live (remove i s) = {d \<in> live s. ident d \<noteq> i} \<and> good (remove i s)"
    and finite_live: "good s \<Longrightarrow> finite (live s)"
begin

lemma step_refines:
  assumes "good s" "\<And>c. op = Connect c \<Longrightarrow> ident c \<notin> ident ` live s"
  shows "live (conn_step add remove s op) = spec_step cap user ident (live s) op" "good (conn_step add remove s op)"
proof -
  have "live (conn_step add remove s op) = spec_step cap user ident (live s) op \<and> good (conn_step add remove s op)"
  proof (cases op)
    case (Connect c)
    then show ?thesis
      using assms add_admits [of s c] add_refuses [of s c] by (cases "card {d \<in> live s. user d = user c} < cap") auto
  next
    case (Disconnect i)
    then show ?thesis using assms(1) remove_live [of s i] by simp
  qed
  then show "live (conn_step add remove s op) = spec_step cap user ident (live s) op" "good (conn_step add remove s op)"
    by simp_all
qed

lemma spec_step_ids: "ident ` spec_step cap user ident L op \<subseteq> ident ` L \<union> set (new_ids ident [op])"
  by (cases op) auto

theorem run_refines:
  assumes "good s" "distinct (new_ids ident ops)" "set (new_ids ident ops) \<inter> ident ` live s = {}"
  shows "live (run_steps (conn_step add remove) s ops) = run_steps (spec_step cap user ident) (live s) ops
    \<and> good (run_steps (conn_step add remove) s ops)"
  using assms
proof (induction ops arbitrary: s)
  case (Cons op ops)
  have fresh: "ident c \<notin> ident ` live s" if "op = Connect c" for c using Cons.prems(3) that by auto
  note step = step_refines [OF Cons.prems(1) fresh]
  have "set (new_ids ident ops) \<inter> ident ` spec_step cap user ident (live s) op = {}"
    using Cons.prems(2,3) spec_step_ids [of "live s" op] by (cases op) auto
  moreover have "distinct (new_ids ident ops)" using Cons.prems(2) by (cases op) auto
  ultimately show ?case using Cons.IH [of "conn_step add remove s op"] step by simp
qed simp

lemma spec_within_cap:
  assumes "finite L" "\<And>u. card {d \<in> L. user d = u} \<le> cap"
  shows "card {d \<in> spec_step cap user ident L op. user d = u} \<le> cap \<and> finite (spec_step cap user ident L op)"
proof (cases op)
  case (Connect c)
  have "card {d \<in> insert c L. user d = u} \<le> cap" if "card {d \<in> L. user d = user c} < cap"
  proof (cases "user c = u")
    case True
    have "{d \<in> insert c L. user d = u} = insert c {d \<in> L. user d = u}" using True by auto
    then show ?thesis using that True assms(1) by (simp add: card_insert_if)
  next
    case False
    then have "{d \<in> insert c L. user d = u} = {d \<in> L. user d = u}" by auto
    then show ?thesis using assms(2) by simp
  qed
  then show ?thesis using assms by (simp add: Connect)
next
  case (Disconnect i)
  have "card {d \<in> {d \<in> L. ident d \<noteq> i}. user d = u} \<le> card {d \<in> L. user d = u}"
    using assms(1) by (intro card_mono) auto
  then show ?thesis using assms(1) assms(2) [of u] by (simp add: Disconnect)
qed

lemma spec_run_within_cap:
  assumes "finite L" "\<And>u. card {d \<in> L. user d = u} \<le> cap"
  shows "card {d \<in> run_steps (spec_step cap user ident) L ops. user d = u} \<le> cap"
  using assms
proof (induction ops arbitrary: L)
  case (Cons op ops)
  then show ?case using spec_within_cap [of L op] by simp
qed simp

text \<open>What every implementation promises of a whole run that starts empty.\<close>

lemma registry_run:
  assumes "good s" "live s = {}" "distinct (new_ids ident ops)"
  shows "live (run_steps (conn_step add remove) s ops) = run_steps (spec_step cap user ident) {} ops \<and>
    card {d \<in> live (run_steps (conn_step add remove) s ops). user d = u} \<le> cap"
  using run_refines [of s ops] spec_run_within_cap [of "{}" ops u] assms by simp

end

section \<open>Two maps that agree\<close>

definition maps_good :: "('c \<Rightarrow> string) \<Rightarrow> ('c \<Rightarrow> string) \<Rightarrow> 'c conn_maps \<Rightarrow> bool" where
  "maps_good user ident m \<longleftrightarrow>
     finite (dom (cm_byId m)) \<and> (\<forall>i c. cm_byId m i = Some c \<longrightarrow> ident c = i) \<and>
     (\<forall>u. distinct (case cm_byUser m u of None \<Rightarrow> [] | Some ids \<Rightarrow> ids) \<and>
        set (case cm_byUser m u of None \<Rightarrow> [] | Some ids \<Rightarrow> ids) = ident ` {c \<in> ran (cm_byId m). user c = u} \<and>
        cm_byUser m u \<noteq> Some [])"

lemma maps_good_bucket:
  assumes "maps_good user ident m"
  shows "distinct (case cm_byUser m u of None \<Rightarrow> [] | Some ids \<Rightarrow> ids)"
    and "set (case cm_byUser m u of None \<Rightarrow> [] | Some ids \<Rightarrow> ids) = ident ` {c \<in> ran (cm_byId m). user c = u}"
    and "cm_byUser m u \<noteq> Some []"
  using assms unfolding maps_good_def by blast+

lemma maps_good_user:
  assumes "maps_good user ident m"
  shows "length (case cm_byUser m u of None \<Rightarrow> [] | Some ids \<Rightarrow> ids) = card {c \<in> ran (cm_byId m). user c = u}"
proof -
  have inj: "inj_on ident {c \<in> ran (cm_byId m). user c = u}"
    using assms by (auto simp: maps_good_def inj_on_def ran_def)
  let ?ids = "case cm_byUser m u of None \<Rightarrow> [] | Some ids \<Rightarrow> ids"
  note ids = maps_good_bucket [OF assms, of u]
  have "length ?ids = card (set ?ids)" using distinct_card [OF ids(1)] by (rule sym)
  also have "\<dots> = card {c \<in> ran (cm_byId m). user c = u}" unfolding ids(2) by (rule card_image [OF inj])
  finally show ?thesis .
qed

lemma count_card: "maps_good user ident m \<Longrightarrow> countForUser m u = card {c \<in> ran (cm_byId m). user c = u}"
  using maps_good_user [of user ident m u] by (auto simp: countForUser_def split: option.splits)

lemma fresh_id:
  assumes "maps_good user ident m" "ident c \<notin> ident ` ran (cm_byId m)"
  shows "cm_byId m (ident c) = None"
proof (cases "cm_byId m (ident c)")
  case (Some a)
  then have "ident a = ident c" "a \<in> ran (cm_byId m)" using assms(1) by (auto simp: maps_good_def ran_def)
  then have "ident c \<in> ident ` ran (cm_byId m)" by (metis imageI)
  then show ?thesis using assms(2) by simp
qed

text \<open>Adding a connection with a new id to both maps.\<close>

lemma maps_good_insert:
  assumes good: "maps_good user ident m" and fresh: "ident c \<notin> ident ` ran (cm_byId m)"
  defines "m' \<equiv> \<lparr>cm_byId = (cm_byId m)(ident c \<mapsto> c),
      cm_byUser = (cm_byUser m)(user c \<mapsto> set_add (ident c) (case cm_byUser m (user c) of None \<Rightarrow> [] | Some s \<Rightarrow> s))\<rparr>"
  shows "maps_good user ident m'" "ran (cm_byId m') = insert c (ran (cm_byId m))"
proof -
  have none: "cm_byId m (ident c) = None" using fresh_id [OF good fresh] .
  show ran: "ran (cm_byId m') = insert c (ran (cm_byId m))" using none by (simp add: m'_def ran_map_upd)
  have notin: "ident c \<notin> set (case cm_byUser m (user c) of None \<Rightarrow> [] | Some s \<Rightarrow> s)"
    using good fresh by (auto simp: maps_good_def)
  have user_sets: "{d \<in> insert c (ran (cm_byId m)). user d = u} =
      (if u = user c then insert c {d \<in> ran (cm_byId m). user d = u} else {d \<in> ran (cm_byId m). user d = u})" for u
    by auto
  show "maps_good user ident m'"
    unfolding maps_good_def ran user_sets using good notin
    by (auto simp: m'_def maps_good_def set_add_def)
qed

lemma ran_remove: "maps_good user ident m \<Longrightarrow> ran ((cm_byId m)(i := None)) = {d \<in> ran (cm_byId m). ident d \<noteq> i}"
  by (auto simp: maps_good_def ran_def)

lemma maps_good_remove:
  assumes good: "maps_good user ident m" and c: "cm_byId m i = Some c"
  defines "m' \<equiv> \<lparr>cm_byId = (cm_byId m)(i := None), cm_byUser = drop_user_id (user c) i (cm_byUser m)\<rparr>"
  shows "maps_good user ident m'" "ran (cm_byId m') = {d \<in> ran (cm_byId m). ident d \<noteq> i}"
proof -
  show ran: "ran (cm_byId m') = {d \<in> ran (cm_byId m). ident d \<noteq> i}" using ran_remove [OF good] by (simp add: m'_def)
  have id_c: "ident c = i" using good c by (simp add: maps_good_def)
  have other: "d = c" if "d \<in> ran (cm_byId m)" "ident d = i" for d
    using good that c by (auto simp: maps_good_def ran_def)
  have user_img: "ident ` {d \<in> {d \<in> ran (cm_byId m). ident d \<noteq> i}. user d = u} = ident ` {d \<in> ran (cm_byId m). user d = u} - {i}" for u
    by auto
  have keep: "i \<notin> ident ` {d \<in> ran (cm_byId m). user d = u}" if "u \<noteq> user c" for u
    using other that by auto
  obtain ids where ids: "cm_byUser m (user c) = Some ids" "i \<in> set ids"
  proof -
    have "i \<in> ident ` {d \<in> ran (cm_byId m). user d = user c}" using c id_c by (force simp: ran_def)
    then have "i \<in> set (case cm_byUser m (user c) of None \<Rightarrow> [] | Some ids \<Rightarrow> ids)"
      using good by (simp add: maps_good_def)
    then show ?thesis using that by (cases "cm_byUser m (user c)") auto
  qed
  have sets: "set ids = ident ` {d \<in> ran (cm_byId m). user d = user c}" "distinct ids"
    using good ids unfolding maps_good_def by (metis option.simps(5))+
  show "maps_good user ident m'"
    unfolding maps_good_def ran user_img
    using good ids sets keep
    by (auto simp: m'_def maps_good_def drop_user_id_def Let_def filter_empty_conv)
qed


section \<open>The three implementations\<close>

lemma register_eq:
  "map_prod (\<lambda>c. c \<noteq> None) id (register cap c m) =
     (if countForUser m (sc_userId c) < cap
      then (True, \<lparr>cm_byId = (cm_byId m)(sc_id c \<mapsto> c), cm_byUser = (cm_byUser m)(sc_userId c \<mapsto>
              set_add (sc_id c) (case cm_byUser m (sc_userId c) of None \<Rightarrow> [] | Some s \<Rightarrow> s))\<rparr>)
      else (False, m))"
  by (auto simp: register_def Let_def)

lemma registerConnection_eq:
  "registerConnection c m =
     (if countForUser m (co_address c) < MAX_CONNECTIONS_PER_USER
      then (True, \<lparr>cm_byId = (cm_byId m)(co_id c \<mapsto> c), cm_byUser = (cm_byUser m)(co_address c \<mapsto>
              set_add (co_id c) (case cm_byUser m (co_address c) of None \<Rightarrow> [] | Some s \<Rightarrow> s))\<rparr>)
      else (False, m))"
  by (auto simp: registerConnection_def countForUser_def Let_def split: option.splits)

text \<open>Both use the same pair of maps: one proof of the contract serves both.\<close>

lemma maps_contract:
  assumes add: "\<And>c m. add c m =
      (if countForUser m (user c) < cap
       then (True, \<lparr>cm_byId = (cm_byId m)(ident c \<mapsto> c),
              cm_byUser = (cm_byUser m)(user c \<mapsto> set_add (ident c) (case cm_byUser m (user c) of None \<Rightarrow> [] | Some s \<Rightarrow> s))\<rparr>)
       else (False, m))"
    and remove: "\<And>i m. remove i m =
      (case cm_byId m i of None \<Rightarrow> m
       | Some c \<Rightarrow> \<lparr>cm_byId = (cm_byId m)(i := None), cm_byUser = drop_user_id (user c) i (cm_byUser m)\<rparr>)"
  shows "capped_registry cap add remove user ident (\<lambda>m. ran (cm_byId m)) (maps_good user ident)"
proof
  fix m :: "'a conn_maps" and c
  assume good: "maps_good user ident m"
  show "finite (ran (cm_byId m))" using good by (simp add: maps_good_def finite_ran)
  show "add c m = (False, m)" if "cap \<le> card {d \<in> ran (cm_byId m). user d = user c}"
    using that count_card [OF good] by (simp add: add)
  show "fst (add c m) \<and> ran (cm_byId (snd (add c m))) = insert c (ran (cm_byId m)) \<and> maps_good user ident (snd (add c m))"
    if "ident c \<notin> ident ` ran (cm_byId m)" "card {d \<in> ran (cm_byId m). user d = user c} < cap"
    using that count_card [OF good] maps_good_insert [OF good, of c] by (simp add: add)
next
  fix m :: "'a conn_maps" and i
  assume good: "maps_good user ident m"
  show "ran (cm_byId (remove i m)) = {d \<in> ran (cm_byId m). ident d \<noteq> i} \<and> maps_good user ident (remove i m)"
  proof (cases "cm_byId m i")
    case None
    then show ?thesis using good by (auto simp: remove maps_good_def ran_def)
  next
    case (Some c)
    then show ?thesis using maps_good_remove [OF good Some] by (simp add: remove)
  qed
qed

interpretation sse: capped_registry cap "\<lambda>c m. map_prod (\<lambda>c. c \<noteq> None) id (register cap c m)" unregister
  sc_userId sc_id "\<lambda>m. ran (cm_byId m)" "maps_good sc_userId sc_id" for cap
  by (rule maps_contract [OF register_eq]) (simp add: unregister_def)

interpretation stream: capped_registry MAX_CONNECTIONS_PER_USER registerConnection removeConnection
  co_address co_id "\<lambda>m. ran (cm_byId m)" "maps_good co_address co_id"
  by (rule maps_contract [OF registerConnection_eq]) (simp add: removeConnection_def)

definition route_live :: "route_registry \<Rightarrow> route_connection set" where
  "route_live r = \<Union> (set ` ran r)"

definition route_good :: "route_registry \<Rightarrow> bool" where
  "route_good r \<longleftrightarrow> finite (dom r) \<and> (\<forall>u s. r u = Some s \<longrightarrow> s \<noteq> [] \<and> distinct s \<and> (\<forall>c \<in> set s. rc_userId c = u))"

lemma route_user: "route_good r \<Longrightarrow> {d \<in> route_live r. rc_userId d = u} = set (case r u of None \<Rightarrow> [] | Some s \<Rightarrow> s)"
  by (cases "r u") (auto simp: route_good_def route_live_def ran_def)

lemma route_count: "route_good r \<Longrightarrow> card {d \<in> route_live r. rc_userId d = u} = length (case r u of None \<Rightarrow> [] | Some s \<Rightarrow> s)"
  unfolding route_user by (auto simp: route_good_def distinct_card split: option.split)

lemma route_live_iff: "route_good r \<Longrightarrow> d \<in> route_live r \<longleftrightarrow> d \<in> set (case r (rc_userId d) of None \<Rightarrow> [] | Some s \<Rightarrow> s)"
  using route_user [of r "rc_userId d"] by blast

text \<open>What is left of a user's set after a removal.\<close>

lemma route_remove_bucket:
  assumes "route_good r"
  shows "(case route_remove i r u of None \<Rightarrow> [] | Some s \<Rightarrow> s) = filter (\<lambda>c. c \<noteq> i) (case r u of None \<Rightarrow> [] | Some s \<Rightarrow> s)"
proof (cases "u = rc_userId i")
  case True
  then show ?thesis by (cases "r u") (auto simp: route_remove_def Let_def)
next
  case False
  then have "\<forall>c \<in> set (case r u of None \<Rightarrow> [] | Some s \<Rightarrow> s). c \<noteq> i"
    using assms by (cases "r u") (auto simp: route_good_def)
  moreover have "route_remove i r u = r u" using False by (auto simp: route_remove_def Let_def split: option.split)
  ultimately show ?thesis by simp
qed

interpretation route: capped_registry MAX_CONNECTIONS_PER_USER route_add route_remove rc_userId "\<lambda>c. c" route_live route_good
proof
  fix r :: route_registry and c
  assume good: "route_good r"
  show "finite (route_live r)" using good by (simp add: route_good_def route_live_def finite_ran)
  show "route_add c r = (False, r)" if "MAX_CONNECTIONS_PER_USER \<le> card {d \<in> route_live r. rc_userId d = rc_userId c}"
    using that route_count [OF good] by (simp add: route_add_def Let_def)
  show "fst (route_add c r) \<and> route_live (snd (route_add c r)) = insert c (route_live r) \<and> route_good (snd (route_add c r))"
    if "c \<notin> (\<lambda>c. c) ` route_live r" "card {d \<in> route_live r. rc_userId d = rc_userId c} < MAX_CONNECTIONS_PER_USER"
  proof -
    let ?s = "case r (rc_userId c) of None \<Rightarrow> [] | Some s \<Rightarrow> s"
    have new: "c \<notin> set ?s" using that(1) route_user [OF good, of "rc_userId c"] by auto
    have eq: "route_add c r = (True, r(rc_userId c \<mapsto> ?s @ [c]))"
      using that(2) new route_count [OF good, of "rc_userId c"]
      unfolding route_add_def Let_def by (simp only: not_le [symmetric] if_False)
    have good': "route_good (r(rc_userId c \<mapsto> ?s @ [c]))" using good new by (auto simp: route_good_def split: option.splits)
    have "route_live (r(rc_userId c \<mapsto> ?s @ [c])) = insert c (route_live r)"
      by (rule set_eqI) (auto simp: route_live_iff [OF good'] route_live_iff [OF good])
    then show ?thesis using eq good' by simp
  qed
next
  fix r :: route_registry and i
  assume good: "route_good r"
  have good': "route_good (route_remove i r)"
    using good by (auto simp: route_remove_def route_good_def Let_def split: option.split)
  have "route_live (route_remove i r) = {d \<in> route_live r. d \<noteq> i}"
    unfolding set_eq_iff route_live_iff [OF good'] mem_Collect_eq route_live_iff [OF good] route_remove_bucket [OF good] by simp
  then show "route_live (route_remove i r) = {d \<in> route_live r. d \<noteq> i} \<and> route_good (route_remove i r)" using good' by simp
qed

section \<open>Reachable registries\<close>

text \<open>
  The states of \<open>ConnectionRegistry\<close>: connections come with an id that was not used before
  (\<open>nextConnectionId\<close> counts), and go by a disconnect, a failed heartbeat or the shutdown. \<open>used\<close> holds
  the ids given out.
\<close>

abbreviation no_connections :: "'c conn_maps" where
  "no_connections \<equiv> \<lparr>cm_byId = Map.empty, cm_byUser = Map.empty\<rparr>"

inductive registry_reachable :: "nat \<Rightarrow> sse_connection conn_maps \<Rightarrow> string set \<Rightarrow> bool" for cap where
  start: "registry_reachable cap no_connections {}"
| connect: "\<lbrakk>registry_reachable cap m used; sc_id c \<notin> used\<rbrakk>
    \<Longrightarrow> registry_reachable cap (snd (register cap c m)) (insert (sc_id c) used)"
| disconnect: "registry_reachable cap m used \<Longrightarrow> registry_reachable cap (unregister i m) used"
| beat: "registry_reachable cap m used \<Longrightarrow> registry_reachable cap (heartbeat ok i m) used"
| shutdown: "registry_reachable cap m used \<Longrightarrow> registry_reachable cap (closeAll ids m) used"

lemma maps_good_empty [simp]: "maps_good user ident no_connections"
  by (simp add: maps_good_def)

lemma unregister_good:
  "maps_good sc_userId sc_id m \<Longrightarrow>
     maps_good sc_userId sc_id (unregister i m) \<and> ran (cm_byId (unregister i m)) = {d \<in> ran (cm_byId m). sc_id d \<noteq> i}"
  using sse.remove_live [of m i] by simp

lemma closeAll_good:
  "maps_good sc_userId sc_id m \<Longrightarrow>
     maps_good sc_userId sc_id (closeAll ids m) \<and>
     ran (cm_byId (closeAll ids m)) = {d \<in> ran (cm_byId m). sc_id d \<notin> set ids}"
proof (induction ids arbitrary: m)
  case (Cons i ids)
  have "maps_good sc_userId sc_id (unregister i m)" using unregister_good [OF Cons.prems] by simp
  from Cons.IH [OF this] show ?case using unregister_good [OF Cons.prems, of i] by (auto simp: closeAll_def)
qed (simp add: closeAll_def)

lemma register_good:
  assumes "maps_good sc_userId sc_id m" "sc_id c \<notin> sc_id ` ran (cm_byId m)"
  shows "maps_good sc_userId sc_id (snd (register cap c m)) \<and>
    ran (cm_byId (snd (register cap c m))) =
      (if countForUser m (sc_userId c) < cap then insert c (ran (cm_byId m)) else ran (cm_byId m))"
proof (cases "countForUser m (sc_userId c) < cap")
  case True
  then show ?thesis using maps_good_insert [OF assms] by (cases m) (simp add: register_def Let_def)
next
  case False
  then show ?thesis using assms(1) by (simp add: register_def Let_def)
qed

lemma capped_subset: "finite A \<Longrightarrow> B \<subseteq> A \<Longrightarrow> card {d \<in> A. P d} \<le> k \<Longrightarrow> card {d \<in> B. P d} \<le> k"
  by (rule order_trans [OF card_mono]) auto

lemma registry_reachable_good:
  assumes "registry_reachable cap m used"
  shows "maps_good sc_userId sc_id m \<and> sc_id ` ran (cm_byId m) \<subseteq> used \<and> (\<forall>u. card {c \<in> ran (cm_byId m). sc_userId c = u} \<le> cap)"
  using assms
proof induction
  case (connect m used c)
  have fresh: "sc_id c \<notin> sc_id ` ran (cm_byId m)" using connect by blast
  have good: "maps_good sc_userId sc_id m" using connect by blast
  note reg = register_good [OF good fresh, of cap]
  have fin: "finite (ran (cm_byId m))" using good by (simp add: maps_good_def finite_ran)
  have cap: "card {d \<in> insert c (ran (cm_byId m)). sc_userId d = u} \<le> cap" if "countForUser m (sc_userId c) < cap" for u
    using sse.spec_within_cap [of "ran (cm_byId m)" cap "Connect c" u] that fin connect.IH count_card [OF good, of "sc_userId c"]
    by simp
  then show ?case using reg connect.IH by auto
next
  case (disconnect m used i)
  then have fin: "finite (ran (cm_byId m))" by (simp add: maps_good_def finite_ran)
  show ?case using disconnect.IH unregister_good [of m i] capped_subset [OF fin, of "{d \<in> ran (cm_byId m). sc_id d \<noteq> i}"] by auto
next
  case (beat m used ok i)
  then have fin: "finite (ran (cm_byId m))" by (simp add: maps_good_def finite_ran)
  show ?case using beat.IH unregister_good [of m i] capped_subset [OF fin, of "{d \<in> ran (cm_byId m). sc_id d \<noteq> i}"]
    by (auto simp: heartbeat_def)
next
  case (shutdown m used ids)
  then have fin: "finite (ran (cm_byId m))" by (simp add: maps_good_def finite_ran)
  show ?case using shutdown.IH closeAll_good [of m ids] capped_subset [OF fin, of "{d \<in> ran (cm_byId m). sc_id d \<notin> set ids}"] by auto
qed simp

lemma map_filter_all: "\<forall>i \<in> set ids. f i \<noteq> None \<Longrightarrow> List.map_filter f ids = map (\<lambda>i. the (f i)) ids"
  by (induction ids) (auto simp: map_filter_simps)

lemma forUser_live:
  assumes "maps_good sc_userId sc_id m"
  shows "distinct (forUser m u) \<and> set (forUser m u) = {c \<in> ran (cm_byId m). sc_userId c = u}"
proof -
  let ?ids = "case cm_byUser m u of None \<Rightarrow> [] | Some ids \<Rightarrow> ids"
  let ?C = "{c \<in> ran (cm_byId m). sc_userId c = u}"
  note ids = maps_good_bucket [OF assms, of u]
  have here: "cm_byId m (sc_id c) = Some c" if "c \<in> ran (cm_byId m)" for c
    using assms that by (auto simp: maps_good_def ran_def)
  have "forUser m u = List.map_filter (cm_byId m) ?ids"
    by (simp add: forUser_def map_filter_simps split: option.split)
  also have "\<dots> = map (\<lambda>i. the (cm_byId m i)) ?ids"
  proof (rule map_filter_all, rule ballI)
    fix i assume "i \<in> set ?ids"
    then obtain c where "c \<in> ran (cm_byId m)" "i = sc_id c" unfolding ids(2) by blast
    then show "cm_byId m i \<noteq> None" using here by simp
  qed
  finally have eq: "forUser m u = map (\<lambda>i. the (cm_byId m i)) ?ids" .
  have "(\<lambda>i. the (cm_byId m i)) ` sc_id ` ?C = (\<lambda>c. c) ` ?C"
    unfolding image_image by (rule image_cong) (simp_all add: here)
  moreover have "inj_on (\<lambda>i. the (cm_byId m i)) (sc_id ` ?C)"
  proof (rule inj_onI)
    fix i j assume "i \<in> sc_id ` ?C" "j \<in> sc_id ` ?C" and eq: "the (cm_byId m i) = the (cm_byId m j)"
    then obtain c d where "c \<in> ?C" "d \<in> ?C" and ij: "i = sc_id c" "j = sc_id d" by blast
    then have "cm_byId m i = Some c" "cm_byId m j = Some d" using here by simp_all
    then show "i = j" using eq ij by simp
  qed
  ultimately show ?thesis using ids(1,2) unfolding eq distinct_map set_map by simp
qed

section \<open>Properties\<close>

text \<open>Runs of the three registries from empty.\<close>

abbreviation sse_run :: "nat \<Rightarrow> (sse_connection, string) conn_op list \<Rightarrow> sse_connection conn_maps" where
  "sse_run cap \<equiv> run_steps (conn_step (\<lambda>c m. map_prod (\<lambda>c. c \<noteq> None) id (register cap c m)) unregister) no_connections"

abbreviation stream_run :: "(connection, string) conn_op list \<Rightarrow> connection conn_maps" where
  "stream_run \<equiv> run_steps (conn_step registerConnection removeConnection) no_connections"

abbreviation route_run :: "(route_connection, route_connection) conn_op list \<Rightarrow> route_registry" where
  "route_run \<equiv> run_steps (conn_step route_add route_remove) Map.empty"

text \<open>C32. Every registry with a per-user cap refines the same specification, a set of live connections
  that a connection enters while its user has fewer than the cap and leaves by its id: after any
  sequence of connects with new ids and disconnects, starting empty, the live connections are those of
  the specification and no user has more than the cap. This holds of the registry of
  \<open>connection-registry.ts\<close> with its configured cap and of those of \<open>event-stream.ts\<close> and
  \<open>routes/events.ts\<close>.\<close>

theorem registries_refine_capped_set:
  assumes "distinct (new_ids sc_id ops1)" "distinct (new_ids co_id ops2)" "distinct (new_ids (\<lambda>c. c) ops3)"
  shows "ran (cm_byId (sse_run cap ops1)) = run_steps (spec_step cap sc_userId sc_id) {} ops1
    \<and> card {c \<in> ran (cm_byId (sse_run cap ops1)). sc_userId c = u} \<le> cap
    \<and> ran (cm_byId (stream_run ops2)) = run_steps (spec_step 5 co_address co_id) {} ops2
    \<and> card {c \<in> ran (cm_byId (stream_run ops2)). co_address c = u} \<le> 5
    \<and> route_live (route_run ops3) = run_steps (spec_step 5 rc_userId (\<lambda>c. c)) {} ops3
    \<and> card {c \<in> route_live (route_run ops3). rc_userId c = u} \<le> 5"
proof -
  have empty: "route_good Map.empty" "route_live Map.empty = {}" by (simp_all add: route_good_def route_live_def)
  have none: "ran (cm_byId no_connections) = {}" by simp
  show ?thesis
    using sse.registry_run [OF maps_good_empty none assms(1), of cap u]
      stream.registry_run [OF maps_good_empty none assms(2), of u, unfolded MAX_CONNECTIONS_PER_USER_def]
      route.registry_run [OF empty assms(3), of u, unfolded MAX_CONNECTIONS_PER_USER_def]
    by blast
qed

text \<open>Two connections of one user under a cap of 1, the first of which leaves: the second is refused.\<close>

abbreviation (input) "conn_a i \<equiv> \<lparr>sc_id = i, sc_userId = ''GA'', sc_claimIds = {}, sc_ownAddress = True, sc_lastEventId = None, sc_createdAt = 0\<rparr>"

theorem registries_refine_capped_set_witness:
  "cm_byId (sse_run 1 [Connect (conn_a ''1''), Connect (conn_a ''2''), Disconnect ''2'']) ''1'' = Some (conn_a ''1'')
   \<and> ran (cm_byId (sse_run 1 [Connect (conn_a ''1''), Connect (conn_a ''2''), Disconnect ''2''])) = {conn_a ''1''}"
  using registries_refine_capped_set
    [of "[Connect (conn_a ''1''), Connect (conn_a ''2''), Disconnect ''2'']" "[]" "[]" 1 "''GA''"]
  by (simp add: register_def unregister_def countForUser_def Let_def set_add_def cong: conj_cong)

text \<open>C33. The connection registry is well formed in every reachable state: under every sequence of
  connects, disconnects, failed and successful heartbeats and shutdowns, a connection is found under
  its own id; \<open>forUser\<close> lists exactly the live connections of a user, each once; \<open>countForUser\<close> is their
  number and never above the cap; no user is kept with no connection; and a shutdown that names every
  live id empties both maps.\<close>

theorem registry_well_formed:
  assumes "registry_reachable cap m used" and "dom (cm_byId m) \<subseteq> set ids"
  shows "(cm_byId m i = Some c \<longrightarrow> sc_id c = i \<and> c \<in> set (forUser m (sc_userId c)))
    \<and> distinct (forUser m u) \<and> set (forUser m u) = {c \<in> ran (cm_byId m). sc_userId c = u}
    \<and> countForUser m u = length (forUser m u) \<and> countForUser m u \<le> cap
    \<and> cm_byUser m u \<noteq> Some [] \<and> closeAll ids m = no_connections"
proof -
  note reach = registry_reachable_good [OF assms(1)]
  then have good: "maps_good sc_userId sc_id m" by blast
  note live = forUser_live [OF good] and count = count_card [OF good]
  have len: "countForUser m u = length (forUser m u)" using live [of u] count [of u] distinct_card by metis
  have gone: "maps_good sc_userId sc_id (closeAll ids m)" "ran (cm_byId (closeAll ids m)) = {}"
  proof -
    have "sc_id d \<in> set ids" if d: "d \<in> ran (cm_byId m)" for d
    proof -
      obtain j where "cm_byId m j = Some d" using d by (auto simp: ran_def)
      then show ?thesis using good assms(2) by (auto simp: maps_good_def dom_def)
    qed
    then show "maps_good sc_userId sc_id (closeAll ids m)" "ran (cm_byId (closeAll ids m)) = {}"
      using closeAll_good [OF good, of ids] by auto
  qed
  have byId: "cm_byId (closeAll ids m) = Map.empty" using gone(2) by (auto simp: ran_def not_Some_eq [symmetric])
  have byUser: "cm_byUser (closeAll ids m) = Map.empty"
  proof
    fix v show "cm_byUser (closeAll ids m) v = None"
      using maps_good_bucket(2,3) [OF gone(1), of v] gone(2) by (cases "cm_byUser (closeAll ids m) v") auto
  qed
  have "closeAll ids m = no_connections" using byId byUser by (cases "closeAll ids m") simp
  moreover have "sc_id c = i \<and> c \<in> set (forUser m (sc_userId c))" if "cm_byId m i = Some c"
    using that live [of "sc_userId c"] good by (auto simp: maps_good_def ran_def)
  moreover have "cm_byUser m u \<noteq> Some []" using good by (simp add: maps_good_def)
  moreover have "countForUser m u \<le> cap" using reach count [of u] by simp
  ultimately show ?thesis using live [of u] len by blast
qed

text \<open>One connection, dropped by a failed heartbeat.\<close>

theorem registry_well_formed_witness:
  "countForUser (heartbeat False ''1'' (snd (register 5 (conn_a ''1'') no_connections))) ''GA'' = 0 \<and>
   closeAll [''1''] (heartbeat False ''1'' (snd (register 5 (conn_a ''1'') no_connections))) = no_connections"
proof -
  have "registry_reachable 5 (heartbeat False ''1'' (snd (register 5 (conn_a ''1'') no_connections))) {''1''}"
    using registry_reachable.connect [OF registry_reachable.start, of "conn_a ''1''" 5]
    by (intro registry_reachable.beat) simp
  moreover have "dom (cm_byId (heartbeat False ''1'' (snd (register 5 (conn_a ''1'') no_connections)))) \<subseteq> set [''1'']"
    by (simp add: heartbeat_def unregister_def register_def countForUser_def Let_def)
  ultimately have "closeAll [''1''] (heartbeat False ''1'' (snd (register 5 (conn_a ''1'') no_connections))) = no_connections"
    by (rule registry_well_formed [THEN conjunct2, THEN conjunct2, THEN conjunct2, THEN conjunct2, THEN conjunct2, THEN conjunct2])
  then show ?thesis
    by (simp add: heartbeat_def unregister_def register_def countForUser_def drop_user_id_def set_add_def Let_def)
qed

lemma replay_loop_maps [simp]: "st_maps (replay_loop conn i found es st) = st_maps st"
  by (induction conn i found es st rule: replay_loop.induct) (auto simp: writeEvent_def)

lemma replay_found:
  "st_written (replay_loop conn i True es st) =
     st_written st @ map (Pair (co_id conn)) (filter (stream_matches conn) (List.map_filter id es))"
proof (induction es arbitrary: st)
  case (Cons e es)
  then show ?case by (cases e) (simp_all add: map_filter_simps writeEvent_def)
qed (simp add: map_filter_simps)

lemma replay_not_found:
  "st_written (replay_loop conn i False es st) =
     st_written st @ map (Pair (co_id conn))
       (filter (stream_matches conn) (tl (dropWhile (\<lambda>e. se_id e \<noteq> i) (List.map_filter id es))))"
proof (induction es)
  case (Cons e es)
  then show ?case by (cases e) (simp_all add: map_filter_simps replay_found id_def)
qed (simp add: map_filter_simps)

lemma on_message_written:
  "st_maps (on_message order event st) = st_maps st \<and>
   st_written (on_message order event st) = st_written st @
     map (\<lambda>cid. (cid, event)) (filter (\<lambda>cid. case cm_byId (st_maps st) cid of None \<Rightarrow> False | Some c \<Rightarrow> stream_matches c event) order)"
proof (induction order arbitrary: st)
  case (Cons cid order)
  then show ?case
    by (cases "cm_byId (st_maps st) cid") (simp_all add: on_message_def writeEvent_def)
qed (simp add: on_message_def)

text \<open>What a stream delivers. A message reaches exactly the live connections that are addressed by it or
  watch one of its claims. A resume replays, in order, exactly the matching events that follow the first
  buffered event with the client's last id, and nothing at all when that id is no longer in the buffer.
  The handler opens a stream only for a token of the stream scope with a subject, below five
  connections of that subject; in every other case but a failed subscription the state is untouched.\<close>

theorem stream_delivery:
  "st_written (on_message order event st) = st_written st @
     map (\<lambda>cid. (cid, event)) (filter (\<lambda>cid. case cm_byId (st_maps st) cid of None \<Rightarrow> False | Some c \<Rightarrow> stream_matches c event) order)
   \<and> st_written (replayFromBuffer conn lastEventId entries st) = st_written st @
     map (Pair (co_id conn)) (filter (stream_matches conn)
       (tl (dropWhile (\<lambda>e. se_id e \<noteq> lastEventId) (List.map_filter id entries))))
   \<and> st_maps (replayFromBuffer conn lastEventId entries st) = st_maps st
   \<and> (fst (eventsStreamHandler verify token rawClaims lastId suffix subscribed buffer st) = Streaming \<longleftrightarrow>
       subscribed \<and> (\<exists>t p. token = Some t \<and> t \<noteq> [] \<and> verify t = Some p \<and> tk_scope p = ''events:stream'' \<and> tk_sub p \<noteq> [] \<and>
         countForUser (st_maps st) (tk_sub p) < 5))
   \<and> (fst (eventsStreamHandler verify token rawClaims lastId suffix subscribed buffer st) \<in> {Unauthorized, Connection_Limit} \<longrightarrow>
       snd (eventsStreamHandler verify token rawClaims lastId suffix subscribed buffer st) = st)"
proof (intro conjI)
  let ?h = "eventsStreamHandler verify token rawClaims lastId suffix subscribed buffer st"
  show "fst ?h = Streaming \<longleftrightarrow> subscribed \<and>
      (\<exists>t p. token = Some t \<and> t \<noteq> [] \<and> verify t = Some p \<and> tk_scope p = ''events:stream'' \<and> tk_sub p \<noteq> [] \<and>
         countForUser (st_maps st) (tk_sub p) < 5)"
    by (auto simp: eventsStreamHandler_def authenticate_def registerConnection_eq MAX_CONNECTIONS_PER_USER_def Let_def
        split: option.splits if_splits)
  show "fst ?h \<in> {Unauthorized, Connection_Limit} \<longrightarrow> snd ?h = st"
    by (auto simp: eventsStreamHandler_def registerConnection_eq Let_def split: option.splits if_splits)
qed (simp_all add: on_message_written replayFromBuffer_def replay_not_found)

text \<open>The client has seen event 1 of the three buffered ones; event 3 is for another account.\<close>

abbreviation (input) "stream_ev i a \<equiv> \<lparr>se_id = i, se_type = ''vote'', se_ts = 0, se_claimIds = [], se_addresses = [a], se_data = []\<rparr>"

theorem stream_delivery_witness:
  "fst (eventsStreamHandler (\<lambda>t. None) (Some ''x'') None None ''s'' True None
     \<lparr>st_maps = no_connections, st_written = []\<rparr>) = Unauthorized
   \<and> snd (eventsStreamHandler (\<lambda>t. None) (Some ''x'') None None ''s'' True None
     \<lparr>st_maps = no_connections, st_written = []\<rparr>) = \<lparr>st_maps = no_connections, st_written = []\<rparr>
   \<and> st_written (replayFromBuffer \<lparr>co_id = ''c'', co_address = ''GA'', co_claimIds = {}\<rparr> ''1''
       [Some (stream_ev ''1'' ''GA''), None, Some (stream_ev ''2'' ''GA''), Some (stream_ev ''3'' ''GB'')]
       \<lparr>st_maps = no_connections, st_written = []\<rparr>) = [(''c'', stream_ev ''2'' ''GA'')]"
  using stream_delivery [of "[]" "stream_ev ''1'' ''GA''" "\<lparr>st_maps = no_connections, st_written = []\<rparr>"
      "\<lparr>co_id = ''c'', co_address = ''GA'', co_claimIds = {}\<rparr>" "''1''"
      "[Some (stream_ev ''1'' ''GA''), None, Some (stream_ev ''2'' ''GA''), Some (stream_ev ''3'' ''GB'')]"
      "\<lambda>t. None" "Some ''x''" None None "''s''" True None]
  by (simp add: eventsStreamHandler_def authenticate_def stream_matches_def map_filter_simps)

end
