(* ===== verification/Amounts.thy ===== *)
theory Amounts
  imports Js_Prelude
begin

text \<open>
  Amounts as text: \<open>stroopsToXlm\<close> of \<open>src/backend/src/rpc/soroban.service.ts\<close> (and its copy in \<open>soroban/soroban.client.ts\<close>).
\<close>

section \<open>Definitions\<close>

definition stroopsToXlm :: "int \<Rightarrow> string" where
  "stroopsToXlm stroops =
     (let frac = js_rem stroops 10000000; whole = (stroops - frac) div 10000000
      in show_int whole @ ''.'' @ pad_left 7 (show_int frac))"

section \<open>Decimal digits\<close>

lemma digits_val_append: "digits_val (a @ b) = digits_val a * 10 ^ length b + digits_val b"
proof (induction b rule: rev_induct)
  case (snoc c b)
  then show ?case unfolding append_assoc [symmetric] digits_val_snoc by (simp add: algebra_simps)
qed simp

lemma digits_val_pad [simp]: "digits_val (pad_left n s) = digits_val s"
proof -
  have "digits_val (replicate k (CHR ''0'')) = 0" for k
    by (induction k) (simp_all add: replicate_append_same [symmetric] digit_val_def)
  then show ?thesis by (simp add: pad_left_def digits_val_append)
qed

lemma length_show_nat_le: "k < 10 ^ n \<Longrightarrow> 0 < n \<Longrightarrow> length (show_nat k) \<le> n"
proof (induction n arbitrary: k)
  case (Suc n)
  then show ?case
  proof (cases "k < 10")
    case False
    then have "0 < n" using Suc.prems by (cases n) auto
    moreover have "k div 10 < 10 ^ n" using Suc.prems by simp
    ultimately show ?thesis using Suc.IH [of "k div 10"] False by (subst show_nat.simps) simp
  qed (subst show_nat.simps, simp)
qed simp

section \<open>Exactness\<close>

text \<open>The XLM amount shown has seven decimals, and without its point it is the amount in stroops.\<close>

lemma stroopsToXlm_exact:
  assumes "0 \<le> s"
  shows "\<exists>whole frac. stroopsToXlm s = whole @ ''.'' @ frac \<and> length frac = 7 \<and> digits_val (whole @ frac) = nat s"
proof -
  obtain n where n: "s = int n" using assms by (rule nonneg_int_cases)
  let ?w = "n div 10000000" and ?f = "n mod 10000000"
  have "int n mod 10000000 = int ?f" by (simp add: zmod_int)
  moreover have "(int n - int ?f) div 10000000 = int ?w"
    by (simp add: of_nat_diff [symmetric] minus_mod_eq_div_mult zdiv_int)
  ultimately have shown: "stroopsToXlm s = show_nat ?w @ ''.'' @ pad_left 7 (show_nat ?f)"
    by (simp add: n stroopsToXlm_def Let_def js_rem_def show_int_def minus_mod_eq_div_mult)
  have "length (pad_left 7 (show_nat ?f)) = 7"
    using length_show_nat_le [of ?f 7] by (simp add: pad_left_def)
  then show ?thesis using shown
    by (intro exI [of _ "show_nat ?w"] exI [of _ "pad_left 7 (show_nat ?f)"]) (simp add: digits_val_append n)
qed

end
