(* ===== verification/Tx_Submit.thy ===== *)
theory Tx_Submit
  imports Redis_Model Amounts
begin

text \<open>
  Building and submitting transactions: \<open>src/backend/src/tx/tx.service.ts\<close>, \<open>tx-submit.queue.ts\<close> and
  \<open>tx-submit.worker.ts\<close>, and the queue settings of \<open>queues/queue-config.ts\<close>.

  The Stellar SDK and the RPC node are arguments: how a signed envelope parses (\<open>fromXDR\<close>), how a call
  is assembled, and what the node answers to each request. What is sent to the node is logged in the
  state, beside the Redis server that caches results. The queue is the list of jobs BullMQ keeps.
\<close>

section \<open>Data\<close>

record stellar_tx =
  tx_signatures :: nat              \<comment> \<open>how many\<close>
  tx_operations :: "string list"    \<comment> \<open>operation types\<close>

datatype envelope = Fee_Bump | Plain stellar_tx

datatype tx_error = INVALID_XDR | FEE_BUMP_NOT_SUPPORTED | MISSING_SIGNATURES | EMPTY_OPERATIONS
  | INVALID_OPERATION_TYPE | RPC_UNAVAILABLE | ACCOUNT_NOT_FOUND | WRONG_NETWORK
  | CONTRACT_NOT_DEPLOYED | INSUFFICIENT_BALANCE | SIMULATION_FAILED string | UNSUPPORTED_FUNCTION
  | Runtime_Error    \<comment> \<open>thrown by the SDK, the node or \<open>BigInt\<close>\<close>

record send_response =
  rs_hash :: string
  rs_status :: string
  rs_errorResultXdr :: "string option"
  rs_ledger :: "int option"

record submit_result =
  sr_hash :: string
  sr_status :: string
  sr_errorCode :: "string option"
  sr_errorMessage :: "string option"
  sr_cached :: bool

record submit_dto =
  sd_signed_xdr :: string
  sd_idempotency_key :: "string option"

record tx_world =
  tw_redis :: "submit_result redis"
  tw_sent :: "string list"    \<comment> \<open>envelopes given to \<open>sendTransaction\<close>\<close>

definition IDEMPOTENCY_TTL_SECONDS :: int where "IDEMPOTENCY_TTL_SECONDS = 600"

section \<open>Submission\<close>

definition parseAndValidateXdr :: "(string \<Rightarrow> envelope option) \<Rightarrow> string \<Rightarrow> tx_error + stellar_tx" where
  "parseAndValidateXdr fromXDR signedXdr =
     (case fromXDR signedXdr of
        None \<Rightarrow> Inl INVALID_XDR
      | Some Fee_Bump \<Rightarrow> Inl FEE_BUMP_NOT_SUPPORTED
      | Some (Plain tx) \<Rightarrow>
          if tx_signatures tx = 0 then Inl MISSING_SIGNATURES
          else let ops = tx_operations tx in
            if length ops = 0 then Inl EMPTY_OPERATIONS
            else let hasInvokeHostFn = list_ex (\<lambda>op. op = ''invokeHostFunction'') ops
              in if \<not> hasInvokeHostFn then Inl INVALID_OPERATION_TYPE else Inr tx)"

definition code_map :: "(string \<times> string) list" where
  "code_map = [(''txBAD_SEQ'', ''TX_BAD_SEQ''), (''txBAD_AUTH'', ''TX_BAD_AUTH''),
     (''txINSUFFICIENT_FEE'', ''TX_INSUFFICIENT_FEE''), (''txINSUFFICIENT_BALANCE'', ''TX_INSUFFICIENT_BALANCE''),
     (''txNO_ACCOUNT'', ''TX_NO_ACCOUNT''), (''txFAILED'', ''TX_FAILED''), (''txTOO_EARLY'', ''TX_TOO_EARLY''),
     (''txTOO_LATE'', ''TX_TOO_LATE''), (''txMISSING_OPERATION'', ''TX_MISSING_OPERATION''),
     (''txINTERNAL_ERROR'', ''TX_INTERNAL_ERROR'')]"

text \<open>\<open>resultCode\<close>: the name of the result code in a result XDR, \<open>None\<close> where decoding throws.\<close>

definition mapErrorCode :: "(string \<Rightarrow> string option) \<Rightarrow> send_response \<Rightarrow> string" where
  "mapErrorCode resultCode response =
     (case rs_errorResultXdr response of
        None \<Rightarrow> ''TX_SUBMISSION_FAILED''
      | Some x \<Rightarrow> if x = [] then ''TX_SUBMISSION_FAILED''
          else (case resultCode x of
              None \<Rightarrow> ''TX_SUBMISSION_FAILED''
            | Some code \<Rightarrow> (case map_of code_map code of Some c \<Rightarrow> c | None \<Rightarrow> ''TX_ERROR_'' @ code)))"

definition messages :: "(string \<times> string) list" where
  "messages =
    [(''TX_BAD_SEQ'', ''Sequence number mismatch. Rebuild the transaction to fetch the latest sequence.''),
     (''TX_BAD_AUTH'', ''One or more signatures are invalid or missing.''),
     (''TX_INSUFFICIENT_FEE'', ''Fee is too low. Rebuild with a higher fee.''),
     (''TX_INSUFFICIENT_BALANCE'', ''Source account has insufficient XLM balance.''),
     (''TX_NO_ACCOUNT'', ''Source account does not exist on this network.''),
     (''TX_FAILED'', ''Transaction failed. Check operation results for details.''),
     (''TX_TOO_EARLY'', ''Transaction submitted before its minTime bound.''),
     (''TX_TOO_LATE'', ''Transaction expired. Rebuild with a fresh timeout.''),
     (''TX_MISSING_OPERATION'', ''Transaction has no operations.''),
     (''TX_INTERNAL_ERROR'', ''Stellar network internal error. Try again.''),
     (''TX_SUBMISSION_FAILED'', ''Transaction submission failed.'')]"

definition errorCodeToMessage :: "string \<Rightarrow> string" where
  "errorCodeToMessage code =
     (case map_of messages code of Some m \<Rightarrow> m | None \<Rightarrow> ''An unknown submission error occurred.'')"

definition mapSubmissionResponse :: "(string \<Rightarrow> string option) \<Rightarrow> send_response \<Rightarrow> submit_result" where
  "mapSubmissionResponse resultCode response =
     (let base = \<lparr>sr_hash = rs_hash response, sr_status = rs_status response, sr_errorCode = None,
                  sr_errorMessage = None, sr_cached = False\<rparr>
      in if rs_status response = ''ERROR''
         then let errorCode = mapErrorCode resultCode response
              in base\<lparr>sr_errorCode := Some errorCode, sr_errorMessage := Some (errorCodeToMessage errorCode)\<rparr>
         else base)"

text \<open>A Redis call of the service inside its own state.\<close>

definition on_redis :: "(submit_result, 'a) rcmd \<Rightarrow> (tx_world, tx_error, 'a) se" where
  "on_redis c w =
     (case c (tw_redis w) of
        (Inl _, r) \<Rightarrow> (Inl Runtime_Error, w\<lparr>tw_redis := r\<rparr>)
      | (Inr a, r) \<Rightarrow> (Inr a, w\<lparr>tw_redis := r\<rparr>))"

definition sendTransaction :: "string \<Rightarrow> send_response option \<Rightarrow> (tx_world, tx_error, send_response) se" where
  "sendTransaction xdr reply w =
     ((case reply of None \<Rightarrow> Inl RPC_UNAVAILABLE | Some response \<Rightarrow> Inr response), w\<lparr>tw_sent := tw_sent w @ [xdr]\<rparr>)"

definition idem_key :: "string \<Rightarrow> string" where
  "idem_key k = ''tx:idem:'' @ k"

text \<open>\<open>reply\<close> is what the node answers to \<open>sendTransaction\<close>, \<open>None\<close> where it throws. An empty key is falsy.\<close>

definition submit_fresh ::
  "(string \<Rightarrow> envelope option) \<Rightarrow> (string \<Rightarrow> string option) \<Rightarrow> send_response option \<Rightarrow> submit_dto \<Rightarrow> (tx_world, tx_error, submit_result) se" where
  "submit_fresh fromXDR resultCode reply dto =
     (case parseAndValidateXdr fromXDR (sd_signed_xdr dto) of
        Inl e \<Rightarrow> se_throw e
      | Inr parsedTx \<Rightarrow>
          se_bind (sendTransaction (sd_signed_xdr dto) reply) (\<lambda>response.
            let result = mapSubmissionResponse resultCode response in
            (case sd_idempotency_key dto of
               None \<Rightarrow> se_return result
             | Some key \<Rightarrow>
                 if key \<noteq> [] \<and> sr_status result \<noteq> ''ERROR''
                 then se_bind (on_redis (redis_set (idem_key key) result IDEMPOTENCY_TTL_SECONDS)) (\<lambda>_. se_return result)
                 else se_return result)))"

definition submit ::
  "(string \<Rightarrow> envelope option) \<Rightarrow> (string \<Rightarrow> string option) \<Rightarrow> send_response option \<Rightarrow> submit_dto \<Rightarrow> (tx_world, tx_error, submit_result) se" where
  "submit fromXDR resultCode reply dto =
     (case sd_idempotency_key dto of
        None \<Rightarrow> submit_fresh fromXDR resultCode reply dto
      | Some key \<Rightarrow>
          if key = [] then submit_fresh fromXDR resultCode reply dto
          else se_bind (on_redis (redis_get (idem_key key))) (\<lambda>cached.
            case cached of
              Some res \<Rightarrow> se_return (res\<lparr>sr_cached := True\<rparr>)
            | None \<Rightarrow> submit_fresh fromXDR resultCode reply dto))"

section \<open>Building\<close>

datatype sc_arg = ScAddress string | ScVariant string | ScI128 int | ScU32 int | ScU64 int | ScString string | ScBool bool
  | ScBytes "nat list" | ScVoid | ScOption sc_arg | ScVec "sc_arg list" | ScMap "(string \<times> sc_arg) list"

record build_dto =
  bd_source_account :: string
  bd_function :: string
  bd_policy_type :: string
  bd_region :: string
  bd_coverage :: string
  bd_age :: int
  bd_risk_score :: int
  bd_asset :: "string option"
  bd_start_ledger :: "int option"
  bd_duration_ledgers :: "int option"
  bd_simulate :: bool

record sim_success =
  ss_minResourceFee :: "string option"
  ss_auth :: "(string \<times> bool) option list"    \<comment> \<open>address credentials and whether it is a contract\<close>

text \<open>
  The node and the SDK: the account's sequence or the error's message; the latest ledger; the
  transaction calling a function, \<open>None\<close> where the SDK throws; its simulation, an error text or the
  result, \<open>None\<close> where the request throws; the assembled envelope with its sequence number.
\<close>

record 'tx tx_chain =
  ch_getAccount :: "string \<Rightarrow> string + string"
  ch_getLatestLedger :: "int option"
  ch_contract :: "string \<Rightarrow> bool"    \<comment> \<open>\<open>new Contract(id)\<close> does not throw\<close>
  ch_call :: "string \<Rightarrow> string \<Rightarrow> string \<Rightarrow> sc_arg list \<Rightarrow> 'tx option"
  ch_simulate :: "'tx \<Rightarrow> (string + sim_success) option"
  ch_assemble :: "'tx \<Rightarrow> sim_success \<Rightarrow> string \<times> string"

datatype build_reply =
    Simulated (br_fee: string) (br_auth: "(string \<times> bool) list") (br_ledger: int)
  | Built (br_xdr: string) (br_fee: string) (br_total: string) (br_totalXlm: string)
      (br_auth: "(string \<times> bool) list") (br_ledger: int) (br_sequence: string)

definition handleAccountError :: "string \<Rightarrow> tx_error" where
  "handleAccountError msg =
     (if str_includes ''404'' msg \<or> str_includes ''not found'' (to_lower msg) \<or> str_includes ''does not exist'' (to_lower msg)
      then ACCOUNT_NOT_FOUND
      else if str_includes ''passphrase'' (to_lower msg) \<or> str_includes ''network'' (to_lower msg) then WRONG_NETWORK
      else RPC_UNAVAILABLE)"

definition mapSimulationError :: "string \<Rightarrow> tx_error" where
  "mapSimulationError error =
     (if str_includes ''WasmVm'' error \<or> str_includes ''non-existent'' error \<or> str_includes ''InvalidAction'' error
      then CONTRACT_NOT_DEPLOYED
      else if str_includes ''balance'' (to_lower error) then INSUFFICIENT_BALANCE
      else SIMULATION_FAILED error)"

definition buildScArgs :: "string \<Rightarrow> build_dto \<Rightarrow> int \<Rightarrow> tx_error + sc_arg list" where
  "buildScArgs defaultAsset dto currentLedger =
     (if bd_function dto = ''initiate_policy''
      then let startLedger = (case bd_start_ledger dto of Some l \<Rightarrow> l | None \<Rightarrow> currentLedger);
               endLedger = startLedger + (case bd_duration_ledgers dto of Some d \<Rightarrow> d | None \<Rightarrow> 1051200);
               assetAddress = (case bd_asset dto of Some a \<Rightarrow> a | None \<Rightarrow> defaultAsset)
           in (case js_BigInt (bd_coverage dto) of
                 None \<Rightarrow> Inl Runtime_Error
               | Some coverage \<Rightarrow> Inr [ScAddress (bd_source_account dto), ScVariant (bd_policy_type dto),
                   ScVariant (bd_region dto), ScI128 coverage, ScU32 (bd_age dto), ScU32 (bd_risk_score dto),
                   ScU32 startLedger, ScU32 endLedger, ScAddress assetAddress])
      else Inl UNSUPPORTED_FUNCTION)"

definition extractAuthRequirements :: "sim_success \<Rightarrow> string \<Rightarrow> (string \<times> bool) list" where
  "extractAuthRequirements sim sourceAccount =
     (let reqs = List.map_filter id (ss_auth sim)
      in if \<not> list_ex (\<lambda>r. fst r = sourceAccount) reqs then (sourceAccount, False) # reqs else reqs)"

definition build :: "'tx tx_chain \<Rightarrow> string \<Rightarrow> string \<Rightarrow> int \<Rightarrow> build_dto \<Rightarrow> tx_error + build_reply" where
  "build ch contractId defaultAsset baseFee dto =
     (case ch_getAccount ch (bd_source_account dto) of
        Inl msg \<Rightarrow> Inl (handleAccountError msg)
      | Inr account \<Rightarrow>
     (case ch_getLatestLedger ch of
        None \<Rightarrow> Inl Runtime_Error
      | Some sequence \<Rightarrow>
     if \<not> ch_contract ch contractId then Inl Runtime_Error else
     (case buildScArgs defaultAsset dto sequence of
        Inl e \<Rightarrow> Inl e
      | Inr scArgs \<Rightarrow>
     (case ch_call ch account contractId (bd_function dto) scArgs of
        None \<Rightarrow> Inl Runtime_Error
      | Some tx \<Rightarrow>
     (case ch_simulate ch tx of
        None \<Rightarrow> Inl Runtime_Error
      | Some (Inl err) \<Rightarrow> Inl (mapSimulationError err)
      | Some (Inr sim) \<Rightarrow>
          let authRequirements = extractAuthRequirements sim (bd_source_account dto);
              fee = (case ss_minResourceFee sim of Some f \<Rightarrow> f | None \<Rightarrow> ''0'')
          in if bd_simulate dto then Inr (Simulated fee authRequirements sequence)
             else let (unsignedXdr, seq) = ch_assemble ch tx sim in
               (case js_BigInt fee of
                  None \<Rightarrow> Inl Runtime_Error
                | Some resourceFee \<Rightarrow>
                    let totalFee = baseFee + resourceFee
                    in Inr (Built unsignedXdr fee (show_int totalFee) (stroopsToXlm totalFee) authRequirements sequence seq)))))))"

section \<open>Queue settings\<close>

record retry_config =
  rc_maxAttempts :: int
  rc_type :: string
  rc_delay :: int

definition QUEUE_RETRY_DEFAULTS :: "(string \<times> retry_config) list" where
  "QUEUE_RETRY_DEFAULTS =
     (let e = (\<lambda>n d. \<lparr>rc_maxAttempts = n, rc_type = ''exponential'', rc_delay = d\<rparr>)
      in [(''tx-submit'', e 3 2000), (''claim-events'', e 5 1000), (''claim-payouts'', e 7 5000), (''indexer'', e 5 2000),
          (''notifications'', e 3 1000), (''reindex'', e 3 2000), (''backfill'', e 3 2000),
          (''policy-renewal-reminders'', e 5 2000), (''webhooks'', e 5 1000), (''outbound-webhooks'', e 5 1000)])"

definition QUEUE_CONCURRENCY_DEFAULTS :: "(string \<times> int) list" where
  "QUEUE_CONCURRENCY_DEFAULTS =
     [(''tx-submit'', 1), (''claim-events'', 5), (''claim-payouts'', 3), (''indexer'', 5), (''notifications'', 5),
      (''reindex'', 3), (''backfill'', 3), (''policy-renewal-reminders'', 3), (''webhooks'', 5), (''outbound-webhooks'', 5)]"

text \<open>\<open>parseInt\<close> that is a number at least \<open>lo\<close>.\<close>

definition parse_at_least :: "int \<Rightarrow> string \<Rightarrow> int option" where
  "parse_at_least lo s = (case parseInt s of Fin n \<Rightarrow> if n < lo then None else Some n | _ \<Rightarrow> None)"

definition parse_retry_value :: "string \<Rightarrow> retry_config option" where
  "parse_retry_value value =
     (case map trim (split_on (CHR '','') value) of
        [attemptsStr, typeStr, delayStr] \<Rightarrow>
          (case parse_at_least 1 attemptsStr of
             None \<Rightarrow> None
           | Some maxAttempts \<Rightarrow>
               if typeStr \<noteq> ''exponential'' \<and> typeStr \<noteq> ''fixed'' then None
               else (case parse_at_least 1 delayStr of
                   None \<Rightarrow> None
                 | Some delay \<Rightarrow> Some \<lparr>rc_maxAttempts = maxAttempts, rc_type = typeStr, rc_delay = delay\<rparr>))
      | _ \<Rightarrow> None)"

definition parse_retry_entry :: "string \<Rightarrow> (string \<times> retry_config) option" where
  "parse_retry_entry entry =
     (case split_first (CHR ''='') (trim entry) of
        None \<Rightarrow> None
      | Some (n, v) \<Rightarrow>
          let name = trim n; value = trim v in
          if name = [] \<or> value = [] then None
          else map_option (Pair name) (parse_retry_value value))"

text \<open>Later entries of the map override earlier ones.\<close>

definition parseRetryMap :: "string option \<Rightarrow> (string \<rightharpoonup> retry_config)" where
  "parseRetryMap raw =
     (case raw of None \<Rightarrow> Map.empty
      | Some s \<Rightarrow> map_of (rev (List.map_filter parse_retry_entry (split_on (CHR '';'') s))))"

definition getQueueRetryConfig :: "string option \<Rightarrow> string \<Rightarrow> retry_config option" where
  "getQueueRetryConfig env queueName =
     (case parseRetryMap env queueName of Some c \<Rightarrow> Some c | None \<Rightarrow> map_of QUEUE_RETRY_DEFAULTS queueName)"

definition parse_concurrency_pair :: "string \<Rightarrow> (string \<times> int) option" where
  "parse_concurrency_pair pair =
     (case split_on (CHR ''='') (trim pair) of
        name # value # _ \<Rightarrow>
          if name = [] \<or> value = [] then None else map_option (Pair (trim name)) (parse_at_least 1 value)
      | _ \<Rightarrow> None)"

definition getQueueConcurrency :: "string \<Rightarrow> string option \<Rightarrow> int option" where
  "getQueueConcurrency queueName mapStr =
     (if mapStr = None \<or> mapStr = Some [] then map_of QUEUE_CONCURRENCY_DEFAULTS queueName
      else (case map_of (rev (List.map_filter parse_concurrency_pair (split_on (CHR '','') (the mapStr)))) queueName of
          Some n \<Rightarrow> Some n
        | None \<Rightarrow> map_of QUEUE_CONCURRENCY_DEFAULTS queueName))"

section \<open>Submission queue\<close>

record worker_result =
  wr_hash :: string
  wr_status :: string
  wr_ledger :: "int option"

record tx_job =
  jb_data :: submit_dto
  jb_state :: string
  jb_returnvalue :: "worker_result option"
  jb_failedReason :: "string option"

type_synonym tx_queue = "(string \<times> tx_job) list"

definition count_state :: "string \<Rightarrow> tx_queue \<Rightarrow> nat" where
  "count_state s q = length (filter (\<lambda>(_, j). jb_state j = s) q)"

definition queue_depth :: "tx_queue \<Rightarrow> nat" where
  "queue_depth q = count_state ''waiting'' q + count_state ''active'' q + count_state ''delayed'' q"

record backpressure =
  bp_currentDepth :: nat
  bp_maxDepth :: nat

text \<open>BullMQ's \<open>add\<close>: a job whose id exists is not added again. \<open>newId\<close> is the id it generates.\<close>

definition queue_add :: "string \<Rightarrow> submit_dto \<Rightarrow> tx_queue \<Rightarrow> tx_queue" where
  "queue_add i data q =
     (if map_of q i \<noteq> None then q
      else q @ [(i, \<lparr>jb_data = data, jb_state = ''waiting'', jb_returnvalue = None, jb_failedReason = None\<rparr>)])"

definition tx_enqueue :: "nat \<Rightarrow> string \<Rightarrow> submit_dto \<Rightarrow> (tx_queue, backpressure, string) se" where
  "tx_enqueue maxDepth newId data q =
     (let depth = queue_depth q in
      if maxDepth \<le> depth then (Inl \<lparr>bp_currentDepth = depth, bp_maxDepth = maxDepth\<rparr>, q)
      else (case sd_idempotency_key data of
          Some key \<Rightarrow>
            if key = [] then (Inr newId, queue_add newId data q)
            else let jobId = ''idem:'' @ key in
              if map_of q jobId \<noteq> None then (Inr jobId, q) else (Inr jobId, queue_add jobId data q)
        | None \<Rightarrow> (Inr newId, queue_add newId data q)))"

definition mapState :: "string \<Rightarrow> string" where
  "mapState state =
     (case map_of [(''waiting'', ''queued''), (''active'', ''active''), (''completed'', ''completed''),
         (''failed'', ''failed''), (''delayed'', ''delayed'')] state of
        Some s \<Rightarrow> s | None \<Rightarrow> ''unknown'')"

record job_status =
  js_jobId :: string
  js_status :: string
  js_result :: "worker_result option"
  js_failedReason :: "string option"

definition getStatus :: "string \<Rightarrow> tx_queue \<Rightarrow> job_status" where
  "getStatus jobId q =
     (case map_of q jobId of
        None \<Rightarrow> \<lparr>js_jobId = jobId, js_status = ''unknown'', js_result = None, js_failedReason = None\<rparr>
      | Some job \<Rightarrow> \<lparr>js_jobId = jobId, js_status = mapState (jb_state job), js_result = jb_returnvalue job,
          js_failedReason = jb_failedReason job\<rparr>)"

text \<open>The worker: \<open>Inl\<close> is the error BullMQ sees. It does not look at signatures or operations.\<close>

definition worker_process ::
  "(string \<Rightarrow> envelope option) \<Rightarrow> send_response option \<Rightarrow> submit_dto \<Rightarrow> string list \<Rightarrow> (string + worker_result) \<times> string list" where
  "worker_process fromXDR reply data sent =
     (case fromXDR (sd_signed_xdr data) of
        None \<Rightarrow> (Inl ''INVALID_XDR: Could not parse signed_xdr'', sent)
      | Some _ \<Rightarrow>
          (case reply of
             None \<Rightarrow> (Inl ''rpc'', sent @ [sd_signed_xdr data])
           | Some response \<Rightarrow>
               if rs_status response = ''ERROR''
               then (Inl ''TX_SUBMISSION_FAILED: Transaction submission failed'', sent @ [sd_signed_xdr data])
               else (Inr \<lparr>wr_hash = rs_hash response, wr_status = rs_status response, wr_ledger = rs_ledger response\<rparr>, sent @ [sd_signed_xdr data])))"

section \<open>One submission per key\<close>

text \<open>Requests as they arrive: the time, the node's reply should it be asked, and the request.\<close>

definition at_time :: "int \<Rightarrow> tx_world \<Rightarrow> tx_world" where
  "at_time t w = w\<lparr>tw_redis := (tw_redis w)\<lparr>r_now := t\<rparr>\<rparr>"

fun submit_run ::
  "(string \<Rightarrow> envelope option) \<Rightarrow> (string \<Rightarrow> string option) \<Rightarrow> (int \<times> send_response option \<times> submit_dto) list \<Rightarrow>
   tx_world \<Rightarrow> (tx_error + submit_result) list \<times> tx_world" where
  "submit_run fromXDR resultCode [] w = ([], w)"
| "submit_run fromXDR resultCode ((t, reply, dto) # reqs) w =
     (let (res, w1) = submit fromXDR resultCode reply dto (at_time t w);
          (rs, w2) = submit_run fromXDR resultCode reqs w1
      in (res # rs, w2))"

lemma on_redis_get: "r_faults (tw_redis w) = [] \<Longrightarrow> on_redis (redis_get k) w = (Inr (kv_live (tw_redis w) k), w)"
  by (simp add: on_redis_def redis_get_ok)

lemma on_redis_set:
  "r_faults (tw_redis w) = [] \<Longrightarrow> on_redis (redis_set k v ttl) w =
     (Inr (), w\<lparr>tw_redis := (tw_redis w)\<lparr>r_kv := (r_kv (tw_redis w))(k \<mapsto> (v, r_now (tw_redis w) + ttl * 1000))\<rparr>\<rparr>)"
  by (simp add: on_redis_def redis_set_ok)

lemma mapSubmissionResponse_simps [simp]:
  "sr_status (mapSubmissionResponse rc r) = rs_status r" "sr_cached (mapSubmissionResponse rc r) = False"
  by (simp_all add: mapSubmissionResponse_def Let_def)

text \<open>The cases of a submission with a key that is not cached.\<close>

lemma submit_fresh_cases:
  assumes "r_faults (tw_redis w) = []" "sd_idempotency_key dto = Some key" "key \<noteq> []"
    "submit_fresh fx rc reply dto w = (res, w')"
  obtains (invalid) e where "parseAndValidateXdr fx (sd_signed_xdr dto) = Inl e" "res = Inl e" "w' = w"
  | (unreachable) tx where "parseAndValidateXdr fx (sd_signed_xdr dto) = Inr tx" "reply = None" "res = Inl RPC_UNAVAILABLE"
      "w' = w\<lparr>tw_sent := tw_sent w @ [sd_signed_xdr dto]\<rparr>"
  | (rejected) tx r where "parseAndValidateXdr fx (sd_signed_xdr dto) = Inr tx" "reply = Some r" "rs_status r = ''ERROR''"
      "res = Inr (mapSubmissionResponse rc r)" "w' = w\<lparr>tw_sent := tw_sent w @ [sd_signed_xdr dto]\<rparr>"
  | (accepted) tx r where "parseAndValidateXdr fx (sd_signed_xdr dto) = Inr tx" "reply = Some r" "rs_status r \<noteq> ''ERROR''"
      "res = Inr (mapSubmissionResponse rc r)"
      "w' = w\<lparr>tw_redis := (tw_redis w)\<lparr>r_kv := (r_kv (tw_redis w))(idem_key key \<mapsto>
          (mapSubmissionResponse rc r, r_now (tw_redis w) + 600000))\<rparr>, tw_sent := tw_sent w @ [sd_signed_xdr dto]\<rparr>"
proof (cases "parseAndValidateXdr fx (sd_signed_xdr dto)")
  case (Inl e)
  then show ?thesis using assms invalid by (simp add: submit_fresh_def)
next
  case (Inr tx)
  then show ?thesis
    using assms unreachable [OF Inr] rejected [OF Inr] accepted [OF Inr]
    by (cases reply) (auto simp: submit_fresh_def sendTransaction_def se_bind_def on_redis_set
        IDEMPOTENCY_TTL_SECONDS_def Let_def split: if_splits)
qed

text \<open>What the cache holds for a key while the requests of one window are served.\<close>

definition key_state :: "string \<Rightarrow> int \<Rightarrow> submit_result option \<Rightarrow> tx_world \<Rightarrow> bool" where
  "key_state key t0 held w \<longleftrightarrow> r_faults (tw_redis w) = [] \<and>
     (case held of
        None \<Rightarrow> r_kv (tw_redis w) (idem_key key) = None
      | Some r \<Rightarrow> sr_status r \<noteq> ''ERROR'' \<and>
          (\<exists>e \<ge> t0 + 600000. r_kv (tw_redis w) (idem_key key) = Some (r, e)))"

definition in_window :: "string \<Rightarrow> int \<Rightarrow> int \<times> send_response option \<times> submit_dto \<Rightarrow> bool" where
  "in_window key t0 req \<longleftrightarrow> key \<noteq> [] \<and> t0 \<le> fst req \<and> fst req < t0 + 600000 \<and> sd_idempotency_key (snd (snd req)) = Some key"

lemma at_time_simps [simp]:
  "r_faults (tw_redis (at_time t w)) = r_faults (tw_redis w)" "r_kv (tw_redis (at_time t w)) = r_kv (tw_redis w)"
  "r_now (tw_redis (at_time t w)) = t" "tw_sent (at_time t w) = tw_sent w"
  by (simp_all add: at_time_def)

lemma submit_held:
  assumes "key_state key t0 (Some r) w" "in_window key t0 (t, reply, dto)"
  shows "submit fx rc reply dto (at_time t w) = (Inr (r\<lparr>sr_cached := True\<rparr>), at_time t w) \<and>
    key_state key t0 (Some r) (at_time t w)"
  using assms by (auto simp: submit_def key_state_def in_window_def se_bind_def on_redis_get kv_live_def)

lemma submit_not_held:
  assumes "key_state key t0 None w" "in_window key t0 (t, reply, dto)" "submit fx rc reply dto (at_time t w) = (res, w')"
  shows "(\<exists>r. res = Inr r \<and> sr_status r \<noteq> ''ERROR'' \<and> key_state key t0 (Some r) w') \<or>
    ((\<forall>r. res = Inr r \<longrightarrow> sr_status r = ''ERROR'') \<and> key_state key t0 None w')"
proof -
  have key: "sd_idempotency_key dto = Some key" "key \<noteq> []" "t0 \<le> t" using assms(2) by (simp_all add: in_window_def)
  have healthy: "r_faults (tw_redis (at_time t w)) = []" and none: "r_kv (tw_redis w) (idem_key key) = None"
    using assms(1) by (simp_all add: key_state_def)
  have "submit_fresh fx rc reply dto (at_time t w) = (res, w')"
    using assms(3) key healthy none by (simp add: submit_def se_bind_def on_redis_get kv_live_def)
  from submit_fresh_cases [OF healthy key(1,2) this] show ?thesis
    using none healthy key(3) by cases (auto simp: key_state_def)
qed

lemma submit_run_Cons:
  assumes "submit fx rc reply dto (at_time t w) = (res, w')"
  shows "submit_run fx rc ((t, reply, dto) # reqs) w = (res # fst (submit_run fx rc reqs w'), snd (submit_run fx rc reqs w'))"
  using assms by (simp add: case_prod_unfold Let_def)

lemma submit_run_held:
  assumes "key_state key t0 (Some r) w" "list_all (in_window key t0) reqs"
  shows "fst (submit_run fx rc reqs w) = replicate (length reqs) (Inr (r\<lparr>sr_cached := True\<rparr>)) \<and>
    tw_sent (snd (submit_run fx rc reqs w)) = tw_sent w \<and> key_state key t0 (Some r) (snd (submit_run fx rc reqs w))"
  using assms
proof (induction reqs arbitrary: w)
  case (Cons req reqs)
  obtain t reply dto where req: "req = (t, reply, dto)" by (cases req)
  have win: "in_window key t0 (t, reply, dto)" "list_all (in_window key t0) reqs" using Cons.prems(2) by (simp_all add: req)
  note step = submit_held [OF Cons.prems(1) win(1), of fx rc]
  show ?case using Cons.IH [of "at_time t w"] win(2) step unfolding req submit_run_Cons [OF step [THEN conjunct1]] by simp
qed simp

lemma submit_run_state:
  assumes "key_state key t0 None w" "list_all (in_window key t0) reqs" "Inr r \<in> set (fst (submit_run fx rc reqs w))" "sr_status r \<noteq> ''ERROR''"
  shows "\<exists>held. held\<lparr>sr_cached := True\<rparr> = r\<lparr>sr_cached := True\<rparr> \<and> key_state key t0 (Some held) (snd (submit_run fx rc reqs w))"
  using assms
proof (induction reqs arbitrary: w)
  case (Cons req reqs)
  obtain t reply dto where req: "req = (t, reply, dto)" by (cases req)
  obtain res w' where step: "submit fx rc reply dto (at_time t w) = (res, w')" by fastforce
  have win: "in_window key t0 (t, reply, dto)" "list_all (in_window key t0) reqs" using Cons.prems(2) by (simp_all add: req)
  note run = submit_run_Cons [OF step, of reqs, folded req]
  from submit_not_held [OF Cons.prems(1) win(1) step] show ?case
  proof
    assume "\<exists>r0. res = Inr r0 \<and> sr_status r0 \<noteq> ''ERROR'' \<and> key_state key t0 (Some r0) w'"
    then obtain r0 where r0: "res = Inr r0" "key_state key t0 (Some r0) w'" by blast
    note rest = submit_run_held [OF r0(2) win(2), of fx rc]
    have "r = r0 \<or> r = r0\<lparr>sr_cached := True\<rparr>" using Cons.prems(3) rest r0(1) unfolding run by auto
    then have "r0\<lparr>sr_cached := True\<rparr> = r\<lparr>sr_cached := True\<rparr>" by auto
    then show ?thesis using rest unfolding run by auto
  next
    assume none: "(\<forall>r. res = Inr r \<longrightarrow> sr_status r = ''ERROR'') \<and> key_state key t0 None w'"
    then have "Inr r \<in> set (fst (submit_run fx rc reqs w'))" using Cons.prems(3,4) unfolding run by auto
    then show ?thesis using Cons.IH [of w'] none win(2) Cons.prems(4) unfolding run by auto
  qed
qed simp

section \<open>The job queue\<close>

text \<open>
  What happens to the queue: a request enqueues; BullMQ moves a job that is not finished to another
  state, or removes a finished one.
\<close>

datatype queue_event = Enqueue string submit_dto | Move string string "worker_result option" | Evict string

definition pending :: "tx_job \<Rightarrow> bool" where
  "pending j \<longleftrightarrow> jb_state j \<in> {''waiting'', ''active'', ''delayed''}"

fun queue_step :: "nat \<Rightarrow> tx_queue \<Rightarrow> queue_event \<Rightarrow> tx_queue" where
  "queue_step maxDepth q (Enqueue newId data) = snd (tx_enqueue maxDepth newId data q)"
| "queue_step maxDepth q (Move i s res) =
     map (\<lambda>(k, j). (k, if k = i \<and> pending j then j\<lparr>jb_state := s, jb_returnvalue := res\<rparr> else j)) q"
| "queue_step maxDepth q (Evict i) = filter (\<lambda>(k, j). k \<noteq> i \<or> pending j) q"

text \<open>Ids BullMQ generates do not look like those made from a key, and jobs with a key have its id.\<close>

definition queue_inv :: "nat \<Rightarrow> tx_queue \<Rightarrow> bool" where
  "queue_inv maxDepth q \<longleftrightarrow> distinct (map fst q) \<and> queue_depth q \<le> maxDepth \<and>
     (\<forall>(i, j) \<in> set q. \<forall>key. sd_idempotency_key (jb_data j) = Some key \<and> key \<noteq> [] \<longrightarrow> i = ''idem:'' @ key)"

lemma queue_depth_pending: "queue_depth q = length (filter (\<lambda>(_, j). pending j) q)"
  by (induction q) (auto simp: queue_depth_def count_state_def pending_def)

lemma queue_add_depth: "queue_depth (queue_add i d q) \<le> Suc (queue_depth q)"
  by (simp add: queue_depth_pending queue_add_def pending_def)

lemma queue_inv_add:
  assumes "queue_inv maxDepth q" "queue_depth q < maxDepth"
    "\<And>key. sd_idempotency_key d = Some key \<Longrightarrow> key \<noteq> [] \<Longrightarrow> i = ''idem:'' @ key"
  shows "queue_inv maxDepth (queue_add i d q)"
proof -
  have "queue_depth (queue_add i d q) \<le> maxDepth" using queue_add_depth [of i d q] assms(2) by simp
  then show ?thesis using assms(1,3) by (auto simp: queue_inv_def queue_add_def map_of_eq_None_iff)
qed

lemma tx_enqueue_eq:
  "tx_enqueue maxDepth newId d q =
     (let i = (case sd_idempotency_key d of Some key \<Rightarrow> if key = [] then newId else ''idem:'' @ key | None \<Rightarrow> newId)
      in if maxDepth \<le> queue_depth q then (Inl \<lparr>bp_currentDepth = queue_depth q, bp_maxDepth = maxDepth\<rparr>, q)
         else (Inr i, queue_add i d q))"
  by (simp add: tx_enqueue_def Let_def queue_add_def split: option.split)

lemma tx_enqueue_inv:
  assumes "queue_inv maxDepth q"
  shows "queue_inv maxDepth (snd (tx_enqueue maxDepth newId d q))"
proof (cases "maxDepth \<le> queue_depth q")
  case True
  then show ?thesis using assms by (simp add: tx_enqueue_eq Let_def)
next
  case False
  then show ?thesis unfolding tx_enqueue_eq Let_def if_not_P [OF False] snd_conv
    by (intro queue_inv_add [OF assms]) (auto split: option.split)
qed

lemma queue_step_inv:
  assumes "queue_inv maxDepth q"
  shows "queue_inv maxDepth (queue_step maxDepth q ev)"
proof (cases ev)
  case (Enqueue newId data)
  then show ?thesis using tx_enqueue_inv [OF assms] by simp
next
  case (Move i s res)
  have "queue_depth (queue_step maxDepth q ev) \<le> queue_depth q"
    unfolding queue_depth_pending Move by (induction q) auto
  moreover have "map fst (queue_step maxDepth q ev) = map fst q" unfolding Move by (induction q) auto
  moreover have "\<exists>j0. (k, j0) \<in> set q \<and> jb_data j = jb_data j0" if "(k, j) \<in> set (queue_step maxDepth q ev)" for k j
    using that unfolding Move by (auto split: if_splits)
  ultimately show ?thesis using assms unfolding queue_inv_def by fastforce
next
  case (Evict i)
  have "queue_depth (queue_step maxDepth q ev) \<le> queue_depth q"
    unfolding queue_depth_pending Evict by (induction q) auto
  moreover have "distinct (map fst (queue_step maxDepth q ev))" using assms by (simp add: Evict queue_inv_def distinct_map_filter)
  ultimately show ?thesis using assms by (auto simp: queue_inv_def Evict)
qed

interpretation tx_jobs: step_system "queue_step maxDepth" "queue_inv maxDepth" for maxDepth
  by unfold_locales (rule queue_step_inv)

section \<open>Properties\<close>

text \<open>C23. A signed transaction is submitted once per idempotency key. Take requests that carry the same key
  and arrive within ten minutes, in any order and whatever their envelopes, with Redis reachable and
  the key not yet known: as soon as one of them is answered with a status other than \<open>ERROR\<close>, every
  later one gets that same answer marked as cached, and nothing more is sent to the network.\<close>

theorem submit_once_per_key:
  assumes "r_faults (tw_redis w) = []" "r_kv (tw_redis w) (idem_key key) = None"
    and "list_all (in_window key t0) (before @ after)"
    and "Inr r \<in> set (fst (submit_run fromXDR resultCode before w))" "sr_status r \<noteq> ''ERROR''"
  shows "fst (submit_run fromXDR resultCode after (snd (submit_run fromXDR resultCode before w))) =
      replicate (length after) (Inr (r\<lparr>sr_cached := True\<rparr>))
    \<and> tw_sent (snd (submit_run fromXDR resultCode after (snd (submit_run fromXDR resultCode before w)))) =
      tw_sent (snd (submit_run fromXDR resultCode before w))"
proof -
  have start: "key_state key t0 None w" using assms(1,2) by (simp add: key_state_def)
  obtain held where "held\<lparr>sr_cached := True\<rparr> = r\<lparr>sr_cached := True\<rparr>"
      "key_state key t0 (Some held) (snd (submit_run fromXDR resultCode before w))"
    using submit_run_state [OF start _ assms(4,5)] assms(3) by auto
  then show ?thesis using submit_run_held [of key t0 held _ "after" fromXDR resultCode] assms(3) by simp
qed

text \<open>An accepted envelope, then another one under the same key a minute later.\<close>

abbreviation (input) "wit_world \<equiv> \<lparr>tw_redis = redis_empty 0, tw_sent = []\<rparr>"
abbreviation (input) "wit_parse \<equiv> \<lambda>x. if x = ''A'' then Some (Plain \<lparr>tx_signatures = 1, tx_operations = [''invokeHostFunction'']\<rparr>) else None"
abbreviation (input) "wit_reply \<equiv> \<lparr>rs_hash = ''h'', rs_status = ''PENDING'', rs_errorResultXdr = None, rs_ledger = None\<rparr>"

theorem submit_once_per_key_witness:
  "submit_run wit_parse (\<lambda>_. None)
     [(60000, None, \<lparr>sd_signed_xdr = ''B'', sd_idempotency_key = Some ''k''\<rparr>)]
     (snd (submit_run wit_parse (\<lambda>_. None) [(0, Some wit_reply, \<lparr>sd_signed_xdr = ''A'', sd_idempotency_key = Some ''k''\<rparr>)] wit_world))
   = ([Inr \<lparr>sr_hash = ''h'', sr_status = ''PENDING'', sr_errorCode = None, sr_errorMessage = None, sr_cached = True\<rparr>],
      snd (submit_run wit_parse (\<lambda>_. None)
     [(60000, None, \<lparr>sd_signed_xdr = ''B'', sd_idempotency_key = Some ''k''\<rparr>)]
     (snd (submit_run wit_parse (\<lambda>_. None) [(0, Some wit_reply, \<lparr>sd_signed_xdr = ''A'', sd_idempotency_key = Some ''k''\<rparr>)] wit_world))))"
proof -
  let ?r = "\<lparr>sr_hash = ''h'', sr_status = ''PENDING'', sr_errorCode = None, sr_errorMessage = None, sr_cached = False\<rparr>"
  let ?before = "[(0, Some wit_reply, \<lparr>sd_signed_xdr = ''A'', sd_idempotency_key = Some ''k''\<rparr>)]"
  have first: "fst (submit_run wit_parse (\<lambda>_. None) ?before wit_world) = [Inr ?r]"
    by (simp add: submit_def submit_fresh_def se_bind_def on_redis_get on_redis_set at_time_def redis_empty_def kv_live_def
        parseAndValidateXdr_def sendTransaction_def mapSubmissionResponse_def Let_def)
  show ?thesis
    by (rule prod_eqI)
      (use submit_once_per_key [of wit_world "''k''" 0 ?before "[(60000, None, \<lparr>sd_signed_xdr = ''B'', sd_idempotency_key = Some ''k''\<rparr>)]"
          ?r wit_parse "\<lambda>_. None"] first in \<open>simp_all add: in_window_def redis_empty_def\<close>)
qed

text \<open>What reaches the network. With Redis reachable, \<open>submit\<close> sends an envelope exactly when no result is
  cached under its key and the envelope parses as an ordinary transaction with at least one signature
  and at least one contract invocation among its operations; every refusal of the checks leaves Redis
  and the network untouched. Other operations beside the invocation are let through, and the queue's
  worker sends every envelope that parses, fee bumps and unsigned ones included.\<close>

theorem submit_gate:
  assumes "r_faults (tw_redis w) = []"
  shows "(tw_sent (snd (submit fromXDR resultCode reply dto w)) = tw_sent w @ [sd_signed_xdr dto] \<longleftrightarrow>
      (\<forall>key. sd_idempotency_key dto = Some key \<longrightarrow> key = [] \<or> kv_live (tw_redis w) (idem_key key) = None) \<and>
      (\<exists>tx. fromXDR (sd_signed_xdr dto) = Some (Plain tx) \<and> 0 < tx_signatures tx \<and> ''invokeHostFunction'' \<in> set (tx_operations tx)))
    \<and> (fst (submit fromXDR resultCode reply dto w) \<in>
        Inl ` {INVALID_XDR, FEE_BUMP_NOT_SUPPORTED, MISSING_SIGNATURES, EMPTY_OPERATIONS, INVALID_OPERATION_TYPE}
        \<longrightarrow> snd (submit fromXDR resultCode reply dto w) = w)
    \<and> (snd (worker_process fromXDR reply data sent) = sent @ [sd_signed_xdr data] \<longleftrightarrow> fromXDR (sd_signed_xdr data) \<noteq> None)"
proof -
  have valid: "(\<exists>tx. parseAndValidateXdr fromXDR x = Inr tx) \<longleftrightarrow>
      (\<exists>tx. fromXDR x = Some (Plain tx) \<and> 0 < tx_signatures tx \<and> ''invokeHostFunction'' \<in> set (tx_operations tx))" for x
    by (auto simp: parseAndValidateXdr_def Let_def list_ex_iff split: option.splits envelope.splits)
  have errors: "parseAndValidateXdr fromXDR x \<noteq> Inl RPC_UNAVAILABLE" for x
    by (auto simp: parseAndValidateXdr_def Let_def split: option.splits envelope.splits)
  have fresh: "(tw_sent (snd (submit_fresh fromXDR resultCode reply dto w)) = tw_sent w @ [sd_signed_xdr dto] \<longleftrightarrow>
        (\<exists>tx. parseAndValidateXdr fromXDR (sd_signed_xdr dto) = Inr tx)) \<and>
      (fst (submit_fresh fromXDR resultCode reply dto w) \<in>
        Inl ` {INVALID_XDR, FEE_BUMP_NOT_SUPPORTED, MISSING_SIGNATURES, EMPTY_OPERATIONS, INVALID_OPERATION_TYPE}
        \<longrightarrow> snd (submit_fresh fromXDR resultCode reply dto w) = w)"
    using assms by (cases "parseAndValidateXdr fromXDR (sd_signed_xdr dto)"; cases reply; cases "sd_idempotency_key dto")
      (auto simp: submit_fresh_def sendTransaction_def se_bind_def on_redis_set Let_def)
  have "snd (worker_process fromXDR reply data sent) = sent @ [sd_signed_xdr data] \<longleftrightarrow> fromXDR (sd_signed_xdr data) \<noteq> None"
    by (cases "fromXDR (sd_signed_xdr data)"; cases reply) (auto simp: worker_process_def)
  then show ?thesis
    using fresh valid [of "sd_signed_xdr dto"] assms
    by (cases "sd_idempotency_key dto")
      (auto simp: submit_def se_bind_def on_redis_get split: option.split)
qed

text \<open>Two operations, of which one is a payment.\<close>

theorem submit_gate_witness:
  "tw_sent (snd (submit (\<lambda>_. Some (Plain \<lparr>tx_signatures = 1, tx_operations = [''payment'', ''invokeHostFunction'']\<rparr>))
     (\<lambda>_. None) None \<lparr>sd_signed_xdr = ''A'', sd_idempotency_key = None\<rparr> wit_world)) = [''A'']"
  using submit_gate [of wit_world "\<lambda>_. Some (Plain \<lparr>tx_signatures = 1, tx_operations = [''payment'', ''invokeHostFunction'']\<rparr>)"
      "\<lambda>_. None" None "\<lparr>sd_signed_xdr = ''A'', sd_idempotency_key = None\<rparr>"]
  by (simp add: redis_empty_def)

abbreviation tx_queue_run :: "nat \<Rightarrow> queue_event list \<Rightarrow> tx_queue" where
  "tx_queue_run maxDepth \<equiv> run_steps (queue_step maxDepth) []"

text \<open>The submission queue is bounded and keyed. Starting empty, under any sequence of requests, of jobs
  moved on by the workers and of finished jobs removed, at most \<open>maxDepth\<close> jobs are waiting, active or
  delayed, job ids are unique, and a key that is not empty belongs to at most one job. A request on a
  full queue is refused without any change, also when its job exists already.\<close>

theorem tx_queue_bounded:
  "queue_depth (tx_queue_run maxDepth events) \<le> maxDepth \<and> distinct (map fst (tx_queue_run maxDepth events))
    \<and> (\<forall>i j i' j' key. (i, j) \<in> set (tx_queue_run maxDepth events) \<and> (i', j') \<in> set (tx_queue_run maxDepth events) \<and> key \<noteq> [] \<and> sd_idempotency_key (jb_data j) = Some key \<and>
        sd_idempotency_key (jb_data j') = Some key \<longrightarrow> (i, j) = (i', j'))
    \<and> (maxDepth \<le> queue_depth (tx_queue_run maxDepth events) \<longrightarrow>
        tx_enqueue maxDepth newId data (tx_queue_run maxDepth events) = (Inl \<lparr>bp_currentDepth = queue_depth (tx_queue_run maxDepth events), bp_maxDepth = maxDepth\<rparr>, (tx_queue_run maxDepth events)))"
proof -
  let ?q = "tx_queue_run maxDepth events"
  have "queue_inv maxDepth ?q" by (rule tx_jobs.run_inv) (simp add: queue_inv_def queue_depth_def count_state_def)
  then have inv: "queue_depth ?q \<le> maxDepth" "distinct (map fst ?q)"
      "\<And>i j key. (i, j) \<in> set ?q \<Longrightarrow> sd_idempotency_key (jb_data j) = Some key \<Longrightarrow> key \<noteq> [] \<Longrightarrow> i = ''idem:'' @ key"
    unfolding queue_inv_def by blast+
  have "(i, j) = (i', j')" if "(i, j) \<in> set ?q" "(i', j') \<in> set ?q" "key \<noteq> []"
      "sd_idempotency_key (jb_data j) = Some key" "sd_idempotency_key (jb_data j') = Some key" for i j i' j' key
  proof -
    have "i = i'" using inv(3) that by blast
    then show ?thesis using that(1,2) inv(2) by (simp add: eq_key_imp_eq_value)
  qed
  then show ?thesis using inv(1,2) by (auto simp: tx_enqueue_eq Let_def)
qed

theorem tx_queue_bounded_witness:
  "queue_depth (run_steps (queue_step 1) []
     [Enqueue ''1'' \<lparr>sd_signed_xdr = ''A'', sd_idempotency_key = None\<rparr>, Enqueue ''2'' \<lparr>sd_signed_xdr = ''B'', sd_idempotency_key = None\<rparr>]) = 1
   \<and> fst (tx_enqueue 1 ''3'' \<lparr>sd_signed_xdr = ''C'', sd_idempotency_key = None\<rparr> (run_steps (queue_step 1) []
     [Enqueue ''1'' \<lparr>sd_signed_xdr = ''A'', sd_idempotency_key = None\<rparr>, Enqueue ''2'' \<lparr>sd_signed_xdr = ''B'', sd_idempotency_key = None\<rparr>]))
     = Inl \<lparr>bp_currentDepth = 1, bp_maxDepth = 1\<rparr>"
proof -
  have depth: "queue_depth (run_steps (queue_step 1) []
     [Enqueue ''1'' \<lparr>sd_signed_xdr = ''A'', sd_idempotency_key = None\<rparr>, Enqueue ''2'' \<lparr>sd_signed_xdr = ''B'', sd_idempotency_key = None\<rparr>]) = 1"
    by (simp add: tx_enqueue_eq queue_add_def queue_depth_def count_state_def Let_def)
  show ?thesis
    using tx_queue_bounded [of 1 "[Enqueue ''1'' \<lparr>sd_signed_xdr = ''A'', sd_idempotency_key = None\<rparr>,
        Enqueue ''2'' \<lparr>sd_signed_xdr = ''B'', sd_idempotency_key = None\<rparr>]" "''3''" "\<lparr>sd_signed_xdr = ''C'', sd_idempotency_key = None\<rparr>"]
    by (simp only: depth) simp
qed

section \<open>Settings\<close>

text \<open>The textual form of the retry settings.\<close>

definition show_retry :: "string \<times> retry_config \<Rightarrow> string" where
  "show_retry nc = fst nc @ ''='' @ show_int (rc_maxAttempts (snd nc)) @ '','' @ rc_type (snd nc) @ '','' @ show_int (rc_delay (snd nc))"

definition good_retry :: "string \<times> retry_config \<Rightarrow> bool" where
  "good_retry nc \<longleftrightarrow> fst nc \<noteq> [] \<and> list_all (\<lambda>c. \<not> is_space c \<and> c \<notin> {CHR ''='', CHR '';''}) (fst nc) \<and>
     1 \<le> rc_maxAttempts (snd nc) \<and> rc_type (snd nc) \<in> {''exponential'', ''fixed''} \<and> 1 \<le> rc_delay (snd nc)"

lemma type_chars: "t \<in> {''exponential'', ''fixed''} \<Longrightarrow> list_all (\<lambda>c. \<not> is_space c \<and> c \<notin> {CHR ''='', CHR '';'', CHR '',''}) t"
  by (auto simp: is_space_def)

lemma parse_at_least_show: "lo \<le> n \<Longrightarrow> parse_at_least lo (show_int n) = Some n"
  by (simp add: parse_at_least_def)

lemma parse_show_retry:
  assumes "good_retry nc"
  shows "parse_retry_entry (show_retry nc) = Some nc" "CHR '';'' \<notin> set (show_retry nc)"
proof -
  obtain n c where nc: "nc = (n, c)" by (cases nc)
  note good = assms [unfolded nc good_retry_def fst_conv snd_conv]
  have ty: "list_all (\<lambda>c. \<not> is_space c \<and> c \<notin> {CHR ''='', CHR '';'', CHR '',''}) (rc_type c)" using type_chars good by blast
  let ?v = "show_int (rc_maxAttempts c) @ CHR '','' # rc_type c @ CHR '','' # show_int (rc_delay c)"
  have comma: "CHR '','' \<notin> set (show_int i)" "CHR '';'' \<notin> set (show_int i)" for i
    by (rule show_int_no, simp_all add: is_digit_def)+
  have split: "split_on (CHR '','') ?v = [show_int (rc_maxAttempts c), rc_type c, show_int (rc_delay c)]"
  proof -
    have "CHR '','' \<notin> set (rc_type c)" using ty by (auto simp: list_all_iff)
    then show ?thesis using comma by (simp add: split_on_append split_on_no_sep)
  qed
  have no_space: "list_all (\<lambda>c. \<not> is_space c) ?v" "list_all (\<lambda>c. \<not> is_space c) n" "list_all (\<lambda>c. \<not> is_space c) (show_retry nc)"
    using ty good show_int_no_space by (auto simp: list_all_iff is_space_def show_retry_def nc)
  have parsed: "parse_retry_value ?v = Some c"
    unfolding parse_retry_value_def split using good ty
    by (auto simp: parse_at_least_show trim_no_space list_all_iff)
  have "split_first (CHR ''='') (show_retry nc) = Some (n, ?v)"
  proof -
    have "CHR ''='' \<notin> set n" using good by (auto simp: list_all_iff)
    then show ?thesis by (simp add: show_retry_def nc split_first_append)
  qed
  moreover have "n \<noteq> []" "?v \<noteq> []" using good by simp_all
  ultimately show "parse_retry_entry (show_retry nc) = Some nc"
    unfolding parse_retry_entry_def trim_no_space [OF no_space(3)]
    by (simp only: option.case prod.case Let_def trim_no_space [OF no_space(1)] trim_no_space [OF no_space(2)]
        parsed option.map if_False simp_thms nc)
  have "CHR '';'' \<notin> set n" "CHR '';'' \<notin> set (rc_type c)" using good ty unfolding list_all_iff by blast+
  then show "CHR '';'' \<notin> set (show_retry nc)" using comma(2) by (simp add: show_retry_def nc)
qed

lemma split_join: "ys \<noteq> [] \<Longrightarrow> \<forall>y \<in> set ys. c \<notin> set y \<Longrightarrow> split_on c (join_with [c] ys) = ys"
  by (induction ys rule: induct_list012) (auto simp: split_on_no_sep split_on_append)

text \<open>Retry settings survive their textual form: the configuration variable written for a list of queue
  settings (names without blanks, \<open>=\<close> and \<open>;\<close>, positive attempts and delays, a known back-off) is read
  back entry by entry, the last entry of a queue winning; a queue without an entry keeps its compiled
  default.\<close>

theorem retry_map_roundtrip:
  assumes "entries \<noteq> []" "list_all good_retry entries"
  shows "parseRetryMap (Some (join_with '';'' (map show_retry entries))) = map_of (rev entries)
    \<and> (name \<notin> fst ` set entries \<longrightarrow>
        getQueueRetryConfig (Some (join_with '';'' (map show_retry entries))) name = map_of QUEUE_RETRY_DEFAULTS name)"
proof -
  have "split_on (CHR '';'') (join_with '';'' (map show_retry entries)) = map show_retry entries"
    using assms parse_show_retry(2) by (intro split_join) (auto simp: list_all_iff)
  moreover have "List.map_filter parse_retry_entry (map show_retry entries) = entries"
    using assms(2) by (induction entries) (simp_all add: map_filter_simps parse_show_retry(1))
  ultimately have "parseRetryMap (Some (join_with '';'' (map show_retry entries))) = map_of (rev entries)"
    by (simp add: parseRetryMap_def)
  then show ?thesis by (auto simp: getQueueRetryConfig_def map_of_eq_None_iff [THEN iffD2] split: option.split dest!: map_of_SomeD)
qed

theorem retry_map_roundtrip_witness:
  "parseRetryMap (Some ''webhooks=7,fixed,50'') ''webhooks'' = Some \<lparr>rc_maxAttempts = 7, rc_type = ''fixed'', rc_delay = 50\<rparr>"
proof -
  have "show_retry (''webhooks'', \<lparr>rc_maxAttempts = 7, rc_type = ''fixed'', rc_delay = 50\<rparr>) = ''webhooks=7,fixed,50''"
    by code_simp
  moreover have "good_retry (''webhooks'', \<lparr>rc_maxAttempts = 7, rc_type = ''fixed'', rc_delay = 50\<rparr>)"
    by (simp add: good_retry_def is_space_def)
  ultimately show ?thesis
    using retry_map_roundtrip [of "[(''webhooks'', \<lparr>rc_maxAttempts = 7, rc_type = ''fixed'', rc_delay = 50\<rparr>)]" "''x''"] by simp
qed

end
