(* ===== verification/Json.thy ===== *)
theory Json
  imports Event_Schema
begin

text \<open>
  \<open>JSON.parse\<close> of ECMAScript and the base64url encoding of Node's \<open>Buffer\<close>, as far as the cursors of the
  list endpoints and other tokens use them. A string is its sequence of UTF-8 bytes. A parser takes the
  rest of the text and gives a value and what follows it; the test that the rest got shorter makes its
  termination evident and always succeeds.
\<close>

section \<open>JSON\<close>

definition json_ws :: "string \<Rightarrow> string" where
  "json_ws = dropWhile (\<lambda>c. c \<in> {CHR '' '', CHR 0x09, CHR 0x0A, CHR 0x0D})"

text \<open>UTF-8 of a 16-bit code unit.\<close>

definition utf8_unit :: "nat \<Rightarrow> string" where
  "utf8_unit n =
     (if n < 128 then [char_of n]
      else if n < 2048 then [char_of (192 + n div 64), char_of (128 + n mod 64)]
      else [char_of (224 + n div 4096), char_of (128 + n div 64 mod 64), char_of (128 + n mod 64)])"

definition json_escape :: "char \<Rightarrow> string option" where
  "json_escape e =
     map_of [(CHR 0x22, [CHR 0x22]), (CHR 0x5C, [CHR 0x5C]), (CHR ''/'', [CHR ''/'']), (CHR ''b'', [CHR 0x08]),
       (CHR ''f'', [CHR 0x0C]), (CHR ''n'', [CHR 0x0A]), (CHR ''r'', [CHR 0x0D]), (CHR ''t'', [CHR 0x09])] e"

text \<open>The characters after the opening quote.\<close>

fun json_chars :: "string \<Rightarrow> (string \<times> string) option" where
  "json_chars [] = None"
| "json_chars (c # s) =
     (if c = CHR 0x22 then Some ([], s)
      else if c = CHR 0x5C then
        (case s of
           [] \<Rightarrow> None
         | e # t \<Rightarrow>
             if e = CHR ''u'' then
               (if length t < 4 \<or> \<not> list_all is_hex (take 4 t) then None
                else map_option (\<lambda>(a, r). (utf8_unit (radix_val 16 (take 4 t)) @ a, r)) (json_chars (drop 4 t)))
             else (case json_escape e of None \<Rightarrow> None
                   | Some x \<Rightarrow> map_option (\<lambda>(a, r). (x @ a, r)) (json_chars t)))
      else if of_char c < (32 :: nat) then None
      else map_option (\<lambda>(a, r). (c # a, r)) (json_chars s))"

text \<open>A number: the sign, the integer part without leading zeros, the fraction, the exponent.\<close>

definition json_number :: "string \<Rightarrow> (jnum \<times> string) option" where
  "json_number s =
     (let neg = (s \<noteq> [] \<and> hd s = CHR ''-''); u = (if neg then tl s else s);
          ip = takeWhile is_digit u; r1 = dropWhile is_digit u;
          dot = (r1 \<noteq> [] \<and> hd r1 = CHR ''.'');
          fp = (if dot then takeWhile is_digit (tl r1) else []); r2 = (if dot then dropWhile is_digit (tl r1) else r1);
          ex = (r2 \<noteq> [] \<and> lower_char (hd r2) = CHR ''e'');
          sg = (if ex \<and> tl r2 \<noteq> [] \<and> (hd (tl r2) = CHR ''-'' \<or> hd (tl r2) = CHR ''+'') then [hd (tl r2)] else []);
          ed = (if ex then takeWhile is_digit (drop (1 + length sg) r2) else []);
          r3 = (if ex then dropWhile is_digit (drop (1 + length sg) r2) else r2)
      in if ip = [] \<or> (1 < length ip \<and> hd ip = CHR ''0'') \<or> (dot \<and> fp = []) \<or> (ex \<and> ed = []) then None
         else Some (decimal_literal neg (ip @ (if dot then CHR ''.'' # fp else []) @ (if ex then CHR ''e'' # sg @ ed else [])), r3))"

definition json_word :: "string \<Rightarrow> 'a \<Rightarrow> string \<Rightarrow> ('a \<times> string) option" where
  "json_word w v s = (if starts_with w s then Some (v, drop (length w) s) else None)"

function json_value :: "string \<Rightarrow> (jsval \<times> string) option"
  and json_elements :: "string \<Rightarrow> (jsval list \<times> string) option"
  and json_members :: "string \<Rightarrow> ((string \<times> jsval) list \<times> string) option" where
  "json_value s =
     (case s of
        [] \<Rightarrow> None
      | c # r \<Rightarrow>
          if c = CHR 0x22 then map_option (\<lambda>(a, r). (JStr a, r)) (json_chars r)
          else if c = CHR ''['' then
            (let t = json_ws r in
             if t \<noteq> [] \<and> hd t = CHR '']'' then Some (JArr [], tl t)
             else if length t < length s then map_option (\<lambda>(vs, r). (JArr vs, r)) (json_elements t) else None)
          else if c = CHR ''{'' then
            (let t = json_ws r in
             if t \<noteq> [] \<and> hd t = CHR ''}'' then Some (JObj [], tl t)
             else if length t < length s then map_option (\<lambda>(fs, r). (JObj fs, r)) (json_members t) else None)
          else if c = CHR ''t'' then json_word ''true'' (JBool True) s
          else if c = CHR ''f'' then json_word ''false'' (JBool False) s
          else if c = CHR ''n'' then json_word ''null'' JNull s
          else map_option (\<lambda>(x, r). (JNum x, r)) (json_number s))"
| "json_elements s =
     (case json_value s of
        None \<Rightarrow> None
      | Some (v, r) \<Rightarrow>
          (case json_ws r of
             [] \<Rightarrow> None
           | c # t \<Rightarrow>
               if c = CHR '']'' then Some ([v], t)
               else if c = CHR '','' then
                 (if length (json_ws t) < length s then map_option (\<lambda>(vs, r). (v # vs, r)) (json_elements (json_ws t)) else None)
               else None))"
| "json_members s =
     (case s of
        [] \<Rightarrow> None
      | q # r \<Rightarrow>
          if q \<noteq> CHR 0x22 then None
          else (case json_chars r of
             None \<Rightarrow> None
           | Some (k, r1) \<Rightarrow>
               (case json_ws r1 of
                  [] \<Rightarrow> None
                | c # t \<Rightarrow>
                    if c \<noteq> CHR '':'' \<or> \<not> length (json_ws t) < length s then None
                    else (case json_value (json_ws t) of
                       None \<Rightarrow> None
                     | Some (v, r2) \<Rightarrow>
                         (case json_ws r2 of
                            [] \<Rightarrow> None
                          | c2 # t2 \<Rightarrow>
                              if c2 = CHR ''}'' then Some ([(k, v)], t2)
                              else if c2 = CHR '','' then
                                (if length (json_ws t2) < length s
                                 then map_option (\<lambda>(fs, r). ((k, v) # fs, r)) (json_members (json_ws t2)) else None)
                              else None)))))"
  by pat_completeness auto
termination
  by (relation "measure (\<lambda>x. case x of Inl s \<Rightarrow> 2 * length s | Inr (Inl s) \<Rightarrow> 2 * length s + 1 | Inr (Inr s) \<Rightarrow> 2 * length s + 1)")
    auto

declare json_value.simps [simp del] json_elements.simps [simp del] json_members.simps [simp del]

definition JSON_parse :: "string \<Rightarrow> jsval option" where
  "JSON_parse s = (case json_value (json_ws s) of Some (v, r) \<Rightarrow> if json_ws r = [] then Some v else None | None \<Rightarrow> None)"

text \<open>Reading a property: the last field of that name.\<close>

definition json_field :: "jsval \<Rightarrow> string \<Rightarrow> jsval" where
  "json_field v k = (case v of JObj fs \<Rightarrow> (case map_of (rev fs) k of Some x \<Rightarrow> x | None \<Rightarrow> JUndef) | _ \<Rightarrow> JUndef)"

section \<open>base64url\<close>

definition b64_digit :: "nat \<Rightarrow> char" where
  "b64_digit n = (if n < 26 then char_of (65 + n) else if n < 52 then char_of (71 + n)
     else if n < 62 then char_of (n - 4) else if n = 62 then CHR ''-'' else CHR ''_'')"

text \<open>Node's decoder knows both alphabets and skips every other character.\<close>

definition b64_value :: "char \<Rightarrow> nat option" where
  "b64_value c =
     (let n = of_char c :: nat in
      if 65 \<le> n \<and> n \<le> 90 then Some (n - 65) else if 97 \<le> n \<and> n \<le> 122 then Some (n - 71)
      else if 48 \<le> n \<and> n \<le> 57 then Some (n + 4)
      else if c = CHR ''-'' \<or> c = CHR ''+'' then Some 62 else if c = CHR ''_'' \<or> c = CHR ''/'' then Some 63 else None)"

fun b64_groups :: "nat list \<Rightarrow> nat list" where
  "b64_groups [] = []"
| "b64_groups [a] = [a div 4, a mod 4 * 16]"
| "b64_groups [a, b] = [a div 4, a mod 4 * 16 + b div 16, b mod 16 * 4]"
| "b64_groups (a # b # c # r) = [a div 4, a mod 4 * 16 + b div 16, b mod 16 * 4 + c div 64, c mod 64] @ b64_groups r"

fun b64_bytes :: "nat list \<Rightarrow> nat list" where
  "b64_bytes [] = []"
| "b64_bytes [w] = []"
| "b64_bytes [w, x] = [w * 4 + x div 16]"
| "b64_bytes [w, x, y] = [w * 4 + x div 16, x mod 16 * 16 + y div 4]"
| "b64_bytes (w # x # y # z # r) = [w * 4 + x div 16, x mod 16 * 16 + y div 4, y mod 4 * 64 + z] @ b64_bytes r"

definition base64url_encode :: "string \<Rightarrow> string" where
  "base64url_encode s = map b64_digit (b64_groups (map of_char s))"

definition base64url_decode :: "string \<Rightarrow> string" where
  "base64url_decode s = map char_of (b64_bytes (List.map_filter b64_value s))"

lemma byte_split:
  assumes "(b :: nat) < 256"
  shows "b div 16 div 16 = 0" "b div 16 mod 16 = b div 16" "b div 16 * 16 + b mod 16 = b"
    "b div 64 div 4 = 0" "b div 64 mod 4 = b div 64" "b div 64 * 64 + b mod 64 = b"
  using assms by simp_all

lemma pair_split:
  "(a mod 4 * 16 + b) div 16 = a mod 4 + b div 16" "(a mod 4 * 16 + b) mod 16 = b mod 16"
  "(a mod 16 * 4 + b) div 4 = a mod 16 + b div 4" "(a mod 16 * 4 + b) mod 4 = b mod 4" for a b :: nat
  by (simp_all add: div_add1_eq [of "a mod 4 * 16"] div_add1_eq [of "a mod 16 * 4"] mod_simps)

lemma b64_bytes_groups: "\<forall>b \<in> set bs. b < 256 \<Longrightarrow> b64_bytes (b64_groups bs) = bs"
  by (induction bs rule: b64_groups.induct) (simp_all add: pair_split byte_split)

lemma b64_groups_bound: "\<forall>b \<in> set bs. b < 256 \<Longrightarrow> \<forall>g \<in> set (b64_groups bs). g < 64"
proof (induction bs rule: b64_groups.induct)
  case (4 a b c r)
  have "a mod 4 * 16 \<le> 48" "b mod 16 * 4 \<le> 60" "b div 16 < 16" "c div 64 < 4" "a div 4 < 64" using 4 by auto
  then show ?case using 4 by auto
next
  case (3 a b)
  have "a mod 4 * 16 \<le> 48" "b div 16 < 16" using 3 by auto
  then show ?case using 3 by auto
qed auto

lemma b64_value_digit: "n < 64 \<Longrightarrow> b64_value (b64_digit n) = Some n"
proof -
  assume "n < 64"
  then consider "n < 26" | "26 \<le> n" "n < 52" | "52 \<le> n" "n < 62" | "n = 62" | "n = 63" by linarith
  then show ?thesis by cases (auto simp: b64_value_def b64_digit_def Let_def)
qed

lemma map_filter_digits: "\<forall>g \<in> set gs. g < 64 \<Longrightarrow> List.map_filter b64_value (map b64_digit gs) = gs"
  by (induction gs) (simp_all add: map_filter_simps b64_value_digit)

theorem base64url_roundtrip: "base64url_decode (base64url_encode s) = s"
proof -
  have bytes: "\<forall>b \<in> set (map of_char s). b < (256 :: nat)" by auto
  show ?thesis
    unfolding base64url_decode_def base64url_encode_def map_filter_digits [OF b64_groups_bound [OF bytes]]
      b64_bytes_groups [OF bytes] by (simp add: comp_def)
qed

lemma base64url_chars: "c \<in> set (base64url_encode s) \<Longrightarrow> b64_value c \<noteq> None"
proof -
  assume "c \<in> set (base64url_encode s)"
  then obtain g where "g \<in> set (b64_groups (map of_char s))" "c = b64_digit g" by (auto simp: base64url_encode_def)
  moreover have "\<forall>g \<in> set (b64_groups (map of_char s)). g < 64" by (rule b64_groups_bound) auto
  ultimately show ?thesis using b64_value_digit by auto
qed

lemma base64url_no_dot: "CHR ''.'' \<notin> set (base64url_encode s)"
  using base64url_chars [of "CHR ''.''" s] by (auto simp: b64_value_def)

lemma base64url_nonempty: "s \<noteq> [] \<Longrightarrow> base64url_encode s \<noteq> []"
proof -
  assume "s \<noteq> []"
  moreover have "bs \<noteq> [] \<Longrightarrow> b64_groups bs \<noteq> []" for bs by (cases bs rule: b64_groups.cases) auto
  ultimately show ?thesis by (simp add: base64url_encode_def)
qed

section \<open>Parsing what was printed\<close>

text \<open>Characters that a JSON string holds as they are.\<close>

definition json_plain :: "char \<Rightarrow> bool" where
  "json_plain c \<longleftrightarrow> c \<noteq> CHR 0x22 \<and> c \<noteq> CHR 0x5C \<and> \<not> of_char c < (32 :: nat)"

lemma json_chars_plain: "list_all json_plain s \<Longrightarrow> json_chars (s @ CHR 0x22 # r) = Some (s, r)"
  by (induction s) (simp_all add: json_plain_def)

lemma json_ws_id: "s = [] \<or> hd s \<notin> {CHR '' '', CHR 0x09, CHR 0x0A, CHR 0x0D} \<Longrightarrow> json_ws s = s"
  by (cases s) (simp_all add: json_ws_def)

lemma hd_show_nat_nonzero: "0 < n \<Longrightarrow> hd (show_nat n) \<noteq> CHR ''0''"
proof (induction n rule: less_induct)
  case (less n)
  show ?case
  proof (cases "n < 10")
    case True
    then have "digit_val (digit_char n) \<noteq> digit_val (CHR ''0'')" using less.prems by (simp add: digit_val_def [of "CHR ''0''"])
    then have "digit_char n \<noteq> CHR ''0''" by metis
    then show ?thesis using True by (simp add: show_nat.simps [of n])
  next
    case False
    then show ?thesis using less.IH [of "n div 10"] by (simp add: show_nat.simps [of n])
  qed
qed

lemma json_number_show_nat:
  assumes "r = [] \<or> (\<not> is_digit (hd r) \<and> hd r \<noteq> CHR ''.'' \<and> lower_char (hd r) \<noteq> CHR ''e'')"
  shows "json_number (show_nat n @ r) = Some (Fin (int n), r)"
proof -
  have digits: "\<And>c. c \<in> set (show_nat n) \<Longrightarrow> is_digit c" using show_nat_digits [of n] by (simp add: list_all_iff)
  have "takeWhile is_digit (show_nat n @ r) = show_nat n @ takeWhile is_digit r"
      "dropWhile is_digit (show_nat n @ r) = dropWhile is_digit r"
    by (rule takeWhile_append2 [OF digits], simp) (rule dropWhile_append2 [OF digits], simp)
  moreover have "takeWhile is_digit r = []" "dropWhile is_digit r = r" using assms by (cases r; simp)+
  ultimately have ip: "takeWhile is_digit (show_nat n @ r) = show_nat n" "dropWhile is_digit (show_nat n @ r) = r" by simp_all
  have hd: "hd (show_nat n @ r) \<noteq> CHR ''-''" using hd_show_nat_digit [of n] by (auto simp: is_digit_def)
  have lead: "\<not> (1 < length (show_nat n) \<and> hd (show_nat n) = CHR ''0'')"
    using hd_show_nat_nonzero [of n] by (cases "n = 0") (auto simp: show_nat.simps [of 0])
  have neg: "(show_nat n @ r \<noteq> [] \<and> hd (show_nat n @ r) = CHR ''-'') = False" using hd by simp
  have dot: "(r \<noteq> [] \<and> hd r = CHR ''.'') = False" "(r \<noteq> [] \<and> lower_char (hd r) = CHR ''e'') = False" using assms by auto
  have ok: "(show_nat n = [] \<or> (1 < length (show_nat n) \<and> hd (show_nat n) = CHR ''0'')) = False" using lead by simp
  show ?thesis unfolding json_number_def Let_def neg if_False ip dot simp_thms
    using ok by (simp only: if_False simp_thms append_Nil2 decimal_literal_show_nat)
qed

end
