(* ===== verification/Pagination.thy ===== *)
theory Pagination
  imports Json "HOL-Library.Product_Lexorder"
begin

text \<open>
  Cursor pagination, \<open>src/backend/src/helpers/pagination.ts\<close>: cursors as signed base64url JSON, the
  keyset condition, the next cursor, and pages of an array under offset cursors.

  \<open>Date.parse\<close> is an argument, since it accepts formats of the engine's own; what is used of it is that
  it reads what \<open>toISOString\<close> printed. The HMAC is an argument too. The locale \<open>cursor_paging\<close> is the
  contract of a list endpoint: following its cursors from the first page yields every item once.
\<close>

section \<open>Conditions\<close>

text \<open>
  A Prisma condition is an object with one entry per property, all of which must hold; spreading objects
  into one another (\<open>{ ...a, ...b }\<close>) keeps the last entry of a property.
\<close>

type_synonym 'r where_obj = "(string \<times> ('r \<Rightarrow> bool)) list"

definition spread :: "'r where_obj \<Rightarrow> 'r where_obj \<Rightarrow> 'r where_obj" where
  "spread a b = filter (\<lambda>(k, _). k \<notin> fst ` set b) a @ b"

definition matches_where :: "'r where_obj \<Rightarrow> 'r \<Rightarrow> bool" where
  "matches_where w p = list_all (\<lambda>(_, c). c p) w"

lemma matches_append: "matches_where (a @ b) p \<longleftrightarrow> matches_where a p \<and> matches_where b p"
  by (simp add: matches_where_def)

lemma spread_disjoint: "fst ` set a \<inter> fst ` set b = {} \<Longrightarrow> spread a b = a @ b"
proof -
  assume "fst ` set a \<inter> fst ` set b = {}"
  then have "\<forall>kc \<in> set a. fst kc \<notin> fst ` set b" by blast
  then show ?thesis by (simp add: spread_def filter_id_conv case_prod_unfold)
qed

lemma spread_Nil [simp]: "spread a [] = a" "spread [] b = b"
  by (simp_all add: spread_def)

section \<open>Limits and cursors\<close>

definition DEFAULT_PAGE_LIMIT :: int where "DEFAULT_PAGE_LIMIT = 20"
definition MAX_PAGE_LIMIT :: int where "MAX_PAGE_LIMIT = 100"

definition clampLimit :: "int option \<Rightarrow> int" where
  "clampLimit requested = min (max 1 (case requested of None \<Rightarrow> DEFAULT_PAGE_LIMIT | Some n \<Rightarrow> n)) MAX_PAGE_LIMIT"

record cursor_env =
  ce_secret :: "string option"                 \<comment> \<open>\<open>PAGINATION_HMAC_SECRET\<close>\<close>
  ce_hmac :: "string \<Rightarrow> string \<Rightarrow> string"       \<comment> \<open>key, text; the digest's bytes\<close>
  ce_dateParse :: "string \<Rightarrow> int option"        \<comment> \<open>\<open>Date.parse\<close>, \<open>None\<close> for \<open>NaN\<close>\<close>

record cursor_payload =
  cp_createdAt :: string
  cp_id :: int

definition secret_on :: "cursor_env \<Rightarrow> bool" where
  "secret_on env = (case ce_secret env of None \<Rightarrow> False | Some s \<Rightarrow> s \<noteq> [])"

definition sign :: "cursor_env \<Rightarrow> string \<Rightarrow> string" where
  "sign env payload = (if \<not> secret_on env then [] else base64url_encode (ce_hmac env (the (ce_secret env)) payload))"

text \<open>\<open>JSON.stringify\<close> of a payload; the date has no character that needs an escape.\<close>

definition cursor_json :: "string \<Rightarrow> int \<Rightarrow> string" where
  "cursor_json createdAt i =
     (let q = CHR 0x22 in
      [CHR ''{'', q] @ ''createdAt'' @ [q, CHR '':'', q] @ createdAt @ [q, CHR '','', q] @ ''id'' @ [q, CHR '':''] @ show_int i @ ''}'')"

definition encodeCursor :: "cursor_env \<Rightarrow> int \<Rightarrow> int \<Rightarrow> string" where
  "encodeCursor env createdAt i =
     (let json = cursor_json (js_toISOString createdAt) i;
          encoded = base64url_encode json;
          tag = sign env encoded
      in if tag \<noteq> [] then encoded @ ''.'' @ tag else encoded)"

text \<open>\<open>lastIndexOf\<close>: what stands before and after the last \<open>c\<close>.\<close>

definition split_last :: "char \<Rightarrow> string \<Rightarrow> (string \<times> string) option" where
  "split_last c s = map_option (\<lambda>(a, b). (rev b, rev a)) (split_first c (rev s))"

definition check_signature :: "cursor_env \<Rightarrow> string \<Rightarrow> string option" where
  "check_signature env cursor =
     (if secret_on env
      then (case split_last (CHR ''.'') cursor of
              None \<Rightarrow> None
            | Some (encoded, providedTag) \<Rightarrow> if providedTag \<noteq> sign env encoded then None else Some encoded)
      else Some cursor)"

text \<open>\<open>None\<close> is the \<open>BadRequestException\<close>.\<close>

definition decodeCursor :: "cursor_env \<Rightarrow> string \<Rightarrow> cursor_payload option" where
  "decodeCursor env cursor =
     (case check_signature env cursor of
        None \<Rightarrow> None
      | Some encoded \<Rightarrow>
          (case JSON_parse (base64url_decode encoded) of
             None \<Rightarrow> None
           | Some parsed \<Rightarrow>
               (case (json_field parsed ''createdAt'', json_field parsed ''id'') of
                  (JStr createdAt, JNum (Fin i)) \<Rightarrow>
                    if i < 0 \<or> ce_dateParse env createdAt = None then None
                    else Some \<lparr>cp_createdAt = createdAt, cp_id = i\<rparr>
                | _ \<Rightarrow> None)))"

text \<open>The keyset condition as the pair it compares with; \<open>Inl\<close> is a refused cursor.\<close>

definition buildKeysetWhere :: "cursor_env \<Rightarrow> string option \<Rightarrow> unit + (int \<times> int) option" where
  "buildKeysetWhere env after =
     (if after = None \<or> after = Some [] then Inr None
      else (case decodeCursor env (the after) of
          None \<Rightarrow> Inl ()
        | Some p \<Rightarrow> Inr (Some (the (ce_dateParse env (cp_createdAt p)), cp_id p))))"

definition keyset_holds :: "int \<times> int \<Rightarrow> int \<Rightarrow> int \<Rightarrow> bool" where
  "keyset_holds k createdAt i = (createdAt < fst k \<or> (createdAt = fst k \<and> i < snd k))"

definition buildNextCursor :: "cursor_env \<Rightarrow> ('a \<Rightarrow> int) \<Rightarrow> ('a \<Rightarrow> int) \<Rightarrow> 'a list \<Rightarrow> int \<Rightarrow> int \<Rightarrow> string option" where
  "buildNextCursor env createdAt ident items limit totalRows =
     (if length items = 0 \<or> int (length items) < limit \<or> totalRows \<le> limit then None
      else let l = items ! (length items - 1) in Some (encodeCursor env (createdAt l) (ident l)))"

section \<open>Pages of an array\<close>

text \<open>\<open>None\<close> is the \<open>CursorError\<close>. \<open>slice\<close> beyond the end gives no items.\<close>

definition paginate :: "'a list \<Rightarrow> string option \<Rightarrow> int option \<Rightarrow> ('a list \<times> string option \<times> nat) option" where
  "paginate items after requested =
     (let limit = clampLimit requested; totalRows = length items;
          start = (if after = None \<or> after = Some [] then Some 0
                   else (case js_Number (base64url_decode (the after)) of
                       Fin offset \<Rightarrow> if offset < 0 then None else Some offset
                     | _ \<Rightarrow> None))
      in (case start of
            None \<Rightarrow> None
          | Some startIndex \<Rightarrow>
              let data = take (nat limit) (drop (nat startIndex) items);
                  nextOffset = startIndex + int (length data);
                  next_cursor = (if int (length data) = limit \<and> nextOffset < int totalRows
                                 then Some (base64url_encode (show_int nextOffset)) else None)
              in Some (data, next_cursor, totalRows)))"

section \<open>Following the cursors\<close>

text \<open>The client's loop: all pages until the cursor is null. \<open>None\<close>: a page failed or \<open>fuel\<close> pages were not enough.\<close>

fun follow :: "('c option \<Rightarrow> ('a list \<times> 'c option) option) \<Rightarrow> nat \<Rightarrow> 'c option \<Rightarrow> 'a list option" where
  "follow fetch 0 cursor = None"
| "follow fetch (Suc fuel) cursor =
     (case fetch cursor of
        None \<Rightarrow> None
      | Some (page, None) \<Rightarrow> Some page
      | Some (page, Some c) \<Rightarrow> map_option (\<lambda>rest. page @ rest) (follow fetch fuel (Some c)))"

text \<open>A page that starts at item \<open>k\<close>: at most \<open>limit\<close> items, and a cursor only after a full page.\<close>

definition page_at :: "('c \<Rightarrow> nat \<Rightarrow> bool) \<Rightarrow> 'a list \<Rightarrow> nat \<Rightarrow> nat \<Rightarrow> ('a list \<times> 'c option) option \<Rightarrow> bool" where
  "page_at stands items limit k res \<longleftrightarrow>
     (\<exists>next. res = Some (take limit (drop k items), next) \<and>
        (case next of None \<Rightarrow> length items \<le> k + limit | Some c \<Rightarrow> stands c (k + limit) \<and> k + limit \<le> length items))"

locale cursor_paging =
  fixes fetch :: "'d \<Rightarrow> 'c option \<Rightarrow> ('a list \<times> 'c option) option"
    and items :: "'d \<Rightarrow> 'a list"
    and limit :: "'d \<Rightarrow> nat"
    and stands :: "'d \<Rightarrow> 'c \<Rightarrow> nat \<Rightarrow> bool"
    and good :: "'d \<Rightarrow> bool"
  assumes limit_pos: "0 < limit d"
    and first_page: "good d \<Longrightarrow> page_at (stands d) (items d) (limit d) 0 (fetch d None)"
    and next_page: "\<lbrakk>good d; stands d c k; k \<le> length (items d)\<rbrakk> \<Longrightarrow> page_at (stands d) (items d) (limit d) k (fetch d (Some c))"
begin

lemma follow_from:
  assumes "good d" "page_at (stands d) (items d) (limit d) k (fetch d cur)" "length (items d) < k + n * limit d + limit d" "k \<le> length (items d)"
  shows "follow (fetch d) (Suc n) cur = Some (drop k (items d))"
  using assms(2-4)
proof (induction n arbitrary: k cur)
  case 0
  then obtain next' where res: "fetch d cur = Some (take (limit d) (drop k (items d)), next')" by (auto simp: page_at_def)
  show ?case
  proof (cases next')
    case None
    then show ?thesis using res 0 by simp
  next
    case (Some c)
    then show ?thesis using 0 res by (auto simp: page_at_def)
  qed
next
  case (Suc n)
  then obtain next' where res: "fetch d cur = Some (take (limit d) (drop k (items d)), next')"
    and nx: "case next' of None \<Rightarrow> length (items d) \<le> k + limit d | Some c \<Rightarrow> stands d c (k + limit d) \<and> k + limit d \<le> length (items d)"
    by (auto simp: page_at_def)
  show ?case
  proof (cases next')
    case None
    then show ?thesis using res nx by simp
  next
    case (Some c)
    then have c: "stands d c (k + limit d)" "k + limit d \<le> length (items d)" using nx by simp_all
    have "follow (fetch d) (Suc n) (Some c) = Some (drop (k + limit d) (items d))"
      using Suc.IH [OF next_page [OF assms(1) c]] Suc.prems(2) c(2) by (simp add: algebra_simps)
    moreover have "take (limit d) (drop k (items d)) @ drop (k + limit d) (items d) = drop k (items d)"
      by (metis append_take_drop_id drop_drop add.commute)
    ultimately show ?thesis using res Some by (simp del: follow.simps add: follow.simps(2) [of _ "Suc n"])
  qed
qed

text \<open>As many pages as items, and one more, are enough; every item comes exactly once and in order.\<close>

lemma follow_all:
  assumes "good d" "length (items d) < fuel"
  shows "follow (fetch d) fuel None = Some (items d)"
proof -
  obtain n where n: "fuel = Suc n" using assms(2) by (cases fuel) auto
  have "n \<le> n * limit d" using limit_pos [of d] by simp
  then have "length (items d) < 0 + n * limit d + limit d" using assms(2) n limit_pos [of d] by linarith
  then show ?thesis using follow_from [OF assms(1) first_page [OF assms(1)]] n by simp
qed

end

section \<open>Cursors decode to what was encoded\<close>

lemma iso_plain: "list_all json_plain (js_toISOString t)"
proof -
  have digit: "json_plain c" if "is_digit c \<or> c = CHR ''-''" for c using that by (auto simp: json_plain_def is_digit_def)
  have int: "list_all json_plain (show_int i)" for i
    using show_int_chars digit unfolding list_all_iff by blast
  have pad: "list_all json_plain (pad_left n s)" if "list_all json_plain s" for n s
  proof -
    have "json_plain (CHR ''0'')" by (simp add: json_plain_def)
    then show ?thesis using that by (auto simp: pad_left_def list_all_iff)
  qed
  have lit: "list_all json_plain ''-''" "list_all json_plain ''T''" "list_all json_plain '':''" "list_all json_plain ''.''" "list_all json_plain ''Z''"
    by (simp_all add: json_plain_def)
  show ?thesis
    unfolding js_toISOString_def Let_def case_prod_unfold list_all_append by (intro conjI lit pad int)
qed

lemma parse_cursor_json:
  assumes "list_all json_plain isoText" "0 \<le> i"
  shows "JSON_parse (cursor_json isoText i) = Some (JObj [(''createdAt'', JStr isoText), (''id'', JNum (Fin i))])"
proof -
  obtain n where n: "i = int n" using assms(2) by (rule nonneg_int_cases)
  have shown: "show_int i = show_nat n" by (simp add: n show_int_def)
  let ?q = "CHR 0x22"
  have plain: "list_all json_plain ''createdAt''" "list_all json_plain ''id''" by (simp_all add: json_plain_def)
  have num: "json_value (show_nat n @ ''}'') = Some (JNum (Fin i), ''}'')"
  proof -
    obtain c r where cr: "show_nat n @ ''}'' = c # r" by (cases "show_nat n @ ''}''") auto
    have "is_digit c" using hd_show_nat_digit [of n] cr by (cases "show_nat n") auto
    then have "c \<noteq> ?q" "c \<noteq> CHR ''[''" "c \<noteq> CHR ''{''" "c \<noteq> CHR ''t''" "c \<noteq> CHR ''f''" "c \<noteq> CHR ''n''"
      by (auto simp: is_digit_def)
    then have "json_value (show_nat n @ ''}'') = map_option (\<lambda>(x, r). (JNum x, r)) (json_number (show_nat n @ ''}''))"
      unfolding cr by (subst json_value.simps) simp
    then show ?thesis using json_number_show_nat [of "''}''" n] by (simp add: n is_digit_def lower_char_def)
  qed
  have ws_num: "json_ws (show_nat n @ ''}'') = show_nat n @ ''}''"
    using digit_not_space [OF hd_show_nat_digit [of n]] hd_show_nat_digit [of n] by (intro json_ws_id) (auto simp: is_digit_def)
  have second: "json_members (?q # ''id'' @ ?q # CHR '':'' # show_nat n @ ''}'') = Some ([(''id'', JNum (Fin i))], [])"
    by (subst json_members.simps) (simp add: json_chars_plain [OF plain(2)] json_ws_id [of "CHR '':'' # _"] ws_num num json_ws_id [of "''}''"])
  have first: "json_members (?q # ''createdAt'' @ ?q # CHR '':'' # ?q # isoText @ ?q # CHR '','' # ?q # ''id'' @ ?q # CHR '':'' # show_nat n @ ''}'')
      = Some ([(''createdAt'', JStr isoText), (''id'', JNum (Fin i))], [])"
    using second
    by (subst json_members.simps)
      (simp add: json_chars_plain [OF plain(1)] json_chars_plain [OF assms(1)] json_ws_id [of "CHR '':'' # _"] json_ws_id [of "CHR '','' # _"]
        json_ws_id [of "CHR 0x22 # _"] json_value.simps [of "CHR 0x22 # _"])
  show ?thesis
    unfolding JSON_parse_def cursor_json_def Let_def shown
    using first by (simp add: json_ws_id [of "CHR ''{'' # _"] json_ws_id [of "CHR 0x22 # _"] json_value.simps [of "CHR ''{'' # _"] json_ws_id [of "[]"])
qed

text \<open>A cursor that was issued is accepted and means the row it was issued for.\<close>

definition env_ok :: "cursor_env \<Rightarrow> bool" where
  "env_ok env \<longleftrightarrow> (\<forall>s t. ce_hmac env s t \<noteq> [])"

lemma sign_no_dot: "CHR ''.'' \<notin> set (sign env t)"
  by (simp add: sign_def base64url_no_dot)

lemma split_last_append: "c \<notin> set t \<Longrightarrow> split_last c (s @ c # t) = Some (s, t)"
  using split_first_append [of c "rev t" "rev s"] by (simp add: split_last_def)

lemma check_encoded:
  assumes "env_ok env"
  shows "check_signature env (encodeCursor env t i) = Some (base64url_encode (cursor_json (js_toISOString t) i))"
proof (cases "secret_on env")
  case True
  then have "sign env x \<noteq> []" for x using assms by (simp add: sign_def env_ok_def base64url_nonempty)
  then show ?thesis using True split_last_append [OF sign_no_dot] by (simp add: check_signature_def encodeCursor_def Let_def)
next
  case False
  then show ?thesis by (simp add: check_signature_def encodeCursor_def sign_def Let_def)
qed

lemma decode_encode:
  assumes "env_ok env" "0 \<le> i" "ce_dateParse env (js_toISOString t) \<noteq> None"
  shows "decodeCursor env (encodeCursor env t i) = Some \<lparr>cp_createdAt = js_toISOString t, cp_id = i\<rparr>"
  using assms by (simp add: decodeCursor_def check_encoded base64url_roundtrip parse_cursor_json [OF iso_plain] json_field_def)

lemma encode_nonempty: "encodeCursor env t i \<noteq> []"
  using base64url_nonempty [of "cursor_json (js_toISOString t) i"] by (simp add: encodeCursor_def cursor_json_def Let_def)

lemma keyset_of_encoded:
  assumes "env_ok env" "0 \<le> i" "ce_dateParse env (js_toISOString t) = Some t"
  shows "buildKeysetWhere env (Some (encodeCursor env t i)) = Inr (Some (t, i))"
  using assms by (simp add: buildKeysetWhere_def encode_nonempty decode_encode)

section \<open>The two kinds of pages\<close>

lemma clampLimit_range: "1 \<le> clampLimit r \<and> clampLimit r \<le> 100"
  by (auto simp: clampLimit_def MAX_PAGE_LIMIT_def)

definition array_page :: "'a list \<times> int option \<Rightarrow> string option \<Rightarrow> ('a list \<times> string option) option" where
  "array_page d cursor = map_option (\<lambda>(data, next_cursor, _). (data, next_cursor)) (paginate (fst d) cursor (snd d))"

lemma array_page_at:
  assumes "start = 0 \<and> cursor = None \<or> cursor = Some (base64url_encode (show_int (int start)))" "start \<le> length items"
  shows "page_at (\<lambda>c k. c = base64url_encode (show_int (int k))) items (nat (clampLimit requested)) start (array_page (items, requested) cursor)"
proof -
  have "0 \<le> clampLimit requested" using clampLimit_range [of requested] by linarith
  then obtain l where l: "clampLimit requested = int l" by (rule nonneg_int_cases)
  then have pos: "0 < l" using clampLimit_range [of requested] by linarith
  let ?data = "take l (drop start items)"
  have page: "array_page (items, requested) cursor = Some (?data, if length ?data = l \<and> start + length ?data < length items
      then Some (base64url_encode (show_int (int (start + length ?data)))) else None)"
  proof -
    have "(if cursor = None \<or> cursor = Some [] then Some 0
        else (case js_Number (base64url_decode (the cursor)) of Fin offset \<Rightarrow> if offset < 0 then None else Some offset | _ \<Rightarrow> None))
      = Some (int start)" (is "?s = _")
      using assms(1)
    proof
      assume "cursor = Some (base64url_encode (show_int (int start)))"
      then show ?thesis using base64url_nonempty [OF show_int_nonempty, of "int start"] by (simp add: base64url_roundtrip)
    qed simp
    then show ?thesis unfolding array_page_def paginate_def Let_def fst_conv snd_conv
      by (simp only: option.case option.map prod.case nat_int l of_nat_add [symmetric] of_nat_less_iff of_nat_eq_iff)
  qed
  show ?thesis unfolding page page_at_def l nat_int using pos assms(2) by auto
qed

interpretation offset: cursor_paging array_page fst "\<lambda>d. nat (clampLimit (snd d))" "\<lambda>d c k. c = base64url_encode (show_int (int k))" "\<lambda>d. True"
proof
  fix d :: "'a list \<times> int option" and c k
  show "0 < nat (clampLimit (snd d))" using clampLimit_range [of "snd d"] by simp
  show "page_at (\<lambda>c k. c = base64url_encode (show_int (int k))) (fst d) (nat (clampLimit (snd d))) 0 (array_page d None)"
    using array_page_at [of 0 None "fst d" "snd d"] by simp
  show "page_at (\<lambda>c k. c = base64url_encode (show_int (int k))) (fst d) (nat (clampLimit (snd d))) k (array_page d (Some c))"
    if "c = base64url_encode (show_int (int k))" "k \<le> length (fst d)"
    using array_page_at [of k "Some c" "fst d" "snd d"] that by simp
qed

text \<open>Rows in the order of the keyset: the rows beyond row \<open>k\<close> are those after it.\<close>

lemma keyset_drop:
  fixes f :: "'a \<Rightarrow> 'k :: linorder"
  assumes "sorted_wrt (\<lambda>a b. f a < f b) xs" "k < length xs"
  shows "filter (\<lambda>p. f (xs ! k) < f p) xs = drop (Suc k) xs"
  using assms
proof (induction xs arbitrary: k)
  case (Cons x xs)
  have after: "\<forall>y \<in> set xs. f x < f y" using Cons.prems(1) by simp
  show ?case
  proof (cases k)
    case 0
    then show ?thesis using after by (simp add: filter_id_conv)
  next
    case (Suc j)
    then have "f x < f (xs ! j)" using after Cons.prems(2) by simp
    then have "\<not> f (xs ! j) < f x" by (rule less_not_sym)
    then show ?thesis using Suc Cons.IH [of j] Cons.prems by auto
  qed
qed simp

lemma sort_key_strict:
  fixes f :: "'a \<Rightarrow> 'k :: linorder"
  assumes "inj_on f (set xs)" "distinct xs"
  shows "sorted_wrt (\<lambda>a b. f a < f b) (sort_key f xs)"
proof -
  have "sorted (map f (sort_key f xs))" "distinct (map f (sort_key f xs))"
    using assms by (simp_all add: distinct_map)
  then have "sorted_wrt (<) (map f (sort_key f xs))" by (simp add: strict_sorted_iff)
  then show ?thesis by (simp add: sorted_wrt_map)
qed

end
