(* ===== verification/Posts.thy ===== *)
theory Posts
  imports Pagination
begin

text \<open>
  Announcement posts: \<open>src/backend/src/posts/posts.service.ts\<close> and \<open>post-publish-scheduler.service.ts\<close>.

  The table is a list of rows, the bus the list of published events. How conditions are spread into one
  another decides how the cursor and the schedule are combined. The HTML sanitiser is an argument, as
  are the clock and the id the database gives.
\<close>

section \<open>Data\<close>

record post =
  po_id :: int
  po_title :: string
  po_body :: string
  po_status :: string
  po_authorAddress :: string
  po_publishAt :: "int option"
  po_createdAt :: int
  po_updatedAt :: int
  po_deletedAt :: "int option"

record published_event =
  pe_postId :: int
  pe_title :: string
  pe_authorAddress :: string
  pe_publishedAt :: int

record posts_state =
  pt_posts :: "post list"
  pt_bus :: "published_event list"

type_synonym post_where = "post where_obj"

text \<open>\<open>orderBy: [{ createdAt: 'desc' }, { id: 'desc' }]\<close>.\<close>

definition newest_first :: "post list \<Rightarrow> post list" where
  "newest_first = sort_key (\<lambda>p. (- po_createdAt p, - po_id p))"

section \<open>Listing\<close>

record post_params =
  pp_limit :: "int option"
  pp_status :: "string option"
  pp_authorAddress :: "string option"
  pp_includeScheduled :: bool

definition upper_char :: "char \<Rightarrow> char" where
  "upper_char c = (let n = of_char c :: nat in if 97 \<le> n \<and> n \<le> 122 then char_of (n - 32) else c)"

definition toPrismaStatus :: "string \<Rightarrow> string" where
  "toPrismaStatus status = map upper_char status"

definition isScheduledForFuture :: "int \<Rightarrow> post \<Rightarrow> bool" where
  "isScheduledForFuture now p = (case po_publishAt p of None \<Rightarrow> False | Some t \<Rightarrow> t > now)"

definition truthy_text :: "string option \<Rightarrow> bool" where
  "truthy_text s = (case s of None \<Rightarrow> False | Some x \<Rightarrow> x \<noteq> [])"

definition scheduledWhere :: "int \<Rightarrow> post_params \<Rightarrow> post_where" where
  "scheduledWhere now params =
     (if pp_includeScheduled params then []
      else [(''OR'', \<lambda>p. po_publishAt p = None \<or> (case po_publishAt p of None \<Rightarrow> False | Some t \<Rightarrow> t \<le> now))])"

definition filter_where :: "post_params \<Rightarrow> post_where" where
  "filter_where params =
     spread (spread [(''deletedAt'', \<lambda>p. po_deletedAt p = None)]
       (if truthy_text (pp_status params) then [(''status'', \<lambda>p. po_status p = toPrismaStatus (the (pp_status params)))] else []))
       (if truthy_text (pp_authorAddress params) then [(''authorAddress'', \<lambda>p. po_authorAddress p = the (pp_authorAddress params))] else [])"

definition keysetWhere :: "(int \<times> int) option \<Rightarrow> post_where" where
  "keysetWhere k =
     (case k of None \<Rightarrow> [] | Some kv \<Rightarrow> [(''OR'', \<lambda>p. keyset_holds kv (po_createdAt p) (po_id p))])"

text \<open>The page, its next cursor and the total; \<open>None\<close> is a refused cursor.\<close>

definition listPosts ::
  "cursor_env \<Rightarrow> int \<Rightarrow> post_params \<Rightarrow> string option \<Rightarrow> post list \<Rightarrow> (post list \<times> string option \<times> nat) option" where
  "listPosts env now params after db =
     (let limit = clampLimit (pp_limit params) in
      (case buildKeysetWhere env after of
         Inl _ \<Rightarrow> None
       | Inr k \<Rightarrow>
           let w = spread (spread (keysetWhere k) (filter_where params)) (scheduledWhere now params);
               totalRows = length (filter (matches_where (spread (filter_where params) (scheduledWhere now params))) db);
               rows = take (nat limit) (newest_first (filter (matches_where w) db))
           in Some (rows, buildNextCursor env po_createdAt po_id rows limit (int totalRows), totalRows)))"

section \<open>Reading and writing\<close>

datatype post_error = Post_Not_Found

definition find_post :: "int \<Rightarrow> post list \<Rightarrow> post option" where
  "find_post i db = List.find (\<lambda>p. po_id p = i \<and> po_deletedAt p = None) db"

definition getPost :: "int \<Rightarrow> int \<Rightarrow> bool \<Rightarrow> post list \<Rightarrow> post_error + post" where
  "getPost now i includeScheduled db =
     (case find_post i db of
        None \<Rightarrow> Inl Post_Not_Found
      | Some p \<Rightarrow> if \<not> includeScheduled \<and> isScheduledForFuture now p then Inl Post_Not_Found else Inr p)"

definition emitPublished :: "int \<Rightarrow> post \<Rightarrow> posts_state \<Rightarrow> posts_state" where
  "emitPublished now p st = st\<lparr>pt_bus := pt_bus st @
     [\<lparr>pe_postId = po_id p, pe_title = po_title p, pe_authorAddress = po_authorAddress p, pe_publishedAt = now\<rparr>]\<rparr>"

record create_post_dto =
  cd_title :: string
  cd_body :: string
  cd_status :: "string option"
  cd_authorAddress :: string
  cd_publishAt :: "int option"

definition createPost :: "(string \<Rightarrow> string) \<Rightarrow> int \<Rightarrow> int \<Rightarrow> create_post_dto \<Rightarrow> posts_state \<Rightarrow> post \<times> posts_state" where
  "createPost sanitizePostBody now newId dto st =
     (let p = \<lparr>po_id = newId, po_title = cd_title dto, po_body = sanitizePostBody (cd_body dto),
               po_status = (if truthy_text (cd_status dto) then toPrismaStatus (the (cd_status dto)) else ''DRAFT''),
               po_authorAddress = cd_authorAddress dto, po_publishAt = cd_publishAt dto, po_createdAt = now,
               po_updatedAt = now, po_deletedAt = None\<rparr>;
          st1 = st\<lparr>pt_posts := pt_posts st @ [p]\<rparr>
      in (p, if po_status p = ''PUBLISHED'' \<and> \<not> isScheduledForFuture now p then emitPublished now p st1 else st1))"

record update_post_dto =
  ud_title :: "string option"
  ud_body :: "string option"
  ud_status :: "string option"
  ud_publishAt :: "int option option"    \<comment> \<open>\<open>Some None\<close> is an explicit null\<close>

definition apply_post_update :: "(string \<Rightarrow> string) \<Rightarrow> int \<Rightarrow> update_post_dto \<Rightarrow> post \<Rightarrow> post" where
  "apply_post_update sanitizePostBody now dto p =
     p\<lparr>po_title := (case ud_title dto of Some t \<Rightarrow> t | None \<Rightarrow> po_title p),
       po_body := (case ud_body dto of Some b \<Rightarrow> sanitizePostBody b | None \<Rightarrow> po_body p),
       po_status := (case ud_status dto of Some s \<Rightarrow> toPrismaStatus s | None \<Rightarrow> po_status p),
       po_publishAt := (case ud_publishAt dto of Some t \<Rightarrow> t | None \<Rightarrow> po_publishAt p),
       po_updatedAt := now\<rparr>"

definition set_post :: "int \<Rightarrow> (post \<Rightarrow> post) \<Rightarrow> post list \<Rightarrow> post list" where
  "set_post i f db = map (\<lambda>p. if po_id p = i then f p else p) db"

definition updatePost :: "(string \<Rightarrow> string) \<Rightarrow> int \<Rightarrow> int \<Rightarrow> update_post_dto \<Rightarrow> posts_state \<Rightarrow> (post_error + post) \<times> posts_state" where
  "updatePost sanitizePostBody now i dto st =
     (case find_post i (pt_posts st) of
        None \<Rightarrow> (Inl Post_Not_Found, st)
      | Some existing \<Rightarrow>
          let p = apply_post_update sanitizePostBody now dto existing;
              st1 = st\<lparr>pt_posts := set_post i (apply_post_update sanitizePostBody now dto) (pt_posts st)\<rparr>
          in (Inr p, if po_status existing \<noteq> ''PUBLISHED'' \<and> po_status p = ''PUBLISHED'' \<and> \<not> isScheduledForFuture now p
                     then emitPublished now p st1 else st1))"

definition deletePost :: "int \<Rightarrow> int \<Rightarrow> posts_state \<Rightarrow> (post_error + unit) \<times> posts_state" where
  "deletePost now i st =
     (case find_post i (pt_posts st) of
        None \<Rightarrow> (Inl Post_Not_Found, st)
      | Some _ \<Rightarrow> (Inr (), st\<lparr>pt_posts := set_post i (\<lambda>p. p\<lparr>po_deletedAt := Some now\<rparr>) (pt_posts st)\<rparr>))"

definition is_due :: "int \<Rightarrow> post \<Rightarrow> bool" where
  "is_due now p = (po_status p = ''DRAFT'' \<and> po_deletedAt p = None \<and>
     (case po_publishAt p of None \<Rightarrow> False | Some t \<Rightarrow> t \<le> now))"

definition publishDuePosts :: "int \<Rightarrow> posts_state \<Rightarrow> posts_state" where
  "publishDuePosts now st =
     (let due = filter (is_due now) (pt_posts st) in
      if length due = 0 then st
      else let st1 = st\<lparr>pt_posts := map (\<lambda>p. if po_id p \<in> po_id ` set due \<and> po_status p = ''DRAFT''
                                           then p\<lparr>po_status := ''PUBLISHED'', po_updatedAt := now\<rparr> else p) (pt_posts st)\<rparr>
           in foldl (\<lambda>st p. emitPublished now p st) st1 due)"

section \<open>Conditions\<close>

lemma filter_where_keys: "fst ` set (filter_where params) \<subseteq> {''deletedAt'', ''status'', ''authorAddress''}"
  by (auto simp: filter_where_def spread_def)

lemma no_OR: "fst ` set a \<subseteq> {''OR''} \<Longrightarrow> fst ` set a \<inter> fst ` set (filter_where params) = {}"
  using filter_where_keys [of params] by fastforce

lemma keyset_key: "fst ` set (keysetWhere k) \<subseteq> {''OR''}"
  by (cases k) (simp_all add: keysetWhere_def)

lemma scheduled_key: "fst ` set (scheduledWhere now params) \<subseteq> {''OR''}"
  by (simp add: scheduledWhere_def)

text \<open>With scheduled posts included, the keyset condition is added to the filter.\<close>

lemma where_all:
  assumes "pp_includeScheduled params"
  shows "matches_where (spread (spread (keysetWhere (Some k)) (filter_where params)) (scheduledWhere now params)) p \<longleftrightarrow>
    keyset_holds k (po_createdAt p) (po_id p) \<and> matches_where (filter_where params) p"
  using assms unfolding spread_disjoint [OF no_OR [OF keyset_key]]
  by (simp add: scheduledWhere_def matches_append) (simp add: keysetWhere_def matches_where_def)

text \<open>Without them, the condition on the schedule replaces the keyset condition: both are called \<open>OR\<close>.\<close>

lemma where_public:
  assumes "\<not> pp_includeScheduled params"
  shows "spread (spread (keysetWhere k) (filter_where params)) (scheduledWhere now params) =
    spread (filter_where params) (scheduledWhere now params)"
proof -
  have OR: "scheduledWhere now params = [(''OR'', \<lambda>p. po_publishAt p = None \<or> (case po_publishAt p of None \<Rightarrow> False | Some t \<Rightarrow> t \<le> now))]"
    using assms by (simp add: scheduledWhere_def)
  have "filter (\<lambda>(k, _). k \<notin> {''OR''}) (keysetWhere k) = []"
    by (cases k) (simp_all add: keysetWhere_def)
  then show ?thesis
    unfolding spread_disjoint [OF no_OR [OF keyset_key]] by (simp add: spread_def OR)
qed

section \<open>Pages of posts\<close>

type_synonym post_query = "cursor_env \<times> int \<times> post_params \<times> post list"

definition post_page :: "post_query \<Rightarrow> string option \<Rightarrow> (post list \<times> string option) option" where
  "post_page d cursor = (case d of (env, now, params, db) \<Rightarrow>
     map_option (\<lambda>(rows, next_cursor, _). (rows, next_cursor)) (listPosts env now params cursor db))"

definition post_items :: "post_query \<Rightarrow> post list" where
  "post_items d = (case d of (env, now, params, db) \<Rightarrow> newest_first (filter (matches_where (filter_where params)) db))"

definition post_stands :: "post_query \<Rightarrow> string \<Rightarrow> nat \<Rightarrow> bool" where
  "post_stands d c k \<longleftrightarrow> 0 < k \<and> k \<le> length (post_items d) \<and>
     c = encodeCursor (fst d) (po_createdAt (post_items d ! (k - 1))) (po_id (post_items d ! (k - 1)))"

definition post_limit :: "post_query \<Rightarrow> nat" where
  "post_limit d = nat (clampLimit (pp_limit (fst (snd (snd d)))))"

definition rows_ok :: "cursor_env \<Rightarrow> post list \<Rightarrow> bool" where
  "rows_ok env db \<longleftrightarrow> env_ok env \<and> distinct (map po_id db) \<and>
     list_all (\<lambda>p. 0 \<le> po_id p \<and> ce_dateParse env (js_toISOString (po_createdAt p)) = Some (po_createdAt p)) db"

definition post_good :: "post_query \<Rightarrow> bool" where
  "post_good d = (case d of (env, now, params, db) \<Rightarrow> rows_ok env db \<and> pp_includeScheduled params)"

lemma set_newest [simp]: "set (newest_first ps) = set ps" "length (newest_first ps) = length ps"
  by (simp_all add: newest_first_def)

lemma newest_strict:
  assumes "distinct (map po_id db)"
  shows "sorted_wrt (\<lambda>a b. (- po_createdAt a, - po_id a) < (- po_createdAt b, - po_id b)) (newest_first (filter P db))"
proof -
  have "inj_on po_id (set db)" "distinct db" using assms by (simp_all add: distinct_map)
  then have "inj_on (\<lambda>p. (- po_createdAt p, - po_id p)) (set (filter P db))" "distinct (filter P db)" by (auto simp: inj_on_def)
  then show ?thesis unfolding newest_first_def by (rule sort_key_strict)
qed

lemma beyond_row:
  assumes "distinct (map po_id db)" "k < length (newest_first (filter P db))"
  defines "q \<equiv> newest_first (filter P db) ! k"
  shows "newest_first (filter (\<lambda>p. keyset_holds (po_createdAt q, po_id q) (po_createdAt p) (po_id p) \<and> P p) db) =
    drop (Suc k) (newest_first (filter P db))"
proof -
  have less: "keyset_holds (po_createdAt q, po_id q) (po_createdAt p) (po_id p) \<longleftrightarrow>
      (- po_createdAt q, - po_id q) < (- po_createdAt p, - po_id p)" for p
    by (auto simp: keyset_holds_def)
  have "newest_first (filter (\<lambda>p. keyset_holds (po_createdAt q, po_id q) (po_createdAt p) (po_id p) \<and> P p) db) =
      filter (\<lambda>p. (- po_createdAt q, - po_id q) < (- po_createdAt p, - po_id p)) (newest_first (filter P db))"
    unfolding newest_first_def filter_sort less by (simp add: conj_commute)
  then show ?thesis using keyset_drop [OF newest_strict [OF assms(1)] assms(2)] unfolding q_def by simp
qed

text \<open>The next cursor of a page of the ordered rows.\<close>

lemma next_cursor_page:
  assumes "0 < limit" "items = post_items d" "k \<le> length items" "fst d = env"
  shows "case buildNextCursor env po_createdAt po_id (take limit (drop k items)) (int limit) (int (length items)) of
      None \<Rightarrow> length items \<le> k + limit
    | Some c \<Rightarrow> post_stands d c (k + limit) \<and> k + limit \<le> length items"
proof (cases "k + limit \<le> length items \<and> limit < length items")
  case True
  then have len: "length (take limit (drop k items)) = limit" by auto
  have "take limit (drop k items) ! (limit - 1) = items ! (k + limit - 1)" using True assms(1) by simp
  then show ?thesis using True assms len by (simp add: buildNextCursor_def Let_def post_stands_def)
next
  case False
  then have "length (take limit (drop k items)) < limit \<or> length items \<le> limit" using assms(3) by auto
  then have "buildNextCursor env po_createdAt po_id (take limit (drop k items)) (int limit) (int (length items)) = None"
    by (auto simp: buildNextCursor_def)
  then show ?thesis using False by auto
qed

lemma post_page_at:
  assumes good: "post_good d" and k: "k \<le> length (post_items d)"
    and cursor: "k = 0 \<and> cursor = None \<or> (\<exists>c. cursor = Some c \<and> post_stands d c k)"
  shows "page_at (post_stands d) (post_items d) (post_limit d) k (post_page d cursor)"
proof -
  obtain env now params db where d: "d = (env, now, params, db)" by (cases d)
  have ok: "env_ok env" "distinct (map po_id db)" "pp_includeScheduled params"
    "\<And>p. p \<in> set db \<Longrightarrow> 0 \<le> po_id p \<and> ce_dateParse env (js_toISOString (po_createdAt p)) = Some (po_createdAt p)"
    using good by (auto simp: post_good_def rows_ok_def d list_all_iff)
  let ?P = "matches_where (filter_where params)"
  have items: "post_items d = newest_first (filter ?P db)" by (simp add: post_items_def d)
  have limit: "clampLimit (pp_limit params) = int (post_limit d)" "0 < post_limit d"
    using clampLimit_range [of "pp_limit params"] by (simp_all add: post_limit_def d)
  obtain w where w: "buildKeysetWhere env cursor = Inr w"
      "newest_first (filter (matches_where (spread (spread (keysetWhere w) (filter_where params)) (scheduledWhere now params))) db) =
         drop k (post_items d)"
  proof (cases cursor)
    case None
    then show ?thesis
      using cursor ok(3) items that [of None] by (simp add: buildKeysetWhere_def keysetWhere_def scheduledWhere_def)
  next
    case (Some c)
    then have st: "0 < k" "c = encodeCursor env (po_createdAt (post_items d ! (k - 1))) (po_id (post_items d ! (k - 1)))"
      using cursor by (auto simp: post_stands_def d)
    let ?q = "post_items d ! (k - 1)"
    have idx: "k - 1 < length (newest_first (filter ?P db))" using k st(1) items by simp
    have "?q \<in> set db" using nth_mem [OF idx] by (simp add: items)
    then have "buildKeysetWhere env cursor = Inr (Some (po_createdAt ?q, po_id ?q))"
      using keyset_of_encoded [OF ok(1)] ok(4) Some st(2) by simp
    then show ?thesis
      using that [of "Some (po_createdAt ?q, po_id ?q)"] beyond_row [OF ok(2) idx] st(1)
      unfolding where_all [OF ok(3)] items by simp
  qed
  have "post_page d cursor = Some (take (post_limit d) (drop k (post_items d)),
      buildNextCursor env po_createdAt po_id (take (post_limit d) (drop k (post_items d))) (int (post_limit d)) (int (length (post_items d))))"
    using w ok(3) unfolding post_page_def listPosts_def d prod.case
    by (simp only: Let_def sum.case option.map prod.case limit(1) [unfolded d] nat_int)
      (simp add: scheduledWhere_def items [unfolded d] newest_first_def)
  then show ?thesis
    unfolding page_at_def using next_cursor_page [OF limit(2) refl k, of env] d by simp
qed

interpretation keyset: cursor_paging post_page post_items post_limit post_stands post_good
proof
  fix d :: post_query and c k
  show "0 < post_limit d" using clampLimit_range [of "pp_limit (fst (snd (snd d)))"] by (simp add: post_limit_def)
  show "page_at (post_stands d) (post_items d) (post_limit d) 0 (post_page d None)" if "post_good d"
    using post_page_at [OF that] by simp
  show "page_at (post_stands d) (post_items d) (post_limit d) k (post_page d (Some c))"
    if "post_good d" "post_stands d c k" "k \<le> length (post_items d)"
    using post_page_at [OF that(1,3)] that(2) by blast
qed

section \<open>Public pages\<close>

lemma listPosts_public:
  assumes "\<not> pp_includeScheduled params" "buildKeysetWhere env cursor = Inr w"
  shows "listPosts env now params cursor db = listPosts env now params None db"
  using assms where_public [OF assms(1), of w now] where_public [OF assms(1), of None now]
  by (simp add: listPosts_def buildKeysetWhere_def [of env None] Let_def)

lemma follow_stuck:
  assumes "fetch None = Some (page, Some c)" "fetch (Some c) = Some (page, Some c)"
  shows "follow fetch n None = None \<and> follow fetch n (Some c) = None"
  using assms by (induction n) auto

section \<open>Properties\<close>

text \<open>C25. Following the cursors of a list visits everything once. For an array and any limit, the client that
  asks for pages until the cursor is null gets the array. For posts listed with the scheduled ones
  included, it gets the posts that match the filter, newest first, each exactly once, whatever the
  limit, with signed and with plain cursors; as many pages as rows, and one more, are always enough.\<close>

theorem cursor_pages_complete:
  assumes "rows_ok env db" "pp_includeScheduled params"
  shows "follow (array_page (xs, requested)) (Suc (length xs)) None = Some xs
    \<and> follow (post_page (env, now, params, db)) (Suc (length db)) None =
      Some (newest_first (filter (matches_where (filter_where params)) db))"
proof
  show "follow (array_page (xs, requested)) (Suc (length xs)) None = Some xs"
    using offset.follow_all [of "(xs, requested)" "Suc (length xs)"] by simp
  have "length (post_items (env, now, params, db)) < Suc (length db)"
    by (simp add: post_items_def le_imp_less_Suc)
  then show "follow (post_page (env, now, params, db)) (Suc (length db)) None =
      Some (newest_first (filter (matches_where (filter_where params)) db))"
    using keyset.follow_all [of "(env, now, params, db)"] assms by (simp add: post_good_def post_items_def del: follow.simps)
qed

text \<open>Two posts, pages of one.\<close>

abbreviation (input) "wit_post i t \<equiv> \<lparr>po_id = i, po_title = ''t'', po_body = [], po_status = ''PUBLISHED'', po_authorAddress = ''GA'',
  po_publishAt = None, po_createdAt = t, po_updatedAt = t, po_deletedAt = None\<rparr>"

abbreviation (input) "wit_env \<equiv> \<lparr>ce_secret = Some ''k'', ce_hmac = (\<lambda>s t. ''tag''),
  ce_dateParse = (\<lambda>s. if s = js_toISOString 0 then Some 0 else None)\<rparr>"

abbreviation (input) "wit_params b \<equiv> \<lparr>pp_limit = Some 1, pp_status = None, pp_authorAddress = None, pp_includeScheduled = b\<rparr>"

lemma wit_rows_ok: "rows_ok wit_env [wit_post 1 0, wit_post 2 0]"
  by (simp add: rows_ok_def env_ok_def)

lemma wit_filter: "matches_where (filter_where (wit_params b)) (wit_post i t)"
  by (simp add: filter_where_def truthy_text_def matches_where_def)

theorem cursor_pages_complete_witness:
  "follow (post_page (wit_env, 0, wit_params True, [wit_post 1 0, wit_post 2 0])) 3 None = Some [wit_post 2 0, wit_post 1 0]"
  using cursor_pages_complete [OF wit_rows_ok, of "wit_params True" "[] :: nat list" None 0]
  by (simp add: wit_filter newest_first_def numeral_3_eq_3)

text \<open>The public list never ends. For a caller without a session the condition on the publication date
  replaces the cursor's condition, so every accepted cursor gives the first page again; with more
  matching posts than the limit, the client that follows the cursors is never done, however many pages
  it asks for.\<close>

theorem public_list_never_ends:
  assumes "rows_ok env db" "\<not> pp_includeScheduled params"
    and "clampLimit (pp_limit params) <
      int (length (filter (matches_where (spread (filter_where params) (scheduledWhere now params))) db))"
  shows "(\<forall>c. buildKeysetWhere env (Some c) \<noteq> Inl () \<longrightarrow> listPosts env now params (Some c) db = listPosts env now params None db)
    \<and> (\<forall>pages. follow (post_page (env, now, params, db)) pages None = None)"
proof -
  have same: "listPosts env now params (Some c) db = listPosts env now params None db" if "buildKeysetWhere env (Some c) \<noteq> Inl ()" for c
    using that listPosts_public [OF assms(2)] by (cases "buildKeysetWhere env (Some c)") auto
  let ?P = "matches_where (spread (filter_where params) (scheduledWhere now params))"
  define limit where "limit = nat (clampLimit (pp_limit params))"
  have limit: "clampLimit (pp_limit params) = int limit" "0 < limit" "limit < length (filter ?P db)"
    using clampLimit_range [of "pp_limit params"] assms(3) by (auto simp: limit_def)
  define rows where "rows = take limit (newest_first (filter ?P db))"
  have len: "length rows = limit" using limit(3) by (simp add: rows_def)
  define l where "l = rows ! (limit - 1)"
  have "l \<in> set rows" using len limit(2) by (simp add: l_def)
  then have l: "l \<in> set db" unfolding rows_def by (auto dest!: in_set_takeD)
  have first: "post_page (env, now, params, db) None = Some (rows, Some (encodeCursor env (po_createdAt l) (po_id l)))"
    unfolding post_page_def prod.case listPosts_def buildKeysetWhere_def Let_def where_public [OF assms(2)] limit(1)
    using len limit(2,3) by (simp add: rows_def [symmetric] buildNextCursor_def Let_def l_def)
  have "buildKeysetWhere env (Some (encodeCursor env (po_createdAt l) (po_id l))) \<noteq> Inl ()"
    using keyset_of_encoded assms(1) l by (simp add: rows_ok_def list_all_iff)
  then have "post_page (env, now, params, db) (Some (encodeCursor env (po_createdAt l) (po_id l))) = post_page (env, now, params, db) None"
    using same by (simp add: post_page_def)
  then show ?thesis
    using same follow_stuck [of "post_page (env, now, params, db)" rows "encodeCursor env (po_createdAt l) (po_id l)"] first by simp
qed

theorem public_list_never_ends_witness:
  "follow (post_page (wit_env, 0, wit_params False, [wit_post 1 0, wit_post 2 0])) 1000 None = None"
proof -
  have "matches_where (spread (filter_where (wit_params False)) (scheduledWhere 0 (wit_params False))) (wit_post i t)" for i t
    by (simp add: filter_where_def truthy_text_def matches_where_def scheduledWhere_def spread_def)
  then show ?thesis
    using public_list_never_ends [OF wit_rows_ok, of "wit_params False" 0] by (simp add: clampLimit_def MAX_PAGE_LIMIT_def)
qed

text \<open>Cursors are read back and cannot be made up: the cursor issued for a row decodes to that row's
  creation time and id, and with a secret configured every cursor that is accepted ends in the
  signature of what precedes it.\<close>

theorem cursor_roundtrip:
  assumes "env_ok env" "0 \<le> i" "ce_dateParse env (js_toISOString t) = Some t"
  shows "decodeCursor env (encodeCursor env t i) = Some \<lparr>cp_createdAt = js_toISOString t, cp_id = i\<rparr>
    \<and> buildKeysetWhere env (Some (encodeCursor env t i)) = Inr (Some (t, i))
    \<and> (secret_on env \<and> decodeCursor env cursor \<noteq> None \<longrightarrow>
        (\<exists>encoded. cursor = encoded @ ''.'' @ base64url_encode (ce_hmac env (the (ce_secret env)) encoded)))"
proof (intro conjI impI)
  assume "secret_on env \<and> decodeCursor env cursor \<noteq> None"
  then have on: "secret_on env" and "check_signature env cursor \<noteq> None" by (auto simp: decodeCursor_def split: option.splits)
  then obtain encoded tag where parts: "split_last (CHR ''.'') cursor = Some (encoded, tag)" "tag = sign env encoded"
    by (auto simp: check_signature_def split: option.splits if_splits)
  have first: "split_first c s = Some (a, b) \<Longrightarrow> s = a @ c # b" for c s a b
    by (induction s arbitrary: a) (auto split: if_splits)
  obtain a b where "split_first (CHR ''.'') (rev cursor) = Some (a, b)" "encoded = rev b" "tag = rev a"
    using parts(1) by (auto simp: split_last_def)
  then have "rev cursor = a @ CHR ''.'' # b" using first by blast
  then have "cursor = encoded @ ''.'' @ tag"
    using \<open>encoded = rev b\<close> \<open>tag = rev a\<close> by (simp add: rev_eq_append_conv)
  then show "\<exists>encoded. cursor = encoded @ ''.'' @ base64url_encode (ce_hmac env (the (ce_secret env)) encoded)"
    using on parts(2) by (auto simp: sign_def)
qed (use assms in \<open>simp_all add: decode_encode keyset_of_encoded\<close>)

theorem cursor_roundtrip_witness:
  "decodeCursor wit_env (encodeCursor wit_env 0 7) = Some \<lparr>cp_createdAt = js_toISOString 0, cp_id = 7\<rparr>"
  using cursor_roundtrip [of wit_env 7 0 "[]"] by (simp add: env_ok_def)

text \<open>A post created as published for a future date is never announced: not when it is created, and not by
  the scheduler, which looks at drafts.\<close>

lemma scheduled_published_silent:
  assumes "po_status p = ''PUBLISHED''" "isScheduledForFuture now p" "pt_posts st = [p]" "pt_bus st = []"
  shows "pt_bus (publishDuePosts later st) = []"
  using assms by (simp add: publishDuePosts_def is_due_def)

lemma emit_fold: "foldl (\<lambda>st p. emitPublished now p st) st ps =
    st\<lparr>pt_bus := pt_bus st @ map (\<lambda>p. \<lparr>pe_postId = po_id p, pe_title = po_title p, pe_authorAddress = po_authorAddress p, pe_publishedAt = now\<rparr>) ps\<rparr>"
  by (induction ps arbitrary: st) (simp_all add: emitPublished_def)

text \<open>Each due draft is published and announced once: a second run has nothing to do.\<close>

lemma publishDuePosts_once:
  "publishDuePosts now (publishDuePosts now st) = publishDuePosts now st"
proof (cases "filter (is_due now) (pt_posts st) = []")
  case True
  then show ?thesis by (simp add: publishDuePosts_def)
next
  case False
  let ?f = "\<lambda>p. if po_id p \<in> po_id ` set (filter (is_due now) (pt_posts st)) \<and> po_status p = ''DRAFT''
      then p\<lparr>po_status := ''PUBLISHED'', po_updatedAt := now\<rparr> else p"
  have "\<not> is_due now (?f p)" if "p \<in> set (pt_posts st)" for p
    using that by (auto simp: is_due_def)
  then have "filter (is_due now) (map ?f (pt_posts st)) = []"
    unfolding filter_empty_conv set_map by blast
  moreover have "pt_posts (publishDuePosts now st) = map ?f (pt_posts st)"
    using False by (simp add: publishDuePosts_def emit_fold Let_def)
  ultimately have "filter (is_due now) (pt_posts (publishDuePosts now st)) = []" by simp
  then show ?thesis by (simp add: publishDuePosts_def [of now "publishDuePosts now st"])
qed

end
