(* ===== verification/Keepers.thy ===== *)
theory Keepers
  imports Json Claims_Db "HOL-Library.Multiset"
begin

text \<open>
  The scheduled jobs that keep database and chain in step: the policy expiry keeper
  (\<open>src/backend/src/jobs/policy-expiry-keeper.service.ts\<close>), the reconciliation of \<open>isActive\<close>
  (\<open>jobs/policy-isactive-reconciliation.service.ts\<close>), the appeal keeper
  (\<open>jobs/appeal-finalize-keeper.service.ts\<close>), and the weekly cleanup with its archive of resolved claims
  (\<open>maintenance/scheduled-cleanup.service.ts\<close>).

  What the RPC service answers is an argument of each run; on-chain records are JavaScript values.
  Metrics and log lines are left out, alerts are part of the result.
\<close>

section \<open>Policy expiry keeper\<close>

definition EXPIRY_BATCH_SIZE :: nat where "EXPIRY_BATCH_SIZE = 10"
definition BREAKER_THRESHOLD :: int where "BREAKER_THRESHOLD = 3"
definition BREAKER_COOLDOWN_MS :: int where "BREAKER_COOLDOWN_MS = 5 * 60000"

record expiry_webhook =
  ew_policyId :: int
  ew_holderAddress :: string
  ew_expiryLedger :: int
  ew_txHash :: string
  ew_key :: string

record expiry_state =
  ek_policies :: "(string, policy_row) table"
  ek_webhooks :: "expiry_webhook list"
  ek_rpc :: nat    \<comment> \<open>calls of \<open>processExpiredPolicies\<close>\<close>
  ek_consecutiveFailures :: int
  ek_breakerOpenUntil :: int

text \<open>One cycle's surroundings; \<open>None\<close> and \<open>False\<close> are calls that throw.\<close>

record expiry_env =
  ee_now :: int
  ee_latestLedger :: "int option"
  ee_txHash :: "string option"
  ee_update_ok :: "string \<Rightarrow> bool"
  ee_webhook_ok :: "string \<Rightarrow> bool"

definition is_expired :: "int \<Rightarrow> policy_row \<Rightarrow> bool" where
  "is_expired currentLedger p = (p_isActive p \<and> \<not> p_deleted p \<and> p_endLedger p < currentLedger)"

definition expired_batch :: "int \<Rightarrow> (string, policy_row) table \<Rightarrow> (string \<times> policy_row) list" where
  "expired_batch currentLedger t =
     take EXPIRY_BATCH_SIZE (sort_key (\<lambda>(_, p). p_endLedger p) (findMany (\<lambda>_. is_expired currentLedger) t))"

definition expiry_key :: "string \<Rightarrow> string" where
  "expiry_key i = ''policy.expired:'' @ i"

text \<open>The loop over the batch: false when a call in it throws.\<close>

fun expire_loop :: "expiry_env \<Rightarrow> string \<Rightarrow> (string \<times> policy_row) list \<Rightarrow> expiry_state \<Rightarrow> bool \<times> expiry_state" where
  "expire_loop env txHash [] st = (True, st)"
| "expire_loop env txHash ((i, p) # ps) st =
     (if \<not> ee_update_ok env i then (False, st)
      else let st1 = st\<lparr>ek_policies := updateMany (\<lambda>k _. k = i) (\<lambda>p. p\<lparr>p_isActive := False\<rparr>) (ek_policies st)\<rparr>
           in if \<not> ee_webhook_ok env i then (False, st1)
              else expire_loop env txHash ps
                (st1\<lparr>ek_webhooks := ek_webhooks st1 @
                   [\<lparr>ew_policyId = p_policyId p, ew_holderAddress = p_holderAddress p, ew_expiryLedger = p_endLedger p,
                     ew_txHash = txHash, ew_key = expiry_key i\<rparr>]\<rparr>))"

definition expiry_body :: "expiry_env \<Rightarrow> expiry_state \<Rightarrow> (unit + nat) \<times> expiry_state" where
  "expiry_body env st =
     (case ee_latestLedger env of
        None \<Rightarrow> (Inl (), st)
      | Some currentLedger \<Rightarrow>
          let expired = expired_batch currentLedger (ek_policies st) in
          if length expired = 0 then (Inr 0, st)
          else let st0 = st\<lparr>ek_rpc := ek_rpc st + 1\<rparr> in
            (case ee_txHash env of
               None \<Rightarrow> (Inl (), st0)
             | Some txHash \<Rightarrow>
                 let (done, st1) = expire_loop env txHash expired (st0\<lparr>ek_consecutiveFailures := 0\<rparr>)
                 in (if done then Inr (length expired) else Inl (), st1)))"

definition expiry_run :: "expiry_env \<Rightarrow> expiry_state \<Rightarrow> nat \<times> expiry_state" where
  "expiry_run env st =
     (if ee_now env < ek_breakerOpenUntil st then (0, st)
      else (case expiry_body env st of
          (Inr n, st1) \<Rightarrow> (n, st1)
        | (Inl _, st1) \<Rightarrow>
            let st2 = st1\<lparr>ek_consecutiveFailures := ek_consecutiveFailures st1 + 1\<rparr>
            in (0, if BREAKER_THRESHOLD \<le> ek_consecutiveFailures st2
                   then st2\<lparr>ek_breakerOpenUntil := ee_now env + BREAKER_COOLDOWN_MS, ek_consecutiveFailures := 0\<rparr>
                   else st2)))"

section \<open>Reconciliation of isActive\<close>

definition POLICY_BATCH_SIZE :: nat where "POLICY_BATCH_SIZE = 50"

text \<open>\<open>for (let i = 0; i < n; i += size)\<close> with \<open>slice(i, i + size)\<close>.\<close>

function chunks :: "nat \<Rightarrow> 'a list \<Rightarrow> 'a list list" where
  "chunks sz xs = (if xs = [] \<or> sz = 0 then [] else take sz xs # chunks sz (drop sz xs))"
  by pat_completeness auto
termination by (relation "measure (\<lambda>(_, xs). length xs)") auto

declare chunks.simps [simp del]

definition js_truthy :: "jsval \<Rightarrow> bool" where
  "js_truthy v = (case v of JUndef \<Rightarrow> False | JNull \<Rightarrow> False | JBool b \<Rightarrow> b | JNum x \<Rightarrow> x \<noteq> NaN \<and> x \<noteq> Fin 0
     | JBig i \<Rightarrow> i \<noteq> 0 | JStr s \<Rightarrow> s \<noteq> [] | JArr _ \<Rightarrow> True | JObj _ \<Rightarrow> True)"

text \<open>What the node says of one policy; null is no entry.\<close>

definition onchain_active :: "jsval option \<Rightarrow> bool" where
  "onchain_active r =
     (case r of None \<Rightarrow> False
      | Some v \<Rightarrow> js_truthy (if nullish (json_field v ''is_active'') then json_field v ''active'' else json_field v ''is_active''))"

record active_result =
  ar_totalChecked :: nat
  ar_correctedPolicyIds :: "string list"

text \<open>
  One batch. \<open>reply\<close> is \<open>None\<close> where the simulation throws, which skips the batch; a reply that is too
  short makes the run throw at the missing entry (\<open>False\<close>).
\<close>

fun correct_batch ::
  "(string \<times> policy_row) list \<Rightarrow> jsval option list \<Rightarrow> (string, policy_row) table \<times> string list \<Rightarrow>
   bool \<times> (string, policy_row) table \<times> string list" where
  "correct_batch [] rs acc = (True, acc)"
| "correct_batch ((i, p) # ps) [] acc = (False, acc)"
| "correct_batch ((i, p) # ps) (r # rs) (t, ids) =
     (if p_isActive p \<noteq> onchain_active r
      then correct_batch ps rs (updateMany (\<lambda>k _. k = i) (\<lambda>q. q\<lparr>p_isActive := onchain_active r\<rparr>) t, ids @ [i])
      else correct_batch ps rs (t, ids))"

fun correct_batches ::
  "((string \<times> policy_row) list \<Rightarrow> jsval option list option) \<Rightarrow> (string \<times> policy_row) list list \<Rightarrow>
   (string, policy_row) table \<times> string list \<Rightarrow> bool \<times> (string, policy_row) table \<times> string list" where
  "correct_batches simulate [] acc = (True, acc)"
| "correct_batches simulate (b # bs) acc =
     (case simulate b of
        None \<Rightarrow> correct_batches simulate bs acc
      | Some rs \<Rightarrow> (case correct_batch b rs acc of
            (False, acc') \<Rightarrow> (False, acc')
          | (True, acc') \<Rightarrow> correct_batches simulate bs acc'))"

text \<open>\<open>None\<close> is a run that throws; the corrections made before stay.\<close>

definition active_runReconciliation ::
  "((string \<times> policy_row) list \<Rightarrow> jsval option list option) \<Rightarrow> (string, policy_row) table \<Rightarrow>
   active_result option \<times> (string, policy_row) table" where
  "active_runReconciliation simulate t =
     (let policies = findMany (\<lambda>_ p. \<not> p_deleted p) t;
          (done, t', correctedIds) = correct_batches simulate (chunks POLICY_BATCH_SIZE policies) (t, [])
      in (if done then Some \<lparr>ar_totalChecked = length policies, ar_correctedPolicyIds = correctedIds\<rparr> else None, t'))"

text \<open>\<open>SorobanService\<close> is an optional dependency: without it the run reports that nothing was checked.\<close>

definition active_reconciliation_job ::
  "((string \<times> policy_row) list \<Rightarrow> jsval option list option) option \<Rightarrow> (string, policy_row) table \<Rightarrow>
   active_result option \<times> (string, policy_row) table" where
  "active_reconciliation_job soroban t =
     (case soroban of None \<Rightarrow> (Some \<lparr>ar_totalChecked = 0, ar_correctedPolicyIds = []\<rparr>, t)
      | Some simulate \<Rightarrow> active_runReconciliation simulate t)"

section \<open>Appeal keeper\<close>

definition MAX_RETRIES :: nat where "MAX_RETRIES = 3"
definition RETRY_BASE_DELAY_MS :: int where "RETRY_BASE_DELAY_MS = 1000"

datatype finalize_outcome = Finalized | Window_Open | Already_Final | Gave_Up

definition window_open_error :: "string \<Rightarrow> bool" where
  "window_open_error msg = (str_includes ''votingwindowstillopen'' (to_lower msg) \<or> str_includes ''voting window still open'' (to_lower msg))"

definition already_final_error :: "string \<Rightarrow> bool" where
  "already_final_error msg =
     (str_includes ''not in under_appeal'' (to_lower msg) \<or> str_includes ''already finalized'' (to_lower msg) \<or>
      str_includes ''invalid state'' (to_lower msg))"

text \<open>
  The attempts of one claim: \<open>reply n\<close> answers attempt \<open>n\<close>, \<open>Inl\<close> with the error's message. The result
  is the outcome, the number of calls made and the waits between them.
\<close>

fun finalize_attempts :: "(nat \<Rightarrow> string + unit) \<Rightarrow> nat \<Rightarrow> nat \<Rightarrow> finalize_outcome \<times> nat \<times> int list" where
  "finalize_attempts reply attempt 0 = (Gave_Up, 0, [])"
| "finalize_attempts reply attempt (Suc left) =
     (case reply attempt of
        Inr _ \<Rightarrow> (Finalized, 1, [])
      | Inl errorMsg \<Rightarrow>
          if window_open_error errorMsg then (Window_Open, 1, [])
          else if already_final_error errorMsg then (Already_Final, 1, [])
          else let (res, n, waits) = finalize_attempts reply (Suc attempt) left
               in (res, Suc n, if attempt < MAX_RETRIES then RETRY_BASE_DELAY_MS * 2 ^ attempt # waits else waits))"

record keeper_state =
  ks_failures :: "(int, int) table"
  ks_alerts :: "(int \<times> int) list"      \<comment> \<open>claim and number of failed cycles\<close>
  ks_calls :: "int list"               \<comment> \<open>claims \<open>finalize_appeal\<close> was called for\<close>

definition PERSISTENT_FAILURE_THRESHOLD :: int where "PERSISTENT_FAILURE_THRESHOLD = 3"

definition finalizeClaimWithRetry :: "(nat \<Rightarrow> string + unit) \<Rightarrow> int \<Rightarrow> keeper_state \<Rightarrow> keeper_state" where
  "finalizeClaimWithRetry reply claimId st =
     (case finalize_attempts reply 0 (Suc MAX_RETRIES) of
        (res, n, _) \<Rightarrow>
          let st1 = st\<lparr>ks_calls := ks_calls st @ replicate n claimId\<rparr> in
          (case res of
             Finalized \<Rightarrow> st1\<lparr>ks_failures := filter (\<lambda>(k, _). k \<noteq> claimId) (ks_failures st1)\<rparr>
           | Already_Final \<Rightarrow> st1\<lparr>ks_failures := filter (\<lambda>(k, _). k \<noteq> claimId) (ks_failures st1)\<rparr>
           | Window_Open \<Rightarrow> st1
           | Gave_Up \<Rightarrow>
               let failureCount = (case findUnique (ks_failures st1) claimId of Some c \<Rightarrow> c | None \<Rightarrow> 0) + 1;
                   st2 = st1\<lparr>ks_failures := upsert claimId failureCount (\<lambda>_. failureCount) (ks_failures st1)\<rparr>
               in if PERSISTENT_FAILURE_THRESHOLD \<le> failureCount
                  then st2\<lparr>ks_alerts := ks_alerts st2 @ [(claimId, failureCount)]\<rparr> else st2))"

text \<open>\<open>x || 0\<close> and the number a comparison makes of it.\<close>

definition ledger_or_zero :: "jsval \<Rightarrow> jnum" where
  "ledger_or_zero v =
     (if \<not> js_truthy v then Fin 0
      else (case v of JNum x \<Rightarrow> x | JBig i \<Rightarrow> Fin i | JStr s \<Rightarrow> js_Number s | JBool b \<Rightarrow> Fin 1 | _ \<Rightarrow> NaN))"

definition expired_claims :: "int \<Rightarrow> int list \<Rightarrow> jsval option list \<Rightarrow> int list" where
  "expired_claims currentLedger claimIds onChainClaims =
     List.map_filter (\<lambda>(c, r). case r of
         None \<Rightarrow> None
       | Some v \<Rightarrow> if js_int_ge currentLedger (ledger_or_zero (json_field v ''appeal_open_deadline_ledger'')) then Some c else None)
       (zip claimIds onChainClaims)"

record keeper_env =
  ke_sourceAccount :: "string option"
  ke_latestLedger :: "int option"
  ke_simulate :: "int list \<Rightarrow> jsval option list option"
  ke_reply :: "int \<Rightarrow> nat \<Rightarrow> string + unit"

definition under_appeal :: "(int, claim_row) table \<Rightarrow> int list" where
  "under_appeal claims = map fst (findMany (\<lambda>_ c. cl_status c = UNDER_APPEAL \<and> \<not> cl_deleted c) claims)"

definition runFinalizationCycle :: "keeper_env \<Rightarrow> (int, claim_row) table \<Rightarrow> keeper_state \<Rightarrow> keeper_state" where
  "runFinalizationCycle env claims st =
     (if ke_sourceAccount env = None \<or> ke_sourceAccount env = Some [] then st
      else (case ke_latestLedger env of
          None \<Rightarrow> st
        | Some currentLedger \<Rightarrow>
            let claimIds = under_appeal claims in
            if length claimIds = 0 then st
            else (case ke_simulate env claimIds of
                None \<Rightarrow> st
              | Some onChainClaims \<Rightarrow>
                  foldl (\<lambda>st c. finalizeClaimWithRetry (ke_reply env c) c st) st (expired_claims currentLedger claimIds onChainClaims))))"

section \<open>Weekly cleanup\<close>

record dated_claim = claim_row +
  dc_updatedAt :: int

record archive_state =
  av_claims :: "(int, dated_claim) table"
  av_archive :: "(int, dated_claim) table"

definition CLAIM_ARCHIVE_MS :: int where "CLAIM_ARCHIVE_MS = 730 * 24 * 60 * 60 * 1000"
definition ARCHIVE_BATCH_SIZE :: nat where "ARCHIVE_BATCH_SIZE = 500"

definition RESOLVED_STATUSES :: "claim_status list" where
  "RESOLVED_STATUSES = [PAID, REJECTED, APPEAL_APPROVED, APPEAL_REJECTED]"

definition archivable :: "int \<Rightarrow> dated_claim \<Rightarrow> bool" where
  "archivable cutoff c = (cl_isFinalized c \<and> cl_status c \<in> set RESOLVED_STATUSES \<and> dc_updatedAt c < cutoff)"

text \<open>\<open>createMany\<close> with \<open>skipDuplicates\<close>, and the deletion, in one transaction.\<close>

definition archive_batch :: "(int \<times> dated_claim) list \<Rightarrow> archive_state \<Rightarrow> archive_state" where
  "archive_batch batch st =
     \<lparr>av_claims = filter (\<lambda>(k, _). k \<notin> fst ` set batch) (av_claims st),
      av_archive = av_archive st @ filter (\<lambda>(k, _). k \<notin> fst ` set (av_archive st)) batch\<rparr>"

function archive_loop :: "int \<Rightarrow> nat \<Rightarrow> archive_state \<Rightarrow> nat \<times> archive_state" where
  "archive_loop cutoff total0 st =
     (let batch = take ARCHIVE_BATCH_SIZE (findMany (\<lambda>_. archivable cutoff) (av_claims st)) in
      if length batch = 0 then (total0, st)
      else let st1 = archive_batch batch st in
        if length batch < ARCHIVE_BATCH_SIZE then (total0 + length batch, st1)
        else archive_loop cutoff (total0 + length batch) st1)"
  by pat_completeness auto

lemma archive_batch_shrinks:
  assumes "batch = take n (findMany P t)" "batch \<noteq> []"
  shows "length (filter (\<lambda>(k, _). k \<notin> fst ` set batch) t) < length t"
proof -
  obtain x where x: "x \<in> set batch" using assms(2) by (cases batch) auto
  then have "x \<in> set t" using assms(1) by (auto simp: findMany_def dest: in_set_takeD)
  moreover have "fst x \<in> fst ` set batch" using x by blast
  ultimately show ?thesis by (intro length_filter_less [of x]) (simp_all add: case_prod_unfold)
qed

termination archive_loop
  by (relation "measure (\<lambda>(_, _, st). length (av_claims st))")
    (auto simp: archive_batch_def intro: archive_batch_shrinks)

declare archive_loop.simps [simp del]

definition archiveResolvedClaims :: "int \<Rightarrow> archive_state \<Rightarrow> nat \<times> archive_state" where
  "archiveResolvedClaims now st = archive_loop (now - CLAIM_ARCHIVE_MS) 0 st"

text \<open>Rows of the other two tables, by the date the cleanup looks at; \<open>deleteMany\<close> with its count.\<close>

definition COMMENT_PURGE_MS :: int where "COMMENT_PURGE_MS = 90 * 24 * 60 * 60 * 1000"

definition delete_dated :: "int \<Rightarrow> ('k, int option) table \<Rightarrow> nat \<times> ('k, int option) table" where
  "delete_dated cutoff t =
     (let hit = (\<lambda>d. case d of None \<Rightarrow> False | Some x \<Rightarrow> x < cutoff)
      in (length (filter (\<lambda>(_, d). hit d) t), filter (\<lambda>(_, d). \<not> hit d) t))"

definition purgeDeletedComments :: "int \<Rightarrow> (string, int option) table \<Rightarrow> nat \<times> (string, int option) table" where
  "purgeDeletedComments now comments = delete_dated (now - COMMENT_PURGE_MS) comments"

definition purgeExpiredFeatureFlags :: "int \<Rightarrow> (string, int option) table \<Rightarrow> nat \<times> (string, int option) table" where
  "purgeExpiredFeatureFlags now flags = delete_dated now flags"

record cleanup_state =
  cu_comments :: "(string, int option) table"
  cu_claims :: archive_state
  cu_flags :: "(string, int option) table"

definition runWeeklyCleanup :: "int \<Rightarrow> cleanup_state \<Rightarrow> (nat \<times> nat \<times> nat) \<times> cleanup_state" where
  "runWeeklyCleanup now st =
     (let (comments, cs) = purgeDeletedComments now (cu_comments st);
          (claims, av) = archiveResolvedClaims now (cu_claims st);
          (flags, fs) = purgeExpiredFeatureFlags now (cu_flags st)
      in ((comments, claims, flags), \<lparr>cu_comments = cs, cu_claims = av, cu_flags = fs\<rparr>))"

section \<open>The expiry keeper clears\<close>

definition healthy :: "int \<Rightarrow> string \<Rightarrow> expiry_env \<Rightarrow> bool" where
  "healthy L tx env \<longleftrightarrow> ee_latestLedger env = Some L \<and> ee_txHash env = Some tx \<and> (\<forall>i. ee_update_ok env i) \<and> (\<forall>i. ee_webhook_ok env i)"

definition webhook_of :: "string \<Rightarrow> string \<times> policy_row \<Rightarrow> expiry_webhook" where
  "webhook_of tx ip = \<lparr>ew_policyId = p_policyId (snd ip), ew_holderAddress = p_holderAddress (snd ip),
     ew_expiryLedger = p_endLedger (snd ip), ew_txHash = tx, ew_key = expiry_key (fst ip)\<rparr>"

definition deactivate :: "string set \<Rightarrow> (string, policy_row) table \<Rightarrow> (string, policy_row) table" where
  "deactivate K t = map (\<lambda>(k, p). (k, if k \<in> K then p\<lparr>p_isActive := False\<rparr> else p)) t"

lemma deactivate_simps: "deactivate {} t = t" "deactivate K (deactivate J t) = deactivate (K \<union> J) t"
  by (induction t) (auto simp: deactivate_def)

lemma update_deactivate: "updateMany (\<lambda>k _. k = i) (\<lambda>p. p\<lparr>p_isActive := False\<rparr>) t = deactivate {i} t"
  by (simp add: updateMany_def deactivate_def)

lemma expire_loop_healthy:
  assumes "healthy L tx env"
  shows "expire_loop env tx ps st = (True, st\<lparr>ek_policies := deactivate (fst ` set ps) (ek_policies st),
    ek_webhooks := ek_webhooks st @ map (webhook_of tx) ps\<rparr>)"
proof (induction ps arbitrary: st)
  case (Cons ip ps)
  obtain i p where ip: "ip = (i, p)" by (cases ip)
  show ?case using assms Cons.IH
    by (simp add: ip healthy_def update_deactivate deactivate_simps webhook_of_def Let_def)
qed (simp add: deactivate_simps)

definition expired_rows :: "int \<Rightarrow> (string, policy_row) table \<Rightarrow> (string \<times> policy_row) list" where
  "expired_rows L t = findMany (\<lambda>_. is_expired L) t"

lemma expired_deactivate:
  "expired_rows L (deactivate K t) = filter (\<lambda>(k, _). k \<notin> K) (expired_rows L t)"
  by (induction t) (auto simp: expired_rows_def findMany_def deactivate_def is_expired_def)

text \<open>One healthy cycle takes the first ten off the expired policies and announces them.\<close>

lemma expiry_run_healthy:
  assumes "healthy L tx env" "ek_breakerOpenUntil st \<le> ee_now env"
  shows "\<exists>n. expiry_run env st = (length (expired_batch L (ek_policies st)), st\<lparr>
      ek_policies := deactivate (fst ` set (expired_batch L (ek_policies st))) (ek_policies st),
      ek_webhooks := ek_webhooks st @ map (webhook_of tx) (expired_batch L (ek_policies st)),
      ek_rpc := fst n, ek_consecutiveFailures := snd n\<rparr>)"
proof (cases "expired_batch L (ek_policies st) = []")
  case True
  then show ?thesis using assms
    by (intro exI [of _ "(ek_rpc st, ek_consecutiveFailures st)"])
      (simp add: expiry_run_def expiry_body_def healthy_def deactivate_simps Let_def)
next
  case False
  then show ?thesis using assms expire_loop_healthy [OF assms(1)]
    by (intro exI [of _ "(ek_rpc st + 1, 0)"]) (simp add: expiry_run_def expiry_body_def healthy_def Let_def)
qed

fun expiry_cycles :: "expiry_env list \<Rightarrow> expiry_state \<Rightarrow> expiry_state" where
  "expiry_cycles [] st = st"
| "expiry_cycles (env # envs) st = expiry_cycles envs (snd (expiry_run env st))"

lemma batch_subset: "set (expired_batch L t) \<subseteq> set (expired_rows L t)"
  unfolding expired_batch_def expired_rows_def by (auto dest: in_set_takeD)

lemma mset_filter_batch:
  assumes "distinct (map fst t)"
  shows "mset (expired_batch L t) + mset (filter (\<lambda>(k, _). k \<notin> fst ` set (expired_batch L t)) (expired_rows L t)) = mset (expired_rows L t)"
proof -
  let ?s = "sort_key (\<lambda>(_, p). p_endLedger p) (expired_rows L t)"
  have split: "?s = expired_batch L t @ drop EXPIRY_BATCH_SIZE ?s" by (simp add: expired_batch_def expired_rows_def)
  have rows: "distinct (map fst (expired_rows L t))" using assms by (simp add: expired_rows_def findMany_def distinct_map_filter)
  have "mset (map fst ?s) = mset (map fst (expired_rows L t))" by simp
  then have "distinct (map fst ?s)" using rows mset_eq_imp_distinct_iff by blast
  then have disj: "fst ` set (expired_batch L t) \<inter> fst ` set (drop EXPIRY_BATCH_SIZE ?s) = {}"
    by (subst (asm) split) (auto simp del: set_drop_subset)
  have "mset (filter (\<lambda>(k, _). k \<notin> fst ` set (expired_batch L t)) (expired_rows L t)) =
      mset (filter (\<lambda>(k, _). k \<notin> fst ` set (expired_batch L t)) ?s)" by (simp add: mset_filter)
  also have "filter (\<lambda>(k, _). k \<notin> fst ` set (expired_batch L t)) ?s = drop EXPIRY_BATCH_SIZE ?s"
  proof -
    have "filter (\<lambda>(k, _). k \<notin> fst ` set (expired_batch L t)) (expired_batch L t) = []" by (force simp: filter_empty_conv)
    moreover have "filter (\<lambda>(k, _). k \<notin> fst ` set (expired_batch L t)) (drop EXPIRY_BATCH_SIZE ?s) = drop EXPIRY_BATCH_SIZE ?s"
      using disj by (force simp: filter_id_conv)
    ultimately show ?thesis by (subst split) simp
  qed
  finally show ?thesis by (metis (no_types, lifting) mset_append mset_sort split)
qed

lemma expired_after_cycle:
  fixes L :: int
  assumes "distinct (map fst t)"
  defines "t' \<equiv> deactivate (fst ` set (expired_batch L t)) t"
  shows "mset (map fst (expired_batch L t)) + mset (map fst (expired_rows L t')) = mset (map fst (expired_rows L t))"
    and "length (expired_rows L t') = length (expired_rows L t) - EXPIRY_BATCH_SIZE"
    and "distinct (map fst t')"
proof -
  have rows: "mset (expired_batch L t) + mset (expired_rows L t') = mset (expired_rows L t)"
    unfolding t'_def expired_deactivate by (rule mset_filter_batch [OF assms(1)])
  then have "image_mset fst (mset (expired_batch L t) + mset (expired_rows L t')) = image_mset fst (mset (expired_rows L t))" by simp
  then show "mset (map fst (expired_batch L t)) + mset (map fst (expired_rows L t')) = mset (map fst (expired_rows L t))" by simp
  have "length (expired_batch L t) + length (expired_rows L t') = length (expired_rows L t)"
    using arg_cong [OF rows, of size] by simp
  moreover have "length (expired_batch L t) = min (length (expired_rows L t)) EXPIRY_BATCH_SIZE"
    by (simp add: expired_batch_def expired_rows_def min.commute)
  ultimately show "length (expired_rows L t') = length (expired_rows L t) - EXPIRY_BATCH_SIZE" by linarith
  have "map fst t' = map fst t" by (simp add: t'_def deactivate_def comp_def case_prod_unfold)
  then show "distinct (map fst t')" using assms(1) by simp
qed

lemma expiry_cycles_clear:
  assumes "distinct (map fst (ek_policies st))"
    "list_all (\<lambda>env. (\<exists>tx. healthy L tx env) \<and> ek_breakerOpenUntil st \<le> ee_now env) envs"
    "length (expired_rows L (ek_policies st)) \<le> EXPIRY_BATCH_SIZE * length envs"
  shows "expired_rows L (ek_policies (expiry_cycles envs st)) = []
    \<and> (\<exists>new. ek_webhooks (expiry_cycles envs st) = ek_webhooks st @ new \<and>
        mset (map ew_key new) = mset (map (\<lambda>r. expiry_key (fst r)) (expired_rows L (ek_policies st))))"
  using assms
proof (induction envs arbitrary: st)
  case (Cons env envs)
  obtain tx where env: "healthy L tx env" "ek_breakerOpenUntil st \<le> ee_now env" using Cons.prems(2) by auto
  let ?b = "expired_batch L (ek_policies st)"
  obtain n where run: "expiry_run env st = (length ?b, st\<lparr>ek_policies := deactivate (fst ` set ?b) (ek_policies st),
      ek_webhooks := ek_webhooks st @ map (webhook_of tx) ?b, ek_rpc := fst n, ek_consecutiveFailures := snd n\<rparr>)"
    using expiry_run_healthy [OF env] by blast
  define st1 where "st1 = snd (expiry_run env st)"
  have st1: "ek_policies st1 = deactivate (fst ` set ?b) (ek_policies st)" "ek_webhooks st1 = ek_webhooks st @ map (webhook_of tx) ?b"
      "ek_breakerOpenUntil st1 = ek_breakerOpenUntil st"
    by (simp_all add: st1_def run)
  note cycle = expired_after_cycle [OF Cons.prems(1), of L, folded st1(1)]
  have "expired_rows L (ek_policies (expiry_cycles envs st1)) = []
      \<and> (\<exists>new. ek_webhooks (expiry_cycles envs st1) = ek_webhooks st1 @ new \<and>
        mset (map ew_key new) = mset (map (\<lambda>r. expiry_key (fst r)) (expired_rows L (ek_policies st1))))"
    using Cons.IH [OF cycle(3)] Cons.prems(2,3) cycle(2) st1(3) by simp
  then obtain new where new: "expired_rows L (ek_policies (expiry_cycles envs st1)) = []"
      "ek_webhooks (expiry_cycles envs st1) = ek_webhooks st1 @ new"
      "mset (map ew_key new) = mset (map (\<lambda>r. expiry_key (fst r)) (expired_rows L (ek_policies st1)))" by blast
  have "image_mset expiry_key (mset (map fst ?b) + mset (map fst (expired_rows L (ek_policies st1)))) =
      image_mset expiry_key (mset (map fst (expired_rows L (ek_policies st))))" using cycle(1) by simp
  then have "mset (map ew_key (map (webhook_of tx) ?b @ new)) = mset (map (\<lambda>r. expiry_key (fst r)) (expired_rows L (ek_policies st)))"
    using new(3) by (simp add: webhook_of_def multiset.map_comp comp_def)
  moreover have "ek_webhooks (expiry_cycles (env # envs) st) = ek_webhooks st @ (map (webhook_of tx) ?b @ new)"
    using new(2) st1(2) by (simp add: st1_def)
  moreover have "expired_rows L (ek_policies (expiry_cycles (env # envs) st)) = []" using new(1) by (simp add: st1_def)
  ultimately show ?case by blast
qed (simp add: EXPIRY_BATCH_SIZE_def)

section \<open>What reconciliation leaves behind\<close>

lemma concat_chunks: "0 < sz \<Longrightarrow> concat (chunks sz xs) = xs"
proof (induction sz xs rule: chunks.induct)
  case (1 sz xs)
  then show ?case by (subst chunks.simps) auto
qed

definition set_active :: "(string \<Rightarrow> bool) \<Rightarrow> string set \<Rightarrow> (string, policy_row) table \<Rightarrow> (string, policy_row) table" where
  "set_active f K t = map (\<lambda>(k, p). (k, if k \<in> K then p\<lparr>p_isActive := f k\<rparr> else p)) t"

definition stale :: "(string \<Rightarrow> bool) \<Rightarrow> (string \<times> policy_row) list \<Rightarrow> string list" where
  "stale f b = map fst (filter (\<lambda>(k, p). p_isActive p \<noteq> f k) b)"

lemma set_active_Un: "set_active f K (set_active f J t) = set_active f (J \<union> K) t"
  by (induction t) (auto simp: set_active_def)

lemma set_active_empty [simp]: "set_active f {} t = t"
  by (induction t) (auto simp: set_active_def)

lemma correct_batch_eval:
  "correct_batch b (map (\<lambda>r. chain (fst r)) b) (t, ids) =
     (True, set_active (\<lambda>k. onchain_active (chain k)) (set (stale (\<lambda>k. onchain_active (chain k)) b)) t,
      ids @ stale (\<lambda>k. onchain_active (chain k)) b)"
proof (induction b arbitrary: t ids)
  case (Cons r b)
  obtain i p where r: "r = (i, p)" by (cases r)
  have upd: "updateMany (\<lambda>k _. k = i) (\<lambda>q. q\<lparr>p_isActive := onchain_active (chain i)\<rparr>) t = set_active (\<lambda>k. onchain_active (chain k)) {i} t" for t
    by (induction t) (auto simp: updateMany_def set_active_def)
  show ?case using Cons.IH by (simp add: r stale_def upd set_active_Un)
qed (simp add: stale_def)

lemma correct_batches_eval:
  assumes "\<And>b. b \<in> set bs \<Longrightarrow> simulate b \<noteq> None \<Longrightarrow> simulate b = Some (map (\<lambda>r. chain (fst r)) b)"
  defines "ids' \<equiv> concat (map (stale (\<lambda>k. onchain_active (chain k))) (filter (\<lambda>b. simulate b \<noteq> None) bs))"
  shows "correct_batches simulate bs (t, ids) = (True, set_active (\<lambda>k. onchain_active (chain k)) (set ids') t, ids @ ids')"
  using assms(1) unfolding ids'_def
proof (induction bs arbitrary: t ids)
  case (Cons b bs)
  have IH: "correct_batches simulate bs (t, ids) = (True,
      set_active (\<lambda>k. onchain_active (chain k))
        (set (concat (map (stale (\<lambda>k. onchain_active (chain k))) (filter (\<lambda>b. simulate b \<noteq> None) bs)))) t,
      ids @ concat (map (stale (\<lambda>k. onchain_active (chain k))) (filter (\<lambda>b. simulate b \<noteq> None) bs)))" for t ids
    by (rule Cons.IH) (use Cons.prems in simp)
  show ?case
  proof (cases "simulate b")
    case None
    then show ?thesis using IH by simp
  next
    case (Some a)
    then have "a = map (\<lambda>r. chain (fst r)) b" using Cons.prems [of b] by simp
    then show ?thesis using IH Some by (simp add: correct_batch_eval set_active_Un)
  qed
qed simp

section \<open>What the archive receives\<close>

lemma filter_notin_take:
  assumes "distinct xs"
  shows "filter (\<lambda>x. x \<notin> set (take n xs)) xs = drop n xs"
proof -
  have "set (take n xs) \<inter> set (drop n xs) = {}" using set_take_disj_set_drop_if_distinct [OF assms] by simp
  then have "filter (\<lambda>x. x \<notin> set (take n xs)) (take n xs @ drop n xs) = [] @ drop n xs"
    unfolding filter_append by (intro arg_cong2 [where f = append]) (auto simp: filter_empty_conv filter_id_conv)
  then show ?thesis by simp
qed

lemma archive_loop_eval:
  assumes "distinct (map fst (av_claims st))"
  shows "archive_loop cutoff n st = (n + length (findMany (\<lambda>_. archivable cutoff) (av_claims st)),
    \<lparr>av_claims = filter (\<lambda>(_, c). \<not> archivable cutoff c) (av_claims st),
     av_archive = av_archive st @ filter (\<lambda>(k, _). k \<notin> fst ` set (av_archive st)) (findMany (\<lambda>_. archivable cutoff) (av_claims st))\<rparr>)"
  using assms
proof (induction cutoff n st rule: archive_loop.induct)
  case (1 cutoff n st)
  let ?rows = "findMany (\<lambda>_. archivable cutoff) (av_claims st)"
  let ?b = "take ARCHIVE_BATCH_SIZE ?rows"
  let ?st = "archive_batch ?b st"
  have rows: "distinct (map fst ?rows)" using 1(2) by (simp add: findMany_def distinct_map_filter)
  have keys: "fst x \<in> fst ` set ?b \<longleftrightarrow> x \<in> set ?b" if "x \<in> set (av_claims st)" for x
  proof
    assume "fst x \<in> fst ` set ?b"
    then obtain y where y: "y \<in> set ?b" "fst y = fst x" by auto
    then have "y \<in> set (av_claims st)" by (auto simp: findMany_def dest: in_set_takeD)
    then have "y = x" using that y(2) 1(2) by (simp add: distinct_map inj_on_def)
    then show "x \<in> set ?b" using y(1) by simp
  qed blast
  have left: "av_claims ?st = filter (\<lambda>x. x \<notin> set ?b) (av_claims st)"
    unfolding archive_batch_def by (simp add: case_prod_unfold) (rule filter_cong [OF refl], simp add: keys)
  have rest: "findMany (\<lambda>_. archivable cutoff) (av_claims ?st) = drop ARCHIVE_BATCH_SIZE ?rows"
  proof -
    have "findMany (\<lambda>_. archivable cutoff) (av_claims ?st) = filter (\<lambda>x. x \<notin> set ?b) ?rows"
      unfolding left by (simp add: findMany_def conj_commute)
    also have "\<dots> = drop ARCHIVE_BATCH_SIZE ?rows" using rows by (intro filter_notin_take) (simp add: distinct_map)
    finally show ?thesis .
  qed
  have kept: "filter (\<lambda>(_, c). \<not> archivable cutoff c) (av_claims ?st) = filter (\<lambda>(_, c). \<not> archivable cutoff c) (av_claims st)"
    unfolding left filter_filter
    by (rule filter_cong [OF refl]) (auto simp: findMany_def dest: in_set_takeD)
  have dist: "distinct (map fst (av_claims ?st))" using 1(2) by (simp add: left distinct_map_filter)
  show ?case
  proof (cases "ARCHIVE_BATCH_SIZE \<le> length ?rows")
    case True
    then have full: "length ?b = ARCHIVE_BATCH_SIZE" "?b \<noteq> []" by (auto simp: ARCHIVE_BATCH_SIZE_def)
    have fresh: "filter (\<lambda>(k, _). k \<notin> fst ` set (av_archive ?st)) (drop ARCHIVE_BATCH_SIZE ?rows) =
        filter (\<lambda>(k, _). k \<notin> fst ` set (av_archive st)) (drop ARCHIVE_BATCH_SIZE ?rows)"
    proof (rule filter_cong [OF refl])
      fix x assume x: "x \<in> set (drop ARCHIVE_BATCH_SIZE ?rows)"
      have "fst x \<notin> fst ` set ?b"
      proof
        assume "fst x \<in> fst ` set ?b"
        moreover have "x \<in> set (av_claims st)" using x by (auto simp: findMany_def dest: in_set_dropD)
        ultimately have "x \<in> set ?b" using keys by blast
        then show False using x rows set_take_disj_set_drop_if_distinct [of ?rows ARCHIVE_BATCH_SIZE ARCHIVE_BATCH_SIZE]
          by (auto simp: distinct_map)
      qed
      then show "(case x of (k, _) \<Rightarrow> k \<notin> fst ` set (av_archive ?st)) = (case x of (k, _) \<Rightarrow> k \<notin> fst ` set (av_archive st))"
        by (cases x) (force simp: archive_batch_def image_Un image_iff)
    qed
    have "archive_loop cutoff n st = archive_loop cutoff (n + length ?b) ?st"
      using full by (subst archive_loop.simps) (simp add: Let_def)
    also have "\<dots> = (n + length ?b + length (drop ARCHIVE_BATCH_SIZE ?rows),
        \<lparr>av_claims = filter (\<lambda>(_, c). \<not> archivable cutoff c) (av_claims st),
         av_archive = av_archive ?st @ filter (\<lambda>(k, _). k \<notin> fst ` set (av_archive st)) (drop ARCHIVE_BATCH_SIZE ?rows)\<rparr>)"
      using 1(1) [OF refl _ refl _ dist] full unfolding rest kept fresh by simp
    also have "av_archive ?st @ filter (\<lambda>(k, _). k \<notin> fst ` set (av_archive st)) (drop ARCHIVE_BATCH_SIZE ?rows) =
        av_archive st @ filter (\<lambda>(k, _). k \<notin> fst ` set (av_archive st)) (?b @ drop ARCHIVE_BATCH_SIZE ?rows)"
      by (simp only: archive_batch_def archive_state.simps filter_append append_assoc)
    finally show ?thesis using True full(1) by simp
  next
    case False
    then have all: "?b = ?rows" by simp
    have "filter (\<lambda>(_, c). \<not> archivable cutoff c) (av_claims st) = av_claims st" if "?rows = []"
      using that by (auto simp: findMany_def filter_empty_conv filter_id_conv)
    moreover have "av_claims ?st = filter (\<lambda>(_, c). \<not> archivable cutoff c) (av_claims st)"
    proof -
      have "av_claims ?st = filter (\<lambda>x. x \<notin> set ?rows) (av_claims st)" using left all by simp
      also have "\<dots> = filter (\<lambda>(_, c). \<not> archivable cutoff c) (av_claims st)"
        by (rule filter_cong [OF refl]) (auto simp: findMany_def)
      finally show ?thesis .
    qed
    ultimately show ?thesis using False all
      by (subst archive_loop.simps) (auto simp: Let_def archive_batch_def)
  qed
qed

section \<open>Properties\<close>

text \<open>The expiry keeper catches up. At a ledger \<open>L\<close> with \<open>n\<close> expired active policies, \<open>n / 10\<close> cycles (rounded
  up) in which every call succeeds and the breaker is closed leave no active policy that ended before
  \<open>L\<close>, and announce each of the \<open>n\<close> policies by exactly one webhook under its own key.\<close>

theorem expiry_keeper_clears:
  assumes "distinct (map fst (ek_policies st))"
    and "list_all (\<lambda>env. (\<exists>tx. healthy L tx env) \<and> ek_breakerOpenUntil st \<le> ee_now env) envs"
    and "length (expired_rows L (ek_policies st)) \<le> EXPIRY_BATCH_SIZE * length envs"
  shows "expired_rows L (ek_policies (expiry_cycles envs st)) = []
    \<and> (\<exists>new. ek_webhooks (expiry_cycles envs st) = ek_webhooks st @ new \<and>
        mset (map ew_key new) = mset (map (\<lambda>r. expiry_key (fst r)) (expired_rows L (ek_policies st))))"
  by (rule expiry_cycles_clear [OF assms])

abbreviation (input) "wit_policy \<equiv> \<lparr>p_policyId = 1, p_holderAddress = ''GA'', p_policyType = ''Auto'', p_region = ''Low'',
  p_coverageAmount = ''1'', p_premium = ''1'', p_isActive = True, p_startLedger = 0, p_endLedger = 5, p_assetContractId = None,
  p_txHash = None, p_deleted = False\<rparr>"

abbreviation (input) "wit_expiry \<equiv> \<lparr>ek_policies = [(''GA:1'', wit_policy)], ek_webhooks = [], ek_rpc = 0,
  ek_consecutiveFailures = 0, ek_breakerOpenUntil = 0\<rparr>"

abbreviation (input) "wit_cycle ok \<equiv> \<lparr>ee_now = 0, ee_latestLedger = Some 9, ee_txHash = Some ''t'', ee_update_ok = (\<lambda>_. True),
  ee_webhook_ok = (\<lambda>_. ok)\<rparr>"

theorem expiry_keeper_clears_witness:
  "expired_rows 9 (ek_policies wit_expiry) = ek_policies wit_expiry
   \<and> expired_rows 9 (ek_policies (expiry_cycles [wit_cycle True] wit_expiry)) = []"
  using expiry_keeper_clears [of wit_expiry 9 "[wit_cycle True]"]
  by (simp add: healthy_def expired_rows_def findMany_def is_expired_def EXPIRY_BATCH_SIZE_def)

text \<open>When the webhook of a policy cannot be queued, the policy is inactive already and is not selected again:
  its webhook is never sent.\<close>

lemma expiry_webhook_lost:
  "ek_webhooks (expiry_cycles (replicate n (wit_cycle True)) (snd (expiry_run (wit_cycle False) wit_expiry))) = []"
proof -
  define st where "st = snd (expiry_run (wit_cycle False) wit_expiry)"
  have st: "expired_batch 9 (ek_policies st) = []" "ek_webhooks st = []" "ek_breakerOpenUntil st = 0"
    by (simp_all add: st_def expiry_run_def expiry_body_def expired_batch_def findMany_def is_expired_def updateMany_def
        EXPIRY_BATCH_SIZE_def BREAKER_THRESHOLD_def Let_def)
  then have "snd (expiry_run (wit_cycle True) st) = st" by (simp add: expiry_run_def expiry_body_def Let_def)
  then have "expiry_cycles (replicate n (wit_cycle True)) st = st" by (induction n) simp_all
  then show ?thesis using st by (simp add: st_def)
qed

text \<open>A cycle that finds nothing to do does not reset the count of failures, so failures that are far apart open
  the breaker.\<close>

lemma expiry_idle_keeps_failures:
  assumes "ee_latestLedger env = Some L" "expired_rows L (ek_policies st) = []"
  shows "snd (expiry_run env st) = st"
  using assms by (simp add: expiry_run_def expiry_body_def expired_batch_def expired_rows_def Let_def)

definition answered :: "((string \<times> policy_row) list \<Rightarrow> jsval option list option) \<Rightarrow> (string, policy_row) table \<Rightarrow> string \<Rightarrow> bool" where
  "answered simulate t k \<longleftrightarrow>
     (\<exists>b \<in> set (chunks POLICY_BATCH_SIZE (findMany (\<lambda>_ p. \<not> p_deleted p) t)). k \<in> fst ` set b \<and> simulate b \<noteq> None)"

lemma active_run_eval:
  assumes "distinct (map fst t)"
    and "\<And>b. simulate b = None \<or> simulate b = Some (map (\<lambda>r. chain (fst r)) b)"
  shows "\<exists>ids. active_runReconciliation simulate t =
      (Some \<lparr>ar_totalChecked = length (findMany (\<lambda>_ p. \<not> p_deleted p) t), ar_correctedPolicyIds = ids\<rparr>,
       map (\<lambda>(k, p). (k, if answered simulate t k then p\<lparr>p_isActive := onchain_active (chain k)\<rparr> else p)) t)
    \<and> set ids = {k. \<exists>p. (k, p) \<in> set t \<and> answered simulate t k \<and> p_isActive p \<noteq> onchain_active (chain k)}"
proof -
  let ?f = "\<lambda>k. onchain_active (chain k)"
  let ?ps = "findMany (\<lambda>_ p. \<not> p_deleted p) t"
  let ?bs = "chunks POLICY_BATCH_SIZE ?ps"
  define ids where "ids = concat (map (stale ?f) (filter (\<lambda>b. simulate b \<noteq> None) ?bs))"
  have sub: "set b \<subseteq> set t" if "b \<in> set ?bs" for b
  proof -
    have "concat ?bs = ?ps" by (rule concat_chunks) (simp add: POLICY_BATCH_SIZE_def)
    moreover have "set b \<subseteq> set (concat ?bs)" using that by auto
    ultimately have "set b \<subseteq> set ?ps" by simp
    then show ?thesis by (auto simp: findMany_def)
  qed
  have same: "p = q" if "(k, p) \<in> set t" "(k, q) \<in> set t" for k p q
    using that assms(1) by (simp add: eq_key_imp_eq_value)
  have ids_iff: "k \<in> set ids \<longleftrightarrow> answered simulate t k \<and> p_isActive p \<noteq> ?f k" if kp: "(k, p) \<in> set t" for k p
  proof
    assume "k \<in> set ids"
    then obtain b where "b \<in> set ?bs" "simulate b \<noteq> None" "k \<in> set (stale ?f b)" by (auto simp: ids_def)
    then obtain q where b: "b \<in> set ?bs" "simulate b \<noteq> None" "(k, q) \<in> set b" "p_isActive q \<noteq> ?f k"
      unfolding stale_def by auto
    then have "q = p" using sub kp same by blast
    then show "answered simulate t k \<and> p_isActive p \<noteq> ?f k" using b by (force simp: answered_def)
  next
    assume a: "answered simulate t k \<and> p_isActive p \<noteq> ?f k"
    then obtain b where "b \<in> set ?bs" "simulate b \<noteq> None" "k \<in> fst ` set b" by (auto simp: answered_def)
    then obtain q where b: "b \<in> set ?bs" "simulate b \<noteq> None" "(k, q) \<in> set b" by force
    then have "q = p" using sub kp same by blast
    then show "k \<in> set ids" using a b by (force simp: ids_def stale_def)
  qed
  have ans: "simulate b = Some (map (\<lambda>r. chain (fst r)) b)" if "simulate b \<noteq> None" for b
    using assms(2) [of b] that by blast
  have "correct_batches simulate ?bs (t, []) = (True, set_active ?f (set ids) t, [] @ ids)"
    unfolding ids_def by (rule correct_batches_eval) (rule ans)
  then have "active_runReconciliation simulate t = (Some \<lparr>ar_totalChecked = length ?ps, ar_correctedPolicyIds = ids\<rparr>, set_active ?f (set ids) t)"
    by (simp add: active_runReconciliation_def Let_def)
  moreover have "set_active ?f (set ids) t = map (\<lambda>(k, p). (k, if answered simulate t k then p\<lparr>p_isActive := ?f k\<rparr> else p)) t"
    unfolding set_active_def by (rule map_cong [OF refl]) (auto simp: ids_iff)
  moreover have "set ids = {k. \<exists>p. (k, p) \<in> set t \<and> answered simulate t k \<and> p_isActive p \<noteq> ?f k}"
  proof -
    have "\<exists>p. (k, p) \<in> set t" if "k \<in> set ids" for k using that sub by (fastforce simp: ids_def stale_def)
    then show ?thesis using ids_iff by blast
  qed
  ultimately show ?thesis by auto
qed

lemma answered_all:
  assumes "\<And>b. simulate b \<noteq> None"
  shows "answered simulate t k \<longleftrightarrow> (\<exists>p. (k, p) \<in> set t \<and> \<not> p_deleted p)"
proof -
  let ?ps = "findMany (\<lambda>_ p. \<not> p_deleted p) t"
  have "concat (chunks POLICY_BATCH_SIZE ?ps) = ?ps" by (rule concat_chunks) (simp add: POLICY_BATCH_SIZE_def)
  then have "(\<Union>b \<in> set (chunks POLICY_BATCH_SIZE ?ps). set b) = set ?ps" by (metis set_concat)
  then have "(\<exists>b \<in> set (chunks POLICY_BATCH_SIZE ?ps). k \<in> fst ` set b) \<longleftrightarrow> k \<in> fst ` set ?ps" by blast
  then show ?thesis using assms by (force simp: answered_def findMany_def)
qed

text \<open>Reconciliation makes the database agree with the chain. If the node answers a batch entry by entry or
  not at all, the run does not throw; every policy that is not deleted and whose batch was answered has
  afterwards the activity the chain has for it, every other row is unchanged, and the ids reported are
  those of the rows changed. When every batch is answered, a second run corrects nothing.\<close>

theorem active_flags_reconciled:
  fixes t :: "(string, policy_row) table"
  assumes "distinct (map fst t)"
    and "\<And>b. simulate b = None \<or> simulate b = Some (map (\<lambda>r. chain (fst r)) b)"
  shows "\<exists>ids t'. active_runReconciliation simulate t =
      (Some \<lparr>ar_totalChecked = length (findMany (\<lambda>_ p. \<not> p_deleted p) t), ar_correctedPolicyIds = ids\<rparr>, t')
    \<and> t' = map (\<lambda>(k, p). (k, if answered simulate t k then p\<lparr>p_isActive := onchain_active (chain k)\<rparr> else p)) t
    \<and> set ids = {k. \<exists>p. (k, p) \<in> set t \<and> answered simulate t k \<and> p_isActive p \<noteq> onchain_active (chain k)}
    \<and> ((\<forall>b. simulate b \<noteq> None) \<longrightarrow> map_option ar_correctedPolicyIds (fst (active_runReconciliation simulate t')) = Some [])"
proof -
  obtain ids where run: "active_runReconciliation simulate t =
      (Some \<lparr>ar_totalChecked = length (findMany (\<lambda>_ p. \<not> p_deleted p) t), ar_correctedPolicyIds = ids\<rparr>,
       map (\<lambda>(k, p). (k, if answered simulate t k then p\<lparr>p_isActive := onchain_active (chain k)\<rparr> else p)) t)"
    "set ids = {k. \<exists>p. (k, p) \<in> set t \<and> answered simulate t k \<and> p_isActive p \<noteq> onchain_active (chain k)}"
    using active_run_eval [OF assms] by blast
  define t' where "t' = map (\<lambda>(k, p). (k, if answered simulate t k then p\<lparr>p_isActive := onchain_active (chain k)\<rparr> else p)) t"
  have "map fst t' = map fst t" by (simp add: t'_def comp_def case_prod_unfold)
  then have "distinct (map fst t')" using assms(1) by simp
  then obtain ids' where rerun: "fst (active_runReconciliation simulate t') =
        Some \<lparr>ar_totalChecked = length (findMany (\<lambda>_ p. \<not> p_deleted p) t'), ar_correctedPolicyIds = ids'\<rparr>"
      "set ids' = {k. \<exists>p. (k, p) \<in> set t' \<and> answered simulate t' k \<and> p_isActive p \<noteq> onchain_active (chain k)}"
    using active_run_eval [of t' simulate chain] assms(2) by auto
  have "ids' = []" if all: "\<forall>b. simulate b \<noteq> None"
  proof -
    have "p_isActive p = onchain_active (chain k)" if p: "(k, p) \<in> set t'" and a: "answered simulate t' k" for k p
    proof -
      obtain q where "(k, q) \<in> set t'" "\<not> p_deleted q" using a answered_all all by blast
      then have "answered simulate t k" using all answered_all [of simulate t k] by (force simp: t'_def split: if_splits)
      then show ?thesis using p by (auto simp: t'_def)
    qed
    then have "set ids' = {}" unfolding rerun(2) by blast
    then show ?thesis by simp
  qed
  then show ?thesis using run rerun(1) unfolding t'_def [symmetric] by auto
qed

theorem active_flags_reconciled_witness:
  "\<exists>ids. active_runReconciliation (\<lambda>b. Some (map (\<lambda>r. None) b)) [(''GA:1'', wit_policy)] =
     (Some \<lparr>ar_totalChecked = 1, ar_correctedPolicyIds = ids\<rparr>, [(''GA:1'', wit_policy\<lparr>p_isActive := False\<rparr>)]) \<and> set ids = {''GA:1''}"
proof -
  have "answered (\<lambda>b. Some (map (\<lambda>r. None) b)) [(''GA:1'', wit_policy)] k \<longleftrightarrow> k = ''GA:1''" for k
    by (subst answered_all) auto
  then show ?thesis
    using active_flags_reconciled [of "[(''GA:1'', wit_policy)]" "\<lambda>b. Some (map (\<lambda>r. None) b)" "\<lambda>_. None"]
    by (auto simp: findMany_def onchain_active_def)
qed

text \<open>Archiving ends and moves each resolved claim once: the loop returns, with the number of finalised claims
  in a resolved status that were last changed more than two years ago; exactly these are gone from the
  claims, and each of them whose id was not archived before is in the archive.\<close>

theorem archive_complete:
  assumes "distinct (map fst (av_claims st))"
  shows "archiveResolvedClaims now st =
    (length (findMany (\<lambda>_. archivable (now - CLAIM_ARCHIVE_MS)) (av_claims st)),
     \<lparr>av_claims = filter (\<lambda>(_, c). \<not> archivable (now - CLAIM_ARCHIVE_MS) c) (av_claims st),
      av_archive = av_archive st @ filter (\<lambda>(k, _). k \<notin> fst ` set (av_archive st))
        (findMany (\<lambda>_. archivable (now - CLAIM_ARCHIVE_MS)) (av_claims st))\<rparr>)"
  unfolding archiveResolvedClaims_def using archive_loop_eval [OF assms] by simp

abbreviation (input) "wit_claim s \<equiv> \<lparr>cl_policyId = ''p'', cl_creatorAddress = ''GA'', cl_amount = ''1'', cl_asset = None, cl_description = [],
  cl_imageUrls = [], cl_status = s, cl_isFinalized = True, cl_approveVotes = 0, cl_rejectVotes = 0, cl_paidAt = None, cl_createdAtLedger = 0,
  cl_updatedAtLedger = 0, cl_txHash = None, cl_deleted = False, cl_appealsCount = 0, cl_appealTxHash = None\<rparr>"

abbreviation (input) "wit_dated \<equiv> \<lparr>cl_policyId = ''p'', cl_creatorAddress = ''GA'', cl_amount = ''1'', cl_asset = None, cl_description = [],
  cl_imageUrls = [], cl_status = PAID, cl_isFinalized = True, cl_approveVotes = 0, cl_rejectVotes = 0, cl_paidAt = None, cl_createdAtLedger = 0,
  cl_updatedAtLedger = 0, cl_txHash = None, cl_deleted = False, cl_appealsCount = 0, cl_appealTxHash = None, dc_updatedAt = 0\<rparr>"

theorem archive_complete_witness:
  "archiveResolvedClaims 63072000001 \<lparr>av_claims = [(7, wit_dated)], av_archive = []\<rparr> = (1, \<lparr>av_claims = [], av_archive = [(7, wit_dated)]\<rparr>)"
  using archive_complete [of "\<lparr>av_claims = [(7, wit_dated)], av_archive = []\<rparr>" 63072000001]
  by (simp add: findMany_def archivable_def RESOLVED_STATUSES_def CLAIM_ARCHIVE_MS_def)

section \<open>The appeal keeper\<close>

lemma finalize_attempts_calls:
  "fst (snd (finalize_attempts reply a n)) \<le> n \<and> (0 < n \<longrightarrow> 0 < fst (snd (finalize_attempts reply a n)))"
proof (induction n arbitrary: a)
  case (Suc n)
  obtain res m waits where r: "finalize_attempts reply (Suc a) n = (res, m, waits)" by (metis prod_cases3)
  then show ?case using Suc.IH [of "Suc a"] by (simp add: Let_def split: sum.split)
qed simp

lemma count_replicate: "count_list (replicate n x) y = (if x = y then n else 0)"
  by (induction n) auto

lemma finalize_calls:
  "\<exists>n. 0 < n \<and> n \<le> 4 \<and> ks_calls (finalizeClaimWithRetry reply c st) = ks_calls st @ replicate n c"
proof -
  obtain res n waits where r: "finalize_attempts reply 0 (Suc MAX_RETRIES) = (res, n, waits)" by (metis prod_cases3)
  then have "0 < n" "n \<le> 4" using finalize_attempts_calls [where reply = reply and a = 0 and n = "Suc MAX_RETRIES"] by (simp_all add: MAX_RETRIES_def)
  then show ?thesis using r by (cases res) (auto simp: finalizeClaimWithRetry_def Let_def)
qed

lemma fold_calls:
  "\<exists>new. ks_calls (foldl (\<lambda>st c. finalizeClaimWithRetry (reply c) c st) st cs) = ks_calls st @ new \<and> set new = set cs \<and>
     (distinct cs \<longrightarrow> (\<forall>c. count_list new c \<le> 4))"
proof (induction cs arbitrary: st)
  case (Cons c cs)
  obtain n where n: "0 < n" "n \<le> 4" "ks_calls (finalizeClaimWithRetry (reply c) c st) = ks_calls st @ replicate n c"
    using finalize_calls by blast
  obtain new where new: "ks_calls (foldl (\<lambda>st c. finalizeClaimWithRetry (reply c) c st) (finalizeClaimWithRetry (reply c) c st) cs) =
      ks_calls (finalizeClaimWithRetry (reply c) c st) @ new" "set new = set cs" "distinct cs \<longrightarrow> (\<forall>c. count_list new c \<le> 4)"
    using Cons.IH by blast
  have "count_list (replicate n c @ new) d \<le> 4" if "distinct (c # cs)" for d
  proof (cases "d = c")
    case True
    then have "count_list new d = 0" using that new(2) by (simp add: count_list_0_iff)
    then show ?thesis using n(2) True by (simp add: count_replicate)
  next
    case False
    then show ?thesis using new(3) that by (simp add: count_replicate)
  qed
  then show ?case using new n by (intro exI [of _ "replicate n c @ new"]) auto
qed simp

lemma expired_claims_set:
  "set (expired_claims L ids (map chain ids)) =
     {c \<in> set ids. \<exists>v. chain c = Some v \<and> js_int_ge L (ledger_or_zero (json_field v ''appeal_open_deadline_ledger''))}"
  and expired_claims_distinct: "distinct ids \<Longrightarrow> distinct (expired_claims L ids (map chain ids))"
proof -
  let ?P = "\<lambda>c. \<exists>v. chain c = Some v \<and> js_int_ge L (ledger_or_zero (json_field v ''appeal_open_deadline_ledger''))"
  have "expired_claims L ids (map chain ids) = filter ?P ids"
    by (induction ids) (auto simp: expired_claims_def map_filter_simps split: option.splits)
  then show "set (expired_claims L ids (map chain ids)) = {c \<in> set ids. ?P c}"
    "distinct ids \<Longrightarrow> distinct (expired_claims L ids (map chain ids))" by simp_all
qed

lemma keeper_cycle_calls:
  assumes "distinct (map fst claims)" "ke_sourceAccount env = Some acc" "acc \<noteq> []" "ke_latestLedger env = Some L"
    and "ke_simulate env (under_appeal claims) = Some (map chain (under_appeal claims))"
  shows "\<exists>new. ks_calls (runFinalizationCycle env claims st) = ks_calls st @ new
    \<and> set new = set (expired_claims L (under_appeal claims) (map chain (under_appeal claims))) \<and> (\<forall>c. count_list new c \<le> 4)"
proof -
  let ?ids = "under_appeal claims"
  have ids: "distinct ?ids" using assms(1) by (simp add: under_appeal_def findMany_def distinct_map_filter)
  have run: "runFinalizationCycle env claims st =
      foldl (\<lambda>st c. finalizeClaimWithRetry (ke_reply env c) c st) st (expired_claims L ?ids (map chain ?ids))"
    using assms(2-5) by (auto simp: runFinalizationCycle_def Let_def expired_claims_def map_filter_simps)
  show ?thesis
    using fold_calls [of "ke_reply env" st "expired_claims L ?ids (map chain ?ids)"] expired_claims_distinct [OF ids] unfolding run by blast
qed

text \<open>What the appeal keeper finalises. In a cycle with the source account configured and the node answering,
  \<open>finalize_appeal\<close> is called for exactly the claims under appeal that the chain knows and whose
  deadline for \<^emph>\<open>opening\<close> an appeal has passed (or is absent), at least once and at most four times
  each. The deadline of the appeal's vote plays no part, so claims whose vote is still running are among
  them.\<close>

theorem appeal_keeper_calls:
  assumes "distinct (map fst claims)" "ke_sourceAccount env = Some acc" "acc \<noteq> []" "ke_latestLedger env = Some L"
    and "ke_simulate env (under_appeal claims) = Some (map chain (under_appeal claims))"
  shows "\<exists>new. ks_calls (runFinalizationCycle env claims st) = ks_calls st @ new
    \<and> set new = {c. (\<exists>r. (c, r) \<in> set claims \<and> cl_status r = UNDER_APPEAL \<and> \<not> cl_deleted r) \<and>
        (\<exists>v. chain c = Some v \<and> js_int_ge L (ledger_or_zero (json_field v ''appeal_open_deadline_ledger'')))}
    \<and> (\<forall>c. count_list new c \<le> 4)"
proof -
  have mem: "c \<in> set (under_appeal claims) \<longleftrightarrow> (\<exists>r. (c, r) \<in> set claims \<and> cl_status r = UNDER_APPEAL \<and> \<not> cl_deleted r)" for c
    by (force simp: under_appeal_def findMany_def)
  show ?thesis using keeper_cycle_calls [OF assms] unfolding expired_claims_set mem by auto
qed

text \<open>An appeal whose vote runs until ledger 500 is finalised at ledger 100.\<close>

theorem appeal_keeper_calls_witness:
  "\<exists>new. ks_calls (runFinalizationCycle
      \<lparr>ke_sourceAccount = Some ''G'', ke_latestLedger = Some 100,
       ke_simulate = (\<lambda>ids. Some (map (\<lambda>_. Some (JObj [(''appeal_open_deadline_ledger'', JNum (Fin 50)), (''appeal_deadline_ledger'', JNum (Fin 500))])) ids)),
       ke_reply = (\<lambda>_ _. Inr ())\<rparr>
      [(7, wit_claim UNDER_APPEAL)] \<lparr>ks_failures = [], ks_alerts = [], ks_calls = []\<rparr>) = new \<and> set new = {7}"
  using appeal_keeper_calls [of "[(7, wit_claim UNDER_APPEAL)]"
      "\<lparr>ke_sourceAccount = Some ''G'', ke_latestLedger = Some 100,
       ke_simulate = (\<lambda>ids. Some (map (\<lambda>_. Some (JObj [(''appeal_open_deadline_ledger'', JNum (Fin 50)), (''appeal_deadline_ledger'', JNum (Fin 500))])) ids)),
       ke_reply = (\<lambda>_ _. Inr ())\<rparr>" "''G''" 100
      "\<lambda>_. Some (JObj [(''appeal_open_deadline_ledger'', JNum (Fin 50)), (''appeal_deadline_ledger'', JNum (Fin 500))])"
      "\<lparr>ks_failures = [], ks_alerts = [], ks_calls = []\<rparr>"]
  by (auto simp: json_field_def ledger_or_zero_def js_truthy_def js_int_ge_def)

end
