(* ===== verification/Monitors.thy ===== *)
theory Monitors
  imports Complex_Main Keepers Redis_Model
begin

text \<open>
  The monitors: jobs that compare what the database says with the chain or the outside world and raise
  alerts. The appeal SLA monitor (\<open>src/backend/src/maintenance/appeal-sla-monitor.service.ts\<close>), the vote
  reconciliation (\<open>maintenance/vote-reconciliation.job.ts\<close>), the solvency check
  (\<open>maintenance/solvency-monitoring.service.ts\<close>), the TLS certificate monitor with its checker
  (\<open>maintenance/tls-certificate-monitor.service.ts\<close>, \<open>common/tls/certificate-checker.service.ts\<close>) and the
  check for contract drift (\<open>maintenance/wasm-drift.service.ts\<close>).

  Replies of the node, of the TLS handshake and of the alert endpoints are arguments; log lines and
  metrics are left out.
\<close>

section \<open>Scanning in batches\<close>

definition MONITOR_BATCH_SIZE :: nat where "MONITOR_BATCH_SIZE = 50"

text \<open>
  \<open>for (i = 0; i < xs.length; i += 50) { try { reply = await simulate(batch) } catch { continue } ... }\<close>:
  \<open>look\<close> reads one batch with its reply.
\<close>

definition scan_batches :: "('a list \<Rightarrow> 'r list option) \<Rightarrow> ('a list \<Rightarrow> 'r list \<Rightarrow> 'b list) \<Rightarrow> 'a list \<Rightarrow> 'b list" where
  "scan_batches simulate look xs =
     concat (map (\<lambda>b. case simulate b of None \<Rightarrow> [] | Some rs \<Rightarrow> look b rs) (chunks MONITOR_BATCH_SIZE xs))"

section \<open>Appeal SLA monitor\<close>

definition DEFAULT_APPEAL_SLA_GRACE_LEDGERS :: int where "DEFAULT_APPEAL_SLA_GRACE_LEDGERS = 17280"

record stuck_appeal =
  su_claimId :: int
  su_appealDeadlineLedger :: jnum
  su_currentLedger :: int
  su_overdueByLedgers :: jnum

record sla_result =
  sr_currentLedger :: int
  sr_graceLedgers :: jnum
  sr_underAppealChecked :: nat
  sr_stuck :: "stuck_appeal list"
  sr_alertEmitted :: bool

text \<open>\<open>a + b\<close> and \<open>-a\<close> on numbers, without the rounding of large values.\<close>

definition js_add :: "jnum \<Rightarrow> jnum \<Rightarrow> jnum" where
  "js_add x y =
     (case (x, y) of
        (Fin a, Fin b) \<Rightarrow> Fin (a + b)
      | (Fin a, Frac m k) \<Rightarrow> Frac (a * 10 ^ k + m) k
      | (Frac m k, Fin b) \<Rightarrow> Frac (m + b * 10 ^ k) k
      | (Frac m k, Frac n l) \<Rightarrow> dec_value (m * 10 ^ l + n * 10 ^ k) (- int (k + l))
      | (NaN, _) \<Rightarrow> NaN
      | (_, NaN) \<Rightarrow> NaN
      | (Infinity p, Infinity q) \<Rightarrow> if p = q then Infinity p else NaN
      | (Infinity p, _) \<Rightarrow> Infinity p
      | (_, Infinity q) \<Rightarrow> Infinity q)"

definition js_neg :: "jnum \<Rightarrow> jnum" where
  "js_neg x = (case x of NaN \<Rightarrow> NaN | Infinity p \<Rightarrow> Infinity (\<not> p) | Fin a \<Rightarrow> Fin (- a) | Frac m k \<Rightarrow> Frac (- m) k)"

definition text_ledger :: "string \<Rightarrow> jnum option" where
  "text_ledger s = (case parseInt s of NaN \<Rightarrow> None | x \<Rightarrow> Some x)"

definition extractLedger :: "jsval \<Rightarrow> string \<Rightarrow> jnum option" where
  "extractLedger claimData fieldName =
     (case json_field claimData fieldName of
        JNum x \<Rightarrow> if js_isFinite x then Some x else None
      | JStr s \<Rightarrow> text_ledger s
      | JObj fs \<Rightarrow> (case json_field (JObj fs) ''_'' of JNum x \<Rightarrow> Some x | JStr s \<Rightarrow> text_ledger s | _ \<Rightarrow> None)
      | _ \<Rightarrow> None)"

text \<open>The claims of one batch that were checked, with their deadlines.\<close>

definition appeal_deadline :: "int \<Rightarrow> jsval option \<Rightarrow> (int \<times> jnum) option" where
  "appeal_deadline claimId onChain =
     (case onChain of None \<Rightarrow> None | Some v \<Rightarrow> map_option (\<lambda>d. (claimId, d)) (extractLedger v ''appeal_deadline_ledger''))"

definition check_appeals :: "int list \<Rightarrow> jsval option list \<Rightarrow> (int \<times> jnum) list" where
  "check_appeals ids onChainClaims = List.map_filter (\<lambda>(c, r). appeal_deadline c r) (zip ids onChainClaims)"

definition stuck_of :: "jnum \<Rightarrow> int \<Rightarrow> (int \<times> jnum) list \<Rightarrow> stuck_appeal list" where
  "stuck_of graceLedgers currentLedger checked =
     map (\<lambda>(c, d). \<lparr>su_claimId = c, su_appealDeadlineLedger = d, su_currentLedger = currentLedger,
                   su_overdueByLedgers = js_add (Fin currentLedger) (js_neg d)\<rparr>)
       (filter (\<lambda>(_, d). js_int_gt currentLedger (js_add d graceLedgers)) checked)"

record sla_env =
  se_enabled :: "string option"       \<comment> \<open>\<open>APPEAL_SLA_MONITOR_ENABLED\<close>\<close>
  se_graceLedgers :: "string option"  \<comment> \<open>\<open>APPEAL_SLA_GRACE_LEDGERS\<close>\<close>
  se_webhookUrl :: string
  se_webhookSecret :: string
  se_latestLedger :: "int option"
  se_simulate :: "int list \<Rightarrow> jsval option list option"

text \<open>A post to the alert endpoint: where, with which secret header, and the claims in it.\<close>

definition sla_webhook :: "sla_env \<Rightarrow> sla_result \<Rightarrow> (string \<times> string option \<times> stuck_appeal list) list" where
  "sla_webhook env result =
     (let url = trim (se_webhookUrl env); secret = trim (se_webhookSecret env) in
      if url = [] then [] else [(url, if secret = [] then None else Some secret, sr_stuck result)])"

definition checkStuckAppeals ::
  "sla_env \<Rightarrow> (int, claim_row) table \<Rightarrow> (sla_result \<times> (string \<times> string option \<times> stuck_appeal list) list) option" where
  "checkStuckAppeals env claims =
     (let graceLedgers = (case se_graceLedgers env of None \<Rightarrow> Fin DEFAULT_APPEAL_SLA_GRACE_LEDGERS | Some s \<Rightarrow> js_Number s) in
      case se_latestLedger env of
        None \<Rightarrow> None
      | Some currentLedger \<Rightarrow>
          let checked = scan_batches (se_simulate env) check_appeals (sort (under_appeal claims));
              stuck = stuck_of graceLedgers currentLedger checked;
              result = \<lparr>sr_currentLedger = currentLedger, sr_graceLedgers = graceLedgers,
                        sr_underAppealChecked = length checked, sr_stuck = stuck, sr_alertEmitted = (0 < length stuck)\<rparr>
          in Some (result, if 0 < length stuck then sla_webhook env result else []))"

definition runScheduledCheck ::
  "sla_env \<Rightarrow> (int, claim_row) table \<Rightarrow> (sla_result \<times> (string \<times> string option \<times> stuck_appeal list) list) option" where
  "runScheduledCheck env claims =
     (let enabledRaw = (case se_enabled env of None \<Rightarrow> ''true'' | Some s \<Rightarrow> s) in
      if enabledRaw = ''true'' \<or> enabledRaw = ''1'' then checkStuckAppeals env claims else None)"

section \<open>Vote reconciliation\<close>

record vote_mismatch =
  vm_claimId :: int
  vm_indexedApprove :: int
  vm_indexedReject :: int
  vm_onChainApprove :: jnum
  vm_onChainReject :: jnum

record vote_result =
  vr_totalChecked :: nat
  vr_mismatchedClaimIds :: "vote_mismatch list"

definition extractVoteCount :: "jsval \<Rightarrow> string \<Rightarrow> jnum option" where
  "extractVoteCount claimData fieldName =
     (case json_field claimData fieldName of
        JNum x \<Rightarrow> Some x
      | JStr s \<Rightarrow> (case parseInt s of NaN \<Rightarrow> None | x \<Rightarrow> Some x)
      | _ \<Rightarrow> None)"

definition tally_count :: "jsval \<Rightarrow> string \<Rightarrow> jnum" where
  "tally_count v f = (case extractVoteCount v f of Some x \<Rightarrow> x | None \<Rightarrow> Fin 0)"

text \<open>A claim the node returned, with both tallies.\<close>

definition compare_tally :: "int \<times> claim_row \<Rightarrow> jsval option \<Rightarrow> vote_mismatch option" where
  "compare_tally ic onChain =
     (case onChain of
        None \<Rightarrow> None
      | Some v \<Rightarrow> Some \<lparr>vm_claimId = fst ic, vm_indexedApprove = cl_approveVotes (snd ic), vm_indexedReject = cl_rejectVotes (snd ic),
                        vm_onChainApprove = tally_count v ''approve_votes'', vm_onChainReject = tally_count v ''reject_votes''\<rparr>)"

definition compare_tallies :: "(int \<times> claim_row) list \<Rightarrow> jsval option list \<Rightarrow> vote_mismatch list" where
  "compare_tallies batch onChainClaims = List.map_filter (\<lambda>(c, r). compare_tally c r) (zip batch onChainClaims)"

definition is_mismatch :: "vote_mismatch \<Rightarrow> bool" where
  "is_mismatch m = (Fin (vm_indexedApprove m) \<noteq> vm_onChainApprove m \<or> Fin (vm_indexedReject m) \<noteq> vm_onChainReject m)"

definition votes_runReconciliation :: "(int list \<Rightarrow> jsval option list option) \<Rightarrow> (int, claim_row) table \<Rightarrow> vote_result" where
  "votes_runReconciliation simulate claims =
     (let compared = scan_batches (\<lambda>b. simulate (map fst b)) compare_tallies
            (sort_key fst (findMany (\<lambda>_ c. \<not> cl_isFinalized c) claims))
      in \<lparr>vr_totalChecked = length compared, vr_mismatchedClaimIds = filter is_mismatch compared\<rparr>)"

section \<open>Solvency check\<close>

datatype solvency_status = Sol_ok | Sol_degraded | Sol_unknown

record solvency_snapshot =
  ss_status :: solvency_status
  ss_thresholdStroops :: string
  ss_contractBalanceStroops :: "string option"
  ss_outstandingApprovedStroops :: "string option"
  ss_bufferStroops :: "string option"
  ss_alertEmitted :: bool
  ss_rpcError :: "string option"
  ss_skipReason :: "string option"

text \<open>A claim as the aggregate query sees it.\<close>

record tenant_claim = claim_row +
  tc_tenantId :: "string option"

record solvency_env =
  sv_enabled :: "string option"       \<comment> \<open>\<open>SOLVENCY_MONITORING_ENABLED\<close>\<close>
  sv_threshold :: "string option"     \<comment> \<open>\<open>SOLVENCY_BUFFER_THRESHOLD_STROOPS\<close>\<close>
  sv_contractId :: string
  sv_sourceAccount :: string
  sv_tenantId :: string
  sv_balance :: "string + string"     \<comment> \<open>\<open>simulateGetTreasuryBalance\<close>: \<open>Inl\<close> the error's message\<close>
  sv_cast :: "string \<Rightarrow> rat option"   \<comment> \<open>\<open>CAST(amount AS DECIMAL)\<close>, \<open>None\<close> when the database refuses it\<close>
  sv_outbound :: "bool option"        \<comment> \<open>the optional outbound service, and whether its queue accepts the alert\<close>
  sv_webhookUrl :: string

datatype solvency_alert = Queued string | Posted string string    \<comment> \<open>the url and the buffer in the payload\<close>

definition SOLVENCY_SNAPSHOT_REDIS_KEY :: string where "SOLVENCY_SNAPSHOT_REDIS_KEY = ''solvency:snapshot:v1''"
definition SOLVENCY_SNAPSHOT_TTL_SECONDS :: int where "SOLVENCY_SNAPSHOT_TTL_SECONDS = 60 * 60 * 24 * 7"

definition persistSnapshot :: "solvency_snapshot \<Rightarrow> solvency_snapshot redis \<Rightarrow> solvency_snapshot redis" where
  "persistSnapshot snap r = snd (redis_set SOLVENCY_SNAPSHOT_REDIS_KEY snap SOLVENCY_SNAPSHOT_TTL_SECONDS r)"

definition getLatestSnapshot :: "solvency_snapshot redis \<Rightarrow> solvency_snapshot option" where
  "getLatestSnapshot r = (case fst (redis_get SOLVENCY_SNAPSHOT_REDIS_KEY r) of Inr v \<Rightarrow> v | Inl _ \<Rightarrow> None)"

definition counts_as_outstanding :: "string \<Rightarrow> tenant_claim \<Rightarrow> bool" where
  "counts_as_outstanding tenantFilter c =
     (cl_status c = APPROVED \<and> (tenantFilter = [] \<or> tc_tenantId c = Some tenantFilter))"

text \<open>The sum as text up to the decimal point is the sum rounded towards zero.\<close>

definition truncate_rat :: "rat \<Rightarrow> int" where
  "truncate_rat q = (if q < 0 then - \<lfloor>- q\<rfloor> else \<lfloor>q\<rfloor>)"

definition sumApprovedUnpaidClaims :: "solvency_env \<Rightarrow> (int, tenant_claim) table \<Rightarrow> int option" where
  "sumApprovedUnpaidClaims env claims =
     (let amounts = map (\<lambda>(_, c). sv_cast env (cl_amount c)) (filter (\<lambda>(_, c). counts_as_outstanding (trim (sv_tenantId env)) c) claims)
      in if list_all (\<lambda>a. a \<noteq> None) amounts then Some (truncate_rat (sum_list (map the amounts))) else None)"

definition unknown_snapshot :: "int \<Rightarrow> string option \<Rightarrow> string option \<Rightarrow> int option \<Rightarrow> solvency_snapshot" where
  "unknown_snapshot threshold skipReason rpcError outstanding =
     \<lparr>ss_status = Sol_unknown, ss_thresholdStroops = show_int threshold, ss_contractBalanceStroops = None,
      ss_outstandingApprovedStroops = map_option show_int outstanding, ss_bufferStroops = None, ss_alertEmitted = False,
      ss_rpcError = rpcError, ss_skipReason = skipReason\<rparr>"

definition solvency_sendWebhookAlert :: "solvency_env \<Rightarrow> string \<Rightarrow> bool \<times> solvency_alert list" where
  "solvency_sendWebhookAlert env buffer =
     (case sv_outbound env of
        Some False \<Rightarrow> (False, [])
      | out \<Rightarrow> (True, (if out = None then [] else [Queued buffer]) @
                     (if trim (sv_webhookUrl env) = [] then [] else [Posted (trim (sv_webhookUrl env)) buffer])))"

text \<open>\<open>None\<close> as the first component is a run that throws.\<close>

definition runSolvencyCheck ::
  "solvency_env \<Rightarrow> (int, tenant_claim) table \<Rightarrow> solvency_snapshot redis \<Rightarrow>
   solvency_snapshot option \<times> solvency_snapshot redis \<times> solvency_alert list" where
  "runSolvencyCheck env claims r =
     (let enabledRaw = (case sv_enabled env of None \<Rightarrow> ''true'' | Some s \<Rightarrow> s) in
      case js_BigInt (case sv_threshold env of None \<Rightarrow> ''0'' | Some s \<Rightarrow> s) of
        None \<Rightarrow> (None, r, [])
      | Some threshold \<Rightarrow>
          let stop = (\<lambda>snap. (Some snap, persistSnapshot snap r, [])) in
          if \<not> (enabledRaw = ''true'' \<or> enabledRaw = ''1'')
            then stop (unknown_snapshot threshold (Some ''SOLVENCY_MONITORING_ENABLED=false'') None None)
          else if sv_contractId env = []
            then stop (unknown_snapshot threshold (Some ''CONTRACT_ID not configured'') None None)
          else if trim (sv_sourceAccount env) = []
            then stop (unknown_snapshot threshold (Some ''SOLVENCY_SIMULATION_SOURCE_ACCOUNT not set'') None None)
          else (case sumApprovedUnpaidClaims env claims of
              None \<Rightarrow> stop (unknown_snapshot threshold None (Some ''db_aggregate_failed'') None)
            | Some outstanding \<Rightarrow>
                (case sv_balance env of
                   Inl msg \<Rightarrow> stop (unknown_snapshot threshold None (Some msg) (Some outstanding))
                 | Inr text \<Rightarrow>
                     (case js_BigInt text of
                        None \<Rightarrow> stop (unknown_snapshot threshold None (Some ''SyntaxError'') (Some outstanding))
                      | Some balance \<Rightarrow>
                          let buffer = balance - outstanding;
                              below = (buffer < threshold);
                              snap = \<lparr>ss_status = (if below then Sol_degraded else Sol_ok), ss_thresholdStroops = show_int threshold,
                                ss_contractBalanceStroops = Some (show_int balance), ss_outstandingApprovedStroops = Some (show_int outstanding),
                                ss_bufferStroops = Some (show_int buffer), ss_alertEmitted = below, ss_rpcError = None, ss_skipReason = None\<rparr>;
                              r' = persistSnapshot snap r
                          in if below
                             then (case solvency_sendWebhookAlert env (show_int buffer) of
                                 (False, as) \<Rightarrow> (None, r', as) | (True, as) \<Rightarrow> (Some snap, r', as))
                             else (Some snap, r', [])))))"

section \<open>Contract drift\<close>

record registry_entry =
  re_name :: string
  re_contractId :: string
  re_expectedWasmHash :: string

record drift_row =
  dr_contractName :: string
  dr_contractId :: string
  dr_expectedHash :: string
  dr_actualHash :: string

text \<open>\<open>/\$\{([^}]+)\}/g\<close>: every \<open>${KEY}\<close> with a non-empty key is replaced by its value.\<close>

function resolveEnv :: "(string \<Rightarrow> string) \<Rightarrow> string \<Rightarrow> string" where
  "resolveEnv cfg [] = []"
| "resolveEnv cfg (c # s) =
     (if c = CHR ''$'' \<and> take 1 s = ''{'' then
        (case split_first (CHR ''}'') (drop 1 s) of
           Some (key, rest) \<Rightarrow> if key = [] then c # resolveEnv cfg s else cfg key @ resolveEnv cfg rest
         | None \<Rightarrow> c # resolveEnv cfg s)
      else c # resolveEnv cfg s)"
  by pat_completeness auto

lemma split_first_length: "split_first c s = Some (a, b) \<Longrightarrow> length b < length s"
  by (induction s arbitrary: a) (auto split: if_splits)

termination resolveEnv
  by (relation "measure (\<lambda>(_, s). length s)") (auto dest!: split_first_length)

type_synonym drift_state = "(string, drift_row) table \<times> drift_row list"    \<comment> \<open>alert rows, webhooks\<close>

definition handleDrift :: "string \<Rightarrow> string \<Rightarrow> string \<Rightarrow> string \<Rightarrow> drift_state \<Rightarrow> drift_state" where
  "handleDrift name contractId expected actual st =
     (let dedupKey = name @ '':'' @ actual;
          row = \<lparr>dr_contractName = name, dr_contractId = contractId, dr_expectedHash = expected, dr_actualHash = actual\<rparr>
      in case findUnique (fst st) dedupKey of
           Some _ \<Rightarrow> st
         | None \<Rightarrow> (fst st @ [(dedupKey, row)], snd st @ [row]))"

text \<open>\<open>onChain\<close> gives the hash of a contract, \<open>None\<close> where fetching it throws.\<close>

definition check_entry :: "(string \<Rightarrow> string) \<Rightarrow> (string \<Rightarrow> string option) \<Rightarrow> drift_state \<Rightarrow> registry_entry \<Rightarrow> drift_state" where
  "check_entry cfg onChain st entry =
     (let contractId = resolveEnv cfg (re_contractId entry);
          expectedHash = resolveEnv cfg (re_expectedWasmHash entry)
      in if contractId = [] \<or> expectedHash = [] then st
         else case onChain contractId of
             None \<Rightarrow> st
           | Some onChainHash \<Rightarrow> if onChainHash \<noteq> expectedHash then handleDrift (re_name entry) contractId expectedHash onChainHash st else st)"

definition checkDrift :: "registry_entry list \<Rightarrow> (string \<Rightarrow> string) \<Rightarrow> drift_state \<Rightarrow> (string \<Rightarrow> string option) \<Rightarrow> drift_state" where
  "checkDrift registry cfg st onChain = foldl (check_entry cfg onChain) st registry"

section \<open>What a scan in batches finds\<close>

lemma map_filter_concat: "concat (map (List.map_filter f) xss) = List.map_filter f (concat xss)"
  by (induction xss) (simp_all add: map_filter_def)

text \<open>A job that reads each entry of a batch by itself.\<close>

locale entrywise_scan =
  fixes look :: "'a list \<Rightarrow> 'r list \<Rightarrow> 'b list"
    and entry :: "'a \<Rightarrow> 'r \<Rightarrow> 'b option"
  assumes look_entries: "look xs rs = List.map_filter (\<lambda>(x, r). entry x r) (zip xs rs)"
begin

lemma look_map: "look b (map chain b) = List.map_filter (\<lambda>x. entry x (chain x)) b"
  by (induction b) (simp_all add: look_entries map_filter_simps split: option.split)

lemma scan_answered:
  assumes "\<And>b. simulate b = Some (map chain b)"
  shows "scan_batches simulate look xs = List.map_filter (\<lambda>x. entry x (chain x)) xs"
proof -
  have "scan_batches simulate look xs = concat (map (List.map_filter (\<lambda>x. entry x (chain x))) (chunks MONITOR_BATCH_SIZE xs))"
    by (simp add: scan_batches_def assms look_map)
  also have "\<dots> = List.map_filter (\<lambda>x. entry x (chain x)) (concat (chunks MONITOR_BATCH_SIZE xs))"
    by (rule map_filter_concat)
  also have "concat (chunks MONITOR_BATCH_SIZE xs) = xs" by (rule concat_chunks) (simp add: MONITOR_BATCH_SIZE_def)
  finally show ?thesis .
qed

lemma scan_sound:
  assumes "\<And>b. simulate b = None \<or> simulate b = Some (map chain b)" "y \<in> set (scan_batches simulate look xs)"
  shows "\<exists>x \<in> set xs. entry x (chain x) = Some y"
proof -
  obtain b where b: "b \<in> set (chunks MONITOR_BATCH_SIZE xs)" "y \<in> set (case simulate b of None \<Rightarrow> [] | Some rs \<Rightarrow> look b rs)"
    using assms(2) unfolding scan_batches_def by auto
  then have "y \<in> set (List.map_filter (\<lambda>x. entry x (chain x)) b)" using assms(1) [of b] by (auto simp: look_map)
  then obtain x where "x \<in> set b" "entry x (chain x) = Some y" by (auto simp: map_filter_def)
  moreover have "set b \<subseteq> set (concat (chunks MONITOR_BATCH_SIZE xs))" using b(1) by auto
  moreover have "concat (chunks MONITOR_BATCH_SIZE xs) = xs" by (rule concat_chunks) (simp add: MONITOR_BATCH_SIZE_def)
  ultimately show ?thesis by auto
qed

end

interpretation sla: entrywise_scan check_appeals appeal_deadline
  by unfold_locales (simp add: check_appeals_def)

interpretation tally: entrywise_scan compare_tallies compare_tally
  by unfold_locales (simp add: compare_tallies_def)


text \<open>The SLA monitor reports exactly the appeals that are overdue, and each of them is one the keeper tried.
  When the node answers, the claims reported are those under appeal whose deadline plus the grace period
  lies before the current ledger, and an alert goes out if and only if there is one. If the window for
  opening an appeal never closes after the appeal's own deadline and the grace is not negative, a cycle
  of the appeal keeper at the same ledger calls \<open>finalize_appeal\<close> for every claim reported.\<close>

theorem stuck_appeals_were_tried:
  assumes "\<And>ids. se_simulate env ids = Some (map chain ids)" "se_latestLedger env = Some L"
    and "se_graceLedgers env = None"
    and "\<And>c v. chain c = Some v \<Longrightarrow> \<exists>d opn. extractLedger v ''appeal_deadline_ledger'' = Some (Fin d) \<and>
        json_field v ''appeal_open_deadline_ledger'' = JNum (Fin opn) \<and> opn \<le> d"
    and "distinct (map fst claims)" "ke_sourceAccount kenv = Some acc" "acc \<noteq> []" "ke_latestLedger kenv = Some L"
    and "ke_simulate kenv (under_appeal claims) = Some (map chain (under_appeal claims))"
  shows "\<exists>res posts new. checkStuckAppeals env claims = Some (res, posts)
    \<and> su_claimId ` set (sr_stuck res) = {c \<in> set (under_appeal claims). \<exists>v d. chain c = Some v \<and>
        extractLedger v ''appeal_deadline_ledger'' = Some (Fin d) \<and> d + DEFAULT_APPEAL_SLA_GRACE_LEDGERS < L}
    \<and> (sr_alertEmitted res \<longleftrightarrow> sr_stuck res \<noteq> []) \<and> (posts = [] \<longleftrightarrow> sr_stuck res = [] \<or> trim (se_webhookUrl env) = [])
    \<and> ks_calls (runFinalizationCycle kenv claims st) = ks_calls st @ new \<and> su_claimId ` set (sr_stuck res) \<subseteq> set new"
proof -
  let ?ids = "sort (under_appeal claims)"
  let ?stuck = "stuck_of (Fin DEFAULT_APPEAL_SLA_GRACE_LEDGERS) L (List.map_filter (\<lambda>c. appeal_deadline c (chain c)) ?ids)"
  have ids: "su_claimId ` set ?stuck = {c \<in> set (under_appeal claims). \<exists>v d. chain c = Some v \<and>
        extractLedger v ''appeal_deadline_ledger'' = Some (Fin d) \<and> d + DEFAULT_APPEAL_SLA_GRACE_LEDGERS < L}" (is "_ = ?S")
  proof (intro equalityI subsetI)
    fix c assume "c \<in> su_claimId ` set ?stuck"
    then obtain d where d: "c \<in> set (under_appeal claims)" "appeal_deadline c (chain c) = Some (c, d)"
        "js_int_gt L (js_add d (Fin DEFAULT_APPEAL_SLA_GRACE_LEDGERS))"
      by (auto simp: stuck_of_def map_filter_def appeal_deadline_def split: option.splits)
    then obtain v where v: "chain c = Some v" "extractLedger v ''appeal_deadline_ledger'' = Some d"
      by (auto simp: appeal_deadline_def split: option.splits)
    then obtain d' where "d = Fin d'" using assms(4) [of c v] by auto
    then show "c \<in> ?S" using d v by (auto simp: js_add_def js_int_gt_def)
  next
    fix c assume "c \<in> ?S"
    then obtain v d where "c \<in> set (under_appeal claims)" "chain c = Some v"
        "extractLedger v ''appeal_deadline_ledger'' = Some (Fin d)" "d + DEFAULT_APPEAL_SLA_GRACE_LEDGERS < L" by blast
    then show "c \<in> su_claimId ` set ?stuck"
      by (force simp: stuck_of_def map_filter_def appeal_deadline_def js_add_def js_int_gt_def image_iff)
  qed
  obtain new where new: "ks_calls (runFinalizationCycle kenv claims st) = ks_calls st @ new"
      "set new = set (expired_claims L (under_appeal claims) (map chain (under_appeal claims)))"
    using keeper_cycle_calls [OF assms(5-9)] by blast
  have "c \<in> set new" if c: "c \<in> ?S" for c
  proof -
    obtain v d where v: "c \<in> set (under_appeal claims)" "chain c = Some v" "extractLedger v ''appeal_deadline_ledger'' = Some (Fin d)"
        "d + DEFAULT_APPEAL_SLA_GRACE_LEDGERS < L" using c by blast
    then obtain opn where "json_field v ''appeal_open_deadline_ledger'' = JNum (Fin opn)" "opn \<le> d" using assms(4) [of c v] by auto
    then have "js_int_ge L (ledger_or_zero (json_field v ''appeal_open_deadline_ledger''))"
      using v(4) by (auto simp: js_int_ge_def ledger_or_zero_def js_truthy_def DEFAULT_APPEAL_SLA_GRACE_LEDGERS_def)
    then show ?thesis unfolding new(2) expired_claims_set using v(1,2) by blast
  qed
  moreover have "\<exists>res posts. checkStuckAppeals env claims = Some (res, posts) \<and> sr_stuck res = ?stuck
      \<and> (sr_alertEmitted res \<longleftrightarrow> ?stuck \<noteq> []) \<and> (posts = [] \<longleftrightarrow> ?stuck = [] \<or> trim (se_webhookUrl env) = [])"
    using assms(2,3) by (simp add: checkStuckAppeals_def sla.scan_answered [OF assms(1)] Let_def sla_webhook_def)
  ultimately show ?thesis using ids new(1) by auto
qed

abbreviation (input) "wit_appeal \<equiv> JObj [(''appeal_open_deadline_ledger'', JNum (Fin 5)), (''appeal_deadline_ledger'', JNum (Fin 10))]"

abbreviation (input) "wit_sla url \<equiv> \<lparr>se_enabled = None, se_graceLedgers = None, se_webhookUrl = url, se_webhookSecret = [],
  se_latestLedger = Some 20000, se_simulate = (\<lambda>ids. Some (map (\<lambda>_. Some wit_appeal) ids))\<rparr>"

abbreviation (input) "wit_keeper \<equiv> \<lparr>ke_sourceAccount = Some ''G'', ke_latestLedger = Some 20000,
  ke_simulate = (\<lambda>ids. Some (map (\<lambda>_. Some wit_appeal) ids)), ke_reply = (\<lambda>_ _. Inl ''timeout'')\<rparr>"

theorem stuck_appeals_were_tried_witness:
  "\<exists>res posts new. checkStuckAppeals (wit_sla []) [(7, wit_claim UNDER_APPEAL)] = Some (res, posts) \<and> su_claimId ` set (sr_stuck res) = {7}
    \<and> ks_calls (runFinalizationCycle wit_keeper [(7, wit_claim UNDER_APPEAL)] \<lparr>ks_failures = [], ks_alerts = [], ks_calls = []\<rparr>) = new
    \<and> 7 \<in> set new"
proof -
  have f: "extractLedger wit_appeal ''appeal_deadline_ledger'' = Some (Fin 10)" "json_field wit_appeal ''appeal_open_deadline_ledger'' = JNum (Fin 5)"
    by (simp_all add: extractLedger_def json_field_def js_isFinite_def)
  have u: "under_appeal [(7, wit_claim UNDER_APPEAL)] = [7]" by (simp add: under_appeal_def findMany_def)
  have d: "\<exists>d opn. extractLedger v ''appeal_deadline_ledger'' = Some (Fin d) \<and>
        json_field v ''appeal_open_deadline_ledger'' = JNum (Fin opn) \<and> opn \<le> d" if "Some wit_appeal = Some v" for v
    using that f by (intro exI [of _ 10] exI [of _ 5]) auto
  have "{c \<in> set (under_appeal [(7, wit_claim UNDER_APPEAL)]). \<exists>v d. Some wit_appeal = Some v \<and>
        extractLedger v ''appeal_deadline_ledger'' = Some (Fin d) \<and> d + DEFAULT_APPEAL_SLA_GRACE_LEDGERS < 20000} = {7}"
    unfolding u using f by (auto simp: DEFAULT_APPEAL_SLA_GRACE_LEDGERS_def)
  then show ?thesis
    using stuck_appeals_were_tried [where env = "wit_sla []" and chain = "\<lambda>_. Some wit_appeal" and L = 20000 and kenv = wit_keeper
        and claims = "[(7, wit_claim UNDER_APPEAL)]" and acc = "''G''" and st = "\<lparr>ks_failures = [], ks_alerts = [], ks_calls = []\<rparr>",
        OF _ _ _ d] by (auto simp del: One_nat_def)
qed

text \<open>Vote reconciliation reports a claim if and only if its indexed tally differs from the chain's: over the
  claims that are not finalised and that the node knows, when the node answers. A count the node does not
  give counts as zero.\<close>

theorem vote_drift_exact:
  assumes "\<And>ids. simulate ids = Some (map chain ids)"
  shows "vm_claimId ` set (vr_mismatchedClaimIds (votes_runReconciliation simulate claims)) =
      {c. \<exists>r v. (c, r) \<in> set claims \<and> \<not> cl_isFinalized r \<and> chain c = Some v \<and>
        (tally_count v ''approve_votes'' \<noteq> Fin (cl_approveVotes r) \<or> tally_count v ''reject_votes'' \<noteq> Fin (cl_rejectVotes r))}
    \<and> vr_totalChecked (votes_runReconciliation simulate claims) = length (filter (\<lambda>(c, r). \<not> cl_isFinalized r \<and> chain c \<noteq> None) claims)"
proof -
  let ?rows = "sort_key fst (findMany (\<lambda>_ c. \<not> cl_isFinalized c) claims)"
  have scan: "scan_batches (\<lambda>b. simulate (map fst b)) compare_tallies ?rows = List.map_filter (\<lambda>x. compare_tally x (chain (fst x))) ?rows"
    by (rule tally.scan_answered) (simp add: assms)
  have "length (List.map_filter (\<lambda>x. compare_tally x (chain (fst x))) ?rows) = length (filter (\<lambda>x. chain (fst x) \<noteq> None) ?rows)"
    by (induction ?rows) (auto simp: map_filter_def compare_tally_def split: option.split)
  also have "\<dots> = length (filter (\<lambda>x. chain (fst x) \<noteq> None) (findMany (\<lambda>_ c. \<not> cl_isFinalized c) claims))"
    by (metis mset_filter mset_sort size_mset)
  also have "\<dots> = length (filter (\<lambda>(c, r). \<not> cl_isFinalized r \<and> chain c \<noteq> None) claims)"
    by (simp add: findMany_def case_prod_unfold)
  finally have n: "length (List.map_filter (\<lambda>x. compare_tally x (chain (fst x))) ?rows) = \<dots>" .
  show ?thesis unfolding votes_runReconciliation_def Let_def scan
    using n by (force simp: map_filter_def findMany_def compare_tally_def is_mismatch_def image_iff split: option.splits)
qed


abbreviation (input) "wit_open_claim \<equiv> (wit_claim PENDING)\<lparr>cl_isFinalized := False\<rparr>"

theorem vote_drift_exact_witness:
  "vm_claimId ` set (vr_mismatchedClaimIds (votes_runReconciliation
      (\<lambda>ids. Some (map (\<lambda>_. Some (JObj [(''approve_votes'', JNum (Fin 1))])) ids)) [(7, wit_open_claim)])) = {7}"
  using vote_drift_exact [of "\<lambda>ids. Some (map (\<lambda>_. Some (JObj [(''approve_votes'', JNum (Fin 1))])) ids)"
      "\<lambda>_. Some (JObj [(''approve_votes'', JNum (Fin 1))])" "[(7, wit_open_claim)]"]
  by (simp add: tally_count_def extractVoteCount_def json_field_def)


section \<open>The solvency verdict\<close>

lemma persist_read:
  assumes "r_faults r = []"
  shows "getLatestSnapshot (persistSnapshot snap r) = Some snap"
  using assms by (simp add: getLatestSnapshot_def persistSnapshot_def redis_get_def redis_set_def c_get_def c_setex_def send_def
      se_try_def kv_live_def SOLVENCY_SNAPSHOT_TTL_SECONDS_def)

text \<open>Only the approved claims matter.\<close>

lemma sum_only_approved:
  "sumApprovedUnpaidClaims env claims = sumApprovedUnpaidClaims env (filter (\<lambda>(_, c). cl_status c = APPROVED) claims)"
  by (simp add: sumApprovedUnpaidClaims_def counts_as_outstanding_def case_prod_unfold conj_commute conj_left_commute cong: conj_cong)

definition outstanding_sum :: "solvency_env \<Rightarrow> (int, tenant_claim) table \<Rightarrow> rat" where
  "outstanding_sum env claims = sum_list (map (\<lambda>(_, c). the (sv_cast env (cl_amount c)))
     (filter (\<lambda>(_, c). counts_as_outstanding (trim (sv_tenantId env)) c) claims))"

lemma sum_approved_eval:
  assumes "\<And>c. c \<in> snd ` set claims \<Longrightarrow> sv_cast env (cl_amount c) \<noteq> None"
  shows "sumApprovedUnpaidClaims env claims = Some (truncate_rat (outstanding_sum env claims))"
proof -
  have "list_all (\<lambda>a. a \<noteq> None) (map (\<lambda>(_, c). sv_cast env (cl_amount c))
      (filter (\<lambda>(_, c). counts_as_outstanding (trim (sv_tenantId env)) c) claims))"
    unfolding list_all_iff using assms by (force simp: case_prod_unfold)
  then show ?thesis unfolding sumApprovedUnpaidClaims_def Let_def outstanding_sum_def
    by (simp add: comp_def case_prod_unfold)
qed

text \<open>The solvency verdict. With the check configured, the amounts readable and the node answering, the status is
  degraded if and only if the treasury balance minus the approved claims is below the threshold; exactly
  then an alert is raised, and the snapshot returned is the one the dashboard reads. The claims counted
  are those in status \<open>APPROVED\<close> alone: claims approved on appeal, which the contract pays like approved
  ones, change nothing in the result.\<close>

theorem solvency_verdict:
  assumes "sv_enabled env = None" "js_BigInt (case sv_threshold env of None \<Rightarrow> ''0'' | Some s \<Rightarrow> s) = Some T"
    and "sv_contractId env \<noteq> []" "trim (sv_sourceAccount env) \<noteq> []"
    and "\<And>c. c \<in> snd ` set claims \<Longrightarrow> sv_cast env (cl_amount c) \<noteq> None"
    and "sv_balance env = Inr bal" "js_BigInt bal = Some b" "sv_outbound env = Some True" "r_faults r = []"
  shows "\<exists>snap r' alerts. runSolvencyCheck env claims r = (Some snap, r', alerts) \<and> getLatestSnapshot r' = Some snap
    \<and> ss_status snap = (if b - truncate_rat (outstanding_sum env claims) < T then Sol_degraded else Sol_ok)
    \<and> (ss_alertEmitted snap \<longleftrightarrow> ss_status snap = Sol_degraded) \<and> (alerts \<noteq> [] \<longleftrightarrow> ss_status snap = Sol_degraded)
    \<and> runSolvencyCheck env (filter (\<lambda>(_, c). cl_status c = APPROVED) claims) r = runSolvencyCheck env claims r"
proof -
  have s: "sumApprovedUnpaidClaims env claims = Some (truncate_rat (outstanding_sum env claims))"
    using assms(5) by (rule sum_approved_eval)
  have "runSolvencyCheck env (filter (\<lambda>(_, c). cl_status c = APPROVED) claims) r = runSolvencyCheck env claims r"
    unfolding runSolvencyCheck_def by (simp only: sum_only_approved [of env claims])
  then show ?thesis using assms(1-4,6-9) s persist_read
    by (simp add: runSolvencyCheck_def solvency_sendWebhookAlert_def Let_def)
qed

abbreviation (input) "wit_tenant st amt \<equiv> \<lparr>cl_policyId = ''p'', cl_creatorAddress = ''GA'', cl_amount = amt, cl_asset = None, cl_description = [],
  cl_imageUrls = [], cl_status = st, cl_isFinalized = True, cl_approveVotes = 0, cl_rejectVotes = 0, cl_paidAt = None, cl_createdAtLedger = 0,
  cl_updatedAtLedger = 0, cl_txHash = None, cl_deleted = False, cl_appealsCount = 0, cl_appealTxHash = None, tc_tenantId = None\<rparr>"

abbreviation (input) "wit_solvency \<equiv> \<lparr>sv_enabled = None, sv_threshold = None, sv_contractId = ''C'', sv_sourceAccount = ''G'', sv_tenantId = [],
  sv_balance = Inr ''5'', sv_cast = (\<lambda>s. map_option of_int (js_BigInt s)), sv_outbound = Some True, sv_webhookUrl = []\<rparr>"

text \<open>A treasury of 5 with 9 owed on a successful appeal passes.\<close>

theorem solvency_verdict_witness:
  "map_option ss_status (fst (runSolvencyCheck wit_solvency [(1, wit_tenant APPEAL_APPROVED ''9'')] (redis_empty 0))) = Some Sol_ok"
proof -
  have d: "js_BigInt ''9'' = Some 9" "js_BigInt ''5'' = Some 5" "js_BigInt ''0'' = Some 0" "trim ''G'' \<noteq> []" by code_simp+
  show ?thesis
    using solvency_verdict [where env = wit_solvency and claims = "[(1, wit_tenant APPEAL_APPROVED ''9'')]" and T = 0 and b = 5
        and bal = "''5''" and r = "redis_empty 0"] d
    by (auto simp: outstanding_sum_def counts_as_outstanding_def truncate_rat_def redis_empty_def)
qed

section \<open>One alert for each drift\<close>

definition drift_inv :: "drift_state \<Rightarrow> bool" where
  "drift_inv st \<longleftrightarrow> keys_unique (fst st) \<and> snd st = map snd (fst st)"

lemma handleDrift_inv: "drift_inv st \<Longrightarrow> drift_inv (handleDrift n c e a st)"
  by (auto simp: handleDrift_def drift_inv_def Let_def keys_unique_def findUnique_None split: option.split)

lemma check_entry_inv: "drift_inv st \<Longrightarrow> drift_inv (check_entry cfg onChain st en)"
  by (simp add: check_entry_def Let_def handleDrift_inv split: option.split)

interpretation drift: step_system "checkDrift registry cfg" drift_inv
proof unfold_locales
  fix st onChain assume "drift_inv st"
  then show "drift_inv (checkDrift registry cfg st onChain)"
    unfolding checkDrift_def by (induction registry arbitrary: st) (simp_all add: check_entry_inv)
qed

lemma check_entry_keys: "fst ` set (fst st) \<subseteq> fst ` set (fst (check_entry cfg onChain st en))"
  by (auto simp: check_entry_def handleDrift_def Let_def split: option.split)

lemma checkDrift_keys: "fst ` set (fst st) \<subseteq> fst ` set (fst (checkDrift registry cfg st onChain))"
  unfolding checkDrift_def
proof (induction registry arbitrary: st)
  case (Cons en registry)
  show ?case using Cons.IH [of "check_entry cfg onChain st en"] check_entry_keys [of st cfg onChain en] by simp
qed simp

definition drifts :: "(string \<Rightarrow> string) \<Rightarrow> (string \<Rightarrow> string option) \<Rightarrow> registry_entry \<Rightarrow> string \<Rightarrow> bool" where
  "drifts cfg onChain en h \<longleftrightarrow> resolveEnv cfg (re_contractId en) \<noteq> [] \<and> resolveEnv cfg (re_expectedWasmHash en) \<noteq> [] \<and>
     onChain (resolveEnv cfg (re_contractId en)) = Some h \<and> h \<noteq> resolveEnv cfg (re_expectedWasmHash en)"

lemma checkDrift_alerts:
  assumes "en \<in> set registry" "drifts cfg onChain en h"
  shows "re_name en @ '':'' @ h \<in> fst ` set (fst (checkDrift registry cfg st onChain))"
  using assms(1) unfolding checkDrift_def
proof (induction registry arbitrary: st)
  case (Cons e registry)
  show ?case
  proof (cases "e = en")
    case True
    then have "re_name en @ '':'' @ h \<in> fst ` set (fst (check_entry cfg onChain st e))"
      using assms(2) by (auto simp: check_entry_def drifts_def handleDrift_def Let_def dest!: findUnique_SomeD intro: rev_image_eqI split: option.split)
    then show ?thesis using checkDrift_keys [of "check_entry cfg onChain st e" registry cfg onChain] by (auto simp: checkDrift_def)
  qed (use Cons in simp)
qed simp

text \<open>Drift is alerted once. Over any sequence of checks from an empty alert table, the webhooks sent are the rows
  of the table, whose keys (contract name and hash found) are distinct; and a drift the last check saw is
  among them.\<close>

theorem drift_alerted_once:
  fixes onChains :: "(string \<Rightarrow> string option) list"
  assumes "en \<in> set registry" "drifts cfg onChain en h"
  shows "\<exists>rows. run_steps (checkDrift registry cfg) ([], []) (onChains @ [onChain]) = (rows, map snd rows)
    \<and> distinct (map fst rows) \<and> re_name en @ '':'' @ h \<in> fst ` set rows"
proof -
  let ?st = "run_steps (checkDrift registry cfg) ([], []) (onChains @ [onChain])"
  have "drift_inv ?st" by (rule drift.run_inv) (simp add: drift_inv_def keys_unique_def)
  moreover have "?st = checkDrift registry cfg (run_steps (checkDrift registry cfg) ([], []) onChains) onChain"
    by (simp add: run_steps_append)
  ultimately show ?thesis using checkDrift_alerts [OF assms]
    by (intro exI [of _ "fst ?st"]) (auto simp: drift_inv_def keys_unique_def prod_eq_iff)
qed


theorem drift_alerted_once_witness:
  "\<exists>rows. run_steps (checkDrift [\<lparr>re_name = ''n'', re_contractId = ''C'', re_expectedWasmHash = ''a''\<rparr>] (\<lambda>_. [])) ([], [])
      [\<lambda>_. Some ''b'', \<lambda>_. Some ''b''] = (rows, map snd rows) \<and> distinct (map fst rows) \<and> ''n:b'' \<in> fst ` set rows"
  using drift_alerted_once [where en = "\<lparr>re_name = ''n'', re_contractId = ''C'', re_expectedWasmHash = ''a''\<rparr>"
      and registry = "[\<lparr>re_name = ''n'', re_contractId = ''C'', re_expectedWasmHash = ''a''\<rparr>]" and cfg = "\<lambda>_. []"
      and onChain = "\<lambda>_. Some ''b''" and h = "''b''" and onChains = "[\<lambda>_. Some ''b'']"]
  by (simp add: drifts_def)

end
