(* ===== verification/Tls_Monitor.thy ===== *)
theory Tls_Monitor
  imports Redis_Model "HOL-Library.Multiset"
begin

text \<open>
  The TLS certificate monitor: the checker of \<open>src/backend/src/common/tls/certificate-checker.service.ts\<close>
  with its pool of workers, and the alerts of \<open>src/backend/src/maintenance/tls-certificate-monitor.service.ts\<close>.

  What a TLS handshake yields is an argument: \<open>None\<close> where connecting fails or the date is missing or
  unreadable, otherwise the time the certificate ends. The workers run interleaved, so the pool is a step
  relation; times are milliseconds.
\<close>

section \<open>The checker\<close>

datatype cert_status = Cert_ok | Cert_expiring_soon | Cert_unreachable

record cert_result =
  ce_hostname :: string
  ce_status :: cert_status
  ce_expiryDate :: "int option"
  ce_daysRemaining :: "int option"

definition DAY_MS :: int where "DAY_MS = 1000 * 60 * 60 * 24"

definition checkCertificateExpiry :: "int \<Rightarrow> (string \<Rightarrow> int option) \<Rightarrow> string \<Rightarrow> cert_result" where
  "checkCertificateExpiry now handshake hostname =
     (case handshake hostname of
        None \<Rightarrow> \<lparr>ce_hostname = hostname, ce_status = Cert_unreachable, ce_expiryDate = None, ce_daysRemaining = None\<rparr>
      | Some expiryDate \<Rightarrow>
          let daysRemaining = ceil_div (expiryDate - now) DAY_MS
          in \<lparr>ce_hostname = hostname, ce_status = (if 0 < daysRemaining then Cert_ok else Cert_expiring_soon),
              ce_expiryDate = Some expiryDate, ce_daysRemaining = Some daysRemaining\<rparr>)"

text \<open>
  \<open>checkCertificatesExpiry\<close>: the workers share a queue. An idle worker takes the next host; a host that
  is the empty string is dropped; a check that ends appends its result.
\<close>

record pool =
  po_queue :: "string list"
  po_idle :: nat
  po_busy :: "string list"
  po_results :: "cert_result list"

definition pool_init :: "nat \<Rightarrow> string list \<Rightarrow> pool" where
  "pool_init concurrency hostnames =
     \<lparr>po_queue = hostnames, po_idle = min concurrency (length hostnames), po_busy = [], po_results = []\<rparr>"

inductive pool_step :: "(string \<Rightarrow> cert_result) \<Rightarrow> pool \<Rightarrow> pool \<Rightarrow> bool" for check where
  take_host: "\<lbrakk>po_queue p = h # q; h \<noteq> []; 0 < po_idle p\<rbrakk>
    \<Longrightarrow> pool_step check p (p\<lparr>po_queue := q, po_idle := po_idle p - 1, po_busy := h # po_busy p\<rparr>)"
| skip_host: "\<lbrakk>po_queue p = [] # q; 0 < po_idle p\<rbrakk> \<Longrightarrow> pool_step check p (p\<lparr>po_queue := q\<rparr>)"
| end_check: "h \<in> set (po_busy p)
    \<Longrightarrow> pool_step check p (p\<lparr>po_idle := po_idle p + 1, po_busy := remove1 h (po_busy p), po_results := po_results p @ [check h]\<rparr>)"

inductive_cases pool_stepE: "pool_step check p q"

text \<open>\<open>Promise.all\<close> resolves when no worker has anything left to do.\<close>

definition pool_done :: "(string \<Rightarrow> cert_result) \<Rightarrow> pool \<Rightarrow> bool" where
  "pool_done check p \<longleftrightarrow> (\<forall>q. \<not> pool_step check p q)"

section \<open>The monitor\<close>

datatype alert_tier = Tier_1 | Tier_2

record tls_alert =
  ta_tier :: alert_tier
  ta_hostname :: string
  ta_expiryDate :: int
  ta_daysRemaining :: int

definition TIER_1_THRESHOLD_DAYS :: int where "TIER_1_THRESHOLD_DAYS = 30"
definition TIER_2_THRESHOLD_DAYS :: int where "TIER_2_THRESHOLD_DAYS = 7"

definition tier_name :: "alert_tier \<Rightarrow> string" where
  "tier_name t = (case t of Tier_1 \<Rightarrow> ''tier_1'' | Tier_2 \<Rightarrow> ''tier_2'')"

definition alert_key :: "string \<Rightarrow> alert_tier \<Rightarrow> string" where
  "alert_key hostname tier = ''tls:alert:'' @ hostname @ '':'' @ tier_name tier"

record tls_run =
  tr_expiringAlerts :: "(string \<times> alert_tier) list"
  tr_unreachable :: "string list"

text \<open>Redis keeps, for an alert, the tier and the days (any value suppresses), and the last snapshot.\<close>

datatype tls_value = Fired alert_tier int | Snapshot nat tls_run

type_synonym tls_redis = "tls_value redis"

definition checkAndFireAlert ::
  "int \<Rightarrow> string \<Rightarrow> alert_tier \<Rightarrow> int \<Rightarrow> int \<Rightarrow> tls_redis \<times> tls_alert list \<Rightarrow> bool \<times> tls_redis \<times> tls_alert list" where
  "checkAndFireAlert now hostname tier daysRemaining expiryDate s =
     (let (r, alerts) = s;
          (got, r1) = redis_get (alert_key hostname tier) r
      in case got of
           Inr (Some _) \<Rightarrow> (False, r1, alerts)
         | _ \<Rightarrow>
             let alertEvent = \<lparr>ta_tier = tier, ta_hostname = hostname, ta_expiryDate = expiryDate, ta_daysRemaining = daysRemaining\<rparr>;
                 secondsUntilExpiry = max 1 ((expiryDate - now) div 1000);
                 (_, r2) = redis_set (alert_key hostname tier) (Fired tier daysRemaining) secondsUntilExpiry r1
             in (True, r2, alerts @ [alertEvent]))"

definition process_result ::
  "int \<Rightarrow> int \<Rightarrow> int \<Rightarrow> (tls_run \<times> tls_redis \<times> tls_alert list) \<Rightarrow> cert_result \<Rightarrow> (tls_run \<times> tls_redis \<times> tls_alert list)" where
  "process_result tier1Threshold tier2Threshold now acc item =
     (let (run, s) = acc; hostname = ce_hostname item in
      case (ce_status item, ce_daysRemaining item, ce_expiryDate item) of
        (Cert_expiring_soon, Some days, Some expiry) \<Rightarrow>
          let (run1, s1) = (if days \<le> tier1Threshold
                then (case checkAndFireAlert now hostname Tier_1 days expiry s of
                    (fired, s') \<Rightarrow> (if fired then run\<lparr>tr_expiringAlerts := tr_expiringAlerts run @ [(hostname, Tier_1)]\<rparr> else run, s'))
                else (run, s))
          in if days \<le> tier2Threshold
             then (case checkAndFireAlert now hostname Tier_2 days expiry s1 of
                 (fired, s') \<Rightarrow> (if fired then run1\<lparr>tr_expiringAlerts := tr_expiringAlerts run1 @ [(hostname, Tier_2)]\<rparr> else run1, s'))
             else (run1, s1)
      | (Cert_unreachable, _) \<Rightarrow> (run\<lparr>tr_unreachable := tr_unreachable run @ [hostname]\<rparr>, s)
      | _ \<Rightarrow> (run, s))"

text \<open>The run over the checker's results; a disabled monitor or one without endpoints does nothing.\<close>

record tls_env =
  te_enabled :: "string option"     \<comment> \<open>\<open>TLS_CERT_MONITOR_ENABLED\<close>\<close>
  te_tier1 :: "int option"
  te_tier2 :: "int option"

definition TLS_SNAPSHOT_KEY :: string where "TLS_SNAPSHOT_KEY = ''tls:monitor:snapshot''"
definition TLS_SNAPSHOT_TTL_SECONDS :: int where "TLS_SNAPSHOT_TTL_SECONDS = 86400"

definition tier1_of :: "tls_env \<Rightarrow> int" where
  "tier1_of env = (case te_tier1 env of None \<Rightarrow> TIER_1_THRESHOLD_DAYS | Some d \<Rightarrow> d)"

definition tier2_of :: "tls_env \<Rightarrow> int" where
  "tier2_of env = (case te_tier2 env of None \<Rightarrow> TIER_2_THRESHOLD_DAYS | Some d \<Rightarrow> d)"

definition runCertificateMonitor ::
  "tls_env \<Rightarrow> int \<Rightarrow> string list \<Rightarrow> cert_result list \<Rightarrow> tls_redis \<Rightarrow> tls_run \<times> tls_redis \<times> tls_alert list" where
  "runCertificateMonitor env now hostnames checkResults r =
     (let enabled = (case te_enabled env of None \<Rightarrow> ''true'' | Some s \<Rightarrow> s);
          empty = \<lparr>tr_expiringAlerts = [], tr_unreachable = []\<rparr> in
      if enabled \<noteq> ''true'' \<and> enabled \<noteq> ''1'' then (empty, r, [])
      else if length hostnames = 0 then (empty, r, [])
      else let (run, r1, alerts) = foldl (process_result (tier1_of env) (tier2_of env) now) (empty, r, []) checkResults;
               (_, r2) = redis_set TLS_SNAPSHOT_KEY (Snapshot (length hostnames) run) TLS_SNAPSHOT_TTL_SECONDS r1
           in (run, r2, alerts))"

section \<open>The pool checks every host once\<close>

definition pool_inv :: "(string \<Rightarrow> cert_result) \<Rightarrow> nat \<Rightarrow> string list \<Rightarrow> pool \<Rightarrow> bool" where
  "pool_inv check n hosts p \<longleftrightarrow> length (po_busy p) + po_idle p = n \<and>
     mset (po_results p) + image_mset check (mset (po_busy p)) + image_mset check (mset (filter (\<lambda>h. h \<noteq> []) (po_queue p)))
       = image_mset check (mset (filter (\<lambda>h. h \<noteq> []) hosts))"

lemma pool_step_inv:
  assumes "pool_step check p q" "pool_inv check n hosts p"
  shows "pool_inv check n hosts q"
  using assms(1)
proof cases
  case (end_check h)
  then have "image_mset check (mset (po_busy p)) = add_mset (check h) (image_mset check (mset (po_busy p) - {#h#}))"
    by (metis image_mset_add_mset insert_DiffM set_mset_mset)
  moreover have "length (po_busy p) = Suc (length (remove1 h (po_busy p)))"
    using end_check by (simp add: length_remove1) (metis Suc_pred length_pos_if_in_set)
  ultimately show ?thesis using assms(2) end_check by (simp add: pool_inv_def)
qed (use assms(2) in \<open>auto simp: pool_inv_def\<close>)

interpretation pool: relation_system "pool_step check" "pool_inv check n hosts"
  by unfold_locales (rule pool_step_inv)

lemma pool_reach_inv:
  assumes "(pool_step check)\<^sup>*\<^sup>* (pool_init c hosts) p"
  shows "pool_inv check (min c (length hosts)) hosts p"
  by (rule pool.reach_inv [OF assms]) (simp add: pool_inv_def pool_init_def)

definition pool_work :: "pool \<Rightarrow> nat" where
  "pool_work p = 2 * length (po_queue p) + length (po_busy p)"

lemma pool_step_work: "pool_step check p q \<Longrightarrow> pool_work q < pool_work p"
  by (erule pool_stepE) (auto simp: pool_work_def length_remove1 dest: length_pos_if_in_set)

lemma pool_ends: "\<exists>q. (pool_step check)\<^sup>*\<^sup>* p q \<and> pool_done check q"
proof (induction "pool_work p" arbitrary: p rule: less_induct)
  case less
  show ?case
  proof (cases "pool_done check p")
    case False
    then obtain p' where "pool_step check p p'" by (auto simp: pool_done_def)
    then show ?thesis using less [OF pool_step_work] by (meson converse_rtranclp_into_rtranclp)
  qed blast
qed

lemma pool_done_results:
  assumes "pool_inv check n hosts p" "0 < n" "pool_done check p"
  shows "mset (po_results p) = image_mset check (mset (filter (\<lambda>h. h \<noteq> []) hosts))"
proof -
  have "po_busy p = []"
  proof (rule ccontr)
    assume "po_busy p \<noteq> []"
    then obtain h where "h \<in> set (po_busy p)" by (meson list.set_sel(1))
    then show False using assms(3) pool_step.end_check unfolding pool_done_def by blast
  qed
  moreover have "po_queue p = []"
  proof (cases "po_queue p")
    case (Cons h q)
    have "0 < po_idle p" using assms(1,2) \<open>po_busy p = []\<close> by (simp add: pool_inv_def)
    then show ?thesis using Cons assms(3) pool_step.take_host [of p h q check] pool_step.skip_host [of p q check]
      unfolding pool_done_def by (cases "h = []") blast+
  qed
  ultimately show ?thesis using assms(1) by (simp add: pool_inv_def)
qed


text \<open>The worker pool checks every host exactly once, whatever the interleaving. With at least one worker allowed, no
  more than \<open>concurrency\<close> checks run at a time, every run can be completed and none goes on for ever (each
  step lowers the remaining work), and a completed run holds one result for each named host and nothing
  else.\<close>

theorem pool_checks_each_host_once:
  assumes "0 < concurrency" "(pool_step check)\<^sup>*\<^sup>* (pool_init concurrency hosts) p"
  shows "length (po_busy p) \<le> concurrency \<and> (\<exists>q. (pool_step check)\<^sup>*\<^sup>* p q \<and> pool_done check q)
    \<and> wfP (\<lambda>q p. pool_step check p q)
    \<and> (pool_done check p \<longrightarrow> mset (po_results p) = image_mset check (mset (filter (\<lambda>h. h \<noteq> []) hosts)))"
proof -
  have inv: "pool_inv check (min concurrency (length hosts)) hosts p" by (rule pool_reach_inv [OF assms(2)])
  have "mset (po_results p) = image_mset check (mset (filter (\<lambda>h. h \<noteq> []) hosts))" if "pool_done check p"
  proof (cases "hosts = []")
    case True
    then show ?thesis using inv by (simp add: pool_inv_def)
  qed (use pool_done_results [OF inv _ that] assms(1) in simp)
  moreover have "wfP (\<lambda>q p. pool_step check p q)"
    by (rule wfp_if_convertible_to_nat [of _ pool_work]) (rule pool_step_work)
  ultimately show ?thesis using inv pool_ends [of check p] by (auto simp: pool_inv_def)
qed

section \<open>The alerts of one run\<close>

lemma alert_key_inject [simp]: "alert_key h t = alert_key h' t' \<longleftrightarrow> h = h' \<and> t = t'"
proof -
  have "length (tier_name t) = length (tier_name t')" by (cases t; cases t') (simp_all add: tier_name_def)
  moreover have "tier_name t = tier_name t' \<longleftrightarrow> t = t'" by (cases t; cases t') (simp_all add: tier_name_def)
  ultimately show ?thesis by (auto simp: alert_key_def append_eq_append_conv)
qed

definition fresh :: "string \<Rightarrow> tls_redis \<Rightarrow> bool" where
  "fresh h r \<longleftrightarrow> kv_live r (alert_key h Tier_1) = None \<and> kv_live r (alert_key h Tier_2) = None"

definition tls_alert_of :: "cert_result \<Rightarrow> alert_tier \<Rightarrow> tls_alert" where
  "tls_alert_of c t = \<lparr>ta_tier = t, ta_hostname = ce_hostname c, ta_expiryDate = the (ce_expiryDate c), ta_daysRemaining = the (ce_daysRemaining c)\<rparr>"

lemma fire_fresh:
  assumes "r_faults r = []" "kv_live r (alert_key h t) = None"
  shows "\<exists>r'. checkAndFireAlert now h t d e (r, as) =
      (True, r', as @ [\<lparr>ta_tier = t, ta_hostname = h, ta_expiryDate = e, ta_daysRemaining = d\<rparr>])
    \<and> r_faults r' = [] \<and> (\<forall>h' t'. (h', t') \<noteq> (h, t) \<longrightarrow> kv_live r' (alert_key h' t') = kv_live r (alert_key h' t'))"
  using assms by (auto simp: checkAndFireAlert_def redis_get_def redis_set_def c_get_def c_setex_def send_def se_try_def kv_live_def Let_def split: option.splits)

lemma process_result_fresh:
  assumes "r_faults r = []" "fresh (ce_hostname c) r" "c = checkCertificateExpiry now hs h" "0 \<le> t1" "0 \<le> t2"
  shows "\<exists>run' r'. process_result t1 t2 now (run, r, as) c =
      (run', r', as @ (if ce_status c = Cert_expiring_soon then [tls_alert_of c Tier_1, tls_alert_of c Tier_2] else []))
    \<and> r_faults r' = [] \<and> (\<forall>h'. h' \<noteq> ce_hostname c \<longrightarrow> fresh h' r' = fresh h' r)"
proof (cases "ce_status c = Cert_expiring_soon")
  case True
  then obtain e where e: "hs h = Some e" and d: "ceil_div (e - now) DAY_MS \<le> 0"
    using assms(3) by (auto simp: checkCertificateExpiry_def Let_def split: option.splits if_splits)
  then have c: "c = \<lparr>ce_hostname = h, ce_status = Cert_expiring_soon, ce_expiryDate = Some e, ce_daysRemaining = Some (ceil_div (e - now) DAY_MS)\<rparr>"
    using assms(3) by (simp add: checkCertificateExpiry_def Let_def)
  let ?d = "ceil_div (e - now) DAY_MS"
  have h: "ce_hostname c = h" by (simp add: c)
  have a: "\<lparr>ta_tier = t, ta_hostname = h, ta_expiryDate = e, ta_daysRemaining = ?d\<rparr> = tls_alert_of c t" for t
    by (simp add: tls_alert_of_def c)
  have k1: "kv_live r (alert_key h Tier_1) = None" using assms(2) by (simp add: h fresh_def)
  obtain r1 where r1: "checkAndFireAlert now h Tier_1 ?d e (r, as) = (True, r1, as @ [tls_alert_of c Tier_1])"
      "r_faults r1 = []" "\<And>h' t'. (h', t') \<noteq> (h, Tier_1) \<Longrightarrow> kv_live r1 (alert_key h' t') = kv_live r (alert_key h' t')"
    using fire_fresh [OF assms(1) k1, of now ?d e as] unfolding a by blast
  have k2: "kv_live r1 (alert_key h Tier_2) = None" using r1(3) [of h Tier_2] assms(2) by (simp add: h fresh_def)
  obtain r2 where r2: "checkAndFireAlert now h Tier_2 ?d e (r1, as @ [tls_alert_of c Tier_1]) =
        (True, r2, (as @ [tls_alert_of c Tier_1]) @ [tls_alert_of c Tier_2])"
      "r_faults r2 = []" "\<And>h' t'. (h', t') \<noteq> (h, Tier_2) \<Longrightarrow> kv_live r2 (alert_key h' t') = kv_live r1 (alert_key h' t')"
    using fire_fresh [OF r1(2) k2, of now ?d e "as @ [tls_alert_of c Tier_1]"] unfolding a by blast
  have "fresh h' r2 = fresh h' r" if "h' \<noteq> h" for h' using that r1(3) r2(3) by (simp add: fresh_def)
  then show ?thesis using r1(1) r2(1,2) d assms(4,5) by (simp add: process_result_def Let_def c)
next
  case False
  then show ?thesis using assms(1,3)
    by (auto simp: process_result_def Let_def checkCertificateExpiry_def split: option.splits)
qed

lemma process_results_fresh:
  assumes "r_faults r = []" "distinct (map ce_hostname cs)" "\<And>c. c \<in> set cs \<Longrightarrow> fresh (ce_hostname c) r"
    and "\<And>c. c \<in> set cs \<Longrightarrow> \<exists>h. c = checkCertificateExpiry now hs h" "0 \<le> t1" "0 \<le> t2"
  shows "snd (snd (foldl (process_result t1 t2 now) (run, r, as) cs)) =
     as @ concat (map (\<lambda>c. if ce_status c = Cert_expiring_soon then [tls_alert_of c Tier_1, tls_alert_of c Tier_2] else []) cs)"
  using assms(1-4)
proof (induction cs arbitrary: run r as)
  case (Cons c cs)
  obtain h where h: "c = checkCertificateExpiry now hs h" using Cons.prems(4) by auto
  obtain run' r' where step: "process_result t1 t2 now (run, r, as) c =
      (run', r', as @ (if ce_status c = Cert_expiring_soon then [tls_alert_of c Tier_1, tls_alert_of c Tier_2] else []))"
    "r_faults r' = []" "\<And>h'. h' \<noteq> ce_hostname c \<Longrightarrow> fresh h' r' = fresh h' r"
    using process_result_fresh [OF Cons.prems(1) Cons.prems(3) [OF list.set_intros(1)] h assms(5,6), of run as] by blast
  have "fresh (ce_hostname d) r'" if "d \<in> set cs" for d
    using step(3) [of "ce_hostname d"] Cons.prems(2,3) that by (metis distinct.simps(2) imageI list.set_intros(2) list.simps(9) set_map)
  then show ?case using Cons.IH [OF step(2), of run'] Cons.prems(2,4) step(1) by simp
qed simp


lemma cert_expired:
  "ce_status (checkCertificateExpiry now hs h) = Cert_expiring_soon \<longleftrightarrow> (\<exists>e. hs h = Some e \<and> e \<le> now)"
proof -
  have "0 < ceil_div (e - now) DAY_MS \<longleftrightarrow> \<not> e \<le> now" for e
    using pos_imp_zdiv_nonneg_iff [of DAY_MS "now - e"] by (auto simp: ceil_div_def DAY_MS_def)
  then show ?thesis by (cases "hs h") (simp_all add: checkCertificateExpiry_def Let_def)
qed

lemma check_hostname [simp]: "ce_hostname (checkCertificateExpiry now hs h) = h"
  by (simp add: checkCertificateExpiry_def Let_def split: option.split)

text \<open>Certificates are only reported once they have expired. The checker calls every certificate that still has
  time left \<open>ok\<close>, and the monitor looks at the thresholds of 30 and 7 days only for the others. So after a
  complete run over distinct hosts, with Redis reachable and no earlier alert recorded, the alerts are those
  of both tiers for exactly the hosts whose certificate has already ended, whatever thresholds that are not
  negative are configured.\<close>

theorem tls_alerts_only_after_expiry:
  assumes "0 < concurrency" "(pool_step (checkCertificateExpiry now hs))\<^sup>*\<^sup>* (pool_init concurrency hosts) p"
    and "pool_done (checkCertificateExpiry now hs) p" "distinct hosts" "te_enabled env = None" "0 \<le> tier1_of env" "0 \<le> tier2_of env"
    and "r_faults r = []" "\<And>h t. kv_live r (alert_key h t) = None"
  shows "(\<lambda>a. (ta_hostname a, ta_tier a)) ` set (snd (snd (runCertificateMonitor env now hosts (po_results p) r))) =
    {(h, t). h \<in> set hosts \<and> h \<noteq> [] \<and> (\<exists>e. hs h = Some e \<and> e \<le> now)}"
proof (cases "hosts = []")
  case False
  let ?check = "checkCertificateExpiry now hs"
  have "pool_inv ?check (min concurrency (length hosts)) hosts p" by (rule pool_reach_inv [OF assms(2)])
  then have res: "mset (po_results p) = image_mset ?check (mset (filter (\<lambda>h. h \<noteq> []) hosts))"
    using pool_done_results [OF _ _ assms(3)] assms(1) False by simp
  have "mset (map ce_hostname (po_results p)) = mset (filter (\<lambda>h. h \<noteq> []) hosts)"
    using res by (simp add: multiset.map_comp comp_def)
  then have "distinct (map ce_hostname (po_results p))" using assms(4) by (metis distinct_filter mset_eq_imp_distinct_iff)
  moreover have set: "set (po_results p) = ?check ` {h \<in> set hosts. h \<noteq> []}"
    using arg_cong [OF res, of set_mset] by simp
  ultimately have "snd (snd (foldl (process_result (tier1_of env) (tier2_of env) now) (run, r, []) (po_results p))) =
     [] @ concat (map (\<lambda>c. if ce_status c = Cert_expiring_soon then [tls_alert_of c Tier_1, tls_alert_of c Tier_2] else []) (po_results p))" for run
    by (intro process_results_fresh [where hs = hs] assms(6-8)) (auto simp: fresh_def assms(9))
  then have "set (snd (snd (runCertificateMonitor env now hosts (po_results p) r))) =
      (\<Union>c \<in> {c \<in> set (po_results p). ce_status c = Cert_expiring_soon}. {tls_alert_of c Tier_1, tls_alert_of c Tier_2})"
    using False assms(5) by (auto simp: runCertificateMonitor_def Let_def case_prod_unfold)
  also have "{c \<in> set (po_results p). ce_status c = Cert_expiring_soon} =
      ?check ` {h \<in> set hosts. h \<noteq> [] \<and> (\<exists>e. hs h = Some e \<and> e \<le> now)}"
    unfolding set by (auto simp: cert_expired)
  finally have "(\<lambda>a. (ta_hostname a, ta_tier a)) ` set (snd (snd (runCertificateMonitor env now hosts (po_results p) r))) =
      {h \<in> set hosts. h \<noteq> [] \<and> (\<exists>e. hs h = Some e \<and> e \<le> now)} \<times> {Tier_1, Tier_2}"
    by (auto simp: tls_alert_of_def image_UN)
  moreover have "t = Tier_1 \<or> t = Tier_2" for t by (cases t) simp_all
  ultimately show ?thesis by auto
qed (use assms(5) in \<open>simp add: runCertificateMonitor_def\<close>)


theorem pool_checks_each_host_once_witness:
  "length (po_busy (pool_init 2 [''a'', ''b''])) \<le> 2 \<and> wfP (\<lambda>q p. pool_step (checkCertificateExpiry 0 (\<lambda>_. None)) p q)"
  using pool_checks_each_host_once [of 2 "checkCertificateExpiry 0 (\<lambda>_. None)" "[''a'', ''b'']" "pool_init 2 [''a'', ''b'']"] by simp

text \<open>One day before the end of its certificate a host is not reported, at the end it is, in both tiers.\<close>

lemma one_host_done:
  "(pool_step check)\<^sup>*\<^sup>* (pool_init 1 [''a'']) \<lparr>po_queue = [], po_idle = 1, po_busy = [], po_results = [check ''a'']\<rparr>"
  "pool_done check \<lparr>po_queue = [], po_idle = 1, po_busy = [], po_results = rs\<rparr>"
proof -
  let ?p = "\<lparr>po_queue = [], po_idle = 0, po_busy = [''a''], po_results = []\<rparr>"
  have "pool_step check (pool_init 1 [''a'']) ?p"
    using pool_step.take_host [of "pool_init 1 [''a'']" "''a''" "[]" check] by (simp add: pool_init_def)
  moreover have "pool_step check ?p \<lparr>po_queue = [], po_idle = 1, po_busy = [], po_results = [check ''a'']\<rparr>"
    using pool_step.end_check [of "''a''" ?p check] by simp
  ultimately show "(pool_step check)\<^sup>*\<^sup>* (pool_init 1 [''a'']) \<lparr>po_queue = [], po_idle = 1, po_busy = [], po_results = [check ''a'']\<rparr>"
    by (meson r_into_rtranclp rtranclp.rtrancl_into_rtrancl)
  show "pool_done check \<lparr>po_queue = [], po_idle = 1, po_busy = [], po_results = rs\<rparr>"
    by (auto simp: pool_done_def elim!: pool_stepE)
qed

abbreviation (input) "wit_tls \<equiv> \<lparr>te_enabled = None, te_tier1 = None, te_tier2 = None\<rparr>"

theorem tls_alerts_only_after_expiry_witness:
  "(\<lambda>a. (ta_hostname a, ta_tier a)) ` set (snd (snd (runCertificateMonitor wit_tls 0 [''a''] [checkCertificateExpiry 0 (\<lambda>_. Some 86400000) ''a''] (redis_empty 0)))) = {}
   \<and> (\<lambda>a. (ta_hostname a, ta_tier a)) ` set (snd (snd (runCertificateMonitor wit_tls 86400000 [''a''] [checkCertificateExpiry 86400000 (\<lambda>_. Some 86400000) ''a''] (redis_empty 0)))) =
       {''a''} \<times> UNIV"
proof -
  have "(\<lambda>a. (ta_hostname a, ta_tier a)) ` set (snd (snd (runCertificateMonitor wit_tls n [''a''] [checkCertificateExpiry n (\<lambda>_. Some 86400000) ''a''] (redis_empty 0)))) =
      {(h, t). h \<in> set [''a''] \<and> h \<noteq> [] \<and> (\<exists>e. Some 86400000 = Some e \<and> e \<le> n)}" for n
    using tls_alerts_only_after_expiry [OF _ one_host_done(1) one_host_done(2), where env = wit_tls and r = "redis_empty 0"]
    by (simp add: redis_empty_def kv_live_def tier1_of_def tier2_of_def TIER_1_THRESHOLD_DAYS_def TIER_2_THRESHOLD_DAYS_def)
  then show ?thesis by auto
qed

end
