(* ===== verification/Privacy.thy ===== *)
theory Privacy
  imports Claims_Db
begin

text \<open>
  Personal data and retention: the privacy requests of \<open>src/backend/src/maintenance/privacy.service.ts\<close>, the
  closing and reopening of support tickets (\<open>maintenance/support-ticket-autoclose.service.ts\<close>) and the
  retention purge (\<open>maintenance/data-retention.service.ts\<close>).

  Tables are association lists. SHA-256, the outcome of the database transaction, ids and times are
  arguments; writes outside the modelled transaction succeed.
\<close>

section \<open>Support tickets\<close>

datatype ticket_status = T_OPEN | T_IN_PROGRESS | T_CLOSED | T_RESOLVED

record ticket =
  tk_email :: string
  tk_walletAddress :: "string option"
  tk_status :: ticket_status
  tk_firstRespondedAt :: "int option"
  tk_updatedAt :: int

datatype ticket_audit = Autoclosed string int int | Reopened string int

definition DEFAULT_AUTOCLOSE_DAYS_INACTIVE :: int where "DEFAULT_AUTOCLOSE_DAYS_INACTIVE = 7"

definition inactive_ticket :: "int \<Rightarrow> ticket \<Rightarrow> bool" where
  "inactive_ticket inactivityThreshold t =
     ((tk_status t = T_OPEN \<or> tk_status t = T_IN_PROGRESS) \<and> tk_firstRespondedAt t \<noteq> None \<and> tk_updatedAt t < inactivityThreshold)"

definition autoCloseInactiveTickets ::
  "int option \<Rightarrow> int \<Rightarrow> (string, ticket) table \<times> ticket_audit list \<Rightarrow> nat \<times> (string, ticket) table \<times> ticket_audit list" where
  "autoCloseInactiveTickets configured now st =
     (let daysInactive = (case configured of None \<Rightarrow> DEFAULT_AUTOCLOSE_DAYS_INACTIVE
            | Some d \<Rightarrow> if d = 0 then DEFAULT_AUTOCLOSE_DAYS_INACTIVE else d);
          inactivityThreshold = now - daysInactive * 24 * 60 * 60 * 1000;
          ticketsToClose = findMany (\<lambda>_. inactive_ticket inactivityThreshold) (fst st)
      in if length ticketsToClose = 0 then (0, st)
         else (length ticketsToClose,
               updateMany (\<lambda>_. inactive_ticket inactivityThreshold) (\<lambda>t. t\<lparr>tk_status := T_CLOSED, tk_updatedAt := now\<rparr>) (fst st),
               snd st @ map (\<lambda>(i, _). Autoclosed i now inactivityThreshold) ticketsToClose))"

definition reopenIfReply ::
  "string \<Rightarrow> int \<Rightarrow> (string, ticket) table \<times> ticket_audit list \<Rightarrow> (string, ticket) table \<times> ticket_audit list" where
  "reopenIfReply ticketId now st =
     (case findUnique (fst st) ticketId of
        None \<Rightarrow> st
      | Some t \<Rightarrow>
          if tk_status t = T_CLOSED \<and> tk_firstRespondedAt t \<noteq> None
          then (updateMany (\<lambda>k _. k = ticketId) (\<lambda>t. t\<lparr>tk_status := T_IN_PROGRESS, tk_updatedAt := now\<rparr>) (fst st),
                snd st @ [Reopened ticketId now])
          else st)"

section \<open>Privacy requests\<close>

datatype request_type = ANONYMIZE | DELETE
datatype request_status = Rq_IN_PROGRESS | Rq_COMPLETED | Rq_FAILED

record privacy_request =
  pq_subjectWalletAddress :: string
  pq_requestType :: request_type
  pq_requestedBy :: string
  pq_notes :: "string option"
  pq_status :: request_status
  pq_rowsAffected :: nat
  pq_errorMessage :: "string option"
  pq_completedAt :: "int option"

record privacy_claim =
  pc_creatorAddress :: string
  pc_description :: "string option"
  pc_imageUrls :: "string list"
  pc_isFinalized :: bool
  pc_deleted :: bool

record privacy_audit =
  pa_actor :: string
  pa_type :: request_type
  pa_requestId :: string
  pa_rowsAffected :: nat
  pa_status :: request_status
  pa_errorMessage :: "string option"

record privacy_state =
  pv_claims :: "(int, privacy_claim) table"
  pv_tickets :: "(string, ticket) table"
  pv_requests :: "(string, privacy_request) table"
  pv_audit :: "privacy_audit list"
  pv_mails :: "(string \<times> string) list"      \<comment> \<open>to whom, about which request\<close>

record privacy_env =
  pe_now :: int
  pe_sha256 :: "string \<Rightarrow> string"
  pe_tx_error :: "string option"              \<comment> \<open>the error of the transaction, if it fails\<close>
  pe_smtp :: bool                             \<comment> \<open>\<open>SMTP_HOST\<close> is set and the mail is accepted\<close>

definition redacted :: string where "redacted = ''[redacted]''"

definition ticket_of :: "string \<Rightarrow> ticket \<Rightarrow> bool" where
  "ticket_of walletAddress t =
     (\<not> starts_with redacted (tk_email t) \<and> (tk_email t = walletAddress \<or> str_includes walletAddress (tk_email t)))"

definition claim_of :: "string \<Rightarrow> privacy_claim \<Rightarrow> bool" where
  "claim_of walletAddress c = (pc_creatorAddress c = walletAddress \<and> \<not> pc_deleted c \<and> pc_description c \<noteq> None)"

definition anonymize :: "privacy_env \<Rightarrow> string \<Rightarrow> privacy_state \<Rightarrow> (string + nat) \<times> privacy_state" where
  "anonymize env walletAddress st =
     (let tickets = findMany (\<lambda>_. ticket_of walletAddress) (pv_tickets st) in
      case pe_tx_error env of
        Some msg \<Rightarrow> (Inl msg, st)
      | None \<Rightarrow> (Inr (length (findMany (\<lambda>_. claim_of walletAddress) (pv_claims st)) + length tickets),
          st\<lparr>pv_claims := updateMany (\<lambda>_. claim_of walletAddress) (\<lambda>c. c\<lparr>pc_description := Some redacted, pc_imageUrls := []\<rparr>) (pv_claims st),
             pv_tickets := updateMany (\<lambda>k _. k \<in> fst ` set tickets) (\<lambda>t. t\<lparr>tk_email := pe_sha256 env (tk_email t)\<rparr>) (pv_tickets st)\<rparr>))"

definition privacy_delete :: "privacy_env \<Rightarrow> string \<Rightarrow> privacy_state \<Rightarrow> (string + nat) \<times> privacy_state" where
  "privacy_delete env walletAddress st =
     (let gone = (\<lambda>c. pc_creatorAddress c = walletAddress \<and> \<not> pc_isFinalized c \<and> \<not> pc_deleted c) in
      case pe_tx_error env of
        Some msg \<Rightarrow> (Inl msg, st)
      | None \<Rightarrow> (Inr (length (filter (\<lambda>(_, c). gone c) (pv_claims st))), st\<lparr>pv_claims := filter (\<lambda>(_, c). \<not> gone c) (pv_claims st)\<rparr>))"

definition notifyStaff :: "privacy_env \<Rightarrow> string \<Rightarrow> string \<Rightarrow> privacy_state \<Rightarrow> privacy_state" where
  "notifyStaff env staffEmail requestId st = (if pe_smtp env then st\<lparr>pv_mails := pv_mails st @ [(staffEmail, requestId)]\<rparr> else st)"

text \<open>The part both entry points share: execute, and record the outcome in the request.\<close>

definition execute_request ::
  "privacy_env \<Rightarrow> string \<Rightarrow> request_type \<Rightarrow> string \<Rightarrow> privacy_state \<Rightarrow> (string + nat) \<times> privacy_state" where
  "execute_request env requestId requestType walletAddress st =
     (let (res, st1) = (case requestType of ANONYMIZE \<Rightarrow> anonymize env walletAddress st | DELETE \<Rightarrow> privacy_delete env walletAddress st);
          (status, rowsAffected, errorMessage) = (case res of Inr n \<Rightarrow> (Rq_COMPLETED, n, None) | Inl msg \<Rightarrow> (Rq_FAILED, 0, Some msg))
      in (res, st1\<lparr>pv_requests := updateMany (\<lambda>k _. k = requestId)
            (\<lambda>q. q\<lparr>pq_status := status, pq_rowsAffected := rowsAffected,
                   pq_errorMessage := (if errorMessage = None then pq_errorMessage q else errorMessage), pq_completedAt := Some (pe_now env)\<rparr>)
            (pv_requests st1)\<rparr>))"

record request_opts =
  ro_subjectWalletAddress :: string
  ro_requestType :: request_type
  ro_requestedBy :: string
  ro_notes :: "string option"

definition handleRequest :: "privacy_env \<Rightarrow> string \<Rightarrow> request_opts \<Rightarrow> privacy_state \<Rightarrow> (string + string \<times> nat) \<times> privacy_state" where
  "handleRequest env newId opts st =
     (let row = \<lparr>pq_subjectWalletAddress = ro_subjectWalletAddress opts, pq_requestType = ro_requestType opts,
                 pq_requestedBy = ro_requestedBy opts, pq_notes = ro_notes opts, pq_status = Rq_IN_PROGRESS, pq_rowsAffected = 0,
                 pq_errorMessage = None, pq_completedAt = None\<rparr>;
          (res, st1) = execute_request env newId (ro_requestType opts) (ro_subjectWalletAddress opts)
             (st\<lparr>pv_requests := pv_requests st @ [(newId, row)]\<rparr>);
          st2 = st1\<lparr>pv_audit := pv_audit st1 @ [\<lparr>pa_actor = ro_requestedBy opts, pa_type = ro_requestType opts, pa_requestId = newId,
             pa_rowsAffected = (case res of Inr n \<Rightarrow> n | Inl _ \<Rightarrow> 0), pa_status = (case res of Inr _ \<Rightarrow> Rq_COMPLETED | Inl _ \<Rightarrow> Rq_FAILED),
             pa_errorMessage = (case res of Inr _ \<Rightarrow> None | Inl msg \<Rightarrow> if msg = [] then None else Some msg)\<rparr>]\<rparr>
      in case res of
           Inl msg \<Rightarrow> (Inl (''Privacy request failed: '' @ msg), st2)
         | Inr n \<Rightarrow> (Inr (newId, n), notifyStaff env (ro_requestedBy opts) newId st2))"

datatype process_error = Request_Not_Found | Request_Failed string

definition processRequest :: "privacy_env \<Rightarrow> string \<Rightarrow> privacy_state \<Rightarrow> (process_error + string \<times> nat) \<times> privacy_state" where
  "processRequest env requestId st =
     (case findUnique (pv_requests st) requestId of
        None \<Rightarrow> (Inl Request_Not_Found, st)
      | Some req \<Rightarrow>
          if pq_status req = Rq_COMPLETED then (Inr (requestId, pq_rowsAffected req), st)
          else (case execute_request env requestId (pq_requestType req) (pq_subjectWalletAddress req) st of
              (Inl msg, st1) \<Rightarrow> (Inl (Request_Failed msg), st1)
            | (Inr n, st1) \<Rightarrow> (Inr (requestId, n), notifyStaff env (pq_requestedBy req) requestId st1)))"

definition getRequest :: "string \<Rightarrow> privacy_state \<Rightarrow> privacy_request option" where
  "getRequest requestId st = findUnique (pv_requests st) requestId"

section \<open>Retention\<close>

text \<open>Rows with the time they were deleted at; a vote belongs to a claim, a claim to a policy.\<close>

record retained =
  rt_votes :: "(int, int \<times> int option) table"          \<comment> \<open>claim, \<open>deletedAt\<close>\<close>
  rt_claims :: "(int, string \<times> int option) table"     \<comment> \<open>policy, \<open>deletedAt\<close>\<close>
  rt_policies :: "(string, int option) table"
  rt_rawEvents :: "(int, int) table"                  \<comment> \<open>\<open>ledgerClosedAt\<close>\<close>
  rt_cursors :: "(string, int) table"                 \<comment> \<open>\<open>updatedAt\<close>\<close>

definition computeCutoff :: "int \<Rightarrow> int \<Rightarrow> int" where
  "computeCutoff now retentionDays = now - retentionDays * 86400000"

definition past_cutoff :: "int \<Rightarrow> int option \<Rightarrow> bool" where
  "past_cutoff cutoff d = (case d of None \<Rightarrow> False | Some x \<Rightarrow> x \<le> cutoff)"

text \<open>
  The three deletions are one transaction. Deleting a claim deletes its votes (\<open>onDelete: Cascade\<close>), which are not
  counted; a policy that still has a claim cannot be deleted: the database refuses and everything is rolled
  back (\<open>None\<close>).
\<close>

definition purgeMaterializedRowsDeletedBefore :: "int \<Rightarrow> retained \<Rightarrow> ((nat \<times> nat \<times> nat) option) \<times> retained" where
  "purgeMaterializedRowsDeletedBefore cutoff db =
     (let votes1 = filter (\<lambda>(_, _, d). \<not> past_cutoff cutoff d) (rt_votes db);
          goneClaims = filter (\<lambda>(_, _, d). past_cutoff cutoff d) (rt_claims db);
          claims1 = filter (\<lambda>(_, _, d). \<not> past_cutoff cutoff d) (rt_claims db);
          votes2 = filter (\<lambda>(_, c, _). c \<notin> fst ` set goneClaims) votes1;
          gonePolicies = filter (\<lambda>(_, d). past_cutoff cutoff d) (rt_policies db)
      in if list_ex (\<lambda>(_, p, _). p \<in> fst ` set gonePolicies) claims1 then (None, db)
         else (Some (length (rt_votes db) - length votes1, length goneClaims, length gonePolicies),
               db\<lparr>rt_votes := votes2, rt_claims := claims1,
                  rt_policies := filter (\<lambda>(_, d). \<not> past_cutoff cutoff d) (rt_policies db)\<rparr>))"

definition pruneIndexerRowsBefore :: "int \<Rightarrow> retained \<Rightarrow> (nat \<times> nat) \<times> retained" where
  "pruneIndexerRowsBefore cutoff db =
     ((length (filter (\<lambda>(_, t). t \<le> cutoff) (rt_rawEvents db)), length (filter (\<lambda>(_, t). t \<le> cutoff) (rt_cursors db))),
      db\<lparr>rt_rawEvents := filter (\<lambda>(_, t). \<not> t \<le> cutoff) (rt_rawEvents db), rt_cursors := filter (\<lambda>(_, t). \<not> t \<le> cutoff) (rt_cursors db)\<rparr>)"

text \<open>A purge that throws ends the job before the indexer's rows are pruned.\<close>

definition scheduledPurge :: "int option \<Rightarrow> int option \<Rightarrow> int \<Rightarrow> retained \<Rightarrow> retained" where
  "scheduledPurge retentionDays indexerDays now db =
     (case purgeMaterializedRowsDeletedBefore (computeCutoff now (case retentionDays of None \<Rightarrow> 730 | Some d \<Rightarrow> d)) db of
        (None, db1) \<Rightarrow> db1
      | (Some _, db1) \<Rightarrow> snd (pruneIndexerRowsBefore (computeCutoff now (case indexerDays of None \<Rightarrow> 90 | Some d \<Rightarrow> d)) db1))"


section \<open>What a privacy request does\<close>

lemma updateMany_rel:
  assumes "\<And>k v. (k, v) \<in> set t \<Longrightarrow> R (k, v) (k, if p k v then f v else v)"
  shows "list_all2 R t (updateMany p f t)"
  using assms by (induction t) (auto simp: updateMany_def)

definition claim_anonymised :: "string \<Rightarrow> int \<times> privacy_claim \<Rightarrow> int \<times> privacy_claim \<Rightarrow> bool" where
  "claim_anonymised w x y \<longleftrightarrow> y = (fst x, if claim_of w (snd x) then (snd x)\<lparr>pc_description := Some redacted, pc_imageUrls := []\<rparr> else snd x)"

definition ticket_anonymised :: "(string \<Rightarrow> string) \<Rightarrow> string \<Rightarrow> string \<times> ticket \<Rightarrow> string \<times> ticket \<Rightarrow> bool" where
  "ticket_anonymised h w x y \<longleftrightarrow> y = (fst x, if ticket_of w (snd x) then (snd x)\<lparr>tk_email := h (tk_email (snd x))\<rparr> else snd x)"

lemma anonymize_spec:
  assumes "pe_tx_error env = None" "keys_unique (pv_tickets st)"
  shows "\<exists>n st'. anonymize env w st = (Inr n, st') \<and> list_all2 (claim_anonymised w) (pv_claims st) (pv_claims st')
    \<and> list_all2 (ticket_anonymised (pe_sha256 env) w) (pv_tickets st) (pv_tickets st')
    \<and> n = length (filter (\<lambda>x. claim_of w (snd x)) (pv_claims st)) + length (filter (\<lambda>x. ticket_of w (snd x)) (pv_tickets st))
    \<and> pv_requests st' = pv_requests st \<and> pv_audit st' = pv_audit st \<and> pv_mails st' = pv_mails st"
proof -
  have keys: "k \<in> fst ` set (findMany (\<lambda>_. ticket_of w) (pv_tickets st)) \<longleftrightarrow> ticket_of w t" if "(k, t) \<in> set (pv_tickets st)" for k t
    using that assms(2) by (auto simp: findMany_def keys_unique_def image_iff dest: eq_key_imp_eq_value)
  have "list_all2 (ticket_anonymised (pe_sha256 env) w) (pv_tickets st)
      (updateMany (\<lambda>k _. k \<in> fst ` set (findMany (\<lambda>_. ticket_of w) (pv_tickets st))) (\<lambda>t. t\<lparr>tk_email := pe_sha256 env (tk_email t)\<rparr>) (pv_tickets st))"
    by (rule updateMany_rel) (simp add: ticket_anonymised_def keys)
  moreover have "list_all2 (claim_anonymised w) (pv_claims st)
      (updateMany (\<lambda>_. claim_of w) (\<lambda>c. c\<lparr>pc_description := Some redacted, pc_imageUrls := []\<rparr>) (pv_claims st))"
    by (rule updateMany_rel) (simp add: claim_anonymised_def)
  ultimately show ?thesis using assms(1) by (simp add: anonymize_def Let_def findMany_def case_prod_unfold)
qed

definition anonymise_opts :: "string \<Rightarrow> string \<Rightarrow> request_opts" where
  "anonymise_opts w by = \<lparr>ro_subjectWalletAddress = w, ro_requestType = ANONYMIZE, ro_requestedBy = by, ro_notes = None\<rparr>"

lemma completed_request_kept:
  assumes "findUnique (pv_requests st) i = Some q" "pq_status q = Rq_COMPLETED"
  shows "processRequest env i st = (Inr (i, pq_rowsAffected q), st)"
  using assms by (simp add: processRequest_def)

text \<open>An anonymisation request reaches what it selects and is not repeated. When the transaction succeeds, each claim
  of the subject that is not deleted and has a description is redacted and loses its images, each ticket
  whose email contains the address gets the hash instead, every other row stays as it was, and the
  number reported is the number of rows changed; if hashes do not contain the address, no ticket is
  selected again. The request is then completed, and processing it again returns the same result and
  changes nothing.\<close>

theorem anonymise_request_effect:
  assumes "pe_tx_error env = None" "keys_unique (pv_tickets st)" "findUnique (pv_requests st) newId = None"
    and "\<And>s. \<not> str_includes w (pe_sha256 env s)" "\<And>s. pe_sha256 env s \<noteq> w"
  shows "\<exists>n st'. handleRequest env newId (anonymise_opts w by) st = (Inr (newId, n), st')
    \<and> list_all2 (claim_anonymised w) (pv_claims st) (pv_claims st')
    \<and> list_all2 (ticket_anonymised (pe_sha256 env) w) (pv_tickets st) (pv_tickets st')
    \<and> n = length (filter (\<lambda>x. claim_of w (snd x)) (pv_claims st)) + length (filter (\<lambda>x. ticket_of w (snd x)) (pv_tickets st))
    \<and> filter (\<lambda>x. ticket_of w (snd x)) (pv_tickets st') = []
    \<and> map_option pq_status (getRequest newId st') = Some Rq_COMPLETED
    \<and> processRequest env' newId st' = (Inr (newId, n), st')"
proof -
  let ?row = "\<lparr>pq_subjectWalletAddress = w, pq_requestType = ANONYMIZE, pq_requestedBy = by, pq_notes = None, pq_status = Rq_IN_PROGRESS,
      pq_rowsAffected = 0, pq_errorMessage = None, pq_completedAt = None\<rparr>"
  let ?st = "st\<lparr>pv_requests := pv_requests st @ [(newId, ?row)]\<rparr>"
  obtain n st1 where a: "anonymize env w ?st = (Inr n, st1)" "list_all2 (claim_anonymised w) (pv_claims st) (pv_claims st1)"
      "list_all2 (ticket_anonymised (pe_sha256 env) w) (pv_tickets st) (pv_tickets st1)"
      "n = length (filter (\<lambda>x. claim_of w (snd x)) (pv_claims st)) + length (filter (\<lambda>x. ticket_of w (snd x)) (pv_tickets st))"
      "pv_requests st1 = pv_requests st @ [(newId, ?row)]"
    using anonymize_spec [OF assms(1), of ?st w] assms(2) by auto
  obtain st' where h: "handleRequest env newId (anonymise_opts w by) st = (Inr (newId, n), st')" "pv_claims st' = pv_claims st1"
      "pv_tickets st' = pv_tickets st1"
      "pv_requests st' = updateMany (\<lambda>k _. k = newId) (\<lambda>q. q\<lparr>pq_status := Rq_COMPLETED, pq_rowsAffected := n, pq_completedAt := Some (pe_now env)\<rparr>)
         (pv_requests st1)"
    using a(1) by (simp add: handleRequest_def execute_request_def anonymise_opts_def notifyStaff_def Let_def)
  have q: "findUnique (pv_requests st') newId = Some (?row\<lparr>pq_status := Rq_COMPLETED, pq_rowsAffected := n, pq_completedAt := Some (pe_now env)\<rparr>)"
    using assms(3) by (simp add: h(4) a(5)) (simp add: findUnique_def map_add_def)
  have "\<not> ticket_of w (snd y)" if y: "y \<in> set (pv_tickets st1)" for y
  proof -
    obtain i where "i < length (pv_tickets st1)" "y = pv_tickets st1 ! i" using y by (auto simp: in_set_conv_nth)
    then have "ticket_anonymised (pe_sha256 env) w (pv_tickets st ! i) y" using a(3) by (simp add: list_all2_conv_all_nth)
    then show ?thesis using assms(4,5) by (auto simp: ticket_anonymised_def ticket_of_def)
  qed
  then have "filter (\<lambda>x. ticket_of w (snd x)) (pv_tickets st') = []" by (simp add: h(3) filter_empty_conv)
  moreover have "map_option pq_status (getRequest newId st') = Some Rq_COMPLETED" by (simp add: getRequest_def q)
  moreover have "processRequest env' newId st' = (Inr (newId, n), st')" using completed_request_kept [OF q, of env'] by simp
  ultimately show ?thesis using h(1) a(2-4) unfolding h(2,3) [symmetric] by blast
qed


abbreviation (input) "wit_privacy \<equiv> \<lparr>pv_claims = [(1, \<lparr>pc_creatorAddress = ''GA'', pc_description = Some ''fire'', pc_imageUrls = [''u''], pc_isFinalized = True, pc_deleted = False\<rparr>)],
  pv_tickets = [(''t'', \<lparr>tk_email = ''me@x'', tk_walletAddress = Some ''GA'', tk_status = T_OPEN, tk_firstRespondedAt = None, tk_updatedAt = 0\<rparr>)],
  pv_requests = [], pv_audit = [], pv_mails = []\<rparr>"

abbreviation (input) "wit_privacy_env \<equiv> \<lparr>pe_now = 0, pe_sha256 = (\<lambda>_. ''00''), pe_tx_error = None, pe_smtp = False\<rparr>"

text \<open>The ticket that names the subject in \<open>walletAddress\<close> but not in its email is not touched.\<close>

theorem anonymise_request_effect_witness:
  "\<exists>st'. handleRequest wit_privacy_env ''r'' (anonymise_opts ''GA'' ''staff'') wit_privacy = (Inr (''r'', 1), st')
     \<and> pv_tickets st' = pv_tickets wit_privacy \<and> map_option pq_status (getRequest ''r'' st') = Some Rq_COMPLETED"
proof -
  have k: "keys_unique (pv_tickets wit_privacy)" "findUnique (pv_requests wit_privacy) ''r'' = None" "\<not> str_includes ''GA'' ''00''"
    "\<not> ticket_of ''GA'' (snd (hd (pv_tickets wit_privacy)))" "claim_of ''GA'' (snd (hd (pv_claims wit_privacy)))"
    by (simp_all add: keys_unique_def findUnique_def ticket_of_def claim_of_def starts_with_def redacted_def)
  show ?thesis
    using anonymise_request_effect [of wit_privacy_env wit_privacy "''r''" "''GA''" "''staff''" wit_privacy_env] k
    by (auto simp: ticket_anonymised_def list_all2_Cons1)
qed

section \<open>Retention keeps references\<close>

definition references_ok :: "retained \<Rightarrow> bool" where
  "references_ok db \<longleftrightarrow> (\<forall>(_, c, _) \<in> set (rt_votes db). c \<in> fst ` set (rt_claims db)) \<and>
     (\<forall>(_, p, _) \<in> set (rt_claims db). p \<in> fst ` set (rt_policies db))"

text \<open>The retention purge never leaves a row without its parent, and one live claim on a purged policy stops it. If
  the votes' claims and the claims' policies exist before the purge, they exist after it; what is gone are
  rows deleted at or before the cutoff and votes of such claims. When a policy past the cutoff still has a claim that is not, the
  purge is rolled back and the scheduled job changes nothing at all, the indexer's rows included.\<close>

theorem purge_keeps_references:
  assumes "references_ok db"
  shows "references_ok (snd (purgeMaterializedRowsDeletedBefore cutoff db))
    \<and> (fst (purgeMaterializedRowsDeletedBefore cutoff db) = None \<longleftrightarrow>
        (\<exists>k p d. (k, p, d) \<in> set (rt_claims db) \<and> \<not> past_cutoff cutoff d \<and> (\<exists>e. (p, e) \<in> set (rt_policies db) \<and> past_cutoff cutoff e)))
    \<and> (fst (purgeMaterializedRowsDeletedBefore (computeCutoff now (case days of None \<Rightarrow> 730 | Some d \<Rightarrow> d)) db) = None \<longrightarrow>
        scheduledPurge days indexerDays now db = db)"
proof -
  define claims1 where "claims1 = filter (\<lambda>(_, _, d). \<not> past_cutoff cutoff d) (rt_claims db)"
  define goneClaims where "goneClaims = filter (\<lambda>(_, _, d). past_cutoff cutoff d) (rt_claims db)"
  define goneP where "goneP = filter (\<lambda>(_, d). past_cutoff cutoff d) (rt_policies db)"
  define keptP where "keptP = filter (\<lambda>(_, d). \<not> past_cutoff cutoff d) (rt_policies db)"
  define votes2 where "votes2 = filter (\<lambda>(_, c, _). c \<notin> fst ` set goneClaims) (filter (\<lambda>(_, _, d). \<not> past_cutoff cutoff d) (rt_votes db))"
  let ?blocked = "list_ex (\<lambda>(_, p, _). p \<in> fst ` set goneP) claims1"
  have run: "purgeMaterializedRowsDeletedBefore cutoff db = (if ?blocked then (None, db)
      else (Some (length (rt_votes db) - length (filter (\<lambda>(_, _, d). \<not> past_cutoff cutoff d) (rt_votes db)), length goneClaims, length goneP),
        db\<lparr>rt_votes := votes2, rt_claims := claims1, rt_policies := keptP\<rparr>))"
    by (simp add: purgeMaterializedRowsDeletedBefore_def claims1_def goneClaims_def goneP_def keptP_def votes2_def Let_def)
  have blocked: "?blocked \<longleftrightarrow> (\<exists>k p d. (k, p, d) \<in> set (rt_claims db) \<and> \<not> past_cutoff cutoff d \<and> (\<exists>e. (p, e) \<in> set (rt_policies db) \<and> past_cutoff cutoff e))"
    by (force simp: list_ex_iff claims1_def goneP_def)
  have claims: "c \<in> fst ` set claims1" if "c \<in> fst ` set (rt_claims db)" "c \<notin> fst ` set goneClaims" for c
    using that by (force simp: claims1_def goneClaims_def)
  have policies: "p \<in> fst ` set keptP" if "p \<in> fst ` set (rt_policies db)" "p \<notin> fst ` set goneP" for p
    using that by (force simp: keptP_def goneP_def)
  have "references_ok (db\<lparr>rt_votes := votes2, rt_claims := claims1, rt_policies := keptP\<rparr>)" if "\<not> ?blocked"
  proof -
    have "c \<in> fst ` set claims1" if "(k, c, d) \<in> set votes2" for k c d
    proof -
      have "c \<in> fst ` set (rt_claims db)" "c \<notin> fst ` set goneClaims" using that assms by (auto simp: votes2_def references_ok_def)
      then show ?thesis by (rule claims)
    qed
    moreover have "p \<in> fst ` set keptP" if "(k, p, d) \<in> set claims1" for k p d
    proof -
      have "p \<in> fst ` set (rt_policies db)" using that assms by (auto simp: claims1_def references_ok_def)
      moreover have "p \<notin> fst ` set goneP" using that \<open>\<not> ?blocked\<close> by (force simp: list_ex_iff)
      ultimately show ?thesis by (rule policies)
    qed
    ultimately show ?thesis by (auto simp: references_ok_def)
  qed
  moreover have "scheduledPurge days indexerDays now db = db"
    if "fst (purgeMaterializedRowsDeletedBefore (computeCutoff now (case days of None \<Rightarrow> 730 | Some d \<Rightarrow> d)) db) = None"
    using that by (auto simp: scheduledPurge_def purgeMaterializedRowsDeletedBefore_def Let_def split: if_splits)
  ultimately show ?thesis using assms blocked unfolding run by auto
qed


abbreviation (input) "wit_retained \<equiv> \<lparr>rt_votes = [], rt_claims = [(1, ''p'', None)], rt_policies = [(''p'', Some 0)], rt_rawEvents = [(1, 0)], rt_cursors = []\<rparr>"

theorem purge_keeps_references_witness:
  "references_ok wit_retained \<and> fst (purgeMaterializedRowsDeletedBefore 5 wit_retained) = None
   \<and> scheduledPurge None None 63072000005 wit_retained = wit_retained"
proof -
  have r: "references_ok wit_retained" by (simp add: references_ok_def)
  have c: "computeCutoff 63072000005 730 = 5" by (simp add: computeCutoff_def)
  show ?thesis
    using purge_keeps_references [OF r, where cutoff = 5 and now = 63072000005 and days = None and indexerDays = None] r c
    by (auto simp: past_cutoff_def)
qed

end
