(* ===== verification/Tenancy.thy ===== *)
theory Tenancy
  imports Pagination Claims_Db
begin

text \<open>
  Tenants and the policy read side: resolution of the tenant (\<open>src/backend/src/tenant/tenant.middleware.ts\<close>), the
  helpers that scope a query (\<open>tenant/tenant-filter.helper.ts\<close>) and the reads of policies
  (\<open>policy/policy-read.service.ts\<close>).

  The order in which the database compares ids is a rank given as an argument; \<open>Date.parse\<close> is an
  argument as in \<open>Pagination\<close>. Primary and replica hold the same rows.
\<close>

section \<open>Resolving the tenant\<close>

record tenant_cfg =
  tn_enabled :: bool               \<comment> \<open>\<open>TENANT_RESOLUTION_ENABLED\<close>\<close>
  tn_baseDomain :: string
  tn_defaultTenantId :: string

record tenant_req =
  tq_tenantHeader :: "string list"  \<comment> \<open>values of \<open>x-tenant-id\<close>\<close>
  tq_host :: "string option"

definition lower_alnum :: "char \<Rightarrow> bool" where
  "lower_alnum c = (is_digit c \<or> (let n = of_char c :: nat in 97 \<le> n \<and> n \<le> 122))"

text \<open>\<open>/^[a-z0-9][a-z0-9-]{1,62}[a-z0-9]$|^[a-z0-9]{3}$/\<close>.\<close>

definition tenant_id_re :: "string \<Rightarrow> bool" where
  "tenant_id_re v =
     (3 \<le> length v \<and> length v \<le> 64 \<and> lower_alnum (hd v) \<and> lower_alnum (last v) \<and> list_all (\<lambda>c. lower_alnum c \<or> c = CHR ''-'') v)"

definition tenant_validate :: "string \<Rightarrow> string option" where
  "tenant_validate v = (if tenant_id_re v then Some v else None)"

definition resolveFromHeader :: "tenant_req \<Rightarrow> string option" where
  "resolveFromHeader req =
     (case tq_tenantHeader req of [] \<Rightarrow> None | v # _ \<Rightarrow> if v = [] then None else tenant_validate (trim v))"

definition resolveFromSubdomain :: "tenant_cfg \<Rightarrow> tenant_req \<Rightarrow> string option" where
  "resolveFromSubdomain cfg req =
     (let host = hd (split_on (CHR '':'') (case tq_host req of None \<Rightarrow> [] | Some h \<Rightarrow> h)) in
      if \<not> ends_with (''.'' @ tn_baseDomain cfg) host then None
      else let subdomain = take (length host - length (tn_baseDomain cfg) - 1) host
           in if subdomain = [] then None else tenant_validate subdomain)"

definition tenant_use :: "tenant_cfg \<Rightarrow> tenant_req \<Rightarrow> string" where
  "tenant_use cfg req =
     (if \<not> tn_enabled cfg then tn_defaultTenantId cfg
      else let resolved = (case resolveFromHeader req of Some t \<Rightarrow> Some t | None \<Rightarrow> resolveFromSubdomain cfg req)
           in case resolved of Some t \<Rightarrow> t | None \<Rightarrow> tn_defaultTenantId cfg)"

section \<open>Scoping a query\<close>

record tenant_policy = policy_row +
  tp_id :: string
  tp_createdAt :: int
  tp_tenantId :: "string option"

definition has_tenant :: "string option \<Rightarrow> bool" where
  "has_tenant tid = (case tid of None \<Rightarrow> False | Some t \<Rightarrow> t \<noteq> [])"

definition tenantFilter :: "('r \<Rightarrow> string option) \<Rightarrow> string option \<Rightarrow> 'r where_obj" where
  "tenantFilter tenantOf tid = (if \<not> has_tenant tid then [] else [(''tenantId'', \<lambda>r. tenantOf r = tid)])"

text \<open>\<open>claimTenantWhere\<close> and \<open>policyTenantWhere\<close> have the same body for two tables.\<close>

definition tenantWhere ::
  "('r \<Rightarrow> string option) \<Rightarrow> ('r \<Rightarrow> bool) \<Rightarrow> string option \<Rightarrow> 'r where_obj \<Rightarrow> bool \<Rightarrow> 'r where_obj" where
  "tenantWhere tenantOf deleted tid extra includeDeleted =
     spread (spread (tenantFilter tenantOf tid) (if includeDeleted then [] else [(''deletedAt'', \<lambda>r. \<not> deleted r)])) extra"

definition policyTenantWhere :: "string option \<Rightarrow> tenant_policy where_obj \<Rightarrow> bool \<Rightarrow> tenant_policy where_obj" where
  "policyTenantWhere = tenantWhere tp_tenantId p_deleted"

text \<open>True when the record may be used; the error is the \<open>TenantOwnershipError\<close>.\<close>

definition assertTenantOwnership :: "('r \<Rightarrow> string option) \<Rightarrow> 'r option \<Rightarrow> string option \<Rightarrow> bool" where
  "assertTenantOwnership tenantOf rec tid =
     (case rec of None \<Rightarrow> True | Some r \<Rightarrow> if \<not> has_tenant tid then True else tenantOf r = tid)"

section \<open>Reading policies\<close>

definition DEFAULT_FIRST :: int where "DEFAULT_FIRST = 20"
definition MAX_FIRST :: int where "MAX_FIRST = 100"

definition clampFirst :: "int option \<Rightarrow> int" where
  "clampFirst first = min (max 1 (case first of None \<Rightarrow> DEFAULT_FIRST | Some n \<Rightarrow> n)) MAX_FIRST"

record read_env =
  rd_rank :: "string \<Rightarrow> int"                  \<comment> \<open>the collation\<close>
  rd_dateParse :: "string \<Rightarrow> int option"

text \<open>\<open>JSON.stringify\<close> of a cursor; dates and ids have no character that needs an escape.\<close>

definition policy_cursor_json :: "string \<Rightarrow> string \<Rightarrow> string" where
  "policy_cursor_json createdAt i =
     (let q = CHR 0x22 in
      [CHR ''{'', q] @ ''createdAt'' @ [q, CHR '':'', q] @ createdAt @ [q, CHR '','', q] @ ''id'' @ [q, CHR '':'', q] @ i @ [q, CHR ''}''])"

definition encodePolicyCursor :: "tenant_policy \<Rightarrow> string" where
  "encodePolicyCursor p = base64url_encode (policy_cursor_json (js_toISOString (tp_createdAt p)) (tp_id p))"

definition decodePolicyCursor :: "read_env \<Rightarrow> string \<Rightarrow> (int \<times> string) option" where
  "decodePolicyCursor env cursor =
     (case JSON_parse (base64url_decode cursor) of
        None \<Rightarrow> None
      | Some decoded \<Rightarrow>
          (case (json_field decoded ''createdAt'', json_field decoded ''id'') of
             (JStr createdAt, JStr i) \<Rightarrow> map_option (\<lambda>t. (t, i)) (rd_dateParse env createdAt)
           | _ \<Rightarrow> None))"

definition after_row :: "read_env \<Rightarrow> int \<times> string \<Rightarrow> tenant_policy \<Rightarrow> bool" where
  "after_row env k p = (tp_createdAt p < fst k \<or> (tp_createdAt p = fst k \<and> rd_rank env (tp_id p) < rd_rank env (snd k)))"

text \<open>The keyset condition; \<open>None\<close> is the \<open>BadRequestException\<close>.\<close>

definition afterWhere :: "read_env \<Rightarrow> string option \<Rightarrow> tenant_policy where_obj option" where
  "afterWhere env after =
     (if after = None \<or> after = Some [] then Some []
      else map_option (\<lambda>k. [(''OR'', after_row env k)]) (decodePolicyCursor env (the after)))"

record list_params =
  lp_after :: "string option"
  lp_first :: "int option"
  lp_holderAddress :: "string option"
  lp_active :: "bool option"
  lp_includeDeleted :: bool

definition truthy :: "string option \<Rightarrow> bool" where
  "truthy s = (case s of None \<Rightarrow> False | Some x \<Rightarrow> x \<noteq> [])"

definition list_extra :: "list_params \<Rightarrow> tenant_policy where_obj" where
  "list_extra params =
     (if truthy (lp_holderAddress params) then [(''holderAddress'', \<lambda>p. Some (p_holderAddress p) = lp_holderAddress params)] else []) @
     (case lp_active params of None \<Rightarrow> [] | Some b \<Rightarrow> [(''isActive'', \<lambda>p. p_isActive p = b)])"

definition buildListWhere :: "read_env \<Rightarrow> list_params \<Rightarrow> string option \<Rightarrow> tenant_policy where_obj option" where
  "buildListWhere env params tenantId =
     map_option (\<lambda>aft. policyTenantWhere tenantId (list_extra params @ aft) (lp_includeDeleted params)) (afterWhere env (lp_after params))"

definition newest_policies :: "read_env \<Rightarrow> tenant_policy list \<Rightarrow> tenant_policy list" where
  "newest_policies env = sort_key (\<lambda>p. (- tp_createdAt p, - rd_rank env (tp_id p)))"

text \<open>The rows, the next cursor and the count under the same condition.\<close>

definition policy_connection ::
  "read_env \<Rightarrow> int \<Rightarrow> tenant_policy where_obj \<Rightarrow> tenant_policy list \<Rightarrow> tenant_policy list \<times> string option \<times> nat" where
  "policy_connection env first w db =
     (let items = take (nat first) (newest_policies env (filter (matches_where w) db));
          n = length (filter (matches_where w) db)
      in (items,
          if 0 < length items \<and> int (length items) = first \<and> first < int n then Some (encodePolicyCursor (items ! (length items - 1))) else None,
          n))"

definition listPolicies ::
  "read_env \<Rightarrow> string option \<Rightarrow> list_params \<Rightarrow> tenant_policy list \<Rightarrow> (tenant_policy list \<times> string option \<times> nat) option" where
  "listPolicies env tenantId params db =
     map_option (\<lambda>w. policy_connection env (clampFirst (lp_first params)) w db) (buildListWhere env params tenantId)"

record search_params =
  sp_holder :: "string option"
  sp_type :: "string option"
  sp_region :: "string option"
  sp_active :: "bool option"
  sp_after :: "string option"
  sp_first :: "int option"

definition search_extra :: "search_params \<Rightarrow> tenant_policy where_obj" where
  "search_extra params =
     (if truthy (sp_holder params) then [(''holderAddress'', \<lambda>p. str_includes (to_lower (the (sp_holder params))) (to_lower (p_holderAddress p)))] else []) @
     (if truthy (sp_type params) then [(''policyType'', \<lambda>p. Some (p_policyType p) = sp_type params)] else []) @
     (if truthy (sp_region params) then [(''region'', \<lambda>p. Some (p_region p) = sp_region params)] else []) @
     (case sp_active params of None \<Rightarrow> [] | Some b \<Rightarrow> [(''isActive'', \<lambda>p. p_isActive p = b)])"

definition searchPolicies ::
  "read_env \<Rightarrow> string option \<Rightarrow> search_params \<Rightarrow> tenant_policy list \<Rightarrow> (tenant_policy list \<times> string option \<times> nat) option" where
  "searchPolicies env tenantId params db =
     map_option (\<lambda>aft. policy_connection env (clampFirst (sp_first params)) (policyTenantWhere tenantId (search_extra params @ aft) False) db)
       (afterWhere env (sp_after params))"

text \<open>\<open>None\<close> stands for both errors, which the API answers with the same 404.\<close>

definition getPolicyById :: "string option \<Rightarrow> string \<Rightarrow> bool \<Rightarrow> tenant_policy list \<Rightarrow> tenant_policy option" where
  "getPolicyById tenantId i includeDeleted db =
     (let pol = List.find (\<lambda>p. tp_id p = i) db in
      if \<not> assertTenantOwnership tp_tenantId pol tenantId then None
      else (case pol of None \<Rightarrow> None | Some p \<Rightarrow> if \<not> includeDeleted \<and> p_deleted p then None else Some p))"

definition getPoliciesByIds :: "string option \<Rightarrow> string list \<Rightarrow> bool \<Rightarrow> tenant_policy list \<Rightarrow> (string \<times> tenant_policy) list" where
  "getPoliciesByIds tenantId ids includeDeleted db =
     map (\<lambda>p. (tp_id p, p)) (filter (matches_where (policyTenantWhere tenantId [(''id'', \<lambda>p. tp_id p \<in> set ids)] includeDeleted)) db)"

section \<open>Isolation\<close>

lemma tenantWhere_matches:
  assumes "fst ` set extra \<inter> {''tenantId'', ''deletedAt''} = {}"
  shows "matches_where (tenantWhere tenantOf deleted tid extra incl) r \<longleftrightarrow>
    (has_tenant tid \<longrightarrow> tenantOf r = tid) \<and> (incl \<or> \<not> deleted r) \<and> matches_where extra r"
proof -
  let ?t = "tenantFilter tenantOf tid" and ?d = "if incl then [] else [(''deletedAt'', \<lambda>r. \<not> deleted r)]"
  have d: "spread ?t ?d = ?t @ ?d" by (rule spread_disjoint) (simp add: tenantFilter_def)
  have "fst ` set (?t @ ?d) \<subseteq> {''tenantId'', ''deletedAt''}" by (simp add: tenantFilter_def)
  then have "spread (?t @ ?d) extra = (?t @ ?d) @ extra" using assms by (intro spread_disjoint) blast
  then show ?thesis unfolding tenantWhere_def d matches_append
    by (simp add: matches_append) (auto simp: tenantFilter_def matches_where_def)
qed

lemma list_extra_keys: "fst ` set (list_extra params) \<subseteq> {''holderAddress'', ''isActive''}"
  by (auto simp: list_extra_def split: option.splits)

lemma search_extra_keys: "fst ` set (search_extra params) \<subseteq> {''holderAddress'', ''policyType'', ''region'', ''isActive''}"
  by (auto simp: search_extra_def split: option.splits)

lemma after_keys: "afterWhere env c = Some aft \<Longrightarrow> fst ` set aft \<subseteq> {''OR''}"
  by (auto simp: afterWhere_def split: if_splits)

lemma policyWhere_matches:
  assumes "fst ` set extra \<subseteq> {''holderAddress'', ''policyType'', ''region'', ''isActive''}" "fst ` set aft \<subseteq> {''OR''}"
  shows "matches_where (policyTenantWhere tid (extra @ aft) incl) p \<longleftrightarrow>
    (has_tenant tid \<longrightarrow> tp_tenantId p = tid) \<and> (incl \<or> \<not> p_deleted p) \<and> matches_where extra p \<and> matches_where aft p"
proof -
  have "fst ` set (extra @ aft) \<inter> {''tenantId'', ''deletedAt''} = {}" using assms by fastforce
  then show ?thesis unfolding policyTenantWhere_def by (simp add: tenantWhere_matches matches_append)
qed

lemma connection_rows: "set (fst (policy_connection env n w db)) \<subseteq> {p \<in> set db. matches_where w p}"
  by (auto simp: policy_connection_def newest_policies_def Let_def dest!: in_set_takeD)


section \<open>Pages\<close>

lemma parse_policy_cursor:
  assumes "list_all json_plain isoText" "list_all json_plain i"
  shows "JSON_parse (policy_cursor_json isoText i) = Some (JObj [(''createdAt'', JStr isoText), (''id'', JStr i)])"
proof -
  let ?q = "CHR 0x22"
  have plain: "list_all json_plain ''createdAt''" "list_all json_plain ''id''" by (simp_all add: json_plain_def)
  have second: "json_members (?q # ''id'' @ ?q # CHR '':'' # ?q # i @ [?q, CHR ''}'']) = Some ([(''id'', JStr i)], [])"
    by (subst json_members.simps)
      (simp add: json_chars_plain [OF plain(2)] json_chars_plain [OF assms(2)] json_ws_id [of "CHR '':'' # _"] json_ws_id [of "''}''"]
        json_ws_id [of "CHR 0x22 # _"] json_value.simps [of "CHR 0x22 # _"])
  have first: "json_members (?q # ''createdAt'' @ ?q # CHR '':'' # ?q # isoText @ ?q # CHR '','' # ?q # ''id'' @ ?q # CHR '':'' # ?q # i @ [?q, CHR ''}''])
      = Some ([(''createdAt'', JStr isoText), (''id'', JStr i)], [])"
    using second
    by (subst json_members.simps)
      (simp add: json_chars_plain [OF plain(1)] json_chars_plain [OF assms(1)] json_ws_id [of "CHR '':'' # _"] json_ws_id [of "CHR '','' # _"]
        json_ws_id [of "CHR 0x22 # _"] json_value.simps [of "CHR 0x22 # _"])
  show ?thesis
    unfolding JSON_parse_def policy_cursor_json_def Let_def
    using first by (simp add: json_ws_id [of "CHR ''{'' # _"] json_ws_id [of "CHR 0x22 # _"] json_value.simps [of "CHR ''{'' # _"] json_ws_id [of "[]"])
qed

definition row_ok :: "read_env \<Rightarrow> tenant_policy \<Rightarrow> bool" where
  "row_ok env p \<longleftrightarrow> list_all json_plain (tp_id p) \<and> rd_dateParse env (js_toISOString (tp_createdAt p)) = Some (tp_createdAt p)"

lemma decode_policy_cursor:
  assumes "row_ok env p"
  shows "decodePolicyCursor env (encodePolicyCursor p) = Some (tp_createdAt p, tp_id p)" "encodePolicyCursor p \<noteq> []"
proof -
  have "list_all json_plain (tp_id p)" "rd_dateParse env (js_toISOString (tp_createdAt p)) = Some (tp_createdAt p)"
    using assms by (simp_all add: row_ok_def)
  then show "decodePolicyCursor env (encodePolicyCursor p) = Some (tp_createdAt p, tp_id p)"
    by (simp add: decodePolicyCursor_def encodePolicyCursor_def base64url_roundtrip parse_policy_cursor [OF iso_plain] json_field_def)
  show "encodePolicyCursor p \<noteq> []"
    unfolding encodePolicyCursor_def by (rule base64url_nonempty) (simp add: policy_cursor_json_def Let_def)
qed

type_synonym policy_query = "read_env \<times> string option \<times> list_params \<times> tenant_policy list"

definition policy_page :: "policy_query \<Rightarrow> string option \<Rightarrow> (tenant_policy list \<times> string option) option" where
  "policy_page d cursor = (case d of (env, tid, params, db) \<Rightarrow>
     map_option (\<lambda>(rows, c, _). (rows, c)) (listPolicies env tid (params\<lparr>lp_after := cursor\<rparr>) db))"

definition selected :: "string option \<Rightarrow> list_params \<Rightarrow> tenant_policy \<Rightarrow> bool" where
  "selected tid params p \<longleftrightarrow> (has_tenant tid \<longrightarrow> tp_tenantId p = tid) \<and> (lp_includeDeleted params \<or> \<not> p_deleted p) \<and>
     matches_where (list_extra params) p"

definition policy_items :: "policy_query \<Rightarrow> tenant_policy list" where
  "policy_items d = (case d of (env, tid, params, db) \<Rightarrow> newest_policies env (filter (selected tid params) db))"

definition policy_stands :: "policy_query \<Rightarrow> string \<Rightarrow> nat \<Rightarrow> bool" where
  "policy_stands d c k \<longleftrightarrow> 0 < k \<and> k \<le> length (policy_items d) \<and> c = encodePolicyCursor (policy_items d ! (k - 1))"

definition policy_limit :: "policy_query \<Rightarrow> nat" where
  "policy_limit d = nat (clampFirst (lp_first (fst (snd (snd d)))))"

definition policy_good :: "policy_query \<Rightarrow> bool" where
  "policy_good d = (case d of (env, tid, params, db) \<Rightarrow>
     distinct (map tp_id db) \<and> inj_on (rd_rank env) (tp_id ` set db) \<and> list_all (row_ok env) db)"

lemma clampFirst_range: "1 \<le> clampFirst r \<and> clampFirst r \<le> 100"
  by (auto simp: clampFirst_def MAX_FIRST_def)

lemma rows_beyond:
  assumes "distinct (map tp_id db)" "inj_on (rd_rank env) (tp_id ` set db)" "k < length (newest_policies env (filter P db))"
  defines "q \<equiv> newest_policies env (filter P db) ! k"
  shows "newest_policies env (filter (\<lambda>p. P p \<and> after_row env (tp_createdAt q, tp_id q) p) db) =
    drop (Suc k) (newest_policies env (filter P db))"
proof -
  let ?f = "\<lambda>p. (- tp_createdAt p, - rd_rank env (tp_id p))"
  have "inj_on tp_id (set db)" "distinct db" using assms(1) by (simp_all add: distinct_map)
  then have "inj_on ?f (set (filter P db))" "distinct (filter P db)"
    using assms(2) by (auto simp: inj_on_def)
  then have strict: "sorted_wrt (\<lambda>a b. ?f a < ?f b) (newest_policies env (filter P db))"
    unfolding newest_policies_def by (rule sort_key_strict)
  have less: "after_row env (tp_createdAt q, tp_id q) p \<longleftrightarrow> ?f q < ?f p" for p by (auto simp: after_row_def)
  have "newest_policies env (filter (\<lambda>p. P p \<and> after_row env (tp_createdAt q, tp_id q) p) db) =
      filter (\<lambda>p. ?f q < ?f p) (newest_policies env (filter P db))"
    unfolding newest_policies_def filter_sort less by (simp add: conj_commute)
  then show ?thesis using keyset_drop [OF strict assms(3)] unfolding q_def by simp
qed

lemma listPolicies_eval:
  assumes "afterWhere env cursor = Some aft"
  shows "listPolicies env tid (params\<lparr>lp_after := cursor\<rparr>) db =
    (let rows = newest_policies env (filter (\<lambda>p. selected tid params p \<and> matches_where aft p) db);
         n = nat (clampFirst (lp_first params))
     in Some (take n rows, if n < length rows then Some (encodePolicyCursor (rows ! (n - 1))) else None, length rows))"
proof -
  have e: "list_extra (params\<lparr>lp_after := cursor\<rparr>) = list_extra params" by (simp add: list_extra_def)
  have keys: "fst ` set (list_extra params) \<subseteq> {''holderAddress'', ''policyType'', ''region'', ''isActive''}"
    using list_extra_keys [of params] by blast
  have m: "matches_where (policyTenantWhere tid (list_extra params @ aft) (lp_includeDeleted params)) =
      (\<lambda>p. selected tid params p \<and> matches_where aft p)"
    by (rule ext) (simp add: policyWhere_matches [OF keys after_keys [OF assms]] selected_def)
  define n where "n = nat (clampFirst (lp_first params))"
  have n: "clampFirst (lp_first params) = int n" "0 < n" using clampFirst_range [of "lp_first params"] by (simp_all add: n_def)
  have "length (newest_policies env ps) = length ps" "newest_policies env ps = [] \<longleftrightarrow> ps = []" for ps
    by (simp_all add: newest_policies_def) (metis length_0_conv length_sort)
  then show ?thesis using assms n
    by (auto simp: listPolicies_def buildListWhere_def e m policy_connection_def Let_def min_def)
qed

lemma policy_page_at:
  assumes good: "policy_good d" and k: "k \<le> length (policy_items d)"
    and cursor: "k = 0 \<and> cursor = None \<or> (\<exists>c. cursor = Some c \<and> policy_stands d c k)"
  shows "page_at (policy_stands d) (policy_items d) (policy_limit d) k (policy_page d cursor)"
proof -
  obtain env tid params db where d: "d = (env, tid, params, db)" by (cases d)
  have ok: "distinct (map tp_id db)" "inj_on (rd_rank env) (tp_id ` set db)" "\<And>p. p \<in> set db \<Longrightarrow> row_ok env p"
    using good by (auto simp: policy_good_def d list_all_iff)
  have items: "policy_items d = newest_policies env (filter (selected tid params) db)" by (simp add: policy_items_def d)
  obtain aft where aft: "afterWhere env cursor = Some aft"
      "newest_policies env (filter (\<lambda>p. selected tid params p \<and> matches_where aft p) db) = drop k (policy_items d)"
  proof (cases cursor)
    case None
    then show ?thesis using cursor items that [of "[]"] by (simp add: afterWhere_def matches_where_def)
  next
    case (Some c)
    let ?q = "policy_items d ! (k - 1)"
    have st: "0 < k" "c = encodePolicyCursor ?q" using cursor Some by (auto simp: policy_stands_def)
    have idx: "k - 1 < length (newest_policies env (filter (selected tid params) db))" using k st(1) items by simp
    have "?q \<in> set db" using nth_mem [OF idx] by (auto simp: items newest_policies_def)
    then have "afterWhere env cursor = Some [(''OR'', after_row env (tp_createdAt ?q, tp_id ?q))]"
      using decode_policy_cursor [OF ok(3)] Some st(2) by (simp add: afterWhere_def)
    moreover have "matches_where [(''OR'', after_row env (tp_createdAt ?q, tp_id ?q))] p \<longleftrightarrow> after_row env (tp_createdAt ?q, tp_id ?q) p" for p
      by (simp add: matches_where_def)
    ultimately show ?thesis
      using that [of "[(''OR'', after_row env (tp_createdAt ?q, tp_id ?q))]"] rows_beyond [OF ok(1,2) idx] st(1) unfolding items by simp
  qed
  have lim: "policy_limit d = nat (clampFirst (lp_first params))" "0 < policy_limit d"
    using clampFirst_range [of "lp_first params"] by (simp_all add: policy_limit_def d)
  have page: "policy_page d cursor = Some (take (policy_limit d) (drop k (policy_items d)),
      if policy_limit d < length (drop k (policy_items d)) then Some (encodePolicyCursor (drop k (policy_items d) ! (policy_limit d - 1))) else None)"
    unfolding policy_page_def d prod.case listPolicies_eval [OF aft(1)] aft(2) [unfolded d] Let_def
    by (simp add: lim(1) [unfolded d])
  show ?thesis unfolding page page_at_def using k lim(2) by (auto simp: policy_stands_def)
qed

interpretation policies: cursor_paging policy_page policy_items policy_limit policy_stands policy_good
proof
  fix d :: policy_query and c k
  show "0 < policy_limit d" using clampFirst_range [of "lp_first (fst (snd (snd d)))"] by (simp add: policy_limit_def)
  show "page_at (policy_stands d) (policy_items d) (policy_limit d) 0 (policy_page d None)" if "policy_good d"
    using policy_page_at [OF that] by simp
  show "page_at (policy_stands d) (policy_items d) (policy_limit d) k (policy_page d (Some c))"
    if "policy_good d" "policy_stands d c k" "k \<le> length (policy_items d)"
    using policy_page_at [OF that(1,3)] that(2) by blast
qed

section \<open>Properties\<close>

lemma resolved_has_form:
  "resolveFromHeader req = Some t \<Longrightarrow> tenant_id_re t" "resolveFromSubdomain cfg req = Some t \<Longrightarrow> tenant_id_re t"
  by (auto simp: resolveFromHeader_def resolveFromSubdomain_def tenant_validate_def Let_def split: list.splits if_splits)

text \<open>Where the tenant of a request comes from: the header, else the host name, else the configuration.\<close>

definition resolved_tenant :: "tenant_cfg \<Rightarrow> tenant_req \<Rightarrow> string option" where
  "resolved_tenant cfg req = (if tn_enabled cfg then (case resolveFromHeader req of Some t \<Rightarrow> Some t | None \<Rightarrow> resolveFromSubdomain cfg req) else None)"

lemma tenant_use_resolved: "tenant_use cfg req = (case resolved_tenant cfg req of Some t \<Rightarrow> t | None \<Rightarrow> tn_defaultTenantId cfg)"
  by (simp add: tenant_use_def resolved_tenant_def Let_def)

lemma resolved_tenant_form: "resolved_tenant cfg req = Some t \<Longrightarrow> tenant_id_re t"
  by (auto simp: resolved_tenant_def resolved_has_form split: if_splits option.splits)

lemma tenant_list_row:
  assumes "listPolicies env tid params db = Some c" "p \<in> set (fst c)"
  shows "p \<in> set db \<and> (has_tenant tid \<longrightarrow> tp_tenantId p = tid)"
proof -
  obtain aft where aft: "afterWhere env (lp_after params) = Some aft"
      "p \<in> set (fst (policy_connection env (clampFirst (lp_first params)) (policyTenantWhere tid (list_extra params @ aft) (lp_includeDeleted params)) db))"
    using assms by (auto simp: listPolicies_def buildListWhere_def)
  then have "p \<in> set db" "matches_where (policyTenantWhere tid (list_extra params @ aft) (lp_includeDeleted params)) p"
    using connection_rows by blast+
  moreover have "fst ` set (list_extra params) \<subseteq> {''holderAddress'', ''policyType'', ''region'', ''isActive''}"
    using list_extra_keys [of params] by blast
  ultimately show ?thesis using policyWhere_matches [OF _ after_keys [OF aft(1)]] by simp
qed

lemma tenant_search_row:
  assumes "searchPolicies env tid sparams db = Some c" "p \<in> set (fst c)"
  shows "p \<in> set db \<and> (has_tenant tid \<longrightarrow> tp_tenantId p = tid)"
proof -
  obtain aft where aft: "afterWhere env (sp_after sparams) = Some aft"
      "p \<in> set (fst (policy_connection env (clampFirst (sp_first sparams)) (policyTenantWhere tid (search_extra sparams @ aft) False) db))"
    using assms by (auto simp: searchPolicies_def)
  then have "p \<in> set db" "matches_where (policyTenantWhere tid (search_extra sparams @ aft) False) p"
    using connection_rows by blast+
  then show ?thesis using policyWhere_matches [OF search_extra_keys after_keys [OF aft(1)]] by simp
qed

lemma tenant_lookup_row: "has_tenant tid \<Longrightarrow> getPolicyById tid i incl db = Some p \<Longrightarrow> tp_tenantId p = tid"
  by (auto simp: getPolicyById_def assertTenantOwnership_def Let_def split: option.splits if_splits)

lemma tenant_batch_row: "has_tenant tid \<Longrightarrow> (k, p) \<in> set (getPoliciesByIds tid ids incl db) \<Longrightarrow> tp_tenantId p = tid"
  unfolding getPoliciesByIds_def policyTenantWhere_def by (auto simp: tenantWhere_matches)

text \<open>C22. Policy reads and the tenant of the request. The middleware takes the tenant from the header, else from the host name, if
  resolution is on and the text has the form of a tenant id, and otherwise from the configuration. If that tenant is not the empty
  text, every policy that a list, a search or a lookup returns belongs to it, so that a row without a tenant is returned to
  nobody. It is empty only for a request that resolves to none in a deployment whose default tenant is configured as empty,
  which nothing validates; then a lookup returns policies of every tenant.\<close>

theorem tenant_reads_isolated:
  assumes "tid = Some (tenant_use cfg req)"
  shows "(tenant_use cfg req \<noteq> [] \<longrightarrow>
       (\<forall>c p. listPolicies env tid params db = Some c \<and> p \<in> set (fst c) \<longrightarrow> p \<in> set db \<and> tp_tenantId p = tid)
     \<and> (\<forall>c p. searchPolicies env tid sparams db = Some c \<and> p \<in> set (fst c) \<longrightarrow> p \<in> set db \<and> tp_tenantId p = tid)
     \<and> (\<forall>p. getPolicyById tid i incl db = Some p \<longrightarrow> tp_tenantId p = tid)
     \<and> (\<forall>k p. (k, p) \<in> set (getPoliciesByIds tid ids incl db) \<longrightarrow> tp_tenantId p = tid))
    \<and> (tenant_use cfg req = [] \<longleftrightarrow> resolved_tenant cfg req = None \<and> tn_defaultTenantId cfg = [])
    \<and> (\<forall>t. resolved_tenant cfg req = Some t \<longrightarrow> tenant_use cfg req = t \<and> tenant_id_re t)
    \<and> (resolved_tenant cfg req = None \<longrightarrow> tenant_use cfg req = tn_defaultTenantId cfg)
    \<and> (tenant_use cfg req = [] \<longrightarrow> (\<forall>p. List.find (\<lambda>p. tp_id p = i) db = Some p \<and> \<not> p_deleted p \<longrightarrow> getPolicyById tid i incl db = Some p))"
proof -
  have t: "has_tenant tid" if "tenant_use cfg req \<noteq> []" using that assms by (simp add: has_tenant_def)
  have "t \<noteq> []" if "resolved_tenant cfg req = Some t" for t using resolved_tenant_form [OF that] by (auto simp: tenant_id_re_def)
  then have empty: "tenant_use cfg req = [] \<longleftrightarrow> resolved_tenant cfg req = None \<and> tn_defaultTenantId cfg = []"
    by (auto simp: tenant_use_resolved split: option.splits)
  have found: "getPolicyById tid i incl db = Some p"
    if "tenant_use cfg req = []" "List.find (\<lambda>p. tp_id p = i) db = Some p" "\<not> p_deleted p" for p
    using that assms by (simp add: getPolicyById_def assertTenantOwnership_def has_tenant_def)
  have src: "\<forall>t. resolved_tenant cfg req = Some t \<longrightarrow> tenant_use cfg req = t \<and> tenant_id_re t"
    "resolved_tenant cfg req = None \<longrightarrow> tenant_use cfg req = tn_defaultTenantId cfg"
    using resolved_tenant_form by (auto simp: tenant_use_resolved)
  show ?thesis
  proof (intro conjI impI empty allI)
    fix c p
    assume u: "tenant_use cfg req \<noteq> []"
    show "p \<in> set db" "tp_tenantId p = tid" if "listPolicies env tid params db = Some c \<and> p \<in> set (fst c)"
      using tenant_list_row [of env tid params db c p] that t [OF u] by auto
    show "p \<in> set db" "tp_tenantId p = tid" if "searchPolicies env tid sparams db = Some c \<and> p \<in> set (fst c)"
      using tenant_search_row [of env tid sparams db c p] that t [OF u] by auto
    show "tp_tenantId p = tid" if "getPolicyById tid i incl db = Some p" using tenant_lookup_row [OF t [OF u] that] .
    show "tp_tenantId p = tid" if "(k, p) \<in> set (getPoliciesByIds tid ids incl db)" for k using tenant_batch_row [OF t [OF u] that] .
  next
    fix p
    assume "tenant_use cfg req = []" "List.find (\<lambda>p. tp_id p = i) db = Some p \<and> \<not> p_deleted p"
    then show "getPolicyById tid i incl db = Some p" using found by blast
  qed (use src in auto)
qed

abbreviation (input) "wit_row t \<equiv> \<lparr>p_policyId = 1, p_holderAddress = ''GA'', p_policyType = ''Auto'', p_region = ''Low'',
  p_coverageAmount = ''1'', p_premium = ''1'', p_isActive = True, p_startLedger = 0, p_endLedger = 5, p_assetContractId = None,
  p_txHash = None, p_deleted = False, tp_id = ''GA:1'', tp_createdAt = 0, tp_tenantId = t\<rparr>"

abbreviation (input) "wit_tcfg \<equiv> \<lparr>tn_enabled = False, tn_baseDomain = ''niffyinsur.com'', tn_defaultTenantId = ''default''\<rparr>"

abbreviation (input) "wit_lparams \<equiv> \<lparr>lp_after = None, lp_first = None, lp_holderAddress = None, lp_active = None, lp_includeDeleted = False\<rparr>"

text \<open>A policy as the indexer writes it, without a tenant, is in no list of a deployment without tenants.\<close>

theorem tenant_reads_isolated_witness:
  "tenant_use wit_tcfg \<lparr>tq_tenantHeader = [], tq_host = None\<rparr> = ''default''
   \<and> map_option fst (listPolicies \<lparr>rd_rank = (\<lambda>_. 0), rd_dateParse = (\<lambda>_. None)\<rparr> (Some ''default'') wit_lparams [wit_row None]) = Some []"
proof -
  let ?env = "\<lparr>rd_rank = (\<lambda>_. 0), rd_dateParse = (\<lambda>_. None)\<rparr> :: read_env"
  have u: "tenant_use wit_tcfg \<lparr>tq_tenantHeader = [], tq_host = None\<rparr> = ''default''" by (simp add: tenant_use_def)
  obtain c where c: "listPolicies ?env (Some ''default'') wit_lparams [wit_row None] = Some c"
    by (auto simp: listPolicies_def buildListWhere_def afterWhere_def)
  have d: "Some ''default'' = Some (tenant_use wit_tcfg \<lparr>tq_tenantHeader = [], tq_host = None\<rparr>)" unfolding u by simp
  have ne: "tenant_use wit_tcfg \<lparr>tq_tenantHeader = [], tq_host = None\<rparr> \<noteq> []" unfolding u by simp
  have "p \<in> set [wit_row None] \<and> tp_tenantId p = Some ''default''" if "p \<in> set (fst c)" for p
    using tenant_reads_isolated [where env = ?env and params = wit_lparams and db = "[wit_row None]", OF d, THEN conjunct1, THEN mp, OF ne, THEN conjunct1]
      c that by blast
  then have "p \<notin> set (fst c)" for p by force
  then have "fst c = []" by (cases "fst c") auto
  then show ?thesis using u c by simp
qed


text \<open>Following the cursors of the policy list gives the tenant's policies that match the filter, newest first, each
  exactly once, for any page size: as many pages as there are rows, and one more, are enough.\<close>

theorem policy_pages_complete:
  assumes "distinct (map tp_id db)" "inj_on (rd_rank env) (tp_id ` set db)" "list_all (row_ok env) db"
  shows "follow (policy_page (env, tid, params, db)) (Suc (length db)) None = Some (newest_policies env (filter (selected tid params) db))"
proof -
  have "length (policy_items (env, tid, params, db)) < Suc (length db)"
    by (simp add: policy_items_def newest_policies_def le_imp_less_Suc)
  then show ?thesis
    using policies.follow_all [of "(env, tid, params, db)"] assms by (simp add: policy_good_def policy_items_def del: follow.simps)
qed

abbreviation (input) "wit_renv \<equiv> \<lparr>rd_rank = (\<lambda>s. int (length s)), rd_dateParse = (\<lambda>s. if s = js_toISOString 0 then Some 0 else None)\<rparr>"

theorem policy_pages_complete_witness:
  "follow (policy_page (wit_renv, Some ''default'', wit_lparams\<lparr>lp_first := Some 1\<rparr>, [wit_row (Some ''default''), (wit_row None)\<lparr>tp_id := ''GA:10''\<rparr>])) 3 None =
     Some [wit_row (Some ''default'')]"
proof -
  let ?db = "[wit_row (Some ''default''), (wit_row None)\<lparr>tp_id := ''GA:10''\<rparr>]"
  have "list_all (row_ok wit_renv) ?db" by (simp add: row_ok_def json_plain_def)
  then show ?thesis
    using policy_pages_complete [of ?db wit_renv "Some ''default''" "wit_lparams\<lparr>lp_first := Some 1\<rparr>"]
    by (simp add: selected_def has_tenant_def list_extra_def truthy_def matches_where_def newest_policies_def numeral_3_eq_3 del: follow.simps)
qed

end
