(* ===== verification/Allowlist.thy ===== *)
theory Allowlist
  imports Ssrf Json
begin

unbundle bit_operations_syntax

text \<open>
  The address list in front of the admin endpoints, \<open>src/backend/src/admin/middleware/allowlist.middleware.ts\<close>:
  reading CIDR rules, matching an address, and which address of a request is looked at.

  \<open>isIPv4\<close> and \<open>isIPv6\<close> are those of Node's \<open>net\<close>; BigInts are natural numbers.
\<close>

section \<open>Addresses\<close>

text \<open>Node accepts an octet without leading zeros.\<close>

definition node_octet :: "string \<Rightarrow> bool" where
  "node_octet s = (s \<noteq> [] \<and> list_all is_digit s \<and> length s \<le> 3 \<and> digits_val s \<le> 255 \<and> (1 < length s \<longrightarrow> hd s \<noteq> CHR ''0''))"

definition isIPv4 :: "string \<Rightarrow> bool" where
  "isIPv4 s = (let parts = split_on (CHR ''.'') s in length parts = 4 \<and> list_all node_octet parts)"

definition zone_char :: "char \<Rightarrow> bool" where
  "zone_char c = (is_digit c \<or> (let n = of_char (lower_char c) :: nat in 97 \<le> n \<and> n \<le> 122) \<or> c \<in> {CHR ''-'', CHR ''.'', CHR '':''})"

definition v6_groups :: "string list \<Rightarrow> nat option" where
  "v6_groups gs =
     (let hex = (\<lambda>g. 1 \<le> length g \<and> length g \<le> 4 \<and> list_all is_hex g) in
      if gs = [] then Some 0
      else if list_all hex gs then Some (length gs)
      else if list_all hex (butlast gs) \<and> isIPv4 (last gs) then Some (length gs + 1) else None)"

definition no_v4 :: "string \<Rightarrow> bool" where
  "no_v4 s = (CHR ''.'' \<notin> set s)"

text \<open>Eight groups, the last two possibly as an IPv4 address, or fewer with one \<open>::\<close>; then an optional zone.\<close>

definition isIPv6 :: "string \<Rightarrow> bool" where
  "isIPv6 s =
     (let addr = takeWhile (\<lambda>c. c \<noteq> CHR ''%'') s;
          zone = dropWhile (\<lambda>c. c \<noteq> CHR ''%'') s;
          pieces = (\<lambda>t. if t = [] then [] else split_on (CHR '':'') t)
      in (zone = [] \<or> (1 < length zone \<and> list_all zone_char (tl zone))) \<and>
         (case split_dcolon addr of
            [whole] \<Rightarrow> v6_groups (pieces whole) = Some 8
          | [l, r] \<Rightarrow> no_v4 l \<and> (case (v6_groups (pieces l), v6_groups (pieces r)) of (Some a, Some b) \<Rightarrow> a + b \<le> 7 | _ \<Rightarrow> False)
          | _ \<Rightarrow> False))"

definition ipv4ToBigInt :: "string \<Rightarrow> nat" where
  "ipv4ToBigInt ip =
     (case map digits_val (split_on (CHR ''.'') ip) of
        a # b # c # d # _ \<Rightarrow> push_bit 24 a OR push_bit 16 b OR push_bit 8 c OR d
      | _ \<Rightarrow> 0)"

definition filter_empty :: "string list \<Rightarrow> string list" where
  "filter_empty = filter (\<lambda>s. s \<noteq> [])"

definition expandV6 :: "string \<Rightarrow> string list" where
  "expandV6 ip =
     (let lower = to_lower ip; parts = split_dcolon lower in
      case parts of
        [l, r] \<Rightarrow>
          let left = filter_empty (split_on (CHR '':'') l); right = filter_empty (split_on (CHR '':'') r);
              fill = 8 - length left - length right
          in left @ replicate fill ''0'' @ right
      | _ \<Rightarrow> filter_empty (split_on (CHR '':'') lower))"

text \<open>\<open>parseInt(h, 16)\<close>: the leading hexadecimal digits.\<close>

definition hextet :: "string \<Rightarrow> nat" where
  "hextet h = radix_val 16 (takeWhile is_hex h)"

definition ipv6ToBigInt :: "string \<Rightarrow> nat" where
  "ipv6ToBigInt ip = foldl (\<lambda>res h. push_bit 16 res OR hextet h) 0 (expandV6 ip)"

definition extractV4FromMappedV6 :: "string \<Rightarrow> string option" where
  "extractV4FromMappedV6 ip =
     (let lower = to_lower ip in
      if \<not> starts_with ''::ffff:'' lower then None
      else let candidate = drop 7 lower in if isIPv4 candidate then Some candidate else None)"

section \<open>Rules\<close>

record cidr_rule =
  cr_network :: nat
  cr_mask :: nat
  cr_v6 :: bool

text \<open>\<open>parseCidr\<close>: a rule, null, or an exception: a prefix that is not a number reaches \<open>BigInt(NaN)\<close>.\<close>

datatype cidr_parse = Rule cidr_rule | No_Rule | Cidr_Throws

definition cidr_mask :: "nat \<Rightarrow> nat \<Rightarrow> nat" where
  "cidr_mask width bits = (if bits = 0 then 0 else push_bit width 1 - push_bit (width - bits) 1)"

definition make_rule :: "bool \<Rightarrow> nat \<Rightarrow> nat \<Rightarrow> jnum \<Rightarrow> cidr_parse" where
  "make_rule v6 width value bits =
     (case bits of
        Fin b \<Rightarrow> if b < 0 \<or> int width < b then No_Rule
                 else Rule \<lparr>cr_network = value AND cidr_mask width (nat b), cr_mask = cidr_mask width (nat b), cr_v6 = v6\<rparr>
      | Infinity _ \<Rightarrow> No_Rule
      | _ \<Rightarrow> Cidr_Throws)"

definition parseCidr :: "string \<Rightarrow> cidr_parse" where
  "parseCidr input =
     (let parts = split_on (CHR ''/'') input;
          addr = hd parts;
          prefixBits = (case parts of _ # p # _ \<Rightarrow> if p = [] then None else Some (parseInt p) | _ \<Rightarrow> None)
      in if isIPv4 addr then make_rule False 32 (ipv4ToBigInt addr) (case prefixBits of None \<Rightarrow> Fin 32 | Some b \<Rightarrow> b)
         else if isIPv6 addr then make_rule True 128 (ipv6ToBigInt addr) (case prefixBits of None \<Rightarrow> Fin 128 | Some b \<Rightarrow> b)
         else No_Rule)"

definition ipMatchesCidr :: "string \<Rightarrow> cidr_rule \<Rightarrow> bool" where
  "ipMatchesCidr ip rule =
     (if isIPv4 ip then (if cr_v6 rule then False else ipv4ToBigInt ip AND cr_mask rule = cr_network rule)
      else if isIPv6 ip then
        (if \<not> cr_v6 rule
         then (case extractV4FromMappedV6 ip of
                 Some mapped \<Rightarrow> ipv4ToBigInt mapped AND cr_mask rule = cr_network rule
               | None \<Rightarrow> False)
         else ipv6ToBigInt ip AND cr_mask rule = cr_network rule)
      else False)"

section \<open>The middleware\<close>

text \<open>\<open>None\<close> where the constructor throws.\<close>

fun read_rules :: "string list \<Rightarrow> cidr_rule list option" where
  "read_rules [] = Some []"
| "read_rules (p # ps) =
     (case parseCidr p of
        Cidr_Throws \<Rightarrow> None
      | No_Rule \<Rightarrow> read_rules ps
      | Rule r \<Rightarrow> map_option (\<lambda>rs. r # rs) (read_rules ps))"

definition allowlist_rules :: "string option \<Rightarrow> cidr_rule list option" where
  "allowlist_rules allowedCidrs =
     read_rules (filter_empty (map trim (split_on (CHR '','') (case allowedCidrs of None \<Rightarrow> [] | Some s \<Rightarrow> s))))"

record admin_req =
  aq_forwardedFor :: "string option"
  aq_ip :: "string option"
  aq_remoteAddress :: "string option"

definition getClientIp :: "admin_req \<Rightarrow> string" where
  "getClientIp req =
     (let first = (case aq_forwardedFor req of None \<Rightarrow> [] | Some f \<Rightarrow> trim (hd (split_on (CHR '','') f)));
          nonempty = (\<lambda>x. case x of None \<Rightarrow> [] | Some s \<Rightarrow> s)
      in if first \<noteq> [] then first
         else if nonempty (aq_ip req) \<noteq> [] then nonempty (aq_ip req)
         else if nonempty (aq_remoteAddress req) \<noteq> [] then nonempty (aq_remoteAddress req) else ''unknown'')"

text \<open>True: the request goes on; false: \<open>ForbiddenException\<close>.\<close>

definition allowlist_use :: "cidr_rule list \<Rightarrow> admin_req \<Rightarrow> bool" where
  "allowlist_use rules req = (rules = [] \<or> list_ex (ipMatchesCidr (getClientIp req)) rules)"

section \<open>Masks\<close>

lemma and_cidr_mask:
  fixes x :: nat
  assumes "x < 2 ^ w" "b \<le> w"
  shows "x AND cidr_mask w b = 2 ^ (w - b) * (x div 2 ^ (w - b))"
proof (cases "b = 0")
  case True
  then show ?thesis using assms(1) by (simp add: cidr_mask_def)
next
  case False
  let ?k = "w - b"
  have "push_bit w 1 - push_bit ?k 1 = push_bit ?k (mask b :: nat)"
  proof -
    have "(2 :: nat) ^ w = 2 ^ ?k * 2 ^ b" using assms(2) by (simp add: power_add [symmetric])
    then show ?thesis by (simp add: push_bit_eq_mult mask_eq_exp_minus_1 algebra_simps)
  qed
  moreover have "x AND push_bit ?k (mask b) = push_bit ?k (drop_bit ?k x AND mask b)"
    by (rule bit_eqI) (auto simp: bit_and_iff bit_push_bit_iff bit_drop_bit_eq)
  moreover have "drop_bit ?k x AND mask b = drop_bit ?k x"
  proof -
    have "x div 2 ^ ?k < 2 ^ b" using assms by (simp add: less_mult_imp_div_less power_add [symmetric])
    then show ?thesis by (simp add: take_bit_eq_mask [symmetric] drop_bit_eq_div take_bit_nat_eq_self)
  qed
  ultimately show ?thesis using False by (simp add: cidr_mask_def push_bit_eq_mult drop_bit_eq_div)
qed

lemma same_block:
  fixes x y :: nat
  assumes "x < 2 ^ w" "y < 2 ^ w" "b \<le> w"
  shows "x AND cidr_mask w b = y AND cidr_mask w b \<longleftrightarrow> x div 2 ^ (w - b) = y div 2 ^ (w - b)"
  using assms by (simp add: and_cidr_mask)


section \<open>Dotted addresses\<close>

definition quad :: "nat list \<Rightarrow> bool" where
  "quad os \<longleftrightarrow> length os = 4 \<and> list_all (\<lambda>n. n \<le> 255) os"

definition quad_value :: "nat list \<Rightarrow> nat" where
  "quad_value os = foldl (\<lambda>n d. n * 256 + d) 0 os"

lemma quad_cases:
  assumes "quad os"
  obtains a b c d where "os = [a, b, c, d]" "a \<le> 255" "b \<le> 255" "c \<le> 255" "d \<le> 255"
  using assms by (auto simp: quad_def numeral_eq_Suc length_Suc_conv)

lemma node_octet_show: "n \<le> 255 \<Longrightarrow> node_octet (show_nat n)"
proof -
  assume n: "n \<le> 255"
  have "hd (show_nat n) \<noteq> CHR ''0''" if "1 < length (show_nat n)"
    using that hd_show_nat_nonzero [of n] by (cases "n = 0") (auto simp: show_nat.simps [of 0])
  then show ?thesis using n length_show_nat [of n] show_nat_digits [of n] by (simp add: node_octet_def)
qed

lemma dotted_no_char: "\<not> is_digit c \<Longrightarrow> c \<noteq> CHR ''.'' \<Longrightarrow> c \<notin> set (dotted os)"
  unfolding dotted_def by (induction os rule: induct_list012) (auto simp: show_nat_no_char)

lemma dotted_parts: "quad os \<Longrightarrow> split_on (CHR ''.'') (dotted os) = map show_nat os"
  by (erule quad_cases) (simp add: dotted_def split_on_append split_on_no_sep)

lemma isIPv4_dotted: "quad os \<Longrightarrow> isIPv4 (dotted os)"
  by (simp add: isIPv4_def dotted_parts) (auto simp: quad_def list_all_iff node_octet_show)

lemma value_dotted: "quad os \<Longrightarrow> ipv4ToBigInt (dotted os) = quad_value os \<and> quad_value os < 2 ^ 32"
proof (erule quad_cases)
  fix a b c d :: nat assume os: "os = [a, b, c, d]" and le: "a \<le> 255" "b \<le> 255" "c \<le> 255" "d \<le> 255"
  have q: "quad os" using le by (simp add: os quad_def)
  have "push_bit 24 a OR push_bit 16 b OR push_bit 8 c OR d = push_bit 8 (push_bit 8 (push_bit 8 a OR b) OR c) OR d"
    by (simp add: push_bit_or or.assoc)
  also have "\<dots> = quad_value os" using le by (simp add: pair_value os quad_value_def)
  finally have "ipv4ToBigInt (dotted os) = quad_value os" unfolding ipv4ToBigInt_def dotted_parts [OF q] by (simp add: os)
  then show ?thesis using le by (simp add: os quad_value_def)
qed

definition cidr_text :: "nat list \<times> nat \<Rightarrow> string" where
  "cidr_text r = dotted (fst r) @ ''/'' @ show_nat (snd r)"

definition cidr_rule_of :: "nat list \<times> nat \<Rightarrow> cidr_rule" where
  "cidr_rule_of r = \<lparr>cr_network = quad_value (fst r) AND cidr_mask 32 (snd r), cr_mask = cidr_mask 32 (snd r), cr_v6 = False\<rparr>"

definition cidr_ok :: "nat list \<times> nat \<Rightarrow> bool" where
  "cidr_ok r \<longleftrightarrow> quad (fst r) \<and> snd r \<le> 32"

lemma parse_cidr_text:
  assumes "cidr_ok r"
  shows "parseCidr (cidr_text r) = Rule (cidr_rule_of r)"
proof -
  have q: "quad (fst r)" using assms by (simp add: cidr_ok_def)
  have "\<not> is_digit (CHR ''/'')" by (simp add: is_digit_def)
  then have "split_on (CHR ''/'') (cidr_text r) = [dotted (fst r), show_nat (snd r)]"
    by (simp add: cidr_text_def split_on_append split_on_no_sep dotted_no_char show_nat_no_char)
  then show ?thesis using assms isIPv4_dotted [OF q] value_dotted [OF q]
    by (simp add: parseCidr_def make_rule_def cidr_rule_of_def cidr_ok_def)
qed

lemma read_cidr_texts: "list_all cidr_ok rs \<Longrightarrow> read_rules (map cidr_text rs) = Some (map cidr_rule_of rs)"
  by (induction rs) (simp_all add: parse_cidr_text)

lemma dotted_matches:
  assumes "quad os" "cidr_ok r"
  shows "ipMatchesCidr (dotted os) (cidr_rule_of r) \<longleftrightarrow> quad_value os div 2 ^ (32 - snd r) = quad_value (fst r) div 2 ^ (32 - snd r)"
proof -
  have "quad (fst r)" "snd r \<le> 32" using assms(2) by (simp_all add: cidr_ok_def)
  then show ?thesis using assms(1) value_dotted same_block [of "quad_value os" 32 "quad_value (fst r)" "snd r"]
    by (simp add: ipMatchesCidr_def isIPv4_dotted cidr_rule_of_def)
qed

text \<open>The address list decides by the number of leading bits it says, on an address the client names. For IPv4
  rules, a request whose \<open>X-Forwarded-For\<close> starts with an address is let through if and only if that address
  shares with some rule the first \<open>bits\<close> bits; the address of the connection plays no part. So whoever can
  reach the server directly passes by naming an address of an allowed network.\<close>

theorem allowlist_decided_by_header:
  assumes "list_all cidr_ok rs" "rs \<noteq> []" "quad os" "tail = [] \<or> hd tail = CHR '',''"
    and "aq_forwardedFor req = Some (dotted os @ tail)"
  shows "\<exists>rules. read_rules (map cidr_text rs) = Some rules \<and>
    (allowlist_use rules req \<longleftrightarrow> (\<exists>r \<in> set rs. quad_value os div 2 ^ (32 - snd r) = quad_value (fst r) div 2 ^ (32 - snd r)))"
proof -
  have comma: "CHR '','' \<notin> set (dotted os)" by (rule dotted_no_char) (simp_all add: is_digit_def)
  have "hd (split_on (CHR '','') (dotted os @ tail)) = dotted os"
    using assms(4) comma by (cases tail) (simp_all add: split_on_no_sep split_on_append)
  moreover have "trim (dotted os) = dotted os"
  proof (rule trim_no_space)
    have "\<not> is_digit c" "c \<noteq> CHR ''.''" if "is_space c" for c
      using that digit_not_space [of c] by (auto simp: is_space_def)
    then show "list_all (\<lambda>c. \<not> is_space c) (dotted os)" unfolding list_all_iff using dotted_no_char by blast
  qed
  moreover have "dotted os \<noteq> []" using assms(3) by (auto elim!: quad_cases simp: dotted_def)
  ultimately have "getClientIp req = dotted os" using assms(5) by (simp add: getClientIp_def Let_def)
  then have "allowlist_use (map cidr_rule_of rs) req \<longleftrightarrow> (\<exists>r \<in> set rs. ipMatchesCidr (dotted os) (cidr_rule_of r))"
    using assms(2) by (auto simp: allowlist_use_def list_ex_iff)
  also have "\<dots> \<longleftrightarrow> (\<exists>r \<in> set rs. quad_value os div 2 ^ (32 - snd r) = quad_value (fst r) div 2 ^ (32 - snd r))"
    using assms(1) dotted_matches [OF assms(3)] by (auto simp: list_all_iff)
  finally show ?thesis using read_cidr_texts [OF assms(1)] by blast
qed

theorem allowlist_decided_by_header_witness:
  "\<exists>rules. read_rules [cidr_text ([10, 0, 0, 0], 8)] = Some rules \<and>
     allowlist_use rules \<lparr>aq_forwardedFor = Some (dotted [10, 9, 8, 7]), aq_ip = Some ''203.0.113.9'', aq_remoteAddress = None\<rparr> \<and>
     \<not> allowlist_use rules \<lparr>aq_forwardedFor = Some (dotted [11, 9, 8, 7]), aq_ip = Some ''10.0.0.1'', aq_remoteAddress = None\<rparr>"
  using allowlist_decided_by_header [of "[([10, 0, 0, 0], 8)]" "[10, 9, 8, 7]" "[]"
      "\<lparr>aq_forwardedFor = Some (dotted [10, 9, 8, 7]), aq_ip = Some ''203.0.113.9'', aq_remoteAddress = None\<rparr>"]
    allowlist_decided_by_header [of "[([10, 0, 0, 0], 8)]" "[11, 9, 8, 7]" "[]"
      "\<lparr>aq_forwardedFor = Some (dotted [11, 9, 8, 7]), aq_ip = Some ''10.0.0.1'', aq_remoteAddress = None\<rparr>"]
  by (auto simp: cidr_ok_def quad_def quad_value_def)

text \<open>A rule with too long a prefix is skipped, and a list of such rules lets everyone in; a prefix that is not a
  number stops the server from starting.\<close>

lemma allowlist_fails_open:
  assumes "quad os" "32 < b"
  shows "read_rules [dotted os @ ''/'' @ show_nat b] = Some [] \<and> allowlist_use [] req"
proof -
  have "\<not> is_digit (CHR ''/'')" by (simp add: is_digit_def)
  then have "split_on (CHR ''/'') (dotted os @ ''/'' @ show_nat b) = [dotted os, show_nat b]"
    by (simp add: split_on_append split_on_no_sep dotted_no_char show_nat_no_char)
  then show ?thesis using assms isIPv4_dotted by (simp add: parseCidr_def make_rule_def allowlist_use_def)
qed

lemma allowlist_bad_prefix_throws:
  assumes "quad os" "parseInt p = NaN" "p \<noteq> []" "CHR ''/'' \<notin> set p"
  shows "read_rules ((dotted os @ ''/'' @ p) # ps) = None"
proof -
  have "\<not> is_digit (CHR ''/'')" by (simp add: is_digit_def)
  then have "split_on (CHR ''/'') (dotted os @ ''/'' @ p) = [dotted os, p]"
    using assms(4) by (simp add: split_on_append split_on_no_sep dotted_no_char)
  then show ?thesis using assms isIPv4_dotted by (simp add: parseCidr_def make_rule_def)
qed

end
