(* ===== verification/Cache.thy ===== *)
theory Cache
  imports Redis_Model
begin

text \<open>
  \<open>CacheService\<close> of \<open>src/backend/src/cache/cache.service.ts\<close> over \<open>RedisService\<close>.

  \<open>wrap\<close> is run by many callers at once, so it is a step relation: each step is one command of one caller.
\<close>

section \<open>Keys\<close>

record cache_cfg =
  cc_appName :: string
  cc_env :: string

definition buildKey :: "cache_cfg \<Rightarrow> string \<Rightarrow> string option \<Rightarrow> string" where
  "buildKey cfg key tenant =
     (if tenant = None \<or> tenant = Some []
      then cc_appName cfg @ '':'' @ cc_env cfg @ '':'' @ key
      else cc_appName cfg @ '':'' @ cc_env cfg @ '':'' @ the tenant @ '':'' @ key)"

text \<open>\<open>RedisService\<close> swallows its errors, so the \<open>catch\<close> branches of \<open>get\<close> and \<open>set\<close> are not reached.\<close>

definition cache_get :: "cache_cfg \<Rightarrow> string \<Rightarrow> string option \<Rightarrow> ('v, 'v option) rcmd" where
  "cache_get cfg key tenant = redis_get (buildKey cfg key tenant)"

definition cache_set :: "cache_cfg \<Rightarrow> string \<Rightarrow> 'v \<Rightarrow> int \<Rightarrow> string option \<Rightarrow> ('v, unit) rcmd" where
  "cache_set cfg key v ttlSeconds tenant = redis_set (buildKey cfg key tenant) v ttlSeconds"

section \<open>wrap\<close>

text \<open>Where a caller of \<open>wrap\<close> is.\<close>

datatype 'v pc =
  Read_Cache            \<comment> \<open>about to look into the cache\<close>
| Take_Lock             \<comment> \<open>missed, about to try the lock\<close>
| Load_Locked           \<comment> \<open>\<open>loader\<close> is running under the lock\<close>
| Store_Value 'v        \<comment> \<open>loaded, about to write the cache\<close>
| Unlock 'v             \<comment> \<open>about to release the lock\<close>
| Wait_Lock             \<comment> \<open>somebody else holds the lock\<close>
| Read_Again            \<comment> \<open>done waiting, about to look again\<close>
| Load_Free             \<comment> \<open>\<open>loader\<close> is running without the lock\<close>
| Returned 'v
| Failed                \<comment> \<open>\<open>loader\<close> has thrown\<close>

record 'v flight =
  fl_cache :: "'v option"
  fl_lock :: bool
  fl_pc :: "nat \<Rightarrow> 'v pc"
  fl_loads :: nat       \<comment> \<open>calls of \<open>loader\<close> so far\<close>

definition goto :: "nat \<Rightarrow> 'v pc \<Rightarrow> 'v flight \<Rightarrow> 'v flight" where
  "goto i c s = s\<lparr>fl_pc := (fl_pc s)(i := c)\<rparr>"

definition load :: "'v flight \<Rightarrow> 'v flight" where
  "load s = s\<lparr>fl_loads := Suc (fl_loads s)\<rparr>"

text \<open>The steps while Redis answers, nothing expires, nobody gives up waiting and \<open>loader\<close> returns one of the values \<open>V\<close>.\<close>

inductive calm_step :: "'v set \<Rightarrow> 'v flight \<Rightarrow> 'v flight \<Rightarrow> bool" for V where
  hit: "\<lbrakk>fl_pc s i = Read_Cache; fl_cache s = Some v\<rbrakk> \<Longrightarrow> calm_step V s (goto i (Returned v) s)"
| miss: "\<lbrakk>fl_pc s i = Read_Cache; fl_cache s = None\<rbrakk> \<Longrightarrow> calm_step V s (goto i Take_Lock s)"
| acquire: "\<lbrakk>fl_pc s i = Take_Lock; \<not> fl_lock s\<rbrakk> \<Longrightarrow> calm_step V s (load (goto i Load_Locked (s\<lparr>fl_lock := True\<rparr>)))"
| busy: "\<lbrakk>fl_pc s i = Take_Lock; fl_lock s\<rbrakk> \<Longrightarrow> calm_step V s (goto i Wait_Lock s)"
| loaded: "\<lbrakk>fl_pc s i = Load_Locked; v \<in> V\<rbrakk> \<Longrightarrow> calm_step V s (goto i (Store_Value v) s)"
| store: "fl_pc s i = Store_Value v \<Longrightarrow> calm_step V s (goto i (Unlock v) (s\<lparr>fl_cache := Some v\<rparr>))"
| unlock: "fl_pc s i = Unlock v \<Longrightarrow> calm_step V s (goto i (Returned v) (s\<lparr>fl_lock := False\<rparr>))"
| lock_gone: "\<lbrakk>fl_pc s i = Wait_Lock; \<not> fl_lock s\<rbrakk> \<Longrightarrow> calm_step V s (goto i Read_Again s)"
| again_hit: "\<lbrakk>fl_pc s i = Read_Again; fl_cache s = Some v\<rbrakk> \<Longrightarrow> calm_step V s (goto i (Returned v) s)"
| again_miss: "\<lbrakk>fl_pc s i = Read_Again; fl_cache s = None\<rbrakk> \<Longrightarrow> calm_step V s (load (goto i Load_Free s))"
| loaded_free: "\<lbrakk>fl_pc s i = Load_Free; v \<in> V\<rbrakk> \<Longrightarrow> calm_step V s (goto i (Returned v) s)"

text \<open>What else can happen: refused commands, \<open>loader\<close> throwing, the five seconds of waiting, and expiry of both keys.\<close>

inductive rough_step :: "'v flight \<Rightarrow> 'v flight \<Rightarrow> bool" where
  read_error: "fl_pc s i = Read_Cache \<Longrightarrow> rough_step s (goto i Take_Lock s)"
| lock_error: "fl_pc s i = Take_Lock \<Longrightarrow> rough_step s (goto i Wait_Lock s)"
| lock_reply_lost: "\<lbrakk>fl_pc s i = Take_Lock; \<not> fl_lock s\<rbrakk> \<Longrightarrow> rough_step s (goto i Wait_Lock (s\<lparr>fl_lock := True\<rparr>))"
| store_error: "fl_pc s i = Store_Value v \<Longrightarrow> rough_step s (goto i (Unlock v) s)"
| unlock_error: "fl_pc s i = Unlock v \<Longrightarrow> rough_step s (goto i (Returned v) s)"
| loader_throws: "fl_pc s i = Load_Locked \<Longrightarrow> rough_step s (goto i Failed (s\<lparr>fl_lock := False\<rparr>))"
| loader_throws_unlock_error: "fl_pc s i = Load_Locked \<Longrightarrow> rough_step s (goto i Failed s)"
| loader_throws_free: "fl_pc s i = Load_Free \<Longrightarrow> rough_step s (goto i Failed s)"
| wait_timeout: "fl_pc s i = Wait_Lock \<Longrightarrow> rough_step s (goto i Read_Again s)"
| again_error: "fl_pc s i = Read_Again \<Longrightarrow> rough_step s (load (goto i Load_Free s))"
| lock_expires: "rough_step s (s\<lparr>fl_lock := False\<rparr>)"
| cache_expires: "rough_step s (s\<lparr>fl_cache := None\<rparr>)"

definition wrap_step :: "'v set \<Rightarrow> 'v flight \<Rightarrow> 'v flight \<Rightarrow> bool" where
  "wrap_step V s t \<longleftrightarrow> calm_step V s t \<or> rough_step s t"

definition flight_start :: "'v flight" where
  "flight_start = \<lparr>fl_cache = None, fl_lock = False, fl_pc = (\<lambda>_. Read_Cache), fl_loads = 0\<rparr>"

section \<open>What callers get, and who loads\<close>

definition pc_values :: "'v pc \<Rightarrow> 'v set" where
  "pc_values c = (case c of Store_Value v \<Rightarrow> {v} | Unlock v \<Rightarrow> {v} | Returned v \<Rightarrow> {v} | _ \<Rightarrow> {})"

definition values_ok :: "'v set \<Rightarrow> 'v flight \<Rightarrow> bool" where
  "values_ok V s \<longleftrightarrow> (\<forall>v. fl_cache s = Some v \<longrightarrow> v \<in> V) \<and> (\<forall>i. pc_values (fl_pc s i) \<subseteq> V)"

definition owner :: "'v pc \<Rightarrow> bool" where
  "owner c = (case c of Load_Locked \<Rightarrow> True | Store_Value _ \<Rightarrow> True | Unlock _ \<Rightarrow> True | _ \<Rightarrow> False)"

text \<open>While it is calm: one owner, who holds the lock; past the store, and for everyone who waited for the lock, there is a value.\<close>

definition calm_inv :: "'v flight \<Rightarrow> bool" where
  "calm_inv s \<longleftrightarrow> (fl_lock s \<longleftrightarrow> (\<exists>i. owner (fl_pc s i))) \<and> (\<forall>i j. owner (fl_pc s i) \<longrightarrow> owner (fl_pc s j) \<longrightarrow> i = j) \<and>
     (\<forall>i. fl_pc s i \<noteq> Load_Free) \<and>
     (\<forall>i. fl_pc s i = Read_Again \<longrightarrow> fl_cache s \<noteq> None) \<and> (\<forall>i v. fl_pc s i = Unlock v \<longrightarrow> fl_cache s \<noteq> None) \<and>
     (\<forall>i. fl_pc s i = Wait_Lock \<longrightarrow> fl_lock s \<or> fl_cache s \<noteq> None)"

lemma values_step:
  assumes "values_ok V s" "wrap_step V s t"
  shows "values_ok V t"
proof -
  have pcs: "pc_values (fl_pc s i) \<subseteq> V" "fl_cache s = Some v \<Longrightarrow> v \<in> V" for i v using assms(1) by (auto simp: values_ok_def)
  from assms(2) show ?thesis unfolding wrap_step_def
  proof
    assume "calm_step V s t"
    then show ?thesis using pcs
      by cases (force simp: values_ok_def goto_def load_def pc_values_def split: pc.splits if_splits)+
  next
    assume "rough_step s t"
    then show ?thesis using pcs
      by cases (force simp: values_ok_def goto_def load_def pc_values_def split: pc.splits if_splits)+
  qed
qed


lemma owner_simps [simp]:
  "owner Load_Locked" "owner (Store_Value v)" "owner (Unlock v)" "\<not> owner Read_Cache" "\<not> owner Take_Lock" "\<not> owner Wait_Lock"
  "\<not> owner Read_Again" "\<not> owner Load_Free" "\<not> owner (Returned v)" "\<not> owner Failed"
  by (simp_all add: owner_def)

lemma goto_simps [simp]:
  "fl_pc (goto i c s) = (fl_pc s)(i := c)" "fl_cache (goto i c s) = fl_cache s" "fl_lock (goto i c s) = fl_lock s"
  "fl_pc (load s) = fl_pc s" "fl_cache (load s) = fl_cache s" "fl_lock (load s) = fl_lock s"
  by (simp_all add: goto_def load_def)

lemma calm_inv_step:
  assumes "calm_inv s" "calm_step V s t"
  shows "calm_inv t"
proof -
  have lock: "fl_lock s \<longleftrightarrow> (\<exists>i. owner (fl_pc s i))" and one: "\<And>i j. owner (fl_pc s i) \<Longrightarrow> owner (fl_pc s j) \<Longrightarrow> i = j"
    and free: "\<And>i. fl_pc s i \<noteq> Load_Free" and again: "\<And>i. fl_pc s i = Read_Again \<Longrightarrow> fl_cache s \<noteq> None"
    and unl: "\<And>i v. fl_pc s i = Unlock v \<Longrightarrow> fl_cache s \<noteq> None" and wait: "\<And>i. fl_pc s i = Wait_Lock \<Longrightarrow> fl_lock s \<or> fl_cache s \<noteq> None"
    using assms(1) unfolding calm_inv_def by blast+
  from assms(2) show ?thesis
  proof cases
    case (hit i v)
    then show ?thesis using lock one free again unl wait unfolding calm_inv_def by (simp split: if_splits) (metis owner_simps(4))
  next
    case (miss i)
    then show ?thesis using lock one free again unl wait unfolding calm_inv_def by (simp split: if_splits) (metis owner_simps(4))
  next
    case (acquire i)
    then show ?thesis using lock one free again unl wait unfolding calm_inv_def by auto
  next
    case (busy i)
    then show ?thesis using lock one free again unl wait unfolding calm_inv_def by (simp split: if_splits) (metis owner_simps(5))
  next
    case (loaded i v)
    then show ?thesis using lock one [of i] free again unl wait unfolding calm_inv_def by (simp split: if_splits) (metis owner_simps(1))
  next
    case (store i v)
    then show ?thesis using lock one [of i] free again unl wait unfolding calm_inv_def by (simp split: if_splits) (metis owner_simps(2))
  next
    case (unlock i v)
    then have "\<not> owner (fl_pc s j)" if "j \<noteq> i" for j using one [of i j] that by auto
    then show ?thesis using unlock free again unl [of i v] unfolding calm_inv_def by auto
  next
    case (lock_gone i)
    then show ?thesis using lock free again unl wait [of i] unfolding calm_inv_def by auto
  next
    case (again_hit i v)
    then show ?thesis using lock one free again unl wait unfolding calm_inv_def by (simp split: if_splits) (metis owner_simps(7))
  next
    case (again_miss i)
    then show ?thesis using again by simp
  next
    case (loaded_free i v)
    then show ?thesis using free by simp
  qed
qed

interpretation flight_values: relation_system "wrap_step V" "values_ok V"
  by unfold_locales (rule values_step)

interpretation calm_flight: relation_system "calm_step V" calm_inv
  by unfold_locales (rule calm_inv_step)

text \<open>Callers of \<open>wrap\<close> never see anything but what \<open>loader\<close> returned, whatever fails or expires and in whatever
  order their commands run. As long as Redis answers, no key expires, \<open>loader\<close> returns and nobody's wait
  times out, \<open>loader\<close> never runs twice at the same time, never without the lock, and every caller who waited
  finds the value.\<close>

theorem wrap_single_flight:
  assumes "(wrap_step V)\<^sup>*\<^sup>* flight_start r" "(calm_step V)\<^sup>*\<^sup>* flight_start s"
  shows "(\<forall>i v. fl_pc r i = Returned v \<longrightarrow> v \<in> V)
    \<and> (\<forall>i j. fl_pc s i = Load_Locked \<and> fl_pc s j = Load_Locked \<longrightarrow> i = j)
    \<and> (\<forall>i. fl_pc s i \<noteq> Load_Free \<and> (fl_pc s i = Read_Again \<longrightarrow> fl_cache s \<noteq> None))"
proof (intro conjI allI impI)
  have start: "values_ok V flight_start" "calm_inv flight_start"
    by (simp_all add: values_ok_def calm_inv_def flight_start_def pc_values_def)
  fix i j v
  have "pc_values (fl_pc r i) \<subseteq> V" using flight_values.reach_inv [OF assms(1) start(1)] by (simp add: values_ok_def)
  then show "v \<in> V" if "fl_pc r i = Returned v" using that by (simp add: pc_values_def)
  have inv: "calm_inv s" by (rule calm_flight.reach_inv [OF assms(2) start(2)])
  then show "i = j" if "fl_pc s i = Load_Locked \<and> fl_pc s j = Load_Locked"
    using that unfolding calm_inv_def by (metis owner_simps(1))
  show "fl_pc s i \<noteq> Load_Free" "fl_pc s i = Read_Again \<Longrightarrow> fl_cache s \<noteq> None" using inv unfolding calm_inv_def by blast+
qed

text \<open>Callers who have missed before the value was stored load one after the other: the lock is taken without looking into
  the cache again. So any number of loads is possible although nothing fails.\<close>

definition after_loads :: "'v \<Rightarrow> nat \<Rightarrow> nat \<Rightarrow> 'v flight" where
  "after_loads v n k = \<lparr>fl_cache = (if k = 0 then None else Some v), fl_lock = False,
     fl_pc = (\<lambda>i. if i < k then Returned v else if i < n then Take_Lock else Read_Cache), fl_loads = k\<rparr>"

lemma all_miss: "(calm_step V)\<^sup>*\<^sup>* flight_start (after_loads v n 0)"
proof (induction n)
  case 0
  then show ?case by (simp add: flight_start_def after_loads_def)
next
  case (Suc n)
  have "goto n Take_Lock (after_loads v n 0) = after_loads v (Suc n) 0"
    by (auto simp: goto_def after_loads_def fun_eq_iff)
  moreover have "calm_step V (after_loads v n 0) (goto n Take_Lock (after_loads v n 0))"
    by (rule calm_step.miss) (simp_all add: after_loads_def)
  ultimately show ?case using Suc.IH by simp
qed

lemma load_once:
  assumes "v \<in> V" "k < n"
  shows "(calm_step V)\<^sup>*\<^sup>* (after_loads v n k) (after_loads v n (Suc k))"
proof -
  let ?a = "after_loads v n k"
  let ?b = "load (goto k Load_Locked (?a\<lparr>fl_lock := True\<rparr>))"
  let ?c = "goto k (Store_Value v) ?b"
  let ?d = "goto k (Unlock v) (?c\<lparr>fl_cache := Some v\<rparr>)"
  let ?e = "goto k (Returned v) (?d\<lparr>fl_lock := False\<rparr>)"
  have "calm_step V ?a ?b" using assms(2) by (intro calm_step.acquire) (simp_all add: after_loads_def)
  moreover have "calm_step V ?b ?c" using assms(1) by (intro calm_step.loaded) simp_all
  moreover have "calm_step V ?c ?d" by (rule calm_step.store) simp
  moreover have "calm_step V ?d ?e" by (rule calm_step.unlock) simp
  moreover have "?e = after_loads v n (Suc k)"
    by (auto simp: goto_def load_def after_loads_def fun_eq_iff)
  ultimately show ?thesis by (metis converse_rtranclp_into_rtranclp rtranclp.rtrancl_refl)
qed

lemma missed_callers_load_again:
  assumes "v \<in> V"
  shows "\<exists>s. (calm_step V)\<^sup>*\<^sup>* flight_start s \<and> fl_loads s = n"
proof -
  have "k \<le> n \<Longrightarrow> (calm_step V)\<^sup>*\<^sup>* flight_start (after_loads v n k)" for k
  proof (induction k)
    case (Suc k)
    then show ?case using load_once [OF assms, of k n] by (meson Suc_le_lessD less_imp_le rtranclp_trans)
  qed (rule all_miss)
  then show ?thesis by (intro exI [of _ "after_loads v n n"]) (simp add: after_loads_def)
qed

theorem wrap_single_flight_witness:
  "fl_pc (after_loads (7 :: int) 2 1) 0 = Returned 7 \<and> (\<forall>i. fl_pc (after_loads (7 :: int) 2 1) i \<noteq> Load_Free)"
proof -
  have r: "(calm_step {7 :: int})\<^sup>*\<^sup>* flight_start (after_loads 7 2 1)"
    using all_miss [of "{7 :: int}" 7 2] load_once [of 7 "{7 :: int}" 0 2] by (simp add: rtranclp_trans)
  have "(wrap_step {7 :: int})\<^sup>*\<^sup>* flight_start (after_loads 7 2 1)"
    by (rule rtranclp_mono [THEN predicate2D, OF _ r]) (auto simp: wrap_step_def)
  then show ?thesis using wrap_single_flight [OF _ r] by (simp add: after_loads_def)
qed

text \<open>A key in a tenant's space and one outside can be the same.\<close>

lemma buildKey_collides: "t \<noteq> [] \<Longrightarrow> buildKey cfg k (Some t) = buildKey cfg (t @ '':'' @ k) None"
  by (simp add: buildKey_def)

end
