(* ===== verification/Idempotency.thy ===== *)
theory Idempotency
  imports Redis_Model
begin

text \<open>
  Safe retries of POST requests: \<open>src/backend/src/common/middleware/idempotency.middleware.ts\<close> with the entries of
  \<open>redis/cache.ts\<close>. SHA-256 is an argument, and so is the handler behind the middleware, a function of the
  application's state. A request has two phases, the lookup and the answer, between which other requests
  may run.
\<close>

section \<open>Entries\<close>

record idem_entry =
  ie_status :: int
  ie_body :: string
  ie_version :: int

definition IDEMPOTENCY_VERSION :: int where "IDEMPOTENCY_VERSION = 1"
definition IDEMPOTENCY_SECONDS :: int where "IDEMPOTENCY_SECONDS = 24 * 60 * 60"

definition cacheGet :: "string \<Rightarrow> ('v, 'v option) rcmd" where
  "cacheGet key = se_try (c_get key) (\<lambda>_. se_return None)"

definition cacheSet :: "string \<Rightarrow> 'v \<Rightarrow> int \<Rightarrow> ('v, unit) rcmd" where
  "cacheSet key v ttlSeconds = se_try (c_setex key ttlSeconds v) (\<lambda>_. se_return ())"

definition entry_key :: "string \<Rightarrow> string" where
  "entry_key key = ''idempotency:'' @ key"

definition setIdempotencyEntry :: "string \<Rightarrow> idem_entry \<Rightarrow> int \<Rightarrow> (idem_entry, unit) rcmd" where
  "setIdempotencyEntry key entry ttlSeconds = cacheSet (entry_key key) entry ttlSeconds"

definition getIdempotencyEntry :: "string \<Rightarrow> int \<Rightarrow> (idem_entry, idem_entry option) rcmd" where
  "getIdempotencyEntry key currentVersion =
     se_bind (cacheGet (entry_key key))
       (\<lambda>entry. se_return (case entry of None \<Rightarrow> None | Some e \<Rightarrow> if ie_version e \<noteq> currentVersion then None else Some e))"

section \<open>The middleware\<close>

text \<open>\<open>UUID_V4_RE\<close>.\<close>

definition uuid_v4 :: "string \<Rightarrow> bool" where
  "uuid_v4 s =
     (case split_on (CHR ''-'') s of
        [a, b, c, d, e] \<Rightarrow>
          length a = 8 \<and> length b = 4 \<and> length c = 4 \<and> length d = 4 \<and> length e = 12 \<and>
          list_all is_hex (a @ b @ c @ d @ e) \<and> hd c = CHR ''4'' \<and> lower_char (hd d) \<in> set ''89ab''
      | _ \<Rightarrow> False)"

record idem_req =
  iq_method :: string
  iq_path :: string
  iq_key :: "string option"
  iq_user :: "string option"

definition idem_subject :: "idem_req \<Rightarrow> string" where
  "idem_subject req = (case iq_user req of None \<Rightarrow> ''anon'' | Some u \<Rightarrow> u)"

definition idem_scope :: "idem_req \<Rightarrow> string \<Rightarrow> string" where
  "idem_scope req rawKey = iq_method req @ '':'' @ iq_path req @ '':'' @ rawKey @ '':'' @ idem_subject req"

datatype idem_lookup = Pass | Bad_Key | Replay int string | Run string    \<comment> \<open>go on, and store under this key\<close>

definition idem_begin :: "(string \<Rightarrow> string) \<Rightarrow> idem_req \<Rightarrow> (idem_entry, idem_lookup) rcmd" where
  "idem_begin sha256 req =
     (if iq_key req = None \<or> iq_key req = Some [] then se_return Pass
      else let rawKey = the (iq_key req) in
        if \<not> uuid_v4 rawKey then se_return Bad_Key
        else let cacheKey = sha256 (idem_scope req rawKey) in
          se_bind (getIdempotencyEntry cacheKey IDEMPOTENCY_VERSION)
            (\<lambda>cached. se_return (case cached of Some e \<Rightarrow> Replay (ie_status e) (ie_body e) | None \<Rightarrow> Run cacheKey)))"

text \<open>\<open>res.json\<close> as the middleware replaces it.\<close>

definition idem_end :: "string \<Rightarrow> int \<Rightarrow> string \<Rightarrow> (idem_entry, unit) rcmd" where
  "idem_end cacheKey statusCode body =
     (if statusCode < 500
      then setIdempotencyEntry cacheKey \<lparr>ie_status = statusCode, ie_body = body, ie_version = IDEMPOTENCY_VERSION\<rparr> IDEMPOTENCY_SECONDS
      else se_return ())"

datatype idem_answer = Answer int string | Answer_Replayed int string | Answer_Bad_Request

type_synonym 'app handler = "'app \<Rightarrow> (int \<times> string) \<times> 'app"

definition idem_use ::
  "(string \<Rightarrow> string) \<Rightarrow> 'app handler \<Rightarrow> idem_req \<Rightarrow> idem_entry redis \<times> 'app \<Rightarrow> idem_answer \<times> idem_entry redis \<times> 'app" where
  "idem_use sha256 handler req st =
     (case idem_begin sha256 req (fst st) of
        (Inr Bad_Key, r) \<Rightarrow> (Answer_Bad_Request, r, snd st)
      | (Inr (Replay s b), r) \<Rightarrow> (Answer_Replayed s b, r, snd st)
      | (Inr (Run k), r) \<Rightarrow> (case handler (snd st) of ((s, b), app) \<Rightarrow> (Answer s b, snd (idem_end k s b r), app))
      | (_, r) \<Rightarrow> (case handler (snd st) of ((s, b), app) \<Rightarrow> (Answer s b, r, app)))"

section \<open>Scopes\<close>

lemma split_on_chars: "x \<in> set s \<Longrightarrow> x = c \<or> (\<exists>w \<in> set (split_on c s). x \<in> set w)"
  by (induction s) (auto split: list.splits)

lemma uuid_no_colon: "uuid_v4 k \<Longrightarrow> CHR '':'' \<notin> set k"
proof
  assume k: "uuid_v4 k" and c: "CHR '':'' \<in> set k"
  have hex: "\<not> is_hex (CHR '':'')" by code_simp
  have "\<exists>w \<in> set (split_on (CHR ''-'') k). CHR '':'' \<in> set w" using split_on_chars [OF c, of "CHR ''-''"] by auto
  then show False using k hex by (auto simp: uuid_v4_def list_all_iff split: list.splits)
qed

lemma scope_unique:
  assumes "idem_scope q k = idem_scope q' k'" "uuid_v4 k" "uuid_v4 k'"
    and "CHR '':'' \<notin> set (iq_method q)" "CHR '':'' \<notin> set (iq_method q')"
    and "CHR '':'' \<notin> set (idem_subject q)" "CHR '':'' \<notin> set (idem_subject q')"
  shows "iq_method q = iq_method q' \<and> iq_path q = iq_path q' \<and> k = k' \<and> idem_subject q = idem_subject q'"
proof -
  have m: "iq_method q = iq_method q'" "iq_path q @ '':'' @ k @ '':'' @ idem_subject q = iq_path q' @ '':'' @ k' @ '':'' @ idem_subject q'"
    using first_sep_unique [OF assms(4,5)] assms(1) by (simp_all add: idem_scope_def)
  then have s: "iq_path q @ '':'' @ k = iq_path q' @ '':'' @ k'" "idem_subject q = idem_subject q'"
    using last_sep_unique [OF assms(6,7), of "iq_path q @ '':'' @ k" "iq_path q' @ '':'' @ k'"] by simp_all
  then show ?thesis using m(1) last_sep_unique [OF uuid_no_colon [OF assms(2)] uuid_no_colon [OF assms(3)]] by simp
qed

section \<open>Retries\<close>

lemma begin_eval:
  assumes "r_faults r = []" "iq_key req = Some k" "uuid_v4 k"
  shows "idem_begin sha req r = (Inr (case kv_live r (entry_key (sha (idem_scope req k))) of
      Some e \<Rightarrow> if ie_version e \<noteq> IDEMPOTENCY_VERSION then Run (sha (idem_scope req k)) else Replay (ie_status e) (ie_body e)
    | None \<Rightarrow> Run (sha (idem_scope req k))), r)"
proof -
  have "k \<noteq> []" using assms(3) by (auto simp: uuid_v4_def)
  then show ?thesis using assms
    by (auto simp: idem_begin_def getIdempotencyEntry_def cacheGet_def c_get_def send_def se_try_def se_bind_def Let_def split: option.split)
qed

lemma end_eval:
  assumes "r_faults r = []" "s < 500"
  shows "snd (idem_end k s b r) = r\<lparr>r_kv := (r_kv r)(entry_key k \<mapsto>
    (\<lparr>ie_status = s, ie_body = b, ie_version = IDEMPOTENCY_VERSION\<rparr>, r_now r + IDEMPOTENCY_SECONDS * 1000))\<rparr>"
  using assms by (simp add: idem_end_def setIdempotencyEntry_def cacheSet_def c_setex_def send_def se_try_def)

lemma end_error: "\<not> s < 500 \<Longrightarrow> idem_end k s b r = (Inr (), r)"
  by (simp add: idem_end_def)

lemma kv_live_put_other: "k \<noteq> x \<Longrightarrow> kv_live (r\<lparr>r_kv := (r_kv r)(x \<mapsto> e)\<rparr>) k = kv_live r k"
  by (auto simp: kv_live_def split: option.split)

text \<open>A retry within a day is answered from the first answer. With Redis reachable and a well-formed key that was not
  used before, the handler runs once; if it answered below 500, every request with the same method, path,
  key and subject in the next 24 hours gets the same status and body and does not reach its handler. A
  request that differs in one of the four (the two hashes not colliding, method and subject without a colon) runs
  its own handler, as does a retry after a server error.\<close>

theorem retry_replays:
  assumes "r_faults r = []" "iq_key req = Some k" "uuid_v4 k" "kv_live r (entry_key (sha (idem_scope req k))) = None"
    and "handler app = ((s, b), app1)" "0 \<le> dt" "dt < 24 * 60 * 60 * 1000"
    and "sha (idem_scope q k') = sha (idem_scope req k) \<Longrightarrow> idem_scope q k' = idem_scope req k"
  shows "\<exists>r1. idem_use sha handler req (r, app) = (Answer s b, r1, app1)
    \<and> (s < 500 \<longrightarrow> idem_use sha handler2 req (r1\<lparr>r_now := r_now r1 + dt\<rparr>, app2) = (Answer_Replayed s b, r1\<lparr>r_now := r_now r1 + dt\<rparr>, app2))
    \<and> (500 \<le> s \<longrightarrow> fst (idem_use sha handler2 req (r1, app2)) = (case handler2 app2 of ((s2, b2), _) \<Rightarrow> Answer s2 b2))
    \<and> (iq_key q = Some k' \<and> uuid_v4 k' \<and> (iq_method q, iq_path q, k', idem_subject q) \<noteq> (iq_method req, iq_path req, k, idem_subject req)
        \<and> CHR '':'' \<notin> set (iq_method q @ iq_method req @ idem_subject q @ idem_subject req) \<and> kv_live r (entry_key (sha (idem_scope q k'))) = None
        \<longrightarrow> fst (idem_use sha handler2 q (r1, app2)) = (case handler2 app2 of ((s2, b2), _) \<Rightarrow> Answer s2 b2))"
proof -
  let ?key = "sha (idem_scope req k)"
  let ?r1 = "snd (idem_end ?key s b r)"
  have run: "idem_use sha handler req (r, app) = (Answer s b, ?r1, app1)"
    using begin_eval [OF assms(1-3)] assms(4,5) by (simp add: idem_use_def)
  have faults: "r_faults ?r1 = []" using assms(1) end_eval [OF assms(1)] by (cases "s < 500") (simp_all add: idem_end_def)
  have replay: "idem_use sha handler2 req (?r1\<lparr>r_now := r_now ?r1 + dt\<rparr>, app2) =
      (Answer_Replayed s b, ?r1\<lparr>r_now := r_now ?r1 + dt\<rparr>, app2)" if "s < 500"
  proof -
    have "kv_live (?r1\<lparr>r_now := r_now ?r1 + dt\<rparr>) (entry_key ?key) = Some \<lparr>ie_status = s, ie_body = b, ie_version = IDEMPOTENCY_VERSION\<rparr>"
      using end_eval [OF assms(1) that] assms(7) by (simp add: kv_live_def IDEMPOTENCY_SECONDS_def)
    moreover have "r_faults (?r1\<lparr>r_now := r_now ?r1 + dt\<rparr>) = []" using faults by simp
    ultimately show ?thesis using begin_eval [OF _ assms(2,3), of "?r1\<lparr>r_now := r_now ?r1 + dt\<rparr>" sha] by (simp add: idem_use_def)
  qed
  have fresh: "fst (idem_use sha handler2 q (?r1, app2)) = (case handler2 app2 of ((s2, b2), _) \<Rightarrow> Answer s2 b2)"
    if "iq_key q = Some k'" "uuid_v4 k'" "kv_live ?r1 (entry_key (sha (idem_scope q k'))) = None" for q k'
    using begin_eval [OF faults that(1,2), of sha] that(3) by (auto simp: idem_use_def split: prod.splits)
  have err: "kv_live ?r1 (entry_key ?key) = None" if "500 \<le> s" using that assms(4) by (simp add: idem_end_def)
  have other: "kv_live ?r1 (entry_key (sha (idem_scope q k'))) = None"
    if "iq_key q = Some k' \<and> uuid_v4 k' \<and> (iq_method q, iq_path q, k', idem_subject q) \<noteq> (iq_method req, iq_path req, k, idem_subject req)
        \<and> CHR '':'' \<notin> set (iq_method q @ iq_method req @ idem_subject q @ idem_subject req) \<and> kv_live r (entry_key (sha (idem_scope q k'))) = None"
  proof -
    have "idem_scope q k' \<noteq> idem_scope req k" using scope_unique [of q k' req k] that assms(3) by auto
    then have "entry_key (sha (idem_scope q k')) \<noteq> entry_key ?key" using assms(8) by (auto simp: entry_key_def)
    then show ?thesis using that end_eval [OF assms(1)] by (cases "s < 500") (simp_all add: kv_live_put_other end_error)
  qed
  show ?thesis
  proof (intro exI [of _ ?r1] conjI impI, goal_cases)
    case 1 show ?case by (rule run)
  next
    case 2 then show ?case by (rule replay)
  next
    case 3 then show ?case by (rule fresh [OF assms(2,3) err])
  next
    case 4 then show ?case using fresh [OF _ _ other] by blast
  qed
qed

definition sample_post :: idem_req where
  "sample_post = \<lparr>iq_method = ''POST'', iq_path = ''/api/claims'', iq_key = Some ''123e4567-e89b-42d3-a456-426614174000'', iq_user = None\<rparr>"

definition redis_at :: "int \<Rightarrow> idem_entry redis" where
  "redis_at t = \<lparr>r_now = t, r_kv = (\<lambda>_. None), r_hash = (\<lambda>_ _. None), r_zset = (\<lambda>_. []), r_zexp = (\<lambda>_. None), r_faults = []\<rparr>"

lemma sample_key: "uuid_v4 ''123e4567-e89b-42d3-a456-426614174000''"
  by code_simp

theorem retry_replays_witness:
  "\<exists>r1. idem_use (\<lambda>s. s) (\<lambda>n. ((201, ''c1''), n + 1)) sample_post (redis_at 0, 0::nat) = (Answer 201 ''c1'', r1, 1)
    \<and> idem_use (\<lambda>s. s) (\<lambda>n. ((201, ''c2''), n + 1)) sample_post (r1\<lparr>r_now := r_now r1 + 1000\<rparr>, 1) =
        (Answer_Replayed 201 ''c1'', r1\<lparr>r_now := r_now r1 + 1000\<rparr>, 1)"
  using retry_replays [of "redis_at 0" sample_post "''123e4567-e89b-42d3-a456-426614174000''" "\<lambda>s. s" "\<lambda>n. ((201, ''c1''), n + 1)" "0::nat" 201
      "''c1''" 1 1000 sample_post "''123e4567-e89b-42d3-a456-426614174000''" "\<lambda>n. ((201, ''c2''), n + 1)" 1, OF _ _ sample_key]
  by (auto simp: sample_post_def redis_at_def kv_live_def)

text \<open>Two requests with the same key that both look before either answers both run the handler.\<close>

lemma concurrent_requests_both_run:
  assumes "r_faults r = []" "iq_key req = Some k" "uuid_v4 k" "kv_live r (entry_key (sha (idem_scope req k))) = None"
  shows "fst (idem_begin sha req r) = Inr (Run (sha (idem_scope req k))) \<and>
    fst (idem_begin sha req (snd (idem_begin sha req r))) = Inr (Run (sha (idem_scope req k)))"
  using begin_eval [OF assms(1-3), of sha] assms(4) by simp

end
