(* ===== verification/Premium.thy ===== *)
theory Premium
  imports Js_Prelude
begin

text \<open>
  Premium arithmetic: the engine of \<open>src/backend/src/premium/premium.engine.ts\<close>, the local fallback of
  \<open>rpc/soroban.service.ts\<close>, and the contract both say they mirror
  (\<open>src/contracts/niffyinsure/src/premium_pure.rs\<close>), whose \<open>i128\<close> operations fail on overflow.
\<close>

section \<open>The engine\<close>

text \<open>\<open>BigInt\<close> division rounds towards zero.\<close>

definition bigint_div :: "int \<Rightarrow> int \<Rightarrow> int" where
  "bigint_div a b = (a - js_rem a b) div b"

definition BPS :: int where "BPS = 10000"

record risk_input =
  ri_baseAmount :: int
  ri_safetyScore :: int
  ri_deductibleAmount :: "int option"

record rate_table =
  rt_riskRate :: int
  rt_regionFactor :: int
  rt_ageFactor :: int
  rt_coverageMult :: int

definition calculatePremium :: "risk_input \<Rightarrow> rate_table \<Rightarrow> int" where
  "calculatePremium risk table =
     (let basePremium = bigint_div (ri_baseAmount risk * rt_riskRate table) BPS;
          regionAdj = bigint_div (basePremium * rt_regionFactor table) BPS;
          ageAdj = bigint_div (regionAdj * rt_ageFactor table) BPS;
          coverageAdj = bigint_div (ageAdj * rt_coverageMult table) BPS;
          safetyDiscount = bigint_div (coverageAdj * (BPS - ri_safetyScore risk * 10)) BPS;
          deductible = (case ri_deductibleAmount risk of None \<Rightarrow> 0 | Some d \<Rightarrow> d);
          premium = safetyDiscount - deductible
      in if premium > 0 then premium else 1)"

section \<open>The local fallback\<close>

datatype policy_kind = Auto | Health | Property
datatype region_tier = Low | Medium | High

definition type_factor :: "policy_kind \<Rightarrow> int" where
  "type_factor k = (case k of Auto \<Rightarrow> 15 | Health \<Rightarrow> 20 | Property \<Rightarrow> 10)"

definition region_factor :: "region_tier \<Rightarrow> int" where
  "region_factor r = (case r of Low \<Rightarrow> 8 | Medium \<Rightarrow> 10 | High \<Rightarrow> 14)"

definition computePremiumLocal :: "policy_kind \<Rightarrow> region_tier \<Rightarrow> int \<Rightarrow> int \<Rightarrow> int" where
  "computePremiumLocal policyType region age riskScore =
     (let ageF = (if age < 25 then 15 else if age > 60 then 13 else 10);
          total = type_factor policyType + region_factor region + ageF + riskScore
      in bigint_div (10000000 * total) 10)"

section \<open>The contract\<close>

datatype rounding = Floor | Ceil

datatype premium_error =
  Overflow | DivideByZero | NegativePremiumNotSupported | InvalidBaseAmount
| MissingRegionMultiplier | MissingAgeMultiplier | MissingCoverageMultiplier

type_synonym 'a premium_result = "premium_error + 'a"

definition i128 :: "int \<Rightarrow> int premium_result" where
  "i128 x = (if - (2 ^ 127) \<le> x \<and> x < 2 ^ 127 then Inr x else Inl Overflow)"

definition SCALE :: int where "SCALE = 10000"
definition MIN_MULTIPLIER :: int where "MIN_MULTIPLIER = 5000"
definition MAX_MULTIPLIER :: int where "MAX_MULTIPLIER = 50000"
definition MAX_SAFETY_DISCOUNT :: int where "MAX_SAFETY_DISCOUNT = 5000"

definition checked_mul :: "int \<Rightarrow> int \<Rightarrow> int premium_result" where "checked_mul a b = i128 (a * b)"
definition checked_add :: "int \<Rightarrow> int \<Rightarrow> int premium_result" where "checked_add a b = i128 (a + b)"
definition checked_sub :: "int \<Rightarrow> int \<Rightarrow> int premium_result" where "checked_sub a b = i128 (a - b)"

definition checked_div :: "int \<Rightarrow> int \<Rightarrow> int premium_result" where
  "checked_div a b = (if b = 0 then Inl DivideByZero else Inr (bigint_div a b))"

definition checked_mul_ratio :: "int \<Rightarrow> int \<Rightarrow> int \<Rightarrow> rounding \<Rightarrow> int premium_result" where
  "checked_mul_ratio amount num den mode =
     (if amount < 0 \<or> num < 0 \<or> den < 0 then Inl NegativePremiumNotSupported
      else and_then (checked_mul amount num) (\<lambda>product.
           and_then (checked_div product den) (\<lambda>quotient.
             let remainder = js_rem product den in
             (case mode of
                Floor \<Rightarrow> Inr quotient
              | Ceil \<Rightarrow> if remainder = 0 then Inr quotient else checked_add quotient 1))))"

definition round_to_multiple :: "int \<Rightarrow> int \<Rightarrow> rounding \<Rightarrow> int premium_result" where
  "round_to_multiple v multiple mode =
     (if multiple = 0 then Inl DivideByZero
      else if v < 0 \<or> multiple < 0 then Inl NegativePremiumNotSupported
      else and_then (checked_div v multiple) (\<lambda>quotient.
           and_then (checked_mul quotient multiple) (\<lambda>rounded_down.
             let remainder = js_rem v multiple in
             (case mode of
                Floor \<Rightarrow> Inr rounded_down
              | Ceil \<Rightarrow> if remainder = 0 then Inr rounded_down else checked_add rounded_down multiple))))"

datatype age_band = Young | Adult | Senior
datatype coverage_tier = Basic | Standard | Premium

record multiplier_table =
  mt_region :: "region_tier \<rightharpoonup> int"
  mt_age :: "age_band \<rightharpoonup> int"
  mt_coverage :: "coverage_tier \<rightharpoonup> int"
  mt_safety_discount :: int

record contract_risk =
  cr_region :: region_tier
  cr_age_band :: age_band
  cr_coverage :: coverage_tier
  cr_safety_score :: nat

definition safety_multiplier :: "nat \<Rightarrow> int \<Rightarrow> int premium_result" where
  "safety_multiplier safety_score max_discount =
     and_then (checked_mul_ratio (int safety_score) max_discount 100 Floor) (\<lambda>earned. checked_sub SCALE earned)"

definition ok_or :: "'a option \<Rightarrow> premium_error \<Rightarrow> 'a premium_result" where
  "ok_or x e = (case x of None \<Rightarrow> Inl e | Some a \<Rightarrow> Inr a)"

definition compute_premium :: "contract_risk \<Rightarrow> int \<Rightarrow> multiplier_table \<Rightarrow> int premium_result" where
  "compute_premium input base_amount table =
     (if base_amount \<le> 0 then Inl InvalidBaseAmount
      else and_then (ok_or (mt_region table (cr_region input)) MissingRegionMultiplier) (\<lambda>region_m.
           and_then (ok_or (mt_age table (cr_age_band input)) MissingAgeMultiplier) (\<lambda>age_m.
           and_then (ok_or (mt_coverage table (cr_coverage input)) MissingCoverageMultiplier) (\<lambda>coverage_m.
           and_then (safety_multiplier (cr_safety_score input) (mt_safety_discount table)) (\<lambda>safety_m.
           and_then (checked_mul_ratio base_amount region_m SCALE Ceil) (\<lambda>after_region.
           and_then (checked_mul_ratio after_region age_m SCALE Ceil) (\<lambda>after_age.
           and_then (checked_mul_ratio after_age coverage_m SCALE Ceil) (\<lambda>after_coverage.
           and_then (checked_mul_ratio after_coverage safety_m SCALE Floor) (\<lambda>after_safety.
           and_then (round_to_multiple after_safety 1 Ceil) (\<lambda>final_premium.
             Inr (if final_premium < 1 then 1 else final_premium)))))))))))"

definition in_bounds :: "int \<Rightarrow> bool" where
  "in_bounds v = (MIN_MULTIPLIER \<le> v \<and> v \<le> MAX_MULTIPLIER)"

text \<open>The bounds of \<open>validate_table\<close>; that each map has three entries is that no tier is missing.\<close>

definition validate_table :: "multiplier_table \<Rightarrow> bool" where
  "validate_table t =
     (list_all (\<lambda>k. case mt_region t k of None \<Rightarrow> False | Some v \<Rightarrow> in_bounds v) [Low, Medium, High] \<and>
      list_all (\<lambda>k. case mt_age t k of None \<Rightarrow> False | Some v \<Rightarrow> in_bounds v) [Young, Adult, Senior] \<and>
      list_all (\<lambda>k. case mt_coverage t k of None \<Rightarrow> False | Some v \<Rightarrow> in_bounds v) [Basic, Standard, Premium] \<and>
      0 \<le> mt_safety_discount t \<and> mt_safety_discount t \<le> MAX_SAFETY_DISCOUNT)"

section \<open>Arithmetic\<close>

lemma bigint_div_nonneg: "0 \<le> a \<Longrightarrow> 0 < b \<Longrightarrow> bigint_div a b = a div b"
  by (simp add: bigint_div_def js_rem_def minus_mod_eq_mult_div)

lemma i128_Inr: "i128 x = Inr y \<Longrightarrow> y = x"
  by (auto simp: i128_def split: if_splits)

lemma ok_or_Inr: "ok_or x e = Inr a \<longleftrightarrow> x = Some a"
  by (cases x) (auto simp: ok_or_def)

lemmas checked_defs = checked_mul_def checked_add_def checked_sub_def checked_div_def

text \<open>A staged multiplication that succeeds is the exact quotient rounded as asked.\<close>

lemma mul_ratio_value:
  assumes "checked_mul_ratio a n d mode = Inr q" "0 < d"
  shows "0 \<le> a \<and> 0 \<le> n \<and> q = (case mode of Floor \<Rightarrow> a * n div d | Ceil \<Rightarrow> ceil_div (a * n) d)"
proof -
  have sign: "0 \<le> a" "0 \<le> n" using assms(1) by (auto simp: checked_mul_ratio_def split: if_splits)
  then have prod: "0 \<le> a * n" by simp
  then have rem: "js_rem (a * n) d = (a * n) mod d" and quot: "bigint_div (a * n) d = a * n div d"
    using assms(2) by (simp_all add: js_rem_def bigint_div_nonneg)
  have ceil: "ceil_div (a * n) d = (if (a * n) mod d = 0 then a * n div d else a * n div d + 1)"
    using assms(2) by (simp add: ceil_div_def zdiv_zminus1_eq_if)
  show ?thesis
    using assms sign quot rem ceil
    by (cases mode) (auto simp: checked_mul_ratio_def and_then_Inr checked_defs Let_def split: if_splits dest!: i128_Inr)
qed

lemma round_to_one: "round_to_multiple v 1 Ceil = Inr w \<Longrightarrow> w = v \<and> 0 \<le> v"
  by (auto simp: round_to_multiple_def and_then_Inr checked_defs js_rem_def bigint_div_nonneg Let_def split: if_splits dest!: i128_Inr)

lemma safety_multiplier_value:
  assumes "safety_multiplier s d = Inr m"
  shows "m = SCALE - int s * d div 100 \<and> 0 \<le> d"
  using assms mul_ratio_value [of "int s" d 100 Floor]
  by (auto simp: safety_multiplier_def and_then_Inr checked_defs dest!: i128_Inr)

text \<open>What a successful computation returns.\<close>

definition staged :: "int \<Rightarrow> int \<Rightarrow> int \<Rightarrow> int \<Rightarrow> int \<Rightarrow> int" where
  "staged base r a c s = ceil_div (ceil_div (ceil_div (base * r) SCALE * a) SCALE * c) SCALE * s div SCALE"

lemma compute_premium_value:
  assumes "compute_premium input base table = Inr p"
  shows "\<exists>r a c s. mt_region table (cr_region input) = Some r \<and> mt_age table (cr_age_band input) = Some a \<and>
    mt_coverage table (cr_coverage input) = Some c \<and> s = SCALE - int (cr_safety_score input) * mt_safety_discount table div 100 \<and>
    0 < base \<and> 0 \<le> r \<and> 0 \<le> a \<and> 0 \<le> c \<and> 0 \<le> s \<and> p = max 1 (staged base r a c s)"
proof -
  have sc: "0 < SCALE" by (simp add: SCALE_def)
  from assms obtain r a c s x1 x2 x3 x4 x5 where
    base: "0 < base" and tab: "mt_region table (cr_region input) = Some r" "mt_age table (cr_age_band input) = Some a"
      "mt_coverage table (cr_coverage input) = Some c" and
    s: "safety_multiplier (cr_safety_score input) (mt_safety_discount table) = Inr s" and
    x: "checked_mul_ratio base r SCALE Ceil = Inr x1" "checked_mul_ratio x1 a SCALE Ceil = Inr x2"
      "checked_mul_ratio x2 c SCALE Ceil = Inr x3" "checked_mul_ratio x3 s SCALE Floor = Inr x4" "round_to_multiple x4 1 Ceil = Inr x5" and
    p: "p = (if x5 < 1 then 1 else x5)"
    unfolding compute_premium_def by (auto simp: and_then_Inr ok_or_Inr split: if_splits)
  have "p = max 1 (staged base r a c s)"
    using p round_to_one [OF x(5)] mul_ratio_value [OF x(1) sc] mul_ratio_value [OF x(2) sc] mul_ratio_value [OF x(3) sc]
      mul_ratio_value [OF x(4) sc] by (simp add: staged_def)
  then show ?thesis
    using base tab safety_multiplier_value [OF s] mul_ratio_value [OF x(1) sc] mul_ratio_value [OF x(2) sc] mul_ratio_value [OF x(3) sc]
      mul_ratio_value [OF x(4) sc] by blast
qed

section \<open>Engine and contract\<close>

lemma scaled_gap:
  fixes b c m k :: int
  assumes "b \<le> c" "c - b \<le> k" "0 \<le> m" "m \<le> 5 * SCALE"
  shows "b * m div SCALE \<le> ceil_div (c * m) SCALE \<and> ceil_div (c * m) SCALE - b * m div SCALE \<le> 5 * k + 1"
proof -
  have S: "0 < SCALE" by (simp add: SCALE_def)
  have bc: "b * m \<le> c * m" using assms(1,3) by (rule mult_right_mono)
  have up: "c * m \<le> ceil_div (c * m) SCALE * SCALE" "ceil_div (c * m) SCALE * SCALE < c * m + SCALE"
    using ceil_div_mult [OF S] ceil_div_less [OF S] by auto
  have lo: "b * m div SCALE * SCALE \<le> b * m" "b * m < b * m div SCALE * SCALE + SCALE"
    using S by (simp_all add: SCALE_def)
  have "(c - b) * m \<le> k * (5 * SCALE)" using assms by (intro mult_mono) auto
  then have "c * m - b * m \<le> 5 * k * SCALE" by (simp add: algebra_simps)
  then have "ceil_div (c * m) SCALE * SCALE - b * m div SCALE * SCALE < (5 * k + 2) * SCALE" using up(2) lo(2) by (simp add: algebra_simps)
  then have "(ceil_div (c * m) SCALE - b * m div SCALE) * SCALE < (5 * k + 2) * SCALE" by (simp add: left_diff_distrib)
  then have "ceil_div (c * m) SCALE - b * m div SCALE < 5 * k + 2" using S by (simp only: mult_less_cancel_right_pos)
  moreover have "b * m div SCALE * SCALE \<le> ceil_div (c * m) SCALE * SCALE" using bc up(1) lo(1) by linarith
  then have "b * m div SCALE \<le> ceil_div (c * m) SCALE" using S by (simp only: mult_le_cancel_right_pos)
  ultimately show ?thesis by simp
qed

lemma scaled_gap_floor:
  fixes b c m k :: int
  assumes "b \<le> c" "c - b \<le> k" "0 \<le> m" "m \<le> SCALE"
  shows "b * m div SCALE \<le> c * m div SCALE \<and> c * m div SCALE - b * m div SCALE \<le> k"
proof -
  have bc: "b * m \<le> c * m" using assms(1,3) by (rule mult_right_mono)
  have "(c - b) * m \<le> k * SCALE" using assms by (intro mult_mono) auto
  then have "c * m \<le> b * m + k * SCALE" by (simp add: algebra_simps)
  then have "c * m div SCALE \<le> (b * m + k * SCALE) div SCALE" by (intro zdiv_mono1) (simp_all add: SCALE_def)
  moreover have "b * m div SCALE \<le> c * m div SCALE" using bc by (intro zdiv_mono1) (simp_all add: SCALE_def)
  ultimately show ?thesis by (simp add: SCALE_def)
qed

text \<open>The inputs of the contract as the engine takes them: the table's factors, a risk rate of one, and a discount of ten
  percent at full score, which is what the engine has built in.\<close>

definition engine_table :: "contract_risk \<Rightarrow> multiplier_table \<Rightarrow> rate_table" where
  "engine_table input t = \<lparr>rt_riskRate = BPS, rt_regionFactor = the (mt_region t (cr_region input)),
     rt_ageFactor = the (mt_age t (cr_age_band input)), rt_coverageMult = the (mt_coverage t (cr_coverage input))\<rparr>"

definition engine_risk :: "contract_risk \<Rightarrow> int \<Rightarrow> risk_input" where
  "engine_risk input base = \<lparr>ri_baseAmount = base, ri_safetyScore = int (cr_safety_score input), ri_deductibleAmount = None\<rparr>"

lemma engine_value:
  assumes "0 < base" "0 \<le> r" "0 \<le> a" "0 \<le> c" "int s * 10 \<le> BPS"
  shows "calculatePremium \<lparr>ri_baseAmount = base, ri_safetyScore = int s, ri_deductibleAmount = None\<rparr>
      \<lparr>rt_riskRate = BPS, rt_regionFactor = r, rt_ageFactor = a, rt_coverageMult = c\<rparr> =
    max 1 (base * r div BPS * a div BPS * c div BPS * (BPS - int s * 10) div BPS)"
proof -
  have B: "0 < BPS" by (simp add: BPS_def)
  have n: "0 \<le> base * r div BPS" "0 \<le> base * r div BPS * a div BPS" "0 \<le> base * r div BPS * a div BPS * c div BPS"
    using assms B by (simp_all add: pos_imp_zdiv_nonneg_iff)
  have b: "bigint_div (base * BPS) BPS = base" using assms(1) B by (simp add: bigint_div_nonneg)
  show ?thesis using assms B n unfolding calculatePremium_def Let_def by (simp add: b bigint_div_nonneg max_def)
qed

text \<open>C20. The engine is not in parity with the contract, but close: it rounds every stage down where the contract rounds up, so
  for the same factors (within the bounds \<open>validate_table\<close> allows) and the discount built into the engine, its
  premium is at most the contract's and at most 31 stroops below it. The witness is an input on which they
  differ.\<close>

theorem engine_below_contract:
  assumes "compute_premium input base table = Inr p" "validate_table table" "mt_safety_discount table = 1000"
  shows "calculatePremium (engine_risk input base) (engine_table input table) \<le> p \<and>
    p - calculatePremium (engine_risk input base) (engine_table input table) \<le> 31"
proof -
  obtain r a c s where tab: "mt_region table (cr_region input) = Some r" "mt_age table (cr_age_band input) = Some a"
      "mt_coverage table (cr_coverage input) = Some c" and s: "s = SCALE - 10 * int (cr_safety_score input)" and
    pos: "0 < base" "0 \<le> r" "0 \<le> a" "0 \<le> c" "0 \<le> s" and p: "p = max 1 (staged base r a c s)"
    using compute_premium_value [OF assms(1)] assms(3) by auto
  have le: "r \<le> 5 * SCALE" "a \<le> 5 * SCALE" "c \<le> 5 * SCALE"
    using assms(2) tab by (cases "cr_region input"; cases "cr_age_band input"; cases "cr_coverage input";
      simp add: validate_table_def in_bounds_def MAX_MULTIPLIER_def SCALE_def)+
  have S: "BPS = SCALE" by (simp add: BPS_def SCALE_def)
  have "s \<le> SCALE" using s by simp
  have 1: "base * r div SCALE \<le> ceil_div (base * r) SCALE \<and> ceil_div (base * r) SCALE - base * r div SCALE \<le> 1"
    using scaled_gap [of base base 0 r] pos(2) le(1) by simp
  have 2: "base * r div SCALE * a div SCALE \<le> ceil_div (ceil_div (base * r) SCALE * a) SCALE \<and>
      ceil_div (ceil_div (base * r) SCALE * a) SCALE - base * r div SCALE * a div SCALE \<le> 6"
    using scaled_gap [of "base * r div SCALE" "ceil_div (base * r) SCALE" 1 a] 1 pos(3) le(2) by simp
  have 3: "base * r div SCALE * a div SCALE * c div SCALE \<le> ceil_div (ceil_div (ceil_div (base * r) SCALE * a) SCALE * c) SCALE \<and>
      ceil_div (ceil_div (ceil_div (base * r) SCALE * a) SCALE * c) SCALE - base * r div SCALE * a div SCALE * c div SCALE \<le> 31"
    using scaled_gap [of "base * r div SCALE * a div SCALE" "ceil_div (ceil_div (base * r) SCALE * a) SCALE" 6 c] 2 pos(4) le(3) by simp
  have 4: "base * r div SCALE * a div SCALE * c div SCALE * s div SCALE \<le> staged base r a c s \<and>
      staged base r a c s - base * r div SCALE * a div SCALE * c div SCALE * s div SCALE \<le> 31"
    unfolding staged_def using scaled_gap_floor [OF conjunct1 [OF 3] conjunct2 [OF 3] pos(5) \<open>s \<le> SCALE\<close>] .
  have "calculatePremium (engine_risk input base) (engine_table input table) =
      max 1 (base * r div SCALE * a div SCALE * c div SCALE * s div SCALE)"
    using engine_value [OF pos(1-4), of "cr_safety_score input"] pos(5) s S tab by (simp add: engine_risk_def engine_table_def mult.commute)
  then show ?thesis using 4 p by (simp add: max_def)
qed

definition sample_table :: multiplier_table where
  "sample_table = \<lparr>mt_region = (\<lambda>k. Some (case k of Low \<Rightarrow> 8500 | Medium \<Rightarrow> 10000 | High \<Rightarrow> 13500)),
     mt_age = (\<lambda>k. Some (case k of Young \<Rightarrow> 12500 | Adult \<Rightarrow> 10000 | Senior \<Rightarrow> 11500)),
     mt_coverage = (\<lambda>k. Some (case k of Basic \<Rightarrow> 9000 | Standard \<Rightarrow> 10000 | Premium \<Rightarrow> 13000)), mt_safety_discount = 1000\<rparr>"

definition sample_risk :: contract_risk where
  "sample_risk = \<lparr>cr_region = High, cr_age_band = Young, cr_coverage = Premium, cr_safety_score = 0\<rparr>"

lemma sample_premium: "compute_premium sample_risk 12345678 sample_table = Inr 27083333"
  by code_simp

theorem engine_below_contract_witness:
  "compute_premium sample_risk 12345678 sample_table = Inr 27083333 \<and>
   calculatePremium (engine_risk sample_risk 12345678) (engine_table sample_risk sample_table) = 27083330"
proof -
  have "validate_table sample_table" "mt_safety_discount sample_table = 1000" by code_simp+
  note engine_below_contract [OF sample_premium this]
  moreover have "calculatePremium (engine_risk sample_risk 12345678) (engine_table sample_risk sample_table) = 27083330" by code_simp
  ultimately show ?thesis using sample_premium by simp
qed

section \<open>Fallback and contract\<close>

lemma half_of:
  fixes x m y k :: int
  assumes "0 \<le> x" "MIN_MULTIPLIER \<le> m" "k * x \<ge> y" "0 \<le> k"
  shows "2 * k * ceil_div (x * m) SCALE \<ge> y"
proof -
  have "x * 5000 \<le> x * m" using assms(1,2) by (intro mult_left_mono) (simp_all add: MIN_MULTIPLIER_def)
  moreover have "x * m \<le> ceil_div (x * m) SCALE * SCALE" by (rule ceil_div_mult) (simp add: SCALE_def)
  ultimately have "x \<le> 2 * ceil_div (x * m) SCALE" unfolding SCALE_def by linarith
  then have "k * x \<le> k * (2 * ceil_div (x * m) SCALE)" using assms(4) by (rule mult_left_mono)
  then show ?thesis using assms(3) by (simp add: algebra_simps)
qed

lemma half_floor: "5000 * x \<le> y \<Longrightarrow> x \<le> 2 * (y div 10000) + (1::int)"
  using div_mult_mod_eq [of y 10000] pos_mod_bound [of 10000 y] by linarith

text \<open>The local fallback does not follow the contract. Whatever the coverage, for every age and risk score a request may
  carry it is between 2.9 and 5.9 XLM, while the contract's premium grows with the base amount: it is at
  least a sixteenth of it (less half a stroop), under every table \<open>validate_table\<close> accepts and for scores up to
  100.\<close>

theorem local_premium_is_flat:
  assumes "compute_premium input base table = Inr p" "validate_table table" "cr_safety_score input \<le> 100"
    and "1 \<le> age" "age \<le> 120" "1 \<le> riskScore" "riskScore \<le> 10"
  shows "29000000 \<le> computePremiumLocal k region age riskScore \<and> computePremiumLocal k region age riskScore \<le> 59000000
    \<and> base \<le> 16 * p + 8"
proof -
  define total where "total = type_factor k + region_factor region + (if age < 25 then 15 else if age > 60 then 13 else 10) + riskScore"
  have "10 \<le> type_factor k" "type_factor k \<le> 20" "8 \<le> region_factor region" "region_factor region \<le> 14"
    by (cases k; cases region; simp add: type_factor_def region_factor_def)+
  then have total: "29 \<le> total" "total \<le> 59" using assms(6,7) by (auto simp: total_def)
  moreover have "bigint_div (10000000 * total) 10 = 10000000 * total div 10" using total(1) by (simp add: bigint_div_nonneg)
  ultimately have bounds: "29000000 \<le> computePremiumLocal k region age riskScore" "computePremiumLocal k region age riskScore \<le> 59000000"
    unfolding computePremiumLocal_def Let_def total_def [symmetric] by simp_all
  obtain r a c s where tab: "mt_region table (cr_region input) = Some r" "mt_age table (cr_age_band input) = Some a"
      "mt_coverage table (cr_coverage input) = Some c" and s: "s = SCALE - int (cr_safety_score input) * mt_safety_discount table div 100" and
    pos: "0 < base" "0 \<le> r" "0 \<le> a" "0 \<le> c" "0 \<le> s" and p: "p = max 1 (staged base r a c s)"
    using compute_premium_value [OF assms(1)] by auto
  have ge: "MIN_MULTIPLIER \<le> r" "MIN_MULTIPLIER \<le> a" "MIN_MULTIPLIER \<le> c"
    using assms(2) tab by (cases "cr_region input"; cases "cr_age_band input"; cases "cr_coverage input";
      simp add: validate_table_def in_bounds_def)+
  have "int (cr_safety_score input) * mt_safety_discount table \<le> 100 * 5000"
    using assms(2,3) by (intro mult_mono) (auto simp: validate_table_def MAX_SAFETY_DISCOUNT_def)
  then have s5: "5000 \<le> s" unfolding s SCALE_def by linarith
  let ?x1 = "ceil_div (base * r) SCALE"
  let ?x2 = "ceil_div (?x1 * a) SCALE"
  let ?x3 = "ceil_div (?x2 * c) SCALE"
  have x1: "base \<le> 2 * ?x1" using half_of [of base r base 1] pos(1) ge(1) by simp
  have x2: "base \<le> 4 * ?x2" using half_of [of ?x1 a base 2] x1 pos(1) ge(2) by simp
  have x3: "base \<le> 8 * ?x3" using half_of [of ?x2 c base 4] x2 pos(1) ge(3) by simp
  have "?x3 * 5000 \<le> ?x3 * s" using s5 x3 pos(1) by (intro mult_left_mono) simp_all
  then have "?x3 \<le> 2 * (?x3 * s div SCALE) + 1" unfolding SCALE_def by (intro half_floor) simp
  then show ?thesis using bounds x3 p by (simp add: staged_def)
qed

theorem local_premium_is_flat_witness:
  "computePremiumLocal Auto High 30 5 \<le> 59000000 \<and> compute_premium sample_risk 10000000000 sample_table = Inr 21937500000"
proof -
  have big: "compute_premium sample_risk 10000000000 sample_table = Inr 21937500000" by code_simp
  moreover have "validate_table sample_table" "cr_safety_score sample_risk \<le> 100" by code_simp+
  ultimately show ?thesis using local_premium_is_flat [of sample_risk 10000000000 sample_table 21937500000 30 5 Auto High] by simp
qed

end
