(* ===== verification/Quotes.thy ===== *)
theory Quotes
  imports Premium Amounts Redis_Model
begin

text \<open>
  Premium quotes: \<open>src/backend/src/quote/*.ts\<close> over \<open>simulateGeneratePremium\<close> of \<open>rpc/soroban.service.ts\<close>. A quote passes
  two caches, one in Redis and one in the memory of the process.

  What the chain answers is a function of the time of the call; SHA-256 is an argument, and so is what the
  circuit breaker does with a call. A simulation the breaker has given up on may still finish and store
  its result: that is a step of its own.
\<close>

section \<open>Requests and cache keys\<close>

record quote_dto =
  qd_policy_type :: policy_kind
  qd_region :: region_tier
  qd_coverage_tier :: coverage_tier
  qd_age :: int
  qd_risk_score :: int
  qd_source_account :: "string option"

definition policy_name :: "policy_kind \<Rightarrow> string" where
  "policy_name k = (case k of Auto \<Rightarrow> ''Auto'' | Health \<Rightarrow> ''Health'' | Property \<Rightarrow> ''Property'')"

definition region_name :: "region_tier \<Rightarrow> string" where
  "region_name r = (case r of Low \<Rightarrow> ''Low'' | Medium \<Rightarrow> ''Medium'' | High \<Rightarrow> ''High'')"

definition coverage_name :: "coverage_tier \<Rightarrow> string" where
  "coverage_name c = (case c of Basic \<Rightarrow> ''Basic'' | Standard \<Rightarrow> ''Standard'' | Premium \<Rightarrow> ''Premium'')"

definition dquote :: char where "dquote = CHR 0x22"

definition json_str :: "string \<Rightarrow> string" where
  "json_str s = dquote # s @ [dquote]"

text \<open>\<open>JSON.stringify\<close> of the six values under their names, in alphabetical order; none needs an escape.\<close>

definition buildNormalizedQuoteCanonicalJson :: "quote_dto \<Rightarrow> string" where
  "buildNormalizedQuoteCanonicalJson dto =
     ''{'' @ json_str ''age'' @ '':'' @ show_int (qd_age dto) @
     '','' @ json_str ''coverage_tier'' @ '':'' @ json_str (coverage_name (qd_coverage_tier dto)) @
     '','' @ json_str ''policy_type'' @ '':'' @ json_str (policy_name (qd_policy_type dto)) @
     '','' @ json_str ''region'' @ '':'' @ json_str (region_name (qd_region dto)) @
     '','' @ json_str ''risk_score'' @ '':'' @ show_int (qd_risk_score dto) @
     '','' @ json_str ''source_account'' @ '':'' @ json_str (case qd_source_account dto of None \<Rightarrow> [] | Some a \<Rightarrow> a) @ ''}''"

record quote_cfg =
  qc_enabled :: bool
  qc_ttlSeconds :: int
  qc_contractId :: string
  qc_networkPassphrase :: string
  qc_sha256 :: "string \<Rightarrow> string"

definition quote_preimage :: "quote_cfg \<Rightarrow> quote_dto \<Rightarrow> string" where
  "quote_preimage cfg dto =
     qc_contractId cfg @ [CHR 0x00] @ qc_networkPassphrase cfg @ [CHR 0x00] @ buildNormalizedQuoteCanonicalJson dto"

definition buildQuoteSimulationCacheKeyHash :: "quote_cfg \<Rightarrow> quote_dto \<Rightarrow> string" where
  "buildQuoteSimulationCacheKeyHash cfg dto = qc_sha256 cfg (quote_preimage cfg dto)"

definition QUOTE_KEY_PREFIX :: string where "QUOTE_KEY_PREFIX = ''quote:sim:v1:''"

definition buildRedisKey :: "quote_cfg \<Rightarrow> quote_dto \<Rightarrow> string" where
  "buildRedisKey cfg dto = QUOTE_KEY_PREFIX @ buildQuoteSimulationCacheKeyHash cfg dto"

section \<open>Simulation\<close>

datatype quote_source = Simulation | Local_Fallback

record sim_result =
  sr_premiumStroops :: string
  sr_premiumXlm :: string
  sr_minResourceFee :: string
  sr_source :: quote_source

record sim_args =
  sg_policyType :: policy_kind
  sg_region :: region_tier
  sg_age :: int
  sg_riskScore :: int
  sg_sourceAccount :: string

datatype sim_error = Account_Not_Found | Wrong_Network | Other_Error

text \<open>An error of \<open>loadAccount\<close> or of the call; an answer that reports an error; a success with the text of its return
  value and the resource fee.\<close>

datatype sim_reply = Sim_Throws sim_error | Sim_Error | Sim_Success "string option" "string option"

definition local_result :: "policy_kind \<Rightarrow> region_tier \<Rightarrow> int \<Rightarrow> int \<Rightarrow> sim_result" where
  "local_result k r age riskScore =
     (let premium = computePremiumLocal k r age riskScore
      in \<lparr>sr_premiumStroops = show_int premium, sr_premiumXlm = stroopsToXlm premium, sr_minResourceFee = ''0'', sr_source = Local_Fallback\<rparr>)"

definition simulate_once :: "sim_reply \<Rightarrow> sim_args \<Rightarrow> sim_error + sim_result" where
  "simulate_once reply args =
     (case reply of
        Sim_Throws e \<Rightarrow> Inl e
      | Sim_Error \<Rightarrow> Inr (local_result (sg_policyType args) (sg_region args) (sg_age args) (sg_riskScore args))
      | Sim_Success retval fee \<Rightarrow>
          (case (case retval of None \<Rightarrow> Some 0 | Some s \<Rightarrow> js_BigInt s) of
             None \<Rightarrow> Inl Other_Error
           | Some premium \<Rightarrow> Inr \<lparr>sr_premiumStroops = show_int premium, sr_premiumXlm = stroopsToXlm premium,
               sr_minResourceFee = (case fee of None \<Rightarrow> ''0'' | Some f \<Rightarrow> f), sr_source = Simulation\<rparr>))"

record quote_state =
  qs_redis :: "sim_result redis"
  qs_quoteCache :: "sim_args \<rightharpoonup> sim_result \<times> int"

definition QUOTE_CACHE_TTL_MS :: int where "QUOTE_CACHE_TTL_MS = 60000"

definition qs_now :: "quote_state \<Rightarrow> int" where "qs_now st = r_now (qs_redis st)"

type_synonym chain_oracle = "int \<Rightarrow> sim_args \<Rightarrow> sim_reply"

text \<open>What runs inside the breaker: simulate and store.\<close>

definition simulate_and_store :: "chain_oracle \<Rightarrow> sim_args \<Rightarrow> quote_state \<Rightarrow> (sim_error + sim_result) \<times> quote_state" where
  "simulate_and_store chain args st =
     (case simulate_once (chain (qs_now st) args) args of
        Inl e \<Rightarrow> (Inl e, st)
      | Inr r \<Rightarrow> (Inr r, st\<lparr>qs_quoteCache := (qs_quoteCache st)(args \<mapsto> (r, qs_now st))\<rparr>))"

text \<open>\<open>fired\<close>: the breaker runs the call and waits for it; \<open>opened\<close>: it is open afterwards.\<close>

definition simulateGeneratePremium ::
  "chain_oracle \<Rightarrow> bool \<Rightarrow> bool \<Rightarrow> sim_args \<Rightarrow> quote_state \<Rightarrow> (sim_error + sim_result) \<times> quote_state" where
  "simulateGeneratePremium chain fired opened args st =
     (let cached = qs_quoteCache st args in
      case cached of
        Some (r, timestamp) \<Rightarrow>
          if qs_now st - timestamp < QUOTE_CACHE_TTL_MS then (Inr r, st)
          else (case (if fired then simulate_and_store chain args st else (Inl Other_Error, st)) of
                  (Inr v, st1) \<Rightarrow> (Inr v, st1)
                | (Inl e, st1) \<Rightarrow> if opened then (Inr r, st1) else (Inl e, st1))
      | None \<Rightarrow> (if fired then simulate_and_store chain args st else (Inl Other_Error, st)))"

section \<open>The quote\<close>

definition args_of :: "quote_dto \<Rightarrow> string \<Rightarrow> sim_args" where
  "args_of dto account = \<lparr>sg_policyType = qd_policy_type dto, sg_region = qd_region dto, sg_age = qd_age dto,
     sg_riskScore = qd_risk_score dto, sg_sourceAccount = account\<rparr>"

definition quote_cache_get :: "quote_cfg \<Rightarrow> quote_dto \<Rightarrow> (sim_result, sim_result option) rcmd" where
  "quote_cache_get cfg dto = (if \<not> qc_enabled cfg then se_return None else redis_get (buildRedisKey cfg dto))"

definition quote_cache_set :: "quote_cfg \<Rightarrow> quote_dto \<Rightarrow> sim_result \<Rightarrow> (sim_result, unit) rcmd" where
  "quote_cache_set cfg dto v = (if \<not> qc_enabled cfg then se_return () else redis_set (buildRedisKey cfg dto) v (qc_ttlSeconds cfg))"

definition local_quote :: "quote_dto \<Rightarrow> sim_result" where
  "local_quote dto = local_result (qd_policy_type dto) (qd_region dto) (qd_age dto) (qd_risk_score dto)"

definition on_redis :: "(sim_result, 'a) rcmd \<Rightarrow> quote_state \<Rightarrow> quote_state" where
  "on_redis m st = st\<lparr>qs_redis := snd (m (qs_redis st))\<rparr>"

text \<open>Of the reply the \<open>inputs\<close>, which repeat the request, are left out.\<close>

definition getQuote ::
  "quote_cfg \<Rightarrow> chain_oracle \<Rightarrow> bool \<Rightarrow> bool \<Rightarrow> quote_dto \<Rightarrow> bool \<Rightarrow> quote_state \<Rightarrow> (sim_error + sim_result) \<times> quote_state" where
  "getQuote cfg chain fired opened dto bypass st =
     (case qd_source_account dto of
        None \<Rightarrow> (Inr (local_quote dto), st)
      | Some account \<Rightarrow>
          if account = [] then (Inr (local_quote dto), st)
          else let st1 = (if bypass then st else on_redis (quote_cache_get cfg dto) st) in
          (case (if bypass then Inr None else fst (quote_cache_get cfg dto (qs_redis st))) of
             Inr (Some cached) \<Rightarrow> (Inr cached, st1)
           | _ \<Rightarrow>
               (case simulateGeneratePremium chain fired opened (args_of dto account) st1 of
                  (Inr sim, st2) \<Rightarrow>
                    (Inr sim, if sr_source sim = Simulation \<and> \<not> bypass then on_redis (quote_cache_set cfg dto sim) st2 else st2)
                | (Inl e, st2) \<Rightarrow>
                    if e = Account_Not_Found \<or> e = Wrong_Network then (Inl e, st2) else (Inr (local_quote dto), st2))))"

text \<open>\<open>invalidateAll\<close>, called when the contract's table has changed, with the server's reply to \<open>KEYS\<close>.\<close>

definition invalidateAll :: "string list \<Rightarrow> quote_state \<Rightarrow> quote_state" where
  "invalidateAll reply st = on_redis (redis_delPattern reply) st"

datatype quote_act =
  Tick nat
| Ask quote_dto bool bool bool      \<comment> \<open>bypass, fired, opened\<close>
| Late sim_args
| Table_Updated "string list"

definition pass_time :: "int \<Rightarrow> quote_state \<Rightarrow> quote_state" where
  "pass_time dt st = st\<lparr>qs_redis := (qs_redis st)\<lparr>r_now := qs_now st + dt\<rparr>\<rparr>"

definition quote_step :: "quote_cfg \<Rightarrow> chain_oracle \<Rightarrow> quote_state \<Rightarrow> quote_act \<Rightarrow> quote_state" where
  "quote_step cfg chain st a =
     (case a of
        Tick n \<Rightarrow> pass_time (int n) st
      | Ask dto bypass fired opened \<Rightarrow> snd (getQuote cfg chain fired opened dto bypass st)
      | Late args \<Rightarrow> snd (simulate_and_store chain args st)
      | Table_Updated reply \<Rightarrow> invalidateAll reply st)"

definition quote_start :: "int \<Rightarrow> fault list \<Rightarrow> quote_state" where
  "quote_start t0 faults = \<lparr>qs_redis = (redis_empty t0)\<lparr>r_faults := faults\<rparr>, qs_quoteCache = Map.empty\<rparr>"

section \<open>Keys are distinct\<close>

text \<open>Two requests with the same canonical text are the same, when account names have no quotation mark.\<close>

definition plain_dto :: "quote_dto \<Rightarrow> bool" where
  "plain_dto d = (case qd_source_account d of None \<Rightarrow> False | Some a \<Rightarrow> a \<noteq> [] \<and> dquote \<notin> set a)"

lemma coverage_name_inj: "coverage_name c = coverage_name c' \<Longrightarrow> c = c'"
  by (cases c; cases c') (simp_all add: coverage_name_def)

lemma policy_name_inj: "policy_name c = policy_name c' \<Longrightarrow> c = c'"
  by (cases c; cases c') (simp_all add: policy_name_def)

lemma region_name_inj: "region_name c = region_name c' \<Longrightarrow> c = c'"
  by (cases c; cases c') (simp_all add: region_name_def)

lemma coverage_no_quote: "dquote \<notin> set (coverage_name c)"
  by (cases c) (simp_all add: coverage_name_def dquote_def)

lemma policy_no_quote: "dquote \<notin> set (policy_name k)"
  by (cases k) (simp_all add: policy_name_def dquote_def)

lemma region_no_quote: "dquote \<notin> set (region_name r)"
  by (cases r) (simp_all add: region_name_def dquote_def)

lemma show_int_field: "show_int i @ CHR '','' # x = show_int j @ CHR '','' # y \<Longrightarrow> i = j \<and> x = y"
  using first_sep_unique [of "CHR '',''" "show_int i" "show_int j" x y] show_int_no [of "CHR '',''"] by (simp add: is_digit_def)

lemma json_str_field: "dquote \<notin> set a \<Longrightarrow> dquote \<notin> set b \<Longrightarrow> json_str a @ x = json_str b @ y \<Longrightarrow> a = b \<and> x = y"
  using first_sep_unique [of dquote a b x y] by (simp add: json_str_def)

lemma canonical_inj:
  assumes eq: "buildNormalizedQuoteCanonicalJson d = buildNormalizedQuoteCanonicalJson d'" and "plain_dto d" "plain_dto d'"
  shows "d = d'"
proof -
  obtain a a' where acc: "qd_source_account d = Some a" "qd_source_account d' = Some a'" "dquote \<notin> set a" "dquote \<notin> set a'"
    using assms(2,3) by (auto simp: plain_dto_def split: option.splits)
  define tail1 where "tail1 e = '','' @ json_str ''risk_score'' @ '':'' @ show_int (qd_risk_score e) @
     '','' @ json_str ''source_account'' @ '':'' @ json_str (case qd_source_account e of None \<Rightarrow> [] | Some a \<Rightarrow> a) @ ''}''" for e :: quote_dto
  define tail2 where "tail2 e = '','' @ json_str ''region'' @ '':'' @ json_str (region_name (qd_region e)) @ tail1 e" for e :: quote_dto
  define tail3 where "tail3 e = '','' @ json_str ''policy_type'' @ '':'' @ json_str (policy_name (qd_policy_type e)) @ tail2 e" for e :: quote_dto
  define tail4 where "tail4 e = json_str ''coverage_tier'' @ '':'' @ json_str (coverage_name (qd_coverage_tier e)) @ tail3 e" for e :: quote_dto
  have "buildNormalizedQuoteCanonicalJson e = ''{'' @ json_str ''age'' @ '':'' @ show_int (qd_age e) @ CHR '','' # tail4 e" for e
    by (simp add: buildNormalizedQuoteCanonicalJson_def tail1_def tail2_def tail3_def tail4_def)
  then have 1: "qd_age d = qd_age d'" "tail4 d = tail4 d'" using eq show_int_field by (simp_all only: same_append_eq)
  have "json_str (coverage_name (qd_coverage_tier d)) @ tail3 d = json_str (coverage_name (qd_coverage_tier d')) @ tail3 d'"
    using 1(2) by (simp only: same_append_eq tail4_def)
  then have 2: "qd_coverage_tier d = qd_coverage_tier d'" "tail3 d = tail3 d'"
    using json_str_field [OF coverage_no_quote coverage_no_quote] coverage_name_inj by blast+
  have "json_str (policy_name (qd_policy_type d)) @ tail2 d = json_str (policy_name (qd_policy_type d')) @ tail2 d'"
    using 2(2) by (simp only: same_append_eq tail3_def)
  then have 3: "qd_policy_type d = qd_policy_type d'" "tail2 d = tail2 d'"
    using json_str_field [OF policy_no_quote policy_no_quote] policy_name_inj by blast+
  have "json_str (region_name (qd_region d)) @ tail1 d = json_str (region_name (qd_region d')) @ tail1 d'"
    using 3(2) by (simp only: same_append_eq tail2_def)
  then have 4: "qd_region d = qd_region d'" "tail1 d = tail1 d'"
    using json_str_field [OF region_no_quote region_no_quote] region_name_inj by blast+
  from 4(2) have "show_int (qd_risk_score d) @ CHR '','' # json_str ''source_account'' @ '':'' @ json_str a @ ''}'' =
      show_int (qd_risk_score d') @ CHR '','' # json_str ''source_account'' @ '':'' @ json_str a' @ ''}''"
    using acc by (simp add: tail1_def)
  then have 5: "qd_risk_score d = qd_risk_score d'" "json_str ''source_account'' @ '':'' @ json_str a @ ''}'' = json_str ''source_account'' @ '':'' @ json_str a' @ ''}''"
    using show_int_field by blast+
  from 5(2) have "json_str a @ ''}'' = json_str a' @ ''}''" by (simp only: same_append_eq)
  then have "a = a'" using json_str_field [OF acc(3,4)] by blast
  then show ?thesis using 1 2 3 4 5 acc by (cases d; cases d') simp
qed

section \<open>Freshness\<close>

text \<open>Every entry of either cache is a result the chain gave, and says for how long it has been one.\<close>

definition mem_inv :: "chain_oracle \<Rightarrow> quote_state \<Rightarrow> bool" where
  "mem_inv chain st \<longleftrightarrow> (\<forall>args r t. qs_quoteCache st args = Some (r, t) \<longrightarrow> t \<le> qs_now st \<and> simulate_once (chain t args) args = Inr r)"

definition shared_inv :: "quote_cfg \<Rightarrow> chain_oracle \<Rightarrow> quote_dto set \<Rightarrow> quote_state \<Rightarrow> bool" where
  "shared_inv cfg chain D st \<longleftrightarrow> (\<forall>k v e. r_kv (qs_redis st) k = Some (v, e) \<longrightarrow>
     (\<exists>d a t. d \<in> D \<and> qd_source_account d = Some a \<and> k = buildRedisKey cfg d \<and> t \<le> qs_now st \<and>
        e < t + QUOTE_CACHE_TTL_MS + qc_ttlSeconds cfg * 1000 \<and> simulate_once (chain t (args_of d a)) (args_of d a) = Inr v))"

definition quote_inv :: "quote_cfg \<Rightarrow> chain_oracle \<Rightarrow> quote_dto set \<Rightarrow> quote_state \<Rightarrow> bool" where
  "quote_inv cfg chain D st \<longleftrightarrow> mem_inv chain st \<and> shared_inv cfg chain D st"

lemma store_inv:
  assumes "mem_inv chain st"
  shows "mem_inv chain (snd (simulate_and_store chain args st)) \<and> qs_redis (snd (simulate_and_store chain args st)) = qs_redis st"
  using assms by (auto simp: simulate_and_store_def mem_inv_def qs_now_def split: sum.splits)

lemma store_value:
  assumes "fst (simulate_and_store chain args st) = Inr r"
  shows "simulate_once (chain (qs_now st) args) args = Inr r"
  using assms by (auto simp: simulate_and_store_def split: sum.splits)

lemma simulate_closed:
  assumes "mem_inv chain st" "simulateGeneratePremium chain fired False args st = (res, st')"
  shows "mem_inv chain st' \<and> qs_redis st' = qs_redis st \<and>
    (\<forall>r. res = Inr r \<longrightarrow> (\<exists>t. t \<le> qs_now st \<and> qs_now st < t + QUOTE_CACHE_TTL_MS \<and> simulate_once (chain t args) args = Inr r))"
proof (cases "\<exists>r t. qs_quoteCache st args = Some (r, t) \<and> qs_now st - t < QUOTE_CACHE_TTL_MS")
  case True
  then obtain r t where c: "qs_quoteCache st args = Some (r, t)" "qs_now st - t < QUOTE_CACHE_TTL_MS" by blast
  then have "res = Inr r" "st' = st" using assms(2) by (auto simp: simulateGeneratePremium_def)
  moreover have "t \<le> qs_now st" "simulate_once (chain t args) args = Inr r" using c(1) assms(1) by (auto simp: mem_inv_def)
  moreover have "qs_now st < t + QUOTE_CACHE_TTL_MS" using c(2) by simp
  ultimately show ?thesis using assms(1) by auto
next
  case False
  then have eq: "simulateGeneratePremium chain fired False args st =
      (if fired then simulate_and_store chain args st else (Inl Other_Error, st))"
    by (auto simp: simulateGeneratePremium_def Let_def split: option.split prod.split sum.split)
  then show ?thesis
  proof (cases fired)
    case True
    then have s: "simulate_and_store chain args st = (res, st')" using eq assms(2) by simp
    have "qs_now st < qs_now st + QUOTE_CACHE_TTL_MS" by (simp add: QUOTE_CACHE_TTL_MS_def)
    then show ?thesis using s store_inv [OF assms(1), of args] store_value [of chain args st] by force
  qed (use eq assms in auto)
qed

lemma cache_get_state:
  "r_now (snd (quote_cache_get cfg dto r)) = r_now r \<and> r_kv (snd (quote_cache_get cfg dto r)) = r_kv r"
  using redis_get_state [of "buildRedisKey cfg dto" r] by (simp add: quote_cache_get_def)

lemma cache_get_live: "fst (quote_cache_get cfg dto r) = Inr (Some v) \<Longrightarrow> kv_live r (buildRedisKey cfg dto) = Some v"
  by (auto simp: quote_cache_get_def intro: redis_get_value split: if_splits)

lemma on_redis_simps [simp]:
  "qs_quoteCache (on_redis m st) = qs_quoteCache st" "qs_redis (on_redis m st) = snd (m (qs_redis st))"
  by (simp_all add: on_redis_def)

text \<open>Storing a result that is recent enough keeps the invariant of the shared cache.\<close>

lemma cache_set_inv:
  assumes "shared_inv cfg chain D st" "dto \<in> D" "qd_source_account dto = Some a" "t \<le> qs_now st" "qs_now st < t + QUOTE_CACHE_TTL_MS"
    and "simulate_once (chain t (args_of dto a)) (args_of dto a) = Inr v"
  shows "shared_inv cfg chain D (on_redis (quote_cache_set cfg dto v) st)"
proof -
  let ?st = "on_redis (quote_cache_set cfg dto v) st"
  have now: "qs_now ?st = qs_now st" and
    kv: "r_kv (qs_redis ?st) \<in> {r_kv (qs_redis st), (r_kv (qs_redis st))(buildRedisKey cfg dto \<mapsto> (v, qs_now st + qc_ttlSeconds cfg * 1000))}"
    using redis_set_state [of "buildRedisKey cfg dto" v "qc_ttlSeconds cfg" "qs_redis st"]
    by (auto simp: quote_cache_set_def qs_now_def)
  show ?thesis
    unfolding shared_inv_def now
  proof (intro allI impI)
    fix k w e assume e: "r_kv (qs_redis ?st) k = Some (w, e)"
    show "\<exists>d a t. d \<in> D \<and> qd_source_account d = Some a \<and> k = buildRedisKey cfg d \<and> t \<le> qs_now st \<and>
        e < t + QUOTE_CACHE_TTL_MS + qc_ttlSeconds cfg * 1000 \<and> simulate_once (chain t (args_of d a)) (args_of d a) = Inr w"
    proof (cases "r_kv (qs_redis st) k = Some (w, e)")
      case True
      then show ?thesis using assms(1) unfolding shared_inv_def by blast
    next
      case False
      then have "k = buildRedisKey cfg dto" "w = v" "e = qs_now st + qc_ttlSeconds cfg * 1000"
        using e kv by (auto split: if_splits)
      then show ?thesis using assms(2-6) by auto
    qed
  qed
qed

lemma mem_inv_on_redis: "mem_inv chain st \<Longrightarrow> r_now (snd (m (qs_redis st))) = r_now (qs_redis st) \<Longrightarrow> mem_inv chain (on_redis m st)"
  by (simp add: mem_inv_def qs_now_def)

lemma shared_inv_sub:
  assumes "shared_inv cfg chain D st" "qs_now st \<le> qs_now st'" "\<And>k x. r_kv (qs_redis st') k = Some x \<Longrightarrow> r_kv (qs_redis st) k = Some x"
  shows "shared_inv cfg chain D st'"
  using assms unfolding shared_inv_def by (meson order_trans)

lemma cache_set_now: "r_now (snd (quote_cache_set cfg dto v r)) = r_now r"
  using redis_set_state [of "buildRedisKey cfg dto" v "qc_ttlSeconds cfg" r] by (simp add: quote_cache_set_def)

text \<open>One request keeps the invariant, and what it answers is fresh.\<close>

lemma getQuote_fresh:
  assumes inv: "quote_inv cfg chain D st" and dto: "dto \<in> D" and inj: "inj_on (buildRedisKey cfg) D" and ttl: "0 \<le> qc_ttlSeconds cfg"
    and get: "getQuote cfg chain fired False dto bypass st = (res, st')"
  shows "quote_inv cfg chain D st' \<and>
    (\<forall>q. res = Inr q \<longrightarrow> q = local_quote dto \<or> (\<exists>a t. qd_source_account dto = Some a \<and> t \<le> qs_now st \<and>
        qs_now st < t + QUOTE_CACHE_TTL_MS + qc_ttlSeconds cfg * 1000 \<and> simulate_once (chain t (args_of dto a)) (args_of dto a) = Inr q))"
proof (cases "qd_source_account dto = None \<or> qd_source_account dto = Some []")
  case True
  then show ?thesis using get inv by (auto simp: getQuote_def)
next
  case False
  then obtain a where a: "qd_source_account dto = Some a" "a \<noteq> []" by auto
  define st1 where "st1 = (if bypass then st else on_redis (quote_cache_get cfg dto) st)"
  have st1: "mem_inv chain st1" "shared_inv cfg chain D st1" "qs_now st1 = qs_now st"
    using inv cache_get_state [of cfg dto "qs_redis st"]
    by (auto simp: st1_def quote_inv_def qs_now_def intro: mem_inv_on_redis elim!: shared_inv_sub)
  show ?thesis
  proof (cases "\<exists>c. \<not> bypass \<and> fst (quote_cache_get cfg dto (qs_redis st)) = Inr (Some c)")
    case True
    then obtain c where c: "\<not> bypass" "fst (quote_cache_get cfg dto (qs_redis st)) = Inr (Some c)" by blast
    then have res: "res = Inr c" "st' = st1" using get a by (simp_all add: getQuote_def st1_def Let_def)
    obtain e where e: "r_kv (qs_redis st) (buildRedisKey cfg dto) = Some (c, e)" "qs_now st < e"
      using cache_get_live [OF c(2)] by (auto simp: kv_live_def qs_now_def split: option.splits if_splits)
    obtain d a' t where d: "d \<in> D" "qd_source_account d = Some a'" "buildRedisKey cfg dto = buildRedisKey cfg d" "t \<le> qs_now st"
        "e < t + QUOTE_CACHE_TTL_MS + qc_ttlSeconds cfg * 1000" "simulate_once (chain t (args_of d a')) (args_of d a') = Inr c"
      using inv e(1) unfolding quote_inv_def shared_inv_def by blast
    have "d = dto" using inj dto d(1,3) by (auto dest: inj_onD)
    then show ?thesis using res st1 d e(2) by (auto simp: quote_inv_def)
  next
    case False
    obtain sres st2 where sim: "simulateGeneratePremium chain fired False (args_of dto a) st1 = (sres, st2)" by fastforce
    note closed = simulate_closed [OF st1(1) sim]
    have now2: "qs_now st2 = qs_now st" using closed st1(3) by (simp add: qs_now_def)
    have shared2: "shared_inv cfg chain D st2" using st1(2) by (rule shared_inv_sub) (use closed in \<open>simp_all add: qs_now_def\<close>)
    have step: "getQuote cfg chain fired False dto bypass st =
        (case sres of Inr v \<Rightarrow> (Inr v, if sr_source v = Simulation \<and> \<not> bypass then on_redis (quote_cache_set cfg dto v) st2 else st2)
         | Inl e \<Rightarrow> if e = Account_Not_Found \<or> e = Wrong_Network then (Inl e, st2) else (Inr (local_quote dto), st2))"
      using a sim False
      by (auto simp: getQuote_def st1_def [symmetric] Let_def split: sum.splits option.splits)
    show ?thesis
    proof (cases sres)
      case (Inl e)
      then show ?thesis using step get closed shared2 by (auto simp: quote_inv_def split: if_splits)
    next
      case (Inr v)
      then obtain t where t: "t \<le> qs_now st" "qs_now st < t + QUOTE_CACHE_TTL_MS" "simulate_once (chain t (args_of dto a)) (args_of dto a) = Inr v"
        using closed st1(3) by auto
      have "shared_inv cfg chain D (on_redis (quote_cache_set cfg dto v) st2)"
        using cache_set_inv [OF shared2 dto a(1)] t now2 by simp
      moreover have "mem_inv chain (on_redis (quote_cache_set cfg dto v) st2)"
        using closed cache_set_now by (intro mem_inv_on_redis) auto
      ultimately have "quote_inv cfg chain D st'" using step get Inr closed shared2 by (auto simp: quote_inv_def split: if_splits)
      moreover have "res = Inr v" using step get Inr by simp
      moreover have "qs_now st < t + QUOTE_CACHE_TTL_MS + qc_ttlSeconds cfg * 1000" using t(2) ttl by simp
      ultimately show ?thesis using a(1) t by blast
    qed
  qed
qed

text \<open>Steps whose breaker stays closed, for requests of a given set.\<close>

definition closed_act :: "quote_dto set \<Rightarrow> quote_act \<Rightarrow> bool" where
  "closed_act D a = (case a of Ask dto _ _ opened \<Rightarrow> dto \<in> D \<and> \<not> opened | _ \<Rightarrow> True)"

lemma quote_step_inv:
  assumes "quote_inv cfg chain D st" "closed_act D a" "inj_on (buildRedisKey cfg) D" "0 \<le> qc_ttlSeconds cfg"
  shows "quote_inv cfg chain D (quote_step cfg chain st a)"
proof (cases a)
  case (Tick n)
  have "mem_inv chain (pass_time (int n) st)" using assms(1)
    by (fastforce simp: quote_inv_def mem_inv_def pass_time_def qs_now_def)
  moreover have "shared_inv cfg chain D (pass_time (int n) st)"
    by (rule shared_inv_sub) (use assms(1) in \<open>auto simp: quote_inv_def pass_time_def qs_now_def\<close>)
  ultimately show ?thesis using Tick by (simp add: quote_step_def quote_inv_def)
next
  case (Ask dto bypass fired opened)
  obtain res st' where get: "getQuote cfg chain fired False dto bypass st = (res, st')" by fastforce
  have D: "dto \<in> D" "\<not> opened" using Ask assms(2) by (simp_all add: closed_act_def)
  show ?thesis using getQuote_fresh [OF assms(1) D(1) assms(3,4) get] get D(2) Ask by (simp add: quote_step_def)
next
  case (Late args)
  have store: "mem_inv chain (snd (simulate_and_store chain args st))" "qs_redis (snd (simulate_and_store chain args st)) = qs_redis st"
    using store_inv [of chain st args] assms(1) by (simp_all add: quote_inv_def)
  have "shared_inv cfg chain D (snd (simulate_and_store chain args st))"
    by (rule shared_inv_sub) (use assms(1) store(2) in \<open>auto simp: quote_inv_def qs_now_def\<close>)
  then show ?thesis using store(1) Late by (simp add: quote_step_def quote_inv_def)
next
  case (Table_Updated reply)
  note del = redis_delPattern_state [of reply "qs_redis st"]
  have "mem_inv chain (invalidateAll reply st)"
    using assms(1) del by (auto simp: quote_inv_def invalidateAll_def intro: mem_inv_on_redis)
  moreover have "shared_inv cfg chain D (invalidateAll reply st)"
    by (rule shared_inv_sub) (use assms(1) del in \<open>auto simp: quote_inv_def invalidateAll_def qs_now_def split: if_splits\<close>)
  ultimately show ?thesis using Table_Updated by (simp add: quote_step_def quote_inv_def)
qed

lemma quote_run_inv:
  assumes "list_all (closed_act D) acts" "inj_on (buildRedisKey cfg) D" "0 \<le> qc_ttlSeconds cfg" "quote_inv cfg chain D st"
  shows "quote_inv cfg chain D (run_steps (quote_step cfg chain) st acts)"
  using assms(1,4) by (induction acts arbitrary: st) (auto intro: quote_step_inv [OF _ _ assms(2,3)])

lemma keys_distinct:
  assumes "\<forall>d \<in> D. plain_dto d" "inj_on (qc_sha256 cfg) (quote_preimage cfg ` D)"
  shows "inj_on (buildRedisKey cfg) D"
proof (rule inj_onI)
  fix d d' assume d: "d \<in> D" "d' \<in> D" "buildRedisKey cfg d = buildRedisKey cfg d'"
  then have "qc_sha256 cfg (quote_preimage cfg d) = qc_sha256 cfg (quote_preimage cfg d')"
    by (simp add: buildRedisKey_def buildQuoteSimulationCacheKeyHash_def)
  then have "quote_preimage cfg d = quote_preimage cfg d'" using assms(2) d(1,2) by (blast dest: inj_onD)
  then have "buildNormalizedQuoteCanonicalJson d = buildNormalizedQuoteCanonicalJson d'" by (simp add: quote_preimage_def)
  then show "d = d'" using canonical_inj assms(1) d(1,2) by blast
qed

text \<open>A quote is not older than both caches allow. After any sequence of requests, simulations that finish late, table updates and
  Redis failures during which the circuit breaker stays closed, a quote is either the local
  computation or exactly what simulating the call on the chain gave less than 60 seconds plus the lifetime of
  Redis entries ago, for the same policy type, region, age, risk score and account. The accounts have no
  quotation mark and SHA-256 does not collide on the requests of the run.\<close>

theorem quotes_are_fresh:
  assumes "list_all (closed_act D) acts" "dto \<in> D" "\<forall>d \<in> D. plain_dto d" "0 \<le> qc_ttlSeconds cfg"
    and "inj_on (qc_sha256 cfg) (quote_preimage cfg ` D)"
    and "st = run_steps (quote_step cfg chain) (quote_start t0 faults) acts"
    and "fst (getQuote cfg chain fired False dto bypass st) = Inr q"
  shows "q = local_quote dto \<or> (\<exists>a t. qd_source_account dto = Some a \<and> t \<le> qs_now st \<and>
    qs_now st < t + 60000 + qc_ttlSeconds cfg * 1000 \<and> simulate_once (chain t (args_of dto a)) (args_of dto a) = Inr q)"
proof -
  note inj = keys_distinct [OF assms(3,5)]
  have "quote_inv cfg chain D (quote_start t0 faults)"
    by (simp add: quote_inv_def mem_inv_def shared_inv_def quote_start_def redis_empty_def)
  then have "quote_inv cfg chain D st" using quote_run_inv [OF assms(1) inj assms(4)] assms(6) by simp
  from getQuote_fresh [OF this assms(2) inj assms(4), of fired bypass] assms(7) show ?thesis
    by (cases "getQuote cfg chain fired False dto bypass st") (simp add: QUOTE_CACHE_TTL_MS_def)
qed

section \<open>Table updates\<close>

lemma starts_with_iff: "starts_with p s \<longleftrightarrow> (\<exists>u. s = p @ u)"
  by (metis append_eq_conv_conj append_take_drop_id starts_with_def)

lemma prefixes_apart:
  assumes "appName \<noteq> ''quote''" "CHR '':'' \<notin> set appName"
  shows "\<not> starts_with QUOTE_KEY_PREFIX (buildKeyPrefix appName env)" "\<not> starts_with (buildKeyPrefix appName env) QUOTE_KEY_PREFIX"
proof -
  have apart: "QUOTE_KEY_PREFIX @ u \<noteq> buildKeyPrefix appName env @ v" for u v
  proof
    assume "QUOTE_KEY_PREFIX @ u = buildKeyPrefix appName env @ v"
    then have "''quote'' @ CHR '':'' # (''sim:v1:'' @ u) = appName @ CHR '':'' # (env @ '':'' @ v)"
      by (simp add: QUOTE_KEY_PREFIX_def buildKeyPrefix_def)
    from first_sep_unique [OF _ assms(2) this] have "''quote'' = appName" by simp
    then show False using assms(1) by simp
  qed
  from apart [of _ "[]"] apart [of "[]"] show "\<not> starts_with QUOTE_KEY_PREFIX (buildKeyPrefix appName env)" "\<not> starts_with (buildKeyPrefix appName env) QUOTE_KEY_PREFIX"
    unfolding starts_with_iff by (simp_all, metis+)
qed

text \<open>A table update does not refresh quotes. The pattern of \<open>invalidateAll\<close> carries no key prefix, so the server answers with no
  key and every entry stays in Redis (unless the application is called \<open>quote\<close>); and the cache in
  memory is not touched, so that a request with a quote simulated less than a minute before is answered
  with it even when it asks to bypass the cache, whatever the chain would answer now.\<close>

theorem table_update_keeps_quotes:
  assumes "keys_reply (buildKeyPrefix appName env) (qs_redis st) QUOTE_KEY_PREFIX reply" "appName \<noteq> ''quote''" "CHR '':'' \<notin> set appName"
    and "qd_source_account dto = Some a" "a \<noteq> []" "qs_quoteCache st (args_of dto a) = Some (q, t)" "qs_now st < t + 60000"
  shows "r_kv (qs_redis (invalidateAll reply st)) = r_kv (qs_redis st) \<and>
    fst (getQuote cfg chain fired opened dto True (invalidateAll reply st)) = Inr q"
proof -
  have "reply = []" using delPattern_misses [OF assms(1) prefixes_apart [OF assms(2,3)]] .
  then have kv: "r_kv (qs_redis (invalidateAll reply st)) = r_kv (qs_redis st)" "qs_now (invalidateAll reply st) = qs_now st"
    using redis_delPattern_state [of "[]" "qs_redis st"] by (auto simp: invalidateAll_def qs_now_def)
  have "qs_quoteCache (invalidateAll reply st) = qs_quoteCache st" by (simp add: invalidateAll_def)
  then have "simulateGeneratePremium chain fired opened (args_of dto a) (invalidateAll reply st) = (Inr q, invalidateAll reply st)"
    using assms(6,7) kv(2) by (simp add: simulateGeneratePremium_def QUOTE_CACHE_TTL_MS_def)
  then show ?thesis using assms(4,5) kv(1) by (simp add: getQuote_def)
qed

section \<open>A concrete run\<close>

definition sample_dto :: quote_dto where
  "sample_dto = \<lparr>qd_policy_type = Auto, qd_region = Low, qd_coverage_tier = Basic, qd_age = 30, qd_risk_score = 5, qd_source_account = Some ''GA''\<rparr>"

definition sample_cfg :: quote_cfg where
  "sample_cfg = \<lparr>qc_enabled = True, qc_ttlSeconds = 30, qc_contractId = ''C'', qc_networkPassphrase = ''N'', qc_sha256 = (\<lambda>s. s)\<rparr>"

text \<open>The premium the chain gives changes at time 1000.\<close>

definition sample_chain :: chain_oracle where
  "sample_chain t args = Sim_Success (Some (if t < 1000 then ''7'' else ''9'')) None"

definition sample_quote :: sim_result where
  "sample_quote = \<lparr>sr_premiumStroops = ''7'', sr_premiumXlm = ''0.0000007'', sr_minResourceFee = ''0'', sr_source = Simulation\<rparr>"

definition sample_acts :: "quote_act list" where
  "sample_acts = [Ask sample_dto True True False, Tick 2000, Table_Updated []]"

lemma sample_run:
  "fst (getQuote sample_cfg sample_chain True False sample_dto True (run_steps (quote_step sample_cfg sample_chain) (quote_start 0 []) sample_acts)) = Inr sample_quote"
  by code_simp

theorem quotes_are_fresh_witness:
  "\<exists>a t. qd_source_account sample_dto = Some a \<and> t \<le> 2000 \<and> 2000 < t + 90000 \<and>
     simulate_once (sample_chain t (args_of sample_dto a)) (args_of sample_dto a) = Inr sample_quote"
proof -
  have acts: "list_all (closed_act {sample_dto}) sample_acts" by (simp add: sample_acts_def closed_act_def)
  have plain: "\<forall>d \<in> {sample_dto}. plain_dto d" by (simp add: plain_dto_def sample_dto_def dquote_def)
  have now: "qs_now (run_steps (quote_step sample_cfg sample_chain) (quote_start 0 []) sample_acts) = 2000" by code_simp
  have "sr_source sample_quote = Simulation" "sr_source (local_quote sample_dto) = Local_Fallback"
    by (simp_all add: sample_quote_def local_quote_def local_result_def Let_def)
  then have "sample_quote \<noteq> local_quote sample_dto" by auto
  then show ?thesis
    using quotes_are_fresh [OF acts _ plain _ _ refl sample_run] now by (simp add: sample_cfg_def)
qed

theorem table_update_keeps_quotes_witness:
  "fst (getQuote sample_cfg (\<lambda>_ _. Sim_Success (Some ''9'') None) True False sample_dto True
     (invalidateAll [] (run_steps (quote_step sample_cfg sample_chain) (quote_start 0 []) [Ask sample_dto True True False, Tick 2000]))) = Inr sample_quote"
proof -
  let ?st = "run_steps (quote_step sample_cfg sample_chain) (quote_start 0 []) [Ask sample_dto True True False, Tick 2000]"
  have cached: "qs_quoteCache ?st (args_of sample_dto ''GA'') = Some (sample_quote, 0)" by code_simp
  have now: "qs_now ?st < 0 + 60000" by code_simp
  have reply: "keys_reply (buildKeyPrefix ''niffy'' ''test'') (qs_redis ?st) QUOTE_KEY_PREFIX []" by (simp add: keys_reply_def)
  have account: "qd_source_account sample_dto = Some ''GA''" by (simp add: sample_dto_def)
  show ?thesis by (rule conjunct2 [OF table_update_keeps_quotes [OF reply _ _ account _ cached now]]) simp_all
qed

end
