(* ===== verification/Evidence_Files.thy ===== *)
theory Evidence_Files
  imports Js_Prelude
begin

text \<open>
  Uploaded files: \<open>src/backend/src/ipfs/services/file-validation.service.ts\<close>. Metadata checks, the stored name, and the removal
  of EXIF segments from JPEG files.

  A buffer is a list of bytes; reading past its end gives \<open>undefined\<close>, here \<open>None\<close>, which compares unequal and
  counts as zero in a shift.
\<close>

section \<open>Names and types\<close>

definition ALLOWED_MIME_TYPES :: "string list" where
  "ALLOWED_MIME_TYPES = [''image/jpeg'', ''image/png'', ''image/gif'', ''image/webp'', ''image/svg+xml'', ''image/bmp'',
     ''image/tiff'', ''application/pdf'']"

definition DANGEROUS_EXTENSIONS :: "string list" where
  "DANGEROUS_EXTENSIONS = [''.exe'', ''.bat'', ''.cmd'', ''.msi'', ''.dll'', ''.so'', ''.dylib'',
     ''.sh'', ''.bash'', ''.zsh'', ''.fish'', ''.ps1'', ''.psm1'', ''.js'', ''.mjs'', ''.cjs'', ''.ts'', ''.tsx'', ''.jsx'',
     ''.php'', ''.phtml'', ''.phar'', ''.py'', ''.pyw'', ''.pyc'', ''.rb'', ''.rake'', ''.gem'', ''.jar'', ''.war'', ''.ear'',
     ''.jsp'', ''.jspx'', ''.asp'', ''.aspx'', ''.cgi'', ''.pl'', ''.perl'', ''.sql'', ''.sqlite'', ''.db'',
     ''.htaccess'', ''.htpasswd'', ''.env'', ''.config'', ''.conf'']"

definition isAllowedMimeType :: "string \<Rightarrow> bool" where
  "isAllowedMimeType mimeType = (mimeType \<in> set ALLOWED_MIME_TYPES)"

definition isDangerousExtension :: "string \<Rightarrow> bool" where
  "isDangerousExtension extension = (extension \<in> set DANGEROUS_EXTENSIONS)"

text \<open>What follows the last dot, with the dot; nothing when the only dot is in front.\<close>

definition getFileExtension :: "string \<Rightarrow> string" where
  "getFileExtension filename =
     (let tail = rev (takeWhile (\<lambda>c. c \<noteq> CHR ''.'') (rev filename)) in
      if length tail = length filename \<or> Suc (length tail) = length filename then [] else CHR ''.'' # tail)"

record upload_meta =
  um_fieldname :: "string option"
  um_originalname :: "string option"
  um_mimetype :: "string option"
  um_size :: "int option"

datatype file_error =
  Field_Name_Required | File_Name_Required | Mime_Type_Required | Size_Required
| Too_Small | Too_Large | Type_Not_Allowed string | Extension_Not_Allowed string

definition falsy :: "string option \<Rightarrow> bool" where
  "falsy s = (s = None \<or> s = Some [])"

text \<open>\<open>None\<close>: nothing is thrown. A type that does not fit the extension is only logged.\<close>

definition validateFileMetadata :: "int \<Rightarrow> int \<Rightarrow> upload_meta \<Rightarrow> file_error option" where
  "validateFileMetadata minFileSize maxFileSize file =
     (if falsy (um_fieldname file) then Some Field_Name_Required
      else if falsy (um_originalname file) \<or> trim (the (um_originalname file)) = [] then Some File_Name_Required
      else if falsy (um_mimetype file) then Some Mime_Type_Required
      else (case um_size file of
        None \<Rightarrow> Some Size_Required
      | Some sz \<Rightarrow>
          if sz < minFileSize then Some Too_Small
          else if maxFileSize < sz then Some Too_Large
          else if \<not> isAllowedMimeType (the (um_mimetype file)) then Some (Type_Not_Allowed (the (um_mimetype file)))
          else let extension = to_lower (getFileExtension (the (um_originalname file))) in
               if isDangerousExtension extension then Some (Extension_Not_Allowed extension) else None))"

section \<open>The stored name\<close>

definition path_sep :: "char \<Rightarrow> bool" where
  "path_sep c = (c = CHR ''/'' \<or> c = CHR 0x5C)"

text \<open>\<open>split(/[/\\]/).pop()\<close>.\<close>

definition last_component :: "string \<Rightarrow> string" where
  "last_component s = rev (takeWhile (\<lambda>c. \<not> path_sep c) (rev s))"

text \<open>\<open>replace(/\.\./g, '')\<close>: pairs of dots from the left.\<close>

fun remove_dotdot :: "string \<Rightarrow> string" where
  "remove_dotdot (c # d # s) = (if c = CHR ''.'' \<and> d = CHR ''.'' then remove_dotdot s else c # remove_dotdot (d # s))"
| "remove_dotdot s = s"

definition forbidden_char :: "char \<Rightarrow> bool" where
  "forbidden_char c = (c \<in> set ''<>:|?*'' \<or> c = CHR 0x22)"

definition removeControlCharacters :: "string \<Rightarrow> string" where
  "removeControlCharacters = filter (\<lambda>c. let n = of_char c :: nat in 0x20 \<le> n \<and> n \<noteq> 0x7F)"

text \<open>\<open>s.slice(0, -n)\<close>, which is empty for \<open>n = 0\<close>.\<close>

definition slice_back :: "string \<Rightarrow> nat \<Rightarrow> string" where
  "slice_back s n = (if n = 0 then [] else take (length s - n) s)"

definition sanitizeFilename :: "string \<Rightarrow> string" where
  "sanitizeFilename filename =
     (if filename = [] then ''unnamed''
      else let name = (if last_component filename = [] then ''unnamed'' else last_component filename);
               extension = getFileExtension name;
               baseName = slice_back name (length extension);
               baseName = removeControlCharacters (filter (\<lambda>c. \<not> forbidden_char c) (remove_dotdot baseName));
               baseName = take 100 baseName;
               baseName = (if list_all (\<lambda>c. c = CHR ''.'' \<or> c = CHR ''-'') baseName then ''file'' else baseName)
           in baseName @ extension)"

section \<open>Content\<close>

type_synonym bytes = "nat list"

definition byte_at :: "bytes \<Rightarrow> nat \<Rightarrow> nat option" where
  "byte_at b i = (if i < length b then Some (b ! i) else None)"

definition matches_at :: "bytes \<Rightarrow> nat \<Rightarrow> nat list \<Rightarrow> bool" where
  "matches_at b i bs = list_all (\<lambda>j. byte_at b (i + j) = Some (bs ! j)) [0..<length bs]"

definition detectMimeType :: "bytes \<Rightarrow> string option" where
  "detectMimeType b =
     (if matches_at b 0 [0xFF, 0xD8, 0xFF] then Some ''image/jpeg''
      else if matches_at b 0 [0x89, 0x50, 0x4E, 0x47] then Some ''image/png''
      else if matches_at b 0 [0x47, 0x49, 0x46, 0x38] then Some ''image/gif''
      else if matches_at b 0 [0x25, 0x50, 0x44, 0x46] then Some ''application/pdf''
      else if matches_at b 0 [0x52, 0x49, 0x46, 0x46] \<and> matches_at b 8 [0x57, 0x45, 0x42, 0x50] then Some ''image/webp''
      else if matches_at b 0 [0x42, 0x4D] then Some ''image/bmp''
      else None)"

definition byte_or_0 :: "bytes \<Rightarrow> nat \<Rightarrow> nat" where
  "byte_or_0 b i = (case byte_at b i of None \<Rightarrow> 0 | Some v \<Rightarrow> v)"

definition segment_length :: "bytes \<Rightarrow> nat \<Rightarrow> nat" where
  "segment_length b i = 256 * byte_or_0 b (i + 2) + byte_or_0 b (i + 3)"

definition is_exif :: "bytes \<Rightarrow> nat \<Rightarrow> bool" where
  "is_exif b i = matches_at b (i + 4) [0x45, 0x78, 0x69, 0x66, 0, 0]"

text \<open>The loop from index \<open>i\<close>: the bytes it appends. Copying the rest spreads it into the arguments of one call of \<open>push\<close>;
  when they are more than \<open>maxArgs\<close> the engine throws, which is \<open>None\<close>.\<close>

function strip_from :: "nat \<Rightarrow> bytes \<Rightarrow> nat \<Rightarrow> bytes option" where
  "strip_from maxArgs b i =
     (if \<not> i + 1 < length b then Some []
      else if b ! i \<noteq> 0xFF then (if length b - i \<le> maxArgs then Some (drop i b) else None)
      else let marker = b ! (i + 1); next_i = i + 2 + segment_length b i in
        if marker = 0xE1 \<and> is_exif b i then strip_from maxArgs b next_i
        else if marker = 0xD9 then Some [0xFF, 0xD9]
        else if marker = 0xD8 then map_option (\<lambda>out. [0xFF, 0xD8] @ out) (strip_from maxArgs b (i + 2))
        else map_option (\<lambda>out. take (2 + segment_length b i) (drop i b) @ out) (strip_from maxArgs b next_i))"
  by pat_completeness auto
termination
  by (relation "measure (\<lambda>(_, b, i). length b - i)") auto

declare strip_from.simps [simp del]

definition stripExifMetadata :: "bool \<Rightarrow> nat \<Rightarrow> bytes \<Rightarrow> string \<Rightarrow> bytes \<times> bool" where
  "stripExifMetadata stripExif maxArgs b mimeType =
     (if \<not> stripExif \<or> mimeType \<noteq> ''image/jpeg'' then (b, False)
      else (case strip_from maxArgs b 2 of
              None \<Rightarrow> (b, False)
            | Some out \<Rightarrow> let result = [0xFF, 0xD8] @ out in (result, length result < length b)))"

section \<open>What is removed\<close>

text \<open>A segment: its marker and what follows the two bytes of its length.\<close>

type_synonym segment = "nat \<times> bytes"

definition EXIF_HEADER :: bytes where "EXIF_HEADER = [0x45, 0x78, 0x69, 0x66, 0, 0]"

definition seg_bytes :: "segment \<Rightarrow> bytes" where
  "seg_bytes s = [0xFF, fst s, (length (snd s) + 2) div 256, (length (snd s) + 2) mod 256] @ snd s"

definition exif_seg :: "segment \<Rightarrow> bool" where
  "exif_seg s = (fst s = 0xE1 \<and> take 6 (snd s) = EXIF_HEADER)"

definition good_seg :: "segment \<Rightarrow> bool" where
  "good_seg s = (fst s \<noteq> 0xD8 \<and> fst s \<noteq> 0xD9 \<and> length (snd s) + 2 < 65536 \<and> (fst s = 0xE1 \<longrightarrow> 6 \<le> length (snd s)))"

lemma byte_at_append: "byte_at (pre @ b) (length pre + j) = byte_at b j"
  by (simp add: byte_at_def nth_append)

lemma matches_at_append: "matches_at (pre @ b) (length pre + j) bs = matches_at b j bs"
  by (simp add: matches_at_def byte_at_append add.assoc)

lemma matches_at_take: "length bs \<le> length b \<Longrightarrow> matches_at b 0 bs \<longleftrightarrow> take (length bs) b = bs"
proof -
  assume len: "length bs \<le> length b"
  then have "matches_at b 0 bs \<longleftrightarrow> (\<forall>j < length bs. b ! j = bs ! j)" by (auto simp: matches_at_def byte_at_def list_all_iff)
  then show ?thesis using len by (auto simp: list_eq_iff_nth_eq min_def)
qed

lemma segment_at:
  assumes "good_seg s"
  shows "segment_length (pre @ seg_bytes s @ more_bytes) (length pre) = length (snd s) + 2"
    and "fst s = 0xE1 \<Longrightarrow> is_exif (pre @ seg_bytes s @ more_bytes) (length pre) \<longleftrightarrow> exif_seg s"
proof -
  have "byte_or_0 (pre @ seg_bytes s @ more_bytes) (length pre + 2) = (length (snd s) + 2) div 256"
    "byte_or_0 (pre @ seg_bytes s @ more_bytes) (length pre + 3) = (length (snd s) + 2) mod 256"
    unfolding byte_or_0_def byte_at_append by (simp_all add: byte_at_def seg_bytes_def)
  then show "segment_length (pre @ seg_bytes s @ more_bytes) (length pre) = length (snd s) + 2"
    by (simp add: segment_length_def)
  assume e1: "fst s = 0xE1"
  define hd4 where "hd4 = pre @ [0xFF, fst s, (length (snd s) + 2) div 256, (length (snd s) + 2) mod 256]"
  have buf: "pre @ seg_bytes s @ more_bytes = hd4 @ snd s @ more_bytes" by (simp add: hd4_def seg_bytes_def)
  have four: "length pre + 4 = length hd4 + 0" by (simp add: hd4_def)
  have "is_exif (pre @ seg_bytes s @ more_bytes) (length pre) = matches_at (snd s @ more_bytes) 0 EXIF_HEADER"
    unfolding is_exif_def EXIF_HEADER_def buf four by (rule matches_at_append)
  also have "\<dots> = (take 6 (snd s) = EXIF_HEADER)"
  proof -
    have six: "length EXIF_HEADER = 6" by (simp add: EXIF_HEADER_def)
    then show ?thesis using assms e1 by (subst matches_at_take) (simp_all add: six good_seg_def)
  qed
  finally show "is_exif (pre @ seg_bytes s @ more_bytes) (length pre) \<longleftrightarrow> exif_seg s" using e1 by (simp add: exif_seg_def)
qed

lemma map_option_nil: "map_option (\<lambda>a. a) x = x"
  by (cases x) simp_all

text \<open>One segment, then a run of segments.\<close>

lemma strip_segment:
  assumes "good_seg s" "b = pre @ seg_bytes s @ more_bytes"
  shows "strip_from maxArgs b (length pre) =
    map_option (\<lambda>out. (if exif_seg s then [] else seg_bytes s) @ out) (strip_from maxArgs b (length (pre @ seg_bytes s)))"
proof -
  have len: "length (seg_bytes s) = 2 + (length (snd s) + 2)" by (simp add: seg_bytes_def)
  have bytes: "b ! length pre = 0xFF" "b ! (length pre + 1) = fst s" "length pre + 1 < length b"
    by (simp_all add: assms(2) nth_append seg_bytes_def)
  have copy: "take (2 + (length (snd s) + 2)) (drop (length pre) b) = seg_bytes s" unfolding assms(2) len [symmetric] by simp
  have sl: "segment_length b (length pre) = length (snd s) + 2" using segment_at(1) [OF assms(1)] assms(2) by simp
  have nxt: "length pre + 2 + (length (snd s) + 2) = length (pre @ seg_bytes s)" using len by simp
  show ?thesis
  proof (cases "exif_seg s")
    case True
    then have e: "fst s = 0xE1" by (simp add: exif_seg_def)
    then have "is_exif b (length pre)" using segment_at(2) [OF assms(1) e] assms(2) True by simp
    then have "strip_from maxArgs b (length pre) = strip_from maxArgs b (length pre + 2 + (length (snd s) + 2))"
      using e bytes sl by (subst strip_from.simps) simp
    then show ?thesis unfolding nxt using True by (simp add: map_option_nil)
  next
    case False
    then have "\<not> (fst s = 0xE1 \<and> is_exif b (length pre))" using segment_at(2) [OF assms(1)] assms(2) by simp
    moreover have "fst s \<noteq> 0xD8" "fst s \<noteq> 0xD9" using assms(1) by (simp_all add: good_seg_def)
    ultimately have "strip_from maxArgs b (length pre) =
        map_option (\<lambda>out. take (2 + (length (snd s) + 2)) (drop (length pre) b) @ out) (strip_from maxArgs b (length pre + 2 + (length (snd s) + 2)))"
      using bytes sl by (subst strip_from.simps) (auto simp: Let_def)
    then show ?thesis unfolding nxt copy using False by simp
  qed
qed

lemma strip_segments:
  assumes "list_all good_seg segs" "b = pre @ concat (map seg_bytes segs) @ scan"
  shows "strip_from maxArgs b (length pre) =
    map_option (\<lambda>out. concat (map seg_bytes (filter (\<lambda>s. \<not> exif_seg s) segs)) @ out) (strip_from maxArgs b (length b - length scan))"
  using assms
proof (induction segs arbitrary: pre)
  case Nil
  then show ?case by (simp add: map_option_nil)
next
  case (Cons s segs)
  have "strip_from maxArgs b (length pre) =
    map_option (\<lambda>out. (if exif_seg s then [] else seg_bytes s) @ out) (strip_from maxArgs b (length (pre @ seg_bytes s)))"
    using Cons.prems by (intro strip_segment [where more_bytes = "concat (map seg_bytes segs) @ scan"]) simp_all
  also have "strip_from maxArgs b (length (pre @ seg_bytes s)) =
    map_option (\<lambda>out. concat (map seg_bytes (filter (\<lambda>s. \<not> exif_seg s) segs)) @ out) (strip_from maxArgs b (length b - length scan))"
    using Cons.prems by (intro Cons.IH) simp_all
  finally show ?case by (simp add: option.map_comp comp_def)
qed

lemma removed_shorter:
  "length (concat (map seg_bytes (filter (\<lambda>s. \<not> exif_seg s) segs))) < length (concat (map seg_bytes segs)) \<longleftrightarrow> (\<exists>s \<in> set segs. exif_seg s)"
  (is "?less segs \<longleftrightarrow> _")
proof -
  have le: "length (concat (map seg_bytes (filter (\<lambda>s. \<not> exif_seg s) segs))) \<le> length (concat (map seg_bytes segs))" for segs
    by (induction segs) auto
  show ?thesis
  proof (induction segs)
    case (Cons s segs)
    then show ?case using le [of segs] by (auto simp: seg_bytes_def)
  qed simp
qed

text \<open>Stripping a JPEG removes exactly its EXIF segments, unless the picture is large. For a file of segments and image
  data, the result is the file without the segments that carry EXIF, and the flag says whether there was
  one, as long as the image data fits into the arguments of one call; beyond that limit of the engine the
  exception is swallowed and the file comes back with its EXIF data.\<close>

theorem strip_exif_exact:
  assumes "list_all good_seg segs" "2 \<le> length scan" "hd scan \<noteq> 0xFF"
  shows "stripExifMetadata True maxArgs ([0xFF, 0xD8] @ concat (map seg_bytes segs) @ scan) ''image/jpeg'' =
    (if length scan \<le> maxArgs
     then ([0xFF, 0xD8] @ concat (map seg_bytes (filter (\<lambda>s. \<not> exif_seg s) segs)) @ scan, \<exists>s \<in> set segs. exif_seg s)
     else ([0xFF, 0xD8] @ concat (map seg_bytes segs) @ scan, False))"
proof -
  let ?pre = "[0xFF, 0xD8] @ concat (map seg_bytes segs)"
  let ?b = "[0xFF, 0xD8] @ concat (map seg_bytes segs) @ scan"
  obtain x y zs where scan: "scan = x # y # zs" using assms(2) by (cases scan; cases "tl scan") auto
  have pos: "length ?b - length scan = length ?pre" by simp
  have "?b ! length ?pre \<noteq> 0xFF" using assms(3) scan nth_append [of ?pre scan "length ?pre"] by simp
  then have rest: "strip_from maxArgs ?b (length ?pre) = (if length scan \<le> maxArgs then Some scan else None)"
    using scan by (subst strip_from.simps) simp
  have "strip_from maxArgs ?b (length [0xFF, 0xD8 :: nat]) =
      map_option (\<lambda>out. concat (map seg_bytes (filter (\<lambda>s. \<not> exif_seg s) segs)) @ out) (strip_from maxArgs ?b (length ?b - length scan))"
    by (rule strip_segments [OF assms(1)]) simp
  then have "strip_from maxArgs ?b 2 =
      (if length scan \<le> maxArgs then Some (concat (map seg_bytes (filter (\<lambda>s. \<not> exif_seg s) segs)) @ scan) else None)"
    using rest pos by (simp add: numeral_2_eq_2)
  then show ?thesis using removed_shorter [of segs] by (simp add: stripExifMetadata_def Let_def)
qed

theorem strip_exif_exact_witness:
  "stripExifMetadata True 3 ([0xFF, 0xD8] @ concat (map seg_bytes [(0xE0, [1]), (0xE1, EXIF_HEADER @ [7, 7]), (0xDA, [])]) @ [1, 2, 3]) ''image/jpeg'' =
     ([0xFF, 0xD8] @ concat (map seg_bytes [(0xE0, [1]), (0xDA, [])]) @ [1, 2, 3], True)"
  using strip_exif_exact [of "[(0xE0, [1]), (0xE1, EXIF_HEADER @ [7, 7]), (0xDA, [])]" "[1, 2, 3]" 3]
  by (simp add: good_seg_def exif_seg_def EXIF_HEADER_def)

section \<open>Stored names\<close>

lemma last_component_flat: "c \<in> set (last_component s) \<Longrightarrow> \<not> path_sep c"
  by (auto simp: last_component_def dest: set_takeWhileD)

lemma remove_dotdot_subset: "set (remove_dotdot s) \<subseteq> set s"
  by (induction s rule: remove_dotdot.induct) auto

lemma extension_subset: "set (getFileExtension s) \<subseteq> insert (CHR ''.'') (set s)"
  by (auto simp: getFileExtension_def Let_def dest: set_takeWhileD split: if_splits)

text \<open>A stored name has no path separator and at most a hundred characters before the extension.\<close>

lemma sanitized_flat: "c \<in> set (sanitizeFilename s) \<Longrightarrow> \<not> path_sep c"
proof -
  assume c: "c \<in> set (sanitizeFilename s)"
  define name where "name = (if last_component s = [] then ''unnamed'' else last_component s)"
  have name: "\<not> path_sep d" if "d \<in> set name" for d
    using that last_component_flat by (auto simp: name_def path_sep_def split: if_splits)
  have base: "\<not> path_sep d" if "d \<in> set (removeControlCharacters (filter (\<lambda>c. \<not> forbidden_char c) (remove_dotdot (slice_back name n))))" for d n
    using that remove_dotdot_subset [of "slice_back name n"] name
    by (auto simp: removeControlCharacters_def slice_back_def dest: in_set_takeD split: if_splits)
  have ext: "\<not> path_sep d" if "d \<in> set (getFileExtension name)" for d
    using that extension_subset [of name] name by (auto simp: path_sep_def)
  show ?thesis
    using c base ext unfolding sanitizeFilename_def Let_def name_def [symmetric]
    by (auto simp: path_sep_def split: if_splits dest: in_set_takeD)
qed

text \<open>A name without extension is lost: \<open>slice(0, -0)\<close> is empty, so it is stored as \<open>file\<close>.\<close>

lemma no_extension_lost:
  assumes "CHR ''.'' \<notin> set s" "\<forall>c \<in> set s. \<not> path_sep c" "s \<noteq> []"
  shows "sanitizeFilename s = ''file''"
proof -
  have "takeWhile (\<lambda>c. \<not> path_sep c) (rev s) = rev s" using assms(2) by (subst takeWhile_eq_all_conv) simp
  then have name: "last_component s = s" by (simp only: last_component_def rev_rev_ident)
  have "takeWhile (\<lambda>c. c \<noteq> CHR ''.'') (rev s) = rev s" using assms(1) by (subst takeWhile_eq_all_conv) auto
  then have "getFileExtension s = []" unfolding getFileExtension_def by (simp only: Let_def length_rev simp_thms if_True)
  then show ?thesis using name assms(3) by (simp add: sanitizeFilename_def Let_def slice_back_def removeControlCharacters_def)
qed

end
