(* ===== verification/Ipfs.thy ===== *)
theory Ipfs
  imports Evidence_Files Rate_Limit
begin

text \<open>
  Evidence on IPFS: the chain of providers (\<open>src/backend/src/ipfs/services/ipfs-provider-chain.service.ts\<close>), replay of uploads
  (\<open>idempotency.service.ts\<close>), the upload itself (\<open>ipfs.service.ts\<close>), its use for claims
  (\<open>claims/services/evidence-upload.service.ts\<close>) and the daily check of pins (\<open>maintenance/ipfs-pin-check.job.ts\<close>).

  A provider is what it answers to each call; \<open>Inl\<close> is the message of an exception. SHA-256 and whether the
  audit log can be written are arguments.
\<close>

section \<open>The provider chain\<close>

record upload_result =
  ur_cid :: string
  ur_size :: int
  ur_mimeType :: string

record provider =
  pv_name :: string
  pv_upload :: "bytes \<Rightarrow> string \<Rightarrow> string \<Rightarrow> string + upload_result"
  pv_exists :: "(string \<Rightarrow> string + bool) option"
  pv_unpin :: "(string \<Rightarrow> string + bool) option"
  pv_isHealthy :: "string + bool"

record health =
  hr_healthy :: bool
  hr_lastCheckedAt :: int
  hr_lastError :: "string option"
  hr_consecutiveFailures :: nat

record provider_chain =
  pc_providers :: "provider list"
  pc_health :: "string \<rightharpoonup> health"

definition fresh_health :: "int \<Rightarrow> health" where
  "fresh_health now = \<lparr>hr_healthy = True, hr_lastCheckedAt = now, hr_lastError = None, hr_consecutiveFailures = 0\<rparr>"

definition setProviders :: "int \<Rightarrow> provider list \<Rightarrow> provider_chain \<Rightarrow> provider_chain" where
  "setProviders now ps c =
     c\<lparr>pc_providers := ps,
       pc_health := foldl (\<lambda>h p. if h (pv_name p) = None then h(pv_name p \<mapsto> fresh_health now) else h) (pc_health c) ps\<rparr>"

definition is_up :: "provider_chain \<Rightarrow> provider \<Rightarrow> bool" where
  "is_up c p = (case pc_health c (pv_name p) of None \<Rightarrow> True | Some h \<Rightarrow> hr_healthy h)"

definition getHealthyProviders :: "provider_chain \<Rightarrow> provider list" where
  "getHealthyProviders c = filter (is_up c) (pc_providers c)"

definition getPrimaryProviderName :: "provider_chain \<Rightarrow> string" where
  "getPrimaryProviderName c = (case getHealthyProviders c of [] \<Rightarrow> ''none'' | p # _ \<Rightarrow> pv_name p)"

definition upd_health :: "string \<Rightarrow> (health \<Rightarrow> health) \<Rightarrow> provider_chain \<Rightarrow> provider_chain" where
  "upd_health n f c = (case pc_health c n of None \<Rightarrow> c | Some h \<Rightarrow> c\<lparr>pc_health := (pc_health c)(n \<mapsto> f h)\<rparr>)"

definition note_success :: "health \<Rightarrow> health" where
  "note_success h = h\<lparr>hr_consecutiveFailures := 0\<rparr>"

definition note_failure :: "nat \<Rightarrow> string \<Rightarrow> health \<Rightarrow> health" where
  "note_failure maxFailures msg h =
     (let h1 = h\<lparr>hr_consecutiveFailures := Suc (hr_consecutiveFailures h)\<rparr>
      in if maxFailures \<le> hr_consecutiveFailures h1 then h1\<lparr>hr_healthy := False, hr_lastError := Some msg\<rparr> else h1)"

fun try_providers ::
  "nat \<Rightarrow> bytes \<Rightarrow> string \<Rightarrow> string \<Rightarrow> provider list \<Rightarrow> nat \<Rightarrow> provider_chain \<Rightarrow> (upload_result \<times> string \<times> nat) option \<times> provider_chain" where
  "try_providers maxFailures buf filename mimeType [] fallbackCount c = (None, c)"
| "try_providers maxFailures buf filename mimeType (p # ps) fallbackCount c =
     (case pv_upload p buf filename mimeType of
        Inr r \<Rightarrow> (Some (r, pv_name p, fallbackCount), upd_health (pv_name p) note_success c)
      | Inl msg \<Rightarrow> try_providers maxFailures buf filename mimeType ps (Suc fallbackCount) (upd_health (pv_name p) (note_failure maxFailures msg) c))"

definition chain_upload ::
  "nat \<Rightarrow> bytes \<Rightarrow> string \<Rightarrow> string \<Rightarrow> provider_chain \<Rightarrow> (upload_result \<times> string \<times> nat) option \<times> provider_chain" where
  "chain_upload maxFailures buf filename mimeType c =
     (if getHealthyProviders c = [] then (None, c)
      else try_providers maxFailures buf filename mimeType (getHealthyProviders c) 0 c)"

text \<open>The search that \<open>exists\<close> and \<open>unpin\<close> share: the first provider that has the operation and answers true.\<close>

fun first_true :: "(provider \<Rightarrow> (string \<Rightarrow> string + bool) option) \<Rightarrow> string \<Rightarrow> provider list \<Rightarrow> string option" where
  "first_true op cid [] = None"
| "first_true op cid (p # ps) =
     (case op p of
        None \<Rightarrow> first_true op cid ps
      | Some f \<Rightarrow> if f cid = Inr True then Some (pv_name p) else first_true op cid ps)"

definition chain_exists :: "provider_chain \<Rightarrow> string \<Rightarrow> string option" where
  "chain_exists c cid = first_true pv_exists cid (getHealthyProviders c)"

definition chain_unpin :: "provider_chain \<Rightarrow> string \<Rightarrow> string option" where
  "chain_unpin c cid = first_true pv_unpin cid (getHealthyProviders c)"

definition note_check :: "int \<Rightarrow> string + bool \<Rightarrow> health \<Rightarrow> health" where
  "note_check now reply h =
     (case reply of
        Inr True \<Rightarrow> h\<lparr>hr_healthy := True, hr_lastCheckedAt := now, hr_consecutiveFailures := 0, hr_lastError := None\<rparr>
      | Inr False \<Rightarrow> h\<lparr>hr_healthy := False, hr_lastCheckedAt := now, hr_lastError := Some ''Health check returned false''\<rparr>
      | Inl msg \<Rightarrow> h\<lparr>hr_healthy := False, hr_lastCheckedAt := now, hr_lastError := Some msg\<rparr>)"

definition runHealthChecks :: "int \<Rightarrow> provider_chain \<Rightarrow> provider_chain" where
  "runHealthChecks now c = foldl (\<lambda>c p. upd_health (pv_name p) (note_check now (pv_isHealthy p)) c) c (pc_providers c)"

section \<open>Replay of uploads\<close>

record ipfs_record =
  ir_key :: string
  ir_contentHash :: string
  ir_cid :: string
  ir_gatewayUrls :: "string list"
  ir_uploadedAt :: string
  ir_contentSha256Hex :: string
  ir_createdAt :: string
  ir_hitCount :: int

definition IPFS_KEY_PREFIX :: string where "IPFS_KEY_PREFIX = ''ipfs:idempotency:''"
definition IPFS_TTL_SECONDS :: int where "IPFS_TTL_SECONDS = 86400"

definition generateKey :: "string \<Rightarrow> string" where
  "generateKey contentHash = IPFS_KEY_PREFIX @ ''upload'' @ '':'' @ contentHash"

definition ipfs_key :: "string option \<Rightarrow> string \<Rightarrow> string" where
  "ipfs_key idempotencyKey contentHash =
     (if falsy idempotencyKey then generateKey contentHash else IPFS_KEY_PREFIX @ ''explicit:'' @ the idempotencyKey)"

definition ipfs_check :: "string option \<Rightarrow> string \<Rightarrow> (ipfs_record, ipfs_record option) rcmd" where
  "ipfs_check idempotencyKey contentHash =
     (let key = ipfs_key idempotencyKey contentHash in
      se_bind (redis_get key) (\<lambda>rec.
        case rec of
          None \<Rightarrow> se_return None
        | Some r \<Rightarrow> let r1 = r\<lparr>ir_hitCount := ir_hitCount r + 1\<rparr>
                    in se_bind (redis_set key r1 IPFS_TTL_SECONDS) (\<lambda>_. se_return (Some r1))))"

definition ipfs_storeResult :: "string \<Rightarrow> string \<Rightarrow> string \<Rightarrow> string list \<Rightarrow> string \<Rightarrow> (ipfs_record, unit) rcmd" where
  "ipfs_storeResult key contentHash cid gatewayUrls contentSha256Hex r =
     (let t = js_toISOString (r_now r)
      in redis_set key \<lparr>ir_key = key, ir_contentHash = contentHash, ir_cid = cid, ir_gatewayUrls = gatewayUrls, ir_uploadedAt = t,
           ir_contentSha256Hex = contentSha256Hex, ir_createdAt = t, ir_hitCount = 0\<rparr> IPFS_TTL_SECONDS r)"

definition findByContentHash :: "string \<Rightarrow> (ipfs_record, ipfs_record option) rcmd" where
  "findByContentHash contentHash = redis_get (generateKey contentHash)"

definition ipfs_clear :: "string \<Rightarrow> (ipfs_record, unit) rcmd" where
  "ipfs_clear key = redis_del key"

definition key_char :: "char \<Rightarrow> bool" where
  "key_char c = (let n = of_char c :: nat in is_digit c \<or> 65 \<le> n \<and> n \<le> 90 \<or> 97 \<le> n \<and> n \<le> 122 \<or> c = CHR ''_'' \<or> c = CHR ''-'')"

definition isValidKeyFormat :: "string \<Rightarrow> bool" where
  "isValidKeyFormat key = (8 \<le> length key \<and> length key \<le> 128 \<and> list_all key_char key)"

definition sanitizeKey :: "string \<Rightarrow> string" where
  "sanitizeKey key = take 128 (filter key_char key)"

section \<open>Upload\<close>

fun replace_first :: "string \<Rightarrow> string \<Rightarrow> string \<Rightarrow> string" where
  "replace_first pat rep [] = (if pat = [] then rep else [])"
| "replace_first pat rep (c # s) = (if starts_with pat (c # s) then rep @ drop (length pat) (c # s) else c # replace_first pat rep s)"

definition generateGatewayUrls :: "string \<Rightarrow> (string \<times> int) list \<Rightarrow> string list" where
  "generateGatewayUrls cid gateways = map (\<lambda>g. replace_first ''{{cid}}'' cid (fst g)) (sort_key snd gateways)"

definition IPFS_GATEWAYS :: "(string \<times> int) list" where
  "IPFS_GATEWAYS = [(''https://ipfs.io/ipfs/{{cid}}'', 1), (''https://cloudflare-ipfs.com/ipfs/{{cid}}'', 2),
     (''https://gateway.pinata.cloud/ipfs/{{cid}}'', 3), (''https://dweb.link/ipfs/{{cid}}'', 4)]"

fun number_from :: "int \<Rightarrow> 'a list \<Rightarrow> ('a \<times> int) list" where
  "number_from i [] = []"
| "number_from i (x # xs) = (x, i) # number_from (i + 1) xs"

definition parseConfiguredGateways :: "string \<Rightarrow> (string \<times> int) list" where
  "parseConfiguredGateways raw =
     (if trim raw = [] then IPFS_GATEWAYS
      else let gateways = filter (\<lambda>g. fst g \<noteq> []) (number_from 0 (map trim (split_on (CHR '','') raw)))
           in if gateways = [] then IPFS_GATEWAYS else gateways)"

fun bytes_include :: "bytes \<Rightarrow> bytes \<Rightarrow> bool" where
  "bytes_include pat [] = (pat = [])"
| "bytes_include pat (b # bs) = (take (length pat) (b # bs) = pat \<or> bytes_include pat bs)"

definition scan_clean :: "bytes \<Rightarrow> bool" where
  "scan_clean b = (\<not> list_ex (\<lambda>pat. bytes_include (map of_char pat) b) [''eval(atob('', ''<script>eval('', ''function(){''])"

record ipfs_cfg =
  ic_minFileSize :: int
  ic_maxFileSize :: int
  ic_stripExif :: bool
  ic_maxArgs :: nat
  ic_gateways :: "(string \<times> int) list"
  ic_maxFailures :: nat
  ic_sha256 :: "bytes \<Rightarrow> string"

record ipfs_state =
  is_redis :: "ipfs_record redis"
  is_chain :: provider_chain
  is_audit :: "(string \<times> string) list"    \<comment> \<open>actor, action\<close>

datatype ipfs_error =
  Bad_File file_error | Threat_Detected | Ipfs_Unavailable
| No_File | Unsupported_Type string | File_Exceeds_Limit | Extension_Refused string | Rate_Limit_Exceeded int

record upload_reply =
  rp_cid :: string
  rp_gatewayUrls :: "string list"
  rp_contentSha256Hex :: string
  rp_filename :: string
  rp_duplicated :: bool

record upload_options =
  uo_stripExif :: bool          \<comment> \<open>not given as \<open>false\<close>\<close>
  uo_scanForViruses :: bool

text \<open>What \<open>upload\<close> does once the metadata is accepted.\<close>

definition upload_checked ::
  "ipfs_cfg \<Rightarrow> bytes \<Rightarrow> string \<Rightarrow> string \<Rightarrow> string option \<Rightarrow> upload_options \<Rightarrow> ipfs_state \<Rightarrow> (ipfs_error + upload_reply) \<times> ipfs_state" where
  "upload_checked cfg buf filename mimeType idempotencyKey opts st =
     (let sanitizedFilename = sanitizeFilename filename;
          contentHash = ic_sha256 cfg buf;
          processed = (if uo_stripExif opts then fst (stripExifMetadata (ic_stripExif cfg) (ic_maxArgs cfg) buf mimeType) else buf)
      in if uo_scanForViruses opts \<and> \<not> scan_clean processed then (Inl Threat_Detected, st)
      else (case ipfs_check idempotencyKey contentHash (is_redis st) of
        (Inr (Some r), r1) \<Rightarrow>
          (Inr \<lparr>rp_cid = ir_cid r, rp_gatewayUrls = ir_gatewayUrls r, rp_contentSha256Hex = ir_contentSha256Hex r,
                rp_filename = sanitizedFilename, rp_duplicated = True\<rparr>, st\<lparr>is_redis := r1\<rparr>)
      | (_, r1) \<Rightarrow>
          let contentSha256Hex = ic_sha256 cfg processed in
          (case chain_upload (ic_maxFailures cfg) processed sanitizedFilename mimeType (is_chain st) of
             (None, c1) \<Rightarrow> (Inl Ipfs_Unavailable, st\<lparr>is_redis := r1, is_chain := c1\<rparr>)
           | (Some (res, _), c1) \<Rightarrow>
               let gatewayUrls = generateGatewayUrls (ur_cid res) (ic_gateways cfg);
                   r2 = snd (ipfs_storeResult (ipfs_key idempotencyKey contentHash) contentHash (ur_cid res) gatewayUrls contentSha256Hex r1)
               in (Inr \<lparr>rp_cid = ur_cid res, rp_gatewayUrls = gatewayUrls, rp_contentSha256Hex = contentSha256Hex,
                     rp_filename = sanitizedFilename, rp_duplicated = False\<rparr>, st\<lparr>is_redis := r2, is_chain := c1\<rparr>))))"

text \<open>The metadata object \<open>upload\<close> builds has a name, a type and a size.\<close>

definition ipfs_upload ::
  "ipfs_cfg \<Rightarrow> bytes \<Rightarrow> string \<Rightarrow> string \<Rightarrow> string option \<Rightarrow> upload_options \<Rightarrow> ipfs_state \<Rightarrow> (ipfs_error + upload_reply) \<times> ipfs_state" where
  "ipfs_upload cfg buf filename mimeType idempotencyKey opts st =
     (case validateFileMetadata (ic_minFileSize cfg) (ic_maxFileSize cfg)
             \<lparr>um_fieldname = None, um_originalname = Some filename, um_mimetype = Some mimeType, um_size = Some (int (length buf))\<rparr> of
        Some e \<Rightarrow> (Inl (Bad_File e), st)
      | None \<Rightarrow> upload_checked cfg buf filename mimeType idempotencyKey opts st)"

definition ipfs_exists :: "provider_chain \<Rightarrow> string \<Rightarrow> bool" where
  "ipfs_exists c cid = (chain_exists c cid \<noteq> None)"

text \<open>\<open>False\<close> is the \<open>BadRequestException\<close>.\<close>

definition ipfs_unpin :: "provider_chain \<Rightarrow> string \<Rightarrow> bool" where
  "ipfs_unpin c cid = (chain_unpin c cid \<noteq> None)"

definition ipfs_isHealthy :: "provider_chain \<Rightarrow> bool" where
  "ipfs_isHealthy c = (getHealthyProviders c \<noteq> [])"

text \<open>\<open>fetchFromGateway\<close>; what each gateway answers is an argument, \<open>None\<close> the final \<open>ServiceUnavailableException\<close>.\<close>

fun first_fetched :: "(string \<Rightarrow> bytes option) \<Rightarrow> string list \<Rightarrow> bytes option" where
  "first_fetched fetch [] = None"
| "first_fetched fetch (u # us) = (case fetch u of Some b \<Rightarrow> Some b | None \<Rightarrow> first_fetched fetch us)"

definition fetchFromGateway :: "(string \<times> int) list \<Rightarrow> (string \<Rightarrow> bytes option) \<Rightarrow> string \<Rightarrow> bytes option" where
  "fetchFromGateway gateways fetch cid = first_fetched fetch (generateGatewayUrls cid gateways)"

section \<open>Evidence for claims\<close>

definition EVIDENCE_ALLOWED_MIME_TYPES :: "string list" where
  "EVIDENCE_ALLOWED_MIME_TYPES = [''application/pdf'', ''image/png'', ''image/jpeg'']"

record evidence_file =
  ef_originalname :: string
  ef_mimetype :: string
  ef_size :: int
  ef_buffer :: bytes

definition evidence_validateFile :: "int \<Rightarrow> evidence_file option \<Rightarrow> ipfs_error option" where
  "evidence_validateFile maxBytes file =
     (case file of
        None \<Rightarrow> Some No_File
      | Some f \<Rightarrow>
          if ef_mimetype f \<notin> set EVIDENCE_ALLOWED_MIME_TYPES then Some (Unsupported_Type (ef_mimetype f))
          else if maxBytes < ef_size f then Some File_Exceeds_Limit
          else let ext = to_lower (last (split_on (CHR ''.'') (ef_originalname f))) in
               if ext \<in> set [''exe'', ''bat'', ''sh'', ''js'', ''php'', ''py'', ''rb'', ''cmd'', ''ps1''] then Some (Extension_Refused ext) else None)"

definition writeAudit :: "bool \<Rightarrow> string \<Rightarrow> string \<Rightarrow> ipfs_state \<Rightarrow> ipfs_state" where
  "writeAudit auditOk walletAddress action st = (if auditOk then st\<lparr>is_audit := is_audit st @ [(walletAddress, action)]\<rparr> else st)"

record evidence_cfg =
  ev_maxBytes :: int
  ev_rateLimit :: int
  ev_rateWindow :: int

definition evidence_upload ::
  "evidence_cfg \<Rightarrow> ipfs_cfg \<Rightarrow> bool \<Rightarrow> string \<Rightarrow> evidence_file option \<Rightarrow> string \<Rightarrow> ipfs_state \<Rightarrow> (ipfs_error + string \<times> string option) \<times> ipfs_state" where
  "evidence_upload ecfg cfg auditOk rnd file walletAddress st =
     (case evidence_validateFile (ev_maxBytes ecfg) file of
        Some e \<Rightarrow> (Inl e, st)
      | None \<Rightarrow>
          (case checkWalletEvidenceLimit walletAddress (ev_rateLimit ecfg) (ev_rateWindow ecfg) (r_now (is_redis st)) rnd (is_redis st) of
             (Inr (False, retryAfter), r1) \<Rightarrow>
               (Inl (Rate_Limit_Exceeded retryAfter), writeAudit auditOk walletAddress ''evidence_upload_rate_limited'' (st\<lparr>is_redis := r1\<rparr>))
           | (_, r1) \<Rightarrow>
               (case ipfs_upload cfg (ef_buffer (the file)) (ef_originalname (the file)) (ef_mimetype (the file)) None
                       \<lparr>uo_stripExif = True, uo_scanForViruses = False\<rparr> (st\<lparr>is_redis := r1\<rparr>) of
                  (Inl e, st1) \<Rightarrow> (Inl e, writeAudit auditOk walletAddress ''evidence_upload_failed'' st1)
                | (Inr res, st1) \<Rightarrow>
                    (Inr (rp_cid res, case rp_gatewayUrls res of [] \<Rightarrow> None | u # _ \<Rightarrow> Some u),
                     writeAudit auditOk walletAddress ''evidence_upload_success'' st1))))"

section \<open>The check of pins\<close>

definition cid_part :: "string \<Rightarrow> string option" where
  "cid_part s = (let p = takeWhile (\<lambda>c. c \<notin> set ''/?#'') s in if p = [] then None else Some p)"

text \<open>\<open>/\/ipfs\/([^/?#]+)/i\<close>: the first place where the path is followed by something.\<close>

fun after_ipfs_path :: "string \<Rightarrow> string option" where
  "after_ipfs_path [] = None"
| "after_ipfs_path (c # s) =
     (if starts_with ''/ipfs/'' (to_lower (c # s)) \<and> cid_part (drop 6 (c # s)) \<noteq> None then cid_part (drop 6 (c # s)) else after_ipfs_path s)"

definition base58_char :: "char \<Rightarrow> bool" where
  "base58_char c = (let n = of_char c :: nat in (49 \<le> n \<and> n \<le> 57 \<or> 65 \<le> n \<and> n \<le> 90 \<or> 97 \<le> n \<and> n \<le> 122) \<and> c \<notin> set ''IOl'')"

definition base32_char :: "char \<Rightarrow> bool" where
  "base32_char c = (let n = of_char c :: nat in 97 \<le> n \<and> n \<le> 122 \<or> 50 \<le> n \<and> n \<le> 55)"

definition bare_cid :: "string \<Rightarrow> bool" where
  "bare_cid s =
     ((starts_with ''Qm'' s \<and> 46 \<le> length s \<and> list_all base58_char (take 44 (drop 2 s))) \<or>
      (starts_with ''bafy'' s \<and> 56 \<le> length s \<and> list_all base32_char (take 52 (drop 4 s))))"

definition extractCid :: "string \<Rightarrow> string option" where
  "extractCid url =
     (if url = [] then None
      else if starts_with ''ipfs://'' (to_lower url) \<and> cid_part (drop 7 url) \<noteq> None then cid_part (drop 7 url)
      else if after_ipfs_path url \<noteq> None then after_ipfs_path url
      else if bare_cid url then Some url else None)"

record pin_summary =
  ps_checked :: nat
  ps_unpinned :: "(string \<times> int) list"
  ps_skippedNoExists :: nat
  ps_errors :: nat

text \<open>The claims are given by id and image URLs. The \<open>catch\<close> of the loop is not reached: \<open>exists\<close> does not throw.\<close>

definition pin_urls :: "(int \<times> string list) list \<Rightarrow> (string \<times> int) list" where
  "pin_urls claims = concat (map (\<lambda>(i, urls). List.map_filter (\<lambda>u. map_option (\<lambda>cid. (cid, i)) (extractCid u)) urls) claims)"

definition runPinCheck :: "string \<Rightarrow> provider_chain \<Rightarrow> (int \<times> string list) list \<Rightarrow> pin_summary" where
  "runPinCheck enabled c claims =
     (if enabled \<noteq> ''true'' \<and> enabled \<noteq> ''1'' then \<lparr>ps_checked = 0, ps_unpinned = [], ps_skippedNoExists = 0, ps_errors = 0\<rparr>
      else \<lparr>ps_checked = length (pin_urls claims), ps_unpinned = filter (\<lambda>(cid, _). chain_exists c cid = None) (pin_urls claims),
             ps_skippedNoExists = 0, ps_errors = 0\<rparr>)"

section \<open>Failover\<close>

definition accepts :: "bytes \<Rightarrow> string \<Rightarrow> string \<Rightarrow> provider \<Rightarrow> bool" where
  "accepts buf filename mimeType p = (\<not> isl (pv_upload p buf filename mimeType))"

text \<open>Every provider has a health record, under its own name.\<close>

definition chain_wf :: "provider_chain \<Rightarrow> bool" where
  "chain_wf c \<longleftrightarrow> distinct (map pv_name (pc_providers c)) \<and> (\<forall>p \<in> set (pc_providers c). pc_health c (pv_name p) \<noteq> None)"

lemma upd_health_providers [simp]: "pc_providers (upd_health n f c) = pc_providers c"
  by (simp add: upd_health_def split: option.split)

lemma upd_health_lookup: "pc_health (upd_health n f c) m = (if m = n then map_option f (pc_health c n) else pc_health c m)"
  by (simp add: upd_health_def split: option.split)

lemma setProviders_wf: "distinct (map pv_name ps) \<Longrightarrow> chain_wf (setProviders now ps c)"
proof -
  assume d: "distinct (map pv_name ps)"
  have keep: "h n \<noteq> None \<Longrightarrow> foldl (\<lambda>h p. if h (pv_name p) = None then h(pv_name p \<mapsto> fresh_health now) else h) h qs n \<noteq> None" for h n and qs :: "provider list"
    by (induction qs arbitrary: h) auto
  have "\<forall>p \<in> set qs. foldl (\<lambda>h p. if h (pv_name p) = None then h(pv_name p \<mapsto> fresh_health now) else h) h qs (pv_name p) \<noteq> None" for h and qs :: "provider list"
  proof (induction qs arbitrary: h)
    case (Cons q qs)
    then show ?case using keep [of _ "pv_name q"] by simp
  qed simp
  then show ?thesis using d by (simp add: chain_wf_def setProviders_def)
qed

lemma try_providers_wf: "pc_providers (snd (try_providers m b f t ps k c)) = pc_providers c"
  by (induction ps arbitrary: k c) (auto split: sum.split)

lemma try_providers_result:
  "fst (try_providers m b f t ps k c) = None \<longleftrightarrow> (\<forall>p \<in> set ps. \<not> accepts b f t p)"
  by (induction ps arbitrary: k c) (auto simp: accepts_def split: sum.split)

lemma try_providers_first:
  assumes "fst (try_providers m b f t ps k c) = Some (r, n, k')"
  shows "\<exists>j < length ps. k' = k + j \<and> n = pv_name (ps ! j) \<and> pv_upload (ps ! j) b f t = Inr r \<and> (\<forall>i < j. \<not> accepts b f t (ps ! i))"
  using assms
proof (induction ps arbitrary: k c)
  case (Cons p ps)
  show ?case
  proof (cases "pv_upload p b f t")
    case (Inl msg)
    then obtain j where j: "j < length ps" "k' = Suc k + j" "n = pv_name (ps ! j)" "pv_upload (ps ! j) b f t = Inr r" "\<forall>i < j. \<not> accepts b f t (ps ! i)"
      using Cons by fastforce
    have "\<not> accepts b f t ((p # ps) ! i)" if "i < Suc j" for i using that j(5) Inl by (cases i) (simp_all add: accepts_def)
    then show ?thesis using j by (intro exI [of _ "Suc j"]) simp
  next
    case (Inr r')
    then show ?thesis using Cons.prems by (intro exI [of _ 0]) simp
  qed
qed simp

text \<open>The records of those that were tried and failed, while the names are distinct.\<close>

lemma try_providers_other: "n \<notin> pv_name ` set ps \<Longrightarrow> pc_health (snd (try_providers m b f t ps k c)) n = pc_health c n"
  by (induction ps arbitrary: k c) (auto simp: upd_health_lookup split: sum.split)

lemma try_providers_failed:
  assumes "distinct (map pv_name ps)" "p \<in> set ps" "pv_upload p b f t = Inl msg" "pc_health c (pv_name p) = Some h"
  shows "pc_health (snd (try_providers m b f t ps k c)) (pv_name p) = Some (note_failure m msg h) \<or>
    pc_health (snd (try_providers m b f t ps k c)) (pv_name p) = Some h \<and> (\<exists>q \<in> set (takeWhile (\<lambda>q. q \<noteq> p) ps). accepts b f t q)"
  using assms
proof (induction ps arbitrary: k c)
  case (Cons q ps)
  show ?case
  proof (cases "q = p")
    case True
    then have "pv_name p \<notin> pv_name ` set ps" using Cons.prems(1) by auto
    then show ?thesis using True Cons.prems(3,4) by (simp add: try_providers_other upd_health_lookup)
  next
    case False
    then have n: "pv_name q \<noteq> pv_name p" "p \<in> set ps" using Cons.prems(1,2) by auto
    then show ?thesis
    proof (cases "pv_upload q b f t")
      case (Inl e)
      then show ?thesis
        using Cons.IH [of "upd_health (pv_name q) (note_failure m e) c" "Suc k"] Cons.prems n False by (auto simp: upd_health_lookup)
    next
      case (Inr r)
      then show ?thesis using Cons.prems(4) n False by (simp add: upd_health_lookup accepts_def)
    qed
  qed
qed simp

lemma takeWhile_before: "i < length xs \<Longrightarrow> set (takeWhile (\<lambda>q. q \<noteq> xs ! i) xs) \<subseteq> set (take i xs)"
proof (induction xs arbitrary: i)
  case (Cons x xs)
  then show ?case by (cases i) (auto dest: set_takeWhileD)
qed simp

lemma takeWhile_none:
  assumes "i < length xs" "\<forall>j < i. \<not> P (xs ! j)"
  shows "\<not> (\<exists>q \<in> set (takeWhile (\<lambda>q. q \<noteq> xs ! i) xs). P q)"
proof
  assume "\<exists>q \<in> set (takeWhile (\<lambda>q. q \<noteq> xs ! i) xs). P q"
  then obtain q where "P q" "q \<in> set (take i xs)" using takeWhile_before [OF assms(1)] by blast
  then show False using assms by (auto simp: in_set_conv_nth)
qed

lemma runHealthChecks_lookup:
  assumes "chain_wf c" "p \<in> set (pc_providers c)"
  shows "\<exists>h. pc_health c (pv_name p) = Some h \<and> pc_health (runHealthChecks now c) (pv_name p) = Some (note_check now (pv_isHealthy p) h)"
proof -
  have other: "n \<notin> pv_name ` set ps \<Longrightarrow> pc_health (foldl (\<lambda>c p. upd_health (pv_name p) (g p) c) c ps) n = pc_health c n" for n g c and ps :: "provider list"
    by (induction ps arbitrary: c) (auto simp: upd_health_lookup)
  have "pc_health (foldl (\<lambda>c p. upd_health (pv_name p) (g p) c) c ps) (pv_name p) = map_option (g p) (pc_health c (pv_name p))"
    if "distinct (map pv_name ps)" "p \<in> set ps" for g c and ps :: "provider list"
    using that
  proof (induction ps arbitrary: c)
    case (Cons q ps)
    show ?case
    proof (cases "p = q")
      case True
      then show ?thesis using Cons.prems other [of "pv_name p" ps] by (simp add: upd_health_lookup)
    next
      case False
      then have "p \<in> set ps" using Cons.prems by auto
      moreover from this have "pv_name p \<noteq> pv_name q" using Cons.prems(1) by (metis distinct.simps(2) image_eqI list.simps(9) list.set_map)
      ultimately show ?thesis using Cons.IH Cons.prems(1) by (simp add: upd_health_lookup)
    qed
  qed simp
  from this [OF _ assms(2), of "\<lambda>p. note_check now (pv_isHealthy p)" c] show ?thesis
    using assms by (auto simp: chain_wf_def runHealthChecks_def)
qed

lemma runHealthChecks_providers [simp]: "pc_providers (runHealthChecks now c) = pc_providers c"
proof -
  have "pc_providers (foldl (\<lambda>c p. upd_health (pv_name p) (g p) c) c ps) = pc_providers c" for g c and ps :: "provider list"
    by (induction ps arbitrary: c) simp_all
  then show ?thesis by (simp add: runHealthChecks_def)
qed

lemma note_check_healthy: "hr_healthy (note_check now reply h) \<longleftrightarrow> reply = Inr True"
  by (cases reply; cases "projr reply") (simp_all add: note_check_def split: bool.split)

lemma healthy_after_check:
  assumes "chain_wf c"
  shows "getHealthyProviders (runHealthChecks now c) = filter (\<lambda>p. pv_isHealthy p = Inr True) (pc_providers c)"
proof -
  have "is_up (runHealthChecks now c) p \<longleftrightarrow> pv_isHealthy p = Inr True" if "p \<in> set (pc_providers c)" for p
    using runHealthChecks_lookup [OF assms that, of now] by (auto simp: is_up_def note_check_healthy)
  then show ?thesis by (simp add: getHealthyProviders_def cong: filter_cong)
qed

lemma note_check_wf: "chain_wf c \<Longrightarrow> chain_wf (runHealthChecks now c)"
  using runHealthChecks_lookup [of c _ now] by (fastforce simp: chain_wf_def)

text \<open>Uploads fail over. After a round of health checks, an upload succeeds exactly when some provider that reports healthy
  accepts the file; it is then stored at the first such provider in the order of the chain, the reported
  number of fallbacks is the number of healthy ones before it, and each of these has one more failure
  on its record and is out of the selection when that makes the maximum.\<close>

theorem upload_failover:
  assumes "chain_wf c" "chain_upload maxFailures b f t (runHealthChecks now c) = (res, c')"
  shows "(res \<noteq> None \<longleftrightarrow> (\<exists>p \<in> set (pc_providers c). pv_isHealthy p = Inr True \<and> accepts b f t p))
    \<and> (\<forall>r n k. res = Some (r, n, k) \<longrightarrow> (let ps = filter (\<lambda>p. pv_isHealthy p = Inr True) (pc_providers c) in
         k < length ps \<and> n = pv_name (ps ! k) \<and> pv_upload (ps ! k) b f t = Inr r \<and>
         (\<forall>i < k. \<not> accepts b f t (ps ! i) \<and> (\<exists>h. pc_health c' (pv_name (ps ! i)) = Some h \<and> hr_consecutiveFailures h = 1 \<and>
            (hr_healthy h \<longleftrightarrow> 1 < maxFailures)))))"
proof -
  let ?ps = "filter (\<lambda>p. pv_isHealthy p = Inr True) (pc_providers c)" and ?c = "runHealthChecks now c"
  have hp: "getHealthyProviders ?c = ?ps" by (rule healthy_after_check [OF assms(1)])
  have run: "try_providers maxFailures b f t ?ps 0 ?c = (res, c')"
    using assms(2) hp by (auto simp: chain_upload_def split: if_splits)
  have dist: "distinct (map pv_name ?ps)" using assms(1) by (simp add: chain_wf_def distinct_map_filter)
  have ok: "res \<noteq> None \<longleftrightarrow> (\<exists>p \<in> set (pc_providers c). pv_isHealthy p = Inr True \<and> accepts b f t p)"
    using try_providers_result [of maxFailures b f t ?ps 0 ?c] run by auto
  have first: "let ps = ?ps in k < length ps \<and> n = pv_name (ps ! k) \<and> pv_upload (ps ! k) b f t = Inr r \<and>
      (\<forall>i < k. \<not> accepts b f t (ps ! i) \<and> (\<exists>h. pc_health c' (pv_name (ps ! i)) = Some h \<and> hr_consecutiveFailures h = 1 \<and> (hr_healthy h \<longleftrightarrow> 1 < maxFailures)))"
    if res: "res = Some (r, n, k)" for r n k
  proof -
    have k: "k < length ?ps" "n = pv_name (?ps ! k)" "pv_upload (?ps ! k) b f t = Inr r" "\<forall>i < k. \<not> accepts b f t (?ps ! i)"
      using try_providers_first [of maxFailures b f t ?ps 0 ?c r n k] run res by auto
    have "\<exists>h. pc_health c' (pv_name (?ps ! i)) = Some h \<and> hr_consecutiveFailures h = 1 \<and> (hr_healthy h \<longleftrightarrow> 1 < maxFailures)" if i: "i < k" for i
    proof -
      let ?p = "?ps ! i"
      have p: "?p \<in> set ?ps" using i k(1) by (meson nth_mem less_trans)
      obtain msg where msg: "pv_upload ?p b f t = Inl msg" using k(4) i by (cases "pv_upload ?p b f t") (auto simp: accepts_def)
      obtain h where h: "pc_health ?c (pv_name ?p) = Some h" "hr_consecutiveFailures h = 0" "hr_healthy h"
        using runHealthChecks_lookup [OF assms(1), of ?p now] p by (auto simp: note_check_def)
      have "\<not> (\<exists>q \<in> set (takeWhile (\<lambda>q. q \<noteq> ?p) ?ps). accepts b f t q)"
        by (rule takeWhile_none) (use k(1,4) i in auto)
      then have "pc_health c' (pv_name ?p) = Some (note_failure maxFailures msg h)"
        using try_providers_failed [OF dist p msg h(1), of maxFailures 0] run by auto
      then show ?thesis using h(2,3) by (auto simp: note_failure_def Let_def)
    qed
    then show ?thesis using k by (simp add: Let_def)
  qed
  show ?thesis using ok first by blast
qed

definition sample_provider :: "string \<Rightarrow> bool \<Rightarrow> provider" where
  "sample_provider n works = \<lparr>pv_name = n, pv_upload = (\<lambda>_ _ _. if works then Inr \<lparr>ur_cid = ''Qm1'', ur_size = 1, ur_mimeType = ''image/png''\<rparr> else Inl ''down''),
     pv_exists = None, pv_unpin = None, pv_isHealthy = Inr True\<rparr>"

definition sample_chain_of :: "provider list \<Rightarrow> provider_chain" where
  "sample_chain_of ps = setProviders 0 ps \<lparr>pc_providers = [], pc_health = Map.empty\<rparr>"

theorem upload_failover_witness:
  "\<exists>r c'. chain_upload 3 [1] ''a.png'' ''image/png'' (runHealthChecks 9 (sample_chain_of [sample_provider ''pinata'' False, sample_provider ''web3'' True])) =
     (Some (r, ''web3'', 1), c')"
proof -
  let ?c = "sample_chain_of [sample_provider ''pinata'' False, sample_provider ''web3'' True]"
  have wf: "chain_wf ?c" unfolding sample_chain_of_def by (rule setProviders_wf) (simp add: sample_provider_def)
  obtain res c' where run: "chain_upload 3 [1] ''a.png'' ''image/png'' (runHealthChecks 9 ?c) = (res, c')" by fastforce
  have ps: "pc_providers ?c = [sample_provider ''pinata'' False, sample_provider ''web3'' True]" by (simp add: sample_chain_of_def setProviders_def)
  note all = upload_failover [OF wf run]
  from all have "res \<noteq> None" unfolding ps by (simp add: sample_provider_def accepts_def)
  then obtain r n k where res: "res = Some (r, n, k)" by (cases res) auto
  with all have "k < 2" "n = pv_name ([sample_provider ''pinata'' False, sample_provider ''web3'' True] ! k)"
      "pv_upload ([sample_provider ''pinata'' False, sample_provider ''web3'' True] ! k) [1] ''a.png'' ''image/png'' = Inr r"
    unfolding ps by (simp_all add: sample_provider_def Let_def)
  then have "k = 1 \<and> n = ''web3''" by (cases k) (auto simp: sample_provider_def)
  then show ?thesis using run res by auto
qed

section \<open>Evidence\<close>

lemma se_try_answers: "\<exists>v s1. se_try m (\<lambda>_. se_return a) s = (Inr v, s1)"
  by (cases "m s"; cases "fst (m s)") (auto simp: se_try_def)

lemma limiter_answers: "\<exists>v r1. checkWalletEvidenceLimit w lim ws now rnd r = (Inr v, r1)"
  unfolding checkWalletEvidenceLimit_def by (rule se_try_answers)

lemma ipfs_upload_refused: "ipfs_upload cfg b f t k opts st = (Inl (Bad_File Field_Name_Required), st)"
  by (simp add: ipfs_upload_def validateFileMetadata_def falsy_def)

text \<open>C11. No evidence is ever stored. \<open>upload\<close> passes metadata without a field name to a validation that demands one, so every
  upload of evidence is answered with an error and no provider is asked. A file that passes the checks
  of the evidence service and the rate limit uses up one of the wallet's uploads and is then refused for the
  missing field name, which the audit log records as a failure of IPFS.\<close>

theorem evidence_never_stored:
  "\<exists>e st'. evidence_upload ecfg cfg auditOk rnd file wallet st = (Inl e, st') \<and> is_chain st' = is_chain st
    \<and> (evidence_validateFile (ev_maxBytes ecfg) file = None \<and>
       fst (checkWalletEvidenceLimit wallet (ev_rateLimit ecfg) (ev_rateWindow ecfg) (r_now (is_redis st)) rnd (is_redis st)) = Inr (True, n)
       \<longrightarrow> e = Bad_File Field_Name_Required \<and>
           is_redis st' = snd (checkWalletEvidenceLimit wallet (ev_rateLimit ecfg) (ev_rateWindow ecfg) (r_now (is_redis st)) rnd (is_redis st)) \<and>
           (auditOk \<longrightarrow> is_audit st' = is_audit st @ [(wallet, ''evidence_upload_failed'')]))"
proof (cases "evidence_validateFile (ev_maxBytes ecfg) file")
  case (Some e)
  then show ?thesis by (simp add: evidence_upload_def)
next
  case None
  obtain allowed retry r1 where lim: "checkWalletEvidenceLimit wallet (ev_rateLimit ecfg) (ev_rateWindow ecfg) (r_now (is_redis st)) rnd (is_redis st) =
      (Inr (allowed, retry), r1)" using limiter_answers by (metis surj_pair)
  show ?thesis using None lim by (cases allowed) (simp_all add: evidence_upload_def ipfs_upload_refused writeAudit_def)
qed

definition sample_ipfs_cfg :: ipfs_cfg where
  "sample_ipfs_cfg = \<lparr>ic_minFileSize = 1, ic_maxFileSize = 1000, ic_stripExif = True, ic_maxArgs = 100, ic_gateways = IPFS_GATEWAYS,
     ic_maxFailures = 3, ic_sha256 = map char_of\<rparr>"

theorem evidence_never_stored_witness:
  "\<exists>st'. evidence_upload \<lparr>ev_maxBytes = 100, ev_rateLimit = 5, ev_rateWindow = 3600\<rparr> sample_ipfs_cfg True ''x''
     (Some \<lparr>ef_originalname = ''a.png'', ef_mimetype = ''image/png'', ef_size = 1, ef_buffer = [1]\<rparr>) ''GA''
     \<lparr>is_redis = redis_empty 0, is_chain = sample_chain_of [sample_provider ''web3'' True], is_audit = []\<rparr> = (Inl (Bad_File Field_Name_Required), st') \<and>
     is_audit st' = [(''GA'', ''evidence_upload_failed'')]"
proof -
  let ?st = "\<lparr>is_redis = redis_empty 0, is_chain = sample_chain_of [sample_provider ''web3'' True], is_audit = []\<rparr>"
  have "fst (checkWalletEvidenceLimit ''GA'' 5 3600 0 ''x'' (redis_empty 0 :: ipfs_record redis)) = Inr (True, 0)"
    by (simp add: checkWalletEvidenceLimit_def window_body_def se_try_def se_bind_def send_ok c_zremrangebyscore_def c_zcard_def c_zadd_def
        c_pexpire_z_def redis_empty_def z_put_def z_live_def z_insert_def Let_def)
  moreover have "evidence_validateFile 100 (Some \<lparr>ef_originalname = ''a.png'', ef_mimetype = ''image/png'', ef_size = 1, ef_buffer = [1]\<rparr>) = None"
    by code_simp
  ultimately show ?thesis
    using evidence_never_stored [of "\<lparr>ev_maxBytes = 100, ev_rateLimit = 5, ev_rateWindow = 3600\<rparr>" sample_ipfs_cfg True "''x''"
        "Some \<lparr>ef_originalname = ''a.png'', ef_mimetype = ''image/png'', ef_size = 1, ef_buffer = [1]\<rparr>" "''GA''" ?st 0]
    by (auto simp: redis_empty_def)
qed

text \<open>Behind the validation, equal content is stored once: a second upload of the same bytes within a day is answered from the
  first, and no provider is asked.\<close>

lemma same_content_once:
  assumes "r_faults (is_redis st) = []" "falsy key" "\<not> uo_scanForViruses opts"
    and "upload_checked cfg b f t key opts st = (Inr r1, st1)" "\<not> rp_duplicated r1"
  shows "\<exists>r2 st2. upload_checked cfg b f2 t key opts st1 = (Inr r2, st2) \<and> rp_cid r2 = rp_cid r1 \<and> rp_duplicated r2 \<and>
    rp_contentSha256Hex r2 = rp_contentSha256Hex r1 \<and> is_chain st2 = is_chain st1"
proof -
  let ?key = "generateKey (ic_sha256 cfg b)"
  have key: "ipfs_key key h = generateKey h" for h using assms(2) by (simp add: ipfs_key_def)
  let ?res = "fst (chain_upload (ic_maxFailures cfg) (if uo_stripExif opts then fst (stripExifMetadata (ic_stripExif cfg) (ic_maxArgs cfg) b t) else b)
    (sanitizeFilename f) t (is_chain st))"
  have miss: "kv_live (is_redis st) ?key = None"
    using assms(1,3,4,5) by (cases "kv_live (is_redis st) ?key")
      (auto simp: upload_checked_def ipfs_check_def key Let_def redis_get_def redis_set_def c_get_def c_setex_def se_try_def se_bind_def send_ok)
  then obtain res rest c1 where up: "chain_upload (ic_maxFailures cfg) (if uo_stripExif opts then fst (stripExifMetadata (ic_stripExif cfg) (ic_maxArgs cfg) b t) else b)
      (sanitizeFilename f) t (is_chain st) = (Some (res, rest), c1)"
    using assms(1,3,4) by (auto simp: upload_checked_def ipfs_check_def key Let_def redis_get_def c_get_def se_try_def se_bind_def send_ok
        split: option.splits prod.splits if_splits)
  have st1: "is_redis st1 = snd (ipfs_storeResult ?key (ic_sha256 cfg b) (ur_cid res) (generateGatewayUrls (ur_cid res) (ic_gateways cfg))
      (ic_sha256 cfg (if uo_stripExif opts then fst (stripExifMetadata (ic_stripExif cfg) (ic_maxArgs cfg) b t) else b)) (is_redis st))"
    "rp_cid r1 = ur_cid res" "rp_contentSha256Hex r1 = ic_sha256 cfg (if uo_stripExif opts then fst (stripExifMetadata (ic_stripExif cfg) (ic_maxArgs cfg) b t) else b)"
    using assms(1,3,4) miss up
    by (auto simp: upload_checked_def ipfs_check_def key Let_def redis_get_def c_get_def se_try_def se_bind_def send_ok)
  then have "\<exists>v. kv_live (is_redis st1) ?key = Some v \<and> ir_cid v = rp_cid r1 \<and> ir_contentSha256Hex v = rp_contentSha256Hex r1" "r_faults (is_redis st1) = []"
    using assms(1) by (simp_all add: ipfs_storeResult_def redis_set_def c_setex_def se_try_def send_ok kv_live_def IPFS_TTL_SECONDS_def Let_def)
  then show ?thesis using assms(3)
    by (auto simp: upload_checked_def ipfs_check_def key Let_def redis_get_def redis_set_def c_get_def c_setex_def se_try_def se_bind_def send_ok)
qed

text \<open>A gateway that answers is enough.\<close>

lemma fetch_succeeds: "fetchFromGateway gateways fetch cid \<noteq> None \<longleftrightarrow> (\<exists>u \<in> set (generateGatewayUrls cid gateways). fetch u \<noteq> None)"
proof -
  have "first_fetched fetch us \<noteq> None \<longleftrightarrow> (\<exists>u \<in> set us. fetch u \<noteq> None)" for us
    by (induction us) (auto split: option.split)
  then show ?thesis by (simp add: fetchFromGateway_def)
qed

section \<open>Pins\<close>

text \<open>While no healthy provider answers the question, every content is reported as no longer pinned, and none as an error.\<close>

lemma first_true_none: "(\<forall>p \<in> set ps. \<forall>f. op p = Some f \<longrightarrow> f cid \<noteq> Inr True) \<Longrightarrow> first_true op cid ps = None"
  by (induction ps) (auto split: option.split)

lemma pin_check_false_alarms:
  assumes "\<forall>p \<in> set (pc_providers c). \<forall>f cid. pv_exists p = Some f \<longrightarrow> is_up c p \<longrightarrow> isl (f cid)"
  shows "ps_unpinned (runPinCheck ''true'' c claims) = pin_urls claims \<and> ps_errors (runPinCheck ''true'' c claims) = 0"
proof -
  have "chain_exists c cid = None" for cid unfolding chain_exists_def
  proof (rule first_true_none, intro ballI allI impI)
    fix p f assume "p \<in> set (getHealthyProviders c)" "pv_exists p = Some f"
    then have "isl (f cid)" using assms unfolding getHealthyProviders_def set_filter by blast
    then show "f cid \<noteq> Inr True" by auto
  qed
  then show ?thesis by (simp add: runPinCheck_def)
qed

end
