(* ===== verification/Reminders.thy ===== *)
theory Reminders
  imports Claims_Db "HOL-Library.Multiset"
begin

text \<open>
  Deadlines of claims and policies: finalisation of claims past the vote (\<open>src/backend/src/claims/claim-deadline.processor.service.ts\<close>),
  reminders before the appeal window closes (\<open>claims/appeal-window-reminder.service.ts\<close>) and before a policy
  expires (\<open>policy/renewal-reminder.service.ts\<close>, \<open>renewal-reminder.job.ts\<close>), with the notification records of
  \<open>notifications/notifications.service.ts\<close>.

  What \<open>finalize_claim\<close> answers on the chain, and whether a write to the database succeeds, are arguments. The
  BullMQ queue is the list of the jobs it keeps; adding a job under an id it has is without effect.
\<close>

section \<open>Scanning a table by pages\<close>

text \<open>The loop of both reminder scans: rows with a key above the cursor, in the order of the keys, a page at a time.\<close>

definition page_after :: "nat \<Rightarrow> ('r \<Rightarrow> 'k::linorder) \<Rightarrow> 'r list \<Rightarrow> 'k option \<Rightarrow> 'r list" where
  "page_after n key rows cursor =
     take n (sort_key key (filter (\<lambda>r. case cursor of None \<Rightarrow> True | Some c \<Rightarrow> c < key r) rows))"

lemma page_after_last:
  assumes "page_after n key rows cursor \<noteq> []"
  shows "last (page_after n key rows cursor) \<in> set rows \<and> (\<forall>c. cursor = Some c \<longrightarrow> c < key (last (page_after n key rows cursor)))"
proof -
  have "last (page_after n key rows cursor) \<in> set (page_after n key rows cursor)" using assms by simp
  then have "last (page_after n key rows cursor) \<in> set (filter (\<lambda>r. case cursor of None \<Rightarrow> True | Some c \<Rightarrow> c < key r) rows)"
    unfolding page_after_def by (auto dest!: in_set_takeD)
  then show ?thesis by auto
qed

function scan_pages :: "nat \<Rightarrow> ('r \<Rightarrow> 'k::linorder) \<Rightarrow> 'r list \<Rightarrow> 'k option \<Rightarrow> 'r list list" where
  "scan_pages n key rows cursor =
     (let page = page_after n key rows cursor in
      if page = [] then []
      else if length page < n then [page]
      else page # scan_pages n key rows (Some (key (last page))))"
  by pat_completeness auto

termination
proof (relation "measure (\<lambda>(n, key, rows, cursor). length (filter (\<lambda>r. case cursor of None \<Rightarrow> True | Some c \<Rightarrow> c < key r) rows))")
  fix n key rows cursor page
  assume page: "page = page_after n key rows cursor" "page \<noteq> []"
  let ?q = "\<lambda>r. case cursor of None \<Rightarrow> True | Some c \<Rightarrow> c < key r"
  have l: "last page \<in> set rows" "?q (last page)" using page_after_last [of n key rows cursor] page by (auto split: option.split)
  have imp: "?q r" if "key (last page) < key r" for r using that l(2) by (auto split: option.splits)
  have "filter (\<lambda>r. key (last page) < key r) rows = filter (\<lambda>r. key (last page) < key r) (filter ?q rows)"
    using imp by (auto intro: filter_cong)
  moreover have "length (filter (\<lambda>r. key (last page) < key r) (filter ?q rows)) < length (filter ?q rows)"
    by (rule length_filter_less [of "last page"]) (use l in auto)
  ultimately show "((n, key, rows, Some (key (last page))), n, key, rows, cursor) \<in>
      measure (\<lambda>(n, key, rows, cursor). length (filter (\<lambda>r. case cursor of None \<Rightarrow> True | Some c \<Rightarrow> c < key r) rows))"
    by simp
qed simp

declare scan_pages.simps [simp del]

section \<open>Claims past the vote\<close>

record appeal_claim = claim_row +
  ac_appealOpenDeadlineLedger :: "int option"

definition CLAIM_VOTING_WINDOW_LEDGERS :: int where "CLAIM_VOTING_WINDOW_LEDGERS = 120960"
definition CLAIM_DEADLINE_BATCH_SIZE :: nat where "CLAIM_DEADLINE_BATCH_SIZE = 50"
definition APPEAL_OPEN_WINDOW_LEDGERS :: int where "APPEAL_OPEN_WINDOW_LEDGERS = 51840"

definition mapOnChainStatus :: "string \<Rightarrow> claim_status option" where
  "mapOnChainStatus status =
     (let normalized = to_lower status in
      if normalized = ''approved'' then Some APPROVED else if normalized = ''rejected'' then Some REJECTED else None)"

record finalize_result =
  fz_txHash :: string
  fz_ledger :: int
  fz_onChainStatus :: string

definition already_terminal :: "string \<Rightarrow> bool" where
  "already_terminal msg =
     (str_includes ''ClaimAlreadyTerminal'' msg \<or> str_includes ''CLAIM_ALREADY_TERMINAL'' msg \<or> str_includes ''already terminal'' (to_lower msg))"

text \<open>What the database and the chain do with one claim: the message of a failed call, or its result and the message when the
  update afterwards fails.\<close>

datatype finalize_reply = Chain_Fails string | Update_Fails finalize_result string | Both_Ok finalize_result

datatype process_outcome = Finalized | Skipped | Claim_Failed

definition finalize_row :: "finalize_result \<Rightarrow> appeal_claim \<Rightarrow> appeal_claim" where
  "finalize_row r c =
     (let dbStatus = mapOnChainStatus (fz_onChainStatus r);
          c1 = c\<lparr>cl_isFinalized := True, cl_updatedAtLedger := fz_ledger r, cl_txHash := Some (fz_txHash r)\<rparr>;
          c2 = (case dbStatus of None \<Rightarrow> c1 | Some s \<Rightarrow> c1\<lparr>cl_status := s\<rparr>)
      in if dbStatus = Some REJECTED then c2\<lparr>ac_appealOpenDeadlineLedger := Some (fz_ledger r + APPEAL_OPEN_WINDOW_LEDGERS)\<rparr> else c2)"

definition on_finalize_error :: "int \<Rightarrow> string \<Rightarrow> (int, appeal_claim) table \<Rightarrow> process_outcome \<times> (int, appeal_claim) table" where
  "on_finalize_error claimId msg t =
     (if already_terminal msg
      then (Skipped, updateMany (\<lambda>k c. k = claimId \<and> \<not> cl_isFinalized c) (\<lambda>c. c\<lparr>cl_isFinalized := True\<rparr>) t)
      else (Claim_Failed, t))"

definition processClaim :: "(int \<Rightarrow> finalize_reply) \<Rightarrow> int \<Rightarrow> (int, appeal_claim) table \<Rightarrow> process_outcome \<times> (int, appeal_claim) table" where
  "processClaim finalize claimId t =
     (case findUnique t claimId of
        None \<Rightarrow> (Skipped, t)
      | Some existing \<Rightarrow>
          if cl_isFinalized existing then (Skipped, t)
          else (case finalize claimId of
                  Both_Ok r \<Rightarrow> (Finalized, updateMany (\<lambda>k _. k = claimId) (finalize_row r) t)
                | Update_Fails r msg \<Rightarrow> on_finalize_error claimId msg t
                | Chain_Fails msg \<Rightarrow> on_finalize_error claimId msg t))"

definition vote_expired :: "int \<Rightarrow> appeal_claim \<Rightarrow> bool" where
  "vote_expired currentLedger c =
     (cl_status c = PENDING \<and> \<not> cl_isFinalized c \<and> \<not> cl_deleted c \<and> cl_createdAtLedger c \<le> currentLedger - CLAIM_VOTING_WINDOW_LEDGERS)"

definition deadline_batch :: "int \<Rightarrow> (int, appeal_claim) table \<Rightarrow> int list" where
  "deadline_batch currentLedger t =
     map fst (take CLAIM_DEADLINE_BATCH_SIZE (sort_key (\<lambda>(_, c). cl_createdAtLedger c) (findMany (\<lambda>_ c. vote_expired currentLedger c) t)))"

definition deadline_runScan :: "(int \<Rightarrow> finalize_reply) \<Rightarrow> int option \<Rightarrow> (int, appeal_claim) table \<Rightarrow> (int, appeal_claim) table" where
  "deadline_runScan finalize cursor t =
     (case cursor of
        None \<Rightarrow> t
      | Some currentLedger \<Rightarrow> foldl (\<lambda>t i. snd (processClaim finalize i t)) t (deadline_batch currentLedger t))"

section \<open>Notification records\<close>

record notification =
  nt_id :: nat
  nt_userId :: string
  nt_type :: string
  nt_claimId :: int
  nt_deadline :: int
  nt_acknowledgedAt :: "int option"
  nt_expiresAt :: "int option"

definition createNotificationRecord :: "int \<Rightarrow> string \<Rightarrow> string \<Rightarrow> int \<Rightarrow> int \<Rightarrow> int option \<Rightarrow> notification list \<Rightarrow> notification list" where
  "createNotificationRecord now userId ty claimId deadline ttlSeconds ns =
     ns @ [\<lparr>nt_id = length ns, nt_userId = userId, nt_type = ty, nt_claimId = claimId, nt_deadline = deadline,
       nt_acknowledgedAt = None,
       nt_expiresAt = (case ttlSeconds of None \<Rightarrow> None | Some s \<Rightarrow> if s = 0 then None else Some (now + s * 1000))\<rparr>]"

text \<open>\<open>None\<close> is the \<open>NotFoundException\<close>.\<close>

definition acknowledgeNotification :: "int \<Rightarrow> nat \<Rightarrow> string \<Rightarrow> notification list \<Rightarrow> notification list option" where
  "acknowledgeNotification now i userId ns =
     (case List.find (\<lambda>n. nt_id n = i) ns of
        None \<Rightarrow> None
      | Some n \<Rightarrow>
          if nt_userId n \<noteq> userId then None
          else if nt_acknowledgedAt n \<noteq> None then Some ns
          else Some (map (\<lambda>m. if nt_id m = i then m\<lparr>nt_acknowledgedAt := Some now\<rparr> else m) ns))"

section \<open>Appeal window reminders\<close>

definition APPEAL_WINDOW_SCAN_PAGE_SIZE :: nat where "APPEAL_WINDOW_SCAN_PAGE_SIZE = 200"
definition DEFAULT_APPEAL_WINDOW_REMINDER_LEDGERS :: int where "DEFAULT_APPEAL_WINDOW_REMINDER_LEDGERS = 17280"
definition APPEAL_WINDOW_NOTIFICATION_TYPE :: string where "APPEAL_WINDOW_NOTIFICATION_TYPE = ''appeal_window_closing''"
definition APPEAL_WINDOW_NOTIFICATION_TTL_SECONDS :: int where "APPEAL_WINDOW_NOTIFICATION_TTL_SECONDS = 7 * 24 * 60 * 60"

definition window_closing :: "int \<Rightarrow> int \<Rightarrow> appeal_claim \<Rightarrow> bool" where
  "window_closing lowerBound upperBound c =
     (cl_status c = REJECTED \<and> cl_appealsCount c = 0 \<and> \<not> cl_deleted c \<and>
      (case ac_appealOpenDeadlineLedger c of
         Some d \<Rightarrow> lowerBound \<le> d \<and> d \<le> upperBound
       | None \<Rightarrow> lowerBound - APPEAL_OPEN_WINDOW_LEDGERS \<le> cl_updatedAtLedger c \<and> cl_updatedAtLedger c \<le> upperBound - APPEAL_OPEN_WINDOW_LEDGERS))"

definition appeal_deadline_of :: "appeal_claim \<Rightarrow> int" where
  "appeal_deadline_of c =
     (case ac_appealOpenDeadlineLedger c of Some d \<Rightarrow> d | None \<Rightarrow> cl_updatedAtLedger c + APPEAL_OPEN_WINDOW_LEDGERS)"

definition hasPendingReminder :: "notification list \<Rightarrow> string \<Rightarrow> int \<Rightarrow> bool" where
  "hasPendingReminder ns userId claimId =
     list_ex (\<lambda>n. nt_userId n = userId \<and> nt_type n = APPEAL_WINDOW_NOTIFICATION_TYPE \<and> nt_acknowledgedAt n = None \<and> nt_claimId n = claimId) ns"

text \<open>The claims of the pages in turn. A record that cannot be written ends the scan, with what was written before.\<close>

fun remind_claims :: "int \<Rightarrow> (int \<Rightarrow> bool) \<Rightarrow> (int \<times> appeal_claim) list \<Rightarrow> notification list \<Rightarrow> notification list" where
  "remind_claims now canWrite [] ns = ns"
| "remind_claims now canWrite ((i, c) # cs) ns =
     (if hasPendingReminder ns (cl_creatorAddress c) i then remind_claims now canWrite cs ns
      else if \<not> canWrite i then ns
      else remind_claims now canWrite cs
             (createNotificationRecord now (cl_creatorAddress c) APPEAL_WINDOW_NOTIFICATION_TYPE i (appeal_deadline_of c)
               (Some APPEAL_WINDOW_NOTIFICATION_TTL_SECONDS) ns))"

definition appeal_runScan ::
  "bool \<Rightarrow> int \<Rightarrow> int \<Rightarrow> (int \<Rightarrow> bool) \<Rightarrow> int option \<Rightarrow> (int, appeal_claim) table \<Rightarrow> notification list \<Rightarrow> notification list" where
  "appeal_runScan disabled leadLedgers now canWrite cursor t ns =
     (if disabled \<or> cursor = None \<or> cursor = Some 0 then ns
      else let currentLedger = the cursor;
               eligible = findMany (\<lambda>_ c. window_closing (currentLedger + 1) (currentLedger + leadLedgers) c) t
           in remind_claims now canWrite (concat (scan_pages APPEAL_WINDOW_SCAN_PAGE_SIZE fst eligible None)) ns)"

section \<open>Renewal reminders\<close>

datatype reminder_type = Days7 | Day1

definition REMINDER_WINDOWS :: "(reminder_type \<times> int) list" where
  "REMINDER_WINDOWS = [(Days7, 120960), (Day1, 17280)]"

definition SCAN_PAGE_SIZE :: nat where "SCAN_PAGE_SIZE = 500"

record reminder_job =
  rj_policyDbId :: string
  rj_policyId :: int
  rj_holderAddress :: string
  rj_type :: reminder_type
  rj_endLedger :: int
  rj_currentLedger :: int

definition type_label :: "reminder_type \<Rightarrow> string" where
  "type_label ty = (case ty of Days7 \<Rightarrow> ''7d'' | Day1 \<Rightarrow> ''1d'')"

definition reminder_jobId :: "int \<Rightarrow> reminder_type \<Rightarrow> string" where
  "reminder_jobId policyId ty = ''renewal-reminder:'' @ show_int policyId @ '':'' @ type_label ty"

definition enqueueRenewalReminder :: "reminder_job \<Rightarrow> (string \<times> reminder_job) list \<Rightarrow> (string \<times> reminder_job) list" where
  "enqueueRenewalReminder data q =
     (let jobId = reminder_jobId (rj_policyId data) (rj_type data) in if jobId \<in> fst ` set q then q else q @ [(jobId, data)])"

definition in_reminder_window :: "int \<Rightarrow> int \<Rightarrow> policy_row \<Rightarrow> bool" where
  "in_reminder_window currentLedger ledgersBeforeExpiry p =
     (p_isActive p \<and> \<not> p_deleted p \<and> currentLedger + 1 \<le> p_endLedger p \<and> p_endLedger p \<le> currentLedger + ledgersBeforeExpiry)"

definition reminder_for :: "int \<Rightarrow> reminder_type \<Rightarrow> string \<times> policy_row \<Rightarrow> reminder_job" where
  "reminder_for currentLedger ty kp = \<lparr>rj_policyDbId = fst kp, rj_policyId = p_policyId (snd kp), rj_holderAddress = p_holderAddress (snd kp),
     rj_type = ty, rj_endLedger = p_endLedger (snd kp), rj_currentLedger = currentLedger\<rparr>"

text \<open>\<open>wants\<close>: some channel is enabled for the holder; \<open>rank\<close>: the order of the ids in the database.\<close>

definition scanWindow ::
  "(string \<Rightarrow> int) \<Rightarrow> (string \<Rightarrow> bool) \<Rightarrow> int \<Rightarrow> reminder_type \<Rightarrow> int \<Rightarrow> (string, policy_row) table \<Rightarrow> (string \<times> reminder_job) list \<Rightarrow> (string \<times> reminder_job) list" where
  "scanWindow rank wants currentLedger ty ledgersBeforeExpiry t q =
     foldl (\<lambda>q kp. if \<not> wants (p_holderAddress (snd kp)) then q else enqueueRenewalReminder (reminder_for currentLedger ty kp) q) q
       (concat (scan_pages SCAN_PAGE_SIZE (\<lambda>kp. rank (fst kp)) (findMany (\<lambda>_ p. in_reminder_window currentLedger ledgersBeforeExpiry p) t) None))"

definition renewal_runScan ::
  "(string \<Rightarrow> int) \<Rightarrow> (string \<Rightarrow> bool) \<Rightarrow> int option \<Rightarrow> (string, policy_row) table \<Rightarrow> (string \<times> reminder_job) list \<Rightarrow> (string \<times> reminder_job) list" where
  "renewal_runScan rank wants cursor t q =
     (if cursor = None \<or> cursor = Some 0 then q
      else foldl (\<lambda>q (ty, w). scanWindow rank wants (the cursor) ty w t q) q REMINDER_WINDOWS)"

section \<open>A scan visits every row once\<close>

lemma strict_sorted_above_last:
  assumes srt: "sorted_wrt (\<lambda>x y. key x < (key y :: 'k :: linorder)) S" and n: "take n S \<noteq> []"
  shows "filter (\<lambda>r. key (last (take n S)) < key r) S = drop n S"
proof -
  have split: "S = butlast (take n S) @ [last (take n S)] @ drop n S" using append_butlast_last_id [OF n] append_take_drop_id [of n S] by (metis append.assoc)
  have w: "sorted_wrt (\<lambda>x y. key x < key y) (butlast (take n S) @ [last (take n S)] @ drop n S)" using srt split by simp
  have "filter (\<lambda>r. key (last (take n S)) < key r) (butlast (take n S) @ [last (take n S)] @ drop n S) = drop n S"
    using w unfolding sorted_wrt_append by (auto simp: filter_empty_conv intro!: filter_True dest: less_asym')
  then show ?thesis by (simp only: split [symmetric])
qed

lemma strict_sort_key:
  assumes "distinct (map key rows)"
  shows "sorted_wrt (\<lambda>x y. key x < (key y :: 'k :: linorder)) (sort_key key rows)"
proof -
  have "distinct (map key (sort_key key rows))"
    using assms by (metis distinct_map distinct_sort set_sort)
  then have "sorted_wrt (<) (map key (sort_key key rows))"
    using sorted_sort_key [of key rows] by (simp add: strict_sorted_iff)
  then show ?thesis by (simp add: sorted_wrt_map)
qed

lemma scan_pages_concat:
  assumes "distinct (map key rows)" "0 < n"
  shows "concat (scan_pages n key rows cursor) =
         sort_key key (filter (\<lambda>r. case cursor of None \<Rightarrow> True | Some c \<Rightarrow> c < key r) rows)"
  using assms
proof (induction n key rows cursor rule: scan_pages.induct)
  case (1 n key rows cursor)
  let ?q = "\<lambda>r. case cursor of None \<Rightarrow> True | Some c \<Rightarrow> c < key r"
  define S where "S = sort_key key (filter ?q rows)"
  have page: "page_after n key rows cursor = take n S" by (simp add: page_after_def S_def)
  consider "take n S = []" | "take n S \<noteq> []" "length (take n S) < n" | "take n S \<noteq> []" "\<not> length (take n S) < n" by blast
  then show ?case
  proof cases
    case 1 then show ?thesis using \<open>0 < n\<close> page by (simp add: scan_pages.simps [of n key rows cursor] flip: S_def)
  next
    case 2 then show ?thesis using page by (auto simp: min_def scan_pages.simps [of n key rows cursor] simp flip: S_def split: if_splits)
  next
    case 3
    have strict: "sorted_wrt (\<lambda>x y. key x < key y) S"
      unfolding S_def by (rule strict_sort_key) (use \<open>distinct (map key rows)\<close> in \<open>simp add: distinct_map_filter\<close>)
    have q: "?q (last (take n S))" using page_after_last [of n key rows cursor] page 3(1) by (auto split: option.split)
    have "filter (\<lambda>r. key (last (take n S)) < key r) rows = filter (\<lambda>r. key (last (take n S)) < key r) (filter ?q rows)"
      using q by (auto intro!: filter_cong split: option.splits)
    then have "sort_key key (filter (\<lambda>r. key (last (take n S)) < key r) rows) = filter (\<lambda>r. key (last (take n S)) < key r) S"
      by (simp add: S_def filter_sort)
    also have "\<dots> = drop n S" by (rule strict_sorted_above_last [OF strict 3(1)])
    finally have rest: "sort_key key (filter (\<lambda>r. key (last (take n S)) < key r) rows) = drop n S" .
    have ih: "concat (scan_pages n key rows (Some (key (last (take n S))))) = drop n S"
      using "1.IH" [OF page [symmetric]] 3 "1.prems" rest by simp
    have "scan_pages n key rows cursor = take n S # scan_pages n key rows (Some (key (last (take n S))))"
      using 3 page by (simp add: scan_pages.simps [of n key rows cursor] Let_def del: take_eq_Nil)
    then show ?thesis using ih by (simp flip: S_def)
  qed
qed

lemma scan_pages_all:
  "distinct (map key rows) \<Longrightarrow> 0 < n \<Longrightarrow> concat (scan_pages n key rows None) = sort_key key rows"
  by (simp add: scan_pages_concat)

section \<open>Claims past the vote are finalised\<close>

text \<open>The claim is settled: finalised now, or found final on the chain.\<close>

definition settles :: "finalize_reply \<Rightarrow> bool" where
  "settles reply = (case reply of Both_Ok _ \<Rightarrow> True | Update_Fails _ msg \<Rightarrow> already_terminal msg | Chain_Fails msg \<Rightarrow> already_terminal msg)"

lemma finalize_row_final [simp]: "cl_isFinalized (finalize_row r c)"
  by (simp add: finalize_row_def Let_def split: option.split)

abbreviation expired_ids :: "int \<Rightarrow> (int, appeal_claim) table \<Rightarrow> int list" where
  "expired_ids L t \<equiv> map fst (findMany (\<lambda>_ c. vote_expired L c) t)"

lemma updateMany_keys [simp]: "map fst (updateMany p f t) = map fst t"
  by (simp add: updateMany_def split_def comp_def)

lemma processClaim_keys [simp]: "map fst (snd (processClaim fz i t)) = map fst t"
  by (auto simp: processClaim_def on_finalize_error_def split: option.split finalize_reply.split)

lemma expired_ids_updateMany:
  assumes "\<And>c. (i, c) \<in> set t \<Longrightarrow> vote_expired L c \<Longrightarrow> p i c" "\<And>k c. p k c \<Longrightarrow> k = i" "\<And>c. cl_isFinalized (f c)"
  shows "expired_ids L (updateMany p f t) = filter (\<lambda>k. k \<noteq> i) (expired_ids L t)"
  using assms(1)
proof (induction t)
  case (Cons kc t)
  have *: "expired_ids L (updateMany p f t) = filter (\<lambda>k. k \<noteq> i) (expired_ids L t)" by (rule Cons.IH) (use Cons.prems in auto)
  obtain k c where kc: "kc = (k, c)" by (cases kc)
  have "vote_expired L c \<and> k = i \<Longrightarrow> p k c" using Cons.prems kc by auto
  then show ?case using * assms(2,3) by (auto simp: kc findMany_def updateMany_def vote_expired_def)
qed (simp add: findMany_def updateMany_def)

lemma processClaim_settled:
  assumes "keys_unique t" "settles (fz i)"
  shows "expired_ids L (snd (processClaim fz i t)) = filter (\<lambda>k. k \<noteq> i) (expired_ids L t)"
proof -
  have none: "expired_ids L t = filter (\<lambda>k. k \<noteq> i) (expired_ids L t)" if "\<And>c. (i, c) \<in> set t \<Longrightarrow> \<not> vote_expired L c"
    by (rule sym, rule filter_True) (use that in \<open>auto simp: findMany_def\<close>)
  show ?thesis
  proof (cases "findUnique t i")
    case None
    then have "\<And>c. (i, c) \<notin> set t" by (simp add: findUnique_def map_of_eq_None_iff) (metis fst_conv imageI)
    then show ?thesis using None none by (simp add: processClaim_def)
  next
    case (Some c)
    then have only: "\<And>c'. (i, c') \<in> set t \<Longrightarrow> c' = c"
      using assms(1) by (simp add: findUnique_def keys_unique_def)
    show ?thesis
    proof (cases "cl_isFinalized c")
      case True
      then have "\<And>c'. (i, c') \<in> set t \<Longrightarrow> \<not> vote_expired L c'" using only by (auto simp: vote_expired_def)
      then show ?thesis using Some True none by (simp add: processClaim_def)
    next
      case False
      have terminal: "expired_ids L (snd (on_finalize_error i msg t)) = filter (\<lambda>k. k \<noteq> i) (expired_ids L t)" if "already_terminal msg" for msg
        unfolding on_finalize_error_def using that by (simp, intro expired_ids_updateMany) (auto simp: vote_expired_def)
      have ok: "expired_ids L (updateMany (\<lambda>k _. k = i) (finalize_row r) t) = filter (\<lambda>k. k \<noteq> i) (expired_ids L t)" for r
        by (rule expired_ids_updateMany) auto
      show ?thesis using Some False assms(2) terminal ok
        by (cases "fz i") (simp_all add: processClaim_def settles_def)
    qed
  qed
qed

lemma deadline_fold_settled:
  assumes "keys_unique t" "\<And>i. i \<in> set ids \<Longrightarrow> settles (fz i)"
  shows "expired_ids L (foldl (\<lambda>t i. snd (processClaim fz i t)) t ids) = filter (\<lambda>k. k \<notin> set ids) (expired_ids L t)"
  using assms
proof (induction ids arbitrary: t)
  case (Cons i ids)
  have "keys_unique (snd (processClaim fz i t))" using Cons.prems(1) by (simp add: keys_unique_def)
  then show ?case using Cons processClaim_settled [OF Cons.prems(1), of fz i L]
    by (simp add: conj_commute)
qed simp

lemma deadline_keys [simp]: "map fst (deadline_runScan fz cursor t) = map fst t"
proof -
  have "map fst (foldl (\<lambda>t i. snd (processClaim fz i t)) u ids) = map fst u" for u ids
    by (induction ids arbitrary: u) simp_all
  then show ?thesis by (simp add: deadline_runScan_def split: option.split)
qed

lemma filter_not_prefix: "distinct (xs @ ys) \<Longrightarrow> filter (\<lambda>k. k \<notin> set xs) (xs @ ys) = ys"
  by (auto simp: filter_empty_conv intro!: filter_True)

lemma deadline_scan_settled:
  assumes "keys_unique t" "\<And>i. settles (fz i)"
  shows "length (expired_ids L (deadline_runScan fz (Some L) t)) = length (expired_ids L t) - CLAIM_DEADLINE_BATCH_SIZE"
proof -
  let ?E = "findMany (\<lambda>_ c. vote_expired L c) t"
  let ?S = "sort_key (\<lambda>(_, c). cl_createdAtLedger c) ?E"
  have d: "distinct (map fst ?E)" using assms(1) by (simp add: keys_unique_def findMany_def distinct_map_filter)
  have m: "mset (map fst ?S) = mset (map fst ?E)" by (simp only: mset_map mset_sort)
  have dS: "distinct (map fst ?S)" using d m by (metis mset_eq_imp_distinct_iff)
  have sub: "map fst ?S = deadline_batch L t @ drop CLAIM_DEADLINE_BATCH_SIZE (map fst ?S)"
    by (simp add: deadline_batch_def flip: take_map)
  have "length (filter (\<lambda>k. k \<notin> set (deadline_batch L t)) (map fst ?E)) = length (filter (\<lambda>k. k \<notin> set (deadline_batch L t)) (map fst ?S))"
    using m by (metis mset_filter size_mset)
  also have "filter (\<lambda>k. k \<notin> set (deadline_batch L t)) (map fst ?S) = drop CLAIM_DEADLINE_BATCH_SIZE (map fst ?S)"
    using filter_not_prefix [of "deadline_batch L t" "drop CLAIM_DEADLINE_BATCH_SIZE (map fst ?S)"] dS unfolding sub [symmetric] by simp
  finally show ?thesis using deadline_fold_settled [of t "deadline_batch L t" fz L] assms
    by (simp add: deadline_runScan_def)
qed

text \<open>C9. A claim past its vote is finalised: while the chain settles what it is asked to (it finalises the claim or says that it is
  final already), k scans leave of n expired claims n - 50 k, at whatever ledgers the claims were filed. So the backlog of any one
  moment is empty after finitely many ticks.\<close>

theorem deadline_scans_drain:
  assumes "keys_unique t" "\<And>i. settles (fz i)"
  shows "length (findMany (\<lambda>_ c. vote_expired L c) ((deadline_runScan fz (Some L) ^^ k) t)) =
         length (findMany (\<lambda>_ c. vote_expired L c) t) - CLAIM_DEADLINE_BATCH_SIZE * k"
proof (induction k)
  case (Suc k)
  have "keys_unique ((deadline_runScan fz (Some L) ^^ k) t)"
    using assms(1) by (induction k) (simp_all add: keys_unique_def)
  from deadline_scan_settled [OF this assms(2), where L = L] Suc show ?case by simp
qed simp

definition sample_claim :: appeal_claim where
  "sample_claim = \<lparr>cl_policyId = ''GA:1'', cl_creatorAddress = ''GA'', cl_amount = ''5'', cl_asset = None, cl_description = [],
     cl_imageUrls = [], cl_status = PENDING, cl_isFinalized = False, cl_approveVotes = 1, cl_rejectVotes = 2, cl_paidAt = None,
     cl_createdAtLedger = 10, cl_updatedAtLedger = 10, cl_txHash = None, cl_deleted = False, cl_appealsCount = 0, cl_appealTxHash = None,
     ac_appealOpenDeadlineLedger = None\<rparr>"

definition sample_result :: finalize_result where
  "sample_result = \<lparr>fz_txHash = ''ab'', fz_ledger = 130000, fz_onChainStatus = ''Rejected''\<rparr>"

theorem deadline_scans_drain_witness:
  "length (findMany (\<lambda>_ c. vote_expired 120970 c) [(7::int, sample_claim)]) = 1 \<and>
   length (findMany (\<lambda>_ c. vote_expired 120970 c) ((deadline_runScan (\<lambda>_. Both_Ok sample_result) (Some 120970) ^^ 1) [(7, sample_claim)])) = 0"
proof
  show *: "length (findMany (\<lambda>_ c. vote_expired 120970 c) [(7::int, sample_claim)]) = 1"
    by (simp add: findMany_def vote_expired_def sample_claim_def CLAIM_VOTING_WINDOW_LEDGERS_def)
  show "length (findMany (\<lambda>_ c. vote_expired 120970 c) ((deadline_runScan (\<lambda>_. Both_Ok sample_result) (Some 120970) ^^ 1) [(7, sample_claim)])) = 0"
    using deadline_scans_drain [of "[(7, sample_claim)]" "\<lambda>_. Both_Ok sample_result" 120970 1] *
    by (simp add: keys_unique_def settles_def CLAIM_DEADLINE_BATCH_SIZE_def)
qed

text \<open>Claims that cannot be finalised are asked for again by every scan, the oldest first: fifty of them starve all others.\<close>

lemma stuck_batch_starves:
  assumes "\<And>i. i \<in> set (deadline_batch L t) \<Longrightarrow> \<exists>msg. fz i = Chain_Fails msg \<and> \<not> already_terminal msg"
  shows "(deadline_runScan fz (Some L) ^^ k) t = t"
proof -
  have "foldl (\<lambda>t i. snd (processClaim fz i t)) t ids = t"
    if "\<And>i. i \<in> set ids \<Longrightarrow> \<exists>msg. fz i = Chain_Fails msg \<and> \<not> already_terminal msg" for ids
    using that
  proof (induction ids)
    case (Cons i ids)
    obtain msg where "fz i = Chain_Fails msg" "\<not> already_terminal msg" using Cons.prems by force
    then have "snd (processClaim fz i t) = t" by (simp add: processClaim_def on_finalize_error_def split: option.split)
    then show ?case using Cons by simp
  qed simp
  from this [OF assms] have "deadline_runScan fz (Some L) t = t" by (simp add: deadline_runScan_def)
  then show ?thesis by (induction k) simp_all
qed

text \<open>A claim the chain calls final already, but of which the backend missed the outcome, stays PENDING and is never looked at again.\<close>

lemma already_terminal_stays_pending:
  assumes "findUnique t i = Some c" "cl_status c = PENDING" "\<not> cl_isFinalized c" "fz i = Chain_Fails msg" "already_terminal msg"
  shows "map_option (\<lambda>c. (cl_status c, cl_isFinalized c)) (findUnique (snd (processClaim fz i t)) i) = Some (PENDING, True)"
  using assms
  by (simp add: processClaim_def on_finalize_error_def findUnique_updateMany)

section \<open>Reminders are sent once\<close>

lemma hasPending_create [simp]:
  "hasPendingReminder (createNotificationRecord now u APPEAL_WINDOW_NOTIFICATION_TYPE i d ttl ns) u' i' =
   (hasPendingReminder ns u' i' \<or> u = u' \<and> i = i')"
  by (auto simp: hasPendingReminder_def createNotificationRecord_def)

lemma remind_keeps: "hasPendingReminder ns u i \<Longrightarrow> hasPendingReminder (remind_claims now w cs ns) u i"
  by (induction now w cs ns rule: remind_claims.induct) simp_all

lemma remind_done:
  assumes "\<And>i. w i"
  shows "(i, c) \<in> set cs \<Longrightarrow> hasPendingReminder (remind_claims now w cs ns) (cl_creatorAddress c) i"
  using assms
proof (induction now w cs ns rule: remind_claims.induct)
  case (2 now w j d cs ns)
  then show ?case by (auto intro: remind_keeps)
qed simp

lemma remind_nothing_new:
  assumes "\<And>i c. (i, c) \<in> set cs \<Longrightarrow> hasPendingReminder ns (cl_creatorAddress c) i"
  shows "remind_claims now w cs ns = ns"
  using assms by (induction now w cs ns rule: remind_claims.induct) auto

lemma remind_failure_aborts:
  assumes "\<not> hasPendingReminder ns (cl_creatorAddress c) i" "\<not> w i"
  shows "remind_claims now w ((i, c) # cs) ns = ns"
  using assms by simp

lemma appeal_scan_rows:
  assumes "keys_unique t" "L \<noteq> 0"
  shows "appeal_runScan False lead now w (Some L) t ns =
         remind_claims now w (sort_key fst (findMany (\<lambda>_ c. window_closing (L + 1) (L + lead) c) t)) ns"
proof -
  have "distinct (map fst (findMany (\<lambda>_ c. window_closing (L + 1) (L + lead) c) t))"
    using assms(1) by (simp add: keys_unique_def findMany_def distinct_map_filter)
  then show ?thesis using assms(2)
    by (simp add: appeal_runScan_def Let_def scan_pages_all APPEAL_WINDOW_SCAN_PAGE_SIZE_def)
qed

text \<open>From the rejection to the reminder: a claim that the deadline processor finalises as rejected at ledger L can be appealed until
  L + 51840, and the first reminder scan at a ledger of the last \<open>lead\<close> before that deadline leaves its creator with an unacknowledged
  reminder. A second scan at the same ledger adds no reminder for any claim.\<close>

theorem rejected_claim_is_reminded:
  assumes t: "keys_unique t" "findUnique t i = Some c" "\<not> cl_isFinalized c" "\<not> cl_deleted c" "cl_appealsCount c = 0"
    and fz: "fz i = Both_Ok r" "mapOnChainStatus (fz_onChainStatus r) = Some REJECTED"
    and L: "L \<noteq> 0" "fz_ledger r + APPEAL_OPEN_WINDOW_LEDGERS - lead \<le> L" "L < fz_ledger r + APPEAL_OPEN_WINDOW_LEDGERS"
    and w: "\<And>j. w j"
  shows "let t' = snd (processClaim fz i t); ns' = appeal_runScan False lead now w (Some L) t' ns in
         hasPendingReminder ns' (cl_creatorAddress c) i \<and> appeal_runScan False lead now2 w (Some L) t' ns' = ns'"
proof -
  define t' where "t' = snd (processClaim fz i t)"
  have t': "t' = updateMany (\<lambda>k _. k = i) (finalize_row r) t" using t fz by (simp add: t'_def processClaim_def)
  have u: "keys_unique t'" using t(1) by (simp add: t'_def keys_unique_def)
  let ?rows = "sort_key fst (findMany (\<lambda>_ c. window_closing (L + 1) (L + lead) c) t')"
  have mem: "(i, finalize_row r c) \<in> set t'"
    using t(2) unfolding t' updateMany_def findUnique_def by (force dest: map_of_SomeD)
  have "window_closing (L + 1) (L + lead) (finalize_row r c)" "cl_creatorAddress (finalize_row r c) = cl_creatorAddress c"
    using t fz L by (simp_all add: finalize_row_def Let_def window_closing_def)
  then have row: "(i, finalize_row r c) \<in> set ?rows" using mem by (simp add: findMany_def)
  have scan: "appeal_runScan False lead n w (Some L) t' m = remind_claims n w ?rows m" for n m
    by (rule appeal_scan_rows [OF u L(1)])
  have "hasPendingReminder (remind_claims now w ?rows ns) (cl_creatorAddress c) i"
    using remind_done [OF w row] by (simp add: \<open>cl_creatorAddress (finalize_row r c) = cl_creatorAddress c\<close>)
  moreover have "remind_claims now2 w ?rows (remind_claims now w ?rows ns) = remind_claims now w ?rows ns"
    by (rule remind_nothing_new) (rule remind_done [OF w])
  ultimately show ?thesis unfolding Let_def t'_def [symmetric] scan by simp
qed

theorem rejected_claim_is_reminded_witness:
  "let t' = snd (processClaim (\<lambda>_. Both_Ok sample_result) 7 [(7, sample_claim)]); ns' = appeal_runScan False 17280 5 (\<lambda>_. True) (Some 170000) t' [] in
   hasPendingReminder ns' ''GA'' 7 \<and> appeal_runScan False 17280 6 (\<lambda>_. True) (Some 170000) t' ns' = ns'"
proof -
  have "mapOnChainStatus (fz_onChainStatus sample_result) = Some REJECTED" by code_simp
  then show ?thesis
    using rejected_claim_is_reminded [of "[(7, sample_claim)]" 7 sample_claim "\<lambda>_. Both_Ok sample_result" sample_result 170000 17280
        "\<lambda>_. True" 5 "[]" 6]
    by (simp add: keys_unique_def findUnique_def sample_claim_def sample_result_def APPEAL_OPEN_WINDOW_LEDGERS_def Let_def)
qed

text \<open>Acknowledging a reminder ends the deduplication: the next scan sends the claimant another one.\<close>

lemma acknowledged_is_reminded_again:
  assumes "\<not> hasPendingReminder ns u i" "\<And>j. w j" "cl_creatorAddress c = u"
  shows "length (remind_claims now w [(i, c)] ns) = Suc (length ns)"
  using assms by (simp add: createNotificationRecord_def)

lemma acknowledge_other_user: "\<lbrakk>List.find (\<lambda>n. nt_id n = i) ns = Some n; nt_userId n \<noteq> u\<rbrakk> \<Longrightarrow> acknowledgeNotification now i u ns = None"
  by (simp add: acknowledgeNotification_def)

lemma acknowledge_idempotent:
  assumes "acknowledgeNotification now i u ns = Some ns'"
  shows "acknowledgeNotification now2 i u ns' = Some ns'"
proof -
  have find: "List.find (\<lambda>n. nt_id n = i) (map (\<lambda>m. if nt_id m = i then m\<lparr>nt_acknowledgedAt := Some now\<rparr> else m) ms) =
      map_option (\<lambda>m. m\<lparr>nt_acknowledgedAt := Some now\<rparr>) (List.find (\<lambda>n. nt_id n = i) ms)" for ms
    by (induction ms) auto
  show ?thesis using assms by (auto simp: acknowledgeNotification_def find split: option.splits if_splits)
qed

section \<open>Renewal reminders are per on-chain policy number\<close>

lemma enqueue_keeps: "set q \<subseteq> set (enqueueRenewalReminder d q)"
  by (auto simp: enqueueRenewalReminder_def Let_def)

lemma enqueue_once:
  assumes "distinct (map fst q)"
  shows "distinct (map fst (enqueueRenewalReminder d q))"
  using assms by (auto simp: enqueueRenewalReminder_def Let_def)

text \<open>The id of a job has the number of the policy but not its holder, although the table is keyed by both: of two holders whose policies
  have the same number, only the first found is reminded.\<close>

lemma same_number_one_reminder:
  assumes "rj_policyId d1 = rj_policyId d2" "rj_type d1 = rj_type d2"
  shows "enqueueRenewalReminder d2 (enqueueRenewalReminder d1 q) = enqueueRenewalReminder d1 q"
  using assms by (auto simp: enqueueRenewalReminder_def Let_def)

lemma scan_rows:
  assumes "keys_unique t" "inj rank"
  shows "scanWindow rank wants L ty w t q =
         foldl (\<lambda>q kp. if \<not> wants (p_holderAddress (snd kp)) then q else enqueueRenewalReminder (reminder_for L ty kp) q) q
           (sort_key (\<lambda>kp. rank (fst kp)) (findMany (\<lambda>_ p. in_reminder_window L w p) t))"
proof -
  let ?rows = "findMany (\<lambda>_ p. in_reminder_window L w p) t"
  have "distinct (map rank (map fst ?rows))"
    unfolding distinct_map [of rank]
    using assms by (simp add: keys_unique_def findMany_def distinct_map_filter inj_on_subset [of rank UNIV])
  then have "distinct (map (\<lambda>kp. rank (fst kp)) ?rows)" by (simp add: comp_def)
  then show ?thesis by (simp add: scanWindow_def scan_pages_all SCAN_PAGE_SIZE_def)
qed

end
