(* ===== verification/Soroban_Calls.thy ===== *)
theory Soroban_Calls
  imports Quotes Tx_Submit Event_Schema
begin

text \<open>
  The calls of the contract that the backend makes: \<open>src/backend/src/rpc/soroban.service.ts\<close>, with the evidence encoding of
  \<open>soroban/file-claim-evidence.ts\<close>, beside the entry points that \<open>contracts/niffyinsure/src/lib.rs\<close> declares.

  The RPC node and the Stellar SDK are the record \<open>node\<close>: what \<open>getAccount\<close>, \<open>simulateTransaction\<close>, \<open>sendTransaction\<close> and
  \<open>getTransaction\<close> answer, and what the SDK makes of a call and its simulation. A left value is the message of what is thrown.
\<close>

section \<open>The node\<close>

record sim_full = sim_success +
  sf_retval :: "jsval option"    \<comment> \<open>the return value after \<open>scValToNative\<close>\<close>

datatype poll_reply = Tx_Success int "jsval option" | Tx_Failed | Tx_Not_Found

record ('acc, 'tx) node =
  nd_getAccount :: "string \<Rightarrow> string + 'acc"
  nd_latestLedger :: "string + int"
  nd_call :: "'acc \<Rightarrow> string \<Rightarrow> string \<Rightarrow> sc_arg list \<Rightarrow> string + 'tx"    \<comment> \<open>account, contract, fname, arguments\<close>
  nd_simulate :: "'tx \<Rightarrow> string + (string + sim_full)"
  nd_assemble :: "'tx \<Rightarrow> sim_full \<Rightarrow> 'tx"
  nd_xdr :: "'tx \<Rightarrow> string"
  nd_keypair :: "string \<Rightarrow> string + unit"    \<comment> \<open>\<open>Keypair.fromSecret\<close>\<close>
  nd_sign :: "string \<Rightarrow> 'tx \<Rightarrow> 'tx"
  nd_send :: "'tx \<Rightarrow> string + (bool \<times> string)"    \<comment> \<open>the status is \<open>ERROR\<close>; the hash\<close>
  nd_poll :: "string \<Rightarrow> nat \<Rightarrow> string + poll_reply"    \<comment> \<open>the n-th \<open>getTransaction\<close>\<close>

record soroban_cfg =
  sc_contractId :: string
  sc_defaultToken :: string
  sc_keeperAccount :: "string option"
  sc_simulationAccount :: "string option"
  sc_keeperSecret :: "string option"
  sc_adminKey :: "string option"
  sc_adminKey2 :: "string option"
  sc_defaultQuorumBps :: int

text \<open>The exceptions: status 400 and 503 with code and message, anything else with its message.\<close>

datatype rpc_error = Bad_Request string string | Unavailable string string | Thrown string

definition thrown :: "string + 'a \<Rightarrow> rpc_error + 'a" where
  "thrown r = (case r of Inl msg \<Rightarrow> Inl (Thrown msg) | Inr a \<Rightarrow> Inr a)"

definition includes_any :: "string list \<Rightarrow> string \<Rightarrow> bool" where
  "includes_any ws s = list_ex (\<lambda>w. str_includes w s) ws"

definition account_missing :: "string \<Rightarrow> bool" where
  "account_missing msg = (str_includes ''404'' msg \<or> includes_any [''not found'', ''does not exist''] (to_lower msg))"

definition rpc_loadAccount :: "('acc, 'tx) node \<Rightarrow> string \<Rightarrow> rpc_error + 'acc" where
  "rpc_loadAccount nd publicKey =
     (case nd_getAccount nd publicKey of
        Inr account \<Rightarrow> Inr account
      | Inl msg \<Rightarrow>
          if account_missing msg
          then Inl (Bad_Request ''ACCOUNT_NOT_FOUND'' (''Account '' @ publicKey @ '' does not exist on this network. Fund it with at least 1 XLM (testnet: use Friendbot).''))
          else if includes_any [''network'', ''passphrase''] (to_lower msg)
          then Inl (Bad_Request ''WRONG_NETWORK'' ''The configured Soroban RPC is on a different network than expected. Check STELLAR_NETWORK_PASSPHRASE and SOROBAN_RPC_URL.'')
          else Inl (Unavailable ''RPC_UNAVAILABLE'' ''Could not reach the Soroban RPC endpoint. Try again shortly.''))"

definition rpc_mapSimulationError :: "string \<Rightarrow> rpc_error" where
  "rpc_mapSimulationError error =
     (if includes_any [''WasmVm'', ''non-existent'', ''InvalidAction''] error
      then Unavailable ''CONTRACT_NOT_DEPLOYED'' ''The smart contract function is not yet deployed on this network.''
      else if str_includes ''balance'' (to_lower error)
      then Bad_Request ''INSUFFICIENT_BALANCE'' ''The account does not have enough XLM to cover fees.''
      else Bad_Request ''SIMULATION_FAILED'' error)"

text \<open>\<open>/\bw\b/\<close> for a word \<open>w\<close>: an occurrence with no word character next to it.\<close>

definition word_char :: "char \<Rightarrow> bool" where
  "word_char c = (c = CHR ''_'' \<or> is_digit c \<or> (CHR ''A'' \<le> c \<and> c \<le> CHR ''Z'') \<or> (CHR ''a'' \<le> c \<and> c \<le> CHR ''z''))"

fun has_word :: "bool \<Rightarrow> string \<Rightarrow> string \<Rightarrow> bool" where
  "has_word inWord w [] = (\<not> inWord \<and> w = [])"
| "has_word inWord w (c # cs) =
     (\<not> inWord \<and> starts_with w (c # cs) \<and> (case drop (length w) (c # cs) of [] \<Rightarrow> True | d # _ \<Rightarrow> \<not> word_char d)
      \<or> has_word (word_char c) w cs)"

definition isPolicyBatchTooLargeSimulation :: "string \<Rightarrow> bool" where
  "isPolicyBatchTooLargeSimulation error = (includes_any [''policybatch'', ''policy_batch''] (to_lower error) \<or> has_word False ''50'' error)"

definition isClaimBatchTooLargeSimulation :: "string \<Rightarrow> bool" where
  "isClaimBatchTooLargeSimulation error = (includes_any [''claimbatch'', ''claim_batch''] (to_lower error) \<or> has_word False ''60'' error)"

text \<open>A simulation of one call; \<open>mapError\<close> is what the caller does with a reported error.\<close>

definition simulate_call ::
  "(string \<Rightarrow> rpc_error) \<Rightarrow> ('acc, 'tx) node \<Rightarrow> soroban_cfg \<Rightarrow> 'acc \<Rightarrow> string \<Rightarrow> sc_arg list \<Rightarrow> rpc_error + ('tx \<times> sim_full)" where
  "simulate_call mapError nd cfg account fname args =
     and_then (thrown (nd_call nd account (sc_contractId cfg) fname args)) (\<lambda>tx.
     and_then (thrown (nd_simulate nd tx)) (\<lambda>simulation.
       case simulation of Inl error \<Rightarrow> Inl (mapError error) | Inr sim \<Rightarrow> Inr (tx, sim)))"

section \<open>Unsigned transactions\<close>

record build_result =
  bl_unsignedXdr :: string
  bl_minResourceFee :: string
  bl_baseFee :: string
  bl_totalEstimatedFee :: string
  bl_totalEstimatedFeeXlm :: string
  bl_authRequirements :: "(string \<times> bool) list"
  bl_currentLedger :: int

definition BASE_FEE :: int where "BASE_FEE = 100"

definition auth_addresses :: "sim_full \<Rightarrow> (string \<times> bool) list" where
  "auth_addresses sim = List.map_filter id (ss_auth sim)"

definition with_signer :: "string \<Rightarrow> (string \<times> bool) list \<Rightarrow> (string \<times> bool) list" where
  "with_signer holder reqs = (if list_ex (\<lambda>r. fst r = holder) reqs then reqs else (holder, False) # reqs)"

definition assembled :: "('acc, 'tx) node \<Rightarrow> ((string \<times> bool) list \<Rightarrow> (string \<times> bool) list) \<Rightarrow> int \<Rightarrow> 'tx \<times> sim_full \<Rightarrow> rpc_error + build_result" where
  "assembled nd signers ledger txsim =
     (let sim = snd txsim; fee = (case ss_minResourceFee sim of Some f \<Rightarrow> f | None \<Rightarrow> ''0'') in
      case js_BigInt fee of
        None \<Rightarrow> Inl (Thrown ''Cannot convert to a BigInt'')
      | Some resourceFee \<Rightarrow> Inr \<lparr>bl_unsignedXdr = nd_xdr nd (nd_assemble nd (fst txsim) sim), bl_minResourceFee = fee,
          bl_baseFee = show_int BASE_FEE, bl_totalEstimatedFee = show_int (BASE_FEE + resourceFee),
          bl_totalEstimatedFeeXlm = stroopsToXlm (BASE_FEE + resourceFee), bl_authRequirements = signers (auth_addresses sim),
          bl_currentLedger = ledger\<rparr>)"

definition build_unsigned ::
  "('acc, 'tx) node \<Rightarrow> soroban_cfg \<Rightarrow> ((string \<times> bool) list \<Rightarrow> (string \<times> bool) list) \<Rightarrow> string \<Rightarrow> string \<Rightarrow> sc_arg list \<Rightarrow> rpc_error + build_result" where
  "build_unsigned nd cfg signers source fname args =
     and_then (rpc_loadAccount nd source) (\<lambda>account.
     and_then (thrown (nd_latestLedger nd)) (\<lambda>ledger.
     and_then (simulate_call rpc_mapSimulationError nd cfg account fname args) (\<lambda>txsim.
       assembled nd signers ledger txsim)))"

definition age_name :: "age_band \<Rightarrow> string" where
  "age_name b = (case b of Young \<Rightarrow> ''Young'' | Adult \<Rightarrow> ''Adult'' | Senior \<Rightarrow> ''Senior'')"

record initiate_args =
  ia_holder :: string
  ia_policyType :: policy_kind
  ia_region :: region_tier
  ia_ageBand :: age_band
  ia_coverageType :: coverage_tier
  ia_safetyScore :: int
  ia_baseAmount :: int
  ia_asset :: "string option"
  ia_beneficiary :: "string option"
  ia_deductible :: "int option"

definition initiate_scArgs :: "soroban_cfg \<Rightarrow> initiate_args \<Rightarrow> sc_arg list" where
  "initiate_scArgs cfg a =
     [ScAddress (ia_holder a), ScVariant (policy_name (ia_policyType a)), ScVariant (region_name (ia_region a)),
      ScVariant (age_name (ia_ageBand a)), ScVariant (coverage_name (ia_coverageType a)), ScU32 (ia_safetyScore a),
      ScI128 (ia_baseAmount a), ScAddress (case ia_asset a of Some x \<Rightarrow> x | None \<Rightarrow> sc_defaultToken cfg),
      (case ia_beneficiary a of None \<Rightarrow> ScVoid | Some b \<Rightarrow> if b = [] then ScVoid else ScOption (ScAddress b)),
      (case ia_deductible a of None \<Rightarrow> ScVoid | Some d \<Rightarrow> ScOption (ScI128 d))]"

definition buildInitiatePolicyTransaction :: "('acc, 'tx) node \<Rightarrow> soroban_cfg \<Rightarrow> initiate_args \<Rightarrow> rpc_error + build_result" where
  "buildInitiatePolicyTransaction nd cfg a =
     build_unsigned nd cfg (with_signer (ia_holder a)) (ia_holder a) ''initiate_policy'' (initiate_scArgs cfg a)"

text \<open>Evidence: a URL with the 64 hexadecimal digits of a SHA-256 digest.\<close>

record claim_evidence =
  ce_url :: string
  ce_contentSha256Hex :: string

fun hex_bytes :: "string \<Rightarrow> nat list" where
  "hex_bytes (a # b # cs) = (16 * hex_val a + hex_val b) # hex_bytes cs"
| "hex_bytes _ = []"

definition claimEvidenceEntryToScVal :: "claim_evidence \<Rightarrow> string + sc_arg" where
  "claimEvidenceEntryToScVal entry =
     (let hex = trim (ce_contentSha256Hex entry) in
      if length hex \<noteq> 64 \<or> \<not> list_all is_hex hex then Inl ''contentSha256Hex must be 64 hex characters''
      else if length (hex_bytes hex) \<noteq> 32 then Inl ''SHA-256 digest must be 32 bytes''
      else Inr (ScMap [(''url'', ScString (ce_url entry)), (''hash'', ScBytes (hex_bytes hex))]))"

fun claimEvidenceVecToScVal :: "claim_evidence list \<Rightarrow> string + sc_arg list" where
  "claimEvidenceVecToScVal [] = Inr []"
| "claimEvidenceVecToScVal (e # es) =
     and_then (claimEvidenceEntryToScVal e) (\<lambda>v. and_then (claimEvidenceVecToScVal es) (\<lambda>vs. Inr (v # vs)))"

definition contentMatchesSha256Commitment :: "(nat list \<Rightarrow> string) \<Rightarrow> nat list \<Rightarrow> string \<Rightarrow> bool" where
  "contentMatchesSha256Commitment sha256hex content contentSha256Hex =
     (let hex = to_lower (trim contentSha256Hex) in length hex = 64 \<and> list_all is_hex hex \<and> sha256hex content = hex)"

record file_claim_args =
  fc_holder :: string
  fc_policyId :: int
  fc_amount :: int
  fc_details :: string
  fc_evidence :: "claim_evidence list"

definition file_claim_scArgs :: "file_claim_args \<Rightarrow> sc_arg list \<Rightarrow> sc_arg list" where
  "file_claim_scArgs a evidence =
     [ScAddress (fc_holder a), ScU32 (fc_policyId a), ScI128 (fc_amount a), ScString (fc_details a), ScVec evidence]"

definition buildFileClaimTransaction :: "('acc, 'tx) node \<Rightarrow> soroban_cfg \<Rightarrow> file_claim_args \<Rightarrow> rpc_error + build_result" where
  "buildFileClaimTransaction nd cfg a =
     and_then (rpc_loadAccount nd (fc_holder a)) (\<lambda>account.
     and_then (thrown (nd_latestLedger nd)) (\<lambda>ledger.
     and_then (thrown (claimEvidenceVecToScVal (fc_evidence a))) (\<lambda>evidence.
     and_then (simulate_call rpc_mapSimulationError nd cfg account ''file_claim'' (file_claim_scArgs a evidence)) (\<lambda>txsim.
       assembled nd (with_signer (fc_holder a)) ledger txsim))))"

record renew_args =
  ra_holder :: string
  ra_policyId :: int
  ra_policyType :: policy_kind
  ra_region :: region_tier
  ra_age :: int
  ra_riskScore :: int
  ra_asset :: "string option"
  ra_newStartLedger :: int
  ra_newEndLedger :: int

definition renew_scArgs :: "soroban_cfg \<Rightarrow> renew_args \<Rightarrow> sc_arg list" where
  "renew_scArgs cfg a =
     [ScAddress (ra_holder a), ScU32 (ra_policyId a), ScVariant (policy_name (ra_policyType a)), ScVariant (region_name (ra_region a)),
      ScU32 (ra_age a), ScU32 (ra_riskScore a), ScU32 (ra_newStartLedger a), ScU32 (ra_newEndLedger a),
      ScAddress (case ra_asset a of Some x \<Rightarrow> x | None \<Rightarrow> sc_defaultToken cfg)]"

text \<open>\<open>premium\<close> is \<open>simulateGeneratePremium\<close>, which the quotes use too.\<close>

definition buildRenewPolicyTransaction ::
  "(sim_args \<Rightarrow> rpc_error + sim_result) \<Rightarrow> ('acc, 'tx) node \<Rightarrow> soroban_cfg \<Rightarrow> renew_args \<Rightarrow> rpc_error + (build_result \<times> sim_result)" where
  "buildRenewPolicyTransaction premium nd cfg a =
     and_then (rpc_loadAccount nd (ra_holder a)) (\<lambda>account.
     and_then (thrown (nd_latestLedger nd)) (\<lambda>ledger.
     and_then (premium \<lparr>sg_policyType = ra_policyType a, sg_region = ra_region a, sg_age = ra_age a, sg_riskScore = ra_riskScore a,
       sg_sourceAccount = ra_holder a\<rparr>) (\<lambda>premiumResult.
     and_then (simulate_call rpc_mapSimulationError nd cfg account ''renew_policy'' (renew_scArgs cfg a)) (\<lambda>txsim.
     and_then (assembled nd (with_signer (ra_holder a)) ledger txsim) (\<lambda>r. Inr (r, premiumResult))))))"

definition buildAppealTransaction :: "('acc, 'tx) node \<Rightarrow> soroban_cfg \<Rightarrow> string \<Rightarrow> int \<Rightarrow> string \<Rightarrow> rpc_error + build_result" where
  "buildAppealTransaction nd cfg claimant claimId reason =
     build_unsigned nd cfg (with_signer claimant) claimant ''file_appeal'' [ScAddress claimant, ScU64 claimId, ScString reason]"

definition buildBatchRegisterVotersTransaction :: "('acc, 'tx) node \<Rightarrow> soroban_cfg \<Rightarrow> string \<Rightarrow> string list \<Rightarrow> rpc_error + build_result" where
  "buildBatchRegisterVotersTransaction nd cfg admin voters =
     build_unsigned nd cfg id admin ''batch_register_voter'' [ScAddress admin, ScVec (map ScAddress voters)]"

definition buildRemoveVoterTransaction :: "('acc, 'tx) node \<Rightarrow> soroban_cfg \<Rightarrow> string \<Rightarrow> string \<Rightarrow> rpc_error + build_result" where
  "buildRemoveVoterTransaction nd cfg admin voter =
     build_unsigned nd cfg id admin ''remove_voter'' [ScAddress admin, ScAddress voter]"

definition buildSetQuorumBpsTransaction :: "('acc, 'tx) node \<Rightarrow> soroban_cfg \<Rightarrow> string \<Rightarrow> int \<Rightarrow> rpc_error + build_result" where
  "buildSetQuorumBpsTransaction nd cfg admin bps =
     build_unsigned nd cfg id admin ''admin_set_quorum_bps'' [ScAddress admin, ScU32 bps]"

definition buildAdminCallTransaction :: "('acc, 'tx) node \<Rightarrow> soroban_cfg \<Rightarrow> string \<Rightarrow> string \<Rightarrow> sc_arg list \<Rightarrow> rpc_error + build_result" where
  "buildAdminCallTransaction nd cfg admin fname scArgs = build_unsigned nd cfg id admin fname scArgs"

text \<open>\<open>buildSetAllowedAssetTransaction\<close> declares its transaction twice in one block; the second declaration repeats the first.\<close>

definition buildSetAllowedAssetTransaction ::
  "('acc, 'tx) node \<Rightarrow> soroban_cfg \<Rightarrow> string \<Rightarrow> string \<Rightarrow> bool \<Rightarrow> string option \<Rightarrow> int option \<Rightarrow> rpc_error + build_result" where
  "buildSetAllowedAssetTransaction nd cfg admin asset allowed symbol decimals =
     build_unsigned nd cfg id admin ''set_allowed_asset''
       [ScAddress asset, ScBool allowed, ScString (case symbol of None \<Rightarrow> [] | Some s \<Rightarrow> s), ScU32 (case decimals of None \<Rightarrow> 7 | Some d \<Rightarrow> d)]"

text \<open>The routes of \<open>admin/admin.controller.ts\<close> that pause the protocol and change its parameters, without their audit records.\<close>

definition pauseProtocol :: "('acc, 'tx) node \<Rightarrow> soroban_cfg \<Rightarrow> string \<Rightarrow> string \<Rightarrow> rpc_error + build_result" where
  "pauseProtocol nd cfg admin reason = buildAdminCallTransaction nd cfg admin ''pause'' [ScAddress admin, ScVariant reason]"

definition unpauseProtocol :: "('acc, 'tx) node \<Rightarrow> soroban_cfg \<Rightarrow> string \<Rightarrow> rpc_error + build_result" where
  "unpauseProtocol nd cfg admin = buildAdminCallTransaction nd cfg admin ''unpause'' [ScAddress admin]"

definition param_call :: "string \<Rightarrow> string \<Rightarrow> int option \<Rightarrow> (string \<times> string \<times> sc_arg list) list" where
  "param_call param fname v = (case v of None \<Rightarrow> [] | Some n \<Rightarrow> [(param, fname, [ScU32 n])])"

definition protocol_calls :: "int option \<Rightarrow> int option \<Rightarrow> int option \<Rightarrow> (string \<times> string \<times> sc_arg list) list" where
  "protocol_calls quorumBps votingDurationLedgers gracePeriodLedgers =
     param_call ''quorumBps'' ''admin_set_quorum_bps'' quorumBps @
     param_call ''votingDurationLedgers'' ''admin_set_vote_duration_ledgers'' votingDurationLedgers @
     param_call ''gracePeriodLedgers'' ''set_grace_period_ledgers'' gracePeriodLedgers"

fun build_params :: "('acc, 'tx) node \<Rightarrow> soroban_cfg \<Rightarrow> string \<Rightarrow> (string \<times> string \<times> sc_arg list) list \<Rightarrow> rpc_error + (string \<times> build_result) list" where
  "build_params nd cfg admin [] = Inr []"
| "build_params nd cfg admin ((param, fname, scArgs) # calls) =
     and_then (buildAdminCallTransaction nd cfg admin fname scArgs) (\<lambda>tx.
     and_then (build_params nd cfg admin calls) (\<lambda>txs. Inr ((param, tx) # txs)))"

definition updateProtocolParams ::
  "('acc, 'tx) node \<Rightarrow> soroban_cfg \<Rightarrow> string \<Rightarrow> int option \<Rightarrow> int option \<Rightarrow> int option \<Rightarrow> rpc_error + (string \<times> build_result) list" where
  "updateProtocolParams nd cfg admin quorumBps votingDurationLedgers gracePeriodLedgers =
     (let calls = protocol_calls quorumBps votingDurationLedgers gracePeriodLedgers in
      if calls = [] then Inl (Bad_Request [] ''At least one protocol parameter must be provided'') else build_params nd cfg admin calls)"

section \<open>Reads\<close>

definition POLICY_BATCH_GET_MAX :: nat where "POLICY_BATCH_GET_MAX = 20"
definition CLAIM_BATCH_GET_MAX :: nat where "CLAIM_BATCH_GET_MAX = 20"

definition encodePolicyLookupKey :: "string \<times> int \<Rightarrow> sc_arg" where
  "encodePolicyLookupKey k = ScMap [(''holder'', ScAddress (fst k)), (''policy_id'', ScU32 (snd k))]"

definition batch_entry :: "jsval \<Rightarrow> jsval" where
  "batch_entry entry = (case entry of JObj _ \<Rightarrow> entry | JArr _ \<Rightarrow> entry | _ \<Rightarrow> JNull)"

definition batch_rows :: "string \<Rightarrow> sim_full \<Rightarrow> rpc_error + jsval list" where
  "batch_rows fname sim =
     (case sf_retval sim of
        None \<Rightarrow> Inr []
      | Some (JArr entries) \<Rightarrow> Inr (map batch_entry entries)
      | Some _ \<Rightarrow> Inl (Bad_Request ''SIMULATION_DECODE_FAILED'' (fname @ '': unexpected return shape from simulation.'')))"

definition policy_batch_too_large :: rpc_error where
  "policy_batch_too_large = Bad_Request ''POLICY_BATCH_TOO_LARGE'' ''At most 20 (holder, policy_id) pairs per batch (on-chain POLICY_BATCH_GET_MAX).''"

definition claim_batch_too_large :: rpc_error where
  "claim_batch_too_large = Bad_Request ''CLAIM_BATCH_TOO_LARGE'' ''At most 20 claim IDs per batch (on-chain CLAIM_BATCH_GET_MAX).''"

definition simulateGetPoliciesBatch :: "('acc, 'tx) node \<Rightarrow> soroban_cfg \<Rightarrow> (string \<times> int) list \<Rightarrow> string option \<Rightarrow> rpc_error + jsval list" where
  "simulateGetPoliciesBatch nd cfg keys sourceAccount =
     (if sc_contractId cfg = []
      then Inl (Bad_Request ''CONTRACT_NOT_INITIALIZED'' ''CONTRACT_ID is not configured on the server; cannot simulate get_policies_batch.'')
      else if length keys > POLICY_BATCH_GET_MAX then Inl policy_batch_too_large
      else if keys = [] then Inr []
      else and_then (rpc_loadAccount nd (case sourceAccount of Some s \<Rightarrow> s | None \<Rightarrow> fst (hd keys))) (\<lambda>account.
           and_then (simulate_call (\<lambda>e. if isPolicyBatchTooLargeSimulation e then policy_batch_too_large else rpc_mapSimulationError e) nd cfg account
             ''get_policies_batch'' [ScVec (map encodePolicyLookupKey keys)]) (\<lambda>txsim. batch_rows ''get_policies_batch'' (snd txsim))))"

definition simulateGetClaimsBatch :: "('acc, 'tx) node \<Rightarrow> soroban_cfg \<Rightarrow> int list \<Rightarrow> string option \<Rightarrow> rpc_error + jsval list" where
  "simulateGetClaimsBatch nd cfg ids sourceAccount =
     (if sc_contractId cfg = []
      then Inl (Bad_Request ''CONTRACT_NOT_INITIALIZED'' ''CONTRACT_ID is not configured on the server; cannot simulate get_claims_batch.'')
      else if length ids > CLAIM_BATCH_GET_MAX then Inl claim_batch_too_large
      else if ids = [] then Inr []
      else case sourceAccount of
             Some (s # ss) \<Rightarrow>
               and_then (rpc_loadAccount nd (s # ss)) (\<lambda>account.
               and_then (simulate_call (\<lambda>e. if isClaimBatchTooLargeSimulation e then claim_batch_too_large else rpc_mapSimulationError e) nd cfg account
                 ''get_claims_batch'' [ScVec (map ScU64 ids)]) (\<lambda>txsim. batch_rows ''get_claims_batch'' (snd txsim)))
           | _ \<Rightarrow> Inl (Bad_Request ''SOURCE_ACCOUNT_REQUIRED'' ''source_account is required when simulating a non-empty claim batch.''))"

definition to_BigInt :: "jsval \<Rightarrow> rpc_error + int" where
  "to_BigInt v = (case v of JBig i \<Rightarrow> Inr i
     | _ \<Rightarrow> (case js_BigInt (js_String v) of Some i \<Rightarrow> Inr i | None \<Rightarrow> Inl (Thrown ''Cannot convert to a BigInt'')))"

definition simulateGetTreasuryBalance :: "('acc, 'tx) node \<Rightarrow> soroban_cfg \<Rightarrow> string \<Rightarrow> rpc_error + (string \<times> string)" where
  "simulateGetTreasuryBalance nd cfg sourceAccount =
     (if sc_contractId cfg = [] then Inl (Bad_Request ''CONTRACT_NOT_CONFIGURED'' ''CONTRACT_ID is not set.'')
      else and_then (rpc_loadAccount nd sourceAccount) (\<lambda>account.
           and_then (simulate_call rpc_mapSimulationError nd cfg account ''get_treasury_balance'' []) (\<lambda>(tx, sim).
           and_then (case sf_retval sim of None \<Rightarrow> Inr 0 | Some v \<Rightarrow> to_BigInt v) (\<lambda>balance.
             Inr (show_int balance, case ss_minResourceFee sim of Some f \<Rightarrow> f | None \<Rightarrow> ''0'')))))"

definition to_Number :: "jsval \<Rightarrow> jnum" where
  "to_Number v = (case v of JNum x \<Rightarrow> x | JBig i \<Rightarrow> Fin i | JBool b \<Rightarrow> Fin (if b then 1 else 0) | JNull \<Rightarrow> Fin 0
     | JUndef \<Rightarrow> NaN | JStr s \<Rightarrow> js_Number s | _ \<Rightarrow> js_Number (js_String v))"

definition simulateReadU32 :: "('acc, 'tx) node \<Rightarrow> soroban_cfg \<Rightarrow> string \<Rightarrow> string \<Rightarrow> rpc_error + jnum" where
  "simulateReadU32 nd cfg sourceAccount fname =
     and_then (rpc_loadAccount nd sourceAccount) (\<lambda>account.
     and_then (simulate_call (Bad_Request ''SIMULATION_FAILED'') nd cfg account fname []) (\<lambda>(tx, sim).
       case sf_retval sim of
         None \<Rightarrow> Inl (Bad_Request ''SIMULATION_EMPTY'' ''Empty simulation result'')
       | Some v \<Rightarrow> Inr (to_Number v)))"

definition simulateGetVotingDuration :: "('acc, 'tx) node \<Rightarrow> soroban_cfg \<Rightarrow> string \<Rightarrow> rpc_error + jnum" where
  "simulateGetVotingDuration nd cfg sourceAccount =
     and_then (rpc_loadAccount nd sourceAccount) (\<lambda>account.
     and_then (simulate_call (Bad_Request ''SIMULATION_FAILED'') nd cfg account ''get_voting_duration_ledgers'' []) (\<lambda>(tx, sim).
       case sf_retval sim of
         None \<Rightarrow> Inl (Bad_Request ''SIMULATION_EMPTY'' ''Empty simulation result'')
       | Some v \<Rightarrow> Inr (to_Number v)))"

definition simulateGetEvidenceLimits :: "('acc, 'tx) node \<Rightarrow> soroban_cfg \<Rightarrow> string \<Rightarrow> rpc_error + (jnum \<times> jnum)" where
  "simulateGetEvidenceLimits nd cfg sourceAccount =
     and_then (simulateReadU32 nd cfg sourceAccount ''get_min_evidence_count'') (\<lambda>lo.
     and_then (simulateReadU32 nd cfg sourceAccount ''get_max_evidence_count'') (\<lambda>hi. Inr (lo, hi)))"

definition nonempty :: "string option \<Rightarrow> string option" where
  "nonempty s = (case s of Some (c # cs) \<Rightarrow> Some (c # cs) | _ \<Rightarrow> None)"

definition simulateGetQuorumBps :: "('acc, 'tx) node \<Rightarrow> soroban_cfg \<Rightarrow> rpc_error + jnum" where
  "simulateGetQuorumBps nd cfg =
     (let dflt = Fin (sc_defaultQuorumBps cfg) in
      if sc_contractId cfg = [] then Inr dflt
      else (case nonempty (case sc_simulationAccount cfg of Some a \<Rightarrow> Some a | None \<Rightarrow> sc_adminKey cfg) of
              None \<Rightarrow> Inr dflt
            | Some source \<Rightarrow>
                and_then (rpc_loadAccount nd source) (\<lambda>account.
                and_then (thrown (nd_call nd account (sc_contractId cfg) ''get_quorum_bps'' [])) (\<lambda>tx.
                and_then (thrown (nd_simulate nd tx)) (\<lambda>simulation.
                  Inr (case simulation of
                         Inl _ \<Rightarrow> dflt
                       | Inr sim \<Rightarrow> (case sf_retval sim of None \<Rightarrow> dflt | Some v \<Rightarrow> to_Number v)))))))"

text \<open>The override event is only simulated, never submitted.\<close>

definition tryEmitClaimStatusOverrideEvent ::
  "('acc, 'tx) node \<Rightarrow> soroban_cfg \<Rightarrow> string option \<Rightarrow> int \<Rightarrow> string \<Rightarrow> string \<Rightarrow> string \<Rightarrow> string \<Rightarrow> rpc_error + unit" where
  "tryEmitClaimStatusOverrideEvent nd cfg sourceAccount claimId oldStatus newStatus reason actor =
     (case nonempty (case sourceAccount of Some s \<Rightarrow> Some s | None \<Rightarrow> (case sc_adminKey cfg of Some s \<Rightarrow> Some s | None \<Rightarrow> sc_adminKey2 cfg)) of
        None \<Rightarrow> Inl (Bad_Request ''ADMIN_SOURCE_ACCOUNT_REQUIRED'' ''No admin source account configured for Soroban override event emission.'')
      | Some source \<Rightarrow>
          and_then (rpc_loadAccount nd source) (\<lambda>account.
          and_then (simulate_call (Bad_Request ''OVERRIDE_EVENT_SIMULATION_FAILED'') nd cfg account ''admin_emit_claim_status_override''
            [ScU64 claimId, ScString oldStatus, ScString newStatus, ScString reason, ScString actor]) (\<lambda>_. Inr ())))"

section \<open>Transactions the keeper signs\<close>

record keeper_result =
  kr_txHash :: string
  kr_ledger :: int
  kr_onChainStatus :: string

definition status_text :: "jsval \<Rightarrow> string" where
  "status_text native =
     (case native of JObj kvs \<Rightarrow> (case map_of kvs ''tag'' of Some t \<Rightarrow> js_String t | None \<Rightarrow> js_String native) | _ \<Rightarrow> js_String native)"

text \<open>The polls of \<open>finalize_*\<close>: up to 30, a second apart. \<open>None\<close> is a run without an answer.\<close>

fun poll_until :: "(nat \<Rightarrow> string + poll_reply) \<Rightarrow> nat \<Rightarrow> nat \<Rightarrow> rpc_error \<Rightarrow> rpc_error + (int \<times> jsval option) option" where
  "poll_until reply attempt 0 failed = Inr None"
| "poll_until reply attempt (Suc n) failed =
     (case reply attempt of
        Inl msg \<Rightarrow> Inl (Thrown msg)
      | Inr (Tx_Success ledger retval) \<Rightarrow> Inr (Some (ledger, retval))
      | Inr Tx_Failed \<Rightarrow> Inl failed
      | Inr Tx_Not_Found \<Rightarrow> poll_until reply (Suc attempt) n failed)"

definition POLL_ATTEMPTS :: nat where "POLL_ATTEMPTS = 30"

text \<open>What the keeper sends is the first component: at most one transaction.\<close>

definition keeper_send ::
  "('acc, 'tx) node \<Rightarrow> rpc_error \<Rightarrow> (string \<Rightarrow> rpc_error + 'r) \<Rightarrow> 'tx \<Rightarrow> 'tx list \<times> (rpc_error + 'r)" where
  "keeper_send nd rejected confirm tx =
     ([tx], and_then (thrown (nd_send nd tx)) (\<lambda>(isError, hash). if isError then Inl rejected else confirm hash))"

definition keeper_source :: "soroban_cfg \<Rightarrow> string option" where
  "keeper_source cfg = (case nonempty (sc_keeperAccount cfg) of Some a \<Rightarrow> Some a | None \<Rightarrow> nonempty (sc_simulationAccount cfg))"

definition keeper_invoke ::
  "(string \<Rightarrow> rpc_error) \<Rightarrow> ('acc, 'tx) node \<Rightarrow> soroban_cfg \<Rightarrow> string \<Rightarrow> string \<Rightarrow> string \<Rightarrow> sc_arg list \<Rightarrow> rpc_error \<Rightarrow>
   (string \<Rightarrow> rpc_error + 'r) \<Rightarrow> 'tx list \<times> (rpc_error + 'r)" where
  "keeper_invoke mapError nd cfg source secret fname args rejected confirm =
     (case and_then (rpc_loadAccount nd source) (\<lambda>account.
           and_then (simulate_call mapError nd cfg account fname args) (\<lambda>(tx, sim).
           and_then (thrown (nd_keypair nd secret)) (\<lambda>_. Inr (nd_sign nd secret (nd_assemble nd tx sim))))) of
        Inl e \<Rightarrow> ([], Inl e)
      | Inr signed \<Rightarrow> keeper_send nd rejected confirm signed)"

definition keeper_not_configured :: rpc_error where
  "keeper_not_configured = Unavailable ''KEEPER_NOT_CONFIGURED'' ''Claim keeper is not configured (CLAIM_KEEPER_SOURCE_ACCOUNT / CLAIM_KEEPER_SECRET_KEY).''"

definition confirm_final :: "('acc, 'tx) node \<Rightarrow> string \<Rightarrow> string \<Rightarrow> string \<Rightarrow> rpc_error + keeper_result" where
  "confirm_final nd fname code hash =
     and_then (poll_until (nd_poll nd hash) 0 POLL_ATTEMPTS (Bad_Request (code @ ''_FAILED'') (fname @ '' transaction failed on-chain.''))) (\<lambda>found.
       let ledger = (case found of None \<Rightarrow> 0 | Some (l, _) \<Rightarrow> l);
           onChainStatus = (case found of Some (_, Some v) \<Rightarrow> status_text v | _ \<Rightarrow> ''Unknown'')
       in if ledger = 0
          then Inl (Unavailable (code @ ''_TIMEOUT'') (''Timed out waiting for '' @ fname @ '' confirmation (hash='' @ hash @ '').''))
          else Inr \<lparr>kr_txHash = hash, kr_ledger = ledger, kr_onChainStatus = onChainStatus\<rparr>)"

definition keeper_finalize ::
  "('acc, 'tx) node \<Rightarrow> soroban_cfg \<Rightarrow> string \<Rightarrow> string \<Rightarrow> string \<Rightarrow> int \<Rightarrow> 'tx list \<times> (rpc_error + keeper_result)" where
  "keeper_finalize nd cfg fname code plural claimId =
     (if sc_contractId cfg = []
      then ([], Inl (Bad_Request ''CONTRACT_NOT_INITIALIZED'' (''CONTRACT_ID is not configured; cannot finalize '' @ plural @ ''.'')))
      else case (keeper_source cfg, nonempty (sc_keeperSecret cfg)) of
             (Some source, Some secret) \<Rightarrow>
               keeper_invoke rpc_mapSimulationError nd cfg source secret fname [ScU64 claimId]
                 (Bad_Request (code @ ''_REJECTED'') (fname @ '' transaction was rejected by the network.''))
                 (confirm_final nd fname code)
           | _ \<Rightarrow> ([], Inl keeper_not_configured))"

definition finalizeClaim :: "('acc, 'tx) node \<Rightarrow> soroban_cfg \<Rightarrow> int \<Rightarrow> 'tx list \<times> (rpc_error + keeper_result)" where
  "finalizeClaim nd cfg claimId = keeper_finalize nd cfg ''finalize_claim'' ''FINALIZE_CLAIM'' ''claims'' claimId"

definition finalizeAppeal :: "('acc, 'tx) node \<Rightarrow> soroban_cfg \<Rightarrow> int \<Rightarrow> 'tx list \<times> (rpc_error + keeper_result)" where
  "finalizeAppeal nd cfg claimId = keeper_finalize nd cfg ''finalize_appeal'' ''FINALIZE_APPEAL'' ''appeals'' claimId"

definition confirm_processed :: "('acc, 'tx) node \<Rightarrow> string \<Rightarrow> rpc_error + keeper_result" where
  "confirm_processed nd hash =
     and_then (poll_until (nd_poll nd hash) 0 POLL_ATTEMPTS
       (Bad_Request ''PROCESS_EXPIRED_POLICIES_FAILED'' ''process_expired_policies transaction failed on-chain.'')) (\<lambda>found.
       case found of
         None \<Rightarrow> Inl (Unavailable ''PROCESS_EXPIRED_POLICIES_TIMEOUT''
           (''Timed out waiting for process_expired_policies confirmation (hash='' @ hash @ '').''))
       | Some (ledger, _) \<Rightarrow> Inr \<lparr>kr_txHash = hash, kr_ledger = ledger, kr_onChainStatus = ''Processed''\<rparr>)"

definition processExpiredPolicies :: "('acc, 'tx) node \<Rightarrow> soroban_cfg \<Rightarrow> int \<Rightarrow> 'tx list \<times> (rpc_error + keeper_result)" where
  "processExpiredPolicies nd cfg lim =
     (case (nonempty (Some (sc_contractId cfg)), keeper_source cfg, nonempty (sc_keeperSecret cfg)) of
        (Some _, Some source, Some secret) \<Rightarrow>
          keeper_invoke rpc_mapSimulationError nd cfg source secret ''process_expired_policies'' [ScU32 lim]
            (Bad_Request ''PROCESS_EXPIRED_POLICIES_REJECTED'' ''process_expired_policies transaction was rejected by the network.'')
            (confirm_processed nd)
      | _ \<Rightarrow> ([], Inl (Unavailable ''KEEPER_NOT_CONFIGURED''
          ''Keeper is not configured (CONTRACT_ID / CLAIM_KEEPER_SOURCE_ACCOUNT / CLAIM_KEEPER_SECRET_KEY).'')))"

text \<open>\<open>submitKeeperTx\<close> polls until the transaction is found or the deadline has passed: \<open>late n\<close> tells whether it has before the
  n-th repetition. Fifteen repetitions wait 30 seconds, so at most that many are made.\<close>

fun await_found :: "(nat \<Rightarrow> string + poll_reply) \<Rightarrow> (nat \<Rightarrow> bool) \<Rightarrow> nat \<Rightarrow> nat \<Rightarrow> string + poll_reply" where
  "await_found reply late k 0 = reply k"
| "await_found reply late k (Suc n) =
     (case reply k of
        Inr Tx_Not_Found \<Rightarrow> if late k then Inr Tx_Not_Found else await_found reply late (Suc k) n
      | r \<Rightarrow> r)"

definition submitKeeperTx ::
  "(nat \<Rightarrow> bool) \<Rightarrow> ('acc, 'tx) node \<Rightarrow> soroban_cfg \<Rightarrow> string \<Rightarrow> sc_arg list \<Rightarrow> 'tx list \<times> (rpc_error + (string \<times> int))" where
  "submitKeeperTx late nd cfg fname args =
     (case (nonempty (sc_keeperAccount cfg), nonempty (sc_keeperSecret cfg)) of
        (Some source, Some secret) \<Rightarrow> (case nd_keypair nd secret of Inl msg \<Rightarrow> ([], Inl (Thrown msg)) | Inr _ \<Rightarrow>
          keeper_invoke (Bad_Request ''SIMULATION_FAILED'') nd cfg source secret fname args (Bad_Request ''TX_SEND_FAILED'' [])
            (\<lambda>hash. and_then (thrown (await_found (nd_poll nd hash) late 0 15)) (\<lambda>p.
               case p of
                 Tx_Success ledger _ \<Rightarrow> Inr (hash, ledger)
               | Tx_Failed \<Rightarrow> Inl (Bad_Request ''TX_FAILED'' (fname @ '' transaction status: FAILED''))
               | Tx_Not_Found \<Rightarrow> Inl (Bad_Request ''TX_FAILED'' (fname @ '' transaction status: NOT_FOUND'')))))
      | _ \<Rightarrow> ([], Inl (Bad_Request ''KEEPER_NOT_CONFIGURED'' (''Keeper account not configured ('' @ fname @ '')''))))"

definition invokeAdminSetEvidenceLimits ::
  "(nat \<Rightarrow> bool) \<Rightarrow> ('acc, 'tx) node \<Rightarrow> soroban_cfg \<Rightarrow> int \<Rightarrow> int \<Rightarrow> 'tx list \<times> (rpc_error + (string \<times> int))" where
  "invokeAdminSetEvidenceLimits late nd cfg lo hi =
     (case submitKeeperTx late nd cfg ''admin_set_min_evidence_count'' [ScU32 lo] of
        (sent, Inl e) \<Rightarrow> (sent, Inl e)
      | (sent, Inr _) \<Rightarrow>
          (let (sent2, r) = submitKeeperTx late nd cfg ''admin_set_max_evidence_count'' [ScU32 hi] in (sent @ sent2, r)))"

definition invokeAdminSetVotingDuration ::
  "(nat \<Rightarrow> bool) \<Rightarrow> ('acc, 'tx) node \<Rightarrow> soroban_cfg \<Rightarrow> int \<Rightarrow> 'tx list \<times> (rpc_error + (string \<times> int))" where
  "invokeAdminSetVotingDuration late nd cfg ledgers = submitKeeperTx late nd cfg ''admin_set_vote_duration_ledgers'' [ScU32 ledgers]"

section \<open>Submission behind the circuit breaker\<close>

text \<open>
  What happens to one submission: the envelope does not decode, the node's answer (status \<open>ERROR\<close> or a hash), an exception of
  \<open>sendTransaction\<close>, or a breaker that does not run the call or does not wait for it. \<open>opened\<close>: the breaker is open afterwards.
\<close>

datatype submit_fate = Bad_Envelope | Node_Answer bool string | Send_Throws | Not_Run

record submit_event =
  se_fate :: submit_fate
  se_opened :: bool

record pending_submission =
  ps_transactionXdr :: string
  ps_timestamp :: int

datatype submit_reply = Sent_Ok string | Queued_For_Retry

definition submitFn :: "submit_fate \<Rightarrow> rpc_error + submit_reply" where
  "submitFn fate =
     (let failed = Unavailable ''SUBMISSION_FAILED'' ''Failed to submit transaction to the network.'' in
      case fate of
        Bad_Envelope \<Rightarrow> Inl (Thrown ''invalid envelope'')
      | Not_Run \<Rightarrow> Inl (Thrown ''Breaker is open'')
      | Send_Throws \<Rightarrow> Inl failed
      | Node_Answer isError hash \<Rightarrow> if isError then Inl failed else Inr (Sent_Ok hash))"

definition rpc_submitTransaction ::
  "submit_event \<Rightarrow> int \<Rightarrow> string \<Rightarrow> pending_submission list \<Rightarrow> (rpc_error + submit_reply) \<times> pending_submission list" where
  "rpc_submitTransaction ev now xdr queue =
     (case submitFn (se_fate ev) of
        Inr r \<Rightarrow> (Inr r, queue)
      | Inl e \<Rightarrow> if se_opened ev then (Inr Queued_For_Retry, queue @ [\<lparr>ps_transactionXdr = xdr, ps_timestamp = now\<rparr>]) else (Inl e, queue))"

fun drain_pending :: "(pending_submission \<Rightarrow> submit_event) \<Rightarrow> int \<Rightarrow> pending_submission list \<Rightarrow> pending_submission list \<Rightarrow> pending_submission list" where
  "drain_pending ev now [] queue = queue"
| "drain_pending ev now (s # ss) queue =
     (case rpc_submitTransaction (ev s) now (ps_transactionXdr s) queue of
        (Inr _, queue') \<Rightarrow> drain_pending ev now ss queue'
      | (Inl _, queue') \<Rightarrow> drain_pending ev now ss (queue' @ [s]))"

definition processPendingSubmissions ::
  "bool \<Rightarrow> (pending_submission \<Rightarrow> submit_event) \<Rightarrow> int \<Rightarrow> pending_submission list \<Rightarrow> pending_submission list" where
  "processPendingSubmissions opened ev now queue = (if queue = [] \<or> opened then queue else drain_pending ev now queue [])"

section \<open>The entry points of the contract\<close>

text \<open>The parameters of an entry point after \<open>env\<close>. Types of the contract itself (structures, enumerations) are \<open>P_Udt\<close>.\<close>

datatype param = P_Address | P_U32 | P_U64 | P_I128 | P_Bool | P_String | P_Bytes | P_Vec | P_Udt | P_Option param

definition contract_functions :: "(string \<times> param list) list" where
  "contract_functions =
     [(''initialize'', [P_Address, P_Address]), (''get_admin'', []), (''version'', []), (''get_contract_version'', []),
      (''get_contract_metadata'', []), (''get_wasm_hash'', []), (''get_treasury_balance'', []),
      (''get_protocol_fee_bps'', []), (''get_fee_recipient'', []), (''get_min_solvency_ratio_bps'', []),
      (''check_solvency_ratio'', [P_I128]), (''generate_premium'', [P_Udt, P_I128, P_Bool]),
      (''generate_premium_for_asset'', [P_Udt, P_I128, P_Bool, P_Address]), (''quote_error_message'', [P_U32]),
      (''update_multiplier_table'', [P_Udt]), (''admin_set_premium_multiplier'', [P_Udt, P_I128]),
      (''get_multiplier_table'', []), (''set_allowed_asset'', [P_Address, P_Bool, P_String, P_U32]),
      (''is_allowed_asset'', [P_Address]), (''file_claim'', [P_Address, P_U32, P_I128, P_String, P_Vec, P_Option P_U64]),
      (''withdraw_claim'', [P_Address, P_U64]), (''add_claim_evidence'', [P_Address, P_U64, P_Vec]),
      (''vote_on_claim'', [P_Address, P_U64, P_Udt]), (''set_commit_reveal_phases'', [P_U64, P_U32, P_U32]),
      (''commit_vote'', [P_Address, P_U64, P_Bytes]), (''reveal_vote'', [P_Address, P_U64, P_Udt, P_Bytes]),
      (''delegate_vote'', [P_Address, P_Address, P_U32]), (''get_vote_delegation'', [P_Address]),
      (''refresh_snapshot'', [P_U64]), (''finalize_claim'', [P_U64]), (''process_deadline'', [P_U64]),
      (''finalize_expired_batch'', [P_Vec]), (''process_payout_timeout'', [P_U64]), (''get_claim_history'', [P_U64]),
      (''get_vote_duration_ledgers'', []), (''admin_set_vote_duration_ledgers'', [P_U32]), (''get_quorum_bps'', []),
      (''get_claim_quorum_bps'', [P_U64]), (''admin_set_quorum_bps'', [P_U32]), (''admin_set_protocol_fee_bps'', [P_U32]),
      (''admin_set_fee_recipient'', [P_Address]), (''admin_set_min_solvency_ratio_bps'', [P_U32]),
      (''set_grace_period_ledgers'', [P_U32]), (''get_grace_period_ledgers'', []), (''process_claim'', [P_U64]),
      (''disburse_installment'', [P_U64, P_I128]), (''admin_dispute_claim'', [P_U64]), (''escalate_claim'', [P_U64, P_U32]),
      (''open_appeal'', [P_Address, P_U64]), (''vote_on_appeal'', [P_Address, P_U64, P_Udt]),
      (''finalize_appeal'', [P_U64]), (''get_claim'', [P_U64]), (''get_claims_batch'', [P_Vec]),
      (''get_claim_counter'', []), (''list_claims'', [P_U64, P_U32]), (''admin_set_claim_filing_fee'', [P_I128]),
      (''get_claim_filing_fee'', []), (''get_policy_counter'', [P_Address]), (''has_policy'', [P_Address, P_U32]),
      (''get_voters'', []), (''create_proposal'', [P_Address, P_String, P_U32]),
      (''vote_proposal'', [P_Address, P_U64, P_Bool]), (''get_proposal'', [P_U64]),
      (''finalize_governance_proposal'', [P_U64]), (''admin_set_proposer_cooldown'', [P_U32]),
      (''get_proposer_cooldown'', []), (''voter_registry_len'', []), (''voter_registry_contains'', [P_Address]),
      (''admin_remove_voter'', [P_Address]), (''holder_active_policy_count'', [P_Address]),
      (''set_calculator'', [P_Address]), (''set_calculator_with_version'', [P_Address, P_U32]), (''clear_calculator'', []),
      (''get_calculator'', []), (''get_expected_calc_version'', []), (''get_last_calc_abi_version'', []),
      (''upsert_region'', [P_String, P_Udt]), (''remove_region'', [P_String]), (''admin_set_region'', [P_String, P_Udt]),
      (''admin_remove_region'', [P_String]), (''get_region_config'', [P_String]),
      (''record_treatment'', [P_Address, P_U64]), (''get_treatment_count'', [P_U64]),
      (''admin_set_vet_specializations'', [P_Address, P_Vec]), (''get_vet_specializations'', [P_Address]),
      (''assert_vet_qualified'', [P_Address, P_Udt]),
      (''register_subscription'', [P_Address, P_Vec, P_Vec, P_U32, P_Address]), (''get_subscription'', [P_U64]),
      (''cancel_subscription'', [P_Address, P_U64]), (''list_subscriptions'', [P_Address]),
      (''initiate_policy'', [P_Address, P_Udt, P_Udt, P_Udt, P_Udt, P_U32, P_I128, P_Address, P_Udt]),
      (''set_beneficiary'', [P_Address, P_U32, P_Option P_Address]),
      (''admin_update_policy_metadata_uri'', [P_Address, P_U32, P_String]), (''get_policy'', [P_Address, P_U32]),
      (''get_policies_batch'', [P_Vec]), (''list_policies'', [P_Address, P_U32, P_U32]),
      (''get_active_policy_count'', [P_Address]), (''get_inactive_policies'', [P_Address, P_U32, P_U32]),
      (''get_policies_by_status'', [P_Udt, P_U32, P_U32]), (''get_nonce'', [P_Address]),
      (''get_pol_exp_evt_end_ledger'', [P_Address, P_U32]), (''process_expired'', [P_Address, P_Vec]),
      (''renew_policy'', [P_Address, P_U32, P_Udt, P_Udt, P_U32, P_Option P_Udt, P_Option P_I128]),
      (''terminate_policy'', [P_Address, P_U32, P_Udt]), (''transfer_policy'', [P_Address, P_U32, P_Address]),
      (''admin_terminate_policy'', [P_Address, P_Address, P_U32, P_Udt, P_Bool]), (''propose_admin'', [P_Address]),
      (''accept_admin'', []), (''cancel_admin'', []), (''cancel_admin_proposal'', []), (''set_pause_admin'', [P_Address]),
      (''get_pause_admin'', []), (''set_treasury_admin'', [P_Address]), (''get_treasury_admin'', []),
      (''set_param_admin'', [P_Address]), (''get_param_admin'', []), (''propose_admin_action'', [P_Udt]),
      (''confirm_admin_action'', [P_Address]), (''cancel_admin_action'', []), (''set_token'', [P_Address]),
      (''set_treasury'', [P_Address]), (''drain'', [P_Address, P_I128]),
      (''sweep_token'', [P_Address, P_Address, P_I128, P_U32]), (''set_sweep_cap'', [P_Option P_I128]),
      (''get_sweep_cap'', []), (''set_sweep_notice_period'', [P_U32]), (''get_sweep_notice_period'', []),
      (''admin_set_gov_cooldown_ledgers'', [P_U32]), (''get_governance_cooldown_ledgers'', []),
      (''get_ledger_close_time_estimate'', []), (''estimate_close_time'', [P_U32]),
      (''admin_set_ledger_close_secs'', [P_U32]), (''admin_set_max_sweep_per_ledger'', [P_I128]),
      (''get_max_sweep_per_ledger'', []), (''admin_set_max_evidence_count'', [P_U32]), (''get_max_evidence_count'', []),
      (''admin_set_min_evidence_count'', [P_U32]), (''get_min_evidence_count'', []),
      (''admin_set_max_weight_cap'', [P_I128]), (''get_max_weight_cap'', []), (''admin_set_cooldown_ledgers'', [P_U32]),
      (''get_cooldown_ledgers'', []), (''admin_set_max_appeals_per_claim'', [P_U32]), (''get_max_appeals_per_claim'', []),
      (''admin_set_gateway_allowlist'', [P_Vec]), (''get_gateway_allowlist'', []),
      (''admin_set_asset_premium_table'', [P_Address, P_Option P_Udt]), (''get_asset_premium_table'', [P_Address]),
      (''admin_register_policy_type'', [P_Udt, P_Udt]), (''admin_deregister_policy_type'', [P_Udt]),
      (''is_policy_type_active'', [P_Udt]), (''get_policy_type_config'', [P_Udt]), (''pause'', [P_Address, P_Udt]),
      (''unpause'', [P_Address]), (''pause_bind'', [P_Address, P_Udt]), (''pause_claims'', [P_Address, P_Udt]),
      (''is_paused'', []), (''get_pause_flags'', []), (''get_pause_reason'', []), (''get_rolling_claim_cap'', []),
      (''get_rolling_claim_window_ledgers'', []), (''get_rolling_claim_remaining'', [P_Address, P_U32]),
      (''get_rolling_claim_state'', [P_Address, P_U32]), (''set_rolling_claim_cap'', [P_I128]),
      (''set_rolling_claim_window_ledgers'', [P_U32]), (''set_claim_fraud_score'', [P_Address, P_U64, P_U32]),
      (''get_claim_fraud_score'', [P_U64]), (''admin_set_fraud_score_threshold'', [P_U32]),
      (''admin_set_elevated_quorum_bps'', [P_U32]), (''admin_set_min_coverage_amount'', [P_I128]),
      (''get_min_coverage_amount'', []), (''admin_set_max_voters_per_claim'', [P_U32]), (''get_max_voters_per_claim'', []),
      (''add_voters_batch'', [P_Vec]), (''admin_set_asset_decimals'', [P_Address, P_U32]),
      (''get_asset_decimals'', [P_Address]), (''get_max_claim_description_bytes'', []),
      (''admin_set_asset_claim_bounds'', [P_Address, P_I128, P_I128]), (''get_asset_claim_bounds'', [P_Address]),
      (''grant_delegation'', [P_Address, P_U32, P_Udt]), (''revoke_delegation'', [P_Address]),
      (''get_delegation'', [P_Address]), (''list_active_delegated_scopes'', [P_Address, P_U32, P_U32]),
      (''admin_set_reinsurance_contract'', [P_Address]), (''admin_clear_reinsurance_contract'', []),
      (''get_reinsurance_contract'', []), (''admin_set_whitelist_enabled'', [P_Bool]), (''get_whitelist_enabled'', []),
      (''admin_add_to_whitelist'', [P_Address]), (''admin_remove_from_whitelist'', [P_Address]),
      (''is_whitelisted'', [P_Address]), (''is_authorized_depositor'', [P_Address]),
      (''set_authorized_depositor'', [P_Address, P_Bool]), (''deposit_treasury'', [P_Address, P_I128, P_Address]),
      (''get_ledger_treasury_balance'', [P_Address]), (''get_reserved_coverage'', [P_Address]),
      (''get_total_premiums'', [P_Address]), (''get_total_paid'', [P_Address]),
      (''admin_sweep'', [P_Address, P_Address, P_I128]), (''is_allowed_payout_recipient'', [P_Address]),
      (''set_allowed_payout_recipient'', [P_Address, P_Bool]), (''bump_policy_ttl'', [P_Address, P_U32]),
      (''bump_holder_all_policies_ttl'', [P_Address]), (''bump_claim_ttl'', [P_U64]),
      (''get_policy_ttl_info'', [P_Address, P_U32]), (''get_claim_ttl_info'', [P_U64]),
      (''is_policy_ttl_near_expiry'', [P_Address, P_U32]), (''set_ttl_alert_threshold'', [P_U32]),
      (''get_ttl_alert_threshold'', [])]"


text \<open>Whether an argument can be one of a parameter. A structure is passed as a map, a variant as a vector of its symbol; what is
  inside vectors and structures is not looked at.\<close>

primrec fits :: "param \<Rightarrow> sc_arg \<Rightarrow> bool" where
  "fits P_Address a = (case a of ScAddress _ \<Rightarrow> True | _ \<Rightarrow> False)"
| "fits P_U32 a = (case a of ScU32 _ \<Rightarrow> True | _ \<Rightarrow> False)"
| "fits P_U64 a = (case a of ScU64 _ \<Rightarrow> True | _ \<Rightarrow> False)"
| "fits P_I128 a = (case a of ScI128 _ \<Rightarrow> True | _ \<Rightarrow> False)"
| "fits P_Bool a = (case a of ScBool _ \<Rightarrow> True | _ \<Rightarrow> False)"
| "fits P_String a = (case a of ScString _ \<Rightarrow> True | _ \<Rightarrow> False)"
| "fits P_Bytes a = (case a of ScBytes _ \<Rightarrow> True | _ \<Rightarrow> False)"
| "fits P_Vec a = (case a of ScVec _ \<Rightarrow> True | _ \<Rightarrow> False)"
| "fits P_Udt a = (case a of ScVariant _ \<Rightarrow> True | ScMap _ \<Rightarrow> True | ScU32 _ \<Rightarrow> True | _ \<Rightarrow> False)"
| "fits (P_Option p) a = (case a of ScVoid \<Rightarrow> True | ScOption b \<Rightarrow> fits p b | _ \<Rightarrow> fits p a)"

definition accepts :: "string \<Rightarrow> sc_arg list \<Rightarrow> bool" where
  "accepts fname args = (case map_of contract_functions fname of None \<Rightarrow> False | Some ps \<Rightarrow> list_all2 fits ps args)"

text \<open>
  The calls of the contract that the sources of the backend make: those of \<open>rpc/soroban.service.ts\<close>, the ones that
  \<open>admin/admin.controller.ts\<close> passes to it (pausing, and the three protocol parameters, of which the voting duration is the call
  of \<open>Op_set_vote_duration\<close>), the one that \<open>tx/tx.service.ts\<close> builds and the two of \<open>governance/governance.service.ts\<close>.
  \<open>soroban/soroban.client.ts\<close>, which only tests import, is left out.
\<close>

datatype contract_op =
    Op_generate_premium sim_args | Op_initiate_policy initiate_args | Op_file_claim file_claim_args "sc_arg list" | Op_renew_policy renew_args
  | Op_file_appeal string int string | Op_register_voters string "string list" | Op_remove_voter string string | Op_set_quorum string int
  | Op_tx_build string build_dto int | Op_override int string string string string | Op_process_expired int | Op_voting_duration
  | Op_policies_batch "(string \<times> int) list" | Op_claims_batch "int list" | Op_treasury_balance | Op_finalize_claim int | Op_finalize_appeal int
  | Op_min_evidence | Op_max_evidence | Op_set_min_evidence int | Op_set_max_evidence int | Op_set_vote_duration int | Op_quorum
  | Op_pause string string | Op_unpause string | Op_param_quorum int | Op_grace_period int | Op_allowed_asset string bool string int
  | Op_vote_delegation string | Op_delegate_vote string string int

fun op_call :: "soroban_cfg \<Rightarrow> contract_op \<Rightarrow> string \<times> sc_arg list" where
  "op_call cfg (Op_generate_premium a) = (''generate_premium'',
     [ScVariant (policy_name (sg_policyType a)), ScVariant (region_name (sg_region a)), ScU32 (sg_age a), ScU32 (sg_riskScore a)])"
| "op_call cfg (Op_initiate_policy a) = (''initiate_policy'', initiate_scArgs cfg a)"
| "op_call cfg (Op_file_claim a evidence) = (''file_claim'', file_claim_scArgs a evidence)"
| "op_call cfg (Op_renew_policy a) = (''renew_policy'', renew_scArgs cfg a)"
| "op_call cfg (Op_file_appeal claimant claimId reason) = (''file_appeal'', [ScAddress claimant, ScU64 claimId, ScString reason])"
| "op_call cfg (Op_register_voters admin voters) = (''batch_register_voter'', [ScAddress admin, ScVec (map ScAddress voters)])"
| "op_call cfg (Op_remove_voter admin voter) = (''remove_voter'', [ScAddress admin, ScAddress voter])"
| "op_call cfg (Op_set_quorum admin bps) = (''admin_set_quorum_bps'', [ScAddress admin, ScU32 bps])"
| "op_call cfg (Op_tx_build defaultAsset dto ledger) =
     (''initiate_policy'', case buildScArgs defaultAsset dto ledger of Inr args \<Rightarrow> args | Inl _ \<Rightarrow> [])"
| "op_call cfg (Op_override claimId oldStatus newStatus reason actor) = (''admin_emit_claim_status_override'',
     [ScU64 claimId, ScString oldStatus, ScString newStatus, ScString reason, ScString actor])"
| "op_call cfg (Op_process_expired lim) = (''process_expired_policies'', [ScU32 lim])"
| "op_call cfg Op_voting_duration = (''get_voting_duration_ledgers'', [])"
| "op_call cfg (Op_policies_batch keys) = (''get_policies_batch'', [ScVec (map encodePolicyLookupKey keys)])"
| "op_call cfg (Op_claims_batch ids) = (''get_claims_batch'', [ScVec (map ScU64 ids)])"
| "op_call cfg Op_treasury_balance = (''get_treasury_balance'', [])"
| "op_call cfg (Op_finalize_claim i) = (''finalize_claim'', [ScU64 i])"
| "op_call cfg (Op_finalize_appeal i) = (''finalize_appeal'', [ScU64 i])"
| "op_call cfg Op_min_evidence = (''get_min_evidence_count'', [])"
| "op_call cfg Op_max_evidence = (''get_max_evidence_count'', [])"
| "op_call cfg (Op_set_min_evidence n) = (''admin_set_min_evidence_count'', [ScU32 n])"
| "op_call cfg (Op_set_max_evidence n) = (''admin_set_max_evidence_count'', [ScU32 n])"
| "op_call cfg (Op_set_vote_duration n) = (''admin_set_vote_duration_ledgers'', [ScU32 n])"
| "op_call cfg Op_quorum = (''get_quorum_bps'', [])"
| "op_call cfg (Op_pause admin reason) = (''pause'', [ScAddress admin, ScVariant reason])"
| "op_call cfg (Op_unpause admin) = (''unpause'', [ScAddress admin])"
| "op_call cfg (Op_param_quorum n) = (''admin_set_quorum_bps'', [ScU32 n])"
| "op_call cfg (Op_grace_period n) = (''set_grace_period_ledgers'', [ScU32 n])"
| "op_call cfg (Op_allowed_asset asset allowed symbol decimals) = (''set_allowed_asset'', [ScAddress asset, ScBool allowed, ScString symbol, ScU32 decimals])"
| "op_call cfg (Op_vote_delegation delegator) = (''get_vote_delegation'', [ScAddress delegator])"
| "op_call cfg (Op_delegate_vote delegator delegate expiry) = (''delegate_vote'', [ScAddress delegator, ScAddress delegate, ScU32 expiry])"

text \<open>The calls that name no entry point of the contract or one with other parameters.\<close>

fun foreign_call :: "contract_op \<Rightarrow> bool" where
  "foreign_call (Op_generate_premium _) = True"
| "foreign_call (Op_initiate_policy _) = True"
| "foreign_call (Op_file_claim _ _) = True"
| "foreign_call (Op_renew_policy _) = True"
| "foreign_call (Op_file_appeal _ _ _) = True"
| "foreign_call (Op_register_voters _ _) = True"
| "foreign_call (Op_remove_voter _ _) = True"
| "foreign_call (Op_set_quorum _ _) = True"
| "foreign_call (Op_tx_build _ _ _) = True"
| "foreign_call (Op_override _ _ _ _ _) = True"
| "foreign_call (Op_process_expired _) = True"
| "foreign_call Op_voting_duration = True"
| "foreign_call _ = False"

lemma contract_declares:
  "map_of contract_functions ''generate_premium'' = Some [P_Udt, P_I128, P_Bool]"
  "map_of contract_functions ''initiate_policy'' = Some [P_Address, P_Udt, P_Udt, P_Udt, P_Udt, P_U32, P_I128, P_Address, P_Udt]"
  "map_of contract_functions ''file_claim'' = Some [P_Address, P_U32, P_I128, P_String, P_Vec, P_Option P_U64]"
  "map_of contract_functions ''renew_policy'' = Some [P_Address, P_U32, P_Udt, P_Udt, P_U32, P_Option P_Udt, P_Option P_I128]"
  "map_of contract_functions ''admin_set_quorum_bps'' = Some [P_U32]"
  "map_of contract_functions ''get_policies_batch'' = Some [P_Vec]"
  "map_of contract_functions ''get_claims_batch'' = Some [P_Vec]"
  "map_of contract_functions ''get_treasury_balance'' = Some []"
  "map_of contract_functions ''finalize_claim'' = Some [P_U64]"
  "map_of contract_functions ''finalize_appeal'' = Some [P_U64]"
  "map_of contract_functions ''get_min_evidence_count'' = Some []"
  "map_of contract_functions ''get_max_evidence_count'' = Some []"
  "map_of contract_functions ''admin_set_min_evidence_count'' = Some [P_U32]"
  "map_of contract_functions ''admin_set_max_evidence_count'' = Some [P_U32]"
  "map_of contract_functions ''admin_set_vote_duration_ledgers'' = Some [P_U32]"
  "map_of contract_functions ''get_quorum_bps'' = Some []"
  by code_simp+

lemma contract_declares_admin:
  "map_of contract_functions ''pause'' = Some [P_Address, P_Udt]"
  "map_of contract_functions ''unpause'' = Some [P_Address]"
  "map_of contract_functions ''set_grace_period_ledgers'' = Some [P_U32]"
  "map_of contract_functions ''set_allowed_asset'' = Some [P_Address, P_Bool, P_String, P_U32]"
  "map_of contract_functions ''get_vote_delegation'' = Some [P_Address]"
  "map_of contract_functions ''delegate_vote'' = Some [P_Address, P_Address, P_U32]"
  by code_simp+

lemma contract_lacks:
  "map_of contract_functions ''file_appeal'' = None"
  "map_of contract_functions ''batch_register_voter'' = None"
  "map_of contract_functions ''remove_voter'' = None"
  "map_of contract_functions ''admin_emit_claim_status_override'' = None"
  "map_of contract_functions ''process_expired_policies'' = None"
  "map_of contract_functions ''get_voting_duration_ledgers'' = None"
  by code_simp+


text \<open>C2. Of the calls of the contract that the sources of the backend make, the contract has an entry point that takes the
  arguments for all but twelve. It takes eighteen: batch reads, treasury balance, quorum, evidence limits and their setters, the setters of
  voting duration, grace period and, through the route of the protocol parameters, of the quorum, pausing and unpausing, the asset
  allowlist, vote delegation and its reading, and the two finalisations. The twelve of \<open>foreign_call\<close> name no entry point of the contract or one
  with other parameters: quoting, buying (in both services) and renewing a policy, filing a claim or an appeal, registering and
  removing voters, the quorum setter of the governance route, expiring policies, reading the voting duration, recording an override.\<close>

theorem contract_serves:
  "accepts (fst (op_call cfg op)) (snd (op_call cfg op)) \<longleftrightarrow> \<not> foreign_call op"
proof (cases op)
  case (Op_tx_build defaultAsset dto ledger)
  then show ?thesis
    by (auto simp: accepts_def contract_declares contract_declares_admin buildScArgs_def Let_def list_all2_Cons1 split: sum.split option.split)
qed (simp_all add: accepts_def contract_declares contract_declares_admin contract_lacks initiate_scArgs_def file_claim_scArgs_def renew_scArgs_def split: option.split)

section \<open>What cannot be built\<close>

text \<open>A node that runs the contract: it does not simulate successfully what the contract has no entry point for.\<close>

definition runs_contract :: "('acc, 'tx) node \<Rightarrow> bool" where
  "runs_contract nd \<longleftrightarrow> (\<forall>account cid fname args tx sim. nd_call nd account cid fname args = Inr tx \<longrightarrow> nd_simulate nd tx = Inr (Inr sim) \<longrightarrow> accepts fname args)"

lemma thrown_Inr [simp]: "thrown r = Inr a \<longleftrightarrow> r = Inr a"
  by (cases r) (simp_all add: thrown_def)

lemma simulate_call_ok:
  "simulate_call mapError nd cfg account fname args = Inr (tx, sim) \<longleftrightarrow>
   nd_call nd account (sc_contractId cfg) fname args = Inr tx \<and> nd_simulate nd tx = Inr (Inr sim)"
  by (auto simp: simulate_call_def and_then_Inr split: sum.splits) (metis sum.exhaust)+

lemma simulated_accepted:
  assumes "runs_contract nd" "simulate_call mapError nd cfg account fname args = Inr txsim"
  shows "accepts fname args"
  using assms unfolding runs_contract_def by (cases txsim) (auto simp: simulate_call_ok)

lemma foreign_never_built:
  assumes "runs_contract nd" "\<not> accepts fname args"
  shows "isl (build_unsigned nd cfg signers source fname args)"
  using assms simulated_accepted [OF assms(1)]
  by (cases "build_unsigned nd cfg signers source fname args") (auto simp: build_unsigned_def and_then_Inr)

lemma foreign_never_sent:
  assumes "runs_contract nd" "\<not> accepts fname args"
  shows "fst (keeper_invoke mapError nd cfg source secret fname args rejected confirm) = []"
  using assms(2) simulated_accepted [OF assms(1), of mapError cfg _ fname args]
  by (auto simp: keeper_invoke_def keeper_send_def and_then_Inr split: sum.split)

lemmas foreign_calls = accepts_def contract_declares contract_declares_admin contract_lacks initiate_scArgs_def file_claim_scArgs_def renew_scArgs_def

text \<open>C3. So, on a node that runs the contract, the builders of the service for buying and renewing a policy, filing a claim or an
  appeal, registering and removing voters, and the one of the governance route for the quorum never build a transaction, whatever
  the arguments: each request ends with an exception. The voting duration cannot be read, and the expiry keeper sends nothing.
  (The route of the protocol parameters passes the quorum alone, which the contract takes.)\<close>

theorem core_transactions_never_built:
  assumes nd: "runs_contract nd"
  shows "isl (buildInitiatePolicyTransaction nd cfg ia) \<and> isl (buildFileClaimTransaction nd cfg fc) \<and>
         isl (buildRenewPolicyTransaction premium nd cfg ra) \<and> isl (buildAppealTransaction nd cfg claimant claimId reason) \<and>
         isl (buildBatchRegisterVotersTransaction nd cfg admin voters) \<and> isl (buildRemoveVoterTransaction nd cfg admin voter) \<and>
         isl (buildSetQuorumBpsTransaction nd cfg admin bps) \<and> isl (simulateGetVotingDuration nd cfg admin) \<and>
         fst (processExpiredPolicies nd cfg lim) = []"
proof -
  note foreign = foreign_never_built [OF nd] and sim = simulated_accepted [OF nd]
  have "isl (buildFileClaimTransaction nd cfg fc)"
    by (cases "buildFileClaimTransaction nd cfg fc") (auto simp: buildFileClaimTransaction_def and_then_Inr foreign_calls dest!: sim)
  moreover have "isl (buildRenewPolicyTransaction premium nd cfg ra)"
    by (cases "buildRenewPolicyTransaction premium nd cfg ra") (auto simp: buildRenewPolicyTransaction_def and_then_Inr foreign_calls dest!: sim)
  moreover have "isl (simulateGetVotingDuration nd cfg admin)"
    by (cases "simulateGetVotingDuration nd cfg admin") (auto simp: simulateGetVotingDuration_def and_then_Inr foreign_calls dest!: sim)
  moreover have "fst (processExpiredPolicies nd cfg lim) = []"
    unfolding processExpiredPolicies_def
    by (auto simp: foreign_never_sent [OF nd] foreign_calls split: option.split)
  ultimately show ?thesis
    unfolding buildInitiatePolicyTransaction_def buildAppealTransaction_def buildBatchRegisterVotersTransaction_def
      buildRemoveVoterTransaction_def buildSetQuorumBpsTransaction_def
    by (intro conjI foreign) (auto simp: foreign_calls)
qed

text \<open>The route of the protocol parameters builds one transaction per given parameter, in a fixed order, all of calls that the contract takes.\<close>

lemma protocol_calls_accepted: "(param, fname, args) \<in> set (protocol_calls q v g) \<Longrightarrow> accepts fname args"
  by (auto simp: protocol_calls_def param_call_def accepts_def contract_declares contract_declares_admin split: option.splits)

lemma build_params_all:
  "build_params nd cfg admin calls = Inr txs \<Longrightarrow> map fst txs = map fst calls"
  by (induction calls arbitrary: txs) (auto simp: and_then_Inr)

lemma protocol_params_built:
  assumes "updateProtocolParams nd cfg admin q v g = Inr txs"
  shows "map fst txs = (if q = None then [] else [''quorumBps'']) @ (if v = None then [] else [''votingDurationLedgers'']) @
    (if g = None then [] else [''gracePeriodLedgers'']) \<and> txs \<noteq> []"
proof -
  have "build_params nd cfg admin (protocol_calls q v g) = Inr txs" "protocol_calls q v g \<noteq> []"
    using assms by (auto simp: updateProtocolParams_def Let_def split: if_splits)
  with build_params_all [of nd cfg admin "protocol_calls q v g" txs] have "map fst txs = map fst (protocol_calls q v g)" "txs \<noteq> []" by auto
  then show ?thesis by (auto simp: protocol_calls_def param_call_def split: option.splits)
qed

definition sample_sim :: sim_full where
  "sample_sim = \<lparr>ss_minResourceFee = Some ''50'', ss_auth = [None, Some (''GADMIN'', False)], sf_retval = None\<rparr>"

text \<open>A node with one account, which simulates what the contract accepts and confirms at the third poll.\<close>

definition sample_node :: "(unit, string \<times> sc_arg list) node" where
  "sample_node = \<lparr>nd_getAccount = (\<lambda>_. Inr ()), nd_latestLedger = Inr 9, nd_call = (\<lambda>_ _ m args. Inr (m, args)),
     nd_simulate = (\<lambda>(m, args). Inr (if accepts m args then Inr sample_sim else Inl ''HostError: Error(Context, MissingValue)'')),
     nd_assemble = (\<lambda>tx _. tx), nd_xdr = fst, nd_keypair = (\<lambda>_. Inr ()), nd_sign = (\<lambda>_ tx. tx), nd_send = (\<lambda>_. Inr (False, ''h'')),
     nd_poll = (\<lambda>_ k. Inr (if k < 2 then Tx_Not_Found else Tx_Success 77 (Some (JObj [(''tag'', JStr ''Rejected'')]))))\<rparr>"

definition sample_scfg :: soroban_cfg where
  "sample_scfg = \<lparr>sc_contractId = ''CA'', sc_defaultToken = ''CT'', sc_keeperAccount = Some ''GK'', sc_simulationAccount = None,
     sc_keeperSecret = Some ''S'', sc_adminKey = None, sc_adminKey2 = None, sc_defaultQuorumBps = 5000\<rparr>"

lemma sample_runs: "runs_contract sample_node"
  by (auto simp: runs_contract_def sample_node_def split: if_splits)

theorem core_transactions_never_built_witness:
  "isl (buildAppealTransaction sample_node sample_scfg ''GA'' 3 ''late'') \<and> fst (processExpiredPolicies sample_node sample_scfg 5) = []"
  using core_transactions_never_built [OF sample_runs, of sample_scfg _ _ _ _ "''GA''" 3 "''late''" "''GADM''" "[]" "[]" 1 5] by blast

section \<open>Confirmation\<close>

lemma poll_until_found:
  "poll_until reply a n failed = Inr (Some (ledger, v)) \<longleftrightarrow>
   (\<exists>k<n. reply (a + k) = Inr (Tx_Success ledger v) \<and> (\<forall>j<k. reply (a + j) = Inr Tx_Not_Found))"
proof (induction n arbitrary: a)
  case (Suc n)
  show ?case
  proof (cases "reply a = Inr Tx_Not_Found")
    case True
    then have "poll_until reply a (Suc n) failed = poll_until reply (Suc a) n failed" by simp
    with True Suc show ?thesis
      by (auto simp: All_less_Suc2 Ex_less_Suc2)
  next
    case False
    then show ?thesis
      by (auto simp: Ex_less_Suc2 All_less_Suc2 split: sum.split poll_reply.split)
  qed
qed simp


lemma keeper_invoke_ok:
  assumes "keeper_invoke mapError nd cfg source secret fname args rejected confirm = (sent, Inr r)"
  shows "\<exists>account tx sim hash. nd_getAccount nd source = Inr account \<and> nd_call nd account (sc_contractId cfg) fname args = Inr tx \<and>
     nd_simulate nd tx = Inr (Inr sim) \<and> sent = [nd_sign nd secret (nd_assemble nd tx sim)] \<and> nd_send nd (hd sent) = Inr (False, hash) \<and> confirm hash = Inr r"
proof -
  have load: "nd_getAccount nd source = Inr account" if "rpc_loadAccount nd source = Inr account" for account
    using that by (auto simp: rpc_loadAccount_def Let_def split: sum.splits if_splits)
  show ?thesis
    using assms
    by (auto simp: keeper_invoke_def keeper_send_def and_then_Inr simulate_call_ok split: sum.splits if_splits prod.splits dest!: load)
qed

text \<open>C8. The keeper reports a claim as finalised only for a transaction of its own that the chain confirmed: it sent exactly one
  transaction, the signed call of \<open>finalize_claim\<close> with that claim's number as it was simulated, the node gave it the hash
  reported, and one of the first 30 polls, all earlier ones finding nothing, answered SUCCESS with the ledger and status reported.\<close>

theorem finalize_claim_confirmed:
  assumes "finalizeClaim nd cfg claimId = (sent, Inr r)"
  shows "\<exists>account secret tx sim k v. nd_call nd account (sc_contractId cfg) ''finalize_claim'' [ScU64 claimId] = Inr tx \<and> nd_simulate nd tx = Inr (Inr sim) \<and>
     sent = [nd_sign nd secret (nd_assemble nd tx sim)] \<and> sc_keeperSecret cfg = Some secret \<and> nd_send nd (hd sent) = Inr (False, kr_txHash r) \<and>
     k < 30 \<and> nd_poll nd (kr_txHash r) k = Inr (Tx_Success (kr_ledger r) v) \<and> (\<forall>j<k. nd_poll nd (kr_txHash r) j = Inr Tx_Not_Found) \<and>
     kr_onChainStatus r = (case v of None \<Rightarrow> ''Unknown'' | Some x \<Rightarrow> status_text x)"
proof -
  obtain source secret where cfg: "keeper_source cfg = Some source" "nonempty (sc_keeperSecret cfg) = Some secret"
    and inv: "keeper_invoke rpc_mapSimulationError nd cfg source secret ''finalize_claim'' [ScU64 claimId]
      (Bad_Request (''FINALIZE_CLAIM'' @ ''_REJECTED'') (''finalize_claim'' @ '' transaction was rejected by the network.''))
      (confirm_final nd ''finalize_claim'' ''FINALIZE_CLAIM'') = (sent, Inr r)"
    using assms unfolding finalizeClaim_def keeper_finalize_def by (auto split: if_splits option.splits)
  have secret: "sc_keeperSecret cfg = Some secret" using cfg(2) by (auto simp: nonempty_def split: option.splits list.splits)
  obtain account tx sim hash where call: "nd_call nd account (sc_contractId cfg) ''finalize_claim'' [ScU64 claimId] = Inr tx"
      "nd_simulate nd tx = Inr (Inr sim)" "sent = [nd_sign nd secret (nd_assemble nd tx sim)]" "nd_send nd (hd sent) = Inr (False, hash)"
    and confirm: "confirm_final nd ''finalize_claim'' ''FINALIZE_CLAIM'' hash = Inr r"
    using keeper_invoke_ok [OF inv] by blast
  obtain found where found: "poll_until (nd_poll nd hash) 0 POLL_ATTEMPTS
        (Bad_Request (''FINALIZE_CLAIM'' @ ''_FAILED'') (''finalize_claim'' @ '' transaction failed on-chain.'')) = Inr found"
    and fin: "(let ledger = (case found of None \<Rightarrow> 0 | Some (l, _) \<Rightarrow> l);
        onChainStatus = (case found of Some (_, Some v) \<Rightarrow> status_text v | _ \<Rightarrow> ''Unknown'')
       in if ledger = 0
          then Inl (Unavailable (''FINALIZE_CLAIM'' @ ''_TIMEOUT'') (''Timed out waiting for '' @ ''finalize_claim'' @ '' confirmation (hash='' @ hash @ '').''))
          else Inr \<lparr>kr_txHash = hash, kr_ledger = ledger, kr_onChainStatus = onChainStatus\<rparr>) = Inr r"
    using confirm unfolding confirm_final_def and_then_Inr by blast
  obtain ledger v where fv: "found = Some (ledger, v)" using fin by (cases found) (auto simp: Let_def)
  have r: "kr_txHash r = hash" "kr_ledger r = ledger" "kr_onChainStatus r = (case v of None \<Rightarrow> ''Unknown'' | Some x \<Rightarrow> status_text x)"
    using fin fv by (auto simp: Let_def split: if_splits option.splits)
  obtain k where "k < 30" "nd_poll nd hash k = Inr (Tx_Success ledger v)" "\<forall>j<k. nd_poll nd hash j = Inr Tx_Not_Found"
    using found unfolding fv poll_until_found POLL_ATTEMPTS_def by auto
  then show ?thesis using call r secret by metis
qed


lemma sample_poll:
  "poll_until (nd_poll sample_node ''h'') 0 POLL_ATTEMPTS failed = Inr (Some (77, Some (JObj [(''tag'', JStr ''Rejected'')])))"
  unfolding poll_until_found POLL_ATTEMPTS_def by (rule exI [of _ 2]) (simp add: sample_node_def less_2_cases_iff)

lemma sample_finalize:
  "finalizeClaim sample_node sample_scfg 7 = ([(''finalize_claim'', [ScU64 7])], Inr \<lparr>kr_txHash = ''h'', kr_ledger = 77, kr_onChainStatus = ''Rejected''\<rparr>)"
proof -
  have "confirm_final sample_node ''finalize_claim'' ''FINALIZE_CLAIM'' ''h'' = Inr \<lparr>kr_txHash = ''h'', kr_ledger = 77, kr_onChainStatus = ''Rejected''\<rparr>"
    unfolding confirm_final_def sample_poll by (simp add: status_text_def)
  moreover have "accepts ''finalize_claim'' [ScU64 7]" by (simp add: accepts_def contract_declares contract_declares_admin)
  ultimately show ?thesis
    by (simp add: finalizeClaim_def keeper_finalize_def sample_scfg_def keeper_source_def nonempty_def keeper_invoke_def keeper_send_def
        rpc_loadAccount_def simulate_call_def thrown_def sample_node_def)
qed

theorem finalize_claim_confirmed_witness:
  "\<exists>account secret tx sim k v. nd_call sample_node account ''CA'' ''finalize_claim'' [ScU64 7] = Inr tx \<and> nd_simulate sample_node tx = Inr (Inr sim) \<and>
     [(''finalize_claim'', [ScU64 7])] = [nd_sign sample_node secret (nd_assemble sample_node tx sim)] \<and> k < 30 \<and>
     nd_poll sample_node ''h'' k = Inr (Tx_Success 77 v)"
  using finalize_claim_confirmed [OF sample_finalize] by (simp add: sample_scfg_def) metis

section \<open>Pending submissions\<close>

definition was_sent :: "submit_fate \<Rightarrow> bool" where
  "was_sent fate = (case fate of Node_Answer isError _ \<Rightarrow> \<not> isError | _ \<Rightarrow> False)"

lemma drain_pending_xdrs:
  "map ps_transactionXdr (drain_pending ev now ss queue) = map ps_transactionXdr queue @ map ps_transactionXdr (filter (\<lambda>s. \<not> was_sent (se_fate (ev s))) ss)"
proof (induction ss arbitrary: queue)
  case (Cons s ss)
  show ?case
  proof (cases "was_sent (se_fate (ev s))")
    case True
    then have "rpc_submitTransaction (ev s) now (ps_transactionXdr s) queue = (submitFn (se_fate (ev s)), queue)" "isl (submitFn (se_fate (ev s))) = False"
      by (auto simp: rpc_submitTransaction_def submitFn_def was_sent_def Let_def split: submit_fate.splits)
    then show ?thesis using True Cons by (auto split: sum.split)
  next
    case False
    then obtain e where "submitFn (se_fate (ev s)) = Inl e" by (cases "se_fate (ev s)") (auto simp: submitFn_def was_sent_def Let_def)
    then show ?thesis using False Cons by (simp add: rpc_submitTransaction_def)
  qed
qed simp

text \<open>No queued submission is lost or sent twice: processing the queue leaves, in their order, exactly the envelopes whose submission
  did not succeed, whether it threw, was refused or met an open breaker; with the breaker open beforehand nothing is tried.\<close>

theorem pending_submissions_kept:
  "map ps_transactionXdr (processPendingSubmissions opened ev now queue) =
   map ps_transactionXdr (if opened then queue else filter (\<lambda>s. \<not> was_sent (se_fate (ev s))) queue)"
  by (simp add: processPendingSubmissions_def drain_pending_xdrs)

text \<open>A transaction the network rejects is answered as unavailable: the handler of the rejection is inside the block whose handler
  replaces every error. Where it was queued, it stays queued.\<close>

lemma rejection_reported_unavailable:
  "rpc_submitTransaction \<lparr>se_fate = Node_Answer True h, se_opened = False\<rparr> now xdr queue =
   (Inl (Unavailable ''SUBMISSION_FAILED'' ''Failed to submit transaction to the network.''), queue)"
  by (simp add: rpc_submitTransaction_def submitFn_def)

section \<open>What is built\<close>

lemma build_unsigned_ok:
  assumes "build_unsigned nd cfg signers source fname args = Inr r"
  shows "\<exists>account tx sim fee. nd_getAccount nd source = Inr account \<and> nd_call nd account (sc_contractId cfg) fname args = Inr tx \<and>
     nd_simulate nd tx = Inr (Inr sim) \<and> bl_unsignedXdr r = nd_xdr nd (nd_assemble nd tx sim) \<and> js_BigInt (bl_minResourceFee r) = Some fee \<and>
     bl_totalEstimatedFee r = show_int (BASE_FEE + fee) \<and> bl_authRequirements r = signers (auth_addresses sim)"
proof -
  have load: "nd_getAccount nd source = Inr account" if "rpc_loadAccount nd source = Inr account" for account
    using that by (auto simp: rpc_loadAccount_def Let_def split: sum.splits if_splits)
  show ?thesis
    using assms by (auto simp: build_unsigned_def and_then_Inr simulate_call_ok assembled_def Let_def split: option.splits dest!: load)
qed

lemma with_signer_covers: "holder \<in> fst ` set (with_signer holder reqs)"
  by (auto simp: with_signer_def list_ex_iff)

text \<open>A batch that is larger than the contract takes is refused before the node is asked.\<close>

lemma batch_bounds:
  assumes "simulateGetPoliciesBatch nd cfg keys src = Inr rows"
  shows "length keys \<le> 20"
  using assms by (auto simp: simulateGetPoliciesBatch_def POLICY_BATCH_GET_MAX_def split: if_splits)

lemma hex_bytes_length: "length (hex_bytes hs) = length hs div 2"
  by (induction hs rule: hex_bytes.induct) auto

text \<open>The second length check of an evidence entry never fires, and every entry that passes carries 32 bytes.\<close>

lemma evidence_entry_shape:
  assumes "claimEvidenceEntryToScVal e = r"
  shows "r = Inl ''contentSha256Hex must be 64 hex characters'' \<or> (\<exists>bs. length bs = 32 \<and> r = Inr (ScMap [(''url'', ScString (ce_url e)), (''hash'', ScBytes bs)]))"
  using assms by (auto simp: claimEvidenceEntryToScVal_def Let_def hex_bytes_length split: if_splits)

end
