(* ===== verification/Claim_Finalization.thy ===== *)
theory Claim_Finalization
  imports Reminders Soroban_Calls
begin

text \<open>
  The processor of expired claims (\<open>Reminders\<close>) over the keeper's transactions (\<open>Soroban_Calls\<close>).
\<close>

text \<open>What the processor of expired claims sees of \<open>finalizeClaim\<close>: the message of its exception or its result
  (\<open>src/backend/src/claims/claim-deadline.processor.service.ts\<close> over \<open>rpc/soroban.service.ts\<close>).\<close>

definition error_message :: "rpc_error \<Rightarrow> string" where
  "error_message e = (case e of Bad_Request code msg \<Rightarrow> msg | Unavailable code msg \<Rightarrow> msg | Thrown msg \<Rightarrow> msg)"

definition finalize_over :: "('acc, 'tx) node \<Rightarrow> soroban_cfg \<Rightarrow> int \<Rightarrow> finalize_reply" where
  "finalize_over nd cfg i =
     (case snd (finalizeClaim nd cfg i) of
        Inl e \<Rightarrow> Chain_Fails (error_message e)
      | Inr r \<Rightarrow> Both_Ok \<lparr>fz_txHash = kr_txHash r, fz_ledger = kr_ledger r, fz_onChainStatus = kr_onChainStatus r\<rparr>)"

definition timeout_message :: "string \<Rightarrow> string" where
  "timeout_message hash = ''Timed out waiting for finalize_claim confirmation (hash='' @ hash @ '').''"

lemma poll_until_nothing:
  assumes "\<And>k. reply k = Inr Tx_Not_Found"
  shows "poll_until reply a n failed = Inr None"
  using assms by (induction n arbitrary: a) simp_all

lemma keeper_configured:
  assumes "sc_contractId cfg \<noteq> []" "sc_keeperAccount cfg = Some source" "source \<noteq> []" "sc_keeperSecret cfg = Some secret" "secret \<noteq> []"
  shows "finalizeClaim nd cfg i = keeper_invoke rpc_mapSimulationError nd cfg source secret ''finalize_claim'' [ScU64 i]
    (Bad_Request (''FINALIZE_CLAIM'' @ ''_REJECTED'') (''finalize_claim'' @ '' transaction was rejected by the network.''))
    (confirm_final nd ''finalize_claim'' ''FINALIZE_CLAIM'')"
  using assms by (simp add: finalizeClaim_def keeper_finalize_def keeper_source_def nonempty_def split: list.split)

lemma finalize_times_out:
  assumes "sc_contractId cfg \<noteq> []" "sc_keeperAccount cfg = Some source" "source \<noteq> []" "sc_keeperSecret cfg = Some secret" "secret \<noteq> []"
    and "nd_getAccount nd source = Inr account" "nd_call nd account (sc_contractId cfg) ''finalize_claim'' [ScU64 i] = Inr tx"
    and "nd_simulate nd tx = Inr (Inr sim)" "nd_keypair nd secret = Inr ()" "nd_send nd (nd_sign nd secret (nd_assemble nd tx sim)) = Inr (False, hash)"
    and "\<And>k. nd_poll nd hash k = Inr Tx_Not_Found"
  shows "finalize_over nd cfg i = Chain_Fails (timeout_message hash)"
  using assms
  by (simp add: finalize_over_def keeper_configured keeper_invoke_def keeper_send_def rpc_loadAccount_def simulate_call_def thrown_def
      confirm_final_def poll_until_nothing error_message_def timeout_message_def)

lemma finalize_simulation_fails:
  assumes "sc_contractId cfg \<noteq> []" "sc_keeperAccount cfg = Some source" "source \<noteq> []" "sc_keeperSecret cfg = Some secret" "secret \<noteq> []"
    and "nd_getAccount nd source = Inr account" "nd_call nd account (sc_contractId cfg) ''finalize_claim'' [ScU64 i] = Inr tx"
    and "nd_simulate nd tx = Inr (Inl err)" "rpc_mapSimulationError err = Bad_Request code err"
  shows "finalize_over nd cfg i = Chain_Fails err"
  using assms
  by (simp add: finalize_over_def keeper_configured keeper_invoke_def rpc_loadAccount_def simulate_call_def thrown_def error_message_def)

text \<open>A confirmation that comes later than 30 polls costs the outcome of the claim. The keeper sends the finalisation and reports a
  timeout, so the first tick changes nothing; when the transaction has landed, the simulation of the next tick reports the claim
  as terminal already, and the row is marked final with the status PENDING that it had. It is past the vote at no ledger any more,
  so no later scan reads it again.\<close>

theorem late_confirmation_loses_status:
  assumes cfg: "sc_contractId cfg \<noteq> []" "sc_keeperAccount cfg = Some source" "source \<noteq> []" "sc_keeperSecret cfg = Some secret" "secret \<noteq> []"
    and first: "nd_getAccount nd source = Inr account" "nd_call nd account (sc_contractId cfg) ''finalize_claim'' [ScU64 i] = Inr tx"
      "nd_simulate nd tx = Inr (Inr sim)" "nd_keypair nd secret = Inr ()" "nd_send nd (nd_sign nd secret (nd_assemble nd tx sim)) = Inr (False, hash)"
      "\<And>k. nd_poll nd hash k = Inr Tx_Not_Found" "\<not> already_terminal (timeout_message hash)"
    and second: "nd_getAccount nd' source = Inr account'" "nd_call nd' account' (sc_contractId cfg) ''finalize_claim'' [ScU64 i] = Inr tx'"
      "nd_simulate nd' tx' = Inr (Inl err)" "rpc_mapSimulationError err = Bad_Request code err" "already_terminal err"
    and row: "findUnique t i = Some c" "cl_status c = PENDING" "\<not> cl_isFinalized c"
  shows "let t1 = snd (processClaim (finalize_over nd cfg) i t); t2 = snd (processClaim (finalize_over nd' cfg) i t1) in
         t1 = t \<and> (\<exists>c'. findUnique t2 i = Some c' \<and> cl_status c' = PENDING \<and> cl_isFinalized c' \<and> (\<forall>L. \<not> vote_expired L c'))"
proof -
  have "finalize_over nd cfg i = Chain_Fails (timeout_message hash)" by (rule finalize_times_out [OF cfg first(1-6)])
  then have "processClaim (finalize_over nd cfg) i t = (Claim_Failed, t)"
    using first(7) row by (simp add: processClaim_def on_finalize_error_def)
  moreover have "finalize_over nd' cfg i = Chain_Fails err" by (rule finalize_simulation_fails [OF cfg second(1-4)])
  then have "processClaim (finalize_over nd' cfg) i t =
      (Skipped, updateMany (\<lambda>k c. k = i \<and> \<not> cl_isFinalized c) (\<lambda>c. c\<lparr>cl_isFinalized := True\<rparr>) t)"
    using second(5) row by (simp add: processClaim_def on_finalize_error_def)
  ultimately show ?thesis using row by (simp add: vote_expired_def)
qed

definition late_node :: "(unit, string \<times> sc_arg list) node" where
  "late_node = sample_node\<lparr>nd_poll := (\<lambda>_ _. Inr Tx_Not_Found)\<rparr>"

definition landed_node :: "(unit, string \<times> sc_arg list) node" where
  "landed_node = sample_node\<lparr>nd_simulate := (\<lambda>_. Inr (Inl ''claim already terminal''))\<rparr>"

theorem late_confirmation_loses_status_witness:
  "let t1 = snd (processClaim (finalize_over late_node sample_scfg) 7 [(7, sample_claim)]);
       t2 = snd (processClaim (finalize_over landed_node sample_scfg) 7 t1) in
   \<exists>c'. findUnique t2 7 = Some c' \<and> cl_status c' = PENDING \<and> cl_isFinalized c'"
proof -
  have acc: "accepts ''finalize_claim'' [ScU64 7]" by (simp add: accepts_def contract_declares)
  have no: "\<not> already_terminal (timeout_message ''h'')" by code_simp
  have yes: "already_terminal ''claim already terminal''" by code_simp
  have bad: "rpc_mapSimulationError ''claim already terminal'' = Bad_Request ''SIMULATION_FAILED'' ''claim already terminal''" by code_simp
  have "let t1 = snd (processClaim (finalize_over late_node sample_scfg) 7 [(7, sample_claim)]);
       t2 = snd (processClaim (finalize_over landed_node sample_scfg) 7 t1) in
     t1 = [(7, sample_claim)] \<and> (\<exists>c'. findUnique t2 7 = Some c' \<and> cl_status c' = PENDING \<and> cl_isFinalized c' \<and> (\<forall>L. \<not> vote_expired L c'))"
    by (rule late_confirmation_loses_status [where source = "''GK''" and secret = "''S''" and account = "()" and account' = "()" and sim = sample_sim
          and hash = "''h''" and err = "''claim already terminal''" and code = "''SIMULATION_FAILED''" and c = sample_claim
          and tx = "(''finalize_claim'', [ScU64 7])" and tx' = "(''finalize_claim'', [ScU64 7])"])
      (use acc no yes bad in \<open>simp_all add: late_node_def landed_node_def sample_node_def sample_scfg_def sample_claim_def findUnique_def\<close>)
  then show ?thesis by (auto simp: Let_def)
qed

end
