(* ===== verification/Ramp.thy ===== *)
theory Ramp
  imports Claims_Db
begin

text \<open>
  Fiat on- and off-ramp: the SEP-24 flows and their jobs (\<open>src/backend/src/ramp/ramp.service.ts\<close>), premiums paid through a provider
  (\<open>ramp/ramp-premium.service.ts\<close>) and their reconciliation (\<open>jobs/ramp-reconciliation.service.ts\<close>, \<open>jobs/ramp-health-check.service.ts\<close>).

  What an anchor or a provider answers is an argument. The rows have the columns the services read and write.
\<close>

section \<open>SEP-24 flows\<close>

datatype ramp_direction = DEPOSIT | WITHDRAW
datatype ramp_status = Rp_PENDING | Rp_PENDING_ANCHOR | Rp_COMPLETED | Rp_FAILED | Rp_REFUNDED

record ramp_tx =
  rt_userId :: string
  rt_providerId :: string
  rt_direction :: ramp_direction
  rt_assetCode :: string
  rt_amount :: "string option"
  rt_status :: ramp_status
  rt_externalId :: "string option"
  rt_interactiveUrl :: "string option"
  rt_completedAt :: "int option"
  rt_createdAt :: int
  rt_stuck :: bool
  rt_stuckFlaggedAt :: "int option"

record ramp_provider =
  rp_baseUrl :: string
  rp_healthy :: bool
  rp_lastCheckedAt :: int

record ramp_db =
  rd_tx :: "(string, ramp_tx) table"
  rd_provider :: "(string, ramp_provider) table"

datatype ramp_error = Ramp_Disabled | No_Healthy_Provider | Anchor_Failed | Ramp_Tx_Not_Found

definition STUCK_THRESHOLD_MS :: int where "STUCK_THRESHOLD_MS = 30 * 60 * 1000"

definition base_url :: "string \<Rightarrow> ramp_provider \<Rightarrow> string" where
  "base_url anchorUrl p = (if rp_baseUrl p = [] then anchorUrl else rp_baseUrl p)"

text \<open>The first healthy provider in descending order of its last check; among equals the database chooses, here the first.\<close>

definition getHealthyProvider :: "ramp_db \<Rightarrow> (string \<times> ramp_provider) option" where
  "getHealthyProvider db =
     (case sort_key (\<lambda>(_, p). - rp_lastCheckedAt p) (findMany (\<lambda>_ p. rp_healthy p) (rd_provider db)) of [] \<Rightarrow> None | p # _ \<Rightarrow> Some p)"

definition interactive_url :: "string \<Rightarrow> ramp_provider \<Rightarrow> ramp_direction \<Rightarrow> string" where
  "interactive_url anchorUrl p d =
     base_url anchorUrl p @ (case d of DEPOSIT \<Rightarrow> ''/sep24/transactions/deposit/interactive'' | WITHDRAW \<Rightarrow> ''/sep24/transactions/withdraw/interactive'')"

definition put_tx :: "string \<Rightarrow> (ramp_tx \<Rightarrow> ramp_tx) \<Rightarrow> ramp_db \<Rightarrow> ramp_db" where
  "put_tx i f db = db\<lparr>rd_tx := updateMany (\<lambda>k _. k = i) f (rd_tx db)\<rparr>"

text \<open>\<open>newId\<close> is the id the database gives to the row; \<open>post\<close> is what the anchor answers to a request for an interactive URL:
  its \<open>url\<close> (absent where the answer has none) or an error.\<close>

definition startFlow ::
  "bool \<Rightarrow> string \<Rightarrow> (string \<Rightarrow> ramp_tx \<Rightarrow> string option option) \<Rightarrow> int \<Rightarrow> string \<Rightarrow> string \<Rightarrow> ramp_direction \<Rightarrow> string \<Rightarrow> string option \<Rightarrow> ramp_db \<Rightarrow>
   (ramp_error + (string option \<times> ramp_tx)) \<times> ramp_db" where
  "startFlow enabled anchorUrl post now newId userId direction assetCode amount db =
     (if \<not> enabled then (Inl Ramp_Disabled, db)
      else case getHealthyProvider db of
        None \<Rightarrow> (Inl No_Healthy_Provider, db)
      | Some (providerId, provider) \<Rightarrow>
          let transaction = \<lparr>rt_userId = userId, rt_providerId = providerId, rt_direction = direction, rt_assetCode = assetCode,
                rt_amount = amount, rt_status = Rp_PENDING, rt_externalId = None, rt_interactiveUrl = None, rt_completedAt = None,
                rt_createdAt = now, rt_stuck = False, rt_stuckFlaggedAt = None\<rparr>;
              db1 = db\<lparr>rd_tx := rd_tx db @ [(newId, transaction)]\<rparr>
          in case post (interactive_url anchorUrl provider direction) transaction of
               None \<Rightarrow> (Inl Anchor_Failed, put_tx newId (\<lambda>t. t\<lparr>rt_status := Rp_FAILED\<rparr>) db1)
             | Some url \<Rightarrow>
                 let f = (\<lambda>t. t\<lparr>rt_interactiveUrl := url, rt_status := Rp_PENDING_ANCHOR\<rparr>) in (Inr (url, f transaction), put_tx newId f db1))"

definition deposit ::
  "bool \<Rightarrow> string \<Rightarrow> (string \<Rightarrow> ramp_tx \<Rightarrow> string option option) \<Rightarrow> int \<Rightarrow> string \<Rightarrow> string \<Rightarrow> string \<Rightarrow> string option \<Rightarrow> ramp_db \<Rightarrow>
   (ramp_error + (string option \<times> ramp_tx)) \<times> ramp_db" where
  "deposit enabled anchorUrl post now newId userId = startFlow enabled anchorUrl post now newId userId DEPOSIT"

definition withdraw ::
  "bool \<Rightarrow> string \<Rightarrow> (string \<Rightarrow> ramp_tx \<Rightarrow> string option option) \<Rightarrow> int \<Rightarrow> string \<Rightarrow> string \<Rightarrow> string \<Rightarrow> string option \<Rightarrow> ramp_db \<Rightarrow>
   (ramp_error + (string option \<times> ramp_tx)) \<times> ramp_db" where
  "withdraw enabled anchorUrl post now newId userId = startFlow enabled anchorUrl post now newId userId WITHDRAW"

definition status_change :: "int \<Rightarrow> ramp_status \<Rightarrow> string option \<Rightarrow> ramp_tx \<Rightarrow> ramp_tx" where
  "status_change now status externalId t =
     t\<lparr>rt_status := status, rt_externalId := (case externalId of Some e \<Rightarrow> Some e | None \<Rightarrow> rt_externalId t),
       rt_completedAt := (if status = Rp_COMPLETED then Some now else rt_completedAt t)\<rparr>"

definition handleStatusUpdate :: "int \<Rightarrow> string \<Rightarrow> ramp_status \<Rightarrow> string option \<Rightarrow> ramp_db \<Rightarrow> ramp_error + ramp_db" where
  "handleStatusUpdate now i status externalId db =
     (if findUnique (rd_tx db) i = None then Inl Ramp_Tx_Not_Found else Inr (put_tx i (status_change now status externalId) db))"

definition mapAnchorStatus :: "string \<Rightarrow> ramp_status option" where
  "mapAnchorStatus s =
     (if s = ''pending_user_transfer_start'' \<or> s = ''pending_anchor'' then Some Rp_PENDING_ANCHOR
      else if s = ''completed'' then Some Rp_COMPLETED
      else if s = ''error'' \<or> s = ''failed'' then Some Rp_FAILED
      else if s = ''refunded'' then Some Rp_REFUNDED
      else None)"

definition in_flight :: "ramp_tx \<Rightarrow> bool" where
  "in_flight t = (rt_status t = Rp_PENDING \<or> rt_status t = Rp_PENDING_ANCHOR)"

text \<open>\<open>get\<close>: the status and id of the anchor's answer for a URL, \<open>None\<close> where the request fails.\<close>

definition poll_one :: "string \<Rightarrow> (string \<Rightarrow> (string \<times> string option) option) \<Rightarrow> int \<Rightarrow> string \<times> ramp_tx \<Rightarrow> ramp_db \<Rightarrow> ramp_db" where
  "poll_one anchorUrl get now it db =
     (case findUnique (rd_provider db) (rt_providerId (snd it)) of
        None \<Rightarrow> db
      | Some provider \<Rightarrow>
          (case get (base_url anchorUrl provider @ ''/sep24/transaction?id='' @ (case rt_externalId (snd it) of Some e \<Rightarrow> e | None \<Rightarrow> fst it)) of
             None \<Rightarrow> db
           | Some (status, dataId) \<Rightarrow>
               (case mapAnchorStatus status of
                  None \<Rightarrow> db
                | Some mapped \<Rightarrow>
                    if mapped = rt_status (snd it) then db
                    else (case handleStatusUpdate now (fst it) mapped dataId db of Inl _ \<Rightarrow> db | Inr db' \<Rightarrow> db'))))"

definition pollTransactionStatuses :: "bool \<Rightarrow> string \<Rightarrow> (string \<Rightarrow> (string \<times> string option) option) \<Rightarrow> int \<Rightarrow> ramp_db \<Rightarrow> ramp_db" where
  "pollTransactionStatuses enabled anchorUrl get now db =
     (if \<not> enabled then db else foldl (\<lambda>db it. poll_one anchorUrl get now it db) db (findMany (\<lambda>_ t. in_flight t) (rd_tx db)))"

definition ramp_checkProviders :: "bool \<Rightarrow> string \<Rightarrow> (string \<Rightarrow> bool) \<Rightarrow> int \<Rightarrow> ramp_db \<Rightarrow> ramp_db" where
  "ramp_checkProviders enabled anchorUrl info now db =
     (if \<not> enabled then db
      else db\<lparr>rd_provider := map (\<lambda>(k, p). (k, p\<lparr>rp_healthy := info (base_url anchorUrl p @ ''/sep24/info''), rp_lastCheckedAt := now\<rparr>)) (rd_provider db)\<rparr>)"

definition is_stuck :: "int \<Rightarrow> ramp_tx \<Rightarrow> bool" where
  "is_stuck now t = (in_flight t \<and> rt_createdAt t < now - STUCK_THRESHOLD_MS \<and> \<not> rt_stuck t)"

definition reconcileStuckTransactions :: "bool \<Rightarrow> int \<Rightarrow> ramp_db \<Rightarrow> ramp_db" where
  "reconcileStuckTransactions enabled now db =
     (if \<not> enabled then db
      else foldl (\<lambda>db it. put_tx (fst it) (\<lambda>t. t\<lparr>rt_stuck := True, rt_stuckFlaggedAt := Some now\<rparr>) db) db (findMany (\<lambda>_ t. is_stuck now t) (rd_tx db)))"

section \<open>Premiums paid in fiat\<close>

record ramp_request =
  rq_fiatCurrency :: string
  rq_fiatValue :: jnum
  rq_cryptoCurrency :: string
  rq_receiverAddress :: string

datatype premium_ramp_error = Bad_Quote_Request | Bad_Receiver | Provider_Not_Configured | Quote_Failed | Bad_Provider_Url

definition ramp_validate :: "ramp_request \<Rightarrow> bool" where
  "ramp_validate req = (rq_fiatCurrency req \<noteq> [] \<and> rq_cryptoCurrency req \<noteq> [] \<and>
     (case rq_fiatValue req of Fin i \<Rightarrow> 0 < i | Frac mant _ \<Rightarrow> 0 < mant | Infinity pos \<Rightarrow> pos | NaN \<Rightarrow> False))"

definition strkey_char :: "char \<Rightarrow> bool" where
  "strkey_char c = (CHR ''A'' \<le> c \<and> c \<le> CHR ''Z'' \<or> CHR ''2'' \<le> c \<and> c \<le> CHR ''7'')"

definition is_public_key :: "string \<Rightarrow> bool" where
  "is_public_key s = (case s of [] \<Rightarrow> False | c # cs \<Rightarrow> c = CHR ''G'' \<and> length cs = 55 \<and> list_all strkey_char cs)"

definition strip_slash :: "string \<Rightarrow> string" where
  "strip_slash s = (if s \<noteq> [] \<and> last s = CHR ''/'' then butlast s else s)"

text \<open>\<open>reply\<close>: the JSON of an answer with a success status, \<open>None\<close> for another status.\<close>

definition ramp_quote :: "(string \<Rightarrow> ramp_request \<Rightarrow> 'q option) \<Rightarrow> string option \<Rightarrow> ramp_request \<Rightarrow> premium_ramp_error + 'q" where
  "ramp_quote reply apiUrl req =
     (if \<not> ramp_validate req then Inl Bad_Quote_Request
      else case apiUrl of
             Some (c # cs) \<Rightarrow> (case reply (strip_slash (c # cs) @ ''/quote'') req of None \<Rightarrow> Inl Quote_Failed | Some q \<Rightarrow> Inr q)
           | _ \<Rightarrow> Inl Provider_Not_Configured)"

record purchase =
  pu_status :: string
  pu_receiverAddress :: string
  pu_cryptoAmount :: string
  pu_cryptoCurrency :: string
  pu_fiatValue :: jnum
  pu_fiatCurrency :: string
  pu_finalTxHash :: "string option"

record purchase_row = purchase +
  pr_lastSyncedAt :: int

record premium_ramp =
  pm_tx :: "(string, purchase_row) table"
  pm_events :: "(string \<times> purchase) list"    \<comment> \<open>the \<open>ramp.completed\<close> events emitted\<close>

definition as_row :: "int \<Rightarrow> purchase \<Rightarrow> purchase_row" where
  "as_row now p = purchase.extend p \<lparr>pr_lastSyncedAt = now\<rparr>"

text \<open>The row is created before the URL of the widget is made, which fails where the configured URL is none (\<open>validUrl\<close>).\<close>

definition initiate ::
  "(string \<Rightarrow> bool) \<Rightarrow> string option \<Rightarrow> int \<Rightarrow> string \<Rightarrow> ramp_request \<Rightarrow> premium_ramp \<Rightarrow> (premium_ramp_error + string) \<times> premium_ramp" where
  "initiate validUrl baseUrl now purchaseId req st =
     (if \<not> ramp_validate req then (Inl Bad_Quote_Request, st)
      else if \<not> is_public_key (rq_receiverAddress req) then (Inl Bad_Receiver, st)
      else case baseUrl of
             Some (c # cs) \<Rightarrow>
               (if validUrl (c # cs) then Inr purchaseId else Inl Bad_Provider_Url, st\<lparr>pm_tx := pm_tx st @ [(purchaseId, as_row now
                  \<lparr>pu_status = ''PENDING'', pu_receiverAddress = rq_receiverAddress req, pu_cryptoAmount = ''0'',
                   pu_cryptoCurrency = rq_cryptoCurrency req, pu_fiatValue = rq_fiatValue req, pu_fiatCurrency = rq_fiatCurrency req,
                   pu_finalTxHash = None\<rparr>)]\<rparr>)
           | _ \<Rightarrow> (Inl Provider_Not_Configured, st))"

definition COMPLETE :: string where "COMPLETE = ''COMPLETE''"

definition recordStatus :: "int \<Rightarrow> string \<Rightarrow> purchase \<Rightarrow> premium_ramp \<Rightarrow> premium_ramp" where
  "recordStatus now purchaseId p st =
     (let existing = findUnique (pm_tx st) purchaseId;
          st1 = st\<lparr>pm_tx := upsert purchaseId (as_row now p) (\<lambda>_. as_row now p) (pm_tx st)\<rparr>
      in if pu_status p = COMPLETE \<and> map_option pu_status existing \<noteq> Some COMPLETE
         then st1\<lparr>pm_events := pm_events st1 @ [(purchaseId, p)]\<rparr> else st1)"

section \<open>Reconciliation and health\<close>

record ramp_recon_result =
  rr_checkedAt :: int
  rr_totalChecked :: nat
  rr_mismatches :: nat
  rr_mismatchedPurchaseIds :: "string list"
  rr_ok :: bool

text \<open>The call of the provider is a placeholder: it has no answer for any purchase.\<close>

definition queryRampProviderStatus :: "string \<Rightarrow> (string \<times> string option) option" where
  "queryRampProviderStatus purchaseId = None"

fun reconcile_rows :: "int \<Rightarrow> (string \<Rightarrow> (string \<times> string option) option) \<Rightarrow> (string \<times> purchase_row) list \<Rightarrow> premium_ramp \<Rightarrow> string list \<times> premium_ramp" where
  "reconcile_rows now query [] st = ([], st)"
| "reconcile_rows now query ((i, local) # rows) st =
     (case query i of
        Some (status, hash) \<Rightarrow>
          if status \<noteq> pu_status local
          then let st1 = st\<lparr>pm_tx := updateMany (\<lambda>k _. k = i) (\<lambda>t. t\<lparr>pu_status := status,
                     pu_finalTxHash := (case hash of Some (c # cs) \<Rightarrow> Some (c # cs) | _ \<Rightarrow> pu_finalTxHash local), pr_lastSyncedAt := now\<rparr>) (pm_tx st)\<rparr>;
                   (ids, st2) = reconcile_rows now query rows st1
               in (i # ids, st2)
          else reconcile_rows now query rows st
      | None \<Rightarrow> reconcile_rows now query rows st)"

definition ramp_runReconciliation :: "string option \<Rightarrow> int \<Rightarrow> premium_ramp \<Rightarrow> ramp_recon_result \<times> premium_ramp" where
  "ramp_runReconciliation apiKey now st =
     (let none = \<lparr>rr_checkedAt = now, rr_totalChecked = 0, rr_mismatches = 0, rr_mismatchedPurchaseIds = [], rr_ok = True\<rparr> in
      case apiKey of
        Some (c # cs) \<Rightarrow>
          (let locals = findMany (\<lambda>_ t. now - 24 * 60 * 60 * 1000 \<le> pr_lastSyncedAt t) (pm_tx st) in
           if locals = [] then (none, st)
           else let (ids, st') = reconcile_rows now queryRampProviderStatus locals st
                in (\<lparr>rr_checkedAt = now, rr_totalChecked = length locals, rr_mismatches = length ids, rr_mismatchedPurchaseIds = ids,
                     rr_ok = (ids = [])\<rparr>, st'))
      | _ \<Rightarrow> (none, st))"

record ramp_health_result =
  rh_status :: string
  rh_checkedAt :: int
  rh_errorMessage :: "string option"

record ramp_health =
  rh_lastStatus :: "ramp_health_result option"
  rh_lastKnownStatus :: "string option"
  rh_rows :: "ramp_health_result list"

definition pingRampProvider :: "string \<Rightarrow> string \<times> string option" where
  "pingRampProvider url = (''up'', None)"

definition ramp_checkHealth :: "string option \<Rightarrow> int \<Rightarrow> ramp_health \<Rightarrow> ramp_health_result \<times> ramp_health" where
  "ramp_checkHealth healthUrl now st =
     (case healthUrl of
        Some (c # cs) \<Rightarrow>
          (let (status, msg) = pingRampProvider (c # cs);
               result = \<lparr>rh_status = status, rh_checkedAt = now, rh_errorMessage = msg\<rparr>
           in (result, st\<lparr>rh_lastKnownStatus := Some status, rh_lastStatus := Some result, rh_rows := rh_rows st @ [result]\<rparr>))
      | _ \<Rightarrow> (let result = \<lparr>rh_status = ''down'', rh_checkedAt = now, rh_errorMessage = Some ''RAMP_HEALTH_URL not configured''\<rparr>
              in (result, st\<lparr>rh_lastStatus := Some result\<rparr>)))"

section \<open>Completion is announced once\<close>

text \<open>What the statuses of one purchase announce: each change into \<open>COMPLETE\<close>.\<close>

fun rises :: "bool \<Rightarrow> bool list \<Rightarrow> nat" where
  "rises was [] = 0"
| "rises was (b # bs) = (if b \<and> \<not> was then 1 else 0) + rises b bs"

abbreviation events_of :: "string \<Rightarrow> premium_ramp \<Rightarrow> (string \<times> purchase) list" where
  "events_of i st \<equiv> filter (\<lambda>e. fst e = i) (pm_events st)"

lemma as_row_status [simp]: "pu_status (as_row now p) = pu_status p"
  by (simp add: as_row_def purchase.defs)

definition record_all :: "(int \<times> string \<times> purchase) list \<Rightarrow> premium_ramp \<Rightarrow> premium_ramp" where
  "record_all us st = foldl (\<lambda>st (now, i, p). recordStatus now i p st) st us"

lemma recordStatus_status:
  "map_option pu_status (findUnique (pm_tx (recordStatus now j p st)) i) =
   (if i = j then Some (pu_status p) else map_option pu_status (findUnique (pm_tx st) i))"
  by (simp add: recordStatus_def Let_def findUnique_upsert split: option.split)

lemma record_all_events:
  "length (events_of i (record_all us st)) = length (events_of i st) +
     rises (map_option pu_status (findUnique (pm_tx st) i) = Some COMPLETE)
       (map (\<lambda>(_, _, p). pu_status p = COMPLETE) (filter (\<lambda>(_, j, _). j = i) us))"
proof (induction us arbitrary: st)
  case (Cons u us)
  obtain now j p where u: "u = (now, j, p)" by (cases u)
  have "length (events_of i (recordStatus now j p st)) = length (events_of i st) +
      (if j = i \<and> pu_status p = COMPLETE \<and> map_option pu_status (findUnique (pm_tx st) i) \<noteq> Some COMPLETE then 1 else 0)"
    by (simp add: recordStatus_def Let_def)
  moreover have "record_all (u # us) st = record_all us (recordStatus now j p st)" by (simp add: record_all_def u)
  ultimately show ?case by (simp add: Cons u recordStatus_status)
qed (simp add: record_all_def)

lemma rises_sorted: "rises was (replicate n True) = (if was \<or> n = 0 then 0 else 1)"
proof (induction n arbitrary: was)
  case (Suc n)
  show ?case using Suc [of True] by simp
qed simp

text \<open>For every sequence of provider callbacks, whatever purchases they are about and in whatever order they arrive, the number of
  \<open>ramp.completed\<close> events of a purchase is the number of times its status changed into COMPLETE: repeated callbacks announce
  nothing, while a callback that arrives late and takes the status back lets the next one announce the funding again.\<close>

theorem completed_events_are_rises:
  "length (filter (\<lambda>e. fst e = i) (pm_events (foldl (\<lambda>st (now, j, p). recordStatus now j p st) st us))) =
   length (filter (\<lambda>e. fst e = i) (pm_events st)) +
   rises (map_option pu_status (findUnique (pm_tx st) i) = Some COMPLETE)
     (map (\<lambda>(_, _, p). pu_status p = COMPLETE) (filter (\<lambda>(_, j, _). j = i) us))"
  using record_all_events [of i us st] by (simp add: record_all_def)

lemma placeholder_finds_nothing: "reconcile_rows now queryRampProviderStatus rows st = ([], st)"
  by (induction rows) (auto simp: queryRampProviderStatus_def)

text \<open>The reconciliation of purchases never changes a row and always reports success.\<close>

lemma reconciliation_is_noop: "snd (ramp_runReconciliation apiKey now st) = st \<and> rr_ok (fst (ramp_runReconciliation apiKey now st))"
  by (auto simp: ramp_runReconciliation_def Let_def placeholder_finds_nothing split: option.split list.split)

section \<open>Stuck transactions\<close>

lemma put_tx_fold:
  "rd_tx (foldl (\<lambda>db it. put_tx (fst it) f db) db its) =
   map (\<lambda>(k, t). (k, (f ^^ length (filter (\<lambda>it. fst it = k) its)) t)) (rd_tx db)"
proof (induction its arbitrary: db)
  case (Cons it its)
  show ?case unfolding foldl_Cons Cons
    by (auto simp: put_tx_def updateMany_def funpow_swap1)
qed (simp add: split_def)

lemma filter_key_unique:
  assumes "keys_unique t" "(k, v) \<in> set t"
  shows "filter (\<lambda>it. fst it = k) (findMany P t) = (if P k v then [(k, v)] else [])"
  using assms
proof (induction t)
  case (Cons kv t)
  then show ?case by (cases kv) (force simp: keys_unique_def findMany_def filter_empty_conv)
qed simp

lemma stuck_exact:
  assumes "keys_unique (rd_tx db)"
  shows "rd_tx (reconcileStuckTransactions True now db) =
         map (\<lambda>(k, t). (k, if is_stuck now t then t\<lparr>rt_stuck := True, rt_stuckFlaggedAt := Some now\<rparr> else t)) (rd_tx db)"
  unfolding reconcileStuckTransactions_def
  by (simp add: put_tx_fold) (use assms in \<open>auto simp: filter_key_unique\<close>)

lemma flagged_once:
  assumes "keys_unique (rd_tx db)" "(k, t) \<in> set (rd_tx (reconcileStuckTransactions True now db))" "now2 \<le> now"
  shows "\<not> is_stuck now2 t"
  using assms(2,3) unfolding stuck_exact [OF assms(1)] by (auto simp: is_stuck_def in_flight_def split: if_splits)

section \<open>The poller leaves final transactions alone\<close>

lemma poll_one_other:
  assumes "k \<noteq> fst it"
  shows "findUnique (rd_tx (poll_one anchorUrl get now it db)) k = findUnique (rd_tx db) k"
  using assms by (auto simp: poll_one_def handleStatusUpdate_def put_tx_def findUnique_updateMany option.map_ident split: option.split)

text \<open>Only the callback can take a final status back; the poller reads none but transactions in flight.\<close>

lemma poll_keeps_final:
  assumes "keys_unique (rd_tx db)" "findUnique (rd_tx db) k = Some t" "\<not> in_flight t"
  shows "findUnique (rd_tx (pollTransactionStatuses enabled anchorUrl get now db)) k = Some t"
proof -
  have fold: "findUnique (rd_tx (foldl (\<lambda>db it. poll_one anchorUrl get now it db) db its)) k = findUnique (rd_tx db) k"
    if "k \<notin> fst ` set its" for its db
    using that by (induction its arbitrary: db) (simp_all add: poll_one_other)
  have "k \<notin> fst ` set (findMany (\<lambda>_ t. in_flight t) (rd_tx db))"
    using assms unfolding findMany_def findUnique_def keys_unique_def by (auto dest: eq_key_imp_eq_value)
  then show ?thesis using fold assms(2) by (simp add: pollTransactionStatuses_def)
qed

lemma callback_reopens:
  assumes "findUnique (rd_tx db) i = Some t"
  shows "\<exists>db'. handleStatusUpdate now i Rp_PENDING None db = Inr db' \<and> map_option rt_status (findUnique (rd_tx db') i) = Some Rp_PENDING"
  using assms by (simp add: handleStatusUpdate_def put_tx_def status_change_def findUnique_updateMany)

text \<open>A flow that cannot be started leaves a failed transaction behind, and no transaction in flight.\<close>

lemma failed_flow_is_recorded:
  assumes "getHealthyProvider db = Some (pid, p)" "findUnique (rd_tx db) newId = None" "post (interactive_url anchorUrl p d) = (\<lambda>_. None)"
  shows "\<exists>db'. startFlow True anchorUrl post now newId u d asset amount db = (Inl Anchor_Failed, db') \<and>
     map_option rt_status (findUnique (rd_tx db') newId) = Some Rp_FAILED \<and> length (rd_tx db') = Suc (length (rd_tx db))"
proof -
  have "findUnique (rd_tx db @ [(newId, v)]) newId = Some v" for v
    using assms(2) by (simp add: findUnique_def map_add_def)
  then show ?thesis using assms(1,3)
    by (simp add: startFlow_def Let_def put_tx_def findUnique_updateMany) (simp add: updateMany_def)
qed

end
