(* ===== verification/Feature_Flags.thy ===== *)
theory Feature_Flags
  imports Redis_Model Claims_Db
begin

text \<open>
  Feature flags: \<open>src/backend/src/feature-flags/feature-flag.service.ts\<close> (flags with rollouts in the database behind a Redis cache),
  \<open>feature-flags.service.ts\<close> (switches held in memory) and \<open>feature-flags.guard.ts\<close>.

  The cache operations catch every error as \<open>RedisService\<close> does, so they are the ones of \<open>Redis_Model\<close>. SHA-256 is an argument.
\<close>

section \<open>Flags with rollouts\<close>

record feature_flag =
  ff_type :: "string option"
  ff_enabled :: bool
  ff_rollout :: int
  ff_allowlist :: "string list option"

type_synonym flag_row = "string \<times> feature_flag"

record flag_context =
  fx_address :: "string option"
  fx_userId :: "string option"

record evaluated_flag =
  ev_key :: string
  ev_enabled :: bool
  ev_type :: string
  ev_rollout :: "int option"

record flag_state =
  fs_db :: "(string, feature_flag) table"
  fs_redis :: "feature_flag redis"

definition FLAG_CACHE_PREFIX :: string where "FLAG_CACHE_PREFIX = ''feature-flag:''"
definition FLAG_CACHE_TTL_SECONDS :: int where "FLAG_CACHE_TTL_SECONDS = 300"

definition DEFAULT_FLAGS :: "flag_row list" where
  "DEFAULT_FLAGS =
     [(''assets.enabled'', \<lparr>ff_type = Some ''boolean'', ff_enabled = True, ff_rollout = 100, ff_allowlist = None\<rparr>),
      (''assets.admin-crud'', \<lparr>ff_type = Some ''boolean'', ff_enabled = True, ff_rollout = 100, ff_allowlist = None\<rparr>),
      (''flags.percentage-rollout'', \<lparr>ff_type = Some ''percentage'', ff_enabled = True, ff_rollout = 0, ff_allowlist = None\<rparr>)]"

definition flag_save :: "string \<Rightarrow> feature_flag \<Rightarrow> flag_state \<Rightarrow> flag_state" where
  "flag_save k f st = st\<lparr>fs_db := upsert k f (\<lambda>_. f) (fs_db st)\<rparr>"

definition seedDefaults :: "flag_state \<Rightarrow> flag_state" where
  "seedDefaults st = foldl (\<lambda>st (k, f). if findUnique (fs_db st) k = None then flag_save k f st else st) st DEFAULT_FLAGS"

definition flag_cacheKey :: "string \<Rightarrow> string" where
  "flag_cacheKey k = FLAG_CACHE_PREFIX @ k"

definition flag_readCache :: "string \<Rightarrow> flag_state \<Rightarrow> feature_flag option \<times> flag_state" where
  "flag_readCache k st = (case redis_get (flag_cacheKey k) (fs_redis st) of
     (Inr v, r) \<Rightarrow> (v, st\<lparr>fs_redis := r\<rparr>) | (Inl _, r) \<Rightarrow> (None, st\<lparr>fs_redis := r\<rparr>))"

definition flag_writeCache :: "string \<Rightarrow> feature_flag \<Rightarrow> flag_state \<Rightarrow> flag_state" where
  "flag_writeCache k f st = st\<lparr>fs_redis := snd (redis_set (flag_cacheKey k) f FLAG_CACHE_TTL_SECONDS (fs_redis st))\<rparr>"

definition flag_invalidateCache :: "string \<Rightarrow> flag_state \<Rightarrow> flag_state" where
  "flag_invalidateCache k st = st\<lparr>fs_redis := snd (redis_del (flag_cacheKey k) (fs_redis st))\<rparr>"

definition getFlag :: "string \<Rightarrow> flag_state \<Rightarrow> feature_flag option \<times> flag_state" where
  "getFlag k st =
     (case flag_readCache k st of
        (Some cached, st1) \<Rightarrow> (Some cached, st1)
      | (None, st1) \<Rightarrow>
          (case findUnique (fs_db st1) k of
             None \<Rightarrow> (None, st1)
           | Some f \<Rightarrow> (Some f, flag_writeCache k f st1)))"

text \<open>The bucket of an identity: the first 32 bits of the digest modulo 100.\<close>

definition bucket :: "(string \<Rightarrow> string) \<Rightarrow> string \<Rightarrow> string \<Rightarrow> int" where
  "bucket sha256hex k address = int (radix_val 16 (take 8 (sha256hex (k @ '':'' @ address)))) mod 100"

definition isInRollout :: "(string \<Rightarrow> string) \<Rightarrow> string \<Rightarrow> string \<Rightarrow> int \<Rightarrow> bool" where
  "isInRollout sha256hex k address rollout =
     (if rollout \<le> 0 then False else if 100 \<le> rollout then True else bucket sha256hex k address < rollout)"

definition evaluate_flag :: "(string \<Rightarrow> string) \<Rightarrow> string \<Rightarrow> flag_context \<Rightarrow> feature_flag option \<Rightarrow> evaluated_flag" where
  "evaluate_flag sha256hex k ctx flag =
     (case flag of
        None \<Rightarrow> \<lparr>ev_key = k, ev_enabled = False, ev_type = ''boolean'', ev_rollout = None\<rparr>
      | Some f \<Rightarrow>
          let type = (case ff_type f of Some t \<Rightarrow> t | None \<Rightarrow> ''boolean'');
              identity = (case fx_address ctx of Some a \<Rightarrow> a | None \<Rightarrow> (case fx_userId ctx of Some u \<Rightarrow> u | None \<Rightarrow> []))
          in if \<not> ff_enabled f then \<lparr>ev_key = k, ev_enabled = False, ev_type = type, ev_rollout = None\<rparr>
             else if type = ''percentage''
             then \<lparr>ev_key = k, ev_enabled = (identity \<noteq> [] \<and> isInRollout sha256hex k identity (ff_rollout f)), ev_type = type,
                   ev_rollout = Some (ff_rollout f)\<rparr>
             else if type = ''allowlist''
             then \<lparr>ev_key = k, ev_enabled = (identity \<noteq> [] \<and> identity \<in> set (case ff_allowlist f of Some l \<Rightarrow> l | None \<Rightarrow> [])), ev_type = type,
                   ev_rollout = None\<rparr>
             else \<lparr>ev_key = k, ev_enabled = True, ev_type = ''boolean'', ev_rollout = None\<rparr>)"

definition flag_evaluate :: "(string \<Rightarrow> string) \<Rightarrow> string \<Rightarrow> flag_context \<Rightarrow> flag_state \<Rightarrow> evaluated_flag \<times> flag_state" where
  "flag_evaluate sha256hex k ctx st = (let (flag, st1) = getFlag k st in (evaluate_flag sha256hex k ctx flag, st1))"

fun evaluate_keys :: "(string \<Rightarrow> string) \<Rightarrow> flag_context \<Rightarrow> string list \<Rightarrow> flag_state \<Rightarrow> evaluated_flag list \<times> flag_state" where
  "evaluate_keys sha256hex ctx [] st = ([], st)"
| "evaluate_keys sha256hex ctx (k # ks) st =
     (let (e, st1) = flag_evaluate sha256hex k ctx st; (es, st2) = evaluate_keys sha256hex ctx ks st1 in (e # es, st2))"

definition evaluateAll :: "(string \<Rightarrow> string) \<Rightarrow> flag_context \<Rightarrow> flag_state \<Rightarrow> evaluated_flag list \<times> flag_state" where
  "evaluateAll sha256hex ctx st = evaluate_keys sha256hex ctx (map fst (fs_db st)) st"

definition flag_create :: "string \<Rightarrow> feature_flag \<Rightarrow> flag_state \<Rightarrow> flag_state" where
  "flag_create k f st = flag_invalidateCache k (flag_save k f st)"

text \<open>\<open>change\<close>: what \<open>Object.assign\<close> does with the fields of the request.\<close>

definition flag_update :: "string \<Rightarrow> (feature_flag \<Rightarrow> feature_flag) \<Rightarrow> flag_state \<Rightarrow> feature_flag option \<times> flag_state" where
  "flag_update k change st =
     (case getFlag k st of
        (None, st1) \<Rightarrow> (None, st1)
      | (Some f, st1) \<Rightarrow> (Some (change f), flag_invalidateCache k (flag_save k (change f) st1)))"

definition flag_remove :: "string \<Rightarrow> flag_state \<Rightarrow> flag_state" where
  "flag_remove k st = flag_invalidateCache k (st\<lparr>fs_db := filter (\<lambda>kv. fst kv \<noteq> k) (fs_db st)\<rparr>)"

datatype flag_act = Evaluate string flag_context | Create string feature_flag | Update_Flag string "feature_flag \<Rightarrow> feature_flag" | Remove string | Wait nat

definition flag_step :: "(string \<Rightarrow> string) \<Rightarrow> flag_state \<Rightarrow> flag_act \<Rightarrow> flag_state" where
  "flag_step sha256hex st a =
     (case a of
        Evaluate k ctx \<Rightarrow> snd (flag_evaluate sha256hex k ctx st)
      | Create k f \<Rightarrow> flag_create k f st
      | Update_Flag k change \<Rightarrow> snd (flag_update k change st)
      | Remove k \<Rightarrow> flag_remove k st
      | Wait ms \<Rightarrow> st\<lparr>fs_redis := (fs_redis st)\<lparr>r_now := r_now (fs_redis st) + int ms\<rparr>\<rparr>)"

section \<open>Switches in memory\<close>

record switch_state =
  sw_map :: "(string \<times> bool) list"
  sw_disabledStatus :: int

definition ALLOWED_FLAG_KEYS :: "string list" where
  "ALLOWED_FLAG_KEYS = [''claims_enabled'', ''claims_appeal_enabled'', ''policy_creation_enabled'', ''voting_enabled'', ''ramp_enabled'',
     ''graphql_enabled'', ''tenant_resolution'', ''maintenance_mode'', ''ipfs_upload_enabled'', ''quote_simulation_cache_enabled'',
     ''experimental_beta_calculators'', ''ENABLE_DEV_TOOLS'']"

text \<open>\<open>parse\<close> is \<open>JSON.parse\<close> with the truth of each value, \<open>None\<close> where it throws or gives no object.\<close>

definition parseFlags :: "(string \<Rightarrow> (string \<times> bool) list option) \<Rightarrow> string option \<Rightarrow> (string \<times> bool) list" where
  "parseFlags parse json =
     (case json of None \<Rightarrow> [] | Some s \<Rightarrow> if s = [] then [] else (case parse s of None \<Rightarrow> [] | Some kvs \<Rightarrow> kvs))"

definition switch_init :: "(string \<Rightarrow> (string \<times> bool) list option) \<Rightarrow> string option \<Rightarrow> string option \<Rightarrow> switch_state" where
  "switch_init parse json disabledStatus =
     \<lparr>sw_map = parseFlags parse json, sw_disabledStatus = (if disabledStatus = Some ''403'' then 403 else 404)\<rparr>"

text \<open>The rows of the table, or \<open>None\<close> where the query fails.\<close>

definition loadFlagsFromDb :: "(string \<times> bool) list option \<Rightarrow> switch_state \<Rightarrow> switch_state" where
  "loadFlagsFromDb rows st = st\<lparr>sw_map := (case rows of None \<Rightarrow> [] | Some kvs \<Rightarrow> kvs)\<rparr>"

definition switch_isEnabled :: "switch_state \<Rightarrow> string \<Rightarrow> bool" where
  "switch_isEnabled st k = (map_of (rev (sw_map st)) k = Some True)"

definition assertAllowlisted :: "string \<Rightarrow> bool" where
  "assertAllowlisted k = (k \<in> set ALLOWED_FLAG_KEYS)"

text \<open>The guard lets a request pass, or answers with a status.\<close>

definition flags_canActivate :: "switch_state \<Rightarrow> string option \<Rightarrow> int option" where
  "flags_canActivate st featureName =
     (case featureName of
        None \<Rightarrow> None
      | Some k \<Rightarrow> if k = [] \<or> switch_isEnabled st k then None else Some (if sw_disabledStatus st = 403 then 403 else 404))"

section \<open>Rollouts\<close>

lemma bucket_range: "0 \<le> bucket h k a \<and> bucket h k a < 100"
  by (simp add: bucket_def)

lemma rollout_threshold: "isInRollout h k a rollout \<longleftrightarrow> bucket h k a < rollout"
  using bucket_range [of h k a] by (auto simp: isInRollout_def)

text \<open>Raising a rollout never takes the flag from an identity that had it.\<close>

lemma rollout_monotone: "isInRollout h k a r \<Longrightarrow> r \<le> r' \<Longrightarrow> isInRollout h k a r'"
  by (simp add: rollout_threshold)

section \<open>The cache agrees with the database\<close>

definition flags_agree :: "flag_state \<Rightarrow> bool" where
  "flags_agree st \<longleftrightarrow> r_faults (fs_redis st) = [] \<and>
     (\<forall>k f. kv_live (fs_redis st) (flag_cacheKey k) = Some f \<longrightarrow> findUnique (fs_db st) k = Some f)"

lemma flag_cacheKey_inj [simp]: "flag_cacheKey k = flag_cacheKey k' \<longleftrightarrow> k = k'"
  by (simp add: flag_cacheKey_def)

lemma kv_live_upd:
  "kv_live (r\<lparr>r_kv := (r_kv r)(k := x)\<rparr>) k' =
   (if k' = k then (case x of None \<Rightarrow> None | Some (v, e) \<Rightarrow> if e \<le> r_now r then None else Some v) else kv_live r k')"
  by (simp add: kv_live_def split: option.split)

lemma getFlag_agrees:
  assumes "flags_agree st" "getFlag k st = (f, st')"
  shows "f = findUnique (fs_db st) k \<and> flags_agree st' \<and> fs_db st' = fs_db st"
proof (cases "kv_live (fs_redis st) (flag_cacheKey k)")
  case (Some g)
  then have "findUnique (fs_db st) k = Some g" "getFlag k st = (Some g, st)"
    using assms(1) by (simp_all add: getFlag_def flag_readCache_def redis_get_ok flags_agree_def)
  then show ?thesis using assms by simp
next
  case None
  then have eq: "getFlag k st = (findUnique (fs_db st) k, case findUnique (fs_db st) k of None \<Rightarrow> st | Some g \<Rightarrow> flag_writeCache k g st)"
    using assms(1) by (simp add: getFlag_def flag_readCache_def redis_get_ok flags_agree_def split: option.split)
  show ?thesis using assms eq
    by (auto simp: flags_agree_def flag_writeCache_def redis_set_ok kv_live_upd split: option.splits if_splits)
qed

lemma invalidate_agrees:
  assumes "flags_agree st" "\<And>j. j \<noteq> k \<Longrightarrow> findUnique (fs_db st') j = findUnique (fs_db st) j" "fs_redis st' = fs_redis st"
  shows "flags_agree (flag_invalidateCache k st')"
  using assms by (auto simp: flags_agree_def flag_invalidateCache_def redis_del_ok kv_live_upd split: if_splits)

lemma flag_save_other: "j \<noteq> k \<Longrightarrow> findUnique (fs_db (flag_save k f st)) j = findUnique (fs_db st) j"
  by (simp add: flag_save_def findUnique_upsert)

lemma flag_save_redis [simp]: "fs_redis (flag_save k f st) = fs_redis st"
  by (simp add: flag_save_def)

lemma flag_step_agrees:
  assumes "flags_agree st"
  shows "flags_agree (flag_step h st a)"
proof (cases a)
  case (Evaluate k ctx)
  then show ?thesis using getFlag_agrees [OF assms] by (cases "getFlag k st") (simp add: flag_step_def flag_evaluate_def)
next
  case (Create k f)
  then show ?thesis using assms
    by (simp add: flag_step_def flag_create_def) (rule invalidate_agrees [OF assms], simp_all add: flag_save_other)
next
  case (Update_Flag k change)
  obtain f st1 where g: "getFlag k st = (f, st1)" by fastforce
  note a1 = getFlag_agrees [OF assms g]
  show ?thesis
  proof (cases f)
    case None
    then show ?thesis using a1 by (simp add: Update_Flag flag_step_def flag_update_def g)
  next
    case (Some x)
    have "flags_agree (flag_invalidateCache k (flag_save k (change x) st1))"
      by (rule invalidate_agrees [of st1]) (use a1 in \<open>simp_all add: flag_save_other\<close>)
    then show ?thesis by (simp add: Update_Flag flag_step_def flag_update_def g Some)
  qed
next
  case (Remove k)
  have "map_of (filter (\<lambda>kv. fst kv \<noteq> k) t) j = map_of t j" if "j \<noteq> k" for t :: "(string, feature_flag) table" and j
    using that by (induction t) auto
  then show ?thesis
    by (simp add: Remove flag_step_def flag_remove_def) (rule invalidate_agrees [OF assms], simp_all add: findUnique_def)
next
  case (Wait ms)
  then show ?thesis using assms by (auto simp: flag_step_def flags_agree_def kv_live_def split: option.splits if_splits)
qed

interpretation flags: step_system "flag_step h" flags_agree
  by unfold_locales (rule flag_step_agrees)

text \<open>With Redis answering, the cache is transparent: after any sequence of evaluations, creations, updates, removals and waits, a
  flag evaluates to what the row in the database says, for every caller, and an update changes the row that is stored.\<close>

theorem flags_evaluate_database:
  assumes "flags_agree st"
  shows "let st' = run_steps (flag_step h) st as in
         fst (flag_evaluate h k ctx st') = evaluate_flag h k ctx (findUnique (fs_db st') k) \<and>
         fst (flag_update k change st') = map_option change (findUnique (fs_db st') k)"
proof -
  define st' where "st' = run_steps (flag_step h) st as"
  obtain f st1 where g: "getFlag k st' = (f, st1)" by fastforce
  have "flags_agree st'" using flags.run_inv [OF assms] by (simp add: st'_def)
  from getFlag_agrees [OF this g] show ?thesis
    by (simp add: flag_evaluate_def flag_update_def g flip: st'_def split: option.split)
qed

definition sample_flag :: feature_flag where
  "sample_flag = \<lparr>ff_type = Some ''boolean'', ff_enabled = True, ff_rollout = 100, ff_allowlist = None\<rparr>"

definition sample_flags :: "fault list \<Rightarrow> flag_state" where
  "sample_flags flts = \<lparr>fs_db = [(''x'', sample_flag)], fs_redis = (redis_empty 0)\<lparr>r_faults := flts\<rparr>\<rparr>"

definition anyone :: flag_context where
  "anyone = \<lparr>fx_address = None, fx_userId = None\<rparr>"

theorem flags_evaluate_database_witness:
  "let st' = run_steps (flag_step id) (sample_flags []) [Evaluate ''x'' anyone] in
   fst (flag_evaluate id ''x'' anyone st') = evaluate_flag id ''x'' anyone (findUnique (fs_db st') ''x'')"
proof -
  have "flags_agree (sample_flags [])" by (simp add: flags_agree_def sample_flags_def redis_empty_def kv_live_def)
  from flags_evaluate_database [OF this, of id "[Evaluate ''x'' anyone]" "''x''" anyone id] show ?thesis by (simp add: Let_def)
qed

text \<open>Where one deletion of the cached copy fails, switching a flag off does not last: the next update of another field starts from the
  cached copy and writes the flag back as enabled.\<close>

definition disable :: "feature_flag \<Rightarrow> feature_flag" where "disable f = f\<lparr>ff_enabled := False\<rparr>"
definition widen :: "feature_flag \<Rightarrow> feature_flag" where "widen f = f\<lparr>ff_rollout := 50\<rparr>"

lemma lost_deletion_reverts_disable:
  "let st1 = run_steps (flag_step id) (sample_flags [Ok, Ok, Ok, Refused]) [Evaluate ''x'' anyone, Update_Flag ''x'' disable]
   in map_option ff_enabled (findUnique (fs_db st1) ''x'') = Some False \<and>
      map_option ff_enabled (findUnique (fs_db (flag_step id st1 (Update_Flag ''x'' widen))) ''x'') = Some True"
  by code_simp

text \<open>The switches of the environment are gone as soon as the module has started: the table replaces them, empty or not.\<close>

lemma env_flags_dropped:
  "sw_map (loadFlagsFromDb rows (switch_init parse json s)) = (case rows of None \<Rightarrow> [] | Some kvs \<Rightarrow> kvs)"
  by (simp add: loadFlagsFromDb_def)

lemma failed_load_disables_all: "switch_isEnabled (loadFlagsFromDb None st) k = False"
  by (simp add: loadFlagsFromDb_def switch_isEnabled_def)

end
