(* ===== verification/Claim_History.thy ===== *)
theory Claim_History
  imports Tenancy
begin

text \<open>
  The history and the timeline of a claim (\<open>src/backend/src/claims/services/claim-history.service.ts\<close>), read from the raw events that the
  indexer records, and the download of evidence (\<open>claims/services/evidence-proxy.service.ts\<close>).

  Times are milliseconds; \<open>String.prototype.localeCompare\<close> of two timestamps is an argument.
\<close>

section \<open>Rows\<close>

record raw_row = raw_event_row +
  rw_id :: int
  rw_txHash :: string
  rw_eventIndex :: int

record history_claim = claim_row +
  hc_id :: int
  hc_createdAt :: int
  hc_updatedAt :: int
  hc_tenantId :: "string option"
  hc_eventIndex :: "int option"

record history_entry =
  he_status :: string
  he_ledger :: int
  he_timestamp :: string
  he_actor :: "string option"
  he_reason :: "string option"

definition claim_where :: "string option \<Rightarrow> int \<Rightarrow> history_claim where_obj" where
  "claim_where tid claimId = tenantWhere hc_tenantId cl_deleted tid [(''id'', \<lambda>c. hc_id c = claimId)] False"

definition find_claim :: "string option \<Rightarrow> int \<Rightarrow> history_claim list \<Rightarrow> history_claim option" where
  "find_claim tid claimId claims = List.find (matches_where (claim_where tid claimId)) claims"

definition claim_status_name :: "claim_status \<Rightarrow> string" where
  "claim_status_name s = (case s of PENDING \<Rightarrow> ''PENDING'' | APPROVED \<Rightarrow> ''APPROVED'' | PAID \<Rightarrow> ''PAID'' | REJECTED \<Rightarrow> ''REJECTED''
     | UNDER_APPEAL \<Rightarrow> ''UNDER_APPEAL'' | APPEAL_APPROVED \<Rightarrow> ''APPEAL_APPROVED'' | APPEAL_REJECTED \<Rightarrow> ''APPEAL_REJECTED'')"

definition LEGACY_TOPICS :: "string list" where
  "LEGACY_TOPICS = [''claim_pd'', ''claim_filed'', ''claim_approved'', ''claim_rejected'', ''claim_withdrawn'']"

definition CONTRACT_CLAIM_EVENTS :: "string list" where
  "CONTRACT_CLAIM_EVENTS = [''clm_filed'', ''claim_status_changed'', ''clm_final'', ''clm_paid'']"

definition CONTRACT_POLICY_EVENTS :: "string list" where
  "CONTRACT_POLICY_EVENTS = [''claim_withdrawn'', ''claim_fully_paid'', ''appeal_opened'', ''appeal_resolved'', ''appeal_filed'', ''appeal_approved'',
     ''appeal_rejected'']"

definition LEGACY_APPEAL_EVENTS :: "string list" where
  "LEGACY_APPEAL_EVENTS = [''filed'', ''approved'', ''rejected'']"

definition in_topics :: "string list \<Rightarrow> string option \<Rightarrow> bool" where
  "in_topics ts t = (case t of None \<Rightarrow> False | Some s \<Rightarrow> s \<in> set ts)"

text \<open>\<open>txHash: claim.txHash ?? undefined\<close>: without a hash the condition is absent.\<close>

definition same_tx :: "history_claim \<Rightarrow> raw_row where_obj" where
  "same_tx c = (case cl_txHash c of None \<Rightarrow> [] | Some h \<Rightarrow> [(''txHash'', \<lambda>e. rw_txHash e = h)])"

definition event_order :: "raw_row list \<Rightarrow> raw_row list" where
  "event_order es = sort_key re_ledger (sort_key rw_id es)"

section \<open>The history\<close>

definition jint :: "jsval \<Rightarrow> int option" where
  "jint v = (case v of JNum (Fin i) \<Rightarrow> Some i | _ \<Rightarrow> None)"

text \<open>The cursor: an object with numbers \<open>ledger\<close> and \<open>id\<close>; a cursor that does not parse is ignored.\<close>

definition history_cursor :: "int \<Rightarrow> int \<Rightarrow> string" where
  "history_cursor ledger i = base64url_encode ([CHR 0x7B, CHR 0x22] @ ''ledger'' @ [CHR 0x22] @ '':'' @ show_int ledger @ '','' @ [CHR 0x22] @ ''id'' @
     [CHR 0x22] @ '':'' @ show_int i @ [CHR 0x7D])"

definition decode_history_cursor :: "string option \<Rightarrow> (int \<times> int) option" where
  "decode_history_cursor cursor =
     (case cursor of
        None \<Rightarrow> None
      | Some c \<Rightarrow>
          if c = [] then None
          else (case JSON_parse (base64url_decode c) of
                  None \<Rightarrow> None
                | Some v \<Rightarrow> (case (jint (json_field v ''ledger''), jint (json_field v ''id'')) of (Some l, Some i) \<Rightarrow> Some (l, i) | _ \<Rightarrow> None)))"

text \<open>The condition of the query is one object literal. It spreads an \<open>OR\<close> for the cursor and then has an \<open>OR\<close> of its own.\<close>

definition after_cursor :: "(int \<times> int) option \<Rightarrow> raw_row where_obj" where
  "after_cursor after = (case after of None \<Rightarrow> [] | Some (l, i) \<Rightarrow> [(''OR'', \<lambda>e. l < re_ledger e \<or> re_ledger e = l \<and> i < rw_id e)])"

definition history_where :: "history_claim \<Rightarrow> (int \<times> int) option \<Rightarrow> raw_row where_obj" where
  "history_where c after = spread (spread (same_tx c) (after_cursor after)) [(''OR'', \<lambda>e. in_topics LEGACY_TOPICS (re_topic1 e))]"

definition mapTopicToStatus :: "string \<Rightarrow> string" where
  "mapTopicToStatus topic =
     (if topic = ''claim_filed'' then ''pending''
      else if topic = ''claim_approved'' then ''approved''
      else if topic = ''claim_pd'' \<or> topic = ''claim_paid'' then ''paid''
      else if topic = ''claim_rejected'' then ''rejected''
      else to_lower topic)"

definition string_field :: "jsval \<Rightarrow> string \<Rightarrow> string option" where
  "string_field d k = (case json_field d k of JStr s \<Rightarrow> Some s | _ \<Rightarrow> None)"

definition or_empty :: "string option \<Rightarrow> string" where
  "or_empty t = (case t of None \<Rightarrow> [] | Some s \<Rightarrow> s)"

definition history_of_event :: "raw_row \<Rightarrow> history_entry" where
  "history_of_event e = \<lparr>he_status = mapTopicToStatus (or_empty (re_topic1 e)), he_ledger = re_ledger e,
     he_timestamp = js_toISOString (re_ledgerClosedAt e), he_actor = string_field (re_data e) ''actor'', he_reason = string_field (re_data e) ''reason''\<rparr>"

definition synthesized :: "history_claim \<Rightarrow> history_entry list" where
  "synthesized c =
     (let entry = (\<lambda>status. \<lparr>he_status = status, he_ledger = cl_createdAtLedger c, he_timestamp = js_toISOString (hc_createdAt c),
            he_actor = None, he_reason = None\<rparr>)
      in entry ''pending'' # (if cl_status c \<noteq> PENDING then [entry (to_lower (claim_status_name (cl_status c)))] else []))"

definition getHistory ::
  "string option \<Rightarrow> history_claim list \<Rightarrow> raw_row list \<Rightarrow> int \<Rightarrow> string option \<Rightarrow> int \<Rightarrow> (history_entry list \<times> string option) option" where
  "getHistory tid claims rows claimId cursor lim =
     (case find_claim tid claimId claims of
        None \<Rightarrow> None
      | Some c \<Rightarrow>
          let n = nat (min (max 1 lim) 100);
              events = take (Suc n) (event_order (filter (matches_where (history_where c (decode_history_cursor cursor))) rows));
              hasMore = length events > n;
              page = (if hasMore then take n events else events);
              data = map history_of_event page;
              data' = (if data = [] \<and> (cursor = None \<or> cursor = Some []) then synthesized c else data)
          in Some (data', if hasMore \<and> page \<noteq> [] then Some (history_cursor (re_ledger (last page)) (rw_id (last page))) else None))"

section \<open>The timeline\<close>

definition timeline_where :: "history_claim \<Rightarrow> int \<Rightarrow> raw_row \<Rightarrow> bool" where
  "timeline_where c claimId e =
     (matches_where (same_tx c) e \<and> in_topics LEGACY_TOPICS (re_topic1 e) \<or>
      re_topic1 e = Some ''niffyins'' \<and> in_topics CONTRACT_CLAIM_EVENTS (re_topic2 e) \<and> re_topic3 e = Some (show_int claimId) \<or>
      re_topic1 e = Some ''niffyinsure'' \<and> in_topics CONTRACT_POLICY_EVENTS (re_topic2 e) \<and> re_topic3 e = Some (show_int claimId) \<or>
      re_topic1 e = Some ''appeal'' \<and> in_topics LEGACY_APPEAL_EVENTS (re_topic2 e) \<and> re_topic3 e = Some (show_int claimId))"

definition lower_or_unknown :: "jsval \<Rightarrow> string \<Rightarrow> string" where
  "lower_or_unknown d k = (case string_field d k of Some s \<Rightarrow> to_lower s | None \<Rightarrow> ''unknown'')"

definition appeal_outcome :: "jsval \<Rightarrow> jsval" where
  "appeal_outcome d =
     (if \<not> nullish (json_field d ''outcome'') then json_field d ''outcome''
      else if \<not> nullish (json_field d ''new_status'') then json_field d ''new_status''
      else json_field d ''status'')"

definition resolved_status :: "jsval \<Rightarrow> string" where
  "resolved_status d =
     (case appeal_outcome d of
        JStr s \<Rightarrow> (let lower = to_lower s in if str_includes ''approv'' lower then ''appeal_approved''
                 else if str_includes ''reject'' lower then ''appeal_rejected'' else lower)
      | _ \<Rightarrow> ''appeal_resolved'')"

definition mapRawEventToStatus :: "string option \<Rightarrow> string option \<Rightarrow> jsval \<Rightarrow> string" where
  "mapRawEventToStatus topic1 topic2 d =
     (let t1 = or_empty topic1; t2 = or_empty topic2; other = to_lower (if t2 = [] then t1 else t2) in
      if t1 = ''claim_filed'' then ''pending''
      else if t1 = ''claim_approved'' then ''approved''
      else if t1 = ''claim_rejected'' then ''rejected''
      else if t1 = ''claim_pd'' \<or> t1 = ''claim_paid'' then ''paid''
      else if t1 = ''claim_withdrawn'' then ''withdrawn''
      else if t1 = ''niffyins''
      then (if t2 = ''clm_filed'' then ''pending'' else if t2 = ''claim_status_changed'' then lower_or_unknown d ''new_status''
            else if t2 = ''clm_final'' then lower_or_unknown d ''status'' else if t2 = ''clm_paid'' then ''paid'' else other)
      else if t1 = ''niffyinsure''
      then (if t2 = ''claim_withdrawn'' then ''withdrawn'' else if t2 = ''claim_fully_paid'' then ''paid''
            else if t2 = ''appeal_opened'' \<or> t2 = ''appeal_filed'' then ''under_appeal'' else if t2 = ''appeal_approved'' then ''appeal_approved''
            else if t2 = ''appeal_rejected'' then ''appeal_rejected'' else if t2 = ''appeal_resolved'' then resolved_status d else other)
      else if t1 = ''appeal''
      then (if t2 = ''filed'' then ''under_appeal'' else if t2 = ''approved'' then ''appeal_approved''
            else if t2 = ''rejected'' then ''appeal_rejected'' else other)
      else other)"

definition extractActor :: "string option \<Rightarrow> string option \<Rightarrow> string option \<Rightarrow> jsval \<Rightarrow> string option" where
  "extractActor topic1 topic2 topic4 d =
     (let t1 = or_empty topic1; t2 = or_empty topic2 in
      case string_field d ''actor'' of
        Some a \<Rightarrow> Some a
      | None \<Rightarrow>
          if t1 = ''niffyins''
          then (if t2 = ''clm_filed'' then topic4 else if t2 = ''clm_paid'' then string_field d ''recipient'' else None)
          else if t1 = ''niffyinsure''
          then (if t2 = ''claim_withdrawn'' then string_field d ''claimant'' else if t2 = ''claim_fully_paid'' then string_field d ''recipient''
                else if t2 \<in> {''appeal_opened'', ''appeal_filed'', ''appeal_resolved'', ''appeal_approved'', ''appeal_rejected''}
                then string_field d ''claimant'' else None)
          else if t1 = ''appeal'' then string_field d ''claimant'' else None)"

definition resolved_reason :: "jsval \<Rightarrow> string" where
  "resolved_reason d =
     (case appeal_outcome d of
        JStr s \<Rightarrow> (let lower = to_lower s in if str_includes ''approv'' lower then ''Appeal approved''
                 else if str_includes ''reject'' lower then ''Appeal rejected'' else ''Appeal resolved'')
      | _ \<Rightarrow> ''Appeal resolved'')"

definition extractReason :: "string option \<Rightarrow> string option \<Rightarrow> jsval \<Rightarrow> string option" where
  "extractReason topic1 topic2 d =
     (let t1 = or_empty topic1; t2 = or_empty topic2 in
      case string_field d ''reason'' of
        Some r \<Rightarrow> Some r
      | None \<Rightarrow>
          if t1 = ''niffyins''
          then (if t2 = ''clm_final''
                then (if json_field d ''status'' = JStr ''Approved'' then Some ''Vote majority reached''
                      else if json_field d ''status'' = JStr ''Rejected'' then Some ''Vote majority rejected'' else None)
                else if t2 = ''clm_paid'' then Some ''Payout processed'' else None)
          else if t1 = ''niffyinsure''
          then (if t2 = ''claim_withdrawn'' then Some ''Claimant withdrawal'' else if t2 = ''claim_fully_paid'' then Some ''Fully paid''
                else if t2 = ''appeal_opened'' \<or> t2 = ''appeal_filed'' then Some ''Appeal opened''
                else if t2 = ''appeal_approved'' then Some ''Appeal approved'' else if t2 = ''appeal_rejected'' then Some ''Appeal rejected''
                else if t2 = ''appeal_resolved'' then Some (resolved_reason d) else None)
          else if t1 = ''appeal''
          then (if t2 = ''filed'' then Some ''Appeal opened'' else if t2 = ''approved'' then Some ''Appeal approved''
                else if t2 = ''rejected'' then Some ''Appeal rejected'' else None)
          else None)"

definition timeline_of_event :: "raw_row \<Rightarrow> history_entry" where
  "timeline_of_event e = \<lparr>he_status = mapRawEventToStatus (re_topic1 e) (re_topic2 e) (re_data e), he_ledger = re_ledger e,
     he_timestamp = js_toISOString (re_ledgerClosedAt e), he_actor = extractActor (re_topic1 e) (re_topic2 e) (re_topic4 e) (re_data e),
     he_reason = extractReason (re_topic1 e) (re_topic2 e) (re_data e)\<rparr>"

text \<open>A stable sort of the entries by ledger and then by timestamp; \<open>rank\<close> is the order of \<open>localeCompare\<close>.\<close>

definition timeline_sort :: "(string \<Rightarrow> int) \<Rightarrow> history_entry list \<Rightarrow> history_entry list" where
  "timeline_sort rank es = sort_key he_ledger (sort_key (\<lambda>e. rank (he_timestamp e)) es)"

definition was_appealed :: "history_claim \<Rightarrow> bool" where
  "was_appealed c = (0 < cl_appealsCount c \<or> cl_appealTxHash c \<noteq> None \<and> cl_appealTxHash c \<noteq> Some [] \<or> cl_status c = UNDER_APPEAL)"

definition appendSyntheticAppealTransitions :: "(string \<Rightarrow> int) \<Rightarrow> history_entry list \<Rightarrow> history_claim \<Rightarrow> history_entry list" where
  "appendSyntheticAppealTransitions rank data c =
     (let hasAppealOpen = list_ex (\<lambda>e. he_status e = ''under_appeal'') data;
          hasAppealResolve = list_ex (\<lambda>e. he_status e = ''appeal_approved'' \<or> he_status e = ''appeal_rejected'') data;
          entry = (\<lambda>status reason. \<lparr>he_status = status, he_ledger = cl_updatedAtLedger c, he_timestamp = js_toISOString (hc_updatedAt c),
            he_actor = None, he_reason = Some reason\<rparr>);
          opened = (if hasAppealOpen then [] else [entry ''under_appeal'' ''Appeal opened'']);
          resolved = (if \<not> hasAppealResolve \<and> (cl_status c = APPROVED \<or> cl_status c = REJECTED) \<and> 0 < cl_appealsCount c
                      then [if cl_status c = APPROVED then entry ''appeal_approved'' ''Appeal approved'' else entry ''appeal_rejected'' ''Appeal rejected'']
                      else [])
      in if \<not> was_appealed c then data else timeline_sort rank (data @ opened @ resolved))"

definition getTimeline :: "(string \<Rightarrow> int) \<Rightarrow> string option \<Rightarrow> history_claim list \<Rightarrow> raw_row list \<Rightarrow> int \<Rightarrow> history_entry list option" where
  "getTimeline rank tid claims rows claimId =
     (case find_claim tid claimId claims of
        None \<Rightarrow> None
      | Some c \<Rightarrow>
          let data = map timeline_of_event (event_order (filter (timeline_where c claimId) rows));
              data' = (if data = [] then synthesized c else data)
          in Some (appendSyntheticAppealTransitions rank data' c))"


section \<open>Evidence downloads\<close>

record evidence_claim =
  ec_creatorAddress :: string
  ec_imageUrls :: "string list"
  ec_txHash :: "string option"
  ec_eventIndex :: "int option"
  ec_voters :: "string list"    \<comment> \<open>of the votes not deleted\<close>

datatype proxy_error = Claim_Not_Found | Access_Denied | Evidence_Index | Gateway_Status int | Fetch_Throws

record fetched_evidence =
  fe_content :: "nat list"
  fe_contentType :: string
  fe_filename :: string
  fe_evidenceUrl :: string
  fe_verified :: bool
  fe_hashMismatch :: bool
  fe_sha256Hex :: string

record proxy_env =
  px_gateway :: string
  px_adminToken :: string
  px_sha256hex :: "nat list \<Rightarrow> string"
  px_fetch :: "string \<Rightarrow> (int \<times> string option \<times> nat list) option"    \<comment> \<open>status, content type, body; \<open>None\<close> throws\<close>

definition assertAuthorized :: "proxy_env \<Rightarrow> evidence_claim \<Rightarrow> string \<Rightarrow> bool" where
  "assertAuthorized env c wallet =
     (to_lower (ec_creatorAddress c) = to_lower wallet \<or> list_ex (\<lambda>v. to_lower v = to_lower wallet) (ec_voters c) \<or>
      px_adminToken env \<noteq> [] \<and> wallet = px_adminToken env)"

definition resolveGatewayUrl :: "proxy_env \<Rightarrow> string \<Rightarrow> string" where
  "resolveGatewayUrl env raw =
     (if starts_with ''http://'' raw \<or> starts_with ''https://'' raw then raw
      else px_gateway env @ ''/ipfs/'' @ (if starts_with ''ipfs://'' raw then drop 7 raw else raw))"

definition getStoredEvidenceHash :: "raw_row list \<Rightarrow> evidence_claim \<Rightarrow> nat \<Rightarrow> string option" where
  "getStoredEvidenceHash rows c index =
     (case (ec_txHash c, ec_eventIndex c) of
        (Some (h # hs), Some ei) \<Rightarrow>
          (case List.find (\<lambda>e. rw_txHash e = h # hs \<and> rw_eventIndex e = ei) rows of
             None \<Rightarrow> None
           | Some e \<Rightarrow>
               (case json_field (re_data e) ''evidence_hashes'' of
                  JArr hashes \<Rightarrow>
                    if index < length hashes
                    then (case hashes ! index of JStr (x # xs) \<Rightarrow> Some (to_lower (x # xs)) | _ \<Rightarrow> None)
                    else None
                | _ \<Rightarrow> None))
      | _ \<Rightarrow> None)"

text \<open>The answer with the URLs requested on the way.\<close>

definition proxy_fetch ::
  "proxy_env \<Rightarrow> (int \<Rightarrow> evidence_claim option) \<Rightarrow> raw_row list \<Rightarrow> int \<Rightarrow> int \<Rightarrow> string \<Rightarrow> (proxy_error + fetched_evidence) \<times> string list" where
  "proxy_fetch env claimOf rows claimId index wallet =
     (case claimOf claimId of
        None \<Rightarrow> (Inl Claim_Not_Found, [])
      | Some c \<Rightarrow>
          if \<not> assertAuthorized env c wallet then (Inl Access_Denied, [])
          else if index < 0 \<or> int (length (ec_imageUrls c)) \<le> index then (Inl Evidence_Index, [])
          else let url = resolveGatewayUrl env (ec_imageUrls c ! nat index) in
            (case px_fetch env url of
               None \<Rightarrow> (Inl Fetch_Throws, [url])
             | Some (status, contentType, content) \<Rightarrow>
                 if status < 200 \<or> 300 \<le> status then (Inl (Gateway_Status status), [url])
                 else let hash = px_sha256hex env content; stored = getStoredEvidenceHash rows c (nat index);
                          mismatch = (case stored of None \<Rightarrow> False | Some s \<Rightarrow> s \<noteq> hash)
                      in (Inr \<lparr>fe_content = content, fe_contentType = (case contentType of Some t \<Rightarrow> t | None \<Rightarrow> ''application/octet-stream''),
                            fe_filename = ''claim-'' @ show_int claimId @ ''-evidence-'' @ show_int index, fe_evidenceUrl = url,
                            fe_verified = (stored \<noteq> None \<and> \<not> mismatch), fe_hashMismatch = mismatch, fe_sha256Hex = hash\<rparr>, [url])))"

text \<open>The response: status, and the body where there is one. Every failure is a 502.\<close>

definition proxy_stream ::
  "proxy_env \<Rightarrow> (int \<Rightarrow> evidence_claim option) \<Rightarrow> raw_row list \<Rightarrow> int \<Rightarrow> int \<Rightarrow> string \<Rightarrow> int \<times> nat list" where
  "proxy_stream env claimOf rows claimId index wallet =
     (case fst (proxy_fetch env claimOf rows claimId index wallet) of Inl _ \<Rightarrow> (502, []) | Inr f \<Rightarrow> (200, fe_content f))"

section \<open>The cursor of the history\<close>

lemma history_where_ignores_cursor: "matches_where (history_where c after) = matches_where (history_where c None)"
  by (auto simp: history_where_def after_cursor_def same_tx_def spread_def matches_where_def fun_eq_iff split: option.split)

lemma history_cursor_nonempty: "history_cursor l i \<noteq> []"
  unfolding history_cursor_def by (rule base64url_nonempty) simp

text \<open>C15. The history of a claim cannot be paged through. The condition for the cursor and the condition for the topics are both entries
  \<open>OR\<close> of one object, so the second replaces the first: whenever the first page has a next cursor, asking with it gives the same
  page and the same cursor again, and so for every cursor after it.\<close>

theorem history_never_advances:
  assumes "getHistory tid claims rows claimId None lim = Some (data, Some c)"
  shows "getHistory tid claims rows claimId (Some c) lim = Some (data, Some c)"
proof -
  obtain cl where cl: "find_claim tid claimId claims = Some cl"
    using assms by (cases "find_claim tid claimId claims") (auto simp: getHistory_def)
  let ?events = "take (Suc (nat (min (max 1 lim) 100))) (event_order (filter (matches_where (history_where cl None)) rows))"
  have more: "length ?events > nat (min (max 1 lim) 100)" and c: "c \<noteq> []"
    using assms cl history_cursor_nonempty by (auto simp: getHistory_def Let_def decode_history_cursor_def split: if_splits)
  then have "take (nat (min (max 1 lim) 100)) ?events \<noteq> []" by (auto simp: max_def min_def)
  then show ?thesis using assms cl more c
    by (simp add: getHistory_def Let_def history_where_ignores_cursor [of cl "decode_history_cursor (Some c)"] decode_history_cursor_def [of None])
qed

definition sample_event :: "int \<Rightarrow> raw_row" where
  "sample_event i = \<lparr>re_contractId = ''C'', re_ledger = i, re_ledgerClosedAt = 0, re_topic1 = Some ''claim_filed'', re_topic2 = None, re_topic3 = None,
     re_topic4 = None, re_data = JNull, rw_id = i, rw_txHash = ''h'', rw_eventIndex = i\<rparr>"

definition sample_hclaim :: "string option \<Rightarrow> history_claim" where
  "sample_hclaim h = \<lparr>cl_policyId = ''GA:1'', cl_creatorAddress = ''GA'', cl_amount = ''5'', cl_asset = None, cl_description = [],
     cl_imageUrls = [], cl_status = PENDING, cl_isFinalized = False, cl_approveVotes = 0, cl_rejectVotes = 0, cl_paidAt = None,
     cl_createdAtLedger = 1, cl_updatedAtLedger = 1, cl_txHash = h, cl_deleted = False, cl_appealsCount = 0, cl_appealTxHash = None,
     hc_id = 7, hc_createdAt = 0, hc_updatedAt = 0, hc_tenantId = None, hc_eventIndex = None\<rparr>"

theorem history_never_advances_witness:
  "\<exists>data c. getHistory None [sample_hclaim (Some ''h'')] [sample_event 1, sample_event 2] 7 None 1 = Some (data, Some c) \<and>
     getHistory None [sample_hclaim (Some ''h'')] [sample_event 1, sample_event 2] 7 (Some c) 1 = Some (data, Some c)"
proof -
  have m: "matches_where (history_where (sample_hclaim (Some ''h'')) None) (sample_event i)" for i
    by (simp add: history_where_def after_cursor_def same_tx_def spread_def matches_where_def in_topics_def LEGACY_TOPICS_def sample_event_def sample_hclaim_def)
  have f: "find_claim None 7 [sample_hclaim (Some ''h'')] = Some (sample_hclaim (Some ''h''))"
    by (simp add: find_claim_def claim_where_def tenantWhere_def tenantFilter_def has_tenant_def spread_def matches_where_def sample_hclaim_def)
  have "getHistory None [sample_hclaim (Some ''h'')] [sample_event 1, sample_event 2] 7 None 1 =
      Some ([history_of_event (sample_event 1)], Some (history_cursor 1 1))"
    by (simp add: getHistory_def f m decode_history_cursor_def event_order_def) (simp add: sample_event_def)
  with history_never_advances [OF this] show ?thesis by blast
qed

section \<open>What the timeline shows\<close>

lemma event_order_sorted [simp]: "sorted (map re_ledger (event_order es))" "set (event_order es) = set es"
  by (simp_all add: event_order_def)

lemma timeline_ledger: "he_ledger (timeline_of_event e) = re_ledger e"
  by (simp add: timeline_of_event_def)

text \<open>The timeline is in the order of the ledgers, has an entry for every recorded event that its query selects, and shows an appeal as
  opened whenever the row says that there is one, whether or not its event was recorded.\<close>

lemma timeline_sound:
  assumes "getTimeline rank tid claims rows claimId = Some out" "find_claim tid claimId claims = Some c"
  shows "sorted (map he_ledger out) \<and> (\<forall>e. e \<in> set rows \<and> timeline_where c claimId e \<longrightarrow> timeline_of_event e \<in> set out) \<and>
         (was_appealed c \<longrightarrow> ''under_appeal'' \<in> he_status ` set out)"
proof -
  define data where "data = map timeline_of_event (event_order (filter (timeline_where c claimId) rows))"
  define data' where "data' = (if data = [] then synthesized c else data)"
  have out: "out = appendSyntheticAppealTransitions rank data' c"
    using assms by (auto simp: getTimeline_def Let_def data_def data'_def)
  have comp: "map he_ledger data = map re_ledger (event_order (filter (timeline_where c claimId) rows))"
    by (simp add: data_def timeline_ledger)
  have sorted: "sorted (map he_ledger data')"
    unfolding data'_def by (cases "data = []") (simp_all add: comp synthesized_def Let_def)
  have ev: "timeline_of_event e \<in> set data'" if "e \<in> set rows" "timeline_where c claimId e" for e
  proof -
    have "timeline_of_event e \<in> set data" using that by (auto simp: data_def)
    then show ?thesis by (auto simp: data'_def)
  qed
  have sub: "set data' \<subseteq> set out" unfolding out appendSyntheticAppealTransitions_def by (auto simp: Let_def timeline_sort_def)
  have "sorted (map he_ledger out)"
    using sorted unfolding out appendSyntheticAppealTransitions_def by (simp add: Let_def timeline_sort_def)
  moreover have "''under_appeal'' \<in> he_status ` set out" if "was_appealed c"
  proof (cases "list_ex (\<lambda>e. he_status e = ''under_appeal'') data'")
    case True
    then obtain e where "e \<in> set data'" "''under_appeal'' = he_status e" by (auto simp: list_ex_iff)
    then show ?thesis using sub by blast
  next
    case False
    then show ?thesis using that unfolding out appendSyntheticAppealTransitions_def by (simp add: Let_def timeline_sort_def)
  qed
  ultimately show ?thesis using ev sub by blast
qed

text \<open>The query does not select every event the contract publishes about a claim: a rejection, an escalation, a dispute, the filing and a
  payout that timed out are published under the namespace \<open>niffyinsure\<close> with names that are in none of its lists.\<close>

definition unlisted_claim_events :: "string list" where
  "unlisted_claim_events = [''claim_filed'', ''claim_rejected'', ''claim_escalated'', ''claim_disputed'', ''payout_timed_out'']"

lemma unlisted_events_not_selected:
  assumes "re_topic1 e = Some ''niffyinsure''" "re_topic2 e = Some name" "name \<in> set unlisted_claim_events"
  shows "\<not> timeline_where c claimId e"
  using assms by (auto simp: timeline_where_def in_topics_def LEGACY_TOPICS_def CONTRACT_POLICY_EVENTS_def unlisted_claim_events_def)

text \<open>For a claim without a transaction hash the condition on the hash is absent, and the legacy events of all claims are its own.\<close>

lemma no_hash_shows_all: "cl_txHash c = None \<Longrightarrow> in_topics LEGACY_TOPICS (re_topic1 e) \<Longrightarrow> timeline_where c claimId e"
  by (simp add: timeline_where_def same_tx_def matches_where_def)

text \<open>The resolution of an appeal that the indexer writes to the row is not shown where its event is missing.\<close>

lemma resolved_appeal_not_shown:
  assumes "cl_status c = APPEAL_APPROVED"
  shows "he_status ` set (appendSyntheticAppealTransitions rank (synthesized c) c) \<subseteq> {''pending'', ''appeal_approved'', ''under_appeal''} \<and>
         list_all (\<lambda>e. he_reason e \<noteq> Some ''Appeal approved'') (appendSyntheticAppealTransitions rank (synthesized c) c)"
proof -
  have "to_lower (claim_status_name APPEAL_APPROVED) = ''appeal_approved''" by code_simp
  then show ?thesis using assms
    by (auto simp: appendSyntheticAppealTransitions_def synthesized_def Let_def timeline_sort_def list_all_iff)
qed

section \<open>Who gets evidence\<close>

lemma denied_nothing_fetched:
  assumes "claimOf i = Some c" "\<not> assertAuthorized env c wallet"
  shows "proxy_fetch env claimOf rows i index wallet = (Inl Access_Denied, []) \<and> proxy_stream env claimOf rows i index wallet = (502, [])"
  using assms by (simp add: proxy_fetch_def proxy_stream_def)

lemma verified_means_hash:
  assumes "proxy_fetch env claimOf rows i index wallet = (Inr f, urls)" "fe_verified f"
  shows "\<exists>c. claimOf i = Some c \<and> getStoredEvidenceHash rows c (nat index) = Some (px_sha256hex env (fe_content f))"
  using assms by (auto simp: proxy_fetch_def Let_def split: option.splits if_splits prod.splits)

text \<open>A URL that a claimant files is requested as it is, whatever host it names.\<close>

lemma filed_url_is_requested: "starts_with ''http://'' raw \<Longrightarrow> resolveGatewayUrl env raw = raw"
  by (simp add: resolveGatewayUrl_def)

end
