(* ===== verification/Claim_Board.thy ===== *)
theory Claim_Board
  imports Claim_History Redis_Model
begin

text \<open>
  What the claims board shows and lets its users do: discussion comments (\<open>src/backend/src/claims/claims.service.ts\<close>), the view of a claim with
  its quorum (\<open>claims/claim-view.mapper.ts\<close>, \<open>claims/services/claim-aggregation.service.ts\<close>), the caches beside them and the
  sanitization of user text (\<open>claims/sanitization.service.ts\<close>).

  Quotients of vote counts are exact before they are rounded. The patterns that \<open>sanitizeDescription\<close> deletes are an argument.
\<close>

section \<open>Comments\<close>

record board_claim =
  bc_id :: int
  bc_tenantId :: "string option"
  bc_deleted :: bool
  bc_status :: claim_status
  bc_claimantAddress :: "string option"

record board_vote =
  bv_claimId :: int
  bv_voterAddress :: string
  bv_deleted :: bool

record claim_comment =
  cc_id :: int
  cc_claimId :: int
  cc_authorAddress :: string
  cc_body :: string
  cc_createdAt :: int
  cc_deletedAt :: "int option"

record board =
  bd_claims :: "board_claim list"
  bd_votes :: "board_vote list"
  bd_comments :: "claim_comment list"
  bd_published :: "(string \<times> claim_comment) list"    \<comment> \<open>events on \<open>claims:comments\<close>\<close>

datatype comment_error = Empty_Body | Body_Too_Long | No_Such_Claim | Comments_Closed | May_Not_Comment | No_Such_Comment | Not_Author | Window_Expired

definition CLAIM_COMMENT_MAX_LENGTH :: nat where "CLAIM_COMMENT_MAX_LENGTH = 2000"
definition CLAIM_COMMENT_EDIT_WINDOW_MS :: int where "CLAIM_COMMENT_EDIT_WINDOW_MS = 10 * 60 * 1000"
definition CLOSED_CLAIM_STATUSES :: "claim_status list" where "CLOSED_CLAIM_STATUSES = [APPROVED, PAID, REJECTED]"

definition board_find :: "string option \<Rightarrow> int \<Rightarrow> board \<Rightarrow> board_claim option" where
  "board_find tid i b = List.find (matches_where (tenantWhere bc_tenantId bc_deleted tid [(''id'', \<lambda>c. bc_id c = i)] False)) (bd_claims b)"

definition assertCommentsOpen :: "board_claim \<Rightarrow> bool" where
  "assertCommentsOpen c = (bc_status c \<notin> set CLOSED_CLAIM_STATUSES)"

definition assertCanComment :: "string option \<Rightarrow> int \<Rightarrow> string \<Rightarrow> board \<Rightarrow> comment_error option" where
  "assertCanComment tid i wallet b =
     (let address = to_lower wallet in
      case board_find tid i b of
        None \<Rightarrow> Some No_Such_Claim
      | Some c \<Rightarrow>
          if map_option to_lower (bc_claimantAddress c) = Some address then None
          else if list_ex (\<lambda>v. bv_claimId v = i \<and> bv_voterAddress v = address \<and> \<not> bv_deleted v) (bd_votes b) then None
          else Some May_Not_Comment)"

definition publishCommentEvent :: "bool \<Rightarrow> string \<Rightarrow> claim_comment \<Rightarrow> board \<Rightarrow> board" where
  "publishCommentEvent redisUp action c b = (if redisUp then b\<lparr>bd_published := bd_published b @ [(action, c)]\<rparr> else b)"

definition listClaimComments :: "string option \<Rightarrow> int \<Rightarrow> board \<Rightarrow> claim_comment list option" where
  "listClaimComments tid i b =
     (case board_find tid i b of
        None \<Rightarrow> None
      | Some _ \<Rightarrow> Some (sort_key cc_createdAt (sort_key cc_id (filter (\<lambda>c. cc_claimId c = i \<and> cc_deletedAt c = None) (bd_comments b)))))"

definition createClaimComment ::
  "bool \<Rightarrow> int \<Rightarrow> int \<Rightarrow> string option \<Rightarrow> int \<Rightarrow> string \<Rightarrow> string \<Rightarrow> board \<Rightarrow> (comment_error + claim_comment) \<times> board" where
  "createClaimComment redisUp now newId tid i wallet body b =
     (let trimmed = trim body in
      if trimmed = [] then (Inl Empty_Body, b)
      else if length trimmed > CLAIM_COMMENT_MAX_LENGTH then (Inl Body_Too_Long, b)
      else case board_find tid i b of
        None \<Rightarrow> (Inl No_Such_Claim, b)
      | Some c \<Rightarrow>
          if \<not> assertCommentsOpen c then (Inl Comments_Closed, b)
          else (case assertCanComment tid i wallet b of
                  Some e \<Rightarrow> (Inl e, b)
                | None \<Rightarrow>
                    let comment = \<lparr>cc_id = newId, cc_claimId = i, cc_authorAddress = to_lower wallet, cc_body = trimmed, cc_createdAt = now, cc_deletedAt = None\<rparr>
                    in (Inr comment, publishCommentEvent redisUp ''created'' comment (b\<lparr>bd_comments := bd_comments b @ [comment]\<rparr>))))"

definition deleteClaimComment :: "bool \<Rightarrow> int \<Rightarrow> int \<Rightarrow> int \<Rightarrow> string \<Rightarrow> bool \<Rightarrow> board \<Rightarrow> comment_error option \<times> board" where
  "deleteClaimComment redisUp now i commentId wallet isModerator b =
     (case List.find (\<lambda>c. cc_id c = commentId \<and> cc_claimId c = i \<and> cc_deletedAt c = None) (bd_comments b) of
        None \<Rightarrow> (Some No_Such_Comment, b)
      | Some comment \<Rightarrow>
          if \<not> isModerator \<and> to_lower (cc_authorAddress comment) \<noteq> to_lower wallet then (Some Not_Author, b)
          else if \<not> isModerator \<and> now - cc_createdAt comment > CLAIM_COMMENT_EDIT_WINDOW_MS then (Some Window_Expired, b)
          else (None, publishCommentEvent redisUp ''deleted'' comment
                  (b\<lparr>bd_comments := map (\<lambda>c. if cc_id c = commentId then c\<lparr>cc_deletedAt := Some now\<rparr> else c) (bd_comments b)\<rparr>)))"

section \<open>Quorum and deadlines\<close>

definition VOTE_WINDOW_LEDGERS :: int where "VOTE_WINDOW_LEDGERS = 120960"
definition DISPUTE_WINDOW_LEDGERS :: int where "DISPUTE_WINDOW_LEDGERS = 10080"
definition SECONDS_PER_LEDGER :: int where "SECONDS_PER_LEDGER = 5"

definition requiredVotes :: "int \<Rightarrow> int" where
  "requiredVotes voters = max 1 (voters div 2 + 1)"

text \<open>\<open>Math.round\<close> of a quotient: the nearest integer, a half upwards.\<close>

definition round_quotient :: "int \<Rightarrow> int \<Rightarrow> int" where
  "round_quotient a b = (2 * a + b) div (2 * b)"

definition quorum_pct :: "int \<Rightarrow> int \<Rightarrow> int" where
  "quorum_pct cast required = min 100 (round_quotient (cast * 100) required)"

record claim_aggregation =
  ag_quorum_progress_pct :: int
  ag_votes_needed :: int
  ag_deadline_estimate_utc :: string
  ag_required_votes :: int
  ag_current_votes :: int
  ag_eligible_voter_source :: string

definition zeroAggregation :: "int \<Rightarrow> claim_aggregation" where
  "zeroAggregation now = \<lparr>ag_quorum_progress_pct = 0, ag_votes_needed = 1, ag_deadline_estimate_utc = js_toISOString now,
     ag_required_votes = 1, ag_current_votes = 0, ag_eligible_voter_source = ''unknown''\<rparr>"

definition compute_aggregation :: "int \<Rightarrow> ('a claim_row_scheme) option \<Rightarrow> int \<Rightarrow> int option \<Rightarrow> claim_aggregation" where
  "compute_aggregation now claim lastLedger eligible =
     (case claim of
        None \<Rightarrow> zeroAggregation now
      | Some c \<Rightarrow>
          let cast = cl_approveVotes c + cl_rejectVotes c;
              voters = (case eligible of Some n \<Rightarrow> n | None \<Rightarrow> cast);
              required = requiredVotes voters;
              remaining = max 0 (cl_createdAtLedger c + VOTE_WINDOW_LEDGERS - lastLedger) * SECONDS_PER_LEDGER
          in \<lparr>ag_quorum_progress_pct = (if required > 0 then quorum_pct cast required else 0), ag_votes_needed = max 0 (required - cast),
              ag_deadline_estimate_utc = js_toISOString (now + remaining * 1000), ag_required_votes = required, ag_current_votes = cast,
              ag_eligible_voter_source = (if eligible = None then ''fallback_total_votes_cast'' else ''contract_eligible_voters'')\<rparr>)"

definition aggregate_key :: "int \<Rightarrow> string" where
  "aggregate_key i = ''claims:aggregate:'' @ show_int i"

definition aggregate ::
  "('a claim_row_scheme) option \<Rightarrow> int \<Rightarrow> int \<Rightarrow> int option \<Rightarrow> (claim_aggregation, claim_aggregation) rcmd" where
  "aggregate claim i lastLedger eligible =
     se_bind (redis_get (aggregate_key i)) (\<lambda>cached.
       case cached of
         Some a \<Rightarrow> se_return a
       | None \<Rightarrow> (\<lambda>r. let result = compute_aggregation (r_now r) claim lastLedger eligible
                        in se_bind (redis_set (aggregate_key i) result 30) (\<lambda>_. se_return result) r))"

definition aggregate_invalidate :: "int \<Rightarrow> (claim_aggregation, unit) rcmd" where
  "aggregate_invalidate i = redis_del (aggregate_key i)"

record claim_view =
  vw_yesVotes :: int
  vw_noVotes :: int
  vw_required :: int
  vw_percentage :: int
  vw_reached :: bool
  vw_quorum_progress_pct :: int
  vw_votes_needed :: int
  vw_votingDeadlineLedger :: int
  vw_isOpen :: bool
  vw_remainingSeconds :: "int option"
  vw_disputeDeadlineLedger :: "int option"
  vw_disputeWindowOpen :: bool
  vw_remainingDisputeSeconds :: "int option"
  vw_indexerLag :: int
  vw_isStale :: bool
  vw_status_history :: "(string \<times> int) list"

definition getVotingDeadlineLedger :: "int \<Rightarrow> int" where
  "getVotingDeadlineLedger createdAtLedger = createdAtLedger + VOTE_WINDOW_LEDGERS"

text \<open>The numbers of \<open>transformClaim\<close>; \<open>votes\<close> are the votes of the claim.\<close>

definition transformClaim :: "('a claim_row_scheme) \<Rightarrow> vote_type list \<Rightarrow> int \<Rightarrow> (int \<times> int) option \<Rightarrow> claim_view" where
  "transformClaim c votes lastLedger aggregation =
     (let yes = int (length (filter (\<lambda>v. v = APPROVE) votes)); no = int (length (filter (\<lambda>v. v = REJECT) votes)); cast = yes + no;
          deadline = getVotingDeadlineLedger (cl_createdAtLedger c); isOpen = (deadline > lastLedger);
          required = requiredVotes cast; lag = max 0 (lastLedger - cl_updatedAtLedger c); pct = quorum_pct cast required;
          isApproved = (cl_status c = APPROVED); dispute = cl_updatedAtLedger c + DISPUTE_WINDOW_LEDGERS; disputeOpen = (isApproved \<and> dispute > lastLedger)
      in \<lparr>vw_yesVotes = yes, vw_noVotes = no, vw_required = required, vw_percentage = pct,
          vw_reached = (cl_isFinalized c \<or> max yes no \<ge> required),
          vw_quorum_progress_pct = (case aggregation of Some (p, _) \<Rightarrow> p | None \<Rightarrow> pct),
          vw_votes_needed = (case aggregation of Some (_, n) \<Rightarrow> n | None \<Rightarrow> max 0 (required - cast)),
          vw_votingDeadlineLedger = deadline, vw_isOpen = isOpen,
          vw_remainingSeconds = (if isOpen then Some ((deadline - lastLedger) * SECONDS_PER_LEDGER) else None),
          vw_disputeDeadlineLedger = (if isApproved then Some dispute else None), vw_disputeWindowOpen = disputeOpen,
          vw_remainingDisputeSeconds = (if disputeOpen \<and> dispute \<noteq> 0 then Some ((dispute - lastLedger) * SECONDS_PER_LEDGER) else None),
          vw_indexerLag = lag, vw_isStale = (lag > 5),
          vw_status_history = (''pending'', cl_createdAtLedger c) #
            (if cl_status c \<noteq> PENDING
             then [(to_lower (claim_status_name (cl_status c)), if cl_updatedAtLedger c = 0 then cl_createdAtLedger c else cl_updatedAtLedger c)] else [])\<rparr>)"

section \<open>Caches\<close>

definition SUMMARY_KEY_PREFIX :: string where "SUMMARY_KEY_PREFIX = ''claims:summary''"

definition summary_key :: "string option \<Rightarrow> string option \<Rightarrow> int \<Rightarrow> string option \<Rightarrow> string" where
  "summary_key tenantId after lim status =
     join_with '':'' [SUMMARY_KEY_PREFIX, case tenantId of Some t \<Rightarrow> t | None \<Rightarrow> ''global'', case after of Some a \<Rightarrow> a | None \<Rightarrow> ''start'',
       show_int lim, case status of Some s \<Rightarrow> s | None \<Rightarrow> ''all'']"

definition summary_getOrCompute :: "int \<Rightarrow> string \<Rightarrow> 'v \<Rightarrow> ('v, 'v) rcmd" where
  "summary_getOrCompute ttl k compute =
     se_bind (redis_get k) (\<lambda>cached.
       case cached of
         Some v \<Rightarrow> se_return v
       | None \<Rightarrow> se_bind (redis_set k compute ttl) (\<lambda>_. se_return compute))"

definition appeal_sim_key :: "int \<Rightarrow> string \<Rightarrow> string" where
  "appeal_sim_key claimId wallet = ''appeal:sim:v1:'' @ show_int claimId @ '':'' @ wallet"

definition appeal_sim_get :: "bool \<Rightarrow> int \<Rightarrow> string \<Rightarrow> ('v, 'v option) rcmd" where
  "appeal_sim_get enabled claimId wallet = (if enabled then redis_get (appeal_sim_key claimId wallet) else se_return None)"

definition appeal_sim_set :: "bool \<Rightarrow> int \<Rightarrow> int \<Rightarrow> string \<Rightarrow> 'v \<Rightarrow> ('v, unit) rcmd" where
  "appeal_sim_set enabled ttl claimId wallet v = (if enabled then redis_set (appeal_sim_key claimId wallet) v ttl else se_return ())"

section \<open>Sanitization\<close>

definition html_entity :: "char \<Rightarrow> string" where
  "html_entity c =
     (if c = CHR ''&'' then ''&amp;'' else if c = CHR ''<'' then ''&lt;'' else if c = CHR ''>'' then ''&gt;''
      else if c = CHR 0x22 then ''&quot;'' else if c = CHR 0x27 then ''&#39;'' else if c = CHR ''/'' then ''&#x2F;''
      else if c = CHR 0x60 then ''&#x60;'' else if c = CHR ''='' then ''&#x3D;'' else [c])"

definition encodeHtmlEntities :: "string \<Rightarrow> string" where
  "encodeHtmlEntities s = concat (map html_entity s)"

definition sanitizeDescription :: "(string \<Rightarrow> string) \<Rightarrow> string \<Rightarrow> string" where
  "sanitizeDescription removePatterns s = (if s = [] then [] else take 5000 (trim (encodeHtmlEntities (removePatterns s))))"

definition sanitizeString :: "(string \<Rightarrow> string) \<Rightarrow> string \<Rightarrow> string" where
  "sanitizeString removePatterns s = (if s = [] then [] else trim (encodeHtmlEntities (removePatterns s)))"

definition base58_any_case :: "char \<Rightarrow> bool" where
  "base58_any_case c = (CHR ''1'' \<le> c \<and> c \<le> CHR ''9'' \<or> CHR ''A'' \<le> c \<and> c \<le> CHR ''Z'' \<or> CHR ''a'' \<le> c \<and> c \<le> CHR ''z'')"

definition alnum_any_case :: "char \<Rightarrow> bool" where
  "alnum_any_case c = (is_digit c \<or> CHR ''A'' \<le> c \<and> c \<le> CHR ''Z'' \<or> CHR ''a'' \<le> c \<and> c \<le> CHR ''z'')"

text \<open>The pattern is case-insensitive, so the classes that leave out some letters in one case match all letters.\<close>

definition ipfs_hash_ok :: "string \<Rightarrow> bool" where
  "ipfs_hash_ok s = (length s = 46 \<and> to_lower (take 2 s) = ''qm'' \<and> list_all base58_any_case (drop 2 s) \<or> length s = 59 \<and> list_all alnum_any_case s)"

definition sanitizeIpfsHash :: "string \<Rightarrow> string" where
  "sanitizeIpfsHash hash = (let trimmed = trim hash in if ipfs_hash_ok trimmed then trimmed else [])"


section \<open>Who may comment\<close>

definition upper_case :: "char \<Rightarrow> bool" where
  "upper_case c = (CHR ''A'' \<le> c \<and> c \<le> CHR ''Z'')"

lemma lower_char_not_upper: "\<not> upper_case (lower_char c)"
proof -
  have "\<not> (65 \<le> (of_char (lower_char c) :: nat) \<and> (of_char (lower_char c) :: nat) \<le> 90)"
    by (simp add: lower_char_def Let_def)
  then show ?thesis by (simp add: upper_case_def less_eq_char_def)
qed

lemma to_lower_no_upper: "c \<in> set (to_lower s) \<Longrightarrow> \<not> upper_case c"
  by (auto simp: to_lower_def lower_char_not_upper)

text \<open>Although the discussion is meant for the claimant and the voters, only the claimant gets in. The address of the caller is lowered
  and compared with the stored address of a vote as it is; the addresses the indexer stores begin with the letter G, so no vote is
  found. A comment that is accepted is the claimant's, trimmed, of 1 to 2000 characters, on a claim of the tenant whose status does
  not close the discussion.\<close>

theorem only_claimant_comments:
  assumes res: "createClaimComment redisUp now newId tid i wallet body b = (Inr comment, b')"
    and votes: "\<And>v. v \<in> set (bd_votes b) \<Longrightarrow> bv_voterAddress v \<noteq> [] \<and> hd (bv_voterAddress v) = CHR ''G''"
  shows "\<exists>c. board_find tid i b = Some c \<and> map_option to_lower (bc_claimantAddress c) = Some (to_lower wallet) \<and>
     bc_status c \<notin> {APPROVED, PAID, REJECTED} \<and> cc_body comment = trim body \<and> 1 \<le> length (trim body) \<and> length (trim body) \<le> 2000 \<and>
     bd_comments b' = bd_comments b @ [comment]"
proof -
  have no_vote: "bv_voterAddress v \<noteq> to_lower wallet" if "v \<in> set (bd_votes b)" for v
  proof
    assume eq: "bv_voterAddress v = to_lower wallet"
    have "CHR ''G'' \<in> set (to_lower wallet)" using votes [OF that] eq by (metis hd_in_set)
    then show False using to_lower_no_upper by (fastforce simp: upper_case_def less_eq_char_def)
  qed
  obtain c where c: "board_find tid i b = Some c" "assertCommentsOpen c" "assertCanComment tid i wallet b = None"
    using res by (auto simp: createClaimComment_def Let_def split: if_splits option.splits)
  have "map_option to_lower (bc_claimantAddress c) = Some (to_lower wallet)"
    using c no_vote by (auto simp: assertCanComment_def Let_def list_ex_iff split: if_splits)
  moreover have "bc_status c \<notin> {APPROVED, PAID, REJECTED}" using c(2) by (simp add: assertCommentsOpen_def CLOSED_CLAIM_STATUSES_def)
  moreover have "trim body \<noteq> []" "length (trim body) \<le> 2000" "cc_body comment = trim body" "bd_comments b' = bd_comments b @ [comment]"
    using res c by (auto simp: createClaimComment_def Let_def CLAIM_COMMENT_MAX_LENGTH_def publishCommentEvent_def split: if_splits)
  ultimately show ?thesis using c(1) by (simp add: Suc_le_eq)
qed

definition sample_board :: board where
  "sample_board = \<lparr>bd_claims = [\<lparr>bc_id = 1, bc_tenantId = None, bc_deleted = False, bc_status = PENDING, bc_claimantAddress = Some ''GA''\<rparr>],
     bd_votes = [\<lparr>bv_claimId = 1, bv_voterAddress = ''GB'', bv_deleted = False\<rparr>], bd_comments = [], bd_published = []\<rparr>"

definition sample_comment :: claim_comment where
  "sample_comment = \<lparr>cc_id = 5, cc_claimId = 1, cc_authorAddress = ''ga'', cc_body = ''hi'', cc_createdAt = 9, cc_deletedAt = None\<rparr>"

theorem only_claimant_comments_witness:
  "\<exists>c. board_find None 1 sample_board = Some c \<and> map_option to_lower (bc_claimantAddress c) = Some (to_lower ''GA'') \<and>
     cc_body sample_comment = trim '' hi'' \<and> fst (createClaimComment True 9 5 None 1 ''GB'' ''hi'' sample_board) = Inl May_Not_Comment"
proof -
  have find: "board_find None 1 sample_board = Some (hd (bd_claims sample_board))"
    by (simp add: board_find_def tenantWhere_def tenantFilter_def has_tenant_def spread_def matches_where_def sample_board_def)
  have lo: "to_lower ''GA'' = ''ga''" "to_lower ''GB'' = ''gb''" "trim '' hi'' = ''hi''" "trim ''hi'' = ''hi''" by code_simp+
  have denied: "fst (createClaimComment True 9 5 None 1 ''GB'' ''hi'' sample_board) = Inl May_Not_Comment"
    by (simp add: createClaimComment_def Let_def find lo CLAIM_COMMENT_MAX_LENGTH_def assertCanComment_def assertCommentsOpen_def CLOSED_CLAIM_STATUSES_def)
      (simp add: sample_board_def lo)
  have "createClaimComment True 9 5 None 1 ''GA'' '' hi'' sample_board =
      (Inr sample_comment, snd (createClaimComment True 9 5 None 1 ''GA'' '' hi'' sample_board))"
    by (simp add: createClaimComment_def Let_def find lo CLAIM_COMMENT_MAX_LENGTH_def assertCanComment_def assertCommentsOpen_def CLOSED_CLAIM_STATUSES_def)
      (simp add: sample_board_def lo sample_comment_def)
  from only_claimant_comments [OF this] show ?thesis using denied by (auto simp: sample_board_def)
qed

text \<open>An appeal that is resolved leaves the discussion open: its statuses are not among the closing ones.\<close>

lemma resolved_appeal_open: "bc_status c = APPEAL_REJECTED \<Longrightarrow> assertCommentsOpen c"
  by (simp add: assertCommentsOpen_def CLOSED_CLAIM_STATUSES_def)

lemma delete_allowed_iff:
  assumes "List.find (\<lambda>c. cc_id c = k \<and> cc_claimId c = i \<and> cc_deletedAt c = None) (bd_comments b) = Some c"
  shows "fst (deleteClaimComment up now i k wallet isModerator b) = None \<longleftrightarrow>
     isModerator \<or> to_lower (cc_authorAddress c) = to_lower wallet \<and> now - cc_createdAt c \<le> 600000"
  using assms by (auto simp: deleteClaimComment_def CLAIM_COMMENT_EDIT_WINDOW_MS_def)

section \<open>The quorum that is always reached\<close>

lemma quorum_pct_full: "0 < b \<Longrightarrow> b \<le> a \<Longrightarrow> quorum_pct a b = 100"
proof -
  assume b: "0 < b" "b \<le> a"
  then have "100 * (2 * b) \<le> 2 * (a * 100) + b" by simp
  then have "(100 * (2 * b)) div (2 * b) \<le> (2 * (a * 100) + b) div (2 * b)" using b by (intro zdiv_mono1) simp_all
  then have "100 \<le> round_quotient (a * 100) b" using b by (simp add: round_quotient_def)
  then show ?thesis by (simp add: quorum_pct_def)
qed

lemma majority_of_cast: "1 \<le> n \<Longrightarrow> requiredVotes n \<le> n \<and> 0 < requiredVotes n"
  by (simp add: requiredVotes_def)

text \<open>Where the number of eligible voters is not given, it is taken to be the number of votes cast, and a majority of the votes cast is
  always cast: from the first vote on, every claim is shown with a quorum of 100 percent and no vote missing, by the aggregation and
  by the view alike. With a number of eligible voters no votes are missing exactly when a majority of them has voted.\<close>

theorem quorum_is_always_reached:
  assumes "1 \<le> cl_approveVotes c + cl_rejectVotes c" "votes \<noteq> []"
  shows "let a = compute_aggregation now (Some c) lastLedger None; v = transformClaim c votes lastLedger None;
             e = compute_aggregation now (Some c) lastLedger (Some n) in
         ag_quorum_progress_pct a = 100 \<and> ag_votes_needed a = 0 \<and> vw_quorum_progress_pct v = 100 \<and> vw_votes_needed v = 0 \<and>
         (0 \<le> n \<longrightarrow> (ag_votes_needed e = 0 \<longleftrightarrow> n < 2 * (cl_approveVotes c + cl_rejectVotes c)))"
proof -
  have "length (filter (\<lambda>v. v = APPROVE) votes) + length (filter (\<lambda>v. v = REJECT) votes) = length votes"
    by (induction votes) (auto intro: vote_type.exhaust)
  then have cast: "1 \<le> int (length (filter (\<lambda>v. v = APPROVE) votes)) + int (length (filter (\<lambda>v. v = REJECT) votes))"
    using assms(2) by (cases votes) auto
  have needed: "max 0 (requiredVotes n - k) = 0 \<longleftrightarrow> n < 2 * k" if "0 \<le> n" "1 \<le> k" for k :: int
    using that by (auto simp: requiredVotes_def max_def split: if_splits)
  show ?thesis
    using majority_of_cast [OF assms(1)] majority_of_cast [OF cast] assms(1) needed
    by (simp add: compute_aggregation_def transformClaim_def Let_def quorum_pct_full)
qed

theorem quorum_is_always_reached_witness:
  "ag_votes_needed (compute_aggregation 0 (Some (sample_hclaim None\<lparr>cl_approveVotes := 1\<rparr>)) 1 None) = 0 \<and>
   (ag_votes_needed (compute_aggregation 0 (Some (sample_hclaim None\<lparr>cl_approveVotes := 1\<rparr>)) 1 (Some 50)) = 0) = False"
  using quorum_is_always_reached [of "sample_hclaim None\<lparr>cl_approveVotes := 1\<rparr>" "[APPROVE]" 0 1 50] by (simp add: sample_hclaim_def Let_def)

text \<open>The percentage is rounded: 100 percent is shown with a vote missing.\<close>

lemma rounded_percentage: "quorum_pct 199 (requiredVotes 398) = 100 \<and> requiredVotes 398 - 199 = 1"
  by (simp add: quorum_pct_def requiredVotes_def round_quotient_def)

text \<open>A tenant whose id is \<open>global\<close> shares the cached lists of requests without a tenant.\<close>

lemma tenant_global_shares: "summary_key (Some ''global'') after lim status = summary_key None after lim status"
  by (simp add: summary_key_def)

lemma summary_key_ambiguous: "summary_key t (Some ''a:5'') 20 (Some ''x'') = summary_key t (Some ''a'') 5 (Some ''20:x'')"
proof -
  have "show_int 5 = ''5''" "show_int 20 = ''20''" by code_simp+
  then show ?thesis by (simp add: summary_key_def)
qed

section \<open>Sanitized text has no markup\<close>

definition markup_char :: "char \<Rightarrow> bool" where
  "markup_char c = (c \<in> {CHR ''<'', CHR ''>'', CHR 0x22, CHR 0x27, CHR ''/'', CHR 0x60, CHR ''=''})"

lemma html_entity_safe: "d \<in> set (html_entity c) \<Longrightarrow> \<not> markup_char d"
  by (auto simp: html_entity_def markup_char_def split: if_splits)

lemma encoded_safe: "d \<in> set (encodeHtmlEntities s) \<Longrightarrow> \<not> markup_char d"
  by (auto simp: encodeHtmlEntities_def dest: html_entity_safe)

lemma set_trim: "set (trim s) \<subseteq> set s"
  by (auto simp: trim_def ltrim_def dest!: set_dropWhileD)

text \<open>Whatever the patterns remove, a sanitized description has at most 5000 characters, none of them one that could begin markup.\<close>

lemma description_safe:
  "length (sanitizeDescription f s) \<le> 5000 \<and> list_all (\<lambda>c. \<not> markup_char c) (sanitizeDescription f s)"
  using set_trim by (auto simp: sanitizeDescription_def list_all_iff dest!: in_set_takeD dest: encoded_safe)

end
