(* ===== verification/Commit_Reveal.thy ===== *)
theory Commit_Reveal
  imports Js_Prelude
begin

text \<open>
  Commit-reveal voting: the contract's \<open>commit_reveal.rs\<close>, the voting form of the front end
  (\<open>components/CommitRevealVote.tsx\<close>), the stepper (\<open>components/claims/CommitRevealFlow.tsx\<close>) and the two
  helper modules (\<open>lib/commitReveal.ts\<close>, \<open>lib/commitRevealStorage.ts\<close>).

  SHA-256, Keccak, the XDR encoding of an address and viem's \<open>encodePacked\<close> are arguments. The
  contract reads and writes its commitments and phases through storage functions that the sources call
  but do not define; the model has the keys that \<open>storage.rs\<close> documents, as maps. An invocation that
  returns an error changes nothing, which is what the host does. IndexedDB is a map by \<open>claimId\<close>, its
  key path.
\<close>

section \<open>The contract\<close>

datatype VoteOption = Approve | Reject

record CommitRevealPhases =
  commit_phase_end_ledger :: nat
  reveal_phase_end_ledger :: nat

datatype cr_error = CommitRevealNotSet | CommitPhaseEnded | DuplicateVote | RevealPhaseNotOpen
  | RevealPhaseEnded | CommitmentNotFound | CommitmentMismatch | ClaimNotFound | VotingDurationOutOfBounds

record vote_contract =
  vc_ledger :: nat
  vc_phases :: "nat \<rightharpoonup> CommitRevealPhases"
  vc_commitments :: "nat \<times> string \<rightharpoonup> nat list"
  vc_votes :: "nat \<times> string \<rightharpoonup> VoteOption"
  vc_tallies :: "nat \<rightharpoonup> nat \<times> nat"

definition set_commit_reveal_phases :: "nat \<Rightarrow> nat \<Rightarrow> nat \<Rightarrow> vote_contract \<Rightarrow> cr_error + vote_contract" where
  "set_commit_reveal_phases claim_id commit_end reveal_end st =
     (if reveal_end \<le> commit_end then Inl VotingDurationOutOfBounds
      else Inr (st\<lparr>vc_phases := (vc_phases st)(claim_id \<mapsto>
        \<lparr>commit_phase_end_ledger = commit_end, reveal_phase_end_ledger = reveal_end\<rparr>)\<rparr>))"

definition has_commitment :: "vote_contract \<Rightarrow> nat \<Rightarrow> string \<Rightarrow> bool" where
  "has_commitment st claim_id voter = (vc_commitments st (claim_id, voter) \<noteq> None)"

definition is_vote_revealed :: "vote_contract \<Rightarrow> nat \<Rightarrow> string \<Rightarrow> bool" where
  "is_vote_revealed st claim_id voter = (vc_votes st (claim_id, voter) \<noteq> None)"

definition is_unrevealed_commit :: "vote_contract \<Rightarrow> nat \<Rightarrow> string \<Rightarrow> bool" where
  "is_unrevealed_commit st claim_id voter = (has_commitment st claim_id voter \<and> \<not> is_vote_revealed st claim_id voter)"

definition commit_vote :: "string \<Rightarrow> nat \<Rightarrow> nat list \<Rightarrow> vote_contract \<Rightarrow> cr_error + vote_contract" where
  "commit_vote voter claim_id commitment st =
     (case vc_phases st claim_id of
        None \<Rightarrow> Inl CommitRevealNotSet
      | Some phases \<Rightarrow>
          if vc_ledger st > commit_phase_end_ledger phases then Inl CommitPhaseEnded
          else if has_commitment st claim_id voter then Inl DuplicateVote
          else Inr (st\<lparr>vc_commitments := (vc_commitments st)((claim_id, voter) \<mapsto> commitment)\<rparr>))"

definition vote_byte :: "VoteOption \<Rightarrow> nat" where
  "vote_byte v = (case v of Approve \<Rightarrow> 0 | Reject \<Rightarrow> 1)"

definition contract_preimage :: "(string \<Rightarrow> nat list) \<Rightarrow> VoteOption \<Rightarrow> nat list \<Rightarrow> string \<Rightarrow> nat list" where
  "contract_preimage to_xdr vote salt voter = vote_byte vote # salt @ to_xdr voter"

definition u32_saturating_inc :: "nat \<Rightarrow> nat" where
  "u32_saturating_inc n = min (n + 1) (2 ^ 32 - 1)"

definition count_ballot :: "VoteOption \<Rightarrow> nat \<times> nat \<Rightarrow> nat \<times> nat" where
  "count_ballot vote t = (case vote of Approve \<Rightarrow> (u32_saturating_inc (fst t), snd t)
                                     | Reject \<Rightarrow> (fst t, u32_saturating_inc (snd t)))"

definition reveal_vote :: "(nat list \<Rightarrow> nat list) \<Rightarrow> (string \<Rightarrow> nat list) \<Rightarrow> string \<Rightarrow> nat \<Rightarrow> VoteOption \<Rightarrow> nat list
    \<Rightarrow> vote_contract \<Rightarrow> cr_error + vote_contract" where
  "reveal_vote sha256 to_xdr voter claim_id vote salt st =
     (case vc_phases st claim_id of
        None \<Rightarrow> Inl CommitRevealNotSet
      | Some phases \<Rightarrow>
          if vc_ledger st \<le> commit_phase_end_ledger phases then Inl RevealPhaseNotOpen
          else if vc_ledger st > reveal_phase_end_ledger phases then Inl RevealPhaseEnded
          else (case vc_commitments st (claim_id, voter) of
            None \<Rightarrow> Inl CommitmentNotFound
          | Some stored \<Rightarrow>
              if is_vote_revealed st claim_id voter then Inl DuplicateVote
              else if sha256 (contract_preimage to_xdr vote salt voter) \<noteq> stored then Inl CommitmentMismatch
              else (case vc_tallies st claim_id of
                None \<Rightarrow> Inl ClaimNotFound
              | Some t \<Rightarrow> Inr (st\<lparr>vc_votes := (vc_votes st)((claim_id, voter) \<mapsto> vote),
                                vc_tallies := (vc_tallies st)(claim_id \<mapsto> count_ballot vote t)\<rparr>))))"

text \<open>A run of this module: its calls in any order by anyone, and ledgers closing in between. An open vote (\<open>vote_on_claim\<close> of
  \<open>claim.rs\<close>) writes the same ballots and tallies; it is not a call of this module and enters below as a write from elsewhere.\<close>

datatype vote_call = SetPhases nat nat nat | CommitVote string nat "nat list"
  | RevealVote string nat VoteOption "nat list" | CloseLedger

definition applied :: "'s \<Rightarrow> 'e + 's \<Rightarrow> 's" where
  "applied st r = (case r of Inl _ \<Rightarrow> st | Inr st' \<Rightarrow> st')"

definition vote_contract_step :: "(nat list \<Rightarrow> nat list) \<Rightarrow> (string \<Rightarrow> nat list) \<Rightarrow> vote_contract \<Rightarrow> vote_call \<Rightarrow> vote_contract" where
  "vote_contract_step sha256 to_xdr st c = (case c of
     SetPhases i a b \<Rightarrow> applied st (set_commit_reveal_phases i a b st)
   | CommitVote v i h \<Rightarrow> applied st (commit_vote v i h st)
   | RevealVote v i b s \<Rightarrow> applied st (reveal_vote sha256 to_xdr v i b s st)
   | CloseLedger \<Rightarrow> st\<lparr>vc_ledger := vc_ledger st + 1\<rparr>)"

section \<open>The helper modules\<close>

definition nibble_char :: "nat \<Rightarrow> char" where
  "nibble_char n = ''0123456789abcdef'' ! n"

definition hex_byte :: "nat \<Rightarrow> string" where
  "hex_byte b = [nibble_char (b div 16), nibble_char (b mod 16)]"

definition bytesToHex :: "nat list \<Rightarrow> string" where
  "bytesToHex bs = concat (map hex_byte bs)"

definition strip_0x :: "string \<Rightarrow> string" where
  "strip_0x s = (if starts_with ''0x'' s then drop 2 s else s)"

text \<open>\<open>parseInt(s, 16)\<close> with the value a \<open>Uint8Array\<close> stores for it: a non-number becomes 0.\<close>

definition hex_cell :: "string \<Rightarrow> nat" where
  "hex_cell s =
     (let t = ltrim s;
          neg = (t \<noteq> [] \<and> hd t = CHR ''-'');
          u = (if t \<noteq> [] \<and> (hd t = CHR ''-'' \<or> hd t = CHR ''+'') then tl t else t);
          w = takeWhile is_hex (if starts_with ''0x'' u \<or> starts_with ''0X'' u then drop 2 u else u)
      in if neg then (256 - radix_val 16 w mod 256) mod 256 else radix_val 16 w mod 256)"

fun hex_cells :: "string \<Rightarrow> nat list" where
  "hex_cells (a # b # r) = hex_cell [a, b] # hex_cells r"
| "hex_cells _ = []"

definition hexToBytes :: "string \<Rightarrow> string + nat list" where
  "hexToBytes hex = (let clean = strip_0x hex in
     if length clean mod 2 \<noteq> 0 then Inl ''Invalid hex string'' else Inr (hex_cells clean))"

definition claimIdToBytes :: "string \<Rightarrow> string + nat list" where
  "claimIdToBytes claimId = and_then (hexToBytes (strip_0x claimId))
     (\<lambda>raw. Inr (replicate (32 - min (length raw) 32) 0 @ drop (length raw - 32) raw))"

record CommitmentRecord =
  cm_claimId :: string
  cm_vote :: nat
  cm_salt :: string
  cm_commitment :: string
  cm_createdAt :: int
  cm_revealed :: bool

definition storage_preimage :: "nat list \<Rightarrow> nat \<Rightarrow> nat list \<Rightarrow> nat list" where
  "storage_preimage claimBytes vote saltBytes = claimBytes @ vote # saltBytes"

definition storage_computeCommitment :: "(nat list \<Rightarrow> nat list) \<Rightarrow> string \<Rightarrow> nat \<Rightarrow> string \<Rightarrow> string + string" where
  "storage_computeCommitment sha256 claimId vote salt =
     and_then (claimIdToBytes claimId) (\<lambda>claimBytes.
     and_then (hexToBytes salt) (\<lambda>saltBytes.
       Inr (''0x'' @ bytesToHex (sha256 (storage_preimage claimBytes vote saltBytes)))))"

text \<open>The object store of IndexedDB has the key path \<open>claimId\<close>: one record per claim.\<close>

definition storage_saveCommitment :: "CommitmentRecord \<Rightarrow> (string \<rightharpoonup> CommitmentRecord) \<Rightarrow> (string \<rightharpoonup> CommitmentRecord)" where
  "storage_saveCommitment r db = db(cm_claimId r \<mapsto> r)"

definition getCommitment :: "string \<Rightarrow> (string \<rightharpoonup> CommitmentRecord) \<Rightarrow> CommitmentRecord option" where
  "getCommitment claimId db = db claimId"

definition markRevealed :: "string \<Rightarrow> (string \<rightharpoonup> CommitmentRecord) \<Rightarrow> (string \<rightharpoonup> CommitmentRecord)" where
  "markRevealed claimId db = (case getCommitment claimId db of None \<Rightarrow> db
     | Some r \<Rightarrow> storage_saveCommitment (r\<lparr>cm_revealed := True\<rparr>) db)"

text \<open>A backup file: the parsed JSON object, each field with the kinds of value the readers tell apart.\<close>

datatype backup_vote = VoteNumber int | VoteBool bool | VoteAbsent

record backup_file =
  bf_type :: "string option"
  bf_claimId :: "string option"
  bf_voter :: "string option"
  bf_vote :: backup_vote
  bf_salt :: "string option"
  bf_commitment :: "string option"
  bf_createdAt :: "int option"

definition buildBackupFile :: "CommitmentRecord \<Rightarrow> backup_file" where
  "buildBackupFile r = \<lparr>bf_type = Some ''commit-reveal-backup'', bf_claimId = Some (cm_claimId r), bf_voter = None,
     bf_vote = VoteNumber (int (cm_vote r)), bf_salt = Some (cm_salt r), bf_commitment = Some (cm_commitment r),
     bf_createdAt = Some (cm_createdAt r)\<rparr>"

definition restoreFromBackup :: "int \<Rightarrow> backup_file \<Rightarrow> (string \<rightharpoonup> CommitmentRecord)
    \<Rightarrow> (string + CommitmentRecord) \<times> (string \<rightharpoonup> CommitmentRecord)" where
  "restoreFromBackup now f db =
     (case (bf_claimId f, bf_vote f, bf_salt f, bf_commitment f) of
        (Some i, VoteNumber v, Some s, Some h) \<Rightarrow>
          if bf_type f \<noteq> Some ''commit-reveal-backup'' \<or> (v \<noteq> 0 \<and> v \<noteq> 1) then (Inl ''Invalid commit-reveal backup file'', db)
          else let r = \<lparr>cm_claimId = i, cm_vote = nat v, cm_salt = s, cm_commitment = h,
                        cm_createdAt = (case bf_createdAt f of None \<Rightarrow> now | Some t \<Rightarrow> t), cm_revealed = False\<rparr>
               in (Inr r, storage_saveCommitment r db)
      | _ \<Rightarrow> (Inl ''Invalid commit-reveal backup file'', db))"

datatype VoteChoice = For | Against

definition encodeVote :: "VoteChoice \<Rightarrow> nat" where
  "encodeVote v = (if v = For then 1 else 0)"

datatype viem_error = Viem_SyntaxError | Viem_Error string

text \<open>\<open>encodePacked(['uint256', 'address', 'uint8', 'bytes32'], ...)\<close> is the argument \<open>packed\<close>; it may throw.\<close>

definition viem_computeCommitment :: "(nat list \<Rightarrow> string) \<Rightarrow> (int \<Rightarrow> string \<Rightarrow> nat \<Rightarrow> string \<Rightarrow> string + nat list)
    \<Rightarrow> string \<Rightarrow> string \<Rightarrow> VoteChoice \<Rightarrow> string \<Rightarrow> viem_error + string" where
  "viem_computeCommitment keccak256 packed claimId voter vote salt =
     (case js_BigInt claimId of None \<Rightarrow> Inl Viem_SyntaxError
      | Some i \<Rightarrow> (case packed i voter (encodeVote vote) salt of Inl e \<Rightarrow> Inl (Viem_Error e) | Inr bs \<Rightarrow> Inr (keccak256 bs)))"

definition verifyCommitment :: "(nat list \<Rightarrow> string) \<Rightarrow> (int \<Rightarrow> string \<Rightarrow> nat \<Rightarrow> string \<Rightarrow> string + nat list)
    \<Rightarrow> string \<Rightarrow> string \<Rightarrow> string \<Rightarrow> VoteChoice \<Rightarrow> string \<Rightarrow> viem_error + bool" where
  "verifyCommitment keccak256 packed commitment claimId voter vote salt =
     and_then (viem_computeCommitment keccak256 packed claimId voter vote salt) (\<lambda>h. Inr (to_lower h = to_lower commitment))"

section \<open>The voting form\<close>

datatype form_phase = PCommit | PCommitted | PReveal | PRevealed | PExpired

record StoredCommitment =
  so_claimId :: string
  so_voter :: string
  so_vote :: bool
  so_salt :: string
  so_commitment :: string
  so_createdAt :: int
  so_revealed :: bool

record form_props =
  fp_claimId :: string
  fp_voter :: string
  fp_phase :: form_phase
  fp_revealStart :: "int option"
  fp_revealEnd :: "int option"

text \<open>The state hooks of the component, the object store behind it and the calls of its callbacks.\<close>

record form_state =
  fm_vote :: "bool option"
  fm_stored :: "StoredCommitment option"
  fm_busy :: bool
  fm_error :: "string option"
  fm_status :: "string option"
  fm_now :: int
  fm_db :: "string \<rightharpoonup> StoredCommitment"
  fm_commits :: "string list"
  fm_reveals :: "(bool \<times> string) list"

text \<open>What a call may throw: an \<open>Error\<close> with its message, or another value.\<close>

datatype ui_thrown = ThrownError string | ThrownOther

definition thrown_message :: "string \<Rightarrow> ui_thrown \<Rightarrow> string" where
  "thrown_message fallback t = (case t of ThrownError m \<Rightarrow> m | ThrownOther \<Rightarrow> fallback)"

definition utf8_char :: "char \<Rightarrow> nat list" where
  "utf8_char c = (let n = of_char c in if n < 128 then [n] else [192 + n div 64, 128 + n mod 64])"

definition utf8_encode :: "string \<Rightarrow> nat list" where
  "utf8_encode s = concat (map utf8_char s)"

definition form_preimage :: "bool \<Rightarrow> string \<Rightarrow> string \<Rightarrow> string \<Rightarrow> string" where
  "form_preimage vote salt claimId voter = (if vote then ''1'' else ''0'') @ salt @ claimId @ voter"

definition form_computeCommitment :: "(nat list \<Rightarrow> nat list) \<Rightarrow> bool \<Rightarrow> string \<Rightarrow> string \<Rightarrow> string \<Rightarrow> string" where
  "form_computeCommitment sha256 vote salt claimId voter =
     ''0x'' @ bytesToHex (sha256 (utf8_encode (form_preimage vote salt claimId voter)))"

definition form_generateSalt :: "nat list \<Rightarrow> string" where
  "form_generateSalt random = bytesToHex random"

definition form_saveCommitment :: "StoredCommitment \<Rightarrow> (string \<rightharpoonup> StoredCommitment) \<Rightarrow> (string \<rightharpoonup> StoredCommitment)" where
  "form_saveCommitment r db = db(so_claimId r \<mapsto> r)"

definition loadCommitment :: "string \<Rightarrow> (string \<rightharpoonup> StoredCommitment) \<Rightarrow> StoredCommitment option" where
  "loadCommitment claimId db = db claimId"

definition downloadBackup :: "StoredCommitment \<Rightarrow> backup_file" where
  "downloadBackup r = \<lparr>bf_type = Some ''commit-reveal-backup'', bf_claimId = Some (so_claimId r), bf_voter = Some (so_voter r),
     bf_vote = VoteBool (so_vote r), bf_salt = Some (so_salt r), bf_commitment = Some (so_commitment r),
     bf_createdAt = Some (so_createdAt r)\<rparr>"

text \<open>Mounting: the hooks start anew and the record of the claim is loaded, when the store answers.\<close>

definition mount_form :: "form_props \<Rightarrow> bool \<Rightarrow> int \<Rightarrow> form_state \<Rightarrow> form_state" where
  "mount_form p db_ok now st = st\<lparr>fm_vote := None, fm_busy := False, fm_error := None, fm_status := None, fm_now := now,
     fm_stored := (if db_ok then loadCommitment (fp_claimId p) (fm_db st) else None)\<rparr>"

definition inRevealWindow :: "form_props \<Rightarrow> int \<Rightarrow> bool" where
  "inRevealWindow p now = (case (fp_revealStart p, fp_revealEnd p) of
     (Some s, Some e) \<Rightarrow> s \<le> now \<and> now \<le> e | _ \<Rightarrow> False)"

definition revealWindowNotYetOpen :: "form_props \<Rightarrow> int \<Rightarrow> bool" where
  "revealWindowNotYetOpen p now = (case fp_revealStart p of None \<Rightarrow> False | Some s \<Rightarrow> now < s)"

definition handleCommit :: "(nat list \<Rightarrow> nat list) \<Rightarrow> form_props \<Rightarrow> nat list \<Rightarrow> int \<Rightarrow> ui_thrown option \<Rightarrow> ui_thrown option
    \<Rightarrow> form_state \<Rightarrow> form_state" where
  "handleCommit sha256 p random now db_result onCommit_result st =
     (case fm_vote st of None \<Rightarrow> st
      | Some vote \<Rightarrow>
          let st1 = st\<lparr>fm_error := None, fm_status := None\<rparr>;
              salt = form_generateSalt random;
              commitment = form_computeCommitment sha256 vote salt (fp_claimId p) (fp_voter p);
              r = \<lparr>so_claimId = fp_claimId p, so_voter = fp_voter p, so_vote = vote, so_salt = salt,
                   so_commitment = commitment, so_createdAt = now, so_revealed = False\<rparr>
          in (case db_result of
               Some t \<Rightarrow> st1\<lparr>fm_error := Some (thrown_message ''Failed to commit vote'' t), fm_busy := False\<rparr>
             | None \<Rightarrow>
                 let st2 = st1\<lparr>fm_db := form_saveCommitment r (fm_db st1), fm_stored := Some r,
                               fm_status := Some ''Vote committed. Download your backup file to keep the salt safe.'',
                               fm_commits := fm_commits st1 @ [commitment]\<rparr>
                 in (case onCommit_result of
                      None \<Rightarrow> st2\<lparr>fm_busy := False\<rparr>
                    | Some t \<Rightarrow> st2\<lparr>fm_error := Some (thrown_message ''Failed to commit vote'' t), fm_busy := False\<rparr>)))"

definition handleReveal :: "form_props \<Rightarrow> ui_thrown option \<Rightarrow> ui_thrown option \<Rightarrow> form_state \<Rightarrow> form_state" where
  "handleReveal p onReveal_result db_result st =
     (case fm_stored st of None \<Rightarrow> st
      | Some r \<Rightarrow>
          if \<not> inRevealWindow p (fm_now st) then st
          else
            let st1 = st\<lparr>fm_error := None, fm_status := None, fm_reveals := fm_reveals st @ [(so_vote r, so_salt r)]\<rparr>
            in (case onReveal_result of
                 Some t \<Rightarrow> st1\<lparr>fm_error := Some (thrown_message ''Failed to reveal vote'' t), fm_busy := False\<rparr>
               | None \<Rightarrow>
                   let updated = r\<lparr>so_revealed := True\<rparr>
                   in (case db_result of
                        Some t \<Rightarrow> st1\<lparr>fm_error := Some (thrown_message ''Failed to reveal vote'' t), fm_busy := False\<rparr>
                      | None \<Rightarrow> st1\<lparr>fm_db := form_saveCommitment updated (fm_db st1), fm_stored := Some updated,
                                    fm_status := Some ''Vote revealed successfully.'', fm_busy := False\<rparr>)))"

text \<open>The record that an imported file gives, or the message of the exception. A file that is no JSON is \<open>Inl\<close>.\<close>

definition imported_record :: "form_props \<Rightarrow> int \<Rightarrow> ui_thrown + backup_file \<Rightarrow> ui_thrown + StoredCommitment" where
  "imported_record p now file = and_then file (\<lambda>f.
     if bf_claimId f \<noteq> Some (fp_claimId p) then Inl (ThrownError ''Backup file does not match this claim'')
     else let r = \<lparr>so_claimId = fp_claimId p,
                   so_voter = (case bf_voter f of None \<Rightarrow> fp_voter p | Some v \<Rightarrow> v),
                   so_vote = (case bf_vote f of VoteBool b \<Rightarrow> b | _ \<Rightarrow> False),
                   so_salt = (case bf_salt f of None \<Rightarrow> '''' | Some s \<Rightarrow> s),
                   so_commitment = (case bf_commitment f of None \<Rightarrow> '''' | Some c \<Rightarrow> c),
                   so_createdAt = (case bf_createdAt f of None \<Rightarrow> now | Some t \<Rightarrow> t), so_revealed = False\<rparr>
          in if so_salt r = [] \<or> so_commitment r = [] then Inl (ThrownError ''Backup file is missing salt or commitment fields'')
             else Inr r)"

definition handleImportBackup :: "form_props \<Rightarrow> int \<Rightarrow> (ui_thrown + backup_file) option \<Rightarrow> ui_thrown option \<Rightarrow> form_state \<Rightarrow> form_state" where
  "handleImportBackup p now file db_result st =
     (case file of None \<Rightarrow> st
      | Some f \<Rightarrow>
          let st1 = st\<lparr>fm_error := None\<rparr>
          in (case imported_record p now f of
               Inl t \<Rightarrow> st1\<lparr>fm_error := Some (thrown_message ''Invalid backup file'' t)\<rparr>
             | Inr r \<Rightarrow>
                 (case db_result of
                    Some t \<Rightarrow> st1\<lparr>fm_error := Some (thrown_message ''Invalid backup file'' t)\<rparr>
                  | None \<Rightarrow> st1\<lparr>fm_db := form_saveCommitment r (fm_db st1), fm_stored := Some r,
                                fm_status := Some ''Backup restored. You can now reveal your vote.''\<rparr>)))"

text \<open>Which sections the component shows.\<close>

definition isCommitPhase :: "form_props \<Rightarrow> form_state \<Rightarrow> bool" where
  "isCommitPhase p st = (fp_phase p = PCommit \<and> fm_stored st = None)"

definition isCommittedPhase :: "form_props \<Rightarrow> form_state \<Rightarrow> bool" where
  "isCommittedPhase p st = (case fm_stored st of None \<Rightarrow> False
     | Some r \<Rightarrow> \<not> so_revealed r \<and> (fp_phase p = PCommitted \<or> fp_phase p = PCommit))"

definition isRevealPhase :: "form_props \<Rightarrow> form_state \<Rightarrow> bool" where
  "isRevealPhase p st = (case fm_stored st of None \<Rightarrow> False
     | Some r \<Rightarrow> \<not> so_revealed r \<and> (fp_phase p = PReveal \<or> inRevealWindow p (fm_now st)))"

definition isRevealed :: "form_props \<Rightarrow> form_state \<Rightarrow> bool" where
  "isRevealed p st = ((case fm_stored st of None \<Rightarrow> False | Some r \<Rightarrow> so_revealed r) \<or> fp_phase p = PRevealed)"

definition offersRestore :: "form_props \<Rightarrow> form_state \<Rightarrow> bool" where
  "offersRestore p st = (fm_stored st = None \<and> fp_phase p \<noteq> PCommit \<and> fp_phase p \<noteq> PExpired)"

definition phaseBadge :: "form_props \<Rightarrow> form_state \<Rightarrow> string" where
  "phaseBadge p st =
     (if fp_phase p = PCommit then ''Commit phase'' else if fp_phase p = PCommitted then ''Awaiting reveal''
      else if fp_phase p = PReveal \<or> inRevealWindow p (fm_now st) then ''Reveal window open''
      else if fp_phase p = PRevealed then ''Revealed'' else ''Expired'')"

text \<open>What the user and the clock do; a control that is not shown or is disabled does nothing.\<close>

datatype form_action = Mount bool int | Tick int | SelectVote bool
  | PressCommit "nat list" int "ui_thrown option" "ui_thrown option" | PressReveal "ui_thrown option" "ui_thrown option"
  | ImportFile int "(ui_thrown + backup_file) option" "ui_thrown option"

definition form_step :: "(nat list \<Rightarrow> nat list) \<Rightarrow> form_props \<Rightarrow> form_state \<Rightarrow> form_action \<Rightarrow> form_state" where
  "form_step sha256 p st a = (case a of
     Mount ok now \<Rightarrow> mount_form p ok now st
   | Tick now \<Rightarrow> st\<lparr>fm_now := now\<rparr>
   | SelectVote b \<Rightarrow> (if isCommitPhase p st then st\<lparr>fm_vote := Some b\<rparr> else st)
   | PressCommit random now d r \<Rightarrow> (if isCommitPhase p st \<and> fm_vote st \<noteq> None \<and> \<not> fm_busy st then handleCommit sha256 p random now d r st else st)
   | PressReveal r d \<Rightarrow> (if isRevealPhase p st \<and> inRevealWindow p (fm_now st) \<and> \<not> fm_busy st then handleReveal p r d st else st)
   | ImportFile now f d \<Rightarrow> (if offersRestore p st then handleImportBackup p now f d st else st))"

section \<open>The stepper\<close>

datatype flow_phase = FCommit | FReveal | FClosed | FNotSet

definition getCurrentPhase :: "CommitRevealPhases \<Rightarrow> nat \<Rightarrow> flow_phase" where
  "getCurrentPhase phases currentLedger =
     (if currentLedger \<le> commit_phase_end_ledger phases then FCommit
      else if currentLedger \<le> reveal_phase_end_ledger phases then FReveal else FClosed)"

datatype step_status = StepPending | StepActive | StepCompleted | StepExpired

definition commitStatus :: "flow_phase \<Rightarrow> bool \<Rightarrow> step_status" where
  "commitStatus phase committed = (if committed then StepCompleted else if phase = FCommit then StepActive
     else if phase = FReveal \<or> phase = FClosed then StepExpired else StepPending)"

definition revealStatus :: "flow_phase \<Rightarrow> bool \<Rightarrow> bool \<Rightarrow> step_status" where
  "revealStatus phase committed revealed = (if revealed then StepCompleted else if committed \<and> phase = FReveal then StepActive
     else if phase = FClosed then StepExpired else StepPending)"

definition tallyStatus :: "flow_phase \<Rightarrow> bool \<Rightarrow> step_status" where
  "tallyStatus phase revealed = (if revealed then StepCompleted else if phase = FClosed then StepExpired else StepPending)"

record flow_state =
  fl_selected :: "VoteOption option"
  fl_commitDone :: bool
  fl_revealDone :: bool
  fl_commitError :: "string option"
  fl_revealError :: "string option"
  fl_committedAs :: "VoteOption list"
  fl_revealedAs :: "VoteOption list"

definition flow_handleCommit :: "ui_thrown option \<Rightarrow> flow_state \<Rightarrow> flow_state" where
  "flow_handleCommit onCommit_result st = (case fl_selected st of None \<Rightarrow> st
     | Some v \<Rightarrow> (let st1 = st\<lparr>fl_commitError := None, fl_committedAs := fl_committedAs st @ [v]\<rparr> in
         case onCommit_result of None \<Rightarrow> st1\<lparr>fl_commitDone := True\<rparr>
         | Some t \<Rightarrow> st1\<lparr>fl_commitError := Some (thrown_message ''Commit failed'' t)\<rparr>))"

definition flow_handleReveal :: "ui_thrown option \<Rightarrow> flow_state \<Rightarrow> flow_state" where
  "flow_handleReveal onReveal_result st = (case fl_selected st of None \<Rightarrow> st
     | Some v \<Rightarrow> (let st1 = st\<lparr>fl_revealError := None, fl_revealedAs := fl_revealedAs st @ [v]\<rparr> in
         case onReveal_result of None \<Rightarrow> st1\<lparr>fl_revealDone := True\<rparr>
         | Some t \<Rightarrow> st1\<lparr>fl_revealError := Some (thrown_message ''Reveal failed'' t)\<rparr>))"

section \<open>Properties of the contract\<close>

lemmas contract_simps = set_commit_reveal_phases_def commit_vote_def reveal_vote_def has_commitment_def is_vote_revealed_def

lemma applied_simps [simp]: "applied st (Inl e) = st" "applied st (Inr st') = st'"
  by (simp_all add: applied_def)

lemma set_phases_frame [simp]:
  "vc_commitments (applied st (set_commit_reveal_phases i a b st)) = vc_commitments st"
  "vc_votes (applied st (set_commit_reveal_phases i a b st)) = vc_votes st"
  "vc_tallies (applied st (set_commit_reveal_phases i a b st)) = vc_tallies st"
  by (simp_all add: set_commit_reveal_phases_def)

lemma commit_frame [simp]:
  "vc_votes (applied st (commit_vote v i h st)) = vc_votes st"
  "vc_tallies (applied st (commit_vote v i h st)) = vc_tallies st"
  by (simp_all add: commit_vote_def split: option.split)

lemma commitment_kept:
  "vc_commitments st k = Some h \<Longrightarrow> vc_commitments (vote_contract_step sha256 to_xdr st c) k = Some h"
  by (cases c) (auto simp: vote_contract_step_def contract_simps split: option.split if_splits)

text \<open>What a successful reveal does.\<close>

lemma reveal_cases:
  "(applied st (reveal_vote sha256 to_xdr v i b s st) = st) \<or>
   (\<exists>t. vc_commitments st (i, v) = Some (sha256 (contract_preimage to_xdr b s v)) \<and> vc_votes st (i, v) = None \<and>
      vc_tallies st i = Some t \<and>
      applied st (reveal_vote sha256 to_xdr v i b s st) =
        st\<lparr>vc_votes := (vc_votes st)((i, v) \<mapsto> b), vc_tallies := (vc_tallies st)(i \<mapsto> count_ballot b t)\<rparr>)"
  by (auto simp: reveal_vote_def is_vote_revealed_def split: option.split)

text \<open>The tallies of a claim are the numbers of revealed ballots, each voter counted once (u32 saturates).\<close>

definition voters_for :: "VoteOption \<Rightarrow> nat \<Rightarrow> vote_contract \<Rightarrow> string set" where
  "voters_for b i st = {v. vc_votes st (i, v) = Some b}"

definition u32_cap :: "nat \<Rightarrow> nat" where
  "u32_cap n = min n (2 ^ 32 - 1)"

lemma u32_saturating_inc_cap: "u32_saturating_inc (u32_cap n) = u32_cap (Suc n)"
  by (simp add: u32_saturating_inc_def u32_cap_def min_def)

definition tally_inv :: "vote_contract \<Rightarrow> bool" where
  "tally_inv st = (\<forall>i. finite (voters_for Approve i st) \<and> finite (voters_for Reject i st) \<and>
     (\<forall>t. vc_tallies st i = Some t \<longrightarrow> t = (u32_cap (card (voters_for Approve i st)), u32_cap (card (voters_for Reject i st)))))"

lemma voters_for_reveal:
  "vc_votes st (i, v) = None \<Longrightarrow>
   voters_for b' j (st\<lparr>vc_votes := (vc_votes st)((i, v) \<mapsto> b), vc_tallies := T\<rparr>) =
     (if i = j \<and> b = b' then insert v (voters_for b' j st) else voters_for b' j st)"
  by (auto simp: voters_for_def)

lemma fresh_voter: "vc_votes st (i, v) = None \<Longrightarrow> v \<notin> voters_for b i st"
  by (simp add: voters_for_def)

lemma tally_inv_reveal:
  assumes inv: "tally_inv st" and fresh: "vc_votes st (i, v) = None" and t: "vc_tallies st i = Some t"
  shows "tally_inv (st\<lparr>vc_votes := (vc_votes st)((i, v) \<mapsto> b), vc_tallies := (vc_tallies st)(i \<mapsto> count_ballot b t)\<rparr>)"
proof -
  have fin: "finite (voters_for b' j st)" for b' j using inv by (cases b') (auto simp: tally_inv_def)
  have tv: "t = (u32_cap (card (voters_for Approve i st)), u32_cap (card (voters_for Reject i st)))"
    using inv t by (cases t) (simp add: tally_inv_def)
  have others: "vc_tallies st j = Some u \<Longrightarrow> u = (u32_cap (card (voters_for Approve j st)), u32_cap (card (voters_for Reject j st)))" for j u
    using inv by (cases u) (simp add: tally_inv_def)
  show ?thesis
    unfolding tally_inv_def voters_for_reveal [OF fresh]
    by (cases b) (auto simp: fin tv count_ballot_def u32_saturating_inc_cap card_insert_disjoint [OF fin fresh_voter [OF fresh]]
        dest: others)
qed

lemma voters_for_cong: "vc_votes st' = vc_votes st \<Longrightarrow> voters_for b i st' = voters_for b i st"
  by (simp add: voters_for_def)

lemma tally_inv_cong: "vc_votes st' = vc_votes st \<Longrightarrow> vc_tallies st' = vc_tallies st \<Longrightarrow> tally_inv st' = tally_inv st"
  by (simp add: tally_inv_def voters_for_def)

lemma tally_inv_step: "tally_inv st \<Longrightarrow> tally_inv (vote_contract_step sha256 to_xdr st c)"
proof (cases c)
  case (RevealVote v i b s)
  assume inv: "tally_inv st"
  show ?thesis using reveal_cases [of st sha256 to_xdr v i b s] inv
    by (auto simp: vote_contract_step_def RevealVote tally_inv_reveal)
next
  case (CommitVote v i h)
  assume "tally_inv st"
  then show ?thesis using tally_inv_cong [of "applied st (commit_vote v i h st)" st] by (simp add: vote_contract_step_def CommitVote)
next
  case (SetPhases i a b)
  assume "tally_inv st"
  then show ?thesis using tally_inv_cong [of "applied st (set_commit_reveal_phases i a b st)" st] by (simp add: vote_contract_step_def SetPhases)
next
  case CloseLedger
  assume "tally_inv st"
  then show ?thesis using tally_inv_cong [of "st\<lparr>vc_ledger := vc_ledger st + 1\<rparr>" st] by (simp add: vote_contract_step_def CloseLedger)
qed

interpretation tally: step_system "vote_contract_step sha256 to_xdr" tally_inv for sha256 to_xdr
  by unfold_locales (rule tally_inv_step)

text \<open>C13. Revealed ballots are counted exactly: from a contract without votes in which the tallies are zero, after
  any sequence of phase settings, commits, reveals and ledgers, the tally of a claim is the number of voters
  whose ballot the contract has recorded, for each side, up to the saturation of u32; a commitment that is
  never revealed counts on neither side, and nobody counts twice.\<close>

theorem tallies_count_reveals:
  assumes "vc_votes st = Map.empty" and "\<And>i t. vc_tallies st i = Some t \<Longrightarrow> t = (0, 0)"
    and "vc_tallies (run_steps (vote_contract_step sha256 to_xdr) st calls) i = Some (approve, reject)"
  shows "approve = u32_cap (card (voters_for Approve i (run_steps (vote_contract_step sha256 to_xdr) st calls)))
    \<and> reject = u32_cap (card (voters_for Reject i (run_steps (vote_contract_step sha256 to_xdr) st calls)))"
proof -
  have "tally_inv st" using assms(1,2) by (auto simp: tally_inv_def voters_for_def u32_cap_def)
  then have "tally_inv (run_steps (vote_contract_step sha256 to_xdr) st calls)" by (rule tally.run_inv)
  with assms(3) show ?thesis by (auto simp: tally_inv_def)
qed

definition sample_contract :: vote_contract where
  "sample_contract = \<lparr>vc_ledger = 5, vc_phases = [7 \<mapsto> \<lparr>commit_phase_end_ledger = 6, reveal_phase_end_ledger = 9\<rparr>],
     vc_commitments = Map.empty, vc_votes = Map.empty, vc_tallies = [7 \<mapsto> (0, 0)]\<rparr>"

definition sample_calls :: "vote_call list" where
  "sample_calls = [CommitVote ''A'' 7 (0 # [3] @ [65]), CommitVote ''B'' 7 [9], CloseLedger, CloseLedger,
     RevealVote ''A'' 7 Approve [3], RevealVote ''A'' 7 Approve [3], RevealVote ''B'' 7 Reject [4]]"

lemma sample_tally:
  "vc_tallies (run_steps (vote_contract_step id (map of_char)) sample_contract sample_calls) 7 = Some (1, 0)"
  by (simp add: sample_calls_def sample_contract_def vote_contract_step_def contract_simps contract_preimage_def vote_byte_def
      count_ballot_def u32_saturating_inc_def)

theorem tallies_count_reveals_witness:
  "1 = u32_cap (card (voters_for Approve 7 (run_steps (vote_contract_step id (map of_char)) sample_contract sample_calls)))
    \<and> 0 = u32_cap (card (voters_for Reject 7 (run_steps (vote_contract_step id (map of_char)) sample_contract sample_calls)))"
  by (rule tallies_count_reveals [OF _ _ sample_tally]) (auto simp: sample_contract_def split: if_splits)

section \<open>Properties of the form and the contract\<close>

lemma utf8_encode_Cons [simp]: "utf8_encode (c # s) = utf8_char c @ utf8_encode s"
  by (simp add: utf8_encode_def)

lemma form_preimage_head:
  "utf8_encode (form_preimage vote salt claimId voter) = (if vote then 49 else 48) # utf8_encode (salt @ claimId @ voter)"
  by (simp add: form_preimage_def utf8_char_def)

lemma form_preimage_is_no_contract_preimage:
  "utf8_encode (form_preimage vote salt claimId voter) \<noteq> contract_preimage to_xdr v s w"
  by (simp add: form_preimage_head contract_preimage_def vote_byte_def split: VoteOption.split)

definition no_collision_with :: "(nat list \<Rightarrow> nat list) \<Rightarrow> nat list \<Rightarrow> (nat list) set \<Rightarrow> bool" where
  "no_collision_with h x ys = (\<forall>y\<in>ys. h x = h y \<longrightarrow> x = y)"

text \<open>The contract as a whole: the calls of this module, and the other entry points (\<open>vote_on_claim\<close>, finalisation, appeals), which may
  leave any ballots and tallies behind. Only \<open>commit_vote\<close> writes commitments.\<close>

datatype contract_event = ModuleCall vote_call | Elsewhere "nat \<times> string \<rightharpoonup> VoteOption" "nat \<rightharpoonup> nat \<times> nat"

definition contract_event_step :: "(nat list \<Rightarrow> nat list) \<Rightarrow> (string \<Rightarrow> nat list) \<Rightarrow> vote_contract \<Rightarrow> contract_event \<Rightarrow> vote_contract" where
  "contract_event_step sha256 to_xdr st e = (case e of
     ModuleCall c \<Rightarrow> vote_contract_step sha256 to_xdr st c
   | Elsewhere votes tallies \<Rightarrow> st\<lparr>vc_votes := votes, vc_tallies := tallies\<rparr>)"

lemma commitment_kept_everywhere:
  "vc_commitments st k = Some h \<Longrightarrow> vc_commitments (run_steps (contract_event_step sha256 to_xdr) st es) k = Some h"
proof (induction es arbitrary: st)
  case (Cons e es)
  have "vc_commitments (contract_event_step sha256 to_xdr st e) k = Some h"
    using Cons.prems commitment_kept by (cases e; cases k) (simp_all add: contract_event_step_def)
  then show ?case using Cons.IH by simp
qed simp

lemma unopenable_commitment:
  assumes "vc_commitments st (i, w) = Some h" and "sha256 (contract_preimage to_xdr b s w) \<noteq> h"
  shows "isl (reveal_vote sha256 to_xdr w i b s st)"
  using assms by (auto simp: reveal_vote_def split: option.split)

text \<open>The bytes a client passes to the contract for the commitment that the form computed.\<close>

definition form_commitment_bytes :: "(nat list \<Rightarrow> nat list) \<Rightarrow> bool \<Rightarrow> string \<Rightarrow> string \<Rightarrow> string \<Rightarrow> nat list" where
  "form_commitment_bytes sha256 vote salt claimId voter =
     (case hexToBytes (form_computeCommitment sha256 vote salt claimId voter) of Inl _ \<Rightarrow> [] | Inr bs \<Rightarrow> bs)"

lemma less_16: "(n::nat) < 16 \<longleftrightarrow> n \<in> {0, 1, 2, 3, 4, 5, 6, 7, 8, 9, 10, 11, 12, 13, 14, 15}"
  unfolding insert_iff empty_iff by arith

lemma nibble_char_props:
  assumes "n < 16"
  shows "is_hex (nibble_char n) \<and> hex_val (nibble_char n) = n \<and> \<not> is_space (nibble_char n) \<and>
    nibble_char n \<noteq> CHR ''-'' \<and> nibble_char n \<noteq> CHR ''+'' \<and> nibble_char n \<noteq> CHR ''x'' \<and> nibble_char n \<noteq> CHR ''X''"
  using assms unfolding less_16
  by (elim insertE emptyE) (simp_all add: nibble_char_def is_hex_def hex_val_def is_space_def)

lemma hex_byte_cell:
  assumes "b < 256"
  shows "hex_cell (hex_byte b) = b"
proof -
  have "b div 16 < 16" "b mod 16 < 16" using assms by auto
  note d = this [THEN nibble_char_props]
  show ?thesis using d assms
    by (simp add: hex_cell_def hex_byte_def ltrim_def starts_with_def radix_val_def Let_def)
qed

lemma hex_cells_bytesToHex: "list_all (\<lambda>b. b < 256) bs \<Longrightarrow> hex_cells (bytesToHex bs) = bs"
  by (induction bs) (auto simp: bytesToHex_def hex_byte_def hex_byte_cell [unfolded hex_byte_def])

lemma length_bytesToHex: "length (bytesToHex bs) = 2 * length bs"
  by (induction bs) (auto simp: bytesToHex_def hex_byte_def)

text \<open>Encoding bytes and decoding them gives them back.\<close>

lemma hex_roundtrip:
  assumes "list_all (\<lambda>b. b < 256) bs"
  shows "hexToBytes (''0x'' @ bytesToHex bs) = Inr bs"
  using assms by (simp add: hexToBytes_def strip_0x_def starts_with_def Let_def length_bytesToHex hex_cells_bytesToHex)

lemma form_commitment_bytes_eq:
  assumes "list_all (\<lambda>b. b < 256) (sha256 (utf8_encode (form_preimage vote salt claimId voter)))"
  shows "form_commitment_bytes sha256 vote salt claimId voter = sha256 (utf8_encode (form_preimage vote salt claimId voter))"
  using hex_roundtrip [OF assms] by (simp add: form_commitment_bytes_def form_computeCommitment_def)

text \<open>C6. A vote committed with the voting form can never be revealed: the form hashes the text of the vote digit,
  the salt in hexadecimal, the claim and the voter, the contract the vote byte, the salt and the XDR of the voter,
  and the two preimages always differ. So once the contract has accepted the form's commitment, and if SHA-256 does
  not collide on these preimages, \<open>reveal_vote\<close> refuses that voter for that claim with every vote and every salt, after any
  sequence of commits, reveals and phase changes by anyone and whatever the other entry points do to ballots and tallies.
  (The voter may still vote openly with \<open>vote_on_claim\<close>; the committed vote is what is lost.)\<close>

theorem form_votes_never_open:
  assumes "list_all (\<lambda>b. b < 256) (sha256 (utf8_encode (form_preimage vote salt claimId voter)))"
    and "no_collision_with sha256 (utf8_encode (form_preimage vote salt claimId voter))
           {contract_preimage to_xdr b s w | b s. True}"
    and "commit_vote w i (form_commitment_bytes sha256 vote salt claimId voter) st = Inr st'"
  shows "isl (reveal_vote sha256 to_xdr w i b s (run_steps (contract_event_step sha256 to_xdr) st' events))"
proof -
  let ?x = "utf8_encode (form_preimage vote salt claimId voter)"
  have h: "sha256 (contract_preimage to_xdr b s w) \<noteq> sha256 ?x"
    using assms(2) form_preimage_is_no_contract_preimage [of vote salt claimId voter to_xdr b s w]
    unfolding no_collision_with_def by (metis (mono_tags, lifting) mem_Collect_eq)
  have fc: "form_commitment_bytes sha256 vote salt claimId voter = sha256 ?x"
    using assms(1) by (rule form_commitment_bytes_eq)
  have "vc_commitments st' (i, w) = Some (sha256 ?x)"
    using assms(3) by (auto simp: commit_vote_def fc split: option.splits if_splits)
  from commitment_kept_everywhere [OF this] h show ?thesis by (rule unopenable_commitment)
qed

theorem form_votes_never_open_witness:
  "isl (reveal_vote id (map of_char) ''A'' 7 Approve [0] (run_steps (contract_event_step id (map of_char))
     (sample_contract\<lparr>vc_commitments := [(7, ''A'') \<mapsto> form_commitment_bytes id True ''00'' ''7'' ''A'']\<rparr>)
     [ModuleCall CloseLedger, Elsewhere Map.empty [7 \<mapsto> (1, 0)], ModuleCall CloseLedger]))"
proof (rule form_votes_never_open [where ?sha256.0 = id and st = sample_contract and vote = True and salt = "''00''" and claimId = "''7''"
      and voter = "''A''"])
  show "list_all (\<lambda>b. b < 256) (id (utf8_encode (form_preimage True ''00'' ''7'' ''A'')))"
    by (simp add: form_preimage_def utf8_encode_def utf8_char_def)
  show "commit_vote ''A'' 7 (form_commitment_bytes id True ''00'' ''7'' ''A'') sample_contract =
      Inr (sample_contract\<lparr>vc_commitments := [(7, ''A'') \<mapsto> form_commitment_bytes id True ''00'' ''7'' ''A'']\<rparr>)"
    by (simp add: commit_vote_def has_commitment_def sample_contract_def)
qed (simp add: no_collision_with_def)

text \<open>Commitments cannot be copied: one that opens for a voter opens for no other, and for one vote only.\<close>

lemma contract_preimage_inj:
  assumes "contract_preimage to_xdr b s v = contract_preimage to_xdr b' s' v'" and "length s = length s'"
  shows "b = b' \<and> s = s' \<and> to_xdr v = to_xdr v'"
  using assms by (cases b; cases b') (auto simp: contract_preimage_def vote_byte_def)

lemma storage_preimage_differs:
  assumes "length claimBytes = 32" and "length saltBytes = 32" and "length s = 32" and "length (to_xdr v) \<noteq> 32"
  shows "storage_preimage claimBytes vote saltBytes \<noteq> contract_preimage to_xdr b s v"
proof
  assume "storage_preimage claimBytes vote saltBytes = contract_preimage to_xdr b s v"
  then have "length (storage_preimage claimBytes vote saltBytes) = length (contract_preimage to_xdr b s v)" by simp
  then show False using assms by (simp add: storage_preimage_def contract_preimage_def)
qed

text \<open>The helper module reads decimal claim numbers as hexadecimal bytes, and refuses those of odd length.\<close>

lemma odd_claim_id_refused: "claimIdToBytes ''7'' = Inl ''Invalid hex string''"
  by code_simp

lemma claim_id_read_as_hex: "claimIdToBytes ''10'' = Inr (replicate 31 0 @ [16])"
  by code_simp

lemma claimIdToBytes_length: "claimIdToBytes c = Inr bs \<Longrightarrow> length bs = 32"
  by (auto simp: claimIdToBytes_def and_then_Inr)

section \<open>Backups and failed commits\<close>

lemma backup_roundtrip:
  assumes "so_claimId r = fp_claimId p" "so_salt r \<noteq> []" "so_commitment r \<noteq> []"
  shows "imported_record p now (Inr (downloadBackup r)) = Inr (r\<lparr>so_revealed := False\<rparr>)"
  using assms by (simp add: imported_record_def downloadBackup_def Let_def)

lemma storage_backup_roundtrip:
  assumes "cm_vote r \<le> 1"
  shows "restoreFromBackup now (buildBackupFile r) db = (Inr (r\<lparr>cm_revealed := False\<rparr>), db(cm_claimId r \<mapsto> r\<lparr>cm_revealed := False\<rparr>))"
  using assms by (auto simp: restoreFromBackup_def buildBackupFile_def storage_saveCommitment_def Let_def)

text \<open>A backup of the helper module has the vote as a number; the form takes every such file as a vote against.\<close>

lemma storage_backup_becomes_against:
  assumes "cm_claimId r = fp_claimId p" "cm_salt r \<noteq> []" "cm_commitment r \<noteq> []"
  shows "\<exists>r'. imported_record p now (Inr (buildBackupFile r)) = Inr r' \<and> \<not> so_vote r' \<and> so_commitment r' = cm_commitment r"
  using assms by (simp add: imported_record_def buildBackupFile_def Let_def)

lemma form_backup_refused_by_storage: "fst (restoreFromBackup now (downloadBackup r) db) = Inl ''Invalid commit-reveal backup file''"
  by (simp add: restoreFromBackup_def downloadBackup_def)

text \<open>A form that has a record: in the component and in the store.\<close>

definition form_locked :: "form_props \<Rightarrow> string list \<Rightarrow> form_state \<Rightarrow> bool" where
  "form_locked p commits st = (fm_stored st \<noteq> None \<and> fm_db st (fp_claimId p) \<noteq> None \<and> fm_commits st = commits)"

definition store_answers :: "form_action \<Rightarrow> bool" where
  "store_answers a = (case a of Mount ok _ \<Rightarrow> ok | _ \<Rightarrow> True)"

lemma form_locked_reveal: "form_locked p cs st \<Longrightarrow> form_locked p cs (handleReveal p r d st)"
  by (auto simp: form_locked_def handleReveal_def form_saveCommitment_def Let_def split: option.splits)

lemma form_locked_step:
  assumes "form_locked p cs st" and "store_answers a"
  shows "form_locked p cs (form_step sha256 p st a)"
proof (cases a)
  case (Mount ok now)
  then show ?thesis using assms by (auto simp: form_locked_def store_answers_def form_step_def mount_form_def loadCommitment_def)
next
  case (PressReveal r d)
  then show ?thesis using assms form_locked_reveal by (simp add: form_step_def)
qed (use assms in \<open>auto simp: form_locked_def form_step_def isCommitPhase_def offersRestore_def\<close>)

lemma form_locked_run:
  "form_locked p cs st \<Longrightarrow> list_all store_answers as \<Longrightarrow> form_locked p cs (run_steps (form_step sha256 p) st as)"
  by (induction as arbitrary: st) (auto simp: form_locked_step)

text \<open>A commit that fails on the chain cannot be repeated: when the wallet or the network refuses the commitment,
  the form has already stored its record and reports the vote as committed; from then on, through any sequence of
  reloads, clock ticks, clicks and imports, the commit section is not shown and the form sends no commitment.\<close>

theorem failed_commit_locks_form:
  assumes "fm_vote st = Some v" and "list_all store_answers as"
  shows "let st1 = handleCommit sha256 p random now None (Some t) st;
             st2 = run_steps (form_step sha256 p) st1 as
         in fm_status st1 = Some ''Vote committed. Download your backup file to keep the salt safe.'' \<and>
            fm_error st1 = Some (thrown_message ''Failed to commit vote'' t) \<and>
            \<not> isCommitPhase p st2 \<and> fm_commits st2 = fm_commits st1"
proof -
  let ?st1 = "handleCommit sha256 p random now None (Some t) st"
  have "form_locked p (fm_commits ?st1) ?st1"
    using assms(1) by (simp add: handleCommit_def form_locked_def form_saveCommitment_def Let_def)
  from form_locked_run [OF this assms(2)] have "form_locked p (fm_commits ?st1) (run_steps (form_step sha256 p) ?st1 as)" .
  then show ?thesis using assms(1) by (auto simp: handleCommit_def form_locked_def isCommitPhase_def Let_def)
qed

definition sample_form :: form_state where
  "sample_form = \<lparr>fm_vote = Some True, fm_stored = None, fm_busy = False, fm_error = None, fm_status = None, fm_now = 0,
     fm_db = Map.empty, fm_commits = [], fm_reveals = []\<rparr>"

definition sample_props :: form_props where
  "sample_props = \<lparr>fp_claimId = ''7'', fp_voter = ''A'', fp_phase = PCommit, fp_revealStart = None, fp_revealEnd = None\<rparr>"

theorem failed_commit_locks_form_witness:
  "\<not> isCommitPhase sample_props (run_steps (form_step id sample_props)
     (handleCommit id sample_props [1] 0 None (Some ThrownOther) sample_form)
     [Mount True 9, SelectVote False, PressCommit [2] 9 None None])"
  using failed_commit_locks_form [where st = sample_form and v = True and ?sha256.0 = id and p = sample_props and random = "[1]"
      and now = 0 and t = ThrownOther and as = "[Mount True 9, SelectVote False, PressCommit [2] 9 None None]"]
  by (simp add: sample_form_def store_answers_def Let_def)

text \<open>The store has one record per claim: a second wallet on the same browser is shown the first one's commitment.\<close>

lemma second_voter_sees_first:
  assumes "fm_db st (fp_claimId p) = Some r" "so_voter r \<noteq> fp_voter p" "fp_phase p = PCommit"
  shows "fm_stored (mount_form p True now st) = Some r \<and> \<not> isCommitPhase p (mount_form p True now st)"
  using assms by (simp add: mount_form_def loadCommitment_def isCommitPhase_def)

section \<open>The stepper and the contract\<close>

text \<open>The phase the stepper shows is the one in which the contract accepts the call.\<close>

lemma stepper_phase_commit:
  assumes "vc_phases st i = Some ph"
  shows "getCurrentPhase ph (vc_ledger st) = FCommit \<longleftrightarrow> commit_vote v i h st \<noteq> Inl CommitPhaseEnded"
  using assms by (auto simp: getCurrentPhase_def commit_vote_def)

lemma stepper_phase_reveal:
  assumes "vc_phases st i = Some ph"
  shows "getCurrentPhase ph (vc_ledger st) = FReveal \<longleftrightarrow>
    reveal_vote sha256 to_xdr v i b s st \<notin> {Inl RevealPhaseNotOpen, Inl RevealPhaseEnded}"
  using assms by (auto simp: getCurrentPhase_def reveal_vote_def split: option.split)

text \<open>The stepper asks for the vote again: the vote it reveals is the one selected then, not the one committed.\<close>

lemma stepper_reveals_selection:
  "fl_selected st = Some b \<Longrightarrow> fl_revealedAs (flow_handleReveal r st) = fl_revealedAs st @ [b]"
  by (auto simp: flow_handleReveal_def Let_def split: option.split)

end
