(* ===== verification/Vote_Api.thy ===== *)
theory Vote_Api
  imports Commit_Reveal
begin

text \<open>
  What the front end and the backend agree on for voting: the schema helpers (\<open>lib/schemas/vote.ts\<close>) against the
  contract's rules (\<open>claim.rs\<close>, \<open>ledger.rs\<close>), the HTTP client (\<open>lib/api/vote.ts\<close>), the routes of
  \<open>claims.controller.ts\<close> and the middleware that refuses unversioned paths.

  An HTTP server is an argument: from the verb, the path and the body it gives a reply, or nothing when the
  connection fails. A reply that is not \<open>ok\<close> carries what its JSON body has of \<open>code\<close> and \<open>message\<close>, or is no
  JSON. Nest's router is modelled as it matches: global prefix, version, controller and method path joined, the
  first declared pattern that fits.
\<close>

section \<open>Schema helpers and the contract's rules\<close>

datatype panel_status = Processing | Pending | Approved | Paid | Rejected | Withdrawn | UnderAppeal | AppealApproved | AppealRejected

record panel_claim =
  pc_claimant :: string
  pc_status :: panel_status
  pc_voting_deadline_ledger :: int
  pc_approve_votes :: int
  pc_reject_votes :: int
  pc_total_voters :: int
  pc_quorum_bps :: "int option"
  pc_appeal_submitted :: "bool option"

record panel_eligibility =
  el_eligible :: bool
  el_reason :: "string option"
  el_priorVote :: "VoteOption option"

definition SECS_PER_LEDGER :: int where "SECS_PER_LEDGER = 5"

definition DEFAULT_QUORUM_BPS :: int where "DEFAULT_QUORUM_BPS = 5000"

definition QUORUM_BPS_DENOMINATOR :: int where "QUORUM_BPS_DENOMINATOR = 10000"

definition requiredBallotsForQuorum :: "int \<Rightarrow> int \<Rightarrow> int" where
  "requiredBallotsForQuorum eligible quorumBps =
     (if eligible \<le> 0 then 0 else ceil_div (eligible * quorumBps) QUORUM_BPS_DENOMINATOR)"

definition ledgersToMs :: "int \<Rightarrow> int" where
  "ledgersToMs ledgers = ledgers * SECS_PER_LEDGER * 1000"

definition deadlineMs :: "int \<Rightarrow> int \<Rightarrow> int" where
  "deadlineMs votingDeadlineLedger currentLedger =
     (if currentLedger > votingDeadlineLedger then 0 else (votingDeadlineLedger - currentLedger + 1) * SECS_PER_LEDGER * 1000)"

definition isVoteOpen :: "int \<Rightarrow> int \<Rightarrow> bool" where
  "isVoteOpen votingDeadlineLedger currentLedger = (currentLedger \<le> votingDeadlineLedger)"

definition isTerminal :: "panel_status \<Rightarrow> bool" where
  "isTerminal s = (s = Approved \<or> s = Paid \<or> s = Rejected \<or> s = Withdrawn \<or> s = AppealApproved \<or> s = AppealRejected)"

text \<open>The contract computes in u64 and truncates the result to u32.\<close>

definition required_cast_for_quorum :: "nat \<Rightarrow> nat \<Rightarrow> nat" where
  "required_cast_for_quorum eligible quorum_bps =
     (if eligible = 0 then 0
      else (let numer = min (eligible * quorum_bps) (2 ^ 64 - 1) in ((numer + 9999) div 10000) mod 2 ^ 32))"

definition participation_quorum_met :: "nat \<Rightarrow> nat \<Rightarrow> nat \<Rightarrow> bool" where
  "participation_quorum_met cast eligible quorum_bps = (required_cast_for_quorum eligible quorum_bps \<le> cast)"

definition resolve_plurality_if_quorum_met :: "nat \<Rightarrow> nat \<Rightarrow> nat \<Rightarrow> nat \<Rightarrow> nat \<Rightarrow> panel_status option" where
  "resolve_plurality_if_quorum_met approve reject cast eligible quorum_bps =
     (if \<not> participation_quorum_met cast eligible quorum_bps then None
      else if approve > reject then Some Approved else Some Rejected)"

definition is_claim_voting_open :: "nat \<Rightarrow> nat \<Rightarrow> bool" where
  "is_claim_voting_open now voting_deadline_ledger = (now \<le> voting_deadline_ledger)"

text \<open>What the tally shows: rounded shares of the eligible voters and the ballots that are still needed.\<close>

definition tally_pct :: "int \<Rightarrow> int \<Rightarrow> int" where
  "tally_pct count electors = (if 0 < electors then (200 * count + electors) div (2 * electors) else 0)"

definition tally_requiredCast :: "panel_claim \<Rightarrow> int" where
  "tally_requiredCast c = requiredBallotsForQuorum (pc_total_voters c)
     (case pc_quorum_bps c of None \<Rightarrow> DEFAULT_QUORUM_BPS | Some b \<Rightarrow> b)"

section \<open>The HTTP client\<close>

datatype verb = GET | POST

text \<open>The error body: what it has of \<open>code\<close> and \<open>message\<close>, or no JSON at all.\<close>

datatype error_body = ErrJson "string option" "string option" | ErrNoJson

datatype 'd reply = ReplyOk 'd | ReplyError nat error_body | Unreachable string

datatype api_error = VoteAPIError string string | FetchError string | SchemaError string

definition handleResponse :: "'d reply \<Rightarrow> api_error + 'd" where
  "handleResponse r = (case r of
     ReplyOk d \<Rightarrow> Inr d
   | ReplyError _ ErrNoJson \<Rightarrow> Inl (VoteAPIError ''REQUEST_FAILED'' ''Request failed'')
   | ReplyError _ (ErrJson c m) \<Rightarrow>
       Inl (VoteAPIError (case c of None \<Rightarrow> ''REQUEST_FAILED'' | Some x \<Rightarrow> x) (case m of None \<Rightarrow> ''Request failed'' | Some x \<Rightarrow> x))
   | Unreachable e \<Rightarrow> Inl (FetchError e))"

text \<open>\<open>parse\<close> is the zod schema: it throws when the body does not fit.\<close>

definition parsed :: "('d \<Rightarrow> string + 'v) \<Rightarrow> api_error + 'd \<Rightarrow> api_error + 'v" where
  "parsed parse r = and_then r (\<lambda>d. case parse d of Inl e \<Rightarrow> Inl (SchemaError e) | Inr v \<Rightarrow> Inr v)"

definition claim_path :: "string \<Rightarrow> string \<Rightarrow> string" where
  "claim_path claimId rest = ''/api/claims/'' @ claimId @ rest"

type_synonym 'd server = "verb \<Rightarrow> string \<Rightarrow> 'd reply"

definition fetchClaim :: "'d server \<Rightarrow> ('d \<Rightarrow> string + panel_claim) \<Rightarrow> string \<Rightarrow> api_error + panel_claim" where
  "fetchClaim srv parse claimId = parsed parse (handleResponse (srv GET (claim_path claimId '''')))"

text \<open>The wallet is in the query string, which is not part of the path.\<close>

definition fetchEligibility :: "'d server \<Rightarrow> ('d \<Rightarrow> string + panel_eligibility) \<Rightarrow> string \<Rightarrow> api_error + panel_eligibility" where
  "fetchEligibility srv parse claimId = parsed parse (handleResponse (srv GET (claim_path claimId ''/eligibility'')))"

text \<open>The four simulations differ in the path and in the fallback text; a server that cannot be reached lets the user go on.\<close>

definition simulate :: "string \<Rightarrow> 'd reply \<Rightarrow> string option" where
  "simulate fallback r = (case r of
     ReplyOk _ \<Rightarrow> None
   | ReplyError _ ErrNoJson \<Rightarrow> Some ''Simulation failed''
   | ReplyError _ (ErrJson _ m) \<Rightarrow> Some (case m of None \<Rightarrow> fallback | Some x \<Rightarrow> x)
   | Unreachable _ \<Rightarrow> None)"

definition simulateVote :: "'d server \<Rightarrow> string \<Rightarrow> string option" where
  "simulateVote srv claimId = simulate ''Transaction simulation failed'' (srv POST (claim_path claimId ''/vote/simulate''))"

definition simulateAppeal :: "'d server \<Rightarrow> string \<Rightarrow> string option" where
  "simulateAppeal srv claimId = simulate ''Appeal simulation failed'' (srv POST (claim_path claimId ''/appeal/simulate''))"

definition simulateAppealVote :: "'d server \<Rightarrow> string \<Rightarrow> string option" where
  "simulateAppealVote srv claimId = simulate ''Appeal vote simulation failed'' (srv POST (claim_path claimId ''/appeal/vote/simulate''))"

definition simulateWithdrawal :: "'d server \<Rightarrow> string \<Rightarrow> string option" where
  "simulateWithdrawal srv claimId = simulate ''Withdrawal simulation failed'' (srv POST (claim_path claimId ''/withdraw/simulate''))"

definition submitVote :: "'d server \<Rightarrow> ('d \<Rightarrow> string + 'v) \<Rightarrow> string \<Rightarrow> api_error + 'v" where
  "submitVote srv parse claimId = parsed parse (handleResponse (srv POST (claim_path claimId ''/vote'')))"

definition submitAppeal :: "'d server \<Rightarrow> string \<Rightarrow> api_error + 'd" where
  "submitAppeal srv claimId = handleResponse (srv POST (claim_path claimId ''/appeal''))"

definition submitAppealVote :: "'d server \<Rightarrow> string \<Rightarrow> api_error + 'd" where
  "submitAppealVote srv claimId = handleResponse (srv POST (claim_path claimId ''/appeal/vote''))"

definition submitWithdrawal :: "'d server \<Rightarrow> string \<Rightarrow> api_error + 'd" where
  "submitWithdrawal srv claimId = handleResponse (srv POST (claim_path claimId ''/withdraw''))"

definition checkAppealStatus :: "'d server \<Rightarrow> ('d \<Rightarrow> bool) \<Rightarrow> string \<Rightarrow> bool" where
  "checkAppealStatus srv submitted claimId = (case srv GET (claim_path claimId ''/appeal/status'') of
     ReplyOk d \<Rightarrow> submitted d | _ \<Rightarrow> False)"

text \<open>The texts shown for error codes.\<close>

definition VOTE_ERROR_MESSAGES :: "(string \<times> string) list" where
  "VOTE_ERROR_MESSAGES = [
     (''NOT_ELIGIBLE_VOTER'', ''Your wallet is not in the eligible voter list for this claim.''),
     (''DUPLICATE_VOTE'', ''You have already cast a vote on this claim.''),
     (''VOTING_WINDOW_CLOSED'', ''The voting window for this claim has closed.''),
     (''CLAIM_ALREADY_TERMINAL'', ''This claim has already been resolved.''),
     (''CLAIM_NOT_FOUND'', ''Claim not found.''),
     (''CLAIMS_PAUSED'', ''Claim operations are currently paused by the contract admin.''),
     (''REQUEST_FAILED'', ''Request failed. Please try again.'')]"

definition APPEAL_ERROR_MESSAGES :: "(string \<times> string) list" where
  "APPEAL_ERROR_MESSAGES = [
     (''NOT_CLAIMANT'', ''Only the claimant can appeal this claim.''),
     (''CLAIM_NOT_REJECTED'', ''Only rejected claims can be appealed.''),
     (''APPEAL_ALREADY_SUBMITTED'', ''An appeal has already been submitted for this claim.''),
     (''APPEAL_WINDOW_CLOSED'', ''The appeal window for this claim has closed.''),
     (''CLAIM_NOT_FOUND'', ''Claim not found.''),
     (''CLAIMS_PAUSED'', ''Claim operations are currently paused by the contract admin.''),
     (''REQUEST_FAILED'', ''Request failed. Please try again.'')]"

definition message_of :: "(string \<times> string) list \<Rightarrow> string \<Rightarrow> string \<Rightarrow> string" where
  "message_of table code msg = (case map_of table code of None \<Rightarrow> msg | Some t \<Rightarrow> t)"

section \<open>The backend's routes\<close>

datatype seg = Lit string | Param string

type_synonym claim_route = "verb \<times> seg list \<times> string"

text \<open>The claims controller's methods in the order in which they are declared. \<open>simulateAppeal\<close> and \<open>submitAppeal\<close> are
  declared twice, with the same paths: a class has one method of a name, at the place of the first.\<close>

definition claims_routes :: "claim_route list" where
  "claims_routes = [
     (POST, [Lit ''evidence'', Lit ''upload''], ''uploadEvidence''),
     (GET, [], ''listClaims''),
     (GET, [Lit ''needs-my-vote''], ''getClaimsNeedingMyVote''),
     (GET, [Param ''id''], ''getClaim''),
     (GET, [Param ''id'', Lit ''timeline''], ''getClaimTimeline''),
     (GET, [Param ''id'', Lit ''voters''], ''getClaimVoters''),
     (GET, [Param ''id'', Lit ''appeal'', Lit ''voters''], ''getAppealVoters''),
     (POST, [Param ''id'', Lit ''evidence'', Lit ''metadata''], ''storeEvidenceMetadata''),
     (GET, [Param ''id'', Lit ''evidence'', Param ''index''], ''downloadEvidence''),
     (POST, [Lit ''build-transaction''], ''buildTransaction''),
     (POST, [Lit ''submit''], ''submitTransaction''),
     (POST, [Param ''id'', Lit ''appeal'', Lit ''simulate''], ''simulateAppeal''),
     (POST, [Param ''id'', Lit ''appeal'', Lit ''build-transaction''], ''buildAppealTransaction''),
     (POST, [Param ''id'', Lit ''appeal''], ''submitAppeal''),
     (GET, [Lit ''status''], ''getClaimStatuses''),
     (GET, [Lit ''status'', Lit ''stream''], ''streamClaimStatuses''),
     (GET, [Param ''id'', Lit ''appeal'', Lit ''status''], ''getAppealStatus''),
     (POST, [Param ''id'', Lit ''appeal'', Lit ''vote'', Lit ''simulate''], ''simulateAppealVote''),
     (POST, [Param ''id'', Lit ''appeal'', Lit ''vote''], ''submitAppealVote'')]"

fun seg_match :: "seg list \<Rightarrow> string list \<Rightarrow> bool" where
  "seg_match [] [] = True"
| "seg_match (Lit a # ps) (b # bs) = (a = b \<and> seg_match ps bs)"
| "seg_match (Param _ # ps) (b # bs) = (b \<noteq> [] \<and> seg_match ps bs)"
| "seg_match _ _ = False"

text \<open>The full pattern of a route: global prefix, URI version, controller, method.\<close>

definition full_pattern :: "seg list \<Rightarrow> seg list" where
  "full_pattern segs = [Lit ''api'', Lit ''v1'', Lit ''claims''] @ segs"

definition path_segs :: "string \<Rightarrow> string list" where
  "path_segs path = tl (split_on (CHR ''/'') path)"

definition dispatch_route :: "verb \<Rightarrow> string \<Rightarrow> string option" where
  "dispatch_route vb path = map_option (\<lambda>(_, _, h). h)
     (List.find (\<lambda>(v, segs, _). v = vb \<and> seg_match (full_pattern segs) (path_segs path)) claims_routes)"

text \<open>The middleware in front of every route.\<close>

definition VERSION_NEUTRAL_PREFIXES :: "string list" where
  "VERSION_NEUTRAL_PREFIXES = [''/docs'', ''/openapi.json'']"

text \<open>\<open>/^\/api\/v\d+(\/|$)/\<close>: after the prefix at least one digit, then a slash or the end.\<close>

definition versioned_path :: "string \<Rightarrow> bool" where
  "versioned_path path = (starts_with ''/api/v'' path \<and>
     (let r = drop 6 path; ds = takeWhile is_digit r; rest = dropWhile is_digit r
      in ds \<noteq> [] \<and> (rest = [] \<or> hd rest = CHR ''/'')))"

definition rejectUnversioned :: "string \<Rightarrow> string \<Rightarrow> bool" where
  "rejectUnversioned node_env path =
     (if node_env \<noteq> ''production'' then False
      else if list_ex (\<lambda>p. path = p \<or> starts_with (p @ ''/'') path) VERSION_NEUTRAL_PREFIXES then False
      else starts_with ''/api/'' path \<and> \<not> versioned_path path)"

text \<open>The backend as a server: the middleware, then whatever the application behind it answers.\<close>

definition backend :: "string \<Rightarrow> 'd server \<Rightarrow> 'd server" where
  "backend node_env app vb path =
     (if rejectUnversioned node_env path then ReplyError 404 (ErrJson None (Some ''Not Found'')) else app vb path)"

section \<open>Properties\<close>

lemma ceil_10000: "ceil_div (int n) 10000 = int ((n + 9999) div 10000)"
  unfolding ceil_div_def zdiv_int by simp

text \<open>C12. The quorum the front end shows is the one the contract enforces: for every number of eligible voters that fits u32
  and every share up to 10,000 basis points, the integer arithmetic of the contract in u64, truncated to u32, and the
  front end's rounded-up quotient give the same number of ballots, never more than there are voters.\<close>

theorem quorum_matches_contract:
  assumes "eligible < 2 ^ 32" and "bps \<le> 10000"
  shows "requiredBallotsForQuorum (int eligible) (int bps) = int (required_cast_for_quorum eligible bps)
    \<and> required_cast_for_quorum eligible bps \<le> eligible"
proof -
  have le: "eligible * bps \<le> eligible * 10000" using assms(2) by simp
  moreover have "eligible * 10000 < 2 ^ 64 - 1" using assms(1) by simp
  ultimately have cap: "min (eligible * bps) (2 ^ 64 - 1) = eligible * bps" by (intro min_absorb1) linarith
  have "(eligible * bps + 9999) div 10000 \<le> (eligible * 10000 + 9999) div 10000" using le by (intro div_le_mono) simp
  also have "\<dots> = eligible" by simp
  finally have q: "(eligible * bps + 9999) div 10000 \<le> eligible" .
  then have "((eligible * bps + 9999) div 10000) mod 2 ^ 32 = (eligible * bps + 9999) div 10000" using assms(1) by simp
  then show ?thesis using q ceil_10000 [of "eligible * bps"]
    by (simp add: requiredBallotsForQuorum_def required_cast_for_quorum_def QUORUM_BPS_DENOMINATOR_def cap Let_def)
qed

theorem quorum_matches_contract_witness:
  "requiredBallotsForQuorum 7 5000 = int (required_cast_for_quorum 7 5000) \<and> required_cast_for_quorum 7 5000 \<le> 7"
  using quorum_matches_contract [of 7 5000] by simp

lemma vote_open_matches_contract: "isVoteOpen (int d) (int now) = is_claim_voting_open now d"
  by (simp add: isVoteOpen_def is_claim_voting_open_def)

lemma deadline_positive_iff_open: "0 < deadlineMs d now \<longleftrightarrow> isVoteOpen d now"
  by (simp add: deadlineMs_def isVoteOpen_def SECS_PER_LEDGER_def)

text \<open>The production backend and the front end's paths.\<close>

lemma claim_path_rejected: "rejectUnversioned ''production'' (claim_path claimId rest)"
  by (simp add: rejectUnversioned_def claim_path_def starts_with_def versioned_path_def VERSION_NEUTRAL_PREFIXES_def)

lemma backend_refuses [simp]: "backend ''production'' app vb (claim_path claimId rest) = ReplyError 404 (ErrJson None (Some ''Not Found''))"
  by (simp add: backend_def claim_path_rejected)

text \<open>C5. In production no voting call of the front end reaches the application: the client asks for \<open>/api/claims/...\<close>, and the
  middleware answers every path under \<open>/api/\<close> without a version segment with 404. So, for every claim and whatever the
  application behind the middleware would answer, loading the claim and the eligibility fails, every simulation reports
  \<open>Not Found\<close>, every submission throws, and the check for an existing appeal says there is none.\<close>

theorem voting_calls_refused:
  fixes app :: "'d server"
  shows "let srv = backend ''production'' app in
    fetchClaim srv pc claimId = Inl (VoteAPIError ''REQUEST_FAILED'' ''Not Found'') \<and>
    fetchEligibility srv pe claimId = Inl (VoteAPIError ''REQUEST_FAILED'' ''Not Found'') \<and>
    simulateVote srv claimId = Some ''Not Found'' \<and> simulateAppeal srv claimId = Some ''Not Found'' \<and>
    simulateAppealVote srv claimId = Some ''Not Found'' \<and> simulateWithdrawal srv claimId = Some ''Not Found'' \<and>
    submitVote srv pv claimId = Inl (VoteAPIError ''REQUEST_FAILED'' ''Not Found'') \<and>
    submitAppeal srv claimId = Inl (VoteAPIError ''REQUEST_FAILED'' ''Not Found'') \<and>
    submitAppealVote srv claimId = Inl (VoteAPIError ''REQUEST_FAILED'' ''Not Found'') \<and>
    submitWithdrawal srv claimId = Inl (VoteAPIError ''REQUEST_FAILED'' ''Not Found'') \<and>
    checkAppealStatus srv submitted claimId = False"
  by (simp add: Let_def fetchClaim_def fetchEligibility_def simulateVote_def simulateAppeal_def simulateAppealVote_def
      simulateWithdrawal_def submitVote_def submitAppeal_def submitAppealVote_def submitWithdrawal_def checkAppealStatus_def
      handleResponse_def simulate_def parsed_def)

text \<open>The claims controller itself: with the version segment too, there is no route for votes, eligibility and withdrawals,
  and the status poll is taken by the route for one claim, which is declared before it.\<close>

definition versioned_claim :: "string \<Rightarrow> string \<Rightarrow> string" where
  "versioned_claim claimId rest = ''/api/v1/claims/'' @ claimId @ rest"

lemma versioned_segs:
  assumes "CHR ''/'' \<notin> set claimId"
  shows "path_segs (versioned_claim claimId (CHR ''/'' # rest)) = [''api'', ''v1'', ''claims'', claimId] @ split_on (CHR ''/'') rest"
  using assms by (simp add: path_segs_def versioned_claim_def split_on_append)

lemma status_route_shadowed: "dispatch_route GET ''/api/v1/claims/status'' = Some ''getClaim''"
  by (simp add: dispatch_route_def path_segs_def claims_routes_def full_pattern_def)

lemma no_vote_routes:
  assumes "CHR ''/'' \<notin> set claimId"
  shows "dispatch_route POST (versioned_claim claimId ''/vote'') = None"
    and "dispatch_route POST (versioned_claim claimId ''/vote/simulate'') = None"
    and "dispatch_route GET (versioned_claim claimId ''/eligibility'') = None"
    and "dispatch_route POST (versioned_claim claimId ''/withdraw'') = None"
    and "dispatch_route POST (versioned_claim claimId ''/withdraw/simulate'') = None"
  using assms by (simp_all add: dispatch_route_def versioned_segs claims_routes_def full_pattern_def)

end
