(* ===== verification/Vote_Panel.thy ===== *)
theory Vote_Panel
  imports Vote_Api
begin

text \<open>
  The claim voting panel (\<open>components/claims/claim-vote-panel.tsx\<close>, \<open>AppealButton.tsx\<close>) and the hook
  \<open>hooks/useClaimVote.ts\<close>.

  The panel's handlers are split at their \<open>await\<close>s: a handler starts a call, which is then in flight, and a later
  step resolves any call in flight with a reply, so that answers arrive in every order. What the user can press is
  what the component shows in that state. Toasts, analytics and the texts of the page are left out.
\<close>

section \<open>The panel\<close>

datatype submit_state = Idle | Simulating | Confirming | Signing | Submitting | Done

datatype panel_call = LoadClaim | LoadEligibility string | CheckAppealStatus
  | SimVote string VoteOption | SignVote string VoteOption | SubmitVote string VoteOption string
  | SimAppeal string | SignAppeal string | SubmitAppeal string string
  | SimWithdrawal string | SignWithdrawal string | SubmitWithdrawal string string
  | SimAppealVote string VoteOption | SignAppealVote string VoteOption | SubmitAppealVote string VoteOption string

record vote_response =
  vr_transactionHash :: string
  vr_status :: panel_status
  vr_approve_votes :: int
  vr_reject_votes :: int

record panel_replies =
  rp_claim :: "api_error + panel_claim"
  rp_eligibility :: "api_error + panel_eligibility"
  rp_appealed :: bool
  rp_sim :: "string option"
  rp_sign :: "ui_thrown + string"
  rp_vote :: "api_error + vote_response"
  rp_tx :: "api_error + string"

record panel =
  pn_wallet :: "string option"
  pn_ledger :: "int option"
  pn_appealFlag :: bool
  pn_loadingClaim :: bool
  pn_claim :: "panel_claim option"
  pn_claimError :: "string option"
  pn_eligibility :: "panel_eligibility option"
  pn_pendingVote :: "VoteOption option"
  pn_submitState :: submit_state
  pn_txHash :: "string option"
  pn_simError :: "string option"
  pn_loadingAppealStatus :: bool
  pn_appealState :: submit_state
  pn_appealTxHash :: "string option"
  pn_appealError :: "string option"
  pn_appealReason :: "string option"
  pn_appealSimRetryable :: bool
  pn_withdrawalState :: submit_state
  pn_withdrawalTxHash :: "string option"
  pn_withdrawalError :: "string option"
  pn_pendingAppealVote :: "VoteOption option"
  pn_appealVoteState :: submit_state
  pn_appealVoteTxHash :: "string option"
  pn_appealVoteSimError :: "string option"
  pn_calls :: "panel_call list"
  pn_sent :: "panel_call list"

text \<open>A call that is started; submissions are also recorded as sent.\<close>

definition panel_start :: "panel_call \<Rightarrow> panel \<Rightarrow> panel" where
  "panel_start c st = st\<lparr>pn_calls := pn_calls st @ [c]\<rparr>"

definition panel_submit :: "panel_call \<Rightarrow> panel \<Rightarrow> panel" where
  "panel_submit c st = st\<lparr>pn_calls := pn_calls st @ [c], pn_sent := pn_sent st @ [c]\<rparr>"

definition initial_panel :: "string option \<Rightarrow> bool \<Rightarrow> panel" where
  "initial_panel wallet flag = \<lparr>pn_wallet = wallet, pn_ledger = None, pn_appealFlag = flag, pn_loadingClaim = True,
     pn_claim = None, pn_claimError = None, pn_eligibility = None, pn_pendingVote = None, pn_submitState = Idle, pn_txHash = None,
     pn_simError = None, pn_loadingAppealStatus = False, pn_appealState = Idle, pn_appealTxHash = None, pn_appealError = None,
     pn_appealReason = None, pn_appealSimRetryable = False, pn_withdrawalState = Idle, pn_withdrawalTxHash = None,
     pn_withdrawalError = None, pn_pendingAppealVote = None, pn_appealVoteState = Idle, pn_appealVoteTxHash = None,
     pn_appealVoteSimError = None, pn_calls = LoadClaim # (case wallet of None \<Rightarrow> [] | Some w \<Rightarrow> [LoadEligibility w]), pn_sent = []\<rparr>"

subsection \<open>What is shown\<close>

definition panel_visible :: "panel \<Rightarrow> bool" where
  "panel_visible st = (\<not> pn_loadingClaim st \<and> pn_claimError st = None \<and> pn_claim st \<noteq> None)"

definition currentLedger :: "panel \<Rightarrow> int" where
  "currentLedger st = (case pn_ledger st of None \<Rightarrow> 0 | Some l \<Rightarrow> l)"

definition voteOpen :: "panel \<Rightarrow> bool" where
  "voteOpen st = (case pn_claim st of None \<Rightarrow> False | Some c \<Rightarrow> isVoteOpen (pc_voting_deadline_ledger c) (currentLedger st))"

definition terminal_claim :: "panel \<Rightarrow> bool" where
  "terminal_claim st = (case pn_claim st of None \<Rightarrow> False | Some c \<Rightarrow> isTerminal (pc_status c))"

definition alreadyVoted :: "panel \<Rightarrow> bool" where
  "alreadyVoted st = (case pn_eligibility st of None \<Rightarrow> False | Some e \<Rightarrow> el_priorVote e \<noteq> None)"

definition eligible_voter :: "panel \<Rightarrow> bool" where
  "eligible_voter st = (case pn_eligibility st of None \<Rightarrow> False | Some e \<Rightarrow> el_eligible e)"

definition hasVoteActions :: "panel \<Rightarrow> bool" where
  "hasVoteActions st = (pn_wallet st \<noteq> None \<and> eligible_voter st \<and> \<not> alreadyVoted st \<and> voteOpen st \<and> \<not> terminal_claim st)"

definition showVoteActions :: "panel \<Rightarrow> bool" where
  "showVoteActions st = (panel_visible st \<and> hasVoteActions st \<and> pn_submitState st = Idle)"

definition disabledTooltip :: "panel \<Rightarrow> string option" where
  "disabledTooltip st =
     (if pn_wallet st = None then Some ''Connect your wallet to vote''
      else if \<not> eligible_voter st then Some (case pn_eligibility st of
          Some e \<Rightarrow> (case el_reason e of Some r \<Rightarrow> r | None \<Rightarrow> ''Your wallet is not eligible to vote on this claim'')
        | None \<Rightarrow> ''Your wallet is not eligible to vote on this claim'')
      else if alreadyVoted st then Some (''You already voted '' @
          (case pn_eligibility st of Some e \<Rightarrow> (if el_priorVote e = Some Approve then ''approve'' else ''reject'') | None \<Rightarrow> '''') @ '' on this claim'')
      else if \<not> voteOpen st then Some ''The voting window for this claim has closed''
      else if terminal_claim st then Some ''This claim has already been resolved''
      else if pn_submitState st = Done then Some ''Your vote has been submitted successfully.''
      else if pn_submitState st \<noteq> Idle then Some ''Your vote is being processed.''
      else None)"

definition status_is :: "panel_status \<Rightarrow> panel \<Rightarrow> bool" where
  "status_is s st = (case pn_claim st of None \<Rightarrow> False | Some c \<Rightarrow> pc_status c = s)"

definition canWithdraw :: "panel \<Rightarrow> bool" where
  "canWithdraw st = (panel_visible st \<and> pn_withdrawalState st = Idle \<and> pn_wallet st \<noteq> None \<and>
     (case pn_claim st of None \<Rightarrow> False | Some c \<Rightarrow> pc_status c = Processing \<and> pc_approve_votes c = 0 \<and> pc_reject_votes c = 0))"

text \<open>The reason the appeal button gives: the panel's, or a local one.\<close>

definition localReason :: "panel \<Rightarrow> string option" where
  "localReason st = (case pn_appealReason st of Some r \<Rightarrow> Some r
     | None \<Rightarrow> if \<not> status_is Rejected st then Some ''CLAIM_NOT_REJECTED''
              else if pn_wallet st = None \<or> pn_wallet st \<noteq> map_option pc_claimant (pn_claim st) then Some ''NOT_CLAIMANT'' else None)"

definition canAppeal :: "panel \<Rightarrow> bool" where
  "canAppeal st = (panel_visible st \<and> pn_appealFlag st \<and> status_is Rejected st \<and> \<not> pn_loadingAppealStatus st \<and> localReason st = None \<and>
     pn_appealState st \<noteq> Signing \<and> pn_appealState st \<noteq> Submitting)"

definition showAppealVote :: "panel \<Rightarrow> bool" where
  "showAppealVote st = (panel_visible st \<and> status_is UnderAppeal st \<and> pn_wallet st \<noteq> None \<and> eligible_voter st \<and> \<not> alreadyVoted st \<and>
     pn_appealVoteState st = Idle)"

subsection \<open>Handlers\<close>

definition panel_message :: "(string \<times> string) list \<Rightarrow> api_error \<Rightarrow> string" where
  "panel_message table e = (case e of VoteAPIError c m \<Rightarrow> message_of table c m | FetchError m \<Rightarrow> m | SchemaError m \<Rightarrow> m)"

definition handleVoteClick :: "VoteOption \<Rightarrow> panel \<Rightarrow> panel" where
  "handleVoteClick v st = (case pn_wallet st of None \<Rightarrow> st
     | Some w \<Rightarrow> panel_start (SimVote w v) (st\<lparr>pn_simError := None, pn_submitState := Simulating\<rparr>))"

definition handleConfirm :: "panel \<Rightarrow> panel" where
  "handleConfirm st = (case (pn_pendingVote st, pn_wallet st) of
     (Some v, Some w) \<Rightarrow> panel_start (SignVote w v) (st\<lparr>pn_submitState := Signing\<rparr>) | _ \<Rightarrow> st)"

definition handleCancel :: "panel \<Rightarrow> panel" where
  "handleCancel st = st\<lparr>pn_pendingVote := None, pn_submitState := Idle\<rparr>"

definition handleAppealClick :: "panel \<Rightarrow> panel" where
  "handleAppealClick st = st\<lparr>pn_appealError := None, pn_appealSimRetryable := False, pn_appealState := Confirming\<rparr>"

definition handleAppealConfirm :: "panel \<Rightarrow> panel" where
  "handleAppealConfirm st = (case pn_wallet st of None \<Rightarrow> st
     | Some w \<Rightarrow> panel_start (SimAppeal w) (st\<lparr>pn_appealState := Signing, pn_appealSimRetryable := False\<rparr>))"

definition handleAppealCancel :: "panel \<Rightarrow> panel" where
  "handleAppealCancel st = st\<lparr>pn_appealState := Idle\<rparr>"

definition handleWithdrawalClick :: "panel \<Rightarrow> panel" where
  "handleWithdrawalClick st = (case pn_wallet st of None \<Rightarrow> st
     | Some w \<Rightarrow> panel_start (SimWithdrawal w) (st\<lparr>pn_withdrawalError := None, pn_withdrawalState := Confirming\<rparr>))"

definition handleWithdrawalConfirm :: "panel \<Rightarrow> panel" where
  "handleWithdrawalConfirm st = (case pn_wallet st of None \<Rightarrow> st
     | Some w \<Rightarrow> panel_start (SignWithdrawal w) (st\<lparr>pn_withdrawalState := Signing\<rparr>))"

definition handleWithdrawalCancel :: "panel \<Rightarrow> panel" where
  "handleWithdrawalCancel st = st\<lparr>pn_withdrawalState := Idle\<rparr>"

definition handleAppealVoteClick :: "VoteOption \<Rightarrow> panel \<Rightarrow> panel" where
  "handleAppealVoteClick v st = (case pn_wallet st of None \<Rightarrow> st
     | Some w \<Rightarrow> panel_start (SimAppealVote w v) (st\<lparr>pn_appealVoteSimError := None, pn_appealVoteState := Simulating\<rparr>))"

definition handleAppealVoteConfirm :: "panel \<Rightarrow> panel" where
  "handleAppealVoteConfirm st = (case (pn_pendingAppealVote st, pn_wallet st) of
     (Some v, Some w) \<Rightarrow> panel_start (SignAppealVote w v) (st\<lparr>pn_appealVoteState := Signing\<rparr>) | _ \<Rightarrow> st)"

definition handleAppealVoteCancel :: "panel \<Rightarrow> panel" where
  "handleAppealVoteCancel st = st\<lparr>pn_pendingAppealVote := None, pn_appealVoteState := Idle\<rparr>"

subsection \<open>Replies\<close>

definition INELIGIBILITY_CODES :: "string list" where
  "INELIGIBILITY_CODES = [''NOT_CLAIMANT'', ''CLAIM_NOT_REJECTED'', ''APPEAL_ALREADY_SUBMITTED'', ''APPEAL_WINDOW_CLOSED'']"

text \<open>A loaded claim: a rejected one starts the check for an existing appeal, when the feature is on.\<close>

definition claim_loaded :: "api_error + panel_claim \<Rightarrow> panel \<Rightarrow> panel" where
  "claim_loaded r st = (case r of
     Inr c \<Rightarrow> (let st1 = st\<lparr>pn_claim := Some c, pn_claimError := None, pn_loadingClaim := False\<rparr>
              in if pn_appealFlag st \<and> pc_status c = Rejected
                 then panel_start CheckAppealStatus (st1\<lparr>pn_loadingAppealStatus := True\<rparr>) else st1)
   | Inl e \<Rightarrow> st\<lparr>pn_claimError := Some (panel_message [] e), pn_loadingClaim := False\<rparr>)"

definition with_tally :: "vote_response \<Rightarrow> panel_claim \<Rightarrow> panel_claim" where
  "with_tally r c = c\<lparr>pc_status := vr_status r, pc_approve_votes := vr_approve_votes r, pc_reject_votes := vr_reject_votes r\<rparr>"

definition vote_outcome :: "VoteOption \<Rightarrow> api_error + vote_response \<Rightarrow> panel \<Rightarrow> panel" where
  "vote_outcome v res st = (case res of
     Inl _ \<Rightarrow> st\<lparr>pn_submitState := Idle, pn_pendingVote := None\<rparr>
   | Inr r \<Rightarrow> st\<lparr>pn_txHash := Some (vr_transactionHash r), pn_claim := map_option (with_tally r) (pn_claim st),
       pn_eligibility := map_option (\<lambda>e. e\<lparr>el_priorVote := Some v\<rparr>) (pn_eligibility st),
       pn_submitState := Done, pn_pendingVote := None\<rparr>)"

definition appeal_sim_result :: "string \<Rightarrow> string option \<Rightarrow> panel \<Rightarrow> panel" where
  "appeal_sim_result w sim st = (case sim of
     Some e \<Rightarrow> st\<lparr>pn_appealSimRetryable := e \<notin> set INELIGIBILITY_CODES,
                   pn_appealReason := (if e \<in> set INELIGIBILITY_CODES then Some e else pn_appealReason st),
                   pn_appealError := Some e, pn_appealState := Idle\<rparr>
   | None \<Rightarrow> panel_start (SignAppeal w) (st\<lparr>pn_appealState := Signing\<rparr>))"

definition appeal_failed :: "string option \<Rightarrow> string \<Rightarrow> panel \<Rightarrow> panel" where
  "appeal_failed code msg st = st\<lparr>pn_appealReason := (case code of Some c \<Rightarrow> if c \<in> set INELIGIBILITY_CODES then Some c else pn_appealReason st
                                                     | None \<Rightarrow> pn_appealReason st),
     pn_appealError := Some msg, pn_appealState := Idle\<rparr>"

definition appeal_result :: "api_error + string \<Rightarrow> panel \<Rightarrow> panel" where
  "appeal_result res st = (case res of
     Inl e \<Rightarrow> appeal_failed (case e of VoteAPIError c _ \<Rightarrow> Some c | _ \<Rightarrow> None) (panel_message APPEAL_ERROR_MESSAGES e) st
   | Inr h \<Rightarrow> panel_start LoadClaim (st\<lparr>pn_appealTxHash := Some h, pn_appealState := Done\<rparr>))"

definition WITHDRAWAL_ERROR_MESSAGES :: "(string \<times> string) list" where
  "WITHDRAWAL_ERROR_MESSAGES = [
     (''NOT_CLAIMANT'', ''Only the claimant can withdraw this claim.''),
     (''CLAIM_NOT_PROCESSING'', ''Only claims in Processing status can be withdrawn.''),
     (''VOTES_ALREADY_CAST'', ''Cannot withdraw a claim after voting has begun.''),
     (''CLAIM_NOT_FOUND'', ''Claim not found.''),
     (''CLAIMS_PAUSED'', ''Claim operations are currently paused by the contract admin.''),
     (''REQUEST_FAILED'', ''Request failed. Please try again.'')]"

definition withdrawal_result :: "api_error + string \<Rightarrow> panel \<Rightarrow> panel" where
  "withdrawal_result res st = (case res of
     Inl e \<Rightarrow> st\<lparr>pn_withdrawalError := Some (panel_message WITHDRAWAL_ERROR_MESSAGES e), pn_withdrawalState := Idle\<rparr>
   | Inr h \<Rightarrow> panel_start LoadClaim (st\<lparr>pn_withdrawalTxHash := Some h, pn_withdrawalState := Done\<rparr>))"

definition appeal_vote_result :: "api_error + vote_response \<Rightarrow> panel \<Rightarrow> panel" where
  "appeal_vote_result res st = (case res of
     Inl _ \<Rightarrow> st\<lparr>pn_appealVoteState := Idle, pn_pendingAppealVote := None\<rparr>
   | Inr r \<Rightarrow> st\<lparr>pn_appealVoteTxHash := Some (vr_transactionHash r), pn_claim := map_option (with_tally r) (pn_claim st),
       pn_appealVoteState := Done, pn_pendingAppealVote := None\<rparr>)"

text \<open>The continuation of each call.\<close>

definition continue_call :: "panel_call \<Rightarrow> panel_replies \<Rightarrow> panel \<Rightarrow> panel" where
  "continue_call c r st = (case c of
     LoadClaim \<Rightarrow> claim_loaded (rp_claim r) st
   | LoadEligibility _ \<Rightarrow> st\<lparr>pn_eligibility := (case rp_eligibility r of Inl _ \<Rightarrow> None | Inr e \<Rightarrow> Some e)\<rparr>
   | CheckAppealStatus \<Rightarrow> st\<lparr>pn_appealReason := (if rp_appealed r then Some ''APPEAL_ALREADY_SUBMITTED'' else pn_appealReason st),
                            pn_loadingAppealStatus := False\<rparr>
   | SimVote _ v \<Rightarrow> (case rp_sim r of Some e \<Rightarrow> st\<lparr>pn_simError := Some e, pn_submitState := Idle\<rparr>
                     | None \<Rightarrow> st\<lparr>pn_pendingVote := Some v, pn_submitState := Confirming\<rparr>)
   | SignVote w v \<Rightarrow> (case rp_sign r of Inl _ \<Rightarrow> st\<lparr>pn_submitState := Idle, pn_pendingVote := None\<rparr>
                      | Inr x \<Rightarrow> panel_submit (SubmitVote w v x) (st\<lparr>pn_submitState := Submitting\<rparr>))
   | SubmitVote _ v _ \<Rightarrow> vote_outcome v (rp_vote r) st
   | SimAppeal w \<Rightarrow> appeal_sim_result w (rp_sim r) st
   | SignAppeal w \<Rightarrow> (case rp_sign r of Inl t \<Rightarrow> appeal_failed None (thrown_message ''Appeal submission failed'' t) st
                      | Inr x \<Rightarrow> panel_submit (SubmitAppeal w x) (st\<lparr>pn_appealState := Submitting\<rparr>))
   | SubmitAppeal _ _ \<Rightarrow> appeal_result (rp_tx r) st
   | SimWithdrawal _ \<Rightarrow> (case rp_sim r of Some e \<Rightarrow> st\<lparr>pn_withdrawalError := Some e, pn_withdrawalState := Idle\<rparr>
                         | None \<Rightarrow> st\<lparr>pn_withdrawalState := Confirming\<rparr>)
   | SignWithdrawal w \<Rightarrow> (case rp_sign r of
         Inl t \<Rightarrow> st\<lparr>pn_withdrawalError := Some (thrown_message ''Withdrawal submission failed'' t), pn_withdrawalState := Idle\<rparr>
       | Inr x \<Rightarrow> panel_submit (SubmitWithdrawal w x) (st\<lparr>pn_withdrawalState := Submitting\<rparr>))
   | SubmitWithdrawal _ _ \<Rightarrow> withdrawal_result (rp_tx r) st
   | SimAppealVote _ v \<Rightarrow> (case rp_sim r of Some e \<Rightarrow> st\<lparr>pn_appealVoteSimError := Some e, pn_appealVoteState := Idle\<rparr>
                           | None \<Rightarrow> st\<lparr>pn_pendingAppealVote := Some v, pn_appealVoteState := Confirming\<rparr>)
   | SignAppealVote w v \<Rightarrow> (case rp_sign r of Inl _ \<Rightarrow> st\<lparr>pn_appealVoteState := Idle, pn_pendingAppealVote := None\<rparr>
                            | Inr x \<Rightarrow> panel_submit (SubmitAppealVote w v x) (st\<lparr>pn_appealVoteState := Submitting\<rparr>))
   | SubmitAppealVote _ _ _ \<Rightarrow> appeal_vote_result (rp_vote r) st)"

subsection \<open>Steps\<close>

datatype panel_event = Resolve nat panel_replies | WalletChange "string option" | LedgerTick int | PollClaim
  | ClickVote VoteOption | ConfirmVote | CancelVote
  | ClickAppeal | RetryAppeal | ConfirmAppeal | CancelAppeal
  | ClickWithdraw | ConfirmWithdraw | CancelWithdraw
  | ClickAppealVote VoteOption | ConfirmAppealVote | CancelAppealVote

definition drop_nth :: "nat \<Rightarrow> 'a list \<Rightarrow> 'a list" where
  "drop_nth i xs = take i xs @ drop (Suc i) xs"

definition panel_step :: "panel \<Rightarrow> panel_event \<Rightarrow> panel" where
  "panel_step st ev = (case ev of
     Resolve i r \<Rightarrow> (if i < length (pn_calls st)
                     then continue_call (pn_calls st ! i) r (st\<lparr>pn_calls := drop_nth i (pn_calls st)\<rparr>) else st)
   | WalletChange w \<Rightarrow> (let st1 = st\<lparr>pn_wallet := w\<rparr> in case w of None \<Rightarrow> st1 | Some a \<Rightarrow> panel_start (LoadEligibility a) st1)
   | LedgerTick l \<Rightarrow> st\<lparr>pn_ledger := Some l\<rparr>
   | PollClaim \<Rightarrow> (if pn_claim st \<noteq> None \<and> \<not> terminal_claim st \<and> voteOpen st then panel_start LoadClaim st else st)
   | ClickVote v \<Rightarrow> (if showVoteActions st then handleVoteClick v st else st)
   | ConfirmVote \<Rightarrow> (if panel_visible st \<and> pn_submitState st = Confirming then handleConfirm st else st)
   | CancelVote \<Rightarrow> (if panel_visible st \<and> pn_submitState st = Confirming then handleCancel st else st)
   | ClickAppeal \<Rightarrow> (if canAppeal st then handleAppealClick st else st)
   | RetryAppeal \<Rightarrow> (if panel_visible st \<and> pn_appealSimRetryable st \<and> pn_appealError st \<noteq> None then handleAppealClick st else st)
   | ConfirmAppeal \<Rightarrow> (if panel_visible st \<and> pn_appealState st = Confirming then handleAppealConfirm st else st)
   | CancelAppeal \<Rightarrow> (if panel_visible st \<and> pn_appealState st = Confirming then handleAppealCancel st else st)
   | ClickWithdraw \<Rightarrow> (if canWithdraw st then handleWithdrawalClick st else st)
   | ConfirmWithdraw \<Rightarrow> (if panel_visible st \<and> pn_withdrawalState st = Confirming then handleWithdrawalConfirm st else st)
   | CancelWithdraw \<Rightarrow> (if panel_visible st \<and> pn_withdrawalState st = Confirming then handleWithdrawalCancel st else st)
   | ClickAppealVote v \<Rightarrow> (if showAppealVote st then handleAppealVoteClick v st else st)
   | ConfirmAppealVote \<Rightarrow> (if panel_visible st \<and> pn_appealVoteState st = Confirming then handleAppealVoteConfirm st else st)
   | CancelAppealVote \<Rightarrow> (if panel_visible st \<and> pn_appealVoteState st = Confirming then handleAppealVoteCancel st else st))"

section \<open>The voting hook\<close>

datatype ineligibility = NotInSnapshot | OwnClaim | AlreadyVoted | DeadlinePassed

record hook_tally =
  ht_approvals :: int
  ht_rejections :: int
  ht_quorum :: int

record vote_hook =
  vh_tally :: hook_tally
  vh_existingVote :: "VoteOption option"
  vh_submitting :: bool
  vh_timeRemaining :: int
  vh_inFlight :: "(hook_tally \<times> VoteOption) option"
  vh_requests :: "VoteOption list"

definition normalize_address :: "string \<Rightarrow> string" where
  "normalize_address a = to_lower (trim a)"

definition applyVote :: "hook_tally \<Rightarrow> VoteOption \<Rightarrow> hook_tally" where
  "applyVote t choice = (if choice = Approve then t\<lparr>ht_approvals := ht_approvals t + 1\<rparr>
     else t\<lparr>ht_rejections := ht_rejections t + 1\<rparr>)"

definition hook_reason :: "string option \<Rightarrow> string \<Rightarrow> string list \<Rightarrow> vote_hook \<Rightarrow> ineligibility option" where
  "hook_reason voter claimAuthor snapshot st =
     (if vh_timeRemaining st \<le> 0 then Some DeadlinePassed
      else case voter of None \<Rightarrow> Some NotInSnapshot
      | Some v \<Rightarrow>
          if v = [] then Some NotInSnapshot
          else if normalize_address v = normalize_address claimAuthor then Some OwnClaim
          else if vh_existingVote st \<noteq> None then Some AlreadyVoted
          else if \<not> list_ex (\<lambda>a. normalize_address a = normalize_address v) snapshot then Some NotInSnapshot
          else None)"

text \<open>\<open>vote\<close> up to its \<open>await\<close>, and what follows it; the tally before the vote is kept by the closure.\<close>

definition hook_vote :: "string option \<Rightarrow> string \<Rightarrow> string list \<Rightarrow> VoteOption \<Rightarrow> vote_hook \<Rightarrow> vote_hook" where
  "hook_vote voter claimAuthor snapshot choice st =
     (if vh_inFlight st \<noteq> None \<or> hook_reason voter claimAuthor snapshot st \<noteq> None then st
      else st\<lparr>vh_inFlight := Some (vh_tally st, choice), vh_submitting := True, vh_tally := applyVote (vh_tally st) choice,
              vh_existingVote := Some choice, vh_requests := vh_requests st @ [choice]\<rparr>)"

definition hook_settle :: "hook_tally option \<Rightarrow> vote_hook \<Rightarrow> vote_hook" where
  "hook_settle result st = (case vh_inFlight st of None \<Rightarrow> st
     | Some (previous, _) \<Rightarrow>
         (case result of
            Some reconciled \<Rightarrow> st\<lparr>vh_tally := reconciled, vh_inFlight := None, vh_submitting := False\<rparr>
          | None \<Rightarrow> st\<lparr>vh_tally := previous, vh_existingVote := None, vh_inFlight := None, vh_submitting := False\<rparr>))"

datatype hook_event = HookVote VoteOption | HookSettle "hook_tally option" | HookTick int | NewInitialTally hook_tally
  | NewInitialVote "VoteOption option"

definition hook_step :: "string option \<Rightarrow> string \<Rightarrow> string list \<Rightarrow> int \<Rightarrow> vote_hook \<Rightarrow> hook_event \<Rightarrow> vote_hook" where
  "hook_step voter claimAuthor snapshot deadline st ev = (case ev of
     HookVote c \<Rightarrow> hook_vote voter claimAuthor snapshot c st
   | HookSettle r \<Rightarrow> hook_settle r st
   | HookTick now \<Rightarrow> st\<lparr>vh_timeRemaining := max 0 (deadline - now)\<rparr>
   | NewInitialTally t \<Rightarrow> st\<lparr>vh_tally := t\<rparr>
   | NewInitialVote v \<Rightarrow> st\<lparr>vh_existingVote := v\<rparr>)"

section \<open>Properties of the vote flow\<close>

definition is_vote_call :: "panel_call \<Rightarrow> bool" where
  "is_vote_call c = (case c of SimVote _ _ \<Rightarrow> True | SignVote _ _ \<Rightarrow> True | SubmitVote _ _ _ \<Rightarrow> True | _ \<Rightarrow> False)"

definition vote_calls :: "panel \<Rightarrow> panel_call list" where
  "vote_calls st = filter is_vote_call (pn_calls st)"

definition votes_sent :: "panel \<Rightarrow> panel_call list" where
  "votes_sent st = filter is_vote_call (pn_sent st)"

definition vote_flow_inv :: "panel \<Rightarrow> bool" where
  "vote_flow_inv st = (case pn_submitState st of
     Simulating \<Rightarrow> (\<exists>w v. vote_calls st = [SimVote w v])
   | Signing \<Rightarrow> (\<exists>w v. vote_calls st = [SignVote w v])
   | Submitting \<Rightarrow> (\<exists>w v x. vote_calls st = [SubmitVote w v x])
   | _ \<Rightarrow> vote_calls st = [])"

lemmas panel_helpers = panel_start_def panel_submit_def claim_loaded_def vote_outcome_def appeal_sim_result_def appeal_failed_def
  appeal_result_def withdrawal_result_def appeal_vote_result_def
lemmas panel_handlers = handleVoteClick_def handleConfirm_def handleCancel_def handleAppealClick_def handleAppealConfirm_def
  handleAppealCancel_def handleWithdrawalClick_def handleWithdrawalConfirm_def handleWithdrawalCancel_def
  handleAppealVoteClick_def handleAppealVoteConfirm_def handleAppealVoteCancel_def

lemma filter_drop_nth_other: "i < length xs \<Longrightarrow> \<not> P (xs ! i) \<Longrightarrow> filter P (drop_nth i xs) = filter P xs"
  unfolding drop_nth_def by (subst (3) id_take_nth_drop [of i xs]) auto

lemma filter_drop_nth_only:
  assumes "i < length xs" "P (xs ! i)" "filter P xs = [y]"
  shows "xs ! i = y \<and> filter P (drop_nth i xs) = []"
proof -
  have "filter P (take i xs) @ xs ! i # filter P (drop (Suc i) xs) = [y]"
    using assms id_take_nth_drop [of i xs] by (metis filter.simps(2) filter_append)
  then show ?thesis by (auto simp: drop_nth_def append_eq_Cons_conv)
qed

text \<open>The calls of the other flows leave the vote flow alone.\<close>

lemma other_calls_frame:
  assumes "\<not> is_vote_call c"
  shows "pn_submitState (continue_call c r st) = pn_submitState st \<and> vote_calls (continue_call c r st) = vote_calls st \<and>
    votes_sent (continue_call c r st) = votes_sent st"
  using assms by (cases c) (auto simp: continue_call_def panel_helpers vote_calls_def votes_sent_def is_vote_call_def Let_def
      split: sum.split option.split)

lemma vote_call_continues:
  assumes "vote_calls st = []" and "is_vote_call c" and "pn_submitState st = Simulating \<or> pn_submitState st = Signing \<or> pn_submitState st = Submitting"
  shows "vote_flow_inv (continue_call c r st)"
  using assms by (cases c) (auto simp: continue_call_def panel_helpers vote_calls_def is_vote_call_def vote_flow_inv_def
      split: sum.split option.split)

lemma vote_flow_inv_cong:
  "pn_submitState st' = pn_submitState st \<Longrightarrow> vote_calls st' = vote_calls st \<Longrightarrow> vote_flow_inv st' = vote_flow_inv st"
  by (cases "pn_submitState st") (simp_all add: vote_flow_inv_def)

lemma vote_inv_resolve:
  assumes inv: "vote_flow_inv st" and i: "i < length (pn_calls st)"
  shows "vote_flow_inv (continue_call (pn_calls st ! i) r (st\<lparr>pn_calls := drop_nth i (pn_calls st)\<rparr>))"
proof (cases "is_vote_call (pn_calls st ! i)")
  case False
  have "vote_calls (st\<lparr>pn_calls := drop_nth i (pn_calls st)\<rparr>) = vote_calls st"
    using filter_drop_nth_other [of i "pn_calls st" is_vote_call] i False by (simp add: vote_calls_def)
  then show ?thesis using other_calls_frame [OF False, of r "st\<lparr>pn_calls := drop_nth i (pn_calls st)\<rparr>"] inv
    vote_flow_inv_cong [of "continue_call (pn_calls st ! i) r (st\<lparr>pn_calls := drop_nth i (pn_calls st)\<rparr>)" st] by simp
next
  case True
  then have "vote_calls st \<noteq> []" using i by (auto simp: vote_calls_def filter_empty_conv)
  then obtain y where y: "vote_calls st = [y]"
      and busy: "pn_submitState st = Simulating \<or> pn_submitState st = Signing \<or> pn_submitState st = Submitting"
    using inv by (auto simp: vote_flow_inv_def split: submit_state.splits)
  have "vote_calls (st\<lparr>pn_calls := drop_nth i (pn_calls st)\<rparr>) = []"
    using filter_drop_nth_only [where P = is_vote_call, OF i True, of y] y by (simp add: vote_calls_def)
  then show ?thesis using vote_call_continues [OF _ True] busy by simp
qed

text \<open>The events that do not belong to the vote flow.\<close>

definition vote_event :: "panel_event \<Rightarrow> bool" where
  "vote_event ev = (case ev of Resolve _ _ \<Rightarrow> True | ClickVote _ \<Rightarrow> True | ConfirmVote \<Rightarrow> True | CancelVote \<Rightarrow> True | _ \<Rightarrow> False)"

lemma other_events_frame:
  assumes "\<not> vote_event ev"
  shows "pn_submitState (panel_step st ev) = pn_submitState st \<and> vote_calls (panel_step st ev) = vote_calls st \<and>
    votes_sent (panel_step st ev) = votes_sent st"
  using assms by (cases ev) (auto simp: vote_event_def panel_step_def panel_handlers panel_start_def vote_calls_def votes_sent_def
      is_vote_call_def Let_def split: option.split)

lemma vote_inv_step: "vote_flow_inv st \<Longrightarrow> vote_flow_inv (panel_step st ev)"
proof (cases "vote_event ev")
  case False
  then show "vote_flow_inv st \<Longrightarrow> ?thesis" using other_events_frame [OF False, of st] vote_flow_inv_cong [of "panel_step st ev" st] by simp
next
  case True
  assume inv: "vote_flow_inv st"
  show ?thesis
  proof (cases ev)
    case (Resolve i r)
    then show ?thesis using vote_inv_resolve [OF inv] inv by (simp add: panel_step_def)
  qed (use inv True in \<open>auto simp: vote_event_def panel_step_def panel_handlers panel_start_def vote_flow_inv_def vote_calls_def
       is_vote_call_def showVoteActions_def split: option.split\<close>)
qed

interpretation vote_flow: step_system panel_step vote_flow_inv
  by unfold_locales (rule vote_inv_step)

lemma initial_vote_inv: "vote_flow_inv (initial_panel w flag)"
  by (auto simp: vote_flow_inv_def initial_panel_def vote_calls_def is_vote_call_def split: option.split)

text \<open>Once the vote is done, the vote flow rests.\<close>

definition vote_done :: "panel_call list \<Rightarrow> panel \<Rightarrow> bool" where
  "vote_done sent st = (pn_submitState st = Done \<and> vote_calls st = [] \<and> votes_sent st = sent)"

lemma vote_done_step: "vote_done sent st \<Longrightarrow> vote_done sent (panel_step st ev)"
proof (cases "vote_event ev")
  case False
  then show "vote_done sent st \<Longrightarrow> ?thesis" using other_events_frame [OF False, of st] by (simp add: vote_done_def)
next
  case True
  assume d: "vote_done sent st"
  show ?thesis
  proof (cases ev)
    case (Resolve i r)
    show ?thesis
    proof (cases "i < length (pn_calls st)")
      case i: True
      then have other: "\<not> is_vote_call (pn_calls st ! i)" using d by (auto simp: vote_done_def vote_calls_def filter_empty_conv)
      have "vote_done sent (st\<lparr>pn_calls := drop_nth i (pn_calls st)\<rparr>)"
        using d filter_drop_nth_other [where P = is_vote_call, OF i other] by (simp add: vote_done_def vote_calls_def votes_sent_def)
      then show ?thesis using other_calls_frame [OF other, of r "st\<lparr>pn_calls := drop_nth i (pn_calls st)\<rparr>"] i
        by (simp add: panel_step_def Resolve vote_done_def)
    qed (simp add: panel_step_def Resolve d)
  qed (use d True in \<open>auto simp: vote_event_def panel_step_def vote_done_def showVoteActions_def\<close>)
qed

interpretation vote_rest: step_system panel_step "vote_done sent" for sent
  by unfold_locales (rule vote_done_step)

text \<open>C14. A panel casts at most one vote: whatever the user does and in whichever order simulations, signatures, submissions,
  polls and eligibility replies arrive, at most one call of the vote flow is in flight, and once a vote has been
  accepted the panel sends no other, not even for a wallet that is connected later.\<close>

theorem panel_votes_once:
  assumes "pn_submitState (run_steps panel_step (initial_panel w flag) as) = Done"
  shows "(\<forall>cs. length (vote_calls (run_steps panel_step (initial_panel w flag) cs)) \<le> 1) \<and>
    pn_submitState (run_steps panel_step (initial_panel w flag) (as @ bs)) = Done \<and>
    votes_sent (run_steps panel_step (initial_panel w flag) (as @ bs)) = votes_sent (run_steps panel_step (initial_panel w flag) as)"
proof -
  have inv: "vote_flow_inv (run_steps panel_step (initial_panel w flag) cs)" for cs
    by (rule vote_flow.run_inv) (rule initial_vote_inv)
  have one: "length (vote_calls (run_steps panel_step (initial_panel w flag) cs)) \<le> 1" for cs
    using inv [of cs] by (auto simp: vote_flow_inv_def split: submit_state.splits)
  have "vote_done (votes_sent (run_steps panel_step (initial_panel w flag) as)) (run_steps panel_step (initial_panel w flag) as)"
    using assms inv [of as] by (simp add: vote_done_def vote_flow_inv_def)
  then have "vote_done (votes_sent (run_steps panel_step (initial_panel w flag) as)) (run_steps panel_step (initial_panel w flag) (as @ bs))"
    unfolding run_steps_append by (rule vote_rest.run_inv)
  then show ?thesis using one by (simp add: vote_done_def)
qed

text \<open>A small run: the claim and the eligibility are loaded, a vote is simulated, signed and accepted.\<close>

definition sample_panel_claim :: panel_claim where
  "sample_panel_claim = \<lparr>pc_claimant = ''C'', pc_status = Processing, pc_voting_deadline_ledger = 9, pc_approve_votes = 0, pc_reject_votes = 0,
     pc_total_voters = 3, pc_quorum_bps = None, pc_appeal_submitted = None\<rparr>"

definition sample_replies :: panel_replies where
  "sample_replies = \<lparr>rp_claim = Inr sample_panel_claim, rp_eligibility = Inr \<lparr>el_eligible = True, el_reason = None, el_priorVote = None\<rparr>,
     rp_appealed = False, rp_sim = None, rp_sign = Inr ''x'',
     rp_vote = Inr \<lparr>vr_transactionHash = ''h'', vr_status = Processing, vr_approve_votes = 1, vr_reject_votes = 0\<rparr>, rp_tx = Inr ''h''\<rparr>"

definition sample_events :: "panel_event list" where
  "sample_events = [Resolve 0 sample_replies, Resolve 0 sample_replies, ClickVote Approve, Resolve 0 sample_replies, ConfirmVote,
     Resolve 0 sample_replies, Resolve 0 sample_replies]"

lemmas panel_eval = sample_events_def sample_replies_def sample_panel_claim_def initial_panel_def panel_step_def continue_call_def
  panel_helpers panel_handlers drop_nth_def showVoteActions_def hasVoteActions_def panel_visible_def voteOpen_def terminal_claim_def
  alreadyVoted_def eligible_voter_def currentLedger_def isVoteOpen_def isTerminal_def votes_sent_def is_vote_call_def Let_def

lemma sample_vote_done: "pn_submitState (run_steps panel_step (initial_panel (Some ''A'') False) sample_events) = Done"
  by (simp add: panel_eval)

lemma sample_vote_sent: "votes_sent (run_steps panel_step (initial_panel (Some ''A'') False) sample_events) = [SubmitVote ''A'' Approve ''x'']"
  by (simp add: panel_eval)

theorem panel_votes_once_witness:
  "votes_sent (run_steps panel_step (initial_panel (Some ''A'') False)
     (sample_events @ [WalletChange (Some ''B''), Resolve 0 sample_replies, ClickVote Reject])) = [SubmitVote ''A'' Approve ''x'']"
  using panel_votes_once [OF sample_vote_done, of "[WalletChange (Some ''B''), Resolve 0 sample_replies, ClickVote Reject]"]
  unfolding sample_vote_sent by blast

section \<open>The panel against the production backend\<close>

definition replies_from :: "'d server \<Rightarrow> ('d \<Rightarrow> string + panel_claim) \<Rightarrow> ('d \<Rightarrow> string + panel_eligibility) \<Rightarrow> string \<Rightarrow> panel_event \<Rightarrow> bool" where
  "replies_from srv pc pe claimId ev = (case ev of
     Resolve _ r \<Rightarrow> rp_claim r = fetchClaim srv pc claimId \<and> rp_eligibility r = fetchEligibility srv pe claimId
   | _ \<Rightarrow> True)"

definition load_call :: "panel_call \<Rightarrow> bool" where
  "load_call c = (case c of LoadClaim \<Rightarrow> True | LoadEligibility _ \<Rightarrow> True | _ \<Rightarrow> False)"

definition panel_dead :: "panel \<Rightarrow> bool" where
  "panel_dead st = (pn_claim st = None \<and> pn_eligibility st = None \<and> list_all load_call (pn_calls st) \<and> pn_sent st = [])"

lemma production_replies:
  "fetchClaim (backend ''production'' app) pc claimId = Inl (VoteAPIError ''REQUEST_FAILED'' ''Not Found'')"
  "fetchEligibility (backend ''production'' app) pe claimId = Inl (VoteAPIError ''REQUEST_FAILED'' ''Not Found'')"
  by (simp_all add: fetchClaim_def fetchEligibility_def handleResponse_def parsed_def)

lemma panel_dead_not_visible: "panel_dead st \<Longrightarrow> \<not> panel_visible st"
  by (simp add: panel_dead_def panel_visible_def)

lemma list_all_drop_nth: "list_all P xs \<Longrightarrow> list_all P (drop_nth i xs)"
  by (auto simp: drop_nth_def list_all_iff dest: in_set_takeD in_set_dropD)

lemma panel_dead_step:
  assumes dead: "panel_dead st" and replies: "replies_from (backend ''production'' app) pc pe claimId ev"
  shows "panel_dead (panel_step st ev)"
proof (cases ev)
  case (Resolve i r)
  show ?thesis
  proof (cases "i < length (pn_calls st)")
    case True
    then have "load_call (pn_calls st ! i)" using dead by (auto simp: panel_dead_def list_all_length)
    then show ?thesis using dead replies True list_all_drop_nth [of load_call "pn_calls st" i]
      by (cases "pn_calls st ! i") (auto simp: load_call_def panel_step_def Resolve replies_from_def production_replies
          continue_call_def claim_loaded_def panel_dead_def)
  qed (simp add: panel_step_def Resolve dead)
next
  case (WalletChange w)
  then show ?thesis using dead by (cases w) (auto simp: panel_step_def panel_dead_def panel_start_def load_call_def Let_def)
qed (use dead panel_dead_not_visible [OF dead] in \<open>auto simp: panel_step_def panel_dead_def showVoteActions_def canAppeal_def canWithdraw_def
     showAppealVote_def\<close>)

lemma panel_dead_run:
  "panel_dead st \<Longrightarrow> list_all (replies_from (backend ''production'' app) pc pe claimId) evs \<Longrightarrow> panel_dead (run_steps panel_step st evs)"
  by (induction evs arbitrary: st) (auto intro: panel_dead_step)

text \<open>In production the voting panel never shows a claim and never sends anything: the replies to its calls come from the
  backend with its versioning middleware, so loading fails each time, and for every sequence of events no button is
  shown, no vote, appeal, appeal vote or withdrawal is ever submitted.\<close>

theorem production_panel_never_votes:
  assumes "list_all (replies_from (backend ''production'' app) pc pe claimId) evs"
  shows "\<not> panel_visible (run_steps panel_step (initial_panel w flag) evs) \<and> pn_sent (run_steps panel_step (initial_panel w flag) evs) = []"
proof -
  have "panel_dead (initial_panel w flag)" by (auto simp: panel_dead_def initial_panel_def load_call_def split: option.split)
  from panel_dead_run [OF this assms] show ?thesis using panel_dead_not_visible by (auto simp: panel_dead_def)
qed

definition refused_replies :: panel_replies where
  "refused_replies = sample_replies\<lparr>rp_claim := Inl (VoteAPIError ''REQUEST_FAILED'' ''Not Found''),
     rp_eligibility := Inl (VoteAPIError ''REQUEST_FAILED'' ''Not Found'')\<rparr>"

lemma refused_conform:
  "list_all (replies_from (backend ''production'' (\<lambda>_ _. ReplyOk ())) (\<lambda>_. Inr sample_panel_claim) (\<lambda>_. Inl ''e'') ''7'')
     [Resolve 0 refused_replies, ClickVote Approve]"
  by (simp add: replies_from_def production_replies refused_replies_def)

theorem production_panel_never_votes_witness:
  "\<not> panel_visible (run_steps panel_step (initial_panel (Some ''A'') True) [Resolve 0 refused_replies, ClickVote Approve])"
  using production_panel_never_votes [OF refused_conform] by blast

section \<open>Races and refusals\<close>

text \<open>A claimant can submit the same withdrawal twice: the dialog opens before the simulation has answered, and the late answer of
  the simulation opens it again after the withdrawal has been confirmed, signed and accepted.\<close>

theorem withdrawal_sent_twice:
  assumes "canWithdraw st" and "pn_wallet st = Some w" and "pn_calls st = []"
    and "rp_sign r = Inr x" and "rp_tx r = Inr h" and "rp_sim r = None"
  shows "pn_sent (run_steps panel_step st [ClickWithdraw, ConfirmWithdraw, Resolve 1 r, Resolve 1 r, Resolve 0 r, ConfirmWithdraw, Resolve 1 r]) =
    pn_sent st @ [SubmitWithdrawal w x, SubmitWithdrawal w x]"
  using assms by (simp add: panel_step_def continue_call_def panel_helpers panel_handlers drop_nth_def canWithdraw_def panel_visible_def)

definition sample_panel :: panel where
  "sample_panel = (initial_panel (Some ''C'') False)\<lparr>pn_loadingClaim := False, pn_claim := Some sample_panel_claim, pn_calls := []\<rparr>"

theorem withdrawal_sent_twice_witness:
  "pn_sent (run_steps panel_step sample_panel [ClickWithdraw, ConfirmWithdraw, Resolve 1 sample_replies, Resolve 1 sample_replies,
     Resolve 0 sample_replies, ConfirmWithdraw, Resolve 1 sample_replies]) =
   pn_sent sample_panel @ [SubmitWithdrawal ''C'' ''x'', SubmitWithdrawal ''C'' ''x'']"
  by (rule withdrawal_sent_twice)
    (simp_all add: sample_panel_def initial_panel_def canWithdraw_def panel_visible_def sample_panel_claim_def sample_replies_def)

text \<open>The replies for two wallets may arrive in the wrong order: the panel then shows the first wallet's eligibility to the second.\<close>

lemma stale_eligibility:
  assumes "pn_calls st = []" and "rp_eligibility rA = Inr eA" and "rp_eligibility rB = Inr eB"
  shows "pn_eligibility (run_steps panel_step st [WalletChange (Some a), WalletChange (Some b), Resolve 1 rB, Resolve 0 rA]) = Some eA"
  using assms by (simp add: panel_step_def continue_call_def panel_start_def drop_nth_def)

text \<open>A refused appeal simulation is offered for retry: the panel compares the message of the server with the error codes.\<close>

lemma refused_simulation_retryable:
  assumes "m \<in> set (map snd APPEAL_ERROR_MESSAGES)"
  shows "simulate f (ReplyError s (ErrJson (Some code) (Some m))) = Some m \<and>
    pn_appealSimRetryable (appeal_sim_result w (Some m) st)"
  using assms by (auto simp: simulate_def appeal_sim_result_def INELIGIBILITY_CODES_def APPEAL_ERROR_MESSAGES_def)

text \<open>A reason not to appeal is never taken back, not even when the claimant's wallet is connected.\<close>

lemma appeal_reason_sticks: "pn_appealReason st \<noteq> None \<Longrightarrow> pn_appealReason (panel_step st ev) \<noteq> None"
proof (cases ev)
  case (Resolve i r)
  assume "pn_appealReason st \<noteq> None"
  then show ?thesis by (cases "pn_calls st ! i")
    (auto simp: Resolve panel_step_def continue_call_def panel_helpers Let_def split: sum.split option.split)
qed (auto simp: panel_step_def panel_handlers panel_start_def Let_def split: option.split)

section \<open>Properties of the hook\<close>

text \<open>A failed vote restores the tally, and a successful one shows the server's.\<close>

lemma hook_rollback:
  assumes "vh_inFlight st = None" and "hook_reason voter author snapshot st = None"
  shows "vh_tally (hook_settle None (hook_vote voter author snapshot c st)) = vh_tally st \<and>
    vh_existingVote (hook_settle None (hook_vote voter author snapshot c st)) = None \<and>
    vh_tally (hook_settle (Some t) (hook_vote voter author snapshot c st)) = t"
  using assms by (simp add: hook_vote_def hook_settle_def)

text \<open>A tally that arrives while a vote is in flight is lost when the vote fails.\<close>

lemma hook_rollback_loses_refresh:
  assumes "vh_inFlight st = None" and "hook_reason voter author snapshot st = None"
  shows "vh_tally (run_steps (hook_step voter author snapshot d) st [HookVote c, NewInitialTally t, HookSettle None]) = vh_tally st"
  using assms by (simp add: hook_step_def hook_vote_def hook_settle_def)

text \<open>One request, and one more for each failure, as long as the server does not take a recorded vote back.\<close>

lemma hook_requests_bounded:
  assumes "list_all (\<lambda>e. e \<noteq> NewInitialVote None) evs" and "length (vh_requests st) \<le> n + (if vh_existingVote st = None then 0 else 1)"
  shows "length (vh_requests (run_steps (hook_step voter author snapshot d) st evs)) \<le> n + length (filter (\<lambda>e. e = HookSettle None) evs) + 1"
  using assms
proof (induction evs arbitrary: st n)
  case (Cons e evs)
  let ?st = "hook_step voter author snapshot d st e"
  let ?n = "n + (if e = HookSettle None then 1 else 0)"
  have "length (vh_requests ?st) \<le> ?n + (if vh_existingVote ?st = None then 0 else 1)"
    using Cons.prems by (cases e) (auto simp: hook_step_def hook_vote_def hook_settle_def hook_reason_def split: option.splits if_splits)
  from Cons.IH [OF _ this] Cons.prems(1) show ?case by (auto split: if_splits)
qed (simp split: if_splits)

end
