(* ===== verification/Appeals.thy ===== *)
theory Appeals
  imports Js_Prelude
begin

text \<open>
  The appeals service (\<open>services/appealService.ts\<close>): eligibility, unsigned transactions, reminders of the
  appeal window and the monitor of overdue appeals.

  The service depends on an interface \<open>AppealStore\<close> without implementation in the tree; the store is the
  record of what the interface documents: claims, appeals and a log of reminders. A time is \<open>undefined\<close>
  (\<open>None\<close>) or what \<open>Date.parse\<close> gives, which may be a non-number. The transaction builder, the notifier and
  the writes of the store may throw: their outcomes are arguments. The transaction is awaited between the check and the write of an
  opening, so openings may overlap: an opening is two steps, and the checked ones that wait are part of the state.
\<close>

datatype appeal_claim_status = ClaimPending | ClaimApproved | ClaimRejected | ClaimPaid

record appeal_case =
  ac_claimant :: string
  ac_status :: appeal_claim_status
  ac_opensAt :: "jnum option"
  ac_closesAt :: "jnum option"

datatype appeal_status = AppealOpen | AppealResolved | AppealExpired

record appeal_row =
  ap_id :: string
  ap_claimId :: string
  ap_openedBy :: string
  ap_openedAt :: int
  ap_deadline :: int
  ap_resolvedAt :: "int option"
  ap_status :: appeal_status

datatype reminder_kind = WindowOpen | WindowClosing24h

record sla_alert =
  sl_appealId :: string
  sl_claimId :: string
  sl_deadline :: int
  sl_overdueMs :: int

record appeal_store =
  as_claims :: "string \<rightharpoonup> appeal_case"
  as_appeals :: "appeal_row list"
  as_reminders :: "(string \<times> reminder_kind) list"
  as_sent :: "(string \<times> reminder_kind) list"
  as_alerts :: "sla_alert list"
  as_waiting :: "(nat \<times> string \<times> string \<times> int) list"    \<comment> \<open>checked openings: number, claim, caller, time of the check\<close>

definition DEFAULT_APPEAL_SLA_MS :: int where "DEFAULT_APPEAL_SLA_MS = 72 * 60 * 60 * 1000"

definition CLOSING_REMINDER_LEAD_MS :: int where "CLOSING_REMINDER_LEAD_MS = 24 * 60 * 60 * 1000"

definition getAppealByClaim :: "string \<Rightarrow> appeal_store \<Rightarrow> appeal_row option" where
  "getAppealByClaim claimId st = List.find (\<lambda>a. ap_claimId a = claimId) (as_appeals st)"

definition listOpenAppeals :: "appeal_store \<Rightarrow> appeal_row list" where
  "listOpenAppeals st = filter (\<lambda>a. ap_status a = AppealOpen) (as_appeals st)"

section \<open>Eligibility and transactions\<close>

datatype appeal_reason = Claim_not_found | Caller_not_claimant | Claim_not_rejected | Appeal_window_not_open
  | Appeal_window_closed | Appeal_already_exists

definition checkEligibility :: "int \<Rightarrow> string \<Rightarrow> string \<Rightarrow> appeal_store \<Rightarrow> appeal_reason option" where
  "checkEligibility now claimId caller st = (case as_claims st claimId of
     None \<Rightarrow> Some Claim_not_found
   | Some c \<Rightarrow>
       if ac_claimant c \<noteq> caller then Some Caller_not_claimant
       else if ac_status c \<noteq> ClaimRejected then Some Claim_not_rejected
       else if (case ac_opensAt c of None \<Rightarrow> False | Some t \<Rightarrow> js_int_lt now t) then Some Appeal_window_not_open
       else if (case ac_closesAt c of None \<Rightarrow> False | Some t \<Rightarrow> js_int_gt now t) then Some Appeal_window_closed
       else if getAppealByClaim claimId st \<noteq> None then Some Appeal_already_exists
       else None)"

datatype appeal_error = AppealError appeal_reason | Builder_Failed string | Store_Failed string

definition build_open_xdr :: "(string \<times> string \<Rightarrow> string + string) \<Rightarrow> string \<Rightarrow> appeal_error + string" where
  "build_open_xdr build claimId = (case build (''open_appeal:'' @ claimId, claimId) of Inl e \<Rightarrow> Inl (Builder_Failed e) | Inr x \<Rightarrow> Inr x)"

text \<open>What is stored once the transaction is built; \<open>save\<close> is the error of the write, if it fails.\<close>

definition save_new_appeal :: "int \<Rightarrow> int \<Rightarrow> string \<Rightarrow> string option \<Rightarrow> string \<Rightarrow> string \<Rightarrow> appeal_store \<Rightarrow> (appeal_error + unit) \<times> appeal_store" where
  "save_new_appeal now slaMs uuid save claimId caller st = (case save of
     Some e \<Rightarrow> (Inl (Store_Failed e), st)
   | None \<Rightarrow> (Inr (), st\<lparr>as_appeals := as_appeals st @ [\<lparr>ap_id = uuid, ap_claimId = claimId, ap_openedBy = caller, ap_openedAt = now,
        ap_deadline = now + slaMs, ap_resolvedAt = None, ap_status = AppealOpen\<rparr>]\<rparr>))"

text \<open>An opening until its transaction is awaited: the last read of the check is the one of an existing appeal.\<close>

definition start_open :: "nat \<Rightarrow> int \<Rightarrow> string \<Rightarrow> string \<Rightarrow> appeal_store \<Rightarrow> (appeal_error + unit) \<times> appeal_store" where
  "start_open n now claimId caller st = (case checkEligibility now claimId caller st of
     Some r \<Rightarrow> (Inl (AppealError r), st)
   | None \<Rightarrow> (Inr (), st\<lparr>as_waiting := as_waiting st @ [(n, claimId, caller, now)]\<rparr>))"

definition drop_waiting :: "nat \<Rightarrow> appeal_store \<Rightarrow> appeal_store" where
  "drop_waiting n st = st\<lparr>as_waiting := filter (\<lambda>w. fst w \<noteq> n) (as_waiting st)\<rparr>"

text \<open>Its rest. The clock is read again for the row; \<open>delay\<close> is the time in between. \<open>None\<close>: there is no such opening.\<close>

definition finish_open :: "(string \<times> string \<Rightarrow> string + string) \<Rightarrow> nat \<Rightarrow> int \<Rightarrow> string \<Rightarrow> string option \<Rightarrow> nat
    \<Rightarrow> appeal_store \<Rightarrow> (appeal_error + string \<times> string) option \<times> appeal_store" where
  "finish_open build delay slaMs uuid save n st = (case map_of (as_waiting st) n of
     None \<Rightarrow> (None, st)
   | Some (claimId, caller, now) \<Rightarrow> (case build_open_xdr build claimId of
        Inl e \<Rightarrow> (Some (Inl e), drop_waiting n st)
      | Inr x \<Rightarrow> (case save_new_appeal (now + int delay) slaMs uuid save claimId caller (drop_waiting n st) of
           (Inl e, st1) \<Rightarrow> (Some (Inl e), st1)
         | (Inr _, st1) \<Rightarrow> (Some (Inr (x, uuid)), st1))))"

text \<open>An opening that no other one interrupts.\<close>

definition buildOpenAppeal :: "(string \<times> string \<Rightarrow> string + string) \<Rightarrow> int \<Rightarrow> nat \<Rightarrow> int \<Rightarrow> string \<Rightarrow> string option \<Rightarrow> nat \<Rightarrow> string \<Rightarrow> string
    \<Rightarrow> appeal_store \<Rightarrow> (appeal_error + string \<times> string) option \<times> appeal_store" where
  "buildOpenAppeal build now delay slaMs uuid save n claimId caller st = (case start_open n now claimId caller st of
     (Inl e, st1) \<Rightarrow> (Some (Inl e), st1)
   | (Inr _, st1) \<Rightarrow> finish_open build delay slaMs uuid save n st1)"

text \<open>One transaction per voter; the first failure ends the loop.\<close>

fun buildAppealVotes :: "(string \<times> string \<Rightarrow> string + string) \<Rightarrow> string \<Rightarrow> (string \<times> int option) list \<Rightarrow> appeal_error + (string \<times> string) list" where
  "buildAppealVotes build appealId [] = Inr []"
| "buildAppealVotes build appealId ((address, weight) # voters) =
     (case build (''appeal_vote:'' @ appealId, address @ '':'' @ show_int (case weight of None \<Rightarrow> 1 | Some w \<Rightarrow> w)) of
        Inl e \<Rightarrow> Inl (Builder_Failed e)
      | Inr x \<Rightarrow> and_then (buildAppealVotes build appealId voters) (\<lambda>r. Inr ((address, x) # r)))"

definition getAppealState :: "string \<Rightarrow> appeal_store \<Rightarrow> appeal_row option" where
  "getAppealState claimId st = getAppealByClaim claimId st"

section \<open>Reminders and the monitor\<close>

text \<open>One reminder: sent, then logged. \<open>notify\<close> and \<open>save\<close> say whether the two calls succeed; \<open>None\<close> is the exception of the one that fails.\<close>

definition send_reminder_once :: "(reminder_kind \<Rightarrow> bool) \<Rightarrow> (reminder_kind \<Rightarrow> bool) \<Rightarrow> string \<Rightarrow> reminder_kind \<Rightarrow> appeal_store
    \<Rightarrow> reminder_kind list option \<times> appeal_store" where
  "send_reminder_once notify save claimId kind st =
     (if (claimId, kind) \<in> set (as_reminders st) then (Some [], st)
      else if \<not> notify kind then (None, st)
      else (let st1 = st\<lparr>as_sent := as_sent st @ [(claimId, kind)]\<rparr>
            in if \<not> save kind then (None, st1) else (Some [kind], st1\<lparr>as_reminders := as_reminders st1 @ [(claimId, kind)]\<rparr>)))"

definition open_reminder_due :: "int \<Rightarrow> appeal_case \<Rightarrow> bool" where
  "open_reminder_due now c = (case ac_opensAt c of None \<Rightarrow> False | Some t \<Rightarrow> js_int_ge now t)"

definition closing_reminder_due :: "int \<Rightarrow> appeal_case \<Rightarrow> bool" where
  "closing_reminder_due now c = (case ac_closesAt c of None \<Rightarrow> False
     | Some t \<Rightarrow> js_int_ge (now + CLOSING_REMINDER_LEAD_MS) t \<and> js_int_le now t)"

definition sendWindowReminders :: "int \<Rightarrow> (reminder_kind \<Rightarrow> bool) \<Rightarrow> (reminder_kind \<Rightarrow> bool) \<Rightarrow> string \<Rightarrow> appeal_case \<Rightarrow> appeal_store
    \<Rightarrow> reminder_kind list option \<times> appeal_store" where
  "sendWindowReminders now notify save claimId c st =
     (case (if open_reminder_due now c then send_reminder_once notify save claimId WindowOpen st else (Some [], st)) of
        (None, st1) \<Rightarrow> (None, st1)
      | (Some sent, st1) \<Rightarrow>
          (case (if closing_reminder_due now c then send_reminder_once notify save claimId WindowClosing24h st1 else (Some [], st1)) of
             (None, st2) \<Rightarrow> (None, st2)
           | (Some sent2, st2) \<Rightarrow> (Some (sent @ sent2), st2)))"

definition overdue_alert :: "int \<Rightarrow> appeal_row \<Rightarrow> sla_alert option" where
  "overdue_alert now a = (if ap_resolvedAt a \<noteq> None then None
     else if now > ap_deadline a then Some \<lparr>sl_appealId = ap_id a, sl_claimId = ap_claimId a, sl_deadline = ap_deadline a, sl_overdueMs = now - ap_deadline a\<rparr>
     else None)"

text \<open>The alert whose notification throws ends the run.\<close>

definition runSlaMonitor :: "int \<Rightarrow> (sla_alert \<Rightarrow> bool) \<Rightarrow> appeal_store \<Rightarrow> sla_alert list option \<times> appeal_store" where
  "runSlaMonitor now notify st = (let due = List.map_filter (overdue_alert now) (listOpenAppeals st)
     in (if list_all notify due then Some due else None, st\<lparr>as_alerts := as_alerts st @ takeWhile notify due\<rparr>))"

section \<open>Properties\<close>

datatype appeal_event = StartOpen nat int string string | FinishOpen "string \<times> string \<Rightarrow> string + string" nat string "string option" nat
  | SendReminders int "reminder_kind \<Rightarrow> bool" "reminder_kind \<Rightarrow> bool" string appeal_case | SlaRun int "sla_alert \<Rightarrow> bool"

definition appeal_step :: "int \<Rightarrow> appeal_store \<Rightarrow> appeal_event \<Rightarrow> appeal_store" where
  "appeal_step slaMs st ev = (case ev of
     StartOpen n now claimId caller \<Rightarrow> snd (start_open n now claimId caller st)
   | FinishOpen build delay uuid save n \<Rightarrow> snd (finish_open build delay slaMs uuid save n st)
   | SendReminders now notify save claimId c \<Rightarrow> snd (sendWindowReminders now notify save claimId c st)
   | SlaRun now notify \<Rightarrow> snd (runSlaMonitor now notify st))"

text \<open>A stored appeal was opened by the claimant of a rejected claim inside its window, up to the time its transaction took to build.\<close>

definition opened_rightly :: "nat \<Rightarrow> (string \<rightharpoonup> appeal_case) \<Rightarrow> appeal_row \<Rightarrow> bool" where
  "opened_rightly slack claims a = (case claims (ap_claimId a) of None \<Rightarrow> False
     | Some c \<Rightarrow> ac_claimant c = ap_openedBy a \<and> ac_status c = ClaimRejected \<and>
         \<not> (case ac_opensAt c of None \<Rightarrow> False | Some t \<Rightarrow> js_int_lt (ap_openedAt a) t) \<and>
         \<not> (case ac_closesAt c of None \<Rightarrow> False | Some t \<Rightarrow> js_int_gt (ap_openedAt a - int slack) t))"

definition admitted :: "(string \<rightharpoonup> appeal_case) \<Rightarrow> nat \<times> string \<times> string \<times> int \<Rightarrow> bool" where
  "admitted claims w = (case w of (_, claimId, caller, now) \<Rightarrow> (case claims claimId of None \<Rightarrow> False
     | Some c \<Rightarrow> ac_claimant c = caller \<and> ac_status c = ClaimRejected \<and>
         \<not> (case ac_opensAt c of None \<Rightarrow> False | Some t \<Rightarrow> js_int_lt now t) \<and>
         \<not> (case ac_closesAt c of None \<Rightarrow> False | Some t \<Rightarrow> js_int_gt now t)))"

definition appeals_inv :: "nat \<Rightarrow> (string \<rightharpoonup> appeal_case) \<Rightarrow> appeal_store \<Rightarrow> bool" where
  "appeals_inv slack claims st = (as_claims st = claims \<and> list_all (opened_rightly slack claims) (as_appeals st) \<and>
     list_all (admitted claims) (as_waiting st))"

text \<open>At most one appeal per claim, counting those that wait.\<close>

definition appeals_unique :: "appeal_store \<Rightarrow> bool" where
  "appeals_unique st = distinct (map ap_claimId (as_appeals st) @ map (fst \<circ> snd) (as_waiting st))"

definition built_within :: "nat \<Rightarrow> appeal_event \<Rightarrow> bool" where
  "built_within slack ev = (case ev of FinishOpen _ delay _ _ _ \<Rightarrow> delay \<le> slack | _ \<Rightarrow> True)"

text \<open>No opening starts while another one of the same claim waits.\<close>

definition starts_alone :: "appeal_store \<Rightarrow> appeal_event \<Rightarrow> bool" where
  "starts_alone st ev = (case ev of StartOpen _ _ claimId _ \<Rightarrow> list_all (\<lambda>w. fst (snd w) \<noteq> claimId) (as_waiting st) | _ \<Rightarrow> True)"

fun one_at_a_time :: "int \<Rightarrow> appeal_store \<Rightarrow> appeal_event list \<Rightarrow> bool" where
  "one_at_a_time slaMs st [] = True"
| "one_at_a_time slaMs st (ev # evs) = (starts_alone st ev \<and> one_at_a_time slaMs (appeal_step slaMs st ev) evs)"

lemma no_appeal_iff: "getAppealByClaim claimId st = None \<longleftrightarrow> claimId \<notin> ap_claimId ` set (as_appeals st)"
  by (auto simp: getAppealByClaim_def find_None_iff)

lemma appeal_eligible_iff:
  "checkEligibility now claimId caller st = None \<longleftrightarrow>
   (\<exists>c. as_claims st claimId = Some c \<and> ac_claimant c = caller \<and> ac_status c = ClaimRejected \<and>
      \<not> (case ac_opensAt c of None \<Rightarrow> False | Some t \<Rightarrow> js_int_lt now t) \<and>
      \<not> (case ac_closesAt c of None \<Rightarrow> False | Some t \<Rightarrow> js_int_gt now t) \<and> getAppealByClaim claimId st = None)"
  by (auto simp: checkEligibility_def split: option.split)

lemma scaled_mono: "(a::int) \<le> b \<Longrightarrow> a * 10 ^ k \<le> b * 10 ^ k"
  by (rule mult_right_mono) simp_all

lemma js_int_lt_mono: "js_int_lt b t \<Longrightarrow> a \<le> b \<Longrightarrow> js_int_lt a t"
  by (cases t) (auto simp: js_int_lt_def intro: le_less_trans [OF scaled_mono])

lemma js_int_gt_mono: "js_int_gt a t \<Longrightarrow> a \<le> b \<Longrightarrow> js_int_gt b t"
  by (cases t) (auto simp: js_int_gt_def intro: less_le_trans [OF _ scaled_mono])

lemma later_in_window:
  "\<not> js_int_lt now t \<Longrightarrow> \<not> js_int_lt (now + int d) t" "\<not> js_int_gt now t \<Longrightarrow> d \<le> slack \<Longrightarrow> \<not> js_int_gt (now + int d - int slack) t"
  using js_int_lt_mono [of "now + int d" t now] js_int_gt_mono [of "now + int d - int slack" t now] by auto

lemma new_appeal_rightly:
  assumes "admitted claims (n, claimId, caller, now)" and "delay \<le> slack"
  shows "opened_rightly slack claims \<lparr>ap_id = uuid, ap_claimId = claimId, ap_openedBy = caller, ap_openedAt = now + int delay,
    ap_deadline = d, ap_resolvedAt = None, ap_status = AppealOpen\<rparr>"
  using assms by (auto simp: admitted_def opened_rightly_def later_in_window split: option.splits)

lemma eligible_admitted: "checkEligibility now claimId caller st = None \<Longrightarrow> admitted (as_claims st) (n, claimId, caller, now)"
  by (auto simp: appeal_eligible_iff admitted_def)

lemma appeals_inv_start: "appeals_inv slack claims st \<Longrightarrow> appeals_inv slack claims (snd (start_open n now claimId caller st))"
  using eligible_admitted [of now claimId caller st n] by (auto simp: start_open_def appeals_inv_def split: option.split)

lemma finish_open_cases:
  obtains "snd (finish_open build delay slaMs uuid save n st) = st"
  | "snd (finish_open build delay slaMs uuid save n st) = drop_waiting n st"
  | claimId caller now d where "(n, claimId, caller, now) \<in> set (as_waiting st)"
    "snd (finish_open build delay slaMs uuid save n st) = (drop_waiting n st)\<lparr>as_appeals := as_appeals st @
      [\<lparr>ap_id = uuid, ap_claimId = claimId, ap_openedBy = caller, ap_openedAt = now + int delay, ap_deadline = d,
        ap_resolvedAt = None, ap_status = AppealOpen\<rparr>]\<rparr>"
proof (cases "map_of (as_waiting st) n")
  case None
  then show ?thesis using that(1) by (simp add: finish_open_def)
next
  case (Some w)
  obtain claimId caller now where w: "w = (claimId, caller, now)" by (metis prod_cases3)
  have "(n, claimId, caller, now) \<in> set (as_waiting st)" using Some w by (auto dest: map_of_SomeD)
  then show ?thesis using Some w that(2,3)
    by (cases "build_open_xdr build claimId"; cases save) (simp_all add: finish_open_def save_new_appeal_def drop_waiting_def)
qed

lemma appeals_inv_drop: "appeals_inv slack claims st \<Longrightarrow> appeals_inv slack claims (drop_waiting n st)"
  by (auto simp: appeals_inv_def drop_waiting_def list_all_iff)

lemma appeals_inv_finish:
  assumes inv: "appeals_inv slack claims st" and d: "delay \<le> slack"
  shows "appeals_inv slack claims (snd (finish_open build delay slaMs uuid save n st))"
proof (cases rule: finish_open_cases [of build delay slaMs uuid save n st])
  case (3 claimId caller now d)
  then have "admitted claims (n, claimId, caller, now)" using inv by (auto simp: appeals_inv_def list_all_iff)
  from new_appeal_rightly [OF this \<open>delay \<le> slack\<close>] show ?thesis using 3 appeals_inv_drop [OF inv, of n]
    by (simp add: appeals_inv_def drop_waiting_def)
qed (use inv appeals_inv_drop in simp_all)

lemma appeals_unique_start:
  assumes "appeals_unique st" and "list_all (\<lambda>w. fst (snd w) \<noteq> claimId) (as_waiting st)"
  shows "appeals_unique (snd (start_open n now claimId caller st))"
proof (cases "checkEligibility now claimId caller st")
  case None
  then have "claimId \<notin> ap_claimId ` set (as_appeals st)" by (auto simp: appeal_eligible_iff getAppealByClaim_def find_None_iff)
  then show ?thesis using assms None by (auto simp: start_open_def appeals_unique_def list_all_iff)
qed (use assms in \<open>simp add: start_open_def\<close>)

lemma appeals_unique_drop: "appeals_unique st \<Longrightarrow> appeals_unique (drop_waiting n st)"
  by (auto simp: appeals_unique_def drop_waiting_def distinct_map_filter)

lemma appeals_unique_finish:
  assumes "appeals_unique st"
  shows "appeals_unique (snd (finish_open build delay slaMs uuid save n st))"
proof (cases rule: finish_open_cases [of build delay slaMs uuid save n st])
  case (3 claimId caller now d)
  have "inj_on (fst \<circ> snd) (set (as_waiting st))" using assms by (auto simp: appeals_unique_def distinct_map)
  then have "claimId \<notin> (fst \<circ> snd) ` {w \<in> set (as_waiting st). fst w \<noteq> n}" using 3(1) by (fastforce simp: inj_on_def)
  moreover have "claimId \<notin> ap_claimId ` set (as_appeals st)" using assms 3(1) by (force simp: appeals_unique_def)
  ultimately show ?thesis using 3 appeals_unique_drop [OF assms, of n] by (auto simp: appeals_unique_def drop_waiting_def)
qed (use assms appeals_unique_drop in simp_all)

lemma send_reminder_frame:
  "send_reminder_once n s i k st = (r, st1) \<Longrightarrow> as_claims st1 = as_claims st \<and> as_appeals st1 = as_appeals st \<and> as_waiting st1 = as_waiting st"
  by (auto simp: send_reminder_once_def Let_def split: if_splits)

lemma reminders_frame:
  "as_claims (snd (sendWindowReminders now n s i c st)) = as_claims st" "as_appeals (snd (sendWindowReminders now n s i c st)) = as_appeals st"
  "as_waiting (snd (sendWindowReminders now n s i c st)) = as_waiting st"
  by (auto simp: sendWindowReminders_def split: prod.split option.split dest!: send_reminder_frame)

lemma appeals_inv_step:
  assumes "appeals_inv slack claims st" and "built_within slack ev"
  shows "appeals_inv slack claims (appeal_step slaMs st ev)"
proof (cases ev)
  case (FinishOpen build delay uuid save n)
  then show ?thesis using assms by (simp add: appeal_step_def appeals_inv_finish built_within_def)
qed (use assms in \<open>simp_all add: appeal_step_def appeals_inv_start\<close>, simp_all add: appeals_inv_def reminders_frame runSlaMonitor_def Let_def)

lemma appeals_unique_step: "appeals_unique st \<Longrightarrow> starts_alone st ev \<Longrightarrow> appeals_unique (appeal_step slaMs st ev)"
  by (cases ev) (simp_all add: appeal_step_def starts_alone_def appeals_unique_start appeals_unique_finish,
      simp_all add: appeals_unique_def reminders_frame runSlaMonitor_def Let_def)

lemma appeals_inv_run:
  "appeals_inv slack claims st \<Longrightarrow> list_all (built_within slack) evs \<Longrightarrow> appeals_inv slack claims (run_steps (appeal_step slaMs) st evs)"
  by (induction evs arbitrary: st) (auto simp: appeals_inv_step)

lemma appeals_unique_run: "appeals_unique st \<Longrightarrow> one_at_a_time slaMs st evs \<Longrightarrow> appeals_unique (run_steps (appeal_step slaMs) st evs)"
  by (induction evs arbitrary: st) (auto simp: appeals_unique_step)

text \<open>C16. Appeals are opened rightly: from an empty store, after any sequence of openings, which may overlap, reminders and monitor
  runs in which builder, notifier and store may fail, each stored appeal was opened by the claimant of a claim that is rejected, not
  before the opening of the window and not later after its closing than the longest time a transaction took to build (a bound that is
  missing or is no date does not restrict). If no opening starts while another one of the same claim waits for its transaction,
  a claim has at most one appeal.\<close>

theorem appeals_opened_rightly:
  assumes "as_appeals st = []" and "as_waiting st = []" and "list_all (built_within slack) evs"
  shows "list_all (opened_rightly slack (as_claims st)) (as_appeals (run_steps (appeal_step slaMs) st evs)) \<and>
    (one_at_a_time slaMs st evs \<longrightarrow> distinct (map ap_claimId (as_appeals (run_steps (appeal_step slaMs) st evs))))"
proof -
  have "appeals_inv slack (as_claims st) st" "appeals_unique st" using assms(1,2) by (simp_all add: appeals_inv_def appeals_unique_def)
  with appeals_inv_run [OF this(1) assms(3)] appeals_unique_run [OF this(2)] show ?thesis by (auto simp: appeals_inv_def appeals_unique_def)
qed

definition sample_appeal_claim :: appeal_case where
  "sample_appeal_claim = \<lparr>ac_claimant = ''A'', ac_status = ClaimRejected, ac_opensAt = Some (Fin 10), ac_closesAt = Some (Fin 90)\<rparr>"

definition sample_appeal_store :: appeal_store where
  "sample_appeal_store = \<lparr>as_claims = [''7'' \<mapsto> sample_appeal_claim], as_appeals = [], as_reminders = [], as_sent = [], as_alerts = [], as_waiting = []\<rparr>"

definition sample_openings :: "appeal_event list" where
  "sample_openings = [StartOpen 1 50 ''7'' ''A'', FinishOpen (\<lambda>_. Inr ''x'') 2 ''u'' None 1, StartOpen 2 60 ''7'' ''A'', FinishOpen (\<lambda>_. Inr ''x'') 1 ''w'' None 2]"

lemmas sample_opening_defs = sample_openings_def sample_appeal_store_def sample_appeal_claim_def appeal_step_def start_open_def finish_open_def drop_waiting_def
  build_open_xdr_def save_new_appeal_def checkEligibility_def getAppealByClaim_def js_int_lt_def js_int_gt_def

theorem appeals_opened_rightly_witness:
  "list_all (opened_rightly 3 (as_claims sample_appeal_store)) (as_appeals (run_steps (appeal_step 5) sample_appeal_store sample_openings)) \<and>
   distinct (map ap_claimId (as_appeals (run_steps (appeal_step 5) sample_appeal_store sample_openings)))"
proof -
  have "one_at_a_time 5 sample_appeal_store sample_openings" by (simp add: sample_opening_defs starts_alone_def)
  moreover have "list_all (built_within 3) sample_openings" by (simp add: sample_openings_def built_within_def)
  ultimately show ?thesis using appeals_opened_rightly [of sample_appeal_store 3 sample_openings 5] by (simp add: sample_appeal_store_def)
qed

text \<open>Two openings that overlap both store an appeal.\<close>

lemma overlapping_openings_both_save:
  "map ap_id (as_appeals (run_steps (appeal_step 5) sample_appeal_store
     [StartOpen 1 50 ''7'' ''A'', StartOpen 2 50 ''7'' ''A'', FinishOpen (\<lambda>_. Inr ''x'') 2 ''u'' None 1, FinishOpen (\<lambda>_. Inr ''x'') 2 ''w'' None 2])) =
   [''u'', ''w'']"
  by (simp add: sample_opening_defs)

text \<open>The appeal is stored when its transaction is built, before anyone signs it, and nothing removes it: a claimant who does not
  submit the transaction has used up the appeal.\<close>

lemma appeals_kept: "set (as_appeals st) \<subseteq> set (as_appeals (appeal_step slaMs st ev))"
proof (cases ev)
  case (FinishOpen build delay uuid save n)
  show ?thesis unfolding FinishOpen appeal_step_def appeal_event.case
    by (cases rule: finish_open_cases [of build delay slaMs uuid save n st]) (auto simp: drop_waiting_def)
qed (auto simp: appeal_step_def reminders_frame runSlaMonitor_def start_open_def Let_def split: option.split)

lemma appeals_kept_run: "set (as_appeals st) \<subseteq> set (as_appeals (run_steps (appeal_step slaMs) st evs))"
  by (induction evs arbitrary: st) (auto dest: appeals_kept [THEN subsetD, rotated])

lemma unsigned_appeal_blocks:
  assumes "finish_open build delay slaMs uuid save n st = (Some (Inr r), st1)" and "map_of (as_waiting st) n = Some (claimId, caller, now)"
  shows "getAppealByClaim claimId (run_steps (appeal_step slaMs) st1 evs) \<noteq> None"
proof -
  have "claimId \<in> ap_claimId ` set (as_appeals st1)"
    using assms by (auto simp: finish_open_def save_new_appeal_def split: option.splits sum.splits)
  then show ?thesis using appeals_kept_run [of st1 slaMs evs] by (auto simp: no_appeal_iff)
qed

subsection \<open>Reminders\<close>

definition save_works :: "appeal_event \<Rightarrow> bool" where
  "save_works ev = (case ev of SendReminders _ _ save _ _ \<Rightarrow> save WindowOpen \<and> save WindowClosing24h | _ \<Rightarrow> True)"

definition sent_logged :: "appeal_store \<Rightarrow> bool" where
  "sent_logged st = (as_sent st = as_reminders st \<and> distinct (as_reminders st))"

lemma sent_logged_once:
  "send_reminder_once n s i k st = (r, st1) \<Longrightarrow> sent_logged st \<Longrightarrow> s k \<Longrightarrow> sent_logged st1"
  by (auto simp: sent_logged_def send_reminder_once_def Let_def split: if_splits)

lemma sent_logged_reminders:
  "sent_logged st \<Longrightarrow> s WindowOpen \<Longrightarrow> s WindowClosing24h \<Longrightarrow> sent_logged (snd (sendWindowReminders now n s i c st))"
  by (auto simp: sendWindowReminders_def split: prod.split option.split dest!: sent_logged_once)

lemma sent_logged_step:
  assumes "sent_logged st" "save_works ev"
  shows "sent_logged (appeal_step slaMs st ev)"
proof (cases ev)
  case (SendReminders now n s i c)
  then show ?thesis using assms sent_logged_reminders by (simp add: appeal_step_def save_works_def)
qed (use assms in \<open>auto simp: appeal_step_def start_open_def finish_open_def drop_waiting_def save_new_appeal_def runSlaMonitor_def
     sent_logged_def Let_def split: option.split sum.split\<close>)

lemma sent_logged_run: "sent_logged st \<Longrightarrow> list_all save_works evs \<Longrightarrow> sent_logged (run_steps (appeal_step slaMs) st evs)"
  by (induction evs arbitrary: st) (auto simp: sent_logged_step)

text \<open>A reminder of the appeal window is sent at most once: over any sequence of runs at any times, with notifications that may fail,
  each claim gets at most one reminder of the opening and one of the closing, as long as the log can be written; a
  reminder is only sent when its time has come.\<close>

theorem appeal_reminders_once:
  assumes "as_sent st = []" and "as_reminders st = []" and "list_all save_works evs"
  shows "distinct (as_sent (run_steps (appeal_step slaMs) st evs))"
proof -
  have "sent_logged st" using assms by (simp add: sent_logged_def)
  from sent_logged_run [OF this assms(3)] show ?thesis by (simp add: sent_logged_def)
qed

theorem appeal_reminders_once_witness:
  "distinct (as_sent (run_steps (appeal_step 5) sample_appeal_store
     [SendReminders 20 (\<lambda>_. True) (\<lambda>_. True) ''7'' sample_appeal_claim, SendReminders 30 (\<lambda>_. True) (\<lambda>_. True) ''7'' sample_appeal_claim]))"
  by (rule appeal_reminders_once) (simp_all add: sample_appeal_store_def save_works_def)

text \<open>A log that cannot be written makes the next run send the reminder again.\<close>

lemma unlogged_reminder_repeats:
  assumes "(i, k) \<notin> set (as_reminders st)"
  shows "as_sent (snd (send_reminder_once (\<lambda>_. True) (\<lambda>_. True) i k (snd (send_reminder_once (\<lambda>_. True) (\<lambda>_. False) i k st)))) = as_sent st @ [(i, k), (i, k)]"
  using assms by (simp add: send_reminder_once_def Let_def)

text \<open>The reminder that the window is open has no end: it is sent for the first time also after the window has closed.\<close>

lemma late_open_reminder:
  assumes "(i, WindowOpen) \<notin> set (as_reminders st)" and "ac_opensAt c = Some (Fin a)" and "ac_closesAt c = Some (Fin b)"
    and "a \<le> now" and "b < now"
  shows "as_sent (snd (sendWindowReminders now (\<lambda>_. True) (\<lambda>_. True) i c st)) = as_sent st @ [(i, WindowOpen)]"
  using assms by (simp add: sendWindowReminders_def send_reminder_once_def open_reminder_due_def closing_reminder_due_def
      js_int_ge_def js_int_le_def Let_def)

text \<open>The closing reminder is due exactly in the last day of the window.\<close>

lemma closing_due_iff: "ac_closesAt c = Some (Fin b) \<Longrightarrow> closing_reminder_due now c \<longleftrightarrow> b - 86400000 \<le> now \<and> now \<le> b"
  by (auto simp: closing_reminder_due_def js_int_ge_def js_int_le_def CLOSING_REMINDER_LEAD_MS_def)

subsection \<open>The monitor\<close>

text \<open>The monitor reports exactly the open, unresolved, overdue appeals, and reports them again at every run.\<close>

lemma due_alerts_exact:
  "sl_appealId ` set (List.map_filter (overdue_alert now) (listOpenAppeals st)) =
   ap_id ` {a \<in> set (as_appeals st). ap_status a = AppealOpen \<and> ap_resolvedAt a = None \<and> ap_deadline a < now}"
  by (force simp: listOpenAppeals_def overdue_alert_def List.map_filter_def image_iff split: if_splits)

lemma sla_alerts_exact:
  "fst (runSlaMonitor now notify st) = Some alerts \<Longrightarrow> sl_appealId ` set alerts =
   ap_id ` {a \<in> set (as_appeals st). ap_status a = AppealOpen \<and> ap_resolvedAt a = None \<and> ap_deadline a < now}"
  using due_alerts_exact [of now st] by (auto simp: runSlaMonitor_def Let_def split: if_splits)

lemma sla_alerts_repeat:
  "as_alerts (run_steps (appeal_step slaMs) st (replicate n (SlaRun now (\<lambda>_. True)))) =
   as_alerts st @ concat (replicate n (List.map_filter (overdue_alert now) (listOpenAppeals st)))"
proof (induction n arbitrary: st)
  case (Suc n)
  have "listOpenAppeals (snd (runSlaMonitor now (\<lambda>_. True) st)) = listOpenAppeals st"
    by (simp add: runSlaMonitor_def listOpenAppeals_def Let_def)
  then show ?case using Suc [of "snd (runSlaMonitor now (\<lambda>_. True) st)"] by (simp add: appeal_step_def) (simp add: runSlaMonitor_def Let_def)
qed simp

text \<open>Appeals are listed in one order, so an alert that cannot be delivered keeps all later ones from being sent, at every run.\<close>

lemma undeliverable_alert_blocks:
  assumes "List.map_filter (overdue_alert now) (listOpenAppeals st) = a # as" and "\<not> notify a"
  shows "runSlaMonitor now notify st = (None, st)"
  using assms by (simp add: runSlaMonitor_def Let_def)

lemma votes_built_for_all:
  assumes "\<And>p. build p = Inr (f p)"
  shows "\<exists>r. buildAppealVotes build appealId voters = Inr r \<and> map fst r = map fst voters"
  using assms by (induction build appealId voters rule: buildAppealVotes.induct) auto

end
