(* ===== verification/Live_Updates.thy ===== *)
theory Live_Updates
  imports Js_Prelude
begin

text \<open>
  How the front end keeps its data fresh: the shared event stream (\<open>hooks/useEventStream.ts\<close>), tallies by events or
  polling (\<open>lib/hooks/useRealtimeTallies.ts\<close>), the watcher of claim statuses (\<open>lib/hooks/useClaimWatcher.ts\<close>),
  confirmation of optimistic updates (\<open>lib/optimistic/*.ts\<close>, \<open>features/claims/hooks/useOptimisticClaims.ts\<close>) and the
  retry helper (\<open>lib/retry.ts\<close>).

  Each hook is a state with the timers, requests and event sources that are pending, and a step per callback, so that a
  run is any order of callbacks. The callbacks of a source that is closed do not come.
\<close>

section \<open>Delays\<close>

definition calcBackoffMs :: "nat \<Rightarrow> int \<Rightarrow> int \<Rightarrow> int" where
  "calcBackoffMs failureCount baseMs maxMs = min (baseMs * 2 ^ failureCount) maxMs"

definition BASE_RECONNECT_MS :: int where "BASE_RECONNECT_MS = 1000"

definition MAX_RECONNECT_MS :: int where "MAX_RECONNECT_MS = 30000"

definition TALLY_BASE_INTERVAL_MS :: int where "TALLY_BASE_INTERVAL_MS = 5000"

definition TALLY_MAX_INTERVAL_MS :: int where "TALLY_MAX_INTERVAL_MS = 60000"

definition WATCHER_BASE_MS :: int where "WATCHER_BASE_MS = 15000"

definition WATCHER_MAX_MS :: int where "WATCHER_MAX_MS = 60000"

section \<open>The event stream\<close>

datatype stream_status = StreamIdle | StreamConnecting | StreamOpen | StreamPaused | StreamError

datatype live_event = ClaimTally string int int | ClaimStatusEvent string string | TxConfirmation string int bool

text \<open>\<open>es_live\<close> are the event sources that are not closed, \<open>es_source\<close> the one the hook holds, \<open>es_fetching\<close> the number of
  connection attempts that wait for their token.\<close>

record event_stream =
  es_status :: stream_status
  es_lastEventId :: "string option"
  es_source :: "nat option"
  es_live :: "nat list"
  es_next :: nat
  es_fetching :: nat
  es_attempts :: nat
  es_timer :: "int option"
  es_hiddenTimer :: bool
  es_paused :: bool
  es_disposed :: bool
  es_applied :: "live_event list"

definition closeSource :: "event_stream \<Rightarrow> event_stream" where
  "closeSource st = (case es_source st of None \<Rightarrow> st | Some i \<Rightarrow> st\<lparr>es_live := removeAll i (es_live st), es_source := None\<rparr>)"

definition scheduleReconnect :: "event_stream \<Rightarrow> event_stream" where
  "scheduleReconnect st = (if es_disposed st \<or> es_paused st then st
     else st\<lparr>es_attempts := es_attempts st + 1, es_timer := Some (calcBackoffMs (es_attempts st) BASE_RECONNECT_MS MAX_RECONNECT_MS)\<rparr>)"

definition stream_connect :: "event_stream \<Rightarrow> event_stream" where
  "stream_connect st = (if es_disposed st \<or> es_paused st then st
     else (closeSource st)\<lparr>es_status := StreamConnecting, es_fetching := es_fetching st + 1\<rparr>)"

text \<open>The rest of \<open>connect\<close>, when the token has arrived or its request has failed.\<close>

definition token_arrived :: "bool \<Rightarrow> event_stream \<Rightarrow> event_stream" where
  "token_arrived ok st =
     (if es_fetching st = 0 then st
      else (let st1 = st\<lparr>es_fetching := es_fetching st - 1\<rparr>
            in if es_disposed st \<or> es_paused st then st1
               else if ok then st1\<lparr>es_source := Some (es_next st), es_live := es_live st @ [es_next st], es_next := es_next st + 1\<rparr>
               else scheduleReconnect (st1\<lparr>es_status := StreamError\<rparr>)))"

definition source_open :: "event_stream \<Rightarrow> event_stream" where
  "source_open st = st\<lparr>es_attempts := 0, es_status := StreamOpen\<rparr>"

text \<open>Parsing the message is an argument: \<open>None\<close> when it is no JSON or has no type.\<close>

definition source_message :: "string option \<Rightarrow> live_event option \<Rightarrow> event_stream \<Rightarrow> event_stream" where
  "source_message lastId ev st =
     (let st1 = (case lastId of None \<Rightarrow> st | Some i \<Rightarrow> if i = [] then st else st\<lparr>es_lastEventId := Some i\<rparr>)
      in case ev of None \<Rightarrow> st1 | Some e \<Rightarrow> st1\<lparr>es_applied := es_applied st1 @ [e]\<rparr>)"

definition source_error :: "event_stream \<Rightarrow> event_stream" where
  "source_error st = (let st1 = closeSource st in
     if es_disposed st \<or> es_paused st then st1 else scheduleReconnect (st1\<lparr>es_status := StreamError\<rparr>))"

definition stream_pause :: "event_stream \<Rightarrow> event_stream" where
  "stream_pause st = (if es_paused st then st
     else (closeSource (st\<lparr>es_paused := True, es_timer := None\<rparr>))\<lparr>es_status := StreamPaused\<rparr>)"

definition stream_resume :: "event_stream \<Rightarrow> event_stream" where
  "stream_resume st = (if \<not> es_paused st then st else stream_connect (st\<lparr>es_paused := False, es_attempts := 0\<rparr>))"

definition stream_dispose :: "event_stream \<Rightarrow> event_stream" where
  "stream_dispose st = closeSource (st\<lparr>es_disposed := True, es_fetching := 0, es_timer := None, es_hiddenTimer := False\<rparr>)"

datatype stream_action = TokenReply bool | SourceOpen nat | SourceMessage nat "string option" "live_event option" | SourceError nat
  | ReconnectTimer | TabHidden | TabVisible | HiddenElapsed | Dispose

definition stream_step :: "event_stream \<Rightarrow> stream_action \<Rightarrow> event_stream" where
  "stream_step st a = (case a of
     TokenReply ok \<Rightarrow> token_arrived ok st
   | SourceOpen i \<Rightarrow> (if i \<in> set (es_live st) then source_open st else st)
   | SourceMessage i lastId ev \<Rightarrow> (if i \<in> set (es_live st) then source_message lastId ev st else st)
   | SourceError i \<Rightarrow> (if i \<in> set (es_live st) then source_error st else st)
   | ReconnectTimer \<Rightarrow> (if es_timer st \<noteq> None then stream_connect (st\<lparr>es_timer := None\<rparr>) else st)
   | TabHidden \<Rightarrow> (if es_disposed st \<or> es_hiddenTimer st then st else st\<lparr>es_hiddenTimer := True\<rparr>)
   | TabVisible \<Rightarrow> (if es_disposed st then st else stream_resume (st\<lparr>es_hiddenTimer := False\<rparr>))
   | HiddenElapsed \<Rightarrow> (if es_hiddenTimer st then stream_pause (st\<lparr>es_hiddenTimer := False\<rparr>) else st)
   | Dispose \<Rightarrow> stream_dispose st)"

definition stream_mounted :: event_stream where
  "stream_mounted = stream_connect \<lparr>es_status = StreamIdle, es_lastEventId = None, es_source = None, es_live = [], es_next = 0, es_fetching = 0,
     es_attempts = 0, es_timer = None, es_hiddenTimer = False, es_paused = False, es_disposed = False, es_applied = []\<rparr>"

text \<open>What a message writes into the query cache, and which keys it invalidates.\<close>

datatype query_value = TallyValue int int | StatusValue string | TxValue int bool

definition applyEvent :: "live_event \<Rightarrow> (string list \<times> query_value) \<times> string list list" where
  "applyEvent e = (case e of
     ClaimTally i f a \<Rightarrow> (([''claim'', i, ''tally''], TallyValue f a), [[''claim'', i]])
   | ClaimStatusEvent i s \<Rightarrow> (([''claim'', i, ''status''], StatusValue s), [[''claim'', i], [''claims'']])
   | TxConfirmation h n c \<Rightarrow> (([''transaction'', h], TxValue n c), if c then [[''transaction'', h]] else []))"

section \<open>Tallies and watched claims\<close>

datatype sse_state = NoSource | SseConnecting | SseConnected

record poller =
  po_unmounted :: bool
  po_hidden :: bool
  po_sse :: sse_state
  po_ids :: "string list"
  po_failures :: nat
  po_timer :: "int option"
  po_inflight :: bool

definition tally_schedule :: "bool \<Rightarrow> poller \<Rightarrow> poller" where
  "tally_schedule isFailure st = (if po_unmounted st \<or> po_sse st = SseConnected then st
     else st\<lparr>po_timer := Some (calcBackoffMs (if isFailure then po_failures st else 0) TALLY_BASE_INTERVAL_MS TALLY_MAX_INTERVAL_MS)\<rparr>)"

text \<open>\<open>poll\<close> up to its request: an earlier request is aborted and its handler does nothing.\<close>

definition tally_poll :: "poller \<Rightarrow> poller" where
  "tally_poll st = (if po_unmounted st \<or> po_sse st = SseConnected then st else if po_hidden st then st
     else if po_ids st = [] then tally_schedule False (st\<lparr>po_inflight := False\<rparr>)
     else st\<lparr>po_inflight := True\<rparr>)"

definition tally_reply :: "bool \<Rightarrow> poller \<Rightarrow> poller" where
  "tally_reply ok st = (if \<not> po_inflight st then st
     else (let st1 = st\<lparr>po_inflight := False\<rparr>
           in if po_unmounted st then st1
              else if ok then tally_schedule False (st1\<lparr>po_failures := 0\<rparr>)
              else tally_schedule True (st1\<lparr>po_failures := po_failures st + 1\<rparr>)))"

definition tally_timer :: "poller \<Rightarrow> poller" where
  "tally_timer st = (if po_timer st = None then st else tally_poll (st\<lparr>po_timer := None\<rparr>))"

definition tally_visibility :: "bool \<Rightarrow> poller \<Rightarrow> poller" where
  "tally_visibility visible st = (let st1 = st\<lparr>po_hidden := \<not> visible\<rparr> in
     if po_unmounted st \<or> po_sse st = SseConnected then st1 else if visible then tally_poll (st1\<lparr>po_timer := None\<rparr>) else st1)"

definition sse_open :: "poller \<Rightarrow> poller" where
  "sse_open st = (if po_unmounted st \<or> po_sse st = NoSource then st
     else st\<lparr>po_sse := SseConnected, po_timer := None, po_inflight := False\<rparr>)"

definition sse_failed :: "poller \<Rightarrow> poller" where
  "sse_failed st = (if po_unmounted st \<or> po_sse st = NoSource then st else tally_poll (st\<lparr>po_sse := NoSource\<rparr>))"

definition poller_unmount :: "poller \<Rightarrow> poller" where
  "poller_unmount st = st\<lparr>po_unmounted := True, po_sse := NoSource, po_timer := None, po_inflight := False\<rparr>"

text \<open>Mounting: the constructor of the source may throw.\<close>

definition tally_mounted :: "bool \<Rightarrow> bool \<Rightarrow> string list \<Rightarrow> poller" where
  "tally_mounted constructor_ok hidden ids =
     (let st = \<lparr>po_unmounted = False, po_hidden = hidden, po_sse = NoSource, po_ids = ids, po_failures = 0, po_timer = None, po_inflight = False\<rparr>
      in if constructor_ok then st\<lparr>po_sse := SseConnecting\<rparr> else tally_poll st)"

datatype poller_action = PollReply bool | PollTimer | Visibility bool | SseOpened | SseFailed | NewIds "string list" | Unmount

definition tally_step :: "poller \<Rightarrow> poller_action \<Rightarrow> poller" where
  "tally_step st a = (case a of
     PollReply ok \<Rightarrow> tally_reply ok st | PollTimer \<Rightarrow> tally_timer st | Visibility v \<Rightarrow> tally_visibility v st
   | SseOpened \<Rightarrow> sse_open st | SseFailed \<Rightarrow> sse_failed st | NewIds ids \<Rightarrow> st\<lparr>po_ids := ids\<rparr> | Unmount \<Rightarrow> poller_unmount st)"

text \<open>The watcher polls without a source; without claims its poll succeeds at once.\<close>

definition watcher_schedule :: "bool \<Rightarrow> poller \<Rightarrow> poller" where
  "watcher_schedule isFailure st = (if po_unmounted st then st
     else st\<lparr>po_timer := Some (if isFailure then calcBackoffMs (po_failures st) WATCHER_BASE_MS WATCHER_MAX_MS else WATCHER_BASE_MS)\<rparr>)"

definition runPoll :: "poller \<Rightarrow> poller" where
  "runPoll st = (if po_unmounted st then st else if po_hidden st then st
     else if po_ids st = [] then watcher_schedule False (st\<lparr>po_inflight := False, po_failures := 0\<rparr>)
     else st\<lparr>po_inflight := True\<rparr>)"

definition watcher_reply :: "bool \<Rightarrow> poller \<Rightarrow> poller" where
  "watcher_reply ok st = (if \<not> po_inflight st then st
     else (let st1 = st\<lparr>po_inflight := False\<rparr>
           in if po_unmounted st then st1
              else if ok then watcher_schedule False (st1\<lparr>po_failures := 0\<rparr>)
              else watcher_schedule True (st1\<lparr>po_failures := po_failures st + 1\<rparr>)))"

definition watcher_visibility :: "bool \<Rightarrow> poller \<Rightarrow> poller" where
  "watcher_visibility visible st = (let st1 = st\<lparr>po_hidden := \<not> visible\<rparr> in
     if po_unmounted st then st1 else if visible then runPoll (st1\<lparr>po_timer := None\<rparr>) else st1)"

definition watcher_step :: "poller \<Rightarrow> poller_action \<Rightarrow> poller" where
  "watcher_step st a = (case a of
     PollReply ok \<Rightarrow> watcher_reply ok st
   | PollTimer \<Rightarrow> (if po_timer st = None then st else runPoll (st\<lparr>po_timer := None\<rparr>))
   | Visibility v \<Rightarrow> watcher_visibility v st
   | NewIds ids \<Rightarrow> st\<lparr>po_ids := ids\<rparr> | Unmount \<Rightarrow> poller_unmount st | _ \<Rightarrow> st)"

text \<open>The updates of a poll: a callback for each status that differs from the last known one. Entries that do not fit the schema are \<open>None\<close>.\<close>

fun watch_updates :: "(string \<times> string) option list \<Rightarrow> (string \<rightharpoonup> string) \<Rightarrow> (string \<times> string) list \<times> (string \<rightharpoonup> string)" where
  "watch_updates [] known = ([], known)"
| "watch_updates (None # us) known = watch_updates us known"
| "watch_updates (Some (i, s) # us) known =
     (if known i \<noteq> Some s then (let (cs, l) = watch_updates us (known(i \<mapsto> s)) in ((i, s) # cs, l)) else watch_updates us known)"

section \<open>Optimistic updates\<close>

definition CONFIRMATION_TIMEOUT_MS :: int where "CONFIRMATION_TIMEOUT_MS = 60000"

datatype check_result = CheckConfirmed | CheckPending | CheckError string

datatype poll_outcome = Confirmed | RolledBack string

text \<open>The poller: \<open>check n\<close> is the answer of the n-th check and how long it took. The list counts the checks.\<close>

function (sequential) confirm_tick :: "(nat \<Rightarrow> check_result \<times> nat) \<Rightarrow> int \<Rightarrow> int \<Rightarrow> nat \<Rightarrow> poll_outcome \<times> nat" where
  "confirm_tick check createdAt now attempt =
     (if now - createdAt \<ge> CONFIRMATION_TIMEOUT_MS
      then (RolledBack ''Confirmation timed out. Please refresh to see the latest state.'', 0)
      else (case fst (check attempt) of
              CheckConfirmed \<Rightarrow> (Confirmed, 1)
            | CheckError m \<Rightarrow> (RolledBack m, 1)
            | CheckPending \<Rightarrow>
                (let (r, n) = confirm_tick check createdAt (now + int (snd (check attempt)) + calcBackoffMs (attempt + 1) 1000 30000) (attempt + 1)
                 in (r, n + 1))))"
  by pat_completeness auto
termination
proof (relation "measure (\<lambda>(_, createdAt, now, _). nat (createdAt + CONFIRMATION_TIMEOUT_MS - now))")
  fix check :: "nat \<Rightarrow> check_result \<times> nat" and createdAt now :: int and attempt :: nat
  assume "\<not> CONFIRMATION_TIMEOUT_MS \<le> now - createdAt"
  moreover have "0 < calcBackoffMs (attempt + 1) 1000 30000" by (simp add: calcBackoffMs_def)
  ultimately show "((check, createdAt, now + int (snd (check attempt)) + calcBackoffMs (attempt + 1) 1000 30000, attempt + 1), check, createdAt, now, attempt)
      \<in> measure (\<lambda>(_, createdAt, now, _). nat (createdAt + CONFIRMATION_TIMEOUT_MS - now))"
    by simp
qed simp

datatype optimistic_status = OptPending | OptConfirmed | OptFailed

record 'd optimistic_entry =
  oe_optimistic :: 'd
  oe_previous :: 'd
  oe_status :: optimistic_status
  oe_error :: "string option"

datatype 'd optimistic_action = Apply string "'d optimistic_entry" | Confirm string | Rollback string string | Remove string

definition optimistic_reducer :: "(string \<rightharpoonup> 'd optimistic_entry) \<Rightarrow> 'd optimistic_action \<Rightarrow> (string \<rightharpoonup> 'd optimistic_entry)" where
  "optimistic_reducer st a = (case a of
     Apply k e \<Rightarrow> st(k \<mapsto> e)
   | Confirm k \<Rightarrow> (case st k of None \<Rightarrow> st | Some e \<Rightarrow> st(k \<mapsto> e\<lparr>oe_status := OptConfirmed\<rparr>))
   | Rollback k m \<Rightarrow> (case st k of None \<Rightarrow> st | Some e \<Rightarrow> st(k \<mapsto> e\<lparr>oe_status := OptFailed, oe_error := Some m\<rparr>))
   | Remove k \<Rightarrow> st(k := None))"

record optimistic_claim =
  bc_id :: string
  bc_status :: string
  bc_approve_votes :: int
  bc_reject_votes :: int

definition applyOptimisticClaim :: "optimistic_claim \<Rightarrow> optimistic_claim optimistic_action" where
  "applyOptimisticClaim c = Apply (bc_id c) \<lparr>oe_optimistic = c\<lparr>bc_status := ''Processing''\<rparr>, oe_previous = c, oe_status = OptPending, oe_error = None\<rparr>"

definition applyOptimisticVote :: "optimistic_claim \<Rightarrow> bool \<Rightarrow> optimistic_claim optimistic_action" where
  "applyOptimisticVote c approve = Apply (bc_id c) \<lparr>oe_optimistic = c\<lparr>
       bc_approve_votes := (if approve then bc_approve_votes c + 1 else bc_approve_votes c),
       bc_reject_votes := (if approve then bc_reject_votes c else bc_reject_votes c + 1)\<rparr>,
     oe_previous = c, oe_status = OptPending, oe_error = None\<rparr>"

text \<open>What a row shows. The hook's \<open>syncWithServer\<close> is made once, over the entries of the first render, which are none: it confirms
  nothing and is not part of the merge here.\<close>

definition merge_row :: "(string \<rightharpoonup> optimistic_claim optimistic_entry) \<Rightarrow> optimistic_claim \<Rightarrow> optimistic_claim" where
  "merge_row st c = (case st (bc_id c) of None \<Rightarrow> c
     | Some e \<Rightarrow> (case oe_status e of OptConfirmed \<Rightarrow> c | OptFailed \<Rightarrow> oe_previous e | OptPending \<Rightarrow> oe_optimistic e))"

definition mergeWithOptimistic :: "(string \<rightharpoonup> optimistic_claim optimistic_entry) \<Rightarrow> optimistic_claim list \<Rightarrow> optimistic_claim list" where
  "mergeWithOptimistic st cs = map (merge_row st) cs"

definition checkClaimStatus :: "string \<Rightarrow> nat + optimistic_claim \<Rightarrow> check_result" where
  "checkClaimStatus expected reply = (case reply of Inl status \<Rightarrow> CheckError (''HTTP '' @ show_nat status)
     | Inr c \<Rightarrow> if bc_status c = expected then CheckConfirmed else CheckPending)"

definition getOptimisticStatus :: "(string \<rightharpoonup> optimistic_claim optimistic_entry) \<Rightarrow> string \<Rightarrow> (optimistic_status \<times> string option) option" where
  "getOptimisticStatus st k = map_option (\<lambda>e. (oe_status e, oe_error e)) (st k)"

section \<open>Retries\<close>

datatype fetch_error = AppError string | PlainError string | NoError

definition RETRYABLE_CODES :: "string list" where
  "RETRYABLE_CODES = [''NETWORK_ERROR'', ''SERVER_ERROR'', ''SOROBAN_RPC_ERROR'', ''TIMEOUT_ERROR'', ''RATE_LIMIT_EXCEEDED'']"

definition isRetryable :: "fetch_error \<Rightarrow> bool" where
  "isRetryable e = (case e of AppError c \<Rightarrow> c \<in> set RETRYABLE_CODES | PlainError m \<Rightarrow> str_includes ''failed to fetch'' (to_lower m) | NoError \<Rightarrow> False)"

text \<open>\<open>run n\<close> is the result of the n-th call; \<open>left\<close> the attempts that are left. The last component counts the calls. A thrown value may be no error
  object; the delays with their jitter are left out.\<close>

fun retry_loop :: "(nat \<Rightarrow> fetch_error + 'r) \<Rightarrow> nat \<Rightarrow> nat \<Rightarrow> fetch_error option \<Rightarrow> (fetch_error option + 'r) \<times> nat" where
  "retry_loop run attempt 0 lastError = (Inl lastError, attempt)"
| "retry_loop run attempt (Suc left) lastError = (case run attempt of
     Inr r \<Rightarrow> (Inr r, attempt + 1)
   | Inl e \<Rightarrow> if \<not> isRetryable e \<or> left = 0 then (Inl (Some e), attempt + 1) else retry_loop run (attempt + 1) left (Some e))"

definition withRetry :: "nat \<Rightarrow> (nat \<Rightarrow> fetch_error + 'r) \<Rightarrow> (fetch_error option + 'r) \<times> nat" where
  "withRetry maxAttempts run = retry_loop run 0 maxAttempts None"

section \<open>Properties of the event stream\<close>

text \<open>One source, held by the hook, as long as the tab does not pause while a token is fetched.\<close>

definition stream_inv :: "event_stream \<Rightarrow> bool" where
  "stream_inv st = (es_fetching st \<le> 1 \<and>
     (es_fetching st = 1 \<longrightarrow> es_live st = [] \<and> es_source st = None \<and> es_timer st = None \<and> \<not> es_paused st \<and> \<not> es_disposed st) \<and>
     (case es_source st of None \<Rightarrow> es_live st = [] | Some i \<Rightarrow> es_live st = [i] \<and> es_timer st = None \<and> \<not> es_paused st) \<and>
     (es_paused st \<longrightarrow> es_timer st = None) \<and>
     (es_disposed st \<longrightarrow> es_live st = [] \<and> es_timer st = None \<and> \<not> es_hiddenTimer st))"

text \<open>A pause that comes while a token is fetched.\<close>

definition pause_while_fetching :: "event_stream \<Rightarrow> stream_action \<Rightarrow> bool" where
  "pause_while_fetching st a = (a = HiddenElapsed \<and> 0 < es_fetching st)"

fun calm_run :: "event_stream \<Rightarrow> stream_action list \<Rightarrow> bool" where
  "calm_run st [] = True"
| "calm_run st (a # as) = (\<not> pause_while_fetching st a \<and> calm_run (stream_step st a) as)"

lemmas stream_defs = closeSource_def scheduleReconnect_def stream_connect_def token_arrived_def source_open_def source_message_def source_error_def
  stream_pause_def stream_resume_def stream_dispose_def

lemma stream_inv_step:
  assumes "stream_inv st" and "\<not> pause_while_fetching st a"
  shows "stream_inv (stream_step st a)"
proof (cases a)
  case (SourceMessage i l e)
  then show ?thesis using assms by (auto simp: stream_step_def stream_inv_def source_message_def Let_def split: option.splits)
next
  case (TokenReply ok)
  then show ?thesis using assms by (auto simp: stream_step_def stream_inv_def token_arrived_def scheduleReconnect_def Let_def split: option.splits)
qed (use assms in \<open>auto simp: stream_step_def stream_inv_def stream_defs pause_while_fetching_def Let_def split: option.splits\<close>)

lemma stream_inv_run: "stream_inv st \<Longrightarrow> calm_run st as \<Longrightarrow> stream_inv (run_steps stream_step st as)"
  by (induction as arbitrary: st) (auto simp: stream_inv_step)

text \<open>One event source per tab: in every run of the stream's callbacks in which the tab is not paused while a token is being
  fetched, at most one event source is open, the hook holds it, none is open while the stream is paused, and after the
  provider is unmounted none is left.\<close>

theorem single_event_source:
  assumes "calm_run stream_mounted as"
  shows "length (es_live (run_steps stream_step stream_mounted as)) \<le> 1 \<and>
    set (es_live (run_steps stream_step stream_mounted as)) = set_option (es_source (run_steps stream_step stream_mounted as)) \<and>
    (es_paused (run_steps stream_step stream_mounted as) \<or> es_disposed (run_steps stream_step stream_mounted as)
      \<longrightarrow> es_live (run_steps stream_step stream_mounted as) = [])"
proof -
  have "stream_inv stream_mounted" by (simp add: stream_mounted_def stream_inv_def stream_connect_def closeSource_def)
  from stream_inv_run [OF this assms] show ?thesis by (auto simp: stream_inv_def split: option.splits)
qed

theorem single_event_source_witness:
  "length (es_live (run_steps stream_step stream_mounted
     [TokenReply True, SourceOpen 0, TabHidden, HiddenElapsed, TabVisible, TokenReply False, ReconnectTimer, TokenReply True])) \<le> 1"
  using single_event_source [of "[TokenReply True, SourceOpen 0, TabHidden, HiddenElapsed, TabVisible, TokenReply False, ReconnectTimer, TokenReply True]"]
  by (simp add: pause_while_fetching_def stream_step_def stream_mounted_def stream_defs)

text \<open>A pause and a resume while a token is fetched leave a source that nobody closes, not even at the end.\<close>

lemma orphaned_source:
  "es_live (run_steps stream_step stream_mounted [TabHidden, HiddenElapsed, TabVisible, TokenReply True, TokenReply True]) = [0, 1] \<and>
   es_live (run_steps stream_step stream_mounted [TabHidden, HiddenElapsed, TabVisible, TokenReply True, TokenReply True, Dispose]) = [0]"
  by (simp add: stream_step_def stream_mounted_def stream_defs Let_def)

lemma reconnect_delay_bounds: "1000 \<le> calcBackoffMs n BASE_RECONNECT_MS MAX_RECONNECT_MS \<and> calcBackoffMs n BASE_RECONNECT_MS MAX_RECONNECT_MS \<le> 30000"
  by (simp add: calcBackoffMs_def BASE_RECONNECT_MS_def MAX_RECONNECT_MS_def)

section \<open>Properties of the pollers\<close>

definition poller_alive :: "poller \<Rightarrow> bool" where
  "poller_alive st = (po_unmounted st \<or> po_hidden st \<or> po_sse st \<noteq> NoSource \<or> po_timer st \<noteq> None \<or> po_inflight st)"

lemma tally_alive_step: "poller_alive st \<Longrightarrow> poller_alive (tally_step st a)"
  by (cases a) (auto simp: poller_alive_def tally_step_def tally_reply_def tally_timer_def tally_visibility_def sse_open_def sse_failed_def
      poller_unmount_def tally_poll_def tally_schedule_def Let_def)

lemma watcher_alive_step: "poller_alive st \<Longrightarrow> poller_alive (watcher_step st a)"
  by (cases a) (auto simp: poller_alive_def watcher_step_def watcher_reply_def watcher_visibility_def poller_unmount_def runPoll_def
      watcher_schedule_def Let_def)

interpretation tally_live: step_system tally_step poller_alive
  by unfold_locales (rule tally_alive_step)

interpretation watcher_live: step_system watcher_step poller_alive
  by unfold_locales (rule watcher_alive_step)

text \<open>C19. Tallies never stall: in every run, whatever the order of replies, failures, visibility changes and events of the source,
  a mounted hook in a visible tab always has an event source, a scheduled poll or a request under way; the same holds
  for the watcher of claim statuses, and each delay is between the base interval and one minute.\<close>

theorem updates_never_stall:
  "poller_alive (run_steps tally_step (tally_mounted ok hidden ids) as) \<and>
   poller_alive (run_steps watcher_step (runPoll \<lparr>po_unmounted = False, po_hidden = hidden, po_sse = NoSource, po_ids = ids, po_failures = 0,
     po_timer = None, po_inflight = False\<rparr>) as) \<and>
   5000 \<le> calcBackoffMs n TALLY_BASE_INTERVAL_MS TALLY_MAX_INTERVAL_MS \<and> calcBackoffMs n TALLY_BASE_INTERVAL_MS TALLY_MAX_INTERVAL_MS \<le> 60000 \<and>
   15000 \<le> calcBackoffMs n WATCHER_BASE_MS WATCHER_MAX_MS \<and> calcBackoffMs n WATCHER_BASE_MS WATCHER_MAX_MS \<le> 60000"
proof (intro conjI)
  show "poller_alive (run_steps tally_step (tally_mounted ok hidden ids) as)"
    by (rule tally_live.run_inv) (simp add: tally_mounted_def poller_alive_def tally_poll_def tally_schedule_def Let_def)
  show "poller_alive (run_steps watcher_step (runPoll \<lparr>po_unmounted = False, po_hidden = hidden, po_sse = NoSource, po_ids = ids, po_failures = 0,
     po_timer = None, po_inflight = False\<rparr>) as)"
    by (rule watcher_live.run_inv) (simp add: poller_alive_def runPoll_def watcher_schedule_def)
qed (simp_all add: calcBackoffMs_def TALLY_BASE_INTERVAL_MS_def TALLY_MAX_INTERVAL_MS_def WATCHER_BASE_MS_def WATCHER_MAX_MS_def)

text \<open>After an error the source is never opened again: the hook polls until it is unmounted.\<close>

lemma source_never_reopened: "po_sse st = NoSource \<Longrightarrow> po_sse (tally_step st a) = NoSource"
  by (cases a) (auto simp: tally_step_def tally_reply_def tally_timer_def tally_visibility_def sse_open_def sse_failed_def poller_unmount_def
      tally_poll_def tally_schedule_def Let_def)

text \<open>The watcher reports the first status it sees of a claim as a change, and then each change.\<close>

lemma first_status_reported: "fst (watch_updates [Some (i, s)] Map.empty) = [(i, s)]"
  by simp

text \<open>Between two callbacks for a claim its status has changed.\<close>

lemma watch_no_repeat:
  "distinct_adj (map snd (filter (\<lambda>p. fst p = i) (fst (watch_updates us known)))) \<and>
   (\<forall>s ss. map snd (filter (\<lambda>p. fst p = i) (fst (watch_updates us known))) = s # ss \<longrightarrow> known i \<noteq> Some s)"
proof (induction us known rule: watch_updates.induct)
  case (3 j s us known)
  show ?case
  proof (cases "known j \<noteq> Some s")
    case True
    obtain cs l where e: "watch_updates us (known(j \<mapsto> s)) = (cs, l)" by fastforce
    note IH = 3(1) [OF True, unfolded e fst_conv]
    show ?thesis using True e IH by (cases "map snd (filter (\<lambda>p. fst p = i) cs)") ((simp_all add: Let_def split: if_splits)?, auto)
  qed (use 3(2) in simp)
qed simp_all

section \<open>Properties of optimistic updates\<close>

declare confirm_tick.simps [simp del]

lemma backoff_table: "calcBackoffMs (Suc n) 1000 30000 = (if n < 4 then 1000 * 2 ^ Suc n else 30000)"
proof (cases "n < 4")
  case True
  then have "n = 0 \<or> n = 1 \<or> n = 2 \<or> n = 3" by arith
  then show ?thesis by (auto simp: calcBackoffMs_def)
next
  case False
  then have "(2::int) ^ 5 \<le> 2 ^ Suc n" by (intro power_increasing) auto
  then show ?thesis using False by (simp add: calcBackoffMs_def)
qed

text \<open>The earliest time of a check, and the checks that are left.\<close>

definition earliest :: "nat \<Rightarrow> int" where
  "earliest n = (if n = 0 then 0 else if n = 1 then 2000 else if n = 2 then 6000 else if n = 3 then 14000 else if n = 4 then 30000 else 60000)"

lemma earliest_next: "attempt < 5 \<Longrightarrow> earliest (Suc attempt) \<le> earliest attempt + calcBackoffMs (Suc attempt) 1000 30000"
  by (auto simp: earliest_def backoff_table)

lemma confirm_checks:
  "attempt \<le> 5 \<Longrightarrow> earliest attempt \<le> now - createdAt \<Longrightarrow> snd (confirm_tick check createdAt now attempt) \<le> 5 - attempt"
proof (induction check createdAt now attempt rule: confirm_tick.induct)
  case (1 check createdAt now attempt)
  show ?case
  proof (cases "now - createdAt \<ge> CONFIRMATION_TIMEOUT_MS")
    case False
    then have lt: "attempt < 5" using 1(2,3) by (cases "attempt = 5") (auto simp: earliest_def CONFIRMATION_TIMEOUT_MS_def)
    let ?next = "now + int (snd (check attempt)) + calcBackoffMs (attempt + 1) 1000 30000"
    have "earliest (attempt + 1) \<le> ?next - createdAt" using earliest_next [OF lt] 1(3) by simp
    then have IH: "fst (check attempt) = CheckPending \<Longrightarrow> snd (confirm_tick check createdAt ?next (attempt + 1)) \<le> 5 - (attempt + 1)"
      using 1(1) [OF False] lt by simp
    show ?thesis using lt IH False
      by (subst confirm_tick.simps) (auto split: check_result.split prod.split simp: Let_def)
  qed (subst confirm_tick.simps, simp)
qed

text \<open>Confirmation is bounded: the poller of an optimistic update that starts when it is created always ends, with a confirmation
  or a rollback, and asks the backend at most five times, however long each answer takes.\<close>

theorem confirmation_bounded:
  assumes "createdAt \<le> now"
  shows "snd (confirm_tick check createdAt now 0) \<le> 5"
  using confirm_checks [of 0 now createdAt check] assms by (simp add: earliest_def)

theorem confirmation_bounded_witness: "snd (confirm_tick (\<lambda>_. (CheckPending, 100)) 0 0 0) \<le> 5"
  by (rule confirmation_bounded) simp

text \<open>A rolled back row is frozen: after a failed confirmation the row shows the snapshot from before the action, whatever the
  server returns later, until the page is reloaded or another update is applied to the claim; nothing of the hook removes
  the entry.\<close>

lemma rolled_back_row_frozen:
  assumes "st k = Some e" and "bc_id c = k"
  shows "merge_row (optimistic_reducer st (Rollback k m)) c = oe_previous e"
  using assms by (simp add: merge_row_def optimistic_reducer_def)

text \<open>A vote does not change the status of the claim, so its first check confirms it, whether it was counted or not.\<close>

lemma vote_confirmed_at_once:
  assumes "optimistic_reducer st (applyOptimisticVote c b) (bc_id c) = Some e" and "bc_status c' = bc_status c"
  shows "checkClaimStatus (bc_status (oe_optimistic e)) (Inr c') = CheckConfirmed"
  using assms by (auto simp: applyOptimisticVote_def optimistic_reducer_def checkClaimStatus_def)

text \<open>A late confirmation turns a rolled back entry into a confirmed one.\<close>

lemma confirm_after_rollback:
  "st k = Some e \<Longrightarrow> map_option oe_status (optimistic_reducer (optimistic_reducer st (Rollback k m)) (Confirm k) k) = Some OptConfirmed"
  by (simp add: optimistic_reducer_def)

section \<open>Properties of retries\<close>

lemma retry_calls: "attempt \<le> snd (retry_loop run attempt left err) \<and> snd (retry_loop run attempt left err) \<le> attempt + left"
  by (induction run attempt left err rule: retry_loop.induct) (auto split: sum.split)

text \<open>At most \<open>maxAttempts\<close> calls, and every call but the last failed with an error that may be retried.\<close>

lemma retried_only_transient:
  "attempt \<le> k \<Longrightarrow> Suc k < snd (retry_loop run attempt left err) \<Longrightarrow> \<exists>e. run k = Inl e \<and> isRetryable e"
  by (induction run attempt left err rule: retry_loop.induct)
     (auto split: sum.splits if_splits, metis le_antisym not_less_eq_eq)

lemma withRetry_bounded: "snd (withRetry n run) \<le> n"
  using retry_calls [of 0 run n None] by (simp add: withRetry_def)

lemma withRetry_succeeds:
  assumes "run k = Inr r" and "\<And>j. j < k \<Longrightarrow> \<exists>e. run j = Inl e \<and> isRetryable e" and "k < n"
  shows "withRetry n run = (Inr r, Suc k)"
proof -
  have "attempt \<le> k \<Longrightarrow> k < attempt + left \<Longrightarrow> retry_loop run attempt left err = (Inr r, Suc k)" for attempt left err
    using assms(1,2)
  proof (induction left arbitrary: attempt err)
    case (Suc left)
    show ?case
    proof (cases "attempt = k")
      case False
      then have "attempt < k" using Suc.prems by simp
      then obtain e where "run attempt = Inl e" "isRetryable e" using Suc.prems by blast
      then show ?thesis using Suc.IH [of "Suc attempt" "Some e"] Suc.prems \<open>attempt < k\<close> by auto
    qed (simp add: Suc.prems)
  qed simp
  from this [of 0 n None] show ?thesis using assms(3) by (simp add: withRetry_def)
qed

end
