(* ===== verification/Admin_Jobs.thy ===== *)
theory Admin_Jobs
  imports Indexer
begin

text \<open>
  The admin endpoints that drive the indexer: \<open>admin/admin.service.ts\<close> (\<open>enqueueReindex\<close>, \<open>enqueueBackfill\<close>), their
  handlers in \<open>admin/admin.controller.ts\<close> and the workers \<open>indexer/reindex.worker.ts\<close> and \<open>indexer/backfill.worker.ts\<close>.

  The two BullMQ queues are lists of jobs; an argument says which additions succeed. Job ids contain the time and the index of
  the batch, so an addition never meets an existing id. The loop of \<open>enqueueBackfill\<close> is a partial function, \<open>None\<close> where it does not end.
\<close>

section \<open>Producers\<close>

datatype job_error = BadRange | RangeTooLarge int | Int_Refused | Queue_Failed

record reindex_job =
  rj_id :: string
  rj_fromLedger :: int
  rj_network :: string

record backfill_job =
  bj_id :: string
  bj_fromLedger :: int
  bj_toLedger :: int
  bj_network :: string
  bj_batchSize :: int

record admin_state =
  ad_ix :: ix_state
  ad_reindexQueue :: "reindex_job list"
  ad_backfillQueue :: "backfill_job list"
  ad_audit :: "(string \<times> string) list"

definition reindex_jobId :: "string \<Rightarrow> int \<Rightarrow> int \<Rightarrow> string" where
  "reindex_jobId network fromLedger ts = ''reindex-'' @ network @ ''-'' @ show_int fromLedger @ ''-'' @ show_int ts"

definition enqueueReindex :: "bool \<Rightarrow> int \<Rightarrow> int \<Rightarrow> string \<Rightarrow> admin_state \<Rightarrow> (job_error + string) \<times> admin_state" where
  "enqueueReindex accepted ts fromLedger network st =
     (case prisma_int (Fin (max 0 (fromLedger - 1))) of
        None \<Rightarrow> (Inl Int_Refused, st)
      | Some lastProcessed \<Rightarrow>
          (let ix = ad_ix st; db = ix_db ix;
               st1 = st\<lparr>ad_ix := ix\<lparr>ix_db := db\<lparr>db_cursor := upsert network lastProcessed (\<lambda>_. lastProcessed) (db_cursor db)\<rparr>\<rparr>\<rparr>;
               jobId = reindex_jobId network fromLedger ts
           in if accepted
              then (Inr jobId, st1\<lparr>ad_reindexQueue := ad_reindexQueue st1 @ [\<lparr>rj_id = jobId, rj_fromLedger = fromLedger, rj_network = network\<rparr>]\<rparr>)
              else (Inl Queue_Failed, st1)))"

definition backfill_job_at :: "int \<Rightarrow> string \<Rightarrow> int \<Rightarrow> int \<Rightarrow> int \<Rightarrow> nat \<Rightarrow> backfill_job" where
  "backfill_job_at ts network toLedger batchSize start i =
     (let stop = min (start + batchSize - 1) toLedger
      in \<lparr>bj_id = ''backfill-'' @ network @ ''-'' @ show_int start @ ''-'' @ show_int stop @ ''-'' @ show_int ts @ ''-'' @ show_nat i,
          bj_fromLedger = start, bj_toLedger = stop, bj_network = network, bj_batchSize = batchSize\<rparr>)"

text \<open>The loop over the chunks: the jobs added, and whether all additions succeeded.\<close>

partial_function (option) backfill_loop ::
  "(nat \<Rightarrow> bool) \<Rightarrow> int \<Rightarrow> string \<Rightarrow> int \<Rightarrow> int \<Rightarrow> int \<Rightarrow> nat \<Rightarrow> backfill_job list \<Rightarrow> (bool \<times> backfill_job list) option" where
  "backfill_loop accepted ts network toLedger batchSize start i jobs =
     (if start \<le> toLedger
      then if accepted i
           then backfill_loop accepted ts network toLedger batchSize (start + batchSize) (i + 1)
                  (jobs @ [backfill_job_at ts network toLedger batchSize start i])
           else Some (False, jobs)
      else Some (True, jobs))"

definition enqueueBackfill ::
  "(nat \<Rightarrow> bool) \<Rightarrow> int \<Rightarrow> int \<Rightarrow> int \<Rightarrow> string \<Rightarrow> int \<Rightarrow> admin_state \<Rightarrow> ((job_error + backfill_job list) \<times> admin_state) option" where
  "enqueueBackfill accepted ts fromLedger toLedger network batchSize st =
     map_option (\<lambda>(ok, jobs). (if ok then Inr jobs else Inl Queue_Failed, st\<lparr>ad_backfillQueue := ad_backfillQueue st @ jobs\<rparr>))
       (backfill_loop accepted ts network toLedger batchSize fromLedger 0 [])"

section \<open>Handlers\<close>

definition audited :: "string \<Rightarrow> string \<Rightarrow> (job_error + 'r) \<times> admin_state \<Rightarrow> (job_error + 'r) \<times> admin_state" where
  "audited actor action r = (case r of (Inl e, st) \<Rightarrow> (Inl e, st) | (Inr v, st) \<Rightarrow> (Inr v, st\<lparr>ad_audit := ad_audit st @ [(actor, action)]\<rparr>))"

definition handle_reindex :: "string \<Rightarrow> bool \<Rightarrow> int \<Rightarrow> string \<Rightarrow> int \<Rightarrow> string option \<Rightarrow> admin_state \<Rightarrow> (job_error + string) \<times> admin_state" where
  "handle_reindex configNetwork accepted ts actor fromLedger network st =
     audited actor ''reindex'' (enqueueReindex accepted ts fromLedger (case network of Some n \<Rightarrow> n | None \<Rightarrow> configNetwork) st)"

definition handle_backfill ::
  "string \<Rightarrow> int \<Rightarrow> int \<Rightarrow> (nat \<Rightarrow> bool) \<Rightarrow> int \<Rightarrow> string \<Rightarrow> int \<Rightarrow> int \<Rightarrow> string option \<Rightarrow> admin_state
     \<Rightarrow> ((job_error + backfill_job list) \<times> admin_state) option" where
  "handle_backfill configNetwork maxRange batchSize accepted ts actor fromLedger toLedger network st =
     (if fromLedger > toLedger then Some (Inl BadRange, st)
      else if toLedger - fromLedger + 1 > maxRange then Some (Inl (RangeTooLarge (toLedger - fromLedger + 1)), st)
      else map_option (audited actor ''indexer_backfill'')
             (enqueueBackfill accepted ts fromLedger toLedger (case network of Some n \<Rightarrow> n | None \<Rightarrow> configNetwork) batchSize st))"

section \<open>Workers\<close>

definition processReindexJob :: "'x env \<Rightarrow> (nat \<Rightarrow> 'x rpc) \<Rightarrow> reindex_job \<Rightarrow> (nat \<times> int) ix" where
  "processReindexJob env rpcs job = processUntilCaughtUp env (rj_network job) rpcs"

lemma processed_nonneg:
  assumes "processNextBatchForNetwork env net rpc st = (Inr (p, lag), st')"
  shows "0 \<le> p"
proof -
  obtain st0 where eq: "processNextBatchForNetwork env net rpc st =
       (case rpc_latestLedger rpc of None \<Rightarrow> (Inl RpcError, st0)
        | Some latest \<Rightarrow> fetch_and_process env net rpc (cursor_of net st) latest st0)"
    by (rule batch_eval [of net st env rpc])
  show ?thesis using assms unfolding eq
    by (auto simp: fetch_and_process_def Let_def se_bind_def transaction_def advanceCursor_eval
        split: option.splits if_splits list.splits sum.splits prod.splits)
qed

text \<open>\<open>rpcs n\<close> is the node at the \<open>n\<close>-th batch of the job.\<close>

function backfill_worker :: "'x env \<Rightarrow> string \<Rightarrow> (nat \<Rightarrow> 'x rpc) \<Rightarrow> int \<Rightarrow> nat \<Rightarrow> int \<Rightarrow> unit ix" where
  "backfill_worker env net rpcs toLedger n ledger st =
     (if ledger \<le> toLedger
      then (case processNextBatchForNetwork env net (rpcs n) st of
              (Inl e, st') \<Rightarrow> (Inl e, st')
            | (Inr (processed, _), st') \<Rightarrow>
                if processed = 0 then (Inr (), st') else backfill_worker env net rpcs toLedger (n + 1) (ledger + processed) st')
      else (Inr (), st))"
  by pat_completeness auto
termination
  by (relation "measure (\<lambda>(_, _, _, toLedger, _, ledger, _). nat (toLedger + 1 - ledger))")
     (auto dest: processed_nonneg [OF sym])

declare backfill_worker.simps [simp del]

definition processBackfillJob :: "'x env \<Rightarrow> (nat \<Rightarrow> 'x rpc) \<Rightarrow> backfill_job \<Rightarrow> unit ix" where
  "processBackfillJob env rpcs job = backfill_worker env (bj_network job) rpcs (bj_toLedger job) 0 (bj_fromLedger job)"

section \<open>The jobs of a backfill cover its range\<close>

definition job_span :: "backfill_job \<Rightarrow> int list" where
  "job_span j = [bj_fromLedger j..bj_toLedger j]"

lemma span_of_job: "job_span (backfill_job_at ts net to b start i) = [start..min (start + b - 1) to]"
  by (simp add: job_span_def backfill_job_at_def Let_def)

lemma upto_chunk:
  assumes "0 < b" "start \<le> to"
  shows "[start..to] = [start..min (start + b - 1) to] @ [start + b..to]"
proof (cases "start + b \<le> to")
  case True
  then show ?thesis using assms upto_split2 [of start "start + b - 1" to] by simp
next
  case False
  then have "min (start + b - 1) to = to" by (simp add: min_def)
  then show ?thesis using False by simp
qed

lemma ceil_div_step: "0 < b \<Longrightarrow> ceil_div (a + b) b = ceil_div a b + 1"
  using div_mult_self1 [of b "- a" "-1"] by (simp add: ceil_div_def)

lemma chunk_count:
  assumes "0 < b" "start \<le> to"
  shows "nat (ceil_div (to - start + 1) b) = Suc (nat (ceil_div (to - (start + b) + 1) b))"
proof -
  have "ceil_div (to - start + 1) b = ceil_div (to - (start + b) + 1) b + 1"
    using ceil_div_step [OF assms(1), of "to - (start + b) + 1"] by (simp add: algebra_simps)
  moreover have "0 \<le> ceil_div (to - (start + b) + 1) b"
  proof -
    have "- (to - (start + b) + 1) \<le> b - 1" using assms by simp
    then have "- (to - (start + b) + 1) div b \<le> (b - 1) div b" by (rule zdiv_mono1) (use assms in simp)
    then show ?thesis using assms(1) by (simp add: ceil_div_def)
  qed
  ultimately show ?thesis by (simp add: nat_add_distrib)
qed

text \<open>The jobs of the loop: up to the end of the range, or up to the first addition that the queue refuses.\<close>

definition covers_until :: "(nat \<Rightarrow> bool) \<Rightarrow> string \<Rightarrow> int \<Rightarrow> int \<Rightarrow> int \<Rightarrow> nat \<Rightarrow> bool \<Rightarrow> backfill_job list \<Rightarrow> bool" where
  "covers_until accepted net to b start i ok js \<longleftrightarrow>
     concat (map job_span js) = [start..if ok then to else start + int (length js) * b - 1] \<and>
     list_all (\<lambda>j. bj_fromLedger j \<le> bj_toLedger j \<and> bj_toLedger j < bj_fromLedger j + b \<and> bj_network j = net) js \<and>
     (\<forall>k<length js. accepted (i + k)) \<and>
     (if ok then length js = nat (ceil_div (to - start + 1) b)
      else length js < nat (ceil_div (to - start + 1) b) \<and> \<not> accepted (i + length js))"

lemma covers_until_Cons:
  assumes "0 < b" "start + b \<le> to + 1" "accepted i" and js: "covers_until accepted net to b (start + b) (i + 1) ok js"
  shows "covers_until accepted net to b start i ok (backfill_job_at ts net to b start i # js)"
proof -
  let ?j = "backfill_job_at ts net to b start i" and ?stop = "if ok then to else start + b + int (length js) * b - 1"
  have le: "start \<le> to" using assms by simp
  have j: "bj_fromLedger ?j \<le> bj_toLedger ?j \<and> bj_toLedger ?j < bj_fromLedger ?j + b \<and> bj_network ?j = net"
    using le assms by (simp add: backfill_job_at_def Let_def)
  have "job_span ?j = [start..start + b - 1]" using assms by (simp add: span_of_job min_def)
  moreover have "[start..?stop] = [start..start + b - 1] @ [start + b..?stop]"
  proof -
    have "0 \<le> int (length js) * b" using assms(1) by simp
    then have "start + b - 1 \<le> ?stop" using assms(2) by auto
    then show ?thesis using assms(1) upto_split2 [of start "start + b - 1" ?stop] by (simp only: diff_add_cancel)
  qed
  ultimately have "concat (map job_span (?j # js)) = [start..if ok then to else start + int (length (?j # js)) * b - 1]"
    using js by (cases ok) (simp_all add: covers_until_def algebra_simps)
  moreover have "\<forall>k<length (?j # js). accepted (i + k)"
    using js assms(3) by (auto simp: covers_until_def less_Suc_eq_0_disj)
  ultimately show ?thesis using js j chunk_count [OF assms(1) le] by (cases ok) (simp_all add: covers_until_def)
qed

lemma backfill_loop_covers:
  assumes "0 < b"
  shows "start \<le> to + 1 \<Longrightarrow> \<exists>ok js. backfill_loop accepted ts net to b start i jobs = Some (ok, jobs @ js) \<and> covers_until accepted net to b start i ok js"
proof (induction "nat (to + 1 - start)" arbitrary: start i jobs rule: less_induct)
  case less
  show ?case
  proof (cases "start \<le> to")
    case False
    then have "to - start + 1 = 0" using less.prems by simp
    then show ?thesis using False
      by (subst backfill_loop.simps) (auto simp: ceil_div_def covers_until_def intro!: exI [of _ True])
  next
    case True
    let ?j = "backfill_job_at ts net to b start i"
    show ?thesis
    proof (cases "accepted i")
      case False
      then show ?thesis using True chunk_count [OF assms True]
        by (subst backfill_loop.simps) (auto simp: covers_until_def intro!: exI [of _ False])
    next
      case acc: True
      then have step: "backfill_loop accepted ts net to b start i jobs = backfill_loop accepted ts net to b (start + b) (i + 1) (jobs @ [?j])"
        using True by (subst backfill_loop.simps) simp
      show ?thesis
      proof (cases "start + b \<le> to + 1")
        case small: True
        obtain ok js where js: "backfill_loop accepted ts net to b (start + b) (i + 1) (jobs @ [?j]) = Some (ok, (jobs @ [?j]) @ js)"
          "covers_until accepted net to b (start + b) (i + 1) ok js"
          using less.hyps [of "start + b" "i + 1" "jobs @ [?j]"] small True assms by auto
        show ?thesis using step js(1) covers_until_Cons [OF assms small acc js(2), of ts] by auto
      next
        case False
        then have "backfill_loop accepted ts net to b (start + b) (i + 1) (jobs @ [?j]) = Some (True, jobs @ [?j])"
          by (subst backfill_loop.simps) simp
        moreover have "nat (ceil_div (to - (start + b) + 1) b) = 0"
          using False assms by (simp add: ceil_div_def pos_imp_zdiv_nonneg_iff)
        moreover have "covers_until accepted net to b start i True [?j]"
          using calculation(2) acc True assms upto_chunk [OF assms True] chunk_count [OF assms True] False
          by (simp add: covers_until_def span_of_job) (simp add: backfill_job_at_def Let_def)
        ultimately show ?thesis using step by auto
      qed
    qed
  qed
qed

text \<open>C17. The jobs of a backfill cover its range: for a range that the handler admits and a positive batch size the loop ends, whatever
  the queue answers. If the queue takes every job, the jobs are consecutive, none is longer than a batch, together they cover every
  ledger of the range once, and their number is the length of the range divided by the batch size, rounded up. If it refuses
  one, the request fails, and the jobs before it stay queued and cover the beginning of the range. A range that is empty or too
  long queues nothing.\<close>

theorem backfill_jobs_cover_range:
  assumes "0 < batchSize"
  shows "if toLedger < fromLedger
    then handle_backfill cfg maxRange batchSize accepted ts actor fromLedger toLedger network st = Some (Inl BadRange, st)
    else if maxRange < toLedger - fromLedger + 1
    then handle_backfill cfg maxRange batchSize accepted ts actor fromLedger toLedger network st =
      Some (Inl (RangeTooLarge (toLedger - fromLedger + 1)), st)
    else \<exists>jobs st' r. handle_backfill cfg maxRange batchSize accepted ts actor fromLedger toLedger network st = Some (r, st') \<and>
      ad_backfillQueue st' = ad_backfillQueue st @ jobs \<and> ad_ix st' = ad_ix st \<and> list_all (\<lambda>j. length (job_span j) \<le> nat batchSize) jobs \<and>
      (if \<forall>k < nat (ceil_div (toLedger - fromLedger + 1) batchSize). accepted k
       then r = Inr jobs \<and> concat (map job_span jobs) = [fromLedger..toLedger] \<and> length jobs = nat (ceil_div (toLedger - fromLedger + 1) batchSize)
       else r = Inl Queue_Failed \<and> \<not> accepted (length jobs) \<and> (\<forall>k<length jobs. accepted k) \<and>
         concat (map job_span jobs) = [fromLedger..fromLedger + int (length jobs) * batchSize - 1])"
proof (cases "toLedger < fromLedger \<or> maxRange < toLedger - fromLedger + 1")
  case False
  let ?net = "case network of Some n \<Rightarrow> n | None \<Rightarrow> cfg"
  obtain ok js where loop: "backfill_loop accepted ts ?net toLedger batchSize fromLedger 0 [] = Some (ok, js)"
    and js: "covers_until accepted ?net toLedger batchSize fromLedger 0 ok js"
    using backfill_loop_covers [OF assms, of fromLedger toLedger accepted ts ?net 0 "[]"] False by auto
  have short: "list_all (\<lambda>j. length (job_span j) \<le> nat batchSize) js"
    using js by (auto simp: covers_until_def list_all_iff job_span_def)
  have ok: "ok \<longleftrightarrow> (\<forall>k < nat (ceil_div (toLedger - fromLedger + 1) batchSize). accepted k)"
    using js by (cases ok) (auto simp: covers_until_def)
  define r where "r = (if ok then Inr js else Inl Queue_Failed)"
  have "\<exists>st'. handle_backfill cfg maxRange batchSize accepted ts actor fromLedger toLedger network st = Some (r, st') \<and>
      ad_backfillQueue st' = ad_backfillQueue st @ js \<and> ad_ix st' = ad_ix st"
    using False loop by (cases ok) (simp_all add: handle_backfill_def enqueueBackfill_def audited_def r_def)
  then show ?thesis using False js short unfolding ok [symmetric]
    by (cases ok) (auto simp: covers_until_def r_def)
qed (auto simp: handle_backfill_def)

theorem backfill_jobs_cover_range_witness:
  "\<exists>jobs st'. handle_backfill ''testnet'' 100 50 (\<lambda>_. True) 7 ''admin'' 10 70 None
     \<lparr>ad_ix = demo_state, ad_reindexQueue = [], ad_backfillQueue = [], ad_audit = []\<rparr> = Some (Inr jobs, st') \<and> length jobs = 2"
  using backfill_jobs_cover_range [of 50 70 10 "''testnet''" 100 "\<lambda>_. True" 7 "''admin''" None
      "\<lparr>ad_ix = demo_state, ad_reindexQueue = [], ad_backfillQueue = [], ad_audit = []\<rparr>"]
  by (auto simp: ceil_div_def)

text \<open>A batch size that is not positive makes the loop run forever; the configuration excludes it.\<close>

lemma backfill_loop_stuck:
  "backfill_loop accepted ts net to b start i jobs = Some r \<Longrightarrow> b \<le> 0 \<Longrightarrow> start \<le> to \<Longrightarrow> \<exists>k\<ge>i. \<not> accepted k"
proof (induction rule: backfill_loop.raw_induct [rotated 1, consumes 1])
  case (1 f accepted ts net to b start i jobs r)
  show ?case
  proof (cases "accepted i")
    case True
    then have "\<exists>k\<ge>i + 1. \<not> accepted k" using 1 by auto
    then show ?thesis by (meson add_leD1)
  qed auto
qed

section \<open>A backfill reads nothing of its range\<close>

text \<open>The node without the ledgers up to \<open>c\<close>.\<close>

definition hide_ledgers :: "int \<Rightarrow> 'x rpc \<Rightarrow> 'x rpc" where
  "hide_ledgers c rpc = rpc\<lparr>rpc_getEvents := (\<lambda>s b. if s \<le> c then None else rpc_getEvents rpc s b)\<rparr>"

lemma batch_hide:
  assumes "c \<le> cursor_of net st"
  shows "processNextBatchForNetwork env net (hide_ledgers c rpc) st = processNextBatchForNetwork env net rpc st"
proof -
  obtain st0 where e: "ensureCursor net st = (Inr (cursor_of net st), st0)" by (rule ensureCursor_eval [of net st])
  have g: "rpc_getEvents (hide_ledgers c rpc) (cursor_of net st + 1) n = rpc_getEvents rpc (cursor_of net st + 1) n"
    "rpc_latestLedger (hide_ledgers c rpc) = rpc_latestLedger rpc" "rpc_now (hide_ledgers c rpc) = rpc_now rpc" for n
    using assms by (simp_all add: hide_ledgers_def)
  show ?thesis unfolding processNextBatchForNetwork_def se_bind_def e prod.case sum.case Let_def g by (rule refl)
qed

lemma worker_hide:
  "c \<le> cursor_of net st \<Longrightarrow>
   backfill_worker env net (\<lambda>n. hide_ledgers c (rpcs n)) to n ledger st = backfill_worker env net rpcs to n ledger st"
proof (induction env net rpcs to n ledger st rule: backfill_worker.induct)
  case (1 env net rpcs to n ledger st)
  obtain r st' where b: "processNextBatchForNetwork env net (rpcs n) st = (r, st')" by fastforce
  have "c \<le> cursor_of net st'"
    using progress_batch [of net st env "rpcs n"] 1(2) b by (simp add: batch_step_def)
  then have IH: "ledger \<le> to \<Longrightarrow> r = Inr (p, l) \<Longrightarrow> p \<noteq> 0 \<Longrightarrow>
      backfill_worker env net (\<lambda>n. hide_ledgers c (rpcs n)) to (n + 1) (ledger + p) st' = backfill_worker env net rpcs to (n + 1) (ledger + p) st'" for p l
    using 1(1) b by auto
  show ?case using IH b batch_hide [OF 1(2), of env "rpcs n"]
    by (subst (1 2) backfill_worker.simps) (auto split: sum.split)
qed

text \<open>A backfill replays nothing: whatever range its job names, the worker never asks for a ledger at or below the
  network's cursor, so that hiding all of them changes neither its result nor the state it leaves. The range only bounds the number
  of ordinary batches it runs.\<close>

theorem backfill_never_replays:
  "processBackfillJob env (\<lambda>n. hide_ledgers (cursor_of (bj_network job) st) (rpcs n)) job st = processBackfillJob env rpcs job st"
  by (simp add: processBackfillJob_def worker_hide)

text \<open>A worker's run is a run of ordinary batches.\<close>

lemma worker_is_batches:
  "\<exists>k. snd (backfill_worker env net rpcs to n ledger st) = run_steps (batch_step env net) st (map rpcs [n..<n + k]) \<and> k \<le> nat (to + 1 - ledger)"
proof (induction env net rpcs to n ledger st rule: backfill_worker.induct)
  case (1 env net rpcs to n ledger st)
  obtain r st' where b: "processNextBatchForNetwork env net (rpcs n) st = (r, st')" by fastforce
  show ?case
  proof (cases "ledger \<le> to \<and> (\<exists>p l. r = Inr (p, l) \<and> p \<noteq> 0)")
    case True
    then obtain p l where p: "ledger \<le> to" "r = Inr (p, l)" "p \<noteq> 0" by auto
    then have "0 < p" using processed_nonneg b by fastforce
    obtain k where k: "snd (backfill_worker env net rpcs to (n + 1) (ledger + p) st') =
        run_steps (batch_step env net) st' (map rpcs [n + 1..<n + 1 + k])" "k \<le> nat (to + 1 - (ledger + p))"
      using 1 p b by (metis (no_types, lifting))
    have "[n..<n + Suc k] = n # [n + 1..<n + 1 + k]" by (simp add: upt_conv_Cons)
    moreover have "Suc k \<le> nat (to + 1 - ledger)" using k(2) p(1) \<open>0 < p\<close> by linarith
    ultimately show ?thesis using k(1) p b
      by (intro exI [of _ "Suc k"]) (subst backfill_worker.simps, simp add: batch_step_def)
  next
    case False
    show ?thesis
    proof (cases "ledger \<le> to")
      case True
      then have "snd (backfill_worker env net rpcs to n ledger st) = st'" using False b
        by (subst backfill_worker.simps) (auto split: sum.split)
      then show ?thesis using True b by (intro exI [of _ 1]) (simp add: batch_step_def)
    next
      case no: False
      then show ?thesis by (intro exI [of _ 0]) (subst backfill_worker.simps, simp)
    qed
  qed
qed

section \<open>A reindex repairs nothing\<close>

text \<open>Everything but the cursor and the record of gap alerts.\<close>

definition beside_cursor :: "claims_db \<Rightarrow> claims_db" where
  "beside_cursor db = db\<lparr>db_cursor := [], db_gapAlert := []\<rparr>"

definition recorded_at :: "'x env \<Rightarrow> claims_db \<Rightarrow> 'x soroban_event list \<Rightarrow> bool" where
  "recorded_at env db es = list_all (\<lambda>(i, e). findUnique (db_rawEvent db) (ev_txHash e, int i) \<noteq> None \<and> env_native env (ev_value e) \<noteq> None)
     (enumerate 0 es)"

lemma recorded_events_skipped:
  assumes "\<And>k. k < length es \<Longrightarrow> findUnique (db_rawEvent (ix_db st)) (ev_txHash (es ! k), i + int k) \<noteq> None \<and> env_native env (ev_value (es ! k)) \<noteq> None"
  shows "\<exists>st'. process_events env net es i st = (Inr (), st') \<and> beside_cursor (ix_db st') = beside_cursor (ix_db st)"
  using assms
proof (induction es arbitrary: i st)
  case (Cons e es)
  obtain d where d: "env_native env (ev_value e) = Some d" "findUnique (db_rawEvent (ix_db st)) (ev_txHash e, i) \<noteq> None"
    using Cons.prems [of 0] by auto
  let ?st = "st\<lparr>ix_db := set_cursor net (next_cursor net (ev_ledger e) (ix_db st)) (ix_db st),
                ix_calls := ix_calls st @ [DuplicateMetric ''raw_event'' net]\<rparr>"
  have "findUnique (db_rawEvent (ix_db ?st)) (ev_txHash (es ! k), (i + 1) + int k) \<noteq> None \<and> env_native env (ev_value (es ! k)) \<noteq> None"
    if "k < length es" for k
    using Cons.prems [of "Suc k"] that by (simp add: algebra_simps)
  from Cons.IH [of ?st "i + 1", OF this] obtain st' where
    "process_events env net es (i + 1) ?st = (Inr (), st')" "beside_cursor (ix_db st') = beside_cursor (ix_db ?st)" by blast
  then show ?case using event_recorded_again [OF d, of net]
    by (simp add: se_bind_def beside_cursor_def set_cursor_def)
qed simp

lemma gap_alert_beside:
  "maybeEmitGapAlert env now net g c l st = (r, st') \<Longrightarrow> beside_cursor (ix_db st') = beside_cursor (ix_db st)"
  by (auto simp: maybeEmitGapAlert_def se_bind_def read_db_def write_db_def Let_def beside_cursor_def split: if_splits option.splits)

lemma ensure_beside: "ensureCursor net st = (r, st') \<Longrightarrow> beside_cursor (ix_db st') = beside_cursor (ix_db st)"
  by (auto simp: ensureCursor_def se_bind_def read_db_def write_db_def beside_cursor_def split: option.splits)

lemma raw_beside: "beside_cursor db = beside_cursor db' \<Longrightarrow> db_rawEvent db = db_rawEvent db'"
  by (drule arg_cong [of _ _ db_rawEvent]) (simp add: beside_cursor_def)

lemma recorded_at_cong: "beside_cursor db = beside_cursor db' \<Longrightarrow> recorded_at env db = recorded_at env db'"
  by (drule raw_beside) (simp add: recorded_at_def fun_eq_iff)

lemma recorded_at_nth:
  "recorded_at env db es \<longleftrightarrow>
   (\<forall>k<length es. findUnique (db_rawEvent db) (ev_txHash (es ! k), int k) \<noteq> None \<and> env_native env (ev_value (es ! k)) \<noteq> None)"
  by (simp add: recorded_at_def list_all_length nth_enumerate_eq)

lemma fetch_recorded:
  assumes "\<And>s b es. rpc_getEvents rpc s b = Some es \<Longrightarrow> recorded_at env (ix_db st) es"
    and "fetch_and_process env net rpc c latest st = (r, st')"
  shows "beside_cursor (ix_db st') = beside_cursor (ix_db st)"
proof (cases "c \<ge> latest \<or> rpc_getEvents rpc (c + 1) BATCH_SIZE = None")
  case True
  then show ?thesis using assms(2) by (auto simp: fetch_and_process_def Let_def split: if_splits)
next
  case False
  then obtain es where es: "c < latest" "rpc_getEvents rpc (c + 1) BATCH_SIZE = Some es" by auto
  obtain st1 where p: "process_events env net es 0 st = (Inr (), st1)" "beside_cursor (ix_db st1) = beside_cursor (ix_db st)"
    using recorded_events_skipped [of es st 0 env net] assms(1) [OF es(2)] by (auto simp: recorded_at_nth)
  show ?thesis using assms(2) es p
    by (cases es) (auto simp: fetch_and_process_def Let_def se_bind_def transaction_def advanceCursor_eval beside_cursor_def set_cursor_def
        simp del: process_events.simps)
qed

lemma batch_recorded:
  assumes "\<And>s b es. rpc_getEvents rpc s b = Some es \<Longrightarrow> recorded_at env (ix_db st) es"
    and "processNextBatchForNetwork env net rpc st = (r, st')"
  shows "beside_cursor (ix_db st') = beside_cursor (ix_db st)"
proof -
  obtain st0 where e: "ensureCursor net st = (Inr (cursor_of net st), st0)" by (rule ensureCursor_eval [of net st])
  note b0 = ensure_beside [OF e]
  have fetch: "beside_cursor (ix_db st2) = beside_cursor (ix_db st)"
    if "fetch_and_process env net rpc (cursor_of net st) latest st1 = (r2, st2)" "beside_cursor (ix_db st1) = beside_cursor (ix_db st)" for latest st1 r2 st2
    using fetch_recorded [OF _ that(1)] assms(1) recorded_at_cong [OF that(2), of env] that(2) by metis
  show ?thesis
  proof (cases "rpc_latestLedger rpc")
    case None
    then show ?thesis using assms(2) e b0 by (simp add: processNextBatchForNetwork_def se_bind_def)
  next
    case (Some latest)
    obtain r1 st1 where g: "maybeEmitGapAlert env (rpc_now rpc) net (latest - cursor_of net st) (cursor_of net st) latest st0 = (r1, st1)" by fastforce
    note b1 = gap_alert_beside [OF g] gap_alert_frame [OF g]
    show ?thesis
    proof (cases "latest - cursor_of net st > env_gapThreshold env")
      case True
      then have "fetch_and_process env net rpc (cursor_of net st) latest st1 = (r, st')"
        using assms(2) Some e g b1 by (simp add: processNextBatchForNetwork_def fetch_and_process_def se_bind_def Let_def)
      then show ?thesis using fetch b0 b1(1) by metis
    next
      case False
      then have "fetch_and_process env net rpc (cursor_of net st) latest st0 = (r, st')"
        using assms(2) Some e by (simp add: processNextBatchForNetwork_def fetch_and_process_def se_bind_def Let_def)
      then show ?thesis using fetch b0 by metis
    qed
  qed
qed

lemma catch_up_recorded:
  "(\<And>n s b es. rpc_getEvents (rpcs n) s b = Some es \<Longrightarrow> recorded_at env (ix_db st) es) \<Longrightarrow>
   beside_cursor (ix_db (snd (catch_up_loop env net rpcs n k st))) = beside_cursor (ix_db st)"
proof (induction env net rpcs n k st rule: catch_up_loop.induct)
  case (1 env net rpcs n k st)
  obtain r st' where b: "processNextBatchForNetwork env net (rpcs n) st = (r, st')" by fastforce
  have eq: "beside_cursor (ix_db st') = beside_cursor (ix_db st)" by (rule batch_recorded [OF _ b]) (rule 1(2))
  have rec: "rpc_getEvents (rpcs m) s c = Some es \<Longrightarrow> recorded_at env (ix_db st') es" for m s c es
    using 1(2) recorded_at_cong [OF eq, where env = env] by metis
  have IH: "r = Inr (p, l) \<Longrightarrow> p \<noteq> 0 \<Longrightarrow> \<not> 10000 < n + 1 \<Longrightarrow>
      beside_cursor (ix_db (snd (catch_up_loop env net rpcs (n + 1) (k + p) st'))) = beside_cursor (ix_db st')" for p l
    using 1(1) [OF b [symmetric] _ _ refl refl] rec by blast
  show ?case using b eq IH by (subst catch_up_loop.simps) (auto simp: Let_def split: sum.split)
qed

text \<open>A reindex repairs nothing: once the events a node returns are recorded at the positions they have in its answers, resetting
  the cursor to any ledger and running the reindex job to its end changes no table beside the cursor and the record of gap alerts, for
  every event is skipped as a duplicate before its handler runs.\<close>

theorem reindex_repairs_nothing:
  assumes "\<And>n s b es. rpc_getEvents (rpcs n) s b = Some es \<Longrightarrow> recorded_at env (ix_db (ad_ix st)) es"
    and "enqueueReindex accepted ts fromLedger network st = (r, st1)"
  shows "beside_cursor (ix_db (snd (processReindexJob env rpcs job (ad_ix st1)))) = beside_cursor (ix_db (ad_ix st))"
proof -
  have eq: "beside_cursor (ix_db (ad_ix st1)) = beside_cursor (ix_db (ad_ix st))"
    using assms(2) by (auto simp: enqueueReindex_def beside_cursor_def Let_def split: option.splits if_splits)
  show ?thesis using catch_up_recorded [of rpcs env "ad_ix st1" "rj_network job" 0 0] assms(1) recorded_at_cong [OF eq, of env] eq
    by (simp add: processReindexJob_def processUntilCaughtUp_def)
qed

text \<open>An event that is recorded, and a node that returns it for every start.\<close>

definition seen_event :: "jsval soroban_event" where
  "seen_event = \<lparr>ev_txHash = ''aa'', ev_ledger = 7, ev_ledgerClosedAt = 0, ev_contractId = None, ev_topic = [JStr ''other''], ev_value = JNull\<rparr>"

definition seen_state :: admin_state where
  "seen_state = \<lparr>ad_ix = \<lparr>ix_db = claims_db_empty\<lparr>db_rawEvent := [((''aa'', 0), raw_event_of seen_event [JStr ''other''] JNull)]\<rparr>, ix_calls = []\<rparr>,
     ad_reindexQueue = [], ad_backfillQueue = [], ad_audit = []\<rparr>"

theorem reindex_repairs_nothing_witness:
  "beside_cursor (ix_db (snd (processReindexJob demo_env (\<lambda>_. \<lparr>rpc_latestLedger = Some 9, rpc_getEvents = (\<lambda>_ _. Some [seen_event]), rpc_now = 0\<rparr>)
     \<lparr>rj_id = ''j'', rj_fromLedger = 3, rj_network = ''testnet''\<rparr> (ad_ix (snd (enqueueReindex True 5 3 ''testnet'' seen_state)))))) =
   beside_cursor (ix_db (ad_ix seen_state))"
  by (rule reindex_repairs_nothing [where r = "fst (enqueueReindex True 5 3 ''testnet'' seen_state)"])
     (simp_all add: recorded_at_nth seen_state_def seen_event_def demo_env_def findUnique_def)

text \<open>The cursor after an accepted reindex: the next batch asks for the ledger that was named.\<close>

lemma reindex_rewinds:
  assumes "enqueueReindex True ts fromLedger network st = (Inr i, st1)" "1 \<le> fromLedger"
  shows "cursor_of network (ad_ix st1) + 1 = fromLedger"
proof -
  have "ix_db (ad_ix st1) = set_cursor network (fromLedger - 1) (ix_db (ad_ix st))"
    using assms by (auto simp: enqueueReindex_def set_cursor_def prisma_int_def Let_def max_def split: if_splits)
  then show ?thesis by (simp add: cursor_of_def set_cursor_find)
qed

text \<open>A queue that refuses the job leaves the cursor reset.\<close>

lemma refused_reindex_rewinds:
  assumes "enqueueReindex False ts fromLedger network st = (Inl Queue_Failed, st1)" "1 \<le> fromLedger"
  shows "cursor_of network (ad_ix st1) + 1 = fromLedger \<and> ad_reindexQueue st1 = ad_reindexQueue st"
proof -
  have "ix_db (ad_ix st1) = set_cursor network (fromLedger - 1) (ix_db (ad_ix st)) \<and> ad_reindexQueue st1 = ad_reindexQueue st"
    using assms by (auto simp: enqueueReindex_def set_cursor_def prisma_int_def Let_def max_def split: if_splits)
  then show ?thesis by (simp add: cursor_of_def set_cursor_find)
qed

text \<open>An event read at another position, as it is from another start ledger, is recorded a second time.\<close>

lemma event_recorded_twice:
  assumes "processEventForNetwork env net e i st = (Inr (), st1)" "processEventForNetwork env net e j st1 = (Inr (), st2)" "i \<noteq> j"
  shows "findUnique (db_rawEvent (ix_db st2)) (ev_txHash e, i) \<noteq> None \<and> findUnique (db_rawEvent (ix_db st2)) (ev_txHash e, j) \<noteq> None"
proof -
  obtain d db1 where "bookkeeping db1 = bookkeeping (record_event env e i d (ix_db st))"
    "ix_db st1 = set_cursor net (next_cursor net (ev_ledger e) (ix_db st)) db1"
    using event_ok [OF assms(1)] by blast
  then have r1: "findUnique (db_rawEvent (ix_db st1)) (ev_txHash e, i) \<noteq> None"
    by (simp add: bookkeeping_def record_event_def findUnique_upsert)
  obtain d' db2 where "bookkeeping db2 = bookkeeping (record_event env e j d' (ix_db st1))"
    "ix_db st2 = set_cursor net (next_cursor net (ev_ledger e) (ix_db st1)) db2"
    using event_ok [OF assms(2)] by blast
  then show ?thesis using r1 by (simp add: bookkeeping_def record_event_def findUnique_upsert)
qed

end
