(* ===== verification/Admin_Export.thy ===== *)
theory Admin_Export
  imports Js_Prelude
begin

text \<open>
  The CSV exports of the admin module: \<open>escapeCsvCell\<close>, \<open>toCsvRow\<close> and \<open>streamClaimsCsv\<close> of \<open>admin/admin.service.ts\<close>,
  \<open>admin/admin-claims-export.service.ts\<close> and the audit log of \<open>admin/audit.service.ts\<close>.

  A reader of CSV text (RFC 4180, lines ended by a line feed) is the specification the writers are measured against. The database
  may change between two pages of an export, so a page has its own rows; the loop is a partial function, \<open>None\<close> where it does
  not end.
\<close>

section \<open>Reading CSV\<close>

datatype csv_mode = Cell_Start | Plain | Quoted | Quote_Seen

fun csv_read :: "csv_mode \<Rightarrow> string \<Rightarrow> string list \<Rightarrow> string \<Rightarrow> string list list" where
  "csv_read m cell row [] = (if m = Cell_Start \<and> row = [] then [] else [row @ [cell]])"
| "csv_read m cell row (c # cs) =
     (if m = Quoted then (if c = CHR 0x22 then csv_read Quote_Seen cell row cs else csv_read Quoted (cell @ [c]) row cs)
      else if c = CHR '','' then csv_read Cell_Start [] (row @ [cell]) cs
      else if c = CHR 0x0A then (row @ [cell]) # csv_read Cell_Start [] [] cs
      else if c = CHR 0x22 \<and> m = Cell_Start then csv_read Quoted [] row cs
      else if c = CHR 0x22 \<and> m = Quote_Seen then csv_read Quoted (cell @ [c]) row cs
      else csv_read Plain (cell @ [c]) row cs)"

definition csv_rows :: "string \<Rightarrow> string list list" where
  "csv_rows s = csv_read Cell_Start [] [] s"

section \<open>Writers\<close>

text \<open>\<open>s.replace(/"/g, '""')\<close> between quotes.\<close>

definition csv_quote :: "string \<Rightarrow> string" where
  "csv_quote s = CHR 0x22 # concat (map (\<lambda>c. if c = CHR 0x22 then [c, c] else [c]) s) @ [CHR 0x22]"

definition FORMULA_TRIGGERS :: "char list" where
  "FORMULA_TRIGGERS = [CHR ''='', CHR ''+'', CHR ''-'', CHR ''@'', CHR 0x09, CHR 0x0D]"

definition csv_guard :: "string \<Rightarrow> string" where
  "csv_guard raw = (if raw \<noteq> [] \<and> hd raw \<in> set FORMULA_TRIGGERS then CHR 0x27 # raw else raw)"

text \<open>A cell is \<open>null\<close> or \<open>undefined\<close> (\<open>None\<close>), or what \<open>String\<close> makes of it.\<close>

definition escapeCsvCell :: "string option \<Rightarrow> string" where
  "escapeCsvCell value =
     (let raw = (case value of None \<Rightarrow> [] | Some s \<Rightarrow> s); guarded = csv_guard raw
      in if list_ex (\<lambda>c. c \<in> {CHR 0x22, CHR '','', CHR 0x0A, CHR 0x0D}) guarded then csv_quote guarded else guarded)"

definition toCsvRow :: "string option list \<Rightarrow> string" where
  "toCsvRow cells = join_with '','' (map escapeCsvCell cells) @ [CHR 0x0A]"

definition escapeCSVField :: "string \<Rightarrow> string" where
  "escapeCSVField value = (if CHR '','' \<in> set value \<or> CHR 0x22 \<in> set value \<or> CHR 0x0A \<in> set value then csv_quote value else value)"

definition arrayToCSVRow :: "string list \<Rightarrow> string" where
  "arrayToCSVRow values = join_with '','' (map escapeCSVField values)"

section \<open>Pages of an export\<close>

text \<open>\<open>findMany\<close> ordered by id: from the first row, or behind the cursor's row. A cursor that is 0 counts as none.\<close>

definition export_page :: "('r \<Rightarrow> int) \<Rightarrow> ('r \<Rightarrow> bool) \<Rightarrow> nat \<Rightarrow> int option \<Rightarrow> 'r list \<Rightarrow> 'r list" where
  "export_page idf whr n cursor rows =
     take n (filter (\<lambda>r. case cursor of None \<Rightarrow> True | Some c \<Rightarrow> c = 0 \<or> c < idf r) (filter whr (sort_key idf rows)))"

text \<open>\<open>db n\<close> are the rows when the \<open>n\<close>-th page is read.\<close>

partial_function (option) export_loop ::
  "('r \<Rightarrow> int) \<Rightarrow> ('r \<Rightarrow> bool) \<Rightarrow> nat \<Rightarrow> (nat \<Rightarrow> 'r list) \<Rightarrow> nat \<Rightarrow> int option \<Rightarrow> 'r list \<Rightarrow> 'r list option" where
  "export_loop idf whr pageSize db n cursor out =
     (let batch = export_page idf whr pageSize cursor (db n)
      in if batch = [] then Some out
         else if length batch < pageSize then Some (out @ batch)
         else export_loop idf whr pageSize db (n + 1) (Some (idf (last batch))) (out @ batch))"

record export_claim =
  xc_id :: int
  xc_policyId :: string
  xc_creatorAddress :: string
  xc_amount :: string
  xc_asset :: "string option"
  xc_description :: "string option"
  xc_status :: string
  xc_severity :: "string option"
  xc_isFinalized :: bool
  xc_approveVotes :: int
  xc_rejectVotes :: int
  xc_paidAt :: "int option"
  xc_createdAt :: int
  xc_updatedAt :: int
  xc_txHash :: "string option"
  xc_tenantId :: "string option"
  xc_deleted :: bool

definition CSV_HEADERS :: "string list" where
  "CSV_HEADERS = [''id'', ''policyId'', ''creatorAddress'', ''amount'', ''asset'', ''description'', ''status'', ''severity'', ''isFinalized'',
     ''approveVotes'', ''rejectVotes'', ''paidAt'', ''createdAt'', ''updatedAt'', ''txHash'', ''tenantId'']"

definition cell_or_empty :: "string option \<Rightarrow> string" where
  "cell_or_empty x = (case x of None \<Rightarrow> [] | Some s \<Rightarrow> s)"

definition claim_cells :: "export_claim \<Rightarrow> string list" where
  "claim_cells c = [show_int (xc_id c), xc_policyId c, xc_creatorAddress c, xc_amount c, cell_or_empty (xc_asset c), cell_or_empty (xc_description c),
     xc_status c, cell_or_empty (xc_severity c), if xc_isFinalized c then ''true'' else ''false'', show_int (xc_approveVotes c), show_int (xc_rejectVotes c),
     case xc_paidAt c of None \<Rightarrow> [] | Some t \<Rightarrow> js_toISOString t, js_toISOString (xc_createdAt c), js_toISOString (xc_updatedAt c),
     cell_or_empty (xc_txHash c), cell_or_empty (xc_tenantId c)]"

definition upper_letter :: "char \<Rightarrow> char" where
  "upper_letter c = (let n = of_char c :: nat in if 97 \<le> n \<and> n \<le> 122 then char_of (n - 32) else c)"

record export_params =
  xp_status :: "string option"
  xp_from :: "string option"
  xp_to :: "string option"

definition given :: "string option \<Rightarrow> string option" where
  "given x = (case x of Some s \<Rightarrow> if s = [] then None else Some s | None \<Rightarrow> None)"

text \<open>The condition of the query. Prisma refuses a status that is not in the enumeration and a date that is not one: \<open>None\<close>.
  \<open>parse\<close> is the date constructor.\<close>

definition buildWhereClause :: "string list \<Rightarrow> (string \<Rightarrow> int option) \<Rightarrow> string option \<Rightarrow> export_params \<Rightarrow> (export_claim \<Rightarrow> bool) option" where
  "buildWhereClause statuses parse tenantId params =
     (let bound = (\<lambda>x. case given x of None \<Rightarrow> Some None | Some s \<Rightarrow> map_option Some (parse s))
      in case (bound (xp_from params), bound (xp_to params)) of
           (Some lo, Some hi) \<Rightarrow>
             if (case given (xp_status params) of None \<Rightarrow> True | Some s \<Rightarrow> map upper_letter s \<in> set statuses)
             then Some (\<lambda>c. \<not> xc_deleted c \<and> (case given tenantId of None \<Rightarrow> True | Some t \<Rightarrow> xc_tenantId c = Some t) \<and>
               (case given (xp_status params) of None \<Rightarrow> True | Some s \<Rightarrow> xc_status c = map upper_letter s) \<and>
               (case lo of None \<Rightarrow> True | Some a \<Rightarrow> a \<le> xc_createdAt c) \<and> (case hi of None \<Rightarrow> True | Some b \<Rightarrow> xc_createdAt c \<le> b))
             else None
         | _ \<Rightarrow> None)"

definition EXPORT_PAGE_SIZE :: nat where "EXPORT_PAGE_SIZE = 500"

text \<open>What is pushed into the stream: the header alone when the query is refused. The stream itself is created without a read method
  (\<open>createClaimsExportStream\<close>): the first read of a consumer calls the missing method, which destroys the stream, so the text below is
  what the loop pushes and not what a client of the route receives.\<close>

definition streamClaimsAsCSV :: "string list \<Rightarrow> (string \<Rightarrow> int option) \<Rightarrow> string option \<Rightarrow> export_params \<Rightarrow> (nat \<Rightarrow> export_claim list)
    \<Rightarrow> (bool \<times> string) option" where
  "streamClaimsAsCSV statuses parse tenantId params db =
     (let header = arrayToCSVRow CSV_HEADERS @ [CHR 0x0A]
      in case buildWhereClause statuses parse tenantId params of
           None \<Rightarrow> Some (False, header)
         | Some whr \<Rightarrow> map_option (\<lambda>rows. (True, header @ concat (map (\<lambda>c. arrayToCSVRow (claim_cells c) @ [CHR 0x0A]) rows)))
             (export_loop xc_id whr EXPORT_PAGE_SIZE db 0 None []))"

text \<open>The columns of \<open>AdminService.streamClaimsCsv\<close>; the schema has no \<open>payoutAmount\<close>, so that cell is \<open>undefined\<close>.\<close>

definition service_cells :: "export_claim \<Rightarrow> string option list" where
  "service_cells c = [Some (show_int (xc_id c)), Some (xc_policyId c), Some (xc_status c), xc_severity c, Some (xc_creatorAddress c), None,
     Some (js_toISOString (xc_createdAt c))]"

definition streamClaimsCsv :: "(nat \<Rightarrow> export_claim list) \<Rightarrow> string option" where
  "streamClaimsCsv db =
     map_option (\<lambda>rows. toCsvRow (map Some [''id'', ''policyId'', ''status'', ''severity'', ''creatorAddress'', ''payoutAmount'', ''createdAt'']) @
        concat (map (\<lambda>c. toCsvRow (service_cells c)) rows))
       (export_loop xc_id (\<lambda>c. \<not> xc_deleted c) EXPORT_PAGE_SIZE db 0 None [])"

record audit_entry =
  ae_id :: string
  ae_actor :: string
  ae_action :: string
  ae_ipAddress :: "string option"
  ae_createdAt :: int

text \<open>A line of the audit log's export is written without escaping.\<close>

definition audit_line :: "audit_entry \<Rightarrow> string" where
  "audit_line e = ae_id e @ '','' @ ae_actor e @ '','' @ ae_action e @ '','' @ cell_or_empty (ae_ipAddress e) @ '','' @ js_toISOString (ae_createdAt e) @ [CHR 0x0A]"

section \<open>Reading back what was written\<close>

lemma read_plain:
  "CHR '','' \<notin> set s \<Longrightarrow> CHR 0x22 \<notin> set s \<Longrightarrow> CHR 0x0A \<notin> set s \<Longrightarrow> csv_read Plain cell row (s @ rest) = csv_read Plain (cell @ s) row rest"
  by (induction s arbitrary: cell) auto

lemma read_quoted:
  "csv_read Quoted cell row (concat (map (\<lambda>c. if c = CHR 0x22 then [c, c] else [c]) s) @ rest) = csv_read Quoted (cell @ s) row rest"
  by (induction s arbitrary: cell) auto

text \<open>What a text followed by a separator is read as.\<close>

definition reads_as :: "string \<Rightarrow> string \<Rightarrow> bool" where
  "reads_as e v \<longleftrightarrow> (\<forall>row rest. csv_read Cell_Start [] row (e @ CHR '','' # rest) = csv_read Cell_Start [] (row @ [v]) rest \<and>
     csv_read Cell_Start [] row (e @ CHR 0x0A # rest) = (row @ [v]) # csv_read Cell_Start [] [] rest)"

lemma reads_quote: "reads_as (csv_quote s) s"
  by (simp add: reads_as_def csv_quote_def read_quoted)

lemma reads_plain:
  assumes "CHR '','' \<notin> set s" "CHR 0x22 \<notin> set s" "CHR 0x0A \<notin> set s"
  shows "reads_as s s"
proof (cases s)
  case (Cons c cs)
  then show ?thesis using assms read_plain [of cs] by (auto simp: reads_as_def)
qed (simp add: reads_as_def)

text \<open>A writer of cells: what it writes is read as a text of its choice.\<close>

locale csv_writer =
  fixes enc :: "'c \<Rightarrow> string" and shown :: "'c \<Rightarrow> string"
  assumes enc_reads: "reads_as (enc c) (shown c)"
begin

lemma row_reads:
  "cells \<noteq> [] \<Longrightarrow> csv_read Cell_Start [] row (join_with '','' (map enc cells) @ CHR 0x0A # rest) =
   (row @ map shown cells) # csv_read Cell_Start [] [] rest"
proof (induction cells arbitrary: row rule: list_nonempty_induct)
  case (single c)
  then show ?case using enc_reads [of c] by (simp add: reads_as_def)
next
  case (cons c cs)
  then obtain d ds where cs: "cs = d # ds" by (cases cs) auto
  show ?case using cons.IH [of "row @ [shown c]"] enc_reads [of c] cs by (simp add: reads_as_def)
qed

lemma rows_read:
  assumes "[] \<notin> set rows"
  shows "csv_rows (concat (map (\<lambda>cells. join_with '','' (map enc cells) @ [CHR 0x0A]) rows)) = map (map shown) rows"
  using assms unfolding csv_rows_def by (induction rows) (auto simp: row_reads)

end

lemma guarded_reads: "reads_as (escapeCsvCell v) (csv_guard (case v of None \<Rightarrow> [] | Some s \<Rightarrow> s))"
  unfolding escapeCsvCell_def Let_def
  by (auto simp: list_ex_iff intro!: reads_quote reads_plain split: if_split)

interpretation service_csv: csv_writer escapeCsvCell "\<lambda>v. csv_guard (case v of None \<Rightarrow> [] | Some s \<Rightarrow> s)"
  by unfold_locales (rule guarded_reads)

interpretation export_csv: csv_writer escapeCSVField "\<lambda>v. v"
  by unfold_locales (simp add: escapeCSVField_def reads_quote reads_plain)

lemma guard_inert: "csv_guard s = [] \<or> hd (csv_guard s) \<notin> set FORMULA_TRIGGERS"
  by (auto simp: csv_guard_def FORMULA_TRIGGERS_def)

text \<open>C27. Rows of the service's CSV cannot be broken or injected: any cells, with quotes, commas, line breaks or formulas in them,
  are read back as the same cells in the same rows, except that a text which a spreadsheet would take for a formula carries an
  apostrophe; no cell that is read back begins with a character that starts a formula.\<close>

theorem csv_rows_inert:
  assumes "[] \<notin> set rows"
  shows "csv_rows (concat (map toCsvRow rows)) = map (map (\<lambda>v. csv_guard (case v of None \<Rightarrow> [] | Some s \<Rightarrow> s))) rows \<and>
    (\<forall>row\<in>set (csv_rows (concat (map toCsvRow rows))). \<forall>cell\<in>set row. cell = [] \<or> hd cell \<notin> set FORMULA_TRIGGERS)"
proof -
  have "map toCsvRow rows = map (\<lambda>cells. join_with '','' (map escapeCsvCell cells) @ [CHR 0x0A]) rows"
    by (simp add: toCsvRow_def)
  then have eq: "csv_rows (concat (map toCsvRow rows)) = map (map (\<lambda>v. csv_guard (case v of None \<Rightarrow> [] | Some s \<Rightarrow> s))) rows"
    using service_csv.rows_read [OF assms] by (simp only:)
  then show ?thesis using guard_inert by auto
qed

theorem csv_rows_inert_witness:
  "csv_rows (concat (map toCsvRow [[Some ''=1+1'', None], [Some ''a,b'', Some ''c'']])) = [[CHR 0x27 # ''=1+1'', []], [''a,b'', ''c'']]"
  using csv_rows_inert [of "[[Some ''=1+1'', None], [Some ''a,b'', Some ''c'']]"] by (simp add: csv_guard_def FORMULA_TRIGGERS_def)

section \<open>An export is complete\<close>

lemma sorted_ids_index:
  assumes "sorted_wrt (<) (xs :: int list)" "\<forall>x\<in>set xs. 0 \<le> x" "i < length xs"
  shows "int i \<le> xs ! i"
  using assms(3)
proof (induction i)
  case 0
  then show ?case using assms(2) by simp
next
  case (Suc i)
  then have "xs ! i < xs ! Suc i" using assms(1) by (simp add: sorted_wrt_nth_less)
  then show ?case using Suc by simp
qed

lemma filter_behind:
  assumes "sorted_wrt (\<lambda>a b. idf a < (idf b :: int)) xs" "0 < k" "k \<le> length xs"
  shows "filter (\<lambda>r. idf (xs ! (k - 1)) < idf r) xs = drop k xs"
proof -
  have "filter (\<lambda>r. idf (xs ! (k - 1)) < idf r) (take k xs) = []"
  proof -
    have "idf r \<le> idf (xs ! (k - 1))" if r: "r \<in> set (take k xs)" for r
    proof -
      obtain i where "i < k" "r = xs ! i" using r assms(3) by (auto simp: in_set_conv_nth)
      then have "i = k - 1 \<or> i < k - 1" by linarith
      moreover have "k - 1 < length xs" using assms(2,3) by linarith
      ultimately show ?thesis using sorted_wrt_nth_less [OF assms(1), of i "k - 1"] \<open>r = xs ! i\<close> by auto
    qed
    then show ?thesis by (force simp: filter_empty_conv not_less)
  qed
  moreover have "filter (\<lambda>r. idf (xs ! (k - 1)) < idf r) (drop k xs) = drop k xs"
  proof (rule filter_True, rule ballI)
    fix r assume "r \<in> set (drop k xs)"
    then obtain i where "i < length xs - k" "r = xs ! (k + i)" using assms(3) by (auto simp: in_set_conv_nth)
    then show "idf (xs ! (k - 1)) < idf r" using sorted_wrt_nth_less [OF assms(1), of "k - 1" "k + i"] assms(2) by auto
  qed
  ultimately show ?thesis by (metis append_Nil append_take_drop_id filter_append)
qed

definition export_rows_ok :: "('r \<Rightarrow> int) \<Rightarrow> 'r list \<Rightarrow> bool" where
  "export_rows_ok idf rows = (distinct (map idf rows) \<and> list_all (\<lambda>r. 0 \<le> idf r) rows)"

lemma selected_sorted:
  assumes "export_rows_ok idf rows"
  shows "sorted_wrt (\<lambda>a b. idf a < idf b) (filter whr (sort_key idf rows))"
proof -
  have "sorted_wrt (\<le>) (map idf (sort_key idf rows))" by simp
  moreover have "distinct (map idf (sort_key idf rows))"
    using assms by (simp add: export_rows_ok_def distinct_map)
  ultimately have "sorted_wrt (<) (map idf (sort_key idf rows))" by (simp add: strict_sorted_iff)
  then show ?thesis by (simp add: sorted_wrt_map sorted_wrt_filter)
qed

lemma export_static:
  fixes idf :: "'r \<Rightarrow> int" and whr :: "'r \<Rightarrow> bool"
  assumes "export_rows_ok idf rows" "2 \<le> pageSize"
  defines "xs \<equiv> filter whr (sort_key idf rows)"
  shows "k \<le> length xs \<Longrightarrow> (k = 0 \<and> cursor = None \<or> pageSize \<le> k \<and> cursor = Some (idf (xs ! (k - 1)))) \<Longrightarrow>
    export_loop idf whr pageSize (\<lambda>_. rows) n cursor (take k xs) = Some xs"
proof (induction "length xs - k" arbitrary: k n cursor rule: less_induct)
  case less
  have srt: "sorted_wrt (\<lambda>a b. idf a < idf b) xs" unfolding xs_def by (rule selected_sorted [OF assms(1)])
  have pos: "0 < idf (xs ! i)" if "0 < i" "i < length xs" for i
  proof -
    have "sorted_wrt (<) (map idf xs)" using srt by (simp add: sorted_wrt_map)
    moreover have "\<forall>x\<in>set (map idf xs). 0 \<le> x" using assms(1) by (auto simp: xs_def export_rows_ok_def list_all_iff)
    ultimately have "int i \<le> map idf xs ! i" using that by (intro sorted_ids_index) auto
    then show ?thesis using that by simp
  qed
  have page: "export_page idf whr pageSize cursor rows = take pageSize (drop k xs)"
  proof (cases "k = 0")
    case True
    then show ?thesis using less.prems assms(2) by (auto simp: export_page_def xs_def)
  next
    case False
    then have c: "pageSize \<le> k" "cursor = Some (idf (xs ! (k - 1)))" using less.prems by auto
    have "idf (xs ! (k - 1)) \<noteq> 0" using pos [of "k - 1"] c(1) assms(2) less.prems(1) by force
    then show ?thesis using filter_behind [OF srt, of k] False less.prems(1) c(2)
      by (simp add: export_page_def xs_def)
  qed
  let ?b = "take pageSize (drop k xs)"
  show ?case
  proof (cases "length xs - k < pageSize")
    case True
    then have "take k xs @ ?b = xs" by simp
    then show ?thesis using page True less.prems(1) by (subst export_loop.simps) (auto simp: Let_def)
  next
    case False
    then have len: "length ?b = pageSize" "k + pageSize \<le> length xs" using less.prems(1) by simp_all
    then have ne: "?b \<noteq> []" using assms(2) by auto
    have "last ?b = xs ! (k + pageSize - 1)" using len assms(2) ne by (simp add: last_conv_nth)
    moreover have "take k xs @ ?b = take (k + pageSize) xs" by (simp add: take_add)
    moreover have "export_loop idf whr pageSize (\<lambda>_. rows) (n + 1) (Some (idf (xs ! (k + pageSize - 1)))) (take (k + pageSize) xs) = Some xs"
      using less.hyps [of "k + pageSize"] len assms(2) by simp
    ultimately show ?thesis using page len(1) ne by (subst export_loop.simps) (simp add: Let_def)
  qed
qed

lemma export_loop_static:
  assumes "export_rows_ok xc_id rows"
  shows "export_loop xc_id whr EXPORT_PAGE_SIZE (\<lambda>_. rows) 0 None [] = Some (filter whr (sort_key xc_id rows))"
  using export_static [OF assms, of EXPORT_PAGE_SIZE 0 whr None 0] by (simp add: EXPORT_PAGE_SIZE_def)

text \<open>The rows that the export service pushes, read as CSV.\<close>

lemma pushed_claims_read_back:
  assumes "buildWhereClause statuses parse tenantId params = Some whr" and "export_rows_ok xc_id rows"
  shows "\<exists>text. streamClaimsAsCSV statuses parse tenantId params (\<lambda>_. rows) = Some (True, text) \<and>
    csv_rows text = CSV_HEADERS # map claim_cells (filter whr (sort_key xc_id rows))"
proof -
  let ?xs = "filter whr (sort_key xc_id rows)"
  have "csv_rows (concat (map (\<lambda>cells. join_with '','' (map escapeCSVField cells) @ [CHR 0x0A]) (CSV_HEADERS # map claim_cells ?xs))) =
      map (map (\<lambda>v. v)) (CSV_HEADERS # map claim_cells ?xs)"
    by (rule export_csv.rows_read) (auto simp: CSV_HEADERS_def claim_cells_def)
  then show ?thesis using assms(1) export_loop_static [OF assms(2)] by (simp add: streamClaimsAsCSV_def arrayToCSVRow_def Let_def o_def)
qed

text \<open>C18. The claims CSV of the admin service is complete and reads back: when the table does not change meanwhile, the generator
  \<open>streamClaimsCsv\<close> ends, and reading what it yields as CSV gives the header and then, ordered by id, exactly one row for each claim
  that is not deleted, with the fields as they are stored (a text that a spreadsheet would take for a formula behind an
  apostrophe), however many pages it took.\<close>

theorem claims_csv_reads_back:
  assumes "export_rows_ok xc_id rows"
  shows "\<exists>text. streamClaimsCsv (\<lambda>_. rows) = Some text \<and>
    csv_rows text = [''id'', ''policyId'', ''status'', ''severity'', ''creatorAddress'', ''payoutAmount'', ''createdAt''] #
      map (\<lambda>c. map csv_guard [show_int (xc_id c), xc_policyId c, xc_status c, cell_or_empty (xc_severity c), xc_creatorAddress c, [],
        js_toISOString (xc_createdAt c)]) (sort_key xc_id (filter (\<lambda>c. \<not> xc_deleted c) rows))"
proof -
  let ?h = "map Some [''id'', ''policyId'', ''status'', ''severity'', ''creatorAddress'', ''payoutAmount'', ''createdAt'']"
  let ?xs = "sort_key xc_id (filter (\<lambda>c. \<not> xc_deleted c) rows)" and ?g = "\<lambda>v. csv_guard (case v of None \<Rightarrow> [] | Some s \<Rightarrow> s)"
  have sorted: "filter (\<lambda>c. \<not> xc_deleted c) (sort_key xc_id rows) = ?xs" by (simp add: filter_sort)
  have "csv_rows (concat (map (\<lambda>cells. join_with '','' (map escapeCsvCell cells) @ [CHR 0x0A]) (?h # map service_cells ?xs))) =
      map (map ?g) (?h # map service_cells ?xs)"
    by (rule service_csv.rows_read) (auto simp: service_cells_def)
  moreover have "map ?g (service_cells c) = map csv_guard [show_int (xc_id c), xc_policyId c, xc_status c, cell_or_empty (xc_severity c),
      xc_creatorAddress c, [], js_toISOString (xc_createdAt c)]" for c
    by (simp add: service_cells_def cell_or_empty_def)
  moreover have "map ?g ?h = [''id'', ''policyId'', ''status'', ''severity'', ''creatorAddress'', ''payoutAmount'', ''createdAt'']"
    by (simp add: csv_guard_def FORMULA_TRIGGERS_def)
  ultimately show ?thesis using export_loop_static [OF assms, of "\<lambda>c. \<not> xc_deleted c"]
    by (simp add: streamClaimsCsv_def toCsvRow_def sorted o_def)
qed

definition sample_export_claim :: "int \<Rightarrow> string \<Rightarrow> export_claim" where
  "sample_export_claim i d = \<lparr>xc_id = i, xc_policyId = ''G:1'', xc_creatorAddress = ''G'', xc_amount = ''5'', xc_asset = None, xc_description = Some d,
     xc_status = ''PENDING'', xc_severity = None, xc_isFinalized = False, xc_approveVotes = 0, xc_rejectVotes = 0, xc_paidAt = None, xc_createdAt = 0,
     xc_updatedAt = 0, xc_txHash = None, xc_tenantId = None, xc_deleted = False\<rparr>"

theorem claims_csv_reads_back_witness:
  "\<exists>text. streamClaimsCsv (\<lambda>_. [sample_export_claim 2 ''a,b'', sample_export_claim 1 ''c'']) = Some text \<and> length (csv_rows text) = 3"
  using claims_csv_reads_back [of "[sample_export_claim 2 ''a,b'', sample_export_claim 1 ''c'']"]
  by (auto simp: export_rows_ok_def sample_export_claim_def)

text \<open>Whatever happens to the table between the pages, an export that ends has no claim twice.\<close>

lemma page_sorted: "export_rows_ok idf rows \<Longrightarrow> sorted_wrt (\<lambda>a b. idf a < idf b) (export_page idf whr n cursor rows)"
  unfolding export_page_def by (intro sorted_wrt_take sorted_wrt_filter [OF selected_sorted])

lemma page_behind: "c \<noteq> 0 \<Longrightarrow> r \<in> set (export_page idf whr n (Some c) rows) \<Longrightarrow> c < idf r"
  by (auto simp: export_page_def dest: in_set_takeD)

lemma page_last_positive:
  assumes "export_rows_ok idf rows" "2 \<le> n" "length (export_page idf whr n cursor rows) \<ge> n"
  shows "0 < idf (last (export_page idf whr n cursor rows))"
proof -
  let ?b = "export_page idf whr n cursor rows"
  have "sorted_wrt (<) (map idf ?b)" using page_sorted [OF assms(1)] by (simp add: sorted_wrt_map)
  moreover have "\<forall>x\<in>set (map idf ?b). 0 \<le> x"
    using assms(1) by (auto simp: export_rows_ok_def list_all_iff export_page_def dest: in_set_takeD)
  ultimately have "int (length ?b - 1) \<le> map idf ?b ! (length ?b - 1)" using assms(2,3) by (intro sorted_ids_index) auto
  moreover have "?b \<noteq> []" using assms(2,3) by auto
  ultimately show ?thesis using assms(2,3) by (simp add: last_conv_nth)
qed

lemma export_no_repeat:
  "export_loop idf whr n db k cursor out = Some res \<Longrightarrow> (\<And>j. export_rows_ok idf (db j)) \<Longrightarrow> 2 \<le> n \<Longrightarrow>
   sorted_wrt (\<lambda>a b. idf a < idf b) out \<Longrightarrow> (cursor = None \<and> out = [] \<or> (\<exists>c. cursor = Some c \<and> 0 < c \<and> (\<forall>r\<in>set out. idf r \<le> c))) \<Longrightarrow>
   sorted_wrt (\<lambda>a b. idf a < idf b) res"
proof (induction rule: export_loop.raw_induct [rotated 1, consumes 1])
  case (1 f idf whr n db k cursor out res)
  let ?b = "export_page idf whr n cursor (db k)"
  have behind: "idf a < idf r" if ar: "a \<in> set out" "r \<in> set ?b" for a r
  proof -
    obtain c where "cursor = Some c" "0 < c" "idf a \<le> c" using 1(6) ar(1) by auto
    then show ?thesis using page_behind [of c r idf whr n "db k"] ar(2) by auto
  qed
  have srt: "sorted_wrt (\<lambda>a b. idf a < idf b) (out @ ?b)"
    using 1(5) page_sorted [OF 1(3)] behind by (simp add: sorted_wrt_append)
  show ?case
  proof (cases "?b = [] \<or> length ?b < n")
    case True
    then show ?thesis using 1(2,5) srt by (auto simp: Let_def split: if_splits)
  next
    case False
    have le: "idf r \<le> idf (last ?b)" if r: "r \<in> set (out @ ?b)" for r
    proof (cases "r \<in> set out")
      case True
      then show ?thesis using behind [OF True, of "last ?b"] False by auto
    next
      case no: False
      then obtain i where i: "i < length ?b" "r = ?b ! i" using r by (metis Un_iff in_set_conv_nth set_append)
      then have "i = length ?b - 1 \<or> i < length ?b - 1" by linarith
      then show ?thesis using sorted_wrt_nth_less [OF page_sorted [OF 1(3)], of i _ whr n cursor k] i False
        by (auto simp: last_conv_nth less_imp_le)
    qed
    have "f idf whr n db (k + 1) (Some (idf (last ?b))) (out @ ?b) = Some res" using 1(2) False by (auto simp: Let_def)
    moreover have "0 < idf (last ?b)" using page_last_positive [OF 1(3) 1(4)] False by auto
    ultimately show ?thesis using 1(1,3,4) srt le by blast
  qed
qed

lemma claims_export_no_repeat:
  assumes "export_loop xc_id whr EXPORT_PAGE_SIZE db 0 None [] = Some res" and "\<And>j. export_rows_ok xc_id (db j)"
  shows "distinct (map xc_id res)"
  using export_no_repeat [OF assms] by (simp add: EXPORT_PAGE_SIZE_def strict_sorted_iff sorted_wrt_map [symmetric])

section \<open>What the exports do not guard\<close>

text \<open>The claims export writes a description that is a formula as it is, which a spreadsheet evaluates.\<close>

lemma export_not_inert: "csv_rows (arrayToCSVRow [''=1+1''] @ [CHR 0x0A]) = [[''=1+1'']]"
  by (simp add: arrayToCSVRow_def escapeCSVField_def csv_rows_def)

text \<open>An actor or action with a comma in it gives the audit line a sixth cell.\<close>

lemma audit_line_breaks:
  "csv_rows (audit_line \<lparr>ae_id = ''1'', ae_actor = ''a,b'', ae_action = ''x'', ae_ipAddress = None, ae_createdAt = t\<rparr>) =
   csv_read Cell_Start [] [''1'', ''a'', ''b'', ''x'', []] (js_toISOString t @ [CHR 0x0A])"
  by (simp add: audit_line_def cell_or_empty_def csv_rows_def)

end
