(* ===== verification/Admin_Config.thy ===== *)
theory Admin_Config
  imports Feature_Flags
begin

text \<open>
  What administrators change: feature flags (\<open>admin/admin.service.ts\<close>, over the switches of \<open>feature-flags/feature-flags.service.ts\<close>),
  tenants (\<open>admin/admin-tenants.service.ts\<close>), policies they remove (\<open>admin/admin-policies.service.ts\<close>), and the breakdown of policies
  (\<open>computePolicyAnalytics\<close> of \<open>admin/admin-analytics.service.ts\<close>).

  A tenant's id and the time are arguments. An argument says whether the query that reloads the switches succeeds.
\<close>

section \<open>Feature flags\<close>

record flag_setting =
  fl_enabled :: bool
  fl_description :: "string option"
  fl_updatedBy :: string

record flag_admin =
  fa_table :: "(string, flag_setting) table"
  fa_switches :: switch_state

datatype flag_error = Not_Allowlisted string | Flag_Exists

definition switch_rows :: "(string, flag_setting) table \<Rightarrow> (string \<times> bool) list" where
  "switch_rows t = map (\<lambda>(k, f). (k, fl_enabled f)) t"

definition refreshFlags :: "bool \<Rightarrow> flag_admin \<Rightarrow> flag_admin" where
  "refreshFlags readable st =
     st\<lparr>fa_switches := loadFlagsFromDb (if readable then Some (switch_rows (fa_table st)) else None) (fa_switches st)\<rparr>"

text \<open>Prisma leaves a column alone whose new value is \<open>undefined\<close>.\<close>

definition update_setting :: "bool \<Rightarrow> string option \<Rightarrow> string \<Rightarrow> flag_setting \<Rightarrow> flag_setting" where
  "update_setting enabled description actor f =
     f\<lparr>fl_enabled := enabled, fl_description := (case description of None \<Rightarrow> fl_description f | Some d \<Rightarrow> Some d), fl_updatedBy := actor\<rparr>"

definition upsert_flag :: "string \<Rightarrow> bool \<Rightarrow> string option \<Rightarrow> string \<Rightarrow> (string, flag_setting) table \<Rightarrow> (string, flag_setting) table" where
  "upsert_flag k enabled description actor t =
     upsert k \<lparr>fl_enabled = enabled, fl_description = description, fl_updatedBy = actor\<rparr> (update_setting enabled description actor) t"

definition setFeatureFlag :: "bool \<Rightarrow> string \<Rightarrow> bool \<Rightarrow> string option \<Rightarrow> string \<Rightarrow> flag_admin \<Rightarrow> (flag_error + unit) \<times> flag_admin" where
  "setFeatureFlag readable k enabled description actor st =
     (if \<not> assertAllowlisted k then (Inl (Not_Allowlisted k), st)
      else (Inr (), refreshFlags readable (st\<lparr>fa_table := upsert_flag k enabled description actor (fa_table st)\<rparr>)))"

definition createFeatureFlag :: "bool \<Rightarrow> string \<Rightarrow> bool \<Rightarrow> string option \<Rightarrow> string \<Rightarrow> flag_admin \<Rightarrow> (flag_error + unit) \<times> flag_admin" where
  "createFeatureFlag readable k enabled description actor st =
     (if \<not> assertAllowlisted k then (Inl (Not_Allowlisted k), st)
      else if findUnique (fa_table st) k \<noteq> None then (Inl Flag_Exists, st)
      else (Inr (), refreshFlags readable
        (st\<lparr>fa_table := fa_table st @ [(k, \<lparr>fl_enabled = enabled, fl_description = description, fl_updatedBy = actor\<rparr>)]\<rparr>)))"

text \<open>All keys are checked first; then the updates run in one transaction, in order.\<close>

definition bulkSetFeatureFlags :: "(string \<times> bool) list \<Rightarrow> string \<Rightarrow> flag_admin \<Rightarrow> (flag_error + (string \<times> bool) list) \<times> flag_admin" where
  "bulkSetFeatureFlags updates actor st =
     (case List.find (\<lambda>(k, _). \<not> assertAllowlisted k) updates of
        Some (k, _) \<Rightarrow> (Inl (Not_Allowlisted k), st)
      | None \<Rightarrow> (Inr updates, st\<lparr>fa_table := foldl (\<lambda>t (k, b). upsert_flag k b None actor t) (fa_table st) updates\<rparr>))"

section \<open>Tenants\<close>

record tenant_row =
  te_id :: string
  te_name :: string
  te_contractIds :: "string list"
  te_active :: bool

record tenant_patch =
  tu_name :: "string option"
  tu_contractIds :: "string list option"
  tu_active :: "bool option"

datatype tenant_error = CONTRACT_ID_CONFLICT string string | Tenant_Not_Found string | Duplicate_Id

text \<open>The first contract id that an active tenant of the list already has, with that tenant.\<close>

definition contract_conflict :: "string list \<Rightarrow> tenant_row list \<Rightarrow> (string \<times> string) option" where
  "contract_conflict ids ts =
     (case List.find (\<lambda>c. list_ex (\<lambda>t. c \<in> set (te_contractIds t)) ts) ids of
        None \<Rightarrow> None
      | Some c \<Rightarrow> map_option (\<lambda>t. (c, te_id t)) (List.find (\<lambda>t. c \<in> set (te_contractIds t)) ts))"

definition tenant_create :: "string \<Rightarrow> string \<Rightarrow> string list \<Rightarrow> tenant_row list \<Rightarrow> (tenant_error + tenant_row) \<times> tenant_row list" where
  "tenant_create uuid name contractIds ts =
     (case contract_conflict contractIds (filter te_active ts) of
        Some (c, i) \<Rightarrow> (Inl (CONTRACT_ID_CONFLICT c i), ts)
      | None \<Rightarrow> if uuid \<in> te_id ` set ts then (Inl Duplicate_Id, ts)
          else (let t = \<lparr>te_id = uuid, te_name = name, te_contractIds = contractIds, te_active = True\<rparr> in (Inr t, ts @ [t])))"

definition tenant_findOne :: "string \<Rightarrow> tenant_row list \<Rightarrow> tenant_error + tenant_row" where
  "tenant_findOne i ts = (case List.find (\<lambda>t. te_id t = i) ts of None \<Rightarrow> Inl (Tenant_Not_Found i) | Some t \<Rightarrow> Inr t)"

definition patch_tenant :: "tenant_patch \<Rightarrow> tenant_row \<Rightarrow> tenant_row" where
  "patch_tenant dto t = t\<lparr>te_name := (case tu_name dto of None \<Rightarrow> te_name t | Some n \<Rightarrow> n),
     te_contractIds := (case tu_contractIds dto of None \<Rightarrow> te_contractIds t | Some c \<Rightarrow> c),
     te_active := (case tu_active dto of None \<Rightarrow> te_active t | Some a \<Rightarrow> a)\<rparr>"

definition change_tenant :: "string \<Rightarrow> (tenant_row \<Rightarrow> tenant_row) \<Rightarrow> tenant_row list \<Rightarrow> tenant_row list" where
  "change_tenant i f ts = map (\<lambda>t. if te_id t = i then f t else t) ts"

definition tenant_update :: "string \<Rightarrow> tenant_patch \<Rightarrow> tenant_row list \<Rightarrow> (tenant_error + unit) \<times> tenant_row list" where
  "tenant_update i dto ts =
     (case tenant_findOne i ts of
        Inl e \<Rightarrow> (Inl e, ts)
      | Inr _ \<Rightarrow>
          (case (case tu_contractIds dto of None \<Rightarrow> None
                 | Some cs \<Rightarrow> contract_conflict cs (filter (\<lambda>t. te_active t \<and> te_id t \<noteq> i) ts)) of
             Some (c, j) \<Rightarrow> (Inl (CONTRACT_ID_CONFLICT c j), ts)
           | None \<Rightarrow> (Inr (), change_tenant i (patch_tenant dto) ts)))"

definition tenant_delete :: "string \<Rightarrow> tenant_row list \<Rightarrow> (tenant_error + unit) \<times> tenant_row list" where
  "tenant_delete i ts =
     (case tenant_findOne i ts of Inl e \<Rightarrow> (Inl e, ts) | Inr _ \<Rightarrow> (Inr (), change_tenant i (\<lambda>t. t\<lparr>te_active := False\<rparr>) ts))"

datatype tenant_act = CreateTenant string string "string list" | UpdateTenant string tenant_patch | DeleteTenant string

definition tenant_step :: "tenant_row list \<Rightarrow> tenant_act \<Rightarrow> tenant_row list" where
  "tenant_step ts a = (case a of
     CreateTenant u n cs \<Rightarrow> snd (tenant_create u n cs ts) | UpdateTenant i dto \<Rightarrow> snd (tenant_update i dto ts) | DeleteTenant i \<Rightarrow> snd (tenant_delete i ts))"

section \<open>Removing a policy\<close>

record removable_claim =
  rc_id :: int
  rc_policyId :: string
  rc_deletedAt :: "int option"

record policy_tables =
  pt_policies :: "(string, int option) table"
  pt_claims :: "removable_claim list"
  pt_votes :: "(int \<times> int option) list"

definition mark_deleted :: "int \<Rightarrow> int option \<Rightarrow> int option" where
  "mark_deleted now d = (if d = None then Some now else d)"

text \<open>The result is \<open>None\<close> for an unknown policy, else the time of its removal and whether it was removed before.\<close>

definition softDeletePolicy :: "int \<Rightarrow> string \<Rightarrow> int \<Rightarrow> policy_tables \<Rightarrow> (int \<times> bool) option \<times> policy_tables" where
  "softDeletePolicy now holder policyId st =
     (let i = holder @ '':'' @ show_int policyId in
      case findUnique (pt_policies st) i of
        None \<Rightarrow> (None, st)
      | Some (Some d) \<Rightarrow> (Some (d, True), st)
      | Some None \<Rightarrow>
          (Some (now, False),
           st\<lparr>pt_votes := map (\<lambda>(c, d). (c, if \<exists>x\<in>set (pt_claims st). rc_id x = c \<and> rc_policyId x = i then mark_deleted now d else d)) (pt_votes st),
              pt_claims := map (\<lambda>x. if rc_policyId x = i then x\<lparr>rc_deletedAt := mark_deleted now (rc_deletedAt x)\<rparr> else x) (pt_claims st),
              pt_policies := updateMany (\<lambda>k _. k = i) (\<lambda>_. Some now) (pt_policies st)\<rparr>))"

section \<open>The breakdown of policies\<close>

record analytics_policy =
  an_policyType :: string
  an_region :: string
  an_coverageAmount :: string
  an_isActive :: bool

record breakdown_row =
  bd_policyType :: string
  bd_region :: string
  bd_bucket :: string
  bd_isActive :: bool
  bd_count :: nat

text \<open>\<open>BigInt\<close> throws on a text that is no integer: \<open>None\<close>.\<close>

definition bucketCoverageAmount :: "string \<Rightarrow> string option" where
  "bucketCoverageAmount amount = map_option (\<lambda>num.
     let k = 1000 * 10000000; m = 1000000 * 10000000 in
     if num < k then ''< 1k'' else if num < 10 * k then ''1k - 10k'' else if num < 100 * k then ''10k - 100k''
     else if num < m then ''100k - 1m'' else if num < 10 * m then ''1m - 10m'' else ''> 10m'') (js_BigInt amount)"

definition show_bool :: "bool \<Rightarrow> string" where
  "show_bool b = (if b then ''true'' else ''false'')"

definition breakdown_key :: "analytics_policy \<Rightarrow> string option" where
  "breakdown_key p = map_option (\<lambda>b. an_policyType p @ ''|'' @ an_region p @ ''|'' @ b @ ''|'' @ show_bool (an_isActive p))
     (bucketCoverageAmount (an_coverageAmount p))"

text \<open>A JavaScript map keeps the order of insertion.\<close>

fun count_key :: "string \<Rightarrow> (string \<times> nat) list \<Rightarrow> (string \<times> nat) list" where
  "count_key k [] = [(k, 1)]"
| "count_key k ((k', n) # m) = (if k' = k then (k', n + 1) # m else (k', n) # count_key k m)"

fun count_policies :: "analytics_policy list \<Rightarrow> (string \<times> nat) list \<Rightarrow> (string \<times> nat) list option" where
  "count_policies [] m = Some m"
| "count_policies (p # ps) m = (case breakdown_key p of None \<Rightarrow> None | Some k \<Rightarrow> count_policies ps (count_key k m))"

definition breakdown_entry :: "string \<times> nat \<Rightarrow> breakdown_row" where
  "breakdown_entry e = (let parts = split_on (CHR ''|'') (fst e); part = (\<lambda>i. if i < length parts then parts ! i else [])
     in \<lparr>bd_policyType = part 0, bd_region = part 1, bd_bucket = part 2, bd_isActive = (part 3 = ''true''), bd_count = snd e\<rparr>)"

text \<open>Total, active policies and the breakdown; \<open>None\<close> where an amount is no integer.\<close>

definition computePolicyAnalytics :: "analytics_policy list \<Rightarrow> (nat \<times> nat \<times> breakdown_row list) option" where
  "computePolicyAnalytics ps =
     map_option (\<lambda>m. (length ps, length (filter an_isActive ps), map breakdown_entry m)) (count_policies ps [])"

section \<open>Flags: what takes effect\<close>

definition in_step :: "flag_admin \<Rightarrow> bool" where
  "in_step st = (\<forall>k. switch_isEnabled (fa_switches st) k \<longleftrightarrow> (\<exists>f. findUnique (fa_table st) k = Some f \<and> fl_enabled f))"

definition admin_flags_ok :: "flag_admin \<Rightarrow> bool" where
  "admin_flags_ok st = keys_unique (fa_table st)"

lemma switch_rows_map: "map_of (switch_rows t) k = map_option fl_enabled (map_of t k)"
  by (induction t) (auto simp: switch_rows_def)

lemma map_of_rev_distinct: "distinct (map fst m) \<Longrightarrow> map_of (rev m) = map_of m"
  by (simp add: map_of_inject_set rev_map [symmetric])

lemma switch_rows_keys: "map fst (switch_rows t) = map fst t"
  by (simp add: switch_rows_def comp_def case_prod_beta)

lemma reloaded_in_step: "keys_unique (fa_table st) \<Longrightarrow> in_step (refreshFlags True st)"
  unfolding in_step_def refreshFlags_def loadFlagsFromDb_def switch_isEnabled_def keys_unique_def
  by (simp add: map_of_rev_distinct switch_rows_keys switch_rows_map findUnique_def)

lemma upsert_flag_keys: "keys_unique t \<Longrightarrow> keys_unique (upsert_flag k b d a t)"
  by (simp add: upsert_flag_def keys_unique_upsert)

lemma upsert_flag_get:
  "map_option fl_enabled (findUnique (upsert_flag k b d a t) j) = (if j = k then Some b else map_option fl_enabled (findUnique t j))"
  by (simp add: upsert_flag_def findUnique_upsert update_setting_def split: option.split)

lemma bulk_table:
  "map_option fl_enabled (findUnique (foldl (\<lambda>t (k, b). upsert_flag k b None actor t) t us) j) =
   (case map_of (rev us) j of Some b \<Rightarrow> Some b | None \<Rightarrow> map_option fl_enabled (findUnique t j))"
proof (induction us arbitrary: t)
  case (Cons u us)
  show ?case
    using Cons.IH [of "upsert_flag (fst u) (snd u) None actor t"] upsert_flag_get [of "fst u" "snd u" None actor t j]
    by (cases u) (simp add: map_add_def split: option.split)
qed simp

text \<open>Bulk updates do not take effect: a bulk request whose keys are all allowed writes each flag's last value to the table, but
  leaves every switch the guards consult as it was, while setting the same flag alone makes all switches equal to the table.\<close>

theorem bulk_flags_have_no_effect:
  assumes "list_all (\<lambda>(k, _). assertAllowlisted k) updates" and "keys_unique (fa_table st)"
  shows "fa_switches (snd (bulkSetFeatureFlags updates actor st)) = fa_switches st \<and>
    (\<forall>k b. map_of (rev updates) k = Some b \<longrightarrow>
       map_option fl_enabled (findUnique (fa_table (snd (bulkSetFeatureFlags updates actor st))) k) = Some b \<and>
       in_step (snd (setFeatureFlag True k b None actor st)) \<and> (switch_isEnabled (fa_switches (snd (setFeatureFlag True k b None actor st))) k \<longleftrightarrow> b))"
proof -
  have none: "List.find (\<lambda>(k, _). \<not> assertAllowlisted k) updates = None"
    using assms(1) by (auto simp: find_None_iff list_all_iff)
  have "in_step (snd (setFeatureFlag True k b None actor st)) \<and>
      (switch_isEnabled (fa_switches (snd (setFeatureFlag True k b None actor st))) k \<longleftrightarrow> b)"
    if "map_of (rev updates) k = Some b" for k b
  proof -
    have ok: "assertAllowlisted k" using map_of_SomeD [OF that] assms(1) by (auto simp: list_all_iff)
    let ?st = "st\<lparr>fa_table := upsert_flag k b None actor (fa_table st)\<rparr>"
    have step: "in_step (refreshFlags True ?st)" by (rule reloaded_in_step) (simp add: upsert_flag_keys assms(2))
    have "fa_table (refreshFlags True ?st) = upsert_flag k b None actor (fa_table st)" by (simp add: refreshFlags_def)
    then have "switch_isEnabled (fa_switches (refreshFlags True ?st)) k \<longleftrightarrow> b"
      using step upsert_flag_get [of k b None actor "fa_table st" k] by (auto simp: in_step_def)
    then show ?thesis using ok step by (simp add: setFeatureFlag_def)
  qed
  then show ?thesis using none by (simp add: bulkSetFeatureFlags_def bulk_table)
qed

theorem bulk_flags_have_no_effect_witness:
  "\<not> switch_isEnabled (fa_switches (snd (bulkSetFeatureFlags [(''voting_enabled'', True)] ''admin''
     \<lparr>fa_table = [], fa_switches = \<lparr>sw_map = [], sw_disabledStatus = 404\<rparr>\<rparr>))) ''voting_enabled''"
  using bulk_flags_have_no_effect [of "[(''voting_enabled'', True)]" "\<lparr>fa_table = [], fa_switches = \<lparr>sw_map = [], sw_disabledStatus = 404\<rparr>\<rparr>" "''admin''"]
  by (simp add: assertAllowlisted_def ALLOWED_FLAG_KEYS_def keys_unique_def switch_isEnabled_def)

text \<open>When the reload fails, every feature is switched off although the table has changed as asked.\<close>

lemma failed_reload_disables_all:
  "assertAllowlisted k \<Longrightarrow> \<not> switch_isEnabled (fa_switches (snd (setFeatureFlag False k b d a st))) j"
  by (simp add: setFeatureFlag_def refreshFlags_def loadFlagsFromDb_def switch_isEnabled_def)

section \<open>Tenants: contracts are not shared\<close>

definition contracts_disjoint :: "tenant_row list \<Rightarrow> bool" where
  "contracts_disjoint ts = (distinct (map te_id ts) \<and>
     (\<forall>s\<in>set ts. \<forall>t\<in>set ts. te_active s \<and> te_active t \<and> te_id s \<noteq> te_id t \<longrightarrow> set (te_contractIds s) \<inter> set (te_contractIds t) = {}))"

text \<open>An update that switches a tenant on must name its contracts.\<close>

definition no_blind_activation :: "tenant_act \<Rightarrow> bool" where
  "no_blind_activation a = (case a of UpdateTenant _ dto \<Rightarrow> tu_active dto = Some True \<longrightarrow> tu_contractIds dto \<noteq> None | _ \<Rightarrow> True)"

lemma no_conflict:
  assumes "contract_conflict cs ts = None" "t \<in> set ts"
  shows "set cs \<inter> set (te_contractIds t) = {}"
proof (rule ccontr)
  assume "set cs \<inter> set (te_contractIds t) \<noteq> {}"
  then have "List.find (\<lambda>c. list_ex (\<lambda>t. c \<in> set (te_contractIds t)) ts) cs \<noteq> None"
    using assms(2) by (auto simp: find_None_iff list_ex_iff)
  then obtain c where c: "List.find (\<lambda>c. list_ex (\<lambda>t. c \<in> set (te_contractIds t)) ts) cs = Some c" by blast
  then have "list_ex (\<lambda>t. c \<in> set (te_contractIds t)) ts" by (auto simp: find_Some_iff)
  then have "List.find (\<lambda>t. c \<in> set (te_contractIds t)) ts \<noteq> None" by (auto simp: find_None_iff list_ex_iff)
  then show False using assms(1) c by (auto simp: contract_conflict_def)
qed

lemma change_ids: "(\<And>t. te_id (f t) = te_id t) \<Longrightarrow> map te_id (change_tenant i f ts) = map te_id ts"
  by (simp add: change_tenant_def comp_def)

lemma disjoint_change:
  assumes inv: "contracts_disjoint ts" and f: "\<And>t. te_id (f t) = te_id t"
    and new: "\<And>s t. s \<in> set ts \<Longrightarrow> te_id s = i \<Longrightarrow> t \<in> set ts \<Longrightarrow> te_id t \<noteq> i \<Longrightarrow> te_active (f s) \<Longrightarrow> te_active t \<Longrightarrow>
      set (te_contractIds (f s)) \<inter> set (te_contractIds t) = {}"
  shows "contracts_disjoint (change_tenant i f ts)"
proof -
  have "set (te_contractIds s') \<inter> set (te_contractIds t') = {}"
    if m: "s' \<in> set (change_tenant i f ts)" "t' \<in> set (change_tenant i f ts)" "te_active s'" "te_active t'" "te_id s' \<noteq> te_id t'" for s' t'
  proof -
    obtain s t where st: "s \<in> set ts" "s' = (if te_id s = i then f s else s)" "t \<in> set ts" "t' = (if te_id t = i then f t else t)"
      using m(1,2) by (auto simp: change_tenant_def)
    have ne: "te_id s \<noteq> te_id t" using m(5) st f by (auto split: if_splits)
    then have "te_active s \<Longrightarrow> te_active t \<Longrightarrow> set (te_contractIds s) \<inter> set (te_contractIds t) = {}"
      using inv st(1,3) by (auto simp: contracts_disjoint_def)
    moreover have "te_id s = i \<Longrightarrow> te_id t \<noteq> i" using ne by simp
    ultimately show ?thesis using new [of s t] new [of t s] st m(3,4) ne by (auto split: if_splits)
  qed
  then show ?thesis using inv change_ids [of f, OF f] by (simp add: contracts_disjoint_def)
qed

lemma disjoint_create: "contracts_disjoint ts \<Longrightarrow> contracts_disjoint (snd (tenant_create u n cs ts))"
  using no_conflict [of cs "filter te_active ts"]
  by (auto simp: tenant_create_def contracts_disjoint_def Let_def split: option.split)

lemma disjoint_update:
  assumes inv: "contracts_disjoint ts" and ok: "no_blind_activation (UpdateTenant i dto)"
  shows "contracts_disjoint (snd (tenant_update i dto ts))"
proof (cases "\<exists>e. tenant_findOne i ts = Inl e \<or> (\<exists>cs x. tu_contractIds dto = Some cs \<and> contract_conflict cs (filter (\<lambda>t. te_active t \<and> te_id t \<noteq> i) ts) = Some x)")
  case True
  then show ?thesis using inv by (auto simp: tenant_update_def split: sum.split)
next
  case False
  then have eq: "snd (tenant_update i dto ts) = change_tenant i (patch_tenant dto) ts"
    by (auto simp: tenant_update_def split: sum.split option.split)
  show ?thesis unfolding eq
  proof (rule disjoint_change [OF inv])
    fix s t
    assume st: "s \<in> set ts" "te_id s = i" "t \<in> set ts" "te_id t \<noteq> i" "te_active (patch_tenant dto s)" "te_active t"
    show "set (te_contractIds (patch_tenant dto s)) \<inter> set (te_contractIds t) = {}"
    proof (cases "tu_contractIds dto")
      case None
      then have "te_active s" using ok st(5) by (auto simp: no_blind_activation_def patch_tenant_def split: option.splits)
      then show ?thesis using inv st None by (auto simp: contracts_disjoint_def patch_tenant_def)
    next
      case (Some cs)
      then have "contract_conflict cs (filter (\<lambda>t. te_active t \<and> te_id t \<noteq> i) ts) = None" using False
        by (cases "contract_conflict cs (filter (\<lambda>t. te_active t \<and> te_id t \<noteq> i) ts)") auto
      then show ?thesis using no_conflict [of cs _ t] st Some by (simp add: patch_tenant_def)
    qed
  qed (simp add: patch_tenant_def)
qed

lemma disjoint_delete: "contracts_disjoint ts \<Longrightarrow> contracts_disjoint (snd (tenant_delete i ts))"
  using disjoint_change [of ts "\<lambda>t. t\<lparr>te_active := False\<rparr>" i] by (auto simp: tenant_delete_def split: sum.split)

lemma disjoint_step: "contracts_disjoint ts \<Longrightarrow> no_blind_activation a \<Longrightarrow> contracts_disjoint (tenant_step ts a)"
  by (cases a) (simp_all add: tenant_step_def disjoint_create disjoint_update disjoint_delete)

lemma disjoint_run: "contracts_disjoint ts \<Longrightarrow> list_all no_blind_activation as \<Longrightarrow> contracts_disjoint (run_steps tenant_step ts as)"
  by (induction as arbitrary: ts) (auto simp: disjoint_step)

text \<open>C28. No contract belongs to two active tenants: after any sequence of creations, updates and removals, in which an update that
  activates a tenant names its contracts, the ids of tenants are distinct and the contracts of any two active tenants are
  disjoint.\<close>

theorem tenant_contracts_disjoint:
  assumes "list_all no_blind_activation as"
  shows "contracts_disjoint (run_steps tenant_step [] as)"
  by (rule disjoint_run [OF _ assms]) (simp add: contracts_disjoint_def)

theorem tenant_contracts_disjoint_witness:
  "contracts_disjoint (run_steps tenant_step [] [CreateTenant ''a'' ''A'' [''C1''], CreateTenant ''b'' ''B'' [''C1''], DeleteTenant ''a'',
     CreateTenant ''c'' ''C'' [''C1'']])"
  by (rule tenant_contracts_disjoint) (simp add: no_blind_activation_def)

text \<open>Without that condition a removed tenant comes back with a contract that another tenant has got in the meantime.\<close>

lemma reactivation_shares_contract:
  "\<not> contracts_disjoint (run_steps tenant_step [] [CreateTenant ''a'' ''A'' [''C1''], DeleteTenant ''a'', CreateTenant ''b'' ''B'' [''C1''],
     UpdateTenant ''a'' \<lparr>tu_name = None, tu_contractIds = None, tu_active = Some True\<rparr>])"
  by (simp add: tenant_step_def tenant_create_def tenant_delete_def tenant_update_def tenant_findOne_def change_tenant_def patch_tenant_def
      contract_conflict_def contracts_disjoint_def Let_def)

section \<open>Removing a policy\<close>

text \<open>After a removal nothing of the policy is live, everything else is as it was, and a second removal changes nothing.\<close>

lemma policy_removed:
  assumes "softDeletePolicy now holder n st = (Some r, st')"
  shows "\<exists>d. findUnique (pt_policies st') (holder @ '':'' @ show_int n) = Some (Some d)"
  using assms by (auto simp: softDeletePolicy_def Let_def split: option.splits)

lemma removal_idempotent:
  assumes "softDeletePolicy now holder n st = (Some r, st')"
  shows "\<exists>d. softDeletePolicy later holder n st' = (Some (d, True), st')"
  using policy_removed [OF assms] by (auto simp: softDeletePolicy_def Let_def)

lemma claims_removed:
  assumes "softDeletePolicy now holder n st = (Some (now, False), st')" "x \<in> set (pt_claims st')" "rc_policyId x = holder @ '':'' @ show_int n"
  shows "rc_deletedAt x \<noteq> None"
  using assms by (auto simp: softDeletePolicy_def mark_deleted_def Let_def split: option.splits if_splits)

section \<open>The breakdown is exact\<close>

lemma count_key_of: "map_of (count_key k m) j = (if j = k then Some (case map_of m k of None \<Rightarrow> 1 | Some n \<Rightarrow> n + 1) else map_of m j)"
  by (induction k m rule: count_key.induct) auto

lemma count_key_keys: "map fst (count_key k m) = (if k \<in> fst ` set m then map fst m else map fst m @ [k])"
  by (induction k m rule: count_key.induct) auto

lemma count_key_positive: "\<forall>e\<in>set m. 0 < snd e \<Longrightarrow> \<forall>e\<in>set (count_key k m). 0 < snd e"
  by (induction k m rule: count_key.induct) auto

lemma count_key_sum: "sum_list (map snd (count_key k m)) = Suc (sum_list (map snd m))"
  by (induction k m rule: count_key.induct) auto

definition counted :: "analytics_policy list \<Rightarrow> string \<Rightarrow> nat" where
  "counted ps k = length (filter (\<lambda>p. breakdown_key p = Some k) ps)"

lemma count_policies_exact:
  "count_policies ps m = Some m' \<Longrightarrow> distinct (map fst m) \<Longrightarrow> \<forall>e\<in>set m. 0 < snd e \<Longrightarrow>
   distinct (map fst m') \<and> sum_list (map snd m') = sum_list (map snd m) + length ps \<and> (\<forall>e\<in>set m'. 0 < snd e) \<and>
   (\<forall>k. (case map_of m' k of None \<Rightarrow> 0 | Some n \<Rightarrow> n) = (case map_of m k of None \<Rightarrow> 0 | Some n \<Rightarrow> n) + counted ps k)"
proof (induction ps m rule: count_policies.induct)
  case (2 p ps m)
  then obtain k where k: "breakdown_key p = Some k" "count_policies ps (count_key k m) = Some m'" by (auto split: option.splits)
  have "distinct (map fst (count_key k m))" using 2(3) by (auto simp: count_key_keys)
  from 2(1) [OF k this count_key_positive [OF 2(4)]] show ?case
    by (auto simp: count_key_sum count_key_of counted_def k(1) split: option.splits if_splits)
qed (simp add: counted_def)

lemma bucket_no_bar: "bucketCoverageAmount a = Some b \<Longrightarrow> CHR ''|'' \<notin> set b"
  by (auto simp: bucketCoverageAmount_def Let_def split: if_splits)

lemma entry_of_key:
  assumes "CHR ''|'' \<notin> set (an_policyType p)" "CHR ''|'' \<notin> set (an_region p)" "breakdown_key p = Some k"
  shows "breakdown_entry (k, n) = \<lparr>bd_policyType = an_policyType p, bd_region = an_region p, bd_bucket = the (bucketCoverageAmount (an_coverageAmount p)),
    bd_isActive = an_isActive p, bd_count = n\<rparr>"
proof -
  obtain b where b: "bucketCoverageAmount (an_coverageAmount p) = Some b"
    "k = an_policyType p @ ''|'' @ an_region p @ ''|'' @ b @ ''|'' @ show_bool (an_isActive p)"
    using assms(3) by (auto simp: breakdown_key_def)
  have "CHR ''|'' \<notin> set (show_bool (an_isActive p))" by (simp add: show_bool_def)
  then have "split_on (CHR ''|'') k = [an_policyType p, an_region p, b, show_bool (an_isActive p)]"
    using assms(1,2) bucket_no_bar [OF b(1)] b(2) by (simp add: split_on_append split_on_no_sep)
  then show ?thesis using b(1) by (simp add: breakdown_entry_def Let_def show_bool_def)
qed

text \<open>The breakdown of policies is exact: when every amount is an integer and no type or region contains a bar, the counts of the
  rows add up to the number of policies, and each row counts exactly the policies of its type, region, bucket of coverage and
  state.\<close>

theorem policy_breakdown_exact:
  assumes "computePolicyAnalytics ps = Some (n, a, rows)"
    and "list_all (\<lambda>p. CHR ''|'' \<notin> set (an_policyType p) \<and> CHR ''|'' \<notin> set (an_region p)) ps"
  shows "n = length ps \<and> sum_list (map bd_count rows) = length ps \<and>
    (\<forall>row\<in>set rows. bd_count row = length (filter (\<lambda>p. an_policyType p = bd_policyType row \<and> an_region p = bd_region row \<and>
       bucketCoverageAmount (an_coverageAmount p) = Some (bd_bucket row) \<and> an_isActive p = bd_isActive row) ps))"
proof -
  obtain m where m: "count_policies ps [] = Some m" "rows = map breakdown_entry m" "n = length ps"
    using assms(1) by (auto simp: computePolicyAnalytics_def)
  note ex = count_policies_exact [OF m(1)]
  have "sum_list (map bd_count rows) = sum_list (map snd m)"
    unfolding m(2) by (simp add: comp_def breakdown_entry_def Let_def)
  moreover have "bd_count row = length (filter (\<lambda>p. an_policyType p = bd_policyType row \<and> an_region p = bd_region row \<and>
       bucketCoverageAmount (an_coverageAmount p) = Some (bd_bucket row) \<and> an_isActive p = bd_isActive row) ps)" if r: "row \<in> set rows" for row
  proof -
    obtain k c where kc: "(k, c) \<in> set m" "row = breakdown_entry (k, c)" using r m(2) by auto
    then have "map_of m k = Some c" using ex by simp
    moreover have "(case map_of m k of None \<Rightarrow> 0 | Some n \<Rightarrow> n) = counted ps k" using ex by simp
    ultimately have c: "c = counted ps k" by simp
    have "0 < c" using ex kc(1) by auto
    then obtain p where p: "p \<in> set ps" "breakdown_key p = Some k"
      using c by (auto simp: counted_def length_greater_0_conv filter_empty_conv)
    have bar: "CHR ''|'' \<notin> set (an_policyType q)" "CHR ''|'' \<notin> set (an_region q)" if "q \<in> set ps" for q
      using assms(2) that by (auto simp: list_all_iff)
    note row = entry_of_key [OF bar [OF p(1)] p(2), of c]
    have "breakdown_key q = Some k \<longleftrightarrow> an_policyType q = bd_policyType row \<and> an_region q = bd_region row \<and>
       bucketCoverageAmount (an_coverageAmount q) = Some (bd_bucket row) \<and> an_isActive q = bd_isActive row" if q: "q \<in> set ps" for q
    proof
      assume k: "breakdown_key q = Some k"
      then have "bucketCoverageAmount (an_coverageAmount q) \<noteq> None" by (auto simp: breakdown_key_def)
      then show "an_policyType q = bd_policyType row \<and> an_region q = bd_region row \<and>
       bucketCoverageAmount (an_coverageAmount q) = Some (bd_bucket row) \<and> an_isActive q = bd_isActive row"
        using entry_of_key [OF bar [OF q] k, of c] kc(2) by auto
    next
      assume "an_policyType q = bd_policyType row \<and> an_region q = bd_region row \<and>
       bucketCoverageAmount (an_coverageAmount q) = Some (bd_bucket row) \<and> an_isActive q = bd_isActive row"
      then show "breakdown_key q = Some k" using row kc(2) p(2) by (auto simp: breakdown_key_def)
    qed
    then have "filter (\<lambda>q. breakdown_key q = Some k) ps = filter (\<lambda>p. an_policyType p = bd_policyType row \<and> an_region p = bd_region row \<and>
       bucketCoverageAmount (an_coverageAmount p) = Some (bd_bucket row) \<and> an_isActive p = bd_isActive row) ps" by (rule filter_cong [OF refl])
    moreover have "bd_count row = c" by (simp add: kc(2) breakdown_entry_def Let_def)
    ultimately show ?thesis using c by (simp add: counted_def)
  qed
  ultimately show ?thesis using ex m(3) by simp
qed

definition sample_policies :: "analytics_policy list" where
  "sample_policies = [\<lparr>an_policyType = ''Auto'', an_region = ''Low'', an_coverageAmount = ''5'', an_isActive = True\<rparr>,
     \<lparr>an_policyType = ''Auto'', an_region = ''Low'', an_coverageAmount = ''7'', an_isActive = True\<rparr>]"

theorem policy_breakdown_exact_witness:
  "\<exists>n a rows. computePolicyAnalytics sample_policies = Some (n, a, rows) \<and> sum_list (map bd_count rows) = 2"
proof -
  have "bucketCoverageAmount ''5'' \<noteq> None" "bucketCoverageAmount ''7'' \<noteq> None"
    by (simp_all add: bucketCoverageAmount_def js_BigInt_def trim_def is_space_def radix_literal_def is_digit_def)
  then obtain n a rows where r: "computePolicyAnalytics sample_policies = Some (n, a, rows)"
    by (auto simp: computePolicyAnalytics_def sample_policies_def breakdown_key_def)
  from policy_breakdown_exact [OF r] show ?thesis using r by (simp add: sample_policies_def)
qed

text \<open>A bar in a type moves the other columns.\<close>

lemma bar_shifts_columns:
  "bd_region (breakdown_entry (''Auto|X|Low|< 1k|true'', 1)) = ''X''"
  by (simp add: breakdown_entry_def Let_def)

end
