(* ===== verification/Purchase.thy ===== *)
theory Purchase
  imports Vote_Api
begin

text \<open>
  Buying a policy in the front end: the wizard with its draft (\<open>features/purchase-wizard/PurchaseWizard.tsx\<close>,
  \<open>hooks/use-draft-persistence.ts\<close>), the review of the quote (\<open>QuoteReviewStep.tsx\<close>) and the step that checks the allowance, has the
  approval and the policy signed and submits them (\<open>WalletSignStep.tsx\<close>, \<open>api.ts\<close>).

  Each component is a state with the call that is under way and a step per callback. The server, the wallet and the status of a
  transaction answer in any order and may fail; the server is the one of \<open>Vote_Api\<close>, behind its middleware. The premium in
  stroops, which the code computes with floating-point numbers, is an argument.
\<close>

section \<open>Requests\<close>

datatype purchase_data =
    InitiatedData string string            \<comment> \<open>transaction, quote id\<close>
  | SubmittedData string string            \<comment> \<open>policy id, transaction hash\<close>
  | AllowanceData bool string              \<comment> \<open>sufficient, contract\<close>
  | ApprovalHash string

definition initiate_path :: string where "initiate_path = ''/api/policies/initiate''"
definition submit_path :: string where "submit_path = ''/api/policies/submit''"
definition allowance_path :: string where "allowance_path = ''/api/chain/allowance''"
definition build_approval_path :: string where "build_approval_path = ''/api/allowances/build-approval''"
definition submit_approval_path :: string where "submit_approval_path = ''/api/allowances/submit''"

text \<open>\<open>apiFetch\<close>: the message of the error that is thrown, or the data.\<close>

definition apiFetch :: "'d reply \<Rightarrow> string + 'd" where
  "apiFetch r = (case r of
     ReplyOk d \<Rightarrow> Inr d
   | ReplyError _ body \<Rightarrow> Inl (case body of ErrJson _ (Some m) \<Rightarrow> m | _ \<Rightarrow> ''Request failed'')
   | Unreachable _ \<Rightarrow> Inl ''Network request failed'')"

section \<open>The step that signs\<close>

datatype submit_phase = PIdle | Allowance_Checking | Approval_Needed | Approval_Signing | Approval_Submitting | Approval_Polling
  | Initiating | Signing | Submitting | Polling | PSuccess | PError

datatype sign_call =
    CheckAllowance string | InitiatePolicy string | SignPolicy string string | SubmitPolicy string string string
  | BuildApproval string string | SignApproval string string | SubmitApproval string string string

record sign_step =
  ss_phase :: submit_phase
  ss_txHash :: "string option"
  ss_policyId :: "string option"
  ss_error :: "string option"
  ss_allowance :: "string option"
  ss_approvalTxHash :: "string option"
  ss_submitted :: bool
  ss_address :: "string option"
  ss_rendered :: int
  ss_call :: "sign_call option"
  ss_log :: "sign_call list"

text \<open>The quote of the step: its premium in stroops, where it can be read, and when it expires.\<close>

record sign_quote =
  sq_stroops :: "string option"
  sq_expiresAt :: int

definition signErrorText :: "bool \<Rightarrow> string \<Rightarrow> string" where
  "signErrorText approval msg =
     (let lower = to_lower msg;
          action = (if approval then ''approval'' else ''transaction'');
          label = [CHR 0x22] @ (if approval then ''Approve Spending'' else ''Sign & Submit'') @ [CHR 0x22]
      in if str_includes ''reject'' lower \<or> str_includes ''cancel'' lower
         then ''You rejected the '' @ action @ '' in your wallet. Click '' @ label @ '' to try again.''
         else if str_includes ''timeout'' lower \<or> str_includes ''timed out'' lower
         then ''The signature request timed out. Click '' @ label @ '' to try again.''
         else ''Signing failed: '' @ msg)"

definition sign_issue :: "sign_call \<Rightarrow> submit_phase \<Rightarrow> sign_step \<Rightarrow> sign_step" where
  "sign_issue c p st = st\<lparr>ss_phase := p, ss_call := Some c, ss_log := ss_log st @ [c]\<rparr>"

definition sign_set :: "submit_phase \<Rightarrow> string option \<Rightarrow> string option \<Rightarrow> string option \<Rightarrow> sign_step \<Rightarrow> sign_step" where
  "sign_set p h i e st = st\<lparr>ss_phase := p, ss_txHash := h, ss_policyId := i, ss_error := e, ss_call := None\<rparr>"

text \<open>A failure of the flow: the step may be submitted again.\<close>

definition sign_fail :: "string \<Rightarrow> sign_step \<Rightarrow> sign_step" where
  "sign_fail msg st = (sign_set PError None None (Some msg) st)\<lparr>ss_submitted := False\<rparr>"

definition performPolicyInitiation :: "string option \<Rightarrow> sign_step \<Rightarrow> sign_step" where
  "performPolicyInitiation address st = (case address of None \<Rightarrow> st | Some a \<Rightarrow> sign_issue (InitiatePolicy a) Initiating st)"

definition quote_expired :: "sign_quote \<Rightarrow> sign_step \<Rightarrow> bool" where
  "quote_expired q st = (sq_expiresAt q < ss_rendered st)"

definition sign_handleSubmit :: "sign_quote \<Rightarrow> sign_step \<Rightarrow> sign_step" where
  "sign_handleSubmit q st =
     (if ss_submitted st then st
      else case ss_address st of
        None \<Rightarrow> st
      | Some a \<Rightarrow>
          if quote_expired q st then st\<lparr>ss_phase := PError, ss_error := Some ''Quote has expired. Please go back and regenerate.''\<rparr>
          else (let st1 = (sign_set Allowance_Checking None None None st)\<lparr>ss_submitted := True\<rparr>
                in case sq_stroops q of
                     None \<Rightarrow> performPolicyInitiation (Some a) st1
                   | Some _ \<Rightarrow> sign_issue (CheckAllowance a) Allowance_Checking st1))"

definition handleApproveSpending :: "sign_quote \<Rightarrow> sign_step \<Rightarrow> sign_step" where
  "handleApproveSpending q st = (case (ss_address st, ss_allowance st, sq_stroops q) of
     (Some a, Some c, Some _) \<Rightarrow> sign_issue (BuildApproval a c) Approval_Signing st
   | _ \<Rightarrow> st)"

definition handleRetry :: "sign_step \<Rightarrow> sign_step" where
  "handleRetry st = (sign_set PIdle None None None st)\<lparr>ss_submitted := False, ss_approvalTxHash := None, ss_allowance := None\<rparr>"

definition isSubmitting :: "sign_step \<Rightarrow> bool" where
  "isSubmitting st = (ss_phase st \<in> {Allowance_Checking, Approval_Signing, Approval_Submitting, Approval_Polling, Initiating, Signing, Submitting, Polling})"

text \<open>The answer of the server to the call that waits.\<close>

definition server_reply :: "purchase_data reply \<Rightarrow> sign_step \<Rightarrow> sign_step" where
  "server_reply r st = (case ss_call st of
     Some (CheckAllowance a) \<Rightarrow>
       (case r of
          ReplyOk (AllowanceData sufficient c) \<Rightarrow>
            if sufficient then performPolicyInitiation (Some a) (st\<lparr>ss_allowance := Some c\<rparr>)
            else (sign_set Approval_Needed None None None st)\<lparr>ss_allowance := Some c\<rparr>
        | _ \<Rightarrow> performPolicyInitiation (Some a) st)
   | Some (InitiatePolicy a) \<Rightarrow>
       (case apiFetch r of
          Inr (InitiatedData xdr quoteId) \<Rightarrow> sign_issue (SignPolicy xdr quoteId) Signing st
        | Inr _ \<Rightarrow> sign_fail ''An unexpected error occurred'' st
        | Inl m \<Rightarrow> sign_fail m st)
   | Some (SubmitPolicy xdr signed quoteId) \<Rightarrow>
       (case apiFetch r of
          Inr (SubmittedData policyId txHash) \<Rightarrow> sign_set Polling (Some txHash) (Some policyId) None st
        | Inr _ \<Rightarrow> sign_fail ''An unexpected error occurred'' st
        | Inl m \<Rightarrow> sign_fail m st)
   | Some (BuildApproval a c) \<Rightarrow>
       (case apiFetch r of
          Inr (InitiatedData xdr quoteId) \<Rightarrow> sign_issue (SignApproval xdr quoteId) Approval_Signing st
        | Inr _ \<Rightarrow> sign_fail ''An unexpected error occurred'' st
        | Inl m \<Rightarrow> sign_fail m st)
   | Some (SubmitApproval xdr signed quoteId) \<Rightarrow>
       (case apiFetch r of
          Inr (ApprovalHash h) \<Rightarrow> (sign_set Approval_Polling (Some h) None None st)\<lparr>ss_approvalTxHash := Some h\<rparr>
        | Inr _ \<Rightarrow> sign_fail ''An unexpected error occurred'' st
        | Inl m \<Rightarrow> sign_fail m st)
   | _ \<Rightarrow> st)"

definition wallet_reply :: "string + string \<Rightarrow> sign_step \<Rightarrow> sign_step" where
  "wallet_reply r st = (case ss_call st of
     Some (SignPolicy xdr quoteId) \<Rightarrow>
       (case r of Inl m \<Rightarrow> sign_fail (signErrorText False m) st | Inr signed \<Rightarrow> sign_issue (SubmitPolicy xdr signed quoteId) Submitting st)
   | Some (SignApproval xdr quoteId) \<Rightarrow>
       (case r of Inl m \<Rightarrow> sign_fail (signErrorText True m) st | Inr signed \<Rightarrow> sign_issue (SubmitApproval xdr signed quoteId) Approval_Submitting st)
   | _ \<Rightarrow> st)"

datatype tx_status = Tx_Success | Tx_Failed | Tx_Not_Found_Timeout | Tx_Pending

text \<open>The effects on the polled status. The policy id must not be empty to reach success.\<close>

definition policy_status :: "tx_status \<Rightarrow> sign_step \<Rightarrow> sign_step" where
  "policy_status s st =
     (if ss_phase st \<noteq> Polling then st
      else if s = Tx_Success \<and> (case ss_policyId st of None \<Rightarrow> False | Some i \<Rightarrow> i \<noteq> []) then st\<lparr>ss_phase := PSuccess\<rparr>
      else if s = Tx_Failed then st\<lparr>ss_phase := PError, ss_error := Some ''Transaction failed on-chain. Please try again.''\<rparr>
      else if s = Tx_Not_Found_Timeout
      then st\<lparr>ss_phase := PError, ss_error := Some ''Transaction not confirmed in time. Check your wallet or try again.''\<rparr>
      else st)"

definition approval_status :: "tx_status \<Rightarrow> sign_step \<Rightarrow> sign_step" where
  "approval_status s st =
     (if ss_phase st \<noteq> Approval_Polling then st
      else if s = Tx_Success then performPolicyInitiation (ss_address st) (st\<lparr>ss_phase := Initiating\<rparr>)
      else if s = Tx_Failed
      then st\<lparr>ss_phase := PError, ss_error := Some ''Token approval failed on-chain. Please try again.'', ss_submitted := False\<rparr>
      else if s = Tx_Not_Found_Timeout
      then st\<lparr>ss_phase := PError, ss_error := Some ''Token approval not confirmed in time. Check your wallet or try again.'', ss_submitted := False\<rparr>
      else st)"

datatype sign_action = Click_Submit | Click_Approve | Click_Retry | Server_Reply "purchase_data reply" | Wallet_Reply "string + string"
  | Policy_Status tx_status | Approval_Status tx_status | Wallet_Changed "string option"

text \<open>A button acts only where it is shown and enabled. Every step ends with a render, at the given time.\<close>

definition sign_act :: "sign_quote \<Rightarrow> sign_action \<Rightarrow> sign_step \<Rightarrow> sign_step" where
  "sign_act q a st = (case a of
     Click_Submit \<Rightarrow> (if ss_address st = None \<or> ss_phase st = Approval_Needed \<or> isSubmitting st \<or> quote_expired q st \<or> ss_phase st = PSuccess then st
       else sign_handleSubmit q st)
   | Click_Approve \<Rightarrow> (if ss_address st \<noteq> None \<and> ss_phase st = Approval_Needed then handleApproveSpending q st else st)
   | Click_Retry \<Rightarrow> (if ss_address st \<noteq> None \<and> ss_error st \<noteq> None then handleRetry st else st)
   | Server_Reply r \<Rightarrow> server_reply r st
   | Wallet_Reply r \<Rightarrow> wallet_reply r st
   | Policy_Status s \<Rightarrow> policy_status s st
   | Approval_Status s \<Rightarrow> approval_status s st
   | Wallet_Changed w \<Rightarrow> st\<lparr>ss_address := w\<rparr>)"

definition sign_run_step :: "sign_quote \<Rightarrow> sign_step \<Rightarrow> sign_action \<times> int \<Rightarrow> sign_step" where
  "sign_run_step q st e = (sign_act q (fst e) st)\<lparr>ss_rendered := snd e\<rparr>"

definition sign_initial :: "string option \<Rightarrow> int \<Rightarrow> sign_step" where
  "sign_initial address now = \<lparr>ss_phase = PIdle, ss_txHash = None, ss_policyId = None, ss_error = None, ss_allowance = None,
     ss_approvalTxHash = None, ss_submitted = False, ss_address = address, ss_rendered = now, ss_call = None, ss_log = []\<rparr>"

section \<open>The wizard and its draft\<close>

text \<open>A quote is kept with the coverage it was asked for.\<close>

record 'c wizard_quote =
  wq_premium :: string
  wq_for :: 'c

record 'c wizard_data =
  wd_step :: nat
  wd_coverage :: 'c
  wd_quote :: "'c wizard_quote option"
  wd_expiresAt :: "int option"

text \<open>The stored draft: version, time, data. The review step lives only while it is shown.\<close>

record 'c review =
  rv_quote :: "'c wizard_quote option"
  rv_expiresAt :: "int option"
  rv_for :: 'c
  rv_expired :: bool
  rv_loading :: bool
  rv_failed :: bool

record 'c wizard =
  wz_data :: "'c wizard_data"
  wz_draft :: "(int \<times> int \<times> 'c wizard_data) option"
  wz_hasDraft :: bool
  wz_restored :: bool
  wz_link :: "'c option"
  wz_review :: "'c review option"
  wz_completed :: bool

definition WIZARD_SCHEMA_VERSION :: int where "WIZARD_SCHEMA_VERSION = 1"
definition DRAFT_TTL_MS :: int where "DRAFT_TTL_MS = 24 * 60 * 60 * 1000"
definition QUOTE_TTL_SECONDS :: int where "QUOTE_TTL_SECONDS = 300"

text \<open>\<open>saveDraft\<close>: no field of the wizard is a file or a text, so its sanitising keeps them all.\<close>

definition saveDraft :: "int \<Rightarrow> 'c wizard_data \<Rightarrow> 'c wizard \<Rightarrow> 'c wizard" where
  "saveDraft now d st = st\<lparr>wz_draft := Some (WIZARD_SCHEMA_VERSION, now, d), wz_hasDraft := True\<rparr>"

definition checkDraft :: "int \<Rightarrow> (int \<times> int \<times> 'd) option \<Rightarrow> bool \<times> (int \<times> int \<times> 'd) option" where
  "checkDraft now raw = (case raw of None \<Rightarrow> (False, None)
     | Some (v, ts, d) \<Rightarrow> if v \<noteq> WIZARD_SCHEMA_VERSION \<or> now - ts > DRAFT_TTL_MS then (False, None) else (True, raw))"

definition wizard_blank :: "'c \<Rightarrow> 'c option \<Rightarrow> 'c wizard" where
  "wizard_blank c link = \<lparr>wz_data = \<lparr>wd_step = 0, wd_coverage = c, wd_quote = None, wd_expiresAt = None\<rparr>, wz_draft = None, wz_hasDraft = False,
     wz_restored = False, wz_link = link, wz_review = None, wz_completed = False\<rparr>"

text \<open>Mounting of the review: it fetches, for the coverage it is given, unless the cached quote is valid.\<close>

definition mountReview :: "int \<Rightarrow> 'c wizard \<Rightarrow> 'c wizard" where
  "mountReview now st =
     (let d = wz_data st; valid = (wd_quote d \<noteq> None \<and> (case wd_expiresAt d of None \<Rightarrow> False | Some e \<Rightarrow> e \<noteq> 0 \<and> e > now))
      in st\<lparr>wz_review := Some \<lparr>rv_quote = wd_quote d, rv_expiresAt = wd_expiresAt d, rv_for = wd_coverage d, rv_expired = False,
           rv_loading = \<not> valid, rv_failed = False\<rparr>\<rparr>)"

text \<open>The effect that restores runs once, when the hook reports a draft: at mounting, or after the wizard itself has saved its first one.
  A link takes the place of the draft.\<close>

definition restoreDraft :: "int \<Rightarrow> 'c wizard \<Rightarrow> 'c wizard" where
  "restoreDraft now st =
     (if \<not> wz_hasDraft st \<or> wz_restored st then st
      else (let st1 = st\<lparr>wz_restored := True\<rparr> in
            case wz_link st of
              Some c \<Rightarrow> st1\<lparr>wz_data := (wz_data st)\<lparr>wd_coverage := c\<rparr>\<rparr>
            | None \<Rightarrow> (case wz_draft st of None \<Rightarrow> st1
                | Some (_, _, d) \<Rightarrow> (let st2 = st1\<lparr>wz_data := d\<rparr> in if wd_step d = 1 \<and> wz_review st = None then mountReview now st2 else st2))))"

definition mountWizard :: "int \<Rightarrow> 'c \<Rightarrow> 'c option \<Rightarrow> (int \<times> int \<times> 'c wizard_data) option \<Rightarrow> 'c wizard" where
  "mountWizard now blank link raw =
     (let (hasDraft, kept) = checkDraft now raw
      in restoreDraft now ((wizard_blank blank link)\<lparr>wz_draft := kept, wz_hasDraft := hasDraft\<rparr>))"

definition wizard_goto :: "int \<Rightarrow> 'c wizard_data \<Rightarrow> 'c wizard \<Rightarrow> 'c wizard" where
  "wizard_goto now d st =
     (let st1 = saveDraft now d (st\<lparr>wz_data := d, wz_review := None\<rparr>)
      in restoreDraft now (if wd_step d = 1 then mountReview now st1 else st1))"

definition coverage_changed :: "int \<Rightarrow> 'c \<Rightarrow> 'c wizard \<Rightarrow> 'c wizard" where
  "coverage_changed now c st =
     (let d = (wz_data st)\<lparr>wd_coverage := c\<rparr> in restoreDraft now (saveDraft now d (st\<lparr>wz_data := d\<rparr>)))"

datatype 'c wizard_action = Coverage_Next 'c | Coverage_Change 'c | Quote_Arrived string | Quote_Failed | Quote_Expires | Quote_Retry
  | Quote_Proceed | Quote_Back | Sign_Back | Wizard_Success

text \<open>Each handler is available in its step only; the quote answers the coverage that was sent.\<close>

definition wizard_act :: "int \<Rightarrow> 'c wizard \<Rightarrow> 'c wizard_action \<Rightarrow> 'c wizard" where
  "wizard_act now st a =
     (let d = wz_data st in
      case a of
        Coverage_Next c \<Rightarrow> (if wd_step d = 0 then wizard_goto now (d\<lparr>wd_step := 1, wd_coverage := c\<rparr>) st else st)
      | Coverage_Change c \<Rightarrow> (if wd_step d = 0 then coverage_changed now c st else st)
      | Quote_Arrived p \<Rightarrow> (case wz_review st of
          Some r \<Rightarrow> if rv_loading r
            then st\<lparr>wz_review := Some (r\<lparr>rv_loading := False, rv_quote := Some \<lparr>wq_premium = p, wq_for = rv_for r\<rparr>,
                   rv_expiresAt := Some (now + QUOTE_TTL_SECONDS * 1000)\<rparr>)\<rparr> else st
        | None \<Rightarrow> st)
      | Quote_Failed \<Rightarrow> (case wz_review st of Some r \<Rightarrow> if rv_loading r then st\<lparr>wz_review := Some (r\<lparr>rv_loading := False, rv_failed := True\<rparr>)\<rparr> else st | None \<Rightarrow> st)
      | Quote_Expires \<Rightarrow> (case wz_review st of
          Some r \<Rightarrow> if \<not> rv_loading r \<and> \<not> rv_failed r \<and> rv_quote r \<noteq> None \<and> (case rv_expiresAt r of None \<Rightarrow> False | Some e \<Rightarrow> e \<le> now) then st\<lparr>wz_review := Some (r\<lparr>rv_expired := True\<rparr>)\<rparr> else st | None \<Rightarrow> st)
      | Quote_Retry \<Rightarrow> (case wz_review st of
          Some r \<Rightarrow> if \<not> rv_loading r \<and> (rv_failed r \<or> rv_expired r)
            then st\<lparr>wz_review := Some (r\<lparr>rv_loading := True, rv_failed := False, rv_expired := False, rv_for := wd_coverage d\<rparr>)\<rparr> else st
        | None \<Rightarrow> st)
      | Quote_Proceed \<Rightarrow> (case wz_review st of
          Some r \<Rightarrow> if \<not> rv_loading r \<and> \<not> rv_failed r \<and> \<not> rv_expired r \<and> rv_quote r \<noteq> None
            then wizard_goto now (d\<lparr>wd_step := 2, wd_quote := rv_quote r, wd_expiresAt := rv_expiresAt r\<rparr>) st else st
        | None \<Rightarrow> st)
      | Quote_Back \<Rightarrow> (if wd_step d = 1 \<and> (case wz_review st of Some r \<Rightarrow> \<not> rv_loading r | None \<Rightarrow> False) then wizard_goto now (d\<lparr>wd_step := 0\<rparr>) st else st)
      | Sign_Back \<Rightarrow> (if wd_step d = 2 then wizard_goto now (d\<lparr>wd_step := 1\<rparr>) st else st)
      | Wizard_Success \<Rightarrow> (if wd_step d = 2 then st\<lparr>wz_completed := True, wz_draft := None, wz_hasDraft := False\<rparr> else st))"

definition wizard_step :: "'c wizard \<Rightarrow> 'c wizard_action \<times> int \<Rightarrow> 'c wizard" where
  "wizard_step st e = wizard_act (snd e) st (fst e)"

section \<open>Properties of the step that signs\<close>

definition phase_open :: "submit_phase \<Rightarrow> nat" where
  "phase_open p = (if p \<in> {Allowance_Checking, Approval_Needed, Approval_Signing, Approval_Submitting, Approval_Polling, Initiating, Signing} then 1 else 0)"

definition flow_open :: "sign_step \<Rightarrow> nat" where
  "flow_open st = phase_open (ss_phase st)"

definition is_submit :: "sign_call \<Rightarrow> bool" where
  "is_submit c = (case c of SubmitPolicy _ _ _ \<Rightarrow> True | _ \<Rightarrow> False)"

definition submits :: "sign_step \<Rightarrow> nat" where
  "submits st = length (filter is_submit (ss_log st))"

text \<open>The call that waits belongs to the phase.\<close>

definition call_phase :: "sign_call \<Rightarrow> submit_phase" where
  "call_phase c = (case c of
     CheckAllowance _ \<Rightarrow> Allowance_Checking
   | InitiatePolicy _ \<Rightarrow> Initiating
   | SignPolicy _ _ \<Rightarrow> Signing
   | SubmitPolicy _ _ _ \<Rightarrow> Submitting
   | BuildApproval _ _ \<Rightarrow> Approval_Signing
   | SignApproval _ _ \<Rightarrow> Approval_Signing
   | SubmitApproval _ _ _ \<Rightarrow> Approval_Submitting)"

definition sign_inv :: "sign_step \<Rightarrow> bool" where
  "sign_inv st = ((\<forall>c. ss_call st = Some c \<longrightarrow> ss_phase st = call_phase c) \<and> (ss_error st \<noteq> None \<longrightarrow> ss_phase st = PError))"

definition flow_step_ok :: "nat \<Rightarrow> sign_step \<Rightarrow> sign_step \<Rightarrow> bool" where
  "flow_step_ok n st st' = (sign_inv st' \<and> submits st' + flow_open st' \<le> submits st + flow_open st + n)"

lemmas sign_defs = sign_issue_def sign_set_def sign_fail_def performPolicyInitiation_def sign_handleSubmit_def handleApproveSpending_def
  handleRetry_def server_reply_def wallet_reply_def policy_status_def approval_status_def

text \<open>Every callback sets the state or issues the call of the next phase.\<close>

lemma flow_same: "sign_inv st \<Longrightarrow> flow_step_ok n st st"
  by (simp add: flow_step_ok_def)

lemma flow_issue:
  assumes "p = call_phase c" and "ss_error st' = None" and "ss_log st' = ss_log st"
    and "(if is_submit c then 1 else 0) + phase_open p \<le> phase_open (ss_phase st) + n"
  shows "flow_step_ok n st (sign_issue c p st')"
  using assms by (simp add: flow_step_ok_def sign_inv_def sign_issue_def flow_open_def submits_def split: if_splits)

lemma flow_set:
  assumes "e \<noteq> None \<longrightarrow> p = PError" and "phase_open p \<le> phase_open (ss_phase st) + n" and "ss_log st' = ss_log st"
  shows "flow_step_ok n st (sign_set p h i e st')"
  using assms by (simp add: flow_step_ok_def sign_inv_def sign_set_def flow_open_def submits_def)

lemma rendered_frame: "flow_step_ok n st (st'\<lparr>ss_rendered := t\<rparr>) = flow_step_ok n st st'"
  by (simp add: flow_step_ok_def sign_inv_def flow_open_def submits_def)

lemma address_frame: "flow_step_ok n st (st'\<lparr>ss_address := w\<rparr>) = flow_step_ok n st st'"
  by (simp add: flow_step_ok_def sign_inv_def flow_open_def submits_def)

lemma control_frame:
  "flow_step_ok n st (st'\<lparr>ss_submitted := b\<rparr>) = flow_step_ok n st st'" "flow_step_ok n st (st'\<lparr>ss_allowance := a\<rparr>) = flow_step_ok n st st'"
  "flow_step_ok n st (st'\<lparr>ss_approvalTxHash := h\<rparr>) = flow_step_ok n st st'"
  by (simp_all add: flow_step_ok_def sign_inv_def flow_open_def submits_def)

lemma flow_fail: "flow_step_ok n st (sign_fail m st)"
  by (simp add: sign_fail_def control_frame flow_set phase_open_def)

lemmas flow_rules = flow_same flow_fail flow_set flow_issue control_frame

lemma waiting: "sign_inv st \<Longrightarrow> ss_call st = Some c \<Longrightarrow> ss_phase st = call_phase c \<and> ss_error st = None"
  by (cases c) (auto simp: sign_inv_def call_phase_def)

lemma flow_server:
  assumes "sign_inv st"
  shows "flow_step_ok 0 st (server_reply r st)"
proof (cases "ss_call st")
  case (Some c)
  note w = waiting [OF assms Some]
  show ?thesis
    by (cases c; cases r)
       (use Some w assms in \<open>simp_all add: server_reply_def apiFetch_def flow_rules performPolicyInitiation_def call_phase_def phase_open_def is_submit_def
          split: purchase_data.split\<close>)
qed (use assms in \<open>simp add: server_reply_def flow_same\<close>)

lemma flow_wallet:
  assumes "sign_inv st"
  shows "flow_step_ok 0 st (wallet_reply r st)"
proof (cases "ss_call st")
  case (Some c)
  note w = waiting [OF assms Some]
  show ?thesis
    by (cases c; cases r) (use Some w assms in \<open>simp_all add: wallet_reply_def flow_rules call_phase_def phase_open_def is_submit_def\<close>)
qed (use assms in \<open>simp add: wallet_reply_def flow_same\<close>)

lemma polling_idle: "sign_inv st \<Longrightarrow> ss_phase st \<in> {PIdle, Polling, Approval_Polling, Approval_Needed, PSuccess, PError} \<Longrightarrow> ss_call st = None"
  by (cases "ss_call st") (auto simp: sign_inv_def call_phase_def split: sign_call.splits)

lemma flow_status:
  assumes "sign_inv st"
  shows "flow_step_ok 0 st (policy_status s st)" "flow_step_ok 0 st (approval_status s st)"
proof -
  show "flow_step_ok 0 st (policy_status s st)"
  proof (cases "ss_phase st = Polling")
    case True
    with assms have "ss_call st = None" "ss_error st = None" by (auto simp: polling_idle, auto simp: sign_inv_def)
    with True assms show ?thesis by (cases s) (simp_all add: policy_status_def flow_step_ok_def sign_inv_def flow_open_def phase_open_def submits_def)
  qed (simp add: policy_status_def flow_same assms)
  show "flow_step_ok 0 st (approval_status s st)"
  proof (cases "ss_phase st = Approval_Polling")
    case True
    with assms have idle: "ss_call st = None" "ss_error st = None" by (auto simp: polling_idle, auto simp: sign_inv_def)
    show ?thesis
    proof (cases "s = Tx_Success")
      case s: True
      show ?thesis
        by (cases "ss_address st")
           (use True idle s in \<open>simp_all add: approval_status_def performPolicyInitiation_def flow_step_ok_def sign_issue_def sign_inv_def
              flow_open_def phase_open_def submits_def call_phase_def is_submit_def\<close>)
    next
      case False
      with True idle assms show ?thesis
        by (cases s) (simp_all add: approval_status_def flow_step_ok_def sign_inv_def flow_open_def phase_open_def submits_def)
    qed
  qed (simp add: approval_status_def flow_same assms)
qed

lemma flow_submit:
  assumes "sign_inv st" and "\<not> quote_expired q st"
  shows "flow_step_ok (Suc 0) st (sign_handleSubmit q st)"
proof (cases "ss_submitted st \<or> ss_address st = None")
  case True
  then show ?thesis using assms by (auto simp: sign_handleSubmit_def flow_same)
next
  case False
  then obtain a where "\<not> ss_submitted st" "ss_address st = Some a" by auto
  then show ?thesis using assms(2) by (cases "sq_stroops q")
      (simp_all add: sign_handleSubmit_def performPolicyInitiation_def flow_issue sign_set_def call_phase_def phase_open_def is_submit_def)
qed

lemma flow_approve: "sign_inv st \<Longrightarrow> ss_phase st = Approval_Needed \<Longrightarrow> flow_step_ok 0 st (handleApproveSpending q st)"
  by (auto simp: handleApproveSpending_def flow_same sign_inv_def phase_open_def call_phase_def is_submit_def intro!: flow_issue
      split: option.split)

lemma flow_retry: "flow_step_ok 0 st (handleRetry st)"
  by (simp add: handleRetry_def control_frame flow_set phase_open_def)

lemma flow_clicks:
  assumes "sign_inv st"
  shows "flow_step_ok 1 st (sign_act q Click_Submit st)" "flow_step_ok 0 st (sign_act q Click_Approve st)"
    "flow_step_ok 0 st (sign_act q Click_Retry st)"
  using assms by (simp_all add: sign_act_def flow_same flow_submit flow_approve flow_retry)

definition clicks :: "(sign_action \<times> int) list \<Rightarrow> nat" where
  "clicks es = length (filter (\<lambda>e. fst e = Click_Submit) es)"

lemma flow_step: "sign_inv st \<Longrightarrow> flow_step_ok (if fst e = Click_Submit then 1 else 0) st (sign_run_step q st e)"
  unfolding sign_run_step_def rendered_frame
proof (cases "fst e")
  case (Server_Reply r)
  assume "sign_inv st"
  then show "flow_step_ok (if fst e = Click_Submit then 1 else 0) st (sign_act q (fst e) st)"
    using Server_Reply by (simp add: sign_act_def flow_server)
qed (simp_all add: flow_clicks [simplified] sign_act_def [of _ "Wallet_Reply r" for r] sign_act_def [of _ "Policy_Status r" for r]
    sign_act_def [of _ "Approval_Status r" for r] sign_act_def [of _ "Wallet_Changed r" for r] flow_wallet flow_status flow_same address_frame)

lemma flow_run: "sign_inv st \<Longrightarrow> submits (run_steps (sign_run_step q) st es) + flow_open (run_steps (sign_run_step q) st es)
    \<le> submits st + flow_open st + clicks es"
proof (induction es arbitrary: st)
  case (Cons e es)
  have ok: "flow_step_ok (if fst e = Click_Submit then 1 else 0) st (sign_run_step q st e)" by (rule flow_step [OF Cons.prems])
  then have "sign_inv (sign_run_step q st e)" by (simp add: flow_step_ok_def)
  from Cons.IH [OF this] show ?case using ok by (auto simp: clicks_def flow_step_ok_def split: if_splits)
qed (simp add: clicks_def)

text \<open>C24. A policy is submitted at most once per click: in every run of the signing step, whatever server, wallet and network answer and
  in whatever order, the number of signed policies that are submitted is at most the number of clicks on the button.\<close>

theorem submitted_once_per_click:
  "submits (run_steps (sign_run_step q) (sign_initial address now) es) \<le> clicks es"
proof -
  have "sign_inv (sign_initial address now)" by (simp add: sign_initial_def sign_inv_def)
  from flow_run [OF this, of q es] show ?thesis by (simp add: sign_initial_def flow_open_def phase_open_def submits_def)
qed

text \<open>Two clicks can buy twice: a policy that is not confirmed in time is reported as an error and offered again, and so is one whose
  submission is sent but not answered.\<close>

lemma unconfirmed_policy_bought_twice:
  "submits (run_steps (sign_run_step \<lparr>sq_stroops = None, sq_expiresAt = 100\<rparr>) (sign_initial (Some ''G'') 0)
     [(Click_Submit, 1), (Server_Reply (ReplyOk (InitiatedData ''x'' ''q'')), 2), (Wallet_Reply (Inr ''s''), 3),
      (Server_Reply (ReplyOk (SubmittedData ''p'' ''h'')), 4), (Policy_Status Tx_Not_Found_Timeout, 5), (Click_Retry, 6),
      (Click_Submit, 7), (Server_Reply (ReplyOk (InitiatedData ''x'' ''q'')), 8), (Wallet_Reply (Inr ''s''), 9)]) = 2"
  by (simp add: sign_run_step_def sign_act_def sign_initial_def sign_defs submits_def is_submit_def isSubmitting_def quote_expired_def apiFetch_def Let_def)

text \<open>The expiry is the one of the last render, and it is not looked at again after an approval: a policy is initiated at any time later.\<close>

lemma expired_quote_initiated:
  "InitiatePolicy ''G'' \<in> set (ss_log (run_steps (sign_run_step \<lparr>sq_stroops = Some ''5'', sq_expiresAt = 100\<rparr>) (sign_initial (Some ''G'') 0)
     [(Click_Submit, 200), (Server_Reply (ReplyOk (AllowanceData True ''C'')), 300)]))"
  by (simp add: sign_run_step_def sign_act_def sign_initial_def sign_defs isSubmitting_def quote_expired_def Let_def)

text \<open>A confirmed transaction without a policy id is polled for ever.\<close>

lemma confirmed_without_id_stuck:
  "ss_phase st = Polling \<Longrightarrow> ss_policyId st = Some [] \<Longrightarrow> policy_status Tx_Success st = st"
  by (simp add: policy_status_def)

subsection \<open>Production\<close>

lemma purchase_paths_rejected:
  "rejectUnversioned ''production'' initiate_path" "rejectUnversioned ''production'' submit_path" "rejectUnversioned ''production'' allowance_path"
  "rejectUnversioned ''production'' build_approval_path" "rejectUnversioned ''production'' submit_approval_path"
  by (simp_all add: rejectUnversioned_def starts_with_def versioned_path_def VERSION_NEUTRAL_PREFIXES_def is_digit_def
      initiate_path_def submit_path_def allowance_path_def build_approval_path_def submit_approval_path_def)

definition call_path :: "sign_call \<Rightarrow> string option" where
  "call_path c = (case c of CheckAllowance _ \<Rightarrow> Some allowance_path | InitiatePolicy _ \<Rightarrow> Some initiate_path | SubmitPolicy _ _ _ \<Rightarrow> Some submit_path
     | BuildApproval _ _ \<Rightarrow> Some build_approval_path | SubmitApproval _ _ _ \<Rightarrow> Some submit_approval_path | _ \<Rightarrow> None)"

text \<open>The runs in which the answers come from a server.\<close>

fun answered_by :: "purchase_data server \<Rightarrow> sign_quote \<Rightarrow> sign_step \<Rightarrow> (sign_action \<times> int) list \<Rightarrow> bool" where
  "answered_by srv q st [] = True"
| "answered_by srv q st (e # es) =
     ((case (fst e, ss_call st) of (Server_Reply r, Some c) \<Rightarrow> (case call_path c of Some p \<Rightarrow> r = srv POST p | None \<Rightarrow> True) | _ \<Rightarrow> True) \<and>
      answered_by srv q (sign_run_step q st e) es)"

definition unsigned :: "sign_step \<Rightarrow> bool" where
  "unsigned st = (list_all (\<lambda>c. case c of CheckAllowance _ \<Rightarrow> True | InitiatePolicy _ \<Rightarrow> True | _ \<Rightarrow> False) (ss_log st) \<and>
     (case ss_call st of None \<Rightarrow> True | Some (CheckAllowance _) \<Rightarrow> True | Some (InitiatePolicy _) \<Rightarrow> True | _ \<Rightarrow> False) \<and>
     ss_phase st \<notin> {Approval_Needed, Approval_Polling, Polling, PSuccess})"

lemma refused_reply: "rejectUnversioned ''production'' p \<Longrightarrow> backend ''production'' app vb p = ReplyError 404 (ErrJson None (Some ''Not Found''))"
  by (simp add: backend_def)

lemma unsigned_reply:
  assumes "unsigned st" and "\<And>c p. ss_call st = Some c \<Longrightarrow> call_path c = Some p \<Longrightarrow> r = backend ''production'' app POST p"
  shows "unsigned (server_reply r st)"
proof (cases "ss_call st")
  case (Some c)
  have "r = ReplyError 404 (ErrJson None (Some ''Not Found''))"
    using assms Some by (cases c) (auto simp: unsigned_def call_path_def refused_reply purchase_paths_rejected)
  then show ?thesis using assms(1) Some by (cases c) (simp_all add: unsigned_def sign_defs apiFetch_def)
qed (use assms(1) in \<open>simp add: server_reply_def\<close>)

lemma unsigned_clicks:
  assumes "unsigned st"
  shows "unsigned (sign_act q Click_Submit st)" "unsigned (sign_act q Click_Approve st)" "unsigned (sign_act q Click_Retry st)"
proof -
  have "unsigned (sign_handleSubmit q st)" using assms
    by (cases "ss_address st"; cases "sq_stroops q") (simp_all add: sign_defs unsigned_def)
  then show "unsigned (sign_act q Click_Submit st)" using assms by (simp add: sign_act_def)
  show "unsigned (sign_act q Click_Approve st)" "unsigned (sign_act q Click_Retry st)"
    using assms by (simp_all add: sign_act_def unsigned_def handleRetry_def sign_set_def)
qed

lemma unsigned_other:
  assumes "unsigned st"
  shows "unsigned (wallet_reply w st)" "unsigned (policy_status s st)" "unsigned (approval_status s st)"
  using assms by (auto simp: unsigned_def wallet_reply_def policy_status_def approval_status_def split: option.splits sign_call.splits)

lemma unsigned_frame: "unsigned (st\<lparr>ss_rendered := t\<rparr>) = unsigned st" "unsigned (st\<lparr>ss_address := w\<rparr>) = unsigned st"
  by (simp_all add: unsigned_def)

lemma unsigned_step:
  assumes "unsigned st" and "answered_by (backend ''production'' app) q st [e]"
  shows "unsigned (sign_run_step q st e)"
  unfolding sign_run_step_def unsigned_frame
proof (cases "fst e")
  case (Server_Reply r)
  then show "unsigned (sign_act q (fst e) st)" using assms
    by (simp add: sign_act_def) (rule unsigned_reply [of st r app], auto split: option.splits)
qed (use assms(1) in \<open>simp_all add: unsigned_clicks, simp_all add: sign_act_def unsigned_other unsigned_frame\<close>)

lemma unsigned_run: "unsigned st \<Longrightarrow> answered_by (backend ''production'' app) q st es \<Longrightarrow> unsigned (run_steps (sign_run_step q) st es)"
proof (induction es arbitrary: st)
  case (Cons e es)
  then show ?case using unsigned_step [of st app q e] by simp
qed simp

text \<open>In production nothing can be bought: the step asks for paths under \<open>/api/\<close> without a version, which the backend's middleware
  answers with 404, so in every run in which the server's answers are the backend's, whatever the application behind the middleware
  would answer, the wallet is never asked to sign, no policy and no approval is submitted, and the success phase is not reached.\<close>

theorem production_never_buys:
  assumes "answered_by (backend ''production'' app) q (sign_initial address now) es"
  shows "list_all (\<lambda>c. \<not> is_submit c \<and> (\<forall>x i. c \<noteq> SignPolicy x i \<and> c \<noteq> SignApproval x i))
      (ss_log (run_steps (sign_run_step q) (sign_initial address now) es))
    \<and> ss_phase (run_steps (sign_run_step q) (sign_initial address now) es) \<noteq> PSuccess"
proof -
  have "unsigned (sign_initial address now)" by (simp add: sign_initial_def unsigned_def)
  from unsigned_run [OF this assms] show ?thesis
    by (auto simp: unsigned_def is_submit_def list_all_iff split: sign_call.splits)
qed

theorem production_never_buys_witness:
  "list_all (\<lambda>c. \<not> is_submit c \<and> (\<forall>x i. c \<noteq> SignPolicy x i \<and> c \<noteq> SignApproval x i))
     (ss_log (run_steps (sign_run_step \<lparr>sq_stroops = None, sq_expiresAt = 100\<rparr>) (sign_initial (Some ''G'') 0)
       [(Click_Submit, 1), (Server_Reply (backend ''production'' (\<lambda>_ _. ReplyOk (InitiatedData ''x'' ''q'')) POST initiate_path), 2), (Wallet_Reply (Inr ''s''), 3)])) \<and>
   ss_phase (run_steps (sign_run_step \<lparr>sq_stroops = None, sq_expiresAt = 100\<rparr>) (sign_initial (Some ''G'') 0)
       [(Click_Submit, 1), (Server_Reply (backend ''production'' (\<lambda>_ _. ReplyOk (InitiatedData ''x'' ''q'')) POST initiate_path), 2), (Wallet_Reply (Inr ''s''), 3)]) \<noteq> PSuccess"
  by (rule production_never_buys [where app = "\<lambda>_ _. ReplyOk (InitiatedData ''x'' ''q'')"])
     (simp add: call_path_def sign_run_step_def sign_act_def sign_initial_def sign_defs isSubmitting_def quote_expired_def Let_def)

section \<open>Properties of the wizard\<close>

text \<open>Without a link, the effect that runs after a save finds the data it saved.\<close>

lemma restore_saved:
  assumes "wz_link st = None" and "wz_draft st = Some (v, ts, wz_data st)" and "wd_step (wz_data st) = 1 \<Longrightarrow> wz_review st \<noteq> None"
  shows "\<exists>b. restoreDraft now st = st\<lparr>wz_restored := b\<rparr>"
proof (cases "\<not> wz_hasDraft st \<or> wz_restored st")
  case True
  then have "restoreDraft now st = st\<lparr>wz_restored := wz_restored st\<rparr>" by (auto simp: restoreDraft_def)
  then show ?thesis ..
next
  case False
  then have "restoreDraft now st = st\<lparr>wz_restored := True\<rparr>" using assms by (auto simp: restoreDraft_def Let_def)
  then show ?thesis ..
qed

lemma mountReview_keeps [simp]:
  "wz_data (mountReview now st) = wz_data st" "wz_draft (mountReview now st) = wz_draft st" "wz_link (mountReview now st) = wz_link st"
  "\<exists>r. wz_review (mountReview now st) = Some r"
  by (simp_all add: mountReview_def Let_def)

lemma goto_shape:
  assumes "wz_link st = None"
  shows "\<exists>b. wizard_goto now d st =
    (let st1 = saveDraft now d (st\<lparr>wz_data := d, wz_review := None\<rparr>) in (if wd_step d = 1 then mountReview now st1 else st1)\<lparr>wz_restored := b\<rparr>)"
  unfolding wizard_goto_def Let_def
  by (rule restore_saved) (use assms in \<open>auto simp: saveDraft_def split: if_splits\<close>)

lemma changed_shape:
  assumes "wz_link st = None" and "wd_step (wz_data st) = 0"
  shows "\<exists>b. coverage_changed now c st =
    (let d = (wz_data st)\<lparr>wd_coverage := c\<rparr> in (saveDraft now d (st\<lparr>wz_data := d\<rparr>))\<lparr>wz_restored := b\<rparr>)"
  unfolding coverage_changed_def Let_def
  by (rule restore_saved) (simp_all add: assms saveDraft_def)

definition quote_fits :: "'c wizard \<Rightarrow> bool" where
  "quote_fits st = (wz_link st = None \<and>
     (wd_step (wz_data st) = 2 \<longrightarrow> (\<forall>q. wd_quote (wz_data st) = Some q \<longrightarrow> wq_for q = wd_coverage (wz_data st))) \<and>
     (wd_step (wz_data st) < 2 \<longrightarrow> wd_quote (wz_data st) = None) \<and>
     (\<forall>r. wz_review st = Some r \<longrightarrow> wd_step (wz_data st) = 1 \<and> rv_for r = wd_coverage (wz_data st) \<and>
       (\<forall>q. rv_quote r = Some q \<longrightarrow> wq_for q = wd_coverage (wz_data st))))"

lemma quote_fits_goto:
  assumes "wz_link st = None"
  shows "wd_step d \<le> 1 \<Longrightarrow> wd_quote d = None \<Longrightarrow> quote_fits (wizard_goto now d st)"
    and "wd_step d = 2 \<Longrightarrow> (\<And>q. wd_quote d = Some q \<Longrightarrow> wq_for q = wd_coverage d) \<Longrightarrow> quote_fits (wizard_goto now d st)"
  using goto_shape [OF assms, of now d] assms by (auto simp: quote_fits_def saveDraft_def mountReview_def Let_def split: if_splits)

lemma quote_fits_changed: "quote_fits st \<Longrightarrow> wd_step (wz_data st) = 0 \<Longrightarrow> quote_fits (coverage_changed now c st)"
  using changed_shape [of st now c] by (auto simp: quote_fits_def saveDraft_def Let_def)

lemma quote_fits_step:
  assumes fits: "quote_fits st" and "fst e \<noteq> Sign_Back"
  shows "quote_fits (wizard_step st e)"
proof -
  have link: "wz_link st = None" using fits by (simp add: quote_fits_def)
  note goto = quote_fits_goto [OF link]
  show ?thesis
  proof (cases "fst e")
    case Quote_Proceed
    then show ?thesis using fits
      by (cases "wz_review st") (auto simp: wizard_step_def wizard_act_def quote_fits_def [of st] Let_def intro!: goto(2))
  next
    case Quote_Back
    then show ?thesis using fits
      by (cases "wz_review st") (auto simp: wizard_step_def wizard_act_def quote_fits_def [of st] Let_def intro!: goto(1))
  next
    case (Coverage_Next c)
    then show ?thesis using fits
      by (auto simp: wizard_step_def wizard_act_def quote_fits_def [of st] Let_def intro!: goto(1))
  next
    case (Coverage_Change c)
    then show ?thesis using fits by (simp add: wizard_step_def wizard_act_def quote_fits_changed)
  qed (use assms in \<open>cases "wz_review st"; simp add: wizard_step_def wizard_act_def quote_fits_def Let_def\<close>)+
qed

lemma quote_fits_run: "quote_fits st \<Longrightarrow> list_all (\<lambda>e. fst e \<noteq> Sign_Back) es \<Longrightarrow> quote_fits (run_steps wizard_step st es)"
  by (induction es arbitrary: st) (auto simp: quote_fits_step)

text \<open>C40. What is signed is what was quoted: in a run of the wizard that starts without a link and without a draft and in which the buyer
  does not return from the last step, the quote of the last step is one for the coverage that will be sent.\<close>

theorem signed_quote_fits:
  assumes "list_all (\<lambda>e. fst e \<noteq> Sign_Back) es" and "wd_step (wz_data (run_steps wizard_step (mountWizard now c None None) es)) = 2"
    and "wd_quote (wz_data (run_steps wizard_step (mountWizard now c None None) es)) = Some q"
  shows "wq_for q = wd_coverage (wz_data (run_steps wizard_step (mountWizard now c None None) es))"
proof -
  have "quote_fits (mountWizard now c None None)" by (simp add: quote_fits_def mountWizard_def checkDraft_def restoreDraft_def wizard_blank_def)
  from quote_fits_run [OF this assms(1)] show ?thesis using assms(2,3) by (simp add: quote_fits_def)
qed

definition buy_run :: "(string wizard_action \<times> int) list" where
  "buy_run = [(Coverage_Change ''basic'', 1), (Coverage_Next ''basic'', 1), (Quote_Arrived ''10'', 2), (Quote_Proceed, 3)]"

lemmas wizard_eval = buy_run_def wizard_step_def wizard_act_def wizard_goto_def coverage_changed_def saveDraft_def mountReview_def restoreDraft_def
  mountWizard_def checkDraft_def wizard_blank_def Let_def QUOTE_TTL_SECONDS_def

theorem signed_quote_fits_witness:
  "wq_for \<lparr>wq_premium = ''10'', wq_for = ''basic''\<rparr> = wd_coverage (wz_data (run_steps wizard_step (mountWizard 0 [] None None) buy_run))"
  by (rule signed_quote_fits) (simp_all add: wizard_eval)

text \<open>A buyer who goes back and raises the coverage is shown, and signs with, the quote of the lower one.\<close>

lemma stale_quote_signed:
  "wz_data (run_steps wizard_step (mountWizard 0 [] None None)
     (buy_run @ [(Sign_Back, 4), (Quote_Back, 5), (Coverage_Next ''premium'', 6), (Quote_Proceed, 7)])) =
   \<lparr>wd_step = 2, wd_coverage = ''premium'', wd_quote = Some \<lparr>wq_premium = ''10'', wq_for = ''basic''\<rparr>, wd_expiresAt = Some 300002\<rparr>"
  by (simp add: wizard_eval)

text \<open>A shared link is not looked at when the visitor has no draft; it comes into force at the first change the visitor makes, in the place of
  what was typed.\<close>

lemma link_ignored_without_draft: "wz_data (mountWizard now blank (Some c) None) = wz_data (mountWizard now blank None None)"
  by (simp add: wizard_eval)

lemma link_replaces_entry: "wd_coverage (wz_data (wizard_step (mountWizard now blank (Some c) None) (Coverage_Change t, now))) = c"
  by (simp add: wizard_eval)

definition draft_current :: "'c wizard \<Rightarrow> bool" where
  "draft_current st = (wz_link st = None \<and> (\<forall>v ts d. wz_draft st = Some (v, ts, d) \<longrightarrow> v = WIZARD_SCHEMA_VERSION \<and> d = wz_data st))"

lemma draft_current_goto: "wz_link st = None \<Longrightarrow> draft_current (wizard_goto now d st)"
  using goto_shape [of st now d] by (auto simp: draft_current_def saveDraft_def Let_def split: if_splits)

lemma draft_current_changed: "wz_link st = None \<Longrightarrow> wd_step (wz_data st) = 0 \<Longrightarrow> draft_current (coverage_changed now c st)"
  using changed_shape [of st now c] by (auto simp: draft_current_def saveDraft_def Let_def)

lemma draft_current_frame: "draft_current (st\<lparr>wz_review := r\<rparr>) = draft_current st"
  by (simp add: draft_current_def)

lemma draft_current_step:
  assumes "draft_current st"
  shows "draft_current (wizard_step st e)"
proof -
  have "draft_current (st\<lparr>wz_completed := True, wz_draft := None, wz_hasDraft := False\<rparr>)" "wz_link st = None"
    using assms by (simp_all add: draft_current_def)
  then show ?thesis using assms
    by (cases "fst e"; cases "wz_review st")
       (simp_all add: wizard_step_def wizard_act_def Let_def draft_current_goto draft_current_changed draft_current_frame)
qed

interpretation drafts: step_system wizard_step draft_current
  by unfold_locales (rule draft_current_step)

text \<open>A reload within a day resumes the wizard where it was.\<close>

lemma draft_resumes:
  assumes "wz_draft (run_steps wizard_step (mountWizard t0 c None None) es) = Some (v, ts, d)" and "now - ts \<le> DRAFT_TTL_MS"
  shows "wz_data (mountWizard now c None (Some (v, ts, d))) = wz_data (run_steps wizard_step (mountWizard t0 c None None) es)"
proof -
  have "draft_current (run_steps wizard_step (mountWizard t0 c None None) es)"
    by (rule drafts.run_inv) (simp add: draft_current_def mountWizard_def checkDraft_def restoreDraft_def wizard_blank_def)
  then show ?thesis using assms
    by (simp add: draft_current_def mountWizard_def checkDraft_def restoreDraft_def wizard_blank_def mountReview_def Let_def)
qed

end
