(* ===== verification/Staging.thy ===== *)
theory Staging
  imports Js_Prelude "HOL-Library.AList"
begin

text \<open>
  The copy of production data for staging: the transformation of each table (\<open>staging/anonymization.transform.ts\<close>), the sync that
  applies them (\<open>maintenance/staging-data-sync.service.ts\<close>) and the job that schedules it (\<open>maintenance/staging-data-sync.job.ts\<close>),
  against the field-by-field classes of \<open>staging/ANONYMIZATION_RULES.md\<close>, which are data here: copied, replaced, turned into a token, dropped.
  The formulas of the replacements are those of the code; the document describes other formats for addresses, names and purchases.

  A row is its list of fields; a table is in the order of its query, newest first. The digest is an argument.
\<close>

section \<open>The context and its functions\<close>

datatype cell = CStr string | CInt int | CNull | CRaw string

type_synonym table_row = "(string \<times> cell) list"
type_synonym staged_row = "(string \<times> cell option) list"

definition cell_of :: "table_row \<Rightarrow> string \<Rightarrow> cell option" where
  "cell_of row k = map_of row k"

record anon_ctx =
  walletMap :: "string \<rightharpoonup> string"
  emailMap :: "string \<rightharpoonup> string"
  idMap :: "cell option \<rightharpoonup> string"

type_synonym 'a anon = "(anon_ctx, string, 'a) se"

definition createAnonymizationContext :: anon_ctx where
  "createAnonymizationContext = \<lparr>walletMap = Map.empty, emailMap = Map.empty, idMap = Map.empty\<rparr>"

definition deterministicHash :: "(string \<Rightarrow> string) \<Rightarrow> string \<Rightarrow> string \<Rightarrow> nat \<Rightarrow> string" where
  "deterministicHash sha v prefix maxLen = prefix @ take (maxLen - length prefix) (sha v)"

definition hash_arg_error :: string where
  "hash_arg_error = ''ERR_INVALID_ARG_TYPE''"

definition anonymizeWallet :: "(string \<Rightarrow> string) \<Rightarrow> cell option \<Rightarrow> string anon" where
  "anonymizeWallet sha v ctx = (case v of
     Some (CStr wallet) \<Rightarrow>
       (case walletMap ctx wallet of
          Some a \<Rightarrow> (Inr a, ctx)
        | None \<Rightarrow> (let a = ''G'' @ deterministicHash sha wallet '''' 55 in (Inr a, ctx\<lparr>walletMap := (walletMap ctx)(wallet \<mapsto> a)\<rparr>)))
   | _ \<Rightarrow> (Inl hash_arg_error, ctx))"

definition anonymizeEmail :: "(string \<Rightarrow> string) \<Rightarrow> cell option \<Rightarrow> string anon" where
  "anonymizeEmail sha v ctx = (case v of
     Some (CStr email) \<Rightarrow>
       (case emailMap ctx email of
          Some a \<Rightarrow> (Inr a, ctx)
        | None \<Rightarrow> (let a = ''user_'' @ deterministicHash sha email '''' 12 @ ''@staging.example.com''
                   in (Inr a, ctx\<lparr>emailMap := (emailMap ctx)(email \<mapsto> a)\<rparr>)))
   | _ \<Rightarrow> (Inl hash_arg_error, ctx))"

definition anonymizeName :: "(string \<Rightarrow> string) \<Rightarrow> cell option \<Rightarrow> string anon" where
  "anonymizeName sha v ctx = (case v of
     Some (CStr n) \<Rightarrow> (Inr (''User_'' @ deterministicHash sha n '''' 8), ctx)
   | _ \<Rightarrow> (Inl hash_arg_error, ctx))"

definition syntheticPurchase :: "(string \<Rightarrow> string) \<Rightarrow> cell option \<Rightarrow> string anon" where
  "syntheticPurchase sha v ctx = (case v of
     Some (CStr p) \<Rightarrow> (Inr (deterministicHash sha p ''synth_'' 20), ctx)
   | _ \<Rightarrow> (Inl hash_arg_error, ctx))"

text \<open>\<open>String(id)\<close>.\<close>

definition cell_string :: "cell option \<Rightarrow> string" where
  "cell_string v = (case v of None \<Rightarrow> ''undefined'' | Some CNull \<Rightarrow> ''null'' | Some (CStr s) \<Rightarrow> s | Some (CInt n) \<Rightarrow> show_int n | Some (CRaw s) \<Rightarrow> s)"

definition id_token :: "(string \<Rightarrow> string) \<Rightarrow> cell option \<Rightarrow> string" where
  "id_token sha v = ''tok_'' @ deterministicHash sha (cell_string v) '''' 20"

definition tokenizeId :: "(string \<Rightarrow> string) \<Rightarrow> cell option \<Rightarrow> string anon" where
  "tokenizeId sha v ctx = (case idMap ctx v of
     Some t \<Rightarrow> (Inr t, ctx)
   | None \<Rightarrow> (Inr (id_token sha v), ctx\<lparr>idMap := (idMap ctx)(v \<mapsto> id_token sha v)\<rparr>))"

text \<open>\<open>v || d\<close>.\<close>

definition or_default :: "cell option \<Rightarrow> string \<Rightarrow> cell option" where
  "or_default v d = (if v \<in> {None, Some CNull, Some (CStr []), Some (CInt 0)} then Some (CStr d) else v)"

section \<open>The tables\<close>

text \<open>An object literal: its fields are evaluated in their order.\<close>

fun build_row :: "(string \<times> cell option anon) list \<Rightarrow> staged_row anon" where
  "build_row [] = se_return []"
| "build_row ((k, f) # fs) = se_bind f (\<lambda>v. se_bind (build_row fs) (\<lambda>r. se_return ((k, v) # r)))"

definition keep :: "table_row \<Rightarrow> string \<Rightarrow> string \<times> cell option anon" where
  "keep row k = (k, se_return (cell_of row k))"

definition as_text :: "string anon \<Rightarrow> cell option anon" where
  "as_text f = se_bind f (\<lambda>s. se_return (Some (CStr s)))"

fun anon_rows :: "(table_row \<Rightarrow> staged_row anon) \<Rightarrow> table_row list \<Rightarrow> staged_row list anon" where
  "anon_rows f [] = se_return []"
| "anon_rows f (row # rows) = se_bind (f row) (\<lambda>r. se_bind (anon_rows f rows) (\<lambda>rs. se_return (r # rs)))"

definition anonymizePolicy :: "(string \<Rightarrow> string) \<Rightarrow> table_row \<Rightarrow> staged_row anon" where
  "anonymizePolicy sha policy =
     se_bind (tokenizeId sha (cell_of policy ''id'')) (\<lambda>i.
     se_bind (anonymizeWallet sha (cell_of policy ''holderAddress'')) (\<lambda>w.
     se_return (AList.update ''holderAddress'' (Some (CStr w)) (AList.update ''id'' (Some (CStr i)) (map (apsnd Some) policy)))))"

definition anonymizeClaim :: "(string \<Rightarrow> string) \<Rightarrow> table_row \<Rightarrow> staged_row anon" where
  "anonymizeClaim sha claim = build_row [
     keep claim ''id'',
     (''policyId'', as_text (tokenizeId sha (cell_of claim ''policyId''))),
     (''creatorAddress'', as_text (anonymizeWallet sha (cell_of claim ''creatorAddress''))),
     keep claim ''amount'', keep claim ''asset'', keep claim ''status'', keep claim ''severity'', keep claim ''isFinalized'',
     keep claim ''approveVotes'', keep claim ''rejectVotes'', keep claim ''paidAt'', keep claim ''createdAtLedger'',
     keep claim ''updatedAtLedger'', keep claim ''createdAt'', keep claim ''updatedAt'', keep claim ''tenantId'',
     keep claim ''deletedAt'', keep claim ''appealsCount'']"

definition anonymizeVote :: "(string \<Rightarrow> string) \<Rightarrow> table_row \<Rightarrow> staged_row anon" where
  "anonymizeVote sha vote = build_row [
     keep vote ''id'', keep vote ''claimId'', keep vote ''vote'', keep vote ''votingPower'', keep vote ''votedAtLedger'',
     keep vote ''createdAt'', keep vote ''deletedAt'']"

definition anonymizeHolderProfile :: "(string \<Rightarrow> string) \<Rightarrow> table_row \<Rightarrow> staged_row anon" where
  "anonymizeHolderProfile sha profile = build_row [
     (''walletAddress'', as_text (anonymizeWallet sha (cell_of profile ''walletAddress''))),
     (''displayName'', as_text (anonymizeName sha (or_default (cell_of profile ''displayName'') ''Unknown''))),
     (''email'', as_text (anonymizeEmail sha (or_default (cell_of profile ''email'') ''noemail@staging.example.com''))),
     keep profile ''locale'', keep profile ''notificationPreferences'', keep profile ''createdAt'', keep profile ''updatedAt'',
     keep profile ''lastSeenAt'']"

definition anonymizeSupportTicket :: "(string \<Rightarrow> string) \<Rightarrow> table_row \<Rightarrow> staged_row anon" where
  "anonymizeSupportTicket sha ticket = build_row [
     keep ticket ''id'', (''email'', as_text (anonymizeEmail sha (cell_of ticket ''email''))), keep ticket ''status'',
     keep ticket ''firstRespondedAt'', keep ticket ''createdAt'', keep ticket ''updatedAt'']"

definition anonymizeSupportTicketReply :: "(string \<Rightarrow> string) \<Rightarrow> table_row \<Rightarrow> staged_row anon" where
  "anonymizeSupportTicketReply sha reply = build_row [
     keep reply ''id'', (''ticketId'', as_text (tokenizeId sha (cell_of reply ''ticketId''))), keep reply ''author'', keep reply ''createdAt'']"

definition anonymizeNotification :: "(string \<Rightarrow> string) \<Rightarrow> table_row \<Rightarrow> staged_row anon" where
  "anonymizeNotification sha notif = build_row [
     keep notif ''id'', (''userId'', as_text (anonymizeWallet sha (cell_of notif ''userId''))), keep notif ''type'', keep notif ''payload'',
     keep notif ''acknowledgedAt'', keep notif ''expiresAt'', keep notif ''createdAt'']"

definition anonymizeNotificationPreference :: "(string \<Rightarrow> string) \<Rightarrow> table_row \<Rightarrow> staged_row anon" where
  "anonymizeNotificationPreference sha pref = build_row [
     (''userId'', as_text (anonymizeWallet sha (cell_of pref ''userId''))), keep pref ''renewalRemindersEnabled'',
     keep pref ''claimUpdatesEnabled'', keep pref ''createdAt'', keep pref ''updatedAt'']"

definition anonymizeRampTransaction :: "(string \<Rightarrow> string) \<Rightarrow> table_row \<Rightarrow> staged_row anon" where
  "anonymizeRampTransaction sha txn = build_row [
     keep txn ''id'', (''purchaseId'', as_text (syntheticPurchase sha (cell_of txn ''purchaseId''))), keep txn ''status'',
     (''receiverAddress'', as_text (anonymizeWallet sha (cell_of txn ''receiverAddress''))), keep txn ''cryptoAmount'',
     keep txn ''cryptoCurrency'', keep txn ''fiatValue'', keep txn ''fiatCurrency'', keep txn ''lastSyncedAt'', keep txn ''createdAt'',
     keep txn ''updatedAt'']"

definition anonymizeClaimComment :: "(string \<Rightarrow> string) \<Rightarrow> table_row \<Rightarrow> staged_row anon" where
  "anonymizeClaimComment sha comment = build_row [
     keep comment ''id'', (''claimId'', as_text (tokenizeId sha (cell_of comment ''claimId''))),
     (''authorAddress'', as_text (anonymizeWallet sha (cell_of comment ''authorAddress''))), keep comment ''createdAt'', keep comment ''deletedAt'']"

definition anonymizeEvidence :: "(string \<Rightarrow> string) \<Rightarrow> table_row \<Rightarrow> staged_row anon" where
  "anonymizeEvidence sha ev = build_row [
     keep ev ''id'', (''claimId'', as_text (tokenizeId sha (cell_of ev ''claimId''))), keep ev ''createdAt'']"

definition anonymizeRegisteredVoter :: "(string \<Rightarrow> string) \<Rightarrow> table_row \<Rightarrow> staged_row anon" where
  "anonymizeRegisteredVoter sha voter = build_row [
     (''walletAddress'', as_text (anonymizeWallet sha (cell_of voter ''walletAddress''))),
     (''displayName'', as_text (anonymizeName sha (or_default (cell_of voter ''displayName'') ''Voter''))),
     (''registeredBy'', as_text (anonymizeWallet sha (cell_of voter ''registeredBy''))), keep voter ''registeredAt'']"

definition anonymizePost :: "(string \<Rightarrow> string) \<Rightarrow> table_row \<Rightarrow> staged_row anon" where
  "anonymizePost sha post = build_row [
     keep post ''id'', keep post ''status'', (''authorAddress'', as_text (anonymizeWallet sha (cell_of post ''authorAddress''))),
     keep post ''publishAt'', keep post ''createdAt'', keep post ''updatedAt'', keep post ''deletedAt'']"

section \<open>The sync\<close>

record prod_db =
  pd_claims :: "table_row list"
  pd_policies :: "table_row list"
  pd_votes :: "table_row list"
  pd_profiles :: "table_row list"
  pd_tickets :: "table_row list"
  pd_replies :: "table_row list"
  pd_notifications :: "table_row list"
  pd_prefs :: "table_row list"
  pd_ramps :: "table_row list"
  pd_comments :: "table_row list"
  pd_evidence :: "table_row list"
  pd_voters :: "table_row list"
  pd_posts :: "table_row list"

definition sample_claims :: "prod_db \<Rightarrow> table_row list" where
  "sample_claims db = take 1000 (pd_claims db)"

definition related_policies :: "prod_db \<Rightarrow> table_row list" where
  "related_policies db = filter (\<lambda>p. cell_of p ''id'' \<in> set (map (\<lambda>c. cell_of c ''policyId'') (sample_claims db))) (pd_policies db)"

definition related_votes :: "prod_db \<Rightarrow> table_row list" where
  "related_votes db = filter (\<lambda>v. cell_of v ''claimId'' \<in> set (map (\<lambda>c. cell_of c ''id'') (sample_claims db))) (pd_votes db)"

text \<open>The steps of \<open>sync\<close>, in order, over one context.\<close>

definition sync_plan :: "(string \<Rightarrow> string) \<Rightarrow> prod_db \<Rightarrow> (string \<times> staged_row list anon) list" where
  "sync_plan sha db = [
     (''claims'', anon_rows (anonymizeClaim sha) (sample_claims db)),
     (''policies'', anon_rows (anonymizePolicy sha) (related_policies db)),
     (''votes'', anon_rows (anonymizeVote sha) (related_votes db)),
     (''holder_profiles'', anon_rows (anonymizeHolderProfile sha) (take 500 (pd_profiles db))),
     (''support_tickets'', anon_rows (anonymizeSupportTicket sha) (take 500 (pd_tickets db))),
     (''support_ticket_replies'', anon_rows (anonymizeSupportTicketReply sha) (take 1000 (pd_replies db))),
     (''notifications'', anon_rows (anonymizeNotification sha) (take 1000 (pd_notifications db))),
     (''notification_preferences'', anon_rows (anonymizeNotificationPreference sha) (pd_prefs db)),
     (''ramp_transactions'', anon_rows (anonymizeRampTransaction sha) (take 1000 (pd_ramps db))),
     (''claim_comments'', anon_rows (anonymizeClaimComment sha) (take 1000 (pd_comments db))),
     (''evidence_metadata'', anon_rows (anonymizeEvidence sha) (take 1000 (pd_evidence db))),
     (''registered_voters'', anon_rows (anonymizeRegisteredVoter sha) (pd_voters db)),
     (''posts'', anon_rows (anonymizePost sha) (take 1000 (pd_posts db)))]"

fun run_tables :: "(string \<times> staged_row list anon) list \<Rightarrow> (string \<times> staged_row list) list anon" where
  "run_tables [] = se_return []"
| "run_tables ((t, f) # ts) = se_bind f (\<lambda>rows. se_bind (run_tables ts) (\<lambda>r. se_return ((t, rows) # r)))"

record sync_stats =
  st_tablesProcessed :: "string list"
  st_rowsPerTable :: "(string \<times> nat) list"
  st_totalRows :: nat

text \<open>The transformed rows are counted and dropped: the statistics are all that is returned.\<close>

definition staging_sync :: "(string \<Rightarrow> string) \<Rightarrow> prod_db \<Rightarrow> string + sync_stats" where
  "staging_sync sha db = (case fst (run_tables (sync_plan sha db) createAnonymizationContext) of
     Inl e \<Rightarrow> Inl e
   | Inr ts \<Rightarrow> Inr \<lparr>st_tablesProcessed = map fst ts, st_rowsPerTable = map (\<lambda>(t, rows). (t, length rows)) ts,
        st_totalRows = sum_list (map (\<lambda>(t, rows). length rows) ts)\<rparr>)"

section \<open>The job\<close>

definition JOB_NAME :: string where "JOB_NAME = ''sync-anonymized-data''"
definition REPEATABLE_JOB_KEY :: string where "REPEATABLE_JOB_KEY = ''staging-data-sync-scheduled''"
definition DEFAULT_SYNC_SCHEDULE_CRON :: string where "DEFAULT_SYNC_SCHEDULE_CRON = ''0 2 * * *''"

record repeatable =
  rj_key :: string
  rj_name :: string
  rj_pattern :: string

text \<open>The variable is not one of the validated ones, so the configuration holds the text of the environment, which is tested as a boolean. The
  queue gives a new repeatable job its key.\<close>

definition staging_enabled :: "string option \<Rightarrow> bool" where
  "staging_enabled v = (case v of None \<Rightarrow> False | Some s \<Rightarrow> s \<noteq> [])"

definition staging_onModuleInit :: "string option \<Rightarrow> string option \<Rightarrow> (string \<Rightarrow> string) \<Rightarrow> repeatable list \<Rightarrow> repeatable list" where
  "staging_onModuleInit enabled cron new_key jobs =
     (if \<not> staging_enabled enabled then jobs
      else (let p = (case cron of None \<Rightarrow> DEFAULT_SYNC_SCHEDULE_CRON | Some c \<Rightarrow> if c = [] then DEFAULT_SYNC_SCHEDULE_CRON else c)
            in filter (\<lambda>r. \<not> (rj_key r = REPEATABLE_JOB_KEY \<or> rj_name r = JOB_NAME)) jobs @ [\<lparr>rj_key = new_key p, rj_name = JOB_NAME, rj_pattern = p\<rparr>]))"

section \<open>The rules\<close>

datatype rule = SAFE | WALLET | EMAIL "string option" | NAME string | PURCHASE | TOKENIZE | DROP

definition rules_claims :: "(string \<times> rule) list" where
  "rules_claims = [(''id'', SAFE), (''policyId'', TOKENIZE), (''creatorAddress'', WALLET), (''amount'', SAFE), (''asset'', SAFE), (''description'', DROP),
     (''imageUrls'', DROP), (''status'', SAFE), (''severity'', SAFE), (''isFinalized'', SAFE), (''approveVotes'', SAFE), (''rejectVotes'', SAFE),
     (''paidAt'', SAFE), (''createdAtLedger'', SAFE), (''updatedAtLedger'', SAFE), (''txHash'', DROP), (''eventIndex'', DROP), (''createdAt'', SAFE),
     (''updatedAt'', SAFE), (''tenantId'', SAFE), (''deletedAt'', SAFE), (''appealsCount'', SAFE), (''appealTxHash'', DROP)]"

definition rules_votes :: "(string \<times> rule) list" where
  "rules_votes = [(''id'', SAFE), (''claimId'', TOKENIZE), (''voterAddress'', DROP), (''vote'', SAFE), (''votingPower'', SAFE), (''txHash'', DROP),
     (''eventIndex'', DROP), (''votedAtLedger'', SAFE), (''createdAt'', SAFE), (''deletedAt'', SAFE)]"

definition rules_policies :: "(string \<times> rule) list" where
  "rules_policies = [(''id'', TOKENIZE), (''policyId'', SAFE), (''holderAddress'', WALLET), (''policyType'', SAFE), (''region'', SAFE),
     (''coverageAmount'', SAFE), (''premium'', SAFE), (''isActive'', SAFE), (''startLedger'', SAFE), (''endLedger'', SAFE), (''assetContractId'', SAFE),
     (''txHash'', DROP), (''eventIndex'', DROP), (''createdAt'', SAFE), (''updatedAt'', SAFE), (''tenantId'', SAFE), (''deletedAt'', SAFE)]"

definition rules_profiles :: "(string \<times> rule) list" where
  "rules_profiles = [(''walletAddress'', WALLET), (''displayName'', NAME ''Unknown''), (''email'', EMAIL (Some ''noemail@staging.example.com'')),
     (''locale'', SAFE), (''notificationPreferences'', SAFE), (''createdAt'', SAFE), (''updatedAt'', SAFE), (''lastSeenAt'', SAFE)]"

definition rules_tickets :: "(string \<times> rule) list" where
  "rules_tickets = [(''id'', SAFE), (''email'', EMAIL None), (''subject'', DROP), (''message'', DROP), (''ipHash'', DROP), (''status'', SAFE),
     (''assignedTo'', DROP), (''firstRespondedAt'', SAFE), (''createdAt'', SAFE), (''updatedAt'', SAFE)]"

definition rules_replies :: "(string \<times> rule) list" where
  "rules_replies = [(''id'', SAFE), (''ticketId'', TOKENIZE), (''message'', DROP), (''author'', SAFE), (''createdAt'', SAFE)]"

definition rules_notifications :: "(string \<times> rule) list" where
  "rules_notifications = [(''id'', SAFE), (''userId'', WALLET), (''type'', SAFE), (''payload'', SAFE), (''acknowledgedAt'', SAFE), (''expiresAt'', SAFE),
     (''createdAt'', SAFE)]"

definition rules_prefs :: "(string \<times> rule) list" where
  "rules_prefs = [(''userId'', WALLET), (''renewalRemindersEnabled'', SAFE), (''claimUpdatesEnabled'', SAFE), (''createdAt'', SAFE), (''updatedAt'', SAFE)]"

definition rules_ramps :: "(string \<times> rule) list" where
  "rules_ramps = [(''id'', SAFE), (''purchaseId'', PURCHASE), (''status'', SAFE), (''receiverAddress'', WALLET), (''cryptoAmount'', SAFE),
     (''cryptoCurrency'', SAFE), (''fiatValue'', SAFE), (''fiatCurrency'', SAFE), (''finalTxHash'', DROP), (''lastSyncedAt'', SAFE), (''createdAt'', SAFE),
     (''updatedAt'', SAFE)]"

definition rules_comments :: "(string \<times> rule) list" where
  "rules_comments = [(''id'', SAFE), (''claimId'', TOKENIZE), (''authorAddress'', WALLET), (''body'', DROP), (''createdAt'', SAFE), (''deletedAt'', SAFE)]"

definition rules_evidence :: "(string \<times> rule) list" where
  "rules_evidence = [(''id'', SAFE), (''claimId'', TOKENIZE), (''cid'', DROP), (''url'', DROP), (''fileSizeBytes'', DROP), (''mimeType'', DROP),
     (''createdAt'', SAFE)]"

definition rules_voters :: "(string \<times> rule) list" where
  "rules_voters = [(''walletAddress'', WALLET), (''displayName'', NAME ''Voter''), (''registeredBy'', WALLET), (''registeredAt'', SAFE)]"

definition rules_posts :: "(string \<times> rule) list" where
  "rules_posts = [(''id'', SAFE), (''title'', DROP), (''body'', DROP), (''status'', SAFE), (''authorAddress'', WALLET), (''publishAt'', SAFE),
     (''createdAt'', SAFE), (''updatedAt'', SAFE), (''deletedAt'', SAFE)]"

text \<open>What the code does to a field of a class, without a context: it is copied, left out, or becomes a function of its digest alone.\<close>

definition digest_of :: "(string \<Rightarrow> string) \<Rightarrow> (string \<Rightarrow> string) \<Rightarrow> cell option \<Rightarrow> string + cell option" where
  "digest_of sha f v = (case v of Some (CStr s) \<Rightarrow> Inr (Some (CStr (f (sha s)))) | _ \<Rightarrow> Inl hash_arg_error)"

definition apply_rule :: "(string \<Rightarrow> string) \<Rightarrow> rule \<Rightarrow> cell option \<Rightarrow> string + cell option" where
  "apply_rule sha r v = (case r of
     SAFE \<Rightarrow> Inr v
   | WALLET \<Rightarrow> digest_of sha (\<lambda>h. ''G'' @ take 55 h) v
   | EMAIL d \<Rightarrow> digest_of sha (\<lambda>h. ''user_'' @ take 12 h @ ''@staging.example.com'') (case d of None \<Rightarrow> v | Some e \<Rightarrow> or_default v e)
   | NAME d \<Rightarrow> digest_of sha (\<lambda>h. ''User_'' @ take 8 h) (or_default v d)
   | PURCHASE \<Rightarrow> digest_of sha (\<lambda>h. ''synth_'' @ take 14 h) v
   | TOKENIZE \<Rightarrow> Inr (Some (CStr (''tok_'' @ take 20 (sha (cell_string v)))))
   | DROP \<Rightarrow> Inr None)"

fun by_rules :: "(string \<Rightarrow> string) \<Rightarrow> (string \<times> rule) list \<Rightarrow> table_row \<Rightarrow> string + staged_row" where
  "by_rules sha [] row = Inr []"
| "by_rules sha ((k, r) # rs) row =
     (if r = DROP then by_rules sha rs row
      else (case apply_rule sha r (cell_of row k) of
              Inl e \<Rightarrow> Inl e
            | Inr v \<Rightarrow> (case by_rules sha rs row of Inl e \<Rightarrow> Inl e | Inr out \<Rightarrow> Inr ((k, v) # out))))"

fun rows_with :: "(table_row \<Rightarrow> string + staged_row) \<Rightarrow> table_row list \<Rightarrow> string + staged_row list" where
  "rows_with g [] = Inr []"
| "rows_with g (row # rows) = (case g row of Inl e \<Rightarrow> Inl e | Inr r \<Rightarrow> (case rows_with g rows of Inl e \<Rightarrow> Inl e | Inr rs \<Rightarrow> Inr (r # rs)))"

section \<open>The context does not show\<close>

definition ctx_ok :: "(string \<Rightarrow> string) \<Rightarrow> anon_ctx \<Rightarrow> bool" where
  "ctx_ok sha ctx = ((\<forall>w a. walletMap ctx w = Some a \<longrightarrow> a = ''G'' @ take 55 (sha w)) \<and>
     (\<forall>m a. emailMap ctx m = Some a \<longrightarrow> a = ''user_'' @ take 12 (sha m) @ ''@staging.example.com'') \<and>
     (\<forall>i t. idMap ctx i = Some t \<longrightarrow> t = ''tok_'' @ take 20 (sha (cell_string i))))"

definition computes :: "(string \<Rightarrow> string) \<Rightarrow> 'a anon \<Rightarrow> string + 'a \<Rightarrow> bool" where
  "computes sha f r = (\<forall>ctx. ctx_ok sha ctx \<longrightarrow> fst (f ctx) = r \<and> ctx_ok sha (snd (f ctx)))"

lemma computesI: "(\<And>ctx. ctx_ok sha ctx \<Longrightarrow> fst (f ctx) = r \<and> ctx_ok sha (snd (f ctx))) \<Longrightarrow> computes sha f r"
  by (simp add: computes_def)

lemma computes_return: "computes sha (se_return a) (Inr a)"
  by (simp add: computes_def)

lemma computes_bind:
  assumes "computes sha m r" and "\<And>a. computes sha (k a) (g a)"
  shows "computes sha (se_bind m k) (case r of Inl e \<Rightarrow> Inl e | Inr a \<Rightarrow> g a)"
proof (rule computesI)
  fix ctx assume ok: "ctx_ok sha ctx"
  have m: "fst (m ctx) = r" "ctx_ok sha (snd (m ctx))" using assms(1) ok by (simp_all add: computes_def)
  show "fst (se_bind m k ctx) = (case r of Inl e \<Rightarrow> Inl e | Inr a \<Rightarrow> g a) \<and> ctx_ok sha (snd (se_bind m k ctx))"
    using m assms(2) by (cases "m ctx"; cases r) (auto simp: se_bind_def computes_def)
qed

lemma computes_wallet: "computes sha (anonymizeWallet sha v) (case v of Some (CStr s) \<Rightarrow> Inr (''G'' @ take 55 (sha s)) | _ \<Rightarrow> Inl hash_arg_error)"
  by (rule computesI) (auto simp: anonymizeWallet_def deterministicHash_def ctx_ok_def Let_def split: option.split cell.split)

lemma computes_email: "computes sha (anonymizeEmail sha v)
    (case v of Some (CStr s) \<Rightarrow> Inr (''user_'' @ take 12 (sha s) @ ''@staging.example.com'') | _ \<Rightarrow> Inl hash_arg_error)"
  by (rule computesI) (auto simp: anonymizeEmail_def deterministicHash_def ctx_ok_def Let_def split: option.split cell.split)

lemma computes_name: "computes sha (anonymizeName sha v) (case v of Some (CStr s) \<Rightarrow> Inr (''User_'' @ take 8 (sha s)) | _ \<Rightarrow> Inl hash_arg_error)"
  by (rule computesI) (auto simp: anonymizeName_def deterministicHash_def split: option.split cell.split)

lemma computes_purchase:
  "computes sha (syntheticPurchase sha v) (case v of Some (CStr s) \<Rightarrow> Inr (''synth_'' @ take 14 (sha s)) | _ \<Rightarrow> Inl hash_arg_error)"
  by (rule computesI) (auto simp: syntheticPurchase_def deterministicHash_def split: option.split cell.split)

lemma computes_token: "computes sha (tokenizeId sha v) (Inr (''tok_'' @ take 20 (sha (cell_string v))))"
  by (rule computesI) (auto simp: tokenizeId_def id_token_def deterministicHash_def ctx_ok_def split: option.split)

lemma computes_as_text:
  assumes "computes sha f r" and "v = (case r of Inl e \<Rightarrow> Inl e | Inr s \<Rightarrow> Inr (Some (CStr s)))"
  shows "computes sha (as_text f) v"
  unfolding as_text_def assms(2) by (rule computes_bind [OF assms(1) computes_return])

text \<open>Each way to fill a field does what one rule asks for.\<close>

lemma field_keep: "computes sha (se_return (cell_of row k)) (apply_rule sha SAFE (cell_of row k))"
  by (simp add: apply_rule_def computes_return)

lemma field_wallet: "computes sha (as_text (anonymizeWallet sha v)) (apply_rule sha WALLET v)"
  by (rule computes_as_text [OF computes_wallet]) (simp add: apply_rule_def digest_of_def split: option.split cell.split)

lemma field_email: "computes sha (as_text (anonymizeEmail sha v)) (apply_rule sha (EMAIL None) v)"
  "computes sha (as_text (anonymizeEmail sha (or_default v d))) (apply_rule sha (EMAIL (Some d)) v)"
  by (rule computes_as_text [OF computes_email], simp add: apply_rule_def digest_of_def split: option.split cell.split)+

lemma field_name: "computes sha (as_text (anonymizeName sha (or_default v d))) (apply_rule sha (NAME d) v)"
  by (rule computes_as_text [OF computes_name]) (simp add: apply_rule_def digest_of_def split: option.split cell.split)

lemma field_purchase: "computes sha (as_text (syntheticPurchase sha v)) (apply_rule sha PURCHASE v)"
  by (rule computes_as_text [OF computes_purchase]) (simp add: apply_rule_def digest_of_def split: option.split cell.split)

lemma field_token: "computes sha (as_text (tokenizeId sha v)) (apply_rule sha TOKENIZE v)"
  by (rule computes_as_text [OF computes_token]) (simp add: apply_rule_def)

lemmas field_rules = field_keep field_wallet field_email field_name field_purchase field_token

lemma row_nil: "computes sha (build_row []) (by_rules sha [] row)"
  by (simp add: computes_return)

lemma row_drop: "computes sha (build_row fs) (by_rules sha rs row) \<Longrightarrow> computes sha (build_row fs) (by_rules sha ((k, DROP) # rs) row)"
  by simp

lemma row_cons:
  assumes "r \<noteq> DROP" and "computes sha f (apply_rule sha r (cell_of row k))" and "computes sha (build_row fs) (by_rules sha rs row)"
  shows "computes sha (build_row ((k, f) # fs)) (by_rules sha ((k, r) # rs) row)"
proof -
  have "computes sha (se_bind f (\<lambda>v. se_bind (build_row fs) (\<lambda>out. se_return ((k, v) # out))))
      (case apply_rule sha r (cell_of row k) of Inl e \<Rightarrow> Inl e
       | Inr v \<Rightarrow> (case by_rules sha rs row of Inl e \<Rightarrow> Inl e | Inr out \<Rightarrow> Inr ((k, v) # out)))"
    by (rule computes_bind [OF assms(2) computes_bind [OF assms(3) computes_return]])
  then show ?thesis using assms(1) by simp
qed

lemma rule_kept: "SAFE \<noteq> DROP" "WALLET \<noteq> DROP" "EMAIL d \<noteq> DROP" "NAME n \<noteq> DROP" "PURCHASE \<noteq> DROP" "TOKENIZE \<noteq> DROP"
  by simp_all

lemmas row_intros = row_nil row_drop row_cons [OF rule_kept(1) field_keep] row_cons [OF rule_kept(2) field_wallet]
  row_cons [OF rule_kept(3) field_email(1)] row_cons [OF rule_kept(3) field_email(2)] row_cons [OF rule_kept(4) field_name]
  row_cons [OF rule_kept(5) field_purchase] row_cons [OF rule_kept(6) field_token]

section \<open>Tables by their rules\<close>

text \<open>A table whose row function is the one of its rules.\<close>

locale rule_table =
  fixes sha :: "string \<Rightarrow> string"
    and f :: "table_row \<Rightarrow> staged_row anon"
    and rules :: "(string \<times> rule) list"
  assumes by_row: "computes sha (f row) (by_rules sha rules row)"
begin

lemma by_table: "computes sha (anon_rows f rows) (rows_with (by_rules sha rules) rows)"
proof (induction rows)
  case Nil
  show ?case unfolding anon_rows.simps rows_with.simps by (rule computes_return)
next
  case (Cons row rows)
  have "computes sha (se_bind (f row) (\<lambda>r. se_bind (anon_rows f rows) (\<lambda>rs. se_return (r # rs))))
      (case by_rules sha rules row of Inl e \<Rightarrow> Inl e | Inr r \<Rightarrow> (case rows_with (by_rules sha rules) rows of Inl e \<Rightarrow> Inl e | Inr rs \<Rightarrow> Inr (r # rs)))"
    by (rule computes_bind [OF by_row computes_bind [OF Cons.IH computes_return]])
  then show ?case by simp
qed

end

interpretation claims: rule_table sha "anonymizeClaim sha" rules_claims for sha
  by unfold_locales (unfold anonymizeClaim_def rules_claims_def keep_def, intro row_intros)

interpretation profiles: rule_table sha "anonymizeHolderProfile sha" rules_profiles for sha
  by unfold_locales (unfold anonymizeHolderProfile_def rules_profiles_def keep_def, intro row_intros)

interpretation tickets: rule_table sha "anonymizeSupportTicket sha" rules_tickets for sha
  by unfold_locales (unfold anonymizeSupportTicket_def rules_tickets_def keep_def, intro row_intros)

interpretation replies: rule_table sha "anonymizeSupportTicketReply sha" rules_replies for sha
  by unfold_locales (unfold anonymizeSupportTicketReply_def rules_replies_def keep_def, intro row_intros)

interpretation notifications: rule_table sha "anonymizeNotification sha" rules_notifications for sha
  by unfold_locales (unfold anonymizeNotification_def rules_notifications_def keep_def, intro row_intros)

interpretation prefs: rule_table sha "anonymizeNotificationPreference sha" rules_prefs for sha
  by unfold_locales (unfold anonymizeNotificationPreference_def rules_prefs_def keep_def, intro row_intros)

interpretation ramps: rule_table sha "anonymizeRampTransaction sha" rules_ramps for sha
  by unfold_locales (unfold anonymizeRampTransaction_def rules_ramps_def keep_def, intro row_intros)

interpretation comments: rule_table sha "anonymizeClaimComment sha" rules_comments for sha
  by unfold_locales (unfold anonymizeClaimComment_def rules_comments_def keep_def, intro row_intros)

interpretation evidence: rule_table sha "anonymizeEvidence sha" rules_evidence for sha
  by unfold_locales (unfold anonymizeEvidence_def rules_evidence_def keep_def, intro row_intros)

interpretation voters: rule_table sha "anonymizeRegisteredVoter sha" rules_voters for sha
  by unfold_locales (unfold anonymizeRegisteredVoter_def rules_voters_def keep_def, intro row_intros)

interpretation posts: rule_table sha "anonymizePost sha" rules_posts for sha
  by unfold_locales (unfold anonymizePost_def rules_posts_def keep_def, intro row_intros)

text \<open>The two tables that do not follow theirs: the votes keep the id of the claim, the policies every field but two.\<close>

definition coded_votes :: "(string \<times> rule) list" where
  "coded_votes = [(''id'', SAFE), (''claimId'', SAFE), (''vote'', SAFE), (''votingPower'', SAFE), (''votedAtLedger'', SAFE), (''createdAt'', SAFE), (''deletedAt'', SAFE)]"

interpretation votes: rule_table sha "anonymizeVote sha" coded_votes for sha
  by unfold_locales (unfold anonymizeVote_def coded_votes_def keep_def, intro row_intros)

definition coded_policy :: "(string \<Rightarrow> string) \<Rightarrow> table_row \<Rightarrow> string + staged_row" where
  "coded_policy sha policy = (case cell_of policy ''holderAddress'' of
     Some (CStr h) \<Rightarrow> Inr (AList.update ''holderAddress'' (Some (CStr (''G'' @ take 55 (sha h))))
       (AList.update ''id'' (Some (CStr (''tok_'' @ take 20 (sha (cell_string (cell_of policy ''id'')))))) (map (apsnd Some) policy)))
   | _ \<Rightarrow> Inl hash_arg_error)"

lemma policy_row: "computes sha (anonymizePolicy sha policy) (coded_policy sha policy)"
proof -
  have eq: "coded_policy sha policy = (case Inr (''tok_'' @ take 20 (sha (cell_string (cell_of policy ''id'')))) of Inl e \<Rightarrow> Inl e
     | Inr i \<Rightarrow> (case (case cell_of policy ''holderAddress'' of Some (CStr s) \<Rightarrow> Inr (''G'' @ take 55 (sha s)) | _ \<Rightarrow> Inl hash_arg_error) of Inl e \<Rightarrow> Inl e
       | Inr w \<Rightarrow> Inr (AList.update ''holderAddress'' (Some (CStr w)) (AList.update ''id'' (Some (CStr i)) (map (apsnd Some) policy)))))"
    by (simp add: coded_policy_def split: option.split cell.split)
  show ?thesis unfolding eq anonymizePolicy_def
    by (rule computes_bind [OF computes_token computes_bind [OF computes_wallet computes_return]])
qed

lemma policy_rows: "computes sha (anon_rows (anonymizePolicy sha) rows) (rows_with (coded_policy sha) rows)"
proof (induction rows)
  case Nil
  show ?case unfolding anon_rows.simps rows_with.simps by (rule computes_return)
next
  case (Cons row rows)
  show ?case unfolding anon_rows.simps rows_with.simps
    by (rule computes_bind [OF policy_row computes_bind [OF Cons.IH computes_return]])
qed

fun collect :: "(string \<times> (string + staged_row list)) list \<Rightarrow> string + (string \<times> staged_row list) list" where
  "collect [] = Inr []"
| "collect ((t, r) # ts) = (case r of Inl e \<Rightarrow> Inl e | Inr rows \<Rightarrow> (case collect ts of Inl e \<Rightarrow> Inl e | Inr out \<Rightarrow> Inr ((t, rows) # out)))"

lemma run_tables_nil: "computes sha (run_tables []) (collect [])"
  unfolding run_tables.simps collect.simps by (rule computes_return)

lemma run_tables_cons:
  assumes "computes sha f r" and "computes sha (run_tables ts) (collect rs)"
  shows "computes sha (run_tables ((t, f) # ts)) (collect ((t, r) # rs))"
  unfolding run_tables.simps collect.simps
  by (rule computes_bind [OF assms(1) computes_bind [OF assms(2) computes_return]])

definition ruled_tables :: "(string \<Rightarrow> string) \<Rightarrow> prod_db \<Rightarrow> (string \<times> (string + staged_row list)) list" where
  "ruled_tables sha db = [
     (''claims'', rows_with (by_rules sha rules_claims) (sample_claims db)),
     (''policies'', rows_with (coded_policy sha) (related_policies db)),
     (''votes'', rows_with (by_rules sha coded_votes) (related_votes db)),
     (''holder_profiles'', rows_with (by_rules sha rules_profiles) (take 500 (pd_profiles db))),
     (''support_tickets'', rows_with (by_rules sha rules_tickets) (take 500 (pd_tickets db))),
     (''support_ticket_replies'', rows_with (by_rules sha rules_replies) (take 1000 (pd_replies db))),
     (''notifications'', rows_with (by_rules sha rules_notifications) (take 1000 (pd_notifications db))),
     (''notification_preferences'', rows_with (by_rules sha rules_prefs) (pd_prefs db)),
     (''ramp_transactions'', rows_with (by_rules sha rules_ramps) (take 1000 (pd_ramps db))),
     (''claim_comments'', rows_with (by_rules sha rules_comments) (take 1000 (pd_comments db))),
     (''evidence_metadata'', rows_with (by_rules sha rules_evidence) (take 1000 (pd_evidence db))),
     (''registered_voters'', rows_with (by_rules sha rules_voters) (pd_voters db)),
     (''posts'', rows_with (by_rules sha rules_posts) (take 1000 (pd_posts db)))]"

lemma sync_computes: "computes sha (run_tables (sync_plan sha db)) (collect (ruled_tables sha db))"
  unfolding sync_plan_def ruled_tables_def
  by (intro run_tables_cons run_tables_nil claims.by_table policy_rows votes.by_table profiles.by_table tickets.by_table replies.by_table
      notifications.by_table prefs.by_table ramps.by_table comments.by_table evidence.by_table voters.by_table posts.by_table)

lemma fresh_ctx: "ctx_ok sha createAnonymizationContext"
  by (simp add: ctx_ok_def createAnonymizationContext_def)

lemma sync_runs: "fst (run_tables (sync_plan sha db) createAnonymizationContext) = collect (ruled_tables sha db)"
  using sync_computes [of sha db] fresh_ctx by (simp add: computes_def)

lemma collect_Cons_Inr:
  assumes "collect ((t, r) # rs) = Inr ts"
  obtains rows out where "r = Inr rows" "collect rs = Inr out" "ts = (t, rows) # out"
  using assms by (auto split: sum.splits)

lemma collect_entry: "collect rs = Inr ts \<Longrightarrow> (t, r) \<in> set rs \<Longrightarrow> \<exists>rows. r = Inr rows \<and> (t, rows) \<in> set ts"
proof (induction rs arbitrary: ts)
  case (Cons p rs)
  obtain t0 r0 where p: "p = (t0, r0)" by (cases p)
  from Cons.prems(1) [unfolded p] obtain rows out where *: "r0 = Inr rows" "collect rs = Inr out" "ts = (t0, rows) # out" by (rule collect_Cons_Inr)
  show ?case using Cons.IH [OF *(2)] Cons.prems(2) * p by auto
qed simp

lemma collect_names: "collect rs = Inr ts \<Longrightarrow> map fst ts = map fst rs"
  by (induction rs arbitrary: ts rule: collect.induct) (auto split: sum.splits)

text \<open>The documented rules of each table that has them kept, with the rows that are taken.\<close>

definition documented :: "prod_db \<Rightarrow> (string \<times> (string \<times> rule) list \<times> table_row list) list" where
  "documented db = [
     (''claims'', rules_claims, sample_claims db),
     (''holder_profiles'', rules_profiles, take 500 (pd_profiles db)),
     (''support_tickets'', rules_tickets, take 500 (pd_tickets db)),
     (''support_ticket_replies'', rules_replies, take 1000 (pd_replies db)),
     (''notifications'', rules_notifications, take 1000 (pd_notifications db)),
     (''notification_preferences'', rules_prefs, pd_prefs db),
     (''ramp_transactions'', rules_ramps, take 1000 (pd_ramps db)),
     (''claim_comments'', rules_comments, take 1000 (pd_comments db)),
     (''evidence_metadata'', rules_evidence, take 1000 (pd_evidence db)),
     (''registered_voters'', rules_voters, pd_voters db),
     (''posts'', rules_posts, take 1000 (pd_posts db))]"

text \<open>The prepared rows of these tables are the ones that the classes give, by the formulas of the code.\<close>

lemma staging_by_rules:
  assumes "fst (run_tables (sync_plan sha db) createAnonymizationContext) = Inr ts" and "(t, rules, rows) \<in> set (documented db)"
  shows "\<exists>out. map_of ts t = Some out \<and> rows_with (by_rules sha rules) rows = Inr out"
proof -
  have run: "collect (ruled_tables sha db) = Inr ts"
    using assms(1) by (simp add: sync_runs)
  have "(t, rows_with (by_rules sha rules) rows) \<in> set (ruled_tables sha db)"
    using assms(2) unfolding documented_def ruled_tables_def by auto
  from collect_entry [OF run this] obtain out where out: "rows_with (by_rules sha rules) rows = Inr out" "(t, out) \<in> set ts" by auto
  moreover have "distinct (map fst ts)" unfolding collect_names [OF run] by (simp add: ruled_tables_def)
  ultimately show ?thesis by auto
qed

text \<open>Two rows that agree as far as a classification of their fields lets one see: the safe fields are equal, the fields to drop are anything, and every
  other field has the same digest.\<close>

definition same_digest :: "(string \<Rightarrow> string) \<Rightarrow> cell option \<Rightarrow> cell option \<Rightarrow> bool" where
  "same_digest sha v v' = (case (v, v') of
     (Some (CStr a), Some (CStr b)) \<Rightarrow> a = b \<or> a \<noteq> [] \<and> b \<noteq> [] \<and> sha a = sha b
   | _ \<Rightarrow> v = v')"

definition looks_alike :: "(string \<Rightarrow> string) \<Rightarrow> (string \<times> rule) list \<Rightarrow> table_row \<Rightarrow> table_row \<Rightarrow> bool" where
  "looks_alike sha rules row row' = list_all (\<lambda>(k, r).
     if r = SAFE then cell_of row k = cell_of row' k else r = DROP \<or> same_digest sha (cell_of row k) (cell_of row' k)) rules"

lemma same_digest_iff:
  "same_digest sha v v' \<longleftrightarrow> v = v' \<or> (\<exists>a b. v = Some (CStr a) \<and> v' = Some (CStr b) \<and> a \<noteq> [] \<and> b \<noteq> [] \<and> sha a = sha b)"
proof (cases "\<exists>a b. v = Some (CStr a) \<and> v' = Some (CStr b)")
  case True
  then show ?thesis by (auto simp: same_digest_def)
next
  case False
  then have "same_digest sha v v' \<longleftrightarrow> v = v'"
    unfolding same_digest_def by (cases v; cases v'; cases "the v"; cases "the v'") simp_all
  then show ?thesis using False by auto
qed

lemma apply_rule_alike:
  assumes "same_digest sha v v'"
  shows "apply_rule sha r v = apply_rule sha r v' \<or> r = SAFE"
proof (cases "v = v'")
  case False
  then obtain a b where "v = Some (CStr a)" "v' = Some (CStr b)" "a \<noteq> []" "b \<noteq> []" "sha a = sha b"
    using assms by (auto simp: same_digest_iff)
  then show ?thesis by (cases r) (auto simp: apply_rule_def digest_of_def or_default_def cell_string_def split: option.split)
qed simp

lemma by_rules_alike: "looks_alike sha rules row row' \<Longrightarrow> by_rules sha rules row = by_rules sha rules row'"
proof (induction rules)
  case (Cons p rules)
  obtain k r where p: "p = (k, r)" by (cases p)
  have "r = DROP \<or> apply_rule sha r (cell_of row k) = apply_rule sha r (cell_of row' k)"
    using Cons.prems apply_rule_alike [of sha "cell_of row k" "cell_of row' k" r] by (auto simp: looks_alike_def p split: if_splits)
  moreover have "by_rules sha rules row = by_rules sha rules row'" using Cons by (simp add: looks_alike_def)
  ultimately show ?case by (auto simp: p split: sum.split)
qed simp

lemma rows_alike: "list_all2 (looks_alike sha rules) rows rows' \<Longrightarrow> rows_with (by_rules sha rules) rows = rows_with (by_rules sha rules) rows'"
  by (induction rule: list_all2_induct) (simp_all add: by_rules_alike split: sum.split)

lemma by_rules_fields: "by_rules sha rules row = Inr out \<Longrightarrow> map fst out = map fst (filter (\<lambda>p. snd p \<noteq> DROP) rules)"
  by (induction rules arbitrary: out) (auto split: if_splits sum.splits)

lemma rows_with_all: "rows_with g rows = Inr out \<Longrightarrow> r \<in> set out \<Longrightarrow> \<exists>row. g row = Inr r"
  by (induction rows arbitrary: out) (auto split: sum.splits)


definition demo_db :: prod_db where
  "demo_db = \<lparr>pd_claims = [[(''id'', CInt 7), (''policyId'', CStr ''GA:1''), (''creatorAddress'', CStr ''GA''), (''description'', CStr ''x'')]],
     pd_policies = [], pd_votes = [], pd_profiles = [], pd_tickets = [], pd_replies = [], pd_notifications = [], pd_prefs = [], pd_ramps = [],
     pd_comments = [[(''id'', CStr ''c''), (''claimId'', CInt 7), (''authorAddress'', CStr ''GA'')]], pd_evidence = [], pd_voters = [], pd_posts = []\<rparr>"

definition demo_db2 :: prod_db where
  "demo_db2 = demo_db\<lparr>pd_claims := [[(''id'', CInt 7), (''policyId'', CStr ''GA:1''), (''creatorAddress'', CStr ''GA''), (''description'', CStr ''y'')]]\<rparr>"

lemmas demo_sync = sync_runs ruled_tables_def documented_def demo_db_def demo_db2_def sample_claims_def related_policies_def related_votes_def
  rules_claims_def rules_comments_def apply_rule_def digest_of_def cell_of_def


text \<open>A claim and its policy are still joined, as long as the digests of the ids differ.\<close>

lemma policy_join_kept:
  assumes "by_rules sha rules_claims c = Inr c'" and "coded_policy sha p = Inr p'"
    and "cell_of c ''policyId'' = Some (CStr a)" and "cell_of p ''id'' = Some (CStr b)" and "take 20 (sha a) = take 20 (sha b) \<Longrightarrow> a = b"
  shows "(map_of c' ''policyId'' = map_of p' ''id'') = (cell_of c ''policyId'' = cell_of p ''id'')"
proof -
  have "map_of c' ''policyId'' = Some (Some (CStr (''tok_'' @ take 20 (sha a))))"
    using assms(1,3) by (auto simp: rules_claims_def apply_rule_def cell_string_def split: sum.splits)
  moreover have "map_of p' ''id'' = Some (Some (CStr (''tok_'' @ take 20 (sha b))))"
    using assms(2,4) by (auto simp: coded_policy_def cell_string_def AList.update_conv' split: option.splits cell.splits)
  ultimately show ?thesis using assms(3,4,5) by auto
qed

text \<open>A comment is never joined with its claim, which keeps its number, and a policy keeps the fields that the rules drop.\<close>

lemma comments_orphaned:
  assumes "by_rules sha rules_claims c = Inr c'" and "by_rules sha rules_comments d = Inr d'" and "cell_of c ''id'' = Some (CInt n)"
  shows "map_of c' ''id'' \<noteq> map_of d' ''claimId''"
  using assms by (auto simp: rules_claims_def rules_comments_def apply_rule_def split: sum.splits)

lemma policy_keeps_txHash:
  "coded_policy sha p = Inr p' \<Longrightarrow> cell_of p ''txHash'' = Some h \<Longrightarrow> map_of p' ''txHash'' = Some (Some h) \<and> (''txHash'', DROP) \<in> set rules_policies"
  by (auto simp: coded_policy_def cell_of_def rules_policies_def AList.update_conv' map_of_map apsnd_def map_prod_def split: option.splits cell.splits)

lemma votes_keep_claim: "by_rules sha coded_votes v = Inr v' \<Longrightarrow> map_of v' ''claimId'' = Some (cell_of v ''claimId'') \<and> (''claimId'', TOKENIZE) \<in> set rules_votes"
  by (auto simp: coded_votes_def rules_votes_def apply_rule_def split: sum.splits)

section \<open>The schedule\<close>

text \<open>An enabled start leaves one job of the name; the text \<open>false\<close> enables it.\<close>

lemma staging_scheduled_once:
  "staging_enabled e \<Longrightarrow> length (filter (\<lambda>r. rj_name r = JOB_NAME) (staging_onModuleInit e cron new_key jobs)) = 1"
  by (simp add: staging_onModuleInit_def Let_def)

lemma false_enables_staging: "staging_enabled (Some ''false'')"
  by (simp add: staging_enabled_def)

end
