(* ===== verification/Graphql.thy ===== *)
theory Graphql
  imports Js_Prelude
begin

text \<open>
  The GraphQL endpoint: persisted queries (\<open>graphql/persisted-query.middleware.ts\<close>) and their configuration, the limits on depth,
  complexity and rate (\<open>graphql/schema.ts\<close>, \<open>graphql.module.ts\<close>, \<open>graphql-operation-guard.service.ts\<close>,
  \<open>graphql-limits.util.ts\<close>, \<open>graphql-rate-limit.guard.ts\<close>), who may call (\<open>graphql-admin-auth.guard.ts\<close>,
  \<open>graphql-wallet-auth.guard.ts\<close>), what an error tells (\<open>graphql-apollo.plugins.ts\<close>) and the batching of lookups
  (\<open>loaders.ts\<close>, \<open>policy.resolver.ts\<close>, \<open>claim.resolver.ts\<close>).

  The digest, the verification of tokens, the services behind the loaders and the clock are arguments. Redis answers or fails at every call.
\<close>

section \<open>Persisted queries\<close>

subsection \<open>Configuration\<close>

text \<open>The environment. The first two variables are validated, with the default \<open>false\<close>; the others are the texts of the environment.\<close>

record pq_env =
  ev_production :: bool
  ev_enabled :: "bool option"
  ev_only :: "bool option"
  ev_required :: "string option"
  ev_registration :: "string option"
  ev_allowlist :: "string option"

definition validated_flag :: "bool option \<Rightarrow> bool" where
  "validated_flag v = (case v of None \<Rightarrow> False | Some b \<Rightarrow> b)"

definition raw_flag :: "string option \<Rightarrow> bool \<Rightarrow> bool" where
  "raw_flag v d = (case v of None \<Rightarrow> d | Some s \<Rightarrow> s \<noteq> [])"

datatype allow_entry = AE_Text string | AE_Object "string option" "int option" | AE_Other

text \<open>\<open>loadAllowlistFile\<close>: the bodies and the budgets; a file that cannot be read or parsed gives none.\<close>

fun allowlist_bodies :: "(string \<times> allow_entry) list \<Rightarrow> string \<rightharpoonup> string" where
  "allowlist_bodies [] = Map.empty"
| "allowlist_bodies ((h, e) # es) = (case e of
     AE_Text q \<Rightarrow> (allowlist_bodies es)(h \<mapsto> q)
   | AE_Object (Some q) _ \<Rightarrow> (allowlist_bodies es)(h \<mapsto> q)
   | _ \<Rightarrow> allowlist_bodies es)"

fun allowlist_budgets :: "(string \<times> allow_entry) list \<Rightarrow> string \<rightharpoonup> int" where
  "allowlist_budgets [] = Map.empty"
| "allowlist_budgets ((h, e) # es) = (case e of
     AE_Object (Some q) (Some n) \<Rightarrow> if n > 0 then (allowlist_budgets es)(h \<mapsto> n) else allowlist_budgets es
   | _ \<Rightarrow> allowlist_budgets es)"

record pq =
  pq_enabled :: bool
  pq_required :: bool
  pq_registration :: bool
  pq_only :: bool
  pq_bodies :: "string \<rightharpoonup> string"
  pq_budgets :: "string \<rightharpoonup> int"
  pq_envHashes :: "string list"

definition env_hashes :: "string option \<Rightarrow> string list" where
  "env_hashes v = filter (\<lambda>h. h \<noteq> []) (map trim (split_on (CHR '','') (case v of None \<Rightarrow> [] | Some s \<Rightarrow> s)))"

definition pq_make :: "pq_env \<Rightarrow> (string \<times> allow_entry) list option \<Rightarrow> pq" where
  "pq_make env file =
     (let es = (case file of None \<Rightarrow> [] | Some es \<Rightarrow> es)
      in \<lparr>pq_enabled = validated_flag (ev_enabled env),
          pq_required = raw_flag (ev_required env) (ev_production env),
          pq_registration = raw_flag (ev_registration env) (\<not> ev_production env),
          pq_only = validated_flag (ev_only env),
          pq_bodies = allowlist_bodies es, pq_budgets = allowlist_budgets es, pq_envHashes = env_hashes (ev_allowlist env)\<rparr>)"

definition allowlisted :: "pq \<Rightarrow> string \<Rightarrow> bool" where
  "allowlisted c h = (pq_bodies c h \<noteq> None \<or> h \<in> set (pq_envHashes c))"

subsection \<open>A request\<close>

record gq_request =
  gq_hash :: "string option"
  gq_query :: "string option"
  gq_budget :: "int option"

datatype gq_outcome = GQ_Next gq_request | GQ_Error string string

text \<open>A missing value and an empty text are alike.\<close>

definition nonempty_text :: "string option \<Rightarrow> string option" where
  "nonempty_text v = (case v of None \<Rightarrow> None | Some s \<Rightarrow> if s = [] then None else Some s)"

definition apq_key :: "string \<Rightarrow> string" where
  "apq_key h = ''graphql:apq:'' @ h"

type_synonym apq_store = "string \<rightharpoonup> string"

definition processApq :: "(string \<Rightarrow> string) \<Rightarrow> pq \<Rightarrow> bool \<Rightarrow> string \<Rightarrow> bool \<Rightarrow> gq_request \<Rightarrow> apq_store \<Rightarrow> gq_outcome \<times> apq_store" where
  "processApq sha c ok h useStaticFallback req store = (case nonempty_text (gq_query req) of
     Some q \<Rightarrow>
       if sha q \<noteq> h then (GQ_Error ''Persisted query hash mismatch'' ''PERSISTED_QUERY_HASH_MISMATCH'', store)
       else if \<not> pq_registration c \<and> \<not> allowlisted c h
       then (GQ_Error ''Persisted query hash is not allowlisted'' ''PERSISTED_QUERY_NOT_ALLOWLISTED'', store)
       else (GQ_Next req, if ok then store(apq_key h \<mapsto> q) else store)
   | None \<Rightarrow>
       (let stored = (case (if ok then store (apq_key h) else None) of
                        Some q \<Rightarrow> Some q
                      | None \<Rightarrow> if useStaticFallback then pq_bodies c h else None)
        in case nonempty_text stored of
             None \<Rightarrow> (GQ_Error ''PersistedQueryNotFound'' ''PERSISTED_QUERY_NOT_FOUND'', store)
           | Some q \<Rightarrow> (GQ_Next (req\<lparr>gq_query := Some q\<rparr>), store)))"

definition pq_use :: "(string \<Rightarrow> string) \<Rightarrow> pq \<Rightarrow> bool \<Rightarrow> gq_request \<Rightarrow> apq_store \<Rightarrow> gq_outcome \<times> apq_store" where
  "pq_use sha c ok req store =
     (if \<not> pq_only c then
        (case nonempty_text (gq_hash req) of
           None \<Rightarrow> if pq_required c then (GQ_Error ''Persisted query hash is required'' ''PERSISTED_QUERY_REQUIRED'', store) else (GQ_Next req, store)
         | Some h \<Rightarrow>
             if \<not> pq_enabled c then (GQ_Error ''Persisted queries are disabled'' ''PERSISTED_QUERY_DISABLED'', store)
             else processApq sha c ok h False req store)
      else
        (case nonempty_text (gq_hash req) of
           None \<Rightarrow> (GQ_Error ''PersistedQueryNotFound'' ''PERSISTED_QUERY_NOT_FOUND'', store)
         | Some h \<Rightarrow>
             if \<not> allowlisted c h then (GQ_Error ''PersistedQueryNotFound'' ''PERSISTED_QUERY_NOT_FOUND'', store)
             else processApq sha c ok h True
                    (case pq_budgets c h of None \<Rightarrow> req | Some b \<Rightarrow> req\<lparr>gq_budget := Some b\<rparr>) store))"

text \<open>The life of the endpoint: requests, with Redis up or down, and entries that expire. The module applies the middleware to the
  route for \<open>POST\<close> only; a query in a \<open>GET\<close> request and an operation of a WebSocket connection reach the server without it.\<close>

datatype gq_transport = Http_Post | Http_Get | Graphql_Ws

datatype apq_event = Apq_Request gq_transport bool gq_request | Apq_Expire string

record apq_world =
  aw_store :: apq_store
  aw_passed :: "(gq_transport \<times> gq_request) list"

definition endpoint_use :: "(string \<Rightarrow> string) \<Rightarrow> pq \<Rightarrow> gq_transport \<Rightarrow> bool \<Rightarrow> gq_request \<Rightarrow> apq_store \<Rightarrow> gq_outcome \<times> apq_store" where
  "endpoint_use sha c tr ok req store = (if tr = Http_Post then pq_use sha c ok req store else (GQ_Next req, store))"

definition apq_step :: "(string \<Rightarrow> string) \<Rightarrow> pq \<Rightarrow> apq_world \<Rightarrow> apq_event \<Rightarrow> apq_world" where
  "apq_step sha c w e = (case e of
     Apq_Request tr ok req \<Rightarrow>
       (case endpoint_use sha c tr ok req (aw_store w) of
          (GQ_Next r, s) \<Rightarrow> \<lparr>aw_store = s, aw_passed = aw_passed w @ [(tr, r)]\<rparr>
        | (GQ_Error _ _, s) \<Rightarrow> w\<lparr>aw_store := s\<rparr>)
   | Apq_Expire k \<Rightarrow> w\<lparr>aw_store := (aw_store w)(k := None)\<rparr>)"

definition apq_initial :: apq_world where
  "apq_initial = \<lparr>aw_store = Map.empty, aw_passed = []\<rparr>"

section \<open>Limits\<close>

text \<open>A selection has a name, except an inline fragment, and may have a selection set. The spread of a fragment has none.\<close>

datatype sel = Leaf "string option" | Node "string option" "sel list"

fun depth_loop :: "sel list \<Rightarrow> nat \<Rightarrow> nat \<Rightarrow> nat" where
  "depth_loop [] current deepest = deepest"
| "depth_loop (Leaf n # ss) current deepest = depth_loop ss current (if current + 1 > deepest then current + 1 else deepest)"
| "depth_loop (Node n ts # ss) current deepest =
     (let next = depth_loop ts (current + 1) (current + 1) in depth_loop ss current (if next > deepest then next else deepest))"

definition measureDepth :: "sel list \<Rightarrow> nat \<Rightarrow> nat" where
  "measureDepth ss current = depth_loop ss current current"

definition field_cost :: "string option \<Rightarrow> nat" where
  "field_cost n = (case n of Some s \<Rightarrow> if ends_with ''s'' s then 10 else 1 | None \<Rightarrow> 1)"

fun measureComplexity :: "sel list \<Rightarrow> nat" where
  "measureComplexity [] = 0"
| "measureComplexity (Leaf n # ss) = field_cost n + measureComplexity ss"
| "measureComplexity (Node n ts # ss) = field_cost n + measureComplexity ts + measureComplexity ss"

fun countSelections :: "sel list \<Rightarrow> nat" where
  "countSelections [] = 0"
| "countSelections (Leaf n # ss) = 1 + countSelections ss"
| "countSelections (Node n ts # ss) = 1 + countSelections ts + countSelections ss"

definition MAX_DEPTH :: nat where "MAX_DEPTH = 8"
definition MAX_COMPLEXITY :: nat where "MAX_COMPLEXITY = 1000"

text \<open>\<open>resolveGraphqlLimits\<close> and \<open>assertWithinLimits\<close>: the error is the complexity and the limit.\<close>

definition resolveGraphqlLimits :: "nat option \<Rightarrow> nat option \<Rightarrow> nat option \<Rightarrow> nat option \<Rightarrow> nat \<times> nat" where
  "resolveGraphqlLimits queryDepth gqlDepth queryComplexity gqlComplexity =
     (case queryDepth of Some d \<Rightarrow> d | None \<Rightarrow> (case gqlDepth of Some d \<Rightarrow> d | None \<Rightarrow> 8),
      case queryComplexity of Some k \<Rightarrow> k | None \<Rightarrow> (case gqlComplexity of Some k \<Rightarrow> k | None \<Rightarrow> 250))"

definition assertWithinLimits :: "nat \<Rightarrow> bool \<Rightarrow> nat \<Rightarrow> nat option \<Rightarrow> (nat \<times> nat) + unit" where
  "assertWithinLimits maxComplexity hasSchema complexity overrideMax =
     (if \<not> hasSchema then Inr ()
      else (let limit = (case overrideMax of None \<Rightarrow> maxComplexity | Some n \<Rightarrow> n)
            in if complexity > limit then Inl (complexity, limit) else Inr ()))"

text \<open>\<open>rateLimit\<close> of the schema: a counter per key; the call of the plug-in makes a new map for every operation.\<close>

definition rate_check :: "int \<Rightarrow> int \<Rightarrow> string \<Rightarrow> int \<Rightarrow> (string \<rightharpoonup> int \<times> int) \<Rightarrow> bool \<times> (string \<rightharpoonup> int \<times> int)" where
  "rate_check windowMs limit key now hits = (case hits key of
     Some (n, resetAt) \<Rightarrow> if resetAt \<le> now then (True, hits(key \<mapsto> (1, now + windowMs)))
       else (n + 1 \<le> limit, hits(key \<mapsto> (n + 1, resetAt)))
   | None \<Rightarrow> (True, hits(key \<mapsto> (1, now + windowMs))))"

definition didResolveOperation :: "string \<Rightarrow> int \<Rightarrow> sel list \<Rightarrow> string + unit" where
  "didResolveOperation key now ss =
     (if \<not> fst (rate_check 60000 60 key now Map.empty) then Inl ''Rate limit exceeded for this operation''
      else if measureDepth ss 0 > MAX_DEPTH then Inl ''depth''
      else if measureComplexity ss > MAX_COMPLEXITY then Inl ''complexity''
      else Inr ())"

section \<open>Callers\<close>

datatype gq_identity = Wallet_Id string | Staff_Id string string

definition rate_key :: "gq_identity option \<Rightarrow> string \<Rightarrow> string" where
  "rate_key who fallback = (case who of
     None \<Rightarrow> ''ip:'' @ fallback
   | Some (Wallet_Id w) \<Rightarrow> ''wallet:'' @ w
   | Some (Staff_Id role staffId) \<Rightarrow> ''staff:'' @ role @ '':'' @ staffId)"

text \<open>The guard: a counter per caller and window in Redis; when Redis fails the request passes.\<close>

definition gq_rate_guard :: "int \<Rightarrow> int \<Rightarrow> bool \<Rightarrow> string \<Rightarrow> int \<Rightarrow> (string \<times> int \<Rightarrow> int) \<Rightarrow> bool \<times> (string \<times> int \<Rightarrow> int)" where
  "gq_rate_guard limit windowMs ok key now counts =
     (if \<not> ok then (True, counts)
      else (let b = (key, now div windowMs); n = counts b + 1 in (\<not> n > limit, counts(b := n))))"

definition adminGuard :: "gq_identity option \<Rightarrow> string + unit" where
  "adminGuard who = (case who of
     None \<Rightarrow> Inl ''Authentication is required''
   | Some (Wallet_Id _) \<Rightarrow> Inl ''Admin role required''
   | Some (Staff_Id role _) \<Rightarrow> if role = ''admin'' then Inr () else Inl ''Admin role required'')"

definition walletGuard :: "gq_identity option \<Rightarrow> string + unit" where
  "walletGuard who = (case who of Some (Wallet_Id _) \<Rightarrow> Inr () | _ \<Rightarrow> Inl ''Wallet authentication is required'')"

text \<open>The WebSocket handshake. The verification of a token gives the wallet of its payload, if it has one.\<close>

definition assertWalletJwt :: "(string \<Rightarrow> string option) \<Rightarrow> string option \<Rightarrow> string + unit" where
  "assertWalletJwt verify authorization = (case authorization of
     Some a \<Rightarrow> if starts_with ''Bearer '' a \<and> (case verify (trim (drop 7 a)) of Some w \<Rightarrow> w \<noteq> [] | None \<Rightarrow> False) then Inr ()
       else Inl ''Wallet authentication is required''
   | None \<Rightarrow> Inl ''Wallet authentication is required'')"

section \<open>Errors\<close>

datatype response_message = RM_Text string | RM_List "string list" | RM_None

record gq_error =
  ge_message :: string
  ge_code :: "string option"
  ge_limit :: "string option"
  ge_requestId :: "string option"
  ge_response :: "(int option \<times> response_message) option"

record gq_public =
  gp_message :: string
  gp_code :: string
  gp_limit :: "string option"
  gp_requestId :: "string option"

definition mapStatusCodeToGraphqlCode :: "int option \<Rightarrow> string" where
  "mapStatusCodeToGraphqlCode s =
     (if s = Some 400 then ''BAD_REQUEST'' else if s = Some 401 then ''UNAUTHENTICATED'' else if s = Some 403 then ''FORBIDDEN''
      else if s = Some 404 then ''NOT_FOUND'' else if s = Some 429 then ''TOO_MANY_REQUESTS'' else ''INTERNAL_SERVER_ERROR'')"

definition public_codes :: "string list" where
  "public_codes = [''GRAPHQL_DEPTH_LIMIT'', ''GRAPHQL_COMPLEXITY_LIMIT'', ''PERSISTED_QUERY_REQUIRED'', ''PERSISTED_QUERY_NOT_ALLOWLISTED'',
     ''PERSISTED_QUERY_NOT_FOUND'', ''PERSISTED_QUERY_HASH_MISMATCH'', ''UNAUTHENTICATED'', ''FORBIDDEN'', ''BAD_USER_INPUT'', ''BAD_REQUEST'',
     ''NOT_FOUND'', ''TOO_MANY_REQUESTS'']"

definition response_text :: "gq_error \<Rightarrow> string option" where
  "response_text e = (case ge_response e of Some (_, RM_Text t) \<Rightarrow> Some t | Some (_, RM_List ts) \<Rightarrow> Some (join_with '', '' ts) | _ \<Rightarrow> None)"

definition error_code :: "gq_error \<Rightarrow> string" where
  "error_code e = (case ge_code e of
     Some c \<Rightarrow> if c \<noteq> ''INTERNAL_SERVER_ERROR'' then c else mapStatusCodeToGraphqlCode (Option.bind (ge_response e) fst)
   | None \<Rightarrow> mapStatusCodeToGraphqlCode (Option.bind (ge_response e) fst))"

text \<open>An empty request id is left out.\<close>

definition formatGraphqlError :: "gq_error \<Rightarrow> gq_public" where
  "formatGraphqlError e =
     (let code = error_code e; rid = nonempty_text (ge_requestId e)
      in if code = ''GRAPHQL_PARSE_FAILED'' \<or> code = ''GRAPHQL_VALIDATION_FAILED'' then
           (let isDepth = (str_includes ''maximum operation depth'' (ge_message e) \<or> ge_limit e = Some ''depth'')
            in \<lparr>gp_message = ge_message e, gp_code = (if isDepth then ''GRAPHQL_DEPTH_LIMIT'' else code),
                gp_limit = (if isDepth then Some ''depth'' else None), gp_requestId = rid\<rparr>)
         else if code \<in> set public_codes then
           \<lparr>gp_message = (case response_text e of Some t \<Rightarrow> t | None \<Rightarrow> ge_message e), gp_code = code, gp_limit = None, gp_requestId = rid\<rparr>
         else \<lparr>gp_message = ''Internal server error'', gp_code = ''INTERNAL_SERVER_ERROR'', gp_limit = None, gp_requestId = rid\<rparr>)"

section \<open>Loaders\<close>

text \<open>A lookup by id: the rows are put into a map, and the answers are in the order of the keys.\<close>

definition load_by_id :: "('k list \<Rightarrow> 'r list) \<Rightarrow> ('r \<Rightarrow> 'k) \<Rightarrow> 'k list \<Rightarrow> 'r option list" where
  "load_by_id rows_of key ids = (let byId = foldl (\<lambda>f r. f(key r \<mapsto> r)) Map.empty (rows_of ids) in map byId ids)"

text \<open>A lookup of groups: each row is added to the bucket of its key.\<close>

definition add_to_bucket :: "('r \<Rightarrow> 'k) \<Rightarrow> ('k \<rightharpoonup> 'r list) \<Rightarrow> 'r \<Rightarrow> ('k \<rightharpoonup> 'r list)" where
  "add_to_bucket key g r = (case g (key r) of Some b \<Rightarrow> g(key r \<mapsto> b @ [r]) | None \<Rightarrow> g(key r \<mapsto> [r]))"

definition load_groups :: "('k list \<Rightarrow> 'r list) \<Rightarrow> ('r \<Rightarrow> 'k) \<Rightarrow> 'k list \<Rightarrow> 'r list list" where
  "load_groups rows_of key ids =
     (let g = foldl (add_to_bucket key) Map.empty (rows_of ids) in map (\<lambda>i. case g i of Some b \<Rightarrow> b | None \<Rightarrow> []) ids)"

text \<open>The claims of policies, each with its own limit: the keys are grouped by limit, in the order in which the limits appear, one query is
  made per group, and the answers are filed under policy and limit.\<close>

type_synonym nested_key = "string \<times> int"

definition add_limit :: "(int \<times> string list) list \<Rightarrow> nested_key \<Rightarrow> (int \<times> string list) list" where
  "add_limit groups k = (case map_of groups (snd k) of
     None \<Rightarrow> groups @ [(snd k, [fst k])]
   | Some b \<Rightarrow> map (\<lambda>(m, ps). if m = snd k then (m, ps @ [fst k]) else (m, ps)) groups)"

fun group_limits :: "nested_key list \<Rightarrow> (int \<times> string list) list \<Rightarrow> (int \<times> string list) list" where
  "group_limits [] groups = groups"
| "group_limits (k # ks) groups = group_limits ks (add_limit groups k)"

definition nested_cacheKey :: "string \<Rightarrow> int \<Rightarrow> string" where
  "nested_cacheKey p n = p @ '':'' @ show_int n"

definition file_answer :: "int \<Rightarrow> (string \<rightharpoonup> 'c list) \<Rightarrow> string \<times> 'c list \<Rightarrow> (string \<rightharpoonup> 'c list)" where
  "file_answer n res e = res(nested_cacheKey (fst e) n \<mapsto> snd e)"

definition ask_group :: "(string list \<Rightarrow> int \<Rightarrow> (string \<times> 'c list) list) \<Rightarrow> (string \<rightharpoonup> 'c list) \<Rightarrow> int \<times> string list \<Rightarrow> (string \<rightharpoonup> 'c list)" where
  "ask_group fetch res g = foldl (file_answer (fst g)) res (fetch (snd g) (fst g))"

definition load_nested :: "(string list \<Rightarrow> int \<Rightarrow> (string \<times> 'c list) list) \<Rightarrow> nested_key list \<Rightarrow> 'c list list" where
  "load_nested fetch ks =
     (let results = foldl (ask_group fetch) Map.empty (group_limits ks [])
      in map (\<lambda>(p, n). case results (nested_cacheKey p n) of Some cs \<Rightarrow> cs | None \<Rightarrow> []) ks)"

definition clampNestedClaimsLimit :: "int \<Rightarrow> int \<Rightarrow> int option \<Rightarrow> int" where
  "clampNestedClaimsLimit d m first = min (max 1 (case first of None \<Rightarrow> d | Some f \<Rightarrow> f)) m"

section \<open>Properties of persisted queries\<close>

text \<open>What is stored under a hash has that hash.\<close>

definition apq_sound :: "(string \<Rightarrow> string) \<Rightarrow> apq_store \<Rightarrow> bool" where
  "apq_sound sha s = (\<forall>h q. s (apq_key h) = Some q \<longrightarrow> sha q = h)"

definition bodies_sound :: "(string \<Rightarrow> string) \<Rightarrow> pq \<Rightarrow> bool" where
  "bodies_sound sha c = (\<forall>h q. pq_bodies c h = Some q \<longrightarrow> sha q = h)"

lemma apq_key_inj: "apq_key h = apq_key h' \<longleftrightarrow> h = h'"
  by (simp add: apq_key_def)

lemma nonempty_text_Some: "nonempty_text v = Some s \<longleftrightarrow> v = Some s \<and> s \<noteq> []"
  by (auto simp: nonempty_text_def split: option.splits if_splits)

lemma processApq_store: "apq_sound sha s \<Longrightarrow> apq_sound sha (snd (processApq sha c ok h fb req s))"
  by (auto simp: processApq_def apq_sound_def apq_key_inj Let_def split: option.splits)

lemma pq_use_store: "apq_sound sha s \<Longrightarrow> apq_sound sha (snd (pq_use sha c ok req s))"
  by (auto simp: pq_use_def processApq_store split: option.split)

lemma processApq_next:
  assumes "processApq sha c ok h fb req s = (GQ_Next r, s')" and "apq_sound sha s" and "bodies_sound sha c"
  shows "\<exists>q. gq_query r = Some q \<and> sha q = h \<and> gq_hash r = gq_hash req"
proof (cases "nonempty_text (gq_query req)")
  case (Some q)
  then have "gq_query req = Some q" by (simp add: nonempty_text_Some)
  then show ?thesis using assms(1) Some by (auto simp: processApq_def split: if_splits)
next
  case None
  then show ?thesis using assms
    by (auto simp: processApq_def nonempty_text_Some Let_def apq_sound_def bodies_sound_def split: option.splits if_splits)
qed

definition approved :: "(string \<Rightarrow> string) \<Rightarrow> pq \<Rightarrow> gq_request \<Rightarrow> bool" where
  "approved sha c r = (\<exists>h q. gq_hash r = Some h \<and> gq_query r = Some q \<and> sha q = h \<and> allowlisted c h)"

lemma pq_use_approved:
  assumes "pq_only c" and "bodies_sound sha c" and "apq_sound sha s" and "pq_use sha c ok req s = (GQ_Next r, s')"
  shows "approved sha c r"
proof -
  obtain h where h: "nonempty_text (gq_hash req) = Some h" "allowlisted c h"
    and run: "processApq sha c ok h True (case pq_budgets c h of None \<Rightarrow> req | Some b \<Rightarrow> req\<lparr>gq_budget := Some b\<rparr>) s = (GQ_Next r, s')"
    using assms(1,4) by (auto simp: pq_use_def split: option.splits if_splits)
  from processApq_next [OF run assms(3,2)] h show ?thesis
    by (auto simp: approved_def nonempty_text_Some split: option.splits)
qed

text \<open>What a run passes on: by \<open>POST\<close> only what is approved, by other ways what was sent.\<close>

definition post_approved :: "(string \<Rightarrow> string) \<Rightarrow> pq \<Rightarrow> gq_transport \<times> gq_request \<Rightarrow> bool" where
  "post_approved sha c p = (fst p = Http_Post \<longrightarrow> approved sha c (snd p))"

fun sent_around :: "apq_event list \<Rightarrow> (gq_transport \<times> gq_request) list" where
  "sent_around [] = []"
| "sent_around (Apq_Request tr ok req # es) = (if tr = Http_Post then sent_around es else (tr, req) # sent_around es)"
| "sent_around (Apq_Expire k # es) = sent_around es"

lemma apq_step_inv:
  assumes "pq_only c" and "bodies_sound sha c" and "apq_sound sha (aw_store w) \<and> list_all (post_approved sha c) (aw_passed w)"
  shows "apq_sound sha (aw_store (apq_step sha c w e)) \<and> list_all (post_approved sha c) (aw_passed (apq_step sha c w e))"
proof (cases e)
  case (Apq_Request tr ok req)
  obtain out s where use: "endpoint_use sha c tr ok req (aw_store w) = (out, s)" by (cases "endpoint_use sha c tr ok req (aw_store w)")
  have "apq_sound sha s" using pq_use_store [of sha "aw_store w" c ok req] assms(3) use by (auto simp: endpoint_use_def split: if_splits)
  moreover have "post_approved sha c (tr, r)" if "out = GQ_Next r" for r
    using pq_use_approved [OF assms(1,2)] assms(3) use that by (auto simp: endpoint_use_def post_approved_def split: if_splits)
  ultimately show ?thesis using assms(3) use Apq_Request by (cases out) (auto simp: apq_step_def)
next
  case (Apq_Expire k)
  then show ?thesis using assms(3) by (auto simp: apq_step_def apq_sound_def)
qed

lemma apq_run_inv:
  assumes "pq_only c" and "bodies_sound sha c" and "apq_sound sha (aw_store w) \<and> list_all (post_approved sha c) (aw_passed w)"
  shows "apq_sound sha (aw_store (run_steps (apq_step sha c) w es)) \<and> list_all (post_approved sha c) (aw_passed (run_steps (apq_step sha c) w es))"
  using assms(3)
proof (induction es arbitrary: w)
  case (Cons e es)
  from Cons.IH [OF apq_step_inv [OF assms(1,2) Cons.prems]] show ?case by simp
qed simp

lemma apq_run_around:
  "filter (\<lambda>p. fst p \<noteq> Http_Post) (aw_passed (run_steps (apq_step sha c) w es)) = filter (\<lambda>p. fst p \<noteq> Http_Post) (aw_passed w) @ sent_around es"
proof (induction es arbitrary: w)
  case (Cons e es)
  show ?case
  proof (cases e)
    case (Apq_Request tr ok req)
    have "filter (\<lambda>p. fst p \<noteq> Http_Post) (aw_passed (apq_step sha c w e)) =
        filter (\<lambda>p. fst p \<noteq> Http_Post) (aw_passed w) @ (if tr = Http_Post then [] else [(tr, req)])"
      by (auto simp: Apq_Request apq_step_def endpoint_use_def split: prod.split gq_outcome.split)
    then show ?thesis using Cons [of "apq_step sha c w e"] by (simp add: Apq_Request)
  next
    case (Apq_Expire k)
    then show ?thesis using Cons [of "apq_step sha c w e"] by (simp add: apq_step_def)
  qed
qed simp

text \<open>C34. With the restriction to approved queries on, only approved queries reach the server by \<open>POST\<close>: in every run, with Redis up or down,
  with entries that expire and whatever clients send, the query of each \<open>POST\<close> request that is passed on has the digest that the request
  names, and that digest is on the allowlist, as long as the bodies in the allowlist file have the digests they are filed under. The
  restriction does not hold for other requests: everything sent by \<open>GET\<close> or over a WebSocket is passed on as it is.\<close>

theorem apq_post_approved:
  assumes "pq_only c" and "bodies_sound sha c"
  shows "list_all (post_approved sha c) (aw_passed (run_steps (apq_step sha c) apq_initial es)) \<and>
    filter (\<lambda>p. fst p \<noteq> Http_Post) (aw_passed (run_steps (apq_step sha c) apq_initial es)) = sent_around es"
  using apq_run_inv [OF assms, of apq_initial es] apq_run_around [of sha c apq_initial es] by (simp add: apq_initial_def apq_sound_def)

definition demo_pq :: pq where
  "demo_pq = pq_make \<lparr>ev_production = True, ev_enabled = Some True, ev_only = Some True, ev_required = None, ev_registration = None, ev_allowlist = None\<rparr>
     (Some [(''cba'', AE_Text ''abc'')])"

definition demo_requests :: "apq_event list" where
  "demo_requests = [Apq_Request Http_Post True \<lparr>gq_hash = Some ''cba'', gq_query = Some ''abc'', gq_budget = None\<rparr>,
      Apq_Request Http_Post False \<lparr>gq_hash = Some ''cba'', gq_query = None, gq_budget = None\<rparr>,
      Apq_Request Http_Get True \<lparr>gq_hash = None, gq_query = Some ''x'', gq_budget = None\<rparr>]"

theorem apq_post_approved_witness:
  "list_all (post_approved rev demo_pq) (aw_passed (run_steps (apq_step rev demo_pq) apq_initial demo_requests)) \<and>
   filter (\<lambda>p. fst p \<noteq> Http_Post) (aw_passed (run_steps (apq_step rev demo_pq) apq_initial demo_requests)) = sent_around demo_requests"
  by (rule apq_post_approved) (simp_all add: demo_pq_def pq_make_def validated_flag_def bodies_sound_def)

text \<open>In production, with the variables of persisted queries unset, every \<open>POST\<close> request is refused: the validated variables have the
  default \<open>false\<close>, so the defaults of the middleware for production do not apply to them.\<close>

lemma post_closed_by_default:
  "fst (pq_use sha (pq_make \<lparr>ev_production = True, ev_enabled = None, ev_only = None, ev_required = None, ev_registration = reg, ev_allowlist = al\<rparr> file)
      ok req store) =
   (if nonempty_text (gq_hash req) = None then GQ_Error ''Persisted query hash is required'' ''PERSISTED_QUERY_REQUIRED''
    else GQ_Error ''Persisted queries are disabled'' ''PERSISTED_QUERY_DISABLED'')"
  by (cases "nonempty_text (gq_hash req)") (simp_all add: pq_use_def pq_make_def validated_flag_def raw_flag_def Let_def)

text \<open>The restriction is not on by default, and a body of the file is passed on whatever its digest.\<close>

lemma restriction_off_by_default: "\<not> pq_only (pq_make \<lparr>ev_production = True, ev_enabled = e, ev_only = None, ev_required = r, ev_registration = g, ev_allowlist = al\<rparr> file)"
  by (simp add: pq_make_def validated_flag_def Let_def)

lemma body_not_verified:
  "fst (pq_use sha (pq_make \<lparr>ev_production = True, ev_enabled = None, ev_only = Some True, ev_required = None, ev_registration = None, ev_allowlist = None\<rparr>
      (Some [(''h'', AE_Text ''q'')])) ok \<lparr>gq_hash = Some ''h'', gq_query = None, gq_budget = None\<rparr> Map.empty) =
   GQ_Next \<lparr>gq_hash = Some ''h'', gq_query = Some ''q'', gq_budget = None\<rparr>"
  by (simp add: pq_use_def pq_make_def validated_flag_def allowlisted_def processApq_def nonempty_text_def Let_def)

section \<open>Properties of the limits\<close>

fun heights :: "sel list \<Rightarrow> nat" where
  "heights [] = 0"
| "heights (Leaf n # ss) = max 1 (heights ss)"
| "heights (Node n ts # ss) = max (Suc (heights ts)) (heights ss)"

lemma depth_loop_height: "current \<le> deepest \<Longrightarrow> depth_loop ss current deepest = max deepest (current + heights ss)"
proof (induction ss arbitrary: current deepest rule: heights.induct)
  case (3 n ts ss)
  have "depth_loop ts (current + 1) (current + 1) = current + 1 + heights ts" using "3.IH"(1) [of "current + 1" "current + 1"] by simp
  then show ?case using "3.IH"(2) [of current deepest] "3.IH"(2) [of current "Suc (current + heights ts)"] "3.prems" by (simp add: Let_def max_def)
next
  case (2 n ss)
  then show ?case using "2.IH" [of current deepest] "2.IH" [of current "Suc current"] by (simp add: max_def)
qed simp

text \<open>The measured depth is the height of the selection, and every selection counts.\<close>

lemma measureDepth_height: "measureDepth ss current = current + heights ss"
  by (simp add: measureDepth_def depth_loop_height)

lemma complexity_bounds: "countSelections ss \<le> measureComplexity ss \<and> measureComplexity ss \<le> 10 * countSelections ss"
  by (induction ss rule: countSelections.induct) (auto simp: field_cost_def split: option.splits)

text \<open>A fragment spread counts as one field of depth one, whatever the fragment selects.\<close>

fun expand :: "(string \<Rightarrow> sel list) \<Rightarrow> sel list \<Rightarrow> sel list" where
  "expand frags [] = []"
| "expand frags (Leaf n # ss) = (case n of Some f \<Rightarrow> if frags f = [] then Leaf n # expand frags ss else frags f @ expand frags ss | None \<Rightarrow> Leaf n # expand frags ss)"
| "expand frags (Node n ts # ss) = Node n (expand frags ts) # expand frags ss"

lemma fragment_escapes_depth:
  "\<exists>frags ss. didResolveOperation key now ss = Inr () \<and> heights (expand frags ss) > MAX_DEPTH"
proof (intro exI conjI)
  define deep where "deep = foldr (\<lambda>_ s. [Node (Some ''claim'') s]) [0..<8] [Leaf (Some ''id'')]"
  show "didResolveOperation key now [Leaf (Some ''F'')] = Inr ()"
    by (simp add: didResolveOperation_def rate_check_def measureDepth_height field_cost_def ends_with_def MAX_DEPTH_def MAX_COMPLEXITY_def)
  show "heights (expand (\<lambda>f. if f = ''F'' then deep else []) [Leaf (Some ''F'')]) > MAX_DEPTH"
    by (simp add: deep_def MAX_DEPTH_def upt_rec)
qed

text \<open>No sequence of operations is ever limited: the counters are new for each.\<close>

lemma schema_never_limits: "didResolveOperation key now ss \<noteq> Inl ''Rate limit exceeded for this operation''"
  by (simp add: didResolveOperation_def rate_check_def)

text \<open>The guard in front of the resolvers does limit, while Redis answers: in a window a caller passes at most as often as the limit.\<close>

fun guard_run :: "int \<Rightarrow> int \<Rightarrow> (string \<times> int) list \<Rightarrow> (string \<times> int \<Rightarrow> int) \<Rightarrow> (string \<times> int \<times> bool) list" where
  "guard_run limit windowMs [] counts = []"
| "guard_run limit windowMs ((k, t) # rs) counts =
     (let (pass, counts') = gq_rate_guard limit windowMs True k t counts in (k, t, pass) # guard_run limit windowMs rs counts')"

definition passes_in :: "string \<Rightarrow> int \<Rightarrow> int \<Rightarrow> (string \<times> int \<times> bool) list \<Rightarrow> nat" where
  "passes_in k b windowMs out = length (filter (\<lambda>(k', t, p). p \<and> k' = k \<and> t div windowMs = b) out)"

lemma guard_run_bounded:
  "0 \<le> counts (k, b) \<Longrightarrow> int (passes_in k b windowMs (guard_run limit windowMs rs counts)) \<le> max 0 (limit - counts (k, b))"
proof (induction rs arbitrary: counts)
  case (Cons r rs)
  obtain k' t where r: "r = (k', t)" by (cases r)
  show ?case
  proof (cases "k' = k \<and> t div windowMs = b")
    case True
    define counts' where "counts' = counts((k, b) := counts (k, b) + 1)"
    have "int (passes_in k b windowMs (guard_run limit windowMs rs counts')) \<le> max 0 (limit - counts' (k, b))"
      by (rule Cons.IH) (use Cons.prems in \<open>simp add: counts'_def\<close>)
    moreover have "guard_run limit windowMs (r # rs) counts = (k', t, \<not> counts (k, b) + 1 > limit) # guard_run limit windowMs rs counts'"
      using True by (simp add: r gq_rate_guard_def Let_def counts'_def)
    moreover have "counts' (k, b) = counts (k, b) + 1" by (simp add: counts'_def)
    ultimately show ?thesis using True Cons.prems by (auto simp: passes_in_def max_def split: if_splits)
  next
    case False
    define counts' where "counts' = counts((k', t div windowMs) := counts (k', t div windowMs) + 1)"
    have same: "counts' (k, b) = counts (k, b)" using False by (auto simp: counts'_def)
    have "guard_run limit windowMs (r # rs) counts = (k', t, \<not> counts (k', t div windowMs) + 1 > limit) # guard_run limit windowMs rs counts'"
      by (simp add: r gq_rate_guard_def Let_def counts'_def)
    then show ?thesis using Cons.IH [of counts'] Cons.prems same False by (auto simp: passes_in_def)
  qed
qed (simp add: passes_in_def)

section \<open>Properties of callers and errors\<close>

text \<open>The highest role is refused where the lower one is admitted.\<close>

lemma superadmin_refused: "adminGuard (Some (Staff_Id ''superadmin'' i)) = Inl ''Admin role required''" "adminGuard (Some (Staff_Id ''admin'' i)) = Inr ()"
  by (simp_all add: adminGuard_def)

text \<open>An error that is not one of the public kinds tells nothing: two such errors look alike, up to the id of the request.\<close>

lemma internal_errors_masked:
  assumes "error_code e \<notin> set public_codes \<union> {''GRAPHQL_PARSE_FAILED'', ''GRAPHQL_VALIDATION_FAILED''}"
    and "error_code e' \<notin> set public_codes \<union> {''GRAPHQL_PARSE_FAILED'', ''GRAPHQL_VALIDATION_FAILED''}"
    and "ge_requestId e = ge_requestId e'"
  shows "formatGraphqlError e = formatGraphqlError e'"
  using assms by (simp add: formatGraphqlError_def Let_def)

section \<open>Properties of the loaders\<close>

lemma find_append: "find P (xs @ ys) = (case find P xs of None \<Rightarrow> find P ys | Some x \<Rightarrow> Some x)"
  by (induction xs) auto

lemma find_SomeD: "find P xs = Some x \<Longrightarrow> x \<in> set xs \<and> P x"
  by (induction xs) (auto split: if_splits)

lemma foldl_index: "foldl (\<lambda>f r. f(key r \<mapsto> r)) m rs i =
    (case find (\<lambda>r. key r = i) (rev rs) of Some r \<Rightarrow> Some r | None \<Rightarrow> m i)"
  by (induction rs arbitrary: m) (auto simp: find_append split: option.splits)

lemma foldl_buckets: "foldl (add_to_bucket key) g rs i =
    (case filter (\<lambda>r. key r = i) rs of [] \<Rightarrow> g i | b \<Rightarrow> Some ((case g i of None \<Rightarrow> [] | Some a \<Rightarrow> a) @ b))"
  by (induction rs arbitrary: g) (auto simp: add_to_bucket_def split: option.splits list.splits)

lemma load_groups_filter: "load_groups find_rows key ids = map (\<lambda>i. filter (\<lambda>r. key r = i) (find_rows ids)) ids"
  by (auto simp: load_groups_def foldl_buckets split: list.splits option.splits)

lemma load_by_id_exact:
  assumes "\<And>ids r. r \<in> set (rows_of ids) \<longleftrightarrow> key r \<in> set ids \<and> r \<in> rows" and "\<And>r r'. r \<in> rows \<Longrightarrow> r' \<in> rows \<Longrightarrow> key r = key r' \<Longrightarrow> r = r'"
    and "i < length ids"
  shows "load_by_id rows_of key ids ! i = Some r \<longleftrightarrow> r \<in> rows \<and> key r = ids ! i"
proof -
  let ?hit = "find (\<lambda>r. key r = ids ! i) (rev (rows_of ids))"
  have val: "load_by_id rows_of key ids ! i = ?hit" using assms(3) by (auto simp: load_by_id_def foldl_index Let_def split: option.split)
  have mem: "ids ! i \<in> set ids" using assms(3) by simp
  show ?thesis
  proof
    assume "load_by_id rows_of key ids ! i = Some r"
    then show "r \<in> rows \<and> key r = ids ! i" using val assms(1) find_SomeD by fastforce
  next
    assume r: "r \<in> rows \<and> key r = ids ! i"
    then have "r \<in> set (rows_of ids)" using assms(1) mem by simp
    then obtain r' where r': "?hit = Some r'" using r by (cases ?hit) (auto simp: find_None_iff)
    then have "r' \<in> set (rows_of ids)" "key r' = ids ! i" using find_SomeD by fastforce+
    then show "load_by_id rows_of key ids ! i = Some r" using val r r' assms by auto
  qed
qed

subsection \<open>Nested claims\<close>

lemma append_sep_inj:
  assumes "c \<notin> set v" and "c \<notin> set v'"
  shows "u @ c # v = u' @ c # v' \<longleftrightarrow> u = u' \<and> v = v'"
proof
  have last_part: "rev (takeWhile (\<lambda>x. x \<noteq> c) (rev (a @ c # b))) = b" if b: "c \<notin> set b" for a b
  proof -
    have "x \<noteq> c" if "x \<in> set (rev b)" for x using that b by auto
    from takeWhile_append2 [of "rev b", OF this] show ?thesis by simp
  qed
  assume eq: "u @ c # v = u' @ c # v'"
  then have "v = v'" using last_part [OF assms(1), of u] last_part [OF assms(2), of u'] by simp
  then show "u = u' \<and> v = v'" using eq by simp
qed simp

lemma nested_cacheKey_inj: "nested_cacheKey p n = nested_cacheKey p' n' \<longleftrightarrow> p = p' \<and> n = n'"
proof -
  have "CHR '':'' \<notin> set (show_int i)" for i by (rule show_int_no) (simp_all add: is_digit_def)
  then show ?thesis by (simp add: nested_cacheKey_def append_sep_inj)
qed

definition group_of :: "(int \<times> string list) list \<Rightarrow> int \<Rightarrow> string set" where
  "group_of gs n = (case map_of gs n of None \<Rightarrow> {} | Some ps \<Rightarrow> set ps)"

lemma group_add:
  assumes "distinct (map fst gs)"
  shows "distinct (map fst (add_limit gs (p, n))) \<and> (\<forall>m. group_of (add_limit gs (p, n)) m = group_of gs m \<union> (if m = n then {p} else {}))"
proof (cases "map_of gs n")
  case None
  then have gs': "add_limit gs (p, n) = gs @ [(n, [p])]" by (simp add: add_limit_def)
  have "n \<notin> fst ` set gs" using None by (simp add: map_of_eq_None_iff)
  then show ?thesis using assms None unfolding gs' by (auto simp: group_of_def map_add_def split: option.split)
next
  case (Some b)
  have gs': "add_limit gs (p, n) = map (\<lambda>(m, ps). (m, if m = n then ps @ [p] else ps)) gs" using Some by (auto simp: add_limit_def)
  have "map_of (add_limit gs (p, n)) m = map_option (\<lambda>ps. if m = n then ps @ [p] else ps) (map_of gs m)" for m
    unfolding gs' by (induction gs) auto
  moreover have "map fst (add_limit gs (p, n)) = map fst gs" unfolding gs' by (induction gs) auto
  ultimately show ?thesis using assms Some by (auto simp: group_of_def split: option.split)
qed

lemma group_limits_groups: "distinct (map fst gs) \<Longrightarrow>
    distinct (map fst (group_limits ks gs)) \<and> (\<forall>m. group_of (group_limits ks gs) m = group_of gs m \<union> {p. (p, m) \<in> set ks})"
proof (induction ks gs rule: group_limits.induct)
  case (2 k ks gs)
  obtain p n where k: "k = (p, n)" by (cases k)
  from "2.IH" group_add [OF "2.prems", of p n] show ?case by (auto simp: k split: if_splits)
qed simp

lemma file_group: "distinct (map fst es) \<Longrightarrow> foldl (file_answer n) res es (nested_cacheKey q m) =
    (if m = n then (case map_of es q of Some cs \<Rightarrow> Some cs | None \<Rightarrow> res (nested_cacheKey q m)) else res (nested_cacheKey q m))"
proof (induction es arbitrary: res)
  case (Cons e es)
  obtain p cs where e: "e = (p, cs)" by (cases e)
  have "map_of es p = None" using Cons.prems e by (simp add: map_of_eq_None_iff)
  then show ?case using Cons e by (auto simp: nested_cacheKey_inj file_answer_def split: option.split)
qed simp

text \<open>What is asked of the service: its answer for a policy does not depend on the other policies of the call.\<close>

definition per_policy :: "(string list \<Rightarrow> int \<Rightarrow> (string \<times> 'c list) list) \<Rightarrow> (string \<Rightarrow> int \<Rightarrow> 'c list) \<Rightarrow> bool" where
  "per_policy fetch direct = (\<forall>ps n. distinct (map fst (fetch ps n)) \<and>
     (\<forall>p. map_of (fetch ps n) p = (if p \<in> set ps then Some (direct p n) else None)))"

lemma file_groups:
  assumes "per_policy fetch direct"
  shows "distinct (map fst gs) \<Longrightarrow> foldl (ask_group fetch) res gs (nested_cacheKey q m) =
    (if q \<in> group_of gs m then Some (direct q m) else res (nested_cacheKey q m))"
proof (induction gs arbitrary: res)
  case (Cons g gs)
  obtain n ps where g: "g = (n, ps)" by (cases g)
  have fetch: "distinct (map fst (fetch ps n))" "map_of (fetch ps n) q = (if q \<in> set ps then Some (direct q n) else None)"
    using assms by (auto simp: per_policy_def)
  have first: "ask_group fetch res g (nested_cacheKey q m) = (if m = n \<and> q \<in> set ps then Some (direct q n) else res (nested_cacheKey q m))"
    using file_group [OF fetch(1), where n = n and res = res and q = q and m = m] fetch(2) by (simp add: ask_group_def g)
  have "n \<notin> fst ` set gs" using Cons.prems g by simp
  then have "group_of gs n = {}" by (simp add: group_of_def map_of_eq_None_iff [THEN iffD2])
  moreover have "group_of (g # gs) m = (if m = n then set ps else group_of gs m)" by (simp add: group_of_def g)
  ultimately show ?case using Cons.IH [of "ask_group fetch res g"] Cons.prems first by auto
qed (simp add: group_of_def)

text \<open>Batching does not change an answer: whatever keys are collected, in whatever order and with whatever limits, the loader of nested
  claims answers each key, in its place, with what the service gives for that policy and that limit alone, provided the service answers each
  policy of a call on its own. (No class of the tree has the method \<open>getClaimsByPolicyIds\<close> that the loader calls.)\<close>

lemma nested_claims_batched:
  assumes "per_policy fetch direct"
  shows "load_nested fetch ks = map (\<lambda>(p, n). direct p n) ks"
proof -
  have gs: "distinct (map fst (group_limits ks []))" "\<And>m. group_of (group_limits ks []) m = {p. (p, m) \<in> set ks}"
    using group_limits_groups [of "[]" ks] by (auto simp: group_of_def)
  show ?thesis
    by (auto simp: load_nested_def file_groups [OF assms gs(1)] gs(2) split: option.split)
qed

lemma nested_limit_bounds: "1 \<le> m \<Longrightarrow> 1 \<le> clampNestedClaimsLimit d m first \<and> clampNestedClaimsLimit d m first \<le> m"
  by (auto simp: clampNestedClaimsLimit_def)

end
