(* ===== verification/Support.thy ===== *)
theory Support
  imports Privacy
begin

text \<open>
  Customer support: tickets, replies, assignments, FAQ and their statistics (\<open>support/support.service.ts\<close>, \<open>support/captcha.service.ts\<close>) together
  with the closing and reopening of tickets of \<open>Privacy\<close>, and the typing indicator with its timers (\<open>support/typing.service.ts\<close>).

  The columns of a ticket that the closing job does not look at are in a second table under the same id. New ids, times, the digest and the
  answer of the CAPTCHA provider are arguments; emails and webhooks are best effort and leave no state but the list of messages sent.
\<close>

section \<open>Tickets\<close>

record ticket_details =
  td_subject :: string
  td_message :: string
  td_ipHash :: "string option"
  td_assignedTo :: "string option"
  td_createdAt :: int

record ticket_reply =
  tr_ticketId :: string
  tr_message :: string
  tr_author :: string

datatype support_audit = Status_Updated string string ticket_status ticket_status "string option" | Assigned string string "string option" "string option"

record faq_item =
  fq_question :: string
  fq_answer :: string
  fq_category :: string
  fq_displayOrder :: int

record support_state =
  su_tickets :: "(string, ticket) table"
  su_details :: "(string, ticket_details) table"
  su_replies :: "ticket_reply list"
  su_audit :: "support_audit list"
  su_jobAudit :: "ticket_audit list"
  su_emails :: "(string \<times> string \<times> ticket_status) list"
  su_faqs :: "(string, faq_item) table"
  su_faqStats :: "(string, nat) table"

text \<open>\<open>verify\<close> of the CAPTCHA: skipped without a secret; otherwise the provider's answer, with a failed call as a refusal.\<close>

definition captcha_verify :: "string option \<Rightarrow> bool option \<Rightarrow> bool" where
  "captcha_verify secret answer =
     (if secret = None \<or> secret = Some [] \<or> secret = Some ''dev-skip'' then True else answer = Some True)"

definition hashIp :: "(string \<Rightarrow> string) \<Rightarrow> string \<Rightarrow> string \<Rightarrow> string" where
  "hashIp sha salt ip = sha (ip @ salt)"

definition submitTicket ::
  "(string \<Rightarrow> string) \<Rightarrow> string \<Rightarrow> bool \<Rightarrow> string \<Rightarrow> int \<Rightarrow> string \<Rightarrow> string \<Rightarrow> string \<Rightarrow> string option \<Rightarrow> string option \<Rightarrow> support_state
    \<Rightarrow> (string + string) \<times> support_state" where
  "submitTicket sha salt captchaValid newId now email subject message remoteIp walletAddress st =
     (if \<not> captchaValid then (Inl ''CAPTCHA verification failed'', st)
      else (Inr newId, st\<lparr>
        su_tickets := su_tickets st @ [(newId, \<lparr>tk_email = to_lower email, tk_walletAddress = walletAddress, tk_status = T_OPEN,
            tk_firstRespondedAt = None, tk_updatedAt = now\<rparr>)],
        su_details := su_details st @ [(newId, \<lparr>td_subject = subject, td_message = message,
            td_ipHash = (case remoteIp of None \<Rightarrow> None | Some ip \<Rightarrow> if ip = [] then None else Some (hashIp sha salt ip)),
            td_assignedTo = None, td_createdAt = now\<rparr>)]\<rparr>))"

definition not_found :: "string \<Rightarrow> string" where
  "not_found ticketId = ''Ticket '' @ ticketId @ '' not found''"

definition addCustomerReply :: "bool \<Rightarrow> string \<Rightarrow> string \<Rightarrow> int \<Rightarrow> support_state \<Rightarrow> (string + ticket_reply) \<times> support_state" where
  "addCustomerReply hasAutoclose ticketId message now st = (case findUnique (su_tickets st) ticketId of
     None \<Rightarrow> (Inl (not_found ticketId), st)
   | Some _ \<Rightarrow>
       (let reply = \<lparr>tr_ticketId = ticketId, tr_message = message, tr_author = ''customer''\<rparr>;
            st1 = st\<lparr>su_replies := su_replies st @ [reply]\<rparr>;
            (tickets, audit) = (if hasAutoclose then reopenIfReply ticketId now (su_tickets st1, su_jobAudit st1) else (su_tickets st1, su_jobAudit st1))
        in (Inr reply, st1\<lparr>su_tickets := tickets, su_jobAudit := audit\<rparr>)))"

definition updateTicketStatus ::
  "string \<Rightarrow> ticket_status \<Rightarrow> string option \<Rightarrow> string \<Rightarrow> int \<Rightarrow> support_state \<Rightarrow> (string + unit) \<times> support_state" where
  "updateTicketStatus ticketId status notes actor now st = (case findUnique (su_tickets st) ticketId of
     None \<Rightarrow> (Inl (not_found ticketId), st)
   | Some t \<Rightarrow>
       (Inr (), st\<lparr>
          su_tickets := updateMany (\<lambda>k _. k = ticketId)
            (\<lambda>x. x\<lparr>tk_status := status, tk_updatedAt := now,
                    tk_firstRespondedAt := (if tk_firstRespondedAt t = None then Some now else tk_firstRespondedAt x)\<rparr>) (su_tickets st),
          su_audit := su_audit st @ [Status_Updated actor ticketId (tk_status t) status notes],
          su_emails := su_emails st @ [(tk_email t, case findUnique (su_details st) ticketId of Some d \<Rightarrow> td_subject d | None \<Rightarrow> [], status)]\<rparr>))"

definition assignTicket :: "string \<Rightarrow> string option \<Rightarrow> string \<Rightarrow> int \<Rightarrow> support_state \<Rightarrow> (string + unit) \<times> support_state" where
  "assignTicket ticketId assignee actor now st = (case findUnique (su_tickets st) ticketId of
     None \<Rightarrow> (Inl (not_found ticketId), st)
   | Some t \<Rightarrow>
       (Inr (), st\<lparr>
          su_tickets := updateMany (\<lambda>k _. k = ticketId) (\<lambda>x. x\<lparr>tk_updatedAt := now\<rparr>) (su_tickets st),
          su_details := updateMany (\<lambda>k _. k = ticketId) (\<lambda>d. d\<lparr>td_assignedTo := assignee\<rparr>) (su_details st),
          su_audit := su_audit st @ [Assigned actor ticketId (Option.bind (findUnique (su_details st) ticketId) td_assignedTo) assignee]\<rparr>))"

subsection \<open>Lists\<close>

definition created_of :: "support_state \<Rightarrow> string \<Rightarrow> int" where
  "created_of st k = (case findUnique (su_details st) k of Some d \<Rightarrow> td_createdAt d | None \<Rightarrow> 0)"

definition page_of :: "support_state \<Rightarrow> (string \<Rightarrow> ticket \<Rightarrow> bool) \<Rightarrow> nat \<Rightarrow> nat \<Rightarrow> (string \<times> ticket) list \<times> nat" where
  "page_of st p limit offset =
     (let rows = sort_key (\<lambda>(k, _). - created_of st k) (findMany p (su_tickets st)) in (take limit (drop offset rows), length rows))"

definition listTicketsForWallet :: "string \<Rightarrow> jnum \<Rightarrow> jnum \<Rightarrow> support_state \<Rightarrow> string + ((string \<times> ticket) list \<times> nat)" where
  "listTicketsForWallet wallet limit offset st = (case limit of
     Fin l \<Rightarrow> if l < 1 \<or> l > 100 then Inl ''Ticket limit must be between 1 and 100''
       else (case offset of
               Fin f \<Rightarrow> if f < 0 then Inl ''Ticket offset must be a non-negative integer''
                 else Inr (page_of st (\<lambda>_ t. tk_walletAddress t = Some wallet) (nat l) (nat f))
             | _ \<Rightarrow> Inl ''Ticket offset must be a non-negative integer'')
   | _ \<Rightarrow> Inl ''Ticket limit must be between 1 and 100'')"

text \<open>The filter of the assignee: a condition that is \<open>undefined\<close> does not filter.\<close>

definition listTickets :: "nat \<Rightarrow> nat \<Rightarrow> string option option \<Rightarrow> ticket_status option \<Rightarrow> support_state \<Rightarrow> (string \<times> ticket) list \<times> nat" where
  "listTickets limit offset assignedTo status st =
     page_of st (\<lambda>k t.
        (case assignedTo of
           Some (Some a) \<Rightarrow> a = [] \<or> Option.bind (findUnique (su_details st) k) td_assignedTo = Some a
         | _ \<Rightarrow> True) \<and>
        (case status of Some s \<Rightarrow> tk_status t = s | None \<Rightarrow> True)) limit offset"

text \<open>\<open>getFirstResponseStats\<close>: how many have a response, the sum of the times until it, and how many wait too long.\<close>

definition getFirstResponseStats :: "int \<Rightarrow> int \<Rightarrow> support_state \<Rightarrow> nat \<times> int \<times> nat" where
  "getFirstResponseStats slaHours now st =
     (let slaDeadline = now - slaHours * 60 * 60 * 1000;
          responded = filter (\<lambda>(k, t). tk_firstRespondedAt t \<noteq> None) (su_tickets st)
      in (length responded,
          sum_list (map (\<lambda>(k, t). the (tk_firstRespondedAt t) - created_of st k) responded),
          length (filter (\<lambda>(k, t). tk_firstRespondedAt t = None \<and> tk_status t = T_OPEN \<and> created_of st k < slaDeadline) (su_tickets st))))"

subsection \<open>FAQ\<close>

definition trackFaqExpansion :: "string \<Rightarrow> support_state \<Rightarrow> support_state" where
  "trackFaqExpansion faqId st = st\<lparr>su_faqStats := upsert faqId 1 Suc (su_faqStats st)\<rparr>"

definition listFaqItems :: "support_state \<Rightarrow> (string \<times> faq_item) list" where
  "listFaqItems st = sort_key (\<lambda>(_, f). fq_displayOrder f) (su_faqs st)"

definition next_order :: "(string, faq_item) table \<Rightarrow> int" where
  "next_order fs = (if fs = [] then - 1 else Max (set (map (\<lambda>(_, f). fq_displayOrder f) fs))) + 1"

definition createFaqItem :: "string \<Rightarrow> string \<Rightarrow> string \<Rightarrow> string option \<Rightarrow> int option \<Rightarrow> support_state \<Rightarrow> support_state" where
  "createFaqItem newId question answer category displayOrder st =
     st\<lparr>su_faqs := su_faqs st @ [(newId, \<lparr>fq_question = question, fq_answer = answer,
          fq_category = (case category of None \<Rightarrow> ''General'' | Some c \<Rightarrow> c),
          fq_displayOrder = (case displayOrder of None \<Rightarrow> next_order (su_faqs st) | Some n \<Rightarrow> n)\<rparr>)]\<rparr>"

definition updateFaqItem :: "string \<Rightarrow> (faq_item \<Rightarrow> faq_item) \<Rightarrow> support_state \<Rightarrow> (string + unit) \<times> support_state" where
  "updateFaqItem i patch st = (case findUnique (su_faqs st) i of
     None \<Rightarrow> (Inl (''FAQ item '' @ i @ '' not found''), st)
   | Some _ \<Rightarrow> (Inr (), st\<lparr>su_faqs := updateMany (\<lambda>k _. k = i) patch (su_faqs st)\<rparr>))"

definition deleteFaqItem :: "string \<Rightarrow> support_state \<Rightarrow> (string + unit) \<times> support_state" where
  "deleteFaqItem i st = (case findUnique (su_faqs st) i of
     None \<Rightarrow> (Inl (''FAQ item '' @ i @ '' not found''), st)
   | Some _ \<Rightarrow> (Inr (), st\<lparr>su_faqs := filter (\<lambda>(k, _). k \<noteq> i) (su_faqs st)\<rparr>))"

text \<open>One transaction: an id that is not there undoes it all.\<close>

fun reorder :: "(string \<times> int) list \<Rightarrow> (string, faq_item) table \<Rightarrow> (string, faq_item) table option" where
  "reorder [] fs = Some fs"
| "reorder ((i, n) # es) fs = (case findUnique fs i of
     None \<Rightarrow> None
   | Some _ \<Rightarrow> reorder es (updateMany (\<lambda>k _. k = i) (\<lambda>f. f\<lparr>fq_displayOrder := n\<rparr>) fs))"

definition reorderFaqItems :: "(string \<times> int) list \<Rightarrow> support_state \<Rightarrow> (string + (string \<times> faq_item) list) \<times> support_state" where
  "reorderFaqItems es st = (case reorder es (su_faqs st) of
     None \<Rightarrow> (Inl ''P2025'', st)
   | Some fs \<Rightarrow> (let st1 = st\<lparr>su_faqs := fs\<rparr> in (Inr (listFaqItems st1), st1)))"

section \<open>The typing indicator\<close>

definition TYPING_IDLE_TIMEOUT_MS :: int where "TYPING_IDLE_TIMEOUT_MS = 3000"

record typing_entry =
  te_staffId :: string
  te_expiresAt :: int
  te_timer :: nat

record typing_state =
  ty_states :: "string \<rightharpoonup> typing_entry"
  ty_timers :: "nat \<rightharpoonup> string \<times> int"
  ty_nextTimer :: nat
  ty_subjects :: "string set"
  ty_published :: "(string \<times> bool \<times> string option \<times> int) list"

definition typing_publish :: "string \<Rightarrow> bool \<times> string option \<times> int \<Rightarrow> typing_state \<Rightarrow> typing_state" where
  "typing_publish k p st = (if k \<in> ty_subjects st then st\<lparr>ty_published := ty_published st @ [(k, p)]\<rparr> else st)"

definition clearTimer :: "string \<Rightarrow> typing_state \<Rightarrow> typing_state" where
  "clearTimer k st = (case ty_states st k of None \<Rightarrow> st | Some e \<Rightarrow> st\<lparr>ty_timers := (ty_timers st)(te_timer e := None)\<rparr>)"

definition setTyping :: "string \<Rightarrow> string \<Rightarrow> int \<Rightarrow> typing_state \<Rightarrow> (bool \<times> string option \<times> int) \<times> typing_state" where
  "setTyping k staffId now st =
     (let st1 = clearTimer k st; e = now + TYPING_IDLE_TIMEOUT_MS; i = ty_nextTimer st1;
          st2 = st1\<lparr>ty_timers := (ty_timers st1)(i \<mapsto> (k, e)), ty_nextTimer := Suc i,
                     ty_states := (ty_states st1)(k \<mapsto> \<lparr>te_staffId = staffId, te_expiresAt = e, te_timer = i\<rparr>)\<rparr>;
          p = (True, Some staffId, e)
      in (p, typing_publish k p st2))"

definition clearTyping :: "string \<Rightarrow> int \<Rightarrow> typing_state \<Rightarrow> (bool \<times> string option \<times> int) \<times> typing_state" where
  "clearTyping k now st =
     (let prev = ty_states st k; st1 = clearTimer k st; st2 = st1\<lparr>ty_states := (ty_states st1)(k := None)\<rparr>;
          p = (False, map_option te_staffId prev, now)
      in (p, if prev \<noteq> None then typing_publish k p st2 else st2))"

definition getTyping :: "string \<Rightarrow> int \<Rightarrow> typing_state \<Rightarrow> (bool \<times> string option \<times> int) \<times> typing_state" where
  "getTyping k now st = (case ty_states st k of
     None \<Rightarrow> ((False, None, now), st)
   | Some e \<Rightarrow> if now \<ge> te_expiresAt e then clearTyping k now st else ((True, Some (te_staffId e), te_expiresAt e), st))"

definition typing_subscribe :: "string \<Rightarrow> typing_state \<Rightarrow> typing_state" where
  "typing_subscribe k st = st\<lparr>ty_subjects := insert k (ty_subjects st)\<rparr>"

definition typing_unsubscribe :: "string \<Rightarrow> bool \<Rightarrow> typing_state \<Rightarrow> typing_state" where
  "typing_unsubscribe k observed st = (if k \<in> ty_subjects st \<and> \<not> observed then st\<lparr>ty_subjects := ty_subjects st - {k}\<rparr> else st)"

text \<open>A timer fires when it is due; the callback clears the ticket it was set for.\<close>

definition typing_fire :: "nat \<Rightarrow> int \<Rightarrow> typing_state \<Rightarrow> typing_state" where
  "typing_fire i now st = (case ty_timers st i of
     Some (k, due) \<Rightarrow> if due \<le> now then snd (clearTyping k now (st\<lparr>ty_timers := (ty_timers st)(i := None)\<rparr>)) else st
   | None \<Rightarrow> st)"

datatype typing_action = Ty_Set string string | Ty_Clear string | Ty_Get string | Ty_Fire nat | Ty_Subscribe string | Ty_Unsubscribe string bool

definition typing_step :: "typing_state \<Rightarrow> typing_action \<times> int \<Rightarrow> typing_state" where
  "typing_step st a = (case fst a of
     Ty_Set k s \<Rightarrow> snd (setTyping k s (snd a) st)
   | Ty_Clear k \<Rightarrow> snd (clearTyping k (snd a) st)
   | Ty_Get k \<Rightarrow> snd (getTyping k (snd a) st)
   | Ty_Fire i \<Rightarrow> typing_fire i (snd a) st
   | Ty_Subscribe k \<Rightarrow> typing_subscribe k st
   | Ty_Unsubscribe k ob \<Rightarrow> typing_unsubscribe k ob st)"

definition typing_initial :: typing_state where
  "typing_initial = \<lparr>ty_states = Map.empty, ty_timers = Map.empty, ty_nextTimer = 0, ty_subjects = {}, ty_published = []\<rparr>"

section \<open>Runs of the support desk\<close>

datatype support_action =
    Su_Submit bool string string string string "string option" "string option"
  | Su_Reply string string
  | Su_Status string ticket_status "string option" string
  | Su_Assign string "string option" string
  | Su_Autoclose "int option"

definition support_step :: "(string \<Rightarrow> string) \<Rightarrow> string \<Rightarrow> support_state \<Rightarrow> support_action \<times> int \<Rightarrow> support_state" where
  "support_step sha salt st a = (case fst a of
     Su_Submit ok i e s m ip w \<Rightarrow> snd (submitTicket sha salt ok i (snd a) e s m ip w st)
   | Su_Reply i m \<Rightarrow> snd (addCustomerReply True i m (snd a) st)
   | Su_Status i s n ac \<Rightarrow> snd (updateTicketStatus i s n ac (snd a) st)
   | Su_Assign i x ac \<Rightarrow> snd (assignTicket i x ac (snd a) st)
   | Su_Autoclose c \<Rightarrow> (let (_, tickets, audit) = autoCloseInactiveTickets c (snd a) (su_tickets st, su_jobAudit st)
       in st\<lparr>su_tickets := tickets, su_jobAudit := audit\<rparr>))"

text \<open>Once a ticket has a first response, its time stays.\<close>

definition responded :: "(string, ticket) table \<Rightarrow> string \<Rightarrow> int \<Rightarrow> bool" where
  "responded ts k x = (\<exists>t. findUnique ts k = Some t \<and> tk_firstRespondedAt t = Some x)"

definition responded_at :: "string \<Rightarrow> int \<Rightarrow> support_state \<Rightarrow> bool" where
  "responded_at k x st = responded (su_tickets st) k x"

lemma responded_update:
  assumes "\<And>t. findUnique ts k = Some t \<Longrightarrow> tk_firstRespondedAt t = Some x \<Longrightarrow> p k t \<Longrightarrow> tk_firstRespondedAt (f t) = Some x" and "responded ts k x"
  shows "responded (updateMany p f ts) k x"
proof -
  from assms(2) obtain t where t: "findUnique ts k = Some t" "tk_firstRespondedAt t = Some x" by (auto simp: responded_def)
  then show ?thesis using assms(1) [OF t] by (cases "p k t") (simp_all add: responded_def)
qed

lemma responded_append: "responded ts k x \<Longrightarrow> responded (ts @ ys) k x"
  by (auto simp: responded_def findUnique_def)

lemma responded_reopen: "responded ts k x \<Longrightarrow> responded (fst (reopenIfReply i now (ts, audit))) k x"
  by (auto simp: reopenIfReply_def intro!: responded_update split: option.split)

lemma responded_autoclose: "responded ts k x \<Longrightarrow> responded (fst (snd (autoCloseInactiveTickets c now (ts, audit)))) k x"
  unfolding autoCloseInactiveTickets_def Let_def by (auto intro!: responded_update)

lemma responded_step:
  assumes "responded_at k x st"
  shows "responded_at k x (support_step sha salt st a)"
proof -
  have r: "responded (su_tickets st) k x" using assms by (simp add: responded_at_def)
  show ?thesis unfolding responded_at_def
  proof (cases "fst a")
    case (Su_Submit ok i e s m ip w)
    then show "responded (su_tickets (support_step sha salt st a)) k x" using r by (simp add: support_step_def submitTicket_def responded_append)
  next
    case (Su_Reply i m)
    then show "responded (su_tickets (support_step sha salt st a)) k x" using r responded_reopen [OF r, of i "snd a" "su_jobAudit st"]
      by (cases "findUnique (su_tickets st) i"; cases "reopenIfReply i (snd a) (su_tickets st, su_jobAudit st)")
         (simp_all add: support_step_def addCustomerReply_def Let_def)
  next
    case (Su_Status i s n ac)
    then show "responded (su_tickets (support_step sha salt st a)) k x" using r
      by (cases "findUnique (su_tickets st) i") (auto simp: support_step_def updateTicketStatus_def intro!: responded_update)
  next
    case (Su_Assign i y ac)
    then show "responded (su_tickets (support_step sha salt st a)) k x" using r
      by (cases "findUnique (su_tickets st) i") (auto simp: support_step_def assignTicket_def intro!: responded_update)
  next
    case (Su_Autoclose c)
    then show "responded (su_tickets (support_step sha salt st a)) k x" using responded_autoclose [OF r, of c "snd a" "su_jobAudit st"]
      by (cases "autoCloseInactiveTickets c (snd a) (su_tickets st, su_jobAudit st)") (simp add: support_step_def)
  qed
qed

interpretation first_response: step_system "support_step sha salt" "responded_at k x" for sha salt k x
  by unfold_locales (rule responded_step)

text \<open>The time of the first response is recorded once: whatever is submitted, replied, changed, assigned, closed and reopened later,
  and however often, a ticket that has a first response keeps it.\<close>

theorem first_response_kept:
  assumes "findUnique (su_tickets st) k = Some t" and "tk_firstRespondedAt t = Some x"
  shows "\<exists>t'. findUnique (su_tickets (run_steps (support_step sha salt) st as)) k = Some t' \<and> tk_firstRespondedAt t' = Some x"
proof -
  have "responded_at k x st" using assms by (simp add: responded_at_def responded_def)
  from first_response.run_inv [OF this] show ?thesis by (simp add: responded_at_def responded_def)
qed

definition demo_support :: support_state where
  "demo_support = \<lparr>su_tickets = [(''t'', \<lparr>tk_email = ''a@b'', tk_walletAddress = None, tk_status = T_IN_PROGRESS, tk_firstRespondedAt = Some 5, tk_updatedAt = 5\<rparr>)],
     su_details = [(''t'', \<lparr>td_subject = ''s'', td_message = ''m'', td_ipHash = None, td_assignedTo = None, td_createdAt = 1\<rparr>)], su_replies = [], su_audit = [],
     su_jobAudit = [], su_emails = [], su_faqs = [], su_faqStats = []\<rparr>"

theorem first_response_kept_witness:
  "\<exists>t'. findUnique (su_tickets (run_steps (support_step id []) demo_support [(Su_Status ''t'' T_RESOLVED None ''x'', 9), (Su_Reply ''t'' ''y'', 10)])) ''t'' = Some t' \<and>
     tk_firstRespondedAt t' = Some 5"
  by (rule first_response_kept [where t = "snd (hd (su_tickets demo_support))"]) (simp_all add: demo_support_def findUnique_def)

text \<open>A reply does not count as activity: a ticket that was answered an hour ago is closed for want of a reply.\<close>

lemma active_ticket_closed:
  "map_option tk_status (findUnique (su_tickets (run_steps (support_step id []) demo_support
     [(Su_Reply ''t'' ''still broken'', 699000000), (Su_Autoclose None, 700000000)])) ''t'') = Some T_CLOSED"
  by (simp add: demo_support_def support_step_def addCustomerReply_def reopenIfReply_def autoCloseInactiveTickets_def inactive_ticket_def
      DEFAULT_AUTOCLOSE_DAYS_INACTIVE_def findMany_def findUnique_def updateMany_def Let_def)

text \<open>Asking for the tickets that nobody is assigned to gives all of them.\<close>

lemma unassigned_lists_all: "listTickets limit offset (Some None) status st = listTickets limit offset None status st"
  by (simp add: listTickets_def)

text \<open>A new FAQ item without an order comes last, and a reordering that names an unknown item changes nothing.\<close>

lemma new_faq_last: "(i, f) \<in> set (su_faqs st) \<Longrightarrow> fq_displayOrder f < next_order (su_faqs st)"
proof -
  assume f: "(i, f) \<in> set (su_faqs st)"
  then have "fq_displayOrder f \<in> set (map (\<lambda>(_, f). fq_displayOrder f) (su_faqs st))" by force
  then have "fq_displayOrder f \<le> Max (set (map (\<lambda>(_, f). fq_displayOrder f) (su_faqs st)))" by (rule Max_ge [OF finite_set])
  then show ?thesis using f by (auto simp: next_order_def)
qed

lemma reorder_keys: "reorder es fs = Some fs' \<Longrightarrow> map fst fs' = map fst fs \<and> fst ` set es \<subseteq> fst ` set fs"
proof (induction es fs rule: reorder.induct)
  case (2 i n es fs)
  from "2.prems" obtain f where f: "findUnique fs i = Some f"
    and r: "reorder es (updateMany (\<lambda>k _. k = i) (\<lambda>f. f\<lparr>fq_displayOrder := n\<rparr>) fs) = Some fs'" by (auto split: option.splits)
  have "i \<in> fst ` set fs" using f findUnique_None [of fs i] by auto
  then show ?case using "2.IH" [OF f r] by (auto simp: fst_set_updateMany)
qed simp

lemma reorder_atomic: "fst (reorderFaqItems es st) = Inl m \<Longrightarrow> snd (reorderFaqItems es st) = st"
  by (auto simp: reorderFaqItems_def Let_def split: option.splits)

section \<open>Properties of the typing indicator\<close>

definition typing_inv :: "typing_state \<Rightarrow> bool" where
  "typing_inv st = (
     (\<forall>k e. ty_states st k = Some e \<longrightarrow> ty_timers st (te_timer e) = Some (k, te_expiresAt e)) \<and>
     (\<forall>i k due. ty_timers st i = Some (k, due) \<longrightarrow> (\<exists>e. ty_states st k = Some e \<and> te_timer e = i \<and> te_expiresAt e = due)) \<and>
     (\<forall>i. ty_timers st i \<noteq> None \<longrightarrow> i < ty_nextTimer st))"

lemma typing_inv_frame:
  "typing_inv (st\<lparr>ty_published := p\<rparr>) = typing_inv st" "typing_inv (st\<lparr>ty_subjects := s\<rparr>) = typing_inv st" "typing_inv (typing_publish k q st) = typing_inv st"
  by (simp_all add: typing_inv_def typing_publish_def)

text \<open>The state without a ticket and its timer.\<close>

definition typing_drop :: "string \<Rightarrow> typing_state \<Rightarrow> typing_state" where
  "typing_drop k st = (clearTimer k st)\<lparr>ty_states := (ty_states st)(k := None)\<rparr>"

lemma typing_invI:
  assumes "\<And>k e. ty_states st k = Some e \<Longrightarrow> ty_timers st (te_timer e) = Some (k, te_expiresAt e)"
    and "\<And>i k due. ty_timers st i = Some (k, due) \<Longrightarrow> i < ty_nextTimer st \<and> (\<exists>e. ty_states st k = Some e \<and> te_timer e = i \<and> te_expiresAt e = due)"
  shows "typing_inv st"
  using assms unfolding typing_inv_def by fast

lemma typing_inv_timer: "typing_inv st \<Longrightarrow> ty_states st k = Some e \<Longrightarrow> ty_timers st (te_timer e) = Some (k, te_expiresAt e)"
  by (simp add: typing_inv_def)

lemma typing_inv_entry:
  assumes "typing_inv st" and "ty_timers st i = Some (k, due)"
  obtains e where "ty_states st k = Some e" "te_timer e = i" "te_expiresAt e = due" "i < ty_nextTimer st"
  using assms unfolding typing_inv_def by blast

lemma typing_inv_fresh: "typing_inv st \<Longrightarrow> ty_timers st (ty_nextTimer st) = None"
  unfolding typing_inv_def by blast

lemma typing_drop_inv:
  assumes inv: "typing_inv st"
  shows "typing_inv (typing_drop k st)"
proof (cases "ty_states st k")
  case None
  then have "ty_states st = (ty_states st)(k := None)" by auto
  then show ?thesis using None inv by (simp add: typing_drop_def clearTimer_def typing_inv_def)
next
  case (Some e0)
  note t0 = typing_inv_timer [OF inv Some]
  have dr: "ty_states (typing_drop k st) = (ty_states st)(k := None)" "ty_timers (typing_drop k st) = (ty_timers st)(te_timer e0 := None)"
    "ty_nextTimer (typing_drop k st) = ty_nextTimer st" using Some by (simp_all add: typing_drop_def clearTimer_def)
  show ?thesis
  proof (rule typing_invI, unfold dr)
    fix k' e assume a: "((ty_states st)(k := None)) k' = Some e"
    then have e: "ty_states st k' = Some e" "k' \<noteq> k" by (auto split: if_splits)
    from typing_inv_timer [OF inv e(1)] t0 e(2) show "((ty_timers st)(te_timer e0 := None)) (te_timer e) = Some (k', te_expiresAt e)" by auto
  next
    fix i k' due assume a: "((ty_timers st)(te_timer e0 := None)) i = Some (k', due)"
    then have t: "ty_timers st i = Some (k', due)" "i \<noteq> te_timer e0" by (auto split: if_splits)
    from typing_inv_entry [OF inv t(1)] obtain e where e: "ty_states st k' = Some e" "te_timer e = i" "te_expiresAt e = due" "i < ty_nextTimer st" .
    then show "i < ty_nextTimer st \<and> (\<exists>e. ((ty_states st)(k := None)) k' = Some e \<and> te_timer e = i \<and> te_expiresAt e = due)" using Some t(2) by auto
  qed
qed

lemma clearTyping_drop: "typing_inv (snd (clearTyping k now st)) = typing_inv (typing_drop k st)"
  by (cases "ty_states st k") (simp_all add: clearTyping_def typing_drop_def clearTimer_def typing_inv_frame Let_def)

lemma clearTyping_inv: "typing_inv st \<Longrightarrow> typing_inv (snd (clearTyping k now st))"
  by (simp add: clearTyping_drop typing_drop_inv)

lemma setTyping_inv: "typing_inv st \<Longrightarrow> typing_inv (snd (setTyping k s now st))"
proof -
  assume inv: "typing_inv st"
  define d where "d = typing_drop k st"
  have d: "typing_inv d" using typing_drop_inv [OF inv, of k] by (simp add: d_def)
  have dk: "ty_states d k = None" by (simp add: d_def typing_drop_def)
  define st2 where "st2 = d\<lparr>ty_timers := (ty_timers d)(ty_nextTimer d \<mapsto> (k, now + TYPING_IDLE_TIMEOUT_MS)), ty_nextTimer := Suc (ty_nextTimer d),
     ty_states := (ty_states d)(k \<mapsto> \<lparr>te_staffId = s, te_expiresAt = now + TYPING_IDLE_TIMEOUT_MS, te_timer = ty_nextTimer d\<rparr>)\<rparr>"
  have st2: "ty_states st2 = (ty_states d)(k \<mapsto> \<lparr>te_staffId = s, te_expiresAt = now + TYPING_IDLE_TIMEOUT_MS, te_timer = ty_nextTimer d\<rparr>)"
    "ty_timers st2 = (ty_timers d)(ty_nextTimer d \<mapsto> (k, now + TYPING_IDLE_TIMEOUT_MS))" "ty_nextTimer st2 = Suc (ty_nextTimer d)" by (simp_all add: st2_def)
  have "typing_inv st2"
  proof (rule typing_invI, unfold st2)
    fix k' e assume a: "((ty_states d)(k \<mapsto> \<lparr>te_staffId = s, te_expiresAt = now + TYPING_IDLE_TIMEOUT_MS, te_timer = ty_nextTimer d\<rparr>)) k' = Some e"
    show "((ty_timers d)(ty_nextTimer d \<mapsto> (k, now + TYPING_IDLE_TIMEOUT_MS))) (te_timer e) = Some (k', te_expiresAt e)"
    proof (cases "k' = k")
      case False
      with a have "ty_timers d (te_timer e) = Some (k', te_expiresAt e)" using typing_inv_timer [OF d, of k' e] by simp
      then show ?thesis using typing_inv_fresh [OF d] by auto
    qed (use a in auto)
  next
    fix i k' due assume a: "((ty_timers d)(ty_nextTimer d \<mapsto> (k, now + TYPING_IDLE_TIMEOUT_MS))) i = Some (k', due)"
    show "i < Suc (ty_nextTimer d) \<and> (\<exists>e. ((ty_states d)(k \<mapsto> \<lparr>te_staffId = s, te_expiresAt = now + TYPING_IDLE_TIMEOUT_MS, te_timer = ty_nextTimer d\<rparr>)) k' = Some e \<and>
        te_timer e = i \<and> te_expiresAt e = due)"
    proof (cases "i = ty_nextTimer d")
      case False
      with a have "ty_timers d i = Some (k', due)" by simp
      from typing_inv_entry [OF d this] obtain e where "ty_states d k' = Some e" "te_timer e = i" "te_expiresAt e = due" "i < ty_nextTimer d" .
      then show ?thesis using dk by auto
    qed (use a in auto)
  qed
  moreover have "snd (setTyping k s now st) = typing_publish k (True, Some s, now + TYPING_IDLE_TIMEOUT_MS) st2"
    by (cases "ty_states st k") (simp_all add: setTyping_def st2_def d_def typing_drop_def clearTimer_def Let_def)
  ultimately show ?thesis by (simp add: typing_inv_frame)
qed

text \<open>A timer that fires belongs to the current entry of its ticket.\<close>

lemma fire_drop:
  assumes "typing_inv st" and "ty_timers st i = Some (k, due)"
  shows "typing_inv (snd (clearTyping k now (st\<lparr>ty_timers := (ty_timers st)(i := None)\<rparr>)))"
proof -
  from typing_inv_entry [OF assms] obtain e where e: "ty_states st k = Some e" "te_timer e = i" "te_expiresAt e = due" "i < ty_nextTimer st" .
  have "typing_drop k (st\<lparr>ty_timers := (ty_timers st)(i := None)\<rparr>) = typing_drop k st"
    using e by (simp add: typing_drop_def clearTimer_def)
  then show ?thesis using typing_drop_inv [OF assms(1), of k] by (simp add: clearTyping_drop)
qed

lemma typing_step_inv: "typing_inv st \<Longrightarrow> typing_inv (typing_step st a)"
proof (cases "fst a")
  case (Ty_Get k)
  assume "typing_inv st"
  then show ?thesis using Ty_Get by (cases "ty_states st k") (simp_all add: typing_step_def getTyping_def clearTyping_inv)
next
  case (Ty_Fire i)
  assume "typing_inv st"
  then show ?thesis using Ty_Fire fire_drop by (auto simp: typing_step_def typing_fire_def split: option.split)
qed (simp_all add: typing_step_def clearTyping_inv setTyping_inv typing_subscribe_def typing_unsubscribe_def typing_inv_frame)

interpretation typing: step_system typing_step typing_inv
  by unfold_locales (rule typing_step_inv)

text \<open>C38. A typing signal neither sticks nor is cut short: after any sequence of heartbeats, clears, reads and timers, every signal has a timer
  of its own that is set for the moment it expires, and every timer that is set belongs to the signal that is shown for its ticket, so that
  no timer of an earlier heartbeat is left to clear a later one.\<close>

theorem typing_never_sticks:
  "(\<forall>k e. ty_states (run_steps typing_step typing_initial as) k = Some e \<longrightarrow>
      ty_timers (run_steps typing_step typing_initial as) (te_timer e) = Some (k, te_expiresAt e)) \<and>
   (\<forall>i k due. ty_timers (run_steps typing_step typing_initial as) i = Some (k, due) \<longrightarrow>
      (\<exists>e. ty_states (run_steps typing_step typing_initial as) k = Some e \<and> te_timer e = i \<and> te_expiresAt e = due))"
proof -
  have "typing_inv typing_initial" by (simp add: typing_inv_def typing_initial_def)
  from typing.run_inv [OF this, of as] show ?thesis by (simp add: typing_inv_def)
qed

theorem typing_never_sticks_witness:
  "\<exists>e. ty_states (run_steps typing_step typing_initial [(Ty_Set ''t'' ''s'', 0), (Ty_Set ''t'' ''s'', 2)]) ''t'' = Some e \<and>
     te_timer e = 1 \<and> te_expiresAt e = 3002"
proof -
  have "ty_timers (run_steps typing_step typing_initial [(Ty_Set ''t'' ''s'', 0), (Ty_Set ''t'' ''s'', 2)]) 1 = Some (''t'', 3002)"
    by (simp add: typing_step_def setTyping_def clearTimer_def typing_publish_def typing_initial_def TYPING_IDLE_TIMEOUT_MS_def Let_def)
  then show ?thesis using typing_never_sticks [of "[(Ty_Set ''t'' ''s'', 0), (Ty_Set ''t'' ''s'', 2)]"] by blast
qed

text \<open>When the timer of a signal fires, the signal is gone.\<close>

lemma fired_signal_gone:
  assumes "typing_inv st" and "ty_timers st i = Some (k, due)" and "due \<le> now"
  shows "ty_states (typing_fire i now st) k = None"
  using assms by (auto simp: typing_fire_def clearTyping_def clearTimer_def typing_publish_def Let_def split: option.split)

end
