(* ===== verification/Email_Delivery.thy ===== *)
theory Email_Delivery
  imports Json Notifications
begin

text \<open>
  Emails and how to stop them: the signed one-click links (\<open>notifications/unsubscribe.ts\<close>), the job that loads what a queue entry names and
  mails it (\<open>notifications/notification-delivery.processor.ts\<close>) and the route that a link leads to (\<open>notifications.controller.ts\<close>), which
  ends in \<open>unsubscribeFromEmail\<close> of \<open>Notifications\<close>.

  Strings are their UTF-8 bytes and times whole seconds below 2^53. The HMAC gives its bytes and is an argument, as is the clock. Of a template
  only its kind and its arguments are kept, not its text; a missing time of finalization stands for the present one. The address a token is put
  into is left out, and the rows of a job come in the order of the table.
\<close>

section \<open>Printing JSON\<close>

text \<open>\<open>JSON.stringify\<close> of a string, and of an object of strings and non-negative integers.\<close>

definition esc_digit :: "nat \<Rightarrow> char" where
  "esc_digit d = char_of (if d < 10 then 48 + d else 87 + d)"

definition json_esc :: "char \<Rightarrow> string" where
  "json_esc c =
     (if c = CHR 0x22 then [CHR 0x5C, CHR 0x22]
      else if c = CHR 0x5C then [CHR 0x5C, CHR 0x5C]
      else if c = CHR 0x08 then [CHR 0x5C, CHR ''b'']
      else if c = CHR 0x09 then [CHR 0x5C, CHR ''t'']
      else if c = CHR 0x0A then [CHR 0x5C, CHR ''n'']
      else if c = CHR 0x0C then [CHR 0x5C, CHR ''f'']
      else if c = CHR 0x0D then [CHR 0x5C, CHR ''r'']
      else if of_char c < (32 :: nat)
      then [CHR 0x5C, CHR ''u'', CHR ''0'', CHR ''0'', esc_digit (of_char c div 16), esc_digit (of_char c mod 16)]
      else [c])"

definition json_quote :: "string \<Rightarrow> string" where
  "json_quote s = CHR 0x22 # concat (map json_esc s) @ [CHR 0x22]"

datatype flat = FlatStr string | FlatNat nat

definition flat_text :: "flat \<Rightarrow> string" where
  "flat_text v = (case v of FlatStr s \<Rightarrow> json_quote s | FlatNat n \<Rightarrow> show_nat n)"

definition flat_val :: "flat \<Rightarrow> jsval" where
  "flat_val v = (case v of FlatStr s \<Rightarrow> JStr s | FlatNat n \<Rightarrow> JNum (Fin (int n)))"

fun flat_members :: "(string \<times> flat) list \<Rightarrow> string" where
  "flat_members [] = ''}''"
| "flat_members [(k, v)] = json_quote k @ '':'' @ flat_text v @ ''}''"
| "flat_members ((k, v) # m # ms) = json_quote k @ '':'' @ flat_text v @ '','' @ flat_members (m # ms)"

definition JSON_stringify_flat :: "(string \<times> flat) list \<Rightarrow> string" where
  "JSON_stringify_flat ms = ''{'' @ flat_members ms"

section \<open>Links\<close>

record unsubscribe_payload =
  up_userId :: string
  up_scope :: "string option"
  up_exp :: jnum

type_synonym mac = "string \<Rightarrow> string \<Rightarrow> string"

text \<open>The properties in their order: the caller gives the user, the channel and the scope.\<close>

definition unsubscribe_body :: "string \<Rightarrow> string option \<Rightarrow> nat \<Rightarrow> (string \<times> flat) list" where
  "unsubscribe_body userId scope e =
     [(''userId'', FlatStr userId), (''channel'', FlatStr ''email'')] @ (case scope of None \<Rightarrow> [] | Some s \<Rightarrow> [(''scope'', FlatStr s)]) @ [(''exp'', FlatNat e)]"

definition signUnsubscribeToken :: "mac \<Rightarrow> string \<Rightarrow> string \<Rightarrow> string option \<Rightarrow> nat option \<Rightarrow> nat \<Rightarrow> string" where
  "signUnsubscribeToken mac secret userId scope expiry nowSeconds =
     (let e = (case expiry of None \<Rightarrow> nowSeconds + 60 * 60 * 24 * 30 | Some x \<Rightarrow> x);
          encoded = base64url_encode (JSON_stringify_flat (unsubscribe_body userId scope e))
      in encoded @ ''.'' @ base64url_encode (mac secret encoded))"

definition verifyUnsubscribeToken :: "mac \<Rightarrow> string \<Rightarrow> string \<Rightarrow> int \<Rightarrow> unsubscribe_payload option" where
  "verifyUnsubscribeToken mac secret token nowSeconds =
     (if token = [] \<or> CHR ''.'' \<notin> set token then None
      else (case split_on (CHR ''.'') token of
        encoded # signaturePart # _ \<Rightarrow>
          if encoded = [] \<or> signaturePart = [] then None
          else if mac secret encoded \<noteq> base64url_decode signaturePart then None
          else (case JSON_parse (base64url_decode encoded) of
             None \<Rightarrow> None
           | Some v \<Rightarrow>
               (case (json_field v ''userId'', json_field v ''exp'') of
                  (JStr u, JNum e) \<Rightarrow>
                    if js_int_ge nowSeconds e then None
                    else Some \<lparr>up_userId = u, up_scope = (case json_field v ''scope'' of JStr s \<Rightarrow> Some s | _ \<Rightarrow> None), up_exp = e\<rparr>
                | _ \<Rightarrow> None))
      | _ \<Rightarrow> None))"

definition resolveUnsubscribeSecret :: "string option \<Rightarrow> string option \<Rightarrow> string" where
  "resolveUnsubscribeSecret unsubscribeSecret jwtSecret =
     (case unsubscribeSecret of
        Some (c # s) \<Rightarrow> c # s
      | _ \<Rightarrow> (case jwtSecret of Some (c # s) \<Rightarrow> c # s | _ \<Rightarrow> ''niffyinsure-unsubscribe-dev''))"

text \<open>The route.\<close>

definition unsubscribe_route :: "mac \<Rightarrow> string \<Rightarrow> string \<Rightarrow> int \<Rightarrow> preferences \<Rightarrow> (string + bool \<times> string) \<times> preferences" where
  "unsubscribe_route mac secret token now prefs = (case verifyUnsubscribeToken mac secret token now of
     None \<Rightarrow> (Inl ''INVALID_UNSUBSCRIBE_TOKEN'', prefs)
   | Some p \<Rightarrow> (let (r, prefs') = unsubscribeFromEmail (up_userId p) (up_scope p) prefs in (Inr r, prefs')))"

section \<open>Mails\<close>

record mail_row =
  mr_id :: string
  mr_userId :: string
  mr_type :: string
  mr_payload :: jsval

datatype mail_template =
    Claim_Finalized jsval jsval string jsval "jsval option"
  | Policy_Expiry jsval string jsval jsval
  | Plain_Message string string

definition js_or :: "jsval \<Rightarrow> jsval \<Rightarrow> jsval" where
  "js_or a b = (if nullish a then b else a)"

text \<open>Objects only; anything else has no fields.\<close>

definition buildEmailForNotification :: "mail_row \<Rightarrow> mail_template option" where
  "buildEmailForNotification row =
     (let f = json_field (mr_payload row) in
      if mr_type row = ''claim_update'' then
        (let claimId = js_or (f ''claimId'') (f ''recordId'')
         in if claimId = JUndef \<or> f ''policyId'' = JUndef then None
            else Some (Claim_Finalized claimId (f ''policyId'') (mr_userId row) (js_or (f ''outcome'') (JStr ''Approved''))
                   (if nullish (f ''finalizedAt'') then None else Some (f ''finalizedAt''))))
      else if mr_type row = ''renewal_reminder'' then
        (let policyId = js_or (f ''policyId'') (f ''recordId'')
         in if policyId = JUndef then None
            else Some (Policy_Expiry policyId (mr_userId row) (js_or (f ''expiryLedger'') (JNum (Fin 0))) (js_or (f ''timeToExpiry'') (JStr ''soon''))))
      else (case f ''message'' of
              JStr m \<Rightarrow> if m = [] then None else Some (Plain_Message (''NiffyInsure: '' @ mr_type row) m)
            | _ \<Rightarrow> None))"

record outbound_email =
  oe_to :: string
  oe_template :: mail_template
  oe_token :: string

text \<open>The mails of a job, in the order of the rows.\<close>

definition mails_of :: "mac \<Rightarrow> string \<Rightarrow> nat \<Rightarrow> string \<Rightarrow> string \<Rightarrow> mail_row list \<Rightarrow> outbound_email list" where
  "mails_of mac secret now userId email rows =
     List.map_filter (\<lambda>row. map_option (\<lambda>t. \<lparr>oe_to = email, oe_template = t,
        oe_token = signUnsubscribeToken mac secret userId (Some (mr_type row)) None now\<rparr>) (buildEmailForNotification row)) rows"

text \<open>The transport refuses the first mail it cannot send, which ends the job with an error.\<close>

fun send_all :: "(outbound_email \<Rightarrow> bool) \<Rightarrow> outbound_email list \<Rightarrow> bool \<times> outbound_email list" where
  "send_all ok [] = (True, [])"
| "send_all ok (m # ms) = (if ok m then map_prod id (Cons m) (send_all ok ms) else (False, []))"

definition processNotificationDelivery ::
  "mac \<Rightarrow> string \<Rightarrow> nat \<Rightarrow> (outbound_email \<Rightarrow> bool) \<Rightarrow> preferences \<Rightarrow> mail_row list \<Rightarrow> string \<Rightarrow> string list \<Rightarrow> string list \<Rightarrow> bool \<times> outbound_email list" where
  "processNotificationDelivery mac secret now ok prefs table userId recordIds channels =
     (if userId = [] \<or> recordIds = [] \<or> ''email'' \<notin> set channels then (True, [])
      else (case findByUserId prefs userId of
        Some r \<Rightarrow>
          (case (p_emailVerified r, p_email r) of
             (Some True, Some (c # e)) \<Rightarrow>
               send_all ok (mails_of mac secret now userId (c # e) (filter (\<lambda>row. mr_id row \<in> set recordIds \<and> mr_userId row = userId) table))
           | _ \<Rightarrow> (True, []))
      | None \<Rightarrow> (True, [])))"

section \<open>What is printed is read back\<close>

lemma esc_digit_char: "d < 16 \<Longrightarrow> of_char (esc_digit d) = (if d < 10 then 48 + d else 87 + d)"
  by (simp add: esc_digit_def)

lemma esc_digit_value: "d < 16 \<Longrightarrow> is_hex (esc_digit d) \<and> hex_val (esc_digit d) = d"
  by (simp add: is_hex_def hex_val_def is_digit_def digit_val_def esc_digit_char)

lemma hex2_value:
  assumes "n < 32"
  shows "radix_val 16 [CHR ''0'', CHR ''0'', esc_digit (n div 16), esc_digit (n mod 16)] = n"
    and "list_all is_hex [CHR ''0'', CHR ''0'', esc_digit (n div 16), esc_digit (n mod 16)]"
proof -
  have z: "is_hex (CHR ''0'')" "hex_val (CHR ''0'') = 0" by (simp_all add: is_hex_def hex_val_def)
  note d = esc_digit_value [of "n div 16"] esc_digit_value [of "n mod 16"]
  show "radix_val 16 [CHR ''0'', CHR ''0'', esc_digit (n div 16), esc_digit (n mod 16)] = n"
    using assms z d by (simp add: radix_val_def)
  show "list_all is_hex [CHR ''0'', CHR ''0'', esc_digit (n div 16), esc_digit (n mod 16)]"
    using assms z d by simp
qed

lemma json_chars_control:
  assumes "of_char c < (32 :: nat)" and "c \<notin> {CHR 0x08, CHR 0x09, CHR 0x0A, CHR 0x0C, CHR 0x0D}"
  shows "json_chars (json_esc c @ t) = map_option (\<lambda>(a, r). (c # a, r)) (json_chars t)"
proof -
  define n where "n = (of_char c :: nat)"
  have n: "n < 32" "c = char_of n" using assms by (simp_all add: n_def)
  have "c \<noteq> CHR 0x22" "c \<noteq> CHR 0x5C" using assms(1) by auto
  then have "json_esc c = [CHR 0x5C, CHR ''u'', CHR ''0'', CHR ''0'', esc_digit (n div 16), esc_digit (n mod 16)]"
    using assms by (simp add: json_esc_def n_def)
  then show ?thesis using hex2_value [OF n(1)] n by (simp add: utf8_unit_def)
qed

lemma json_chars_esc: "json_chars (json_esc c @ t) = map_option (\<lambda>(a, r). (c # a, r)) (json_chars t)"
proof -
  consider "c = CHR 0x22" | "c = CHR 0x5C" | "c = CHR 0x08" | "c = CHR 0x09" | "c = CHR 0x0A" | "c = CHR 0x0C" | "c = CHR 0x0D"
    | (control) "of_char c < (32 :: nat)" "c \<notin> {CHR 0x08, CHR 0x09, CHR 0x0A, CHR 0x0C, CHR 0x0D}"
    | (plain) "c \<notin> {CHR 0x22, CHR 0x5C, CHR 0x08, CHR 0x09, CHR 0x0A, CHR 0x0C, CHR 0x0D}" "\<not> of_char c < (32 :: nat)"
    by blast
  then show ?thesis
  proof cases
    case control
    then show ?thesis by (rule json_chars_control)
  next
    case plain
    then have "json_esc c = [c]" by (simp add: json_esc_def)
    then show ?thesis using plain by simp
  qed (simp_all add: json_esc_def json_escape_def)
qed

lemma json_chars_quoted: "json_chars (concat (map json_esc s) @ CHR 0x22 # r) = Some (s, r)"
  by (induction s) (simp_all add: json_chars_esc)

lemma json_value_quoted: "json_value (json_quote s @ r) = Some (JStr s, r)"
  by (subst json_value.simps) (simp add: json_quote_def json_chars_quoted)

lemma json_value_nat:
  assumes "r \<noteq> []" and "hd r \<in> {CHR '','', CHR ''}''}"
  shows "json_value (show_nat n @ r) = Some (JNum (Fin (int n)), r)"
proof -
  have num: "json_number (show_nat n @ r) = Some (Fin (int n), r)"
    by (rule json_number_show_nat) (use assms in \<open>auto simp: is_digit_def lower_char_def\<close>)
  obtain c s where cs: "show_nat n = c # s" by (cases "show_nat n") auto
  have "is_digit c" using hd_show_nat_digit [of n] cs by simp
  then have "c \<noteq> CHR 0x22 \<and> c \<noteq> CHR ''['' \<and> c \<noteq> CHR ''{'' \<and> c \<noteq> CHR ''t'' \<and> c \<noteq> CHR ''f'' \<and> c \<noteq> CHR ''n''" by (auto simp: is_digit_def)
  then show ?thesis using num cs by (subst json_value.simps) simp
qed

lemma json_value_flat:
  assumes "r \<noteq> []" and "hd r \<in> {CHR '','', CHR ''}''}"
  shows "json_value (flat_text v @ r) = Some (flat_val v, r)"
  by (cases v) (simp_all add: flat_text_def flat_val_def json_value_quoted json_value_nat [OF assms])

lemma flat_text_ws: "json_ws (flat_text v @ r) = flat_text v @ r" "flat_text v \<noteq> []"
proof -
  have "hd (show_nat n) \<notin> {CHR '' '', CHR 0x09, CHR 0x0A, CHR 0x0D}" for n using hd_show_nat_digit [of n] by (auto simp: is_digit_def)
  then have "hd (flat_text v) \<notin> {CHR '' '', CHR 0x09, CHR 0x0A, CHR 0x0D}" by (cases v) (simp_all add: flat_text_def json_quote_def)
  moreover show "flat_text v \<noteq> []" by (cases v) (simp_all add: flat_text_def json_quote_def)
  ultimately show "json_ws (flat_text v @ r) = flat_text v @ r" using json_ws_id by (metis hd_append2)
qed

lemma json_ws_sep: "json_ws (CHR '':'' # t) = CHR '':'' # t" "json_ws (CHR '','' # t) = CHR '','' # t" "json_ws (CHR ''}'' # t) = CHR ''}'' # t"
  "json_ws (CHR 0x22 # t) = CHR 0x22 # t" "json_ws (CHR ''{'' # t) = CHR ''{'' # t"
  by (simp_all add: json_ws_def)

lemma json_members_flat: "ms \<noteq> [] \<Longrightarrow> json_members (flat_members ms @ r) = Some (map (apsnd flat_val) ms, r)"
proof (induction ms rule: flat_members.induct)
  case (2 k v)
  have "json_value (flat_text v @ ''}'' @ r) = Some (flat_val v, ''}'' @ r)" by (rule json_value_flat) simp_all
  then show ?case
    by (subst json_members.simps) (simp add: json_quote_def json_chars_quoted json_ws_sep flat_text_ws)
next
  case (3 k v m ms)
  have val: "json_value (flat_text v @ '','' @ flat_members (m # ms) @ r) = Some (flat_val v, '','' @ flat_members (m # ms) @ r)"
    by (rule json_value_flat) simp_all
  have "\<exists>t. flat_members (m # ms) = CHR 0x22 # t" by (cases ms; cases m) (simp_all add: json_quote_def)
  then have ws: "json_ws (flat_members (m # ms) @ r) = flat_members (m # ms) @ r" by (auto simp: json_ws_sep)
  show ?case using val "3.IH" ws
    by (subst json_members.simps) (simp add: json_quote_def json_chars_quoted json_ws_sep flat_text_ws)
qed simp

lemma JSON_parse_flat: "ms \<noteq> [] \<Longrightarrow> JSON_parse (JSON_stringify_flat ms) = Some (JObj (map (apsnd flat_val) ms))"
proof -
  assume ms: "ms \<noteq> []"
  then have "\<exists>t. flat_members ms = CHR 0x22 # t" by (cases ms rule: flat_members.cases) (simp_all add: json_quote_def)
  then have ws: "json_ws (flat_members ms) = flat_members ms" "hd (flat_members ms) \<noteq> CHR ''}''" by (auto simp: json_ws_sep)
  have "json_value (CHR ''{'' # flat_members ms) = Some (JObj (map (apsnd flat_val) ms), [])"
    using json_members_flat [OF ms, of "[]"] ws by (subst json_value.simps) simp
  then show ?thesis by (simp add: JSON_parse_def JSON_stringify_flat_def json_ws_sep json_ws_def)
qed

section \<open>Properties of links\<close>

lemma split_on_two: "c \<notin> set a \<Longrightarrow> c \<notin> set b \<Longrightarrow> split_on c (a @ c # b) = [a, b]"
proof (induction a)
  case Nil
  have "split_on c b = [b]" using Nil.prems(2) by (induction b) auto
  then show ?case by simp
qed auto

text \<open>A link that was sent is understood: for every user, scope and time of issue, the token verifies with the same secret until it expires, and
  names the user, the scope and the time of expiry it was signed for.\<close>

lemma link_verifies:
  assumes "mac secret (base64url_encode (JSON_stringify_flat (unsubscribe_body userId scope e))) \<noteq> []" and "now < int e"
  shows "verifyUnsubscribeToken mac secret (signUnsubscribeToken mac secret userId scope (Some e) issued) now =
    Some \<lparr>up_userId = userId, up_scope = scope, up_exp = Fin (int e)\<rparr>"
proof -
  define body where "body = unsubscribe_body userId scope e"
  define enc where "enc = base64url_encode (JSON_stringify_flat body)"
  have ne: "body \<noteq> []" by (simp add: body_def unsubscribe_body_def)
  have enc_ne: "enc \<noteq> []" unfolding enc_def by (rule base64url_nonempty) (simp add: JSON_stringify_flat_def)
  have sig_ne: "base64url_encode (mac secret enc) \<noteq> []" by (rule base64url_nonempty) (use assms(1) in \<open>simp add: enc_def body_def\<close>)
  have parts: "split_on (CHR ''.'') (enc @ CHR ''.'' # base64url_encode (mac secret enc)) = [enc, base64url_encode (mac secret enc)]"
    by (rule split_on_two) (simp_all add: enc_def base64url_no_dot)
  have parsed: "JSON_parse (base64url_decode enc) = Some (JObj (map (apsnd flat_val) body))"
    by (simp add: enc_def base64url_roundtrip JSON_parse_flat [OF ne])
  have fields: "json_field (JObj (map (apsnd flat_val) body)) ''userId'' = JStr userId" "json_field (JObj (map (apsnd flat_val) body)) ''exp'' = JNum (Fin (int e))"
    "json_field (JObj (map (apsnd flat_val) body)) ''scope'' = (case scope of None \<Rightarrow> JUndef | Some s \<Rightarrow> JStr s)"
    by (cases scope; simp add: json_field_def body_def unsubscribe_body_def flat_val_def)+
  have tok: "signUnsubscribeToken mac secret userId scope (Some e) issued = enc @ CHR ''.'' # base64url_encode (mac secret enc)"
    by (simp add: signUnsubscribeToken_def enc_def body_def Let_def)
  show ?thesis unfolding tok using parts enc_ne sig_ne parsed fields assms(2)
    by (cases scope) (simp_all add: verifyUnsubscribeToken_def base64url_roundtrip js_int_ge_def)
qed

text \<open>What is accepted carries the signature of its own text, and the signature of another text or secret does not do.\<close>

lemma accepted_is_signed:
  assumes "verifyUnsubscribeToken mac secret token now = Some p"
  obtains encoded sig rest where "split_on (CHR ''.'') token = encoded # sig # rest" "base64url_decode sig = mac secret encoded"
    "\<exists>v. JSON_parse (base64url_decode encoded) = Some v \<and> json_field v ''userId'' = JStr (up_userId p)"
  using assms by (auto simp: verifyUnsubscribeToken_def split: if_splits list.splits option.splits jsval.splits)

text \<open>The route changes the preferences of the user of the token only, and nothing without a valid one.\<close>

lemma route_other_users: "(\<And>p. verifyUnsubscribeToken mac secret token now = Some p \<Longrightarrow> up_userId p \<noteq> u) \<Longrightarrow>
    snd (unsubscribe_route mac secret token now prefs) u = prefs u"
  by (auto simp: unsubscribe_route_def case_prod_unfold Let_def unsubscribe_other_user split: option.split)

section \<open>Properties of mails\<close>

lemma send_all_sent: "set (snd (send_all ok ms)) \<subseteq> set ms"
  by (induction ms) (auto simp: map_prod_def split: prod.splits)

text \<open>C39. A mail goes to its owner and can be stopped: every mail of a job is addressed to the verified address of the user of the job, is rendered from
  a row that the job names and that belongs to that user, and, within thirty days, posting its token to the route turns email off for the type of that row, if it is one
  of the types that preferences know.\<close>

theorem mail_can_be_stopped:
  assumes "m \<in> set (snd (processNotificationDelivery mac secret issued ok prefs table userId recordIds channels))"
    and "\<And>x. mac secret x \<noteq> []" and "now < int issued + 2592000"
  shows "\<exists>r row. findByUserId prefs userId = Some r \<and> p_emailVerified r = Some True \<and> p_email r = Some (oe_to m) \<and>
    row \<in> set table \<and> mr_userId row = userId \<and> mr_id row \<in> set recordIds \<and> buildEmailForNotification row = Some (oe_template m) \<and>
    (\<forall>t. type_name t = mr_type row \<longrightarrow>
       \<not> er_email (rt_events (getRoutingPreferences userId (snd (unsubscribe_route mac secret (oe_token m) now prefs'))) t))"
proof -
  obtain r e where r: "findByUserId prefs userId = Some r" "p_emailVerified r = Some True" "p_email r = Some e"
    and m: "m \<in> set (mails_of mac secret issued userId e (filter (\<lambda>row. mr_id row \<in> set recordIds \<and> mr_userId row = userId) table))"
    using assms(1) send_all_sent [of ok] by (auto simp: processNotificationDelivery_def split: if_splits option.splits bool.splits list.splits)
  from m obtain row t where row: "row \<in> set table" "mr_id row \<in> set recordIds" "mr_userId row = userId" "buildEmailForNotification row = Some t"
    and eq: "m = \<lparr>oe_to = e, oe_template = t, oe_token = signUnsubscribeToken mac secret userId (Some (mr_type row)) None issued\<rparr>"
    by (auto simp: mails_of_def List.map_filter_def split: option.splits)
  have tok: "oe_token m = signUnsubscribeToken mac secret userId (Some (mr_type row)) (Some (issued + 60 * 60 * 24 * 30)) issued"
    by (simp add: eq signUnsubscribeToken_def)
  have "verifyUnsubscribeToken mac secret (oe_token m) now = Some \<lparr>up_userId = userId, up_scope = Some (mr_type row), up_exp = Fin (int (issued + 60 * 60 * 24 * 30))\<rparr>"
    unfolding tok by (rule link_verifies) (use assms(2,3) in simp_all)
  then have route: "snd (unsubscribe_route mac secret (oe_token m) now prefs') = snd (unsubscribeFromEmail userId (Some (mr_type row)) prefs')"
    by (simp add: unsubscribe_route_def split: prod.split)
  have "t' \<in> set (scope_types (Some (mr_type row)))" if "type_name t' = mr_type row" for t'
    using that by (cases t') (auto simp: scope_types_def NOTIFICATION_TYPES_def type_name_def)
  then have "\<forall>t'. type_name t' = mr_type row \<longrightarrow>
      \<not> er_email (rt_events (getRoutingPreferences userId (snd (unsubscribe_route mac secret (oe_token m) now prefs'))) t')"
    by (simp add: route unsubscribe_routing)
  moreover have "p_email r = Some (oe_to m)" "buildEmailForNotification row = Some (oe_template m)" using r row eq by simp_all
  ultimately show ?thesis using r(1,2) row(1-3) by blast
qed

definition demo_mail_row :: mail_row where
  "demo_mail_row = \<lparr>mr_id = ''n1'', mr_userId = ''G1'', mr_type = ''claim_update'', mr_payload = JObj [(''claimId'', JStr ''7''), (''policyId'', JStr ''1'')]\<rparr>"

theorem mail_can_be_stopped_witness:
  "\<exists>m. snd (processNotificationDelivery (\<lambda>k x. k) ''s'' 0 (\<lambda>_. True) demo_prefs [demo_mail_row] ''G1'' [''n1''] [''email'']) = [m] \<and>
     \<not> er_email (rt_events (getRoutingPreferences ''G1'' (snd (unsubscribe_route (\<lambda>k x. k) ''s'' (oe_token m) 5 demo_prefs))) Claim_Update)"
proof -
  let ?k = "\<lambda>k x :: string. k :: string"
  obtain m where m: "snd (processNotificationDelivery ?k ''s'' 0 (\<lambda>_. True) demo_prefs [demo_mail_row] ''G1'' [''n1''] [''email'']) = [m]"
    by (simp add: processNotificationDelivery_def demo_prefs_def findByUserId_def mails_of_def List.map_filter_def demo_mail_row_def
        buildEmailForNotification_def json_field_def js_or_def nullish_def)
  then have "m \<in> set (snd (processNotificationDelivery ?k ''s'' 0 (\<lambda>_. True) demo_prefs [demo_mail_row] ''G1'' [''n1''] [''email'']))" by simp
  from mail_can_be_stopped [OF this, of 5 demo_prefs] obtain row where row: "row \<in> set [demo_mail_row]"
    "\<forall>t. type_name t = mr_type row \<longrightarrow>
       \<not> er_email (rt_events (getRoutingPreferences ''G1'' (snd (unsubscribe_route ?k ''s'' (oe_token m) 5 demo_prefs))) t)" by auto
  moreover have "type_name Claim_Update = mr_type row" using row(1) by (simp add: demo_mail_row_def type_name_def)
  ultimately show ?thesis using m by blast
qed

text \<open>A mail of any other type carries a link that changes nothing.\<close>

lemma other_link_useless:
  assumes "s \<notin> {[], ''*'', ''all'', ''renewal_reminder'', ''claim_update''}"
  shows "unsubscribeFromEmail u (Some s) prefs = ((False, s), prefs)"
  using assms by (auto simp: unsubscribeFromEmail_def scope_types_def NOTIFICATION_TYPES_def type_name_def or_else_def Let_def)

text \<open>A claim update without an outcome is announced as approved; a job that fails in the middle sends its first mails again when it is retried.\<close>

lemma missing_outcome_approved:
  "buildEmailForNotification \<lparr>mr_id = i, mr_userId = u, mr_type = ''claim_update'', mr_payload = JObj [(''claimId'', JStr c), (''policyId'', JStr p)]\<rparr> =
   Some (Claim_Finalized (JStr c) (JStr p) u (JStr ''Approved'') None)"
  by (simp add: buildEmailForNotification_def json_field_def js_or_def nullish_def)

lemma retry_mails_again: "send_all (\<lambda>m. m = a) [a, b] = (False, [a]) \<or> a = b"
  by simp

end
