(* ===== verification/Spec2Isabelle.thy ===== *)
theory Spec2Isabelle
  imports Rate_Limit Indexer Reconciliation Renewal Ssrf Webhook_Auth Webhook_Delivery Auth Notifications
    Event_Stream Tx_Submit Posts Keepers Monitors Tls_Monitor Privacy
    Tenancy Allowlist Cache Idempotency Quotes Ipfs Claim_Finalization
    Ramp Feature_Flags Claim_Board Vote_Panel Appeals Live_Updates
    Admin_Jobs Admin_Export Admin_Config Purchase Staging Graphql
    Support Email_Delivery
begin

text \<open>
  A verification library for the backend of NiffyInsur (\<open>src/backend/src\<close>) and the voting and live parts of its
  front end (\<open>src/frontend/src\<close>), the off-chain half of an insurance application on Stellar. Smart contracts emit events; the \<^bold>\<open>indexer\<close> reads them from the
  RPC node in batches and projects them into PostgreSQL, where the \<^bold>\<open>reconciliation\<close> job corrects
  tallies and the HTTP services read them. The \<^bold>\<open>renewal\<close> service builds unsigned transactions from
  the database and the chain, \<^bold>\<open>authentication\<close> binds a session to a wallet, \<^bold>\<open>rate limits\<close> on Redis
  guard the claim endpoints, \<^bold>\<open>webhooks\<close> are received and sent, and \<^bold>\<open>notifications\<close> are routed to a
  queue.

  \<^bold>\<open>Theories.\<close> Paths are relative to \<open>src/backend/src\<close>.

  \<^item> \<open>Js_Prelude\<close>: the ECMAScript operations the code uses (number and string conversions, \<open>split\<close>,
    \<open>trim\<close>, \<open>toISOString\<close>), statements that may throw as \<open>'s \<Rightarrow> ('e + 'a) \<times> 's\<close>, runs of a step
    function, and the locales \<open>step_system\<close> and \<open>monotone_system\<close> that lift a one-step fact to runs.
  \<^item> \<open>Redis_Model\<close>: Redis commands with refused commands and lost replies, and \<open>RedisService\<close> of
    \<open>cache/redis.service.ts\<close>.
  \<^item> \<open>Rate_Limit\<close>: \<open>rate-limit/*.ts\<close>. The sliding windows are interpretations of the locale
    \<open>sliding_window\<close>, in which the bound on admissions in any window is proved once.
  \<^item> \<open>Event_Schema\<close>, \<open>Address\<close>, \<open>Claims_Db\<close>: decoding of contract events (\<open>events/*.ts\<close>), address
    normalisation (\<open>common/utils/normalize-address.ts\<close>), and the tables of \<open>prisma/schema.prisma\<close> the
    services write, with the locale \<open>record_store\<close> for \<open>findUnique\<close> and \<open>upsert\<close>.
  \<^item> \<open>Indexer\<close>: \<open>indexer/indexer.service.ts\<close>, every event handler included; a batch is a step, so
    exactly-once recording, the monotone cursor and catching up hold for any sequence of batches and
    failures.
  \<^item> \<open>Reconciliation\<close>: \<open>indexer/reconciliation.service.ts\<close>. \<open>Renewal\<close>: \<open>policy/renewal.service.ts\<close>.
  \<^item> \<open>Ssrf\<close>, \<open>Webhook_Auth\<close>: \<open>webhooks/ssrf.ts\<close>; \<open>webhooks/signature.ts\<close>, \<open>verify.ts\<close>, the inbound
    providers and \<open>idempotency.ts\<close>. The address checks are shown equal to a list of address ranges; the verifiers are
    interpretations of the locale \<open>mac_verifier\<close>.
  \<^item> \<open>Auth\<close>: challenge, login, refresh tokens, blacklist and key rotation of \<open>auth/*.ts\<close>; the locale
    \<open>nonce_store\<close> is interpreted for the Redis and the in-memory store.
  \<^item> \<open>Quiet_Hours\<close>, \<open>Notifications\<close>: \<open>notifications/quiet-hours.ts\<close>, the preference types and
    operations, and the dispatcher with its digest buffer, an interpretation of \<open>step_system\<close>. \<open>Email_Delivery\<close>: the mails of a
    queue entry and the signed links that stop them (\<open>notifications/unsubscribe.ts\<close>, \<open>notification-delivery.processor.ts\<close>).
  \<^item> \<open>Webhook_Delivery\<close>: registration with proof of control, subscriptions and their daily
    re-validation, delivery, its queue, retries and dead letters (\<open>webhooks/*.ts\<close>, \<open>queues/*.ts\<close>).
  \<^item> \<open>Event_Stream\<close>: the server-sent event streams; the three registries of connections interpret the
    locale \<open>capped_registry\<close>, so all refine one abstract set of connections.
  \<^item> \<open>Tx_Submit\<close>: \<open>tx/*.ts\<close> and \<open>queues/queue-config.ts\<close>: building, idempotent submission, the job queue.
  \<^item> \<open>Json\<close>, \<open>Pagination\<close>, \<open>Posts\<close>: \<open>JSON.parse\<close> and base64url, \<open>helpers/pagination.ts\<close>, and \<open>posts/*.ts\<close>; array
    and keyset pages interpret the locale \<open>cursor_paging\<close>, in which following the cursors is shown to
    visit everything once.
  \<^item> \<open>Keepers\<close>: the jobs that change database or chain on a schedule: policy expiry, reconciliation of
    \<open>isActive\<close>, finalisation of appeals (\<open>jobs/*.ts\<close>), weekly cleanup (\<open>maintenance/scheduled-cleanup.service.ts\<close>).
  \<^item> \<open>Monitors\<close>, \<open>Tls_Monitor\<close>: the jobs that compare and alert (\<open>maintenance/*.ts\<close>); those that scan in batches
    interpret the locale \<open>entrywise_scan\<close>, the certificate checker's worker pool is a step relation.
  \<^item> \<open>Privacy\<close>: privacy requests, closing of support tickets, data retention (\<open>maintenance/*.ts\<close>). \<open>Support\<close>: tickets, replies,
    FAQ and the typing indicator with its timers (\<open>support/*.ts\<close>).
  \<^item> \<open>Tenancy\<close>: tenant resolution and scoping (\<open>tenant/*.ts\<close>) under the reads of policies
    (\<open>policy/policy-read.service.ts\<close>), whose pages interpret \<open>cursor_paging\<close>; what is read is exact for an
    empty default tenant too.
  \<^item> \<open>Allowlist\<close>: the address ranges of the admin API (\<open>admin/middleware/allowlist.middleware.ts\<close>).
  \<^item> \<open>Cache\<close>, \<open>Idempotency\<close>: \<open>cache/cache.service.ts\<close>, with the interleavings of \<open>wrap\<close> as a step relation, and
    replay of answers (\<open>redis/cache.ts\<close>, \<open>common/middleware/idempotency.middleware.ts\<close>).
  \<^item> \<open>Amounts\<close>, \<open>Premium\<close>, \<open>Quotes\<close>: stroops, the premium engine beside the contract's \<open>premium_pure.rs\<close>, and
    quotes with their cache (\<open>quote/*.ts\<close>, the local premium of \<open>rpc/soroban.service.ts\<close>).
  \<^item> \<open>Evidence_Files\<close>, \<open>Ipfs\<close>: validation of evidence files, the chain of storage providers, uploads and
    pins (\<open>ipfs/**/*.ts\<close>, \<open>claims/services/evidence-upload.service.ts\<close>).
  \<^item> \<open>Soroban_Calls\<close>: every call of the contract in \<open>rpc/soroban.service.ts\<close> and in the protocol routes of
    \<open>admin/admin.controller.ts\<close>, beside the entry points that
    \<open>contracts/niffyinsure/src/lib.rs\<close> declares: transactions for wallets, reads, the keeper's own transactions
    with their confirmation, and submissions queued behind the circuit breaker.
  \<^item> \<open>Reminders\<close>: finalisation of claims past the vote, reminders of the appeal window and of renewals
    (\<open>claims/*.ts\<close>, \<open>policy/renewal-reminder.*.ts\<close>). \<open>Claim_Finalization\<close> puts the former on the keeper.
  \<^item> \<open>Claim_History\<close>, \<open>Claim_Board\<close>: history, timeline and evidence downloads of a claim, comments, quorum and
    deadlines, their caches and the sanitization of texts (\<open>claims/*.ts\<close>, \<open>claims/services/*.ts\<close>).
  \<^item> \<open>Ramp\<close>, \<open>Feature_Flags\<close>: fiat ramps (\<open>ramp/*.ts\<close>, \<open>jobs/ramp-*.ts\<close>) and feature flags (\<open>feature-flags/*.ts\<close>),
    whose cache is an interpretation of \<open>step_system\<close>.
  \<^item> \<open>Commit_Reveal\<close>: hidden voting, in the contract (\<open>commit_reveal.rs\<close>) and in the front end's form, stepper and
    helper modules (\<open>CommitRevealVote.tsx\<close>, \<open>CommitRevealFlow.tsx\<close>, \<open>lib/commitReveal*.ts\<close>); the tallies of the contract
    interpret \<open>step_system\<close>. Writes of other entry points to the same keys are steps of their own.
  \<^item> \<open>Vote_Api\<close>, \<open>Vote_Panel\<close>: the voting client and its quorum rules beside the contract's (\<open>lib/api/vote.ts\<close>,
    \<open>lib/schemas/vote.ts\<close>, \<open>claim.rs\<close>), the routes and the versioning middleware it meets, and the claim voting panel
    with every order of its asynchronous replies (\<open>claim-vote-panel.tsx\<close>, \<open>useClaimVote.ts\<close>).
  \<^item> \<open>Appeals\<close>: the appeals service with its reminders and its monitor (\<open>services/appealService.ts\<close>); an opening is two
    steps, before and after the builder it awaits, so that openings overlap.
  \<^item> \<open>Live_Updates\<close>: the front end's event stream, tally and status polling, optimistic updates and read retries
    (\<open>hooks/useEventStream.ts\<close>, \<open>lib/hooks/*.ts\<close>, \<open>lib/optimistic/*.ts\<close>); the pollers interpret \<open>step_system\<close>.
  \<^item> \<open>Purchase\<close>: the purchase wizard with its stored draft and the review of the quote, and the step that signs and submits
    (\<open>features/purchase-wizard\<close>, \<open>hooks/use-draft-persistence.ts\<close>), before the server of \<open>Vote_Api\<close>.
  \<^item> \<open>Admin_Jobs\<close>: reindex and backfill, from the admin handlers to the workers, over the definitions of \<open>Indexer\<close>;
    \<open>Admin_Export\<close>: the CSV exports against a reader of CSV (\<open>csv_writer\<close> is the contract of the two escapers);
    \<open>Admin_Config\<close>: flags, tenants, removed policies and the breakdown of policies (\<open>admin/*.ts\<close>).
  \<^item> \<open>Staging\<close>: the anonymised copy of production data (\<open>staging\<close>, \<open>maintenance/staging-data-sync.*.ts\<close>), with what it
    shows of the originals as a noninterference theorem. \<open>Graphql\<close>: persisted queries, which guard POST requests only, limits, guards,
    errors and loaders (\<open>graphql\<close>).

  \<^bold>\<open>How code becomes definitions.\<close> One definition per function or method under the source's name; a
  longer body is split where the source has a loop or an inner block. State is a record passed
  explicitly or the state of the exception monad, so a \<open>catch\<close> sees every earlier effect; errors are
  values of a sum or option type. What is not in the source tree is a parameter: HMAC and SHA-256, the
  Ed25519 check, the Stellar SDK (strkeys, XDR), the RPC node, the URL parser and DNS, JWT, Prisma's
  and BullMQ's replies, the clock, random values. What a theorem needs of such a parameter is among
  its hypotheses, and its witness gives a concrete one.

  \<^bold>\<open>Bounds and fuel.\<close> Loops of the source run over data (a batch, the pending
  claims, the replies of \<open>SCAN\<close>) and are structural recursions; unbounded polling is a sequence of
  steps, and catching up within a stated number of steps is a theorem. The polls of the source are bounded and
  keep its bounds: 30 attempts of \<open>poll_until\<close>, 15 repetitions in 30 seconds of \<open>await_found\<close>. Numbers are integers; where
  a conversion can give a non-number it is a \<open>jnum\<close>, Prisma's 32-bit columns refuse what does not
  fit, and IPv4 and IPv6 arithmetic is written with its bounds.

  \<^bold>\<open>Not modelled.\<close> Controllers (except the routes of the claims and the
  admin routes of the protocol), DTO validation and Nest wiring; metrics and
  logging; the schema and resolvers of GraphQL and the rest of the admin module; the front end
  (\<open>src/frontend\<close>, \<open>src/app\<close>) except voting, live updates and the purchase, and the Rust contracts (\<open>src/contracts\<close>) except the premium, hidden voting
  and the quorum: markup, generated clients and thin wrappers around them. Concurrency is modelled where the code defends against it (failed and lost
  Redis replies, repeated batches); two runs of the same job are not interleaved,
  and of the rate limits the theories say what overlapping requests do.
\<close>

end
